(* ===== verification/Prelude.thy ===== *)
theory Prelude
  imports Main "HOL-Library.Word"
begin

text \<open>
  Shared vocabulary of the development: Rust's \<open>Result\<close> as a sum (\<open>Inl\<close> is \<open>Err\<close>, \<open>Inr\<close> is
  \<open>Ok\<close>) with the combinators the sources use (\<open>?\<close>, \<open>map_err\<close>, \<open>ok_or\<close>, \<open>transpose\<close>,
  \<open>collect\<close>), Rust strings as their UTF-8 bytes, \<open>i64\<close> and \<open>Duration\<close> as bounded numbers, and
  the generic facts on lists and keyed rows that the components share.
\<close>

named_theorems result_simps \<open>inversion rules for the Result combinators\<close>
named_theorems op_defs \<open>definitions of the modelled operations\<close>
named_theorems row_defs \<open>record-level helpers of the SQL statements\<close>
named_theorems eval_simps \<open>definitions that evaluate on concrete values\<close>

section \<open>Result\<close>

text \<open>\<open>m?\<close> followed by the rest of the function.\<close>

definition rbind :: "'e + 'a \<Rightarrow> ('a \<Rightarrow> 'e + 'b) \<Rightarrow> 'e + 'b" where
  "rbind m f = (case m of Inl e \<Rightarrow> Inl e | Inr x \<Rightarrow> f x)"

definition map_err :: "('e \<Rightarrow> 'f) \<Rightarrow> 'e + 'a \<Rightarrow> 'f + 'a" where
  "map_err f m = (case m of Inl e \<Rightarrow> Inl (f e) | Inr x \<Rightarrow> Inr x)"

definition ok_or :: "'e \<Rightarrow> 'a option \<Rightarrow> 'e + 'a" where
  "ok_or e m = (case m of None \<Rightarrow> Inl e | Some x \<Rightarrow> Inr x)"

text \<open>\<open>if !b { return Err(e) }\<close>\<close>

definition ensure :: "bool \<Rightarrow> 'e \<Rightarrow> 'e + unit" where
  "ensure b e = (if b then Inr () else Inl e)"

text \<open>\<open>value.map(f).transpose()\<close> on an \<open>Option\<close>.\<close>

definition traverse_opt :: "('a \<Rightarrow> 'e + 'b) \<Rightarrow> 'a option \<Rightarrow> 'e + 'b option" where
  "traverse_opt f m = (case m of None \<Rightarrow> Inr None | Some x \<Rightarrow> rbind (f x) (\<lambda>y. Inr (Some y)))"

text \<open>\<open>iter.map(f).collect::<Result<Vec<_>, _>>()\<close>: the first error wins.\<close>

fun collect_results :: "('a \<Rightarrow> 'e + 'b) \<Rightarrow> 'a list \<Rightarrow> 'e + 'b list" where
  "collect_results f [] = Inr []"
| "collect_results f (x # xs) =
     rbind (f x) (\<lambda>y. rbind (collect_results f xs) (\<lambda>ys. Inr (y # ys)))"

definition is_ok :: "'e + 'a \<Rightarrow> bool" where
  "is_ok m = (case m of Inl _ \<Rightarrow> False | Inr _ \<Rightarrow> True)"

lemma rbind_simps [simp]:
  "rbind (Inl e) f = Inl e"
  "rbind (Inr x) f = f x"
  by (simp_all add: rbind_def)

lemma map_err_simps [simp]:
  "map_err f (Inl e) = Inl (f e)"
  "map_err f (Inr x) = Inr x"
  by (simp_all add: map_err_def)

lemma ok_or_simps [simp]:
  "ok_or e None = Inl e"
  "ok_or e (Some x) = Inr x"
  by (simp_all add: ok_or_def)

lemma ensure_simps [simp]:
  "ensure True e = Inr ()"
  "ensure False e = Inl e"
  by (simp_all add: ensure_def)

lemma traverse_opt_simps [simp]:
  "traverse_opt f None = Inr None"
  "traverse_opt f (Some x) = rbind (f x) (\<lambda>y. Inr (Some y))"
  by (simp_all add: traverse_opt_def)

lemma is_ok_simps [simp]: "\<not> is_ok (Inl e)" "is_ok (Inr x)"
  by (simp_all add: is_ok_def)

lemma is_ok_iff: "is_ok m \<longleftrightarrow> (\<exists>x. m = Inr x)"
  by (cases m) auto

lemma rbind_eq_Inr [result_simps]: "rbind m f = Inr y \<longleftrightarrow> (\<exists>x. m = Inr x \<and> f x = Inr y)"
  by (cases m) auto

lemma rbind_eq_Inl [result_simps]:
  "rbind m f = Inl e \<longleftrightarrow> m = Inl e \<or> (\<exists>x. m = Inr x \<and> f x = Inl e)"
  by (cases m) auto

lemma map_err_eq_Inr [result_simps]: "map_err f m = Inr x \<longleftrightarrow> m = Inr x"
  by (cases m) auto

lemma map_err_eq_Inl [result_simps]: "map_err f m = Inl e \<longleftrightarrow> (\<exists>e'. m = Inl e' \<and> e = f e')"
  by (cases m) auto

lemma ok_or_eq_Inr [result_simps]: "ok_or e m = Inr x \<longleftrightarrow> m = Some x"
  by (cases m) auto

lemma ok_or_eq_Inl [result_simps]: "ok_or e m = Inl e' \<longleftrightarrow> m = None \<and> e' = e"
  by (cases m) auto

lemma ensure_eq_Inr [result_simps]: "ensure b e = Inr u \<longleftrightarrow> b"
  by (simp add: ensure_def)

lemma ensure_eq_Inl [result_simps]: "ensure b e = Inl e' \<longleftrightarrow> \<not> b \<and> e' = e"
  by (auto simp: ensure_def)

lemma traverse_opt_eq_Inr [result_simps]:
  "traverse_opt f m = Inr r \<longleftrightarrow>
     (m = None \<and> r = None) \<or> (\<exists>x y. m = Some x \<and> f x = Inr y \<and> r = Some y)"
  by (cases m) (auto simp: result_simps)

lemma traverse_opt_id:
  "(\<And>x. m = Some x \<Longrightarrow> f x = Inr (g x)) \<Longrightarrow> traverse_opt f m = Inr (map_option g m)"
  by (cases m) auto

lemma collect_results_map:
  "(\<And>x. x \<in> set xs \<Longrightarrow> f x = Inr (g x)) \<Longrightarrow> collect_results f xs = Inr (map g xs)"
  by (induction xs) auto

lemma collect_results_Inr_iff:
  "collect_results f xs = Inr ys \<longleftrightarrow> list_all2 (\<lambda>x y. f x = Inr y) xs ys"
  by (induction xs arbitrary: ys) (auto simp: result_simps list_all2_Cons1)

lemma collect_results_length: "collect_results f xs = Inr ys \<Longrightarrow> length ys = length xs"
  by (auto simp: collect_results_Inr_iff dest: list_all2_lengthD)

lemma collect_results_is_ok:
  "is_ok (collect_results f xs) \<longleftrightarrow> (\<forall>x \<in> set xs. is_ok (f x))"
proof (induction xs)
  case (Cons x xs)
  then show ?case by (cases "f x"; cases "collect_results f xs") auto
qed simp

section \<open>Rust strings\<close>

text \<open>
  A Rust \<open>String\<close> is its UTF-8 byte sequence, here a \<open>string\<close> (a \<open>char list\<close> of bytes):
  \<open>len()\<close> is \<open>length\<close>. \<open>utf8_chars\<close> is \<open>chars()\<close>: the Unicode scalar values the bytes
  encode (a Rust string is always valid UTF-8; on other input the value is irrelevant).
\<close>

abbreviation byte_of :: "char \<Rightarrow> nat" where
  "byte_of c \<equiv> of_char c"

definition is_ascii_lowercase :: "char \<Rightarrow> bool" where
  "is_ascii_lowercase c \<longleftrightarrow> 97 \<le> byte_of c \<and> byte_of c \<le> 122"

definition is_ascii_uppercase :: "char \<Rightarrow> bool" where
  "is_ascii_uppercase c \<longleftrightarrow> 65 \<le> byte_of c \<and> byte_of c \<le> 90"

definition is_ascii_digit :: "char \<Rightarrow> bool" where
  "is_ascii_digit c \<longleftrightarrow> 48 \<le> byte_of c \<and> byte_of c \<le> 57"

definition is_ascii_alphanumeric :: "char \<Rightarrow> bool" where
  "is_ascii_alphanumeric c \<longleftrightarrow>
     is_ascii_lowercase c \<or> is_ascii_uppercase c \<or> is_ascii_digit c"

definition continuation_bits :: "nat \<Rightarrow> string \<Rightarrow> nat" where
  "continuation_bits i bs = (if i < length bs then byte_of (bs ! i) mod 64 else 0)"

fun utf8_chars :: "string \<Rightarrow> nat list" where
  "utf8_chars [] = []"
| "utf8_chars (b # bs) =
     (let n = byte_of b in
      if n < 128 then n # utf8_chars bs
      else if n < 224 then (n mod 32 * 64 + continuation_bits 0 bs) # utf8_chars (drop 1 bs)
      else if n < 240 then
        (n mod 16 * 4096 + continuation_bits 0 bs * 64 + continuation_bits 1 bs)
          # utf8_chars (drop 2 bs)
      else
        (n mod 8 * 262144 + continuation_bits 0 bs * 4096 + continuation_bits 1 bs * 64
          + continuation_bits 2 bs) # utf8_chars (drop 3 bs))"

text \<open>\<open>char::is_whitespace\<close> (Unicode \<open>White_Space\<close>) and \<open>char::is_control\<close> (category \<open>Cc\<close>).\<close>

definition is_whitespace :: "nat \<Rightarrow> bool" where
  "is_whitespace c \<longleftrightarrow>
     (9 \<le> c \<and> c \<le> 13) \<or> c = 32 \<or> c = 133 \<or> c = 160 \<or> c = 5760
     \<or> (8192 \<le> c \<and> c \<le> 8202) \<or> c = 8232 \<or> c = 8233 \<or> c = 8239 \<or> c = 8287 \<or> c = 12288"

definition is_control :: "nat \<Rightarrow> bool" where
  "is_control c \<longleftrightarrow> c < 32 \<or> (127 \<le> c \<and> c < 160)"

text \<open>\<open>str::trim\<close>, on scalar values.\<close>

definition trim_chars :: "nat list \<Rightarrow> nat list" where
  "trim_chars cs = rev (dropWhile is_whitespace (rev (dropWhile is_whitespace cs)))"

definition strip_prefix :: "string \<Rightarrow> string \<Rightarrow> string option" where
  "strip_prefix p s = (if take (length p) s = p then Some (drop (length p) s) else None)"

text \<open>\<open>str::split\<close> on a character.\<close>

fun split_on :: "char \<Rightarrow> string \<Rightarrow> string list" where
  "split_on c [] = [[]]"
| "split_on c (x # xs) =
     (if x = c then [] # split_on c xs
      else case split_on c xs of [] \<Rightarrow> [[x]] | w # ws \<Rightarrow> (x # w) # ws)"

text \<open>\<open>{:02x}\<close> of a byte.\<close>

definition hex_digit :: "nat \<Rightarrow> char" where
  "hex_digit n = ''0123456789abcdef'' ! n"

definition hex_byte :: "8 word \<Rightarrow> string" where
  "hex_byte b = [hex_digit (unat b div 16), hex_digit (unat b mod 16)]"

lemma strip_prefix_Some: "strip_prefix p s = Some r \<longleftrightarrow> s = p @ r"
  by (auto simp: strip_prefix_def) (metis append_take_drop_id)

lemma strip_prefix_append [simp]: "strip_prefix p (p @ s) = Some s"
  by (simp add: strip_prefix_def)

lemma strip_prefix_snoc [simp]: "strip_prefix (p @ [c]) (p @ c # s) = Some s"
  by (simp add: strip_prefix_def)

lemmas [eval_simps] =
  is_ascii_alphanumeric_def is_ascii_lowercase_def is_ascii_uppercase_def is_ascii_digit_def
  is_whitespace_def is_control_def trim_chars_def strip_prefix_def

section \<open>Machine integers and durations\<close>

text \<open>
  \<open>i64\<close> values are integers; where the source checks for overflow the bound is written out.
  A \<open>Duration\<close> is its total number of nanoseconds (\<open>u64\<close> seconds plus nanoseconds).
\<close>

abbreviation (input) i64_max :: int where
  "i64_max \<equiv> 9223372036854775807"

abbreviation (input) u64_max :: int where
  "u64_max \<equiv> 18446744073709551615"

type_synonym Duration = nat

definition as_millis :: "Duration \<Rightarrow> int" where
  "as_millis d = int (d div 1000000)"

definition as_secs :: "Duration \<Rightarrow> int" where
  "as_secs d = int (d div 1000000000)"

definition from_secs :: "nat \<Rightarrow> Duration" where
  "from_secs s = s * 1000000000"

text \<open>\<open>Duration::MAX\<close>, where saturating operations stop.\<close>

definition duration_max :: Duration where
  "duration_max = nat u64_max * 1000000000 + 999999999"

definition i64_try_from :: "int \<Rightarrow> int option" where
  "i64_try_from n = (if - i64_max - 1 \<le> n \<and> n \<le> i64_max then Some n else None)"

definition i64_checked_add :: "int \<Rightarrow> int \<Rightarrow> int option" where
  "i64_checked_add a b = i64_try_from (a + b)"

lemma as_millis_nonneg [simp]: "0 \<le> as_millis d"
  by (simp add: as_millis_def)

lemma as_millis_ge_neg [simp]: "- numeral k \<le> as_millis d"
  by (rule order_trans [OF _ as_millis_nonneg]) simp

lemma as_millis_from_secs [simp]: "as_millis (from_secs s) = int s * 1000"
  by (simp add: as_millis_def from_secs_def)

lemma as_secs_from_secs [simp]: "as_secs (from_secs s) = int s"
  by (simp add: as_secs_def from_secs_def)

end
