(* ===== verification/Json_Value.thy ===== *)
theory Json_Value
  imports Prelude
begin

text \<open>
  JSON documents as \<open>serde_json::Value\<close> holds them, the accessors the sources call on them, and a way
  to write down a fallible computation that threads a state. Encoding and decoding belong to
  \<open>serde_json\<close>: they are a parameter (\<open>json_lib\<close>).
\<close>

section \<open>Values\<close>

datatype json_number = PosInt nat | NegInt int | Float string

text \<open>An object is the list of its fields, each key once.\<close>

datatype json =
    JNull
  | JBool bool
  | JNumber json_number
  | JString string
  | JArray "json list"
  | JObject "(string \<times> json) list"

abbreviation json_u64 :: "nat \<Rightarrow> json" where
  "json_u64 n \<equiv> JNumber (PosInt n)"

text \<open>\<open>Value::get\<close> with a key: only an object has fields.\<close>

fun json_get :: "string \<Rightarrow> json \<Rightarrow> json option" where
  "json_get key (JObject fields) = map_of fields key"
| "json_get key _ = None"

text \<open>
  \<open>Value::pointer\<close>, on the reference tokens of the pointer. The sources use fixed pointers whose tokens
  are field names, and a field name is no index of an array.
\<close>

fun json_pointer :: "string list \<Rightarrow> json \<Rightarrow> json option" where
  "json_pointer [] v = Some v"
| "json_pointer (token # tokens) v = Option.bind (json_get token v) (json_pointer tokens)"

fun as_str :: "json \<Rightarrow> string option" where
  "as_str (JString s) = Some s"
| "as_str _ = None"

fun as_u64 :: "json \<Rightarrow> nat option" where
  "as_u64 (JNumber (PosInt n)) = Some n"
| "as_u64 _ = None"

fun as_bool :: "json \<Rightarrow> bool option" where
  "as_bool (JBool b) = Some b"
| "as_bool _ = None"

fun as_array :: "json \<Rightarrow> json list option" where
  "as_array (JArray xs) = Some xs"
| "as_array _ = None"

fun as_object :: "json \<Rightarrow> (string \<times> json) list option" where
  "as_object (JObject fields) = Some fields"
| "as_object _ = None"

fun is_number :: "json \<Rightarrow> bool" where
  "is_number (JNumber _) = True"
| "is_number _ = False"

abbreviation is_string :: "json \<Rightarrow> bool" where
  "is_string v \<equiv> as_str v \<noteq> None"

abbreviation is_object :: "json \<Rightarrow> bool" where
  "is_object v \<equiv> as_object v \<noteq> None"

text \<open>\<open>value.get(key).and_then(Value::as_str)\<close>\<close>

definition str_field :: "string \<Rightarrow> json \<Rightarrow> string option" where
  "str_field key v = Option.bind (json_get key v) as_str"

text \<open>\<open>Option::filter\<close>\<close>

definition option_filter :: "('a \<Rightarrow> bool) \<Rightarrow> 'a option \<Rightarrow> 'a option" where
  "option_filter P m = (case m of Some x \<Rightarrow> if P x then Some x else None | None \<Rightarrow> None)"

lemma option_filter_Some [simp]: "option_filter P m = Some x \<longleftrightarrow> m = Some x \<and> P x"
  by (auto simp: option_filter_def split: option.splits)

lemma str_field_Some: "str_field key v = Some s \<longleftrightarrow> json_get key v = Some (JString s)"
  by (auto simp: str_field_def bind_eq_Some_conv elim!: as_str.elims)

section \<open>Encoding and decoding\<close>

text \<open>\<open>serde_json::to_vec\<close> (and \<open>to_string\<close>) and \<open>serde_json::from_slice\<close>.\<close>

record json_lib =
  to_vec :: "json \<Rightarrow> string option"
  from_slice :: "string \<Rightarrow> json option"

section \<open>Fallible operations on a state\<close>

type_synonym ('s, 'e, 'a) op = "'s \<Rightarrow> ('e + 'a) \<times> 's"

definition op_bind :: "('s, 'e, 'a) op \<Rightarrow> ('a \<Rightarrow> ('s, 'e, 'b) op) \<Rightarrow> ('s, 'e, 'b) op" where
  "op_bind m f s = (case m s of (Inl e, s') \<Rightarrow> (Inl e, s') | (Inr x, s') \<Rightarrow> f x s')"

definition op_return :: "'e + 'a \<Rightarrow> ('s, 'e, 'a) op" where
  "op_return r s = (r, s)"

lemma op_return_simp [simp]: "op_return r s = (r, s)"
  by (simp add: op_return_def)

text \<open>
  Hoare-style reasoning on operations: from a state where \<open>P\<close> holds, the operation ends in one where
  \<open>Q\<close> holds of the value it returned, or \<open>E\<close> where it failed.
\<close>

definition op_triple :: "('s \<Rightarrow> bool) \<Rightarrow> ('s, 'e, 'a) op \<Rightarrow> ('a \<Rightarrow> 's \<Rightarrow> bool) \<Rightarrow> ('s \<Rightarrow> bool) \<Rightarrow> bool" where
  "op_triple P m Q E \<longleftrightarrow> (\<forall>s. P s \<longrightarrow> (case m s of (Inl _, s') \<Rightarrow> E s' | (Inr x, s') \<Rightarrow> Q x s'))"

lemma op_tripleI:
  assumes "\<And>s e s'. P s \<Longrightarrow> m s = (Inl e, s') \<Longrightarrow> E s'" and "\<And>s x s'. P s \<Longrightarrow> m s = (Inr x, s') \<Longrightarrow> Q x s'"
  shows "op_triple P m Q E"
  using assms by (fastforce simp: op_triple_def split: prod.splits sum.splits)

lemma op_triple_Inl: "op_triple P m Q E \<Longrightarrow> P s \<Longrightarrow> m s = (Inl e, s') \<Longrightarrow> E s'"
  by (fastforce simp: op_triple_def)

lemma op_triple_Inr: "op_triple P m Q E \<Longrightarrow> P s \<Longrightarrow> m s = (Inr x, s') \<Longrightarrow> Q x s'"
  by (fastforce simp: op_triple_def)

lemma op_bind_cases:
  assumes "op_bind m f s = (r, s'')"
  obtains (failed) e where "m s = (Inl e, s'')" and "r = Inl e"
  | (went_on) x s' where "m s = (Inr x, s')" and "f x s' = (r, s'')"
  using assms by (cases "m s"; cases "fst (m s)") (auto simp: op_bind_def)

lemma op_triple_bind:
  assumes first: "op_triple P m R E" and rest: "\<And>x. op_triple (R x) (f x) Q E"
  shows "op_triple P (op_bind m f) Q E"
proof (rule op_tripleI)
  fix s e s' assume "P s" "op_bind m f s = (Inl e, s')"
  then show "E s'"
    by (elim op_bind_cases) (blast intro: op_triple_Inl [OF first] op_triple_Inl [OF rest] op_triple_Inr [OF first])+
next
  fix s x s' assume "P s" "op_bind m f s = (Inr x, s')"
  then show "Q x s'"
    by (elim op_bind_cases) (auto intro: op_triple_Inr [OF rest] op_triple_Inr [OF first])
qed

lemma op_triple_return: "(\<And>s. P s \<Longrightarrow> case r of Inl _ \<Rightarrow> E s | Inr x \<Rightarrow> Q x s) \<Longrightarrow> op_triple P (op_return r) Q E"
  by (auto simp: op_triple_def split: sum.splits)

lemma op_triple_weaken:
  "op_triple P m Q E \<Longrightarrow> (\<And>s. P' s \<Longrightarrow> P s) \<Longrightarrow> (\<And>x s. Q x s \<Longrightarrow> Q' x s) \<Longrightarrow> (\<And>s. E s \<Longrightarrow> E' s) \<Longrightarrow> op_triple P' m Q' E'"
  unfolding op_triple_def by (fastforce split: prod.splits sum.splits)

end
