(* ===== verification/Codex_Turn.thy ===== *)
theory Codex_Turn
  imports Codex_Wire
begin

text \<open>
  One Codex turn that a pending message wakes (\<open>AppServerClient\<close> of
  \<open>psst-codex/src/app_server.rs\<close>): the handshake that opens the thread, \<open>turn/start\<close>, and the loop that
  forwards the turn's tool calls to the Psst MCP server until the turn completes. The abstract
  specification is a ledger kept from the wire alone: which messages a wake turn may acknowledge.
\<close>

section \<open>The client\<close>

datatype ThreadPolicy = Resume string | Create string

record AppServerConfig =
  cfg_command :: string
  cfg_mcp_command :: string
  cfg_mcp_environment :: "(string \<times> string) list"
  cfg_thread :: ThreadPolicy
  cfg_cwd :: string

record AppServerClient =
  asc_protocol :: JsonLines
  asc_thread_id :: string
  asc_cwd :: string
  asc_next_id :: nat
  asc_retrieved :: "string set"

type_synonym 'a client_op = "(AppServerClient, AppServerError, 'a) op"

definition on_wire :: "(JsonLines, AppServerError, 'a) op \<Rightarrow> 'a client_op" where
  "on_wire m self = (case m (asc_protocol self) of (r, protocol) \<Rightarrow> (r, self\<lparr>asc_protocol := protocol\<rparr>))"

text \<open>\<open>let id = self.next_id; self.next_id = self.next_id.checked_add(1).ok_or(Protocol)?\<close>\<close>

definition take_id :: "nat client_op" where
  "take_id self =
     (if int (asc_next_id self) + 1 > u64_max then (Inl Protocol, self)
      else (Inr (asc_next_id self), self\<lparr>asc_next_id := asc_next_id self + 1\<rparr>))"

definition dynamic_tools :: json where
  "dynamic_tools = JArray [
     JObject [(''type'', JString ''function''), (''name'', JString RECEIVE_TOOL),
       (''description'', JString ''Retrieve pending Psst messages. Retrieval does not acknowledge them.''),
       (''inputSchema'', JObject [
         (''type'', JString ''object''),
         (''properties'', JObject [
           (''limit'', JObject [(''type'', JString ''integer''), (''minimum'', json_u64 1), (''maximum'', json_u64 100)]),
           (''wait_seconds'', JObject [(''type'', JString ''integer''), (''minimum'', json_u64 0), (''maximum'', json_u64 30)]),
           (''acknowledge_ids'', JObject [(''type'', JString ''array''), (''items'', JObject [(''type'', JString ''string'')]),
             (''maxItems'', json_u64 0)])]),
         (''required'', JArray [JString ''acknowledge_ids'']),
         (''additionalProperties'', JBool False)])],
     JObject [(''type'', JString ''function''), (''name'', JString ACKNOWLEDGE_TOOL),
       (''description'', JString ''Acknowledge Psst messages only after they have been processed.''),
       (''inputSchema'', JObject [
         (''type'', JString ''object''),
         (''properties'', JObject [
           (''message_ids'', JObject [(''type'', JString ''array''), (''items'', JObject [(''type'', JString ''string'')]),
             (''minItems'', json_u64 1), (''maxItems'', json_u64 100)])]),
         (''required'', JArray [JString ''message_ids'']),
         (''additionalProperties'', JBool False)])]]"

text \<open>\<open>persist\<close> is \<open>persist_thread_id\<close> on the file system: it makes the record, which must not exist yet.\<close>

definition thread_request :: "AppServerConfig \<Rightarrow> string \<times> json" where
  "thread_request config =
     (case cfg_thread config of
        Resume thread_id \<Rightarrow> (''thread/resume'', JObject [(''threadId'', JString thread_id), (''dynamicTools'', dynamic_tools)])
      | Create _ \<Rightarrow> (''thread/start'',
          JObject [(''cwd'', JString (cfg_cwd config)), (''approvalPolicy'', JString ''never''),
            (''sandbox'', JString ''workspace-write''), (''serviceName'', JString ''psst-codex''),
            (''dynamicTools'', dynamic_tools)]))"

definition initialize_thread ::
  "json_lib \<Rightarrow> string \<Rightarrow> (string \<Rightarrow> string \<Rightarrow> AppServerError + unit) \<Rightarrow> AppServerConfig \<Rightarrow> (JsonLines, AppServerError, string) op" where
  "initialize_thread L version persist config =
     op_bind (wire_request L 1 ''initialize''
       (JObject [(''clientInfo'', JObject [(''name'', JString ''psst-codex''), (''title'', JString ''Psst wake-on-mail''),
          (''version'', JString version)]), (''capabilities'', JObject [(''experimentalApi'', JBool True)])])) (\<lambda>_.
     op_bind (wire_notification L ''initialized'' (JObject [])) (\<lambda>_.
     op_bind (wire_request L 2 (fst (thread_request config)) (snd (thread_request config))) (\<lambda>response.
     op_return (
       rbind (identifier_of (json_pointer [''thread'', ''id''] response)) (\<lambda>thread_id.
       rbind (ensure (case cfg_thread config of Resume expected \<Rightarrow> expected = thread_id | Create _ \<Rightarrow> True) Protocol) (\<lambda>_.
       rbind (case cfg_thread config of Create path \<Rightarrow> persist path thread_id | Resume _ \<Rightarrow> Inr ()) (\<lambda>_.
       Inr thread_id)))))))"

text \<open>\<open>AppServerClient::launch\<close> once the process runs; its standard streams are the wire.\<close>

definition client_of :: "AppServerConfig \<Rightarrow> string \<Rightarrow> JsonLines \<Rightarrow> AppServerClient" where
  "client_of config thread_id protocol =
     \<lparr>asc_protocol = protocol, asc_thread_id = thread_id, asc_cwd = cfg_cwd config, asc_next_id = 3, asc_retrieved = {}\<rparr>"

definition turn_start_params :: "AppServerClient \<Rightarrow> json" where
  "turn_start_params self = JObject [
     (''threadId'', JString (asc_thread_id self)),
     (''input'', JArray [JObject [(''type'', JString ''text''), (''text'', JString WAKE_INSTRUCTION)]]),
     (''cwd'', JString (asc_cwd self)),
     (''approvalPolicy'', JString ''never''),
     (''sandboxPolicy'', JObject [(''type'', JString ''workspaceWrite''),
       (''writableRoots'', JArray [JString (asc_cwd self)]), (''networkAccess'', JBool False)])]"

definition start_turn :: "json_lib \<Rightarrow> string client_op" where
  "start_turn L self =
     op_bind take_id (\<lambda>rid.
     op_bind (\<lambda>self. on_wire (wire_request L rid ''turn/start'' (turn_start_params self)) self) (\<lambda>response.
     op_return (identifier_of (json_pointer [''turn'', ''id''] response)))) (self\<lparr>asc_retrieved := {}\<rparr>)"

text \<open>\<open>retrieved_message_ids\<close> after the answer \<open>output\<close> to a call that did not fail.\<close>

definition settle_call :: "string set option \<Rightarrow> json \<Rightarrow> unit client_op" where
  "settle_call acknowledged output self =
     (case acknowledged of
        None \<Rightarrow> (case received_message_ids output of
            Inl e \<Rightarrow> (Inl e, self)
          | Inr ids \<Rightarrow> (Inr (), self\<lparr>asc_retrieved := asc_retrieved self \<union> ids\<rparr>))
      | Some ids \<Rightarrow> (case acknowledged_message_ids output of
            Inl e \<Rightarrow> (Inl e, self)
          | Inr confirmed \<Rightarrow>
              if confirmed \<noteq> ids then (Inl Protocol, self)
              else (Inr (), self\<lparr>asc_retrieved := asc_retrieved self - ids\<rparr>)))"

definition call_output :: "json \<Rightarrow> json option" where
  "call_output response =
     (case json_get ''structuredContent'' response of Some v \<Rightarrow> Some v | None \<Rightarrow> json_get ''content'' response)"

definition tool_params :: "string \<Rightarrow> DynamicWakeCall \<Rightarrow> json" where
  "tool_params thread_id call = JObject [(''threadId'', JString thread_id), (''server'', JString ''psst_wake''),
     (''tool'', JString (dwc_mcp_tool call)), (''arguments'', dwc_arguments call)]"

definition handle_tool_call :: "json_lib \<Rightarrow> json \<Rightarrow> string \<Rightarrow> unit client_op" where
  "handle_tool_call L message expected_turn self =
     op_bind (op_return (parse_tool_call message (asc_thread_id self) expected_turn (asc_retrieved self))) (\<lambda>call.
     op_bind take_id (\<lambda>rid.
     op_bind (on_wire (wire_request L rid ''mcpServer/tool/call'' (tool_params (asc_thread_id self) call))) (\<lambda>response.
     let success = (Option.bind (json_get ''isError'' response) as_bool \<noteq> Some True) in
     op_bind (op_return (ok_or Protocol (call_output response))) (\<lambda>output.
     op_bind (if success then settle_call (dwc_acknowledged call) output else op_return (Inr ())) (\<lambda>_.
     op_bind (op_return (ok_or Protocol (to_vec L output))) (\<lambda>text.
     on_wire (wire_response L (dwc_request_id call)
       (JObject [(''contentItems'', JArray [JObject [(''type'', JString ''inputText''), (''text'', JString text)]]),
          (''success'', JBool success)])))))))) self"

text \<open>The turn cannot outlive the messages it is given: each one is looked at once.\<close>

definition client_backlog :: "AppServerClient \<Rightarrow> nat" where
  "client_backlog self = backlog (asc_protocol self)"

lemma on_wire_result: "on_wire m self = (r, self') \<Longrightarrow>
    \<exists>protocol. m (asc_protocol self) = (r, protocol) \<and> self' = self\<lparr>asc_protocol := protocol\<rparr>"
  by (auto simp: on_wire_def split: prod.splits)

lemma take_id_keeps: "take_id self = (r, self') \<Longrightarrow> asc_protocol self' = asc_protocol self \<and> asc_thread_id self' = asc_thread_id self"
  by (auto simp: take_id_def split: if_splits)

lemma settle_call_keeps: "settle_call a output self = (r, self') \<Longrightarrow> asc_protocol self' = asc_protocol self \<and> asc_thread_id self' = asc_thread_id self"
  by (auto simp: settle_call_def split: option.splits sum.splits if_splits)

lemma handle_tool_call_backlog:
  assumes "handle_tool_call L message turn self = (r, self')"
  shows "client_backlog self' \<le> client_backlog self"
  using assms unfolding handle_tool_call_def Let_def client_backlog_def
  by (elim op_bind_cases)
    (auto simp: wire_response_def split: if_splits
      dest!: take_id_keeps settle_call_keeps on_wire_result wire_write_keeps wire_request_backlog)

lemma read_message_shortens:
  "on_wire (read_with_timeout L) self = (Inr v, self') \<Longrightarrow> client_backlog self' < client_backlog self"
  by (auto simp: client_backlog_def dest!: on_wire_result read_with_timeout_shortens)

function wait_completed :: "json_lib \<Rightarrow> string \<Rightarrow> unit client_op" where
  "wait_completed L expected self =
     (case on_wire (read_with_timeout L) self of
        (Inl e, self1) \<Rightarrow> (Inl e, self1)
      | (Inr message, self1) \<Rightarrow>
          if str_field ''method'' message = Some ''item/tool/call'' then
            (case handle_tool_call L message expected self1 of
               (Inl e, self2) \<Rightarrow> (Inl e, self2)
             | (Inr _, self2) \<Rightarrow> wait_completed L expected self2)
          else case completion_result message (asc_thread_id self1) expected of
            Some result \<Rightarrow> (result, self1)
          | None \<Rightarrow> wait_completed L expected self1)"
  by pat_completeness auto

termination
  by (relation "measure (\<lambda>(L, expected, self). client_backlog self)")
    (auto dest!: read_message_shortens [OF sym] handle_tool_call_backlog [OF sym])

declare wait_completed.simps [simp del]

end
