(* ===== verification/Codex_Ledger.thy ===== *)
theory Codex_Ledger
  imports Codex_Turn
begin

text \<open>
  What a wake turn may do to the mailbox, as a specification over the frames on the wire: it may ask for
  messages without acknowledging any, and it may acknowledge only messages that an answer in the same
  turn has handed out and that no confirmed acknowledgement has taken back since.
\<close>

section \<open>The specification\<close>

text \<open>The messages an answer hands out, the ones it confirms, and the ones a call names.\<close>

definition offered :: "json \<Rightarrow> string set" where
  "offered output =
     (case json_get ''messages'' output of
        Some (JArray messages) \<Rightarrow> set (List.map_filter (str_field ''id'') messages)
      | _ \<Rightarrow> {})"

definition given_back :: "json \<Rightarrow> string set" where
  "given_back output =
     (case json_get ''acknowledged_ids'' output of
        Some (JArray ids) \<Rightarrow> set (List.map_filter as_str ids)
      | _ \<Rightarrow> {})"

definition named_ids :: "json \<Rightarrow> string set option" where
  "named_ids arguments =
     (case json_get ''message_ids'' arguments of
        Some (JArray ids) \<Rightarrow> map_option set (those (map as_str ids))
      | _ \<Rightarrow> None)"

text \<open>
  The ledger: the call that waits for its answer, with the messages it acknowledges where it is an
  acknowledgement, and the messages the turn holds.
\<close>

type_synonym ledger = "(nat \<times> string set option) option \<times> string set"

definition answered :: "string set option \<Rightarrow> json \<Rightarrow> string set \<Rightarrow> string set" where
  "answered asked result held =
     (if Option.bind (json_get ''isError'' result) as_bool = Some True then held
      else case call_output result of
        None \<Rightarrow> held
      | Some output \<Rightarrow> (case asked of None \<Rightarrow> held \<union> offered output | Some ids \<Rightarrow> held - given_back output))"

definition ledger_call :: "nat \<Rightarrow> string \<Rightarrow> json \<Rightarrow> string set \<Rightarrow> ledger option" where
  "ledger_call rid tool arguments held =
     (if tool = ''message_receive'' \<and> json_get ''acknowledge_ids'' arguments = Some (JArray []) then Some (Some (rid, None), held)
      else if tool = ''message_acknowledge'' then
        (case named_ids arguments of
           Some ids \<Rightarrow> if ids \<noteq> {} \<and> ids \<subseteq> held then Some (Some (rid, Some ids), held) else None
         | None \<Rightarrow> None)
      else None)"

fun ledger_step :: "wire_event \<Rightarrow> ledger \<Rightarrow> ledger option" where
  "ledger_step (Sent frame) (waiting, held) =
     (if str_field ''method'' frame \<noteq> Some ''mcpServer/tool/call'' then Some (waiting, held)
      else case (Option.bind (json_get ''id'' frame) as_u64, Option.bind (json_get ''params'' frame) (str_field ''tool''),
          json_pointer [''params'', ''arguments''] frame) of
        (Some rid, Some tool, Some arguments) \<Rightarrow> ledger_call rid tool arguments held
      | _ \<Rightarrow> None)"
| "ledger_step (Received message) (waiting, held) =
     (case waiting of
        None \<Rightarrow> Some (None, held)
      | Some (rid, asked) \<Rightarrow>
          if Option.bind (json_get ''id'' message) as_u64 \<noteq> Some rid then Some (Some (rid, asked), held)
          else Some (None, (case (json_get ''error'' message, json_get ''result'' message) of
              (None, Some result) \<Rightarrow> answered asked result held
            | _ \<Rightarrow> held)))"

text \<open>The ledger of a transcript; \<open>None\<close> where a frame broke the rule.\<close>

definition ledger :: "wire_event list \<Rightarrow> ledger option" where
  "ledger log = foldl (\<lambda>l e. Option.bind l (ledger_step e)) (Some (None, {})) log"

lemma ledger_simps [simp]:
  "ledger [] = Some (None, {})"
  "ledger (log @ [e]) = Option.bind (ledger log) (ledger_step e)"
  by (simp_all add: ledger_def)

section \<open>The client keeps to it\<close>

lemma wire_write_log:
  assumes "wire_write L v self = (r, self')"
  shows "jl_log self' = jl_log self @ [Sent v] \<or> (\<exists>e. r = Inl e \<and> jl_log self' = jl_log self)"
  using assms by (auto simp: wire_write_def logged_def split: option.splits if_splits list.splits bool.splits)

lemma read_from_wire_log:
  assumes "read_from_wire L self = (r, self')"
  shows "(case r of Inr v \<Rightarrow> jl_log self' = jl_log self @ [Received v] | Inl _ \<Rightarrow> jl_log self' = jl_log self)"
  using assms by (auto simp: read_from_wire_def logged_def Let_def split: list.splits line_read.splits if_splits option.splits)

text \<open>Awaiting an answer, where the call that waits is this one or no tool call waits.\<close>

definition await_post :: "string set option option \<Rightarrow> string set \<Rightarrow> AppServerError + json \<Rightarrow> wire_event list \<Rightarrow> bool" where
  "await_post asked held r log =
     (case r of
        Inl _ \<Rightarrow> ledger log \<noteq> None
      | Inr result \<Rightarrow> ledger log = Some (None, (case asked of None \<Rightarrow> held | Some a \<Rightarrow> answered a result held)))"

lemma await_response_ledger:
  assumes "await_response L rid self = (r, self')"
    and "ledger (jl_log self) = Some (map_option (Pair rid) asked, held)"
  shows "await_post asked held r (jl_log self')"
  using assms
proof (induction L rid self rule: await_response.induct)
  case (1 L rid self)
  obtain s self1 where read: "read_from_wire L self = (s, self1)" by fastforce
  show ?case
  proof (cases s)
    case (Inl e)
    then show ?thesis
      using 1(2,3) read read_from_wire_log [OF read] by (auto simp: await_response.simps await_post_def)
  next
    case (Inr message)
    then have log: "jl_log self1 = jl_log self @ [Received message]" using read_from_wire_log [OF read] by simp
    show ?thesis
    proof (cases "Option.bind (json_get ''id'' message) as_u64 = Some rid")
      case True
      then show ?thesis using 1(2,3) read Inr log
        by (cases asked; cases "json_get ''error'' message"; cases "json_get ''result'' message")
          (auto simp: await_response.simps await_post_def)
    next
      case False
      moreover have "ledger (jl_log self1) = Some (map_option (Pair rid) asked, held)"
        using 1(3) log False by (cases asked) auto
      ultimately show ?thesis
        using 1 read Inr by (subst (asm) (2) await_response.simps) fastforce
    qed
  qed
qed

text \<open>Frames that are no tool call, and what \<open>parse_tool_call\<close> lets through.\<close>

definition no_tool_call :: "json \<Rightarrow> bool" where
  "no_tool_call frame \<longleftrightarrow> str_field ''method'' frame \<noteq> Some ''mcpServer/tool/call''"

lemma wire_write_ledger:
  assumes "wire_write L v self = (r, self')" and "no_tool_call v" and "ledger (jl_log self) = Some (None, held)"
  shows "ledger (jl_log self') = Some (None, held)"
  using wire_write_log [OF assms(1)] assms(2,3) by (auto simp: no_tool_call_def)

lemma identifiers_are_strings:
  assumes "collect_results (\<lambda>v. identifier_of (f v)) vs = Inr ids"
  shows "set ids = set (List.map_filter (\<lambda>v. Option.bind (f v) as_str) vs)"
    and "those (map (\<lambda>v. Option.bind (f v) as_str) vs) = Some ids"
  using assms
  by (induction vs arbitrary: ids) (fastforce simp: result_simps identifier_of_def map_filter_simps)+

lemma message_ids_named:
  assumes "message_ids arguments = Inr ids"
  shows "named_ids arguments = Some ids" and "ids \<noteq> {}"
proof -
  obtain vs xs where "json_get ''message_ids'' arguments = Some (JArray vs)" "vs \<noteq> []"
      "collect_results (\<lambda>v. identifier_of (Some v)) vs = Inr xs" "ids = set xs"
    using assms by (auto simp: message_ids_def result_simps bind_eq_Some_conv elim!: as_array.elims)
  then show "named_ids arguments = Some ids" "ids \<noteq> {}"
    using identifiers_are_strings(2) [of Some vs xs] collect_results_length [of "\<lambda>v. identifier_of (Some v)" vs xs]
    by (auto simp: named_ids_def)
qed

lemma received_offered: "received_message_ids output = Inr ids \<Longrightarrow> offered output = ids"
  by (auto simp: received_message_ids_def offered_def result_simps bind_eq_Some_conv str_field_def [abs_def]
      identifiers_are_strings(1) elim!: as_array.elims)

lemma acknowledged_confirmed: "acknowledged_message_ids output = Inr ids \<Longrightarrow> given_back output = ids"
  using identifiers_are_strings(1) [of Some]
  by (auto simp: acknowledged_message_ids_def given_back_def result_simps bind_eq_Some_conv elim!: as_array.elims)

lemma parsed_call_is_allowed:
  assumes "parse_tool_call message thread turn retrieved = Inr call" and "retrieved \<subseteq> held"
  shows "ledger_call rid (dwc_mcp_tool call) (dwc_arguments call) held = Some (Some (rid, dwc_acknowledged call), held)"
proof -
  obtain tool where tool: "wake_tool tool (dwc_arguments call) retrieved = Inr (dwc_mcp_tool call, dwc_acknowledged call)"
    using assms(1) by (auto simp: parse_tool_call_def result_simps split: prod.splits)
  then show ?thesis
    using assms(2) message_ids_named [of "dwc_arguments call"]
    by (cases "dwc_acknowledged call")
      (auto simp: wake_tool_def ledger_call_def result_simps bind_eq_Some_conv split: if_splits elim!: as_array.elims)
qed

definition request_frame :: "nat \<Rightarrow> string \<Rightarrow> json \<Rightarrow> json" where
  "request_frame rid method params = JObject [(''method'', JString method), (''id'', json_u64 rid), (''params'', params)]"

lemma wire_request_ledger:
  assumes "wire_request L rid method params self = (r, self')" and "ledger (jl_log self) = Some (None, held)"
    and step: "ledger_step (Sent (request_frame rid method params)) (None, held) = Some (map_option (Pair rid) asked, held)"
  shows "await_post asked held r (jl_log self')"
  using assms(1) unfolding wire_request_def request_frame_def [symmetric]
proof (cases rule: op_bind_cases)
  case (failed e)
  then show ?thesis
    using wire_write_log [OF failed(1)] assms(2) step by (auto simp: await_post_def simp del: ledger_step.simps)
next
  case (went_on u self1)
  then have "ledger (jl_log self1) = Some (map_option (Pair rid) asked, held)"
    using wire_write_log [OF went_on(1)] assms(2) step by (simp del: ledger_step.simps)
  with went_on(2) show ?thesis by (rule await_response_ledger)
qed

lemma other_request_ledger:
  assumes "wire_request L rid method params self = (r, self')" and "ledger (jl_log self) = Some (None, held)"
    and "method \<noteq> ''mcpServer/tool/call''"
  shows "await_post None held r (jl_log self')"
  using assms(1,2) by (rule wire_request_ledger) (simp add: assms(3) request_frame_def str_field_def)

lemma tool_request_ledger:
  assumes "wire_request L rid ''mcpServer/tool/call'' (tool_params thread call) self = (r, self')"
    and "ledger (jl_log self) = Some (None, held)"
    and "ledger_call rid (dwc_mcp_tool call) (dwc_arguments call) held = Some (Some (rid, asked), held)"
  shows "await_post (Some asked) held r (jl_log self')"
  using assms(1,2) by (rule wire_request_ledger) (simp add: assms(3) request_frame_def str_field_def tool_params_def)

section \<open>The invariant of a client\<close>

definition accepted :: "AppServerClient \<Rightarrow> bool" where
  "accepted self \<longleftrightarrow> ledger (jl_log (asc_protocol self)) \<noteq> None"

definition in_step :: "AppServerClient \<Rightarrow> bool" where
  "in_step self \<longleftrightarrow> (\<exists>held. ledger (jl_log (asc_protocol self)) = Some (None, held) \<and> asc_retrieved self \<subseteq> held)"

lemma in_step_accepted: "in_step self \<Longrightarrow> accepted self"
  by (auto simp: in_step_def accepted_def)

lemma settle_call_answered:
  assumes "settle_call asked output self = (Inr u, self')" and "asc_retrieved self \<subseteq> held"
    and "call_output result = Some output" and "Option.bind (json_get ''isError'' result) as_bool \<noteq> Some True"
  shows "asc_retrieved self' \<subseteq> answered asked result held"
  using assms
  by (auto simp: settle_call_def answered_def split: option.splits sum.splits if_splits
      dest!: received_offered acknowledged_confirmed)

lemma take_id_same: "take_id self = (r, self') \<Longrightarrow> asc_protocol self' = asc_protocol self \<and> asc_retrieved self' = asc_retrieved self"
  by (auto simp: take_id_def split: if_splits)

lemma take_id_triple: "op_triple in_step take_id (\<lambda>_. in_step) accepted"
  by (rule op_tripleI) (auto simp: in_step_def accepted_def dest!: take_id_same)

text \<open>After the answer to a tool call.\<close>

definition answered_to :: "DynamicWakeCall \<Rightarrow> json \<Rightarrow> AppServerClient \<Rightarrow> bool" where
  "answered_to call result self \<longleftrightarrow>
     (\<exists>held. ledger (jl_log (asc_protocol self)) = Some (None, answered (dwc_acknowledged call) result held)
        \<and> asc_retrieved self \<subseteq> held)"

lemma tool_request_triple:
  assumes "parse_tool_call message thread turn retrieved = Inr call"
  shows "op_triple (\<lambda>self. in_step self \<and> asc_retrieved self = retrieved)
    (on_wire (wire_request L rid ''mcpServer/tool/call'' (tool_params thread' call))) (answered_to call) accepted"
  by (rule op_tripleI)
    (auto simp: in_step_def answered_to_def accepted_def await_post_def
      dest!: on_wire_result tool_request_ledger [OF _ _ parsed_call_is_allowed [OF assms]])

lemma settle_triple:
  assumes "call_output result = Some out"
  shows "op_triple (answered_to call result)
    (if Option.bind (json_get ''isError'' result) as_bool \<noteq> Some True then settle_call (dwc_acknowledged call) out else op_return (Inr ()))
    (\<lambda>_. in_step) accepted"
proof (cases "Option.bind (json_get ''isError'' result) as_bool = Some True")
  case True
  then show ?thesis by (intro op_tripleI) (auto simp: answered_to_def in_step_def answered_def)
next
  case False
  have "op_triple (answered_to call result) (settle_call (dwc_acknowledged call) out) (\<lambda>_. in_step) accepted"
  proof (rule op_tripleI)
    fix s e s' assume "answered_to call result s" "settle_call (dwc_acknowledged call) out s = (Inl e, s')"
    then show "accepted s'" by (auto simp: answered_to_def accepted_def dest!: settle_call_keeps)
  next
    fix s u s' assume "answered_to call result s" and run: "settle_call (dwc_acknowledged call) out s = (Inr u, s')"
    then obtain held where "ledger (jl_log (asc_protocol s)) = Some (None, answered (dwc_acknowledged call) result held)"
        and "asc_retrieved s \<subseteq> held"
      by (auto simp: answered_to_def)
    then show "in_step s'"
      using settle_call_keeps [OF run] settle_call_answered [OF run _ assms False] by (auto simp: in_step_def)
  qed
  with False show ?thesis by simp
qed

lemma answer_triple:
  "op_triple in_step (on_wire (wire_response L rid result)) (\<lambda>_. in_step) accepted"
proof -
  have "no_tool_call (JObject [(''id'', rid), (''result'', result)])"
    by (simp add: no_tool_call_def str_field_def)
  then show ?thesis
    by (intro op_tripleI)
      (auto simp: in_step_def accepted_def wire_response_def dest!: on_wire_result wire_write_ledger)
qed

lemma handle_tool_call_triple: "op_triple in_step (handle_tool_call L message turn) (\<lambda>_. in_step) accepted"
proof -
  have "op_triple (\<lambda>self. self = self0 \<and> in_step self) (handle_tool_call L message turn) (\<lambda>_. in_step) accepted" for self0
  proof (cases "parse_tool_call message (asc_thread_id self0) turn (asc_retrieved self0)")
    case (Inl e)
    then show ?thesis
      by (auto simp: op_triple_def handle_tool_call_def op_bind_def in_step_accepted)
  next
    case (Inr call)
    have "op_triple (\<lambda>self. in_step self \<and> asc_retrieved self = asc_retrieved self0) (op_bind take_id (\<lambda>rid.
        op_bind (on_wire (wire_request L rid ''mcpServer/tool/call'' (tool_params (asc_thread_id self0) call))) (\<lambda>response.
        let success = (Option.bind (json_get ''isError'' response) as_bool \<noteq> Some True) in
        op_bind (op_return (ok_or Protocol (call_output response))) (\<lambda>out.
        op_bind (if success then settle_call (dwc_acknowledged call) out else op_return (Inr ())) (\<lambda>_.
        op_bind (op_return (ok_or Protocol (to_vec L out))) (\<lambda>text.
        on_wire (wire_response L (dwc_request_id call)
          (JObject [(''contentItems'', JArray [JObject [(''type'', JString ''inputText''), (''text'', JString text)]]),
            (''success'', JBool success)])))))))) (\<lambda>_. in_step) accepted"
      unfolding Let_def
    proof (intro op_triple_bind)
      show "op_triple (\<lambda>self. in_step self \<and> asc_retrieved self = asc_retrieved self0) take_id
          (\<lambda>_ self. in_step self \<and> asc_retrieved self = asc_retrieved self0) accepted"
        by (rule op_tripleI) (auto simp: in_step_def accepted_def dest!: take_id_same)
    next
      fix response
      show "op_triple (answered_to call response) (op_return (ok_or Protocol (call_output response)))
          (\<lambda>out self. call_output response = Some out \<and> answered_to call response self) accepted"
        by (rule op_triple_return) (auto simp: answered_to_def accepted_def ok_or_def split: option.splits)
    next
      fix response out
      show "op_triple (\<lambda>self. call_output response = Some out \<and> answered_to call response self)
          (if Option.bind (json_get ''isError'' response) as_bool \<noteq> Some True
           then settle_call (dwc_acknowledged call) out else op_return (Inr ())) (\<lambda>_. in_step) accepted"
        using settle_triple [of response out call] by (auto simp: op_triple_def)
    next
      fix out :: json
      show "op_triple in_step (op_return (ok_or Protocol (to_vec L out))) (\<lambda>_. in_step) accepted"
        by (rule op_triple_return) (auto simp: ok_or_def in_step_accepted split: option.splits)
    qed (rule tool_request_triple [OF Inr] answer_triple)+
    then show ?thesis
      using Inr by (auto simp: op_triple_def handle_tool_call_def op_bind_def [of "op_return _"])
  qed
  then show ?thesis by (simp add: op_triple_def)
qed

section \<open>What was acknowledged had been handed out\<close>

text \<open>The messages a frame acknowledges, and the ones the answers of a transcript hand out.\<close>

definition acknowledges :: "json \<Rightarrow> string set" where
  "acknowledges frame =
     (if str_field ''method'' frame = Some ''mcpServer/tool/call''
         \<and> Option.bind (json_get ''params'' frame) (str_field ''tool'') = Some ''message_acknowledge''
      then (case Option.bind (json_pointer [''params'', ''arguments''] frame) named_ids of Some ids \<Rightarrow> ids | None \<Rightarrow> {})
      else {})"

definition handed_out :: "json \<Rightarrow> string set" where
  "handed_out message =
     (case Option.bind (json_get ''result'' message) call_output of Some result \<Rightarrow> offered result | None \<Rightarrow> {})"

lemma ledger_step_held:
  assumes "ledger_step e (waiting, held) = Some (waiting', held')"
  shows "held' \<subseteq> held \<union> (case e of Received message \<Rightarrow> handed_out message | wire_event.Sent _ \<Rightarrow> {})"
  using assms
  by (cases e) (auto simp: ledger_call_def answered_def handed_out_def split: if_splits option.splits prod.splits)

lemma ledger_held:
  "ledger log = Some (waiting, held) \<Longrightarrow> held \<subseteq> (\<Union>message \<in> {m. Received m \<in> set log}. handed_out message)"
proof (induction log arbitrary: waiting held rule: rev_induct)
  case (snoc e log)
  obtain waiting0 held0 where before: "ledger log = Some (waiting0, held0)" "ledger_step e (waiting0, held0) = Some (waiting, held)"
    using snoc.prems by (auto simp: bind_eq_Some_conv)
  show ?case
    using ledger_step_held [OF before(2)] snoc.IH [OF before(1)] by (cases e) fastforce+
qed simp

lemma ledger_prefix: "ledger (pre @ post) \<noteq> None \<Longrightarrow> ledger pre \<noteq> None"
proof (induction post rule: rev_induct)
  case (snoc e post)
  have "ledger (pre @ post @ [e]) = Option.bind (ledger (pre @ post)) (ledger_step e)"
    using ledger_simps(2) [of "pre @ post" e] by simp
  with snoc show ?case by (cases "ledger (pre @ post)") auto
qed simp

lemma ledger_acknowledges:
  assumes "ledger (pre @ wire_event.Sent frame # post) \<noteq> None"
  shows "acknowledges frame \<subseteq> (\<Union>message \<in> {m. Received m \<in> set pre}. handed_out message)"
proof -
  have "ledger (pre @ [wire_event.Sent frame]) \<noteq> None" using assms ledger_prefix [of "pre @ [wire_event.Sent frame]" post] by simp
  then obtain waiting held where at: "ledger pre = Some (waiting, held)" "ledger_step (wire_event.Sent frame) (waiting, held) \<noteq> None"
    by (auto simp: bind_eq_Some_conv)
  have "acknowledges frame \<subseteq> held"
    using at(2) by (auto simp: acknowledges_def ledger_call_def bind_eq_Some_conv split: if_splits option.splits prod.splits)
  then show ?thesis using ledger_held [OF at(1)] by blast
qed


end
