(* ===== verification/File_System.thy ===== *)
theory File_System
  imports Prelude
begin

text \<open>
  One directory of a Unix file system, as the durable stores of the client and the application use it
  through a held directory descriptor: \<open>openat\<close>, \<open>unlinkat\<close>, \<open>renameat\<close>, \<open>write_all\<close>,
  \<open>sync_all\<close>. Any call may fail; a write that fails may have written anything. The directory also keeps
  the states a crash may fall back to, the ones since it was last synchronised, and a file whose data
  was not synchronised has arbitrary contents after a crash.
\<close>

section \<open>Errors\<close>

datatype ErrorKind =
    NotFound | PermissionDenied | InvalidData | InvalidInput | AlreadyExists | AddrInUse | AddrNotAvailable | WouldBlock
  | TimedOut | Other

datatype errno = NOENT | EXIST | LOOP | ISDIR | OTHER_ERRNO nat

datatype io_error = IoError ErrorKind string | IoOs errno

text \<open>\<open>io::Error::kind\<close>, with the codes of Linux.\<close>

fun io_kind :: "io_error \<Rightarrow> ErrorKind" where
  "io_kind (IoError kind _) = kind"
| "io_kind (IoOs NOENT) = ErrorKind.NotFound"
| "io_kind (IoOs EXIST) = ErrorKind.AlreadyExists"
| "io_kind (IoOs LOOP) = Other"
| "io_kind (IoOs ISDIR) = Other"
| "io_kind (IoOs (OTHER_ERRNO n)) = (if n = 1 \<or> n = 13 then PermissionDenied else if n = 98 then AddrInUse
     else if n = 99 then AddrNotAvailable else if n = 11 then WouldBlock else if n = 110 then TimedOut else Other)"

section \<open>Directories\<close>

text \<open>A regular file: its bytes, whether they were synchronised, and its permission bits.\<close>

datatype node =
    Regular string bool nat
  | Symlink
  | Directory nat nat

type_synonym entries = "string \<Rightarrow> node option"

record directory =
  dir_live :: entries
  dir_past :: "entries list"

text \<open>
  How the calls of one operation go: which fail, what a failing write leaves, the mode \<open>0o600\<close>
  becomes, and whether a symbolic link leads to something.
\<close>

datatype syscall = Unlink | OpenExcl | OpenRead | Stat | ReadToEnd | WriteAll | SyncFile | Rename | SyncDir | Lstat

record os =
  os_fail :: "syscall \<Rightarrow> io_error option"
  os_partial :: "string \<Rightarrow> string"
  os_mode :: nat
  os_link_leads :: bool

text \<open>A computation that threads the directory and stops at the first error (\<open>?\<close>).\<close>

type_synonym 'a dir_op = "directory \<Rightarrow> (io_error + 'a) \<times> directory"

definition io_bind :: "'a dir_op \<Rightarrow> ('a \<Rightarrow> 'b dir_op) \<Rightarrow> 'b dir_op" where
  "io_bind m f d = (case m d of (Inl e, d') \<Rightarrow> (Inl e, d') | (Inr x, d') \<Rightarrow> f x d')"

definition io_return :: "io_error + 'a \<Rightarrow> 'a dir_op" where
  "io_return r d = (r, d)"

text \<open>\<open>if fault == injected { return Err(..) }\<close> and other guards.\<close>

definition io_guard :: "bool \<Rightarrow> io_error \<Rightarrow> unit dir_op" where
  "io_guard b e d = (ensure b e, d)"

text \<open>\<open>let _ = call;\<close>\<close>

definition io_ignore :: "'a dir_op \<Rightarrow> unit dir_op" where
  "io_ignore m d = (Inr (), snd (m d))"

section \<open>System calls\<close>

definition call :: "os \<Rightarrow> syscall \<Rightarrow> 'a dir_op \<Rightarrow> 'a dir_op" where
  "call os c m d = (case os_fail os c of Some e \<Rightarrow> (Inl e, d) | None \<Rightarrow> m d)"

text \<open>A change of the entries; a crash may still fall back to what was there.\<close>

definition relink :: "entries \<Rightarrow> directory \<Rightarrow> directory" where
  "relink m d = d\<lparr>dir_live := m, dir_past := dir_live d # dir_past d\<rparr>"

definition unlinkat :: "os \<Rightarrow> string \<Rightarrow> unit dir_op" where
  "unlinkat os name = call os Unlink (\<lambda>d.
     case dir_live d name of
       None \<Rightarrow> (Inl (IoOs NOENT), d)
     | Some (Directory _ _) \<Rightarrow> (Inl (IoOs ISDIR), d)
     | Some _ \<Rightarrow> (Inr (), relink ((dir_live d)(name := None)) d))"

text \<open>\<open>openat\<close> with \<open>WRONLY | CREATE | EXCL | NOFOLLOW\<close> and mode \<open>0o600\<close>.\<close>

definition create_excl :: "os \<Rightarrow> string \<Rightarrow> unit dir_op" where
  "create_excl os name = call os OpenExcl (\<lambda>d.
     if dir_live d name \<noteq> None then (Inl (IoOs EXIST), d)
     else (Inr (), relink ((dir_live d)(name \<mapsto> Regular [] False (os_mode os))) d))"

text \<open>\<open>openat\<close> with \<open>RDONLY | NOFOLLOW\<close>.\<close>

definition open_read :: "os \<Rightarrow> string \<Rightarrow> node dir_op" where
  "open_read os name = call os OpenRead (\<lambda>d.
     case dir_live d name of
       None \<Rightarrow> (Inl (IoOs NOENT), d)
     | Some Symlink \<Rightarrow> (Inl (IoOs LOOP), d)
     | Some n \<Rightarrow> (Inr n, d))"

fun node_mode :: "node \<Rightarrow> nat" where
  "node_mode (Regular _ _ m) = m"
| "node_mode (Directory m _) = m"
| "node_mode Symlink = 511"

fun node_length :: "node \<Rightarrow> nat" where
  "node_length (Regular c _ _) = length c"
| "node_length (Directory _ l) = l"
| "node_length Symlink = 0"

text \<open>\<open>read_to_end\<close> on at most \<open>n\<close> bytes.\<close>

definition read_bytes :: "os \<Rightarrow> nat \<Rightarrow> node \<Rightarrow> string dir_op" where
  "read_bytes os n file = call os ReadToEnd (\<lambda>d.
     case file of Regular c _ _ \<Rightarrow> (Inr (take n c), d) | _ \<Rightarrow> (Inl (IoOs ISDIR), d))"

definition write_all :: "os \<Rightarrow> string \<Rightarrow> string \<Rightarrow> unit dir_op" where
  "write_all os name bytes d =
     (case dir_live d name of
        Some (Regular c s m) \<Rightarrow>
          (case os_fail os WriteAll of
             Some e \<Rightarrow> (Inl e, d\<lparr>dir_live := (dir_live d)(name \<mapsto> Regular (c @ os_partial os bytes) False m)\<rparr>)
           | None \<Rightarrow> (Inr (), d\<lparr>dir_live := (dir_live d)(name \<mapsto> Regular (c @ bytes) False m)\<rparr>))
      | _ \<Rightarrow> (Inl (IoOs NOENT), d))"

definition sync_file :: "os \<Rightarrow> string \<Rightarrow> unit dir_op" where
  "sync_file os name = call os SyncFile (\<lambda>d.
     case dir_live d name of
       Some (Regular c s m) \<Rightarrow> (Inr (), d\<lparr>dir_live := (dir_live d)(name \<mapsto> Regular c True m)\<rparr>)
     | _ \<Rightarrow> (Inr (), d))"

definition renameat :: "os \<Rightarrow> string \<Rightarrow> string \<Rightarrow> unit dir_op" where
  "renameat os old new = call os Rename (\<lambda>d.
     case (dir_live d old, dir_live d new) of
       (None, _) \<Rightarrow> (Inl (IoOs NOENT), d)
     | (Some _, Some (Directory _ _)) \<Rightarrow> (Inl (IoOs ISDIR), d)
     | (Some n, _) \<Rightarrow> (Inr (), relink ((dir_live d)(old := None, new \<mapsto> n)) d))"

definition sync_dir :: "os \<Rightarrow> unit dir_op" where
  "sync_dir os = call os SyncDir (\<lambda>d. (Inr (), d\<lparr>dir_past := []\<rparr>))"

text \<open>\<open>fs::symlink_metadata\<close> of an entry, which is no error when there is none.\<close>

definition lstat_not_link :: "os \<Rightarrow> io_error \<Rightarrow> string \<Rightarrow> unit dir_op" where
  "lstat_not_link os rejected name d =
     (case dir_live d name of
        None \<Rightarrow> (Inr (), d)
      | Some n \<Rightarrow> call os Lstat (\<lambda>d. (ensure (n \<noteq> Symlink) rejected, d)) d)"

text \<open>\<open>Path::exists\<close>, which follows links and takes errors for absence.\<close>

definition path_exists :: "os \<Rightarrow> string \<Rightarrow> directory \<Rightarrow> bool" where
  "path_exists os name d =
     (os_fail os Stat = None \<and> (case dir_live d name of None \<Rightarrow> False | Some Symlink \<Rightarrow> os_link_leads os | Some _ \<Rightarrow> True))"

section \<open>Crashes\<close>

text \<open>What becomes of a file: synchronised bytes stay, others may be anything.\<close>

fun survives :: "node \<Rightarrow> node \<Rightarrow> bool" where
  "survives (Regular c s m) n \<longleftrightarrow> (\<exists>c'. n = Regular c' True m \<and> (s \<longrightarrow> c' = c))"
| "survives n n' \<longleftrightarrow> n' = n"

definition crash :: "directory \<Rightarrow> directory \<Rightarrow> bool" where
  "crash d d' \<longleftrightarrow> dir_past d' = []
     \<and> (\<exists>m \<in> insert (dir_live d) (set (dir_past d)). \<forall>name. rel_option survives (m name) (dir_live d' name))"

section \<open>What every call keeps\<close>

lemma io_simps [simp]:
  "io_return r d = (r, d)"
  "io_guard b e d = (ensure b e, d)"
  "io_ignore m d = (Inr (), snd (m d))"
  by (simp_all add: io_return_def io_guard_def io_ignore_def)

lemma io_bind_return [simp]:
  "io_bind (io_return (Inr x)) f = f x"
  "io_bind (io_return (Inl e)) f = io_return (Inl e)"
  by (auto simp: io_bind_def io_return_def)

lemma io_bind_Inr [result_simps]:
  "io_bind m f d = (Inr y, d'') \<longleftrightarrow> (\<exists>x d'. m d = (Inr x, d') \<and> f x d' = (Inr y, d''))"
  by (auto simp: io_bind_def split: prod.splits sum.splits)

text \<open>In every state the directory may be found in, the entry \<open>name\<close> is one that \<open>P\<close> allows.\<close>

definition entry_in :: "string \<Rightarrow> (node option \<Rightarrow> bool) \<Rightarrow> directory \<Rightarrow> bool" where
  "entry_in name P d \<longleftrightarrow> (\<forall>m \<in> insert (dir_live d) (set (dir_past d)). P (m name))"

lemma entry_in_relink [simp]: "entry_in name P (relink m d) \<longleftrightarrow> P (m name) \<and> entry_in name P d"
  by (auto simp: entry_in_def relink_def)

lemma entry_in_live: "entry_in name P d \<Longrightarrow> P (dir_live d name)"
  by (simp add: entry_in_def)

text \<open>An operation that keeps to other entries.\<close>

definition spares :: "string \<Rightarrow> 'a dir_op \<Rightarrow> bool" where
  "spares name m \<longleftrightarrow> (\<forall>d P. (entry_in name P d \<longrightarrow> entry_in name P (snd (m d)))
     \<and> dir_live (snd (m d)) name = dir_live d name)"

lemma sparesD:
  "spares name m \<Longrightarrow> m d = (r, d') \<Longrightarrow> entry_in name P d \<Longrightarrow> entry_in name P d'"
  "spares name m \<Longrightarrow> m d = (r, d') \<Longrightarrow> dir_live d' name = dir_live d name"
  unfolding spares_def by (metis snd_conv)+

lemma spares_call [intro]: "spares name m \<Longrightarrow> spares name (call os c m)"
  by (auto simp: spares_def call_def split: option.splits)

lemma spares_bind [intro]:
  assumes "spares name m" and "\<And>x. spares name (f x)"
  shows "spares name (io_bind m f)"
  unfolding spares_def
proof (intro allI conjI impI)
  fix d and P :: "node option \<Rightarrow> bool"
  obtain r d' where m: "m d = (r, d')" by fastforce
  show "entry_in name P (snd (io_bind m f d))" if "entry_in name P d"
    using sparesD(1) [OF assms(1) m that] assms(2) by (cases r) (auto simp: io_bind_def m spares_def)
  show "dir_live (snd (io_bind m f d)) name = dir_live d name"
    using sparesD(2) [OF assms(1) m] assms(2) by (cases r) (auto simp: io_bind_def m spares_def)
qed

lemma spares_basic [intro, simp]:
  "spares name (io_return r)"
  "spares name (io_guard b e)"
  "spares name m \<Longrightarrow> spares name (io_ignore m)"
  by (auto simp: spares_def)

lemma spares_unlinkat [intro]: "other \<noteq> name \<Longrightarrow> spares name (unlinkat os other)"
  unfolding unlinkat_def
  by (rule spares_call) (auto simp: spares_def relink_def entry_in_def split: option.splits node.splits)

lemma spares_create_excl [intro]: "other \<noteq> name \<Longrightarrow> spares name (create_excl os other)"
  unfolding create_excl_def by (rule spares_call) (auto simp: spares_def relink_def entry_in_def)

lemma spares_open_read [intro, simp]: "spares name (open_read os other)"
  unfolding open_read_def by (rule spares_call) (auto simp: spares_def split: option.splits node.splits)

lemma spares_read_bytes [intro, simp]: "spares name (read_bytes os n file)"
  unfolding read_bytes_def by (rule spares_call) (auto simp: spares_def split: node.splits)

lemma spares_write_all [intro]: "other \<noteq> name \<Longrightarrow> spares name (write_all os other bytes)"
  by (auto simp: spares_def write_all_def entry_in_def split: option.splits node.splits)

lemma spares_sync_file [intro]: "other \<noteq> name \<Longrightarrow> spares name (sync_file os other)"
  unfolding sync_file_def
  by (rule spares_call) (auto simp: spares_def entry_in_def split: option.splits node.splits)

lemma spares_sync_dir [intro, simp]: "spares name (sync_dir os)"
  unfolding sync_dir_def by (rule spares_call) (auto simp: spares_def entry_in_def)

lemma spares_lstat [intro, simp]: "spares name (lstat_not_link os e other)"
  by (auto simp: spares_def lstat_not_link_def call_def split: option.splits)

lemma crash_settled:
  assumes "entry_in name (\<lambda>n. n = old) d" and "old = None \<or> (\<exists>c m. old = Some (Regular c True m))" and "crash d d'"
  shows "dir_live d' name = old"
proof -
  from assms(3) obtain m where m: "m \<in> insert (dir_live d) (set (dir_past d))"
    and s: "rel_option survives (m name) (dir_live d' name)" by (auto simp: crash_def)
  have "m name = old" using m assms(1) unfolding entry_in_def by blast
  with s assms(2) show ?thesis by (cases "dir_live d' name") (auto simp: option_rel_Some1)
qed

section \<open>Atomic replacement\<close>

text \<open>
  Triples over directory operations: from a state in \<open>P\<close> the operation ends in \<open>Q\<close>, or fails and
  ends in \<open>E\<close>.
\<close>

definition triple ::
  "(directory \<Rightarrow> bool) \<Rightarrow> 'a dir_op \<Rightarrow> (directory \<Rightarrow> bool) \<Rightarrow> (directory \<Rightarrow> bool) \<Rightarrow> bool" where
  "triple P m Q E \<longleftrightarrow> (\<forall>d. P d \<longrightarrow> (case m d of (Inl e, d') \<Rightarrow> E d' | (Inr x, d') \<Rightarrow> Q d'))"

lemma tripleI: "(\<And>d. P d \<Longrightarrow> case m d of (Inl e, d') \<Rightarrow> E d' | (Inr x, d') \<Rightarrow> Q d') \<Longrightarrow> triple P m Q E"
  by (simp add: triple_def)

lemma tripleD: "triple P m Q E \<Longrightarrow> P d \<Longrightarrow> m d = (Inr x, d') \<Longrightarrow> Q d'"
  by (fastforce simp: triple_def)

lemma tripleE: "triple P m Q E \<Longrightarrow> P d \<Longrightarrow> m d = (Inl e, d') \<Longrightarrow> E d'"
  by (fastforce simp: triple_def)

lemma triple_bind: "triple P m Q E \<Longrightarrow> (\<And>x. triple Q (f x) R E) \<Longrightarrow> triple P (io_bind m f) R E"
  by (fastforce simp: triple_def io_bind_def split: prod.splits sum.splits)

lemma triple_guard: "(\<And>d. P d \<Longrightarrow> E d) \<Longrightarrow> triple P (io_guard b e) P E"
  by (auto simp: triple_def ensure_def)

lemma triple_return: "(\<And>d. P d \<Longrightarrow> E d) \<Longrightarrow> triple P (io_return r) P E"
  by (auto simp: triple_def split: sum.splits)

lemma triple_reads: "(\<And>d. P d \<Longrightarrow> E d) \<Longrightarrow> (\<And>d. snd (m d) = d) \<Longrightarrow> triple P m P E"
  by (auto simp: triple_def split: prod.splits sum.splits) (metis snd_conv)+

lemma triple_spares:
  "spares name m \<Longrightarrow> triple (entry_in name A) m (entry_in name A) (entry_in name A)"
  by (auto simp: triple_def spares_def split: prod.splits sum.splits)
    (metis snd_conv)+

text \<open>
  The states while a file is replaced: the entry \<open>target\<close> is one of those allowed, and \<open>temp\<close> holds
  what was written so far.
\<close>

definition staged :: "string \<Rightarrow> (node option \<Rightarrow> bool) \<Rightarrow> string \<Rightarrow> node \<Rightarrow> directory \<Rightarrow> bool" where
  "staged target A temp n d \<longleftrightarrow> entry_in target A d \<and> dir_live d temp = Some n"

lemma staged_entry: "staged target A temp n d \<Longrightarrow> entry_in target A d"
  by (simp add: staged_def)

lemma triple_create:
  assumes "temp \<noteq> target"
  shows "triple (entry_in target A) (create_excl os temp)
    (staged target A temp (Regular [] False (os_mode os))) (entry_in target A)"
proof (rule tripleI)
  fix d assume "entry_in target A d"
  then have "A (dir_live d target)" "entry_in target A d" by (auto dest: entry_in_live)
  with assms show "case create_excl os temp d of (Inl e, d') \<Rightarrow> entry_in target A d'
      | (Inr x, d') \<Rightarrow> staged target A temp (Regular [] False (os_mode os)) d'"
    by (auto simp: create_excl_def call_def staged_def split: option.splits) (simp add: relink_def)
qed

lemma triple_write:
  assumes "temp \<noteq> target"
  shows "triple (staged target A temp (Regular c s m)) (write_all os temp bytes)
    (staged target A temp (Regular (c @ bytes) False m)) (entry_in target A)"
  using assms by (auto simp: triple_def write_all_def staged_def entry_in_def split: option.splits)

lemma triple_sync_file:
  assumes "temp \<noteq> target"
  shows "triple (staged target A temp (Regular c s m)) (sync_file os temp)
    (staged target A temp (Regular c True m)) (entry_in target A)"
  using assms by (auto simp: triple_def sync_file_def call_def staged_def entry_in_def split: option.splits)

definition installed :: "string \<Rightarrow> (node option \<Rightarrow> bool) \<Rightarrow> node \<Rightarrow> directory \<Rightarrow> bool" where
  "installed target A n d \<longleftrightarrow> entry_in target A d \<and> dir_live d target = Some n"

lemma triple_rename:
  assumes "A (Some n)"
  shows "triple (staged target A temp n) (renameat os temp target) (installed target A n) (entry_in target A)"
  using assms
  by (auto simp: triple_def renameat_def call_def staged_def installed_def split: option.splits node.splits)
    (simp_all add: relink_def)

definition durable :: "string \<Rightarrow> node \<Rightarrow> directory \<Rightarrow> bool" where
  "durable target n d \<longleftrightarrow> dir_live d target = Some n \<and> dir_past d = []"

lemma triple_sync_dir:
  "triple (installed target A n) (sync_dir os) (durable target n) (entry_in target A)"
  by (auto simp: triple_def sync_dir_def call_def installed_def durable_def split: option.splits)

text \<open>
  The contract of the durable stores: whatever happens, in every state the directory can be found in
  the target is an entry that was allowed before or the complete new file; success means that the new
  file is there for good.
\<close>

locale atomic_replacement =
  fixes target :: string
    and replace :: "'f \<Rightarrow> os \<Rightarrow> string \<Rightarrow> unit dir_op"
  assumes replaces:
    "A (Some (Regular bytes True (os_mode os))) \<Longrightarrow>
       triple (entry_in target A) (replace fault os bytes)
         (durable target (Regular bytes True (os_mode os))) (entry_in target A)"
begin

lemma success:
  assumes "replace fault os bytes d = (Inr u, d')"
  shows "dir_live d' target = Some (Regular bytes True (os_mode os))" and "dir_past d' = []"
  using tripleD [OF replaces [of "\<lambda>_. True"] _ assms] by (auto simp: durable_def entry_in_def)

lemma old_or_new:
  assumes "entry_in target (\<lambda>n. n = old) d" and "replace fault os bytes d = (r, d')"
  shows "entry_in target (\<lambda>n. n = old \<or> n = Some (Regular bytes True (os_mode os))) d'"
proof -
  let ?A = "\<lambda>n. n = old \<or> n = Some (Regular bytes True (os_mode os))"
  have d: "entry_in target ?A d" using assms(1) by (simp add: entry_in_def)
  have t: "triple (entry_in target ?A) (replace fault os bytes)
      (durable target (Regular bytes True (os_mode os))) (entry_in target ?A)"
    by (rule replaces) simp
  show ?thesis
  proof (cases r)
    case (Inl e)
    then show ?thesis using tripleE [OF t d] assms(2) by simp
  next
    case (Inr u)
    then show ?thesis using tripleD [OF t d] assms(2) by (auto simp: durable_def entry_in_def)
  qed
qed

text \<open>The old file, when it was synchronised, and the new one are all a crash can leave.\<close>

lemma crash_old_or_new:
  assumes "entry_in target (\<lambda>n. n = old) d" and "old = None \<or> (\<exists>c m. old = Some (Regular c True m))"
    and "replace fault os bytes d = (r, d')" and "crash d' d''"
  shows "dir_live d'' target = old \<or> dir_live d'' target = Some (Regular bytes True (os_mode os))"
proof -
  from assms(4) obtain m where m: "m \<in> insert (dir_live d') (set (dir_past d'))"
    and s: "rel_option survives (m target) (dir_live d'' target)"
    by (auto simp: crash_def)
  from m old_or_new [OF assms(1,3)] have "m target = old \<or> m target = Some (Regular bytes True (os_mode os))"
    by (auto simp: entry_in_def)
  with s assms(2) show ?thesis
    by (cases "dir_live d'' target") (auto simp: option_rel_Some1)
qed

lemma crash_after_success:
  assumes "replace fault os bytes d = (Inr u, d')" and "crash d' d''"
  shows "dir_live d'' target = Some (Regular bytes True (os_mode os))"
proof -
  note new = success [OF assms(1)]
  have "rel_option survives (dir_live d' target) (dir_live d'' target)"
    using assms(2) unfolding crash_def new(2) by auto
  with new(1) show ?thesis by (auto simp: option_rel_Some1)
qed

end

end
