(* ===== verification/Codex_Config.thy ===== *)
theory Codex_Config
  imports Codex_Turn File_System
begin

text \<open>
  The wake host (\<open>CodexAppServerHost\<close> of \<open>psst-codex/src/app_server.rs\<close>): its configuration from the
  environment, the check of the installed schema, and the life of the App Server process it owns, from
  \<open>start\<close> through the turn to \<open>shutdown\<close>.
\<close>

section \<open>Configuration\<close>

text \<open>
  The process environment (\<open>var_os\<close>; \<open>var\<close> gives a value only where it is Unicode), and what the file
  system says of a path.
\<close>

record process_env =
  pe_var_os :: "string \<Rightarrow> string option"
  pe_unicode :: "string \<Rightarrow> bool"
  pe_is_absolute :: "string \<Rightarrow> bool"
  pe_is_file :: "string \<Rightarrow> bool"
  pe_exists :: "string \<Rightarrow> bool"
  pe_parent_is_dir :: "string \<Rightarrow> bool"
  pe_current_dir :: "string option"

definition configured_program :: "process_env \<Rightarrow> string \<Rightarrow> AppServerError + string" where
  "configured_program P name =
     ok_or Configuration (option_filter (\<lambda>path. pe_is_absolute P path \<and> pe_is_file P path)
       (option_filter (\<lambda>v. v \<noteq> []) (pe_var_os P name)))"

text \<open>
  \<open>mcp_environment\<close>, a \<open>BTreeMap\<close>: its entries in the order of their keys. The profile and the origin
  are always there, the directories where the process has them and they are not empty.
\<close>

definition mcp_environment :: "string \<Rightarrow> string \<Rightarrow> (string \<Rightarrow> string option) \<Rightarrow> (string \<times> string) list" where
  "mcp_environment profile relay_origin process_environment =
     List.map_filter (\<lambda>key. map_option (Pair key)
         (if key = ''PSST_PROFILE'' then Some profile
          else if key = ''PSST_RELAY'' then Some relay_origin
          else option_filter (\<lambda>v. v \<noteq> []) (process_environment key)))
       [''APPDATA'', ''HOME'', ''LOCALAPPDATA'', ''PSST_PROFILE'', ''PSST_RELAY'', ''XDG_CONFIG_HOME'', ''XDG_DATA_HOME'',
        ''XDG_RUNTIME_DIR'']"

definition create_requested :: "process_env \<Rightarrow> AppServerError + bool" where
  "create_requested P =
     (case pe_var_os P ''PSST_CODEX_CREATE_THREAD'' of
        None \<Rightarrow> Inr False
      | Some v \<Rightarrow> if v = ''1'' then Inr True else Inl Configuration)"

definition thread_policy :: "process_env \<Rightarrow> string option \<Rightarrow> bool \<Rightarrow> string option \<Rightarrow> AppServerError + ThreadPolicy" where
  "thread_policy P thread_id create path =
     (case (thread_id, create, path) of
        (Some rid, False, None) \<Rightarrow> Inr (Resume rid)
      | (None, True, Some p) \<Rightarrow>
          if pe_is_absolute P p \<and> \<not> pe_exists P p \<and> pe_parent_is_dir P p then Inr (Create p) else Inl Configuration
      | _ \<Rightarrow> Inl Configuration)"

definition from_environment ::
  "process_env \<Rightarrow> string \<Rightarrow> string \<Rightarrow> (string \<Rightarrow> string option) \<Rightarrow> AppServerError + AppServerConfig" where
  "from_environment P relay_origin profile process_environment =
     rbind (ensure (pe_var_os P ''PSST_CODEX_APP_SERVER'' = Some ''1'') Configuration) (\<lambda>_.
     rbind (configured_program P ''PSST_CODEX_COMMAND'') (\<lambda>command.
     rbind (configured_program P ''PSST_CODEX_MCP_COMMAND'') (\<lambda>mcp_command.
     rbind (ensure (relay_origin \<noteq> [] \<and> profile \<noteq> []) Configuration) (\<lambda>_.
     let thread_id = option_filter (\<lambda>v. valid_identifier v 128)
           (option_filter (pe_unicode P) (pe_var_os P ''PSST_CODEX_THREAD_ID'')) in
     rbind (create_requested P) (\<lambda>create.
     let path = option_filter (\<lambda>v. v \<noteq> []) (pe_var_os P ''PSST_CODEX_THREAD_RECORD'') in
     rbind (thread_policy P thread_id create path) (\<lambda>thread.
     rbind (ok_or Configuration (pe_current_dir P)) (\<lambda>cwd.
     Inr \<lparr>cfg_command = command, cfg_mcp_command = mcp_command,
          cfg_mcp_environment = mcp_environment profile relay_origin process_environment,
          cfg_thread = thread, cfg_cwd = cwd\<rparr>)))))))"

text \<open>\<open>mcp_override\<close>: \<open>quoted\<close> is \<open>serde_json::to_string\<close> of a string; the environment is in key order.\<close>

fun joined :: "string \<Rightarrow> string list \<Rightarrow> string" where
  "joined sep [] = []"
| "joined sep [x] = x"
| "joined sep (x # y # xs) = x @ sep @ joined sep (y # xs)"

definition mcp_override :: "json_lib \<Rightarrow> (string \<Rightarrow> bool) \<Rightarrow> AppServerConfig \<Rightarrow> AppServerError + string" where
  "mcp_override L unicode config =
     rbind (ensure (unicode (cfg_mcp_command config)) Configuration) (\<lambda>_.
     rbind (ok_or Configuration (to_vec L (JString (cfg_mcp_command config)))) (\<lambda>command.
     rbind (collect_results (\<lambda>(key, v). rbind (ok_or Configuration (to_vec L (JString v))) (\<lambda>quoted. Inr (key @ ''='' @ quoted)))
       (cfg_mcp_environment config)) (\<lambda>entries.
     Inr (''mcp_servers={psst_wake={command='' @ command @ '',env={'' @ joined '','' entries @ ''},required=true}}''))))"

section \<open>The installed schema\<close>

definition MAX_SCHEMA_BYTES :: nat where "MAX_SCHEMA_BYTES = 16 * 1048576"

text \<open>What \<open>read_dir\<close> finds: \<open>None\<close> stands for an entry, a directory or a file that cannot be read.\<close>

datatype schema_entry =
    SchemaLink
  | SchemaDir "schema_entry option list option"
  | SchemaFile "string option"
  | SchemaOther

fun collect_entry :: "schema_entry option \<Rightarrow> string \<Rightarrow> AppServerError + string"
  and collect_entries :: "schema_entry option list \<Rightarrow> string \<Rightarrow> AppServerError + string" where
  "collect_entry None aggregate = Inl Schema"
| "collect_entry (Some SchemaLink) aggregate = Inl Schema"
| "collect_entry (Some (SchemaDir None)) aggregate = Inl Schema"
| "collect_entry (Some (SchemaDir (Some entries))) aggregate = collect_entries entries aggregate"
| "collect_entry (Some (SchemaFile None)) aggregate = Inl Schema"
| "collect_entry (Some (SchemaFile (Some bytes))) aggregate =
     (if length aggregate + length bytes > MAX_SCHEMA_BYTES then Inl Schema else Inr (aggregate @ bytes))"
| "collect_entry (Some SchemaOther) aggregate = Inl Schema"
| "collect_entries [] aggregate = Inr aggregate"
| "collect_entries (e # es) aggregate = rbind (collect_entry e aggregate) (collect_entries es)"

definition collect_schema :: "schema_entry option list option \<Rightarrow> string \<Rightarrow> AppServerError + string" where
  "collect_schema root aggregate = collect_entry (Some (SchemaDir root)) aggregate"

text \<open>\<open>aggregate.windows(required.len()).any(|value| value == required)\<close>\<close>

fun has_window :: "string \<Rightarrow> string \<Rightarrow> bool" where
  "has_window required [] = False"
| "has_window required (c # cs) = (take (length required) (c # cs) = required \<or> has_window required cs)"

definition required_methods :: "string list" where
  "required_methods = [''initialize'', ''initialized'', ''thread/start'', ''thread/resume'', ''turn/start'',
     ''turn/completed'', ''item/tool/call'', ''mcpServer/tool/call'', ''DynamicToolSpec'']"

definition required_shapes :: "(string \<times> string list \<times> string list) list" where
  "required_shapes = [
     (''v1/InitializeParams.json'', [''clientInfo''], [''clientInfo'', ''capabilities'']),
     (''DynamicToolCallParams.json'', [''arguments'', ''callId'', ''threadId'', ''tool'', ''turnId''],
       [''arguments'', ''callId'', ''namespace'', ''threadId'', ''tool'', ''turnId'']),
     (''DynamicToolCallResponse.json'', [''contentItems'', ''success''], [''contentItems'', ''success'']),
     (''v2/McpServerToolCallParams.json'', [''server'', ''threadId'', ''tool''], [''arguments'', ''server'', ''threadId'', ''tool'']),
     (''v2/McpServerToolCallResponse.json'', [''content''], [''content'', ''isError'', ''structuredContent'']),
     (''v2/ThreadResumeParams.json'', [''threadId''], [''threadId'']),
     (''v2/ThreadStartParams.json'', [], [''cwd'', ''approvalPolicy'', ''sandbox'', ''serviceName'']),
     (''v2/TurnStartParams.json'', [''threadId'', ''input''], [''threadId'', ''input'']),
     (''v2/TurnCompletedNotification.json'', [''threadId'', ''turn''], [''threadId'', ''turn''])]"

text \<open>\<open>file relative\<close> is what \<open>std::fs::read(root.join(relative))\<close> gives.\<close>

definition read_schema :: "json_lib \<Rightarrow> (string \<Rightarrow> string option) \<Rightarrow> string \<Rightarrow> AppServerError + json" where
  "read_schema L files relative =
     rbind (ok_or Schema (files relative)) (\<lambda>bytes.
     rbind (ensure (length bytes \<le> MAX_SCHEMA_BYTES) Schema) (\<lambda>_.
     ok_or Schema (from_slice L bytes)))"

definition shape_matches :: "string list \<Rightarrow> string list \<Rightarrow> json \<Rightarrow> AppServerError + unit" where
  "shape_matches required properties schema =
     (let declared_required = Option.bind (json_get ''required'' schema) as_array in
      rbind (ok_or Schema (Option.bind (json_get ''properties'' schema) as_object)) (\<lambda>declared_properties.
      ensure (list_all (\<lambda>field. case declared_required of None \<Rightarrow> False | Some vs \<Rightarrow> list_ex (\<lambda>v. as_str v = Some field) vs) required
        \<and> list_all (\<lambda>field. map_of declared_properties field \<noteq> None) properties) Schema))"

definition schema_array_contains :: "json \<Rightarrow> string list \<Rightarrow> string \<Rightarrow> bool" where
  "schema_array_contains schema pointer expected =
     (case Option.bind (json_pointer pointer schema) as_array of
        Some vs \<Rightarrow> list_ex (\<lambda>v. as_str v = Some expected) vs
      | None \<Rightarrow> False)"

fun contains_string :: "json \<Rightarrow> string \<Rightarrow> bool" where
  "contains_string (JString s) expected = (s = expected)"
| "contains_string (JArray vs) expected = (\<exists>v \<in> set vs. contains_string v expected)"
| "contains_string (JObject members) expected = (\<exists>f \<in> set members. contains_string (snd f) expected)"
| "contains_string _ expected = False"

fun contains_key :: "json \<Rightarrow> string \<Rightarrow> bool" where
  "contains_key (JArray vs) expected = (\<exists>v \<in> set vs. contains_key v expected)"
| "contains_key (JObject members) expected =
     (map_of members expected \<noteq> None \<or> (\<exists>f \<in> set members. contains_key (snd f) expected))"
| "contains_key _ expected = False"

definition validate_schema_shapes :: "json_lib \<Rightarrow> (string \<Rightarrow> string option) \<Rightarrow> AppServerError + unit" where
  "validate_schema_shapes L files =
     rbind (collect_results (\<lambda>(relative, required, properties).
       rbind (read_schema L files relative) (shape_matches required properties)) required_shapes) (\<lambda>_.
     rbind (read_schema L files ''v2/ThreadStartParams.json'') (\<lambda>thread_start.
     rbind (ensure (schema_array_contains thread_start [''definitions'', ''SandboxMode'', ''enum''] ''workspace-write'') Schema) (\<lambda>_.
     rbind (read_schema L files ''v1/InitializeParams.json'') (\<lambda>initialize.
     rbind (ensure (contains_key initialize ''experimentalApi'') Schema) (\<lambda>_.
     rbind (read_schema L files ''v2/TurnStartParams.json'') (\<lambda>turn_start.
     ensure (case json_pointer [''definitions'', ''SandboxPolicy'', ''oneOf''] turn_start of
         None \<Rightarrow> False
       | Some v \<Rightarrow> contains_string v ''workspaceWrite'') Schema))))))"

definition validate_generated_schema ::
  "json_lib \<Rightarrow> schema_entry option list option \<Rightarrow> (string \<Rightarrow> string option) \<Rightarrow> AppServerError + unit" where
  "validate_generated_schema L root files =
     rbind (collect_schema root []) (\<lambda>aggregate.
     rbind (ensure (list_all (\<lambda>required. has_window required aggregate) required_methods) Schema) (\<lambda>_.
     validate_schema_shapes L files))"

section \<open>The thread record\<close>

text \<open>\<open>persist_thread_id\<close>: the record is made, never overwritten.\<close>

definition persist_thread_id :: "os \<Rightarrow> string \<Rightarrow> string \<Rightarrow> directory \<Rightarrow> (AppServerError + unit) \<times> directory" where
  "persist_thread_id os name thread_id d =
     apfst (map_err (\<lambda>_. Configuration))
       (io_bind (create_excl os name) (\<lambda>_.
        io_bind (write_all os name thread_id) (\<lambda>_.
        io_bind (write_all os name ''\<newline>'') (\<lambda>_.
        sync_file os name))) d)"

lemma persist_thread_id_exists:
  assumes "os_fail os OpenExcl = None" and "dir_live d name \<noteq> None"
  shows "persist_thread_id os name thread_id d = (Inl Configuration, d)"
  using assms by (simp add: persist_thread_id_def io_bind_def create_excl_def call_def)

lemma persist_thread_id_durable:
  assumes "persist_thread_id os name thread_id d = (Inr u, d')"
  shows "dir_live d name = None" and "\<exists>m. dir_live d' name = Some (Regular (thread_id @ ''\<newline>'') True m)"
  using assms
  by (auto simp: persist_thread_id_def io_bind_def create_excl_def write_all_def sync_file_def call_def relink_def
      map_err_eq_Inr apfst_def map_prod_def split: prod.splits sum.splits option.splits if_splits)

section \<open>What the schema check accepts\<close>

text \<open>The files below a directory, in the order they are read.\<close>

fun schema_files :: "schema_entry option \<Rightarrow> string list"
  and schema_files_of :: "schema_entry option list \<Rightarrow> string list" where
  "schema_files (Some (SchemaDir (Some entries))) = schema_files_of entries"
| "schema_files (Some (SchemaFile (Some bytes))) = [bytes]"
| "schema_files _ = []"
| "schema_files_of [] = []"
| "schema_files_of (e # es) = schema_files e @ schema_files_of es"

lemma collect_entry_files:
  "collect_entry e aggregate = Inr bytes \<Longrightarrow> bytes = aggregate @ concat (schema_files e)"
  "collect_entries es aggregate = Inr bytes \<Longrightarrow> bytes = aggregate @ concat (schema_files_of es)"
  by (induction e aggregate and es aggregate arbitrary: bytes and bytes rule: collect_entry_collect_entries.induct)
    (fastforce simp: result_simps split: if_splits)+

lemma collect_entry_bounded:
  "collect_entry e aggregate = Inr bytes \<Longrightarrow> length aggregate \<le> MAX_SCHEMA_BYTES \<Longrightarrow> length bytes \<le> MAX_SCHEMA_BYTES"
  "collect_entries es aggregate = Inr bytes \<Longrightarrow> length aggregate \<le> MAX_SCHEMA_BYTES \<Longrightarrow> length bytes \<le> MAX_SCHEMA_BYTES"
  by (induction e aggregate and es aggregate arbitrary: bytes and bytes rule: collect_entry_collect_entries.induct)
    (auto simp: result_simps split: if_splits)

lemma has_window_iff: "required \<noteq> [] \<Longrightarrow> has_window required bytes \<longleftrightarrow> (\<exists>p s. bytes = p @ required @ s)"
proof (induction bytes)
  case step: (Cons c cs)
  show ?case
  proof
    assume "has_window required (c # cs)"
    then consider "take (length required) (c # cs) = required" | "has_window required cs" by auto
    then show "\<exists>p s. c # cs = p @ required @ s"
    proof cases
      case 1
      then have "c # cs = [] @ required @ drop (length required) (c # cs)" by (metis append_Nil append_take_drop_id)
      then show ?thesis by blast
    next
      case 2
      then obtain p s where "cs = p @ required @ s" using step by blast
      then have "c # cs = (c # p) @ required @ s" by simp
      then show ?thesis by blast
    qed
  next
    assume "\<exists>p s. c # cs = p @ required @ s"
    then obtain p s where "c # cs = p @ required @ s" by blast
    then show "has_window required (c # cs)" 
    proof (cases p)
      case Nil
      with \<open>c # cs = p @ required @ s\<close> have "take (length required) (c # cs) = required" by simp
      then show ?thesis by simp
    next
      case (Cons x xs)
      with \<open>c # cs = p @ required @ s\<close> show ?thesis using step by auto
    qed
  qed
qed simp

end
