(* ===== verification/Core_Value.thy ===== *)
theory Core_Value
  imports Prelude
begin

text \<open>
  The I/O-free vocabulary of \<open>psst-core\<close>: error codes and domain errors (\<open>error.rs\<close>), the
  validated text values (\<open>value.rs\<close>), the opaque identifiers (\<open>id.rs\<close>), millisecond
  timestamps (\<open>time.rs\<close>), resume tokens (\<open>secret.rs\<close>) and the semantics of a message
  (\<open>message.rs\<close>). A validated value is the string it wraps; the constructor \<open>T::new\<close> is the
  function \<open>T_new\<close>, and \<open>validated_text\<close> is the contract its clients use.
\<close>

section \<open>Errors\<close>

datatype ErrorCode =
    InvalidRequest | NotFound | SquadArchived | NotMember | NameInUse | LeaseExpired
  | RecipientNotFound | IdempotencyConflict | PayloadTooLarge | RateLimited | DatabaseBusy
  | InternalError | InvalidStateTransition

fun error_code_as_str :: "ErrorCode \<Rightarrow> string" where
  "error_code_as_str ErrorCode.InvalidRequest = ''invalid_request''"
| "error_code_as_str ErrorCode.NotFound = ''not_found''"
| "error_code_as_str ErrorCode.SquadArchived = ''squad_archived''"
| "error_code_as_str ErrorCode.NotMember = ''not_member''"
| "error_code_as_str ErrorCode.NameInUse = ''name_in_use''"
| "error_code_as_str ErrorCode.LeaseExpired = ''lease_expired''"
| "error_code_as_str ErrorCode.RecipientNotFound = ''recipient_not_found''"
| "error_code_as_str ErrorCode.IdempotencyConflict = ''idempotency_conflict''"
| "error_code_as_str ErrorCode.PayloadTooLarge = ''payload_too_large''"
| "error_code_as_str ErrorCode.RateLimited = ''rate_limited''"
| "error_code_as_str ErrorCode.DatabaseBusy = ''database_busy''"
| "error_code_as_str ErrorCode.InternalError = ''internal_error''"
| "error_code_as_str ErrorCode.InvalidStateTransition = ''invalid_state_transition''"

datatype InvalidValue = InvalidValue_new (iv_field: string) (iv_reason: string)

datatype DomainError =
    InvalidValue InvalidValue
  | InvalidStateTransition (ist_entity: string) (ist_action: string)
  | LeaseExpired
  | IdempotencyConflict (ic_existing: string)

fun domain_error_code :: "DomainError \<Rightarrow> ErrorCode" where
  "domain_error_code (DomainError.InvalidValue _) = ErrorCode.InvalidRequest"
| "domain_error_code (DomainError.InvalidStateTransition _ _) = ErrorCode.InvalidStateTransition"
| "domain_error_code DomainError.LeaseExpired = ErrorCode.LeaseExpired"
| "domain_error_code (DomainError.IdempotencyConflict _) = ErrorCode.IdempotencyConflict"

section \<open>Validated text values\<close>

type_synonym SquadName = string
type_synonym MemberName = string
type_synonym Mission = string
type_synonym Role = string
type_synonym DedupeKey = string
type_synonym CorrelationId = string
type_synonym MessageBody = string

text \<open>The constructor the \<open>text_value!\<close> macro expands to.\<close>

definition text_value_new ::
  "string \<Rightarrow> nat \<Rightarrow> (string \<Rightarrow> bool) \<Rightarrow> string \<Rightarrow> string \<Rightarrow> InvalidValue + string" where
  "text_value_new field mx validator reason v =
     (if v = [] then Inl (InvalidValue_new field ''must not be empty'')
      else if length v > mx then Inl (InvalidValue_new field ''is too large'')
      else if \<not> validator v then Inl (InvalidValue_new field reason)
      else Inr v)"

definition first_byte_is :: "(char \<Rightarrow> bool) \<Rightarrow> string \<Rightarrow> bool" where
  "first_byte_is p v = (case v of [] \<Rightarrow> False | b # _ \<Rightarrow> p b)"

definition last_byte_is :: "(char \<Rightarrow> bool) \<Rightarrow> string \<Rightarrow> bool" where
  "last_byte_is p v = (if v = [] then False else p (last v))"

definition valid_squad_name :: "string \<Rightarrow> bool" where
  "valid_squad_name v \<longleftrightarrow>
     first_byte_is is_ascii_alphanumeric v
     \<and> last_byte_is is_ascii_alphanumeric v
     \<and> list_all (\<lambda>b. is_ascii_lowercase b \<or> is_ascii_digit b \<or> b = CHR ''-'') v"

definition valid_member_name :: "string \<Rightarrow> bool" where
  "valid_member_name v \<longleftrightarrow>
     first_byte_is is_ascii_alphanumeric v
     \<and> last_byte_is is_ascii_alphanumeric v
     \<and> list_all (\<lambda>b. is_ascii_lowercase b \<or> is_ascii_digit b
          \<or> b = CHR ''-'' \<or> b = CHR ''_'' \<or> b = CHR ''.'') v"

definition trimmed_nonempty :: "string \<Rightarrow> bool" where
  "trimmed_nonempty v \<longleftrightarrow>
     trim_chars (utf8_chars v) = utf8_chars v \<and> trim_chars (utf8_chars v) \<noteq> []"

definition printable :: "string \<Rightarrow> bool" where
  "printable v \<longleftrightarrow> trimmed_nonempty v \<and> \<not> list_ex is_control (utf8_chars v)"

definition SquadName_new :: "string \<Rightarrow> InvalidValue + SquadName" where
  "SquadName_new = text_value_new ''squad_name'' 64 valid_squad_name
     ''must be a lowercase ASCII routing name''"

definition MemberName_new :: "string \<Rightarrow> InvalidValue + MemberName" where
  "MemberName_new = text_value_new ''member_name'' 64 valid_member_name
     ''must be a lowercase ASCII routing name''"

definition Mission_new :: "string \<Rightarrow> InvalidValue + Mission" where
  "Mission_new = text_value_new ''mission'' 4096 trimmed_nonempty
     ''must not have surrounding whitespace''"

definition Role_new :: "string \<Rightarrow> InvalidValue + Role" where
  "Role_new = text_value_new ''role'' 256 trimmed_nonempty
     ''must not have surrounding whitespace''"

definition DedupeKey_new :: "string \<Rightarrow> InvalidValue + DedupeKey" where
  "DedupeKey_new = text_value_new ''dedupe_key'' 256 printable
     ''must contain printable text without surrounding whitespace''"

definition CorrelationId_new :: "string \<Rightarrow> InvalidValue + CorrelationId" where
  "CorrelationId_new = text_value_new ''correlation_id'' 256 printable
     ''must contain printable text without surrounding whitespace''"

definition MAX_BYTES :: nat where
  "MAX_BYTES = 64 * 1024"

definition MessageBody_new :: "string \<Rightarrow> InvalidValue + MessageBody" where
  "MessageBody_new v =
     (if v = [] then Inl (InvalidValue_new ''message_body'' ''must not be empty'')
      else if length v > MAX_BYTES then Inl (InvalidValue_new ''message_body'' ''is too large'')
      else Inr v)"

section \<open>Opaque identifiers\<close>

type_synonym SquadId = string
type_synonym AgentId = string
type_synonym MembershipId = string
type_synonym InstanceId = string
type_synonym MessageId = string

definition id_char :: "char \<Rightarrow> bool" where
  "id_char b \<longleftrightarrow> is_ascii_lowercase b \<or> is_ascii_digit b \<or> b = CHR ''-''"

text \<open>The constructor the \<open>opaque_id!\<close> macro expands to.\<close>

definition opaque_id_new :: "string \<Rightarrow> string \<Rightarrow> string \<Rightarrow> InvalidValue + string" where
  "opaque_id_new ty prefix v =
     (case strip_prefix (prefix @ ''_'') v of
        None \<Rightarrow> Inl (InvalidValue_new ty ''has the wrong prefix'')
      | Some suffix \<Rightarrow>
          if suffix = [] \<or> length v > 128 then
            Inl (InvalidValue_new ty ''has an invalid length'')
          else if \<not> list_all id_char suffix then
            Inl (InvalidValue_new ty ''contains invalid characters'')
          else Inr v)"

definition SquadId_new :: "string \<Rightarrow> InvalidValue + SquadId" where
  "SquadId_new = opaque_id_new ''SquadId'' ''sqd''"

definition AgentId_new :: "string \<Rightarrow> InvalidValue + AgentId" where
  "AgentId_new = opaque_id_new ''AgentId'' ''agt''"

definition MembershipId_new :: "string \<Rightarrow> InvalidValue + MembershipId" where
  "MembershipId_new = opaque_id_new ''MembershipId'' ''mem''"

definition InstanceId_new :: "string \<Rightarrow> InvalidValue + InstanceId" where
  "InstanceId_new = opaque_id_new ''InstanceId'' ''ins''"

definition MessageId_new :: "string \<Rightarrow> InvalidValue + MessageId" where
  "MessageId_new = opaque_id_new ''MessageId'' ''msg''"

section \<open>The contract of a validated value\<close>

text \<open>
  What every client of a validated value relies on: \<open>new\<close> keeps the text unchanged, and
  accepts only non-empty text within the type's bound. \<open>Display\<close> followed by \<open>FromStr\<close> is then
  the identity, which is what the store's \<open>parse\<close> of a stored column needs.
\<close>

locale validated_text =
  fixes new :: "string \<Rightarrow> InvalidValue + string"
    and bound :: nat
  assumes new_keeps_text: "new v = Inr w \<Longrightarrow> w = v"
    and new_bounded: "new v = Inr w \<Longrightarrow> v \<noteq> [] \<and> length v \<le> bound"
begin

lemma new_Inr_iff: "new v = Inr w \<longleftrightarrow> w = v \<and> is_ok (new v)"
  by (cases "new v") (auto dest: new_keeps_text)

lemma accepted: "is_ok (new v) \<Longrightarrow> new v = Inr v"
  by (cases "new v") (auto dest: new_keeps_text)

lemma accepted_bounds:
  assumes "is_ok (new v)"
  shows "v \<noteq> []" and "length v \<le> bound"
  using accepted [OF assms] by (auto dest: new_bounded)

lemma reparse: "new v = Inr w \<Longrightarrow> new w = Inr w"
  by (auto dest: new_keeps_text)

lemma rejected_if_long: "bound < length v \<Longrightarrow> \<exists>e. new v = Inl e"
proof (cases "new v")
  case (Inr w)
  then show "bound < length v \<Longrightarrow> \<exists>e. new v = Inl e"
    using new_bounded [of v w] by simp
qed auto

end

lemma text_value_new_Inr:
  "text_value_new f m p r v = Inr w \<longleftrightarrow> w = v \<and> v \<noteq> [] \<and> length v \<le> m \<and> p v"
  by (auto simp: text_value_new_def)

lemma opaque_id_new_Inr:
  "opaque_id_new ty pre v = Inr w \<longleftrightarrow>
     w = v \<and> (\<exists>s. v = pre @ ''_'' @ s \<and> s \<noteq> [] \<and> length v \<le> 128 \<and> list_all id_char s)"
  by (auto simp: opaque_id_new_def strip_prefix_Some split: option.splits)

lemma MessageBody_new_Inr:
  "MessageBody_new v = Inr w \<longleftrightarrow> w = v \<and> v \<noteq> [] \<and> length v \<le> MAX_BYTES"
  by (auto simp: MessageBody_new_def)

lemmas id_new_defs =
  SquadId_new_def AgentId_new_def MembershipId_new_def InstanceId_new_def MessageId_new_def

lemmas text_new_defs =
  SquadName_new_def MemberName_new_def Mission_new_def Role_new_def DedupeKey_new_def
  CorrelationId_new_def

lemmas [eval_simps] = id_new_defs text_new_defs text_value_new_def opaque_id_new_def
  MessageBody_new_def MAX_BYTES_def first_byte_is_def last_byte_is_def valid_squad_name_def
  valid_member_name_def trimmed_nonempty_def printable_def id_char_def

interpretation squad_name: validated_text SquadName_new 64
  by unfold_locales (auto simp: SquadName_new_def text_value_new_Inr)

interpretation member_name: validated_text MemberName_new 64
  by unfold_locales (auto simp: MemberName_new_def text_value_new_Inr)

interpretation mission: validated_text Mission_new 4096
  by unfold_locales (auto simp: Mission_new_def text_value_new_Inr)

interpretation role: validated_text Role_new 256
  by unfold_locales (auto simp: Role_new_def text_value_new_Inr)

interpretation dedupe_key: validated_text DedupeKey_new 256
  by unfold_locales (auto simp: DedupeKey_new_def text_value_new_Inr)

interpretation correlation_id: validated_text CorrelationId_new 256
  by unfold_locales (auto simp: CorrelationId_new_def text_value_new_Inr)

interpretation message_body: validated_text MessageBody_new MAX_BYTES
  by unfold_locales (auto simp: MessageBody_new_Inr)

interpretation squad_id: validated_text SquadId_new 128
  by unfold_locales (auto simp: SquadId_new_def opaque_id_new_Inr)

interpretation agent_id: validated_text AgentId_new 128
  by unfold_locales (auto simp: AgentId_new_def opaque_id_new_Inr)

interpretation membership_id: validated_text MembershipId_new 128
  by unfold_locales (auto simp: MembershipId_new_def opaque_id_new_Inr)

interpretation instance_id: validated_text InstanceId_new 128
  by unfold_locales (auto simp: InstanceId_new_def opaque_id_new_Inr)

interpretation message_id: validated_text MessageId_new 128
  by unfold_locales (auto simp: MessageId_new_def opaque_id_new_Inr)

section \<open>Timestamps\<close>

datatype UnixMillis = UnixMillis (as_i64: int)

definition UnixMillis_new :: "int \<Rightarrow> InvalidValue + UnixMillis" where
  "UnixMillis_new v =
     (if v < 0 then Inl (InvalidValue_new ''timestamp'' ''must not precede the Unix epoch'')
      else Inr (UnixMillis v))"

definition checked_add :: "UnixMillis \<Rightarrow> Duration \<Rightarrow> UnixMillis option" where
  "checked_add t d =
     Option.bind (i64_try_from (as_millis d)) (\<lambda>millis.
       map_option UnixMillis (i64_checked_add (as_i64 t) millis))"

text \<open>The derived \<open>Ord\<close> compares the wrapped integer, so \<open>max\<close> is available.\<close>

instantiation UnixMillis :: linorder
begin

definition less_eq_UnixMillis :: "UnixMillis \<Rightarrow> UnixMillis \<Rightarrow> bool" where
  "less_eq_UnixMillis a b \<longleftrightarrow> as_i64 a \<le> as_i64 b"

definition less_UnixMillis :: "UnixMillis \<Rightarrow> UnixMillis \<Rightarrow> bool" where
  "less_UnixMillis a b \<longleftrightarrow> as_i64 a < as_i64 b"

instance
  by standard (auto simp: less_eq_UnixMillis_def less_UnixMillis_def UnixMillis.expand)

end

text \<open>A timestamp the rest of the program can hold: what \<open>UnixMillis::new\<close> can have built.\<close>

definition valid_time :: "UnixMillis \<Rightarrow> bool" where
  "valid_time t \<longleftrightarrow> 0 \<le> as_i64 t \<and> as_i64 t \<le> i64_max"

lemma as_i64_max [simp]: "as_i64 (max a b) = max (as_i64 a) (as_i64 b)"
  by (simp add: max_def less_eq_UnixMillis_def)

lemma UnixMillis_new_Inr: "UnixMillis_new v = Inr t \<longleftrightarrow> 0 \<le> v \<and> t = UnixMillis v"
  by (auto simp: UnixMillis_new_def)

lemma checked_add_Some:
  assumes "0 \<le> as_i64 t"
  shows "checked_add t d = Some u \<longleftrightarrow>
    as_i64 t + as_millis d \<le> i64_max \<and> u = UnixMillis (as_i64 t + as_millis d)"
proof -
  obtain m where "as_millis d = m" and "0 \<le> m"
    using as_millis_nonneg by blast
  with assms show ?thesis
    by (auto simp: checked_add_def i64_try_from_def i64_checked_add_def bind_eq_Some_conv
        split: if_splits)
qed

lemma checked_add_None:
  assumes "0 \<le> as_i64 t"
  shows "checked_add t d = None \<longleftrightarrow> i64_max < as_i64 t + as_millis d"
proof (cases "checked_add t d")
  case None
  then show ?thesis
    using checked_add_Some [OF assms, of d "UnixMillis (as_i64 t + as_millis d)"] by auto
next
  case (Some u)
  then show ?thesis using checked_add_Some [OF assms, of d u] by simp
qed

lemmas [eval_simps] = valid_time_def UnixMillis_new_def

section \<open>Resume tokens\<close>

text \<open>
  The codec \<open>URL_SAFE_NO_PAD\<close> of the \<open>base64\<close> crate is a parameter: \<open>enc\<close> encodes bytes and
  \<open>dec\<close> decodes text, \<open>None\<close> where the crate reports an error. The operating-system entropy
  of \<open>generate\<close> is the argument \<open>entropy\<close>, \<open>None\<close> when it is unavailable.
\<close>

type_synonym ResumeToken = string

definition TOKEN_BYTES :: nat where "TOKEN_BYTES = 32"

definition TOKEN_ENCODED_LENGTH :: nat where "TOKEN_ENCODED_LENGTH = 43"

definition ResumeToken_generate :: "(string \<Rightarrow> string) \<Rightarrow> string option \<Rightarrow> unit + ResumeToken" where
  "ResumeToken_generate enc entropy =
     (case entropy of None \<Rightarrow> Inl () | Some bytes \<Rightarrow> Inr (enc bytes))"

definition ResumeToken_from_encoded ::
  "(string \<Rightarrow> string option) \<Rightarrow> (string \<Rightarrow> string) \<Rightarrow> string \<Rightarrow> InvalidValue + ResumeToken" where
  "ResumeToken_from_encoded dec enc v =
     (if length v \<noteq> TOKEN_ENCODED_LENGTH then
        Inl (InvalidValue_new ''resume_token'' ''must be a canonical 256-bit token'')
      else case dec v of
        None \<Rightarrow> Inl (InvalidValue_new ''resume_token''
                      ''must be canonical base64url without padding'')
      | Some decoded \<Rightarrow>
          if length decoded \<noteq> TOKEN_BYTES \<or> enc decoded \<noteq> v then
            Inl (InvalidValue_new ''resume_token'' ''must be a canonical 256-bit token'')
          else Inr v)"

text \<open>The documented behaviour of the codec that callers rely on.\<close>

definition url_safe_char :: "char \<Rightarrow> bool" where
  "url_safe_char c \<longleftrightarrow> is_ascii_alphanumeric c \<or> c = CHR ''-'' \<or> c = CHR ''_''"

definition base64_round_trip :: "(string \<Rightarrow> string option) \<Rightarrow> (string \<Rightarrow> string) \<Rightarrow> bool" where
  "base64_round_trip dec enc \<longleftrightarrow> (\<forall>bs. dec (enc bs) = Some bs)"

definition base64_alphabet :: "(string \<Rightarrow> string option) \<Rightarrow> bool" where
  "base64_alphabet dec \<longleftrightarrow> (\<forall>v bs. dec v = Some bs \<longrightarrow> list_all url_safe_char v)"

definition base64_length :: "(string \<Rightarrow> string) \<Rightarrow> bool" where
  "base64_length enc \<longleftrightarrow> (\<forall>bs. length bs = TOKEN_BYTES \<longrightarrow> length (enc bs) = TOKEN_ENCODED_LENGTH)"

lemma ResumeToken_from_encoded_Inr:
  "ResumeToken_from_encoded dec enc v = Inr t \<longleftrightarrow>
     t = v \<and> length v = TOKEN_ENCODED_LENGTH
     \<and> (\<exists>bs. dec v = Some bs \<and> length bs = TOKEN_BYTES \<and> enc bs = v)"
  by (auto simp: ResumeToken_from_encoded_def split: option.splits if_splits)

lemma generated_token_is_canonical:
  assumes "base64_round_trip dec enc" and "base64_length enc"
    and "ResumeToken_generate enc (Some bytes) = Inr t" and "length bytes = TOKEN_BYTES"
  shows "ResumeToken_from_encoded dec enc t = Inr t"
  using assms
  by (auto simp: ResumeToken_generate_def ResumeToken_from_encoded_Inr base64_round_trip_def
      base64_length_def)

section \<open>Message semantics\<close>

datatype MessagePriority = Normal | High

record MessageSemantics =
  sem_squad :: SquadId
  sem_sender :: MembershipId
  sem_recipient :: MembershipId
  sem_body :: MessageBody
  sem_priority :: MessagePriority
  sem_reply_to :: "MessageId option"
  sem_correlation_id :: "CorrelationId option"

definition matches_retry :: "MessageSemantics \<Rightarrow> MessageSemantics \<Rightarrow> bool" where
  "matches_retry self retry \<longleftrightarrow> self = retry"

end
