(* ===== verification/Core_State.thy ===== *)
theory Core_State
  imports Core_Value
begin

text \<open>
  The lifecycle rules of \<open>psst-core/src/state.rs\<close>: squads, memberships, instances and messages
  each move once into a terminal state, leases are renewed without shortening and never
  revived, and an availability observation pairs known with known. A \<open>&mut self\<close> transition is
  a function to the new state; on \<open>Err\<close> the source leaves the state unchanged.
\<close>

section \<open>State types\<close>

datatype AgentMode = Cooperative | Scheduled | Harnessed

datatype SquadState = Active | Archived

datatype MembershipState = Joined | Left

datatype InstanceState = Online | Expired | Closed

datatype MessageState = Pending | Acknowledged

datatype Availability = Idle | Busy | Blocked | Unknown

datatype AvailabilitySource =
  SessionLifecycle | McpConnection | ToolActivity | AgentReported | Unknown

record AvailabilityObservation =
  obs_availability :: Availability
  obs_source :: AvailabilitySource
  obs_observed_at :: UnixMillis

section \<open>Transitions\<close>

definition SquadState_archive :: "SquadState \<Rightarrow> DomainError + SquadState" where
  "SquadState_archive self =
     (if self = SquadState.Archived then
        Inl (DomainError.InvalidStateTransition ''squad'' ''archive'')
      else Inr SquadState.Archived)"

definition MembershipState_leave :: "MembershipState \<Rightarrow> DomainError + MembershipState" where
  "MembershipState_leave self =
     (if self = MembershipState.Left then
        Inl (DomainError.InvalidStateTransition ''membership'' ''leave'')
      else Inr MembershipState.Left)"

definition InstanceState_at :: "UnixMillis option \<Rightarrow> UnixMillis \<Rightarrow> UnixMillis \<Rightarrow> InstanceState" where
  "InstanceState_at closed_at lease_expires_at now =
     (if closed_at \<noteq> None then InstanceState.Closed
      else if as_i64 now \<ge> as_i64 lease_expires_at then InstanceState.Expired
      else InstanceState.Online)"

definition InstanceState_close :: "InstanceState \<Rightarrow> DomainError + InstanceState" where
  "InstanceState_close self =
     (if self \<noteq> InstanceState.Online then
        Inl (DomainError.InvalidStateTransition ''instance'' ''close'')
      else Inr InstanceState.Closed)"

definition MessageState_acknowledge :: "MessageState \<Rightarrow> DomainError + MessageState" where
  "MessageState_acknowledge self =
     (if self = MessageState.Acknowledged then
        Inl (DomainError.InvalidStateTransition ''message'' ''acknowledge'')
      else Inr MessageState.Acknowledged)"

definition renew_lease ::
  "InstanceState \<Rightarrow> UnixMillis \<Rightarrow> UnixMillis \<Rightarrow> Duration \<Rightarrow> DomainError + UnixMillis" where
  "renew_lease state current_expiry now duration =
     (if state = InstanceState.Closed then
        Inl (DomainError.InvalidStateTransition ''instance'' ''heartbeat'')
      else if state = InstanceState.Expired \<or> now \<ge> current_expiry then
        Inl DomainError.LeaseExpired
      else
        rbind
          (ok_or (DomainError.InvalidValue (InvalidValue_new ''lease'' ''overflows timestamp''))
            (checked_add now duration))
          (\<lambda>candidate. Inr (max candidate current_expiry)))"

definition AvailabilityObservation_new ::
  "Availability \<Rightarrow> AvailabilitySource \<Rightarrow> UnixMillis \<Rightarrow> DomainError + AvailabilityObservation" where
  "AvailabilityObservation_new availability source observed_at =
     (if (availability = Availability.Unknown) \<noteq> (source = AvailabilitySource.Unknown) then
        Inl (DomainError.InvalidValue (InvalidValue_new ''availability''
          ''availability and observation source must both be known or both be unknown''))
      else Inr \<lparr>obs_availability = availability, obs_source = source,
                 obs_observed_at = observed_at\<rparr>)"

section \<open>Terminal transitions\<close>

text \<open>
  The contract the four one-way transitions share: a success lands in the terminal state, and
  the terminal state refuses. A run of attempts then succeeds at most once.
\<close>

fun attempt_times :: "('s \<Rightarrow> 'e + 's) \<Rightarrow> nat \<Rightarrow> 's \<Rightarrow> nat \<times> 's" where
  "attempt_times step 0 s = (0, s)"
| "attempt_times step (Suc n) s =
     (case step s of
        Inl _ \<Rightarrow> attempt_times step n s
      | Inr t \<Rightarrow> (let (k, u) = attempt_times step n t in (Suc k, u)))"

locale terminal_transition =
  fixes step :: "'s \<Rightarrow> DomainError + 's"
    and terminal :: 's
  assumes lands: "step s = Inr t \<Longrightarrow> t = terminal"
    and refuses: "\<exists>e. step terminal = Inl e"
begin

lemma terminal_absorbs: "attempt_times step n terminal = (0, terminal)"
  using refuses by (induction n) auto

lemma no_success_after_success: "step s = Inr t \<Longrightarrow> \<exists>e. step t = Inl e"
  using lands refuses by auto

lemma at_most_one_success: "fst (attempt_times step n s) \<le> 1"
proof (induction n arbitrary: s)
  case (Suc n)
  show ?case
  proof (cases "step s")
    case (Inl e)
    with Suc show ?thesis by simp
  next
    case (Inr t)
    then have "t = terminal" by (rule lands)
    with Inr show ?thesis by (simp add: terminal_absorbs)
  qed
qed simp

end

interpretation squad_archive: terminal_transition SquadState_archive SquadState.Archived
  by unfold_locales (auto simp: SquadState_archive_def split: if_splits)

interpretation membership_leave: terminal_transition MembershipState_leave MembershipState.Left
  by unfold_locales (auto simp: MembershipState_leave_def split: if_splits)

interpretation instance_close: terminal_transition InstanceState_close InstanceState.Closed
  by unfold_locales (auto simp: InstanceState_close_def split: if_splits)

interpretation message_ack: terminal_transition MessageState_acknowledge MessageState.Acknowledged
  by unfold_locales (auto simp: MessageState_acknowledge_def split: if_splits)

text \<open>
  Archiving a squad, leaving a membership, closing an instance and acknowledging a message
  are terminal: however often each is attempted, from whatever state, at most one attempt
  succeeds.
\<close>

theorem lifecycle_transitions_succeed_at_most_once:
  "fst (attempt_times SquadState_archive n sq) \<le> 1
   \<and> fst (attempt_times MembershipState_leave n mb) \<le> 1
   \<and> fst (attempt_times InstanceState_close n inst) \<le> 1
   \<and> fst (attempt_times MessageState_acknowledge n msg) \<le> 1"
  using squad_archive.at_most_one_success membership_leave.at_most_one_success
    instance_close.at_most_one_success message_ack.at_most_one_success
  by blast

section \<open>Leases\<close>

lemma renew_lease_Inr:
  assumes "0 \<le> as_i64 now"
  shows "renew_lease st expiry now d = Inr e \<longleftrightarrow>
    st = InstanceState.Online \<and> now < expiry \<and> as_i64 now + as_millis d \<le> i64_max
    \<and> e = max (UnixMillis (as_i64 now + as_millis d)) expiry"
proof (cases st)
  case Online
  with assms show ?thesis by (auto simp: renew_lease_def result_simps checked_add_Some)
qed (auto simp: renew_lease_def result_simps)

lemma renew_lease_Inl:
  assumes "0 \<le> as_i64 now" and "st = InstanceState.Online" and "now < expiry"
  shows "is_ok (renew_lease st expiry now d) \<longleftrightarrow> as_i64 now + as_millis d \<le> i64_max"
  using assms by (auto simp: is_ok_iff renew_lease_Inr)

lemma InstanceState_at_online [simp]:
  "InstanceState_at None expiry now = InstanceState.Online \<longleftrightarrow> now < expiry"
  by (auto simp: InstanceState_at_def less_UnixMillis_def)

lemma InstanceState_at_expired [simp]:
  "InstanceState_at None expiry now = InstanceState.Expired \<longleftrightarrow> expiry \<le> now"
  by (auto simp: InstanceState_at_def less_eq_UnixMillis_def)

text \<open>
  Renewing a lease never shortens it and never revives it: at a valid time, a renewal of
  the state the clock shows succeeds exactly when the instance is open, its lease is still
  running and the new expiry is representable; the new expiry is at least the old one and at
  least the full duration away.
\<close>

theorem renew_lease_monotone_and_exact:
  assumes "valid_time now" and "valid_time expiry"
  shows "(renew_lease (InstanceState_at closed expiry now) expiry now d = Inr e) =
    (closed = None \<and> now < expiry \<and> as_i64 now + as_millis d \<le> i64_max
     \<and> expiry \<le> e \<and> as_i64 now + as_millis d \<le> as_i64 e
     \<and> as_i64 e \<in> {as_i64 expiry, as_i64 now + as_millis d} \<and> valid_time e)"
proof -
  have now: "0 \<le> as_i64 now" using assms by (simp add: valid_time_def)
  have st: "InstanceState_at closed expiry now = InstanceState.Online \<longleftrightarrow> closed = None \<and> now < expiry"
    by (auto simp: InstanceState_at_def less_UnixMillis_def)
  have mx: "e = max (UnixMillis (as_i64 now + as_millis d)) expiry \<longleftrightarrow>
      expiry \<le> e \<and> as_i64 now + as_millis d \<le> as_i64 e
      \<and> as_i64 e \<in> {as_i64 expiry, as_i64 now + as_millis d}"
    by (auto simp: UnixMillis.expand less_eq_UnixMillis_def)
  show ?thesis
    unfolding renew_lease_Inr [OF now] st mx
    using assms by (auto simp: valid_time_def less_eq_UnixMillis_def)
qed

theorem renew_lease_monotone_and_exact_witness:
  "(renew_lease (InstanceState_at None (UnixMillis 30000) (UnixMillis 25000)) (UnixMillis 30000)
      (UnixMillis 25000) (from_secs 30) = Inr (UnixMillis 55000))"
  using renew_lease_monotone_and_exact [of "UnixMillis 25000" "UnixMillis 30000" None
      "from_secs 30" "UnixMillis 55000"]
  by (simp add: valid_time_def less_eq_UnixMillis_def less_UnixMillis_def)

section \<open>Availability\<close>

lemma AvailabilityObservation_new_is_ok:
  "is_ok (AvailabilityObservation_new a s t) \<longleftrightarrow>
     (a = Availability.Unknown \<longleftrightarrow> s = AvailabilitySource.Unknown)"
  by (auto simp: AvailabilityObservation_new_def)

lemma AvailabilityObservation_new_Inr:
  "AvailabilityObservation_new a s t = Inr v \<longleftrightarrow>
     (a = Availability.Unknown \<longleftrightarrow> s = AvailabilitySource.Unknown)
     \<and> v = \<lparr>obs_availability = a, obs_source = s, obs_observed_at = t\<rparr>"
  by (auto simp: AvailabilityObservation_new_def)

end
