(* ===== verification/Protocol_Dto.thy ===== *)
theory Protocol_Dto
  imports Core_State
begin

text \<open>
  The wire vocabulary of \<open>psst-protocol\<close>: timestamps (\<open>timestamp.rs\<close>), requests and responses
  (\<open>dto.rs\<close>) and the error envelope (\<open>error.rs\<close>). The structs that clash with a struct of the
  store carry the suffix \<open>Dto\<close>. JSON encoding is derived by \<open>serde\<close> and outside the model.

  The \<open>time\<close> crate is a parameter: an \<open>OffsetDateTime\<close> is observed through its instant in
  nanoseconds, and \<open>civil\<close> and \<open>parse_rfc3339\<close> stand for the crate's calendar fields and parser.
\<close>

section \<open>Timestamps\<close>

type_synonym OffsetDateTime = int

datatype ApiTimestamp = ApiTimestamp (ts_value: OffsetDateTime)

definition nanosecond :: "OffsetDateTime \<Rightarrow> int" where
  "nanosecond t = t mod 1000000000"

definition ApiTimestamp_new :: "OffsetDateTime \<Rightarrow> string + ApiTimestamp" where
  "ApiTimestamp_new value =
     (if nanosecond value mod 1000000 \<noteq> 0
      then Inl ''timestamp must have exactly millisecond precision''
      else Inr (ApiTimestamp value))"

instantiation ApiTimestamp :: linorder
begin

definition less_eq_ApiTimestamp :: "ApiTimestamp \<Rightarrow> ApiTimestamp \<Rightarrow> bool" where
  "less_eq_ApiTimestamp a b \<longleftrightarrow> ts_value a \<le> ts_value b"

definition less_ApiTimestamp :: "ApiTimestamp \<Rightarrow> ApiTimestamp \<Rightarrow> bool" where
  "less_ApiTimestamp a b \<longleftrightarrow> ts_value a < ts_value b"

instance
  by standard (auto simp: less_eq_ApiTimestamp_def less_ApiTimestamp_def ApiTimestamp.expand)

end

text \<open>\<open>{:0w}\<close>: decimal digits, padded with zeros on the left to width \<open>w\<close>.\<close>

fun decimal :: "nat \<Rightarrow> string" where
  "decimal n = (if n < 10 then [char_of (48 + n)] else decimal (n div 10) @ [char_of (48 + n mod 10)])"

declare decimal.simps [simp del]

text \<open>The value of a string of ASCII digits.\<close>

definition digits_value :: "string \<Rightarrow> nat" where
  "digits_value = foldl (\<lambda>n c. 10 * n + (byte_of c - 48)) 0"

lemma digit_char: "(n :: nat) < 10 \<Longrightarrow> is_ascii_digit (char_of (48 + n))"
  by (simp add: is_ascii_digit_def)

lemma decimal_digits: "list_all is_ascii_digit (decimal n) \<and> decimal n \<noteq> []"
proof (induction n rule: decimal.induct)
  case (1 n)
  then show ?case by (subst (1 2) decimal.simps) (auto simp: digit_char)
qed

lemma digits_value_snoc: "digits_value (v @ [c]) = 10 * digits_value v + (byte_of c - 48)"
  by (simp add: digits_value_def)

lemma decimal_value: "digits_value (decimal n) = n"
proof (induction n rule: decimal.induct)
  case (1 n)
  show ?case
    by (subst decimal.simps) (use "1.IH" in \<open>auto simp: digits_value_snoc digits_value_def\<close>)
qed

lemma decimal_plain: "\<not> is_ascii_digit c \<Longrightarrow> c \<notin> set (decimal n)"
  using decimal_digits [of n] by (auto simp: list_all_iff)

definition zero_padded :: "nat \<Rightarrow> nat \<Rightarrow> string" where
  "zero_padded w n = replicate (w - length (decimal n)) (CHR ''0'') @ decimal n"

record civil_fields =
  cf_year :: nat
  cf_month :: nat
  cf_day :: nat
  cf_hour :: nat
  cf_minute :: nat
  cf_second :: nat
  cf_millisecond :: nat

definition ApiTimestamp_display :: "(OffsetDateTime \<Rightarrow> civil_fields) \<Rightarrow> ApiTimestamp \<Rightarrow> string" where
  "ApiTimestamp_display civil self =
     (let v = civil (ts_value self) in
      zero_padded 4 (cf_year v) @ ''-'' @ zero_padded 2 (cf_month v) @ ''-'' @ zero_padded 2 (cf_day v)
      @ ''T'' @ zero_padded 2 (cf_hour v) @ '':'' @ zero_padded 2 (cf_minute v) @ '':''
      @ zero_padded 2 (cf_second v) @ ''.'' @ zero_padded 3 (cf_millisecond v) @ ''Z'')"

datatype deserialize_error = Custom string | Unparseable

definition ApiTimestamp_deserialize ::
  "(string \<Rightarrow> OffsetDateTime option) \<Rightarrow> string \<Rightarrow> deserialize_error + ApiTimestamp" where
  "ApiTimestamp_deserialize parse_rfc3339 input =
     (if length input \<noteq> 24 \<or> \<not> (input \<noteq> [] \<and> last input = CHR ''Z'')
         \<or> \<not> (19 < length input \<and> input ! 19 = CHR ''.'')
      then Inl (Custom ''expected UTC RFC 3339 with milliseconds'')
      else rbind (ok_or Unparseable (parse_rfc3339 input)) (\<lambda>parsed.
        map_err Custom (ApiTimestamp_new parsed)))"

section \<open>Wire enums\<close>

datatype SquadStateDto = Active | Archived

datatype MembershipStateDto = Joined | Left

datatype TransportPresenceDto = Online | Offline

datatype AgentModeDto = Cooperative | Scheduled | Harnessed

datatype AvailabilityDto = Idle | Busy | Blocked | Unknown

datatype AvailabilitySourceDto =
  SessionLifecycle | McpConnection | ToolActivity | AgentReported | Unknown

datatype MessagePriorityDto = Normal | High

text \<open>A message sequence fits SQLite's integers and is not negative.\<close>

datatype MessageSequence = MessageSequence (seq_value: int)

definition MessageSequence_new :: "int \<Rightarrow> string + MessageSequence" where
  "MessageSequence_new value =
     (if 0 \<le> value then Inr (MessageSequence value) else Inl ''sequence must be nonnegative'')"

section \<open>Requests and responses\<close>

record ReadyResponse =
  rr_status :: string
  rr_schema_version :: nat

record SquadSummary =
  ss_id :: string
  ss_name :: string
  ss_mission :: string
  ss_state :: SquadStateDto
  ss_created_at :: ApiTimestamp
  ss_archived_at :: "ApiTimestamp option"

record CreateSquadRequest =
  csq_name :: string
  csq_mission :: string

record ArchiveSquadResponse =
  asr_squad :: SquadSummary

record ClientMetadata =
  cm_kind :: string
  cm_hostname :: "string option"
  cm_version :: "string option"

record JoinSquadRequest =
  jsq_name :: string
  jsq_role :: string
  jsq_mode :: AgentModeDto
  jsq_client :: ClientMetadata
  jsq_mission :: "string option"

record ResumeSquadRequest =
  rsq_mode :: AgentModeDto
  rsq_client :: ClientMetadata

record SessionResponse =
  sp_agent_id :: string
  sp_membership_id :: string
  sp_instance_id :: string
  sp_squad :: SquadSummary
  sp_member_name :: string
  sp_role :: string
  sp_heartbeat_interval_seconds :: int
  sp_lease_seconds :: int
  sp_lease_expires_at :: ApiTimestamp

record LeaveSquadResponse =
  lsr_membership_id :: string
  lsr_left_at :: ApiTimestamp

record RosterMemberDto =
  rmd_membership_id :: string
  rmd_name :: string
  rmd_role :: string
  rmd_membership_state :: MembershipStateDto
  rmd_presence :: TransportPresenceDto
  rmd_availability :: AvailabilityDto
  rmd_availability_source :: AvailabilitySourceDto
  rmd_availability_observed_at :: ApiTimestamp
  rmd_mode :: "AgentModeDto option"
  rmd_last_seen_at :: "ApiTimestamp option"

record RosterResponse =
  rp_squad :: string
  rp_members :: "RosterMemberDto list"

record HeartbeatRequest =
  hq_availability :: AvailabilityDto
  hq_availability_source :: AvailabilitySourceDto

record HeartbeatResponse =
  hp_lease_expires_at :: ApiTimestamp
  hp_heartbeat_interval_seconds :: int

record SendMessageRequest =
  smq_recipient :: string
  smq_recipient_membership_id :: "string option"
  smq_body :: string
  smq_priority :: MessagePriorityDto
  smq_dedupe_key :: string
  smq_reply_to :: "string option"
  smq_correlation_id :: "string option"

record MessageDto =
  md_sequence :: MessageSequence
  md_id :: string
  md_squad :: string
  md_sender :: string
  md_recipient :: string
  md_body :: string
  md_priority :: MessagePriorityDto
  md_reply_to :: "string option"
  md_correlation_id :: "string option"
  md_created_at :: ApiTimestamp
  md_acknowledged_at :: "ApiTimestamp option"

record SendMessageResponse =
  smr_message :: MessageDto
  smr_idempotent_replay :: bool

text \<open>\<open>limit\<close> is a \<open>u16\<close> and \<open>wait_seconds\<close> a \<open>u8\<close>.\<close>

record InboxQueryDto =
  iqd_limit :: nat
  iqd_wait_seconds :: nat

definition default_limit :: nat where
  "default_limit = 100"

record InboxResponse =
  ibr_messages :: "MessageDto list"
  ibr_pending_count :: nat
  ibr_highest_priority :: "MessagePriorityDto option"
  ibr_oldest_message_id :: "string option"

record AckMessagesRequest =
  akq_message_ids :: "string list"

record AckMessagesResponse =
  akr_acknowledged_ids :: "string list"

record TranscriptQueryDto =
  tqd_after :: MessageSequence
  tqd_limit :: nat

record TranscriptResponse =
  tsr_messages :: "MessageDto list"
  tsr_next_after :: "MessageSequence option"

section \<open>Errors\<close>

datatype ApiErrorCode =
    InvalidRequest | NotFound | SquadArchived | NotMember | NameInUse | LeaseExpired
  | RecipientNotFound | IdempotencyConflict | PayloadTooLarge | RateLimited | DatabaseBusy
  | InternalError

record ErrorBody =
  eb_code :: ApiErrorCode
  eb_message :: string
  eb_retryable :: bool
  eb_details :: "(string \<times> string) list"

fun http_status :: "ApiErrorCode \<Rightarrow> nat" where
  "http_status ApiErrorCode.InvalidRequest = 400"
| "http_status ApiErrorCode.NotFound = 404"
| "http_status ApiErrorCode.RecipientNotFound = 404"
| "http_status ApiErrorCode.NotMember = 403"
| "http_status ApiErrorCode.PayloadTooLarge = 413"
| "http_status ApiErrorCode.SquadArchived = 409"
| "http_status ApiErrorCode.NameInUse = 409"
| "http_status ApiErrorCode.LeaseExpired = 409"
| "http_status ApiErrorCode.IdempotencyConflict = 409"
| "http_status ApiErrorCode.RateLimited = 429"
| "http_status ApiErrorCode.DatabaseBusy = 503"
| "http_status ApiErrorCode.InternalError = 500"

section \<open>The printed form of a timestamp\<close>

lemma decimal_length: "n < 10 ^ w \<Longrightarrow> 0 < w \<Longrightarrow> length (decimal n) \<le> w"
proof (induction n arbitrary: w rule: decimal.induct)
  case (1 n)
  show ?case
  proof (cases "n < 10")
    case False
    with 1 obtain v where v: "w = Suc v" "0 < v" by (cases w; cases "w - 1") auto
    with 1(2) have "n div 10 < 10 ^ v" by (simp add: less_mult_imp_div_less mult.commute)
    from 1(1) [OF False this v(2)] False v(1) show ?thesis by (subst decimal.simps) simp
  qed (use 1 in \<open>subst decimal.simps, simp\<close>)
qed

lemma zero_padded_length [simp]: "n < 10 ^ w \<Longrightarrow> 0 < w \<Longrightarrow> length (zero_padded w n) = w"
  using decimal_length by (simp add: zero_padded_def)

lemma nth_at_end: "n = length xs \<Longrightarrow> (xs @ c # ys) ! n = c"
  by simp

text \<open>The calendar fields of an instant the wire format can carry.\<close>

definition civil_ok :: "civil_fields \<Rightarrow> bool" where
  "civil_ok v \<longleftrightarrow> cf_year v < 10000 \<and> cf_month v < 100 \<and> cf_day v < 100 \<and> cf_hour v < 100
     \<and> cf_minute v < 100 \<and> cf_second v < 100 \<and> cf_millisecond v < 1000"

lemma display_shape:
  assumes "civil_ok (civil (ts_value t))"
  shows "length (ApiTimestamp_display civil t) = 24" and "last (ApiTimestamp_display civil t) = CHR ''Z''"
    and "ApiTimestamp_display civil t ! 19 = CHR ''.''"
proof -
  let ?v = "civil (ts_value t)"
  have len: "length (zero_padded 4 (cf_year ?v)) = 4" "length (zero_padded 2 (cf_month ?v)) = 2"
      "length (zero_padded 2 (cf_day ?v)) = 2" "length (zero_padded 2 (cf_hour ?v)) = 2"
      "length (zero_padded 2 (cf_minute ?v)) = 2" "length (zero_padded 2 (cf_second ?v)) = 2"
      "length (zero_padded 3 (cf_millisecond ?v)) = 3"
    using assms by (simp_all add: civil_ok_def)
  show "length (ApiTimestamp_display civil t) = 24" "last (ApiTimestamp_display civil t) = CHR ''Z''"
    using len by (simp_all add: ApiTimestamp_display_def Let_def)
  define pre where "pre = zero_padded 4 (cf_year ?v) @ ''-'' @ zero_padded 2 (cf_month ?v) @ ''-''
    @ zero_padded 2 (cf_day ?v) @ ''T'' @ zero_padded 2 (cf_hour ?v) @ '':''
    @ zero_padded 2 (cf_minute ?v) @ '':'' @ zero_padded 2 (cf_second ?v)"
  have "ApiTimestamp_display civil t = pre @ CHR ''.'' # zero_padded 3 (cf_millisecond ?v) @ ''Z''"
    by (simp add: ApiTimestamp_display_def Let_def pre_def)
  moreover have "19 = length pre" using len by (simp add: pre_def)
  ultimately show "ApiTimestamp_display civil t ! 19 = CHR ''.''" by (simp only: nth_at_end)
qed

text \<open>
  What the relay prints the client reads back: for an instant whose calendar fields are in the
  range of the format, the printed timestamp passes the shape check of the reader and, given that
  the parser of the \<open>time\<close> crate inverts that text, is read as the same timestamp.
\<close>

theorem timestamp_wire_round_trip:
  assumes "ApiTimestamp_new value = Inr t" and "civil_ok (civil value)"
    and "parse_rfc3339 (ApiTimestamp_display civil t) = Some value"
  shows "ApiTimestamp_deserialize parse_rfc3339 (ApiTimestamp_display civil t) = Inr t"
proof -
  have t: "ts_value t = value" using assms(1) by (auto simp: ApiTimestamp_new_def split: if_splits)
  note shape = display_shape [of civil t, unfolded t, OF assms(2)]
  from shape(1) have "ApiTimestamp_display civil t \<noteq> []" by auto
  with shape assms(1,3) show ?thesis by (simp add: ApiTimestamp_deserialize_def)
qed

theorem timestamp_wire_round_trip_witness:
  "\<exists>civil parse_rfc3339. ApiTimestamp_deserialize parse_rfc3339
     (ApiTimestamp_display civil (ApiTimestamp 0)) = Inr (ApiTimestamp 0)"
proof (intro exI)
  let ?civil = "\<lambda>_. \<lparr>cf_year = 1970, cf_month = 1, cf_day = 1, cf_hour = 0, cf_minute = 0,
    cf_second = 0, cf_millisecond = 0\<rparr>"
  show "ApiTimestamp_deserialize (\<lambda>_. Some 0) (ApiTimestamp_display ?civil (ApiTimestamp 0)) =
      Inr (ApiTimestamp 0)"
    by (rule timestamp_wire_round_trip [of 0])
      (simp_all add: ApiTimestamp_new_def nanosecond_def civil_ok_def)
qed

end
