(* ===== verification/Protocol_Validation.thy ===== *)
theory Protocol_Validation
  imports Protocol_Dto
begin

text \<open>
  The bounds of the protocol (\<open>validation.rs\<close>): \<open>validate\<close> of every request before it reaches the
  store, and of every response before a client trusts it. Each \<open>impl Validate for T\<close> is a function
  that returns the first violation; the locale \<open>validator\<close> states which values it accepts.
\<close>

section \<open>Bounds\<close>

definition PROTOCOL_MAX_INBOX_MESSAGES :: nat where "PROTOCOL_MAX_INBOX_MESSAGES = 100"

definition MAX_INBOX_BYTES :: nat where "MAX_INBOX_BYTES = 1024 * 1024"

definition MAX_WAIT_SECONDS :: nat where "MAX_WAIT_SECONDS = 30"

definition PROTOCOL_MAX_ACK_MESSAGES :: nat where "PROTOCOL_MAX_ACK_MESSAGES = 100"

definition MAX_ERROR_MESSAGE_BYTES :: nat where "MAX_ERROR_MESSAGE_BYTES = 512"

definition MAX_ERROR_DETAILS :: nat where "MAX_ERROR_DETAILS = 16"

definition MAX_ERROR_DETAIL_KEY_BYTES :: nat where "MAX_ERROR_DETAIL_KEY_BYTES = 64"

definition MAX_ERROR_DETAIL_VALUE_BYTES :: nat where "MAX_ERROR_DETAIL_VALUE_BYTES = 256"

lemmas protocol_bounds = PROTOCOL_MAX_INBOX_MESSAGES_def MAX_INBOX_BYTES_def MAX_WAIT_SECONDS_def
  PROTOCOL_MAX_ACK_MESSAGES_def MAX_ERROR_MESSAGE_BYTES_def MAX_ERROR_DETAILS_def
  MAX_ERROR_DETAIL_KEY_BYTES_def MAX_ERROR_DETAIL_VALUE_BYTES_def

text \<open>\<open>T::new(&value)?;\<close> where only the check matters, and \<open>for x in xs { check(x)?; }\<close>.\<close>

definition checked :: "InvalidValue + 'a \<Rightarrow> InvalidValue + unit" where
  "checked m = rbind m (\<lambda>_. Inr ())"

definition checked_opt :: "('a \<Rightarrow> InvalidValue + 'b) \<Rightarrow> 'a option \<Rightarrow> InvalidValue + unit" where
  "checked_opt f v = (case v of None \<Rightarrow> Inr () | Some x \<Rightarrow> checked (f x))"

fun check_all :: "('a \<Rightarrow> InvalidValue + 'b) \<Rightarrow> 'a list \<Rightarrow> InvalidValue + unit" where
  "check_all f [] = Inr ()"
| "check_all f (x # xs) = rbind (f x) (\<lambda>_. check_all f xs)"

section \<open>Requests\<close>

definition validate_inbox_query :: "InboxQueryDto \<Rightarrow> InvalidValue + unit" where
  "validate_inbox_query self =
     rbind (ensure (\<not> (iqd_limit self = 0 \<or> iqd_limit self > PROTOCOL_MAX_INBOX_MESSAGES))
       (InvalidValue_new ''limit'' ''must be between 1 and 100'')) (\<lambda>_.
     ensure (\<not> iqd_wait_seconds self > MAX_WAIT_SECONDS)
       (InvalidValue_new ''wait'' ''must be between 0 and 30 seconds''))"

definition validate_transcript_query :: "TranscriptQueryDto \<Rightarrow> InvalidValue + unit" where
  "validate_transcript_query self =
     ensure (\<not> (tqd_limit self = 0 \<or> tqd_limit self > PROTOCOL_MAX_INBOX_MESSAGES))
       (InvalidValue_new ''limit'' ''must be between 1 and 100'')"

definition validate_create_squad :: "CreateSquadRequest \<Rightarrow> InvalidValue + unit" where
  "validate_create_squad self =
     rbind (SquadName_new (csq_name self)) (\<lambda>_.
     rbind (Mission_new (csq_mission self)) (\<lambda>_. Inr ()))"

definition validate_client_metadata :: "ClientMetadata \<Rightarrow> InvalidValue + unit" where
  "validate_client_metadata client =
     rbind (ensure (\<not> (cm_kind client = [] \<or> length (cm_kind client) > 64
         \<or> list_ex is_control (utf8_chars (cm_kind client))))
       (InvalidValue_new ''client.kind'' ''must be printable and at most 64 bytes'')) (\<lambda>_.
     rbind (ensure (\<not> (case cm_hostname client of None \<Rightarrow> False | Some v \<Rightarrow> v = [] \<or> length v > 255))
       (InvalidValue_new ''client.hostname'' ''must be between 1 and 255 bytes'')) (\<lambda>_.
     ensure (\<not> (case cm_version client of None \<Rightarrow> False | Some v \<Rightarrow> v = [] \<or> length v > 64))
       (InvalidValue_new ''client.version'' ''must be between 1 and 64 bytes'')))"

definition validate_join_squad :: "JoinSquadRequest \<Rightarrow> InvalidValue + unit" where
  "validate_join_squad self =
     rbind (MemberName_new (jsq_name self)) (\<lambda>_.
     rbind (Role_new (jsq_role self)) (\<lambda>_.
     rbind (checked_opt Mission_new (jsq_mission self)) (\<lambda>_.
     validate_client_metadata (jsq_client self))))"

definition validate_resume_squad :: "ResumeSquadRequest \<Rightarrow> InvalidValue + unit" where
  "validate_resume_squad self = validate_client_metadata (rsq_client self)"

definition validate_heartbeat :: "HeartbeatRequest \<Rightarrow> InvalidValue + unit" where
  "validate_heartbeat self =
     ensure ((hq_availability self = AvailabilityDto.Unknown) =
         (hq_availability_source self = AvailabilitySourceDto.Unknown))
       (InvalidValue_new ''availability'' ''availability and source must both be known or unknown'')"

definition validate_send_message :: "SendMessageRequest \<Rightarrow> InvalidValue + unit" where
  "validate_send_message self =
     rbind (MemberName_new (smq_recipient self)) (\<lambda>_.
     rbind (checked_opt MembershipId_new (smq_recipient_membership_id self)) (\<lambda>_.
     rbind (MessageBody_new (smq_body self)) (\<lambda>_.
     rbind (DedupeKey_new (smq_dedupe_key self)) (\<lambda>_.
     rbind (checked_opt MessageId_new (smq_reply_to self)) (\<lambda>_.
     checked_opt CorrelationId_new (smq_correlation_id self))))))"

definition validate_ack_ids :: "string \<Rightarrow> string list \<Rightarrow> InvalidValue + unit" where
  "validate_ack_ids field ids =
     rbind (ensure (\<not> (ids = [] \<or> length ids > PROTOCOL_MAX_ACK_MESSAGES))
       (InvalidValue_new field ''must contain between 1 and 100 IDs'')) (\<lambda>_.
     check_all MessageId_new ids)"

definition validate_ack_request :: "AckMessagesRequest \<Rightarrow> InvalidValue + unit" where
  "validate_ack_request self = validate_ack_ids ''message_ids'' (akq_message_ids self)"

section \<open>Responses\<close>

definition validate_message :: "MessageDto \<Rightarrow> InvalidValue + unit" where
  "validate_message self =
     rbind (MessageId_new (md_id self)) (\<lambda>_.
     rbind (SquadName_new (md_squad self)) (\<lambda>_.
     rbind (MemberName_new (md_sender self)) (\<lambda>_.
     rbind (MemberName_new (md_recipient self)) (\<lambda>_.
     rbind (MessageBody_new (md_body self)) (\<lambda>_.
     rbind (checked_opt MessageId_new (md_reply_to self)) (\<lambda>_.
     rbind (checked_opt CorrelationId_new (md_correlation_id self)) (\<lambda>_.
     ensure (\<not> (case md_acknowledged_at self of None \<Rightarrow> False | Some v \<Rightarrow> v < md_created_at self))
       (InvalidValue_new ''message'' ''has inconsistent timestamps''))))))))"

text \<open>The loop of \<open>validate_message_page\<close>, with the previous sequence number as its state.\<close>

fun validate_page_from :: "MessageSequence option \<Rightarrow> MessageDto list \<Rightarrow> InvalidValue + unit" where
  "validate_page_from previous [] = Inr ()"
| "validate_page_from previous (message # messages) =
     rbind (validate_message message) (\<lambda>_.
     rbind (ensure (\<not> (case previous of None \<Rightarrow> False
           | Some value \<Rightarrow> seq_value (md_sequence message) \<le> seq_value value))
       (InvalidValue_new ''messages'' ''sequences are not strictly increasing'')) (\<lambda>_.
     validate_page_from (Some (md_sequence message)) messages))"

definition validate_message_page :: "MessageDto list \<Rightarrow> InvalidValue + unit" where
  "validate_message_page = validate_page_from None"

definition validate_inbox_response :: "InboxResponse \<Rightarrow> InvalidValue + unit" where
  "validate_inbox_response self =
     rbind (ensure (\<not> length (ibr_messages self) > PROTOCOL_MAX_INBOX_MESSAGES)
       (InvalidValue_new ''messages'' ''exceeds the 100-message response bound'')) (\<lambda>_.
     rbind (validate_message_page (ibr_messages self)) (\<lambda>_.
     rbind (ensure (\<not> ibr_pending_count self < length (ibr_messages self))
       (InvalidValue_new ''pending_count'' ''must include every returned message'')) (\<lambda>_.
     if ibr_pending_count self = 0 \<and> ibr_messages self = [] \<and> ibr_highest_priority self = None
       \<and> ibr_oldest_message_id self = None
     then Inr ()
     else if 1 \<le> ibr_pending_count self \<and> ibr_messages self \<noteq> [] \<and> ibr_highest_priority self \<noteq> None
       \<and> ibr_oldest_message_id self = Some (md_id (hd (ibr_messages self)))
     then checked_opt MessageId_new (ibr_oldest_message_id self)
     else Inl (InvalidValue_new ''inbox'' ''has inconsistent pending activation metadata''))))"

definition validate_squad_summary :: "SquadSummary \<Rightarrow> InvalidValue + unit" where
  "validate_squad_summary self =
     rbind (SquadId_new (ss_id self)) (\<lambda>_.
     rbind (SquadName_new (ss_name self)) (\<lambda>_.
     rbind (Mission_new (ss_mission self)) (\<lambda>_.
     ensure (case ss_state self of
         SquadStateDto.Active \<Rightarrow> ss_archived_at self = None
       | SquadStateDto.Archived \<Rightarrow>
           (case ss_archived_at self of None \<Rightarrow> False | Some v \<Rightarrow> ss_created_at self \<le> v))
       (InvalidValue_new ''squad'' ''has inconsistent archive state''))))"

definition validate_squad_list :: "SquadSummary list \<Rightarrow> InvalidValue + unit" where
  "validate_squad_list = check_all validate_squad_summary"

definition validate_archive_response :: "ArchiveSquadResponse \<Rightarrow> InvalidValue + unit" where
  "validate_archive_response self = validate_squad_summary (asr_squad self)"

definition validate_leave_response :: "LeaveSquadResponse \<Rightarrow> InvalidValue + unit" where
  "validate_leave_response self = checked (MembershipId_new (lsr_membership_id self))"

definition validate_roster_member :: "RosterMemberDto \<Rightarrow> InvalidValue + unit" where
  "validate_roster_member member =
     rbind (MembershipId_new (rmd_membership_id member)) (\<lambda>_.
     rbind (MemberName_new (rmd_name member)) (\<lambda>_.
     rbind (Role_new (rmd_role member)) (\<lambda>_.
     ensure (\<not> ((rmd_availability member = AvailabilityDto.Unknown) \<noteq>
            (rmd_availability_source member = AvailabilitySourceDto.Unknown)
          \<or> (rmd_membership_state member = MembershipStateDto.Left
             \<and> rmd_presence member \<noteq> TransportPresenceDto.Offline)))
       (InvalidValue_new ''roster'' ''has inconsistent member state''))))"

definition validate_roster_response :: "RosterResponse \<Rightarrow> InvalidValue + unit" where
  "validate_roster_response self =
     rbind (SquadName_new (rp_squad self)) (\<lambda>_.
     check_all validate_roster_member (rp_members self))"

definition validate_send_response :: "SendMessageResponse \<Rightarrow> InvalidValue + unit" where
  "validate_send_response self = validate_message (smr_message self)"

definition validate_ack_response :: "AckMessagesResponse \<Rightarrow> InvalidValue + unit" where
  "validate_ack_response self = validate_ack_ids ''acknowledged_ids'' (akr_acknowledged_ids self)"

definition validate_transcript_response :: "TranscriptResponse \<Rightarrow> InvalidValue + unit" where
  "validate_transcript_response self =
     rbind (ensure (\<not> length (tsr_messages self) > PROTOCOL_MAX_INBOX_MESSAGES)
       (InvalidValue_new ''messages'' ''exceeds the 100-message response bound'')) (\<lambda>_.
     rbind (validate_message_page (tsr_messages self)) (\<lambda>_.
     ensure (tsr_next_after self =
         (if tsr_messages self = [] then None else Some (md_sequence (last (tsr_messages self)))))
       (InvalidValue_new ''next_after'' ''does not match the final message'')))"

text \<open>\<open>to_json\<close> stands for \<open>serde_json::to_vec\<close>.\<close>

definition encode_bounded_inbox ::
  "(InboxResponse \<Rightarrow> string option) \<Rightarrow> InboxResponse \<Rightarrow> InvalidValue + string" where
  "encode_bounded_inbox to_json response =
     rbind (ok_or (InvalidValue_new ''inbox'' ''could not serialize response'') (to_json response)) (\<lambda>encoded.
     rbind (ensure (\<not> length encoded > MAX_INBOX_BYTES)
       (InvalidValue_new ''inbox'' ''serialized response exceeds 1 MiB'')) (\<lambda>_.
     Inr encoded))"

definition validate_error_body :: "ErrorBody \<Rightarrow> InvalidValue + unit" where
  "validate_error_body self =
     rbind (ensure (\<not> (eb_message self = [] \<or> length (eb_message self) > MAX_ERROR_MESSAGE_BYTES))
       (InvalidValue_new ''error.message'' ''must be between 1 and 512 bytes'')) (\<lambda>_.
     rbind (ensure (\<not> length (eb_details self) > MAX_ERROR_DETAILS)
       (InvalidValue_new ''error.details'' ''must contain at most 16 entries'')) (\<lambda>_.
     ensure (\<not> list_ex (\<lambda>(key, value). key = [] \<or> length key > MAX_ERROR_DETAIL_KEY_BYTES
         \<or> length value > MAX_ERROR_DETAIL_VALUE_BYTES) (eb_details self))
       (InvalidValue_new ''error.details'' ''contains an invalid key or value bound'')))"

section \<open>What validation accepts\<close>

lemma checked_ok [simp]: "is_ok (checked m) \<longleftrightarrow> is_ok m"
  by (cases m) (auto simp: checked_def)

lemma checked_opt_ok [simp]:
  "is_ok (checked_opt f v) \<longleftrightarrow> (case v of None \<Rightarrow> True | Some x \<Rightarrow> is_ok (f x))"
  by (simp add: checked_opt_def split: option.splits)

lemma is_ok_unit: "is_ok m \<longleftrightarrow> m = Inr ()"
  by (cases m) auto

lemma rbind_ok: "is_ok (rbind m f) \<longleftrightarrow> (\<exists>x. m = Inr x \<and> is_ok (f x))"
  by (cases m) auto

lemma rbind_ignore_ok [simp]: "is_ok (rbind m (\<lambda>_. k)) \<longleftrightarrow> is_ok m \<and> is_ok k"
  by (cases m) auto

lemma ensure_ok [simp]: "is_ok (ensure b e) \<longleftrightarrow> b"
  by (cases b) auto

locale validator =
  fixes validate :: "'a \<Rightarrow> InvalidValue + unit"
    and valid :: "'a \<Rightarrow> bool"
  assumes exact: "is_ok (validate x) \<longleftrightarrow> valid x"
begin

lemma accepts: "validate x = Inr () \<longleftrightarrow> valid x"
  using exact [of x] by (cases "validate x") auto

lemma rejects: "\<not> valid x \<Longrightarrow> \<exists>e. validate x = Inl e"
  using exact [of x] by (cases "validate x") auto

lemma all_accepted: "is_ok (check_all validate xs) \<longleftrightarrow> (\<forall>x \<in> set xs. valid x)"
  by (induction xs) (auto simp: exact)

text \<open>The error a list is refused with is that of its first invalid element.\<close>

lemma first_error:
  assumes "check_all validate xs = Inl e"
  shows "\<exists>ys x zs. xs = ys @ x # zs \<and> list_all valid ys \<and> validate x = Inl e"
  using assms
proof (induction xs)
  case (Cons a xs)
  show ?case
  proof (cases "validate a")
    case (Inl e')
    with Cons.prems have "a # xs = [] @ a # xs \<and> list_all valid [] \<and> validate a = Inl e" by simp
    then show ?thesis by blast
  next
    case (Inr u)
    with Cons obtain ys x zs where "xs = ys @ x # zs" "list_all valid ys" "validate x = Inl e" by auto
    moreover have "valid a" using Inr exact [of a] by simp
    ultimately have "a # xs = (a # ys) @ x # zs \<and> list_all valid (a # ys) \<and> validate x = Inl e" by simp
    then show ?thesis by blast
  qed
qed simp

end

lemma check_all_ok: "is_ok (check_all f xs) \<longleftrightarrow> (\<forall>x \<in> set xs. is_ok (f x))"
  by (induction xs) auto

definition opt_ok :: "('a \<Rightarrow> bool) \<Rightarrow> 'a option \<Rightarrow> bool" where
  "opt_ok p v = (case v of None \<Rightarrow> True | Some x \<Rightarrow> p x)"

definition valid_message :: "MessageDto \<Rightarrow> bool" where
  "valid_message m \<longleftrightarrow>
     is_ok (MessageId_new (md_id m)) \<and> is_ok (SquadName_new (md_squad m))
     \<and> is_ok (MemberName_new (md_sender m)) \<and> is_ok (MemberName_new (md_recipient m))
     \<and> is_ok (MessageBody_new (md_body m)) \<and> opt_ok (\<lambda>v. is_ok (MessageId_new v)) (md_reply_to m)
     \<and> opt_ok (\<lambda>v. is_ok (CorrelationId_new v)) (md_correlation_id m)
     \<and> opt_ok (\<lambda>v. md_created_at m \<le> v) (md_acknowledged_at m)"

definition valid_squad_summary :: "SquadSummary \<Rightarrow> bool" where
  "valid_squad_summary q \<longleftrightarrow>
     is_ok (SquadId_new (ss_id q)) \<and> is_ok (SquadName_new (ss_name q)) \<and> is_ok (Mission_new (ss_mission q))
     \<and> (ss_state q = SquadStateDto.Archived \<longleftrightarrow> ss_archived_at q \<noteq> None)
     \<and> opt_ok (\<lambda>v. ss_created_at q \<le> v) (ss_archived_at q)"

definition valid_roster_member :: "RosterMemberDto \<Rightarrow> bool" where
  "valid_roster_member m \<longleftrightarrow>
     is_ok (MembershipId_new (rmd_membership_id m)) \<and> is_ok (MemberName_new (rmd_name m))
     \<and> is_ok (Role_new (rmd_role m))
     \<and> (rmd_availability m = AvailabilityDto.Unknown \<longleftrightarrow>
          rmd_availability_source m = AvailabilitySourceDto.Unknown)
     \<and> (rmd_membership_state m = MembershipStateDto.Left \<longrightarrow> rmd_presence m = TransportPresenceDto.Offline)"

interpretation message: validator validate_message valid_message
  by unfold_locales
    (auto simp: validate_message_def valid_message_def opt_ok_def split: option.splits)

interpretation squad_summary: validator validate_squad_summary valid_squad_summary
  by unfold_locales
    (auto simp: validate_squad_summary_def valid_squad_summary_def opt_ok_def
      split: option.splits SquadStateDto.splits)

interpretation roster_member: validator validate_roster_member valid_roster_member
  by unfold_locales (auto simp: validate_roster_member_def valid_roster_member_def)

text \<open>A page, as the loop checks it with one look back, is a sequence that increases throughout.\<close>

definition increasing_from :: "MessageSequence option \<Rightarrow> MessageDto list \<Rightarrow> bool" where
  "increasing_from previous ms \<longleftrightarrow>
     sorted_wrt (\<lambda>a b. seq_value a < seq_value b)
       ((case previous of None \<Rightarrow> [] | Some p \<Rightarrow> [p]) @ map md_sequence ms)"

lemma increasing_from_Cons:
  "increasing_from previous (m # ms) \<longleftrightarrow>
     (case previous of None \<Rightarrow> True | Some p \<Rightarrow> seq_value p < seq_value (md_sequence m))
     \<and> increasing_from (Some (md_sequence m)) ms"
  by (auto simp: increasing_from_def split: option.splits)

lemma validate_page_from_ok:
  "is_ok (validate_page_from previous ms) \<longleftrightarrow>
     (\<forall>m \<in> set ms. valid_message m) \<and> increasing_from previous ms"
proof (induction ms arbitrary: previous)
  case Nil
  show ?case by (simp add: increasing_from_def split: option.splits)
next
  case (Cons m ms)
  then show ?case
    by (auto simp: message.exact increasing_from_Cons not_le split: option.splits)
qed

definition valid_page :: "MessageDto list \<Rightarrow> bool" where
  "valid_page ms \<longleftrightarrow> (\<forall>m \<in> set ms. valid_message m)
     \<and> sorted_wrt (\<lambda>a b. seq_value (md_sequence a) < seq_value (md_sequence b)) ms"

interpretation message_page: validator validate_message_page valid_page
  by unfold_locales
    (simp add: validate_message_page_def validate_page_from_ok valid_page_def increasing_from_def
      sorted_wrt_map)

definition valid_transcript :: "TranscriptResponse \<Rightarrow> bool" where
  "valid_transcript r \<longleftrightarrow> length (tsr_messages r) \<le> 100 \<and> valid_page (tsr_messages r)
     \<and> tsr_next_after r =
         (if tsr_messages r = [] then None else Some (md_sequence (last (tsr_messages r))))"

definition valid_inbox :: "InboxResponse \<Rightarrow> bool" where
  "valid_inbox r \<longleftrightarrow> length (ibr_messages r) \<le> 100 \<and> valid_page (ibr_messages r)
     \<and> length (ibr_messages r) \<le> ibr_pending_count r
     \<and> (ibr_messages r = [] \<longleftrightarrow> ibr_pending_count r = 0)
     \<and> (ibr_highest_priority r = None \<longleftrightarrow> ibr_pending_count r = 0)
     \<and> ibr_oldest_message_id r =
         (if ibr_messages r = [] then None else Some (md_id (hd (ibr_messages r))))"

interpretation transcript_response_validator: validator validate_transcript_response valid_transcript
  by unfold_locales
    (simp add: validate_transcript_response_def valid_transcript_def protocol_bounds message_page.exact not_less)

lemma validate_inbox_response_ok: "is_ok (validate_inbox_response r) \<longleftrightarrow> valid_inbox r"
proof -
  have "is_ok (MessageId_new (md_id (hd (ibr_messages r))))"
    if "valid_page (ibr_messages r)" "ibr_messages r \<noteq> []"
    using that by (simp add: valid_page_def valid_message_def)
  then show ?thesis
    by (auto simp: validate_inbox_response_def valid_inbox_def protocol_bounds message_page.exact
        not_less rbind_ok)
qed

interpretation inbox_response_validator: validator validate_inbox_response valid_inbox
  by unfold_locales (rule validate_inbox_response_ok)

text \<open>
  Page validation is exact: a transcript response is accepted exactly when it holds at most 100
  messages, each of them valid by itself, in strictly increasing sequence throughout, and its cursor
  is the sequence of its last message; an inbox response is accepted exactly when its messages are
  such a page, its count covers them, and count, priority and oldest id are present exactly when the
  page is not empty and name its first message.
\<close>

theorem page_validation_is_exact:
  "(validate_transcript_response t = Inr () \<longleftrightarrow> valid_transcript t)
   \<and> (validate_inbox_response r = Inr () \<longleftrightarrow> valid_inbox r)"
  by (simp add: transcript_response_validator.accepts inbox_response_validator.accepts)

end
