(* ===== verification/Protocol_Auth.thy ===== *)
theory Protocol_Auth
  imports Core_Value
begin

text \<open>
  Session credentials on the wire (\<open>auth.rs\<close>): how a credential is printed into the
  \<open>Authorization\<close> and \<open>psst-session-credential\<close> headers and parsed back, and what access logs may
  show. \<open>header_from_str\<close> stands for \<open>http::HeaderValue::from_str\<close>, \<open>dec\<close> and \<open>enc\<close> for the base64 codec.
\<close>

section \<open>Headers\<close>

definition AUTHORIZATION_HEADER :: string where "AUTHORIZATION_HEADER = ''authorization''"

definition SESSION_CREDENTIAL_HEADER :: string where "SESSION_CREDENTIAL_HEADER = ''psst-session-credential''"

definition BEARER_PREFIX :: string where "BEARER_PREFIX = ''Bearer ''"

definition MAX_CREDENTIAL_LENGTH :: nat where "MAX_CREDENTIAL_LENGTH = 172"

definition SENSITIVE_HEADERS :: "string list" where
  "SENSITIVE_HEADERS = [AUTHORIZATION_HEADER, SESSION_CREDENTIAL_HEADER]"

definition to_ascii_lowercase :: "char \<Rightarrow> char" where
  "to_ascii_lowercase c = (if is_ascii_uppercase c then char_of (byte_of c + 32) else c)"

definition eq_ignore_ascii_case :: "string \<Rightarrow> string \<Rightarrow> bool" where
  "eq_ignore_ascii_case a b \<longleftrightarrow> map to_ascii_lowercase a = map to_ascii_lowercase b"

definition header_value_for_log :: "string \<Rightarrow> string \<Rightarrow> string" where
  "header_value_for_log name value =
     (if list_ex (\<lambda>sensitive. eq_ignore_ascii_case name sensitive) SENSITIVE_HEADERS
      then ''[REDACTED]'' else value)"

record HeaderValue =
  hv_text :: string
  hv_sensitive :: bool

section \<open>Credentials\<close>

record SessionCredential =
  sc_instance_id :: InstanceId
  sc_resume_token :: ResumeToken

definition invalid_credential :: InvalidValue where
  "invalid_credential = InvalidValue_new ''authorization'' ''is not a valid session credential''"

definition encoded :: "SessionCredential \<Rightarrow> string" where
  "encoded self = sc_instance_id self @ ''.'' @ sc_resume_token self"

definition IssuedSessionHeaders_new ::
  "(string \<Rightarrow> string option) \<Rightarrow> SessionCredential \<Rightarrow> InvalidValue + HeaderValue" where
  "IssuedSessionHeaders_new header_from_str credential =
     rbind (ok_or invalid_credential (header_from_str (encoded credential))) (\<lambda>value.
     Inr \<lparr>hv_text = value, hv_sensitive = True\<rparr>)"

definition authorization_header ::
  "(string \<Rightarrow> string option) \<Rightarrow> SessionCredential \<Rightarrow> InvalidValue + HeaderValue" where
  "authorization_header header_from_str self =
     rbind (ok_or invalid_credential (header_from_str (BEARER_PREFIX @ encoded self))) (\<lambda>value.
     Inr \<lparr>hv_text = value, hv_sensitive = True\<rparr>)"

text \<open>\<open>split_once('.')\<close>\<close>

definition split_once :: "char \<Rightarrow> string \<Rightarrow> (string \<times> string) option" where
  "split_once c v =
     (if c \<in> set v then Some (takeWhile (\<lambda>x. x \<noteq> c) v, tl (dropWhile (\<lambda>x. x \<noteq> c) v)) else None)"

definition parse_session_value ::
  "(string \<Rightarrow> string option) \<Rightarrow> (string \<Rightarrow> string) \<Rightarrow> string \<Rightarrow> InvalidValue + SessionCredential" where
  "parse_session_value dec enc value =
     (if value = [] \<or> length value > MAX_CREDENTIAL_LENGTH
         \<or> length (filter (\<lambda>c. c = CHR ''.'') value) \<noteq> 1
      then Inl invalid_credential
      else rbind (ok_or invalid_credential (split_once (CHR ''.'') value)) (\<lambda>(inst, token).
        rbind (map_err (\<lambda>_. invalid_credential) (InstanceId_new inst)) (\<lambda>instance_id.
        rbind (map_err (\<lambda>_. invalid_credential) (ResumeToken_from_encoded dec enc token)) (\<lambda>resume_token.
        Inr \<lparr>sc_instance_id = instance_id, sc_resume_token = resume_token\<rparr>))))"

definition parse_authorization ::
  "(string \<Rightarrow> string option) \<Rightarrow> (string \<Rightarrow> string) \<Rightarrow> string \<Rightarrow> InvalidValue + SessionCredential" where
  "parse_authorization dec enc value =
     (if length value > length BEARER_PREFIX + MAX_CREDENTIAL_LENGTH then Inl invalid_credential
      else rbind (ok_or invalid_credential (strip_prefix BEARER_PREFIX value)) (\<lambda>v.
        parse_session_value dec enc v))"

section \<open>Round trips\<close>

text \<open>What the types \<open>InstanceId\<close> and \<open>ResumeToken\<close> guarantee of a credential in memory.\<close>

definition SessionCredential_wf ::
  "(string \<Rightarrow> string option) \<Rightarrow> (string \<Rightarrow> string) \<Rightarrow> SessionCredential \<Rightarrow> bool" where
  "SessionCredential_wf dec enc c \<longleftrightarrow>
     is_ok (InstanceId_new (sc_instance_id c))
     \<and> ResumeToken_from_encoded dec enc (sc_resume_token c) = Inr (sc_resume_token c)"

lemma split_once_append:
  "c \<notin> set a \<Longrightarrow> split_once c (a @ c # b) = Some (a, b)"
  by (simp add: split_once_def takeWhile_append dropWhile_append)

lemma split_once_Some:
  assumes "split_once c v = Some (a, b)"
  shows "v = a @ c # b" and "c \<notin> set a"
proof -
  have mem: "c \<in> set v" and ab: "a = takeWhile (\<lambda>x. x \<noteq> c) v" "b = tl (dropWhile (\<lambda>x. x \<noteq> c) v)"
    using assms by (auto simp: split_once_def split: if_splits)
  have ne: "dropWhile (\<lambda>x. x \<noteq> c) v \<noteq> []" using mem by (auto simp: dropWhile_eq_Nil_conv)
  have "hd (dropWhile (\<lambda>x. x \<noteq> c) v) = c" using hd_dropWhile [OF ne] by blast
  with ne have "dropWhile (\<lambda>x. x \<noteq> c) v = c # b" unfolding ab(2) by (metis list.collapse)
  then show "v = a @ c # b" unfolding ab(1) by (metis takeWhile_dropWhile_id)
  show "c \<notin> set a" unfolding ab(1) by (auto dest: set_takeWhileD)
qed

lemma id_char_not_dot: "list_all id_char s \<Longrightarrow> CHR ''.'' \<notin> set s"
  by (auto simp: list_all_iff id_char_def is_ascii_lowercase_def is_ascii_digit_def)

lemma instance_id_not_dot:
  assumes "is_ok (InstanceId_new v)"
  shows "CHR ''.'' \<notin> set v"
proof -
  from assms obtain s where "v = ''ins'' @ ''_'' @ s" "list_all id_char s"
    by (auto simp: is_ok_iff InstanceId_new_def opaque_id_new_Inr)
  then show ?thesis using id_char_not_dot [of s] by simp
qed

lemma token_not_dot:
  assumes "base64_alphabet dec" and "ResumeToken_from_encoded dec enc t = Inr t"
  shows "CHR ''.'' \<notin> set t"
proof -
  have "list_all url_safe_char t"
    using assms by (auto simp: ResumeToken_from_encoded_Inr base64_alphabet_def)
  moreover have "\<not> url_safe_char (CHR ''.'')"
    by (simp add: url_safe_char_def is_ascii_alphanumeric_def is_ascii_lowercase_def
        is_ascii_uppercase_def is_ascii_digit_def)
  ultimately show ?thesis by (auto simp: list_all_iff)
qed

lemma parse_encoded:
  assumes "base64_alphabet dec" and "SessionCredential_wf dec enc c"
  shows "parse_session_value dec enc (encoded c) = Inr c"
proof -
  let ?i = "sc_instance_id c" and ?t = "sc_resume_token c"
  have i: "is_ok (InstanceId_new ?i)" and t: "ResumeToken_from_encoded dec enc ?t = Inr ?t"
    using assms(2) by (simp_all add: SessionCredential_wf_def)
  note dots = instance_id_not_dot [OF i] token_not_dot [OF assms(1) t]
  have "length ?i \<le> 128" by (rule instance_id.accepted_bounds [OF i])
  moreover have "length ?t = 43" using t by (simp add: ResumeToken_from_encoded_Inr TOKEN_ENCODED_LENGTH_def)
  moreover have "filter (\<lambda>x. x = CHR ''.'') ?i = []" "filter (\<lambda>x. x = CHR ''.'') ?t = []"
    using dots by (auto simp: filter_empty_conv)
  ultimately show ?thesis
    using dots i t
    by (simp add: parse_session_value_def encoded_def MAX_CREDENTIAL_LENGTH_def split_once_append
        instance_id.accepted)
qed

text \<open>Whatever parses is the canonical text of what it parsed to.\<close>

lemma parse_session_value_canonical:
  assumes "parse_session_value dec enc v = Inr c"
  shows "encoded c = v" and "SessionCredential_wf dec enc c"
proof -
  from assms obtain i t where sp: "split_once (CHR ''.'') v = Some (i, t)"
    and c: "InstanceId_new i = Inr (sc_instance_id c)"
      "ResumeToken_from_encoded dec enc t = Inr (sc_resume_token c)"
    by (auto simp: parse_session_value_def result_simps split: if_splits)
  have "sc_instance_id c = i" "sc_resume_token c = t"
    using c by (auto dest: instance_id.new_keeps_text simp: ResumeToken_from_encoded_Inr)
  with c split_once_Some [OF sp] show "encoded c = v" "SessionCredential_wf dec enc c"
    by (simp_all add: encoded_def SessionCredential_wf_def)
qed

lemma parse_session_value_parts:
  assumes "parse_session_value dec enc (i @ ''.'' @ t) = Inr a"
  shows "sc_instance_id a = i" and "sc_resume_token a = t" and "encoded a = i @ ''.'' @ t"
    and "length (i @ ''.'' @ t) \<le> MAX_CREDENTIAL_LENGTH"
proof -
  show enc: "encoded a = i @ ''.'' @ t" using parse_session_value_canonical [OF assms] by simp
  have "CHR ''.'' \<notin> set (sc_instance_id a)"
    using parse_session_value_canonical [OF assms] by (simp add: SessionCredential_wf_def instance_id_not_dot)
  have "\<not> (i @ ''.'' @ t = [] \<or> length (i @ ''.'' @ t) > MAX_CREDENTIAL_LENGTH
      \<or> length (filter (\<lambda>c. c = CHR ''.'') (i @ ''.'' @ t)) \<noteq> 1)"
    using assms by (auto simp: parse_session_value_def split: if_splits)
  then have len: "length (i @ ''.'' @ t) \<le> MAX_CREDENTIAL_LENGTH" and "CHR ''.'' \<notin> set i"
    by (auto simp: filter_empty_conv)
  show "length (i @ ''.'' @ t) \<le> MAX_CREDENTIAL_LENGTH" by (rule len)
  from \<open>CHR ''.'' \<notin> set (sc_instance_id a)\<close> \<open>CHR ''.'' \<notin> set i\<close> show "sc_instance_id a = i" "sc_resume_token a = t"
    using enc split_once_append [of "CHR ''.''" i t]
      split_once_append [of "CHR ''.''" "sc_instance_id a" "sc_resume_token a"]
    by (simp_all add: encoded_def)
qed

text \<open>
  Credentials survive the wire, and only their canonical text is accepted. The header a client
  sends for a credential, and the value the relay issues, parse back to exactly that credential, if
  the HTTP library takes the text as it is; conversely any header that parses is, byte for byte, the
  prefix followed by the printed form of the credential it was parsed to, so two different headers
  never name the same credential.
\<close>

theorem credential_round_trip:
  assumes "base64_alphabet dec"
  shows "(SessionCredential_wf dec enc c \<longrightarrow> header_from_str (BEARER_PREFIX @ encoded c) = Some (BEARER_PREFIX @ encoded c) \<longrightarrow>
        (\<exists>h. authorization_header header_from_str c = Inr h \<and> hv_sensitive h
           \<and> parse_authorization dec enc (hv_text h) = Inr c))
    \<and> (SessionCredential_wf dec enc c \<longrightarrow> header_from_str (encoded c) = Some (encoded c) \<longrightarrow>
        (\<exists>h. IssuedSessionHeaders_new header_from_str c = Inr h \<and> hv_sensitive h
           \<and> parse_session_value dec enc (hv_text h) = Inr c))
    \<and> (parse_authorization dec enc text = Inr c \<longrightarrow>
        text = BEARER_PREFIX @ encoded c \<and> SessionCredential_wf dec enc c)"
proof (intro conjI impI)
  assume wf: "SessionCredential_wf dec enc c"
  have len: "length (encoded c) \<le> MAX_CREDENTIAL_LENGTH"
  proof (rule ccontr)
    assume "\<not> length (encoded c) \<le> MAX_CREDENTIAL_LENGTH"
    then have "parse_session_value dec enc (encoded c) = Inl invalid_credential"
      by (simp add: parse_session_value_def)
    with parse_encoded [OF assms wf] show False by simp
  qed
  show "\<exists>h. authorization_header header_from_str c = Inr h \<and> hv_sensitive h
      \<and> parse_authorization dec enc (hv_text h) = Inr c"
    if "header_from_str (BEARER_PREFIX @ encoded c) = Some (BEARER_PREFIX @ encoded c)"
    using that len parse_encoded [OF assms wf]
    by (simp add: authorization_header_def parse_authorization_def)
  show "\<exists>h. IssuedSessionHeaders_new header_from_str c = Inr h \<and> hv_sensitive h
      \<and> parse_session_value dec enc (hv_text h) = Inr c"
    if "header_from_str (encoded c) = Some (encoded c)"
    using that parse_encoded [OF assms wf] by (simp add: IssuedSessionHeaders_new_def)
next
  assume "parse_authorization dec enc text = Inr c"
  then obtain v where "text = BEARER_PREFIX @ v" and v: "parse_session_value dec enc v = Inr c"
    by (auto simp: parse_authorization_def result_simps strip_prefix_Some split: if_splits)
  with parse_session_value_canonical [OF v]
  show "text = BEARER_PREFIX @ encoded c" "SessionCredential_wf dec enc c" by simp_all
qed

definition sample_token :: ResumeToken where
  "sample_token = replicate 43 (CHR ''A'')"

definition sample_dec :: "string \<Rightarrow> string option" where
  "sample_dec v = (if v = sample_token then Some (replicate 32 (char_of (0::nat))) else None)"

definition sample_enc :: "string \<Rightarrow> string" where
  "sample_enc _ = sample_token"

lemma sample_codec: "base64_alphabet sample_dec"
    "ResumeToken_from_encoded sample_dec sample_enc sample_token = Inr sample_token"
  by (auto simp: base64_alphabet_def sample_dec_def sample_enc_def sample_token_def list_all_iff
      url_safe_char_def is_ascii_alphanumeric_def is_ascii_uppercase_def ResumeToken_from_encoded_Inr
      TOKEN_ENCODED_LENGTH_def TOKEN_BYTES_def)

theorem credential_round_trip_witness:
  "\<exists>h. authorization_header Some \<lparr>sc_instance_id = ''ins_1'', sc_resume_token = sample_token\<rparr> = Inr h
     \<and> parse_authorization sample_dec sample_enc (hv_text h) =
         Inr \<lparr>sc_instance_id = ''ins_1'', sc_resume_token = sample_token\<rparr>"
proof -
  have "SessionCredential_wf sample_dec sample_enc \<lparr>sc_instance_id = ''ins_1'', sc_resume_token = sample_token\<rparr>"
    by (simp add: SessionCredential_wf_def sample_codec(2)) (simp add: eval_simps)
  with credential_round_trip [OF sample_codec(1), of sample_enc _ Some] show ?thesis by blast
qed

text \<open>Access logs are blind to the value of a sensitive header, however its name is capitalised.\<close>

lemma header_value_for_log_blind:
  "eq_ignore_ascii_case name AUTHORIZATION_HEADER \<or> eq_ignore_ascii_case name SESSION_CREDENTIAL_HEADER \<Longrightarrow>
   header_value_for_log name value = header_value_for_log name value'"
  by (auto simp: header_value_for_log_def SENSITIVE_HEADERS_def)

end
