(* ===== verification/Client_Http.thy ===== *)
theory Client_Http
  imports Protocol_Validation Protocol_Auth
begin

text \<open>
  The HTTP client (\<open>psst-client/src/lib.rs\<close>): configuration, bounded decoding of responses, the retry
  loop with its backoff, the handling of issued credentials, and the operations. reqwest, tokio and
  serde are outside the program: \<open>transport\<close> says how each attempt goes, and the parsers of response
  bodies are arguments. The state \<open>'w\<close> a transport passes along is whatever the attempts act on.
\<close>

section \<open>Configuration and errors\<close>

definition MAX_RESPONSE_BYTES :: nat where "MAX_RESPONSE_BYTES = 1024 * 1024"

record RetryPolicy =
  rp_max_attempts :: nat
  rp_initial_backoff :: Duration
  rp_max_backoff :: Duration

record ClientConfig =
  cf_connect_timeout :: Duration
  cf_request_timeout :: Duration
  cf_long_poll_margin :: Duration
  cf_retry :: RetryPolicy
  cf_max_in_flight :: nat

definition RetryPolicy_default :: RetryPolicy where
  "RetryPolicy_default = \<lparr>rp_max_attempts = 3, rp_initial_backoff = 50 * 1000000, rp_max_backoff = 500 * 1000000\<rparr>"

definition ClientConfig_default :: ClientConfig where
  "ClientConfig_default = \<lparr>cf_connect_timeout = from_secs 3, cf_request_timeout = from_secs 10,
     cf_long_poll_margin = from_secs 5, cf_retry = RetryPolicy_default, cf_max_in_flight = 32\<rparr>"

text \<open>What the client observes of a \<open>reqwest::Error\<close>.\<close>

record reqwest_error =
  re_is_timeout :: bool
  re_is_connect :: bool
  re_is_request :: bool
  re_is_body :: bool
  re_is_decode :: bool

datatype Error =
    InvalidBaseUrl
  | InvalidConfiguration
  | InvalidRequest
  | MalformedCredential
  | Transport reqwest_error
  | Timeout
  | OutcomeUnknown
  | Api nat ApiErrorCode bool
  | MalformedResponse nat
  | ResponseTooLarge
  | UnexpectedHttp nat
  | ClientBusy
  | RetryExhausted nat Error

datatype RetryClass = Never | Safe | Deduplicated

text \<open>The parts of a parsed URL that \<open>Client::new\<close> looks at; parsing itself is the \<open>url\<close> crate's.\<close>

record Url =
  ur_scheme :: string
  ur_host :: "string option"
  ur_username :: string
  ur_password :: "string option"
  ur_query :: "string option"
  ur_fragment :: "string option"
  ur_path :: string

definition Client_new :: "(string \<Rightarrow> Url option) \<Rightarrow> reqwest_error + unit \<Rightarrow> string \<Rightarrow> ClientConfig \<Rightarrow> Error + Url" where
  "Client_new parse_url build base config =
     rbind (ensure (\<not> (cf_connect_timeout config = 0
         \<or> cf_request_timeout config = 0
         \<or> rp_max_attempts (cf_retry config) = 0
         \<or> rp_max_attempts (cf_retry config) > 10
         \<or> cf_max_in_flight config = 0
         \<or> cf_max_in_flight config > 1024
         \<or> rp_max_backoff (cf_retry config) < rp_initial_backoff (cf_retry config)))
       Error.InvalidConfiguration) (\<lambda>_.
     rbind (ok_or Error.InvalidBaseUrl (parse_url base)) (\<lambda>base.
     rbind (ensure (\<not> (ur_scheme base \<notin> {''http'', ''https''}
         \<or> ur_host base = None
         \<or> ur_username base \<noteq> []
         \<or> ur_password base \<noteq> None
         \<or> ur_query base \<noteq> None
         \<or> ur_fragment base \<noteq> None
         \<or> ur_path base \<notin> {'''', ''/''}))
       Error.InvalidBaseUrl) (\<lambda>_.
     rbind (map_err Error.Transport build) (\<lambda>_.
     Inr (base\<lparr>ur_path := ''/''\<rparr>)))))"

section \<open>Requests and responses\<close>

datatype Method = GET | POST

record 'b http_request =
  hr_method :: Method
  hr_path :: string
  hr_body :: "'b option"
  hr_authorization :: "string option"
  hr_timeout :: Duration

text \<open>
  A response: its status, the values of the headers the client reads (\<open>None\<close> for a value that is not
  visible ASCII), the announced length, and the chunks its body arrives in.
\<close>

record http_response =
  rsp_status :: nat
  rsp_content_type :: "string option list"
  rsp_session_credential :: "string option list"
  rsp_cache_control :: "string option list"
  rsp_content_length :: "nat option"
  rsp_chunks :: "(reqwest_error + string) list"

text \<open>\<open>str::trim\<close> on ASCII text, which header values are.\<close>

definition trim_ascii :: "string \<Rightarrow> string" where
  "trim_ascii v =
     (let blank = (\<lambda>c. is_whitespace (byte_of c)) in rev (dropWhile blank (rev (dropWhile blank v))))"

definition is_json :: "http_response \<Rightarrow> bool" where
  "is_json response =
     (case rsp_content_type response of
        Some value # _ \<Rightarrow>
          eq_ignore_ascii_case (trim_ascii (hd (split_on (CHR '';'') value))) ''application/json''
      | _ \<Rightarrow> False)"

fun read_chunks :: "string \<Rightarrow> (reqwest_error + string) list \<Rightarrow> Error + string" where
  "read_chunks bytes [] = Inr bytes"
| "read_chunks bytes (c # chunks) =
     rbind (map_err Error.Transport c) (\<lambda>chunk.
     if length bytes + length chunk > MAX_RESPONSE_BYTES then Inl Error.ResponseTooLarge
     else read_chunks (bytes @ chunk) chunks)"

text \<open>The parsers of JSON: of the expected response and of the error envelope, with \<open>validate_response\<close>.\<close>

record 'r codec =
  co_value :: "string \<Rightarrow> 'r option"
  co_error :: "string \<Rightarrow> ErrorBody option"
  co_validate :: "'r \<Rightarrow> Error + unit"

definition decode :: "'r codec \<Rightarrow> http_response \<Rightarrow> Error + 'r" where
  "decode C response =
     (let status = rsp_status response in
      rbind (ensure (status \<noteq> 408) Error.Timeout) (\<lambda>_.
      rbind (ensure (is_json response) (Error.UnexpectedHttp status)) (\<lambda>_.
      rbind (ensure (\<not> (case rsp_content_length response of None \<Rightarrow> False
          | Some len \<Rightarrow> len > MAX_RESPONSE_BYTES)) Error.ResponseTooLarge) (\<lambda>_.
      rbind (read_chunks [] (rsp_chunks response)) (\<lambda>bytes.
      if 200 \<le> status \<and> status < 300 then
        rbind (ensure (status = 200) (Error.UnexpectedHttp status)) (\<lambda>_.
        rbind (ok_or (Error.MalformedResponse status) (co_value C bytes)) (\<lambda>value.
        rbind (co_validate C value) (\<lambda>_. Inr value)))
      else
        rbind (ok_or (Error.UnexpectedHttp status) (co_error C bytes)) (\<lambda>error.
        rbind (map_err (\<lambda>_. Error.UnexpectedHttp status) (validate_error_body error)) (\<lambda>_.
        rbind (ensure (http_status (eb_code error) = status) (Error.UnexpectedHttp status)) (\<lambda>_.
        Inl (Error.Api status (eb_code error) (eb_retryable error))))))))))"

fun transport_retryable :: "Error \<Rightarrow> bool" where
  "transport_retryable Error.Timeout \<longleftrightarrow> True"
| "transport_retryable (Error.Transport e) \<longleftrightarrow>
     re_is_timeout e \<or> re_is_connect e \<or> re_is_request e \<or> re_is_body e \<or> re_is_decode e"
| "transport_retryable _ \<longleftrightarrow> False"

section \<open>Validation of responses\<close>

definition malformed :: Error where "malformed = Error.MalformedResponse 200"

text \<open>The impls the macro \<open>response_uses_protocol_validation!\<close> makes.\<close>

definition protocol_validated :: "('r \<Rightarrow> InvalidValue + unit) \<Rightarrow> 'r \<Rightarrow> Error + unit" where
  "protocol_validated validate self = map_err (\<lambda>_. malformed) (validate self)"

definition validate_session_response :: "SessionResponse \<Rightarrow> Error + unit" where
  "validate_session_response self =
     ensure (is_ok (AgentId_new (sp_agent_id self))
       \<and> is_ok (MembershipId_new (sp_membership_id self))
       \<and> is_ok (InstanceId_new (sp_instance_id self))
       \<and> is_ok (SquadId_new (ss_id (sp_squad self)))
       \<and> is_ok (SquadName_new (ss_name (sp_squad self)))
       \<and> is_ok (MemberName_new (sp_member_name self))
       \<and> is_ok (Role_new (sp_role self))
       \<and> is_ok (validate_squad_summary (sp_squad self))
       \<and> 1 \<le> sp_heartbeat_interval_seconds self \<and> sp_heartbeat_interval_seconds self \<le> 300
       \<and> 2 \<le> sp_lease_seconds self \<and> sp_lease_seconds self \<le> 900
       \<and> sp_lease_seconds self > sp_heartbeat_interval_seconds self) malformed"

definition validate_heartbeat_response :: "HeartbeatResponse \<Rightarrow> Error + unit" where
  "validate_heartbeat_response self =
     ensure (1 \<le> hp_heartbeat_interval_seconds self \<and> hp_heartbeat_interval_seconds self \<le> 300) malformed"

record HealthResponse =
  he_status :: string

definition validate_health_response :: "HealthResponse \<Rightarrow> Error + unit" where
  "validate_health_response self = ensure (he_status self = ''ok'') malformed"

definition validate_ready_response :: "ReadyResponse \<Rightarrow> Error + unit" where
  "validate_ready_response self = ensure (rr_status self = ''ready'' \<and> rr_schema_version self > 0) malformed"

section \<open>Attempts\<close>

text \<open>
  How attempts go, by their number: whether a permit is free, what sending the request yields and
  does to the state (a request or its response may be lost anywhere), and whether the deadline of the
  whole operation passes before the next attempt starts.
\<close>

record ('b, 'w) transport =
  tp_joins :: "string \<Rightarrow> bool"
  tp_permit :: "nat \<Rightarrow> bool"
  tp_send :: "nat \<Rightarrow> 'b http_request \<Rightarrow> 'w \<Rightarrow> (reqwest_error + http_response) \<times> 'w"
  tp_late :: "nat \<Rightarrow> bool"

definition request ::
  "('b, 'w) transport \<Rightarrow> nat \<Rightarrow> 'b http_request \<Rightarrow> 'w \<Rightarrow> (Error + http_response) \<times> 'w" where
  "request T attempt req w =
     (if \<not> tp_joins T (hr_path req) then (Inl Error.InvalidBaseUrl, w)
      else let (r, w') = tp_send T attempt req w in (map_err Error.Transport r, w'))"

fun retryable_api :: "Error + 'r \<Rightarrow> bool" where
  "retryable_api (Inl (Error.Api status code retryable)) = retryable"
| "retryable_api _ = False"

fun retryable_transport :: "Error + 'r \<Rightarrow> bool" where
  "retryable_transport (Inl e) = transport_retryable e"
| "retryable_transport (Inr _) = False"

text \<open>The \<open>match\<close> of the loop: what an attempt returns, or \<open>None\<close> when it goes on to sleep.\<close>

definition settled :: "'r codec \<Rightarrow> nat \<Rightarrow> nat \<Rightarrow> Error + http_response \<Rightarrow> (Error + 'r) option" where
  "settled C attempts attempt outcome =
     (case outcome of
        Inr response \<Rightarrow>
          (let status = rsp_status response;
               result = decode C response;
               retryable = (retryable_api result \<or> retryable_transport result) in
           if retryable \<and> attempt = attempts \<and> attempts > 1 then
             (case result of Inl e \<Rightarrow> Some (Inl (Error.RetryExhausted attempts e)) | Inr v \<Rightarrow> Some (Inr v))
           else if \<not> retryable \<or> attempt = attempts then Some result
           else if retryable_api result \<and> status \<notin> {429, 503, 500} then Some result
           else None)
      | Inl error \<Rightarrow>
          if attempt = attempts \<and> attempts > 1 \<and> transport_retryable error
          then Some (Inl (Error.RetryExhausted attempts error))
          else if attempt = attempts \<or> \<not> transport_retryable error then Some (Inl error)
          else None)"

datatype event = Sent | Slept Duration

text \<open>
  The loop \<open>for attempt in 1..=attempts\<close> of \<open>execute_inner\<close> under the deadline of \<open>execute\<close>, with the number of
  attempts left as its measure: the result, the state and what was done. \<open>None\<close> is the
  \<open>unreachable!\<close> after the loop.
\<close>

fun execute_from ::
  "RetryPolicy \<Rightarrow> ('b, 'w) transport \<Rightarrow> 'r codec \<Rightarrow> 'b http_request \<Rightarrow> nat \<Rightarrow> nat \<Rightarrow> Duration \<Rightarrow> 'w
   \<Rightarrow> ((Error + 'r) \<times> 'w \<times> event list) option" where
  "execute_from policy T C req attempts 0 backoff w = None"
| "execute_from policy T C req attempts (Suc left) backoff w =
     (let attempt = attempts - left in
      if \<not> tp_permit T attempt then Some (Inl Error.ClientBusy, w, [])
      else let (outcome, w') = request T attempt req w in
        if tp_late T attempt then Some (Inl Error.Timeout, w', [Sent])
        else case settled C attempts attempt outcome of
          Some result \<Rightarrow> Some (result, w', [Sent])
        | None \<Rightarrow>
            map_option (\<lambda>(result, w'', events). (result, w'', Sent # Slept backoff # events))
              (execute_from policy T C req attempts left
                (min (min duration_max (backoff * 2)) (rp_max_backoff policy)) w'))"

definition attempts_for :: "RetryPolicy \<Rightarrow> RetryClass \<Rightarrow> nat" where
  "attempts_for policy cls = (case cls of Never \<Rightarrow> 1 | _ \<Rightarrow> rp_max_attempts policy)"

definition execute ::
  "ClientConfig \<Rightarrow> ('b, 'w) transport \<Rightarrow> 'r codec \<Rightarrow> 'b http_request \<Rightarrow> RetryClass \<Rightarrow> 'w
   \<Rightarrow> ((Error + 'r) \<times> 'w \<times> event list) option" where
  "execute config T C req cls w =
     (let attempts = attempts_for (cf_retry config) cls in
      execute_from (cf_retry config) T C req attempts attempts (rp_initial_backoff (cf_retry config)) w)"

section \<open>Issued credentials\<close>

record ClientCredential =
  cc_value :: HeaderValue
  cc_instance_id :: string

text \<open>The functions of \<open>HeaderValue\<close> and base64 the client uses.\<close>

record headers_lib =
  hl_from_str :: "string \<Rightarrow> string option"
  hl_dec :: "string \<Rightarrow> string option"
  hl_enc :: "string \<Rightarrow> string"

definition Credential_from_response :: "headers_lib \<Rightarrow> string option \<Rightarrow> Error + ClientCredential" where
  "Credential_from_response lib value =
     rbind (ok_or Error.MalformedCredential value) (\<lambda>raw.
     rbind (map_err (\<lambda>_. Error.MalformedCredential) (parse_session_value (hl_dec lib) (hl_enc lib) raw)) (\<lambda>p.
     rbind (ok_or Error.MalformedCredential (hl_from_str lib (''Bearer '' @ raw))) (\<lambda>authorization.
     Inr \<lparr>cc_value = \<lparr>hv_text = authorization, hv_sensitive = True\<rparr>, cc_instance_id = sc_instance_id p\<rparr>)))"

definition has_no_store :: "string option list \<Rightarrow> bool" where
  "has_no_store values =
     list_ex (\<lambda>v. case v of None \<Rightarrow> False
       | Some value \<Rightarrow> list_ex (\<lambda>directive. eq_ignore_ascii_case (trim_ascii directive) ''no-store'')
           (split_on (CHR '','') value)) values"

definition accept_issued ::
  "headers_lib \<Rightarrow> SessionResponse codec \<Rightarrow> http_response \<Rightarrow> Error + SessionResponse \<times> ClientCredential" where
  "accept_issued lib C response =
     (if rsp_status response \<noteq> 200 then
        (case decode C response of Inl e \<Rightarrow> Inl e | Inr _ \<Rightarrow> Inl (Error.UnexpectedHttp 200))
      else
        rbind (ensure (\<not> (length (rsp_session_credential response) \<noteq> 1
            \<or> \<not> has_no_store (rsp_cache_control response))) Error.MalformedCredential) (\<lambda>_.
        let issued = hd (rsp_session_credential response) in
        rbind (decode C response) (\<lambda>value.
        rbind (Credential_from_response lib issued) (\<lambda>credential.
        rbind (ensure (sp_instance_id value = cc_instance_id credential) Error.MalformedCredential) (\<lambda>_.
        Inr (value, credential))))))"

definition execute_issued ::
  "headers_lib \<Rightarrow> ('b, 'w) transport \<Rightarrow> SessionResponse codec \<Rightarrow> 'b http_request \<Rightarrow> 'w
   \<Rightarrow> (Error + SessionResponse \<times> ClientCredential) \<times> 'w" where
  "execute_issued lib T C req w =
     (if \<not> tp_permit T 1 then (Inl Error.ClientBusy, w)
      else let (outcome, w') = request T 1 req w in
        if tp_late T 1 then (Inl Error.Timeout, w')
        else (rbind outcome (accept_issued lib C), w'))"

fun outcome_unknown :: "Error \<Rightarrow> Error" where
  "outcome_unknown (Error.Transport _) = Error.OutcomeUnknown"
| "outcome_unknown Error.Timeout = Error.OutcomeUnknown"
| "outcome_unknown e = e"

section \<open>Operations\<close>

type_synonym ('r, 'w) outcome = "((Error + 'r) \<times> 'w \<times> event list) option"

definition get_request :: "string \<Rightarrow> ClientCredential option \<Rightarrow> Duration \<Rightarrow> 'b http_request" where
  "get_request path credential timeout =
     \<lparr>hr_method = GET, hr_path = path, hr_body = None,
      hr_authorization = map_option (\<lambda>c. hv_text (cc_value c)) credential, hr_timeout = timeout\<rparr>"

definition post_request :: "string \<Rightarrow> 'b \<Rightarrow> ClientCredential option \<Rightarrow> Duration \<Rightarrow> 'b http_request" where
  "post_request path body credential timeout =
     \<lparr>hr_method = POST, hr_path = path, hr_body = Some body,
      hr_authorization = map_option (\<lambda>c. hv_text (cc_value c)) credential, hr_timeout = timeout\<rparr>"

text \<open>\<open>m?;\<close> before anything is sent, and \<open>request.validate().map_err(|_| Error::InvalidRequest)\<close>.\<close>

definition before_sending :: "Error + 'a \<Rightarrow> ('a \<Rightarrow> ('r, 'w) outcome) \<Rightarrow> 'w \<Rightarrow> ('r, 'w) outcome" where
  "before_sending m f w = (case m of Inl e \<Rightarrow> Some (Inl e, w, []) | Inr x \<Rightarrow> f x)"

definition valid_or_refused :: "InvalidValue + 'a \<Rightarrow> Error + 'a" where
  "valid_or_refused = map_err (\<lambda>_. Error.InvalidRequest)"

text \<open>\<open>squad_path\<close>: every byte outside the unreserved set as \<open>%XX\<close>.\<close>

definition percent_encode :: "char \<Rightarrow> string" where
  "percent_encode byte =
     (if is_ascii_alphanumeric byte \<or> byte \<in> {CHR ''-'', CHR ''_'', CHR ''.'', CHR ''~''} then [byte]
      else [CHR ''%'', ''0123456789ABCDEF'' ! (byte_of byte div 16), ''0123456789ABCDEF'' ! (byte_of byte mod 16)])"

definition squad_path :: "string \<Rightarrow> string \<Rightarrow> Error + string" where
  "squad_path squad suffix =
     rbind (valid_or_refused (SquadName_new squad)) (\<lambda>_.
     Inr (''v1/squads/'' @ concat (map percent_encode squad) @ suffix))"

definition dedupe_key :: "8 word list option \<Rightarrow> Error + string" where
  "dedupe_key random =
     rbind (ok_or Error.InvalidConfiguration random) (\<lambda>bytes.
     Inr (''sdk-'' @ concat (map hex_byte bytes)))"

definition client_health where
  "client_health cf T C =
     execute cf T (C\<lparr>co_validate := validate_health_response\<rparr>) (get_request ''healthz'' None (cf_request_timeout cf)) Safe"

definition client_ready where
  "client_ready cf T C =
     execute cf T (C\<lparr>co_validate := validate_ready_response\<rparr>) (get_request ''readyz'' None (cf_request_timeout cf)) Safe"

definition client_list_squads where
  "client_list_squads cf T C =
     execute cf T (C\<lparr>co_validate := protocol_validated validate_squad_list\<rparr>)
       (get_request ''v1/squads'' None (cf_request_timeout cf)) Safe"

definition client_create_squad where
  "client_create_squad cf T C r w =
     before_sending (valid_or_refused (validate_create_squad r)) (\<lambda>_.
     execute cf T (C\<lparr>co_validate := protocol_validated validate_squad_summary\<rparr>)
       (post_request ''v1/squads'' r None (cf_request_timeout cf)) Never w) w"

definition client_describe_squad where
  "client_describe_squad cf T C squad w =
     before_sending (squad_path squad []) (\<lambda>path.
     execute cf T (C\<lparr>co_validate := protocol_validated validate_squad_summary\<rparr>)
       (get_request path None (cf_request_timeout cf)) Safe w) w"

definition client_join ::
  "ClientConfig \<Rightarrow> headers_lib \<Rightarrow> (JoinSquadRequest, 'w) transport \<Rightarrow> SessionResponse codec \<Rightarrow> string
   \<Rightarrow> JoinSquadRequest \<Rightarrow> 'w \<Rightarrow> (Error + SessionResponse \<times> ClientCredential) \<times> 'w" where
  "client_join cf lib T C squad r w =
     (case rbind (valid_or_refused (validate_join_squad r)) (\<lambda>_. squad_path squad ''/join'') of
        Inl e \<Rightarrow> (Inl e, w)
      | Inr path \<Rightarrow>
          (let (result, w') = execute_issued lib T (C\<lparr>co_validate := validate_session_response\<rparr>)
                 (post_request path r None (cf_request_timeout cf)) w in
           (map_err outcome_unknown result, w')))"

definition client_resume ::
  "ClientConfig \<Rightarrow> headers_lib \<Rightarrow> (ResumeSquadRequest, 'w) transport \<Rightarrow> SessionResponse codec \<Rightarrow> string
   \<Rightarrow> ResumeSquadRequest \<Rightarrow> ClientCredential \<Rightarrow> 'w \<Rightarrow> (Error + SessionResponse \<times> ClientCredential) \<times> 'w" where
  "client_resume cf lib T C squad r credential w =
     (case rbind (valid_or_refused (validate_resume_squad r)) (\<lambda>_. squad_path squad ''/resume'') of
        Inl e \<Rightarrow> (Inl e, w)
      | Inr path \<Rightarrow>
          (let (result, w') = execute_issued lib T (C\<lparr>co_validate := validate_session_response\<rparr>)
                 (post_request path r (Some credential) (cf_request_timeout cf)) w in
           (map_err outcome_unknown result, w')))"

definition client_leave where
  "client_leave cf T C squad credential w =
     before_sending (squad_path squad ''/leave'') (\<lambda>path.
     map_option (\<lambda>(result, w', events). (map_err outcome_unknown result, w', events))
       (execute cf T (C\<lparr>co_validate := protocol_validated validate_leave_response\<rparr>)
         (post_request path () (Some credential) (cf_request_timeout cf)) Never w)) w"

definition client_archive_squad where
  "client_archive_squad cf T C squad credential w =
     before_sending (squad_path squad ''/archive'') (\<lambda>path.
     execute cf T (C\<lparr>co_validate := protocol_validated validate_archive_response\<rparr>)
       (post_request path () (Some credential) (cf_request_timeout cf)) Never w) w"

definition client_roster where
  "client_roster cf T C squad credential w =
     before_sending (squad_path squad ''/roster'') (\<lambda>path.
     execute cf T (C\<lparr>co_validate := protocol_validated validate_roster_response\<rparr>)
       (get_request path (Some credential) (cf_request_timeout cf)) Safe w) w"

definition client_heartbeat where
  "client_heartbeat cf T C r credential w =
     before_sending (valid_or_refused (validate_heartbeat r)) (\<lambda>_.
     execute cf T (C\<lparr>co_validate := validate_heartbeat_response\<rparr>)
       (post_request ''v1/heartbeat'' r (Some credential) (cf_request_timeout cf)) Never w) w"

record PreparedSend =
  ps_request :: SendMessageRequest
  ps_identity :: string

definition prepare_send ::
  "8 word list option \<Rightarrow> string \<Rightarrow> string \<Rightarrow> MessagePriorityDto \<Rightarrow> string option \<Rightarrow> string option
   \<Rightarrow> Error + PreparedSend" where
  "prepare_send random recipient body priority reply_to correlation_id =
     rbind (dedupe_key random) (\<lambda>key.
     let r = \<lparr>smq_recipient = recipient, smq_recipient_membership_id = None, smq_body = body,
              smq_priority = priority, smq_dedupe_key = key, smq_reply_to = reply_to,
              smq_correlation_id = correlation_id\<rparr> in
     rbind (valid_or_refused (validate_send_message r)) (\<lambda>_.
     Inr \<lparr>ps_request = r, ps_identity = smq_dedupe_key r\<rparr>))"

definition send_with_request where
  "send_with_request cf T C r credential w =
     before_sending (valid_or_refused (validate_send_message r)) (\<lambda>_.
     execute cf T (C\<lparr>co_validate := protocol_validated validate_send_response\<rparr>)
       (post_request ''v1/messages'' r (Some credential) (cf_request_timeout cf)) Deduplicated w) w"

definition send_prepared where
  "send_prepared cf T C prepared credential = send_with_request cf T C (ps_request prepared) credential"

definition client_send where
  "client_send cf T C random recipient body priority reply_to correlation_id credential w =
     before_sending (prepare_send random recipient body priority reply_to correlation_id) (\<lambda>prepared.
     send_prepared cf T C prepared credential w) w"

definition inbox_path :: "nat \<Rightarrow> nat \<Rightarrow> string" where
  "inbox_path limit wait_seconds =
     ''v1/inbox?limit='' @ decimal limit @ ''&wait='' @ decimal wait_seconds"

definition client_inbox where
  "client_inbox cf T C limit wait_seconds credential w =
     before_sending (valid_or_refused (validate_inbox_query \<lparr>iqd_limit = limit, iqd_wait_seconds = wait_seconds\<rparr>)) (\<lambda>_.
     execute cf T (C\<lparr>co_validate := protocol_validated validate_inbox_response\<rparr>)
       (get_request (inbox_path limit wait_seconds) (Some credential)
         (min duration_max (from_secs wait_seconds + cf_long_poll_margin cf))) Safe w) w"

definition client_acknowledge where
  "client_acknowledge cf T C r credential w =
     before_sending (valid_or_refused (validate_ack_request r)) (\<lambda>_.
     execute cf T (C\<lparr>co_validate := protocol_validated validate_ack_response\<rparr>)
       (post_request ''v1/messages/ack'' r (Some credential) (cf_request_timeout cf)) Deduplicated w) w"

definition client_transcript where
  "client_transcript cf T C squad after limit credential w =
     before_sending
       (rbind (valid_or_refused (validate_transcript_query \<lparr>tqd_after = after, tqd_limit = limit\<rparr>)) (\<lambda>_.
        squad_path squad ''/transcript'')) (\<lambda>base.
     execute cf T (C\<lparr>co_validate := protocol_validated validate_transcript_response\<rparr>)
       (get_request (base @ ''?after='' @ decimal (nat (seq_value after)) @ ''&limit='' @ decimal limit)
         (Some credential) (cf_request_timeout cf)) Safe w) w"

section \<open>The retry loop\<close>

text \<open>The waits between attempts: they double from the initial backoff up to the largest one.\<close>

definition backoffs :: "RetryPolicy \<Rightarrow> nat \<Rightarrow> Duration list" where
  "backoffs policy n = map (\<lambda>k. min (rp_max_backoff policy) (rp_initial_backoff policy * 2 ^ k)) [0..<n]"

definition sent_and_slept :: "Duration list \<Rightarrow> event list" where
  "sent_and_slept waits = concat (map (\<lambda>d. [Sent, Slept d]) waits)"

lemma sent_and_slept_simps [simp]:
  "sent_and_slept [] = []" "sent_and_slept (d # ds) = Sent # Slept d # sent_and_slept ds"
  by (simp_all add: sent_and_slept_def)

lemma backoff_doubles:
  assumes "rp_max_backoff policy \<le> duration_max"
  shows "min (min duration_max (min (rp_max_backoff policy) (b * 2 ^ k) * 2)) (rp_max_backoff policy) =
    min (rp_max_backoff policy) (b * 2 ^ Suc k)"
  using assms by (simp add: min_def)

lemma backoffs_drop:
  "drop k (backoffs policy (k + n)) =
     map (\<lambda>k. min (rp_max_backoff policy) (rp_initial_backoff policy * 2 ^ k)) [k..<k + n]"
  by (simp add: backoffs_def drop_map)

lemma settled_last: "settled C attempts attempts outcome \<noteq> None"
  by (auto simp: settled_def Let_def split: sum.splits)

lemma execute_from_trace:
  assumes "rp_max_backoff policy \<le> duration_max" and "0 < left" and "left \<le> attempts"
    and "backoff = min (rp_max_backoff policy) (rp_initial_backoff policy * 2 ^ k)"
  shows "\<exists>result w' n last. execute_from policy T C req attempts left backoff w =
      Some (result, w', sent_and_slept (drop k (backoffs policy (k + n))) @ last)
    \<and> n < left \<and> (last = [] \<or> last = [Sent])"
  using assms(2-4)
proof (induction left arbitrary: backoff k w)
  case (Suc left)
  let ?a = "attempts - left"
  obtain outcome w1 where req: "request T ?a req w = (outcome, w1)" by (cases "request T ?a req w")
  consider (busy) "\<not> tp_permit T ?a" | (late) "tp_permit T ?a" "tp_late T ?a"
    | (returned) r where "tp_permit T ?a" "\<not> tp_late T ?a" "settled C attempts ?a outcome = Some r"
    | (again) "tp_permit T ?a" "\<not> tp_late T ?a" "settled C attempts ?a outcome = None"
    by (cases "settled C attempts ?a outcome") auto
  then show ?case
  proof cases
    case again
    then have "0 < left" using settled_last [of C attempts outcome] by (cases left) auto
    moreover have "left \<le> attempts" using Suc.prems(2) by simp
    ultimately obtain result w' n es where rec: "execute_from policy T C req attempts left
          (min (min duration_max (backoff * 2)) (rp_max_backoff policy)) w1 =
        Some (result, w', sent_and_slept (drop (Suc k) (backoffs policy (Suc k + n))) @ es)"
      and n: "n < left" "es = [] \<or> es = [Sent]"
      using Suc.IH [of "min (min duration_max (backoff * 2)) (rp_max_backoff policy)" "Suc k" w1]
        Suc.prems(3) backoff_doubles [OF assms(1), of "rp_initial_backoff policy" k] by blast
    have "drop k (backoffs policy (k + Suc n)) = backoff # drop (Suc k) (backoffs policy (Suc k + n))"
      using Suc.prems(3) upt_conv_Cons [of k "k + Suc n"] backoffs_drop [of k policy "Suc n"]
        backoffs_drop [of "Suc k" policy n] by simp
    then show ?thesis
      using again req rec n by (intro exI [of _ result] exI [of _ w'] exI [of _ "Suc n"] exI [of _ es]) simp
  qed (use req in \<open>auto intro!: exI [of _ 0] simp: backoffs_def\<close>)
qed simp

text \<open>
  (C23) Retrying is bounded and backs off. With a configuration that the client accepts, every operation
  returns whatever the network does, after at most as many requests as the policy allows (never more
  than ten, and one for an operation that must not be repeated); it waits only between requests, and
  the waits are the initial backoff, doubled each time, up to the largest one.
\<close>

theorem retries_are_bounded_and_back_off:
  assumes "Client_new parse_url build base config = Inr url"
    and "rp_max_backoff (cf_retry config) \<le> duration_max"
  shows "\<exists>result w' n last. execute config T C req cls w =
      Some (result, w', sent_and_slept (backoffs (cf_retry config) n) @ last)
    \<and> n < attempts_for (cf_retry config) cls \<and> attempts_for (cf_retry config) cls \<le> 10
    \<and> (cls = Never \<longrightarrow> n = 0) \<and> (last = [] \<or> last = [Sent])"
proof -
  let ?p = "cf_retry config"
  have policy: "1 \<le> rp_max_attempts ?p" "rp_max_attempts ?p \<le> 10" "rp_initial_backoff ?p \<le> rp_max_backoff ?p"
    using assms(1) by (auto simp: Client_new_def result_simps)
  then have some: "0 < attempts_for ?p cls" "attempts_for ?p cls \<le> 10"
    by (auto simp: attempts_for_def split: RetryClass.splits)
  have "rp_initial_backoff ?p = min (rp_max_backoff ?p) (rp_initial_backoff ?p * 2 ^ 0)" using policy(3) by simp
  from execute_from_trace [OF assms(2) some(1) order_refl this, of T C req w] obtain result w' n es where
    "execute config T C req cls w = Some (result, w', sent_and_slept (backoffs ?p n) @ es)"
    "n < attempts_for ?p cls" "es = [] \<or> es = [Sent]"
    by (auto simp: execute_def Let_def)
  moreover from this(2) have "cls = Never \<longrightarrow> n = 0" by (auto simp: attempts_for_def)
  ultimately show ?thesis using some(2) by blast
qed

text \<open>
  What holds of the state through all attempts of an operation: \<open>good\<close> holds whatever becomes of a
  request, and \<open>answered\<close> relates a response that arrives to the state it leaves.
\<close>

locale guarded_transport =
  fixes T :: "('b, 'w) transport" and req :: "'b http_request"
    and good :: "'w \<Rightarrow> bool" and answered :: "http_response \<Rightarrow> 'w \<Rightarrow> bool"
  assumes keeps: "good w \<Longrightarrow> tp_send T k req w = (r, w') \<Longrightarrow> good w'"
    and answers: "good w \<Longrightarrow> tp_send T k req w = (Inr response, w') \<Longrightarrow> answered response w'"
begin

lemma request_keeps:
  assumes "good w" and "request T k req w = (r, w')"
  shows "good w'" and "r = Inr response \<Longrightarrow> answered response w'"
  using assms keeps [of w k] answers [of w k] by (auto simp: request_def result_simps split: if_splits prod.splits)

lemma settled_Inr: "settled C attempts attempt outcome = Some (Inr v) \<Longrightarrow>
    \<exists>response. outcome = Inr response \<and> decode C response = Inr v"
  by (auto simp: settled_def Let_def split: sum.splits if_splits)

lemma execute_from_keeps:
  assumes "good w" and "execute_from policy T C req attempts left backoff w = Some (result, w', events)"
  shows "good w' \<and> (\<forall>v. result = Inr v \<longrightarrow> (\<exists>response. answered response w' \<and> decode C response = Inr v))"
  using assms
proof (induction left arbitrary: backoff w events)
  case (Suc left)
  let ?a = "attempts - left"
  obtain outcome w1 where req: "request T ?a req w = (outcome, w1)" by (cases "request T ?a req w")
  note kept = request_keeps [OF Suc.prems(1) req]
  show ?case
  proof (cases "tp_permit T ?a \<and> \<not> tp_late T ?a \<and> settled C attempts ?a outcome = None")
    case True
    with Suc.prems(2) req obtain es where "execute_from policy T C req attempts left
        (min (min duration_max (backoff * 2)) (rp_max_backoff policy)) w1 = Some (result, w', es)"
      by (auto simp: Let_def)
    from Suc.IH [OF kept(1) this] show ?thesis .
  next
    case False
    with Suc.prems(2) req consider "w' = w" "result = Inl Error.ClientBusy" | "w' = w1" "result = Inl Error.Timeout"
      | "w' = w1" "settled C attempts ?a outcome = Some result"
      by (auto simp: Let_def split: if_splits option.splits)
    then show ?thesis
    proof cases
      case 3
      then show ?thesis using kept settled_Inr [of C attempts ?a outcome] by metis
    qed (use Suc.prems(1) kept(1) in simp_all)
  qed
qed simp

lemma execute_keeps:
  assumes "good w" and "execute config T C req cls w = Some (result, w', events)"
  shows "good w'" and "result = Inr v \<Longrightarrow> \<exists>response. answered response w' \<and> decode C response = Inr v"
  using execute_from_keeps [OF assms(1) assms(2) [unfolded execute_def Let_def]] by blast+

end

section \<open>Paths and keys\<close>

text \<open>Valid squad names need no escapes, so a path names the squad it was made for.\<close>

lemma squad_name_unreserved:
  assumes "is_ok (SquadName_new squad)"
  shows "concat (map percent_encode squad) = squad"
proof -
  from assms have "list_all (\<lambda>b. is_ascii_lowercase b \<or> is_ascii_digit b \<or> b = CHR ''-'') squad"
    by (auto simp: SquadName_new_def text_value_new_def valid_squad_name_def split: if_splits)
  then show ?thesis by (induction squad) (auto simp: percent_encode_def is_ascii_alphanumeric_def)
qed

lemma squad_path_ok:
  "squad_path squad suffix =
     (if is_ok (SquadName_new squad) then Inr (''v1/squads/'' @ squad @ suffix) else Inl Error.InvalidRequest)"
  by (cases "SquadName_new squad") (auto simp: squad_path_def valid_or_refused_def squad_name_unreserved)

section \<open>A concrete run\<close>

text \<open>Two refused connections, then an answer.\<close>

definition sample_refused :: reqwest_error where
  "sample_refused = \<lparr>re_is_timeout = False, re_is_connect = True, re_is_request = False, re_is_body = False,
     re_is_decode = False\<rparr>"

definition sample_ok_response :: http_response where
  "sample_ok_response = \<lparr>rsp_status = 200, rsp_content_type = [Some ''Application/JSON; charset=utf-8''],
     rsp_session_credential = [], rsp_cache_control = [], rsp_content_length = None, rsp_chunks = [Inr ''ok'']\<rparr>"

definition sample_transport :: "(unit, nat) transport" where
  "sample_transport = \<lparr>tp_joins = (\<lambda>_. True), tp_permit = (\<lambda>_. True),
     tp_send = (\<lambda>k _ w. (if k < 3 then Inl sample_refused else Inr sample_ok_response, w + 1)), tp_late = (\<lambda>_. False)\<rparr>"

definition sample_codec :: "HealthResponse codec" where
  "sample_codec = \<lparr>co_value = (\<lambda>v. Some \<lparr>he_status = v\<rparr>), co_error = (\<lambda>_. None), co_validate = (\<lambda>_. Inr ())\<rparr>"

definition sample_url :: Url where
  "sample_url = \<lparr>ur_scheme = ''http'', ur_host = Some ''127.0.0.1'', ur_username = [], ur_password = None,
     ur_query = None, ur_fragment = None, ur_path = ''/''\<rparr>"

lemma sample_client: "Client_new (\<lambda>_. Some sample_url) (Inr ()) ''http://127.0.0.1'' ClientConfig_default = Inr sample_url"
  by (simp add: Client_new_def ClientConfig_default_def RetryPolicy_default_def sample_url_def from_secs_def)

lemma sample_decoded:
  "decode (sample_codec\<lparr>co_validate := validate_health_response\<rparr>) sample_ok_response = Inr \<lparr>he_status = ''ok''\<rparr>"
  by (simp add: decode_def sample_ok_response_def is_json_def trim_ascii_def eq_ignore_ascii_case_def
      to_ascii_lowercase_def char_of_def bit_0 MAX_RESPONSE_BYTES_def sample_codec_def validate_health_response_def eval_simps)

lemma sample_health_run:
  "client_health ClientConfig_default sample_transport sample_codec 0 =
     Some (Inr \<lparr>he_status = ''ok''\<rparr>, 3, [Sent, Slept 50000000, Sent, Slept 100000000, Sent])"
  by (simp add: client_health_def execute_def attempts_for_def ClientConfig_default_def RetryPolicy_default_def
      numeral_3_eq_3 request_def sample_transport_def sample_refused_def settled_def duration_max_def sample_decoded)

theorem retries_are_bounded_and_back_off_witness:
  "\<exists>n last. [Sent, Slept 50000000, Sent, Slept 100000000, Sent] = sent_and_slept (backoffs RetryPolicy_default n) @ last
     \<and> n < 3"
proof -
  have "rp_max_backoff (cf_retry ClientConfig_default) \<le> duration_max"
    by (simp add: ClientConfig_default_def RetryPolicy_default_def duration_max_def)
  from retries_are_bounded_and_back_off [OF sample_client this, of sample_transport
      "sample_codec\<lparr>co_validate := validate_health_response\<rparr>" "get_request ''healthz'' None (from_secs 10)" Safe 0]
    sample_health_run
  show ?thesis by (auto simp: client_health_def attempts_for_def ClientConfig_default_def RetryPolicy_default_def)
qed

end
