(* ===== verification/Credential_Store.thy ===== *)
theory Credential_Store
  imports Client_Http File_System
begin

text \<open>
  The file that keeps a session credential (\<open>psst-client/src/credential_store.rs\<close>, Unix): bindings,
  canonical origins, storing by atomic replacement with the injected faults, loading, clearing and the
  removal of remnants. The \<open>url\<close>, \<open>serde_json\<close> and \<open>http\<close> crates are the record \<open>store_lib\<close>.
\<close>

definition CREDENTIAL_VERSION :: nat where "CREDENTIAL_VERSION = 1"

definition MAX_CREDENTIAL_BYTES :: nat where "MAX_CREDENTIAL_BYTES = 16 * 1024"

definition invalid :: io_error where
  "invalid = IoError InvalidData ''credential record is invalid''"

definition injected :: io_error where
  "injected = IoError Other ''injected credential-store failure''"

section \<open>Origins and bindings\<close>

record OriginUrl = Url +
  ou_port :: "nat option"

record url_lib =
  ul_parse :: "string \<Rightarrow> OriginUrl option"
  ul_print :: "OriginUrl \<Rightarrow> string"

definition trim_end_matches :: "char \<Rightarrow> string \<Rightarrow> string" where
  "trim_end_matches c v = rev (dropWhile (\<lambda>x. x = c) (rev v))"

definition canonical_origin :: "url_lib \<Rightarrow> string \<Rightarrow> io_error + string" where
  "canonical_origin U raw =
     rbind (ok_or invalid (ul_parse U raw)) (\<lambda>value.
     rbind (ensure (\<not> (ur_scheme value \<notin> {''http'', ''https''}
         \<or> ur_host value = None
         \<or> ur_username value \<noteq> []
         \<or> ur_password value \<noteq> None
         \<or> ur_query value \<noteq> None
         \<or> ur_fragment value \<noteq> None
         \<or> ur_path value \<noteq> ''/'')) invalid) (\<lambda>_.
     let default = (if ur_scheme value = ''http'' then 80 else 443);
         value = (if ou_port value = Some default then value\<lparr>ou_port := None\<rparr> else value) in
     Inr (trim_end_matches (CHR ''/'') (ul_print U (value\<lparr>ur_path := ''''\<rparr>)))))"

record CredentialBinding =
  cb_relay_origin :: string
  cb_profile :: string
  cb_squad_id :: string
  cb_member_id :: string

definition profile_char :: "char \<Rightarrow> bool" where
  "profile_char b \<longleftrightarrow> is_ascii_alphanumeric b \<or> b \<in> {CHR ''-'', CHR ''_''}"

definition CredentialBinding_new ::
  "url_lib \<Rightarrow> string \<Rightarrow> string \<Rightarrow> string \<Rightarrow> string \<Rightarrow> io_error + CredentialBinding" where
  "CredentialBinding_new U relay_origin profile squad_id member_id =
     rbind (canonical_origin U relay_origin) (\<lambda>relay_origin.
     rbind (ensure (\<not> (profile = []
         \<or> length profile > 64
         \<or> \<not> list_all profile_char profile
         \<or> \<not> is_ok (SquadId_new squad_id)
         \<or> \<not> is_ok (MembershipId_new member_id))) invalid) (\<lambda>_.
     Inr \<lparr>cb_relay_origin = relay_origin, cb_profile = profile, cb_squad_id = squad_id,
          cb_member_id = member_id\<rparr>))"

section \<open>The store\<close>

datatype CredentialFault = NoFault | BeforeWrite | BeforeFlush | BeforePermission | BeforeReplace

text \<open>The store, by the final component of its path; the directory it holds open is the state.\<close>

record CredentialStore =
  cs_name :: "string option"

record CredentialRecord =
  cr_version :: nat
  cr_relay_origin :: string
  cr_profile :: string
  cr_squad_id :: string
  cr_member_id :: string
  cr_instance_id :: string
  cr_authorization :: string

record store_lib =
  sl_url :: url_lib
  sl_headers :: headers_lib
  sl_to_str :: "string \<Rightarrow> string option"
  sl_to_vec :: "CredentialRecord \<Rightarrow> string option"
  sl_from_slice :: "string \<Rightarrow> CredentialRecord option"

definition temp_prefix :: "CredentialStore \<Rightarrow> io_error + string" where
  "temp_prefix self =
     rbind (ok_or invalid (cs_name self)) (\<lambda>name. Inr (''.'' @ name @ ''.credential-tmp-''))"

definition unsafe_permissions :: io_error where
  "unsafe_permissions = IoError PermissionDenied ''credential permissions are unsafe''"

text \<open>The mode of an open file, modulo \<open>0o1000\<close>, is \<open>0o600\<close>.\<close>

definition verify_restricted_handle :: "os \<Rightarrow> node \<Rightarrow> unit dir_op" where
  "verify_restricted_handle os file =
     call os Stat (io_guard (node_mode file mod 512 = 384) unsafe_permissions)"

text \<open>The file behind the descriptor that \<open>create_excl\<close> returned.\<close>

definition handle :: "string \<Rightarrow> node dir_op" where
  "handle name d = (ok_or (IoOs NOENT) (dir_live d name), d)"

definition reject_substitution :: "os \<Rightarrow> string option \<Rightarrow> unit dir_op" where
  "reject_substitution os path =
     (case path of None \<Rightarrow> io_return (Inr ())
      | Some name \<Rightarrow> lstat_not_link os (IoError PermissionDenied ''link substitution rejected'') name)"

definition store_bytes_unix :: "CredentialStore \<Rightarrow> CredentialFault \<Rightarrow> os \<Rightarrow> string \<Rightarrow> unit dir_op" where
  "store_bytes_unix self fault os bytes =
     io_bind (io_return (ok_or invalid (cs_name self))) (\<lambda>target.
     io_bind (io_return (temp_prefix self)) (\<lambda>temp.
     io_bind (io_ignore (unlinkat os temp)) (\<lambda>_.
     io_bind (io_guard (fault \<noteq> BeforeWrite) injected) (\<lambda>_.
     io_bind (create_excl os temp) (\<lambda>_.
     io_bind (io_bind (handle temp) (verify_restricted_handle os)) (\<lambda>_.
     io_bind (write_all os temp bytes) (\<lambda>_.
     io_bind (io_guard (fault \<noteq> BeforeFlush) injected) (\<lambda>_.
     io_bind (sync_file os temp) (\<lambda>_.
     io_bind (io_guard (fault \<noteq> BeforePermission) injected) (\<lambda>_.
     io_bind (io_bind (handle temp) (verify_restricted_handle os)) (\<lambda>_.
     io_bind (io_guard (fault \<noteq> BeforeReplace) injected) (\<lambda>_.
     io_bind (renameat os temp target) (\<lambda>_.
     sync_dir os)))))))))))))"

definition credential_record :: "CredentialBinding \<Rightarrow> ClientCredential \<Rightarrow> string \<Rightarrow> CredentialRecord" where
  "credential_record binding credential authorization =
     \<lparr>cr_version = CREDENTIAL_VERSION, cr_relay_origin = cb_relay_origin binding,
      cr_profile = cb_profile binding, cr_squad_id = cb_squad_id binding,
      cr_member_id = cb_member_id binding, cr_instance_id = cc_instance_id credential,
      cr_authorization = authorization\<rparr>"

definition revalidate :: "store_lib \<Rightarrow> CredentialBinding \<Rightarrow> io_error + CredentialBinding" where
  "revalidate L binding =
     CredentialBinding_new (sl_url L) (cb_relay_origin binding) (cb_profile binding)
       (cb_squad_id binding) (cb_member_id binding)"

definition store_with_fault ::
  "store_lib \<Rightarrow> CredentialStore \<Rightarrow> os \<Rightarrow> CredentialBinding \<Rightarrow> ClientCredential \<Rightarrow> CredentialFault \<Rightarrow> unit dir_op" where
  "store_with_fault L self os binding credential fault =
     io_bind (io_return (revalidate L binding)) (\<lambda>_.
     io_bind (reject_substitution os (cs_name self)) (\<lambda>_.
     io_bind (io_return (ok_or invalid (sl_to_str L (hv_text (cc_value credential))))) (\<lambda>authorization.
     io_bind (io_return (ok_or invalid (sl_to_vec L (credential_record binding credential authorization)))) (\<lambda>bytes.
     store_bytes_unix self fault os bytes))))"

definition store :: "store_lib \<Rightarrow> CredentialStore \<Rightarrow> os \<Rightarrow> CredentialBinding \<Rightarrow> ClientCredential \<Rightarrow> unit dir_op" where
  "store L self os binding credential = store_with_fault L self os binding credential NoFault"

definition binding_mismatch :: io_error where
  "binding_mismatch = IoError PermissionDenied ''credential binding mismatch''"

text \<open>What \<open>load\<close> makes of the bytes it read.\<close>

definition decode_record :: "store_lib \<Rightarrow> CredentialBinding \<Rightarrow> string \<Rightarrow> io_error + ClientCredential" where
  "decode_record L expected bytes =
     rbind (ok_or invalid (sl_from_slice L bytes)) (\<lambda>record.
     rbind (CredentialBinding_new (sl_url L) (cr_relay_origin record) (cr_profile record)
       (cr_squad_id record) (cr_member_id record)) (\<lambda>record_binding.
     rbind (ensure (\<not> (cr_version record \<noteq> CREDENTIAL_VERSION
         \<or> record_binding \<noteq> expected
         \<or> \<not> is_ok (InstanceId_new (cr_instance_id record)))) binding_mismatch) (\<lambda>_.
     rbind (ok_or invalid (hl_from_str (sl_headers L) (cr_authorization record))) (\<lambda>value.
     rbind (ok_or invalid (sl_to_str L value)) (\<lambda>shown.
     rbind (ok_or invalid (strip_prefix ''Bearer '' shown)) (\<lambda>raw.
     rbind (ok_or invalid (hl_from_str (sl_headers L) raw)) (\<lambda>issued.
     rbind (map_err (\<lambda>_. invalid) (Credential_from_response (sl_headers L) (sl_to_str L issued))) (\<lambda>credential.
     rbind (ensure (cc_instance_id credential = cr_instance_id record) invalid) (\<lambda>_.
     Inr credential)))))))))"

definition load :: "store_lib \<Rightarrow> CredentialStore \<Rightarrow> os \<Rightarrow> CredentialBinding \<Rightarrow> ClientCredential dir_op" where
  "load L self os expected =
     io_bind (io_return (revalidate L expected)) (\<lambda>_.
     io_bind (io_return (ok_or invalid (cs_name self))) (\<lambda>name.
     io_bind (open_read os name) (\<lambda>file.
     io_bind (verify_restricted_handle os file) (\<lambda>_.
     io_bind (io_guard (\<not> (node_length file = 0 \<or> node_length file > MAX_CREDENTIAL_BYTES)) invalid) (\<lambda>_.
     io_bind (read_bytes os (MAX_CREDENTIAL_BYTES + 1) file) (\<lambda>bytes.
     io_bind (io_guard (\<not> length bytes > MAX_CREDENTIAL_BYTES) invalid) (\<lambda>_.
     io_return (decode_record L expected bytes))))))))"

definition recover_temps :: "CredentialStore \<Rightarrow> os \<Rightarrow> unit dir_op" where
  "recover_temps self os =
     io_bind (io_return (temp_prefix self)) (\<lambda>temp d.
       case unlinkat os temp d of
         (Inl (IoOs NOENT), d') \<Rightarrow> (Inr (), d')
       | (Inl e, d') \<Rightarrow> (Inl e, d')
       | (Inr _, d') \<Rightarrow> (Inr (), d'))"

definition exists_credential :: "CredentialStore \<Rightarrow> directory \<Rightarrow> bool" where
  "exists_credential self d =
     (case cs_name self of None \<Rightarrow> False
      | Some name \<Rightarrow> (case dir_live d name of Some (Regular _ _ _) \<Rightarrow> True | _ \<Rightarrow> False))"

definition clear :: "CredentialStore \<Rightarrow> os \<Rightarrow> unit dir_op" where
  "clear self os =
     io_bind (io_return (ok_or invalid (cs_name self))) (\<lambda>name d.
       case unlinkat os name d of
         (Inr _, d') \<Rightarrow> sync_dir os d'
       | (Inl (IoOs NOENT), d') \<Rightarrow> (Inr (), d')
       | (Inl e, d') \<Rightarrow> (Inl e, d'))"

section \<open>Opening\<close>

text \<open>What the system says of the parent directory of a path.\<close>

record parent_dir =
  pd_present :: bool
  pd_create :: "io_error + unit"
  pd_link :: "io_error + bool"
  pd_open :: "io_error + unit"
  pd_uid :: nat
  pd_mode :: nat
  pd_euid :: nat

text \<open>Neither the group nor others may write: \<open>mode & 0o022 == 0\<close>.\<close>

definition verify_owned_directory :: "parent_dir \<Rightarrow> io_error + unit" where
  "verify_owned_directory p =
     ensure (pd_uid p = pd_euid p \<and> (pd_mode p div 2) mod 2 = 0 \<and> (pd_mode p div 16) mod 2 = 0)
       (IoError PermissionDenied ''credential directory permissions are unsafe'')"

definition open_store :: "parent_dir \<Rightarrow> os \<Rightarrow> string option \<Rightarrow> CredentialStore dir_op" where
  "open_store p os name =
     io_bind (io_guard (pd_present p) invalid) (\<lambda>_.
     io_bind (io_return (pd_create p)) (\<lambda>_.
     io_bind (io_return (rbind (pd_link p) (\<lambda>link.
       ensure (\<not> link) (IoError PermissionDenied ''link substitution rejected'')))) (\<lambda>_.
     io_bind (io_return (pd_open p)) (\<lambda>_.
     io_bind (io_return (verify_owned_directory p)) (\<lambda>_.
     let self = \<lparr>cs_name = name\<rparr> in
     io_bind (recover_temps self os) (\<lambda>_.
     io_return (Inr self)))))))"

section \<open>Atomic replacement\<close>

lemma temp_prefix_named: "temp_prefix \<lparr>cs_name = Some name\<rparr> = Inr (''.'' @ name @ ''.credential-tmp-'')"
  by (simp add: temp_prefix_def)

lemma temp_is_other: "''.'' @ name @ ''.credential-tmp-'' \<noteq> name"
  by (rule notI) (drule arg_cong [of _ _ length], simp)

lemma verify_handle_reads: "snd (io_bind (handle temp) (verify_restricted_handle os) d) = d"
  by (simp add: io_bind_def handle_def verify_restricted_handle_def call_def split: prod.splits sum.splits option.splits)

interpretation credential_file: atomic_replacement name "store_bytes_unix \<lparr>cs_name = Some name\<rparr>" for name
proof
  fix A :: "node option \<Rightarrow> bool" and bytes :: string and os :: os and fault
  assume A: "A (Some (Regular bytes True (os_mode os)))"
  let ?temp = "''.'' @ name @ ''.credential-tmp-''"
  note other = temp_is_other [of name]
  have staged: "triple (staged name A ?temp n) m (staged name A ?temp n) (entry_in name A)"
    if "\<And>d. snd (m d) = d" for n and m :: "unit dir_op"
    by (rule triple_reads) (auto simp: staged_entry that)
  have guard: "triple (staged name A ?temp n) (io_guard b e) (staged name A ?temp n) (entry_in name A)" for n b e
    by (rule staged) simp
  have checked: "triple (staged name A ?temp n) (io_bind (handle ?temp) (verify_restricted_handle os))
      (staged name A ?temp n) (entry_in name A)" for n
    by (rule staged) (rule verify_handle_reads)
  have written: "triple (staged name A ?temp (Regular [] False (os_mode os))) (write_all os ?temp bytes)
      (staged name A ?temp (Regular bytes False (os_mode os))) (entry_in name A)"
    using triple_write [OF other, of A "[]" False] by simp
  show "triple (entry_in name A) (store_bytes_unix \<lparr>cs_name = Some name\<rparr> fault os bytes)
      (durable name (Regular bytes True (os_mode os))) (entry_in name A)"
    unfolding store_bytes_unix_def temp_prefix_named CredentialStore.simps ok_or_simps io_bind_return
    by (rule triple_bind [OF triple_spares [OF spares_basic(3) [OF spares_unlinkat [OF other]]]],
        rule triple_bind [OF triple_guard], assumption,
        rule triple_bind [OF triple_create [OF other]],
        rule triple_bind [OF checked], rule triple_bind [OF written], rule triple_bind [OF guard],
        rule triple_bind [OF triple_sync_file [OF other]], rule triple_bind [OF guard],
        rule triple_bind [OF checked], rule triple_bind [OF guard],
        rule triple_bind [where Q = "installed name A (Regular bytes True (os_mode os))", OF triple_rename],
        rule A, rule triple_sync_dir)
qed

text \<open>A file whose permissions are wrong is never put in place.\<close>

lemma wrong_mode_spares_target:
  assumes "os_mode os mod 512 \<noteq> 384"
  shows "triple (entry_in name A) (store_bytes_unix \<lparr>cs_name = Some name\<rparr> fault os bytes) (\<lambda>_. False) (entry_in name A)"
proof -
  let ?temp = "''.'' @ name @ ''.credential-tmp-''"
  note other = temp_is_other [of name]
  have checked: "triple (staged name A ?temp (Regular [] False (os_mode os)))
      (io_bind (handle ?temp) (verify_restricted_handle os)) (\<lambda>_. False) (entry_in name A)"
    using assms by (auto simp: triple_def staged_def io_bind_def handle_def verify_restricted_handle_def call_def
        split: option.splits)
  have stopped: "triple (\<lambda>_. False) m (\<lambda>_. False) (entry_in name A)" for m :: "unit dir_op"
    by (simp add: triple_def)
  show ?thesis
    unfolding store_bytes_unix_def temp_prefix_named CredentialStore.simps ok_or_simps io_bind_return
    by (rule triple_bind [OF triple_spares [OF spares_basic(3) [OF spares_unlinkat [OF other]]]],
        rule triple_bind [OF triple_guard], assumption,
        rule triple_bind [OF triple_create [OF other]], rule triple_bind [OF checked], rule stopped)
qed

lemma installed_mode:
  assumes "store_bytes_unix \<lparr>cs_name = Some name\<rparr> fault os bytes d = (r, d')"
    and "entry_in name (\<lambda>n. n = old) d" and "old = None \<or> (\<exists>c m. old = Some (Regular c True m))"
    and "d'' = d' \<or> crash d' d''" and "dir_live d'' name \<noteq> old"
  shows "dir_live d'' name = Some (Regular bytes True (os_mode os))" and "os_mode os mod 512 = 384"
proof -
  have live: "dir_live d'' name = old \<or> dir_live d'' name = Some (Regular bytes True (os_mode os))"
    using assms(4) credential_file.crash_old_or_new [OF assms(2,3,1)]
      entry_in_live [OF credential_file.old_or_new [OF assms(2,1)]] by blast
  with assms(5) show "dir_live d'' name = Some (Regular bytes True (os_mode os))" by blast
  show "os_mode os mod 512 = 384"
  proof (rule ccontr)
    assume wrong: "os_mode os mod 512 \<noteq> 384"
    note kept = wrong_mode_spares_target [OF wrong, of name "\<lambda>n. n = old" fault bytes]
    have old: "entry_in name (\<lambda>n. n = old) d'"
      using tripleD [OF kept assms(2)] tripleE [OF kept assms(2)] assms(1) by (cases r) auto
    with assms(4,5) crash_settled [OF old assms(3)] entry_in_live [OF old] show False by blast
  qed
qed

section \<open>What the libraries promise\<close>

definition origin_only :: "OriginUrl \<Rightarrow> bool" where
  "origin_only u \<longleftrightarrow> ur_scheme u \<in> {''http'', ''https''} \<and> ur_host u \<noteq> None \<and> ur_username u = []
     \<and> ur_password u = None \<and> ur_query u = None \<and> ur_fragment u = None \<and> ur_path u = ''/''"

text \<open>The text of an origin, with or without its port and without the final slash, parses back to it.\<close>

definition url_round_trip :: "url_lib \<Rightarrow> bool" where
  "url_round_trip U \<longleftrightarrow> (\<forall>raw u port. ul_parse U raw = Some u \<longrightarrow> origin_only u \<longrightarrow> port = ou_port u \<or> port = None \<longrightarrow>
     ul_parse U (trim_end_matches (CHR ''/'') (ul_print U (u\<lparr>ou_port := port, ur_path := ''''\<rparr>)))
       = Some (u\<lparr>ou_port := port\<rparr>))"

definition visible :: "char \<Rightarrow> bool" where
  "visible c \<longleftrightarrow> 32 \<le> byte_of c \<and> byte_of c < 127"

definition header_laws :: "store_lib \<Rightarrow> bool" where
  "header_laws L \<longleftrightarrow> (\<forall>s v. hl_from_str (sl_headers L) s = Some v \<longrightarrow> v = s)
     \<and> (\<forall>s. list_all visible s \<longrightarrow> hl_from_str (sl_headers L) s = Some s \<and> sl_to_str L s = Some s)"

definition record_codec :: "store_lib \<Rightarrow> bool" where
  "record_codec L \<longleftrightarrow> (\<forall>r b. sl_to_vec L r = Some b \<longrightarrow> sl_from_slice L b = Some r)"

definition store_laws :: "store_lib \<Rightarrow> bool" where
  "store_laws L \<longleftrightarrow> url_round_trip (sl_url L) \<and> header_laws L \<and> record_codec L
     \<and> base64_alphabet (hl_dec (sl_headers L))"

lemma canonical_origin_stable:
  assumes "url_round_trip U" and "canonical_origin U raw = Inr origin"
  shows "canonical_origin U origin = Inr origin"
proof -
  from assms(2) obtain u where u: "ul_parse U raw = Some u" and parts: "origin_only u"
    by (auto simp: canonical_origin_def result_simps origin_only_def)
  define default :: nat where "default = (if ur_scheme u = ''http'' then 80 else 443)"
  define port where "port = (if ou_port u = Some default then None else ou_port u)"
  have origin: "origin = trim_end_matches (CHR ''/'') (ul_print U (u\<lparr>ou_port := port, ur_path := ''''\<rparr>))"
    using assms(2) u by (auto simp: canonical_origin_def result_simps Let_def port_def default_def split: if_splits)
  have again: "ul_parse U origin = Some (u\<lparr>ou_port := port\<rparr>)"
    unfolding origin using assms(1) u parts by (auto simp: url_round_trip_def port_def)
  have "port \<noteq> Some default" by (auto simp: port_def)
  then have "canonical_origin U origin
      = Inr (trim_end_matches (CHR ''/'') (ul_print U (u\<lparr>ou_port := port, ur_path := ''''\<rparr>)))"
    using parts by (auto simp: canonical_origin_def again origin_only_def Let_def default_def)
  then show ?thesis by (simp add: origin)
qed

lemma revalidate_new:
  assumes "url_round_trip (sl_url L)" and "CredentialBinding_new (sl_url L) relay_origin profile squad member = Inr b"
  shows "revalidate L b = Inr b"
  using assms(2) canonical_origin_stable [OF assms(1)]
  by (auto simp: CredentialBinding_new_def revalidate_def result_simps)

section \<open>Loading what was stored\<close>

lemma credential_is_visible:
  assumes "base64_alphabet dec" and "parse_session_value dec enc raw = Inr c"
  shows "list_all visible raw"
proof -
  note wf = parse_session_value_canonical [OF assms(2)]
  from wf(2) obtain s where "sc_instance_id c = ''ins'' @ ''_'' @ s" "list_all id_char s"
    by (auto simp: SessionCredential_wf_def is_ok_iff InstanceId_new_def opaque_id_new_Inr)
  then have "list_all visible (sc_instance_id c)"
    by (auto simp: list_all_iff id_char_def visible_def eval_simps)
  moreover have "list_all url_safe_char (sc_resume_token c)"
    using wf(2) assms(1) by (auto simp: SessionCredential_wf_def ResumeToken_from_encoded_Inr base64_alphabet_def)
  then have "list_all visible (sc_resume_token c)"
    by (rule list.pred_mono_strong) (auto simp: url_safe_char_def visible_def is_ascii_alphanumeric_def
      is_ascii_lowercase_def is_ascii_uppercase_def is_ascii_digit_def)
  moreover have "raw = sc_instance_id c @ ''.'' @ sc_resume_token c" using wf(1) by (simp add: encoded_def)
  ultimately show ?thesis by (simp add: visible_def)
qed

text \<open>A credential in memory came from the relay's header and prints as it did there.\<close>

lemma issued_credential:
  assumes "store_laws L" and "Credential_from_response (sl_headers L) (Some raw) = Inr c"
  shows "hv_text (cc_value c) = ''Bearer '' @ raw" and "list_all visible (''Bearer '' @ raw)"
    and "is_ok (InstanceId_new (cc_instance_id c))"
proof -
  from assms(2) obtain p where p: "parse_session_value (hl_dec (sl_headers L)) (hl_enc (sl_headers L)) raw = Inr p"
    and from_str: "hl_from_str (sl_headers L) (''Bearer '' @ raw) = Some (hv_text (cc_value c))"
    and "cc_instance_id c = sc_instance_id p"
    by (auto simp: Credential_from_response_def result_simps)
  then show "is_ok (InstanceId_new (cc_instance_id c))"
    using parse_session_value_canonical(2) [OF p] by (simp add: SessionCredential_wf_def)
  show "hv_text (cc_value c) = ''Bearer '' @ raw"
    using from_str assms(1) by (auto simp: store_laws_def header_laws_def)
  have "list_all visible raw" using assms(1) p by (auto simp: store_laws_def intro: credential_is_visible)
  then show "list_all visible (''Bearer '' @ raw)" by (simp add: visible_def)
qed

lemma decode_stored_record:
  assumes laws: "store_laws L" and binding: "CredentialBinding_new (sl_url L) relay_origin profile squad member = Inr b"
    and issued: "Credential_from_response (sl_headers L) (Some raw) = Inr c"
    and encoded: "sl_to_vec L (credential_record b c (''Bearer '' @ raw)) = Some bytes"
  shows "decode_record L expected bytes = (if expected = b then Inr c else Inl binding_mismatch)"
proof -
  note cred = issued_credential [OF laws issued]
  have read: "sl_from_slice L bytes = Some (credential_record b c (''Bearer '' @ raw))"
    using laws encoded by (simp add: store_laws_def record_codec_def)
  have same: "CredentialBinding_new (sl_url L) (cb_relay_origin b) (cb_profile b) (cb_squad_id b) (cb_member_id b) = Inr b"
    using revalidate_new [OF _ binding] laws by (simp add: store_laws_def revalidate_def)
  have raw: "list_all visible raw" using cred(2) by simp
  have header: "hl_from_str (sl_headers L) (''Bearer '' @ raw) = Some (''Bearer '' @ raw)"
      "sl_to_str L (''Bearer '' @ raw) = Some (''Bearer '' @ raw)"
      "hl_from_str (sl_headers L) raw = Some raw" "sl_to_str L raw = Some raw"
    using laws cred(2) raw by (auto simp: store_laws_def header_laws_def)
  have strip: "strip_prefix ''Bearer '' (''Bearer '' @ raw) = Some raw" by (rule strip_prefix_append)
  show ?thesis
    using cred(3) issued same header strip
    by (auto simp: decode_record_def read credential_record_def)
qed

lemma load_reads: "snd (load L \<lparr>cs_name = Some name\<rparr> os expected d) = d"
  by (auto simp: load_def io_bind_def open_read_def read_bytes_def verify_restricted_handle_def call_def
      split: option.splits node.splits sum.splits)

lemma load_only_target:
  "dir_live d name = dir_live d' name \<Longrightarrow>
     fst (load L \<lparr>cs_name = Some name\<rparr> os expected d) = fst (load L \<lparr>cs_name = Some name\<rparr> os expected d')"
  by (auto simp: load_def io_bind_def open_read_def read_bytes_def verify_restricted_handle_def call_def
      split: option.splits node.splits sum.splits)

lemma load_stored_record:
  assumes laws: "store_laws L" and binding: "CredentialBinding_new (sl_url L) relay_origin profile squad member = Inr b"
    and issued: "Credential_from_response (sl_headers L) (Some raw) = Inr c"
    and encoded: "sl_to_vec L (credential_record b c (''Bearer '' @ raw)) = Some bytes"
    and size: "0 < length bytes" "length bytes \<le> MAX_CREDENTIAL_BYTES"
    and entry: "dir_live d name = Some (Regular bytes True m)" and mode: "m mod 512 = 384"
    and works: "os_fail os = (\<lambda>_. None)"
  shows "fst (load L \<lparr>cs_name = Some name\<rparr> os expected d) = Inr x \<longleftrightarrow> expected = b \<and> x = c"
proof -
  have same: "revalidate L b = Inr b" using revalidate_new [OF _ binding] laws by (simp add: store_laws_def)
  have "fst (load L \<lparr>cs_name = Some name\<rparr> os expected d) =
      rbind (revalidate L expected) (\<lambda>_. decode_record L expected bytes)"
    using size mode works
    by (cases "revalidate L expected")
      (simp_all add: load_def io_bind_def open_read_def read_bytes_def verify_restricted_handle_def call_def entry)
  then show ?thesis
    using same by (auto simp: result_simps decode_stored_record [OF laws binding issued encoded])
qed

text \<open>Storing is the replacement of the file by the encoded record, or fails before it.\<close>

lemma store_with_fault_cases:
  assumes laws: "store_laws L" and issued: "Credential_from_response (sl_headers L) (Some raw) = Inr c"
    and run: "store_with_fault L \<lparr>cs_name = Some name\<rparr> os b c fault d = (r, d')"
  obtains bytes where "sl_to_vec L (credential_record b c (''Bearer '' @ raw)) = Some bytes"
      "store_bytes_unix \<lparr>cs_name = Some name\<rparr> fault os bytes d = (r, d')"
    | e where "r = Inl e" "d' = d"
proof -
  note cred = issued_credential [OF laws issued]
  have shown: "sl_to_str L (hv_text (cc_value c)) = Some (''Bearer '' @ raw)"
    using laws cred(2) unfolding cred(1) by (simp add: store_laws_def header_laws_def)
  let ?encoded = "sl_to_vec L (credential_record b c (''Bearer '' @ raw))"
  obtain r' where lstat: "reject_substitution os (Some name) d = (r', d)"
    by (cases "dir_live d name"; cases "os_fail os Lstat") (auto simp: reject_substitution_def lstat_not_link_def call_def)
  show thesis
  proof (cases "revalidate L b")
    case (Inl e)
    then have "r = Inl e \<and> d' = d" using run by (simp add: store_with_fault_def)
    then show thesis using that(2) by blast
  next
    case (Inr b')
    then have rest: "store_with_fault L \<lparr>cs_name = Some name\<rparr> os b c fault d = (case r' of Inl e \<Rightarrow> (Inl e, d)
        | Inr _ \<Rightarrow> (case ?encoded of None \<Rightarrow> (Inl invalid, d)
            | Some bytes \<Rightarrow> store_bytes_unix \<lparr>cs_name = Some name\<rparr> fault os bytes d))"
      by (cases r'; cases ?encoded) (simp_all add: store_with_fault_def io_bind_def lstat shown)
    then show thesis using that run by (cases r'; cases ?encoded) auto
  qed
qed

lemma open_store_recovers:
  assumes "open_store p os (Some name) d = (Inr self, d')"
  shows "self = \<lparr>cs_name = Some name\<rparr>" and "dir_live d' name = dir_live d name"
    and "os_fail os = (\<lambda>_. None) \<Longrightarrow> dir_live d' (''.'' @ name @ ''.credential-tmp-'') = None"
proof -
  let ?temp = "''.'' @ name @ ''.credential-tmp-''"
  have self: "self = \<lparr>cs_name = Some name\<rparr>" and recovered: "recover_temps \<lparr>cs_name = Some name\<rparr> os d = (Inr (), d')"
    using assms by (auto simp: open_store_def result_simps Let_def)
  show "self = \<lparr>cs_name = Some name\<rparr>" by (rule self)
  obtain r where unlink: "unlinkat os ?temp d = (r, d')" and r: "r = Inr () \<or> r = Inl (IoOs NOENT)"
    using recovered
    by (auto simp: recover_temps_def temp_prefix_named split: prod.splits sum.splits io_error.splits errno.splits)
  show "dir_live d' name = dir_live d name" by (rule sparesD(2) [OF spares_unlinkat [OF temp_is_other] unlink])
  show "dir_live d' ?temp = None" if "os_fail os = (\<lambda>_. None)"
    using unlink r that
    by (auto simp: unlinkat_def call_def relink_def split: option.splits node.splits)
qed

section \<open>Properties\<close>

definition fits :: "store_lib \<Rightarrow> CredentialRecord \<Rightarrow> bool" where
  "fits L record = (case sl_to_vec L record of None \<Rightarrow> True
     | Some bytes \<Rightarrow> 0 < length bytes \<and> length bytes \<le> MAX_CREDENTIAL_BYTES)"

text \<open>
  (C34) What is stored is what is loaded. After a store that succeeded, also when the machine crashed
  right after it, loading under the binding the credential was stored with returns exactly that
  credential, and loading under any other binding fails, provided the record is within the size that
  loading accepts.
\<close>

theorem stored_credential_loads:
  assumes laws: "store_laws L" and binding: "CredentialBinding_new (sl_url L) relay_origin profile squad member = Inr b"
    and issued: "Credential_from_response (sl_headers L) (Some raw) = Inr c"
    and fits: "fits L (credential_record b c (''Bearer '' @ raw))"
    and run: "store L \<lparr>cs_name = Some name\<rparr> os b c d = (Inr (), d')"
    and after: "d'' = d' \<or> crash d' d''" and works: "os_fail os' = (\<lambda>_. None)"
  shows "fst (load L \<lparr>cs_name = Some name\<rparr> os' b d'') = Inr c
    \<and> (\<forall>other. other \<noteq> b \<longrightarrow> (\<exists>e. fst (load L \<lparr>cs_name = Some name\<rparr> os' other d'') = Inl e))"
proof -
  from store_with_fault_cases [OF laws issued run [unfolded store_def]]
  obtain bytes where encoded: "sl_to_vec L (credential_record b c (''Bearer '' @ raw)) = Some bytes"
    and stored: "store_bytes_unix \<lparr>cs_name = Some name\<rparr> NoFault os bytes d = (Inr (), d')"
    by blast
  have mode: "os_mode os mod 512 = 384"
    using tripleD [OF wrong_mode_spares_target [of os name "\<lambda>_. True"] _ stored] by (auto simp: entry_in_def)
  have entry: "dir_live d'' name = Some (Regular bytes True (os_mode os))"
    using after credential_file.success(1) [OF stored] credential_file.crash_after_success [OF stored] by blast
  have size: "0 < length bytes" "length bytes \<le> MAX_CREDENTIAL_BYTES" using fits encoded by (simp_all add: fits_def)
  note loaded = load_stored_record [OF laws binding issued encoded size entry mode works]
  show ?thesis
    by (metis loaded sum.exhaust)
qed

text \<open>
  (C8) A stored credential is replaced atomically. Whatever fault or system error interrupts a store,
  and if the machine crashes then, afterwards every binding loads exactly what it loaded before, or
  the new credential is complete: it is loaded under its own binding and nothing is under any other.
  When the store reported success it is the latter. Opening the store again removes the temporary file
  and changes nothing that is loaded.
\<close>

theorem credential_replacement_is_atomic:
  assumes laws: "store_laws L" and binding: "CredentialBinding_new (sl_url L) relay_origin profile squad member = Inr b"
    and issued: "Credential_from_response (sl_headers L) (Some raw) = Inr c"
    and fits: "fits L (credential_record b c (''Bearer '' @ raw))"
    and settled: "entry_in name (\<lambda>n. n = old) d" and old: "old = None \<or> (\<exists>bytes m. old = Some (Regular bytes True m))"
    and run: "store_with_fault L \<lparr>cs_name = Some name\<rparr> os b c fault d = (r, d')"
    and after: "d'' = d' \<or> crash d' d''" and works: "os_fail os' = (\<lambda>_. None)"
    and reopened: "open_store p os' (Some name) d'' = (Inr self, d3)"
  shows "((\<forall>expected. fst (load L self os' expected d3) = fst (load L \<lparr>cs_name = Some name\<rparr> os' expected d)) \<and> r \<noteq> Inr ()
      \<or> (\<forall>expected x. fst (load L self os' expected d3) = Inr x \<longleftrightarrow> expected = b \<and> x = c))
    \<and> dir_live d3 (''.'' @ name @ ''.credential-tmp-'') = None"
proof -
  note again = open_store_recovers [OF reopened]
  let ?load = "\<lambda>d expected. fst (load L \<lparr>cs_name = Some name\<rparr> os' expected d)"
  have kept: "\<forall>expected. ?load d3 expected = ?load d expected" if "dir_live d'' name = old"
    using that again(2) entry_in_live [OF settled] by (auto intro!: load_only_target)
  have "(\<forall>expected. ?load d3 expected = ?load d expected) \<and> r \<noteq> Inr ()
      \<or> (\<forall>expected x. ?load d3 expected = Inr x \<longleftrightarrow> expected = b \<and> x = c)"
  proof (cases rule: store_with_fault_cases [OF laws issued run])
    case (1 bytes)
    show ?thesis
    proof (cases "dir_live d'' name = old \<and> r \<noteq> Inr ()")
      case True
      then show ?thesis using kept by blast
    next
      case False
      have entry: "dir_live d3 name = Some (Regular bytes True (os_mode os)) \<and> os_mode os mod 512 = 384"
      proof (cases "dir_live d'' name = old")
        case True
        with False have stored: "store_bytes_unix \<lparr>cs_name = Some name\<rparr> fault os bytes d = (Inr (), d')" using 1(2) by simp
        have "dir_live d'' name = Some (Regular bytes True (os_mode os))"
          using after credential_file.success(1) [OF stored] credential_file.crash_after_success [OF stored] by blast
        moreover have "os_mode os mod 512 = 384"
          using tripleD [OF wrong_mode_spares_target [of os name "\<lambda>_. True"] _ stored] by (auto simp: entry_in_def)
        ultimately show ?thesis using again(2) by simp
      qed (use installed_mode [OF 1(2) settled old after] again(2) in simp)
      have size: "0 < length bytes" "length bytes \<le> MAX_CREDENTIAL_BYTES" using fits 1(1) by (simp_all add: fits_def)
      show ?thesis
        using load_stored_record [OF laws binding issued 1(1) size _ _ works, of d3 name] entry by blast
    qed
  next
    case (2 e)
    have "entry_in name (\<lambda>n. n = old) d'" using 2 settled by simp
    then have "dir_live d'' name = old"
      using after crash_settled [OF _ old] entry_in_live by blast
    with kept 2 show ?thesis by blast
  qed
  with again(1) again(3) [OF works] show ?thesis by simp
qed

section \<open>A concrete library and directory\<close>

definition sample_origin_url :: "nat option \<Rightarrow> OriginUrl" where
  "sample_origin_url port = \<lparr>ur_scheme = ''http'', ur_host = Some ''127.0.0.1'', ur_username = '''', ur_password = None,
     ur_query = None, ur_fragment = None, ur_path = ''/'', ou_port = port\<rparr>"

definition sample_url_lib :: url_lib where
  "sample_url_lib =
     \<lparr>ul_parse = (\<lambda>raw. if raw = ''http://127.0.0.1:7341'' then Some (sample_origin_url (Some 7341))
        else if raw = ''http://127.0.0.1'' then Some (sample_origin_url None) else None),
      ul_print = (\<lambda>u. if ou_port u = None then ''http://127.0.0.1/'' else ''http://127.0.0.1:7341/'')\<rparr>"

definition sample_raw :: string where "sample_raw = ''ins_1.'' @ sample_token"

definition sample_credential :: ClientCredential where
  "sample_credential = \<lparr>cc_value = \<lparr>hv_text = ''Bearer '' @ sample_raw, hv_sensitive = True\<rparr>, cc_instance_id = ''ins_1''\<rparr>"

definition sample_binding :: CredentialBinding where
  "sample_binding = \<lparr>cb_relay_origin = ''http://127.0.0.1:7341'', cb_profile = ''default'', cb_squad_id = ''sqd_1'',
     cb_member_id = ''mem_1''\<rparr>"

definition sample_store_record :: CredentialRecord where
  "sample_store_record = credential_record sample_binding sample_credential (''Bearer '' @ sample_raw)"

definition sample_store_lib :: store_lib where
  "sample_store_lib = \<lparr>sl_url = sample_url_lib,
     sl_headers = \<lparr>hl_from_str = Some, hl_dec = sample_dec, hl_enc = sample_enc\<rparr>, sl_to_str = Some,
     sl_to_vec = (\<lambda>r. if r = sample_store_record then Some ''{}'' else None),
     sl_from_slice = (\<lambda>b. if b = ''{}'' then Some sample_store_record else None)\<rparr>"

definition sample_os :: os where
  "sample_os = \<lparr>os_fail = (\<lambda>_. None), os_partial = (\<lambda>b. b), os_mode = 384, os_link_leads = False\<rparr>"

definition sample_parent :: parent_dir where
  "sample_parent = \<lparr>pd_present = True, pd_create = Inr (), pd_link = Inr False, pd_open = Inr (), pd_uid = 1000,
     pd_mode = 448, pd_euid = 1000\<rparr>"

definition empty_directory :: directory where
  "empty_directory = \<lparr>dir_live = (\<lambda>_. None), dir_past = []\<rparr>"

lemma sample_url_round_trip: "url_round_trip sample_url_lib"
  by (auto simp: url_round_trip_def sample_url_lib_def sample_origin_url_def trim_end_matches_def)

lemma sample_store_laws: "store_laws sample_store_lib"
  by (auto simp: store_laws_def sample_store_lib_def sample_url_round_trip sample_codec header_laws_def record_codec_def)

lemma sample_binding_new:
  "CredentialBinding_new sample_url_lib ''http://127.0.0.1:7341'' ''default'' ''sqd_1'' ''mem_1'' = Inr sample_binding"
  by (simp add: CredentialBinding_new_def canonical_origin_def sample_url_lib_def sample_origin_url_def trim_end_matches_def
      sample_binding_def profile_char_def eval_simps)

lemma sample_issued: "Credential_from_response (sl_headers sample_store_lib) (Some sample_raw) = Inr sample_credential"
proof -
  have "parse_session_value sample_dec sample_enc sample_raw = Inr \<lparr>sc_instance_id = ''ins_1'', sc_resume_token = sample_token\<rparr>"
    using parse_encoded [OF sample_codec(1), of sample_enc "\<lparr>sc_instance_id = ''ins_1'', sc_resume_token = sample_token\<rparr>"]
    by (simp add: encoded_def sample_raw_def SessionCredential_wf_def sample_codec(2)) (simp add: eval_simps)
  then show ?thesis by (simp add: Credential_from_response_def sample_store_lib_def sample_credential_def)
qed

lemma sample_fits: "fits sample_store_lib (credential_record sample_binding sample_credential (''Bearer '' @ sample_raw))"
  by (simp add: fits_def sample_store_lib_def sample_store_record_def MAX_CREDENTIAL_BYTES_def)

lemma sample_store_runs:
  "store_with_fault sample_store_lib \<lparr>cs_name = Some ''c''\<rparr> sample_os sample_binding sample_credential fault empty_directory
     = store_bytes_unix \<lparr>cs_name = Some ''c''\<rparr> fault sample_os ''{}'' empty_directory"
proof -
  have "revalidate sample_store_lib sample_binding = Inr sample_binding"
    by (rule revalidate_new [of _ "''http://127.0.0.1:7341''" "''default''" "''sqd_1''" "''mem_1''"])
      (simp_all add: sample_store_lib_def sample_url_round_trip sample_binding_new)
  then show ?thesis
    by (simp add: store_with_fault_def io_bind_def reject_substitution_def lstat_not_link_def empty_directory_def)
      (simp add: sample_store_lib_def sample_store_record_def sample_credential_def)
qed

lemmas file_defs = store_bytes_unix_def temp_prefix_named io_bind_def unlinkat_def create_excl_def write_all_def
  sync_file_def renameat_def sync_dir_def call_def handle_def verify_restricted_handle_def relink_def

theorem stored_credential_loads_witness:
  "fst (load sample_store_lib \<lparr>cs_name = Some ''c''\<rparr> sample_os sample_binding
     (snd (store sample_store_lib \<lparr>cs_name = Some ''c''\<rparr> sample_os sample_binding sample_credential empty_directory)))
     = Inr sample_credential"
proof -
  have run: "store sample_store_lib \<lparr>cs_name = Some ''c''\<rparr> sample_os sample_binding sample_credential empty_directory
      = (Inr (), snd (store sample_store_lib \<lparr>cs_name = Some ''c''\<rparr> sample_os sample_binding sample_credential empty_directory))"
    unfolding store_def sample_store_runs by (simp add: file_defs sample_os_def empty_directory_def)
  have binding: "CredentialBinding_new (sl_url sample_store_lib) ''http://127.0.0.1:7341'' ''default'' ''sqd_1'' ''mem_1''
      = Inr sample_binding" by (simp add: sample_store_lib_def sample_binding_new)
  show ?thesis
    using stored_credential_loads [OF sample_store_laws binding sample_issued sample_fits run disjI1 [OF refl], of sample_os]
    by (simp add: sample_os_def)
qed

theorem credential_replacement_is_atomic_witness:
  "\<exists>r d' d3. store_with_fault sample_store_lib \<lparr>cs_name = Some ''c''\<rparr> sample_os sample_binding sample_credential
       BeforeReplace empty_directory = (r, d')
     \<and> dir_live d' ''.c.credential-tmp-'' \<noteq> None
     \<and> dir_live d3 ''.c.credential-tmp-'' = None
     \<and> fst (load sample_store_lib \<lparr>cs_name = Some ''c''\<rparr> sample_os sample_binding d3) = Inl (IoOs NOENT)"
proof -
  define d' where "d' = snd (store_bytes_unix \<lparr>cs_name = Some ''c''\<rparr> BeforeReplace sample_os ''{}'' empty_directory)"
  have run: "store_with_fault sample_store_lib \<lparr>cs_name = Some ''c''\<rparr> sample_os sample_binding sample_credential
      BeforeReplace empty_directory = (Inl injected, d')"
    unfolding sample_store_runs d'_def by (simp add: file_defs sample_os_def empty_directory_def)
  have live: "dir_live d' = [''.c.credential-tmp-'' \<mapsto> Regular ''{}'' True 384]"
    unfolding d'_def by (simp add: file_defs sample_os_def empty_directory_def)
  define d3 where "d3 = relink ((dir_live d')(''.c.credential-tmp-'' := None)) d'"
  have reopened: "open_store sample_parent sample_os (Some ''c'') d' = (Inr \<lparr>cs_name = Some ''c''\<rparr>, d3)"
    by (simp add: open_store_def sample_parent_def verify_owned_directory_def recover_temps_def temp_prefix_named d3_def
        Let_def io_bind_def unlinkat_def call_def sample_os_def live)
  have binding: "CredentialBinding_new (sl_url sample_store_lib) ''http://127.0.0.1:7341'' ''default'' ''sqd_1'' ''mem_1''
      = Inr sample_binding" by (simp add: sample_store_lib_def sample_binding_new)
  have settled: "entry_in ''c'' (\<lambda>n. n = None) empty_directory" by (simp add: entry_in_def empty_directory_def)
  have gone: "dir_live d3 ''.c.credential-tmp-'' = None"
    using credential_replacement_is_atomic [OF sample_store_laws binding sample_issued sample_fits settled
        disjI1 [OF refl] run disjI1 [OF refl] _ reopened]
    by (simp add: sample_os_def)
  have "fst (load sample_store_lib \<lparr>cs_name = Some ''c''\<rparr> sample_os sample_binding d3) = Inl (IoOs NOENT)"
  proof -
    have "revalidate sample_store_lib sample_binding = Inr sample_binding"
      by (rule revalidate_new [OF _ binding]) (simp add: sample_store_lib_def sample_url_round_trip)
    then show ?thesis
      by (simp add: load_def io_bind_def open_read_def call_def sample_os_def d3_def relink_def live)
  qed
  with run gone live show ?thesis by auto
qed

end
