(* ===== verification/Session_Types.thy ===== *)
theory Session_Types
  imports Credential_Store
begin

text \<open>
  The vocabulary of a supervised session (\<open>psst-application/src/session.rs\<close>): its errors, its health
  and life cycle, and the copy of a client error that the result of a send is kept with.
\<close>

datatype SessionError =
    Local io_error
  | Relay Error
  | ShutdownTimedOut
  | NotReady
  | Unbound
  | RecoveryOutcomeUnknown
  | SendCapacity
  | OperationCapacity

datatype SessionHealth = Ready | Degraded | OutcomeUnknown | RotationFailed | Stopped

datatype LifecycleState = Starting | Ready | Leaving | Left | Recovering | RotationFailed | OutcomeUnknown

section \<open>Stored errors\<close>

datatype StoredClientError =
    InvalidBaseUrl
  | InvalidConfiguration
  | InvalidRequest
  | MalformedCredential
  | OutcomeUnknown
  | Timeout
  | Api nat ApiErrorCode bool
  | MalformedResponse nat
  | ResponseTooLarge
  | UnexpectedHttp nat
  | ClientBusy
  | RetryExhausted nat StoredClientError

fun capture :: "Error \<Rightarrow> StoredClientError" where
  "capture Error.InvalidBaseUrl = StoredClientError.InvalidBaseUrl"
| "capture Error.InvalidConfiguration = StoredClientError.InvalidConfiguration"
| "capture Error.InvalidRequest = StoredClientError.InvalidRequest"
| "capture Error.MalformedCredential = StoredClientError.MalformedCredential"
| "capture (Error.Transport _) = StoredClientError.OutcomeUnknown"
| "capture Error.OutcomeUnknown = StoredClientError.OutcomeUnknown"
| "capture Error.Timeout = StoredClientError.Timeout"
| "capture (Error.Api status code retryable) = StoredClientError.Api status code retryable"
| "capture (Error.MalformedResponse status) = StoredClientError.MalformedResponse status"
| "capture Error.ResponseTooLarge = StoredClientError.ResponseTooLarge"
| "capture (Error.UnexpectedHttp status) = StoredClientError.UnexpectedHttp status"
| "capture Error.ClientBusy = StoredClientError.ClientBusy"
| "capture (Error.RetryExhausted attempts e) = StoredClientError.RetryExhausted attempts (capture e)"

fun restore :: "StoredClientError \<Rightarrow> Error" where
  "restore StoredClientError.InvalidBaseUrl = Error.InvalidBaseUrl"
| "restore StoredClientError.InvalidConfiguration = Error.InvalidConfiguration"
| "restore StoredClientError.InvalidRequest = Error.InvalidRequest"
| "restore StoredClientError.MalformedCredential = Error.MalformedCredential"
| "restore StoredClientError.OutcomeUnknown = Error.OutcomeUnknown"
| "restore StoredClientError.Timeout = Error.Timeout"
| "restore (StoredClientError.Api status code retryable) = Error.Api status code retryable"
| "restore (StoredClientError.MalformedResponse status) = Error.MalformedResponse status"
| "restore StoredClientError.ResponseTooLarge = Error.ResponseTooLarge"
| "restore (StoredClientError.UnexpectedHttp status) = Error.UnexpectedHttp status"
| "restore StoredClientError.ClientBusy = Error.ClientBusy"
| "restore (StoredClientError.RetryExhausted attempts e) = Error.RetryExhausted attempts (restore e)"

lemma capture_restore [simp]: "capture (restore e) = e"
  by (induction e) simp_all


end
