(* ===== verification/Activation.thy ===== *)
theory Activation
  imports Session_Types
begin

text \<open>
  Waking an agent host when mail is pending (\<open>psst-application/src/activation.rs\<close>): the state machine,
  its policy and backoff, and the loops that observe the inbox and drive host turns. What the inbox,
  the host and the cancellation token do is given from outside; the retry counter keeps its eight bits.
\<close>

definition MAX_WAKE_PENDING_COUNT :: nat where "MAX_WAKE_PENDING_COUNT = 1000000"
definition MAX_WAKE_PROFILE_BYTES :: nat where "MAX_WAKE_PROFILE_BYTES = 64"
definition MAX_WAKE_SQUAD_BYTES :: nat where "MAX_WAKE_SQUAD_BYTES = 64"
definition MAX_WAKE_MESSAGE_ID_BYTES :: nat where "MAX_WAKE_MESSAGE_ID_BYTES = 128"
definition DEFAULT_RECONCILE_INTERVAL :: Duration where "DEFAULT_RECONCILE_INTERVAL = from_secs 60"
definition MIN_RECONCILE_INTERVAL :: Duration where "MIN_RECONCILE_INTERVAL = from_secs 5"
definition MAX_RECONCILE_INTERVAL :: Duration where "MAX_RECONCILE_INTERVAL = from_secs 60"
definition DEFAULT_BACKOFF_INITIAL :: Duration where "DEFAULT_BACKOFF_INITIAL = from_secs 1"
definition DEFAULT_BACKOFF_MAX :: Duration where "DEFAULT_BACKOFF_MAX = from_secs 60"
definition MAX_BACKOFF_DURATION :: Duration where "MAX_BACKOFF_DURATION = from_secs 300"
definition MAX_BACKOFF_ATTEMPTS :: "8 word" where "MAX_BACKOFF_ATTEMPTS = 8"

datatype ActivationPhase = Quiet | Pending | Waking | Running | Backoff | Blocked | Stopped

datatype HostFailure = RetryableBeforeStart | OutcomeUnknown | Permanent

datatype ObservationFailure = Retryable | Permanent

datatype ActivationContractError =
    EmptyProfile
  | InvalidProfile
  | EmptySquad
  | InvalidSquad
  | PendingCountOutOfRange
  | EmptyOldestMessageId
  | InvalidOldestMessageId
  | ReconcileIntervalOutOfRange
  | BackoffRangeInvalid
  | InvalidTransition

section \<open>Wake metadata and policy\<close>

record WakeMetadata =
  wm_profile :: string
  wm_squad :: string
  wm_pending_count :: nat
  wm_highest_priority :: MessagePriorityDto
  wm_oldest_message_id :: string

definition wake_char :: "char \<Rightarrow> bool" where
  "wake_char b \<longleftrightarrow> is_ascii_alphanumeric b \<or> b \<in> {CHR ''-'', CHR ''_'', CHR ''.''}"

definition validate_identifier ::
  "string \<Rightarrow> nat \<Rightarrow> ActivationContractError \<Rightarrow> ActivationContractError \<Rightarrow> ActivationContractError + unit" where
  "validate_identifier v maximum_bytes if_empty if_invalid =
     rbind (ensure (v \<noteq> []) if_empty) (\<lambda>_.
     ensure (\<not> (length v > maximum_bytes \<or> \<not> list_all wake_char v)) if_invalid)"

definition WakeMetadata_new ::
  "string \<Rightarrow> string \<Rightarrow> nat \<Rightarrow> MessagePriorityDto \<Rightarrow> string \<Rightarrow> ActivationContractError + WakeMetadata" where
  "WakeMetadata_new profile squad pending_count highest_priority oldest_message_id =
     rbind (validate_identifier profile MAX_WAKE_PROFILE_BYTES EmptyProfile InvalidProfile) (\<lambda>_.
     rbind (validate_identifier squad MAX_WAKE_SQUAD_BYTES EmptySquad InvalidSquad) (\<lambda>_.
     rbind (ensure (\<not> (pending_count = 0 \<or> pending_count > MAX_WAKE_PENDING_COUNT)) PendingCountOutOfRange) (\<lambda>_.
     rbind (validate_identifier oldest_message_id MAX_WAKE_MESSAGE_ID_BYTES EmptyOldestMessageId InvalidOldestMessageId) (\<lambda>_.
     Inr \<lparr>wm_profile = profile, wm_squad = squad, wm_pending_count = pending_count,
          wm_highest_priority = highest_priority, wm_oldest_message_id = oldest_message_id\<rparr>))))"

definition fixed_notice :: "WakeMetadata \<Rightarrow> string" where
  "fixed_notice self =
     ''Psst has durable pending mail. Use the configured Psst tools to inspect the inbox; retrieval does not acknowledge. profile=''
     @ wm_profile self @ '' squad='' @ wm_squad self @ '' pending_count='' @ decimal (wm_pending_count self)
     @ '' highest_priority='' @ (case wm_highest_priority self of
         MessagePriorityDto.Normal \<Rightarrow> ''normal'' | MessagePriorityDto.High \<Rightarrow> ''high'')
     @ '' oldest_message_id='' @ wm_oldest_message_id self"

record ActivationPolicy =
  ap_reconcile_interval :: Duration
  ap_initial_backoff :: Duration
  ap_maximum_backoff :: Duration
  ap_maximum_attempts :: "8 word"

definition validate_policy :: "ActivationPolicy \<Rightarrow> ActivationContractError + ActivationPolicy" where
  "validate_policy self =
     rbind (ensure (MIN_RECONCILE_INTERVAL \<le> ap_reconcile_interval self
       \<and> ap_reconcile_interval self \<le> MAX_RECONCILE_INTERVAL) ReconcileIntervalOutOfRange) (\<lambda>_.
     rbind (ensure (\<not> (ap_initial_backoff self = 0
       \<or> ap_initial_backoff self > ap_maximum_backoff self
       \<or> ap_maximum_backoff self > MAX_BACKOFF_DURATION
       \<or> ap_maximum_attempts self = 0
       \<or> ap_maximum_attempts self > MAX_BACKOFF_ATTEMPTS)) BackoffRangeInvalid) (\<lambda>_.
     Inr self))"

definition ActivationPolicy_default :: ActivationPolicy where
  "ActivationPolicy_default = \<lparr>ap_reconcile_interval = DEFAULT_RECONCILE_INTERVAL,
     ap_initial_backoff = DEFAULT_BACKOFF_INITIAL, ap_maximum_backoff = DEFAULT_BACKOFF_MAX,
     ap_maximum_attempts = MAX_BACKOFF_ATTEMPTS\<rparr>"

section \<open>Arithmetic\<close>

definition u8_saturating_add_1 :: "8 word \<Rightarrow> 8 word" where
  "u8_saturating_add_1 x = (if x = - 1 then - 1 else x + 1)"

definition u8_saturating_sub_1 :: "8 word \<Rightarrow> 8 word" where
  "u8_saturating_sub_1 x = (if x = 0 then 0 else x - 1)"

text \<open>\<open>2_u32.checked_pow(exponent).unwrap_or(u32::MAX)\<close>\<close>

definition two_pow_u32 :: "nat \<Rightarrow> nat" where
  "two_pow_u32 exponent = (if 2 ^ exponent \<le> (4294967295 :: nat) then 2 ^ exponent else 4294967295)"

definition duration_checked_mul :: "Duration \<Rightarrow> nat \<Rightarrow> Duration option" where
  "duration_checked_mul d n = (if d * n \<le> duration_max then Some (d * n) else None)"

definition retry_delay :: "ActivationPolicy \<Rightarrow> 8 word \<Rightarrow> Duration" where
  "retry_delay policy attempt =
     (let exponent = unat (u8_saturating_sub_1 attempt) in
      min (case duration_checked_mul (ap_initial_backoff policy) (two_pow_u32 exponent) of
             None \<Rightarrow> ap_maximum_backoff policy | Some d \<Rightarrow> d) (ap_maximum_backoff policy))"

definition duration_from_millis :: "nat \<Rightarrow> Duration" where
  "duration_from_millis ms = ms * 1000000"

text \<open>\<open>u64::try_from(delay.as_millis()).unwrap_or(u64::MAX)\<close>\<close>

definition ceiling_millis :: "Duration \<Rightarrow> nat" where
  "ceiling_millis delay = min (delay div 1000000) 18446744073709551615"

definition jitter_delay_from :: "Duration \<Rightarrow> nat \<Rightarrow> Duration" where
  "jitter_delay_from delay sample =
     (let ceiling = ceiling_millis delay in
      if ceiling < 2 then delay
      else let floor = ceiling div 2; width = ceiling - floor in
        duration_from_millis (floor + sample mod (width + 1)))"

definition jitter_delay :: "nat option \<Rightarrow> Duration \<Rightarrow> Duration" where
  "jitter_delay random delay =
     (if ceiling_millis delay < 2 then delay
      else case random of None \<Rightarrow> delay | Some sample \<Rightarrow> jitter_delay_from delay sample)"

section \<open>The machine\<close>

datatype ActivationCommand = NoCommand | Activate WakeMetadata | ReconcileNow | RetryAfter Duration

record ActivationMachine =
  am_policy :: ActivationPolicy
  am_phase :: ActivationPhase
  am_pending :: "WakeMetadata option"
  am_reconcile_needed :: bool
  am_retry_attempt :: "8 word"

record ActivationSnapshot =
  as_phase :: ActivationPhase
  as_pending :: "WakeMetadata option"
  as_reconcile_needed :: bool
  as_retry_attempt :: "8 word"

definition ActivationMachine_new :: "ActivationPolicy \<Rightarrow> ActivationContractError + ActivationMachine" where
  "ActivationMachine_new policy =
     rbind (validate_policy policy) (\<lambda>policy.
     Inr \<lparr>am_policy = policy, am_phase = Quiet, am_pending = None, am_reconcile_needed = False, am_retry_attempt = 0\<rparr>)"

definition snapshot :: "ActivationMachine \<Rightarrow> ActivationSnapshot" where
  "snapshot self = \<lparr>as_phase = am_phase self, as_pending = am_pending self,
     as_reconcile_needed = am_reconcile_needed self, as_retry_attempt = am_retry_attempt self\<rparr>"

definition observe :: "WakeMetadata option \<Rightarrow> ActivationMachine \<Rightarrow> ActivationCommand \<times> ActivationMachine" where
  "observe pending self =
     (if am_phase self \<in> {ActivationPhase.Stopped, Blocked} then (NoCommand, self)
      else case pending of
        None \<Rightarrow> (NoCommand, self)
      | Some pending \<Rightarrow>
          (case am_phase self of
             Quiet \<Rightarrow> (Activate pending, self\<lparr>am_phase := Pending, am_pending := Some pending\<rparr>)
           | Blocked \<Rightarrow> (NoCommand, self)
           | ActivationPhase.Stopped \<Rightarrow> (NoCommand, self)
           | _ \<Rightarrow> (NoCommand, self\<lparr>am_pending := Some pending, am_reconcile_needed := True\<rparr>)))"

definition wake_started :: "ActivationMachine \<Rightarrow> ActivationContractError + ActivationMachine" where
  "wake_started self =
     rbind (ensure (\<not> (am_phase self \<noteq> Pending \<or> am_pending self = None)) InvalidTransition) (\<lambda>_.
     Inr (self\<lparr>am_phase := Waking\<rparr>))"

definition wake_accepted :: "ActivationMachine \<Rightarrow> ActivationContractError + ActivationMachine" where
  "wake_accepted self =
     rbind (ensure (am_phase self = Waking) InvalidTransition) (\<lambda>_.
     Inr (self\<lparr>am_phase := Running\<rparr>))"

definition wake_completed :: "ActivationMachine \<Rightarrow> ActivationContractError + (ActivationCommand \<times> ActivationMachine)" where
  "wake_completed self =
     rbind (ensure (am_phase self \<in> {Waking, Running}) InvalidTransition) (\<lambda>_.
     Inr (ReconcileNow, self\<lparr>am_phase := Quiet, am_pending := None, am_reconcile_needed := False, am_retry_attempt := 0\<rparr>))"

text \<open>The delay it asks for is written out in the source as in \<open>retry_delay\<close>.\<close>

definition wake_retryable_failure ::
  "ActivationMachine \<Rightarrow> ActivationContractError + (ActivationCommand \<times> ActivationMachine)" where
  "wake_retryable_failure self =
     rbind (ensure (am_phase self \<in> {Waking, Running}) InvalidTransition) (\<lambda>_.
     let attempt = u8_saturating_add_1 (am_retry_attempt self); self = self\<lparr>am_retry_attempt := attempt\<rparr> in
     if attempt \<ge> ap_maximum_attempts (am_policy self) then Inr (NoCommand, self\<lparr>am_phase := Blocked\<rparr>)
     else Inr (RetryAfter (retry_delay (am_policy self) attempt), self\<lparr>am_phase := Backoff\<rparr>))"

definition retry_due :: "ActivationMachine \<Rightarrow> ActivationContractError + (ActivationCommand \<times> ActivationMachine)" where
  "retry_due self =
     rbind (ensure (am_phase self = Backoff) InvalidTransition) (\<lambda>_.
     rbind (ok_or InvalidTransition (am_pending self)) (\<lambda>pending.
     Inr (Activate pending, self\<lparr>am_phase := Pending, am_reconcile_needed := False\<rparr>)))"

definition wake_permanent_failure :: "ActivationMachine \<Rightarrow> ActivationContractError + ActivationMachine" where
  "wake_permanent_failure self =
     rbind (ensure (am_phase self \<in> {Waking, Running}) InvalidTransition) (\<lambda>_.
     Inr (self\<lparr>am_phase := Blocked\<rparr>))"

definition stop :: "ActivationMachine \<Rightarrow> ActivationMachine" where
  "stop self = self\<lparr>am_phase := ActivationPhase.Stopped, am_pending := None, am_reconcile_needed := False\<rparr>"

definition block :: "ActivationMachine \<Rightarrow> ActivationMachine" where
  "block self = (if am_phase self \<noteq> ActivationPhase.Stopped then self\<lparr>am_phase := Blocked\<rparr> else self)"

section \<open>Driving the host\<close>

text \<open>
  What the host and the cancellation token do at the \<open>n\<close>-th attempt of one wake: \<open>None\<close> where the
  \<open>select!\<close> sees the cancellation first.
\<close>

record host_env =
  he_start :: "nat \<Rightarrow> WakeMetadata \<Rightarrow> (HostFailure + unit) option"
  he_completed :: "nat \<Rightarrow> (HostFailure + unit) option"
  he_random :: "nat \<Rightarrow> nat option"
  he_wait :: "nat \<Rightarrow> Duration \<Rightarrow> bool"

datatype event =
    Observed Duration
  | Started WakeMetadata
  | StartFailed HostFailure
  | Completed
  | CompletionFailed HostFailure
  | Waited Duration

lemma u8_saturating_add_1_less:
  "u8_saturating_add_1 x < y \<Longrightarrow> unat (u8_saturating_add_1 x) = Suc (unat x)"
proof -
  assume less: "u8_saturating_add_1 x < y"
  have "x \<noteq> - 1"
  proof
    assume "x = - 1"
    with less have "(- 1 :: 8 word) < y" by (simp add: u8_saturating_add_1_def)
    then show False by (simp add: word_order.extremum_strict)
  qed
  moreover from this have "1 + x \<noteq> 0" by (metis add.commute eq_neg_iff_add_eq_0)
  then have "unat (1 + x) = Suc (unat x)" by (rule unatSuc)
  ultimately show ?thesis by (simp add: u8_saturating_add_1_def add.commute)
qed

lemma retry_makes_progress:
  assumes "wake_started m = Inr m1" and "wake_retryable_failure m1 = Inr (RetryAfter delay, m2)" and "retry_due m2 = Inr (c, m3)"
  shows "am_policy m3 = am_policy m" and "unat (am_retry_attempt m3) = Suc (unat (am_retry_attempt m))"
    and "am_retry_attempt m3 < ap_maximum_attempts (am_policy m)"
  using assms
  by (auto simp: wake_started_def wake_retryable_failure_def retry_due_def result_simps Let_def not_le
      u8_saturating_add_1_less split: if_splits)

lemma retry_decreases:
  assumes "wake_started m = Inr m1" and "wake_retryable_failure m1 = Inr (RetryAfter delay, m2)" and "retry_due m2 = Inr (c, m3)"
  shows "unat (ap_maximum_attempts (am_policy m3)) - unat (am_retry_attempt m3)
    < unat (ap_maximum_attempts (am_policy m)) - unat (am_retry_attempt m)"
  using retry_makes_progress [OF assms] by (simp add: word_less_nat_alt)

text \<open>The loop of \<open>drive_wake\<close>: whether it was cancelled, the machine, and what was done.\<close>

function drive_wake :: "host_env \<Rightarrow> nat \<Rightarrow> WakeMetadata \<Rightarrow> ActivationMachine \<Rightarrow> bool \<times> ActivationMachine \<times> event list" where
  "drive_wake H n wake m =
     (case wake_started m of
        Inl _ \<Rightarrow> (False, block m, [])
      | Inr m1 \<Rightarrow>
          (case he_start H n wake of
             None \<Rightarrow> (True, m1, [])
           | Some (Inl RetryableBeforeStart) \<Rightarrow>
               (case wake_retryable_failure m1 of
                  Inl _ \<Rightarrow> (False, block m1, [StartFailed RetryableBeforeStart])
                | Inr (RetryAfter delay, m2) \<Rightarrow>
                    (let pause = jitter_delay (he_random H n) delay in
                     if he_wait H n pause then (True, m2, [StartFailed RetryableBeforeStart])
                     else case retry_due m2 of
                       Inl _ \<Rightarrow> (False, block m2, [StartFailed RetryableBeforeStart, Waited pause])
                     | Inr (Activate retained, m3) \<Rightarrow>
                         (case drive_wake H (Suc n) retained m3 of (cancelled, m4, events) \<Rightarrow>
                            (cancelled, m4, StartFailed RetryableBeforeStart # Waited pause # events))
                     | Inr (_, m3) \<Rightarrow> (False, block m3, [StartFailed RetryableBeforeStart, Waited pause]))
                | Inr (_, m2) \<Rightarrow> (False, m2, [StartFailed RetryableBeforeStart]))
           | Some (Inl failure) \<Rightarrow>
               (False, (case wake_permanent_failure m1 of Inl _ \<Rightarrow> m1 | Inr m2 \<Rightarrow> m2), [StartFailed failure])
           | Some (Inr _) \<Rightarrow>
               (case wake_accepted m1 of
                  Inl _ \<Rightarrow> (False, block m1, [Started wake])
                | Inr m2 \<Rightarrow>
                    (case he_completed H n of
                       None \<Rightarrow> (True, m2, [Started wake])
                     | Some (Inr _) \<Rightarrow>
                         (False, (case wake_completed m2 of Inl _ \<Rightarrow> m2 | Inr (_, m3) \<Rightarrow> m3), [Started wake, Completed])
                     | Some (Inl failure) \<Rightarrow>
                         (False, (case wake_permanent_failure m2 of Inl _ \<Rightarrow> m2 | Inr m3 \<Rightarrow> m3),
                          [Started wake, CompletionFailed failure])))))"
  by pat_completeness auto

termination
  by (relation "measure (\<lambda>(H, n, wake, m). unat (ap_maximum_attempts (am_policy m)) - unat (am_retry_attempt m))")
    (auto intro: retry_decreases)

declare drive_wake.simps [simp del]

section \<open>Observing the inbox\<close>

definition wake_from_inbox :: "string \<Rightarrow> string \<Rightarrow> InboxResponse \<Rightarrow> ObservationFailure + WakeMetadata option" where
  "wake_from_inbox profile squad response =
     (if ibr_pending_count response = 0 then Inr None
      else rbind (ok_or ObservationFailure.Permanent (ibr_highest_priority response)) (\<lambda>highest_priority.
        rbind (ok_or ObservationFailure.Permanent (ibr_oldest_message_id response)) (\<lambda>oldest_message_id.
        map_err (\<lambda>_. ObservationFailure.Permanent)
          (rbind (WakeMetadata_new profile squad (ibr_pending_count response) highest_priority oldest_message_id)
            (\<lambda>w. Inr (Some w))))))"

fun classify_observation_failure :: "SessionError \<Rightarrow> ObservationFailure" where
  "classify_observation_failure (SessionError.Relay (Error.Transport _)) = Retryable"
| "classify_observation_failure (SessionError.Relay Error.Timeout) = Retryable"
| "classify_observation_failure (SessionError.Relay Error.OutcomeUnknown) = Retryable"
| "classify_observation_failure (SessionError.Relay Error.ClientBusy) = Retryable"
| "classify_observation_failure (SessionError.Relay (Error.RetryExhausted _ _)) = Retryable"
| "classify_observation_failure (SessionError.Relay (Error.Api _ _ True)) = Retryable"
| "classify_observation_failure SessionError.NotReady = Retryable"
| "classify_observation_failure SessionError.OperationCapacity = Retryable"
| "classify_observation_failure SessionError.SendCapacity = Retryable"
| "classify_observation_failure _ = ObservationFailure.Permanent"

text \<open>\<open>SessionActivationSource\<close>: \<open>inbox limit wait\<close> is the session's inbox operation.\<close>

record SessionActivationSource =
  sas_profile :: string
  sas_squad :: string

definition SessionActivationSource_new :: "string \<Rightarrow> string \<Rightarrow> ActivationContractError + SessionActivationSource" where
  "SessionActivationSource_new profile squad =
     rbind (validate_identifier profile MAX_WAKE_PROFILE_BYTES EmptyProfile InvalidProfile) (\<lambda>_.
     rbind (validate_identifier squad MAX_WAKE_SQUAD_BYTES EmptySquad InvalidSquad) (\<lambda>_.
     Inr \<lparr>sas_profile = profile, sas_squad = squad\<rparr>))"

definition source_observe ::
  "SessionActivationSource \<Rightarrow> (nat \<Rightarrow> nat \<Rightarrow> SessionError + InboxResponse) \<Rightarrow> Duration \<Rightarrow> ObservationFailure + WakeMetadata option" where
  "source_observe self inbox maximum_wait =
     (let wait_seconds = min (nat (as_secs maximum_wait)) 30 in
      rbind (map_err classify_observation_failure (inbox 100 wait_seconds)) (\<lambda>response.
      wake_from_inbox (sas_profile self) (sas_squad self) response))"

text \<open>One turn of the loop of \<open>run_activation\<close>, as the source, the host and the cancellation token behave in it.\<close>

record round =
  ro_observed :: "Duration \<Rightarrow> (ObservationFailure + WakeMetadata option) option"
  ro_wait :: "Duration \<Rightarrow> bool"
  ro_host :: host_env

definition maximum_wait :: "ActivationPolicy \<Rightarrow> Duration" where
  "maximum_wait policy = min (ap_reconcile_interval policy) (from_secs 30)"

text \<open>
  The loop over the rounds that happen: whether it ended, the machine, and what was done. After the
  last given round the loop is still running.
\<close>

fun run_rounds ::
  "ActivationPolicy \<Rightarrow> round list \<Rightarrow> Duration \<Rightarrow> 8 word \<Rightarrow> ActivationMachine \<Rightarrow> bool \<times> ActivationMachine \<times> event list" where
  "run_rounds policy [] next_wait failures m = (False, m, [])"
| "run_rounds policy (r # rounds) next_wait failures m =
     (case ro_observed r next_wait of
        None \<Rightarrow> (True, m, [])
      | Some (Inl ObservationFailure.Permanent) \<Rightarrow> (True, block m, [Observed next_wait])
      | Some (Inl Retryable) \<Rightarrow>
          (let failures = u8_saturating_add_1 failures in
           if failures \<ge> ap_maximum_attempts policy then (True, block m, [Observed next_wait])
           else let pause = retry_delay policy failures in
             if ro_wait r pause then (True, m, [Observed next_wait])
             else case run_rounds policy rounds (maximum_wait policy) failures m of (ended, m', events) \<Rightarrow>
               (ended, m', Observed next_wait # Waited pause # events))
      | Some (Inr pending) \<Rightarrow>
          (case observe pending m of
             (Activate wake, m1) \<Rightarrow>
               (case drive_wake (ro_host r) 0 wake m1 of (cancelled, m2, driven) \<Rightarrow>
                  if cancelled \<or> am_phase m2 = Blocked then (True, m2, Observed next_wait # driven)
                  else case run_rounds policy rounds 0 0 m2 of (ended, m', events) \<Rightarrow>
                    (ended, m', Observed next_wait # driven @ events))
           | (_, m1) \<Rightarrow>
               (case run_rounds policy rounds (maximum_wait policy) 0 m1 of (ended, m', events) \<Rightarrow>
                  (ended, m', Observed next_wait # events))))"

definition run_activation :: "ActivationPolicy \<Rightarrow> round list \<Rightarrow> ActivationMachine \<Rightarrow> bool \<times> ActivationMachine \<times> event list" where
  "run_activation policy rounds m = run_rounds policy rounds (maximum_wait policy) 0 m"

text \<open>\<open>ActivationRuntime::start\<close> and \<open>shutdown\<close>, which lets the task end and then stops the machine.\<close>

definition activation_start :: "ActivationPolicy \<Rightarrow> round list \<Rightarrow> ActivationContractError + (bool \<times> ActivationMachine \<times> event list)" where
  "activation_start policy rounds =
     rbind (ActivationMachine_new policy) (\<lambda>m. Inr (run_activation policy rounds m))"

definition activation_shutdown :: "ActivationMachine \<Rightarrow> ActivationMachine" where
  "activation_shutdown m = stop m"

section \<open>The invariant\<close>

definition wake_ok :: "WakeMetadata \<Rightarrow> bool" where
  "wake_ok w \<longleftrightarrow> WakeMetadata_new (wm_profile w) (wm_squad w) (wm_pending_count w) (wm_highest_priority w)
     (wm_oldest_message_id w) = Inr w"

definition machine_ok :: "ActivationMachine \<Rightarrow> bool" where
  "machine_ok m \<longleftrightarrow> validate_policy (am_policy m) = Inr (am_policy m)
     \<and> (am_phase m \<in> {Pending, Waking, Running, Backoff} \<longrightarrow>
          am_pending m \<noteq> None \<and> am_retry_attempt m < ap_maximum_attempts (am_policy m))
     \<and> (am_phase m = Quiet \<longrightarrow> am_pending m = None \<and> am_retry_attempt m = 0 \<and> \<not> am_reconcile_needed m)
     \<and> (am_phase m = ActivationPhase.Stopped \<longrightarrow> am_pending m = None \<and> \<not> am_reconcile_needed m)
     \<and> (am_phase m = Backoff \<longrightarrow> 0 < am_retry_attempt m)
     \<and> am_retry_attempt m \<le> ap_maximum_attempts (am_policy m)
     \<and> (\<forall>w. am_pending m = Some w \<longrightarrow> wake_ok w)"

text \<open>Every method of the machine, with any wake metadata its constructor makes.\<close>

inductive machine_step :: "ActivationMachine \<Rightarrow> ActivationMachine \<Rightarrow> bool" where
  step_observe: "(\<And>w. pending = Some w \<Longrightarrow> wake_ok w) \<Longrightarrow> machine_step m (snd (observe pending m))"
| step_started: "wake_started m = Inr m' \<Longrightarrow> machine_step m m'"
| step_accepted: "wake_accepted m = Inr m' \<Longrightarrow> machine_step m m'"
| step_completed: "wake_completed m = Inr (c, m') \<Longrightarrow> machine_step m m'"
| step_failed: "wake_retryable_failure m = Inr (c, m') \<Longrightarrow> machine_step m m'"
| step_due: "retry_due m = Inr (c, m') \<Longrightarrow> machine_step m m'"
| step_permanent: "wake_permanent_failure m = Inr m' \<Longrightarrow> machine_step m m'"
| step_stop: "machine_step m (stop m)"
| step_block: "machine_step m (block m)"

lemmas op_machine_defs = wake_started_def wake_accepted_def wake_completed_def retry_due_def wake_permanent_failure_def
  stop_def block_def

lemma WakeMetadata_new_ok: "WakeMetadata_new p s n h i = Inr w \<Longrightarrow> wake_ok w"
  by (auto simp: WakeMetadata_new_def wake_ok_def result_simps)

lemma validate_policy_Inr: "validate_policy p = Inr q \<Longrightarrow> q = p"
  by (auto simp: validate_policy_def result_simps)

lemma new_machine_ok: "ActivationMachine_new policy = Inr m \<Longrightarrow> machine_ok m \<and> am_phase m = Quiet \<and> am_policy m = policy"
  by (auto simp: ActivationMachine_new_def machine_ok_def result_simps) (frule validate_policy_Inr, simp)+

lemma observe_ok:
  "machine_ok m \<Longrightarrow> (\<And>w. pending = Some w \<Longrightarrow> wake_ok w) \<Longrightarrow> machine_ok (snd (observe pending m))"
  by (cases "am_phase m") (auto simp: observe_def machine_ok_def validate_policy_def result_simps word_neq_0_conv
      split: option.splits)

lemma saturating_add_positive: "u8_saturating_add_1 x \<noteq> 0"
proof (cases "x = - 1")
  case False
  then have "x + 1 \<noteq> 0" by (metis eq_neg_iff_add_eq_0)
  with False show ?thesis by (simp add: u8_saturating_add_1_def)
qed (simp add: u8_saturating_add_1_def)

lemma saturating_add_bound: "x < y \<Longrightarrow> u8_saturating_add_1 x \<le> y"
  by (auto simp: u8_saturating_add_1_def inc_le word_order.extremum_strict)

lemma retryable_failure_ok:
  assumes ok: "machine_ok m" and run: "wake_retryable_failure m = Inr (c, m')"
  shows "machine_ok m'"
proof -
  define attempt where "attempt = u8_saturating_add_1 (am_retry_attempt m)"
  have "am_phase m = Waking \<or> am_phase m = Running" using run by (auto simp: wake_retryable_failure_def result_simps)
  then have less: "am_retry_attempt m < ap_maximum_attempts (am_policy m)" "am_pending m \<noteq> None"
    using ok by (auto simp: machine_ok_def)
  have bound: "attempt \<le> ap_maximum_attempts (am_policy m)" "0 < attempt"
    using saturating_add_bound [OF less(1)] saturating_add_positive by (simp_all add: attempt_def word_neq_0_conv)
  have "m' = m\<lparr>am_retry_attempt := attempt, am_phase := Blocked\<rparr>
      \<or> attempt < ap_maximum_attempts (am_policy m) \<and> m' = m\<lparr>am_retry_attempt := attempt, am_phase := Backoff\<rparr>"
    using run unfolding wake_retryable_failure_def attempt_def [symmetric]
    by (simp add: result_simps Let_def not_le split: if_splits)
  then show ?thesis
  proof
    assume "m' = m\<lparr>am_retry_attempt := attempt, am_phase := Blocked\<rparr>"
    then show ?thesis using ok bound by (simp add: machine_ok_def)
  next
    assume "attempt < ap_maximum_attempts (am_policy m) \<and> m' = m\<lparr>am_retry_attempt := attempt, am_phase := Backoff\<rparr>"
    then show ?thesis using ok bound less(2) by (simp add: machine_ok_def)
  qed
qed

lemma machine_step_ok: "machine_step m m' \<Longrightarrow> machine_ok m \<Longrightarrow> machine_ok m'"
proof (induction rule: machine_step.induct)
  case (step_observe pending m)
  then show ?case by (blast intro: observe_ok)
next
  case (step_failed m c m')
  then show ?case by (blast intro: retryable_failure_ok)
qed (auto simp: op_machine_defs machine_ok_def result_simps validate_policy_def word_neq_0_conv)

section \<open>Turns never overlap\<close>

text \<open>
  What a host may see: it is idle, a turn is open, or the last one is in doubt. A turn is started
  only when the host is idle; after one in doubt nothing is done any more.
\<close>

datatype turn_state = Idle | Open | InDoubt

fun turn_step :: "turn_state \<Rightarrow> event \<Rightarrow> turn_state option" where
  "turn_step Idle (Observed _) = Some Idle"
| "turn_step Idle (Waited _) = Some Idle"
| "turn_step Idle (StartFailed RetryableBeforeStart) = Some Idle"
| "turn_step Idle (StartFailed _) = Some InDoubt"
| "turn_step Idle (Started _) = Some Open"
| "turn_step Open Completed = Some Idle"
| "turn_step Open (CompletionFailed _) = Some InDoubt"
| "turn_step _ _ = None"

fun turn_run :: "turn_state \<Rightarrow> event list \<Rightarrow> turn_state option" where
  "turn_run s [] = Some s"
| "turn_run s (e # es) = Option.bind (turn_step s e) (\<lambda>s'. turn_run s' es)"

fun waits :: "event list \<Rightarrow> Duration list" where
  "waits [] = []"
| "waits (Waited d # es) = d # waits es"
| "waits (_ # es) = waits es"

fun is_attempt :: "event \<Rightarrow> bool" where
  "is_attempt (Started _) = True"
| "is_attempt (StartFailed _) = True"
| "is_attempt _ = False"

fun is_observation :: "event \<Rightarrow> bool" where
  "is_observation (Observed _) = True"
| "is_observation _ = False"

lemma turn_run_append: "turn_run s (es @ fs) = Option.bind (turn_run s es) (\<lambda>s'. turn_run s' fs)"
  by (induction es arbitrary: s) (auto split: option.splits Option.bind_splits)

lemma failed_start_blocks:
  "f \<noteq> RetryableBeforeStart \<Longrightarrow> turn_step Idle (StartFailed f) = Some InDoubt"
  by (cases f) auto

text \<open>What a drive leaves behind: the machine is quiet again, blocked, or the drive was cancelled.\<close>

definition drive_ok :: "ActivationMachine \<Rightarrow> bool \<times> ActivationMachine \<times> event list \<Rightarrow> bool" where
  "drive_ok m result \<longleftrightarrow> (case result of (cancelled, m', events) \<Rightarrow>
     machine_ok m' \<and> am_policy m' = am_policy m
     \<and> \<not> list_ex is_observation events
     \<and> (\<exists>s. turn_run Idle events = Some s \<and> (s = Idle \<or> cancelled \<or> am_phase m' = Blocked)
          \<and> (cancelled \<longrightarrow> s \<noteq> InDoubt))
     \<and> (\<not> cancelled \<longrightarrow> am_phase m' = Quiet \<or> am_phase m' = Blocked))"

lemma retry_cases:
  assumes "machine_ok m" and "am_phase m = Waking"
  obtains m2 where "wake_retryable_failure m = Inr (NoCommand, m2)" "am_phase m2 = Blocked" "am_policy m2 = am_policy m"
      "machine_ok m2"
    | m2 w where
      "wake_retryable_failure m = Inr (RetryAfter (retry_delay (am_policy m) (am_retry_attempt m + 1)), m2)"
      "machine_ok m2" "am_policy m2 = am_policy m" "am_phase m2 = Backoff" "am_retry_attempt m2 = am_retry_attempt m + 1"
      "retry_due m2 = Inr (Activate w, m2\<lparr>am_phase := Pending, am_reconcile_needed := False\<rparr>)"
      "machine_ok (m2\<lparr>am_phase := Pending, am_reconcile_needed := False\<rparr>)"
proof -
  define attempt where "attempt = u8_saturating_add_1 (am_retry_attempt m)"
  have run: "wake_retryable_failure m = Inr (if attempt \<ge> ap_maximum_attempts (am_policy m)
      then (NoCommand, m\<lparr>am_retry_attempt := attempt, am_phase := Blocked\<rparr>)
      else (RetryAfter (retry_delay (am_policy m) attempt), m\<lparr>am_retry_attempt := attempt, am_phase := Backoff\<rparr>))"
    using assms(2) by (simp add: wake_retryable_failure_def attempt_def Let_def)
  show thesis
  proof (cases "attempt \<ge> ap_maximum_attempts (am_policy m)")
    case True
    then show thesis using run retryable_failure_ok [OF assms(1) run [unfolded if_P [OF True]]] by (intro that(1)) auto
  next
    case False
    let ?m2 = "m\<lparr>am_retry_attempt := attempt, am_phase := Backoff\<rparr>"
    have plus: "attempt = am_retry_attempt m + 1"
    proof -
      have "am_retry_attempt m \<noteq> - 1"
      proof
        assume "am_retry_attempt m = - 1"
        then have "attempt = - 1" by (simp add: attempt_def u8_saturating_add_1_def)
        with False show False by (simp add: word_order.extremum_unique)
      qed
      then show ?thesis by (simp add: attempt_def u8_saturating_add_1_def)
    qed
    have ok: "machine_ok ?m2" using retryable_failure_ok [OF assms(1) run [unfolded if_not_P [OF False]]] .
    obtain w where w: "am_pending m = Some w" using assms by (auto simp: machine_ok_def)
    have due: "retry_due ?m2 = Inr (Activate w, ?m2\<lparr>am_phase := Pending, am_reconcile_needed := False\<rparr>)"
      using w by (simp add: retry_due_def)
    show thesis
      by (rule that(2) [OF _ ok _ _ _ due]) (use run False plus machine_step_ok [OF step_due [OF due] ok] in simp_all)
  qed
qed

lemma drive_wake_ok:
  "machine_ok m \<Longrightarrow> am_phase m = Pending \<Longrightarrow> drive_ok m (drive_wake H n wake m)"
proof (induction "unat (ap_maximum_attempts (am_policy m)) - unat (am_retry_attempt m)" arbitrary: m n wake rule: less_induct)
  case less
  let ?m1 = "m\<lparr>am_phase := Waking\<rparr>"
  have started: "wake_started m = Inr ?m1" using less.prems by (simp add: wake_started_def machine_ok_def)
  have ok1: "machine_ok ?m1" by (rule machine_step_ok [OF step_started [OF started] less.prems(1)])
  have blocked: "machine_ok (?m1\<lparr>am_phase := Blocked\<rparr>)"
    by (rule machine_step_ok [OF step_permanent ok1]) (simp add: wake_permanent_failure_def)
  show ?case
  proof (cases "he_start H n wake")
    case None
    then show ?thesis using ok1 by (subst drive_wake.simps) (simp add: started drive_ok_def)
  next
    case (Some outcome)
    show ?thesis
    proof (cases outcome)
      case (Inr u)
      have ok2: "machine_ok (?m1\<lparr>am_phase := Running\<rparr>)"
        by (rule machine_step_ok [OF step_accepted ok1]) (simp add: wake_accepted_def)
      have "machine_ok (?m1\<lparr>am_phase := Quiet, am_pending := None, am_reconcile_needed := False, am_retry_attempt := 0\<rparr>)"
        by (rule machine_step_ok [OF step_completed ok1]) (simp add: wake_completed_def)
      with Inr Some ok2 blocked show ?thesis
        by (subst drive_wake.simps)
          (auto simp: started wake_accepted_def wake_completed_def wake_permanent_failure_def drive_ok_def
            split: option.splits sum.splits)
    next
      case (Inl f)
      show ?thesis
      proof (cases "f = RetryableBeforeStart")
        case False
        then show ?thesis using Inl Some blocked failed_start_blocks [OF False]
          by (subst drive_wake.simps)
            (auto simp: started wake_permanent_failure_def drive_ok_def split: HostFailure.splits)
      next
        case True
        have waking: "am_phase ?m1 = Waking" by simp
        show ?thesis
        proof (cases rule: retry_cases [OF ok1 waking])
          case (1 m2)
          then show ?thesis using True Inl Some by (subst drive_wake.simps) (simp add: started drive_ok_def)
        next
          case (2 m2 w)
          let ?m3 = "m2\<lparr>am_phase := Pending, am_reconcile_needed := False\<rparr>"
          have "drive_ok ?m3 (drive_wake H (Suc n) w ?m3)"
            using less.hyps [OF retry_decreases [OF started 2(1) 2(6)] 2(7)] by simp
          then show ?thesis using 2 True Inl Some
            by (subst drive_wake.simps) (auto simp: started drive_ok_def Let_def split: prod.splits)
        qed
      qed
    qed
  qed
qed

text \<open>After a completed turn the inbox is looked at without waiting.\<close>

fun reconciles :: "event list \<Rightarrow> bool" where
  "reconciles (Completed # Observed d # es) \<longleftrightarrow> d = 0 \<and> reconciles es"
| "reconciles (_ # es) \<longleftrightarrow> reconciles es"
| "reconciles [] \<longleftrightarrow> True"

fun observes_first :: "Duration \<Rightarrow> event list \<Rightarrow> bool" where
  "observes_first d (Observed d' # _) \<longleftrightarrow> d' = d"
| "observes_first _ (_ # _) \<longleftrightarrow> False"
| "observes_first _ [] \<longleftrightarrow> True"

lemma reconciles_Cons:
  "reconciles es \<Longrightarrow> observes_first 0 es \<or> es \<noteq> [] \<and> \<not> is_observation (hd es) \<Longrightarrow> reconciles (e # es)"
  by (cases es; cases "hd es"; cases e) auto

lemma reconciles_append:
  assumes "\<not> list_ex is_observation driven" and "observes_first 0 events" and "reconciles events"
  shows "reconciles (driven @ events)"
  using assms
proof (induction driven)
  case (Cons e es)
  then show ?case by (cases es) (auto intro!: reconciles_Cons)
qed simp

text \<open>The metadata an observation carries was made by its constructor.\<close>

definition round_ok :: "round \<Rightarrow> bool" where
  "round_ok r \<longleftrightarrow> (\<forall>d w. ro_observed r d = Some (Inr (Some w)) \<longrightarrow> wake_ok w)"

definition rounds_ok :: "Duration \<Rightarrow> bool \<times> ActivationMachine \<times> event list \<Rightarrow> bool" where
  "rounds_ok next_wait result \<longleftrightarrow> (case result of (ended, m', events) \<Rightarrow>
     machine_ok m' \<and> reconciles events \<and> observes_first next_wait events
     \<and> (\<exists>s. turn_run Idle events = Some s \<and> (s = InDoubt \<longrightarrow> ended \<and> am_phase m' = Blocked)
          \<and> (\<not> ended \<longrightarrow> s = Idle \<and> am_phase m' = Quiet)))"

lemma observe_quiet:
  assumes "machine_ok m" and "am_phase m = Quiet" and "\<forall>w. pending = Some w \<longrightarrow> wake_ok w"
  obtains w where "observe pending m = (Activate w, m\<lparr>am_phase := Pending, am_pending := Some w\<rparr>)"
      "machine_ok (m\<lparr>am_phase := Pending, am_pending := Some w\<rparr>)"
    | "observe pending m = (NoCommand, m)"
proof (cases pending)
  case None
  then show ?thesis using that(2) assms(2) by (simp add: observe_def)
next
  case (Some w)
  have run: "observe pending m = (Activate w, m\<lparr>am_phase := Pending, am_pending := Some w\<rparr>)"
    using Some assms(2) by (simp add: observe_def)
  show ?thesis using that(1) [OF run] observe_ok [OF assms(1), of pending] assms(3) run by simp
qed

lemma run_rounds_ok:
  "machine_ok m \<Longrightarrow> am_phase m = Quiet \<Longrightarrow> list_all round_ok rounds \<Longrightarrow>
     rounds_ok next_wait (run_rounds policy rounds next_wait failures m)"
proof (induction rounds arbitrary: next_wait failures m)
  case Nil
  then show ?case by (simp add: rounds_ok_def)
next
  case (Cons r rounds)
  have blocked: "machine_ok (block m)" by (rule machine_step_ok [OF step_block Cons.prems(1)])
  show ?case
  proof (cases "ro_observed r next_wait")
    case None
    then show ?thesis using Cons.prems by (simp add: rounds_ok_def)
  next
    case (Some observed)
    show ?thesis
    proof (cases observed)
      case (Inl f)
      have "rounds_ok (maximum_wait policy)
          (run_rounds policy rounds (maximum_wait policy) (u8_saturating_add_1 failures) m)"
        using Cons by simp
      then show ?thesis using Some Inl blocked Cons.prems
        by (cases f) (auto simp: rounds_ok_def Let_def block_def split: prod.splits)
    next
      case (Inr pending)
      have wake: "\<forall>w. pending = Some w \<longrightarrow> wake_ok w" using Cons.prems(3) Some Inr by (auto simp: round_ok_def)
      show ?thesis
      proof (cases rule: observe_quiet [OF Cons.prems(1,2) wake])
        case 2
        have "rounds_ok (maximum_wait policy) (run_rounds policy rounds (maximum_wait policy) 0 m)" using Cons by simp
        then show ?thesis using Some Inr 2 by (auto simp: rounds_ok_def split: prod.splits)
      next
        case (1 w)
        let ?m1 = "m\<lparr>am_phase := Pending, am_pending := Some w\<rparr>"
        obtain cancelled m2 driven where driven: "drive_wake (ro_host r) 0 w ?m1 = (cancelled, m2, driven)"
          by (cases "drive_wake (ro_host r) 0 w ?m1") auto
        have ok: "drive_ok ?m1 (cancelled, m2, driven)" using drive_wake_ok [OF 1(2), of "ro_host r" 0 w] driven by simp
        have silent: "\<not> list_ex is_observation driven" using ok by (simp add: drive_ok_def)
        show ?thesis
        proof (cases "cancelled \<or> am_phase m2 = Blocked")
          case True
          then show ?thesis using Some Inr 1 driven ok reconciles_append [OF silent, of "[]"]
            by (auto simp: rounds_ok_def drive_ok_def)
        next
          case False
          then have "am_phase m2 = Quiet" "machine_ok m2" "turn_run Idle driven = Some Idle"
            using ok by (auto simp: drive_ok_def)
          then have "rounds_ok 0 (run_rounds policy rounds 0 0 m2)" using Cons by simp
          then show ?thesis using Some Inr 1 driven False \<open>turn_run Idle driven = Some Idle\<close> reconciles_append [OF silent]
            by (auto simp: rounds_ok_def turn_run_append split: prod.splits)
        qed
      qed
    qed
  qed
qed

section \<open>Attempts and pauses\<close>

lemma policy_bounds:
  assumes "validate_policy p = Inr p"
  shows "0 < ap_initial_backoff p" "ap_initial_backoff p \<le> ap_maximum_backoff p" "ap_maximum_backoff p \<le> MAX_BACKOFF_DURATION"
    "0 < unat (ap_maximum_attempts p)" "unat (ap_maximum_attempts p) \<le> 8"
  using assms
  by (auto simp: validate_policy_def result_simps not_less MAX_BACKOFF_ATTEMPTS_def word_le_nat_alt unat_gt_0)

lemma retry_delay_doubles:
  assumes "validate_policy p = Inr p" and "unat x = Suc k" and "k < 8"
  shows "retry_delay p x = min (ap_initial_backoff p * 2 ^ k) (ap_maximum_backoff p)"
proof -
  have "x \<noteq> 0" using assms(2) by auto
  then have exponent: "unat (u8_saturating_sub_1 x) = k" using assms(2) by (simp add: u8_saturating_sub_1_def unat_minus_one)
  have small: "(2 :: nat) ^ k \<le> 128" using power_increasing [of k 7 "2 :: nat"] assms(3) by simp
  have "ap_initial_backoff p \<le> from_secs 300" using policy_bounds(2,3) [OF assms(1)] by (simp add: MAX_BACKOFF_DURATION_def)
  then have "ap_initial_backoff p * 2 ^ k \<le> from_secs 300 * 128" using small by (intro mult_le_mono)
  also have "\<dots> \<le> duration_max" by (simp add: from_secs_def duration_max_def)
  finally show ?thesis using small by (simp add: retry_delay_def exponent two_pow_u32_def duration_checked_mul_def)
qed

lemma jitter_delay_bounds:
  assumes "delay \<le> MAX_BACKOFF_DURATION"
  shows "jitter_delay random delay \<le> delay" and "delay div 2000000 * 1000000 \<le> jitter_delay random delay"
proof -
  define c where "c = delay div 1000000"
  have c: "ceiling_millis delay = c" "c * 1000000 \<le> delay"
    using assms by (simp_all add: ceiling_millis_def c_def MAX_BACKOFF_DURATION_def from_secs_def)
  have half: "delay div 2000000 = c div 2" by (simp add: c_def div_mult2_eq flip: mult_numeral_1)
  have low: "c div 2 * 1000000 \<le> delay"
    using c(2) by (meson div_le_dividend le_trans mult_le_mono1)
  have sample: "c div 2 \<le> c div 2 + s mod (c - c div 2 + 1)" "c div 2 + s mod (c - c div 2 + 1) \<le> c" for s
  proof -
    have "s mod (c - c div 2 + 1) \<le> c - c div 2" using mod_less_divisor [of "c - c div 2 + 1" s] by linarith
    then show "c div 2 + s mod (c - c div 2 + 1) \<le> c" using div_le_dividend [of c 2] by linarith
  qed simp
  have "jitter_delay random delay = delay \<or> (\<exists>x \<ge> c div 2. x \<le> c \<and> jitter_delay random delay = x * 1000000)"
  proof (cases "c < 2 \<or> random = None")
    case True
    then show ?thesis by (auto simp: jitter_delay_def c(1))
  next
    case False
    then obtain s where "random = Some s" by auto
    with False have "jitter_delay random delay = (c div 2 + s mod (c - c div 2 + 1)) * 1000000"
      by (simp add: jitter_delay_def jitter_delay_from_def c(1) Let_def duration_from_millis_def)
    then show ?thesis using sample [of s] by blast
  qed
  then show "jitter_delay random delay \<le> delay" "delay div 2000000 * 1000000 \<le> jitter_delay random delay"
    using c(2) low half by auto
qed

text \<open>The pauses and the attempts of a drive that starts with the counter at \<open>r\<close>.\<close>

definition paced :: "host_env \<Rightarrow> ActivationPolicy \<Rightarrow> nat \<Rightarrow> nat \<Rightarrow> event list \<Rightarrow> bool" where
  "paced H policy n r events \<longleftrightarrow>
     length (filter is_attempt events) + r \<le> unat (ap_maximum_attempts policy)
     \<and> waits events = map (\<lambda>k. jitter_delay (he_random H (n + k))
         (min (ap_initial_backoff policy * 2 ^ (r + k)) (ap_maximum_backoff policy))) [0..<length (waits events)]"

lemma paced_retry:
  assumes "paced H policy (Suc n) (Suc r) events"
  shows "paced H policy n r (StartFailed RetryableBeforeStart
    # Waited (jitter_delay (he_random H n) (min (ap_initial_backoff policy * 2 ^ r) (ap_maximum_backoff policy))) # events)"
proof -
  let ?f = "\<lambda>k. jitter_delay (he_random H (n + k)) (min (ap_initial_backoff policy * 2 ^ (r + k)) (ap_maximum_backoff policy))"
  have "map ?f [0..<Suc (length (waits events))] = ?f 0 # map (?f \<circ> Suc) [0..<length (waits events)]"
    by (simp add: upt_conv_Cons del: upt_Suc flip: map_Suc_upt)
  with assms show ?thesis unfolding paced_def by (simp add: o_def del: upt_Suc)
qed

lemma paced_short:
  "waits events = [] \<Longrightarrow> length (filter is_attempt events) \<le> 1 \<Longrightarrow> Suc r \<le> unat (ap_maximum_attempts policy)
     \<Longrightarrow> paced H policy n r events"
  by (simp add: paced_def)

lemma drive_without_retry:
  assumes "wake_started m = Inr m1" and "he_start H n wake \<noteq> Some (Inl RetryableBeforeStart)"
  shows "waits (snd (snd (drive_wake H n wake m))) = []
    \<and> length (filter is_attempt (snd (snd (drive_wake H n wake m)))) \<le> 1"
proof (cases "he_start H n wake")
  case None
  then show ?thesis by (subst (1 2) drive_wake.simps) (simp add: assms(1))
next
  case (Some outcome)
  show ?thesis
  proof (cases outcome)
    case (Inl f)
    then show ?thesis using assms(2) Some by (cases f) (subst (1 2) drive_wake.simps, simp add: assms(1))+
  next
    case (Inr u)
    then show ?thesis using Some
      by (subst (1 2) drive_wake.simps) (simp add: assms(1) split: sum.splits option.splits)
  qed
qed

lemma drive_wake_paced:
  "machine_ok m \<Longrightarrow> am_phase m = Pending \<Longrightarrow>
     paced H (am_policy m) n (unat (am_retry_attempt m)) (snd (snd (drive_wake H n wake m)))"
proof (induction "unat (ap_maximum_attempts (am_policy m)) - unat (am_retry_attempt m)" arbitrary: m n wake rule: less_induct)
  case less
  let ?m1 = "m\<lparr>am_phase := Waking\<rparr>"
  have started: "wake_started m = Inr ?m1" using less.prems by (simp add: wake_started_def machine_ok_def)
  have ok1: "machine_ok ?m1" by (rule machine_step_ok [OF step_started [OF started] less.prems(1)])
  have room: "Suc (unat (am_retry_attempt m)) \<le> unat (ap_maximum_attempts (am_policy m))"
    using less.prems by (simp add: machine_ok_def word_less_nat_alt Suc_le_eq)
  have policy: "validate_policy (am_policy m) = Inr (am_policy m)" using less.prems(1) by (simp add: machine_ok_def)
  show ?case
  proof (cases "he_start H n wake = Some (Inl RetryableBeforeStart)")
    case False
    then show ?thesis using drive_without_retry [OF started False] room by (intro paced_short) simp_all
  next
    case True
    have waking: "am_phase ?m1 = Waking" by simp
    show ?thesis
    proof (cases rule: retry_cases [OF ok1 waking])
      case (1 m2)
      then show ?thesis using True room by (subst drive_wake.simps) (simp add: started paced_def)
    next
      case (2 m2 w)
      let ?m3 = "m2\<lparr>am_phase := Pending, am_reconcile_needed := False\<rparr>"
      have attempt: "unat (am_retry_attempt m2) = Suc (unat (am_retry_attempt m))"
        using retry_makes_progress(2) [OF started 2(1) 2(6)] by simp
      have "unat (am_retry_attempt m) < 8" using room policy_bounds(5) [OF policy] by simp
      then have delay: "retry_delay (am_policy m) (am_retry_attempt m + 1)
          = min (ap_initial_backoff (am_policy m) * 2 ^ unat (am_retry_attempt m)) (ap_maximum_backoff (am_policy m))"
        using attempt 2(5) by (intro retry_delay_doubles [OF policy]) simp_all
      have rest: "paced H (am_policy m) (Suc n) (Suc (unat (am_retry_attempt m))) (snd (snd (drive_wake H (Suc n) w ?m3)))"
        using less.hyps [OF retry_decreases [OF started 2(1) 2(6)] 2(7)] attempt 2(3) by simp
      show ?thesis
        using 2 True paced_retry [OF rest] room delay
        by (subst drive_wake.simps) (auto simp: started Let_def paced_def [of H _ n _ "[_]"] split: prod.splits)
    qed
  qed
qed

section \<open>Properties\<close>

text \<open>
  (C12) The turns of a host never overlap. Over any run of the activation loop, whatever the
  inbox, the host and the cancellation do, a turn is started only when the previous one completed (mail that is
  still pending then may be woken for again); once
  it is unknown whether a turn was started or how it ended, the machine is blocked, the loop has ended
  and nothing more is started; after a completed turn the inbox is looked at again without waiting;
  and while the loop runs the machine is quiet between rounds.
\<close>

theorem host_turns_never_overlap:
  assumes "activation_start policy rounds = Inr (ended, m, events)" and "list_all round_ok rounds"
  shows "reconciles events
    \<and> (\<exists>s. turn_run Idle events = Some s \<and> (s = InDoubt \<longrightarrow> ended \<and> am_phase m = Blocked)
         \<and> (\<not> ended \<longrightarrow> s = Idle \<and> am_phase m = Quiet))"
proof -
  from assms(1) obtain m0 where m0: "ActivationMachine_new policy = Inr m0"
    and run: "run_rounds policy rounds (maximum_wait policy) 0 m0 = (ended, m, events)"
    by (auto simp: activation_start_def run_activation_def result_simps)
  have "machine_ok m0" "am_phase m0 = Quiet" using new_machine_ok [OF m0] by auto
  from run_rounds_ok [OF this assms(2), of "maximum_wait policy" policy 0] run
  show ?thesis by (simp add: rounds_ok_def)
qed

definition sample_wake :: WakeMetadata where
  "sample_wake = \<lparr>wm_profile = ''p'', wm_squad = ''s'', wm_pending_count = 2, wm_highest_priority = MessagePriorityDto.High,
     wm_oldest_message_id = ''msg_1''\<rparr>"

text \<open>A host that refuses the first attempt and completes the turn of the second.\<close>

definition sample_host :: host_env where
  "sample_host = \<lparr>he_start = (\<lambda>n _. Some (if n = 0 then Inl RetryableBeforeStart else Inr ())),
     he_completed = (\<lambda>_. Some (Inr ())), he_random = (\<lambda>_. None), he_wait = (\<lambda>_ _. False)\<rparr>"

lemma sample_wake_ok: "wake_ok sample_wake"
  by (simp add: wake_ok_def sample_wake_def WakeMetadata_new_def validate_identifier_def MAX_WAKE_PROFILE_BYTES_def
      MAX_WAKE_SQUAD_BYTES_def MAX_WAKE_MESSAGE_ID_BYTES_def MAX_WAKE_PENDING_COUNT_def wake_char_def eval_simps)

lemma default_policy_valid: "validate_policy ActivationPolicy_default = Inr ActivationPolicy_default"
  by (simp add: validate_policy_def ActivationPolicy_default_def DEFAULT_RECONCILE_INTERVAL_def MIN_RECONCILE_INTERVAL_def
      MAX_RECONCILE_INTERVAL_def DEFAULT_BACKOFF_INITIAL_def DEFAULT_BACKOFF_MAX_def MAX_BACKOFF_DURATION_def
      MAX_BACKOFF_ATTEMPTS_def from_secs_def)

theorem host_turns_never_overlap_witness:
  "\<exists>ended m events. activation_start ActivationPolicy_default
       [\<lparr>ro_observed = (\<lambda>_. Some (Inr (Some sample_wake))), ro_wait = (\<lambda>_. False), ro_host = sample_host\<rparr>]
       = Inr (ended, m, events) \<and> turn_run Idle events \<noteq> None"
proof -
  let ?rounds = "[\<lparr>ro_observed = (\<lambda>_. Some (Inr (Some sample_wake))), ro_wait = (\<lambda>_. False), ro_host = sample_host\<rparr>]"
  obtain ended m events where run: "activation_start ActivationPolicy_default ?rounds = Inr (ended, m, events)"
    by (cases "run_activation ActivationPolicy_default ?rounds \<lparr>am_policy = ActivationPolicy_default, am_phase = Quiet,
        am_pending = None, am_reconcile_needed = False, am_retry_attempt = 0\<rparr>")
      (simp add: activation_start_def ActivationMachine_new_def default_policy_valid)
  have "list_all round_ok ?rounds" by (simp add: round_ok_def sample_wake_ok)
  from host_turns_never_overlap [OF run this] run show ?thesis by auto
qed

text \<open>
  (C24) Waking is bounded and backs off. However the host behaves, a wake observed on a quiet machine
  is driven to an end with at most as many attempts as the policy allows, never more than eight; the
  pauses between them are the initial backoff doubled each time, capped at the maximum, and randomised
  between half of that and all of it; no pause exceeds five minutes.
\<close>

theorem wake_attempts_are_bounded:
  assumes "machine_ok m" and "am_phase m = Quiet" and "wake_ok w" and "observe (Some w) m = (Activate wake, m1)"
    and "drive_wake H 0 wake m1 = (cancelled, m2, events)"
  shows "wake = w \<and> length (filter is_attempt events) \<le> unat (ap_maximum_attempts (am_policy m))
    \<and> unat (ap_maximum_attempts (am_policy m)) \<le> 8
    \<and> waits events = map (\<lambda>k. jitter_delay (he_random H k)
        (min (ap_initial_backoff (am_policy m) * 2 ^ k) (ap_maximum_backoff (am_policy m)))) [0..<length (waits events)]
    \<and> (\<forall>random delay. delay \<le> ap_maximum_backoff (am_policy m) \<longrightarrow>
        delay div 2000000 * 1000000 \<le> jitter_delay random delay \<and> jitter_delay random delay \<le> delay)
    \<and> (\<forall>d \<in> set (waits events). d \<le> from_secs 300)
    \<and> (cancelled \<or> am_phase m2 = Quiet \<or> am_phase m2 = Blocked)"
proof -
  have policy: "validate_policy (am_policy m) = Inr (am_policy m)" and retry: "am_retry_attempt m = 0"
    using assms(1,2) by (simp_all add: machine_ok_def)
  have wake: "wake = w" and m1: "m1 = m\<lparr>am_phase := Pending, am_pending := Some w\<rparr>"
    using assms(2,4) by (auto simp: observe_def)
  have ok1: "machine_ok m1" using observe_ok [OF assms(1), of "Some w"] assms(3,4) by simp
  have paced: "paced H (am_policy m) 0 0 events"
    using drive_wake_paced [OF ok1, of H 0 wake] assms(5) retry by (simp add: m1)
  have drive: "drive_ok m1 (cancelled, m2, events)" using drive_wake_ok [OF ok1, of H 0 wake] assms(5) by (simp add: m1)
  have small: "ap_maximum_backoff (am_policy m) \<le> MAX_BACKOFF_DURATION" by (rule policy_bounds(3) [OF policy])
  have pauses: "waits events = map (\<lambda>k. jitter_delay (he_random H k)
      (min (ap_initial_backoff (am_policy m) * 2 ^ k) (ap_maximum_backoff (am_policy m)))) [0..<length (waits events)]"
    using paced by (simp add: paced_def)
  have "d \<le> from_secs 300" if "d \<in> set (waits events)" for d
  proof -
    from that obtain k where "d = jitter_delay (he_random H k)
        (min (ap_initial_backoff (am_policy m) * 2 ^ k) (ap_maximum_backoff (am_policy m)))"
      by (subst (asm) pauses) auto
    also have "\<dots> \<le> min (ap_initial_backoff (am_policy m) * 2 ^ k) (ap_maximum_backoff (am_policy m))"
      using small by (intro jitter_delay_bounds(1)) simp
    finally show ?thesis using small by (simp add: MAX_BACKOFF_DURATION_def)
  qed
  moreover have "delay div 2000000 * 1000000 \<le> jitter_delay random delay \<and> jitter_delay random delay \<le> delay"
    if "delay \<le> ap_maximum_backoff (am_policy m)" for random delay
    using jitter_delay_bounds that small by (meson order_trans)
  ultimately show ?thesis
    using wake paced pauses drive policy_bounds(5) [OF policy] by (auto simp: paced_def drive_ok_def)
qed

theorem wake_attempts_are_bounded_witness:
  "\<exists>cancelled m2 events. drive_wake sample_host 0 sample_wake \<lparr>am_policy = ActivationPolicy_default, am_phase = Pending,
       am_pending = Some sample_wake, am_reconcile_needed = False, am_retry_attempt = 0\<rparr> = (cancelled, m2, events)
     \<and> length (filter is_attempt events) \<le> 8"
proof -
  let ?m = "\<lparr>am_policy = ActivationPolicy_default, am_phase = Quiet, am_pending = None, am_reconcile_needed = False,
    am_retry_attempt = 0\<rparr>"
  let ?m1 = "?m\<lparr>am_phase := Pending, am_pending := Some sample_wake\<rparr>"
  have ok: "machine_ok ?m" "am_phase ?m = Quiet"
    using new_machine_ok [of ActivationPolicy_default ?m] by (simp_all add: ActivationMachine_new_def default_policy_valid)
  have observed: "observe (Some sample_wake) ?m = (Activate sample_wake, ?m1)" by (simp add: observe_def)
  obtain cancelled m2 events where run: "drive_wake sample_host 0 sample_wake ?m1 = (cancelled, m2, events)"
    by (cases "drive_wake sample_host 0 sample_wake ?m1") auto
  show ?thesis
    using wake_attempts_are_bounded [OF ok sample_wake_ok observed run] run
    by (auto simp: ActivationPolicy_default_def MAX_BACKOFF_ATTEMPTS_def)
qed

end
