(* ===== verification/Codex_Host.thy ===== *)
theory Codex_Host
  imports Codex_Ledger Codex_Config Activation
begin

text \<open>
  The wake host (\<open>CodexAppServerHost\<close> of \<open>psst-codex/src/app_server.rs\<close>): the life of the App Server
  process it owns, from \<open>start\<close> through the turn to \<open>shutdown\<close>, for any behaviour of the process, of
  the wire and of the file system.
\<close>

section \<open>The process\<close>

text \<open>
  How launching goes (the process and its two pipes, then the record of a new thread), and how ending it
  goes: \<open>try_wait\<close>, the wait after the pipe is closed (\<open>None\<close> where it exceeds its bound), the kill
  and the wait after that.
\<close>

record launch_env =
  le_spawned :: "(line_read list \<times> bool list) option"
  le_unicode :: "string \<Rightarrow> bool"
  le_os :: os
  le_record_name :: "string \<Rightarrow> string"
  le_record_dir :: directory

record child_env =
  ce_try_wait :: "bool option"
  ce_wait :: "bool option"
  ce_kill :: bool
  ce_reap :: "bool option"

definition launch ::
  "json_lib \<Rightarrow> string \<Rightarrow> launch_env \<Rightarrow> AppServerConfig \<Rightarrow> (AppServerError + AppServerClient) \<times> wire_event list" where
  "launch L version E config =
     (case mcp_override L (le_unicode E) config of
        Inl e \<Rightarrow> (Inl e, [])
      | Inr _ \<Rightarrow>
          (case le_spawned E of
             None \<Rightarrow> (Inl Launch, [])
           | Some (stdout, stdin) \<Rightarrow>
               (case initialize_thread L version
                   (\<lambda>path thread_id. fst (persist_thread_id (le_os E) (le_record_name E path) thread_id (le_record_dir E)))
                   config (JsonLines_new stdout stdin) of
                  (Inl e, protocol) \<Rightarrow> (Inl e, jl_log protocol)
                | (Inr thread_id, protocol) \<Rightarrow> (Inr (client_of config thread_id protocol), jl_log protocol))))"

definition client_shutdown :: "child_env \<Rightarrow> unit client_op" where
  "client_shutdown E self =
     (case ce_try_wait E of
        None \<Rightarrow> (Inl Exited, self)
      | Some True \<Rightarrow> (Inr (), self)
      | Some False \<Rightarrow>
          (let self = self\<lparr>asc_protocol := wire_close (asc_protocol self)\<rparr> in
           case ce_wait E of
             Some status \<Rightarrow> (ensure status Exited, self)
           | None \<Rightarrow>
               if \<not> ce_kill E then (Inl Exited, self)
               else case ce_reap E of
                 None \<Rightarrow> (Inl AppServerError.Timeout, self)
               | Some status \<Rightarrow> (ensure status Exited, self)))"

fun classify_start :: "AppServerError \<Rightarrow> HostFailure" where
  "classify_start Launch = RetryableBeforeStart"
| "classify_start Exited = RetryableBeforeStart"
| "classify_start Rejected = RetryableBeforeStart"
| "classify_start Configuration = HostFailure.Permanent"
| "classify_start Schema = HostFailure.Permanent"
| "classify_start Protocol = HostFailure.Permanent"
| "classify_start AppServerError.Timeout = HostFailure.OutcomeUnknown"

section \<open>The host\<close>

text \<open>
  \<open>HostState\<close> behind its mutex. \<open>hs_turn\<close> is the turn that owns the guard, and \<open>hs_past\<close> the
  transcripts of the clients that were dropped.
\<close>

record HostState =
  hs_config :: AppServerConfig
  hs_client :: "AppServerClient option"
  hs_turn :: "string option"
  hs_past :: "wire_event list list"

definition prepare :: "AppServerError + unit \<Rightarrow> AppServerConfig \<Rightarrow> AppServerError + HostState" where
  "prepare schema config =
     rbind schema (\<lambda>_. Inr \<lparr>hs_config = config, hs_client = None, hs_turn = None, hs_past = []\<rparr>)"

text \<open>\<open>state.client.take()\<close>: the client is dropped.\<close>

definition drop_client :: "AppServerClient \<Rightarrow> HostState \<Rightarrow> HostState" where
  "drop_client client state = state\<lparr>hs_client := None, hs_past := jl_log (asc_protocol client) # hs_past state\<rparr>"

definition resume_policy :: "string \<Rightarrow> AppServerConfig \<Rightarrow> AppServerConfig" where
  "resume_policy thread_id config =
     (case cfg_thread config of Create _ \<Rightarrow> config\<lparr>cfg_thread := Resume thread_id\<rparr> | Resume _ \<Rightarrow> config)"

definition host_start :: "json_lib \<Rightarrow> string \<Rightarrow> launch_env \<Rightarrow> child_env \<Rightarrow> (HostState, HostFailure, string) op" where
  "host_start L version E C state =
     (if hs_client state \<noteq> None then (Inl RetryableBeforeStart, state)
      else case launch L version E (hs_config state) of
        (Inl e, log) \<Rightarrow> (Inl (classify_start e), state\<lparr>hs_past := log # hs_past state\<rparr>)
      | (Inr client, _) \<Rightarrow>
          (let state = state\<lparr>hs_config := resume_policy (asc_thread_id client) (hs_config state)\<rparr> in
           case start_turn L client of
             (Inl e, client1) \<Rightarrow> (Inl (classify_start e), drop_client (snd (client_shutdown C client1)) state)
           | (Inr turn_id, client1) \<Rightarrow> (Inr turn_id, state\<lparr>hs_client := Some client1, hs_turn := Some turn_id\<rparr>)))"

text \<open>\<open>CodexTurn::completed\<close>; \<open>None\<close> is the panic of its \<open>expect\<close>.\<close>

definition turn_completed :: "json_lib \<Rightarrow> child_env \<Rightarrow> string \<Rightarrow> HostState \<Rightarrow> ((HostFailure + unit) \<times> HostState) option" where
  "turn_completed L C turn_id state =
     (case hs_client state of
        None \<Rightarrow> None
      | Some client \<Rightarrow>
          (case wait_completed L turn_id client of (completion, client1) \<Rightarrow>
           case client_shutdown C client1 of (ended, client2) \<Rightarrow>
             Some (map_err (\<lambda>_. HostFailure.OutcomeUnknown) (rbind completion (\<lambda>_. ended)),
               (drop_client client2 state)\<lparr>hs_turn := None\<rparr>)))"

definition host_shutdown :: "child_env \<Rightarrow> (HostState, AppServerError, unit) op" where
  "host_shutdown C state =
     (case hs_client state of
        None \<Rightarrow> (Inr (), state)
      | Some client \<Rightarrow>
          (case client_shutdown C client of
             (Inl e, client1) \<Rightarrow> (Inl e, state\<lparr>hs_client := Some client1\<rparr>)
           | (Inr _, client1) \<Rightarrow> (Inr (), drop_client client1 state)))"

text \<open>
  Whoever calls the host waits for its mutex, which a turn holds until it completes or is dropped.
\<close>

inductive host_step :: "json_lib \<Rightarrow> string \<Rightarrow> HostState \<Rightarrow> HostState \<Rightarrow> bool" for L version where
  start: "hs_turn state = None \<Longrightarrow> host_step L version state (snd (host_start L version E C state))"
| completed: "hs_turn state = Some turn_id \<Longrightarrow> turn_completed L C turn_id state = Some (r, state') \<Longrightarrow> host_step L version state state'"
| dropped: "hs_turn state = Some turn_id \<Longrightarrow> host_step L version state (state\<lparr>hs_turn := None\<rparr>)"
| shutdown: "hs_turn state = None \<Longrightarrow> host_step L version state (snd (host_shutdown C state))"

inductive_cases host_stepE: "host_step L version state state'"

inductive host_reachable :: "json_lib \<Rightarrow> string \<Rightarrow> AppServerConfig \<Rightarrow> HostState \<Rightarrow> bool" for L version config where
  prepared: "prepare schema config = Inr state \<Longrightarrow> host_reachable L version config state"
| stepped: "host_reachable L version config state \<Longrightarrow> host_step L version state state' \<Longrightarrow> host_reachable L version config state'"

section \<open>Every turn keeps to the ledger\<close>

lemma read_message_triple: "op_triple in_step (on_wire (read_with_timeout L)) (\<lambda>_. in_step) accepted"
proof -
  have "ledger (jl_log p') = Some (None, held)"
    if "read_with_timeout L p = (r, p')" "ledger (jl_log p) = Some (None, held)" for p r p' held
    using that read_from_wire_log [of L p r p']
    by (auto simp: read_with_timeout_def split: list.splits sum.splits)
  then show ?thesis
    by (intro op_tripleI) (auto simp: in_step_def accepted_def dest!: on_wire_result)
qed

lemma wait_completed_accepted: "in_step self \<Longrightarrow> wait_completed L turn self = (r, self') \<Longrightarrow> accepted self'"
proof (induction L turn self rule: wait_completed.induct)
  case (1 L turn self)
  obtain s self1 where read: "on_wire (read_with_timeout L) self = (s, self1)" by fastforce
  show ?case
  proof (cases s)
    case (Inl e)
    then have "self' = self1" using 1(4) read by (simp add: wait_completed.simps)
    then show ?thesis using op_triple_Inl [OF read_message_triple 1(3)] read Inl by blast
  next
    case (Inr message)
    then have step: "in_step self1" using op_triple_Inr [OF read_message_triple 1(3)] read by blast
    show ?thesis
    proof (cases "str_field ''method'' message = Some ''item/tool/call''")
      case True
      obtain t self2 where handled: "handle_tool_call L message turn self1 = (t, self2)" by fastforce
      show ?thesis
      proof (cases t)
        case (Inl e)
        then have "self' = self2" using 1(4) read Inr True handled by (simp add: wait_completed.simps)
        then show ?thesis using op_triple_Inl [OF handle_tool_call_triple step] handled Inl by blast
      next
        case (Inr u)
        then have "in_step self2" using op_triple_Inr [OF handle_tool_call_triple step] handled by blast
        moreover have "wait_completed L turn self2 = (r, self')"
          using 1(4) read \<open>s = Inr message\<close> True handled Inr by (simp add: wait_completed.simps [of L turn self])
        ultimately show ?thesis using 1(1) read \<open>s = Inr message\<close> True handled Inr by metis
      qed
    next
      case False
      show ?thesis
      proof (cases "completion_result message (asc_thread_id self1) turn")
        case None
        then have "wait_completed L turn self1 = (r, self')"
          using 1(4) read Inr False by (simp add: wait_completed.simps [of L turn self])
        then show ?thesis using 1(2) step read Inr False None by metis
      next
        case (Some result)
        then have "self' = self1" using 1(4) read Inr False by (simp add: wait_completed.simps)
        then show ?thesis using step in_step_accepted by blast
      qed
    qed
  qed
qed

text \<open>No tool call waits on the wire.\<close>

definition quiet_wire :: "JsonLines \<Rightarrow> bool" where
  "quiet_wire p \<longleftrightarrow> (\<exists>held. ledger (jl_log p) = Some (None, held))"

definition lawful_wire :: "JsonLines \<Rightarrow> bool" where
  "lawful_wire p \<longleftrightarrow> ledger (jl_log p) \<noteq> None"

lemma request_triple:
  "method \<noteq> ''mcpServer/tool/call'' \<Longrightarrow> op_triple quiet_wire (wire_request L rid method params) (\<lambda>_. quiet_wire) lawful_wire"
  by (rule op_tripleI) (fastforce simp: quiet_wire_def lawful_wire_def await_post_def dest: other_request_ledger)+

lemma notification_triple: "op_triple quiet_wire (wire_notification L ''initialized'' params) (\<lambda>_. quiet_wire) lawful_wire"
proof -
  have "no_tool_call (JObject [(''method'', JString ''initialized''), (''params'', params)])"
    by (simp add: no_tool_call_def str_field_def)
  then show ?thesis
    by (intro op_tripleI) (auto simp: quiet_wire_def lawful_wire_def wire_notification_def dest!: wire_write_ledger)
qed

lemma initialize_thread_triple:
  "op_triple quiet_wire (initialize_thread L version persist config) (\<lambda>_. quiet_wire) lawful_wire"
  unfolding initialize_thread_def
proof (rule op_triple_bind [OF request_triple op_triple_bind [OF notification_triple op_triple_bind [OF request_triple op_triple_return]]])
  show "fst (thread_request config) \<noteq> ''mcpServer/tool/call''"
    by (simp add: thread_request_def split: ThreadPolicy.splits)
qed (auto simp: quiet_wire_def lawful_wire_def split: sum.splits)

lemma other_request_in_step:
  assumes "method \<noteq> ''mcpServer/tool/call''"
  shows "op_triple in_step (\<lambda>self. on_wire (wire_request L rid method (params self)) self) (\<lambda>_. in_step) accepted"
  using assms
  by (intro op_tripleI)
    (fastforce simp: in_step_def accepted_def await_post_def dest!: on_wire_result dest: other_request_ledger)+

lemma start_turn_triple: "op_triple (\<lambda>self. quiet_wire (asc_protocol self)) (start_turn L) (\<lambda>_. in_step) accepted"
proof -
  have "op_triple in_step (op_bind take_id (\<lambda>rid.
     op_bind (\<lambda>self. on_wire (wire_request L rid ''turn/start'' (turn_start_params self)) self) (\<lambda>response.
     op_return (identifier_of (json_pointer [''turn'', ''id''] response))))) (\<lambda>_. in_step) accepted"
    by (rule op_triple_bind [OF take_id_triple op_triple_bind [OF other_request_in_step op_triple_return]])
      (auto simp: in_step_accepted split: sum.splits)
  then show ?thesis
    by (simp add: op_triple_def start_turn_def quiet_wire_def in_step_def)
qed

lemma client_shutdown_log: "client_shutdown C self = (r, self') \<Longrightarrow> jl_log (asc_protocol self') = jl_log (asc_protocol self)"
  by (auto simp: client_shutdown_def wire_close_def Let_def split: option.splits bool.splits if_splits)

lemma launch_lawful:
  assumes "launch L version E config = (r, log)"
  shows "ledger log \<noteq> None" and "r = Inr client \<Longrightarrow> quiet_wire (asc_protocol client)"
proof -
  have start: "quiet_wire (JsonLines_new stdout stdin)" for stdout stdin
    by (simp add: quiet_wire_def JsonLines_new_def)
  show "ledger log \<noteq> None" "r = Inr client \<Longrightarrow> quiet_wire (asc_protocol client)"
    using assms op_triple_Inl [OF initialize_thread_triple start] op_triple_Inr [OF initialize_thread_triple start]
    by (fastforce simp: launch_def client_of_def quiet_wire_def lawful_wire_def split: sum.splits option.splits prod.splits)+
qed

section \<open>The host invariant\<close>

definition host_ok :: "HostState \<Rightarrow> bool" where
  "host_ok state \<longleftrightarrow>
     (\<forall>log \<in> set (hs_past state). ledger log \<noteq> None)
     \<and> (\<forall>client. hs_client state = Some client \<longrightarrow> accepted client)
     \<and> (hs_turn state \<noteq> None \<longrightarrow> (\<exists>client. hs_client state = Some client \<and> in_step client))"

lemma drop_client_ok:
  "host_ok state \<Longrightarrow> accepted client \<Longrightarrow> host_ok ((drop_client client state)\<lparr>hs_turn := None\<rparr>)"
  by (simp add: host_ok_def drop_client_def accepted_def)

lemma host_start_ok:
  assumes "host_ok state" and "hs_turn state = None"
  shows "host_ok (snd (host_start L version E C state))"
proof (cases "hs_client state")
  case None
  obtain r log where launched: "launch L version E (hs_config state) = (r, log)" by fastforce
  show ?thesis
  proof (cases r)
    case (Inl e)
    then show ?thesis using assms None launched launch_lawful(1) [OF launched] by (simp add: host_start_def host_ok_def)
  next
    case (Inr client)
    obtain t client1 where started: "start_turn L client = (t, client1)" by fastforce
    have quiet: "quiet_wire (asc_protocol client)" using launch_lawful(2) [OF launched Inr] .
    obtain u client2 where ended: "client_shutdown C client1 = (u, client2)" by fastforce
    show ?thesis
    proof (cases t)
      case (Inl e)
      then have "accepted client1" using op_triple_Inl [OF start_turn_triple] quiet started by blast
      then show ?thesis
        using assms None launched Inr started Inl ended client_shutdown_log [OF ended]
        by (simp add: host_start_def Let_def host_ok_def drop_client_def accepted_def)
    next
      case (Inr turn_id)
      then have "in_step client1" using op_triple_Inr [OF start_turn_triple] quiet started by blast
      then show ?thesis
        using assms None launched \<open>r = Inr client\<close> started Inr
        by (simp add: host_start_def Let_def host_ok_def in_step_accepted)
    qed
  qed
qed (simp add: host_start_def assms)

lemma turn_completed_ok:
  assumes "host_ok state" and "hs_turn state = Some turn_id" and "turn_completed L C turn_id state = Some (r, state')"
  shows "host_ok state'"
proof -
  obtain client where client: "hs_client state = Some client" "in_step client"
    using assms(1,2) by (auto simp: host_ok_def)
  obtain completion client1 where waited: "wait_completed L turn_id client = (completion, client1)" by fastforce
  obtain ended client2 where ended: "client_shutdown C client1 = (ended, client2)" by fastforce
  have "accepted client2"
    using wait_completed_accepted [OF client(2) waited] client_shutdown_log [OF ended] by (simp add: accepted_def)
  then show ?thesis
    using assms(1,3) client(1) waited ended drop_client_ok by (auto simp: turn_completed_def)
qed

lemma host_shutdown_ok:
  assumes "host_ok state" and "hs_turn state = None"
  shows "host_ok (snd (host_shutdown C state))"
proof (cases "hs_client state")
  case (Some client)
  obtain r client1 where ended: "client_shutdown C client = (r, client1)" by fastforce
  then show ?thesis
    using assms Some client_shutdown_log [OF ended]
    by (cases r) (auto simp: host_shutdown_def host_ok_def drop_client_def accepted_def)
qed (simp add: host_shutdown_def assms)

lemma host_step_ok: "host_step L version state state' \<Longrightarrow> host_ok state \<Longrightarrow> host_ok state'"
  by (erule host_stepE) (auto intro: host_start_ok host_shutdown_ok turn_completed_ok, simp add: host_ok_def)

lemma host_reachable_ok: "host_reachable L version config state \<Longrightarrow> host_ok state"
proof (induction rule: host_reachable.induct)
  case (prepared schema state)
  then show ?case by (auto simp: prepare_def result_simps host_ok_def)
qed (rule host_step_ok)

text \<open>The transcripts of all the clients a host has had, the present one first.\<close>

definition transcripts :: "HostState \<Rightarrow> wire_event list list" where
  "transcripts state = (case hs_client state of None \<Rightarrow> [] | Some client \<Rightarrow> [jl_log (asc_protocol client)]) @ hs_past state"

section \<open>A turn that completes was completed\<close>

text \<open>The wire only grows: what is pending was received.\<close>

definition wire_grows :: "JsonLines \<Rightarrow> JsonLines \<Rightarrow> bool" where
  "wire_grows p p' \<longleftrightarrow> set (jl_log p) \<subseteq> set (jl_log p')
     \<and> (\<forall>m \<in> set (jl_pending p'). m \<in> set (jl_pending p) \<or> Received m \<in> set (jl_log p'))"

lemma wire_grows_refl [simp]: "wire_grows p p"
  by (simp add: wire_grows_def)

lemma wire_grows_trans: "wire_grows p p' \<Longrightarrow> wire_grows p' p'' \<Longrightarrow> wire_grows p p''"
  by (fastforce simp: wire_grows_def)

lemma wire_write_grows: "wire_write L v p = (r, p') \<Longrightarrow> wire_grows p p'"
  by (auto simp: wire_grows_def wire_write_def logged_def split: option.splits if_splits list.splits bool.splits)

lemma read_from_wire_grows:
  "read_from_wire L p = (r, p') \<Longrightarrow> wire_grows p p' \<and> (\<forall>v. r = Inr v \<longrightarrow> Received v \<in> set (jl_log p'))"
  by (auto simp: wire_grows_def read_from_wire_def logged_def Let_def split: list.splits line_read.splits if_splits option.splits)

lemma await_response_grows: "await_response L rid p = (r, p') \<Longrightarrow> wire_grows p p'"
proof (induction L rid p rule: await_response.induct)
  case (1 L rid p)
  obtain s p1 where read: "read_from_wire L p = (s, p1)" by fastforce
  note first = read_from_wire_grows [OF read]
  show ?case
  proof (cases "\<exists>message. s = Inr message \<and> Option.bind (json_get ''id'' message) as_u64 \<noteq> Some rid")
    case True
    then obtain message where "s = Inr message" "Option.bind (json_get ''id'' message) as_u64 \<noteq> Some rid" by blast
    moreover from this have "wire_grows p1 (p1\<lparr>jl_pending := jl_pending p1 @ [message]\<rparr>)"
      using first by (auto simp: wire_grows_def)
    ultimately show ?thesis
      using 1(1) [OF read [symmetric]] 1(2) read first
      by (auto simp: await_response.simps [of L rid p] intro: wire_grows_trans)
  next
    case False
    then show ?thesis using 1(2) read first by (cases s) (auto simp: await_response.simps [of L rid p] split: if_splits)
  qed
qed

lemma wire_request_grows: "wire_request L rid method params p = (r, p') \<Longrightarrow> wire_grows p p'"
  unfolding wire_request_def
  by (elim op_bind_cases) (auto dest!: wire_write_grows await_response_grows intro: wire_grows_trans)

lemma read_with_timeout_grows:
  "read_with_timeout L p = (r, p') \<Longrightarrow> wire_grows p p' \<and> (\<forall>v. r = Inr v \<longrightarrow> v \<in> set (jl_pending p) \<or> Received v \<in> set (jl_log p'))"
  using read_from_wire_grows [of L p r p']
  by (auto simp: read_with_timeout_def wire_grows_def split: list.splits)

lemma handle_tool_call_grows:
  assumes "handle_tool_call L message turn self = (r, self')"
  shows "wire_grows (asc_protocol self) (asc_protocol self') \<and> asc_thread_id self' = asc_thread_id self"
  using assms unfolding handle_tool_call_def Let_def
  by (elim op_bind_cases)
    (auto simp: wire_response_def split: if_splits
      dest!: take_id_keeps settle_call_keeps on_wire_result wire_write_grows wire_request_grows
      intro: wire_grows_trans)

definition completes :: "json \<Rightarrow> string \<Rightarrow> string \<Rightarrow> bool" where
  "completes message thread turn \<longleftrightarrow>
     str_field ''method'' message = Some ''turn/completed''
     \<and> Option.bind (json_pointer [''params'', ''threadId''] message) as_str = Some thread
     \<and> (\<exists>t. json_pointer [''params'', ''turn''] message = Some t
          \<and> str_field ''id'' t = Some turn \<and> str_field ''status'' t = Some ''completed'')"

lemma completion_result_Inr: "completion_result message thread turn = Some (Inr u) \<Longrightarrow> completes message thread turn"
  by (auto simp: completion_result_def completes_def split: if_splits option.splits)

lemma wait_completed_completes:
  "wait_completed L turn self = (Inr u, self') \<Longrightarrow> \<forall>m \<in> set (jl_pending (asc_protocol self)). Received m \<in> set (jl_log (asc_protocol self))
    \<Longrightarrow> \<exists>message. Received message \<in> set (jl_log (asc_protocol self')) \<and> completes message (asc_thread_id self) turn"
proof (induction L turn self rule: wait_completed.induct)
  case (1 L turn self)
  obtain message self1 where read: "on_wire (read_with_timeout L) self = (Inr message, self1)"
    using 1(3) by (auto simp: wait_completed.simps [of L turn self] split: prod.splits sum.splits)
  then have grown: "wire_grows (asc_protocol self) (asc_protocol self1)" "asc_thread_id self1 = asc_thread_id self"
      "Received message \<in> set (jl_log (asc_protocol self1))"
    using 1(4) by (auto dest!: on_wire_result read_with_timeout_grows simp: wire_grows_def subset_iff)
  then have pending1: "\<forall>m \<in> set (jl_pending (asc_protocol self1)). Received m \<in> set (jl_log (asc_protocol self1))"
    using 1(4) by (auto simp: wire_grows_def)
  show ?case
  proof (cases "str_field ''method'' message = Some ''item/tool/call''")
    case True
    then obtain v self2 where handled: "handle_tool_call L message turn self1 = (Inr v, self2)"
        and rest: "wait_completed L turn self2 = (Inr u, self')"
      using 1(3) read by (auto simp: wait_completed.simps [of L turn self] split: prod.splits sum.splits)
    have "\<forall>m \<in> set (jl_pending (asc_protocol self2)). Received m \<in> set (jl_log (asc_protocol self2))"
      using handle_tool_call_grows [OF handled] pending1 by (auto simp: wire_grows_def)
    then show ?thesis
      using 1(1) [OF read [symmetric] refl True handled [symmetric] refl rest] handle_tool_call_grows [OF handled] grown by simp
  next
    case False
    show ?thesis
    proof (cases "completion_result message (asc_thread_id self1) turn")
      case None
      then have "wait_completed L turn self1 = (Inr u, self')"
        using 1(3) read False by (simp add: wait_completed.simps [of L turn self])
      then show ?thesis using 1(2) [OF read [symmetric] refl False None _ pending1] grown by simp
    next
      case (Some result)
      then have "result = Inr u" "self' = self1" using 1(3) read False by (simp_all add: wait_completed.simps [of L turn self])
      then show ?thesis using completion_result_Inr Some grown by (metis (full_types))
    qed
  qed
qed

lemma start_pending:
  assumes "host_start L version E C state = (Inr turn_id, state')"
  obtains client where "hs_client state' = Some client"
    and "\<forall>m \<in> set (jl_pending (asc_protocol client)). Received m \<in> set (jl_log (asc_protocol client))"
proof -
  obtain client0 log client where launched: "launch L version E (hs_config state) = (Inr client0, log)"
      and started: "start_turn L client0 = (Inr turn_id, client)" and present: "hs_client state' = Some client"
    using assms by (auto simp: host_start_def Let_def split: if_splits prod.splits sum.splits)
  obtain stdout stdin persist where init:
      "initialize_thread L version persist (hs_config state) (JsonLines_new stdout stdin) = (Inr (asc_thread_id client0), asc_protocol client0)"
    using launched by (auto simp: launch_def client_of_def split: sum.splits option.splits prod.splits)
  have "wire_grows (JsonLines_new stdout stdin) (asc_protocol client0)"
    using init unfolding initialize_thread_def
    by (elim op_bind_cases) (auto simp: wire_notification_def dest!: wire_request_grows wire_write_grows intro: wire_grows_trans)
  moreover have "wire_grows (asc_protocol client0) (asc_protocol client)"
    using started unfolding start_turn_def
    by (elim op_bind_cases) (auto dest!: take_id_keeps on_wire_result wire_request_grows)
  ultimately have "wire_grows (JsonLines_new stdout stdin) (asc_protocol client)" by (rule wire_grows_trans)
  then have "\<forall>m \<in> set (jl_pending (asc_protocol client)). Received m \<in> set (jl_log (asc_protocol client))"
    by (simp add: wire_grows_def JsonLines_new_def)
  with present show ?thesis by (rule that)
qed

section \<open>Properties\<close>

text \<open>
  (C13) Whatever the App Server sends and however launching, the wire and the process fail: in every
  transcript of every client the wake host has had, the tool calls forwarded to the Psst MCP server keep
  to the ledger, so every message a frame acknowledges was handed out by an answer received earlier on
  the same wire; and a turn that holds the host always has the client its completion unwraps.
\<close>

theorem wake_turns_acknowledge_only_what_they_retrieved:
  assumes "host_reachable L version config state"
  shows "(\<forall>log \<in> set (transcripts state). ledger log \<noteq> None
      \<and> (\<forall>pre frame post. log = pre @ wire_event.Sent frame # post \<longrightarrow>
           acknowledges frame \<subseteq> (\<Union>message \<in> {m. Received m \<in> set pre}. handed_out message)))
    \<and> (\<forall>turn_id C. hs_turn state = Some turn_id \<longrightarrow> turn_completed L C turn_id state \<noteq> None)"
proof -
  have ok: "host_ok state" using assms by (rule host_reachable_ok)
  then have lawful: "ledger log \<noteq> None" if "log \<in> set (transcripts state)" for log
    using that by (auto simp: host_ok_def transcripts_def accepted_def split: option.splits)
  have unwraps: "turn_completed L C turn_id state \<noteq> None" if "hs_turn state = Some turn_id" for turn_id C
    using ok that by (auto simp: host_ok_def turn_completed_def split: prod.splits)
  show ?thesis
  proof (intro conjI ballI allI impI)
    fix log pre frame post
    assume "log \<in> set (transcripts state)" "log = pre @ wire_event.Sent frame # post"
    then have "ledger (pre @ wire_event.Sent frame # post) \<noteq> None" using lawful by blast
    then show "acknowledges frame \<subseteq> (\<Union>message \<in> {m. Received m \<in> set pre}. handed_out message)"
      by (rule ledger_acknowledges)
  qed (fact lawful unwraps)+
qed

text \<open>
  A wake succeeds only where the turn did: when starting gave a turn and awaiting it returns without
  an error, the App Server had sent \<open>turn/completed\<close> for this thread and this turn with the status
  \<open>completed\<close>, and the host owns no process any more.
\<close>

theorem successful_wake_was_completed:
  assumes "host_start L version E C state = (Inr turn_id, started)"
    and "turn_completed L C' turn_id started = Some (Inr u, ended)"
  shows "hs_client ended = None \<and> hs_turn ended = None
    \<and> (\<exists>client. hs_client started = Some client
        \<and> (\<exists>message. Received message \<in> set (hd (hs_past ended)) \<and> completes message (asc_thread_id client) turn_id))"
proof -
  obtain client where client: "hs_client started = Some client"
      "\<forall>m \<in> set (jl_pending (asc_protocol client)). Received m \<in> set (jl_log (asc_protocol client))"
    using start_pending [OF assms(1)] .
  obtain client1 client2 v where waited: "wait_completed L turn_id client = (Inr v, client1)"
      and closed: "client_shutdown C' client1 = (Inr u, client2)"
      and ended: "ended = (drop_client client2 started)\<lparr>hs_turn := None\<rparr>"
    using assms(2) client(1) by (auto simp: turn_completed_def result_simps split: prod.splits)
  have "\<exists>message. Received message \<in> set (jl_log (asc_protocol client1)) \<and> completes message (asc_thread_id client) turn_id"
    using waited client(2) by (rule wait_completed_completes)
  then show ?thesis
    using client(1) client_shutdown_log [OF closed] by (auto simp: ended drop_client_def)
qed

section \<open>A sample wake\<close>

text \<open>
  One wake from launch to completion: the turn retrieves the message \<open>m1\<close>, acknowledges it and
  completes. The lines of the App Server are numbered, and decoding looks the number up.
\<close>

definition sample_answer :: "nat \<Rightarrow> json \<Rightarrow> json" where
  "sample_answer rid result = JObject [(''id'', json_u64 rid), (''result'', result)]"

definition sample_tool_call :: "string \<Rightarrow> string \<Rightarrow> (string \<times> json) list \<Rightarrow> json" where
  "sample_tool_call rid tool arguments =
     JObject [(''id'', JString rid), (''method'', JString ''item/tool/call''),
       (''params'', JObject [(''threadId'', JString ''t1''), (''turnId'', JString ''u1''), (''tool'', JString tool),
          (''arguments'', JObject arguments)])]"

definition sample_messages :: "(string \<times> json) list" where
  "sample_messages = [
     (''1'', sample_answer 1 (JObject [])),
     (''2'', sample_answer 2 (JObject [(''thread'', JObject [(''id'', JString ''t1'')])])),
     (''3'', sample_answer 3 (JObject [(''turn'', JObject [(''id'', JString ''u1'')])])),
     (''4'', sample_tool_call ''a'' RECEIVE_TOOL [(''acknowledge_ids'', JArray [])]),
     (''5'', sample_answer 4 (JObject [(''structuredContent'',
        JObject [(''messages'', JArray [JObject [(''id'', JString ''m1'')]])])])),
     (''6'', sample_tool_call ''b'' ACKNOWLEDGE_TOOL [(''message_ids'', JArray [JString ''m1''])]),
     (''7'', sample_answer 5 (JObject [(''structuredContent'', JObject [(''acknowledged_ids'', JArray [JString ''m1''])])])),
     (''8'', JObject [(''method'', JString ''turn/completed''), (''params'', JObject [(''threadId'', JString ''t1''),
        (''turn'', JObject [(''id'', JString ''u1''), (''status'', JString ''completed'')])])])]"

definition sample_json :: json_lib where
  "sample_json = \<lparr>to_vec = (\<lambda>_. Some ''{}''), from_slice = map_of sample_messages\<rparr>"

definition sample_config :: AppServerConfig where
  "sample_config = \<lparr>cfg_command = ''/codex'', cfg_mcp_command = ''/psst-mcp'', cfg_mcp_environment = [],
     cfg_thread = Resume ''t1'', cfg_cwd = ''/w''\<rparr>"

definition sample_launch :: launch_env where
  "sample_launch = \<lparr>le_spawned = Some (map (\<lambda>m. ReadUntil (fst m @ ''\<newline>'')) sample_messages, []), le_unicode = (\<lambda>_. True),
     le_os = \<lparr>os_fail = (\<lambda>_. None), os_partial = (\<lambda>b. b), os_mode = 384, os_link_leads = False\<rparr>,
     le_record_name = (\<lambda>p. p), le_record_dir = \<lparr>dir_live = Map.empty, dir_past = []\<rparr>\<rparr>"

definition sample_child :: child_env where
  "sample_child = \<lparr>ce_try_wait = Some False, ce_wait = Some True, ce_kill = True, ce_reap = None\<rparr>"

definition sample_host_state :: HostState where
  "sample_host_state = \<lparr>hs_config = sample_config, hs_client = None, hs_turn = None, hs_past = []\<rparr>"

definition sample_started :: HostState where
  "sample_started = snd (host_start sample_json ''1'' sample_launch sample_child sample_host_state)"

definition sample_finished :: HostState where
  "sample_finished = snd (the (turn_completed sample_json sample_child ''u1'' sample_started))"

lemmas sample_defs = sample_answer_def sample_tool_call_def sample_messages_def sample_json_def sample_config_def sample_launch_def
  sample_child_def sample_host_state_def RECEIVE_TOOL_def ACKNOWLEDGE_TOOL_def MAX_FRAME_BYTES_def

lemmas wire_eval = op_bind_def wire_write_def read_from_wire_def read_with_timeout_def wire_request_def wire_notification_def
  wire_response_def await_response.simps logged_def JsonLines_new_def str_field_def identifier_of_def option_filter_def
  valid_identifier_def eval_simps

lemmas turn_eval = host_start_def launch_def mcp_override_def initialize_thread_def thread_request_def client_of_def
  start_turn_def take_id_def on_wire_def turn_completed_def wait_completed.simps handle_tool_call_def parse_tool_call_def wake_tool_def
  message_ids_def settle_call_def received_message_ids_def acknowledged_message_ids_def call_output_def tool_params_def
  completion_result_def client_shutdown_def wire_close_def drop_client_def resume_policy_def transcripts_def

lemma sample_started_turn:
  "fst (host_start sample_json ''1'' sample_launch sample_child sample_host_state) = Inr ''u1''"
  "hs_turn sample_started = Some ''u1''"
  by (simp_all add: sample_started_def turn_eval sample_defs wire_eval)

lemma sample_completed_turn:
  "map_option fst (turn_completed sample_json sample_child ''u1'' sample_started) = Some (Inr ())"
  by (simp add: sample_started_def turn_eval sample_defs wire_eval)

lemma sample_transcripts:
  "length (transcripts sample_finished) = 1"
  "list_ex (\<lambda>e. case e of wire_event.Sent frame \<Rightarrow> acknowledges frame = {''m1''} | _ \<Rightarrow> False) (hd (transcripts sample_finished))"
  by (simp_all add: sample_finished_def sample_started_def turn_eval sample_defs wire_eval acknowledges_def named_ids_def)

lemma sample_wake_started:
  "host_start sample_json ''1'' sample_launch sample_child sample_host_state = (Inr ''u1'', sample_started)"
  "turn_completed sample_json sample_child ''u1'' sample_started = Some (Inr (), sample_finished)"
  using sample_started_turn(1) sample_completed_turn by (auto simp: sample_started_def sample_finished_def prod_eq_iff)

lemma sample_wake_reachable: "host_reachable sample_json ''1'' sample_config sample_finished"
proof -
  have "host_reachable sample_json ''1'' sample_config sample_host_state"
    by (rule host_reachable.prepared [of "Inr ()"]) (simp add: prepare_def sample_host_state_def)
  then have "host_reachable sample_json ''1'' sample_config sample_started"
    unfolding sample_started_def
    by (rule host_reachable.stepped) (rule host_step.start, simp add: sample_host_state_def)
  then show ?thesis
    by (rule host_reachable.stepped)
      (rule host_step.completed [OF sample_started_turn(2) sample_wake_started(2)])
qed

theorem wake_turns_acknowledge_only_what_they_retrieved_witness:
  "host_reachable sample_json ''1'' sample_config sample_finished \<and> ledger (hd (transcripts sample_finished)) \<noteq> None
    \<and> (\<exists>frame. wire_event.Sent frame \<in> set (hd (transcripts sample_finished)) \<and> acknowledges frame = {''m1''})"
proof -
  have "hd (transcripts sample_finished) \<in> set (transcripts sample_finished)"
    using sample_transcripts(1) by (cases "transcripts sample_finished") simp_all
  then have "ledger (hd (transcripts sample_finished)) \<noteq> None"
    using wake_turns_acknowledge_only_what_they_retrieved [OF sample_wake_reachable] by blast
  moreover have "\<exists>frame. wire_event.Sent frame \<in> set (hd (transcripts sample_finished)) \<and> acknowledges frame = {''m1''}"
  proof -
    obtain e where "e \<in> set (hd (transcripts sample_finished))"
        "case e of wire_event.Sent frame \<Rightarrow> acknowledges frame = {''m1''} | _ \<Rightarrow> False"
      using sample_transcripts(2) by (auto simp: list_ex_iff)
    then show ?thesis by (cases e rule: wire_event.exhaust) auto
  qed
  ultimately show ?thesis using sample_wake_reachable by blast
qed

theorem successful_wake_was_completed_witness:
  "turn_completed sample_json sample_child ''u1'' sample_started = Some (Inr (), sample_finished)
    \<and> hs_client sample_finished = None
    \<and> (\<exists>message. Received message \<in> set (hd (hs_past sample_finished)) \<and> (\<exists>thread. completes message thread ''u1''))"
  using successful_wake_was_completed [OF sample_wake_started] sample_wake_started(2) by blast

end
