(* ===== verification/Codex_Bootstrap.thy ===== *)
theory Codex_Bootstrap
  imports Codex_Host
begin

text \<open>
  How the Codex wake observer is put together (\<open>psst-codex/src/bootstrap.rs\<close>): the source that holds a
  session only while it watches the inbox, and the order in which the parts are started and stopped.
\<close>

section \<open>Failures\<close>

fun classify_session :: "SessionError \<Rightarrow> ObservationFailure" where
  "classify_session (SessionError.Relay (Error.Transport _)) = Retryable"
| "classify_session (SessionError.Relay Error.Timeout) = Retryable"
| "classify_session (SessionError.Relay Error.OutcomeUnknown) = Retryable"
| "classify_session (SessionError.Relay Error.ClientBusy) = Retryable"
| "classify_session (SessionError.Relay (Error.RetryExhausted _ _)) = Retryable"
| "classify_session (SessionError.Relay (Error.Api _ _ True)) = Retryable"
| "classify_session SessionError.NotReady = Retryable"
| "classify_session SessionError.OperationCapacity = Retryable"
| "classify_session SessionError.SendCapacity = Retryable"
| "classify_session (SessionError.Local e) =
     (if io_kind e = AddrInUse \<or> io_kind e = WouldBlock then Retryable else ObservationFailure.Permanent)"
| "classify_session _ = ObservationFailure.Permanent"

definition map_io :: "io_error \<Rightarrow> AppServerError" where
  "map_io e = Configuration"

definition map_session_start :: "SessionError \<Rightarrow> AppServerError" where
  "map_session_start e =
     (case classify_session e of Retryable \<Rightarrow> Launch | ObservationFailure.Permanent \<Rightarrow> Configuration)"

section \<open>The source\<close>

text \<open>\<open>wake_from_inbox\<close> of this file.\<close>

definition codex_wake_from_inbox :: "string \<Rightarrow> string \<Rightarrow> InboxResponse \<Rightarrow> ObservationFailure + WakeMetadata option" where
  "codex_wake_from_inbox profile squad response =
     (if ibr_pending_count response = 0 then Inr None
      else rbind (ok_or ObservationFailure.Permanent (ibr_highest_priority response)) (\<lambda>highest_priority.
        rbind (ok_or ObservationFailure.Permanent (ibr_oldest_message_id response)) (\<lambda>oldest_message_id.
        map_err (\<lambda>_. ObservationFailure.Permanent)
          (rbind (WakeMetadata_new profile squad (ibr_pending_count response) highest_priority oldest_message_id)
            (\<lambda>w. Inr (Some w))))))"

text \<open>
  A session as the source uses it (\<open>SessionRuntime\<close>): how starting one goes, its inbox operation, and
  how ending it goes. The slot holds the session while the source watches.
\<close>

record 'r session_env =
  se_start :: "SessionError + 'r"
  se_inbox :: "'r \<Rightarrow> nat \<Rightarrow> nat \<Rightarrow> SessionError + InboxResponse"
  se_shutdown :: "'r \<Rightarrow> SessionError + unit"

record CyclingSessionSource =
  css_squad_name :: string
  css_profile :: string

definition ensure_runtime :: "'r session_env \<Rightarrow> ('r option, ObservationFailure, 'r) op" where
  "ensure_runtime E slot =
     (case slot of
        Some runtime \<Rightarrow> (Inr runtime, slot)
      | None \<Rightarrow>
          (case se_start E of
             Inl e \<Rightarrow> (Inl (classify_session e), slot)
           | Inr runtime \<Rightarrow> (Inr runtime, Some runtime)))"

definition cycling_observe ::
  "CyclingSessionSource \<Rightarrow> 'r session_env \<Rightarrow> Duration \<Rightarrow> ('r option, ObservationFailure, WakeMetadata option) op" where
  "cycling_observe self E wait =
     op_bind (ensure_runtime E) (\<lambda>runtime.
     let wait_seconds = min (nat (as_secs wait)) 30 in
     op_bind (op_return (map_err classify_session (se_inbox E runtime 100 wait_seconds))) (\<lambda>inbox.
     op_bind (op_return (codex_wake_from_inbox (css_profile self) (css_squad_name self) inbox)) (\<lambda>wake.
     if wake = None then op_return (Inr None)
     else op_bind (op_return (map_err (\<lambda>_. ObservationFailure.Permanent) (se_shutdown E runtime))) (\<lambda>_.
       (\<lambda>slot. (Inr wake, None))))))"

definition source_shutdown :: "'r session_env \<Rightarrow> ('r option, AppServerError, unit) op" where
  "source_shutdown E slot =
     (case slot of
        None \<Rightarrow> (Inr (), slot)
      | Some runtime \<Rightarrow> (map_err map_session_start (se_shutdown E runtime), None))"

section \<open>Starting and stopping\<close>

text \<open>How the steps of \<open>start_from_environment\<close> go, in their order.\<close>

record 'b bootstrap_env =
  be_platform :: bool
  be_resolved :: bool
  be_host :: "AppServerError + unit"
  be_paths :: bool
  be_profile :: "io_error + 'b option"
  be_recovered :: "SessionError + unit"
  be_profile_again :: "io_error + 'b option"
  be_origin_matches :: "'b \<Rightarrow> bool"
  be_client :: bool
  be_activation :: bool
  be_status :: "io_error + unit"

datatype part = ActivationRuntime | StatusPublisher | AppServerHost | SessionSource

text \<open>What runs in the end: the parts that were started and not stopped again.\<close>

definition load_binding :: "'b bootstrap_env \<Rightarrow> AppServerError + 'b" where
  "load_binding E =
     rbind (map_err map_io (be_profile E)) (\<lambda>binding.
     rbind (case binding of
         Some b \<Rightarrow> Inr (Some b)
       | None \<Rightarrow>
           rbind (map_err map_session_start (be_recovered E)) (\<lambda>_.
           map_err map_io (be_profile_again E))) (\<lambda>binding.
     ok_or Configuration binding))"

definition start_from_environment :: "'b bootstrap_env \<Rightarrow> (AppServerError + 'b) \<times> part list" where
  "start_from_environment E =
     (case rbind (ensure (be_platform E) Configuration) (\<lambda>_.
        rbind (ensure (be_resolved E) Configuration) (\<lambda>_.
        rbind (be_host E) (\<lambda>_.
        rbind (ensure (be_paths E) Configuration) (\<lambda>_.
        rbind (load_binding E) (\<lambda>binding.
        rbind (ensure (be_origin_matches E binding) Configuration) (\<lambda>_.
        rbind (ensure (be_client E) Configuration) (\<lambda>_.
        rbind (ensure (be_activation E) Configuration) (\<lambda>_.
        Inr binding)))))))) of
        Inl e \<Rightarrow> (Inl e, [])
      | Inr binding \<Rightarrow>
          (case be_status E of
             Inl e \<Rightarrow> (Inl (map_io e), [])
           | Inr _ \<Rightarrow> (Inr binding, [StatusPublisher, ActivationRuntime])))"

text \<open>
  \<open>CodexActivation::shutdown\<close>: every part is stopped, in this order, before the first error is returned.
\<close>

definition activation_teardown ::
  "io_error + unit \<Rightarrow> child_env \<Rightarrow> 'r session_env \<Rightarrow> HostState \<Rightarrow> 'r option \<Rightarrow> (AppServerError + unit) \<times> HostState \<times> 'r option" where
  "activation_teardown status_shutdown C E host slot =
     (let status = map_err map_io status_shutdown;
          (host_result, host') = host_shutdown C host;
          (source_result, slot') = source_shutdown E slot in
      (rbind status (\<lambda>_. rbind host_result (\<lambda>_. source_result)), host', slot'))"

section \<open>A session watches or a turn runs, never both\<close>

lemma codex_wake_from_inbox_eq: "codex_wake_from_inbox = wake_from_inbox"
  by (intro ext) (simp add: codex_wake_from_inbox_def wake_from_inbox_def)

lemma ensure_runtime_slot: "ensure_runtime E slot = (Inr runtime, slot') \<Longrightarrow> slot' = Some runtime"
  by (auto simp: ensure_runtime_def split: option.splits sum.splits)

lemma cycling_observe_slot:
  "cycling_observe self E wait slot = (Inr (Some wake), slot') \<Longrightarrow> slot' = None"
  unfolding cycling_observe_def Let_def
  by (elim op_bind_cases) (auto split: if_splits elim!: op_bind_cases)

text \<open>
  The observer and the host as the activation task drives them: it watches, and while a wake is in hand
  it starts the host (again, where the start failed and is retried) and awaits the turn. The task ends
  when it is blocked or cancelled, at any point; \<open>CodexActivation::shutdown\<close> waits for its end before it
  stops the host and the source.
\<close>

datatype task_phase = Watching | WakeInHand | Ended

record 'r codex_world =
  cw_slot :: "'r option"
  cw_host :: HostState
  cw_phase :: task_phase

inductive codex_step :: "json_lib \<Rightarrow> string \<Rightarrow> CyclingSessionSource \<Rightarrow> 'r codex_world \<Rightarrow> 'r codex_world \<Rightarrow> bool" for L version self where
  observed: "cw_phase w = Watching \<Longrightarrow> cycling_observe self E wait (cw_slot w) = (r, slot') \<Longrightarrow>
    phase' = (case r of Inr (Some wake) \<Rightarrow> WakeInHand | _ \<Rightarrow> Watching) \<Longrightarrow>
    codex_step L version self w (w\<lparr>cw_slot := slot', cw_phase := phase'\<rparr>)"
| started: "cw_phase w = WakeInHand \<Longrightarrow> hs_turn (cw_host w) = None \<Longrightarrow>
    codex_step L version self w (w\<lparr>cw_host := snd (host_start L version E C (cw_host w))\<rparr>)"
| finished: "cw_phase w = WakeInHand \<Longrightarrow> hs_turn (cw_host w) = Some turn_id \<Longrightarrow>
    turn_completed L C turn_id (cw_host w) = Some (r, host') \<Longrightarrow>
    codex_step L version self w (w\<lparr>cw_host := host', cw_phase := Watching\<rparr>)"
| ended: "codex_step L version self w (w\<lparr>cw_host := (cw_host w)\<lparr>hs_turn := None\<rparr>, cw_phase := Ended\<rparr>)"
| torn_down: "cw_phase w = Ended \<Longrightarrow> activation_teardown s C E (cw_host w) (cw_slot w) = (r, host', slot') \<Longrightarrow>
    codex_step L version self w (w\<lparr>cw_host := host', cw_slot := slot'\<rparr>)"

inductive_cases codex_stepE: "codex_step L version self w w'"

inductive codex_reachable ::
  "json_lib \<Rightarrow> string \<Rightarrow> CyclingSessionSource \<Rightarrow> AppServerConfig \<Rightarrow> 'r codex_world \<Rightarrow> bool" for L version self config where
  assembled: "prepare schema config = Inr host \<Longrightarrow>
    codex_reachable L version self config \<lparr>cw_slot = None, cw_host = host, cw_phase = Watching\<rparr>"
| stepped: "codex_reachable L version self config w \<Longrightarrow> codex_step L version self w w' \<Longrightarrow> codex_reachable L version self config w'"

definition codex_ok :: "'r codex_world \<Rightarrow> bool" where
  "codex_ok w \<longleftrightarrow>
     (cw_phase w = Watching \<longrightarrow> hs_client (cw_host w) = None \<and> hs_turn (cw_host w) = None)
     \<and> (cw_phase w = WakeInHand \<longrightarrow> cw_slot w = None)
     \<and> (hs_client (cw_host w) \<noteq> None \<longrightarrow> cw_slot w = None)"

lemma turn_completed_client: "turn_completed L C turn_id state = Some (r, state') \<Longrightarrow> hs_client state' = None \<and> hs_turn state' = None"
  by (auto simp: turn_completed_def drop_client_def split: option.splits prod.splits)

lemma teardown_frees:
  assumes "activation_teardown s C E host slot = (r, host', slot')"
  shows "slot' = None" and "hs_client host' = None \<or> hs_client host \<noteq> None"
  using assms
  by (auto simp: activation_teardown_def source_shutdown_def host_shutdown_def drop_client_def Let_def
      split: option.splits prod.splits sum.splits)

lemma codex_step_ok:
  assumes "codex_step L version self w w'" and "codex_ok w"
  shows "codex_ok w'"
  using assms(1)
proof cases
  case (observed E wait r slot' phase')
  then show ?thesis using assms(2) cycling_observe_slot [of self E wait "cw_slot w" _ slot']
    by (auto simp: codex_ok_def split: sum.splits option.splits)
next
  case (finished turn_id C r host')
  then show ?thesis using assms(2) by (auto simp: codex_ok_def dest!: turn_completed_client)
next
  case (torn_down s C E r host' slot')
  then show ?thesis
    using assms(2) teardown_frees [of s C E "cw_host w" "cw_slot w" r host' slot'] by (auto simp: codex_ok_def)
qed (use assms(2) in \<open>auto simp: codex_ok_def\<close>)

lemma codex_reachable_ok: "codex_reachable L version self config w \<Longrightarrow> codex_ok w"
proof (induction rule: codex_reachable.induct)
  case (assembled schema host)
  then show ?case by (auto simp: prepare_def result_simps codex_ok_def)
qed (rule codex_step_ok)

section \<open>Properties\<close>

text \<open>
  (C15) The observer's session and the App Server never live together: at every moment of the Codex
  activation, whatever fails, retries or is cancelled, while the host owns an App Server process the
  observer holds no session, so the Psst MCP server that process runs can take the profile.
\<close>

theorem app_server_runs_without_observer_session:
  assumes "codex_reachable L version self config w"
  shows "hs_client (cw_host w) \<noteq> None \<longrightarrow> cw_slot w = None"
  using codex_reachable_ok [OF assms] by (simp add: codex_ok_def)

text \<open>A watch that finds a message and a host that starts its turn.\<close>

definition sample_inbox :: InboxResponse where
  "sample_inbox = \<lparr>ibr_messages = [], ibr_pending_count = 1, ibr_highest_priority = Some MessagePriorityDto.Normal,
     ibr_oldest_message_id = Some ''m1''\<rparr>"

definition sample_session_env :: "nat session_env" where
  "sample_session_env = \<lparr>se_start = Inr 7, se_inbox = (\<lambda>_ _ _. Inr sample_inbox), se_shutdown = (\<lambda>_. Inr ())\<rparr>"

definition sample_source :: CyclingSessionSource where
  "sample_source = \<lparr>css_squad_name = ''squad'', css_profile = ''work''\<rparr>"

definition sample_watching :: "nat codex_world" where
  "sample_watching = \<lparr>cw_slot = None, cw_host = sample_host_state, cw_phase = Watching\<rparr>"

definition sample_running :: "nat codex_world" where
  "sample_running = sample_watching\<lparr>cw_slot := None, cw_phase := WakeInHand, cw_host := sample_started\<rparr>"

lemma sample_observed:
  "\<exists>wake. cycling_observe sample_source sample_session_env 0 None = (Inr (Some wake), None)"
  by (simp add: cycling_observe_def op_bind_def ensure_runtime_def sample_session_env_def sample_source_def sample_inbox_def
      codex_wake_from_inbox_def WakeMetadata_new_def validate_identifier_def wake_char_def MAX_WAKE_PROFILE_BYTES_def
      MAX_WAKE_SQUAD_BYTES_def MAX_WAKE_MESSAGE_ID_BYTES_def MAX_WAKE_PENDING_COUNT_def eval_simps)

lemma sample_running_reachable: "codex_reachable sample_json ''1'' sample_source sample_config sample_running"
proof -
  have "codex_reachable sample_json ''1'' sample_source sample_config sample_watching"
    unfolding sample_watching_def
    by (rule codex_reachable.assembled [of "Inr ()"]) (simp add: prepare_def sample_host_state_def)
  moreover obtain wake where "cycling_observe sample_source sample_session_env 0 None = (Inr (Some wake), None)"
    using sample_observed by blast
  then have "codex_step sample_json ''1'' sample_source sample_watching (sample_watching\<lparr>cw_slot := None, cw_phase := WakeInHand\<rparr>)"
    by (intro codex_step.observed [where r = "Inr (Some wake)" and wait = 0]) (simp_all add: sample_watching_def)
  ultimately have "codex_reachable sample_json ''1'' sample_source sample_config (sample_watching\<lparr>cw_slot := None, cw_phase := WakeInHand\<rparr>)"
    by (rule codex_reachable.stepped)
  then show ?thesis
  proof (rule codex_reachable.stepped)
    show "codex_step sample_json ''1'' sample_source (sample_watching\<lparr>cw_slot := None, cw_phase := WakeInHand\<rparr>) sample_running"
      using codex_step.started [of "sample_watching\<lparr>cw_slot := None, cw_phase := WakeInHand\<rparr>" sample_json "''1''" sample_source
          sample_launch sample_child]
      by (simp add: sample_running_def sample_started_def sample_watching_def sample_host_state_def)
  qed
qed

theorem app_server_runs_without_observer_session_witness:
  "codex_reachable sample_json ''1'' sample_source sample_config sample_running
    \<and> hs_client (cw_host sample_running) \<noteq> None \<and> cw_slot sample_running = None"
proof -
  have "hs_client (cw_host sample_running) \<noteq> None"
    using start_pending [OF sample_wake_started(1)] by (auto simp: sample_running_def)
  then show ?thesis
    using app_server_runs_without_observer_session [OF sample_running_reachable] sample_running_reachable by blast
qed

end
