(* ===== verification/Mcp_Framing.thy ===== *)
theory Mcp_Framing
  imports File_System
begin

text \<open>
  The framing boundary of the MCP server (\<open>psst-mcp/src/lib.rs\<close>): a pump that copies whole lines of
  bounded length between the standard streams and the protocol library, and the supervision of the two
  pumps and the protocol service.
\<close>

definition MAX_INBOUND_LINE_BYTES :: nat where "MAX_INBOUND_LINE_BYTES = 1048576"
definition MAX_OUTBOUND_LINE_BYTES :: nat where "MAX_OUTBOUND_LINE_BYTES = 1048576"

abbreviation newline :: char where "newline \<equiv> CHR ''\<newline>''"

section \<open>The pump\<close>

text \<open>
  The state of \<open>pump_lines\<close>: the frame being collected, the frames written, and how the writes to come
  go (none left: they succeed). A frame whose write fails may or may not have gone out.
\<close>

record pump =
  pm_frame :: string
  pm_out :: "string list"
  pm_writes :: "io_error option list"

definition exceeds_limit :: io_error where
  "exceeds_limit = IoError ErrorKind.InvalidData ''protocol frame exceeds limit''"

definition unterminated :: io_error where
  "unterminated = IoError ErrorKind.InvalidData ''unterminated protocol frame''"

definition write_frame :: "pump \<Rightarrow> (io_error + unit) \<times> pump" where
  "write_frame p =
     (case pm_writes p of
        Some e # writes \<Rightarrow> (Inl e, p\<lparr>pm_writes := writes\<rparr>)
      | writes \<Rightarrow> (Inr (), p\<lparr>pm_out := pm_out p @ [pm_frame p], pm_frame := [], pm_writes := tl writes\<rparr>))"

text \<open>The loop over the bytes of one chunk.\<close>

fun pump_chunk :: "nat \<Rightarrow> string \<Rightarrow> pump \<Rightarrow> (io_error + unit) \<times> pump" where
  "pump_chunk mx [] p = (Inr (), p)"
| "pump_chunk mx (byte # bytes) p =
     (if length (pm_frame p) = mx then (Inl exceeds_limit, p)
      else
        let p = p\<lparr>pm_frame := pm_frame p @ [byte]\<rparr> in
        if byte = newline then
          (case write_frame p of
             (Inl e, p) \<Rightarrow> (Inl e, p)
           | (Inr _, p) \<Rightarrow> pump_chunk mx bytes p)
        else pump_chunk mx bytes p)"

text \<open>
  The loop over the reads; a read of no bytes is the end of the input, which the list of reads ends with
  where it has no such read. \<open>closed\<close> is how \<open>output.shutdown()\<close> goes.
\<close>

fun pump_lines :: "nat \<Rightarrow> io_error + unit \<Rightarrow> (io_error + string) list \<Rightarrow> pump \<Rightarrow> (io_error + unit) \<times> pump" where
  "pump_lines mx closed [] p = (if pm_frame p \<noteq> [] then (Inl unterminated, p) else (closed, p))"
| "pump_lines mx closed (Inl e # reads) p = (Inl e, p)"
| "pump_lines mx closed (Inr chunk # reads) p =
     (if chunk = [] then (if pm_frame p \<noteq> [] then (Inl unterminated, p) else (closed, p))
      else case pump_chunk mx chunk p of
        (Inl e, p) \<Rightarrow> (Inl e, p)
      | (Inr _, p) \<Rightarrow> pump_lines mx closed reads p)"

definition pump_start :: "io_error option list \<Rightarrow> pump" where
  "pump_start writes = \<lparr>pm_frame = [], pm_out = [], pm_writes = writes\<rparr>"

section \<open>Supervision\<close>

text \<open>
  What a task ends with (\<open>None\<close> where it panicked or was aborted), and what awaiting one within its
  bound gives.
\<close>

type_synonym joined = "(io_error + unit) option"

datatype bounded_wait = Finished joined | Overdue

definition other_error :: "string \<Rightarrow> io_error" where
  "other_error message = IoError ErrorKind.Other message"

definition flatten_join :: "joined \<Rightarrow> string \<Rightarrow> io_error + (io_error + unit)" where
  "flatten_join result message = ok_or (other_error message) result"

definition await_bounded :: "bounded_wait \<Rightarrow> string \<Rightarrow> io_error + unit" where
  "await_bounded task message =
     (case task of
        Finished result \<Rightarrow> rbind (flatten_join result message) (\<lambda>r. r)
      | Overdue \<Rightarrow> Inl (other_error message))"

text \<open>
  The branch \<open>select!\<close> takes, with how the tasks that are then awaited end. The other tasks are
  aborted and reaped.
\<close>

datatype branch =
    InputEnded joined bounded_wait bounded_wait
  | OutputEnded joined
  | ServiceEnded joined bounded_wait

fun select_branch :: "branch \<Rightarrow> io_error + unit" where
  "select_branch (InputEnded input service out) =
     rbind (flatten_join input ''input task failed'') (\<lambda>input.
     rbind input (\<lambda>_.
     rbind (await_bounded service ''service cleanup timed out'') (\<lambda>_.
     await_bounded out ''output cleanup timed out'')))"
| "select_branch (OutputEnded out) = rbind (flatten_join out ''output task failed'') (\<lambda>out. out)"
| "select_branch (ServiceEnded service out) =
     rbind (flatten_join service ''service task failed'') (\<lambda>service.
     rbind (await_bounded out ''output cleanup timed out'') (\<lambda>_. service))"

definition serve_protocol :: "bool \<Rightarrow> branch \<Rightarrow> io_error + unit" where
  "serve_protocol served branch =
     (if served then select_branch branch else Inl (other_error ''protocol session failed''))"

text \<open>\<open>serve_bounded_with\<close>: the server is shut down whatever the protocol ended with.\<close>

definition serve_bounded_with :: "io_error + unit \<Rightarrow> 'e + unit \<Rightarrow> io_error + unit" where
  "serve_bounded_with protocol_result shutdown_result =
     (if \<not> is_ok shutdown_result \<and> is_ok protocol_result
      then Inl (other_error ''cooperative session shutdown failed'') else protocol_result)"

lemma serve_bounded_ok: "serve_bounded_with r s = Inr () \<longleftrightarrow> r = Inr () \<and> is_ok s"
  by (auto simp: serve_bounded_with_def is_ok_iff)

section \<open>What the pump forwards\<close>

text \<open>A complete line of at most \<open>mx\<close> bytes, its newline counted.\<close>

definition bounded_line :: "nat \<Rightarrow> string \<Rightarrow> bool" where
  "bounded_line mx f \<longleftrightarrow> length f \<le> mx \<and> (\<exists>line. f = line @ [newline] \<and> newline \<notin> set line)"

text \<open>Part of a line that may still become one.\<close>

definition partial_line :: "nat \<Rightarrow> string \<Rightarrow> bool" where
  "partial_line mx f \<longleftrightarrow> length f \<le> mx \<and> newline \<notin> set f"

text \<open>The input as one string, and the error of the read that cut it short.\<close>

fun received :: "(io_error + string) list \<Rightarrow> string \<times> io_error option" where
  "received [] = ([], None)"
| "received (Inl e # reads) = ([], Some e)"
| "received (Inr chunk # reads) = (if chunk = [] then ([], None) else apfst ((@) chunk) (received reads))"

text \<open>Why collecting stopped before \<open>rest\<close>: a line too long, or a complete line whose write failed.\<close>

definition stopped_at :: "nat \<Rightarrow> io_error option list \<Rightarrow> io_error \<Rightarrow> string \<Rightarrow> bool" where
  "stopped_at mx writes e rest \<longleftrightarrow>
     e = exceeds_limit \<and> mx < length rest \<and> newline \<notin> set (take mx rest)
     \<or> Some e \<in> set writes \<and> (\<exists>line tail. rest = line @ tail \<and> bounded_line mx line)"

text \<open>Why the pump ended where the input still has \<open>rest\<close>.\<close>

definition pump_ended ::
  "nat \<Rightarrow> io_error option list \<Rightarrow> io_error option \<Rightarrow> io_error + unit \<Rightarrow> io_error + unit \<Rightarrow> string \<Rightarrow> bool" where
  "pump_ended mx writes read_error closed r rest \<longleftrightarrow>
     (case r of
        Inr _ \<Rightarrow> rest = [] \<and> read_error = None \<and> closed = Inr ()
      | Inl e \<Rightarrow> stopped_at mx writes e rest
          \<or> read_error = Some e \<and> partial_line mx rest
          \<or> read_error = None \<and> e = unterminated \<and> partial_line mx rest \<and> rest \<noteq> []
          \<or> read_error = None \<and> closed = Inl e \<and> rest = [])"

lemma stopped_at_longer:
  assumes "stopped_at mx writes e rest"
  shows "stopped_at mx writes e (rest @ tail)"
  using assms unfolding stopped_at_def
proof (elim disjE conjE exE)
  fix line rest' assume "rest = line @ rest'" "bounded_line mx line" "Some e \<in> set writes"
  then show "e = exceeds_limit \<and> mx < length (rest @ tail) \<and> newline \<notin> set (take mx (rest @ tail))
      \<or> Some e \<in> set writes \<and> (\<exists>line after. rest @ tail = line @ after \<and> bounded_line mx line)"
    by (metis append.assoc)
qed auto

lemma stopped_at_writes: "stopped_at mx writes e rest \<Longrightarrow> set writes \<subseteq> set writes' \<Longrightarrow> stopped_at mx writes' e rest"
  unfolding stopped_at_def by blast

lemma write_frame_cases:
  assumes "write_frame p = (r, p')"
  obtains e where "r = Inl e" "Some e \<in> set (pm_writes p)" "pm_out p' = pm_out p"
    | "r = Inr ()" "pm_out p' = pm_out p @ [pm_frame p]" "pm_frame p' = []" "set (pm_writes p') \<subseteq> set (pm_writes p)"
proof (cases "\<exists>e writes. pm_writes p = Some e # writes")
  case True
  then show thesis using assms that(1) by (auto simp: write_frame_def)
next
  case False
  then have "write_frame p = (Inr (), p\<lparr>pm_out := pm_out p @ [pm_frame p], pm_frame := [], pm_writes := tl (pm_writes p)\<rparr>)"
    by (auto simp: write_frame_def split: list.splits option.splits)
  moreover have "set (tl (pm_writes p)) \<subseteq> set (pm_writes p)" by (cases "pm_writes p") auto
  ultimately show thesis using assms that(2) by auto
qed

text \<open>One chunk: what is written are bounded lines, what is left is collected or why it stopped.\<close>

lemma pump_chunk_lines:
  assumes "pump_chunk mx chunk p = (r, p')" and "partial_line mx (pm_frame p)"
  shows "\<exists>new rest. pm_out p' = pm_out p @ new \<and> list_all (bounded_line mx) new \<and> pm_frame p @ chunk = concat new @ rest
    \<and> (case r of Inr _ \<Rightarrow> rest = pm_frame p' \<and> partial_line mx rest \<and> set (pm_writes p') \<subseteq> set (pm_writes p)
       | Inl e \<Rightarrow> stopped_at mx (pm_writes p) e rest)"
  using assms
proof (induction mx chunk p rule: pump_chunk.induct)
  case (1 mx p)
  then show ?case by auto
next
  case (2 mx byte bytes p)
  let ?p = "p\<lparr>pm_frame := pm_frame p @ [byte]\<rparr>"
  have frame: "length (pm_frame p) \<le> mx" "newline \<notin> set (pm_frame p)" using 2(4) by (simp_all add: partial_line_def)
  consider (long) "length (pm_frame p) = mx" | (line) "length (pm_frame p) < mx" "byte = newline"
    | (part) "length (pm_frame p) < mx" "byte \<noteq> newline" using frame by linarith
  then show ?case
  proof cases
    case long
    then show ?thesis using 2(3) frame by (auto simp: stopped_at_def intro!: exI [of _ "[]"])
  next
    case line
    obtain w q where w: "write_frame ?p = (w, q)" by fastforce
    have bounded: "bounded_line mx (pm_frame p @ [byte])" using line frame by (auto simp: bounded_line_def)
    from w show ?thesis
    proof (cases rule: write_frame_cases)
      case (1 e)
      then have "r = Inl e" "p' = q" using 2(3) line w by (simp_all add: Let_def)
      moreover have "stopped_at mx (pm_writes p) e (pm_frame p @ byte # bytes)"
        unfolding stopped_at_def
        by (rule disjI2, intro conjI exI [of _ "pm_frame p @ [byte]"] exI [of _ bytes]) (use bounded 1(2) in simp_all)
      ultimately show ?thesis using 1(3) by (auto intro!: exI [of _ "[]"])
    next
      case 2
      then have run: "pump_chunk mx bytes q = (r, p')" using "2.prems"(1) line w by (simp add: Let_def)
      have "partial_line mx (pm_frame q)" using 2(3) by (simp add: partial_line_def)
      from "2.IH"(1) [OF _ refl line(2) w [symmetric] 2(1) run this] line
      obtain new rest where n: "pm_out p' = pm_out q @ new" "list_all (bounded_line mx) new" "bytes = concat new @ rest"
        "case r of Inr _ \<Rightarrow> rest = pm_frame p' \<and> partial_line mx rest \<and> set (pm_writes p') \<subseteq> set (pm_writes q)
           | Inl e \<Rightarrow> stopped_at mx (pm_writes q) e rest"
        using 2(3) by auto
      have "case r of Inr _ \<Rightarrow> rest = pm_frame p' \<and> partial_line mx rest \<and> set (pm_writes p') \<subseteq> set (pm_writes p)
           | Inl e \<Rightarrow> stopped_at mx (pm_writes p) e rest"
        using n(4) 2(4) by (auto elim!: stopped_at_writes split: sum.splits)
      then show ?thesis
        using n(1-3) 2(2) bounded by (intro exI [of _ "(pm_frame p @ [byte]) # new"] exI [of _ rest]) simp
    qed
  next
    case part
    then have run: "pump_chunk mx bytes ?p = (r, p')" using 2(3) by (simp add: Let_def)
    have "partial_line mx (pm_frame ?p)" using part frame by (auto simp: partial_line_def)
    from "2.IH"(2) [OF _ refl part(2) run this] part show ?thesis by (cases r) simp_all
  qed
qed

lemma pump_lines_lines:
  assumes "pump_lines mx closed reads p = (r, p')" and "partial_line mx (pm_frame p)" and "set (pm_writes p) \<subseteq> set writes"
  shows "\<exists>new rest. pm_out p' = pm_out p @ new \<and> list_all (bounded_line mx) new
    \<and> pm_frame p @ fst (received reads) = concat new @ rest
    \<and> pump_ended mx writes (snd (received reads)) closed r rest"
  using assms
proof (induction mx closed reads p rule: pump_lines.induct)
  case (3 mx closed chunk reads p)
  show ?case
  proof (cases "chunk = []")
    case True
    then show ?thesis using 3(2,3) by (auto simp: pump_ended_def split: if_splits sum.splits intro!: exI [of _ "[]"])
  next
    case False
    obtain c q where step: "pump_chunk mx chunk p = (c, q)" by fastforce
    obtain new rest where n: "pm_out q = pm_out p @ new" "list_all (bounded_line mx) new" "pm_frame p @ chunk = concat new @ rest"
      "case c of Inr _ \<Rightarrow> rest = pm_frame q \<and> partial_line mx rest \<and> set (pm_writes q) \<subseteq> set (pm_writes p)
         | Inl e \<Rightarrow> stopped_at mx (pm_writes p) e rest"
      using pump_chunk_lines [OF step 3(3)] by blast
    show ?thesis
    proof (cases c)
      case (Inl e)
      then have "r = Inl e" "p' = q" using 3(2) False step by simp_all
      moreover have "stopped_at mx writes e (rest @ fst (received reads))"
        using n(4) Inl stopped_at_longer stopped_at_writes [OF _ 3(4)] by auto
      moreover have "pm_frame p @ fst (received (Inr chunk # reads)) = concat new @ rest @ fst (received reads)"
        using n(3) False by (simp add: append_assoc [symmetric] del: append_assoc)
      ultimately show ?thesis using n(1,2) by (auto simp: pump_ended_def)
    next
      case (Inr u)
      then have run: "pump_lines mx closed reads q = (r, p')" using 3(2) False step by simp
      have q: "partial_line mx (pm_frame q)" "set (pm_writes q) \<subseteq> set writes" "rest = pm_frame q" using n(4) Inr 3(4) by auto
      from "3.IH" [OF False step [symmetric] Inr run q(1,2)] obtain new' rest' where n':
        "pm_out p' = pm_out q @ new'" "list_all (bounded_line mx) new'" "pm_frame q @ fst (received reads) = concat new' @ rest'"
        "pump_ended mx writes (snd (received reads)) closed r rest'" by blast
      have "pm_frame p @ fst (received (Inr chunk # reads)) = concat (new @ new') @ rest'"
        using n(3) n'(3) q(3) False by (simp add: append_assoc [symmetric] del: append_assoc) simp
      then show ?thesis using n(1,2) n'(1,2,4) False by (intro exI [of _ "new @ new'"] exI [of _ rest']) simp
    qed
  qed
qed (auto simp: pump_ended_def split: if_splits sum.splits intro!: exI [of _ "[]"])

section \<open>Properties\<close>

text \<open>
  (C30) The pump forwards whole lines of bounded length and nothing else, however the input is split into
  reads and whichever read, write or the closing of the output fails. The frames it wrote and flushed are complete
  lines of at most \<open>mx\<close> bytes and together a prefix of the input. It succeeds only when that is all of the
  input and the output could be closed. Where it fails, the rest of the input explains the error: a line
  whose first \<open>mx\<close> bytes have no newline and which goes on; a complete line, whose write failed; part of
  a line, after which a read failed or the input ended; or nothing, and the closing failed.
\<close>

theorem pump_forwards_whole_bounded_lines:
  assumes "pump_lines mx closed reads (pump_start writes) = (r, p')"
  shows "\<exists>rest. fst (received reads) = concat (pm_out p') @ rest \<and> list_all (bounded_line mx) (pm_out p')
    \<and> pump_ended mx writes (snd (received reads)) closed r rest"
  using pump_lines_lines [OF assms, of writes] by (auto simp: pump_start_def partial_line_def)

theorem pump_forwards_whole_bounded_lines_witness:
  "pump_lines 3 (Inr ()) (map Inr [''a'', ''b\<newline>c'', ''\<newline>defg'']) (pump_start [])
     = (Inl exceeds_limit, \<lparr>pm_frame = ''def'', pm_out = [''ab\<newline>'', ''c\<newline>''], pm_writes = []\<rparr>)
    \<and> (\<exists>rest. ''ab\<newline>c\<newline>defg'' = concat [''ab\<newline>'', ''c\<newline>''] @ rest \<and> pump_ended 3 [] None (Inr ()) (Inl exceeds_limit) rest)"
proof -
  have run: "pump_lines 3 (Inr ()) (map Inr [''a'', ''b\<newline>c'', ''\<newline>defg'']) (pump_start [])
     = (Inl exceeds_limit, \<lparr>pm_frame = ''def'', pm_out = [''ab\<newline>'', ''c\<newline>''], pm_writes = []\<rparr>)"
    by (simp add: pump_start_def write_frame_def Let_def)
  show ?thesis
    using pump_forwards_whole_bounded_lines [OF run] run by simp
qed

end
