(* ===== verification/App_Error.thy ===== *)
theory App_Error
  imports Client_Http
begin

text \<open>
  The closed vocabulary of application errors (\<open>psst-application/src/error.rs\<close>): local codes with
  their exit class, text and retry advice, and the translation of client errors into them.
\<close>

datatype ExitClass = Success | Usage | Configuration | Unavailable | Conflict | Authority | OutcomeUnknown
  | LocalIo | Locked | Internal

fun exit_code :: "ExitClass \<Rightarrow> nat" where
  "exit_code ExitClass.Success = 0"
| "exit_code ExitClass.Usage = 2"
| "exit_code ExitClass.Configuration = 3"
| "exit_code ExitClass.Unavailable = 4"
| "exit_code ExitClass.Conflict = 5"
| "exit_code ExitClass.Authority = 6"
| "exit_code ExitClass.OutcomeUnknown = 7"
| "exit_code ExitClass.LocalIo = 8"
| "exit_code ExitClass.Locked = 9"
| "exit_code ExitClass.Internal = 70"

datatype LocalErrorCode =
    InvalidRequest | NotFound | NotMember | NameInUse | LeaseExpired | RecipientNotFound
  | IdempotencyConflict | RateLimited | DatabaseBusy | InternalError | InvalidInput | InvalidConfiguration
  | InvalidOrigin | ProfileNotFound | ProfileLocked | ProfileOriginMismatch | ProfileAlreadyBound
  | ProfileUnbound | ConfigRead | ConfigWrite | LocalRead | LocalWrite | LocalPermission | LocalLock
  | RelayUnavailable | RelayTimeout | RelayProtocol | InvalidSession | InactiveMembership | UnknownRecipient
  | DuplicateName | SquadNotFound | SquadArchived | MessageNotFound | Conflict | AuthorityDenied
  | PayloadTooLarge | OutcomeUnknown | Unsupported | Internal

fun exit_class :: "LocalErrorCode \<Rightarrow> ExitClass" where
  "exit_class LocalErrorCode.InvalidRequest = ExitClass.Usage"
| "exit_class LocalErrorCode.NotFound = ExitClass.Unavailable"
| "exit_class LocalErrorCode.NotMember = ExitClass.Authority"
| "exit_class LocalErrorCode.NameInUse = ExitClass.Conflict"
| "exit_class LocalErrorCode.LeaseExpired = ExitClass.Conflict"
| "exit_class LocalErrorCode.RecipientNotFound = ExitClass.Authority"
| "exit_class LocalErrorCode.IdempotencyConflict = ExitClass.Conflict"
| "exit_class LocalErrorCode.RateLimited = ExitClass.Unavailable"
| "exit_class LocalErrorCode.DatabaseBusy = ExitClass.Unavailable"
| "exit_class LocalErrorCode.InternalError = ExitClass.Internal"
| "exit_class LocalErrorCode.InvalidInput = ExitClass.Usage"
| "exit_class LocalErrorCode.InvalidConfiguration = ExitClass.Configuration"
| "exit_class LocalErrorCode.InvalidOrigin = ExitClass.Configuration"
| "exit_class LocalErrorCode.ProfileNotFound = ExitClass.Unavailable"
| "exit_class LocalErrorCode.ProfileLocked = ExitClass.Locked"
| "exit_class LocalErrorCode.ProfileOriginMismatch = ExitClass.Configuration"
| "exit_class LocalErrorCode.ProfileAlreadyBound = ExitClass.Conflict"
| "exit_class LocalErrorCode.ProfileUnbound = ExitClass.Unavailable"
| "exit_class LocalErrorCode.ConfigRead = ExitClass.Configuration"
| "exit_class LocalErrorCode.ConfigWrite = ExitClass.LocalIo"
| "exit_class LocalErrorCode.LocalRead = ExitClass.LocalIo"
| "exit_class LocalErrorCode.LocalWrite = ExitClass.LocalIo"
| "exit_class LocalErrorCode.LocalPermission = ExitClass.LocalIo"
| "exit_class LocalErrorCode.LocalLock = ExitClass.Locked"
| "exit_class LocalErrorCode.RelayUnavailable = ExitClass.Unavailable"
| "exit_class LocalErrorCode.RelayTimeout = ExitClass.Unavailable"
| "exit_class LocalErrorCode.RelayProtocol = ExitClass.Internal"
| "exit_class LocalErrorCode.InvalidSession = ExitClass.Authority"
| "exit_class LocalErrorCode.InactiveMembership = ExitClass.Conflict"
| "exit_class LocalErrorCode.UnknownRecipient = ExitClass.Authority"
| "exit_class LocalErrorCode.DuplicateName = ExitClass.Conflict"
| "exit_class LocalErrorCode.SquadNotFound = ExitClass.Unavailable"
| "exit_class LocalErrorCode.SquadArchived = ExitClass.Conflict"
| "exit_class LocalErrorCode.MessageNotFound = ExitClass.Unavailable"
| "exit_class LocalErrorCode.Conflict = ExitClass.Conflict"
| "exit_class LocalErrorCode.AuthorityDenied = ExitClass.Authority"
| "exit_class LocalErrorCode.PayloadTooLarge = ExitClass.Usage"
| "exit_class LocalErrorCode.OutcomeUnknown = ExitClass.OutcomeUnknown"
| "exit_class LocalErrorCode.Unsupported = ExitClass.Usage"
| "exit_class LocalErrorCode.Internal = ExitClass.Internal"

definition local_retryable :: "LocalErrorCode \<Rightarrow> bool" where
  "local_retryable self \<longleftrightarrow> self \<in> {LocalErrorCode.ProfileLocked, LocalErrorCode.LocalLock, LocalErrorCode.RelayUnavailable, LocalErrorCode.RelayTimeout,
     LocalErrorCode.OutcomeUnknown, LocalErrorCode.RateLimited, LocalErrorCode.DatabaseBusy}"

fun safe_message :: "LocalErrorCode \<Rightarrow> string" where
  "safe_message LocalErrorCode.InvalidRequest = ''The relay rejected the request.''"
| "safe_message LocalErrorCode.NotFound = ''The requested relay resource does not exist.''"
| "safe_message LocalErrorCode.NotMember = ''The session is not an active member.''"
| "safe_message LocalErrorCode.NameInUse = ''The member name is already in use.''"
| "safe_message LocalErrorCode.LeaseExpired = ''The relay lease expired.''"
| "safe_message LocalErrorCode.RecipientNotFound = ''The relay recipient does not exist.''"
| "safe_message LocalErrorCode.IdempotencyConflict = ''The retry identity conflicts with a prior request.''"
| "safe_message LocalErrorCode.RateLimited = ''The relay is temporarily rate limited.''"
| "safe_message LocalErrorCode.DatabaseBusy = ''The relay database is temporarily busy.''"
| "safe_message LocalErrorCode.InternalError = ''The relay reported an internal error.''"
| "safe_message LocalErrorCode.InvalidInput = ''The request is invalid.''"
| "safe_message LocalErrorCode.InvalidConfiguration = ''The configuration is invalid.''"
| "safe_message LocalErrorCode.InvalidOrigin = ''The relay origin is invalid.''"
| "safe_message LocalErrorCode.ProfileNotFound = ''The selected profile does not exist.''"
| "safe_message LocalErrorCode.ProfileLocked = ''The selected profile is already in use.''"
| "safe_message LocalErrorCode.ProfileOriginMismatch = ''The relay origin does not match the selected profile.''"
| "safe_message LocalErrorCode.ProfileAlreadyBound = ''The selected profile is already bound.''"
| "safe_message LocalErrorCode.ProfileUnbound = ''The selected profile is not bound.''"
| "safe_message LocalErrorCode.ConfigRead = ''The configuration could not be read.''"
| "safe_message LocalErrorCode.ConfigWrite = ''The configuration could not be written.''"
| "safe_message LocalErrorCode.LocalRead = ''Local data could not be read.''"
| "safe_message LocalErrorCode.LocalWrite = ''Local data could not be written.''"
| "safe_message LocalErrorCode.LocalPermission = ''Local data access was denied.''"
| "safe_message LocalErrorCode.LocalLock = ''A required local lock is unavailable.''"
| "safe_message LocalErrorCode.RelayUnavailable = ''The relay is unavailable.''"
| "safe_message LocalErrorCode.RelayTimeout = ''The relay request timed out.''"
| "safe_message LocalErrorCode.RelayProtocol = ''The relay response was invalid.''"
| "safe_message LocalErrorCode.InvalidSession = ''The session is invalid.''"
| "safe_message LocalErrorCode.InactiveMembership = ''The membership is inactive.''"
| "safe_message LocalErrorCode.UnknownRecipient = ''The recipient is unknown.''"
| "safe_message LocalErrorCode.DuplicateName = ''The selected local name is already in use.''"
| "safe_message LocalErrorCode.SquadNotFound = ''The squad does not exist.''"
| "safe_message LocalErrorCode.SquadArchived = ''The squad is archived.''"
| "safe_message LocalErrorCode.MessageNotFound = ''The message does not exist.''"
| "safe_message LocalErrorCode.Conflict = ''The operation conflicts with current state.''"
| "safe_message LocalErrorCode.AuthorityDenied = ''The operation is not authorized.''"
| "safe_message LocalErrorCode.PayloadTooLarge = ''The payload exceeds a configured limit.''"
| "safe_message LocalErrorCode.OutcomeUnknown = ''The operation outcome is unknown.''"
| "safe_message LocalErrorCode.Unsupported = ''The operation is not supported.''"
| "safe_message LocalErrorCode.Internal = ''An internal error occurred.''"

definition requires_resume :: "LocalErrorCode \<Rightarrow> bool" where
  "requires_resume self \<longleftrightarrow> self = LocalErrorCode.LeaseExpired"

record SafeError =
  sf_code :: LocalErrorCode
  sf_message :: string
  sf_retryable :: bool
  sf_exit_class :: ExitClass

definition SafeError_from :: "LocalErrorCode \<Rightarrow> SafeError" where
  "SafeError_from code = \<lparr>sf_code = code, sf_message = safe_message code, sf_retryable = local_retryable code,
     sf_exit_class = exit_class code\<rparr>"

record McpSafeError =
  mse_code :: LocalErrorCode
  mse_message :: string
  mse_retryable :: bool

definition McpSafeError_from :: "LocalErrorCode \<Rightarrow> McpSafeError" where
  "McpSafeError_from code = \<lparr>mse_code = code, mse_message = safe_message code, mse_retryable = local_retryable code\<rparr>"

fun map_api_error :: "ApiErrorCode \<Rightarrow> LocalErrorCode" where
  "map_api_error ApiErrorCode.InvalidRequest = LocalErrorCode.InvalidRequest"
| "map_api_error ApiErrorCode.NotFound = LocalErrorCode.NotFound"
| "map_api_error ApiErrorCode.SquadArchived = LocalErrorCode.SquadArchived"
| "map_api_error ApiErrorCode.NotMember = LocalErrorCode.NotMember"
| "map_api_error ApiErrorCode.NameInUse = LocalErrorCode.NameInUse"
| "map_api_error ApiErrorCode.LeaseExpired = LocalErrorCode.LeaseExpired"
| "map_api_error ApiErrorCode.RecipientNotFound = LocalErrorCode.RecipientNotFound"
| "map_api_error ApiErrorCode.IdempotencyConflict = LocalErrorCode.IdempotencyConflict"
| "map_api_error ApiErrorCode.PayloadTooLarge = LocalErrorCode.PayloadTooLarge"
| "map_api_error ApiErrorCode.RateLimited = LocalErrorCode.RateLimited"
| "map_api_error ApiErrorCode.DatabaseBusy = LocalErrorCode.DatabaseBusy"
| "map_api_error ApiErrorCode.InternalError = LocalErrorCode.InternalError"

fun map_client_error :: "Error \<Rightarrow> LocalErrorCode" where
  "map_client_error Error.InvalidBaseUrl = LocalErrorCode.InvalidOrigin"
| "map_client_error Error.InvalidConfiguration = LocalErrorCode.InvalidConfiguration"
| "map_client_error Error.InvalidRequest = LocalErrorCode.InvalidInput"
| "map_client_error Error.MalformedCredential = LocalErrorCode.RelayProtocol"
| "map_client_error (Error.MalformedResponse status) = LocalErrorCode.RelayProtocol"
| "map_client_error (Error.Transport e) = LocalErrorCode.RelayUnavailable"
| "map_client_error Error.Timeout = LocalErrorCode.RelayTimeout"
| "map_client_error Error.OutcomeUnknown = LocalErrorCode.OutcomeUnknown"
| "map_client_error (Error.Api status code retryable) = map_api_error code"
| "map_client_error Error.ResponseTooLarge = LocalErrorCode.PayloadTooLarge"
| "map_client_error (Error.UnexpectedHttp status) = LocalErrorCode.RelayProtocol"
| "map_client_error Error.ClientBusy = LocalErrorCode.LocalLock"
| "map_client_error (Error.RetryExhausted attempts e) = map_client_error e"

end
