(* ===== verification/Mcp_Views.thy ===== *)
theory Mcp_Views
  imports Mcp_Tools Session_Types
begin

text \<open>
  What the MCP tools return (\<open>psst-application/src/mcp.rs\<close>), how it is made from the relay's answers and
  how failures become safe error codes (\<open>psst-mcp/src/dispatch.rs\<close>). Everything a participant controls
  is labelled as untrusted. \<open>stamp\<close> is the text of a timestamp (\<open>ApiTimestamp_display\<close>).
\<close>

section \<open>Labelled text\<close>

datatype SecurityNotice = ParticipantContentIsUntrusted

datatype TrustLabel = UntrustedParticipantContent

record UntrustedText =
  ut_trust :: TrustLabel
  ut_value :: string

definition participant :: "string \<Rightarrow> UntrustedText" where
  "participant v = \<lparr>ut_trust = UntrustedParticipantContent, ut_value = v\<rparr>"

record UntrustedPriority =
  up_trust :: TrustLabel
  up_value :: Priority

section \<open>Views\<close>

record SquadView =
  sv_id :: string
  sv_name :: UntrustedText
  sv_mission :: UntrustedText
  sv_state :: string
  sv_created_at :: string
  sv_archived_at :: "string option"

record SessionView =
  sev_squad :: SquadView
  sev_member_name :: UntrustedText
  sev_role :: UntrustedText
  sev_heartbeat_interval_seconds :: int
  sev_lease_seconds :: int
  sev_lease_expires_at :: string

record RosterMemberView =
  rmv_membership_id :: string
  rmv_name :: UntrustedText
  rmv_role :: UntrustedText
  rmv_membership_state :: string
  rmv_presence :: string
  rmv_availability :: UntrustedText
  rmv_availability_source :: UntrustedText
  rmv_availability_observed_at :: string
  rmv_mode :: "UntrustedText option"
  rmv_last_seen_at :: "string option"

record McpMessageView =
  mv_trust :: TrustLabel
  mv_sequence :: int
  mv_id :: string
  mv_squad :: UntrustedText
  mv_sender :: UntrustedText
  mv_recipient :: UntrustedText
  mv_untrusted_body :: string
  mv_priority :: UntrustedPriority
  mv_reply_to :: "UntrustedText option"
  mv_correlation_id :: "UntrustedText option"
  mv_created_at :: string
  mv_acknowledged_at :: "string option"

text \<open>The output of each tool, in the order of the contracts.\<close>

datatype tool_output =
    SquadJoinOutput SessionView
  | SquadLeaveOutput bool string
  | SquadListOutput SecurityNotice "SquadView list"
  | SquadDescribeOutput SecurityNotice SquadView
  | SquadRosterOutput SecurityNotice UntrustedText "RosterMemberView list"
  | MessageSendOutput SecurityNotice McpMessageView bool
  | MessageReceiveOutput SecurityNotice "string list" nat "McpMessageView list"
  | MessageAcknowledgeOutput "string list"
  | AgentStatusOutput string bool bool ToolAvailability "string option" "int option"

section \<open>Wire names\<close>

text \<open>\<open>enum_text\<close>: the name \<open>serde\<close> gives a variant.\<close>

fun squad_state_text :: "SquadStateDto \<Rightarrow> string" where
  "squad_state_text SquadStateDto.Active = ''active''"
| "squad_state_text SquadStateDto.Archived = ''archived''"

fun membership_state_text :: "MembershipStateDto \<Rightarrow> string" where
  "membership_state_text MembershipStateDto.Joined = ''joined''"
| "membership_state_text MembershipStateDto.Left = ''left''"

fun presence_text :: "TransportPresenceDto \<Rightarrow> string" where
  "presence_text TransportPresenceDto.Online = ''online''"
| "presence_text TransportPresenceDto.Offline = ''offline''"

fun availability_text :: "AvailabilityDto \<Rightarrow> string" where
  "availability_text AvailabilityDto.Idle = ''idle''"
| "availability_text AvailabilityDto.Busy = ''busy''"
| "availability_text AvailabilityDto.Blocked = ''blocked''"
| "availability_text AvailabilityDto.Unknown = ''unknown''"

fun availability_source_text :: "AvailabilitySourceDto \<Rightarrow> string" where
  "availability_source_text AvailabilitySourceDto.SessionLifecycle = ''session_lifecycle''"
| "availability_source_text AvailabilitySourceDto.McpConnection = ''mcp_connection''"
| "availability_source_text AvailabilitySourceDto.ToolActivity = ''tool_activity''"
| "availability_source_text AvailabilitySourceDto.AgentReported = ''agent_reported''"
| "availability_source_text AvailabilitySourceDto.Unknown = ''unknown''"

fun mode_text :: "AgentModeDto \<Rightarrow> string" where
  "mode_text AgentModeDto.Cooperative = ''cooperative''"
| "mode_text AgentModeDto.Scheduled = ''scheduled''"
| "mode_text AgentModeDto.Harnessed = ''harnessed''"

section \<open>From the relay's answers\<close>

type_synonym stamp = "ApiTimestamp \<Rightarrow> string"

definition squad_view :: "stamp \<Rightarrow> SquadSummary \<Rightarrow> SquadView" where
  "squad_view stamp squad =
     \<lparr>sv_id = ss_id squad, sv_name = participant (ss_name squad), sv_mission = participant (ss_mission squad),
      sv_state = squad_state_text (ss_state squad), sv_created_at = stamp (ss_created_at squad),
      sv_archived_at = map_option stamp (ss_archived_at squad)\<rparr>"

definition session_view :: "stamp \<Rightarrow> SessionResponse \<Rightarrow> SessionView" where
  "session_view stamp session =
     \<lparr>sev_squad = squad_view stamp (sp_squad session), sev_member_name = participant (sp_member_name session),
      sev_role = participant (sp_role session), sev_heartbeat_interval_seconds = sp_heartbeat_interval_seconds session,
      sev_lease_seconds = sp_lease_seconds session, sev_lease_expires_at = stamp (sp_lease_expires_at session)\<rparr>"

fun from_protocol_priority :: "MessagePriorityDto \<Rightarrow> Priority" where
  "from_protocol_priority MessagePriorityDto.Normal = Priority.Normal"
| "from_protocol_priority MessagePriorityDto.High = Priority.High"

definition message_view :: "stamp \<Rightarrow> MessageDto \<Rightarrow> McpMessageView" where
  "message_view stamp message =
     \<lparr>mv_trust = UntrustedParticipantContent, mv_sequence = seq_value (md_sequence message), mv_id = md_id message,
      mv_squad = participant (md_squad message), mv_sender = participant (md_sender message),
      mv_recipient = participant (md_recipient message), mv_untrusted_body = md_body message,
      mv_priority = \<lparr>up_trust = UntrustedParticipantContent, up_value = from_protocol_priority (md_priority message)\<rparr>,
      mv_reply_to = map_option participant (md_reply_to message),
      mv_correlation_id = map_option participant (md_correlation_id message),
      mv_created_at = stamp (md_created_at message), mv_acknowledged_at = map_option stamp (md_acknowledged_at message)\<rparr>"

definition roster_member_view :: "stamp \<Rightarrow> RosterMemberDto \<Rightarrow> RosterMemberView" where
  "roster_member_view stamp member =
     \<lparr>rmv_membership_id = rmd_membership_id member, rmv_name = participant (rmd_name member),
      rmv_role = participant (rmd_role member), rmv_membership_state = membership_state_text (rmd_membership_state member),
      rmv_presence = presence_text (rmd_presence member),
      rmv_availability = participant (availability_text (rmd_availability member)),
      rmv_availability_source = participant (availability_source_text (rmd_availability_source member)),
      rmv_availability_observed_at = stamp (rmd_availability_observed_at member),
      rmv_mode = map_option (\<lambda>m. participant (mode_text m)) (rmd_mode member),
      rmv_last_seen_at = map_option stamp (rmd_last_seen_at member)\<rparr>"

fun to_protocol_availability :: "ToolAvailability \<Rightarrow> AvailabilityDto" where
  "to_protocol_availability ToolAvailability.Idle = AvailabilityDto.Idle"
| "to_protocol_availability ToolAvailability.Busy = AvailabilityDto.Busy"
| "to_protocol_availability ToolAvailability.Blocked = AvailabilityDto.Blocked"
| "to_protocol_availability ToolAvailability.Unknown = AvailabilityDto.Unknown"

fun from_protocol_availability :: "AvailabilityDto \<Rightarrow> ToolAvailability" where
  "from_protocol_availability AvailabilityDto.Idle = ToolAvailability.Idle"
| "from_protocol_availability AvailabilityDto.Busy = ToolAvailability.Busy"
| "from_protocol_availability AvailabilityDto.Blocked = ToolAvailability.Blocked"
| "from_protocol_availability AvailabilityDto.Unknown = ToolAvailability.Unknown"

lemma availability_round_trip [simp]:
  "from_protocol_availability (to_protocol_availability a) = a"
  "to_protocol_availability (from_protocol_availability d) = d"
  by (cases a; simp) (cases d; simp)

section \<open>Failures\<close>

definition mcp_local_io :: "io_error \<Rightarrow> LocalErrorCode" where
  "mcp_local_io e =
     (case io_kind e of
        PermissionDenied \<Rightarrow> LocalErrorCode.LocalPermission
      | WouldBlock \<Rightarrow> LocalErrorCode.ProfileLocked
      | AddrInUse \<Rightarrow> LocalErrorCode.ProfileLocked
      | _ \<Rightarrow> LocalErrorCode.LocalRead)"

fun map_session_error :: "SessionError \<Rightarrow> LocalErrorCode" where
  "map_session_error (SessionError.Local e) = mcp_local_io e"
| "map_session_error (SessionError.Relay e) = map_client_error e"
| "map_session_error SessionError.ShutdownTimedOut = LocalErrorCode.OutcomeUnknown"
| "map_session_error SessionError.RecoveryOutcomeUnknown = LocalErrorCode.OutcomeUnknown"
| "map_session_error SessionError.NotReady = LocalErrorCode.InvalidSession"
| "map_session_error SessionError.Unbound = LocalErrorCode.ProfileUnbound"
| "map_session_error SessionError.SendCapacity = LocalErrorCode.LocalLock"
| "map_session_error SessionError.OperationCapacity = LocalErrorCode.LocalLock"

definition mcp_metadata :: "string \<Rightarrow> ClientMetadata" where
  "mcp_metadata version = \<lparr>cm_kind = ''mcp'', cm_hostname = None, cm_version = Some version\<rparr>"

text \<open>The requests the tools make of their inputs.\<close>

definition mcp_join_request :: "AgentModeDto \<Rightarrow> string \<Rightarrow> SquadJoinInput \<Rightarrow> JoinSquadRequest" where
  "mcp_join_request mode version input =
     \<lparr>jsq_name = sji_name input, jsq_role = sji_role input, jsq_mode = mode, jsq_client = mcp_metadata version,
      jsq_mission = sji_mission input\<rparr>"

fun to_protocol_priority :: "Priority \<Rightarrow> MessagePriorityDto" where
  "to_protocol_priority Priority.Normal = MessagePriorityDto.Normal"
| "to_protocol_priority Priority.High = MessagePriorityDto.High"

definition prepared_send :: "8 word list option \<Rightarrow> MessageSendInput \<Rightarrow> Error + PreparedSend" where
  "prepared_send random input =
     prepare_send random (msi_recipient input) (msi_body input) (to_protocol_priority (msi_priority input))
       (msi_reply_to input) (msi_correlation_id input)"

section \<open>What validation promises the relay\<close>

lemma is_ok_then [simp]: "is_ok (rbind m (\<lambda>_. r)) \<longleftrightarrow> is_ok m \<and> is_ok r"
  by (cases m) auto

lemma is_ok_then_Inr [simp]: "is_ok (rbind m Inr) \<longleftrightarrow> is_ok m"
  by (cases m) auto

lemma check_all_is_ok: "is_ok (check_all f xs) \<longleftrightarrow> list_all (\<lambda>x. is_ok (f x)) xs"
  by (induction xs) auto

lemma checked_opt_is_ok: "is_ok (checked_opt f v) \<longleftrightarrow> (case v of None \<Rightarrow> True | Some x \<Rightarrow> is_ok (f x))"
  by (auto simp: checked_opt_def checked_def split: option.splits)

lemma ensure_is_ok [simp]: "is_ok (ensure b e) \<longleftrightarrow> b"
  by (simp add: ensure_def)

lemma valid_join_protocol:
  assumes "version \<noteq> []" and "length version \<le> 64"
  shows "valid_join input \<longleftrightarrow> is_ok (SquadName_new (sji_squad input)) \<and> is_ok (validate_join_squad (mcp_join_request mode version input))"
  using assms
  by (auto simp: valid_join_def valid_domain validate_join_squad_def mcp_join_request_def validate_client_metadata_def mcp_metadata_def
      checked_opt_is_ok is_control_def split: option.splits)

lemma valid_ack_protocol:
  "1 \<le> length ids \<and> length ids \<le> 100 \<and> list_all valid_message_id ids \<longleftrightarrow> is_ok (validate_ack_request \<lparr>akq_message_ids = ids\<rparr>)"
  by (auto simp: validate_ack_request_def validate_ack_ids_def protocol_bounds check_all_is_ok valid_message_id_domain [abs_def]
      result_simps Suc_le_eq)

lemma valid_send_protocol:
  assumes "msi_correlation_id input = None" and "is_ok (DedupeKey_new key)"
  shows "valid_send input \<longleftrightarrow> is_ok (validate_send_message
    \<lparr>smq_recipient = msi_recipient input, smq_recipient_membership_id = None, smq_body = msi_body input,
     smq_priority = to_protocol_priority (msi_priority input), smq_dedupe_key = key, smq_reply_to = msi_reply_to input,
     smq_correlation_id = msi_correlation_id input\<rparr>)"
proof -
  have "1 \<le> length v \<and> length v \<le> 65536 \<longleftrightarrow> is_ok (MessageBody_new v)" for v
    by (auto simp: MessageBody_new_def MAX_BYTES_def Suc_le_eq)
  then show ?thesis
    using assms
    by (auto simp: valid_send_def valid_domain validate_send_message_def checked_opt_is_ok split: option.splits)
qed

lemma prepared_send_is_ok:
  assumes "dedupe_key random = Inr key"
  shows "is_ok (prepared_send random input) \<longleftrightarrow> is_ok (validate_send_message
    \<lparr>smq_recipient = msi_recipient input, smq_recipient_membership_id = None, smq_body = msi_body input,
     smq_priority = to_protocol_priority (msi_priority input), smq_dedupe_key = key, smq_reply_to = msi_reply_to input,
     smq_correlation_id = msi_correlation_id input\<rparr>)"
  using assms
  by (auto simp: prepared_send_def prepare_send_def valid_or_refused_def Let_def is_ok_iff map_err_eq_Inr result_simps)

section \<open>Properties\<close>

lemma valid_send_parts:
  "valid_send input \<longleftrightarrow> valid_send (input\<lparr>msi_correlation_id := None\<rparr>)
     \<and> (\<forall>c. msi_correlation_id input = Some c \<longrightarrow> valid_correlation_id c)"
  by (auto simp: valid_send_def split: option.splits)

text \<open>
  (C26) The MCP server's own check of a tool's arguments agrees with the checks of the protocol, for each
  of its nine tools: arguments are accepted exactly when they decode and the requests made of them are
  ones the protocol accepts. Message identifiers repeated in one call are refused here and not by the
  protocol. A correlation identifier is checked by a rule of the tools' own, which differs from the
  protocol's; all the rest of a message to send is accepted exactly when it could be prepared for sending.
  The tools without arguments accept none, and no other tool is accepted.
\<close>

theorem tool_validation_agrees_with_the_protocol:
  assumes "version \<noteq> []" and "length version \<le> 64" and "dedupe_key random = Inr key" and "is_ok (DedupeKey_new key)"
  shows "(validate_arguments ''squad_join'' args = Inr () \<longleftrightarrow>
      (\<exists>input. decode_SquadJoinInput args = Some input \<and> is_ok (SquadName_new (sji_squad input))
         \<and> is_ok (validate_join_squad (mcp_join_request mode version input))))
    \<and> (validate_arguments ''squad_describe'' args = Inr () \<longleftrightarrow>
      (\<exists>input. decode_SquadDescribeInput args = Some input \<and> is_ok (SquadName_new (sdi_squad input))))
    \<and> (\<forall>name \<in> {''squad_leave'', ''squad_list'', ''squad_roster''}. validate_arguments name args = Inr () \<longleftrightarrow> args = [])
    \<and> (validate_arguments ''message_send'' args = Inr () \<longleftrightarrow>
      (\<exists>input. decode_MessageSendInput args = Some input
         \<and> is_ok (prepared_send random (input\<lparr>msi_correlation_id := None\<rparr>))
         \<and> (\<forall>c. msi_correlation_id input = Some c \<longrightarrow> valid_correlation_id c)))
    \<and> (validate_arguments ''message_receive'' args = Inr () \<longleftrightarrow>
      (\<exists>input. decode_MessageReceiveInput args = Some input
         \<and> is_ok (validate_inbox_query \<lparr>iqd_limit = mri_limit input, iqd_wait_seconds = mri_wait_seconds input\<rparr>)
         \<and> (mri_acknowledge_ids input = [] \<or> is_ok (validate_ack_request \<lparr>akq_message_ids = mri_acknowledge_ids input\<rparr>))
         \<and> distinct (mri_acknowledge_ids input)))
    \<and> (validate_arguments ''message_acknowledge'' args = Inr () \<longleftrightarrow>
      (\<exists>input. decode_MessageAcknowledgeInput args = Some input
         \<and> is_ok (validate_ack_request \<lparr>akq_message_ids = mai_message_ids input\<rparr>) \<and> distinct (mai_message_ids input)))
    \<and> (validate_arguments ''agent_status'' args = Inr () \<longleftrightarrow>
      list_all (\<lambda>f. fst f = ''availability'') args
      \<and> (case map_of args ''availability'' of None \<Rightarrow> True | Some v \<Rightarrow> v = JNull \<or> as_availability v \<noteq> None))
    \<and> (name \<notin> {''squad_join'', ''squad_describe'', ''squad_leave'', ''squad_list'', ''squad_roster'', ''message_send'',
        ''message_receive'', ''message_acknowledge'', ''agent_status''} \<longrightarrow> validate_arguments name args \<noteq> Inr ())"
proof (intro conjI ballI impI)
  show "validate_arguments ''squad_describe'' args = Inr () \<longleftrightarrow>
      (\<exists>input. decode_SquadDescribeInput args = Some input \<and> is_ok (SquadName_new (sdi_squad input)))"
    by (auto simp: validate_arguments_def ensure_eq_Inr is_some_and_def valid_squad_domain split: option.splits)
  show "validate_arguments name args = Inr () \<longleftrightarrow> args = []"
    if "name \<in> {''squad_leave'', ''squad_list'', ''squad_roster''}" for name
    using that by (auto simp: validate_arguments_def ensure_eq_Inr decode_EmptyInput_def)
  show "validate_arguments ''agent_status'' args = Inr () \<longleftrightarrow>
      list_all (\<lambda>f. fst f = ''availability'') args
      \<and> (case map_of args ''availability'' of None \<Rightarrow> True | Some v \<Rightarrow> v = JNull \<or> as_availability v \<noteq> None)"
    by (auto simp: validate_arguments_def ensure_eq_Inr decode_AgentStatusInput_def closed_fields_def may_be_def Option.bind_eq_Some_conv
        split: option.splits json.splits)
  show "validate_arguments name args \<noteq> Inr ()"
    if "name \<notin> {''squad_join'', ''squad_describe'', ''squad_leave'', ''squad_list'', ''squad_roster'', ''message_send'',
        ''message_receive'', ''message_acknowledge'', ''agent_status''}"
    using that by (simp add: validate_arguments_def ensure_eq_Inr)
next
  show "validate_arguments ''squad_join'' args = Inr () \<longleftrightarrow>
      (\<exists>input. decode_SquadJoinInput args = Some input \<and> is_ok (SquadName_new (sji_squad input))
         \<and> is_ok (validate_join_squad (mcp_join_request mode version input)))"
    by (auto simp: validate_arguments_def ensure_eq_Inr is_some_and_def valid_join_protocol [OF assms(1,2)] split: option.splits)
next
  have "valid_send input \<longleftrightarrow> is_ok (prepared_send random (input\<lparr>msi_correlation_id := None\<rparr>))
      \<and> (\<forall>c. msi_correlation_id input = Some c \<longrightarrow> valid_correlation_id c)" for input
    unfolding valid_send_parts [of input]
    using valid_send_protocol [of "input\<lparr>msi_correlation_id := None\<rparr>" key] assms(4)
      prepared_send_is_ok [OF assms(3), of "input\<lparr>msi_correlation_id := None\<rparr>"] by simp
  then show "validate_arguments ''message_send'' args = Inr () \<longleftrightarrow>
      (\<exists>input. decode_MessageSendInput args = Some input
         \<and> is_ok (prepared_send random (input\<lparr>msi_correlation_id := None\<rparr>))
         \<and> (\<forall>c. msi_correlation_id input = Some c \<longrightarrow> valid_correlation_id c))"
    by (auto simp: validate_arguments_def ensure_eq_Inr is_some_and_def split: option.splits)
next
  have "valid_receive input \<longleftrightarrow>
      is_ok (validate_inbox_query \<lparr>iqd_limit = mri_limit input, iqd_wait_seconds = mri_wait_seconds input\<rparr>)
      \<and> (mri_acknowledge_ids input = [] \<or> is_ok (validate_ack_request \<lparr>akq_message_ids = mri_acknowledge_ids input\<rparr>))
      \<and> distinct (mri_acknowledge_ids input)" for input
    by (cases "mri_acknowledge_ids input = []")
      (auto simp: valid_receive_def validate_inbox_query_def protocol_bounds Suc_le_eq simp flip: valid_ack_protocol)
  then show "validate_arguments ''message_receive'' args = Inr () \<longleftrightarrow>
      (\<exists>input. decode_MessageReceiveInput args = Some input
         \<and> is_ok (validate_inbox_query \<lparr>iqd_limit = mri_limit input, iqd_wait_seconds = mri_wait_seconds input\<rparr>)
         \<and> (mri_acknowledge_ids input = [] \<or> is_ok (validate_ack_request \<lparr>akq_message_ids = mri_acknowledge_ids input\<rparr>))
         \<and> distinct (mri_acknowledge_ids input))"
    by (auto simp: validate_arguments_def ensure_eq_Inr is_some_and_def split: option.splits)
next
  show "validate_arguments ''message_acknowledge'' args = Inr () \<longleftrightarrow>
      (\<exists>input. decode_MessageAcknowledgeInput args = Some input
         \<and> is_ok (validate_ack_request \<lparr>akq_message_ids = mai_message_ids input\<rparr>) \<and> distinct (mai_message_ids input))"
    by (auto simp: validate_arguments_def ensure_eq_Inr is_some_and_def valid_acknowledge_def simp flip: valid_ack_protocol
        split: option.splits)
qed

definition sample_join_arguments :: "(string \<times> json) list" where
  "sample_join_arguments = [(''squad'', JString ''alpha''), (''name'', JString ''one''), (''role'', JString ''dev'')]"

theorem tool_validation_agrees_with_the_protocol_witness:
  "dedupe_key (Some [0]) = Inr ''sdk-00'' \<and> is_ok (DedupeKey_new ''sdk-00'')
    \<and> (\<exists>input. decode_SquadJoinInput sample_join_arguments = Some input
         \<and> is_ok (validate_join_squad (mcp_join_request AgentModeDto.Cooperative ''1'' input)))"
proof -
  have key: "dedupe_key (Some [0]) = Inr ''sdk-00''" by (simp add: dedupe_key_def hex_byte_def hex_digit_def)
  have key_ok: "is_ok (DedupeKey_new ''sdk-00'')"
    by (simp add: DedupeKey_new_def text_value_new_def printable_def trimmed_nonempty_def eval_simps)
  have "validate_arguments ''squad_join'' sample_join_arguments = Inr ()"
    by (simp add: validate_arguments_def sample_join_arguments_def decode_SquadJoinInput_def closed_fields_def need_string_def may_be_def
        is_some_and_def valid_join_def valid_squad_def valid_member_def valid_routing_def valid_trimmed_def eval_simps)
  then show ?thesis
    using tool_validation_agrees_with_the_protocol [of "''1''" "Some [0]" "''sdk-00''" sample_join_arguments AgentModeDto.Cooperative]
      key key_ok
    by auto
qed

text \<open>
  The identifiers on which the two checks of a correlation identifier differ: U+0080 is a control character
  for the protocol only, and U+FEFF is white space for the tools only.
\<close>

lemma correlation_checks_differ:
  "valid_correlation_id [char_of (194 :: nat), char_of (128 :: nat)] \<and> \<not> is_ok (CorrelationId_new [char_of (194 :: nat), char_of (128 :: nat)])"
  "\<not> valid_correlation_id [char_of (239 :: nat), char_of (187 :: nat), char_of (191 :: nat)]
    \<and> is_ok (CorrelationId_new [char_of (239 :: nat), char_of (187 :: nat), char_of (191 :: nat)])"
  by (simp_all add: valid_correlation_id_def ecmascript_whitespace_def CorrelationId_new_def text_value_new_def printable_def
      trimmed_nonempty_def continuation_bits_def Let_def eval_simps)

end
