(* ===== verification/App_Config.thy ===== *)
theory App_Config
  imports Credential_Store
begin

text \<open>
  Configuration (\<open>psst-application/src/config.rs\<close>): platform paths, the configuration file, the
  precedence of flags, environment, file and defaults, and the validation of every winning value. The
  YAML parser and the parser of socket addresses are arguments, and so are the environment and what the
  operating system says of the file.
\<close>

section \<open>Values and their sources\<close>

datatype ValueSource = CommandLine | Environment | ConfigFile | Default

record 'v EffectiveValue =
  ev_value :: 'v
  ev_source :: ValueSource

datatype CredentialState = Absent | Available | CredentialUnavailable

datatype ConfigFailure = Read | Parse | Invalid string | NoPlatformPaths

type_synonym PathBuf = string

text \<open>\<open>Path::join\<close> on Unix: an absolute path replaces the whole.\<close>

definition path_join :: "PathBuf \<Rightarrow> PathBuf \<Rightarrow> PathBuf" where
  "path_join a b =
     (if take 1 b = ''/'' then b
      else if a = [] \<or> last a = CHR ''/'' then a @ b
      else a @ ''/'' @ b)"

record ConfigFlags =
  fl_relay_origin :: "string option"
  fl_profile :: "string option"
  fl_config_path :: "PathBuf option"
  fl_relay_bind :: "string option"
  fl_data_dir :: "PathBuf option"
  fl_allow_lan :: "string option"
  fl_log_level :: "string option"
  fl_log_format :: "string option"
  fl_max_message_bytes :: "string option"
  fl_max_long_poll_seconds :: "string option"
  fl_heartbeat_seconds :: "string option"
  fl_lease_seconds :: "string option"

record ConfigInputs =
  ci_flags :: ConfigFlags
  ci_environment :: "string \<Rightarrow> string option"

record PlatformPaths =
  pp_config_dir :: PathBuf
  pp_data_dir :: PathBuf
  pp_runtime_dir :: PathBuf

text \<open>\<open>PlatformPaths::detect\<close> on Linux, over the environment.\<close>

definition detect :: "(string \<Rightarrow> string option) \<Rightarrow> ConfigFailure + PlatformPaths" where
  "detect env =
     rbind (ok_or NoPlatformPaths (case env ''HOME'' of Some h \<Rightarrow> Some h | None \<Rightarrow> env ''USERPROFILE'')) (\<lambda>home.
     let config = path_join (case env ''XDG_CONFIG_HOME'' of None \<Rightarrow> path_join home ''.config'' | Some p \<Rightarrow> p) ''psst'';
         data = path_join (case env ''XDG_DATA_HOME'' of None \<Rightarrow> path_join home ''.local/share'' | Some p \<Rightarrow> p) ''psst'';
         runtime = path_join (case env ''XDG_RUNTIME_DIR'' of None \<Rightarrow> data | Some p \<Rightarrow> p) ''psst'' in
     Inr \<lparr>pp_config_dir = config, pp_data_dir = data, pp_runtime_dir = runtime\<rparr>)"

record ResolvedConfig =
  rs_relay_origin :: "string EffectiveValue"
  rs_profile :: "string EffectiveValue"
  rs_config_path :: "string EffectiveValue"
  rs_relay_bind :: "string EffectiveValue"
  rs_relay_data_dir :: "string EffectiveValue"
  rs_allow_lan :: "bool EffectiveValue"
  rs_log_level :: "string EffectiveValue"
  rs_log_format :: "string EffectiveValue"
  rs_max_message_bytes :: "nat EffectiveValue"
  rs_max_long_poll_seconds :: "nat EffectiveValue"
  rs_heartbeat_interval_seconds :: "nat EffectiveValue"
  rs_lease_seconds :: "nat EffectiveValue"
  rs_paths :: PlatformPaths

record FileConfig =
  fc_relay_origin :: "string option"
  fc_profile :: "string option"
  fc_relay_bind :: "string option"
  fc_data_dir :: "PathBuf option"
  fc_allow_lan :: "bool option"
  fc_log_level :: "string option"
  fc_log_format :: "string option"
  fc_max_message_bytes :: "nat option"
  fc_max_long_poll_seconds :: "nat option"
  fc_heartbeat_interval_seconds :: "nat option"
  fc_lease_seconds :: "nat option"

definition FileConfig_default :: FileConfig where
  "FileConfig_default = \<lparr>fc_relay_origin = None, fc_profile = None, fc_relay_bind = None, fc_data_dir = None,
     fc_allow_lan = None, fc_log_level = None, fc_log_format = None, fc_max_message_bytes = None,
     fc_max_long_poll_seconds = None, fc_heartbeat_interval_seconds = None, fc_lease_seconds = None\<rparr>"

definition DEFAULT_RELAY_ORIGIN :: string where "DEFAULT_RELAY_ORIGIN = ''http://127.0.0.1:7341''"

definition MAX_CONFIG_BYTES :: nat where "MAX_CONFIG_BYTES = 64 * 1024"

section \<open>Reading the file\<close>

text \<open>A path as the system shows it: nothing there, or the outcome of opening, of its length and of reading it.\<close>

record config_file =
  cfi_exists :: bool
  cfi_open :: bool
  cfi_length :: "nat option"
  cfi_bytes :: "string option"

definition read_config :: "(string \<Rightarrow> FileConfig option) \<Rightarrow> config_file \<Rightarrow> ConfigFailure + FileConfig" where
  "read_config yaml file =
     (if \<not> cfi_exists file then Inr FileConfig_default
      else rbind (ensure (cfi_open file) Read) (\<lambda>_.
        rbind (ok_or Read (cfi_length file)) (\<lambda>len.
        if len = 0 then Inr FileConfig_default
        else rbind (ensure (\<not> len > MAX_CONFIG_BYTES) Read) (\<lambda>_.
          rbind (ok_or Read (map_option (take (MAX_CONFIG_BYTES + 1)) (cfi_bytes file))) (\<lambda>bytes.
          rbind (ensure (\<not> length bytes > MAX_CONFIG_BYTES) Read) (\<lambda>_.
          ok_or Parse (yaml bytes)))))))"

section \<open>Parsing and bounds\<close>

text \<open>\<open>FromStr\<close> of \<open>bool\<close> and of the unsigned integers up to \<open>largest\<close>.\<close>

definition parse_bool :: "string \<Rightarrow> bool option" where
  "parse_bool v = (if v = ''true'' then Some True else if v = ''false'' then Some False else None)"

definition parse_unsigned :: "nat \<Rightarrow> string \<Rightarrow> nat option" where
  "parse_unsigned largest v =
     (let digits = (if take 1 v = ''+'' then drop 1 v else v) in
      if digits \<noteq> [] \<and> list_all is_ascii_digit digits \<and> digits_value digits \<le> largest
      then Some (digits_value digits) else None)"

abbreviation (input) u32_limit :: nat where "u32_limit \<equiv> 4294967295"

abbreviation (input) u64_limit :: nat where "u64_limit \<equiv> 18446744073709551615"

definition bool_to_string :: "bool \<Rightarrow> string" where
  "bool_to_string b = (if b then ''true'' else ''false'')"

definition parsed_value :: "(string \<Rightarrow> 'v option) \<Rightarrow> string EffectiveValue \<Rightarrow> string \<Rightarrow> ConfigFailure + 'v EffectiveValue" where
  "parsed_value from_str v name =
     rbind (ok_or (Invalid name) (from_str (ev_value v))) (\<lambda>x.
     Inr \<lparr>ev_value = x, ev_source = ev_source v\<rparr>)"

definition bounded_value :: "nat EffectiveValue \<Rightarrow> nat \<Rightarrow> nat \<Rightarrow> string \<Rightarrow> ConfigFailure + nat EffectiveValue" where
  "bounded_value v lo hi name = (if ev_value v < lo \<or> ev_value v > hi then Inl (Invalid name) else Inr v)"

definition canonical_relay_origin :: "url_lib \<Rightarrow> string \<Rightarrow> ConfigFailure + string" where
  "canonical_relay_origin U raw =
     rbind (ok_or (Invalid ''relay_origin'') (ul_parse U raw)) (\<lambda>u.
     rbind (ensure (\<not> (ur_scheme u \<notin> {''http'', ''https''}
         \<or> ur_host u = None
         \<or> ur_username u \<noteq> []
         \<or> ur_password u \<noteq> None
         \<or> ur_query u \<noteq> None
         \<or> ur_fragment u \<noteq> None
         \<or> ur_path u \<noteq> ''/'')) (Invalid ''relay_origin'')) (\<lambda>_.
     let default = (if ur_scheme u = ''http'' then 80 else 443);
         u = (if ou_port u = Some default then u\<lparr>ou_port := None\<rparr> else u) in
     Inr (trim_end_matches (CHR ''/'') (ul_print U (u\<lparr>ur_path := ''''\<rparr>)))))"

definition validate_profile_name :: "string \<Rightarrow> ConfigFailure + unit" where
  "validate_profile_name v =
     ensure (\<not> (v = [] \<or> length v > 64 \<or> \<not> list_all profile_char v)) (Invalid ''profile'')"

section \<open>Precedence\<close>

text \<open>The closure \<open>pick\<close> of \<open>resolve\<close>.\<close>

definition pick ::
  "(string \<Rightarrow> string option) \<Rightarrow> string option \<Rightarrow> string \<Rightarrow> string option \<Rightarrow> string \<Rightarrow> string EffectiveValue" where
  "pick environment flag env_key file fallback =
     (case flag of Some v \<Rightarrow> \<lparr>ev_value = v, ev_source = CommandLine\<rparr>
      | None \<Rightarrow> (case environment env_key of Some v \<Rightarrow> \<lparr>ev_value = v, ev_source = Environment\<rparr>
      | None \<Rightarrow> (case file of Some v \<Rightarrow> \<lparr>ev_value = v, ev_source = ConfigFile\<rparr>
      | None \<Rightarrow> \<lparr>ev_value = fallback, ev_source = Default\<rparr>)))"

record config_lib =
  cl_url :: url_lib
  cl_yaml :: "string \<Rightarrow> FileConfig option"
  cl_socket_addr :: "string \<Rightarrow> bool"
  cl_file :: "PathBuf \<Rightarrow> config_file"

definition resolve :: "config_lib \<Rightarrow> PlatformPaths \<Rightarrow> ConfigInputs \<Rightarrow> ConfigFailure + ResolvedConfig" where
  "resolve L paths input =
     (let flags = ci_flags input;
          config_path = (case fl_config_path flags of Some p \<Rightarrow> p | None \<Rightarrow> path_join (pp_config_dir paths) ''config.yaml'') in
      rbind (read_config (cl_yaml L) (cl_file L config_path)) (\<lambda>file.
      let pick = pick (ci_environment input);
          origin = pick (fl_relay_origin flags) ''PSST_RELAY'' (fc_relay_origin file) DEFAULT_RELAY_ORIGIN in
      rbind (canonical_relay_origin (cl_url L) (ev_value origin)) (\<lambda>canonical.
      let origin = origin\<lparr>ev_value := canonical\<rparr>;
          profile = pick (fl_profile flags) ''PSST_PROFILE'' (fc_profile file) ''default'' in
      rbind (validate_profile_name (ev_value profile)) (\<lambda>_.
      let bind = pick (fl_relay_bind flags) ''PSST_RELAY_BIND'' (fc_relay_bind file) ''127.0.0.1:7341'' in
      rbind (ensure (cl_socket_addr L (ev_value bind)) (Invalid ''relay_bind'')) (\<lambda>_.
      let data = pick (fl_data_dir flags) ''PSST_DATA_DIR'' (fc_data_dir file) (pp_data_dir paths) in
      rbind (ensure (ev_value data \<noteq> []) (Invalid ''data_dir'')) (\<lambda>_.
      rbind (parsed_value parse_bool (pick (fl_allow_lan flags) ''PSST_ALLOW_LAN''
        (map_option bool_to_string (fc_allow_lan file)) ''false'') ''allow_lan'') (\<lambda>allow.
      let level = pick (fl_log_level flags) ''PSST_LOG'' (fc_log_level file) ''info'' in
      rbind (ensure (ev_value level \<in> {''trace'', ''debug'', ''info'', ''warn'', ''error''}) (Invalid ''log_level'')) (\<lambda>_.
      let format = pick (fl_log_format flags) ''PSST_LOG_FORMAT'' (fc_log_format file) ''text'' in
      rbind (ensure (ev_value format \<in> {''text'', ''json''}) (Invalid ''log_format'')) (\<lambda>_.
      rbind (parsed_value (parse_unsigned u64_limit) (pick (fl_max_message_bytes flags) ''PSST_MAX_MESSAGE_BYTES''
        (map_option decimal (fc_max_message_bytes file)) ''65536'') ''max_message_bytes'') (\<lambda>message.
      rbind (bounded_value message 1 65536 ''max_message_bytes'') (\<lambda>message.
      rbind (parsed_value (parse_unsigned u32_limit) (pick (fl_max_long_poll_seconds flags) ''PSST_MAX_LONG_POLL_SECONDS''
        (map_option decimal (fc_max_long_poll_seconds file)) ''30'') ''max_long_poll_seconds'') (\<lambda>poll.
      rbind (bounded_value poll 0 30 ''max_long_poll_seconds'') (\<lambda>poll.
      rbind (parsed_value (parse_unsigned u32_limit) (pick (fl_heartbeat_seconds flags) ''PSST_HEARTBEAT_SECONDS''
        (map_option decimal (fc_heartbeat_interval_seconds file)) ''10'') ''heartbeat_interval_seconds'') (\<lambda>heartbeat.
      rbind (bounded_value heartbeat 1 300 ''heartbeat_interval_seconds'') (\<lambda>heartbeat.
      rbind (parsed_value (parse_unsigned u32_limit) (pick (fl_lease_seconds flags) ''PSST_LEASE_SECONDS''
        (map_option decimal (fc_lease_seconds file)) ''30'') ''lease_seconds'') (\<lambda>lease.
      rbind (bounded_value lease 2 900 ''lease_seconds'') (\<lambda>lease.
      rbind (ensure (\<not> ev_value lease \<le> ev_value heartbeat) (Invalid ''lease_seconds'')) (\<lambda>_.
      Inr \<lparr>rs_relay_origin = origin, rs_profile = profile,
           rs_config_path = \<lparr>ev_value = config_path,
             ev_source = (if fl_config_path flags \<noteq> None then CommandLine else Default)\<rparr>,
           rs_relay_bind = bind, rs_relay_data_dir = data, rs_allow_lan = allow, rs_log_level = level,
           rs_log_format = format, rs_max_message_bytes = message, rs_max_long_poll_seconds = poll,
           rs_heartbeat_interval_seconds = heartbeat, rs_lease_seconds = lease, rs_paths = paths\<rparr>))))))))))))))))))"

section \<open>What a resolved configuration is\<close>

text \<open>
  The value that should win: a flag, else the environment, else the file, else the default, read from
  its text by \<open>f\<close> where it is text.
\<close>

definition effective ::
  "(string \<Rightarrow> 'v option) \<Rightarrow> string option \<Rightarrow> string option \<Rightarrow> 'v option \<Rightarrow> 'v option \<Rightarrow> 'v EffectiveValue \<Rightarrow> bool" where
  "effective f flag env file fallback v \<longleftrightarrow>
     (case ev_source v of
        CommandLine \<Rightarrow> \<exists>t. flag = Some t \<and> f t = Some (ev_value v)
      | Environment \<Rightarrow> flag = None \<and> (\<exists>t. env = Some t \<and> f t = Some (ev_value v))
      | ConfigFile \<Rightarrow> flag = None \<and> env = None \<and> file = Some (ev_value v)
      | Default \<Rightarrow> flag = None \<and> env = None \<and> file = None \<and> fallback = Some (ev_value v))"

lemma decimal_unsigned: "take 1 (decimal n) \<noteq> ''+''"
proof
  assume "take 1 (decimal n) = ''+''"
  then have "CHR ''+'' \<in> set (decimal n)" by (metis in_set_takeD list.set_intros(1))
  then show False using decimal_plain [of "CHR ''+''" n] by (simp add: is_ascii_digit_def)
qed

lemma parse_decimal: "parse_unsigned largest (decimal n) = (if n \<le> largest then Some n else None)"
  using decimal_digits [of n] decimal_unsigned [of n] by (simp add: parse_unsigned_def decimal_value Let_def)

lemma parse_decimal_only: "parse_unsigned largest (decimal n) = Some m \<Longrightarrow> m = n"
  by (simp add: parse_decimal split: if_splits)

lemma picked_text: "effective Some flag (env key) file (Some fallback) (pick env flag key file fallback)"
  by (cases flag; cases "env key"; cases "file") (auto simp: pick_def effective_def)

lemma picked_parsed:
  assumes "parsed_value f (pick env flag key (map_option show file) fallback) name = Inr v"
    and "\<And>x y. f (show x) = Some y \<Longrightarrow> y = x"
  shows "effective f flag (env key) file (f fallback) v"
  using assms
  by (cases flag; cases "env key"; cases "file") (auto simp: pick_def effective_def parsed_value_def result_simps, metis)

lemma picked_origin:
  assumes "canonical_relay_origin U (ev_value (pick env flag key file fallback)) = Inr canonical"
  shows "effective (\<lambda>t. case canonical_relay_origin U t of Inl _ \<Rightarrow> None | Inr c \<Rightarrow> Some c) flag (env key)
    (Option.bind file (\<lambda>t. case canonical_relay_origin U t of Inl _ \<Rightarrow> None | Inr c \<Rightarrow> Some c))
    (case canonical_relay_origin U fallback of Inl _ \<Rightarrow> None | Inr c \<Rightarrow> Some c)
    ((pick env flag key file fallback)\<lparr>ev_value := canonical\<rparr>)"
  using assms by (cases flag; cases "env key"; cases "file") (auto simp: pick_def effective_def)

lemma parse_bool_show: "parse_bool (bool_to_string b) = Some c \<Longrightarrow> c = b"
  by (auto simp: parse_bool_def bool_to_string_def split: if_splits)

lemma bounded_value_Inr: "bounded_value v lo hi name = Inr w \<longleftrightarrow> w = v \<and> lo \<le> ev_value v \<and> ev_value v \<le> hi"
  by (auto simp: bounded_value_def)

text \<open>The client's and the application's canonical origins agree.\<close>

lemma canonical_relay_origin_eq:
  "canonical_relay_origin U raw = map_err (\<lambda>_. Invalid ''relay_origin'') (canonical_origin U raw)"
  by (cases "ul_parse U raw") (auto simp: canonical_relay_origin_def canonical_origin_def Let_def ensure_def)

lemma resolve_cases:
  assumes "resolve L paths input = Inr r"
  obtains "file" canonical allow message poll heartbeat lease where
    "read_config (cl_yaml L) (cl_file L (ev_value (rs_config_path r))) = Inr file"
      "canonical_relay_origin (cl_url L) (ev_value
        (pick (ci_environment input) (fl_relay_origin (ci_flags input)) ''PSST_RELAY'' (fc_relay_origin file) DEFAULT_RELAY_ORIGIN)) = Inr canonical"
      "validate_profile_name (ev_value (rs_profile r)) = Inr ()"
      "parsed_value parse_bool (pick (ci_environment input) (fl_allow_lan (ci_flags input)) ''PSST_ALLOW_LAN''
        (map_option bool_to_string (fc_allow_lan file)) ''false'') ''allow_lan'' = Inr allow"
      "parsed_value (parse_unsigned u64_limit) (pick (ci_environment input) (fl_max_message_bytes (ci_flags input)) ''PSST_MAX_MESSAGE_BYTES''
        (map_option decimal (fc_max_message_bytes file)) ''65536'') ''max_message_bytes'' = Inr message"
      "parsed_value (parse_unsigned u32_limit) (pick (ci_environment input) (fl_max_long_poll_seconds (ci_flags input)) ''PSST_MAX_LONG_POLL_SECONDS''
        (map_option decimal (fc_max_long_poll_seconds file)) ''30'') ''max_long_poll_seconds'' = Inr poll"
      "parsed_value (parse_unsigned u32_limit) (pick (ci_environment input) (fl_heartbeat_seconds (ci_flags input)) ''PSST_HEARTBEAT_SECONDS''
        (map_option decimal (fc_heartbeat_interval_seconds file)) ''10'') ''heartbeat_interval_seconds'' = Inr heartbeat"
      "parsed_value (parse_unsigned u32_limit) (pick (ci_environment input) (fl_lease_seconds (ci_flags input)) ''PSST_LEASE_SECONDS''
        (map_option decimal (fc_lease_seconds file)) ''30'') ''lease_seconds'' = Inr lease"
      "1 \<le> ev_value message" "ev_value message \<le> 65536" "ev_value poll \<le> 30" "1 \<le> ev_value heartbeat"
      "ev_value heartbeat \<le> 300" "ev_value heartbeat < ev_value lease" "ev_value lease \<le> 900"
      "rs_relay_origin r = (pick (ci_environment input) (fl_relay_origin (ci_flags input)) ''PSST_RELAY'' (fc_relay_origin file) DEFAULT_RELAY_ORIGIN)
          \<lparr>ev_value := canonical\<rparr>"
      "rs_profile r = pick (ci_environment input) (fl_profile (ci_flags input)) ''PSST_PROFILE'' (fc_profile file) ''default''"
      "rs_relay_bind r = pick (ci_environment input) (fl_relay_bind (ci_flags input)) ''PSST_RELAY_BIND'' (fc_relay_bind file) ''127.0.0.1:7341''"
      "rs_allow_lan r = allow" "rs_max_message_bytes r = message" "rs_max_long_poll_seconds r = poll"
      "rs_heartbeat_interval_seconds r = heartbeat" "rs_lease_seconds r = lease"
proof -
  from assms show thesis
    unfolding resolve_def Let_def rbind_eq_Inr ensure_eq_Inr bounded_value_Inr sum.inject
    apply (elim exE conjE)
    apply hypsubst
    apply (rule that)
                       apply (simp only: ResolvedConfig.select_convs EffectiveValue.select_convs)
                      apply assumption
                     apply (simp only: ResolvedConfig.select_convs)
                    apply (assumption | simp)+
    done
qed

text \<open>The values that are taken as they are written, and the checks on them.\<close>

lemma resolve_text_values:
  assumes "resolve L paths input = Inr r"
    and "read_config (cl_yaml L) (cl_file L (ev_value (rs_config_path r))) = Inr file"
  shows "rs_config_path r = \<lparr>ev_value = (case fl_config_path (ci_flags input) of Some p \<Rightarrow> p
        | None \<Rightarrow> path_join (pp_config_dir paths) ''config.yaml''),
      ev_source = (if fl_config_path (ci_flags input) \<noteq> None then CommandLine else Default)\<rparr>"
    and "rs_paths r = paths"
    and "rs_relay_data_dir r = pick (ci_environment input) (fl_data_dir (ci_flags input)) ''PSST_DATA_DIR'' (fc_data_dir file) (pp_data_dir paths)"
    and "rs_log_level r = pick (ci_environment input) (fl_log_level (ci_flags input)) ''PSST_LOG'' (fc_log_level file) ''info''"
    and "rs_log_format r = pick (ci_environment input) (fl_log_format (ci_flags input)) ''PSST_LOG_FORMAT'' (fc_log_format file) ''text''"
    and "cl_socket_addr L (ev_value (rs_relay_bind r))"
    and "ev_value (rs_relay_data_dir r) \<noteq> []"
    and "ev_value (rs_log_level r) \<in> {''trace'', ''debug'', ''info'', ''warn'', ''error''}"
    and "ev_value (rs_log_format r) \<in> {''text'', ''json''}"
proof -
  let ?flags = "ci_flags input" and ?env = "ci_environment input"
  from assms(1) obtain f canonical allow message poll heartbeat lease where
    read: "read_config (cl_yaml L) (cl_file L (case fl_config_path ?flags of Some p \<Rightarrow> p
        | None \<Rightarrow> path_join (pp_config_dir paths) ''config.yaml'')) = Inr f"
    and checks: "cl_socket_addr L (ev_value (pick ?env (fl_relay_bind ?flags) ''PSST_RELAY_BIND'' (fc_relay_bind f) ''127.0.0.1:7341''))"
      "ev_value (pick ?env (fl_data_dir ?flags) ''PSST_DATA_DIR'' (fc_data_dir f) (pp_data_dir paths)) \<noteq> []"
      "ev_value (pick ?env (fl_log_level ?flags) ''PSST_LOG'' (fc_log_level f) ''info'') \<in> {''trace'', ''debug'', ''info'', ''warn'', ''error''}"
      "ev_value (pick ?env (fl_log_format ?flags) ''PSST_LOG_FORMAT'' (fc_log_format f) ''text'') \<in> {''text'', ''json''}"
    and r: "r = \<lparr>rs_relay_origin = (pick ?env (fl_relay_origin ?flags) ''PSST_RELAY'' (fc_relay_origin f) DEFAULT_RELAY_ORIGIN)\<lparr>ev_value := canonical\<rparr>,
       rs_profile = pick ?env (fl_profile ?flags) ''PSST_PROFILE'' (fc_profile f) ''default'',
       rs_config_path = \<lparr>ev_value = (case fl_config_path ?flags of Some p \<Rightarrow> p
           | None \<Rightarrow> path_join (pp_config_dir paths) ''config.yaml''),
         ev_source = (if fl_config_path ?flags \<noteq> None then CommandLine else Default)\<rparr>,
       rs_relay_bind = pick ?env (fl_relay_bind ?flags) ''PSST_RELAY_BIND'' (fc_relay_bind f) ''127.0.0.1:7341'',
       rs_relay_data_dir = pick ?env (fl_data_dir ?flags) ''PSST_DATA_DIR'' (fc_data_dir f) (pp_data_dir paths),
       rs_allow_lan = allow,
       rs_log_level = pick ?env (fl_log_level ?flags) ''PSST_LOG'' (fc_log_level f) ''info'',
       rs_log_format = pick ?env (fl_log_format ?flags) ''PSST_LOG_FORMAT'' (fc_log_format f) ''text'',
       rs_max_message_bytes = message, rs_max_long_poll_seconds = poll,
       rs_heartbeat_interval_seconds = heartbeat, rs_lease_seconds = lease, rs_paths = paths\<rparr>"
    unfolding resolve_def Let_def rbind_eq_Inr ensure_eq_Inr bounded_value_Inr sum.inject
    by (elim exE conjE) blast
  have "f = file" using read assms(2) by (simp add: r)
  with checks show "rs_config_path r = \<lparr>ev_value = (case fl_config_path ?flags of Some p \<Rightarrow> p
        | None \<Rightarrow> path_join (pp_config_dir paths) ''config.yaml''),
      ev_source = (if fl_config_path ?flags \<noteq> None then CommandLine else Default)\<rparr>"
    and "rs_paths r = paths"
    and "rs_relay_data_dir r = pick ?env (fl_data_dir ?flags) ''PSST_DATA_DIR'' (fc_data_dir file) (pp_data_dir paths)"
    and "rs_log_level r = pick ?env (fl_log_level ?flags) ''PSST_LOG'' (fc_log_level file) ''info''"
    and "rs_log_format r = pick ?env (fl_log_format ?flags) ''PSST_LOG_FORMAT'' (fc_log_format file) ''text''"
    and "cl_socket_addr L (ev_value (rs_relay_bind r))"
    and "ev_value (rs_relay_data_dir r) \<noteq> []"
    and "ev_value (rs_log_level r) \<in> {''trace'', ''debug'', ''info'', ''warn'', ''error''}"
    and "ev_value (rs_log_format r) \<in> {''text'', ''json''}"
    unfolding r by (simp_all only: ResolvedConfig.select_convs EffectiveValue.select_convs not_False_eq_True)
qed

text \<open>
  (C36) Resolving the configuration. When it succeeds, every value is the one that should win (the flag,
  else the environment variable, else the file, else the default; the path of the file itself comes from
  its flag or the default) and is marked with where it came from; numbers and truth values written in the
  file arrive as they were written; the profile name and the origin are canonical, so resolving again from
  them changes nothing; the bind address is one the library parses, the data directory is not empty, and
  log level and format are among the known ones; and every bound holds, among them that a lease outlives
  the heartbeat interval.
\<close>

theorem resolved_configuration_is_exact:
  assumes "resolve L paths input = Inr r" and "url_round_trip (cl_url L)"
  shows "\<exists>file. effective Some (fl_config_path (ci_flags input)) None None
        (Some (path_join (pp_config_dir paths) ''config.yaml'')) (rs_config_path r)
    \<and> rs_paths r = paths
    \<and> read_config (cl_yaml L) (cl_file L (ev_value (rs_config_path r))) = Inr file
    \<and> effective (\<lambda>t. case canonical_relay_origin (cl_url L) t of Inl _ \<Rightarrow> None | Inr c \<Rightarrow> Some c)
        (fl_relay_origin (ci_flags input)) (ci_environment input ''PSST_RELAY'')
        (Option.bind (fc_relay_origin file) (\<lambda>t. case canonical_relay_origin (cl_url L) t of Inl _ \<Rightarrow> None | Inr c \<Rightarrow> Some c))
        (case canonical_relay_origin (cl_url L) DEFAULT_RELAY_ORIGIN of Inl _ \<Rightarrow> None | Inr c \<Rightarrow> Some c) (rs_relay_origin r)
    \<and> canonical_relay_origin (cl_url L) (ev_value (rs_relay_origin r)) = Inr (ev_value (rs_relay_origin r))
    \<and> effective Some (fl_profile (ci_flags input)) (ci_environment input ''PSST_PROFILE'') (fc_profile file)
        (Some ''default'') (rs_profile r)
    \<and> validate_profile_name (ev_value (rs_profile r)) = Inr ()
    \<and> effective Some (fl_relay_bind (ci_flags input)) (ci_environment input ''PSST_RELAY_BIND'') (fc_relay_bind file)
        (Some ''127.0.0.1:7341'') (rs_relay_bind r)
    \<and> cl_socket_addr L (ev_value (rs_relay_bind r))
    \<and> effective Some (fl_data_dir (ci_flags input)) (ci_environment input ''PSST_DATA_DIR'') (fc_data_dir file)
        (Some (pp_data_dir paths)) (rs_relay_data_dir r)
    \<and> ev_value (rs_relay_data_dir r) \<noteq> []
    \<and> effective Some (fl_log_level (ci_flags input)) (ci_environment input ''PSST_LOG'') (fc_log_level file)
        (Some ''info'') (rs_log_level r)
    \<and> ev_value (rs_log_level r) \<in> {''trace'', ''debug'', ''info'', ''warn'', ''error''}
    \<and> effective Some (fl_log_format (ci_flags input)) (ci_environment input ''PSST_LOG_FORMAT'') (fc_log_format file)
        (Some ''text'') (rs_log_format r)
    \<and> ev_value (rs_log_format r) \<in> {''text'', ''json''}
    \<and> effective parse_bool (fl_allow_lan (ci_flags input)) (ci_environment input ''PSST_ALLOW_LAN'') (fc_allow_lan file)
        (Some False) (rs_allow_lan r)
    \<and> effective (parse_unsigned u64_limit) (fl_max_message_bytes (ci_flags input))
        (ci_environment input ''PSST_MAX_MESSAGE_BYTES'') (fc_max_message_bytes file) (Some 65536) (rs_max_message_bytes r)
    \<and> effective (parse_unsigned u32_limit) (fl_max_long_poll_seconds (ci_flags input))
        (ci_environment input ''PSST_MAX_LONG_POLL_SECONDS'') (fc_max_long_poll_seconds file) (Some 30) (rs_max_long_poll_seconds r)
    \<and> effective (parse_unsigned u32_limit) (fl_heartbeat_seconds (ci_flags input))
        (ci_environment input ''PSST_HEARTBEAT_SECONDS'') (fc_heartbeat_interval_seconds file) (Some 10)
        (rs_heartbeat_interval_seconds r)
    \<and> effective (parse_unsigned u32_limit) (fl_lease_seconds (ci_flags input))
        (ci_environment input ''PSST_LEASE_SECONDS'') (fc_lease_seconds file) (Some 30) (rs_lease_seconds r)
    \<and> 1 \<le> ev_value (rs_max_message_bytes r) \<and> ev_value (rs_max_message_bytes r) \<le> MAX_BYTES
    \<and> ev_value (rs_max_long_poll_seconds r) \<le> 30
    \<and> 1 \<le> ev_value (rs_heartbeat_interval_seconds r) \<and> ev_value (rs_heartbeat_interval_seconds r) \<le> 300
    \<and> ev_value (rs_heartbeat_interval_seconds r) < ev_value (rs_lease_seconds r) \<and> ev_value (rs_lease_seconds r) \<le> 900"
proof -
  have defaults: "parse_bool ''false'' = Some False" "parse_unsigned u64_limit ''65536'' = Some 65536"
      "parse_unsigned u32_limit ''30'' = Some 30" "parse_unsigned u32_limit ''10'' = Some 10"
    by (simp_all add: parse_bool_def parse_unsigned_def digits_value_def is_ascii_digit_def)
  have stable: "canonical_relay_origin (cl_url L) c = Inr c" if "canonical_relay_origin (cl_url L) t = Inr c" for t c
    using that canonical_origin_stable [OF assms(2)] by (auto simp: canonical_relay_origin_eq result_simps)
  let ?flags = "ci_flags input" and ?env = "ci_environment input"
  from assms(1) obtain "file" canonical allow message poll heartbeat lease where
    read: "read_config (cl_yaml L) (cl_file L (ev_value (rs_config_path r))) = Inr file"
    and origin: "canonical_relay_origin (cl_url L) (ev_value
        (pick ?env (fl_relay_origin ?flags) ''PSST_RELAY'' (fc_relay_origin file) DEFAULT_RELAY_ORIGIN)) = Inr canonical"
    and name: "validate_profile_name (ev_value (rs_profile r)) = Inr ()"
    and allow: "parsed_value parse_bool (pick ?env (fl_allow_lan ?flags) ''PSST_ALLOW_LAN''
        (map_option bool_to_string (fc_allow_lan file)) ''false'') ''allow_lan'' = Inr allow"
    and message: "parsed_value (parse_unsigned u64_limit) (pick ?env (fl_max_message_bytes ?flags) ''PSST_MAX_MESSAGE_BYTES''
        (map_option decimal (fc_max_message_bytes file)) ''65536'') ''max_message_bytes'' = Inr message"
    and poll: "parsed_value (parse_unsigned u32_limit) (pick ?env (fl_max_long_poll_seconds ?flags) ''PSST_MAX_LONG_POLL_SECONDS''
        (map_option decimal (fc_max_long_poll_seconds file)) ''30'') ''max_long_poll_seconds'' = Inr poll"
    and heartbeat: "parsed_value (parse_unsigned u32_limit) (pick ?env (fl_heartbeat_seconds ?flags) ''PSST_HEARTBEAT_SECONDS''
        (map_option decimal (fc_heartbeat_interval_seconds file)) ''10'') ''heartbeat_interval_seconds'' = Inr heartbeat"
    and lease: "parsed_value (parse_unsigned u32_limit) (pick ?env (fl_lease_seconds ?flags) ''PSST_LEASE_SECONDS''
        (map_option decimal (fc_lease_seconds file)) ''30'') ''lease_seconds'' = Inr lease"
    and bounds: "1 \<le> ev_value message" "ev_value message \<le> 65536" "ev_value poll \<le> 30" "1 \<le> ev_value heartbeat"
      "ev_value heartbeat \<le> 300" "ev_value heartbeat < ev_value lease" "ev_value lease \<le> 900"
    and r: "rs_relay_origin r = (pick ?env (fl_relay_origin ?flags) ''PSST_RELAY'' (fc_relay_origin file) DEFAULT_RELAY_ORIGIN)
          \<lparr>ev_value := canonical\<rparr>"
      "rs_profile r = pick ?env (fl_profile ?flags) ''PSST_PROFILE'' (fc_profile file) ''default''"
      "rs_relay_bind r = pick ?env (fl_relay_bind ?flags) ''PSST_RELAY_BIND'' (fc_relay_bind file) ''127.0.0.1:7341''"
      "rs_allow_lan r = allow" "rs_max_message_bytes r = message" "rs_max_long_poll_seconds r = poll"
      "rs_heartbeat_interval_seconds r = heartbeat" "rs_lease_seconds r = lease"
    by (rule resolve_cases)
  note numbers = picked_parsed [OF message parse_decimal_only] picked_parsed [OF poll parse_decimal_only]
    picked_parsed [OF heartbeat parse_decimal_only] picked_parsed [OF lease parse_decimal_only]
  note taken = resolve_text_values [OF assms(1) read]
  have path: "effective Some (fl_config_path ?flags) None None
      (Some (path_join (pp_config_dir paths) ''config.yaml'')) (rs_config_path r)"
    unfolding taken(1) by (cases "fl_config_path ?flags") (simp_all add: effective_def)
  show ?thesis
    by (intro exI [of _ "file"] conjI; (rule path taken read)?; (unfold r taken(3-5))?)
      (use name bounds numbers picked_parsed [OF allow parse_bool_show] picked_origin [OF origin] stable [OF origin] r
        in \<open>simp_all add: defaults picked_text MAX_BYTES_def\<close>)
qed

text \<open>The defaults resolve, and a heartbeat interval from the file overrides its default.\<close>

definition no_flags :: ConfigFlags where
  "no_flags = \<lparr>fl_relay_origin = None, fl_profile = None, fl_config_path = None, fl_relay_bind = None, fl_data_dir = None,
     fl_allow_lan = None, fl_log_level = None, fl_log_format = None, fl_max_message_bytes = None,
     fl_max_long_poll_seconds = None, fl_heartbeat_seconds = None, fl_lease_seconds = None\<rparr>"

definition sample_config_lib :: config_lib where
  "sample_config_lib = \<lparr>cl_url = sample_url_lib,
     cl_yaml = (\<lambda>_. Some (FileConfig_default\<lparr>fc_heartbeat_interval_seconds := Some 20\<rparr>)),
     cl_socket_addr = (\<lambda>v. v = ''127.0.0.1:7341''),
     cl_file = (\<lambda>_. \<lparr>cfi_exists = True, cfi_open = True, cfi_length = Some 4, cfi_bytes = Some ''yaml''\<rparr>)\<rparr>"

definition sample_paths :: PlatformPaths where
  "sample_paths = \<lparr>pp_config_dir = ''/c'', pp_data_dir = ''/d'', pp_runtime_dir = ''/r''\<rparr>"

lemma decimal_20: "decimal 20 = ''20''"
  by code_simp

theorem resolved_configuration_is_exact_witness:
  "\<exists>r. resolve sample_config_lib sample_paths \<lparr>ci_flags = no_flags, ci_environment = (\<lambda>_. None)\<rparr> = Inr r
     \<and> effective (parse_unsigned u32_limit) None None (Some 20) (Some 10) (rs_heartbeat_interval_seconds r)
     \<and> ev_value (rs_heartbeat_interval_seconds r) < ev_value (rs_lease_seconds r)"
proof -
  let ?input = "\<lparr>ci_flags = no_flags, ci_environment = (\<lambda>_. None)\<rparr>"
  have "is_ok (resolve sample_config_lib sample_paths ?input)"
    by (simp add: resolve_def sample_config_lib_def sample_paths_def no_flags_def read_config_def MAX_CONFIG_BYTES_def
        FileConfig_default_def pick_def canonical_relay_origin_def DEFAULT_RELAY_ORIGIN_def sample_url_lib_def
        sample_origin_url_def validate_profile_name_def profile_char_def parsed_value_def parse_bool_def parse_unsigned_def
        bounded_value_def decimal_20 digits_value_def Let_def eval_simps)
  then obtain r where r: "resolve sample_config_lib sample_paths ?input = Inr r" by (auto simp: is_ok_iff)
  have "url_round_trip (cl_url sample_config_lib)" by (simp add: sample_config_lib_def sample_url_round_trip)
  from resolved_configuration_is_exact [OF r this] obtain "file" where
    f: "read_config (cl_yaml sample_config_lib) (cl_file sample_config_lib (ev_value (rs_config_path r))) = Inr file"
    and e: "effective (parse_unsigned u32_limit) (fl_heartbeat_seconds no_flags) None (fc_heartbeat_interval_seconds file) (Some 10)
        (rs_heartbeat_interval_seconds r)"
    and b: "ev_value (rs_heartbeat_interval_seconds r) < ev_value (rs_lease_seconds r)"
    by auto
  from f have "fc_heartbeat_interval_seconds file = Some 20"
    by (auto simp: sample_config_lib_def read_config_def MAX_CONFIG_BYTES_def)
  with r e b show ?thesis by (auto simp: no_flags_def)
qed

end
