(* ===== verification/App_Profile.thy ===== *)
theory App_Profile
  imports App_Config
begin

text \<open>
  Profiles (\<open>psst-application/src/profile.rs\<close>, Linux): the durable binding of a local profile to a
  membership, the paths derived from it, the lock that makes one process its owner, and the file that
  stores it. The digest SHA-256 and the JSON codec are arguments.
\<close>

definition PROFILE_VERSION :: nat where "PROFILE_VERSION = 1"

definition MAX_PROFILE_BYTES :: nat where "MAX_PROFILE_BYTES = 16 * 1024"

section \<open>Bindings\<close>

record ProfileBinding =
  pb_version :: nat
  pb_profile :: string
  pb_relay_origin :: string
  pb_squad_name :: string
  pb_squad_id :: string
  pb_member_id :: string

definition validate_binding :: "url_lib \<Rightarrow> ProfileBinding \<Rightarrow> ConfigFailure + unit" where
  "validate_binding U self =
     rbind (ensure (pb_version self = PROFILE_VERSION) (Invalid ''profile binding version'')) (\<lambda>_.
     rbind (validate_profile_name (pb_profile self)) (\<lambda>_.
     rbind (canonical_relay_origin U (pb_relay_origin self)) (\<lambda>canonical.
     ensure (\<not> (canonical \<noteq> pb_relay_origin self
       \<or> \<not> is_ok (SquadName_new (pb_squad_name self))
       \<or> \<not> is_ok (SquadId_new (pb_squad_id self))
       \<or> \<not> is_ok (MembershipId_new (pb_member_id self)))) (Invalid ''profile binding''))))"

definition ProfileBinding_new ::
  "url_lib \<Rightarrow> string \<Rightarrow> string \<Rightarrow> string \<Rightarrow> string \<Rightarrow> string \<Rightarrow> ConfigFailure + ProfileBinding" where
  "ProfileBinding_new U profile relay_origin squad_name squad_id member_id =
     rbind (canonical_relay_origin U relay_origin) (\<lambda>relay_origin.
     let v = \<lparr>pb_version = PROFILE_VERSION, pb_profile = profile, pb_relay_origin = relay_origin,
       pb_squad_name = squad_name, pb_squad_id = squad_id, pb_member_id = member_id\<rparr> in
     rbind (validate_binding U v) (\<lambda>_. Inr v))"

definition verify_profile_origin :: "url_lib \<Rightarrow> ProfileBinding \<Rightarrow> string \<Rightarrow> ConfigFailure + unit" where
  "verify_profile_origin U binding requested =
     rbind (canonical_relay_origin U requested) (\<lambda>canonical.
     ensure (canonical = pb_relay_origin binding) (Invalid ''profile origin mismatch''))"

section \<open>Paths\<close>

record ProfilePaths =
  pa_metadata :: PathBuf
  pa_credential :: PathBuf
  pa_lock :: PathBuf

definition hex_digest :: "(string \<Rightarrow> 8 word list) \<Rightarrow> string \<Rightarrow> string" where
  "hex_digest sha256 bytes = concat (map hex_byte (sha256 bytes))"

definition for_profile ::
  "url_lib \<Rightarrow> (string \<Rightarrow> 8 word list) \<Rightarrow> PlatformPaths \<Rightarrow> string \<Rightarrow> string \<Rightarrow> ConfigFailure + ProfilePaths" where
  "for_profile U sha256 paths origin profile =
     rbind (validate_profile_name profile) (\<lambda>_.
     rbind (canonical_relay_origin U origin) (\<lambda>origin.
     let key = profile @ ''-'' @ take 16 (hex_digest sha256 origin) in
     Inr \<lparr>pa_metadata = path_join (path_join (pp_data_dir paths) ''profiles'') (key @ ''.json''),
          pa_credential = path_join (path_join (pp_data_dir paths) ''credentials'') (key @ ''.json''),
          pa_lock = path_join (path_join (pp_runtime_dir paths) ''locks'') (key @ ''.lock'')\<rparr>))"

text \<open>\<open>Path::file_name\<close>, \<open>file_stem\<close> and \<open>parent\<close> of a path that ends in a plain name.\<close>

definition file_name :: "PathBuf \<Rightarrow> string option" where
  "file_name path =
     (let name = rev (takeWhile (\<lambda>c. c \<noteq> CHR ''/'') (rev path)) in
      if name \<in> {'''', ''.'', ''..''} then None else Some name)"

definition file_stem :: "PathBuf \<Rightarrow> string option" where
  "file_stem path = map_option (\<lambda>name.
     let before = rev (dropWhile (\<lambda>c. c \<noteq> CHR ''.'') (rev name)) in
     if length before \<le> 1 then name else butlast before) (file_name path)"

definition parent_of :: "PathBuf \<Rightarrow> PathBuf" where
  "parent_of path = rev (dropWhile (\<lambda>c. c \<noteq> CHR ''/'') (rev path))"

definition harness_status :: "ProfilePaths \<Rightarrow> ConfigFailure + PathBuf" where
  "harness_status self =
     rbind (ok_or (Invalid ''profile status path'') (file_stem (pa_metadata self))) (\<lambda>stem.
     Inr (parent_of (pa_metadata self) @ stem @ ''.harness-v1.json''))"

section \<open>Storing\<close>

text \<open>\<open>ConfigError::fmt\<close> and \<open>invalid_data\<close>.\<close>

fun config_failure_text :: "ConfigFailure \<Rightarrow> string" where
  "config_failure_text Read = ''configuration read failed''"
| "config_failure_text Parse = ''configuration parse failed''"
| "config_failure_text (Invalid _) = ''configuration value is invalid''"
| "config_failure_text NoPlatformPaths = ''platform paths unavailable''"

definition invalid_data_config :: "ConfigFailure \<Rightarrow> io_error" where
  "invalid_data_config e = IoError InvalidData (config_failure_text e)"

definition link_rejected :: io_error where
  "link_rejected = IoError PermissionDenied ''link substitution rejected''"

definition reject_symlink :: "os \<Rightarrow> string \<Rightarrow> unit dir_op" where
  "reject_symlink os name = lstat_not_link os link_rejected name"

definition atomic_replace_unix :: "parent_dir \<Rightarrow> string option \<Rightarrow> os \<Rightarrow> string \<Rightarrow> unit dir_op" where
  "atomic_replace_unix p name os bytes =
     io_bind (io_guard (pd_present p) (IoError InvalidInput ''profile parent unavailable'')) (\<lambda>_.
     io_bind (io_return (pd_create p)) (\<lambda>_.
     io_bind (io_return (pd_open p)) (\<lambda>_.
     io_bind (io_return (ok_or (IoError InvalidInput ''profile name unavailable'') name)) (\<lambda>target.
     let temp = ''.'' @ target @ ''.tmp'' in
     io_bind (io_ignore (unlinkat os temp)) (\<lambda>_.
     io_bind (create_excl os temp) (\<lambda>_.
     io_bind (write_all os temp bytes) (\<lambda>_.
     io_bind (sync_file os temp) (\<lambda>_.
     io_bind (renameat os temp target) (\<lambda>_.
     sync_dir os)))))))))"

record ('v) json_codec =
  jc_to_vec :: "'v \<Rightarrow> io_error + string"
  jc_from_slice :: "string \<Rightarrow> io_error + 'v"

definition codec_round_trip :: "'v json_codec \<Rightarrow> bool" where
  "codec_round_trip J \<longleftrightarrow> (\<forall>v bytes. jc_to_vec J v = Inr bytes \<longrightarrow> jc_from_slice J bytes = Inr v)"

definition store_profile_guarded :: "ProfileBinding json_codec \<Rightarrow> parent_dir \<Rightarrow> string option \<Rightarrow> os \<Rightarrow> ProfileBinding \<Rightarrow> unit dir_op" where
  "store_profile_guarded J p name os binding =
     io_bind (io_return (jc_to_vec J binding)) (\<lambda>bytes. atomic_replace_unix p name os bytes)"

definition store_profile ::
  "url_lib \<Rightarrow> ProfileBinding json_codec \<Rightarrow> parent_dir \<Rightarrow> string option \<Rightarrow> os \<Rightarrow> ProfileBinding \<Rightarrow> unit dir_op" where
  "store_profile U J p name os binding =
     io_bind (io_return (map_err invalid_data_config (validate_binding U binding))) (\<lambda>_.
     io_bind (io_guard (pd_present p) (IoError InvalidInput ''profile parent unavailable'')) (\<lambda>_.
     io_bind (io_return (pd_create p)) (\<lambda>_.
     io_bind (io_return (rbind (pd_link p) (\<lambda>link. ensure (\<not> link) link_rejected))) (\<lambda>_.
     io_bind (io_return (pd_open p)) (\<lambda>_.
     store_profile_guarded J p name os binding)))))"

definition load_profile ::
  "url_lib \<Rightarrow> ProfileBinding json_codec \<Rightarrow> parent_dir \<Rightarrow> string option \<Rightarrow> os \<Rightarrow> ProfileBinding option dir_op" where
  "load_profile U J p name os d =
     (if \<not> (case name of None \<Rightarrow> False | Some n \<Rightarrow> path_exists os n d) then (Inr None, d)
      else
        io_bind (io_guard (pd_present p) (IoError InvalidInput ''profile parent unavailable'')) (\<lambda>_.
        io_bind (io_return (pd_open p)) (\<lambda>_.
        io_bind (io_return (ok_or (IoError InvalidInput ''profile name unavailable'') name)) (\<lambda>n.
        io_bind (reject_symlink os n) (\<lambda>_.
        io_bind (open_read os n) (\<lambda>f.
        io_bind (call os Stat (io_guard (\<not> (node_length f = 0 \<or> node_length f > MAX_PROFILE_BYTES))
          (IoError InvalidData ''invalid profile record size''))) (\<lambda>_.
        io_bind (read_bytes os (MAX_PROFILE_BYTES + 1) f) (\<lambda>bytes.
        io_bind (io_guard (\<not> length bytes > MAX_PROFILE_BYTES) (IoError InvalidData ''profile record too large'')) (\<lambda>_.
        io_bind (io_return (jc_from_slice J bytes)) (\<lambda>v.
        io_bind (io_return (map_err invalid_data_config (validate_binding U v))) (\<lambda>_.
        io_return (Inr (Some v)))))))))))) d)"

definition clear_profile :: "parent_dir \<Rightarrow> string option \<Rightarrow> os \<Rightarrow> unit dir_op" where
  "clear_profile p name os d =
     (if \<not> (case name of None \<Rightarrow> False | Some n \<Rightarrow> path_exists os n d) then (Inr (), d)
      else
        io_bind (io_return (ok_or (IoError InvalidInput ''profile name unavailable'') name)) (\<lambda>n.
        io_bind (reject_symlink os n) (\<lambda>_.
        io_bind (io_guard (pd_present p) (IoError InvalidInput ''profile parent unavailable'')) (\<lambda>_.
        io_bind (io_return (pd_open p)) (\<lambda>_.
        io_bind (unlinkat os n) (\<lambda>_.
        sync_dir os))))) d)"

section \<open>Ownership\<close>

record SocketAddrV4 =
  v4_octets :: "8 word list"
  v4_port :: nat

definition from_be_bytes :: "8 word \<Rightarrow> 8 word \<Rightarrow> nat" where
  "from_be_bytes hi lo = 256 * unat hi + unat lo"

definition lock_endpoints :: "(string \<Rightarrow> 8 word list) \<Rightarrow> PathBuf \<Rightarrow> SocketAddrV4 \<times> SocketAddrV4" where
  "lock_endpoints sha256 path =
     (let digest = sha256 path in
      (\<lparr>v4_octets = [127, digest ! 0, digest ! 1, digest ! 2],
        v4_port = 10000 + from_be_bytes (digest ! 6) (digest ! 7) mod 20000\<rparr>,
       \<lparr>v4_octets = [127, digest ! 3, digest ! 4, digest ! 5],
        v4_port = 10000 + from_be_bytes (digest ! 8) (digest ! 9) mod 20000\<rparr>))"

text \<open>What the machine has given out: bound stream and datagram endpoints, and files under an exclusive lock.\<close>

record lock_world =
  lw_streams :: "SocketAddrV4 list"
  lw_datagrams :: "SocketAddrV4 list"
  lw_flocks :: "PathBuf list"

record ProfileLock =
  lk_file :: PathBuf
  lk_ownership_socket :: SocketAddrV4
  lk_ownership_datagram :: SocketAddrV4
  lk_path :: PathBuf

text \<open>
  What the file system answers before the lock is tried: the checks on the path and its parent, the
  canonical parent, whether the path has a name, opening the file and opening the directory; and the
  errors other than contention of the three calls that take ownership.
\<close>

record lock_site =
  si_path_checked :: "io_error + unit"
  si_parent_ready :: "io_error + unit"
  si_canonical_parent :: "io_error + PathBuf"
  si_stream :: "io_error + unit"
  si_datagram :: "io_error + unit"
  si_open :: "io_error + unit"
  si_guard :: "io_error + unit"

definition bind_endpoint :: "SocketAddrV4 \<Rightarrow> SocketAddrV4 list \<Rightarrow> io_error + SocketAddrV4 list" where
  "bind_endpoint e bound = (if e \<in> set bound then Inl (IoError AddrInUse ''address in use'') else Inr (e # bound))"

definition lock_identity :: "lock_site \<Rightarrow> PathBuf \<Rightarrow> io_error + PathBuf" where
  "lock_identity site path =
     rbind (si_canonical_parent site) (\<lambda>parent.
     rbind (ok_or (IoError InvalidInput ''lock name unavailable'') (file_name path)) (\<lambda>name.
     Inr (path_join parent name)))"

text \<open>\<open>ProfileLock::acquire\<close>; what was taken before a failure is dropped.\<close>

definition acquire ::
  "(string \<Rightarrow> 8 word list) \<Rightarrow> lock_site \<Rightarrow> PathBuf \<Rightarrow> lock_world \<Rightarrow> (io_error + ProfileLock) \<times> lock_world" where
  "acquire sha256 site path w =
     (case rbind (si_path_checked site) (\<lambda>_.
        rbind (si_parent_ready site) (\<lambda>_.
        rbind (lock_identity site path) (\<lambda>identity.
        let stream = fst (lock_endpoints sha256 identity); datagram = snd (lock_endpoints sha256 identity) in
        rbind (si_stream site) (\<lambda>_.
        rbind (bind_endpoint stream (lw_streams w)) (\<lambda>streams.
        rbind (si_datagram site) (\<lambda>_.
        rbind (bind_endpoint datagram (lw_datagrams w)) (\<lambda>datagrams.
        rbind (si_open site) (\<lambda>_.
        rbind (ensure (path \<notin> set (lw_flocks w)) (IoError WouldBlock ''lock contended'')) (\<lambda>_.
        rbind (si_guard site) (\<lambda>_.
        Inr (\<lparr>lk_file = path, lk_ownership_socket = stream, lk_ownership_datagram = datagram, lk_path = path\<rparr>,
             \<lparr>lw_streams = streams, lw_datagrams = datagrams, lw_flocks = path # lw_flocks w\<rparr>))))))))))) of
        Inl e \<Rightarrow> (Inl e, w)
      | Inr (lock, w') \<Rightarrow> (Inr lock, w'))"

definition drop_lock :: "ProfileLock \<Rightarrow> lock_world \<Rightarrow> lock_world" where
  "drop_lock self w = w\<lparr>lw_streams := remove1 (lk_ownership_socket self) (lw_streams w),
     lw_datagrams := remove1 (lk_ownership_datagram self) (lw_datagrams w),
     lw_flocks := remove1 (lk_file self) (lw_flocks w)\<rparr>"

text \<open>
  Processes that take and drop profile locks, among others that bind and release endpoints. The state
  lists the locks held with the canonical path each was taken for.
\<close>

inductive lock_step ::
  "(string \<Rightarrow> 8 word list) \<Rightarrow> lock_world \<times> (PathBuf \<times> ProfileLock) list \<Rightarrow> lock_world \<times> (PathBuf \<times> ProfileLock) list \<Rightarrow> bool"
  for sha256 where
  acquired: "acquire sha256 site path w = (Inr lock, w') \<Longrightarrow> lock_identity site path = Inr identity
    \<Longrightarrow> lock_step sha256 (w, held) (w', (identity, lock) # held)"
| refused: "acquire sha256 site path w = (Inl e, w') \<Longrightarrow> lock_step sha256 (w, held) (w', held)"
| dropped: "(identity, lock) \<in> set held \<Longrightarrow>
    lock_step sha256 (w, held) (drop_lock lock w, remove1 (identity, lock) held)"
| bound_elsewhere: "bind_endpoint e (lw_streams w) = Inr streams \<Longrightarrow>
    lock_step sha256 (w, held) (w\<lparr>lw_streams := streams\<rparr>, held)"
| released_elsewhere: "e \<notin> (\<lambda>(_, lock). lk_ownership_socket lock) ` set held \<Longrightarrow>
    lock_step sha256 (w, held) (w\<lparr>lw_streams := remove1 e (lw_streams w)\<rparr>, held)"

inductive_cases lock_stepE: "lock_step sha256 (w, held) (w', held')"

definition locks_ok :: "(string \<Rightarrow> 8 word list) \<Rightarrow> lock_world \<times> (PathBuf \<times> ProfileLock) list \<Rightarrow> bool" where
  "locks_ok sha256 s \<longleftrightarrow> (case s of (w, held) \<Rightarrow>
     distinct (map (lk_ownership_socket \<circ> snd) held)
     \<and> (\<forall>(identity, lock) \<in> set held. lk_ownership_socket lock = fst (lock_endpoints sha256 identity)
         \<and> lk_ownership_socket lock \<in> set (lw_streams w)))"

lemma acquire_Inr:
  assumes "acquire sha256 site path w = (Inr lock, w')"
  obtains identity where "lock_identity site path = Inr identity"
    "lk_ownership_socket lock = fst (lock_endpoints sha256 identity)"
    "lk_ownership_socket lock \<notin> set (lw_streams w)" "lw_streams w' = lk_ownership_socket lock # lw_streams w"
proof -
  from assms obtain identity where "lock_identity site path = Inr identity"
    "lk_ownership_socket lock = fst (lock_endpoints sha256 identity)"
    "lk_ownership_socket lock \<notin> set (lw_streams w) \<and> lw_streams w' = lk_ownership_socket lock # lw_streams w"
    by (auto simp: acquire_def result_simps bind_endpoint_def Let_def split: sum.splits prod.splits if_splits)
  then show thesis using that by blast
qed

lemma acquire_Inl: "acquire sha256 site path w = (Inl e, w') \<Longrightarrow> w' = w"
  by (auto simp: acquire_def split: sum.splits prod.splits)

lemma locks_ok_step:
  assumes "lock_step sha256 s s'" and "locks_ok sha256 s"
  shows "locks_ok sha256 s'"
  using assms
proof (cases rule: lock_step.cases)
  case (acquired site path w lock w' identity held)
  obtain i where i: "lock_identity site path = Inr i" "lk_ownership_socket lock = fst (lock_endpoints sha256 i)"
    and fresh: "lk_ownership_socket lock \<notin> set (lw_streams w)" "lw_streams w' = lk_ownership_socket lock # lw_streams w"
    by (rule acquire_Inr [OF acquired(3)])
  have "i = identity" using i(1) acquired(4) by simp
  moreover have "lk_ownership_socket lock \<notin> set (map (lk_ownership_socket \<circ> snd) held)"
    using assms(2) acquired(1) fresh(1) by (auto simp: locks_ok_def)
  ultimately show ?thesis using assms(2) acquired(1,2) i(2) fresh(2) by (auto simp: locks_ok_def)
next
  case (refused site path w e w' held)
  then show ?thesis using assms(2) acquire_Inl by metis
next
  case (dropped identity lock held w)
  have distinct: "distinct (map (lk_ownership_socket \<circ> snd) held)" using assms(2) dropped(1) by (simp add: locks_ok_def)
  then have "distinct held" by (simp add: distinct_map)
  have others: "lk_ownership_socket l \<noteq> lk_ownership_socket lock" if "(i, l) \<in> set (remove1 (identity, lock) held)" for i l
  proof -
    have "(i, l) \<in> set held" "(i, l) \<noteq> (identity, lock)" using that \<open>distinct held\<close> by auto
    then show ?thesis using distinct dropped(3) by (force simp: distinct_map inj_on_def)
  qed
  have "distinct (map (lk_ownership_socket \<circ> snd) (remove1 (identity, lock) held))"
    using distinct by (auto simp: distinct_map inj_on_diff)
  moreover have "lk_ownership_socket l = fst (lock_endpoints sha256 i)
      \<and> lk_ownership_socket l \<in> set (remove1 (lk_ownership_socket lock) (lw_streams w))"
    if mem: "(i, l) \<in> set (remove1 (identity, lock) held)" for i l
  proof -
    have "(i, l) \<in> set held" using mem set_remove1_subset by fastforce
    then show ?thesis using assms(2) dropped(1) others [OF mem] by (auto simp: locks_ok_def in_set_remove1)
  qed
  ultimately show ?thesis using dropped(2) by (auto simp: locks_ok_def drop_lock_def)
next
  case (bound_elsewhere e w streams held)
  then show ?thesis using assms(2) by (auto simp: locks_ok_def bind_endpoint_def split: if_splits)
next
  case (released_elsewhere e held w)
  have "lk_ownership_socket l \<noteq> e" if "(i, l) \<in> set held" for i l using that released_elsewhere(3) by force
  then show ?thesis using assms(2) released_elsewhere(1,2) by (fastforce simp: locks_ok_def)
qed

text \<open>
  (C33) A profile has at most one owner. However processes acquire and drop profile locks, and whatever
  other programs do with the endpoints that no lock holds, no two locks are ever held for the same
  canonical path; a refused attempt takes nothing.
\<close>

theorem profile_ownership_is_exclusive:
  assumes "(lock_step sha256)\<^sup>*\<^sup>* (w0, []) (w, held)"
  shows "distinct (map fst held)
    \<and> (\<forall>site path e w'. acquire sha256 site path w = (Inl e, w') \<longrightarrow> w' = w)"
proof -
  have "locks_ok sha256 (w, held)"
    using assms
  proof (induction rule: rtranclp_induct)
    case base
    show ?case by (simp add: locks_ok_def)
  next
    case (step y z)
    then show ?case by (blast intro: locks_ok_step)
  qed
  then have distinct: "distinct (map (lk_ownership_socket \<circ> snd) held)"
    and sockets: "\<And>i l. (i, l) \<in> set held \<Longrightarrow> lk_ownership_socket l = fst (lock_endpoints sha256 i)"
    by (auto simp: locks_ok_def)
  have "map (lk_ownership_socket \<circ> snd) held = map (\<lambda>i. fst (lock_endpoints sha256 i)) (map fst held)"
    using sockets by auto
  with distinct have "distinct (map fst held)" by (metis distinct_map)
  then show ?thesis using acquire_Inl by blast
qed

theorem profile_ownership_is_exclusive_witness:
  "\<exists>w lock. (lock_step (\<lambda>_. replicate 32 0))\<^sup>*\<^sup>* (\<lparr>lw_streams = [], lw_datagrams = [], lw_flocks = []\<rparr>, []) (w, [(''/r/l.lock'', lock)])
     \<and> distinct (map fst [(''/r/l.lock'', lock)])"
proof -
  let ?sha = "\<lambda>_::string. replicate 32 (0 :: 8 word)"
  let ?site = "\<lparr>si_path_checked = Inr (), si_parent_ready = Inr (), si_canonical_parent = Inr ''/r'', si_stream = Inr (),
    si_datagram = Inr (), si_open = Inr (), si_guard = Inr ()\<rparr>"
  let ?w0 = "\<lparr>lw_streams = [], lw_datagrams = [], lw_flocks = []\<rparr>"
  have identity: "lock_identity ?site ''/r/l.lock'' = Inr ''/r/l.lock''"
    by (simp add: lock_identity_def file_name_def path_join_def)
  obtain lock w where got: "acquire ?sha ?site ''/r/l.lock'' ?w0 = (Inr lock, w)"
    using identity by (simp add: acquire_def bind_endpoint_def Let_def)
  have "(lock_step ?sha)\<^sup>*\<^sup>* (?w0, []) (w, [(''/r/l.lock'', lock)])"
    using lock_step.acquired [OF got identity] by blast
  with profile_ownership_is_exclusive [OF this] show ?thesis by blast
qed

section \<open>The profile file\<close>

lemma profile_temp_is_other: "''.'' @ name @ ''.tmp'' \<noteq> name"
  by (rule notI) (drule arg_cong [of _ _ length], simp)

interpretation profile_file: atomic_replacement name "\<lambda>p. atomic_replace_unix p (Some name)" for name
proof
  fix A :: "node option \<Rightarrow> bool" and bytes :: string and os :: os and p
  assume A: "A (Some (Regular bytes True (os_mode os)))"
  let ?temp = "''.'' @ name @ ''.tmp''"
  note other = profile_temp_is_other [of name]
  have written: "triple (staged name A ?temp (Regular [] False (os_mode os))) (write_all os ?temp bytes)
      (staged name A ?temp (Regular bytes False (os_mode os))) (entry_in name A)"
    using triple_write [OF other, of A "[]" False] by simp
  show "triple (entry_in name A) (atomic_replace_unix p (Some name) os bytes)
      (durable name (Regular bytes True (os_mode os))) (entry_in name A)"
    unfolding atomic_replace_unix_def Let_def ok_or_simps io_bind_return
    by (rule triple_bind [OF triple_guard], assumption, rule triple_bind [OF triple_return], assumption,
        rule triple_bind [OF triple_return], assumption,
        rule triple_bind [OF triple_spares [OF spares_basic(3) [OF spares_unlinkat [OF other]]]],
        rule triple_bind [OF triple_create [OF other]], rule triple_bind [OF written],
        rule triple_bind [OF triple_sync_file [OF other]],
        rule triple_bind [where Q = "installed name A (Regular bytes True (os_mode os))", OF triple_rename],
        rule A, rule triple_sync_dir)
qed

lemma validate_binding_new:
  assumes "ProfileBinding_new U profile relay_origin squad_name squad_id member_id = Inr b"
  shows "validate_binding U b = Inr ()"
  using assms by (auto simp: ProfileBinding_new_def result_simps Let_def)

text \<open>A binding of a profile is one a credential can be stored under.\<close>

lemma profile_has_credential_binding:
  assumes "validate_binding U b = Inr ()"
  shows "CredentialBinding_new U (pb_relay_origin b) (pb_profile b) (pb_squad_id b) (pb_member_id b)
    = Inr \<lparr>cb_relay_origin = pb_relay_origin b, cb_profile = pb_profile b, cb_squad_id = pb_squad_id b,
           cb_member_id = pb_member_id b\<rparr>"
  using assms
  by (auto simp: validate_binding_def CredentialBinding_new_def result_simps canonical_relay_origin_eq
      validate_profile_name_def)

lemma load_profile_entry:
  assumes works: "os_fail os = (\<lambda>_. None)" and p: "pd_present p" "pd_open p = Inr ()"
    and entry: "dir_live d name = Some (Regular bytes s m)"
    and size: "0 < length bytes" "length bytes \<le> MAX_PROFILE_BYTES"
    and decoded: "jc_from_slice J bytes = Inr b" and valid: "validate_binding U b = Inr ()"
  shows "load_profile U J p (Some name) os d = (Inr (Some b), d)"
  using assms
  by (simp add: load_profile_def path_exists_def reject_symlink_def lstat_not_link_def open_read_def read_bytes_def
      call_def io_bind_def)

lemma load_profile_absent:
  "dir_live d name = None \<Longrightarrow> load_profile U J p (Some name) os d = (Inr None, d)"
  by (simp add: load_profile_def path_exists_def)

lemma store_profile_Inr:
  assumes "store_profile U J p (Some name) os b d = (Inr u, d')"
  obtains bytes where "jc_to_vec J b = Inr bytes" "validate_binding U b = Inr ()" "pd_present p" "pd_open p = Inr ()"
    "atomic_replace_unix p (Some name) os bytes d = (Inr (), d')"
  using assms
  by (auto simp: store_profile_def store_profile_guarded_def result_simps io_bind_def split: prod.splits sum.splits)

end
