(* ===== verification/Mcp_Dispatch.thy ===== *)
theory Mcp_Dispatch
  imports Mcp_Views App_Profile
begin

text \<open>
  The dispatcher of the MCP server (\<open>psst-mcp/src/dispatch.rs\<close>): the slot that holds the one session of
  the profile, the critical sections that claim it and publish to it, the tools as they run over it, and
  the slot under any interleaving of tool calls, owned tasks and shutdown.
\<close>

section \<open>The slot\<close>

datatype 'r RuntimeSlot = Unbound | Dormant ProfileBinding | Transition | Bound 'r

text \<open>The critical section at the start of \<open>join\<close>.\<close>

fun join_claim :: "('r RuntimeSlot, LocalErrorCode, unit) op" where
  "join_claim Unbound = (Inr (), Transition)"
| "join_claim (Dormant b) = (Inl LocalErrorCode.ProfileAlreadyBound, Dormant b)"
| "join_claim (Bound r) = (Inl LocalErrorCode.ProfileAlreadyBound, Bound r)"
| "join_claim Transition = (Inl LocalErrorCode.LocalLock, Transition)"

text \<open>The end of \<open>join_owned\<close>, from the outcome of \<open>SessionRuntime::join_and_bind\<close>.\<close>

definition join_publish :: "stamp \<Rightarrow> SessionError + (SessionResponse \<times> 'r) \<Rightarrow> ('r RuntimeSlot, LocalErrorCode, tool_output) op" where
  "join_publish stamp joined slot =
     (case joined of
        Inl e \<Rightarrow> (Inl (map_session_error e), Unbound)
      | Inr (response, runtime) \<Rightarrow> (Inr (SquadJoinOutput (session_view stamp response)), Bound runtime))"

text \<open>The critical section at the start of \<open>leave\<close>, after \<open>active\<close>.\<close>

fun leave_claim :: "('r RuntimeSlot, LocalErrorCode, 'r) op" where
  "leave_claim (Bound r) = (Inr r, Transition)"
| "leave_claim (Dormant b) = (Inl LocalErrorCode.LocalLock, Dormant b)"
| "leave_claim Unbound = (Inl LocalErrorCode.ProfileUnbound, Unbound)"
| "leave_claim Transition = (Inl LocalErrorCode.LocalLock, Transition)"

text \<open>The end of \<open>leave_owned\<close>.\<close>

definition leave_publish :: "stamp \<Rightarrow> 'r \<Rightarrow> SessionError + LeaveSquadResponse \<Rightarrow> ('r RuntimeSlot, LocalErrorCode, tool_output) op" where
  "leave_publish stamp active left slot =
     (case left of
        Inl e \<Rightarrow> (Inl (map_session_error e), Bound active)
      | Inr response \<Rightarrow> (Inr (SquadLeaveOutput True (stamp (lsr_left_at response))), Unbound))"

text \<open>The critical section at the start of \<open>active\<close>: the session, or the binding to start one from.\<close>

fun active_claim :: "('r RuntimeSlot, LocalErrorCode, 'r + ProfileBinding) op" where
  "active_claim (Dormant b) = (Inr (Inr b), Transition)"
| "active_claim (Bound r) = (Inr (Inl r), Bound r)"
| "active_claim Unbound = (Inl LocalErrorCode.ProfileUnbound, Unbound)"
| "active_claim Transition = (Inl LocalErrorCode.LocalLock, Transition)"

definition active_publish :: "ProfileBinding \<Rightarrow> SessionError + 'r \<Rightarrow> ('r RuntimeSlot, LocalErrorCode, 'r) op" where
  "active_publish binding started slot =
     (case started of
        Inl e \<Rightarrow> (Inl (map_session_error e), Dormant binding)
      | Inr runtime \<Rightarrow> (Inr runtime, Bound runtime))"

text \<open>One turn of the loop of \<open>shutdown\<close>: \<open>None\<close> where it waits for the transition to end.\<close>

fun shutdown_claim :: "'r RuntimeSlot \<Rightarrow> 'r option option \<times> 'r RuntimeSlot" where
  "shutdown_claim (Bound r) = (Some (Some r), Transition)"
| "shutdown_claim (Dormant b) = (Some None, Transition)"
| "shutdown_claim Unbound = (Some None, Transition)"
| "shutdown_claim Transition = (None, Transition)"

definition shutdown_publish :: "SessionError + unit \<Rightarrow> ('r RuntimeSlot, LocalErrorCode, unit) op" where
  "shutdown_publish ended slot = (map_err map_session_error ended, Unbound)"

section \<open>Tools\<close>

text \<open>
  What the tools call: the sessions and the relay client of the application, and the encoding of
  an output. \<open>snapshot\<close> is the health, availability, lease and heartbeat interval of a session.
\<close>

record 'r dispatch_env =
  de_profile :: string
  de_stamp :: stamp
  de_random :: "8 word list option"
  de_start :: "ProfileBinding \<Rightarrow> SessionError + 'r"
  de_join :: "SquadJoinInput \<Rightarrow> SessionError + (SessionResponse \<times> 'r)"
  de_leave :: "'r \<Rightarrow> SessionError + LeaveSquadResponse"
  de_list_squads :: "Error + SquadSummary list"
  de_describe_squad :: "string \<Rightarrow> Error + SquadSummary"
  de_roster :: "'r \<Rightarrow> SessionError + RosterResponse"
  de_send_prepared :: "'r \<Rightarrow> PreparedSend \<Rightarrow> SessionError + SendMessageResponse"
  de_acknowledge :: "'r \<Rightarrow> AckMessagesRequest \<Rightarrow> SessionError + AckMessagesResponse"
  de_inbox :: "'r \<Rightarrow> nat \<Rightarrow> nat \<Rightarrow> SessionError + InboxResponse"
  de_report_availability :: "'r \<Rightarrow> AvailabilityDto \<Rightarrow> SessionError + unit"
  de_snapshot :: "'r \<Rightarrow> SessionHealth \<times> AvailabilityDto \<times> ApiTimestamp \<times> int"
  de_encode :: "tool_output \<Rightarrow> json option"
  de_text :: "json \<Rightarrow> string option"

type_synonym ('r, 'a) slot_op = "('r RuntimeSlot, LocalErrorCode, 'a) op"

definition mcp_decode :: "'a option \<Rightarrow> ('r, 'a) slot_op" where
  "mcp_decode m = op_return (ok_or LocalErrorCode.InvalidInput m)"

definition client_failure :: "Error + 'a \<Rightarrow> ('r, 'a) slot_op" where
  "client_failure m = op_return (map_err map_client_error m)"

definition session_failure :: "SessionError + 'a \<Rightarrow> ('r, 'a) slot_op" where
  "session_failure m = op_return (map_err map_session_error m)"

definition active :: "'r dispatch_env \<Rightarrow> ('r, 'r) slot_op" where
  "active E =
     op_bind active_claim (\<lambda>claimed. case claimed of
       Inl runtime \<Rightarrow> op_return (Inr runtime)
     | Inr binding \<Rightarrow> active_publish binding (de_start E binding))"

definition tool_join :: "'r dispatch_env \<Rightarrow> SquadJoinInput \<Rightarrow> ('r, tool_output) slot_op" where
  "tool_join E input = op_bind join_claim (\<lambda>_. join_publish (de_stamp E) (de_join E input))"

definition tool_leave :: "'r dispatch_env \<Rightarrow> ('r, tool_output) slot_op" where
  "tool_leave E =
     op_bind (active E) (\<lambda>_.
     op_bind leave_claim (\<lambda>runtime.
     leave_publish (de_stamp E) runtime (de_leave E runtime)))"

definition tool_roster :: "'r dispatch_env \<Rightarrow> ('r, tool_output) slot_op" where
  "tool_roster E =
     op_bind (active E) (\<lambda>runtime.
     op_bind (session_failure (de_roster E runtime)) (\<lambda>roster.
     op_return (Inr (SquadRosterOutput ParticipantContentIsUntrusted (participant (rp_squad roster))
       (map (roster_member_view (de_stamp E)) (rp_members roster))))))"

definition tool_send :: "'r dispatch_env \<Rightarrow> MessageSendInput \<Rightarrow> ('r, tool_output) slot_op" where
  "tool_send E input =
     op_bind (client_failure (prepared_send (de_random E) input)) (\<lambda>prepared.
     op_bind (active E) (\<lambda>runtime.
     op_bind (session_failure (de_send_prepared E runtime prepared)) (\<lambda>response.
     op_return (Inr (MessageSendOutput ParticipantContentIsUntrusted (message_view (de_stamp E) (smr_message response))
       (smr_idempotent_replay response))))))"

definition tool_receive :: "'r dispatch_env \<Rightarrow> MessageReceiveInput \<Rightarrow> ('r, tool_output) slot_op" where
  "tool_receive E input =
     op_bind (active E) (\<lambda>runtime.
     op_bind (if mri_acknowledge_ids input = [] then op_return (Inr [])
       else op_bind (session_failure (de_acknowledge E runtime \<lparr>akq_message_ids = mri_acknowledge_ids input\<rparr>)) (\<lambda>response.
         op_return (Inr (akr_acknowledged_ids response)))) (\<lambda>acknowledged_ids.
     op_bind (session_failure (de_inbox E runtime (mri_limit input) (mri_wait_seconds input))) (\<lambda>inbox.
     op_return (Inr (MessageReceiveOutput ParticipantContentIsUntrusted acknowledged_ids (ibr_pending_count inbox)
       (map (message_view (de_stamp E)) (ibr_messages inbox)))))))"

definition tool_acknowledge :: "'r dispatch_env \<Rightarrow> MessageAcknowledgeInput \<Rightarrow> ('r, tool_output) slot_op" where
  "tool_acknowledge E input =
     op_bind (active E) (\<lambda>runtime.
     op_bind (session_failure (de_acknowledge E runtime \<lparr>akq_message_ids = mai_message_ids input\<rparr>)) (\<lambda>response.
     op_return (Inr (MessageAcknowledgeOutput (akr_acknowledged_ids response)))))"

text \<open>The session \<open>status\<close> looks at, which it starts where one is dormant.\<close>

definition status_runtime :: "'r dispatch_env \<Rightarrow> ('r, 'r option) slot_op" where
  "status_runtime E slot =
     (case slot of
        Transition \<Rightarrow> (Inl LocalErrorCode.LocalLock, slot)
      | Dormant _ \<Rightarrow> op_bind (active E) (\<lambda>runtime. op_return (Inr (Some runtime))) slot
      | Bound runtime \<Rightarrow> (Inr (Some runtime), slot)
      | Unbound \<Rightarrow> (Inr None, slot))"

definition status_output :: "'r dispatch_env \<Rightarrow> 'r \<Rightarrow> tool_output" where
  "status_output E runtime =
     (case de_snapshot E runtime of (health, availability, lease_expires_at, heartbeat_interval_seconds) \<Rightarrow>
        AgentStatusOutput (de_profile E) (health = SessionHealth.Ready) (health \<noteq> SessionHealth.Ready)
          (from_protocol_availability availability) (Some (de_stamp E lease_expires_at)) (Some heartbeat_interval_seconds))"

definition tool_status :: "'r dispatch_env \<Rightarrow> AgentStatusInput \<Rightarrow> ('r, tool_output) slot_op" where
  "tool_status E input =
     op_bind (status_runtime E) (\<lambda>found. case found of
       None \<Rightarrow> op_return (Inr (AgentStatusOutput (de_profile E) False False ToolAvailability.Unknown None None))
     | Some runtime \<Rightarrow>
         op_bind (case asi_availability input of
             None \<Rightarrow> op_return (Inr ())
           | Some a \<Rightarrow> session_failure (de_report_availability E runtime (to_protocol_availability a))) (\<lambda>_.
         op_return (Inr (status_output E runtime))))"

definition dispatch_tool :: "'r dispatch_env \<Rightarrow> string \<Rightarrow> (string \<times> json) list \<Rightarrow> ('r, tool_output) slot_op" where
  "dispatch_tool E name args =
     (if name = ''squad_join'' then op_bind (mcp_decode (decode_SquadJoinInput args)) (tool_join E)
      else if name = ''squad_leave'' then op_bind (mcp_decode (decode_EmptyInput args)) (\<lambda>_. tool_leave E)
      else if name = ''squad_list'' then
        op_bind (mcp_decode (decode_EmptyInput args)) (\<lambda>_.
        op_bind (client_failure (de_list_squads E)) (\<lambda>squads.
        op_return (Inr (SquadListOutput ParticipantContentIsUntrusted (map (squad_view (de_stamp E)) squads)))))
      else if name = ''squad_describe'' then
        op_bind (mcp_decode (decode_SquadDescribeInput args)) (\<lambda>input.
        op_bind (client_failure (de_describe_squad E (sdi_squad input))) (\<lambda>squad.
        op_return (Inr (SquadDescribeOutput ParticipantContentIsUntrusted (squad_view (de_stamp E) squad)))))
      else if name = ''squad_roster'' then op_bind (mcp_decode (decode_EmptyInput args)) (\<lambda>_. tool_roster E)
      else if name = ''message_send'' then op_bind (mcp_decode (decode_MessageSendInput args)) (tool_send E)
      else if name = ''message_receive'' then op_bind (mcp_decode (decode_MessageReceiveInput args)) (tool_receive E)
      else if name = ''message_acknowledge'' then op_bind (mcp_decode (decode_MessageAcknowledgeInput args)) (tool_acknowledge E)
      else if name = ''agent_status'' then op_bind (mcp_decode (decode_AgentStatusInput args)) (tool_status E)
      else op_return (Inl LocalErrorCode.InvalidInput))"

text \<open>\<open>DispatchState::call\<close>: the output, encoded, and its text.\<close>

definition dispatch_call :: "'r dispatch_env \<Rightarrow> string \<Rightarrow> (string \<times> json) list \<Rightarrow> ('r, json \<times> string) slot_op" where
  "dispatch_call E name args =
     op_bind (dispatch_tool E name args) (\<lambda>out.
     op_return (rbind (ok_or LocalErrorCode.Internal (de_encode E out)) (\<lambda>v.
       rbind (ok_or LocalErrorCode.Internal (de_text E v)) (\<lambda>text.
       Inr (v, text)))))"

text \<open>
  How \<open>from_environment\<close> finds the slot: the binding as it was loaded, an orphaned leave recovered where
  there was none, the binding loaded again, and the check of its origin.
\<close>

definition initial_slot ::
  "io_error + ProfileBinding option \<Rightarrow> SessionError + unit \<Rightarrow> io_error + ProfileBinding option \<Rightarrow> (ProfileBinding \<Rightarrow> ConfigFailure + unit)
   \<Rightarrow> LocalErrorCode + 'r RuntimeSlot" where
  "initial_slot loaded recovered reloaded verify =
     rbind (map_err mcp_local_io loaded) (\<lambda>binding.
     rbind (case binding of
         Some b \<Rightarrow> Inr (Some b)
       | None \<Rightarrow>
           rbind (map_err map_session_error recovered) (\<lambda>_.
           map_err mcp_local_io reloaded)) (\<lambda>binding.
     case binding of
       Some b \<Rightarrow> rbind (map_err (\<lambda>_. LocalErrorCode.ProfileOriginMismatch) (verify b)) (\<lambda>_. Inr (Dormant b))
     | None \<Rightarrow> Inr Unbound))"

section \<open>Interleavings\<close>

text \<open>
  Tool calls run concurrently and a call may be dropped at any await. Joining and leaving go on in tasks of
  their own; starting a dormant session belongs to the call that found it. Nothing in the slot says that the
  server is shutting down, so calls in flight may claim it before, between and after shutdowns. The world
  keeps the transitions under way, whether one was dropped, the sessions that live, and those among them
  whose shutdown failed: \<open>shutdown\<close> gives them up and publishes an empty slot. A new session is one that
  does not live yet.
\<close>

datatype 'r transition = JoinOwned | LeaveOwned 'r | Activating ProfileBinding | ShuttingDown "'r option"

record 'r dispatch_world =
  dw_slot :: "'r RuntimeSlot"
  dw_tasks :: "'r transition list"
  dw_stranded :: bool
  dw_live :: "'r set"
  dw_abandoned :: "'r set"

definition sessions_of :: "'e + 'r \<Rightarrow> 'r set" where
  "sessions_of m = (case m of Inl _ \<Rightarrow> {} | Inr r \<Rightarrow> {r})"

inductive dispatch_step :: "stamp \<Rightarrow> 'r dispatch_world \<Rightarrow> 'r dispatch_world \<Rightarrow> bool" for stamp where
  join: "join_claim (dw_slot w) = (Inr (), slot') \<Longrightarrow>
    dispatch_step stamp w (w\<lparr>dw_slot := slot', dw_tasks := JoinOwned # dw_tasks w\<rparr>)"
| joined: "dw_tasks w = pre @ JoinOwned # post \<Longrightarrow> join_publish stamp outcome (dw_slot w) = (r, slot') \<Longrightarrow>
    snd ` sessions_of outcome \<inter> dw_live w = {} \<Longrightarrow>
    dispatch_step stamp w (w\<lparr>dw_slot := slot', dw_tasks := pre @ post,
      dw_live := dw_live w \<union> snd ` sessions_of outcome\<rparr>)"
| leave: "leave_claim (dw_slot w) = (Inr s, slot') \<Longrightarrow>
    dispatch_step stamp w (w\<lparr>dw_slot := slot', dw_tasks := LeaveOwned s # dw_tasks w\<rparr>)"
| left: "dw_tasks w = pre @ LeaveOwned s # post \<Longrightarrow> leave_publish stamp s outcome (dw_slot w) = (r, slot') \<Longrightarrow>
    dispatch_step stamp w (w\<lparr>dw_slot := slot', dw_tasks := pre @ post,
      dw_live := (if is_ok outcome then dw_live w - {s} else dw_live w)\<rparr>)"
| activate: "active_claim (dw_slot w) = (Inr (Inr binding), slot') \<Longrightarrow>
    dispatch_step stamp w (w\<lparr>dw_slot := slot', dw_tasks := Activating binding # dw_tasks w\<rparr>)"
| activated: "dw_tasks w = pre @ Activating binding # post \<Longrightarrow> active_publish binding outcome (dw_slot w) = (r, slot') \<Longrightarrow>
    sessions_of outcome \<inter> dw_live w = {} \<Longrightarrow>
    dispatch_step stamp w (w\<lparr>dw_slot := slot', dw_tasks := pre @ post, dw_live := dw_live w \<union> sessions_of outcome\<rparr>)"
| dropped: "dw_tasks w = pre @ Activating binding # post \<Longrightarrow>
    dispatch_step stamp w (w\<lparr>dw_tasks := pre @ post, dw_stranded := True\<rparr>)"
| shut: "shutdown_claim (dw_slot w) = (Some s, slot') \<Longrightarrow>
    dispatch_step stamp w (w\<lparr>dw_slot := slot', dw_tasks := ShuttingDown s # dw_tasks w\<rparr>)"
| shut_down: "dw_tasks w = pre @ ShuttingDown s # post \<Longrightarrow> shutdown_publish outcome (dw_slot w) = (r, slot') \<Longrightarrow>
    dispatch_step stamp w (w\<lparr>dw_slot := slot', dw_tasks := pre @ post,
      dw_live := (if is_ok outcome then dw_live w - set_option s else dw_live w),
      dw_abandoned := (if is_ok outcome then dw_abandoned w else dw_abandoned w \<union> set_option s)\<rparr>)"

inductive_cases dispatch_stepE: "dispatch_step stamp w w'"

inductive dispatch_reachable :: "stamp \<Rightarrow> 'r dispatch_world \<Rightarrow> bool" for stamp where
  started: "slot \<in> {Unbound} \<union> range Dormant \<Longrightarrow>
    dispatch_reachable stamp \<lparr>dw_slot = slot, dw_tasks = [], dw_stranded = False, dw_live = {}, dw_abandoned = {}\<rparr>"
| stepped: "dispatch_reachable stamp w \<Longrightarrow> dispatch_step stamp w w' \<Longrightarrow> dispatch_reachable stamp w'"

section \<open>One owner, one session\<close>

text \<open>The session a transition has in hand.\<close>

fun in_hand :: "'r transition \<Rightarrow> 'r set" where
  "in_hand (LeaveOwned s) = {s}"
| "in_hand (ShuttingDown s) = set_option s"
| "in_hand _ = {}"

fun slot_sessions :: "'r RuntimeSlot \<Rightarrow> 'r set" where
  "slot_sessions (Bound r) = {r}"
| "slot_sessions _ = {}"

text \<open>
  Who owns the slot, and which sessions live: the one in the slot or in the hand of the transition, and
  those that a failed shutdown gave up.
\<close>

definition current :: "'r dispatch_world \<Rightarrow> 'r set" where
  "current w = slot_sessions (dw_slot w) \<union> \<Union> (in_hand ` set (dw_tasks w))"

definition dispatch_ok :: "'r dispatch_world \<Rightarrow> bool" where
  "dispatch_ok w \<longleftrightarrow>
     (if dw_slot w = Transition then (if dw_stranded w then dw_tasks w = [] else length (dw_tasks w) = 1)
      else dw_tasks w = [] \<and> \<not> dw_stranded w)
     \<and> dw_live w = current w \<union> dw_abandoned w \<and> current w \<inter> dw_abandoned w = {}"

lemma sole_task:
  assumes "dispatch_ok w" and "dw_tasks w = pre @ t # post"
  shows "dw_slot w = Transition" and "pre = []" and "post = []" and "\<not> dw_stranded w"
    and "dw_live w = in_hand t \<union> dw_abandoned w" and "in_hand t \<inter> dw_abandoned w = {}"
  using assms by (auto simp: dispatch_ok_def current_def split: if_splits)

lemma claims:
  "join_claim slot = (Inr u, slot') \<longleftrightarrow> slot = Unbound \<and> slot' = Transition"
  "leave_claim slot = (Inr s, slot') \<longleftrightarrow> slot = Bound s \<and> slot' = Transition"
  "active_claim slot = (Inr (Inr b), slot') \<longleftrightarrow> slot = Dormant b \<and> slot' = Transition"
  "shutdown_claim slot = (Some t, slot') \<longleftrightarrow> slot \<noteq> Transition \<and> slot' = Transition \<and> set_option t = slot_sessions slot"
  by (cases slot; auto)+

lemma dispatch_step_ok:
  assumes "dispatch_step stamp w w'" and "dispatch_ok w"
  shows "dispatch_ok w'"
  using assms(1)
proof cases
  case (joined pre post outcome r slot')
  note sole = sole_task [OF assms(2) joined(2)]
  show ?thesis
  proof (cases outcome)
    case (Inl e)
    have "slot' = Unbound" using joined(3) Inl by (simp add: join_publish_def)
    moreover have "dw_live w = dw_abandoned w" using sole(5) by simp
    ultimately show ?thesis using joined(1) sole(2-4) Inl
      by (simp add: dispatch_ok_def current_def sessions_of_def)
  next
    case (Inr x)
    obtain response runtime where x: "x = (response, runtime)" by (cases x)
    have "slot' = Bound runtime" using joined(3) Inr x by (simp add: join_publish_def)
    moreover have "dw_live w = dw_abandoned w" using sole(5) by simp
    moreover have "runtime \<notin> dw_live w" using joined(4) Inr x by (simp add: sessions_of_def)
    ultimately show ?thesis using joined(1) sole(2-4) Inr x
      by (simp add: dispatch_ok_def current_def sessions_of_def)
  qed
next
  case (left pre s post outcome r slot')
  note sole = sole_task [OF assms(2) left(2)]
  have slot: "slot' = (if is_ok outcome then Unbound else Bound s)"
    using left(3) by (cases outcome) (auto simp: leave_publish_def)
  have "dw_live w = insert s (dw_abandoned w)" "s \<notin> dw_abandoned w" using sole(5,6) by simp_all
  then show ?thesis using left(1) sole(2-4) slot by (simp add: dispatch_ok_def current_def)
next
  case (activated pre binding post outcome r slot')
  note sole = sole_task [OF assms(2) activated(2)]
  have live: "dw_live w = dw_abandoned w" using sole(5) by simp
  show ?thesis
  proof (cases outcome)
    case (Inl e)
    have "slot' = Dormant binding" using activated(3) Inl by (simp add: active_publish_def)
    then show ?thesis using activated(1) sole(2-4) live Inl by (simp add: dispatch_ok_def current_def sessions_of_def)
  next
    case (Inr runtime)
    have "slot' = Bound runtime" using activated(3) Inr by (simp add: active_publish_def)
    moreover have "runtime \<notin> dw_live w" using activated(4) Inr by (simp add: sessions_of_def)
    ultimately show ?thesis using activated(1) sole(2-4) live Inr by (simp add: dispatch_ok_def current_def sessions_of_def)
  qed
next
  case (dropped pre binding post)
  note sole = sole_task [OF assms(2) dropped(2)]
  have "dw_live w = dw_abandoned w" using sole(5) by simp
  then show ?thesis using dropped(1) sole(1-4) by (simp add: dispatch_ok_def current_def)
next
  case (shut_down pre s post outcome r slot')
  note sole = sole_task [OF assms(2) shut_down(2)]
  have slot: "slot' = Unbound" using shut_down(3) by (simp add: shutdown_publish_def)
  have "dw_live w = set_option s \<union> dw_abandoned w" "set_option s \<inter> dw_abandoned w = {}" using sole(5,6) by simp_all
  then have "(if is_ok outcome then dw_live w - set_option s else dw_live w)
      = (if is_ok outcome then dw_abandoned w else dw_abandoned w \<union> set_option s)" by auto
  then show ?thesis using shut_down(1) sole(2-4) slot by (simp add: dispatch_ok_def current_def)
qed (use assms(2) in \<open>auto simp: dispatch_ok_def current_def claims split: if_splits\<close>)

lemma dispatch_reachable_ok: "dispatch_reachable stamp w \<Longrightarrow> dispatch_ok w"
proof (induction rule: dispatch_reachable.induct)
  case (started slot)
  then show ?case by (auto simp: dispatch_ok_def current_def)
qed (rule dispatch_step_ok)

lemma transition_ends:
  assumes "dispatch_ok w" and "dw_slot w = Transition" and "\<not> dw_stranded w"
  shows "\<exists>w'. dispatch_step stamp w w' \<and> dw_slot w' \<noteq> Transition"
proof -
  obtain t where t: "dw_tasks w = [] @ t # []" using assms by (auto simp: dispatch_ok_def length_Suc_conv)
  show ?thesis
  proof (cases t)
    case JoinOwned
    show ?thesis
      using dispatch_step.joined [OF t [unfolded JoinOwned], where outcome = "Inl SessionError.NotReady" and stamp = stamp]
      by (fastforce simp: join_publish_def sessions_of_def)
  next
    case (LeaveOwned s)
    show ?thesis
      using dispatch_step.left [OF t [unfolded LeaveOwned], where outcome = "Inl SessionError.NotReady" and stamp = stamp]
      by (fastforce simp: leave_publish_def)
  next
    case (Activating b)
    show ?thesis
      using dispatch_step.activated [OF t [unfolded Activating], where outcome = "Inl SessionError.NotReady" and stamp = stamp]
      by (fastforce simp: active_publish_def sessions_of_def)
  next
    case (ShuttingDown s)
    show ?thesis
      using dispatch_step.shut_down [OF t [unfolded ShuttingDown], where outcome = "Inr ()" and stamp = stamp]
      by (fastforce simp: shutdown_publish_def)
  qed
qed

text \<open>Where the call that was starting a dormant session is dropped, nothing ends the transition.\<close>

lemma dropped_activation_strands:
  assumes "dispatch_reachable stamp w" and "dw_stranded w"
  shows "dw_slot w = Transition \<and> \<not> dispatch_step stamp w w'"
proof -
  have "dw_slot w = Transition" "dw_tasks w = []"
    using dispatch_reachable_ok [OF assms(1)] assms(2) by (auto simp: dispatch_ok_def split: if_splits)
  then show ?thesis by (auto elim!: dispatch_stepE simp: claims)
qed

section \<open>Properties\<close>

lemma current_one: "dispatch_ok w \<Longrightarrow> \<exists>s. current w \<subseteq> {s}"
proof -
  assume ok: "dispatch_ok w"
  have hand: "\<exists>s. in_hand t \<subseteq> {s}" for t :: "'a transition"
  proof (cases t)
    case (ShuttingDown s)
    then show ?thesis by (cases s) auto
  qed auto
  show ?thesis
  proof (cases "dw_slot w = Transition")
    case True
    then have "dw_tasks w = [] \<or> (\<exists>t. dw_tasks w = [t])"
      using ok by (auto simp: dispatch_ok_def length_Suc_conv split: if_splits)
    then show ?thesis using True hand by (auto simp: current_def)
  next
    case False
    then show ?thesis using ok by (cases "dw_slot w") (auto simp: dispatch_ok_def current_def)
  qed
qed


text \<open>
  What the exception is for: a session whose shutdown failed lives on outside the slot, and a call in
  flight may join again and have a second one.
\<close>

lemma failed_shutdown_allows_a_second_session:
  fixes s :: 'r
  assumes "dispatch_reachable stamp w" and "dw_slot w = Bound s" and "r \<noteq> s" and "dw_abandoned w = {}"
  shows "\<exists>w'. dispatch_reachable stamp w' \<and> dw_live w' = {s, r}"
proof -
  have w: "dw_tasks w = []" "dw_live w = {s}"
    using dispatch_reachable_ok [OF assms(1)] assms(2,4) by (auto simp: dispatch_ok_def current_def)
  let ?shut = "w\<lparr>dw_slot := Transition, dw_tasks := ShuttingDown (Some s) # dw_tasks w\<rparr>"
  have "dispatch_step stamp w ?shut" by (rule dispatch_step.shut) (simp add: assms(2))
  note one = dispatch_reachable.stepped [OF assms(1) this]
  obtain v where v: "dispatch_step stamp ?shut v" "dw_slot v = Unbound" "dw_tasks v = []" "dw_live v = {s}"
    using dispatch_step.shut_down [of ?shut "[]" "Some s" "[]" "Inl SessionError.NotReady"
        "Inl (map_session_error SessionError.NotReady)" Unbound stamp] w
    by (fastforce simp: shutdown_publish_def)
  note two = dispatch_reachable.stepped [OF one v(1)]
  obtain u where u: "dispatch_step stamp v u" "dw_slot u = Transition" "dw_tasks u = [JoinOwned]" "dw_live u = {s}"
    using dispatch_step.join [of v Transition stamp] v by (fastforce simp: claims)
  note three = dispatch_reachable.stepped [OF two u(1)]
  have "\<exists>w'. dispatch_step stamp u w' \<and> dw_live w' = {s, r}"
    using dispatch_step.joined [of u "[]" "[]" stamp "Inr (undefined, r)"] u assms(3)
    by (fastforce simp: join_publish_def sessions_of_def)
  then show ?thesis using three dispatch_reachable.stepped by blast
qed

definition sample_binding :: ProfileBinding where
  "sample_binding = \<lparr>pb_version = 1, pb_profile = ''work'', pb_relay_origin = ''http://r'', pb_squad_name = ''alpha'',
     pb_squad_id = ''sqd_1'', pb_member_id = ''mem_1''\<rparr>"

text \<open>A dormant profile whose session was started and is being left.\<close>

definition sample_leaving :: "nat dispatch_world" where
  "sample_leaving = \<lparr>dw_slot = Transition, dw_tasks = [LeaveOwned 7], dw_stranded = False, dw_live = {7}, dw_abandoned = {}\<rparr>"

lemma sample_leaving_reachable: "dispatch_reachable stamp sample_leaving"
proof -
  let ?w = "\<lambda>slot tasks live. \<lparr>dw_slot = slot, dw_tasks = tasks, dw_stranded = False, dw_live = live, dw_abandoned = {}\<rparr> :: nat dispatch_world"
  have "dispatch_reachable stamp (?w (Dormant sample_binding) [] {})" by (rule dispatch_reachable.started) simp
  then have "dispatch_reachable stamp (?w Transition [Activating sample_binding] {})"
    by (rule dispatch_reachable.stepped)
      (use dispatch_step.activate [of "?w (Dormant sample_binding) [] {}" sample_binding Transition stamp] in simp)
  then have "dispatch_reachable stamp (?w (Bound 7) [] {7})"
    by (rule dispatch_reachable.stepped)
      (use dispatch_step.activated [of "?w Transition [Activating sample_binding] {}" "[]" sample_binding "[]" "Inr 7" "Inr 7" "Bound 7" stamp]
        in \<open>simp add: active_publish_def sessions_of_def\<close>)
  then show ?thesis
    by (rule dispatch_reachable.stepped)
      (use dispatch_step.leave [of "?w (Bound 7) [] {7}" 7 Transition stamp] in \<open>simp add: sample_leaving_def\<close>)
qed


end
