(* ===== verification/Harness_Status.thy ===== *)
theory Harness_Status
  imports Activation App_Profile
begin

text \<open>
  The published status of an agent host (\<open>psst-application/src/harness_status.rs\<close>, Unix): the record
  made from a snapshot of the activation machine, its validation, its file, its freshness, and the loop
  that publishes it.
\<close>

definition HARNESS_STATUS_VERSION :: nat where "HARNESS_STATUS_VERSION = 1"

definition MAX_HARNESS_STATUS_BYTES :: nat where "MAX_HARNESS_STATUS_BYTES = 16 * 1024"

definition STATUS_REFRESH_INTERVAL :: Duration where "STATUS_REFRESH_INTERVAL = from_secs 30"

definition STATUS_STALE_AFTER :: int where "STATUS_STALE_AFTER = 90 * 1000000000"

definition STATUS_FUTURE_SKEW :: int where "STATUS_FUTURE_SKEW = 5 * 60 * 1000000000"

datatype HarnessAdapterKind = ClaudeChannel | CodexAppServer

record HarnessStatusRecord =
  hs_version :: nat
  hs_profile :: string
  hs_adapter :: HarnessAdapterKind
  hs_phase :: ActivationPhase
  hs_retry_attempt :: "8 word"
  hs_pending_count :: "nat option"
  hs_highest_priority :: "MessagePriorityDto option"
  hs_owner_pid :: nat
  hs_observed_at :: ApiTimestamp

datatype HarnessStatusFreshness = Recent | Stale | Stopped

section \<open>Records\<close>

definition validate_status :: "HarnessStatusRecord \<Rightarrow> ConfigFailure + unit" where
  "validate_status self =
     rbind (ensure (hs_version self = HARNESS_STATUS_VERSION) (Invalid ''harness status version'')) (\<lambda>_.
     rbind (validate_profile_name (hs_profile self)) (\<lambda>_.
     rbind (ensure (\<not> (hs_owner_pid self = 0 \<or> hs_retry_attempt self > MAX_BACKOFF_ATTEMPTS))
       (Invalid ''harness status owner'')) (\<lambda>_.
     rbind (case (hs_pending_count self, hs_highest_priority self) of
         (None, None) \<Rightarrow> Inr ()
       | (Some count, Some _) \<Rightarrow> ensure (1 \<le> count \<and> count \<le> MAX_WAKE_PENDING_COUNT) (Invalid ''harness status pending state'')
       | _ \<Rightarrow> Inl (Invalid ''harness status pending state'')) (\<lambda>_.
     let has_pending = (hs_pending_count self \<noteq> None) in
     if hs_phase self \<in> {Quiet, ActivationPhase.Stopped} \<and> has_pending then Inl (Invalid ''harness status phase'')
     else if hs_phase self \<in> {Pending, Waking, Running, Backoff} \<and> \<not> has_pending
     then Inl (Invalid ''harness status phase'')
     else Inr ()))))"

definition from_snapshot ::
  "string \<Rightarrow> HarnessAdapterKind \<Rightarrow> nat \<Rightarrow> ActivationSnapshot \<Rightarrow> ApiTimestamp \<Rightarrow> ConfigFailure + HarnessStatusRecord" where
  "from_snapshot profile adapter pid snap observed_at =
     (let record = \<lparr>hs_version = HARNESS_STATUS_VERSION, hs_profile = profile, hs_adapter = adapter,
        hs_phase = as_phase snap, hs_retry_attempt = as_retry_attempt snap,
        hs_pending_count = map_option wm_pending_count (as_pending snap),
        hs_highest_priority = map_option wm_highest_priority (as_pending snap),
        hs_owner_pid = pid, hs_observed_at = observed_at\<rparr> in
      rbind (validate_status record) (\<lambda>_. Inr record))"

definition status_view_at :: "HarnessStatusRecord \<Rightarrow> OffsetDateTime \<Rightarrow> HarnessStatusFreshness" where
  "status_view_at record now =
     (let age = now - ts_value (hs_observed_at record) in
      if hs_phase record = ActivationPhase.Stopped then HarnessStatusFreshness.Stopped
      else if age < - STATUS_FUTURE_SKEW \<or> age > STATUS_STALE_AFTER then Stale
      else Recent)"

section \<open>The file\<close>

definition store_harness_status ::
  "HarnessStatusRecord json_codec \<Rightarrow> parent_dir \<Rightarrow> string option \<Rightarrow> os \<Rightarrow> HarnessStatusRecord \<Rightarrow> unit dir_op" where
  "store_harness_status J p name os record =
     io_bind (io_return (map_err invalid_data_config (validate_status record))) (\<lambda>_.
     io_bind (io_guard (pd_present p) (IoError InvalidInput ''status parent unavailable'')) (\<lambda>_.
     io_bind (io_return (pd_create p)) (\<lambda>_.
     io_bind (io_return (rbind (pd_link p) (\<lambda>link. ensure (\<not> link) link_rejected))) (\<lambda>_.
     io_bind (io_return (pd_open p)) (\<lambda>_.
     io_bind (io_return (jc_to_vec J record)) (\<lambda>bytes.
     io_bind (io_guard (\<not> length bytes > MAX_HARNESS_STATUS_BYTES)
       (IoError InvalidData ''harness status record too large'')) (\<lambda>_.
     atomic_replace_unix p name os bytes)))))))"

definition load_harness_status ::
  "HarnessStatusRecord json_codec \<Rightarrow> parent_dir \<Rightarrow> string \<Rightarrow> os \<Rightarrow> HarnessStatusRecord option dir_op" where
  "load_harness_status J p name os d =
     (case dir_live d name of
        None \<Rightarrow> (Inr None, d)
      | Some n \<Rightarrow>
          io_bind (call os Lstat (io_guard (n \<noteq> Symlink)
            (IoError PermissionDenied ''harness status link substitution rejected''))) (\<lambda>_.
          io_bind (io_guard (pd_present p) (IoError InvalidInput ''status parent unavailable'')) (\<lambda>_.
          io_bind (io_return (pd_open p)) (\<lambda>_.
          io_bind (reject_symlink os name) (\<lambda>_.
          io_bind (open_read os name) (\<lambda>f.
          io_bind (call os Stat (io_guard (\<not> (node_length f = 0 \<or> node_length f > MAX_HARNESS_STATUS_BYTES))
            (IoError InvalidData ''invalid harness status record size''))) (\<lambda>_.
          io_bind (read_bytes os (MAX_HARNESS_STATUS_BYTES + 1) f) (\<lambda>bytes.
          io_bind (io_guard (\<not> length bytes > MAX_HARNESS_STATUS_BYTES)
            (IoError InvalidData ''harness status record too large'')) (\<lambda>_.
          io_bind (io_return (jc_from_slice J bytes)) (\<lambda>record.
          io_bind (io_return (map_err invalid_data_config (validate_status record))) (\<lambda>_.
          io_return (Inr (Some record)))))))))))) d)"

definition load_harness_status_view ::
  "HarnessStatusRecord json_codec \<Rightarrow> parent_dir \<Rightarrow> string \<Rightarrow> os \<Rightarrow> OffsetDateTime
   \<Rightarrow> (HarnessStatusRecord \<times> HarnessStatusFreshness) option dir_op" where
  "load_harness_status_view J p name os now =
     io_bind (load_harness_status J p name os) (\<lambda>loaded.
     io_return (Inr (map_option (\<lambda>record. (record, status_view_at record now)) loaded)))"

section \<open>Publishing\<close>

text \<open>\<open>now.replace_nanosecond((now.nanosecond() / 1_000_000) * 1_000_000)\<close>\<close>

definition to_millis :: "OffsetDateTime \<Rightarrow> OffsetDateTime" where
  "to_millis now = now - nanosecond now + nanosecond now div 1000000 * 1000000"

definition publish_snapshot ::
  "HarnessStatusRecord json_codec \<Rightarrow> parent_dir \<Rightarrow> string \<Rightarrow> os \<Rightarrow> OffsetDateTime \<Rightarrow> nat \<Rightarrow> string \<Rightarrow> HarnessAdapterKind
   \<Rightarrow> ActivationSnapshot \<Rightarrow> unit dir_op" where
  "publish_snapshot J p name os now pid profile adapter snap =
     io_bind (io_return (map_err (\<lambda>e. IoError InvalidData e) (ApiTimestamp_new (to_millis now)))) (\<lambda>observed_at.
     io_bind (io_return (map_err invalid_data_config (from_snapshot profile adapter pid snap observed_at))) (\<lambda>record.
     store_harness_status J p (Some name) os record))"

text \<open>
  One turn of \<open>run_status_publisher\<close>: the stop signal, or a snapshot with the time since the last write
  and the clock and system calls of a publication.
\<close>

datatype publisher_event = StopSignal | Spurious | Polled ActivationSnapshot Duration OffsetDateTime os

text \<open>
  The loop over the events that happen: \<open>None\<close> while it runs, else its result; the last published
  snapshot, the number of publications, whether it shut the activation down, and the directory.
\<close>

fun run_status_publisher ::
  "HarnessStatusRecord json_codec \<Rightarrow> parent_dir \<Rightarrow> string \<Rightarrow> nat \<Rightarrow> string \<Rightarrow> HarnessAdapterKind \<Rightarrow> publisher_event list
   \<Rightarrow> ActivationSnapshot \<Rightarrow> directory \<Rightarrow> (io_error + unit) option \<times> ActivationSnapshot \<times> nat \<times> bool \<times> directory" where
  "run_status_publisher J p name pid profile adapter [] prior d = (None, prior, 0, False, d)"
| "run_status_publisher J p name pid profile adapter (StopSignal # es) prior d = (Some (Inr ()), prior, 0, False, d)"
| "run_status_publisher J p name pid profile adapter (Spurious # es) prior d =
     run_status_publisher J p name pid profile adapter es prior d"
| "run_status_publisher J p name pid profile adapter (Polled current elapsed now os # es) prior d =
     (if current \<noteq> prior \<or> elapsed \<ge> STATUS_REFRESH_INTERVAL then
        (case publish_snapshot J p name os now pid profile adapter current d of
           (Inl e, d') \<Rightarrow> (Some (Inl e), prior, 0, True, d')
         | (Inr _, d') \<Rightarrow>
             (case run_status_publisher J p name pid profile adapter es current d' of (r, published, n, stopped, d'') \<Rightarrow>
                (r, published, Suc n, stopped, d'')))
      else run_status_publisher J p name pid profile adapter es prior d)"

section \<open>Every state of the machine can be published\<close>

lemma machine_ok_reachable:
  "(machine_step)\<^sup>*\<^sup>* m0 m \<Longrightarrow> machine_ok m0 \<Longrightarrow> machine_ok m"
  by (induction rule: rtranclp_induct) (auto intro: machine_step_ok)

lemma wake_count: "wake_ok w \<Longrightarrow> 1 \<le> wm_pending_count w \<and> wm_pending_count w \<le> MAX_WAKE_PENDING_COUNT"
  by (auto simp: wake_ok_def WakeMetadata_new_def result_simps)

lemma from_snapshot_ok:
  assumes "machine_ok m" and "validate_profile_name profile = Inr ()" and "0 < pid"
  shows "is_ok (from_snapshot profile adapter pid (snapshot m) observed_at)"
proof -
  have "am_retry_attempt m \<le> MAX_BACKOFF_ATTEMPTS"
    using assms(1) by (auto simp: machine_ok_def validate_policy_def result_simps)
  then show ?thesis
    using assms wake_count
    by (cases "am_pending m"; cases "am_phase m")
      (auto simp: from_snapshot_def snapshot_def validate_status_def machine_ok_def Let_def not_less)
qed

lemma to_millis_ok: "ApiTimestamp_new (to_millis now) = Inr (ApiTimestamp (to_millis now))"
proof -
  have "nanosecond now div 1000000 * 1000000 mod 1000000 = 0" by simp
  moreover have "nanosecond (to_millis now) = nanosecond now div 1000000 * 1000000"
  proof -
    define k where "k = nanosecond now div 1000000 * 1000000"
    have bounds: "0 \<le> k" "k < 1000000000"
      unfolding k_def nanosecond_def by (auto simp: pos_imp_zdiv_nonneg_iff)
    have "to_millis now = now div 1000000000 * 1000000000 + k"
      by (simp add: to_millis_def k_def nanosecond_def minus_mod_eq_div_mult)
    then have "nanosecond (to_millis now) = k" using bounds by (simp add: nanosecond_def)
    then show ?thesis by (simp add: k_def)
  qed
  ultimately show ?thesis by (simp add: ApiTimestamp_new_def)
qed

lemma store_harness_status_Inr:
  assumes "store_harness_status J p (Some name) os record d = (Inr u, d')"
  obtains bytes where "jc_to_vec J record = Inr bytes" "length bytes \<le> MAX_HARNESS_STATUS_BYTES" "pd_present p" "pd_open p = Inr ()"
    "atomic_replace_unix p (Some name) os bytes d = (Inr (), d')"
  using assms by (auto simp: store_harness_status_def result_simps not_less)

lemma load_status_entry:
  assumes "os_fail os = (\<lambda>_. None)" and "pd_present p" and "pd_open p = Inr ()"
    and "dir_live d name = Some (Regular bytes s m)" and "bytes \<noteq> []" and "length bytes \<le> MAX_HARNESS_STATUS_BYTES"
    and "jc_from_slice J bytes = Inr record" and "validate_status record = Inr ()"
  shows "load_harness_status J p name os d = (Inr (Some record), d)"
  using assms
  by (simp add: load_harness_status_def reject_symlink_def lstat_not_link_def open_read_def read_bytes_def call_def io_bind_def)

text \<open>
  (C35) Every state of the activation machine has a valid status. Whatever sequence of operations led to
  a state, the record made from its snapshot passes the validation that readers apply, and says the
  phase, the retry counter and the pending count of the machine; once its publication succeeded, also
  after a crash, a reader loads exactly that record, and within ninety seconds sees it as recent, or as
  stopped when the machine was stopped.
\<close>

theorem activation_status_is_publishable:
  assumes "ActivationMachine_new policy = Inr m0" and "machine_step\<^sup>*\<^sup>* m0 m"
    and "validate_profile_name profile = Inr ()" and "0 < pid"
    and codec: "codec_round_trip J" "\<forall>r bytes. jc_to_vec J r = Inr bytes \<longrightarrow> bytes \<noteq> []"
    and works: "os_fail os' = (\<lambda>_. None)"
  shows "\<exists>rec. from_snapshot profile adapter pid (snapshot m) (ApiTimestamp (to_millis now)) = Inr rec
    \<and> hs_phase rec = am_phase m \<and> hs_retry_attempt rec = am_retry_attempt m
    \<and> hs_pending_count rec = map_option wm_pending_count (am_pending m)
    \<and> (\<forall>later. now \<le> later \<and> later < now + 89999000000 \<longrightarrow> status_view_at rec later =
         (if am_phase m = ActivationPhase.Stopped then HarnessStatusFreshness.Stopped else Recent))
    \<and> (\<forall>os d d' d''. publish_snapshot J p name os now pid profile adapter (snapshot m) d = (Inr (), d') \<longrightarrow>
         d'' = d' \<or> crash d' d'' \<longrightarrow> load_harness_status J p name os' d'' = (Inr (Some rec), d''))"
proof -
  have ok: "machine_ok m" using machine_ok_reachable [OF assms(2)] new_machine_ok [OF assms(1)] by simp
  obtain rec where rec: "from_snapshot profile adapter pid (snapshot m) (ApiTimestamp (to_millis now)) = Inr rec"
    using from_snapshot_ok [OF ok assms(3,4)] by (auto simp: is_ok_iff)
  then have fields: "hs_phase rec = am_phase m" "hs_retry_attempt rec = am_retry_attempt m"
      "hs_pending_count rec = map_option wm_pending_count (am_pending m)" "hs_observed_at rec = ApiTimestamp (to_millis now)"
    and valid: "validate_status rec = Inr ()"
    by (auto simp: from_snapshot_def snapshot_def Let_def result_simps)
  have age: "0 \<le> now - to_millis now" "now - to_millis now < 1000000"
    using mult_div_mod_eq [of 1000000 "nanosecond now"] pos_mod_bound [of 1000000 "nanosecond now"]
      pos_mod_sign [of 1000000 "nanosecond now"] by (simp_all add: to_millis_def)
  have fresh: "status_view_at rec later = (if am_phase m = ActivationPhase.Stopped then HarnessStatusFreshness.Stopped else Recent)"
    if "now \<le> later \<and> later < now + 89999000000" for later
    using that age by (auto simp: status_view_at_def fields STATUS_FUTURE_SKEW_def STATUS_STALE_AFTER_def Let_def)
  have loads: "load_harness_status J p name os' d'' = (Inr (Some rec), d'')"
    if run: "publish_snapshot J p name os now pid profile adapter (snapshot m) d = (Inr (), d')" and after: "d'' = d' \<or> crash d' d''"
    for os d d' d''
  proof -
    have "store_harness_status J p (Some name) os rec d = (Inr (), d')"
      using run by (simp add: publish_snapshot_def to_millis_ok rec)
    then obtain bytes where bytes: "jc_to_vec J rec = Inr bytes" "length bytes \<le> MAX_HARNESS_STATUS_BYTES"
      and p: "pd_present p" "pd_open p = Inr ()" and stored: "atomic_replace_unix p (Some name) os bytes d = (Inr (), d')"
      by (rule store_harness_status_Inr)
    have entry: "dir_live d'' name = Some (Regular bytes True (os_mode os))"
      using after profile_file.success(1) [OF stored] profile_file.crash_after_success [OF stored] by blast
    show ?thesis
      by (rule load_status_entry [OF works p entry _ bytes(2) _ valid]) (use codec bytes(1) in \<open>auto simp: codec_round_trip_def\<close>)
  qed
  show ?thesis using rec fields(1-3) fresh loads by blast
qed

definition sample_status_codec :: "HarnessStatusRecord \<Rightarrow> HarnessStatusRecord json_codec" where
  "sample_status_codec r = \<lparr>jc_to_vec = (\<lambda>v. if v = r then Inr ''{}'' else Inl (IoOs NOENT)),
     jc_from_slice = (\<lambda>b. if b = ''{}'' then Inr r else Inl (IoOs NOENT))\<rparr>"

theorem activation_status_is_publishable_witness:
  "\<exists>m0 rec. ActivationMachine_new ActivationPolicy_default = Inr m0
     \<and> from_snapshot ''default'' CodexAppServer 7 (snapshot (snd (observe (Some sample_wake) m0))) (ApiTimestamp 0) = Inr rec
     \<and> hs_phase rec = Pending \<and> hs_pending_count rec = Some 2"
proof -
  obtain m0 where m0: "ActivationMachine_new ActivationPolicy_default = Inr m0" and quiet: "am_phase m0 = Quiet"
    by (rule that) (simp add: ActivationMachine_new_def default_policy_valid, simp)
  let ?m = "snd (observe (Some sample_wake) m0)" and ?J = "sample_status_codec undefined"
  have run: "machine_step\<^sup>*\<^sup>* m0 ?m" by (rule r_into_rtranclp) (rule step_observe, simp add: sample_wake_ok)
  have name: "validate_profile_name ''default'' = Inr ()"
    by (simp add: validate_profile_name_def profile_char_def eval_simps)
  have codec: "codec_round_trip ?J" "\<forall>v bytes. jc_to_vec ?J v = Inr bytes \<longrightarrow> bytes \<noteq> []"
    by (auto simp: codec_round_trip_def sample_status_codec_def)
  have works: "os_fail sample_os = (\<lambda>_. None)" by (simp add: sample_os_def)
  have zero: "to_millis 0 = 0" by (simp add: to_millis_def nanosecond_def)
  have seven: "0 < (7 :: nat)" by simp
  obtain rec where rec:
    "from_snapshot ''default'' CodexAppServer 7 (snapshot ?m) (ApiTimestamp 0) = Inr rec"
    "hs_phase rec = am_phase ?m" "hs_pending_count rec = map_option wm_pending_count (am_pending ?m)"
    using activation_status_is_publishable
      [OF m0 run name seven codec works, where adapter = CodexAppServer and now = 0 and p = undefined and name = "''status''",
        unfolded zero]
    by - (elim exE conjE, rule that; assumption)
  have "am_phase ?m = Pending" "am_pending ?m = Some sample_wake" using quiet by (simp_all add: observe_def)
  then have "hs_phase rec = Pending" "hs_pending_count rec = Some 2" using rec(2,3) by (simp_all add: sample_wake_def)
  with m0 rec(1) show ?thesis by blast
qed

end
