(* ===== verification/Claude_Channel.thy ===== *)
theory Claude_Channel
  imports Activation Json_Value Harness_Status
begin

text \<open>
  The Claude Channel adapter (\<open>psst-mcp/src/claude_channel.rs\<close>): its opt-in, the body-free notification
  that wakes the model, the controller, and the host that starts a turn by notifying and takes it for completed when the
  notified message is no longer the oldest pending one.
\<close>

definition CHANNEL_CAPABILITY :: string where "CHANNEL_CAPABILITY = ''claude/channel''"
definition CHANNEL_NOTIFICATION :: string where "CHANNEL_NOTIFICATION = ''notifications/claude/channel''"
definition CHANNEL_ENVIRONMENT :: string where "CHANNEL_ENVIRONMENT = ''PSST_CLAUDE_CHANNEL''"
definition TURN_RECONCILE_WAIT :: nat where "TURN_RECONCILE_WAIT = 10"
definition TURN_RECONCILE_INTERVAL :: Duration where "TURN_RECONCILE_INTERVAL = from_secs 1"
definition CHANNEL_REGISTRATION_SETTLE :: Duration where "CHANNEL_REGISTRATION_SETTLE = from_secs 1"
definition MAX_TURN_OCCUPANCY :: Duration where "MAX_TURN_OCCUPANCY = from_secs (5 * 60)"
definition CHANNEL_CONTENT :: string where
  "CHANNEL_CONTENT = ''Psst has durable pending mail. Use message_receive to inspect it; retrieval does not acknowledge. Process the pending work, then explicitly call message_acknowledge for each completed message.''"

section \<open>The notification\<close>

definition parse_channel_enabled :: "string option \<Rightarrow> unit + bool" where
  "parse_channel_enabled v =
     (case v of
        None \<Rightarrow> Inr False
      | Some s \<Rightarrow> if s = ''1'' then Inr True else if s = ''true'' then Inr True else if s = ''enabled'' then Inr True else Inl ())"

fun channel_priority_text :: "MessagePriorityDto \<Rightarrow> string" where
  "channel_priority_text MessagePriorityDto.Normal = ''normal''"
| "channel_priority_text MessagePriorityDto.High = ''high''"

definition channel_params :: "WakeMetadata \<Rightarrow> json" where
  "channel_params wake = JObject [
     (''content'', JString CHANNEL_CONTENT),
     (''meta'', JObject [
        (''profile'', JString (wm_profile wake)),
        (''squad'', JString (wm_squad wake)),
        (''pending_count'', JString (decimal (wm_pending_count wake))),
        (''highest_priority'', JString (channel_priority_text (wm_highest_priority wake))),
        (''oldest_message_id'', JString (wm_oldest_message_id wake))])]"

definition channel_notification :: "WakeMetadata \<Rightarrow> string \<times> json" where
  "channel_notification wake = (CHANNEL_NOTIFICATION, channel_params wake)"

section \<open>The host\<close>

text \<open>
  \<open>ClaudeChannelHost\<close>: the connected peer with the instant from which it takes notifications. Starting a
  turn waits for that instant; \<open>delivers\<close> is how sending goes.
\<close>

type_synonym Instant = nat

record ClaudeChannelHost =
  cch_peer :: "Instant option"

datatype host_event = WaitedUntil Instant | Notified string json

definition channel_connected :: "Instant \<Rightarrow> ClaudeChannelHost \<Rightarrow> ClaudeChannelHost" where
  "channel_connected now self = self\<lparr>cch_peer := Some (now + CHANNEL_REGISTRATION_SETTLE)\<rparr>"

definition channel_start :: "bool \<Rightarrow> ClaudeChannelHost \<Rightarrow> WakeMetadata \<Rightarrow> (HostFailure + string) \<times> host_event list" where
  "channel_start delivers self wake =
     (case cch_peer self of
        None \<Rightarrow> (Inl RetryableBeforeStart, [])
      | Some ready_at \<Rightarrow>
          (if delivers then Inr (wm_oldest_message_id wake) else Inl HostFailure.OutcomeUnknown,
           [WaitedUntil ready_at, Notified (fst (channel_notification wake)) (snd (channel_notification wake))]))"

text \<open>
  The loop of \<open>await_turn_completion\<close>: each turn of it is the instant at its head and what observing the
  inbox then gives. \<open>None\<close> where it is still running after the given turns.
\<close>

fun await_turn_completion :: "string \<Rightarrow> Instant \<Rightarrow> (Instant \<times> (HostFailure + InboxResponse)) list \<Rightarrow> (HostFailure + unit) option" where
  "await_turn_completion notified_oldest deadline [] = None"
| "await_turn_completion notified_oldest deadline ((now, observed) # turns) =
     (if now \<ge> deadline then Some (Inl HostFailure.OutcomeUnknown)
      else case observed of
        Inl e \<Rightarrow> Some (Inl e)
      | Inr inbox \<Rightarrow>
          if ibr_pending_count inbox = 0 \<or> ibr_oldest_message_id inbox \<noteq> Some notified_oldest then Some (Inr ())
          else await_turn_completion notified_oldest deadline turns)"

text \<open>\<open>ClaudeChannelTurn::completed\<close>, begun at \<open>now\<close>; \<open>inbox\<close> outcomes are the session's.\<close>

definition channel_completed :: "string \<Rightarrow> Instant \<Rightarrow> (Instant \<times> (SessionError + InboxResponse)) list \<Rightarrow> (HostFailure + unit) option" where
  "channel_completed notified_oldest now turns =
     await_turn_completion notified_oldest (now + MAX_TURN_OCCUPANCY)
       (map (map_prod id (map_err (\<lambda>_. HostFailure.OutcomeUnknown))) turns)"

text \<open>
  \<open>monitor_activation\<close>: each turn of its loop is a change of the stop channel (whether it stops), or a look
  at the phase. The diagnostic is printed once, on a blocked activation.
\<close>

datatype monitor_event = StopChanged bool | Looked ActivationPhase

fun monitor_activation :: "monitor_event list \<Rightarrow> bool \<times> nat" where
  "monitor_activation [] = (False, 0)"
| "monitor_activation (StopChanged stops # events) = (if stops then (True, 0) else monitor_activation events)"
| "monitor_activation (Looked phase # events) =
     (if phase = ActivationPhase.Blocked then (True, 1)
      else if phase = ActivationPhase.Stopped then (True, 0)
      else monitor_activation events)"

section \<open>The controller\<close>

text \<open>
  \<open>ClaudeChannelController\<close>: the host with its peer, and which of its tasks run. Starting it makes the
  source and the activation, then the status publisher, whose start is \<open>status\<close>; where that fails the
  activation is shut down before the error is returned. The second part of the result is what runs then.
\<close>

datatype channel_task = ActivationTask | StatusTask | DiagnosticTask

record ClaudeChannelController =
  ccc_host :: ClaudeChannelHost
  ccc_running :: "channel_task set"

definition controller_start ::
  "string \<Rightarrow> string \<Rightarrow> 'e + unit \<Rightarrow> ('e option + ClaudeChannelController) \<times> channel_task set" where
  "controller_start profile squad status =
     (case SessionActivationSource_new profile squad of
        Inl _ \<Rightarrow> (Inl None, {})
      | Inr source \<Rightarrow>
          (case ActivationMachine_new ActivationPolicy_default of
             Inl _ \<Rightarrow> (Inl None, {})
           | Inr machine \<Rightarrow>
               (let activation = {ActivationTask} in
                case status of
                  Inl e \<Rightarrow> (Inl (Some e), activation - {ActivationTask})
                | Inr _ \<Rightarrow>
                    (let running = activation \<union> {StatusTask, DiagnosticTask} in
                     (Inr \<lparr>ccc_host = \<lparr>cch_peer = None\<rparr>, ccc_running = running\<rparr>, running)))))"

definition controller_connected :: "Instant \<Rightarrow> ClaudeChannelController \<Rightarrow> ClaudeChannelController" where
  "controller_connected now self = self\<lparr>ccc_host := channel_connected now (ccc_host self)\<rparr>"

text \<open>\<open>shutdown\<close>: a status that cannot be withdrawn is reported and does not stop the rest.\<close>

definition controller_shutdown :: "ClaudeChannelController \<Rightarrow> ClaudeChannelController" where
  "controller_shutdown self =
     (let activation_down = self\<lparr>ccc_running := ccc_running self - {ActivationTask}\<rparr>;
          status_down = activation_down\<lparr>ccc_running := ccc_running activation_down - {StatusTask}\<rparr>;
          diagnostic_down = status_down\<lparr>ccc_running := ccc_running status_down - {DiagnosticTask}\<rparr> in
      diagnostic_down\<lparr>ccc_host := (ccc_host diagnostic_down)\<lparr>cch_peer := None\<rparr>\<rparr>)"

section \<open>Properties\<close>

lemma controller_shutdown_stops_all: "ccc_running (controller_shutdown self) = {}"
  by (auto simp: controller_shutdown_def Let_def) (metis channel_task.exhaust)

lemma failed_start_leaves_nothing: "controller_start profile squad status = (Inl e, running) \<Longrightarrow> running = {}"
  by (auto simp: controller_start_def Let_def split: sum.splits)

lemma controller_starts_unconnected: "controller_start profile squad status = (Inr c, running) \<Longrightarrow> cch_peer (ccc_host c) = None"
  by (auto simp: controller_start_def Let_def split: sum.splits)

lemma monitor_prints_once: "snd (monitor_activation events) \<le> 1"
  by (induction events rule: monitor_activation.induct) auto

text \<open>The heads of the loop: \<open>sleep_until((now + 1 s).min(deadline))\<close> has passed before the next.\<close>

fun paced_turns :: "Instant \<Rightarrow> (Instant \<times> 'a) list \<Rightarrow> bool" where
  "paced_turns deadline ((now, _) # (later, x) # turns) \<longleftrightarrow>
     min (now + TURN_RECONCILE_INTERVAL) deadline \<le> later \<and> paced_turns deadline ((later, x) # turns)"
| "paced_turns deadline _ \<longleftrightarrow> True"

lemma await_turn_completion_bounded:
  assumes "paced_turns deadline ((now, x) # turns)" and "deadline \<le> now + length turns * TURN_RECONCILE_INTERVAL"
  shows "await_turn_completion oldest deadline ((now, x) # turns) \<noteq> None"
  using assms
proof (induction turns arbitrary: now x)
  case (Cons turn turns)
  obtain later y where turn: "turn = (later, y)" by fastforce
  show ?case
  proof (cases "deadline \<le> later")
    case True
    then show ?thesis using turn by (auto split: sum.splits)
  next
    case False
    then have "now + TURN_RECONCILE_INTERVAL \<le> later" using Cons.prems(1) turn by (auto simp: min_def split: if_splits)
    then have "await_turn_completion oldest deadline ((later, y) # turns) \<noteq> None"
      using Cons turn by (intro Cons.IH) auto
    then show ?thesis using turn by (auto split: sum.splits)
  qed
qed simp

text \<open>
  (C32) Waiting for a notified turn ends: with the loop paced as it is, after at most 301 looks at the inbox
  it has returned, and it returns success only where a look found no pending message or another oldest
  one.
\<close>

theorem channel_turn_ends:
  assumes "paced_turns (now + MAX_TURN_OCCUPANCY) turns" and "turns \<noteq> []" and "now \<le> fst (hd turns)" and "length turns \<ge> 301"
  shows "\<exists>result. channel_completed oldest now turns = Some result
    \<and> (result = Inr () \<longrightarrow> (\<exists>at inbox. (at, Inr inbox) \<in> set turns
         \<and> (ibr_pending_count inbox = 0 \<or> ibr_oldest_message_id inbox \<noteq> Some oldest)))"
proof -
  let ?turns = "map (map_prod id (map_err (\<lambda>_ :: SessionError. HostFailure.OutcomeUnknown))) turns"
  have paced: "paced_turns d (map (map_prod id f) ts) = paced_turns d ts" for d and f :: "'b \<Rightarrow> 'c" and ts :: "(Instant \<times> 'b) list"
    by (induction d ts rule: paced_turns.induct) auto
  obtain t x rest where turns: "turns = (t, x) # rest" using assms(2) by (cases turns) auto
  have "await_turn_completion oldest (now + MAX_TURN_OCCUPANCY) ?turns \<noteq> None"
    using await_turn_completion_bounded [of "now + MAX_TURN_OCCUPANCY" t "map_err (\<lambda>_. HostFailure.OutcomeUnknown) x"
        "map (map_prod id (map_err (\<lambda>_. HostFailure.OutcomeUnknown))) rest" oldest]
      paced [of "now + MAX_TURN_OCCUPANCY" "map_err (\<lambda>_. HostFailure.OutcomeUnknown)" turns] assms turns
    by (simp add: MAX_TURN_OCCUPANCY_def TURN_RECONCILE_INTERVAL_def from_secs_def)
  moreover have "\<exists>at inbox. (at, Inr inbox) \<in> set ts \<and> (ibr_pending_count inbox = 0 \<or> ibr_oldest_message_id inbox \<noteq> Some oldest)"
    if "await_turn_completion oldest d ts = Some (Inr ())" for d ts
    using that by (induction oldest d ts rule: await_turn_completion.induct) (fastforce split: if_splits sum.splits)+
  ultimately obtain result where result: "await_turn_completion oldest (now + MAX_TURN_OCCUPANCY) ?turns = Some result"
      and found: "result = Inr () \<longrightarrow> (\<exists>at inbox. (at, Inr inbox) \<in> set ?turns
        \<and> (ibr_pending_count inbox = 0 \<or> ibr_oldest_message_id inbox \<noteq> Some oldest))"
    by blast
  have "(at, Inr inbox) \<in> set ?turns \<Longrightarrow> (at, Inr inbox) \<in> set turns" for at inbox
    by (auto simp: map_err_def split: sum.splits)
  with result found show ?thesis unfolding channel_completed_def by blast
qed

text \<open>A turn that is looked at every second; the message is acknowledged before the first look.\<close>

definition sample_turns :: "(Instant \<times> (SessionError + InboxResponse)) list" where
  "sample_turns = map (\<lambda>i. (from_secs i, Inr \<lparr>ibr_messages = [], ibr_pending_count = 0, ibr_highest_priority = None,
     ibr_oldest_message_id = None\<rparr>)) [0..<301]"

lemma paced_turns_upt: "paced_turns d (map (\<lambda>i. (from_secs i, x i)) [m..<n])"
proof (induction "n - m" arbitrary: m)
  case (Suc k)
  then have first: "[m..<n] = m # [Suc m..<n]" by (simp add: upt_conv_Cons)
  have rest: "paced_turns d (map (\<lambda>i. (from_secs i, x i)) [Suc m..<n])" using Suc by simp
  show ?case
  proof (cases "Suc m < n")
    case True
    then have "[Suc m..<n] = Suc m # [Suc (Suc m)..<n]" by (simp add: upt_conv_Cons)
    then show ?thesis using rest by (simp add: first TURN_RECONCILE_INTERVAL_def from_secs_def)
  next
    case False
    then show ?thesis by (simp add: first)
  qed
qed simp

theorem channel_turn_ends_witness:
  "length sample_turns = 301 \<and> paced_turns MAX_TURN_OCCUPANCY sample_turns
    \<and> (\<exists>result. channel_completed ''msg_1'' 0 sample_turns = Some result)"
proof -
  have "paced_turns (0 + MAX_TURN_OCCUPANCY) sample_turns" "length sample_turns = 301"
    unfolding sample_turns_def by (simp_all only: paced_turns_upt length_map length_upt diff_zero)
  moreover from this have "sample_turns \<noteq> []" by auto
  ultimately show ?thesis using channel_turn_ends [of 0 sample_turns "''msg_1''"] by auto
qed

end
