(* ===== verification/Mcp_Server.thy ===== *)
theory Mcp_Server
  imports Mcp_Dispatch Claude_Channel
begin

text \<open>
  The MCP server around the dispatcher (\<open>psst-mcp/src/server.rs\<close>): the handling of one tool call, and
  the Claude Channel controller, which watches the session that is bound and is stopped before the
  session is left.
\<close>

section \<open>State\<close>

text \<open>
  \<open>CooperativeServer\<close>: the dispatcher's slot (none for the protocol-only shell), the opt-in, and the
  the channel controller with the session it watches, where there is one.
\<close>

record 'r CooperativeServer =
  cs_dispatch :: "'r RuntimeSlot option"
  cs_channel_enabled :: bool
  cs_channel :: "('r \<times> ClaudeChannelController) option"
  cs_channel_peer :: bool

record 'r server_env =
  sr_dispatch :: "'r dispatch_env"
  sr_authority :: "'r \<Rightarrow> SessionError + unit"
  sr_load_profile :: "io_error + ProfileBinding option"
  sr_status :: "'r \<Rightarrow> io_error + unit"
  sr_now :: Instant
  sr_encode_error :: "McpSafeError \<Rightarrow> (json \<times> string) option"
  sr_schema :: "string \<Rightarrow> json"

fun adapter_mode :: "bool \<Rightarrow> AgentModeDto" where
  "adapter_mode True = AgentModeDto.Harnessed"
| "adapter_mode False = AgentModeDto.Cooperative"

text \<open>\<open>DispatchState::activation_runtime\<close>: the session, and the squad of the binding.\<close>

definition activation_runtime :: "'r server_env \<Rightarrow> ('r, 'r \<times> string) slot_op" where
  "activation_runtime E =
     op_bind (active (sr_dispatch E)) (\<lambda>runtime.
     op_bind (session_failure (sr_authority E runtime)) (\<lambda>_.
     op_bind (op_return (map_err mcp_local_io (sr_load_profile E))) (\<lambda>loaded.
     op_bind (op_return (ok_or LocalErrorCode.ProfileUnbound loaded)) (\<lambda>binding.
     op_return (Inr (runtime, pb_squad_name binding))))))"

definition stop_channel :: "'r CooperativeServer \<Rightarrow> 'r CooperativeServer" where
  "stop_channel self = self\<lparr>cs_channel := None\<rparr>"

definition ensure_channel_started :: "'r server_env \<Rightarrow> ('r CooperativeServer, LocalErrorCode, unit) op" where
  "ensure_channel_started E self =
     (if \<not> cs_channel_enabled self then (Inr (), self)
      else if cs_channel self \<noteq> None then (Inr (), self)
      else case cs_dispatch self of
        None \<Rightarrow> (Inl LocalErrorCode.InvalidConfiguration, self)
      | Some slot \<Rightarrow>
          (case activation_runtime E slot of
             (Inl e, slot') \<Rightarrow>
               (if e = LocalErrorCode.ProfileUnbound then Inr () else Inl e, self\<lparr>cs_dispatch := Some slot'\<rparr>)
           | (Inr (runtime, squad), slot') \<Rightarrow>
               (let self = self\<lparr>cs_dispatch := Some slot'\<rparr> in
                case fst (controller_start (de_profile (sr_dispatch E)) squad (sr_status E runtime)) of
                  Inl _ \<Rightarrow> (Inl LocalErrorCode.InvalidConfiguration, self)
                | Inr controller \<Rightarrow>
                    (Inr (), self\<lparr>cs_channel := Some (runtime,
                       if cs_channel_peer self then controller_connected (sr_now E) controller else controller)\<rparr>))))"

text \<open>\<open>from_environment\<close>, once the slot of the dispatcher is known.\<close>

definition server_from_environment ::
  "'r server_env \<Rightarrow> string option \<Rightarrow> LocalErrorCode + 'r RuntimeSlot \<Rightarrow> LocalErrorCode + 'r CooperativeServer" where
  "server_from_environment E channel_variable dispatch =
     rbind (map_err (\<lambda>_. LocalErrorCode.InvalidConfiguration) (parse_channel_enabled channel_variable)) (\<lambda>channel_enabled.
     rbind dispatch (\<lambda>slot.
     case ensure_channel_started E
         \<lparr>cs_dispatch = Some slot, cs_channel_enabled = channel_enabled, cs_channel = None, cs_channel_peer = False\<rparr> of
       (Inl e, _) \<Rightarrow> Inl e
     | (Inr _, server) \<Rightarrow> Inr server))"

definition on_initialized :: "Instant \<Rightarrow> 'r CooperativeServer \<Rightarrow> 'r CooperativeServer" where
  "on_initialized now self =
     (if \<not> cs_channel_enabled self then self
      else self\<lparr>cs_channel_peer := True, cs_channel := map_option (map_prod id (controller_connected now)) (cs_channel self)\<rparr>)"

text \<open>\<open>shutdown\<close>: the controller first, then the dispatcher, whose end is \<open>ended\<close>.\<close>

definition server_shutdown :: "('r \<Rightarrow> SessionError + unit) \<Rightarrow> ('r CooperativeServer, LocalErrorCode, unit) op" where
  "server_shutdown end_session self =
     (let self = (stop_channel self)\<lparr>cs_channel_peer := False\<rparr> in
      case cs_dispatch self of
        None \<Rightarrow> (Inr (), self)
      | Some slot \<Rightarrow>
          (case shutdown_claim slot of
             (None, slot') \<Rightarrow> (Inl LocalErrorCode.OutcomeUnknown, self\<lparr>cs_dispatch := Some slot'\<rparr>)
           | (Some runtime, slot') \<Rightarrow>
               (case shutdown_publish (case runtime of None \<Rightarrow> Inr () | Some r \<Rightarrow> end_session r) slot' of
                  (result, slot'') \<Rightarrow> (result, self\<lparr>cs_dispatch := Some slot''\<rparr>))))"

section \<open>One tool call\<close>

text \<open>What the protocol library is given: a structured result with its text and whether it is an error.\<close>

datatype call_error = ArgumentsRefused mcp_error | EncodingFailed | UnknownTool

fun fallback_error :: "(json \<times> string) option \<Rightarrow> json \<times> string" where
  "fallback_error (Some out) = out"
| "fallback_error None =
     (JObject [(''error'', JObject [(''code'', JString ''internal''), (''message'', JString ''An internal error occurred.''),
        (''retryable'', JBool False)])],
      ''{\"error\":{\"code\":\"internal\",\"message\":\"An internal error occurred.\",\"retryable\":false}}'')"

definition error_output :: "'r server_env \<Rightarrow> LocalErrorCode \<Rightarrow> json \<times> string" where
  "error_output E code = fallback_error (sr_encode_error E (McpSafeError_from code))"

text \<open>The call, once it is known to be a tool with valid arguments.\<close>

definition dispatched :: "'r server_env \<Rightarrow> string \<Rightarrow> (string \<times> json) list \<Rightarrow> 'r CooperativeServer \<Rightarrow> (json \<times> string \<times> bool) \<times> 'r CooperativeServer" where
  "dispatched E name args self =
     (case cs_dispatch self of
        None \<Rightarrow> ((fst (error_output E LocalErrorCode.Unsupported), snd (error_output E LocalErrorCode.Unsupported), True), self)
      | Some slot \<Rightarrow>
          (case dispatch_call (sr_dispatch E) name args slot of
             (Inl code, slot') \<Rightarrow> ((fst (error_output E code), snd (error_output E code), True), self\<lparr>cs_dispatch := Some slot'\<rparr>)
           | (Inr (v, text), slot') \<Rightarrow> ((v, text, False), self\<lparr>cs_dispatch := Some slot'\<rparr>)))"

text \<open>The controller is stopped before a leave, and started again after a failed one or another tool's success.\<close>

definition run_tool :: "'r server_env \<Rightarrow> string \<Rightarrow> (string \<times> json) list \<Rightarrow> 'r CooperativeServer \<Rightarrow> (json \<times> string \<times> bool) \<times> 'r CooperativeServer" where
  "run_tool E name args self =
     (let is_leave = (name = ''squad_leave'');
          (result, self) = dispatched E name args (if is_leave then stop_channel self else self);
          is_error = snd (snd result);
          should_start_channel = (\<not> is_error \<and> \<not> is_leave) \<or> (is_error \<and> is_leave) in
      (result, if should_start_channel then snd (ensure_channel_started E self) else self))"

definition call_tool :: "'r server_env \<Rightarrow> string \<Rightarrow> (string \<times> json) list option \<Rightarrow> ('r CooperativeServer, call_error, json \<times> string \<times> bool) op" where
  "call_tool E name args self =
     (if get_tool (sr_schema E) name = None then (Inl UnknownTool, self)
      else let args = (case args of None \<Rightarrow> [] | Some a \<Rightarrow> a) in
        case validate_arguments name args of
          Inl e \<Rightarrow> (Inl (ArgumentsRefused e), self)
        | Inr _ \<Rightarrow>
            if cs_dispatch self = None then
              (case sr_encode_error E (McpSafeError_from LocalErrorCode.Unsupported) of
                 None \<Rightarrow> (Inl EncodingFailed, self)
               | Some (v, text) \<Rightarrow> (Inr (v, text, True), self))
            else
              apfst Inr (run_tool E name args self))"

section \<open>The controller watches the bound session\<close>

definition server_ok :: "'r CooperativeServer \<Rightarrow> bool" where
  "server_ok self \<longleftrightarrow>
     (\<forall>r controller. cs_channel self = Some (r, controller) \<longrightarrow>
        cs_channel_enabled self \<and> cs_dispatch self = Some (Bound r)
        \<and> (cch_peer (ccc_host controller) \<noteq> None \<longleftrightarrow> cs_channel_peer self))"

lemma active_bound: "active E (Bound r) = (Inr r, Bound r)"
  by (simp add: active_def op_bind_def)

lemma active_result: "active E slot = (Inr r, slot') \<Longrightarrow> slot' = Bound r"
  by (cases slot) (auto simp: active_def op_bind_def active_publish_def split: sum.splits)

lemma activation_runtime_bound: "activation_runtime E slot = (Inr (r, squad), slot') \<Longrightarrow> slot' = Bound r"
  unfolding activation_runtime_def session_failure_def
  by (elim op_bind_cases) (auto dest: active_result)

lemma started_controller_unconnected: "fst (controller_start profile squad status) = Inr c \<Longrightarrow> cch_peer (ccc_host c) = None"
  by (metis controller_starts_unconnected prod.collapse)

lemma ensure_channel_ok: "server_ok self \<Longrightarrow> server_ok (snd (ensure_channel_started E self))"
  by (auto simp: server_ok_def ensure_channel_started_def Let_def activation_runtime_bound controller_connected_def
      channel_connected_def started_controller_unconnected split: option.splits prod.splits sum.splits if_splits)

lemmas tool_defs = tool_join_def tool_roster_def tool_send_def tool_receive_def tool_acknowledge_def tool_status_def
  status_runtime_def client_failure_def session_failure_def mcp_decode_def

text \<open>No tool but \<open>squad_leave\<close> touches a slot that holds a session.\<close>

lemma tools_keep_bound:
  "snd (tool_join E a (Bound r)) = Bound r"
  "snd (tool_roster E (Bound r)) = Bound r"
  "snd (tool_send E b (Bound r)) = Bound r"
  "snd (tool_receive E c (Bound r)) = Bound r"
  "snd (tool_acknowledge E d (Bound r)) = Bound r"
  "snd (tool_status E e (Bound r)) = Bound r"
  by (auto simp: tool_defs op_bind_def active_bound split: sum.splits prod.splits option.splits if_splits)

lemma op_bind_return_snd: "snd (op_bind (op_return m) f s) = (case m of Inl _ \<Rightarrow> s | Inr x \<Rightarrow> snd (f x s))"
  by (auto simp: op_bind_def split: sum.splits)

lemma dispatch_tool_keeps_bound:
  assumes "name \<noteq> ''squad_leave''"
  shows "snd (dispatch_tool E name args (Bound r)) = Bound r"
  using assms
  by (auto simp: dispatch_tool_def mcp_decode_def client_failure_def op_bind_return_snd tools_keep_bound split: sum.splits)

lemma dispatch_call_keeps_bound:
  assumes "name \<noteq> ''squad_leave''"
  shows "snd (dispatch_call E name args (Bound r)) = Bound r"
  using dispatch_tool_keeps_bound [OF assms, of E args r]
  by (cases "dispatch_tool E name args (Bound r)")
    (auto simp: dispatch_call_def op_bind_def split: sum.splits)

lemma dispatched_ok:
  assumes "server_ok self" and "name = ''squad_leave'' \<longrightarrow> cs_channel self = None"
  shows "server_ok (snd (dispatched E name args self))"
  using assms dispatch_call_keeps_bound [of name "sr_dispatch E" args]
  by (auto simp: server_ok_def dispatched_def split: option.splits prod.splits sum.splits) (metis snd_conv)+

lemma run_tool_ok: "server_ok self \<Longrightarrow> server_ok (snd (run_tool E name args self))"
proof -
  assume ok: "server_ok self"
  define self1 where "self1 = (if name = ''squad_leave'' then stop_channel self else self)"
  have "server_ok self1" "name = ''squad_leave'' \<longrightarrow> cs_channel self1 = None"
    using ok by (auto simp: server_ok_def stop_channel_def self1_def)
  then have "server_ok (snd (dispatched E name args self1))" by (rule dispatched_ok)
  then show ?thesis
    by (cases "dispatched E name args self1") (auto simp: run_tool_def Let_def self1_def [symmetric] ensure_channel_ok)
qed

lemma call_tool_ok: "server_ok self \<Longrightarrow> server_ok (snd (call_tool E name args self))"
  by (auto simp: call_tool_def Let_def run_tool_ok split: option.splits sum.splits)

text \<open>After a successful leave nothing watches the profile.\<close>

lemma leave_stops_channel:
  assumes "call_tool E ''squad_leave'' args self = (Inr (v, txt, False), self')"
  shows "cs_channel self' = None"
proof -
  obtain a where "run_tool E ''squad_leave'' a self = ((v, txt, False), self')"
    using assms by (auto simp: call_tool_def Let_def apfst_def map_prod_def split: option.splits sum.splits prod.splits if_splits)
  then show ?thesis
    by (auto simp: run_tool_def Let_def stop_channel_def dispatched_def split: option.splits sum.splits prod.splits if_splits)
qed

text \<open>
  The server while its calls are handled one after the other, each in an environment of its own.
\<close>

inductive server_reachable :: "'r CooperativeServer \<Rightarrow> bool" where
  started: "server_from_environment E variable dispatch = Inr s \<Longrightarrow> server_reachable s"
| initialized: "server_reachable s \<Longrightarrow> server_reachable (on_initialized now s)"
| called: "server_reachable s \<Longrightarrow> server_reachable (snd (call_tool E name args s))"
| stopped: "server_reachable s \<Longrightarrow> server_reachable (snd (server_shutdown end_session s))"

lemma reachable_server_ok:
  assumes "server_reachable s"
  shows "server_ok s"
  using assms
proof induction
  case (started E variable dispatch s)
  then obtain enabled slot where
      "ensure_channel_started E \<lparr>cs_dispatch = Some slot, cs_channel_enabled = enabled, cs_channel = None, cs_channel_peer = False\<rparr> = (Inr (), s)"
    unfolding server_from_environment_def rbind_eq_Inr by (elim exE conjE) (auto split: prod.splits sum.splits)
  then show ?case
    using ensure_channel_ok [of "\<lparr>cs_dispatch = Some slot, cs_channel_enabled = enabled, cs_channel = None, cs_channel_peer = False\<rparr>" E]
    by (simp add: server_ok_def)
next
  case (initialized s now)
  then show ?case
    by (auto simp: server_ok_def on_initialized_def controller_connected_def channel_connected_def)
next
  case (called s E name args)
  then show ?case by (simp add: call_tool_ok)
next
  case (stopped s end_session)
  then show ?case
    by (auto simp: server_ok_def server_shutdown_def stop_channel_def Let_def split: option.splits prod.splits)
qed

text \<open>
  (C31) The Claude Channel controller follows the session. Whatever sequence of tool calls, of the client's
  initialisation and of shutdowns the server has handled, one after the other, a controller runs only where
  the channel is enabled and watches exactly the session that the dispatcher has bound, and it is
  connected to the client if and only if the client has initialised; and a successful \<open>squad_leave\<close>
  leaves no controller behind.
\<close>

theorem channel_follows_the_session:
  assumes "server_reachable s"
  shows "(\<forall>r controller. cs_channel s = Some (r, controller) \<longrightarrow>
      cs_channel_enabled s \<and> cs_dispatch s = Some (Bound r) \<and> (cch_peer (ccc_host controller) \<noteq> None \<longleftrightarrow> cs_channel_peer s))
    \<and> (\<forall>v txt s'. call_tool E ''squad_leave'' args s = (Inr (v, txt, False), s') \<longrightarrow> cs_channel s' = None)"
  using reachable_server_ok [OF assms] leave_stops_channel unfolding server_ok_def by blast

text \<open>A profile bound to session 1 in an enabled server, whose client has initialised at instant 5.\<close>

definition sample_server_env :: "nat server_env" where
  "sample_server_env = \<lparr>sr_dispatch = \<lparr>de_profile = ''dev'', de_stamp = (\<lambda>_. ''t''), de_random = None,
      de_start = (\<lambda>_. Inr 1), de_join = (\<lambda>_. Inl NotReady),
      de_leave = (\<lambda>_. Inr \<lparr>lsr_membership_id = ''mem_1'', lsr_left_at = ApiTimestamp 0\<rparr>),
      de_list_squads = Inr [], de_describe_squad = (\<lambda>_. Inl Error.Timeout), de_roster = (\<lambda>_. Inl NotReady),
      de_send_prepared = (\<lambda>_ _. Inl NotReady), de_acknowledge = (\<lambda>_ _. Inl NotReady), de_inbox = (\<lambda>_ _ _. Inl NotReady),
      de_report_availability = (\<lambda>_ _. Inl NotReady),
      de_snapshot = (\<lambda>_. (SessionHealth.Ready, AvailabilityDto.Idle, ApiTimestamp 0, 30)),
      de_encode = (\<lambda>_. Some JNull), de_text = (\<lambda>_. Some ''null'')\<rparr>,
    sr_authority = (\<lambda>_. Inr ()), sr_load_profile = Inr (Some sample_binding), sr_status = (\<lambda>_. Inr ()), sr_now = 0,
    sr_encode_error = (\<lambda>_. None), sr_schema = (\<lambda>_. JNull)\<rparr>"

definition sample_controller :: ClaudeChannelController where
  "sample_controller = \<lparr>ccc_host = \<lparr>cch_peer = None\<rparr>, ccc_running = {ActivationTask, StatusTask, DiagnosticTask}\<rparr>"

definition sample_server :: "nat CooperativeServer" where
  "sample_server = \<lparr>cs_dispatch = Some (Bound 1), cs_channel_enabled = True,
     cs_channel = Some (1, controller_connected 5 sample_controller), cs_channel_peer = True\<rparr>"

lemma sample_controller_starts: "controller_start ''dev'' ''alpha'' (Inr () :: io_error + unit)
    = (Inr sample_controller, {ActivationTask, StatusTask, DiagnosticTask})"
  by (simp add: controller_start_def SessionActivationSource_new_def ActivationMachine_new_def default_policy_valid
      sample_controller_def validate_identifier_def wake_char_def eval_simps Let_def insert_commute MAX_WAKE_PROFILE_BYTES_def MAX_WAKE_SQUAD_BYTES_def)

lemma sample_server_reachable: "server_reachable sample_server"
proof -
  have "server_from_environment sample_server_env (Some ''1'') (Inr (Dormant sample_binding))
      = Inr \<lparr>cs_dispatch = Some (Bound 1), cs_channel_enabled = True, cs_channel = Some (1, sample_controller), cs_channel_peer = False\<rparr>"
    using sample_controller_starts
    by (simp add: server_from_environment_def parse_channel_enabled_def ensure_channel_started_def activation_runtime_def
        sample_server_env_def active_def active_publish_def op_bind_def session_failure_def sample_binding_def)
  from server_reachable.initialized [OF server_reachable.started [OF this], of 5] show ?thesis
    by (simp add: on_initialized_def sample_server_def)
qed

lemma sample_server_leaves:
  "call_tool sample_server_env ''squad_leave'' None sample_server
     = (Inr (JNull, ''null'', False), sample_server\<lparr>cs_dispatch := Some Unbound, cs_channel := None\<rparr>)"
  by (simp add: call_tool_def get_tool_known tool_names validate_arguments_def decode_EmptyInput_def sample_server_def
      run_tool_def dispatched_def dispatch_call_def dispatch_tool_def tool_leave_def active_def op_bind_def leave_publish_def
      mcp_decode_def stop_channel_def sample_server_env_def)

theorem channel_follows_the_session_witness:
  "server_reachable sample_server \<and> cs_channel sample_server = Some (1, controller_connected 5 sample_controller)
    \<and> cs_dispatch sample_server = Some (Bound 1) \<and> cs_channel_peer sample_server
    \<and> cs_channel (snd (call_tool sample_server_env ''squad_leave'' None sample_server)) = None"
  using channel_follows_the_session [OF sample_server_reachable, of sample_server_env None] sample_server_reachable sample_server_leaves
  by (simp add: sample_server_def)

text \<open>
  Calls are not handled one after the other. Between the moment a leave has stopped the controller and the
  moment it takes the session, the end of another call starts the controller again: after the leave it
  still watches the session that was left, and no later call replaces it.
\<close>

lemma overlapping_leave_keeps_the_controller:
  assumes "s1 = stop_channel sample_server" and "s2 = snd (ensure_channel_started sample_server_env s1)"
    and "dispatched sample_server_env ''squad_leave'' [] s2 = (result, s3)"
  shows "result = (JNull, ''null'', False) \<and> cs_dispatch s3 = Some Unbound
    \<and> map_option fst (cs_channel s3) = Some 1 \<and> snd (ensure_channel_started E s3) = s3"
proof -
  have "s2 = sample_server\<lparr>cs_channel := Some (1, controller_connected 0 sample_controller)\<rparr>"
    using assms(1,2) sample_controller_starts
    by (simp add: stop_channel_def sample_server_def ensure_channel_started_def activation_runtime_def
        sample_server_env_def active_def op_bind_def session_failure_def sample_binding_def)
  then show ?thesis using assms(3)
    by (auto simp: dispatched_def dispatch_call_def dispatch_tool_def tool_leave_def active_def op_bind_def leave_publish_def
        mcp_decode_def decode_EmptyInput_def sample_server_env_def sample_server_def ensure_channel_started_def)
qed

end
