(* ===== verification/Cli_Parse.thy ===== *)
theory Cli_Parse
  imports App_Config
begin

text \<open>
  The command line of \<open>psst\<close> (\<open>psst-cli/src/lib.rs\<close>): the global options, the grammar of the commands
  and the errors of a command line that does not follow it. Arguments are the bytes the operating system
  gives (\<open>OsString\<close>). A call that panics gives \<open>None\<close>.
\<close>

section \<open>Arguments\<close>

text \<open>Well-formed UTF-8 (\<open>OsStr::to_str\<close> succeeds).\<close>

definition byte_in :: "nat \<Rightarrow> nat \<Rightarrow> nat \<Rightarrow> string \<Rightarrow> bool" where
  "byte_in i lo hi bs \<longleftrightarrow> i < length bs \<and> lo \<le> byte_of (bs ! i) \<and> byte_of (bs ! i) \<le> hi"

fun is_utf8 :: "string \<Rightarrow> bool" where
  "is_utf8 [] = True"
| "is_utf8 (b # bs) =
     (let n = byte_of b in
      if n < 128 then is_utf8 bs
      else if 194 \<le> n \<and> n < 224 then byte_in 0 128 191 bs \<and> is_utf8 (drop 1 bs)
      else if 224 \<le> n \<and> n < 240 then
        byte_in 0 (if n = 224 then 160 else 128) (if n = 237 then 159 else 191) bs \<and> byte_in 1 128 191 bs \<and> is_utf8 (drop 2 bs)
      else if 240 \<le> n \<and> n < 245 then
        byte_in 0 (if n = 240 then 144 else 128) (if n = 244 then 143 else 191) bs \<and> byte_in 1 128 191 bs
        \<and> byte_in 2 128 191 bs \<and> is_utf8 (drop 3 bs)
      else False)"

definition to_str :: "string \<Rightarrow> string option" where
  "to_str v = (if is_utf8 v then Some v else None)"

text \<open>\<open>args.get(i)\<close>, \<open>nonempty\<close> and the reading of a bounded number.\<close>

definition arg :: "nat \<Rightarrow> string list \<Rightarrow> string option" where
  "arg i args = (if i < length args then Some (args ! i) else None)"

definition nonempty :: "string option \<Rightarrow> string option" where
  "nonempty v = (case Option.bind v to_str of Some s \<Rightarrow> if s \<noteq> [] then Some s else None | None \<Rightarrow> None)"

definition bounded_number :: "string option \<Rightarrow> nat \<Rightarrow> nat \<Rightarrow> bool" where
  "bounded_number v lo hi =
     (case Option.bind (nonempty v) (parse_unsigned 65535) of Some n \<Rightarrow> lo \<le> n \<and> n \<le> hi | None \<Rightarrow> False)"

definition parse_i64 :: "string \<Rightarrow> int option" where
  "parse_i64 v =
     (let (negative, digits) = (case v of CHR ''-'' # ds \<Rightarrow> (True, ds) | CHR ''+'' # ds \<Rightarrow> (False, ds) | _ \<Rightarrow> (False, v));
          n = (if negative then - int (digits_value digits) else int (digits_value digits)) in
      if digits \<noteq> [] \<and> list_all is_ascii_digit digits \<and> - i64_max - 1 \<le> n \<and> n \<le> i64_max then Some n else None)"

definition starts_with_dashes :: "string \<Rightarrow> bool" where
  "starts_with_dashes v \<longleftrightarrow> take 2 v = ''--''"

section \<open>Commands\<close>

datatype CliCommand =
    Invocation | RelayStart | Health | ConfigShowEffective | ProfileList | ProfileShow | SquadList | SquadCreate
  | SquadDescribe | SquadArchive | SquadJoin | SquadLeave | SquadRoster | MessageSend | Inbox | Listen
  | MessageAcknowledge | Transcript | Status | HarnessStatus | DatabaseInfo | DatabaseBackup | DatabaseIntegrityCheck

record GlobalOptions =
  go_relay :: "string option"
  go_profile :: "string option"
  go_config :: "string option"
  go_json :: bool

definition GlobalOptions_default :: GlobalOptions where
  "GlobalOptions_default = \<lparr>go_relay = None, go_profile = None, go_config = None, go_json = False\<rparr>"

record RelayStartArgs =
  rsa_bind :: "string option"
  rsa_data_dir :: "string option"
  rsa_allow_lan :: bool
  rsa_log_level :: "string option"

definition RelayStartArgs_default :: RelayStartArgs where
  "RelayStartArgs_default = \<lparr>rsa_bind = None, rsa_data_dir = None, rsa_allow_lan = False, rsa_log_level = None\<rparr>"

datatype ParsedCommand =
    ParsedRelayStart RelayStartArgs
  | ParsedHealth
  | ParsedConfigShowEffective
  | ParsedHarnessStatus
  | ParsedSquadList
  | ParsedSquadCreate string string
  | ParsedSquadDescribe string
  | Deferred CliCommand "string list"

fun contract :: "ParsedCommand \<Rightarrow> CliCommand" where
  "contract (ParsedRelayStart _) = RelayStart"
| "contract ParsedHealth = Health"
| "contract ParsedConfigShowEffective = ConfigShowEffective"
| "contract ParsedHarnessStatus = HarnessStatus"
| "contract ParsedSquadList = SquadList"
| "contract (ParsedSquadCreate _ _) = SquadCreate"
| "contract (ParsedSquadDescribe _) = SquadDescribe"
| "contract (Deferred command _) = command"

record ParseError =
  pse_command :: "CliCommand option"
  pse_json :: bool

datatype cli_invocation = Help | Version | Command GlobalOptions ParsedCommand

definition parse_error :: "CliCommand option \<Rightarrow> bool \<Rightarrow> ParseError + 'a" where
  "parse_error command json = Inl \<lparr>pse_command = command, pse_json = json\<rparr>"

definition string_arg :: "string option \<Rightarrow> bool \<Rightarrow> ParseError + string" where
  "string_arg v json = ok_or \<lparr>pse_command = None, pse_json = json\<rparr> (nonempty v)"

definition os_arg :: "string option \<Rightarrow> bool \<Rightarrow> ParseError + string" where
  "os_arg v json =
     (case v of Some s \<Rightarrow> if s \<noteq> [] then Inr s else parse_error None json | None \<Rightarrow> parse_error None json)"

definition command_arg :: "string option \<Rightarrow> bool \<Rightarrow> CliCommand \<Rightarrow> ParseError + string" where
  "command_arg v json command = map_err (\<lambda>_. \<lparr>pse_command = Some command, pse_json = json\<rparr>) (string_arg v json)"

definition command_os_arg :: "string option \<Rightarrow> bool \<Rightarrow> CliCommand \<Rightarrow> ParseError + string" where
  "command_os_arg v json command = map_err (\<lambda>_. \<lparr>pse_command = Some command, pse_json = json\<rparr>) (os_arg v json)"

section \<open>Grammars\<close>

fun option_pairs :: "string list \<Rightarrow> string list \<Rightarrow> (string \<times> string) list \<Rightarrow> (string \<times> string) list option" where
  "option_pairs allowed [] found = Some found"
| "option_pairs allowed [_] found = None"
| "option_pairs allowed (flag # v # rest) found =
     (if to_str flag = None \<or> nonempty (Some v) = None then None
      else if flag \<notin> set allowed \<or> map_of found flag \<noteq> None then None
      else option_pairs allowed rest ((flag, v) # found))"

definition parse_option_pairs :: "string list \<Rightarrow> string list \<Rightarrow> (string \<times> string) list option" where
  "parse_option_pairs args allowed =
     (if length args mod 2 \<noteq> 0 then None else option_pairs allowed args [])"

definition valid_named_options :: "string list \<Rightarrow> string list \<Rightarrow> string list \<Rightarrow> bool" where
  "valid_named_options args required optional =
     (case parse_option_pairs args (required @ optional) of
        None \<Rightarrow> False
      | Some found \<Rightarrow> list_all (\<lambda>flag. map_of found flag \<noteq> None) required)"

definition valid_join_grammar :: "string list \<Rightarrow> bool" where
  "valid_join_grammar args =
     (if length args < 7 \<or> nonempty (arg 2 args) = None then False
      else valid_named_options (drop 3 args) [''--name'', ''--role''] [''--mission''])"

definition send_options :: "string list" where
  "send_options = [''--to'', ''--body'', ''--file'', ''--priority'', ''--reply-to'', ''--correlation-id'']"

text \<open>\<open>&args[2..]\<close> panics where there are fewer than two arguments.\<close>

definition valid_send_grammar :: "string list \<Rightarrow> bool option" where
  "valid_send_grammar args =
     (if length args < 2 then None
      else Some (case parse_option_pairs (drop 2 args) send_options of
          None \<Rightarrow> False
        | Some options \<Rightarrow>
            map_of options ''--to'' \<noteq> None
            \<and> ((map_of options ''--body'' \<noteq> None) \<noteq> (map_of options ''--file'' \<noteq> None))
            \<and> (case map_of options ''--priority'' of None \<Rightarrow> True | Some v \<Rightarrow> v = ''normal'' \<or> v = ''high'')))"

text \<open>The identifiers after \<open>--ack\<close>, up to the next flag.\<close>

abbreviation ack_values :: "string list \<Rightarrow> string list" where
  "ack_values args \<equiv> takeWhile (\<lambda>v. \<not> starts_with_dashes v) args"

abbreviation after_ack :: "string list \<Rightarrow> string list" where
  "after_ack args \<equiv> dropWhile (\<lambda>v. \<not> starts_with_dashes v) args"

function inbox_grammar :: "string list \<Rightarrow> string set \<Rightarrow> bool" where
  "inbox_grammar [] seen = True"
| "inbox_grammar (flag # rest) seen =
     (if to_str flag = None \<or> flag \<in> seen then False
      else if flag = ''--limit'' then
        bounded_number (arg 0 rest) 1 100 \<and> inbox_grammar (drop 1 rest) (insert flag seen)
      else if flag = ''--wait'' then
        bounded_number (arg 0 rest) 0 30 \<and> inbox_grammar (drop 1 rest) (insert flag seen)
      else if flag = ''--ack'' then
        list_all (\<lambda>v. nonempty (Some v) \<noteq> None) (ack_values rest) \<and> ack_values rest \<noteq> []
        \<and> length (ack_values rest) \<le> 100 \<and> inbox_grammar (after_ack rest) (insert flag seen)
      else False)"
  by pat_completeness auto

termination
  by (relation "measure (\<lambda>(args, seen). length args)") (auto simp: le_imp_less_Suc length_dropWhile_le)

definition valid_inbox_grammar :: "string list \<Rightarrow> bool" where
  "valid_inbox_grammar args = inbox_grammar (drop 1 args) {}"

fun listen_grammar :: "string list \<Rightarrow> bool \<Rightarrow> bool \<Rightarrow> bool" where
  "listen_grammar [] wait ack = True"
| "listen_grammar (flag # rest) wait ack =
     (if flag = ''--wait'' \<and> \<not> wait then bounded_number (arg 0 rest) 1 30 \<and> listen_grammar (drop 1 rest) True ack
      else if flag = ''--ack'' \<and> \<not> ack then listen_grammar rest wait True
      else False)"

definition valid_listen_grammar :: "string list \<Rightarrow> bool" where
  "valid_listen_grammar args = listen_grammar (drop 1 args) False False"

definition valid_transcript_grammar :: "string list \<Rightarrow> bool" where
  "valid_transcript_grammar args =
     (case parse_option_pairs (drop 1 args) [''--after'', ''--limit''] of
        None \<Rightarrow> False
      | Some options \<Rightarrow>
          (case map_of options ''--after'' of
             None \<Rightarrow> True
           | Some v \<Rightarrow> (case parse_i64 v of Some n \<Rightarrow> 0 \<le> n | None \<Rightarrow> False))
          \<and> (case map_of options ''--limit'' of
             None \<Rightarrow> True
           | Some v \<Rightarrow> (case parse_unsigned 65535 v of Some n \<Rightarrow> 1 \<le> n \<and> n \<le> 100 | None \<Rightarrow> False)))"

section \<open>Parsing\<close>

definition deferred_identity :: "string list \<Rightarrow> CliCommand option" where
  "deferred_identity args =
     Option.bind (Option.bind (arg 0 args) to_str) (\<lambda>head.
     let second = Option.bind (arg 1 args) to_str in
     if head = ''health'' then Some Health
     else if head = ''inbox'' then Some Inbox
     else if head = ''listen'' then Some Listen
     else if head = ''transcript'' then Some Transcript
     else if head = ''status'' then Some Status
     else map_of [
       ((''relay'', Some ''start''), RelayStart), ((''config'', Some ''show''), ConfigShowEffective),
       ((''harness'', Some ''status''), HarnessStatus), ((''profile'', Some ''list''), ProfileList),
       ((''profile'', Some ''show''), ProfileShow), ((''squad'', Some ''archive''), SquadArchive),
       ((''squad'', Some ''list''), SquadList), ((''squad'', Some ''create''), SquadCreate),
       ((''squad'', Some ''describe''), SquadDescribe), ((''squad'', Some ''join''), SquadJoin),
       ((''squad'', Some ''leave''), SquadLeave), ((''squad'', Some ''roster''), SquadRoster),
       ((''message'', Some ''send''), MessageSend), ((''message'', Some ''acknowledge''), MessageAcknowledge),
       ((''database'', Some ''info''), DatabaseInfo), ((''database'', Some ''backup''), DatabaseBackup),
       ((''database'', Some ''integrity-check''), DatabaseIntegrityCheck)] (head, second))"

text \<open>The first two arguments that are Unicode, joined by a blank.\<close>

fun spaced :: "string list \<Rightarrow> string" where
  "spaced [] = []"
| "spaced [x] = x"
| "spaced (x # y # xs) = x @ '' '' @ spaced (y # xs)"

definition deferred_key :: "string list \<Rightarrow> string" where
  "deferred_key args = spaced (List.map_filter to_str (take 2 args))"

text \<open>The guards after the keyed ones: commands known by their first argument.\<close>

definition single_command :: "string list \<Rightarrow> CliCommand option" where
  "single_command args =
     (if arg 0 args = Some ''inbox'' \<and> valid_inbox_grammar args then Some Inbox
      else if arg 0 args = Some ''listen'' \<and> valid_listen_grammar args then Some Listen
      else if arg 0 args = Some ''transcript'' \<and> valid_transcript_grammar args then Some Transcript
      else if arg 0 args = Some ''status'' \<and> length args = 1 then Some Status
      else None)"

definition keyed_command :: "string list \<Rightarrow> CliCommand option" where
  "keyed_command args =
     (let key = deferred_key args; named = (nonempty (arg 2 args) \<noteq> None) in
      if key = ''profile list'' \<and> length args = 2 then Some ProfileList
      else if key = ''profile show'' \<and> (length args = 2 \<or> (length args = 3 \<and> named)) then Some ProfileShow
      else if key = ''squad archive'' \<and> length args = 3 \<and> named then Some SquadArchive
      else if key = ''squad join'' \<and> valid_join_grammar args then Some SquadJoin
      else if key = ''squad leave'' \<and> length args = 2 then Some SquadLeave
      else if key = ''squad roster'' \<and> length args = 2 then Some SquadRoster
      else if key = ''message acknowledge'' \<and> 3 \<le> length args \<and> length args \<le> 102
        \<and> list_all (\<lambda>v. nonempty (Some v) \<noteq> None) (drop 2 args) then Some MessageAcknowledge
      else if key = ''database info'' \<and> length args = 2 then Some DatabaseInfo
      else if key = ''database backup'' \<and> length args = 3 \<and> named then Some DatabaseBackup
      else if key = ''database integrity-check'' \<and> length args = 2 then Some DatabaseIntegrityCheck
      else single_command args)"

definition parse_deferred :: "string list \<Rightarrow> bool \<Rightarrow> (ParseError + ParsedCommand) option" where
  "parse_deferred args json =
     Option.bind (if deferred_key args = ''message send'' then valid_send_grammar args else Some False) (\<lambda>sends.
     Some (case (if sends then Some MessageSend else keyed_command args) of
         Some command \<Rightarrow> Inr (Deferred command args)
       | None \<Rightarrow> parse_error (deferred_identity args) json))"

text \<open>\<open>addr\<close> is \<open>str::parse::<SocketAddr>\<close>, with the text the address prints as.\<close>

fun relay_start_args ::
  "(string \<Rightarrow> string option) \<Rightarrow> bool \<Rightarrow> string list \<Rightarrow> string set \<Rightarrow> RelayStartArgs \<Rightarrow> ParseError + RelayStartArgs" where
  "relay_start_args addr json [] seen parsed = Inr parsed"
| "relay_start_args addr json (flag # rest) seen parsed =
     (if flag \<in> seen then parse_error (Some RelayStart) json
      else if flag = ''--bind'' then
        rbind (command_arg (arg 0 rest) json RelayStart) (\<lambda>v.
        rbind (ok_or \<lparr>pse_command = Some RelayStart, pse_json = json\<rparr> (addr v)) (\<lambda>a.
        relay_start_args addr json (drop 1 rest) (insert flag seen) (parsed\<lparr>rsa_bind := Some a\<rparr>)))
      else if flag = ''--data-dir'' then
        rbind (command_os_arg (arg 0 rest) json RelayStart) (\<lambda>v.
        relay_start_args addr json (drop 1 rest) (insert flag seen) (parsed\<lparr>rsa_data_dir := Some v\<rparr>))
      else if flag = ''--allow-lan'' then
        relay_start_args addr json rest (insert flag seen) (parsed\<lparr>rsa_allow_lan := True\<rparr>)
      else if flag = ''--log'' then
        rbind (command_arg (arg 0 rest) json RelayStart) (\<lambda>v.
        relay_start_args addr json (drop 1 rest) (insert flag seen) (parsed\<lparr>rsa_log_level := Some v\<rparr>))
      else parse_error (Some RelayStart) json)"

definition parse_relay_start :: "(string \<Rightarrow> string option) \<Rightarrow> string list \<Rightarrow> bool \<Rightarrow> ParseError + ParsedCommand" where
  "parse_relay_start addr args json =
     rbind (relay_start_args addr json args {} RelayStartArgs_default) (\<lambda>parsed. Inr (ParsedRelayStart parsed))"

definition parse_command :: "(string \<Rightarrow> string option) \<Rightarrow> string list \<Rightarrow> bool \<Rightarrow> (ParseError + ParsedCommand) option" where
  "parse_command addr args json =
     (case Option.bind (arg 0 args) to_str of
        None \<Rightarrow> Some (parse_error None json)
      | Some head \<Rightarrow>
          if head = ''health'' \<and> length args = 1 then Some (Inr ParsedHealth)
          else if head = ''relay'' \<and> arg 1 args = Some ''start'' then Some (parse_relay_start addr (drop 2 args) json)
          else if head = ''config'' \<and> arg 1 args = Some ''show'' \<and> arg 2 args = Some ''--effective'' \<and> length args = 3
            then Some (Inr ParsedConfigShowEffective)
          else if head = ''harness'' \<and> arg 1 args = Some ''status'' \<and> length args = 2 then Some (Inr ParsedHarnessStatus)
          else if head = ''squad'' \<and> arg 1 args = Some ''list'' \<and> length args = 2 then Some (Inr ParsedSquadList)
          else if head = ''squad'' \<and> arg 1 args = Some ''create'' then
            Some (if length args \<noteq> 5 \<or> arg 3 args \<noteq> Some ''--mission'' then parse_error (Some SquadCreate) json
              else rbind (command_arg (arg 2 args) json SquadCreate) (\<lambda>squad.
                rbind (command_arg (arg 4 args) json SquadCreate) (\<lambda>mission.
                Inr (ParsedSquadCreate squad mission))))
          else if head = ''squad'' \<and> arg 1 args = Some ''describe'' \<and> length args = 3 then
            Some (rbind (command_arg (arg 2 args) json SquadDescribe) (\<lambda>squad. Inr (ParsedSquadDescribe squad)))
          else parse_deferred args json)"

definition takes_value :: "string \<Rightarrow> bool" where
  "takes_value a \<longleftrightarrow> a = ''--relay'' \<or> a = ''--profile'' \<or> a = ''--config''"

text \<open>A value that is not Unicode or begins with a dash ends the search.\<close>

definition plain_value :: "string option \<Rightarrow> bool" where
  "plain_value v = (case Option.bind v to_str of None \<Rightarrow> False | Some s \<Rightarrow> take 1 s \<noteq> ''-'')"

fun leading_json_requested :: "string list \<Rightarrow> bool" where
  "leading_json_requested [] = False"
| "leading_json_requested (a # rest) =
     (a = ''--json'' \<or> (takes_value a \<and> plain_value (arg 0 rest) \<and> leading_json_requested (drop 1 rest)))"

text \<open>The loop over the global options: they are stripped, and the rest is the command.\<close>

fun global_options :: "string list \<Rightarrow> string set \<Rightarrow> GlobalOptions \<Rightarrow> ParseError + (GlobalOptions \<times> string list)" where
  "global_options [] seen g = Inr (g, [])"
| "global_options (a # rest) seen g =
     (if a = ''--json'' then
        (if a \<in> seen then parse_error None True else global_options rest (insert a seen) g)
      else if a = ''--relay'' then
        (if a \<in> seen then parse_error None (go_json g)
         else rbind (string_arg (arg 0 rest) (go_json g)) (\<lambda>v.
           global_options (drop 1 rest) (insert a seen) (g\<lparr>go_relay := Some v\<rparr>)))
      else if a = ''--profile'' then
        (if a \<in> seen then parse_error None (go_json g)
         else rbind (string_arg (arg 0 rest) (go_json g)) (\<lambda>v.
           global_options (drop 1 rest) (insert a seen) (g\<lparr>go_profile := Some v\<rparr>)))
      else if a = ''--config'' then
        (if a \<in> seen then parse_error None (go_json g)
         else rbind (os_arg (arg 0 rest) (go_json g)) (\<lambda>v.
           global_options (drop 1 rest) (insert a seen) (g\<lparr>go_config := Some v\<rparr>)))
      else Inr (g, a # rest))"

text \<open>\<open>parse\<close> as \<open>parse_arguments\<close>, on the arguments with the program's name first.\<close>

definition parse_arguments :: "(string \<Rightarrow> string option) \<Rightarrow> string list \<Rightarrow> (ParseError + cli_invocation) option" where
  "parse_arguments addr arguments =
     (let args = drop 1 arguments; json = leading_json_requested args in
      if args = [] \<or> args = [''--help''] \<or> args = [''-h''] then Some (Inr Help)
      else if args = [''--version''] \<or> args = [''-V''] then Some (Inr Version)
      else case global_options args {} (GlobalOptions_default\<lparr>go_json := json\<rparr>) of
        Inl e \<Rightarrow> Some (Inl e)
      | Inr (g, rest) \<Rightarrow>
          map_option (\<lambda>parsed. rbind parsed (\<lambda>command. Inr (Command g command))) (parse_command addr rest (go_json g)))"

end
