(* ===== verification/Sql_Db.thy ===== *)
theory Sql_Db
  imports Core_State "HOL-Library.List_Lexorder" "HOL-Library.Char_ord"
    "HOL-Library.Product_Lexorder"
begin

text \<open>
  The SQLite database of \<open>psst-store\<close>: one record per table of \<open>migrations/001_initial.sql\<close>, the
  \<open>CHECK\<close>, \<open>UNIQUE\<close> and \<open>FOREIGN KEY\<close> constraints of the schema and its indexes as executable
  predicates, \<open>INSERT\<close> and \<open>UPDATE\<close> as operations on the tables, and transactions. A table is
  the list of its rows in insertion order; a column is the value SQLite stores (text, blob or
  64-bit integer), so that reading a row back can fail to decode, as in the source.

  The engine itself is a parameter: each transaction takes the fault, if any, that SQLite
  reports when it begins or commits. A fault while a statement runs has the same effect as one
  at the start (an error and a rollback), so it is not listed apart. Constraint violations are
  not parameters: they follow from the schema.
\<close>

section \<open>Errors of the database layer\<close>

datatype sqlite_code = DatabaseBusy | DatabaseLocked | ConstraintViolation | OtherFailure

datatype rusqlite_error =
  InvalidQuery | QueryReturnedNoRows | InvalidColumnType | SqliteFailure sqlite_code

datatype RepositoryError =
    InvalidRequest | NotFound | SquadArchived | NotMember | NameInUse | LeaseExpired
  | RecipientNotFound | IdempotencyConflict | PayloadTooLarge | DatabaseBusy
  | Internal rusqlite_error | InvalidStoredData | EntropyUnavailable | InjectedFailure

fun repository_error_code :: "RepositoryError \<Rightarrow> ErrorCode" where
  "repository_error_code RepositoryError.InvalidRequest = ErrorCode.InvalidRequest"
| "repository_error_code RepositoryError.NotFound = ErrorCode.NotFound"
| "repository_error_code RepositoryError.SquadArchived = ErrorCode.SquadArchived"
| "repository_error_code RepositoryError.NotMember = ErrorCode.NotMember"
| "repository_error_code RepositoryError.NameInUse = ErrorCode.NameInUse"
| "repository_error_code RepositoryError.LeaseExpired = ErrorCode.LeaseExpired"
| "repository_error_code RepositoryError.RecipientNotFound = ErrorCode.RecipientNotFound"
| "repository_error_code RepositoryError.IdempotencyConflict = ErrorCode.IdempotencyConflict"
| "repository_error_code RepositoryError.PayloadTooLarge = ErrorCode.PayloadTooLarge"
| "repository_error_code RepositoryError.DatabaseBusy = ErrorCode.DatabaseBusy"
| "repository_error_code (RepositoryError.Internal _) = ErrorCode.InternalError"
| "repository_error_code RepositoryError.InvalidStoredData = ErrorCode.InternalError"
| "repository_error_code RepositoryError.EntropyUnavailable = ErrorCode.InternalError"
| "repository_error_code RepositoryError.InjectedFailure = ErrorCode.InternalError"

fun is_busy :: "rusqlite_error \<Rightarrow> bool" where
  "is_busy (SqliteFailure sqlite_code.DatabaseBusy) = True"
| "is_busy (SqliteFailure sqlite_code.DatabaseLocked) = True"
| "is_busy _ = False"

text \<open>\<open>impl From<rusqlite::Error> for RepositoryError\<close>\<close>

definition repository_error_from :: "rusqlite_error \<Rightarrow> RepositoryError" where
  "repository_error_from e =
     (if is_busy e then RepositoryError.DatabaseBusy else RepositoryError.Internal e)"

section \<open>Tables\<close>

record squad_row =
  sq_id :: string
  sq_name :: string
  sq_mission :: string
  sq_state :: string
  sq_created_at :: int
  sq_archived_at :: "int option"

record agent_row =
  ag_id :: string
  ag_created_at :: int

record membership_row =
  mb_id :: string
  mb_squad_id :: string
  mb_agent_id :: string
  mb_name :: string
  mb_normalized_name :: string
  mb_role :: string
  mb_joined_at :: int
  mb_left_at :: "int option"

record instance_row =
  in_id :: string
  in_membership_id :: string
  in_mode :: string
  in_client_kind :: string
  in_hostname :: "string option"
  in_resume_token_hash :: string
  in_availability :: string
  in_availability_source :: string
  in_availability_observed_at :: int
  in_lease_expires_at :: int
  in_last_seen_at :: int
  in_created_at :: int
  in_closed_at :: "int option"

record message_row =
  ms_sequence :: int
  ms_id :: string
  ms_squad_id :: string
  ms_sender_membership_id :: string
  ms_recipient_membership_id :: string
  ms_body :: string
  ms_body_hash :: string
  ms_priority :: string
  ms_reply_to :: "string option"
  ms_correlation_id :: "string option"
  ms_dedupe_key :: "string option"
  ms_created_at :: int
  ms_acknowledged_at :: "int option"

text \<open>\<open>db_sequence\<close> is the \<open>AUTOINCREMENT\<close> high-water mark of \<open>messages\<close>.\<close>

record db =
  db_squads :: "squad_row list"
  db_agents :: "agent_row list"
  db_memberships :: "membership_row list"
  db_instances :: "instance_row list"
  db_messages :: "message_row list"
  db_sequence :: int

definition empty_db :: db where
  "empty_db = \<lparr>db_squads = [], db_agents = [], db_memberships = [], db_instances = [],
     db_messages = [], db_sequence = 0\<rparr>"

section \<open>Constraints\<close>

text \<open>SQLite's \<open>length\<close> of a text value counts the characters before the first U+0000.\<close>

definition sqlite_text_length :: "string \<Rightarrow> nat" where
  "sqlite_text_length s = length (takeWhile (\<lambda>c. c \<noteq> 0) (utf8_chars s))"

definition squad_check :: "squad_row \<Rightarrow> bool" where
  "squad_check r \<longleftrightarrow>
     sqlite_text_length (sq_mission r) > 0
     \<and> sq_state r \<in> {''active'', ''archived''}
     \<and> ((sq_state r = ''active'' \<and> sq_archived_at r = None)
        \<or> (sq_state r = ''archived'' \<and> sq_archived_at r \<noteq> None))"

definition membership_check :: "membership_row \<Rightarrow> bool" where
  "membership_check r \<longleftrightarrow> sqlite_text_length (mb_role r) > 0"

definition instance_check :: "instance_row \<Rightarrow> bool" where
  "instance_check r \<longleftrightarrow>
     in_mode r \<in> {''cooperative'', ''scheduled'', ''harnessed''}
     \<and> sqlite_text_length (in_client_kind r) > 0
     \<and> length (in_resume_token_hash r) = 32
     \<and> in_availability r \<in> {''idle'', ''busy'', ''blocked'', ''unknown''}
     \<and> sqlite_text_length (in_availability_source r) > 0"

definition message_check :: "message_row \<Rightarrow> bool" where
  "message_check r \<longleftrightarrow>
     1 \<le> length (ms_body r) \<and> length (ms_body r) \<le> 65536
     \<and> length (ms_body_hash r) = 32
     \<and> ms_priority r \<in> {''normal'', ''high''}"

definition is_active_member :: "membership_row \<Rightarrow> bool" where
  "is_active_member r \<longleftrightarrow> mb_left_at r = None"

definition is_open :: "instance_row \<Rightarrow> bool" where
  "is_open r \<longleftrightarrow> in_closed_at r = None"

definition is_pending :: "message_row \<Rightarrow> bool" where
  "is_pending r \<longleftrightarrow> ms_acknowledged_at r = None"

text \<open>Referenced keys: \<open>memberships(id, squad_id)\<close> and \<open>messages(id, squad_id)\<close>.\<close>

definition has_membership :: "db \<Rightarrow> string \<Rightarrow> string \<Rightarrow> bool" where
  "has_membership s m sq \<longleftrightarrow>
     list_ex (\<lambda>r. mb_id r = m \<and> mb_squad_id r = sq) (db_memberships s)"

definition has_message :: "db \<Rightarrow> string \<Rightarrow> string \<Rightarrow> bool" where
  "has_message s m sq \<longleftrightarrow> list_ex (\<lambda>r. ms_id r = m \<and> ms_squad_id r = sq) (db_messages s)"

section \<open>Statements\<close>

text \<open>
  \<open>constraint_error\<close> is what SQLite reports for a violated \<open>CHECK\<close>, uniqueness or foreign key.
  SQLite evaluates \<open>CHECK\<close> first, then the uniqueness of the \<open>ON CONFLICT\<close> target, then the
  other uniqueness constraints, then foreign keys.
\<close>

definition constraint_error :: rusqlite_error where
  "constraint_error = SqliteFailure sqlite_code.ConstraintViolation"

definition insert_squad :: "squad_row \<Rightarrow> db \<Rightarrow> rusqlite_error + db" where
  "insert_squad r s =
     (if squad_check r
        \<and> \<not> list_ex (\<lambda>q. sq_id q = sq_id r \<or> sq_name q = sq_name r) (db_squads s)
      then Inr (s\<lparr>db_squads := db_squads s @ [r]\<rparr>)
      else Inl constraint_error)"

text \<open>\<open>INSERT INTO squads \<dots> ON CONFLICT(name) DO NOTHING\<close>: the number of rows changed.\<close>

definition insert_squad_or_ignore :: "squad_row \<Rightarrow> db \<Rightarrow> rusqlite_error + (nat \<times> db)" where
  "insert_squad_or_ignore r s =
     (if \<not> squad_check r then Inl constraint_error
      else if list_ex (\<lambda>q. sq_name q = sq_name r) (db_squads s) then Inr (0, s)
      else rbind (insert_squad r s) (\<lambda>s'. Inr (1, s')))"

definition insert_agent :: "agent_row \<Rightarrow> db \<Rightarrow> rusqlite_error + db" where
  "insert_agent r s =
     (if \<not> list_ex (\<lambda>q. ag_id q = ag_id r) (db_agents s)
      then Inr (s\<lparr>db_agents := db_agents s @ [r]\<rparr>)
      else Inl constraint_error)"

text \<open>
  \<open>INSERT INTO memberships \<dots> ON CONFLICT(squad_id, normalized_name) WHERE left_at IS NULL DO
  NOTHING\<close>, against the partial unique index \<open>memberships_active_name\<close>.
\<close>

definition insert_membership_or_ignore ::
  "membership_row \<Rightarrow> db \<Rightarrow> rusqlite_error + (nat \<times> db)" where
  "insert_membership_or_ignore r s =
     (if \<not> membership_check r then Inl constraint_error
      else if is_active_member r \<and> list_ex (\<lambda>q. is_active_member q \<and> mb_squad_id q = mb_squad_id r
             \<and> mb_normalized_name q = mb_normalized_name r) (db_memberships s)
      then Inr (0, s)
      else if list_ex (\<lambda>q. mb_id q = mb_id r) (db_memberships s)
        \<or> \<not> list_ex (\<lambda>q. sq_id q = mb_squad_id r) (db_squads s)
        \<or> \<not> list_ex (\<lambda>q. ag_id q = mb_agent_id r) (db_agents s)
      then Inl constraint_error
      else Inr (1, s\<lparr>db_memberships := db_memberships s @ [r]\<rparr>))"

text \<open>Against \<open>instances_unclosed_owner\<close>: at most one unclosed instance per membership.\<close>

definition insert_instance_row :: "instance_row \<Rightarrow> db \<Rightarrow> rusqlite_error + db" where
  "insert_instance_row r s =
     (if instance_check r
        \<and> \<not> list_ex (\<lambda>q. in_id q = in_id r) (db_instances s)
        \<and> \<not> (is_open r \<and> list_ex (\<lambda>q. is_open q \<and> in_membership_id q = in_membership_id r)
                (db_instances s))
        \<and> list_ex (\<lambda>q. mb_id q = in_membership_id r) (db_memberships s)
      then Inr (s\<lparr>db_instances := db_instances s @ [r]\<rparr>)
      else Inl constraint_error)"

text \<open>
  \<open>INSERT INTO messages\<close>: the row gets the next \<open>AUTOINCREMENT\<close> value, which is also
  \<open>last_insert_rowid()\<close>; the argument's own sequence is ignored. The unique index
  \<open>messages_dedupe\<close> is partial on rows with a dedupe key.
\<close>

definition same_dedupe :: "message_row \<Rightarrow> message_row \<Rightarrow> bool" where
  "same_dedupe r q \<longleftrightarrow>
     ms_dedupe_key r \<noteq> None \<and> ms_dedupe_key q = ms_dedupe_key r
     \<and> ms_squad_id q = ms_squad_id r
     \<and> ms_sender_membership_id q = ms_sender_membership_id r"

definition insert_message :: "message_row \<Rightarrow> db \<Rightarrow> rusqlite_error + (int \<times> db)" where
  "insert_message r s =
     (if i64_max \<le> db_sequence s then Inl (SqliteFailure OtherFailure)
      else if message_check r
        \<and> \<not> list_ex (\<lambda>q. ms_id q = ms_id r) (db_messages s)
        \<and> \<not> list_ex (same_dedupe r) (db_messages s)
        \<and> has_membership s (ms_sender_membership_id r) (ms_squad_id r)
        \<and> has_membership s (ms_recipient_membership_id r) (ms_squad_id r)
        \<and> (case ms_reply_to r of None \<Rightarrow> True | Some m \<Rightarrow> has_message s m (ms_squad_id r))
      then Inr (db_sequence s + 1,
             s\<lparr>db_messages := db_messages s @ [r\<lparr>ms_sequence := db_sequence s + 1\<rparr>],
               db_sequence := db_sequence s + 1\<rparr>)
      else Inl constraint_error)"

text \<open>\<open>UPDATE t SET \<dots> WHERE p\<close>\<close>

definition update_where :: "('r \<Rightarrow> bool) \<Rightarrow> ('r \<Rightarrow> 'r) \<Rightarrow> 'r list \<Rightarrow> 'r list" where
  "update_where p f rows = map (\<lambda>r. if p r then f r else r) rows"

definition changed_rows :: "('r \<Rightarrow> bool) \<Rightarrow> 'r list \<Rightarrow> nat" where
  "changed_rows p rows = length (filter p rows)"

text \<open>The rows of each \<open>UPDATE\<close> the store issues.\<close>

definition archive_row :: "int \<Rightarrow> squad_row \<Rightarrow> squad_row" where
  "archive_row t r = r\<lparr>sq_state := ''archived'', sq_archived_at := Some t\<rparr>"

definition leave_row :: "int \<Rightarrow> membership_row \<Rightarrow> membership_row" where
  "leave_row t r = r\<lparr>mb_left_at := Some t\<rparr>"

definition close_row :: "int \<Rightarrow> instance_row \<Rightarrow> instance_row" where
  "close_row t r = r\<lparr>in_closed_at := Some t\<rparr>"

definition renew_row :: "string \<Rightarrow> string \<Rightarrow> int \<Rightarrow> int \<Rightarrow> instance_row \<Rightarrow> instance_row" where
  "renew_row a src now expiry r =
     r\<lparr>in_availability := a, in_availability_source := src, in_availability_observed_at := now,
       in_lease_expires_at := expiry, in_last_seen_at := now\<rparr>"

definition ack_row :: "int \<Rightarrow> message_row \<Rightarrow> message_row" where
  "ack_row t r = r\<lparr>ms_acknowledged_at := Some t\<rparr>"

lemmas [row_defs] = archive_row_def leave_row_def close_row_def renew_row_def ack_row_def

definition archive_where :: "(squad_row \<Rightarrow> bool) \<Rightarrow> int \<Rightarrow> db \<Rightarrow> db" where
  "archive_where p t s = s\<lparr>db_squads := update_where p (archive_row t) (db_squads s)\<rparr>"

definition leave_where :: "(membership_row \<Rightarrow> bool) \<Rightarrow> int \<Rightarrow> db \<Rightarrow> db" where
  "leave_where p t s = s\<lparr>db_memberships := update_where p (leave_row t) (db_memberships s)\<rparr>"

definition close_where :: "(instance_row \<Rightarrow> bool) \<Rightarrow> int \<Rightarrow> db \<Rightarrow> db" where
  "close_where p t s = s\<lparr>db_instances := update_where p (close_row t) (db_instances s)\<rparr>"

definition renew_where ::
  "(instance_row \<Rightarrow> bool) \<Rightarrow> string \<Rightarrow> string \<Rightarrow> int \<Rightarrow> int \<Rightarrow> db \<Rightarrow> db" where
  "renew_where p a src now expiry s =
     s\<lparr>db_instances := update_where p (renew_row a src now expiry) (db_instances s)\<rparr>"

definition ack_where :: "(message_row \<Rightarrow> bool) \<Rightarrow> int \<Rightarrow> db \<Rightarrow> db" where
  "ack_where p t s = s\<lparr>db_messages := update_where p (ack_row t) (db_messages s)\<rparr>"

text \<open>\<open>xs JOIN ys ON f x = g y\<close>, in the order of \<open>xs\<close>.\<close>

definition join_rows :: "('a \<Rightarrow> 'k) \<Rightarrow> ('b \<Rightarrow> 'k) \<Rightarrow> 'a list \<Rightarrow> 'b list \<Rightarrow> ('a \<times> 'b) list" where
  "join_rows f g xs ys = concat (map (\<lambda>x. map (Pair x) (filter (\<lambda>y. g y = f x) ys)) xs)"

definition instance_members :: "db \<Rightarrow> (instance_row \<times> membership_row) list" where
  "instance_members s = join_rows in_membership_id mb_id (db_instances s) (db_memberships s)"

definition instance_member_squads :: "db \<Rightarrow> ((instance_row \<times> membership_row) \<times> squad_row) list" where
  "instance_member_squads s =
     join_rows (\<lambda>(i, m). mb_squad_id m) sq_id (instance_members s) (db_squads s)"

section \<open>Transactions\<close>

text \<open>
  \<open>transaction_with_behavior\<close> \<dots> \<open>commit\<close>. The body sees the database and returns its result
  with the database it would leave; an error, or a failed commit, drops the transaction, which
  rolls back.
\<close>

record engine =
  begin_fault :: "rusqlite_error option"
  commit_fault :: "rusqlite_error option"

definition healthy :: engine where
  "healthy = \<lparr>begin_fault = None, commit_fault = None\<rparr>"

definition transaction ::
  "engine \<Rightarrow> (db \<Rightarrow> RepositoryError + ('r \<times> db)) \<Rightarrow> db \<Rightarrow> (RepositoryError + 'r) \<times> db" where
  "transaction eng body s =
     (case begin_fault eng of
        Some e \<Rightarrow> (Inl (repository_error_from e), s)
      | None \<Rightarrow>
          (case body s of
             Inl e \<Rightarrow> (Inl e, s)
           | Inr (r, s') \<Rightarrow>
               (case commit_fault eng of
                  Some e \<Rightarrow> (Inl (repository_error_from e), s)
                | None \<Rightarrow> (Inr r, s'))))"

text \<open>A statement inside a transaction: its error converts with \<open>?\<close>.\<close>

abbreviation sql :: "rusqlite_error + 'a \<Rightarrow> RepositoryError + 'a" where
  "sql m \<equiv> map_err repository_error_from m"

lemma transaction_error_rolls_back:
  "transaction eng body s = (Inl e, s') \<Longrightarrow> s' = s"
  by (auto simp: transaction_def split: option.splits sum.splits)

lemma transaction_Inr:
  "transaction eng body s = (Inr r, s') \<longleftrightarrow>
     begin_fault eng = None \<and> commit_fault eng = None \<and> body s = Inr (r, s')"
  by (auto simp: transaction_def split: option.splits sum.splits)

lemma transaction_healthy:
  "transaction healthy body s =
     (case body s of Inl e \<Rightarrow> (Inl e, s) | Inr (r, s') \<Rightarrow> (Inr r, s'))"
  by (auto simp: transaction_def healthy_def split: sum.splits)

lemma transaction_preserves:
  assumes "P s" and "\<And>r s'. body s = Inr (r, s') \<Longrightarrow> P s'"
  shows "P (snd (transaction eng body s))"
  using assms by (auto simp: transaction_def split: option.splits sum.splits)

lemmas [eval_simps] = squad_check_def membership_check_def instance_check_def message_check_def
  sqlite_text_length_def is_active_member_def is_open_def is_pending_def has_membership_def
  has_message_def empty_db_def insert_squad_def insert_squad_or_ignore_def insert_agent_def
  insert_membership_or_ignore_def insert_instance_row_def insert_message_def same_dedupe_def
  join_rows_def instance_members_def instance_member_squads_def
  update_where_def changed_rows_def archive_where_def leave_where_def close_where_def
  renew_where_def ack_where_def row_defs transaction_def healthy_def

section \<open>Keyed rows\<close>

text \<open>
  The contract of an \<open>UPDATE\<close> that leaves a key column alone: the keys of the table stay the
  same list, so uniqueness and references through that key survive, and a row looked up by its
  key is the updated row.
\<close>

locale keyed_update =
  fixes key :: "'r \<Rightarrow> 'k"
    and upd :: "'r \<Rightarrow> 'r"
  assumes keeps_key: "key (upd r) = key r"
begin

lemma keys_update [simp]: "map key (update_where p upd rows) = map key rows"
  by (simp add: update_where_def keeps_key)

lemma key_set_update [simp]: "key ` set (update_where p upd rows) = key ` set rows"
  by (metis keys_update list.set_map)

lemma list_ex_update [simp]:
  "list_ex (\<lambda>r. key r = k) (update_where p upd rows) \<longleftrightarrow> list_ex (\<lambda>r. key r = k) rows"
  by (induction rows) (auto simp: update_where_def keeps_key)

lemma find_update:
  "List.find (\<lambda>r. key r = k) (update_where p upd rows) =
     map_option (\<lambda>r. if p r then upd r else r) (List.find (\<lambda>r. key r = k) rows)"
  by (induction rows) (auto simp: update_where_def keeps_key)

end

interpretation archive_id: keyed_update sq_id "archive_row t" for t
  by unfold_locales (simp add: row_defs)

interpretation archive_name: keyed_update sq_name "archive_row t" for t
  by unfold_locales (simp add: row_defs)

interpretation leave_id: keyed_update mb_id "leave_row t" for t
  by unfold_locales (simp add: row_defs)

interpretation leave_keys: keyed_update "\<lambda>r. (mb_id r, mb_squad_id r)" "leave_row t" for t
  by unfold_locales (simp add: row_defs)

interpretation close_id: keyed_update in_id "close_row t" for t
  by unfold_locales (simp add: row_defs)

interpretation renew_id: keyed_update in_id "renew_row a src now expiry" for a src now expiry
  by unfold_locales (simp add: row_defs)

interpretation ack_id: keyed_update ms_id "ack_row t" for t
  by unfold_locales (simp add: row_defs)

interpretation ack_keys: keyed_update "\<lambda>r. (ms_id r, ms_squad_id r)" "ack_row t" for t
  by unfold_locales (simp add: row_defs)

interpretation ack_sequence: keyed_update ms_sequence "ack_row t" for t
  by unfold_locales (simp add: row_defs)

lemma set_update_where:
  "set (update_where p f rows) = {if p r then f r else r | r. r \<in> set rows}"
  by (auto simp: update_where_def)

lemma in_update_where:
  "r \<in> set (update_where p f rows) \<Longrightarrow> (\<exists>q \<in> set rows. r = (if p q then f q else q))"
  by (auto simp: update_where_def)

lemma ball_update_where:
  "(\<forall>r \<in> set (update_where p f rows). P r) \<longleftrightarrow>
     (\<forall>r \<in> set rows. (p r \<longrightarrow> P (f r)) \<and> (\<not> p r \<longrightarrow> P r))"
  by (auto simp: update_where_def)

lemma update_where_none: "(\<And>r. r \<in> set rows \<Longrightarrow> \<not> p r) \<Longrightarrow> update_where p f rows = rows"
  by (induction rows) (auto simp: update_where_def)

lemma changed_rows_zero: "changed_rows p rows = 0 \<longleftrightarrow> (\<forall>r \<in> set rows. \<not> p r)"
  by (simp add: changed_rows_def filter_empty_conv)

lemma changed_rows_unique:
  assumes "distinct (map key rows)" and "r \<in> set rows" and "p r"
    and "\<And>q. q \<in> set rows \<Longrightarrow> p q \<Longrightarrow> key q = key r"
  shows "changed_rows p rows = 1"
proof -
  have "set (filter p rows) = {r}"
    using assms by (auto simp: distinct_map inj_on_def)
  moreover have "distinct (filter p rows)"
    using assms(1) by (simp add: distinct_map)
  ultimately show ?thesis
    by (metis changed_rows_def distinct_card card.empty card_insert_disjoint empty_iff
        finite.emptyI One_nat_def)
qed

text \<open>A lookup by a unique key.\<close>

lemma find_unique:
  assumes "distinct (map key rows)"
  shows "List.find (\<lambda>r. key r = k) rows = Some r \<longleftrightarrow> r \<in> set rows \<and> key r = k"
proof
  assume "List.find (\<lambda>r. key r = k) rows = Some r"
  then show "r \<in> set rows \<and> key r = k"
    by (auto simp: find_Some_iff)
next
  assume r: "r \<in> set rows \<and> key r = k"
  then obtain q where q: "List.find (\<lambda>r. key r = k) rows = Some q"
    by (cases "List.find (\<lambda>r. key r = k) rows") (auto simp: find_None_iff)
  then have "q \<in> set rows" "key q = k" by (auto simp: find_Some_iff)
  with r assms have "q = r" by (auto simp: distinct_map inj_on_def)
  with q show "List.find (\<lambda>r. key r = k) rows = Some r" by simp
qed

lemma find_unique_if:
  assumes "\<And>x y. x \<in> set rows \<Longrightarrow> p x \<Longrightarrow> y \<in> set rows \<Longrightarrow> p y \<Longrightarrow> x = y"
  shows "List.find p rows = Some r \<longleftrightarrow> r \<in> set rows \<and> p r"
proof
  assume "List.find p rows = Some r"
  then show "r \<in> set rows \<and> p r" by (auto simp: find_Some_iff)
next
  assume r: "r \<in> set rows \<and> p r"
  then obtain q where q: "List.find p rows = Some q"
    by (cases "List.find p rows") (auto simp: find_None_iff)
  then have "q \<in> set rows" "p q" by (auto simp: find_Some_iff)
  with r assms have "q = r" by blast
  with q show "List.find p rows = Some r" by simp
qed

lemma set_join_rows: "set (join_rows f g xs ys) = {(x, y). x \<in> set xs \<and> y \<in> set ys \<and> g y = f x}"
  by (auto simp: join_rows_def)

lemma distinct_map_unique:
  "distinct (map key rows) \<Longrightarrow> r \<in> set rows \<Longrightarrow> q \<in> set rows \<Longrightarrow> key r = key q \<Longrightarrow> r = q"
  by (auto simp: distinct_map inj_on_def)

lemma find_SomeD: "List.find p rows = Some r \<Longrightarrow> r \<in> set rows \<and> p r"
  by (auto simp: find_Some_iff)

lemma find_NoneD: "List.find p rows = None \<Longrightarrow> r \<in> set rows \<Longrightarrow> \<not> p r"
  by (auto simp: find_None_iff)

lemma find_append_none: "\<not> p r \<Longrightarrow> List.find p (rows @ [r]) = List.find p rows"
  by (induction rows) auto

lemma filter_update_other:
  "(\<And>r. p r \<Longrightarrow> \<not> q r \<and> \<not> q (f r)) \<Longrightarrow> filter q (update_where p f rows) = filter q rows"
  by (induction rows) (auto simp: update_where_def)

lemma filter_update_other_on:
  "(\<And>r. r \<in> set rows \<Longrightarrow> p r \<Longrightarrow> \<not> q r \<and> \<not> q (f r)) \<Longrightarrow>
     filter q (update_where p f rows) = filter q rows"
  by (induction rows) (auto simp: update_where_def)

lemma list_ex_key: "list_ex (\<lambda>r. key r = k) rows \<longleftrightarrow> k \<in> key ` set rows"
  by (auto simp: list_ex_iff image_iff)

lemma list_ex_set: "list_ex p rows \<longleftrightarrow> (\<exists>r \<in> set rows. p r)"
  by (simp add: list_ex_iff)

end
