(* ===== verification/Db_Invariant.thy ===== *)
theory Db_Invariant
  imports Sql_Db
begin

text \<open>
  What a well-formed store holds: every column decodes, every constraint of the schema holds,
  references resolve, at most one unclosed instance per membership and only for members who
  have not left, and messages in strictly increasing sequence with the digest of their body.
  Each statement of \<open>Sql_Db\<close> is shown to keep it, so that the operations of the store only have
  to combine these facts. \<open>H\<close> stands for SHA-256.
\<close>

section \<open>Well-formed rows\<close>

definition stored_time :: "int \<Rightarrow> bool" where
  "stored_time t \<longleftrightarrow> 0 \<le> t \<and> t \<le> i64_max"

definition squad_row_ok :: "squad_row \<Rightarrow> bool" where
  "squad_row_ok r \<longleftrightarrow>
     is_ok (SquadId_new (sq_id r)) \<and> is_ok (SquadName_new (sq_name r))
     \<and> is_ok (Mission_new (sq_mission r)) \<and> squad_check r
     \<and> stored_time (sq_created_at r)
     \<and> (case sq_archived_at r of None \<Rightarrow> True | Some t \<Rightarrow> stored_time t)"

definition agent_row_ok :: "agent_row \<Rightarrow> bool" where
  "agent_row_ok r \<longleftrightarrow> is_ok (AgentId_new (ag_id r)) \<and> stored_time (ag_created_at r)"

definition membership_row_ok :: "membership_row \<Rightarrow> bool" where
  "membership_row_ok r \<longleftrightarrow>
     is_ok (MembershipId_new (mb_id r)) \<and> is_ok (SquadId_new (mb_squad_id r))
     \<and> is_ok (AgentId_new (mb_agent_id r)) \<and> is_ok (MemberName_new (mb_name r))
     \<and> mb_normalized_name r = mb_name r \<and> is_ok (Role_new (mb_role r)) \<and> membership_check r
     \<and> stored_time (mb_joined_at r)
     \<and> (case mb_left_at r of None \<Rightarrow> True | Some t \<Rightarrow> stored_time t)"

definition source_names :: "string set" where
  "source_names = {''session_lifecycle'', ''mcp_connection'', ''tool_activity'',
     ''agent_reported'', ''unknown''}"

definition instance_row_ok :: "instance_row \<Rightarrow> bool" where
  "instance_row_ok r \<longleftrightarrow>
     is_ok (InstanceId_new (in_id r)) \<and> is_ok (MembershipId_new (in_membership_id r))
     \<and> instance_check r \<and> in_availability_source r \<in> source_names
     \<and> (in_availability r = ''unknown'' \<longleftrightarrow> in_availability_source r = ''unknown'')
     \<and> 0 \<le> in_created_at r \<and> in_created_at r \<le> in_last_seen_at r
     \<and> in_last_seen_at r \<le> in_lease_expires_at r \<and> in_lease_expires_at r \<le> i64_max
     \<and> in_availability_observed_at r = in_last_seen_at r
     \<and> (case in_closed_at r of None \<Rightarrow> True | Some t \<Rightarrow> stored_time t)"

definition message_row_ok :: "(string \<Rightarrow> string) \<Rightarrow> message_row \<Rightarrow> bool" where
  "message_row_ok H r \<longleftrightarrow>
     is_ok (MessageId_new (ms_id r)) \<and> is_ok (SquadId_new (ms_squad_id r))
     \<and> is_ok (MembershipId_new (ms_sender_membership_id r))
     \<and> is_ok (MembershipId_new (ms_recipient_membership_id r))
     \<and> is_ok (MessageBody_new (ms_body r)) \<and> ms_body_hash r = H (ms_body r) \<and> message_check r
     \<and> (case ms_reply_to r of None \<Rightarrow> True | Some m \<Rightarrow> is_ok (MessageId_new m))
     \<and> (case ms_correlation_id r of None \<Rightarrow> True | Some c \<Rightarrow> is_ok (CorrelationId_new c))
     \<and> (case ms_dedupe_key r of None \<Rightarrow> False | Some k \<Rightarrow> is_ok (DedupeKey_new k))
     \<and> stored_time (ms_created_at r)
     \<and> (case ms_acknowledged_at r of None \<Rightarrow> True | Some t \<Rightarrow> stored_time t)"

section \<open>Well-formed tables\<close>

definition squads_ok :: "db \<Rightarrow> bool" where
  "squads_ok s \<longleftrightarrow>
     (\<forall>r \<in> set (db_squads s). squad_row_ok r)
     \<and> distinct (map sq_id (db_squads s)) \<and> distinct (map sq_name (db_squads s))"

definition agents_ok :: "db \<Rightarrow> bool" where
  "agents_ok s \<longleftrightarrow>
     (\<forall>r \<in> set (db_agents s). agent_row_ok r) \<and> distinct (map ag_id (db_agents s))"

definition membership_key :: "membership_row \<Rightarrow> string \<times> string" where
  "membership_key r = (mb_id r, mb_squad_id r)"

definition routing_key :: "membership_row \<Rightarrow> string \<times> string" where
  "routing_key r = (mb_squad_id r, mb_normalized_name r)"

definition memberships_ok :: "db \<Rightarrow> bool" where
  "memberships_ok s \<longleftrightarrow>
     (\<forall>r \<in> set (db_memberships s). membership_row_ok r
        \<and> mb_squad_id r \<in> sq_id ` set (db_squads s)
        \<and> mb_agent_id r \<in> ag_id ` set (db_agents s))
     \<and> distinct (map mb_id (db_memberships s))
     \<and> distinct (map routing_key (filter is_active_member (db_memberships s)))"

definition active_members :: "db \<Rightarrow> string set" where
  "active_members s = mb_id ` {r \<in> set (db_memberships s). is_active_member r}"

definition instances_ok :: "db \<Rightarrow> bool" where
  "instances_ok s \<longleftrightarrow>
     (\<forall>r \<in> set (db_instances s). instance_row_ok r
        \<and> in_membership_id r \<in> mb_id ` set (db_memberships s)
        \<and> (is_open r \<longrightarrow> in_membership_id r \<in> active_members s))
     \<and> distinct (map in_id (db_instances s))
     \<and> distinct (map in_membership_id (filter is_open (db_instances s)))"

definition message_key :: "message_row \<Rightarrow> string \<times> string" where
  "message_key r = (ms_id r, ms_squad_id r)"

definition messages_ok :: "(string \<Rightarrow> string) \<Rightarrow> db \<Rightarrow> bool" where
  "messages_ok H s \<longleftrightarrow>
     (\<forall>r \<in> set (db_messages s). message_row_ok H r
        \<and> (ms_sender_membership_id r, ms_squad_id r) \<in> membership_key ` set (db_memberships s)
        \<and> (ms_recipient_membership_id r, ms_squad_id r) \<in> membership_key ` set (db_memberships s)
        \<and> (\<forall>m. ms_reply_to r = Some m \<longrightarrow> (m, ms_squad_id r) \<in> message_key ` set (db_messages s))
        \<and> 1 \<le> ms_sequence r \<and> ms_sequence r \<le> db_sequence s)
     \<and> distinct (map ms_id (db_messages s))
     \<and> sorted_wrt (<) (map ms_sequence (db_messages s))
     \<and> (\<forall>r \<in> set (db_messages s). \<forall>q \<in> set (db_messages s). same_dedupe r q \<longrightarrow> ms_id q = ms_id r)
     \<and> 0 \<le> db_sequence s \<and> db_sequence s \<le> i64_max"

definition db_ok :: "(string \<Rightarrow> string) \<Rightarrow> db \<Rightarrow> bool" where
  "db_ok H s \<longleftrightarrow>
     squads_ok s \<and> agents_ok s \<and> memberships_ok s \<and> instances_ok s \<and> messages_ok H s"

lemma empty_db_ok [simp]: "db_ok H empty_db"
  by (simp add: db_ok_def squads_ok_def agents_ok_def memberships_ok_def instances_ok_def
      messages_ok_def empty_db_def)

lemma db_okD:
  assumes "db_ok H s"
  shows "squads_ok s" and "agents_ok s" and "memberships_ok s" and "instances_ok s"
    and "messages_ok H s"
  using assms by (simp_all add: db_ok_def)

lemma has_membership_key:
  "has_membership s m sq \<longleftrightarrow> (m, sq) \<in> membership_key ` set (db_memberships s)"
  by (auto simp: has_membership_def membership_key_def list_ex_iff)

lemma has_message_key: "has_message s m sq \<longleftrightarrow> (m, sq) \<in> message_key ` set (db_messages s)"
  by (auto simp: has_message_def message_key_def list_ex_iff)

interpretation leave_membership_key: keyed_update membership_key "leave_row t" for t
  by unfold_locales (simp add: row_defs membership_key_def)

interpretation ack_message_key: keyed_update message_key "ack_row t" for t
  by unfold_locales (simp add: row_defs message_key_def)

section \<open>Lookups in a well-formed store\<close>

lemma squad_by_id_unique:
  "squads_ok s \<Longrightarrow> List.find (\<lambda>r. sq_id r = k) (db_squads s) = Some r \<longleftrightarrow>
     r \<in> set (db_squads s) \<and> sq_id r = k"
  by (rule find_unique) (simp add: squads_ok_def)

lemma squad_by_name_unique:
  "squads_ok s \<Longrightarrow> List.find (\<lambda>r. sq_name r = k) (db_squads s) = Some r \<longleftrightarrow>
     r \<in> set (db_squads s) \<and> sq_name r = k"
  by (rule find_unique) (simp add: squads_ok_def)

lemma membership_by_id_unique:
  "memberships_ok s \<Longrightarrow> List.find (\<lambda>r. mb_id r = k) (db_memberships s) = Some r \<longleftrightarrow>
     r \<in> set (db_memberships s) \<and> mb_id r = k"
  by (rule find_unique) (simp add: memberships_ok_def)

lemma instance_by_id_unique:
  "instances_ok s \<Longrightarrow> List.find (\<lambda>r. in_id r = k) (db_instances s) = Some r \<longleftrightarrow>
     r \<in> set (db_instances s) \<and> in_id r = k"
  by (rule find_unique) (simp add: instances_ok_def)

lemma message_by_id_unique:
  "messages_ok H s \<Longrightarrow> List.find (\<lambda>r. ms_id r = k) (db_messages s) = Some r \<longleftrightarrow>
     r \<in> set (db_messages s) \<and> ms_id r = k"
  by (rule find_unique) (simp add: messages_ok_def)

lemma open_instance_unique:
  assumes "instances_ok s" and "r \<in> set (db_instances s)" and "q \<in> set (db_instances s)"
    and "is_open r" and "is_open q" and "in_membership_id r = in_membership_id q"
  shows "r = q"
  using assms by (auto simp: instances_ok_def distinct_map inj_on_def)

lemma active_name_unique:
  assumes "memberships_ok s" and "r \<in> set (db_memberships s)" and "q \<in> set (db_memberships s)"
    and "is_active_member r" and "is_active_member q" and "routing_key r = routing_key q"
  shows "r = q"
  using assms by (auto simp: memberships_ok_def distinct_map inj_on_def)

lemma instance_members_find:
  assumes "db_ok H s"
  shows "List.find (\<lambda>(i, m). in_id i = k \<and> p i m) (instance_members s) = Some (i, m) \<longleftrightarrow>
    i \<in> set (db_instances s) \<and> in_id i = k \<and> m \<in> set (db_memberships s)
    \<and> mb_id m = in_membership_id i \<and> p i m"
proof -
  have "distinct (map in_id (db_instances s))" "distinct (map mb_id (db_memberships s))"
    using assms by (auto simp: db_ok_def instances_ok_def memberships_ok_def)
  note rows = distinct_map_unique [OF this(1)] distinct_map_unique [OF this(2)]
  have unique: "x = y" if xy: "x \<in> set (instance_members s)" "y \<in> set (instance_members s)"
      "in_id (fst x) = in_id (fst y)" for x y
  proof (rule prod_eqI)
    show inst: "fst x = fst y"
      using xy by (intro rows(1)) (auto simp: instance_members_def set_join_rows)
    then show "snd x = snd y"
      using xy by (intro rows(2)) (auto simp: instance_members_def set_join_rows)
  qed
  have "List.find (\<lambda>(i, m). in_id i = k \<and> p i m) (instance_members s) = Some (i, m) \<longleftrightarrow>
      (i, m) \<in> set (instance_members s) \<and> (\<lambda>(i, m). in_id i = k \<and> p i m) (i, m)"
    by (rule find_unique_if, rule unique) (auto split: prod.splits)
  then show ?thesis by (auto simp: instance_members_def set_join_rows)
qed

lemma instance_member_squads_find:
  assumes "db_ok H s"
  shows "List.find (\<lambda>((i, m), q). in_id i = k \<and> p i m q) (instance_member_squads s) = Some ((i, m), q) \<longleftrightarrow>
    i \<in> set (db_instances s) \<and> in_id i = k \<and> m \<in> set (db_memberships s)
    \<and> mb_id m = in_membership_id i \<and> q \<in> set (db_squads s) \<and> sq_id q = mb_squad_id m \<and> p i m q"
proof -
  have "distinct (map in_id (db_instances s))" "distinct (map mb_id (db_memberships s))"
      "distinct (map sq_id (db_squads s))"
    using assms by (auto simp: db_ok_def instances_ok_def memberships_ok_def squads_ok_def)
  note rows = distinct_map_unique [OF this(1)] distinct_map_unique [OF this(2)]
    distinct_map_unique [OF this(3)]
  have unique: "x = y"
    if xy: "x \<in> set (instance_member_squads s)" "y \<in> set (instance_member_squads s)"
      "in_id (fst (fst x)) = in_id (fst (fst y))" for x y
  proof (rule prod_eqI, rule prod_eqI)
    show inst: "fst (fst x) = fst (fst y)"
      using xy by (intro rows(1))
        (auto simp: instance_member_squads_def instance_members_def set_join_rows)
    then show mem: "snd (fst x) = snd (fst y)"
      using xy by (intro rows(2))
        (auto simp: instance_member_squads_def instance_members_def set_join_rows)
    then show "snd x = snd y"
      using xy by (intro rows(3))
        (auto simp: instance_member_squads_def instance_members_def set_join_rows)
  qed
  have "List.find (\<lambda>((i, m), q). in_id i = k \<and> p i m q) (instance_member_squads s) = Some ((i, m), q) \<longleftrightarrow>
      ((i, m), q) \<in> set (instance_member_squads s)
      \<and> (\<lambda>((i, m), q). in_id i = k \<and> p i m q) ((i, m), q)"
    by (rule find_unique_if, rule unique) (auto split: prod.splits)
  then show ?thesis by (auto simp: instance_member_squads_def instance_members_def set_join_rows)
qed

text \<open>References resolve: an instance has its membership and a membership its squad.\<close>

lemma instance_resolves:
  assumes "db_ok H s" and "i \<in> set (db_instances s)"
  obtains m q where "m \<in> set (db_memberships s)" "mb_id m = in_membership_id i"
    "q \<in> set (db_squads s)" "sq_id q = mb_squad_id m"
proof -
  from assms obtain m where m: "m \<in> set (db_memberships s)" "mb_id m = in_membership_id i"
    by (auto simp: db_ok_def instances_ok_def)
  with assms(1) obtain q where "q \<in> set (db_squads s)" "sq_id q = mb_squad_id m"
    by (auto simp: db_ok_def memberships_ok_def)
  with m that show thesis by blast
qed

section \<open>Every statement keeps the store well-formed\<close>

lemma insert_squad_ok:
  assumes "db_ok H s" and "insert_squad r s = Inr s'" and "squad_row_ok r"
  shows "db_ok H s'"
proof -
  have s': "s' = s\<lparr>db_squads := db_squads s @ [r]\<rparr>"
    and fresh: "\<forall>q \<in> set (db_squads s). sq_id q \<noteq> sq_id r \<and> sq_name q \<noteq> sq_name r"
    using assms(2) by (auto simp: insert_squad_def list_ex_iff split: if_splits)
  have "squads_ok s'"
    using assms(1,3) fresh by (auto simp: s' db_ok_def squads_ok_def)
  moreover have "memberships_ok s'"
    using assms(1) by (auto simp: s' db_ok_def memberships_ok_def)
  moreover have "agents_ok s'" "instances_ok s'" "messages_ok H s'"
    using assms(1)
    by (simp_all add: s' db_ok_def agents_ok_def instances_ok_def messages_ok_def
        active_members_def)
  ultimately show ?thesis by (simp add: db_ok_def)
qed

lemma insert_agent_ok:
  assumes "db_ok H s" and "insert_agent r s = Inr s'" and "agent_row_ok r"
  shows "db_ok H s'"
proof -
  have s': "s' = s\<lparr>db_agents := db_agents s @ [r]\<rparr>"
    and fresh: "\<forall>q \<in> set (db_agents s). ag_id q \<noteq> ag_id r"
    using assms(2) by (auto simp: insert_agent_def list_ex_iff split: if_splits)
  have "agents_ok s'"
    using assms(1,3) fresh by (auto simp: s' db_ok_def agents_ok_def)
  moreover have "memberships_ok s'"
    using assms(1) by (auto simp: s' db_ok_def memberships_ok_def)
  moreover have "squads_ok s'" "instances_ok s'" "messages_ok H s'"
    using assms(1)
    by (simp_all add: s' db_ok_def squads_ok_def instances_ok_def messages_ok_def
        active_members_def)
  ultimately show ?thesis by (simp add: db_ok_def)
qed

lemma insert_membership_ok:
  assumes "db_ok H s" and "insert_membership_or_ignore r s = Inr (n, s')"
    and "membership_row_ok r"
  shows "db_ok H s'"
proof (cases "n = 0")
  case True
  then have "s' = s"
    using assms(2) by (auto simp: insert_membership_or_ignore_def split: if_splits)
  with assms(1) show ?thesis by simp
next
  case False
  then have s': "s' = s\<lparr>db_memberships := db_memberships s @ [r]\<rparr>"
    and fresh: "\<forall>q \<in> set (db_memberships s). mb_id q \<noteq> mb_id r"
    and name: "is_active_member r \<Longrightarrow>
      \<forall>q \<in> set (db_memberships s). is_active_member q \<longrightarrow> routing_key q \<noteq> routing_key r"
    using assms(2)
    by (auto simp: insert_membership_or_ignore_def list_ex_iff routing_key_def split: if_splits)
  from False have fk: "mb_squad_id r \<in> sq_id ` set (db_squads s)"
      "mb_agent_id r \<in> ag_id ` set (db_agents s)"
    using assms(2) by (auto simp: insert_membership_or_ignore_def list_ex_key split: if_splits)
  have "memberships_ok s'"
    using assms(1,3) fresh name fk by (auto simp: s' db_ok_def memberships_ok_def)
  moreover have "instances_ok s'"
    using assms(1) by (auto simp: s' db_ok_def instances_ok_def active_members_def)
  moreover have "messages_ok H s'"
    using assms(1) by (auto simp: s' db_ok_def messages_ok_def)
  moreover have "squads_ok s'" "agents_ok s'"
    using assms(1) by (simp_all add: s' db_ok_def squads_ok_def agents_ok_def)
  ultimately show ?thesis by (simp add: db_ok_def)
qed

lemma insert_instance_row_ok:
  assumes "db_ok H s" and "insert_instance_row r s = Inr s'" and "instance_row_ok r"
    and "is_open r \<Longrightarrow> in_membership_id r \<in> active_members s"
  shows "db_ok H s'"
proof -
  have s': "s' = s\<lparr>db_instances := db_instances s @ [r]\<rparr>"
    and fresh: "\<forall>q \<in> set (db_instances s). in_id q \<noteq> in_id r"
    and owner: "is_open r \<Longrightarrow>
      \<forall>q \<in> set (db_instances s). is_open q \<longrightarrow> in_membership_id q \<noteq> in_membership_id r"
    using assms(2) by (auto simp: insert_instance_row_def list_ex_iff split: if_splits)
  have fk: "in_membership_id r \<in> mb_id ` set (db_memberships s)"
    using assms(2) by (auto simp: insert_instance_row_def list_ex_key split: if_splits)
  have "instances_ok s'"
    using assms(1,3,4) fresh owner fk
    by (auto simp: s' db_ok_def instances_ok_def active_members_def)
  moreover have "squads_ok s'" "agents_ok s'" "memberships_ok s'" "messages_ok H s'"
    using assms(1)
    by (simp_all add: s' db_ok_def squads_ok_def agents_ok_def memberships_ok_def messages_ok_def)
  ultimately show ?thesis by (simp add: db_ok_def)
qed

lemma message_row_ok_sequence [simp]:
  "message_row_ok H (r\<lparr>ms_sequence := n\<rparr>) = message_row_ok H r"
  by (simp add: message_row_ok_def message_check_def)

lemma same_dedupe_sequence [simp]:
  "same_dedupe (r\<lparr>ms_sequence := n\<rparr>) q = same_dedupe r q"
  "same_dedupe q (r\<lparr>ms_sequence := n\<rparr>) = same_dedupe q r"
  by (simp_all add: same_dedupe_def)

lemma same_dedupe_sym: "same_dedupe r q \<Longrightarrow> same_dedupe q r"
  by (auto simp: same_dedupe_def)

lemma insert_message_Inr:
  "insert_message r s = Inr (n, s') \<longleftrightarrow>
     db_sequence s < i64_max \<and> message_check r
     \<and> (\<forall>q \<in> set (db_messages s). ms_id q \<noteq> ms_id r \<and> \<not> same_dedupe r q)
     \<and> has_membership s (ms_sender_membership_id r) (ms_squad_id r)
     \<and> has_membership s (ms_recipient_membership_id r) (ms_squad_id r)
     \<and> (\<forall>m. ms_reply_to r = Some m \<longrightarrow> has_message s m (ms_squad_id r))
     \<and> n = db_sequence s + 1
     \<and> s' = s\<lparr>db_messages := db_messages s @ [r\<lparr>ms_sequence := n\<rparr>], db_sequence := n\<rparr>"
  by (auto simp: insert_message_def list_ex_iff split: if_splits option.splits)

lemma insert_message_ok:
  assumes "db_ok H s" and "insert_message r s = Inr (n, s')" and "message_row_ok H r"
  shows "db_ok H s'"
proof -
  let ?r = "r\<lparr>ms_sequence := n\<rparr>"
  from assms(2) have ins: "db_sequence s < i64_max"
      "\<forall>q \<in> set (db_messages s). ms_id q \<noteq> ms_id r \<and> \<not> same_dedupe r q"
      "(ms_sender_membership_id r, ms_squad_id r) \<in> membership_key ` set (db_memberships s)"
      "(ms_recipient_membership_id r, ms_squad_id r) \<in> membership_key ` set (db_memberships s)"
      "\<forall>m. ms_reply_to r = Some m \<longrightarrow> (m, ms_squad_id r) \<in> message_key ` set (db_messages s)"
    and n: "n = db_sequence s + 1"
    and s': "s' = s\<lparr>db_messages := db_messages s @ [?r], db_sequence := n\<rparr>"
    by (auto simp: insert_message_Inr has_membership_key has_message_key)
  from assms(1) have old: "messages_ok H s" by (simp add: db_ok_def)
  have below: "\<forall>q \<in> set (db_messages s). ms_sequence q < n"
    using old n by (auto simp: messages_ok_def)
  have dedupe: "\<not> same_dedupe q r" if "q \<in> set (db_messages s)" for q
    using that ins(2) same_dedupe_sym by blast
  have rows: "\<forall>q \<in> set (db_messages s @ [?r]). message_row_ok H q
        \<and> (ms_sender_membership_id q, ms_squad_id q) \<in> membership_key ` set (db_memberships s)
        \<and> (ms_recipient_membership_id q, ms_squad_id q) \<in> membership_key ` set (db_memberships s)
        \<and> (\<forall>m. ms_reply_to q = Some m \<longrightarrow>
             (m, ms_squad_id q) \<in> message_key ` set (db_messages s @ [?r]))
        \<and> 1 \<le> ms_sequence q \<and> ms_sequence q \<le> n"
    (is "\<forall>q \<in> _. ?P q")
  proof
    fix q assume "q \<in> set (db_messages s @ [?r])"
    then consider "q \<in> set (db_messages s)" | "q = ?r" by auto
    then show "?P q"
    proof cases
      case 1
      with old below show ?thesis unfolding messages_ok_def by fastforce
    next
      case 2
      with ins(3-5) assms(3) n old show ?thesis by (simp add: messages_ok_def)
    qed
  qed
  have unique: "same_dedupe q p \<longrightarrow> ms_id p = ms_id q"
    if "q \<in> set (db_messages s @ [?r])" "p \<in> set (db_messages s @ [?r])" for p q
  proof -
    from that consider "q \<in> set (db_messages s)" "p \<in> set (db_messages s)"
      | "q \<in> set (db_messages s)" "p = ?r" | "q = ?r" "p \<in> set (db_messages s)" | "q = ?r" "p = ?r"
      by auto
    then show ?thesis
    proof cases
      case 1
      with old show ?thesis by (simp add: messages_ok_def)
    qed (use ins(2) dedupe in auto)
  qed
  have "distinct (map ms_id (db_messages s @ [?r]))"
    using old ins(2) by (auto simp: messages_ok_def)
  moreover have "sorted_wrt (<) (map ms_sequence (db_messages s @ [?r]))"
    using old below by (simp add: messages_ok_def sorted_wrt_append)
  moreover have "0 \<le> n" "n \<le> i64_max"
    using old ins(1) n by (simp_all add: messages_ok_def)
  ultimately have "messages_ok H s'"
    using rows unique unfolding messages_ok_def s' by simp
  moreover have "squads_ok s'" "agents_ok s'" "memberships_ok s'" "instances_ok s'"
    using assms(1)
    by (simp_all add: s' db_ok_def squads_ok_def agents_ok_def memberships_ok_def
        instances_ok_def active_members_def)
  ultimately show ?thesis by (simp add: db_ok_def)
qed

lemma archive_row_ok: "squad_row_ok r \<Longrightarrow> stored_time t \<Longrightarrow> squad_row_ok (archive_row t r)"
  by (simp add: squad_row_ok_def squad_check_def archive_row_def)

lemma archive_where_ok:
  assumes "db_ok H s" and "stored_time t"
  shows "db_ok H (archive_where p t s)"
proof -
  have "squads_ok (archive_where p t s)"
    using assms
    by (simp add: archive_where_def db_ok_def squads_ok_def ball_update_where archive_row_ok)
  moreover have "memberships_ok (archive_where p t s)"
    using assms(1) by (simp add: archive_where_def db_ok_def memberships_ok_def)
  moreover have "agents_ok (archive_where p t s)" "instances_ok (archive_where p t s)"
      "messages_ok H (archive_where p t s)"
    using assms(1)
    by (simp_all add: archive_where_def db_ok_def agents_ok_def instances_ok_def messages_ok_def
        active_members_def)
  ultimately show ?thesis by (simp add: db_ok_def)
qed

lemma filter_open_close:
  "filter is_open (update_where p (close_row t) rows) = filter (\<lambda>r. is_open r \<and> \<not> p r) rows"
  by (induction rows) (auto simp: update_where_def close_row_def is_open_def)

lemma close_row_ok: "instance_row_ok r \<Longrightarrow> stored_time t \<Longrightarrow> instance_row_ok (close_row t r)"
  by (auto simp: instance_row_ok_def instance_check_def close_row_def)

lemma close_row_sel [simp]:
  "in_membership_id (close_row t r) = in_membership_id r" "\<not> is_open (close_row t r)"
  by (simp_all add: close_row_def is_open_def)

lemma close_where_ok:
  assumes "db_ok H s" and "stored_time t"
  shows "db_ok H (close_where p t s)"
proof -
  have "distinct (map in_membership_id (filter is_open (db_instances s)))"
    using assms(1) by (simp add: db_ok_def instances_ok_def)
  then have "distinct (map in_membership_id
      (filter (\<lambda>r. \<not> p r) (filter is_open (db_instances s))))"
    by (rule distinct_map_filter)
  then have "distinct (map in_membership_id
      (filter is_open (update_where p (close_row t) (db_instances s))))"
    by (simp add: filter_open_close conj_commute)
  then have "instances_ok (close_where p t s)"
    using assms
    by (simp add: close_where_def db_ok_def instances_ok_def active_members_def
        ball_update_where close_row_ok)
  moreover have "squads_ok (close_where p t s)" "agents_ok (close_where p t s)"
      "memberships_ok (close_where p t s)" "messages_ok H (close_where p t s)"
    using assms(1)
    by (simp_all add: close_where_def db_ok_def squads_ok_def agents_ok_def memberships_ok_def
        messages_ok_def)
  ultimately show ?thesis by (simp add: db_ok_def)
qed

text \<open>
  A renewal keeps the row well-formed when the observation is consistent, time does not go back
  for the row, and the new expiry is representable and not before the observation.
\<close>

definition renewal_ok :: "string \<Rightarrow> string \<Rightarrow> int \<Rightarrow> int \<Rightarrow> instance_row \<Rightarrow> bool" where
  "renewal_ok a src now expiry r \<longleftrightarrow>
     a \<in> {''idle'', ''busy'', ''blocked'', ''unknown''} \<and> src \<in> source_names
     \<and> (a = ''unknown'' \<longleftrightarrow> src = ''unknown'')
     \<and> in_last_seen_at r \<le> now \<and> now \<le> expiry \<and> expiry \<le> i64_max"

lemma source_names_nonempty: "src \<in> source_names \<Longrightarrow> 0 < sqlite_text_length src"
  by (auto simp: source_names_def) (simp_all add: sqlite_text_length_def)

lemma renew_row_sel [simp]:
  "in_membership_id (renew_row a src now e r) = in_membership_id r"
  "is_open (renew_row a src now e r) = is_open r"
  by (simp_all add: renew_row_def is_open_def)

lemma renew_row_ok:
  assumes "instance_row_ok r" and "renewal_ok a src now e r"
  shows "instance_row_ok (renew_row a src now e r)"
  using assms source_names_nonempty [of src]
  by (auto simp: instance_row_ok_def instance_check_def renew_row_def renewal_ok_def)

lemma filter_open_renew:
  "map in_membership_id (filter is_open (update_where p (renew_row a src now e) rows)) =
     map in_membership_id (filter is_open rows)"
  by (induction rows) (auto simp: update_where_def)

lemma renew_where_ok:
  assumes "db_ok H s"
    and "\<And>r. r \<in> set (db_instances s) \<Longrightarrow> p r \<Longrightarrow> renewal_ok a src now e r"
  shows "db_ok H (renew_where p a src now e s)"
proof -
  have "instances_ok (renew_where p a src now e s)"
    using assms
    by (simp add: renew_where_def db_ok_def instances_ok_def active_members_def
        ball_update_where renew_row_ok filter_open_renew)
  moreover have "squads_ok (renew_where p a src now e s)" "agents_ok (renew_where p a src now e s)"
      "memberships_ok (renew_where p a src now e s)" "messages_ok H (renew_where p a src now e s)"
    using assms(1)
    by (simp_all add: renew_where_def db_ok_def squads_ok_def agents_ok_def memberships_ok_def
        messages_ok_def)
  ultimately show ?thesis by (simp add: db_ok_def)
qed

lemma leave_row_ok: "membership_row_ok r \<Longrightarrow> stored_time t \<Longrightarrow> membership_row_ok (leave_row t r)"
  by (simp add: membership_row_ok_def membership_check_def leave_row_def)

lemma leave_row_sel [simp]:
  "mb_squad_id (leave_row t r) = mb_squad_id r" "mb_agent_id (leave_row t r) = mb_agent_id r"
  "\<not> is_active_member (leave_row t r)" "mb_id (leave_row t r) = mb_id r"
  by (simp_all add: leave_row_def is_active_member_def)

lemma filter_active_leave:
  "filter is_active_member (update_where p (leave_row t) rows) =
     filter (\<lambda>r. is_active_member r \<and> \<not> p r) rows"
  by (induction rows) (auto simp: update_where_def)

lemma active_members_leave:
  "active_members (leave_where p t s) =
     mb_id ` {r \<in> set (db_memberships s). is_active_member r \<and> \<not> p r}"
  by (auto simp: active_members_def leave_where_def update_where_def image_iff
      split: if_splits)

lemma leave_where_ok:
  assumes "db_ok H s" and "stored_time t"
    and "\<And>r i. \<lbrakk>r \<in> set (db_memberships s); p r; i \<in> set (db_instances s); is_open i\<rbrakk>
           \<Longrightarrow> in_membership_id i \<noteq> mb_id r"
  shows "db_ok H (leave_where p t s)"
proof -
  let ?s = "leave_where p t s"
  have "distinct (map routing_key (filter is_active_member (db_memberships s)))"
    using assms(1) by (simp add: db_ok_def memberships_ok_def)
  then have "distinct (map routing_key
      (filter (\<lambda>r. \<not> p r) (filter is_active_member (db_memberships s))))"
    by (rule distinct_map_filter)
  then have "memberships_ok ?s"
    using assms(1,2)
    by (simp add: leave_where_def db_ok_def memberships_ok_def ball_update_where leave_row_ok
        filter_active_leave conj_commute)
  moreover have "instances_ok ?s"
  proof -
    have open_active: "in_membership_id i \<in> active_members ?s"
      if "i \<in> set (db_instances s)" "is_open i" for i
    proof -
      from that assms(1) obtain r where "r \<in> set (db_memberships s)" "is_active_member r"
          "in_membership_id i = mb_id r"
        by (auto simp: db_ok_def instances_ok_def active_members_def)
      with that assms(3) show ?thesis by (fastforce simp: active_members_leave)
    qed
    with assms(1) show ?thesis
      by (simp add: db_ok_def instances_ok_def) (simp add: leave_where_def)
  qed
  moreover have "messages_ok H ?s"
    using assms(1) by (simp add: leave_where_def db_ok_def messages_ok_def)
  moreover have "squads_ok ?s" "agents_ok ?s"
    using assms(1) by (simp_all add: leave_where_def db_ok_def squads_ok_def agents_ok_def)
  ultimately show ?thesis by (simp add: db_ok_def)
qed

lemma ack_row_ok: "message_row_ok H r \<Longrightarrow> stored_time t \<Longrightarrow> message_row_ok H (ack_row t r)"
  by (auto simp: message_row_ok_def message_check_def ack_row_def)

lemma ack_row_sel [simp]:
  "ms_sender_membership_id (ack_row t r) = ms_sender_membership_id r"
  "ms_recipient_membership_id (ack_row t r) = ms_recipient_membership_id r"
  "ms_squad_id (ack_row t r) = ms_squad_id r" "ms_reply_to (ack_row t r) = ms_reply_to r"
  "ms_sequence (ack_row t r) = ms_sequence r" "ms_id (ack_row t r) = ms_id r"
  "ms_body (ack_row t r) = ms_body r" "ms_priority (ack_row t r) = ms_priority r"
  "ms_dedupe_key (ack_row t r) = ms_dedupe_key r"
  "same_dedupe (ack_row t r) q = same_dedupe r q" "same_dedupe q (ack_row t r) = same_dedupe q r"
  "\<not> is_pending (ack_row t r)"
  by (simp_all add: ack_row_def same_dedupe_def is_pending_def)

lemma ack_where_ok:
  assumes "db_ok H s" and "stored_time t"
  shows "db_ok H (ack_where p t s)"
proof -
  have old: "messages_ok H s" using assms(1) by (simp add: db_ok_def)
  have "messages_ok H (ack_where p t s)"
    using old assms(2)
    by (simp add: ack_where_def messages_ok_def ball_update_where ack_row_ok)
  moreover have "squads_ok (ack_where p t s)" "agents_ok (ack_where p t s)"
      "memberships_ok (ack_where p t s)" "instances_ok (ack_where p t s)"
    using assms(1)
    by (simp_all add: ack_where_def db_ok_def squads_ok_def agents_ok_def memberships_ok_def
        instances_ok_def active_members_def)
  ultimately show ?thesis by (simp add: db_ok_def)
qed

end
