(* ===== verification/Store_Repository.thy ===== *)
theory Store_Repository
  imports Db_Invariant
begin

text \<open>
  \<open>psst-store/src/repository.rs\<close>: creating, listing, describing and archiving squads, joining and
  leaving, and the roster with its lease-derived presence. An operation takes the request and
  the database and returns the result with the database it leaves; \<open>eng\<close> carries the faults of
  the SQLite engine. The lemmas show that every operation keeps the store well-formed, what it
  returns on each branch, and that reads never fail to decode a well-formed store.
\<close>

section \<open>Requests and records\<close>

record CreateSquad =
  cs_id :: SquadId
  cs_name :: SquadName
  cs_mission :: Mission
  cs_created_at :: UnixMillis

record JoinMembership =
  jm_squad_name :: SquadName
  jm_mission_if_missing :: "Mission option"
  jm_squad_id_if_missing :: SquadId
  jm_agent_id :: AgentId
  jm_membership_id :: MembershipId
  jm_member_name :: MemberName
  jm_role :: Role
  jm_joined_at :: UnixMillis

record SquadRecord =
  sr_id :: SquadId
  sr_name :: SquadName
  sr_mission :: Mission
  sr_state :: SquadState
  sr_created_at :: UnixMillis
  sr_archived_at :: "UnixMillis option"

record MembershipRecord =
  mr_id :: MembershipId
  mr_squad_id :: SquadId
  mr_agent_id :: AgentId
  mr_name :: MemberName
  mr_role :: Role
  mr_joined_at :: UnixMillis
  mr_left_at :: "UnixMillis option"

datatype TransportPresence = Online | Offline

record RosterMember =
  rm_membership :: MembershipRecord
  rm_presence :: TransportPresence
  rm_mode :: "AgentMode option"
  rm_availability :: AvailabilityObservation
  rm_last_seen_at :: "UnixMillis option"

section \<open>Decoding stored columns\<close>

definition invalid_data :: rusqlite_error where
  "invalid_data = InvalidQuery"

text \<open>\<open>parse::<T>\<close> at the type whose constructor is \<open>new\<close>.\<close>

definition parse :: "(string \<Rightarrow> InvalidValue + string) \<Rightarrow> string \<Rightarrow> rusqlite_error + string" where
  "parse new v = map_err (\<lambda>_. invalid_data) (new v)"

definition timestamp :: "int \<Rightarrow> rusqlite_error + UnixMillis" where
  "timestamp v = map_err (\<lambda>_. invalid_data) (UnixMillis_new v)"

definition optional_timestamp :: "int option \<Rightarrow> rusqlite_error + UnixMillis option" where
  "optional_timestamp v = traverse_opt timestamp v"

definition parse_squad_state :: "string \<Rightarrow> rusqlite_error + SquadState" where
  "parse_squad_state v =
     (if v = ''active'' then Inr SquadState.Active
      else if v = ''archived'' then Inr SquadState.Archived
      else Inl invalid_data)"

definition parse_availability :: "string option \<Rightarrow> rusqlite_error + Availability" where
  "parse_availability v =
     (case v of
        None \<Rightarrow> Inr Availability.Unknown
      | Some a \<Rightarrow>
          if a = ''idle'' then Inr Availability.Idle
          else if a = ''busy'' then Inr Availability.Busy
          else if a = ''blocked'' then Inr Availability.Blocked
          else if a = ''unknown'' then Inr Availability.Unknown
          else Inl invalid_data)"

definition parse_availability_source :: "string option \<Rightarrow> rusqlite_error + AvailabilitySource" where
  "parse_availability_source v =
     (case v of
        None \<Rightarrow> Inr AvailabilitySource.Unknown
      | Some a \<Rightarrow>
          if a = ''session_lifecycle'' then Inr AvailabilitySource.SessionLifecycle
          else if a = ''mcp_connection'' then Inr AvailabilitySource.McpConnection
          else if a = ''tool_activity'' then Inr AvailabilitySource.ToolActivity
          else if a = ''agent_reported'' then Inr AvailabilitySource.AgentReported
          else if a = ''unknown'' then Inr AvailabilitySource.Unknown
          else Inl invalid_data)"

definition parse_mode :: "string option \<Rightarrow> rusqlite_error + AgentMode option" where
  "parse_mode v =
     (case v of
        None \<Rightarrow> Inr None
      | Some m \<Rightarrow>
          if m = ''cooperative'' then Inr (Some AgentMode.Cooperative)
          else if m = ''scheduled'' then Inr (Some AgentMode.Scheduled)
          else if m = ''harnessed'' then Inr (Some AgentMode.Harnessed)
          else Inl invalid_data)"

definition map_squad :: "squad_row \<Rightarrow> rusqlite_error + SquadRecord" where
  "map_squad r =
     rbind (parse SquadId_new (sq_id r)) (\<lambda>i.
     rbind (parse SquadName_new (sq_name r)) (\<lambda>n.
     rbind (parse Mission_new (sq_mission r)) (\<lambda>m.
     rbind (parse_squad_state (sq_state r)) (\<lambda>st.
     rbind (timestamp (sq_created_at r)) (\<lambda>c.
     rbind (optional_timestamp (sq_archived_at r)) (\<lambda>a.
     Inr \<lparr>sr_id = i, sr_name = n, sr_mission = m, sr_state = st, sr_created_at = c,
          sr_archived_at = a\<rparr>))))))"

section \<open>Squads\<close>

text \<open>A read outside a transaction: an engine fault is its only effect.\<close>

definition read_with :: "engine \<Rightarrow> (db \<Rightarrow> RepositoryError + 'a) \<Rightarrow> db \<Rightarrow> RepositoryError + 'a" where
  "read_with eng f s =
     (case begin_fault eng of Some e \<Rightarrow> Inl (repository_error_from e) | None \<Rightarrow> f s)"

definition new_squad_row :: "SquadId \<Rightarrow> SquadName \<Rightarrow> Mission \<Rightarrow> UnixMillis \<Rightarrow> squad_row" where
  "new_squad_row i n m t =
     \<lparr>sq_id = i, sq_name = n, sq_mission = m, sq_state = ''active'', sq_created_at = as_i64 t,
      sq_archived_at = None\<rparr>"

definition create_squad ::
  "engine \<Rightarrow> CreateSquad \<Rightarrow> db \<Rightarrow> (RepositoryError + SquadRecord) \<times> db" where
  "create_squad eng req = transaction eng (\<lambda>s.
     rbind (sql (insert_squad_or_ignore
       (new_squad_row (cs_id req) (cs_name req) (cs_mission req) (cs_created_at req)) s))
     (\<lambda>(changed, s').
     rbind (ensure (changed \<noteq> 0) RepositoryError.NameInUse) (\<lambda>_.
     Inr (\<lparr>sr_id = cs_id req, sr_name = cs_name req, sr_mission = cs_mission req,
           sr_state = SquadState.Active, sr_created_at = cs_created_at req,
           sr_archived_at = None\<rparr>, s'))))"

definition list_squads :: "engine \<Rightarrow> db \<Rightarrow> RepositoryError + SquadRecord list" where
  "list_squads eng = read_with eng (\<lambda>s.
     sql (collect_results map_squad (sort_key sq_name (db_squads s))))"

definition describe_squad :: "engine \<Rightarrow> SquadName \<Rightarrow> db \<Rightarrow> RepositoryError + SquadRecord" where
  "describe_squad eng name = read_with eng (\<lambda>s.
     rbind (sql (traverse_opt map_squad (List.find (\<lambda>r. sq_name r = name) (db_squads s))))
     (\<lambda>found. ok_or RepositoryError.NotFound found))"

definition archive_squad ::
  "engine \<Rightarrow> SquadName \<Rightarrow> UnixMillis \<Rightarrow> db \<Rightarrow> (RepositoryError + unit) \<times> db" where
  "archive_squad eng name archived_at s =
     (let p = (\<lambda>r. sq_name r = name \<and> sq_state r = ''active'') in
      case transaction eng
          (\<lambda>s. Inr (changed_rows p (db_squads s), archive_where p (as_i64 archived_at) s)) s of
        (Inl e, s') \<Rightarrow> (Inl e, s')
      | (Inr changed, s') \<Rightarrow>
          if changed = 1 then (Inr (), s')
          else (case describe_squad eng name s' of
                  Inr _ \<Rightarrow> (Inl RepositoryError.SquadArchived, s')
                | Inl e \<Rightarrow> (Inl e, s')))"

section \<open>Joining and leaving\<close>

datatype JoinFault = Squad | Agent | Membership

definition inject :: "JoinFault option \<Rightarrow> JoinFault \<Rightarrow> RepositoryError + unit" where
  "inject actual point =
     (if actual = Some point then Inl RepositoryError.InjectedFailure else Inr ())"

definition find_or_create_squad ::
  "JoinMembership \<Rightarrow> db \<Rightarrow> RepositoryError + (SquadId \<times> db)" where
  "find_or_create_squad req s =
     (case List.find (\<lambda>r. sq_name r = jm_squad_name req) (db_squads s) of
        Some r \<Rightarrow>
          if sq_state r = ''archived'' then Inl RepositoryError.SquadArchived
          else rbind (sql (parse SquadId_new (sq_id r))) (\<lambda>i. Inr (i, s))
      | None \<Rightarrow>
          rbind (ok_or RepositoryError.NotFound (jm_mission_if_missing req)) (\<lambda>mission.
          rbind (sql (insert_squad (new_squad_row (jm_squad_id_if_missing req)
            (jm_squad_name req) mission (jm_joined_at req)) s)) (\<lambda>s'.
          Inr (jm_squad_id_if_missing req, s'))))"

definition new_membership_row :: "JoinMembership \<Rightarrow> SquadId \<Rightarrow> membership_row" where
  "new_membership_row req squad_id =
     \<lparr>mb_id = jm_membership_id req, mb_squad_id = squad_id, mb_agent_id = jm_agent_id req,
      mb_name = jm_member_name req, mb_normalized_name = jm_member_name req,
      mb_role = jm_role req, mb_joined_at = as_i64 (jm_joined_at req), mb_left_at = None\<rparr>"

definition joined_record :: "JoinMembership \<Rightarrow> SquadId \<Rightarrow> MembershipRecord" where
  "joined_record req squad_id =
     \<lparr>mr_id = jm_membership_id req, mr_squad_id = squad_id, mr_agent_id = jm_agent_id req,
      mr_name = jm_member_name req, mr_role = jm_role req, mr_joined_at = jm_joined_at req,
      mr_left_at = None\<rparr>"

definition join_with_fault ::
  "engine \<Rightarrow> JoinMembership \<Rightarrow> JoinFault option \<Rightarrow> db \<Rightarrow> (RepositoryError + MembershipRecord) \<times> db"
  where
  "join_with_fault eng req fault = transaction eng (\<lambda>s.
     rbind (find_or_create_squad req s) (\<lambda>(squad_id, s1).
     rbind (inject fault JoinFault.Squad) (\<lambda>_.
     rbind (sql (insert_agent
       \<lparr>ag_id = jm_agent_id req, ag_created_at = as_i64 (jm_joined_at req)\<rparr> s1)) (\<lambda>s2.
     rbind (inject fault JoinFault.Agent) (\<lambda>_.
     rbind (sql (insert_membership_or_ignore (new_membership_row req squad_id) s2))
       (\<lambda>(changed, s3).
     rbind (ensure (changed \<noteq> 0) RepositoryError.NameInUse) (\<lambda>_.
     rbind (inject fault JoinFault.Membership) (\<lambda>_.
     Inr (joined_record req squad_id, s3)))))))))"

definition join ::
  "engine \<Rightarrow> JoinMembership \<Rightarrow> db \<Rightarrow> (RepositoryError + MembershipRecord) \<times> db" where
  "join eng req = join_with_fault eng req None"

definition active_member_of :: "MembershipId \<Rightarrow> SquadId \<Rightarrow> db \<Rightarrow> bool" where
  "active_member_of m sq s \<longleftrightarrow>
     list_ex (\<lambda>r. mb_id r = m \<and> mb_squad_id r = sq \<and> mb_left_at r = None) (db_memberships s)"

definition leave_with_fault ::
  "engine \<Rightarrow> SquadId \<Rightarrow> MembershipId \<Rightarrow> UnixMillis \<Rightarrow> bool \<Rightarrow> db \<Rightarrow> (RepositoryError + unit) \<times> db"
  where
  "leave_with_fault eng squad_id membership_id left_at fail_after_instance_close =
     transaction eng (\<lambda>s.
     rbind (ensure (active_member_of membership_id squad_id s) RepositoryError.NotMember) (\<lambda>_.
     let s1 = close_where (\<lambda>r. in_membership_id r = membership_id \<and> in_closed_at r = None)
                (as_i64 left_at) s in
     rbind (ensure (\<not> fail_after_instance_close) RepositoryError.InjectedFailure) (\<lambda>_.
     let s2 = leave_where (\<lambda>r. mb_id r = membership_id \<and> mb_left_at r = None)
                (as_i64 left_at) s1 in
     Inr ((), s2))))"

definition leave ::
  "engine \<Rightarrow> SquadId \<Rightarrow> MembershipId \<Rightarrow> UnixMillis \<Rightarrow> db \<Rightarrow> (RepositoryError + unit) \<times> db" where
  "leave eng squad_id membership_id left_at =
     leave_with_fault eng squad_id membership_id left_at False"

section \<open>Roster\<close>

text \<open>
  \<open>SELECT id FROM instances WHERE membership_id = ?1 ORDER BY created_at DESC, id DESC LIMIT 1\<close>
\<close>

definition newest_instance :: "MembershipId \<Rightarrow> instance_row list \<Rightarrow> instance_row option" where
  "newest_instance m rows =
     (case rev (sort_key (\<lambda>i. (in_created_at i, in_id i))
              (filter (\<lambda>i. in_membership_id i = m) rows)) of
        [] \<Rightarrow> None
      | i # _ \<Rightarrow> Some i)"

text \<open>
  One row of the join. \<open>inst\<close> is \<open>None\<close> where the \<open>LEFT JOIN\<close> finds no instance and its columns
  are \<open>NULL\<close>; such a row is never online, so the branch that would read them is not reached.
\<close>

definition roster_row ::
  "SquadId \<Rightarrow> UnixMillis \<Rightarrow> membership_row \<Rightarrow> instance_row option \<Rightarrow> rusqlite_error + RosterMember"
  where
  "roster_row squad now m inst =
     rbind (parse MembershipId_new (mb_id m)) (\<lambda>i.
     rbind (parse AgentId_new (mb_agent_id m)) (\<lambda>a.
     rbind (parse MemberName_new (mb_name m)) (\<lambda>n.
     rbind (parse Role_new (mb_role m)) (\<lambda>r.
     rbind (timestamp (mb_joined_at m)) (\<lambda>j.
     rbind (optional_timestamp (mb_left_at m)) (\<lambda>l.
     rbind (parse_mode (map_option in_mode inst)) (\<lambda>mode.
     rbind (optional_timestamp (map_option in_last_seen_at inst)) (\<lambda>last_seen.
     let closed_at = Option.bind inst in_closed_at;
         online = (l = None \<and> closed_at = None \<and>
           (case inst of None \<Rightarrow> False | Some q \<Rightarrow> in_lease_expires_at q > as_i64 now)) in
     rbind
       (if online then
          (case inst of
             None \<Rightarrow> Inl InvalidColumnType
           | Some q \<Rightarrow>
               rbind (parse_availability (Some (in_availability q))) (\<lambda>av.
               rbind (parse_availability_source (Some (in_availability_source q))) (\<lambda>src.
               rbind (timestamp (in_availability_observed_at q)) (\<lambda>at.
               map_err (\<lambda>_. invalid_data) (AvailabilityObservation_new av src at)))))
        else
          map_err (\<lambda>_. invalid_data)
            (AvailabilityObservation_new Availability.Unknown AvailabilitySource.Unknown now))
     (\<lambda>availability.
     Inr \<lparr>rm_membership = \<lparr>mr_id = i, mr_squad_id = squad, mr_agent_id = a, mr_name = n,
            mr_role = r, mr_joined_at = j, mr_left_at = l\<rparr>,
          rm_presence = (if online then TransportPresence.Online else TransportPresence.Offline),
          rm_mode = mode, rm_availability = availability,
          rm_last_seen_at = last_seen\<rparr>)))))))))"

definition roster ::
  "engine \<Rightarrow> SquadName \<Rightarrow> UnixMillis \<Rightarrow> db \<Rightarrow> RepositoryError + RosterMember list" where
  "roster eng squad_name now s =
     rbind (describe_squad eng squad_name s) (\<lambda>squad.
     sql (collect_results
       (\<lambda>m. roster_row (sr_id squad) now m (newest_instance (mb_id m) (db_instances s)))
       (sort_key (\<lambda>m. (mb_joined_at m, mb_id m))
         (filter (\<lambda>m. mb_squad_id m = sr_id squad) (db_memberships s)))))"

section \<open>Well-formed requests\<close>

text \<open>
  The type invariants of the newtypes in a request: every field was built by its \<open>new\<close>.
\<close>

definition CreateSquad_wf :: "CreateSquad \<Rightarrow> bool" where
  "CreateSquad_wf req \<longleftrightarrow>
     is_ok (SquadId_new (cs_id req)) \<and> is_ok (SquadName_new (cs_name req))
     \<and> is_ok (Mission_new (cs_mission req)) \<and> valid_time (cs_created_at req)"

definition JoinMembership_wf :: "JoinMembership \<Rightarrow> bool" where
  "JoinMembership_wf req \<longleftrightarrow>
     is_ok (SquadName_new (jm_squad_name req))
     \<and> (case jm_mission_if_missing req of None \<Rightarrow> True | Some m \<Rightarrow> is_ok (Mission_new m))
     \<and> is_ok (SquadId_new (jm_squad_id_if_missing req))
     \<and> is_ok (AgentId_new (jm_agent_id req)) \<and> is_ok (MembershipId_new (jm_membership_id req))
     \<and> is_ok (MemberName_new (jm_member_name req)) \<and> is_ok (Role_new (jm_role req))
     \<and> valid_time (jm_joined_at req)"

lemma valid_time_stored [simp]: "stored_time (as_i64 t) = valid_time t"
  by (simp add: stored_time_def valid_time_def)

section \<open>Decoding a well-formed row\<close>

context validated_text
begin

lemma parse_accepted [simp]: "is_ok (new v) \<Longrightarrow> parse new v = Inr v"
  by (simp add: parse_def accepted)

end

lemma timestamp_stored [simp]: "0 \<le> t \<Longrightarrow> timestamp t = Inr (UnixMillis t)"
  by (simp add: timestamp_def UnixMillis_new_def)

lemma optional_timestamp_stored:
  "(case v of None \<Rightarrow> True | Some t \<Rightarrow> stored_time t) \<Longrightarrow>
     optional_timestamp v = Inr (map_option UnixMillis v)"
  by (cases v) (simp_all add: optional_timestamp_def stored_time_def)

text \<open>The value a well-formed squad row stands for.\<close>

definition squad_of :: "squad_row \<Rightarrow> SquadRecord" where
  "squad_of r =
     \<lparr>sr_id = sq_id r, sr_name = sq_name r, sr_mission = sq_mission r,
      sr_state = (if sq_state r = ''active'' then SquadState.Active else SquadState.Archived),
      sr_created_at = UnixMillis (sq_created_at r),
      sr_archived_at = map_option UnixMillis (sq_archived_at r)\<rparr>"

lemma squad_of_sel [simp]: "sr_id (squad_of r) = sq_id r" "sr_name (squad_of r) = sq_name r"
  by (simp_all add: squad_of_def)

lemma map_squad_ok: "squad_row_ok r \<Longrightarrow> map_squad r = Inr (squad_of r)"
  by (auto simp: map_squad_def squad_row_ok_def squad_of_def squad_check_def parse_squad_state_def
      stored_time_def optional_timestamp_stored)

lemma squad_of_new_row:
  "squad_of (new_squad_row i n m t) =
     \<lparr>sr_id = i, sr_name = n, sr_mission = m, sr_state = SquadState.Active, sr_created_at = t,
      sr_archived_at = None\<rparr>"
  by (simp add: squad_of_def new_squad_row_def)

lemma new_squad_row_sel [simp]:
  "sq_id (new_squad_row i n m t) = i" "sq_name (new_squad_row i n m t) = n"
  "sq_state (new_squad_row i n m t) = ''active''"
  by (simp_all add: new_squad_row_def)

lemma new_squad_row_ok:
  "squad_row_ok (new_squad_row i n m t) \<longleftrightarrow>
     is_ok (SquadId_new i) \<and> is_ok (SquadName_new n) \<and> is_ok (Mission_new m)
     \<and> squad_check (new_squad_row i n m t) \<and> valid_time t"
  by (auto simp: squad_row_ok_def new_squad_row_def)

lemma new_membership_row_ok:
  "JoinMembership_wf req \<Longrightarrow> is_ok (SquadId_new sq) \<Longrightarrow>
     membership_check (new_membership_row req sq) \<Longrightarrow> membership_row_ok (new_membership_row req sq)"
  by (simp add: membership_row_ok_def new_membership_row_def JoinMembership_wf_def)

lemma read_with_healthy [simp]: "read_with healthy f s = f s"
  by (simp add: read_with_def healthy_def)

lemma describe_squad_ok:
  assumes "db_ok H s"
  shows "describe_squad healthy n s =
    (case List.find (\<lambda>r. sq_name r = n) (db_squads s) of
       None \<Rightarrow> Inl RepositoryError.NotFound | Some r \<Rightarrow> Inr (squad_of r))"
proof (cases "List.find (\<lambda>r. sq_name r = n) (db_squads s)")
  case (Some r)
  then have "r \<in> set (db_squads s)" by (auto dest: find_SomeD)
  with assms have "map_squad r = Inr (squad_of r)"
    by (auto simp: db_ok_def squads_ok_def map_squad_ok)
  with Some show ?thesis by (simp add: describe_squad_def)
qed (simp add: describe_squad_def)

section \<open>Inversion of the statements\<close>

lemma insert_squad_Inr:
  "insert_squad r s = Inr s' \<longleftrightarrow>
     squad_check r \<and> (\<forall>q \<in> set (db_squads s). sq_id q \<noteq> sq_id r \<and> sq_name q \<noteq> sq_name r)
     \<and> s' = s\<lparr>db_squads := db_squads s @ [r]\<rparr>"
  by (auto simp: insert_squad_def list_ex_iff)

lemma insert_agent_Inr:
  "insert_agent r s = Inr s' \<longleftrightarrow>
     (\<forall>q \<in> set (db_agents s). ag_id q \<noteq> ag_id r) \<and> s' = s\<lparr>db_agents := db_agents s @ [r]\<rparr>"
  by (auto simp: insert_agent_def list_ex_iff)

lemma insert_membership_Inr:
  "insert_membership_or_ignore r s = Inr (n, s') \<and> n \<noteq> 0 \<longleftrightarrow>
     membership_check r \<and> n = 1
     \<and> \<not> (is_active_member r \<and> list_ex (\<lambda>q. is_active_member q \<and> mb_squad_id q = mb_squad_id r
             \<and> mb_normalized_name q = mb_normalized_name r) (db_memberships s))
     \<and> mb_id r \<notin> mb_id ` set (db_memberships s)
     \<and> mb_squad_id r \<in> sq_id ` set (db_squads s) \<and> mb_agent_id r \<in> ag_id ` set (db_agents s)
     \<and> s' = s\<lparr>db_memberships := db_memberships s @ [r]\<rparr>"
  by (auto simp: insert_membership_or_ignore_def list_ex_key list_ex_iff)

lemma insert_squad_or_ignore_Inr:
  "insert_squad_or_ignore r s = Inr (n, s') \<and> n \<noteq> 0 \<longleftrightarrow> n = 1 \<and> insert_squad r s = Inr s'"
  by (auto simp: insert_squad_or_ignore_def insert_squad_def result_simps list_ex_iff)

lemma inject_simps [simp]: "inject None p = Inr ()" "inject f p = Inr u \<longleftrightarrow> f \<noteq> Some p"
  by (auto simp: inject_def)

section \<open>The store stays well-formed\<close>

lemma create_squad_keeps:
  assumes "db_ok H s" and "CreateSquad_wf req"
  shows "db_ok H (snd (create_squad eng req s))"
  unfolding create_squad_def
proof (rule transaction_preserves)
  fix r s'
  let ?row = "new_squad_row (cs_id req) (cs_name req) (cs_mission req) (cs_created_at req)"
  assume "rbind (sql (insert_squad_or_ignore ?row s)) (\<lambda>(changed, s').
     rbind (ensure (changed \<noteq> 0) RepositoryError.NameInUse) (\<lambda>_.
     Inr (\<lparr>sr_id = cs_id req, sr_name = cs_name req, sr_mission = cs_mission req,
           sr_state = SquadState.Active, sr_created_at = cs_created_at req,
           sr_archived_at = None\<rparr>, s'))) = Inr (r, s')"
  then obtain n where "insert_squad_or_ignore ?row s = Inr (n, s') \<and> n \<noteq> 0"
    by (auto simp: result_simps)
  then have ins: "insert_squad ?row s = Inr s'"
    by (simp only: insert_squad_or_ignore_Inr)
  moreover have "squad_row_ok ?row"
    using ins assms(2) by (simp add: new_squad_row_ok CreateSquad_wf_def insert_squad_Inr)
  ultimately show "db_ok H s'" using assms(1) insert_squad_ok by blast
qed (rule assms(1))

lemma archive_squad_snd:
  "snd (archive_squad eng n t s) = s \<or>
   snd (archive_squad eng n t s) =
     archive_where (\<lambda>r. sq_name r = n \<and> sq_state r = ''active'') (as_i64 t) s"
  by (auto simp: archive_squad_def transaction_def Let_def split: option.splits sum.splits)

lemma archive_squad_keeps:
  "db_ok H s \<Longrightarrow> valid_time t \<Longrightarrow> db_ok H (snd (archive_squad eng n t s))"
  using archive_squad_snd [of eng n t s] archive_where_ok [of H s "as_i64 t"] by auto

lemma find_or_create_squad_Inr:
  assumes "find_or_create_squad req s = Inr (sq, s')"
  obtains (existing) r where "r \<in> set (db_squads s)" "sq_name r = jm_squad_name req"
      "sq_state r \<noteq> ''archived''" "sq = sq_id r" "s' = s"
  | (created) m where "jm_mission_if_missing req = Some m" "sq = jm_squad_id_if_missing req"
      "\<forall>r \<in> set (db_squads s). sq_name r \<noteq> jm_squad_name req"
      "insert_squad (new_squad_row sq (jm_squad_name req) m (jm_joined_at req)) s = Inr s'"
proof (cases "List.find (\<lambda>r. sq_name r = jm_squad_name req) (db_squads s)")
  case None
  with assms created show thesis
    by (auto simp: find_or_create_squad_def result_simps find_None_iff)
next
  case (Some r)
  with assms have "sq_state r \<noteq> ''archived''" "s' = s" "parse SquadId_new (sq_id r) = Inr sq"
    by (auto simp: find_or_create_squad_def result_simps split: if_splits)
  with Some existing [of r] show thesis
    by (auto dest: find_SomeD simp: parse_def result_simps squad_id.new_Inr_iff)
qed

lemma find_or_create_squad_ok:
  assumes "db_ok H s" and "JoinMembership_wf req" and "find_or_create_squad req s = Inr (sq, s')"
  shows "db_ok H s'" and "is_ok (SquadId_new sq)" and "sq \<in> sq_id ` set (db_squads s')"
    and "db_agents s' = db_agents s" and "db_memberships s' = db_memberships s"
    and "db_instances s' = db_instances s" and "db_messages s' = db_messages s"
    and "db_sequence s' = db_sequence s"
proof -
  have "db_ok H s' \<and> is_ok (SquadId_new sq) \<and> sq \<in> sq_id ` set (db_squads s')
      \<and> db_agents s' = db_agents s \<and> db_memberships s' = db_memberships s
      \<and> db_instances s' = db_instances s \<and> db_messages s' = db_messages s
      \<and> db_sequence s' = db_sequence s"
    using assms(3)
  proof (cases rule: find_or_create_squad_Inr)
    case (existing r)
    with assms(1) show ?thesis by (auto simp: db_ok_def squads_ok_def squad_row_ok_def)
  next
    case (created m)
    let ?row = "new_squad_row sq (jm_squad_name req) m (jm_joined_at req)"
    from created assms(2) have "squad_row_ok ?row"
      by (simp add: new_squad_row_ok JoinMembership_wf_def insert_squad_Inr)
    with assms(1) created(4) have "db_ok H s'" by (rule insert_squad_ok)
    with created assms(2) show ?thesis
      by (auto simp: insert_squad_Inr JoinMembership_wf_def)
  qed
  then show "db_ok H s'" and "is_ok (SquadId_new sq)" and "sq \<in> sq_id ` set (db_squads s')"
    and "db_agents s' = db_agents s" and "db_memberships s' = db_memberships s"
    and "db_instances s' = db_instances s" and "db_messages s' = db_messages s"
    and "db_sequence s' = db_sequence s"
    by simp_all
qed

text \<open>The rows a successful join adds; the same three statements open \<open>join_and_claim\<close>.\<close>

lemma join_statements_ok:
  assumes "db_ok H s1" and "JoinMembership_wf req" and "is_ok (SquadId_new sq)"
    and "insert_agent \<lparr>ag_id = jm_agent_id req, ag_created_at = as_i64 (jm_joined_at req)\<rparr> s1 = Inr s2"
    and "insert_membership_or_ignore (new_membership_row req sq) s2 = Inr (n, s3)" and "n \<noteq> 0"
  shows "db_ok H s3"
    and "s3 = s1\<lparr>db_agents := db_agents s1 @
             [\<lparr>ag_id = jm_agent_id req, ag_created_at = as_i64 (jm_joined_at req)\<rparr>],
           db_memberships := db_memberships s1 @ [new_membership_row req sq]\<rparr>"
proof -
  have mem: "membership_check (new_membership_row req sq)"
      "s3 = s2\<lparr>db_memberships := db_memberships s2 @ [new_membership_row req sq]\<rparr>"
    using assms(5,6) insert_membership_Inr [of "new_membership_row req sq" s2 n s3] by auto
  have "agent_row_ok \<lparr>ag_id = jm_agent_id req, ag_created_at = as_i64 (jm_joined_at req)\<rparr>"
    using assms(2) by (simp add: agent_row_ok_def JoinMembership_wf_def)
  then have "db_ok H s2" using assms(1,4) insert_agent_ok by blast
  moreover have "membership_row_ok (new_membership_row req sq)"
    using assms(2,3) mem(1) by (rule new_membership_row_ok)
  ultimately show "db_ok H s3" using assms(5) insert_membership_ok by blast
  show "s3 = s1\<lparr>db_agents := db_agents s1 @
             [\<lparr>ag_id = jm_agent_id req, ag_created_at = as_i64 (jm_joined_at req)\<rparr>],
           db_memberships := db_memberships s1 @ [new_membership_row req sq]\<rparr>"
    using mem(2) assms(4) by (simp add: insert_agent_Inr)
qed

lemma join_with_fault_Inr:
  assumes "join_with_fault eng req fault s = (Inr rec, s')"
  obtains sq s1 s2 n where
    "find_or_create_squad req s = Inr (sq, s1)"
    "insert_agent \<lparr>ag_id = jm_agent_id req, ag_created_at = as_i64 (jm_joined_at req)\<rparr> s1 = Inr s2"
    "insert_membership_or_ignore (new_membership_row req sq) s2 = Inr (n, s')" "n \<noteq> 0"
    "fault = None" "rec = joined_record req sq"
proof -
  from assms have "fault = None"
    by (cases fault; cases "the fault")
      (auto simp: join_with_fault_def transaction_Inr result_simps)
  with assms that show thesis
    by (auto simp: join_with_fault_def transaction_Inr result_simps)
qed

lemma join_keeps:
  assumes "db_ok H s" and "JoinMembership_wf req"
  shows "db_ok H (snd (join_with_fault eng req fault s))"
proof (cases "join_with_fault eng req fault s")
  case (Pair r s')
  show ?thesis
  proof (cases r)
    case (Inl e)
    with Pair assms(1) show ?thesis
      by (auto simp: join_with_fault_def dest: transaction_error_rolls_back)
  next
    case (Inr rec)
    with Pair have "join_with_fault eng req fault s = (Inr rec, s')" by simp
    then show ?thesis
      using assms find_or_create_squad_ok(1,2) join_statements_ok(1) Pair
      by (elim join_with_fault_Inr) (metis snd_conv)
  qed
qed

lemma leave_with_fault_Inr:
  "leave_with_fault eng sq m t fault s = (Inr u, s') \<longleftrightarrow>
     begin_fault eng = None \<and> commit_fault eng = None \<and> \<not> fault \<and> active_member_of m sq s
     \<and> s' = leave_where (\<lambda>r. mb_id r = m \<and> mb_left_at r = None) (as_i64 t)
          (close_where (\<lambda>r. in_membership_id r = m \<and> in_closed_at r = None) (as_i64 t) s)"
  by (auto simp: leave_with_fault_def transaction_Inr result_simps Let_def)

text \<open>Closing every instance of a member and then marking it as left keeps the store well-formed.\<close>

lemma close_then_leave_ok:
  assumes "db_ok H s" and "stored_time t"
    and "\<And>i. i \<in> set (db_instances s) \<Longrightarrow> is_open i \<Longrightarrow> in_membership_id i = m \<Longrightarrow> p i"
  shows "db_ok H (leave_where (\<lambda>r. mb_id r = m \<and> mb_left_at r = None) t (close_where p t s))"
proof (rule leave_where_ok)
  show "db_ok H (close_where p t s)" by (rule close_where_ok) (rule assms)+
  fix r i
  assume i: "i \<in> set (db_instances (close_where p t s))" "is_open i"
    and r: "mb_id r = m \<and> mb_left_at r = None"
  then have "i \<in> set (db_instances s)" "\<not> p i"
    by (auto simp: close_where_def update_where_def split: if_splits)
  with i assms(3) r show "in_membership_id i \<noteq> mb_id r" by auto
qed (rule assms)

lemma leave_keeps:
  assumes "db_ok H s" and "valid_time t"
  shows "db_ok H (snd (leave_with_fault eng sq m t fault s))"
proof (cases "leave_with_fault eng sq m t fault s")
  case (Pair r s')
  show ?thesis
  proof (cases r)
    case (Inl e)
    with Pair assms(1) show ?thesis
      by (auto simp: leave_with_fault_def dest: transaction_error_rolls_back)
  next
    case (Inr u)
    with Pair have s': "s' = leave_where (\<lambda>r. mb_id r = m \<and> mb_left_at r = None) (as_i64 t)
        (close_where (\<lambda>r. in_membership_id r = m \<and> in_closed_at r = None) (as_i64 t) s)"
      by (simp add: leave_with_fault_Inr)
    have "db_ok H s'"
      unfolding s' using assms by (intro close_then_leave_ok) (simp_all add: is_open_def)
    with Pair show ?thesis by simp
  qed
qed

section \<open>What the operations do\<close>

text \<open>
  A squad that was created can be described at once, with exactly the record the creation
  returned, and no other squad's description changes.
\<close>

theorem created_squad_is_described:
  assumes "db_ok H s" and "CreateSquad_wf req" and "create_squad eng req s = (Inr rec, s')"
  shows "describe_squad healthy n s' =
    (if n = cs_name req then Inr rec else describe_squad healthy n s)"
proof -
  let ?row = "new_squad_row (cs_id req) (cs_name req) (cs_mission req) (cs_created_at req)"
  from assms(3) obtain k where ins: "insert_squad_or_ignore ?row s = Inr (k, s') \<and> k \<noteq> 0"
    and rec: "rec = squad_of ?row"
    by (auto simp: create_squad_def transaction_Inr result_simps squad_of_new_row)
  have s': "s' = s\<lparr>db_squads := db_squads s @ [?row]\<rparr>"
    and fresh: "\<forall>q \<in> set (db_squads s). sq_name q \<noteq> cs_name req"
    using ins unfolding insert_squad_or_ignore_Inr by (auto simp: insert_squad_Inr)
  have ok: "db_ok H s'"
    using create_squad_keeps [OF assms(1,2), of eng] assms(3) by simp
  have "List.find (\<lambda>r. sq_name r = cs_name req) (db_squads s') = Some ?row"
    using squad_by_name_unique [OF db_okD(1) [OF ok]] by (simp add: s')
  moreover have "List.find (\<lambda>r. sq_name r = n) (db_squads s') =
      List.find (\<lambda>r. sq_name r = n) (db_squads s)" if "n \<noteq> cs_name req"
    using that by (auto simp: s' find_append_none split: option.splits)
  ultimately show ?thesis
    using describe_squad_ok [OF ok] describe_squad_ok [OF assms(1)] by (simp add: rec)
qed

text \<open>
  In a well-formed store the squad list never fails to decode: it holds exactly the stored
  squads, archived ones included, in strictly increasing order of their names.
\<close>

theorem list_squads_complete_and_sorted:
  assumes "db_ok H s"
  shows "\<exists>rs. list_squads healthy s = Inr rs \<and> set rs = squad_of ` set (db_squads s)
    \<and> length rs = length (db_squads s) \<and> sorted_wrt (<) (map sr_name rs)"
proof -
  let ?sorted = "sort_key sq_name (db_squads s)"
  have ok: "\<forall>r \<in> set (db_squads s). squad_row_ok r"
    and names: "distinct (map sq_name (db_squads s))"
    using assms by (auto simp: db_ok_def squads_ok_def)
  have "collect_results map_squad ?sorted = Inr (map squad_of ?sorted)"
    by (rule collect_results_map) (use ok map_squad_ok in auto)
  then have "list_squads healthy s = Inr (map squad_of ?sorted)"
    by (simp add: list_squads_def)
  moreover have "distinct (map sq_name ?sorted)"
    using names by (simp add: distinct_map)
  then have "sorted_wrt (<) (map sq_name ?sorted)"
    by (simp add: strict_sorted_iff)
  ultimately show ?thesis
    by (intro exI [of _ "map squad_of ?sorted"]) (simp add: comp_def)
qed

text \<open>
  Joining is all or nothing. If it fails, at any of the injected points, on a constraint or
  in the engine, the database is untouched. If it succeeds, exactly one agent and one membership
  were appended, the squad was there already or was created with the requested id and mission,
  and nobody in that squad was using the name.
\<close>

theorem join_all_or_nothing:
  assumes "db_ok H s" and "JoinMembership_wf req"
    and "join_with_fault eng req fault s = (r, s')"
  shows "case r of
      Inl e \<Rightarrow> s' = s
    | Inr rec \<Rightarrow>
        rec = joined_record req (mr_squad_id rec) \<and> fault = None
        \<and> db_agents s' = db_agents s @
            [\<lparr>ag_id = jm_agent_id req, ag_created_at = as_i64 (jm_joined_at req)\<rparr>]
        \<and> db_memberships s' = db_memberships s @ [new_membership_row req (mr_squad_id rec)]
        \<and> db_instances s' = db_instances s \<and> db_messages s' = db_messages s
        \<and> (db_squads s' = db_squads s
            \<or> (\<exists>m. jm_mission_if_missing req = Some m \<and> db_squads s' = db_squads s @
                 [new_squad_row (mr_squad_id rec) (jm_squad_name req) m (jm_joined_at req)]))
        \<and> (\<exists>q \<in> set (db_squads s'). sq_id q = mr_squad_id rec
             \<and> sq_name q = jm_squad_name req \<and> sq_state q \<noteq> ''archived'')
        \<and> \<not> (\<exists>q \<in> set (db_memberships s). is_active_member q \<and> mb_squad_id q = mr_squad_id rec
             \<and> mb_normalized_name q = jm_member_name req)"
proof (cases r)
  case (Inl e)
  with assms(3) show ?thesis
    by (auto simp: join_with_fault_def dest: transaction_error_rolls_back)
next
  case (Inr rec)
  with assms(3) have "join_with_fault eng req fault s = (Inr rec, s')" by simp
  then obtain sq s1 s2 n where steps: "find_or_create_squad req s = Inr (sq, s1)"
      "insert_agent \<lparr>ag_id = jm_agent_id req, ag_created_at = as_i64 (jm_joined_at req)\<rparr> s1 = Inr s2"
      "insert_membership_or_ignore (new_membership_row req sq) s2 = Inr (n, s')" "n \<noteq> 0"
    and rec: "fault = None" "rec = joined_record req sq"
    by (rule join_with_fault_Inr)
  note found = find_or_create_squad_ok [OF assms(1,2) steps(1)]
  note added = join_statements_ok(2) [OF found(1) assms(2) found(2) steps(2-4)]
  have free: "\<not> (\<exists>q \<in> set (db_memberships s). is_active_member q \<and> mb_squad_id q = sq
      \<and> mb_normalized_name q = jm_member_name req)"
    using insert_membership_Inr [of "new_membership_row req sq" s2 n s'] steps(2-4) found(5)
    by (auto simp: list_ex_iff new_membership_row_def is_active_member_def insert_agent_Inr)
  have squads: "(db_squads s1 = db_squads s
        \<or> (\<exists>m. jm_mission_if_missing req = Some m \<and> db_squads s1 = db_squads s @
             [new_squad_row sq (jm_squad_name req) m (jm_joined_at req)]))
      \<and> (\<exists>q \<in> set (db_squads s1). sq_id q = sq
             \<and> sq_name q = jm_squad_name req \<and> sq_state q \<noteq> ''archived'')"
    using steps(1) by (cases rule: find_or_create_squad_Inr) (auto simp: insert_squad_Inr)
  show ?thesis
    using Inr rec added found free squads by (simp add: joined_record_def)
qed

lemma archive_where_find:
  "squads_ok s \<Longrightarrow> List.find (\<lambda>r. sq_name r = n) (db_squads (archive_where p t s)) =
     map_option (\<lambda>r. if p r then archive_row t r else r)
       (List.find (\<lambda>r. sq_name r = n) (db_squads s))"
  by (simp add: archive_where_def archive_name.find_update)

lemma squad_of_archive_row:
  "squad_of (archive_row t r) =
     (squad_of r)\<lparr>sr_state := SquadState.Archived, sr_archived_at := Some (UnixMillis t)\<rparr>"
  by (simp add: squad_of_def archive_row_def)

lemma archive_squad_Inr:
  assumes "db_ok H s" and "archive_squad eng n t s = (Inr u, s')"
  obtains r where "r \<in> set (db_squads s)" "sq_name r = n" "sq_state r = ''active''"
    "s' = archive_where (\<lambda>r. sq_name r = n \<and> sq_state r = ''active'') (as_i64 t) s"
proof -
  let ?p = "\<lambda>r. sq_name r = n \<and> sq_state r = ''active''"
  from assms(2) have one: "changed_rows ?p (db_squads s) = 1" and s': "s' = archive_where ?p (as_i64 t) s"
    by (auto simp: archive_squad_def transaction_def Let_def
        split: option.splits sum.splits if_splits)
  then have "\<not> (\<forall>r \<in> set (db_squads s). \<not> ?p r)"
    unfolding changed_rows_zero [symmetric] by simp
  with that s' show thesis by blast
qed

text \<open>
  Archiving a squad is final: after it succeeds the squad is described as archived at the
  given time and otherwise unchanged, archiving it again is refused with \<open>SquadArchived\<close>, nobody
  can join it, and every other squad is described as before.
\<close>

theorem archive_squad_is_final:
  assumes "db_ok H s" and "valid_time t" and "archive_squad eng n t s = (Inr (), s')"
  shows "(\<exists>rec. describe_squad healthy n s = Inr rec \<and> sr_state rec = SquadState.Active
        \<and> describe_squad healthy n s' =
            Inr (rec\<lparr>sr_state := SquadState.Archived, sr_archived_at := Some t\<rparr>))
    \<and> archive_squad healthy n u s' = (Inl RepositoryError.SquadArchived, s')
    \<and> (jm_squad_name req = n \<longrightarrow> join healthy req s' = (Inl RepositoryError.SquadArchived, s'))
    \<and> (k \<noteq> n \<longrightarrow> describe_squad healthy k s' = describe_squad healthy k s)"
proof (intro conjI impI)
  from assms(1,3) obtain r where r: "r \<in> set (db_squads s)" "sq_name r = n"
      "sq_state r = ''active''"
    and s': "s' = archive_where (\<lambda>r. sq_name r = n \<and> sq_state r = ''active'') (as_i64 t) s"
    by (rule archive_squad_Inr)
  have ok: "db_ok H s'" unfolding s' using assms(1,2) by (simp add: archive_where_ok)
  have sq: "squads_ok s" using assms(1) by (simp add: db_ok_def)
  have find: "List.find (\<lambda>r. sq_name r = n) (db_squads s) = Some r"
    using squad_by_name_unique [OF sq] r by blast
  then have find': "List.find (\<lambda>r. sq_name r = n) (db_squads s') = Some (archive_row (as_i64 t) r)"
    using r by (simp add: s' archive_where_find [OF sq])
  show "\<exists>rec. describe_squad healthy n s = Inr rec \<and> sr_state rec = SquadState.Active
      \<and> describe_squad healthy n s' =
          Inr (rec\<lparr>sr_state := SquadState.Archived, sr_archived_at := Some t\<rparr>)"
    using r(3) find find'
    by (simp add: describe_squad_ok [OF assms(1)] describe_squad_ok [OF ok] squad_of_archive_row)
      (simp add: squad_of_def)
  have none: "\<forall>q \<in> set (db_squads s'). \<not> (sq_name q = n \<and> sq_state q = ''active'')"
    by (simp add: s' archive_where_def ball_update_where archive_row_def)
  then have "archive_where (\<lambda>r. sq_name r = n \<and> sq_state r = ''active'') (as_i64 u) s' = s'"
      "changed_rows (\<lambda>r. sq_name r = n \<and> sq_state r = ''active'') (db_squads s') = 0"
    by (simp_all add: archive_where_def update_where_none changed_rows_zero)
  then show "archive_squad healthy n u s' = (Inl RepositoryError.SquadArchived, s')"
    using find' by (simp add: archive_squad_def transaction_healthy describe_squad_ok [OF ok])
  show "join healthy req s' = (Inl RepositoryError.SquadArchived, s')" if "jm_squad_name req = n"
    using that find'
    by (simp add: join_def join_with_fault_def transaction_healthy find_or_create_squad_def
        archive_row_def)
  show "describe_squad healthy k s' = describe_squad healthy k s" if "k \<noteq> n"
  proof -
    have "List.find (\<lambda>r. sq_name r = k) (db_squads s') = List.find (\<lambda>r. sq_name r = k) (db_squads s)"
      using that unfolding s' archive_where_find [OF sq]
      by (cases "List.find (\<lambda>r. sq_name r = k) (db_squads s)") (auto dest: find_SomeD)
    then show ?thesis
      unfolding describe_squad_ok [OF assms(1)] describe_squad_ok [OF ok] by simp
  qed
qed

text \<open>
  Leaving is all or nothing and complete: on an error nothing changed; on success the member
  is inactive, none of its instances is open, and every other member, instance, squad and message
  is exactly as before.
\<close>

theorem leave_closes_every_instance:
  assumes "leave_with_fault eng sq m t fault s = (r, s')"
  shows "case r of
      Inl e \<Rightarrow> s' = s
    | Inr _ \<Rightarrow>
        \<not> fault \<and> active_member_of m sq s \<and> m \<notin> active_members s'
        \<and> (\<forall>i \<in> set (db_instances s'). in_membership_id i = m \<longrightarrow> \<not> is_open i)
        \<and> filter (\<lambda>i. in_membership_id i \<noteq> m) (db_instances s') =
            filter (\<lambda>i. in_membership_id i \<noteq> m) (db_instances s)
        \<and> filter (\<lambda>q. mb_id q \<noteq> m) (db_memberships s') =
            filter (\<lambda>q. mb_id q \<noteq> m) (db_memberships s)
        \<and> map in_id (db_instances s') = map in_id (db_instances s)
        \<and> map mb_id (db_memberships s') = map mb_id (db_memberships s)
        \<and> db_squads s' = db_squads s \<and> db_messages s' = db_messages s"
proof (cases r)
  case (Inl e)
  with assms show ?thesis
    by (auto simp: leave_with_fault_def dest: transaction_error_rolls_back)
next
  case (Inr u)
  with assms have fault: "\<not> fault" "active_member_of m sq s"
    and s': "s' = leave_where (\<lambda>r. mb_id r = m \<and> mb_left_at r = None) (as_i64 t)
        (close_where (\<lambda>r. in_membership_id r = m \<and> in_closed_at r = None) (as_i64 t) s)"
    by (simp_all add: leave_with_fault_Inr)
  have "m \<notin> active_members s'"
    by (auto simp: s' active_members_leave is_active_member_def)
  moreover have "\<forall>i \<in> set (db_instances s'). in_membership_id i = m \<longrightarrow> \<not> is_open i"
    by (simp add: s' leave_where_def close_where_def ball_update_where is_open_def close_row_def)
  moreover have "filter (\<lambda>i. in_membership_id i \<noteq> m) (db_instances s') =
      filter (\<lambda>i. in_membership_id i \<noteq> m) (db_instances s)"
    unfolding s' leave_where_def close_where_def by simp (rule filter_update_other, simp)
  moreover have "filter (\<lambda>q. mb_id q \<noteq> m) (db_memberships s') =
      filter (\<lambda>q. mb_id q \<noteq> m) (db_memberships s)"
    unfolding s' leave_where_def close_where_def by simp (rule filter_update_other, simp)
  moreover have "map in_id (db_instances s') = map in_id (db_instances s)"
      "map mb_id (db_memberships s') = map mb_id (db_memberships s)"
      "db_squads s' = db_squads s" "db_messages s' = db_messages s"
    by (simp_all add: s' leave_where_def close_where_def)
  ultimately show ?thesis
    using Inr fault by simp
qed

section \<open>Reading the roster\<close>

lemma newest_instance_None:
  "newest_instance m rows = None \<longleftrightarrow> (\<forall>i \<in> set rows. in_membership_id i \<noteq> m)"
proof -
  have "newest_instance m rows = None \<longleftrightarrow> filter (\<lambda>i. in_membership_id i = m) rows = []"
    by (auto simp: newest_instance_def split: list.splits)
      (metis length_0_conv length_sort)
  then show ?thesis by (simp add: filter_empty_conv)
qed

lemma newest_instance_Some:
  assumes "newest_instance m rows = Some i"
  shows "i \<in> set rows" and "in_membership_id i = m"
    and "j \<in> set rows \<Longrightarrow> in_membership_id j = m \<Longrightarrow>
      (in_created_at j, in_id j) \<le> (in_created_at i, in_id i)"
proof -
  let ?f = "\<lambda>i. (in_created_at i, in_id i)"
  let ?l = "sort_key ?f (filter (\<lambda>i. in_membership_id i = m) rows)"
  from assms obtain rest where "rev ?l = i # rest"
    by (auto simp: newest_instance_def split: list.splits)
  then have l: "?l = rev rest @ [i]" by (simp add: rev_eq_Cons_iff)
  have "set ?l = {j \<in> set rows. in_membership_id j = m}" by simp
  with l have mem: "insert i (set rest) = {j \<in> set rows. in_membership_id j = m}" by simp
  then show "i \<in> set rows" "in_membership_id i = m" by auto
  have "sorted (map ?f (rev rest @ [i]))" using sorted_sort_key [of ?f] l by metis
  then have "\<forall>j \<in> set rest. ?f j \<le> ?f i" by (simp add: sorted_append)
  moreover have "j \<in> insert i (set rest)" if "j \<in> set rows" "in_membership_id j = m"
    using that mem by blast
  ultimately show "?f j \<le> ?f i" if "j \<in> set rows" "in_membership_id j = m"
    using that by auto
qed

text \<open>Total decoders of the instance columns, for well-formed rows.\<close>

definition availability_of :: "string \<Rightarrow> Availability" where
  "availability_of a =
     (if a = ''idle'' then Availability.Idle else if a = ''busy'' then Availability.Busy
      else if a = ''blocked'' then Availability.Blocked else Availability.Unknown)"

definition source_of :: "string \<Rightarrow> AvailabilitySource" where
  "source_of a =
     (if a = ''session_lifecycle'' then AvailabilitySource.SessionLifecycle
      else if a = ''mcp_connection'' then AvailabilitySource.McpConnection
      else if a = ''tool_activity'' then AvailabilitySource.ToolActivity
      else if a = ''agent_reported'' then AvailabilitySource.AgentReported
      else AvailabilitySource.Unknown)"

definition mode_of :: "string \<Rightarrow> AgentMode" where
  "mode_of m =
     (if m = ''cooperative'' then AgentMode.Cooperative
      else if m = ''scheduled'' then AgentMode.Scheduled else AgentMode.Harnessed)"

definition membership_of :: "membership_row \<Rightarrow> MembershipRecord" where
  "membership_of m =
     \<lparr>mr_id = mb_id m, mr_squad_id = mb_squad_id m, mr_agent_id = mb_agent_id m,
      mr_name = mb_name m, mr_role = mb_role m, mr_joined_at = UnixMillis (mb_joined_at m),
      mr_left_at = map_option UnixMillis (mb_left_at m)\<rparr>"

text \<open>An instance is live when it is open and its lease runs past \<open>now\<close>.\<close>

definition live_at :: "UnixMillis \<Rightarrow> instance_row \<Rightarrow> bool" where
  "live_at now i \<longleftrightarrow> is_open i \<and> as_i64 now < in_lease_expires_at i"

definition roster_online :: "UnixMillis \<Rightarrow> membership_row \<Rightarrow> instance_row option \<Rightarrow> bool" where
  "roster_online now m inst \<longleftrightarrow>
     is_active_member m \<and> (case inst of None \<Rightarrow> False | Some i \<Rightarrow> live_at now i)"

definition member_of :: "UnixMillis \<Rightarrow> membership_row \<Rightarrow> instance_row option \<Rightarrow> RosterMember" where
  "member_of now m inst =
     \<lparr>rm_membership = membership_of m,
      rm_presence = (if roster_online now m inst then TransportPresence.Online
                     else TransportPresence.Offline),
      rm_mode = map_option (\<lambda>i. mode_of (in_mode i)) inst,
      rm_availability =
        (if roster_online now m inst then
           \<lparr>obs_availability = availability_of (in_availability (the inst)),
            obs_source = source_of (in_availability_source (the inst)),
            obs_observed_at = UnixMillis (in_availability_observed_at (the inst))\<rparr>
         else \<lparr>obs_availability = Availability.Unknown, obs_source = AvailabilitySource.Unknown,
               obs_observed_at = now\<rparr>),
      rm_last_seen_at = map_option (\<lambda>i. UnixMillis (in_last_seen_at i)) inst\<rparr>"

lemma parse_availability_ok:
  "a \<in> {''idle'', ''busy'', ''blocked'', ''unknown''} \<Longrightarrow>
     parse_availability (Some a) = Inr (availability_of a)"
  by (auto simp: parse_availability_def availability_of_def)

lemma parse_availability_source_ok:
  "a \<in> source_names \<Longrightarrow> parse_availability_source (Some a) = Inr (source_of a)"
  by (auto simp: source_names_def parse_availability_source_def source_of_def)

lemma parse_mode_ok:
  "m \<in> {''cooperative'', ''scheduled'', ''harnessed''} \<Longrightarrow>
     parse_mode (Some m) = Inr (Some (mode_of m))"
  by (auto simp: parse_mode_def mode_of_def)

lemma observation_consistent:
  assumes "instance_row_ok i"
  shows "AvailabilityObservation_new (availability_of (in_availability i))
      (source_of (in_availability_source i)) t =
    Inr \<lparr>obs_availability = availability_of (in_availability i),
         obs_source = source_of (in_availability_source i), obs_observed_at = t\<rparr>"
proof -
  have "availability_of (in_availability i) = Availability.Unknown \<longleftrightarrow> in_availability i = ''unknown''"
    using assms by (auto simp: instance_row_ok_def instance_check_def availability_of_def)
  moreover have "source_of (in_availability_source i) = AvailabilitySource.Unknown \<longleftrightarrow>
      in_availability_source i = ''unknown''"
    using assms by (auto simp: instance_row_ok_def source_names_def source_of_def)
  ultimately show ?thesis
    using assms by (simp add: AvailabilityObservation_new_def instance_row_ok_def)
qed

lemma instance_columns_ok:
  assumes "instance_row_ok i"
  shows "parse_mode (Some (in_mode i)) = Inr (Some (mode_of (in_mode i)))"
    and "parse_availability (Some (in_availability i)) = Inr (availability_of (in_availability i))"
    and "parse_availability_source (Some (in_availability_source i)) =
      Inr (source_of (in_availability_source i))"
    and "timestamp (in_availability_observed_at i) = Inr (UnixMillis (in_availability_observed_at i))"
    and "optional_timestamp (Some (in_last_seen_at i)) = Inr (Some (UnixMillis (in_last_seen_at i)))"
proof -
  have "in_mode i \<in> {''cooperative'', ''scheduled'', ''harnessed''}"
      "in_availability i \<in> {''idle'', ''busy'', ''blocked'', ''unknown''}"
      "in_availability_source i \<in> source_names"
    using assms unfolding instance_row_ok_def instance_check_def by blast+
  then show "parse_mode (Some (in_mode i)) = Inr (Some (mode_of (in_mode i)))"
    and "parse_availability (Some (in_availability i)) = Inr (availability_of (in_availability i))"
    and "parse_availability_source (Some (in_availability_source i)) =
      Inr (source_of (in_availability_source i))"
    by (simp_all only: parse_mode_ok parse_availability_ok parse_availability_source_ok)
qed (use assms in \<open>simp_all add: instance_row_ok_def optional_timestamp_def\<close>)

lemma unknown_observation:
  "AvailabilityObservation_new Availability.Unknown AvailabilitySource.Unknown t =
     Inr \<lparr>obs_availability = Availability.Unknown, obs_source = AvailabilitySource.Unknown,
          obs_observed_at = t\<rparr>"
  by (simp add: AvailabilityObservation_new_def)

lemma roster_row_ok:
  assumes "membership_row_ok m" and "mb_squad_id m = sq"
    and "\<And>i. inst = Some i \<Longrightarrow> instance_row_ok i"
  shows "roster_row sq now m inst = Inr (member_of now m inst)"
proof -
  have l: "optional_timestamp (mb_left_at m) = Inr (map_option UnixMillis (mb_left_at m))"
    using assms(1) by (simp add: membership_row_ok_def optional_timestamp_stored)
  have none: "optional_timestamp None = Inr None" by (simp add: optional_timestamp_def)
  show ?thesis
  proof (cases inst)
    case None
    with assms(1,2) show ?thesis
      by (simp add: roster_row_def membership_row_ok_def stored_time_def l none
          member_of_def membership_of_def roster_online_def parse_mode_def unknown_observation)
  next
    case (Some i)
    then have i: "instance_row_ok i" by (rule assms(3))
    show ?thesis
      using assms(1,2) Some
      by (simp add: roster_row_def membership_row_ok_def stored_time_def l
          instance_columns_ok [OF i] observation_consistent [OF i] member_of_def membership_of_def
          roster_online_def live_at_def is_open_def is_active_member_def unknown_observation Let_def)
  qed
qed

lemma roster_ok:
  assumes "db_ok H s"
  shows "roster healthy n now s =
    (case List.find (\<lambda>r. sq_name r = n) (db_squads s) of
       None \<Rightarrow> Inl RepositoryError.NotFound
     | Some r \<Rightarrow> Inr (map (\<lambda>m. member_of now m (newest_instance (mb_id m) (db_instances s)))
         (sort_key (\<lambda>m. (mb_joined_at m, mb_id m))
           (filter (\<lambda>m. mb_squad_id m = sq_id r) (db_memberships s)))))"
proof (cases "List.find (\<lambda>r. sq_name r = n) (db_squads s)")
  case (Some r)
  let ?ms = "sort_key (\<lambda>m. (mb_joined_at m, mb_id m))
    (filter (\<lambda>m. mb_squad_id m = sq_id r) (db_memberships s))"
  have "collect_results
      (\<lambda>m. roster_row (sq_id r) now m (newest_instance (mb_id m) (db_instances s))) ?ms =
    Inr (map (\<lambda>m. member_of now m (newest_instance (mb_id m) (db_instances s))) ?ms)"
  proof (rule collect_results_map, rule roster_row_ok)
    fix m assume "m \<in> set ?ms"
    with assms show "membership_row_ok m" "mb_squad_id m = sq_id r"
      by (auto simp: db_ok_def memberships_ok_def)
    fix i assume "newest_instance (mb_id m) (db_instances s) = Some i"
    with assms show "instance_row_ok i"
      by (auto simp: db_ok_def instances_ok_def dest: newest_instance_Some(1))
  qed
  with Some show ?thesis by (simp add: roster_def describe_squad_ok [OF assms])
qed (simp add: roster_def describe_squad_ok [OF assms])

section \<open>Concrete runs\<close>

definition sample_create :: CreateSquad where
  "sample_create = \<lparr>cs_id = ''sqd_1'', cs_name = ''core'', cs_mission = ''ship'',
     cs_created_at = UnixMillis 1000\<rparr>"

definition sample_squads :: db where
  "sample_squads = empty_db\<lparr>db_squads := [new_squad_row ''sqd_1'' ''core'' ''ship'' (UnixMillis 1000)]\<rparr>"

definition sample_join :: JoinMembership where
  "sample_join = \<lparr>jm_squad_name = ''core'', jm_mission_if_missing = None,
     jm_squad_id_if_missing = ''sqd_2'', jm_agent_id = ''agt_1'', jm_membership_id = ''mem_1'',
     jm_member_name = ''ada'', jm_role = ''dev'', jm_joined_at = UnixMillis 2000\<rparr>"

definition sample_members :: db where
  "sample_members = sample_squads\<lparr>
     db_agents := [\<lparr>ag_id = ''agt_1'', ag_created_at = 2000\<rparr>],
     db_memberships := [new_membership_row sample_join ''sqd_1'']\<rparr>"

lemmas [eval_simps] = invalid_data_def parse_def timestamp_def optional_timestamp_def
  parse_squad_state_def map_squad_def new_squad_row_def create_squad_def squad_of_def
  find_or_create_squad_def new_membership_row_def joined_record_def join_with_fault_def inject_def
  archive_squad_def active_member_of_def leave_with_fault_def sample_create_def sample_squads_def
  sample_join_def sample_members_def CreateSquad_wf_def JoinMembership_wf_def

lemma sample_requests_wf [simp]: "CreateSquad_wf sample_create" "JoinMembership_wf sample_join"
  by (simp_all add: eval_simps)

lemma sample_create_run:
  "create_squad healthy sample_create empty_db =
     (Inr (squad_of (new_squad_row ''sqd_1'' ''core'' ''ship'' (UnixMillis 1000))), sample_squads)"
  by (simp add: eval_simps)

lemma sample_join_run:
  "join_with_fault healthy sample_join None sample_squads =
     (Inr (joined_record sample_join ''sqd_1''), sample_members)"
  by (simp add: eval_simps)

lemma sample_squads_ok [simp]: "db_ok H sample_squads"
  using create_squad_keeps [OF empty_db_ok [of H] sample_requests_wf(1), of healthy]
  by (simp add: sample_create_run)

lemma sample_members_ok [simp]: "db_ok H sample_members"
  using join_keeps [OF sample_squads_ok [of H] sample_requests_wf(2), of healthy None]
  by (simp add: sample_join_run)

theorem created_squad_is_described_witness:
  "describe_squad healthy ''core'' sample_squads =
     Inr (squad_of (new_squad_row ''sqd_1'' ''core'' ''ship'' (UnixMillis 1000)))"
  using created_squad_is_described [OF empty_db_ok sample_requests_wf(1) sample_create_run,
      of "''core''"]
  by (simp add: sample_create_def)

theorem list_squads_complete_and_sorted_witness:
  "\<exists>rs. list_squads healthy sample_squads = Inr rs \<and> length rs = 1"
  using list_squads_complete_and_sorted [OF sample_squads_ok]
  by (auto simp: sample_squads_def)

theorem join_all_or_nothing_witness:
  "db_memberships sample_members =
     db_memberships sample_squads @ [new_membership_row sample_join ''sqd_1'']"
  using join_all_or_nothing [OF sample_squads_ok sample_requests_wf(2) sample_join_run]
  by (simp add: joined_record_def)

lemma sample_archive_run:
  "archive_squad healthy ''core'' (UnixMillis 3000) sample_squads =
     (Inr (), archive_where (\<lambda>r. sq_name r = ''core'') 3000 sample_squads)"
  by (simp add: eval_simps)

theorem archive_squad_is_final_witness:
  "archive_squad healthy ''core'' (UnixMillis 4000)
      (archive_where (\<lambda>r. sq_name r = ''core'') 3000 sample_squads) =
     (Inl RepositoryError.SquadArchived,
      archive_where (\<lambda>r. sq_name r = ''core'') 3000 sample_squads)"
  using archive_squad_is_final [OF sample_squads_ok _ sample_archive_run]
  by (simp add: valid_time_def)

lemma sample_leave_run:
  "leave_with_fault healthy ''sqd_1'' ''mem_1'' (UnixMillis 3000) False sample_members =
     (Inr (), leave_where (\<lambda>_. True) 3000 sample_members)"
  by (simp add: eval_simps)

theorem leave_closes_every_instance_witness:
  "''mem_1'' \<notin> active_members (leave_where (\<lambda>_. True) 3000 sample_members)"
  using leave_closes_every_instance [OF sample_leave_run] by simp

end
