(* ===== verification/Store_Instance.thy ===== *)
theory Store_Instance
  imports Store_Repository
begin

text \<open>
  \<open>psst-store/src/instance.rs\<close>: lease policies, claiming the first instance of a membership,
  renewing it with a heartbeat and replacing an expired one. The digest of a resume token is
  \<open>H\<close> (SHA-256) of a domain separator and the token; \<open>enc\<close> and \<open>entropy\<close> are the base64 encoder
  and the random bytes of a generated token. The ownership invariant says which instance speaks
  for a member; the lemmas show that every operation keeps it, that a live owner is never
  replaced, and that a wrong token gets nothing.
\<close>

section \<open>Lease policy\<close>

record LeasePolicy =
  lp_heartbeat_interval :: Duration
  lp_lease_duration :: Duration

definition DEFAULT_HEARTBEAT_INTERVAL :: Duration where
  "DEFAULT_HEARTBEAT_INTERVAL = from_secs 10"

definition DEFAULT_LEASE_DURATION :: Duration where
  "DEFAULT_LEASE_DURATION = from_secs 30"

definition LeasePolicy_new :: "Duration \<Rightarrow> Duration \<Rightarrow> RepositoryError + LeasePolicy" where
  "LeasePolicy_new heartbeat_interval lease_duration =
     (if heartbeat_interval = 0 \<or> lease_duration \<le> heartbeat_interval
         \<or> i64_try_from (as_millis lease_duration) = None
      then Inl RepositoryError.InvalidRequest
      else Inr \<lparr>lp_heartbeat_interval = heartbeat_interval, lp_lease_duration = lease_duration\<rparr>)"

definition LeasePolicy_default :: LeasePolicy where
  "LeasePolicy_default = \<lparr>lp_heartbeat_interval = DEFAULT_HEARTBEAT_INTERVAL,
     lp_lease_duration = DEFAULT_LEASE_DURATION\<rparr>"

section \<open>Requests and records\<close>

record ClaimInstance =
  cl_id :: InstanceId
  cl_membership_id :: MembershipId
  cl_mode :: AgentMode
  cl_client_kind :: string
  cl_hostname :: "string option"
  cl_availability :: Availability
  cl_availability_source :: AvailabilitySource
  cl_now :: UnixMillis
  cl_lease_policy :: LeasePolicy

record InstanceRecord =
  ir_id :: InstanceId
  ir_membership_id :: MembershipId
  ir_mode :: AgentMode
  ir_availability :: Availability
  ir_availability_source :: AvailabilitySource
  ir_availability_observed_at :: UnixMillis
  ir_lease_expires_at :: UnixMillis
  ir_last_seen_at :: UnixMillis
  ir_created_at :: UnixMillis
  ir_closed_at :: "UnixMillis option"
  ir_heartbeat_interval :: Duration
  ir_lease_duration :: Duration

record ClaimOutcome =
  co_instance :: InstanceRecord
  co_resume_token :: ResumeToken

record ResumeInstance =
  rs_id :: InstanceId
  rs_membership_id :: MembershipId
  rs_mode :: AgentMode
  rs_client_kind :: string
  rs_hostname :: "string option"
  rs_resume_token :: ResumeToken
  rs_availability :: Availability
  rs_availability_source :: AvailabilitySource
  rs_now :: UnixMillis
  rs_lease_policy :: LeasePolicy

record HeartbeatInstance =
  hb_id :: InstanceId
  hb_resume_token :: ResumeToken
  hb_availability :: Availability
  hb_availability_source :: AvailabilitySource
  hb_now :: UnixMillis
  hb_lease_policy :: LeasePolicy

section \<open>Helpers\<close>

fun mode_name :: "AgentMode \<Rightarrow> string" where
  "mode_name AgentMode.Cooperative = ''cooperative''"
| "mode_name AgentMode.Scheduled = ''scheduled''"
| "mode_name AgentMode.Harnessed = ''harnessed''"

definition instance_parse_mode :: "string \<Rightarrow> RepositoryError + AgentMode" where
  "instance_parse_mode v =
     (if v = ''cooperative'' then Inr AgentMode.Cooperative
      else if v = ''scheduled'' then Inr AgentMode.Scheduled
      else if v = ''harnessed'' then Inr AgentMode.Harnessed
      else Inl RepositoryError.InvalidStoredData)"

fun availability :: "Availability \<Rightarrow> string" where
  "availability Availability.Idle = ''idle''"
| "availability Availability.Busy = ''busy''"
| "availability Availability.Blocked = ''blocked''"
| "availability Availability.Unknown = ''unknown''"

fun availability_source :: "AvailabilitySource \<Rightarrow> string" where
  "availability_source AvailabilitySource.SessionLifecycle = ''session_lifecycle''"
| "availability_source AvailabilitySource.McpConnection = ''mcp_connection''"
| "availability_source AvailabilitySource.ToolActivity = ''tool_activity''"
| "availability_source AvailabilitySource.AgentReported = ''agent_reported''"
| "availability_source AvailabilitySource.Unknown = ''unknown''"

definition instance_timestamp :: "int \<Rightarrow> RepositoryError + UnixMillis" where
  "instance_timestamp v = map_err (\<lambda>_. RepositoryError.InvalidStoredData) (UnixMillis_new v)"

definition parse_id :: "string \<Rightarrow> RepositoryError + MembershipId" where
  "parse_id v = map_err (\<lambda>_. RepositoryError.InvalidStoredData) (MembershipId_new v)"

definition TOKEN_HASH_DOMAIN :: string where
  "TOKEN_HASH_DOMAIN = ''psst/resume-token/v1'' @ [CHR 0x00]"

definition token_hash :: "(string \<Rightarrow> string) \<Rightarrow> ResumeToken \<Rightarrow> string" where
  "token_hash H token = H (TOKEN_HASH_DOMAIN @ token)"

definition authenticate :: "(string \<Rightarrow> string) \<Rightarrow> string \<Rightarrow> ResumeToken \<Rightarrow> RepositoryError + unit" where
  "authenticate H stored supplied =
     (let supplied = token_hash H supplied in
      if length stored = length supplied \<and> stored = supplied then Inr ()
      else Inl RepositoryError.NotMember)"

definition validate_observation ::
  "Availability \<Rightarrow> AvailabilitySource \<Rightarrow> UnixMillis \<Rightarrow> RepositoryError + unit" where
  "validate_observation av source observed_at =
     rbind (map_err (\<lambda>_. RepositoryError.InvalidRequest)
       (AvailabilityObservation_new av source observed_at)) (\<lambda>_. Inr ())"

definition blank :: "string \<Rightarrow> bool" where
  "blank v \<longleftrightarrow> trim_chars (utf8_chars v) = []"

definition validate_client :: "string \<Rightarrow> string option \<Rightarrow> RepositoryError + unit" where
  "validate_client client_kind hostname =
     (if blank client_kind \<or> (case hostname of None \<Rightarrow> False | Some v \<Rightarrow> blank v)
      then Inl RepositoryError.InvalidRequest else Inr ())"

definition require_active_membership :: "MembershipId \<Rightarrow> db \<Rightarrow> RepositoryError + unit" where
  "require_active_membership m s =
     ensure (list_ex (\<lambda>(r, q). mb_id r = m \<and> mb_left_at r = None \<and> sq_state q = ''active'')
       (join_rows mb_squad_id sq_id (db_memberships s) (db_squads s))) RepositoryError.NotMember"

definition insert_instance ::
  "(string \<Rightarrow> string) \<Rightarrow> InstanceId \<Rightarrow> MembershipId \<Rightarrow> AgentMode \<Rightarrow> string \<Rightarrow> string option \<Rightarrow> ResumeToken
   \<Rightarrow> Availability \<Rightarrow> AvailabilitySource \<Rightarrow> UnixMillis \<Rightarrow> LeasePolicy \<Rightarrow> db
   \<Rightarrow> RepositoryError + (InstanceRecord \<times> db)" where
  "insert_instance H i m mode client_kind hostname token observed source now policy s =
     rbind (ok_or RepositoryError.InvalidRequest (checked_add now (lp_lease_duration policy)))
     (\<lambda>expiry.
     rbind (sql (insert_instance_row
       \<lparr>in_id = i, in_membership_id = m, in_mode = mode_name mode, in_client_kind = client_kind,
        in_hostname = hostname, in_resume_token_hash = token_hash H token,
        in_availability = availability observed,
        in_availability_source = availability_source source,
        in_availability_observed_at = as_i64 now, in_lease_expires_at = as_i64 expiry,
        in_last_seen_at = as_i64 now, in_created_at = as_i64 now, in_closed_at = None\<rparr> s)) (\<lambda>s'.
     Inr (\<lparr>ir_id = i, ir_membership_id = m, ir_mode = mode, ir_availability = observed,
           ir_availability_source = source, ir_availability_observed_at = now,
           ir_lease_expires_at = expiry, ir_last_seen_at = now, ir_created_at = now,
           ir_closed_at = None, ir_heartbeat_interval = lp_heartbeat_interval policy,
           ir_lease_duration = lp_lease_duration policy\<rparr>, s')))"

section \<open>Operations\<close>

definition claim_instance ::
  "(string \<Rightarrow> string) \<Rightarrow> (string \<Rightarrow> string) \<Rightarrow> string option \<Rightarrow> engine \<Rightarrow> ClaimInstance \<Rightarrow> db
   \<Rightarrow> (RepositoryError + ClaimOutcome) \<times> db" where
  "claim_instance H enc entropy eng req s =
     (case rbind (validate_observation (cl_availability req) (cl_availability_source req) (cl_now req))
        (\<lambda>_. rbind (validate_client (cl_client_kind req) (cl_hostname req))
        (\<lambda>_. map_err (\<lambda>_. RepositoryError.EntropyUnavailable) (ResumeToken_generate enc entropy))) of
        Inl e \<Rightarrow> (Inl e, s)
      | Inr resume_token \<Rightarrow>
          transaction eng (\<lambda>s.
            rbind (require_active_membership (cl_membership_id req) s) (\<lambda>_.
            let has_history = list_ex (\<lambda>i. in_membership_id i = cl_membership_id req)
                  (db_instances s) in
            rbind (ensure (\<not> has_history) RepositoryError.NameInUse) (\<lambda>_.
            rbind (insert_instance H (cl_id req) (cl_membership_id req) (cl_mode req)
              (cl_client_kind req) (cl_hostname req) resume_token (cl_availability req)
              (cl_availability_source req) (cl_now req) (cl_lease_policy req) s) (\<lambda>(record, s').
            Inr (\<lparr>co_instance = record, co_resume_token = resume_token\<rparr>, s'))))) s)"

definition heartbeat_tx ::
  "(string \<Rightarrow> string) \<Rightarrow> HeartbeatInstance \<Rightarrow> db
   \<Rightarrow> RepositoryError + ((instance_row \<times> UnixMillis \<times> UnixMillis) \<times> db)" where
  "heartbeat_tx H req s =
     rbind (ok_or RepositoryError.NotMember
       (List.find (\<lambda>(i, m). in_id i = hb_id req
          \<and> (in_closed_at i = None \<and> mb_left_at m = None)) (instance_members s))) (\<lambda>(i, m).
     rbind (authenticate H (in_resume_token_hash i) (hb_resume_token req)) (\<lambda>_.
     rbind (instance_timestamp (in_lease_expires_at i)) (\<lambda>expiry.
     rbind (instance_timestamp (in_last_seen_at i)) (\<lambda>last_seen.
     let effective_now = max (hb_now req) last_seen;
         state = InstanceState_at None expiry effective_now in
     rbind (map_err
       (\<lambda>e. if e = DomainError.LeaseExpired then RepositoryError.LeaseExpired
             else RepositoryError.InvalidRequest)
       (renew_lease state expiry effective_now (lp_lease_duration (hb_lease_policy req))))
     (\<lambda>renewed.
     Inr ((i, effective_now, renewed),
       renew_where (\<lambda>r. in_id r = hb_id req \<and> in_closed_at r = None)
         (availability (hb_availability req)) (availability_source (hb_availability_source req))
         (as_i64 effective_now) (as_i64 renewed) s))))))"

text \<open>
  The record is decoded from the row read before the update, after the commit: a row that does
  not decode would report an error although the renewal is durable.
\<close>

definition heartbeat_record ::
  "HeartbeatInstance \<Rightarrow> instance_row \<Rightarrow> UnixMillis \<Rightarrow> UnixMillis \<Rightarrow> RepositoryError + InstanceRecord" where
  "heartbeat_record req i effective_now renewed =
     rbind (parse_id (in_membership_id i)) (\<lambda>membership.
     rbind (instance_parse_mode (in_mode i)) (\<lambda>mode.
     rbind (instance_timestamp (in_created_at i)) (\<lambda>created_at.
     Inr \<lparr>ir_id = hb_id req, ir_membership_id = membership, ir_mode = mode,
       ir_availability = hb_availability req,
       ir_availability_source = hb_availability_source req,
       ir_availability_observed_at = effective_now, ir_lease_expires_at = renewed,
       ir_last_seen_at = effective_now, ir_created_at = created_at, ir_closed_at = None,
       ir_heartbeat_interval = lp_heartbeat_interval (hb_lease_policy req),
       ir_lease_duration = lp_lease_duration (hb_lease_policy req)\<rparr>)))"

definition heartbeat_instance ::
  "(string \<Rightarrow> string) \<Rightarrow> engine \<Rightarrow> HeartbeatInstance \<Rightarrow> db \<Rightarrow> (RepositoryError + InstanceRecord) \<times> db"
  where
  "heartbeat_instance H eng req s =
     (case validate_observation (hb_availability req) (hb_availability_source req) (hb_now req) of
        Inl e \<Rightarrow> (Inl e, s)
      | Inr _ \<Rightarrow>
          (case transaction eng (heartbeat_tx H req) s of
             (Inl e, s') \<Rightarrow> (Inl e, s')
           | (Inr (i, effective_now, renewed), s') \<Rightarrow>
               (heartbeat_record req i effective_now renewed, s')))"

definition resume_instance_with_fault ::
  "(string \<Rightarrow> string) \<Rightarrow> engine \<Rightarrow> ResumeInstance \<Rightarrow> bool \<Rightarrow> db
   \<Rightarrow> (RepositoryError + InstanceRecord) \<times> db" where
  "resume_instance_with_fault H eng req fail_after_close s =
     (case rbind (validate_observation (rs_availability req) (rs_availability_source req) (rs_now req))
        (\<lambda>_. validate_client (rs_client_kind req) (rs_hostname req)) of
        Inl e \<Rightarrow> (Inl e, s)
      | Inr _ \<Rightarrow>
          transaction eng (\<lambda>s.
            rbind (require_active_membership (rs_membership_id req) s) (\<lambda>_.
            rbind (ok_or RepositoryError.NotMember
              (newest_instance (rs_membership_id req) (db_instances s))) (\<lambda>predecessor.
            rbind (authenticate H (in_resume_token_hash predecessor) (rs_resume_token req)) (\<lambda>_.
            rbind (ensure (\<not> (in_closed_at predecessor = None
                \<and> as_i64 (rs_now req) < in_lease_expires_at predecessor))
              RepositoryError.NameInUse) (\<lambda>_.
            let s1 = close_where (\<lambda>r. in_membership_id r = rs_membership_id req
                  \<and> in_closed_at r = None) (as_i64 (rs_now req)) s in
            rbind (ensure (\<not> fail_after_close) RepositoryError.InjectedFailure) (\<lambda>_.
            insert_instance H (rs_id req) (rs_membership_id req) (rs_mode req)
              (rs_client_kind req) (rs_hostname req) (rs_resume_token req) (rs_availability req)
              (rs_availability_source req) (rs_now req) (rs_lease_policy req) s1)))))) s)"

definition resume_instance ::
  "(string \<Rightarrow> string) \<Rightarrow> engine \<Rightarrow> ResumeInstance \<Rightarrow> db \<Rightarrow> (RepositoryError + InstanceRecord) \<times> db"
  where
  "resume_instance H eng req = resume_instance_with_fault H eng req False"

section \<open>Helpers on valid input\<close>

lemma authenticate_Inr [simp]:
  "authenticate H stored token = Inr u \<longleftrightarrow> stored = token_hash H token"
  "authenticate H stored token = Inl e \<longleftrightarrow>
     stored \<noteq> token_hash H token \<and> e = RepositoryError.NotMember"
  by (auto simp: authenticate_def Let_def)

lemma authenticate_eq:
  "authenticate H stored token =
     (if stored = token_hash H token then Inr () else Inl RepositoryError.NotMember)"
  by (simp add: authenticate_def)

lemma mode_name_column: "mode_name m \<in> {''cooperative'', ''scheduled'', ''harnessed''}"
  by (cases m) simp_all

lemma availability_column: "availability a \<in> {''idle'', ''busy'', ''blocked'', ''unknown''}"
  by (cases a) simp_all

lemma source_column: "availability_source src \<in> source_names"
  by (cases src) (simp_all add: source_names_def)

lemma availability_unknown [simp]: "availability a = ''unknown'' \<longleftrightarrow> a = Availability.Unknown"
  by (cases a) simp_all

lemma source_unknown [simp]:
  "availability_source src = ''unknown'' \<longleftrightarrow> src = AvailabilitySource.Unknown"
  by (cases src) simp_all

text \<open>What is stored for a mode, an availability or a source reads back as itself.\<close>

lemma column_round_trips [simp]:
  "mode_of (mode_name m) = m" "availability_of (availability a) = a"
  "source_of (availability_source src) = src"
  subgoal by (cases m) (simp_all add: mode_of_def)
  subgoal by (cases a) (simp_all add: availability_of_def)
  subgoal by (cases src) (simp_all add: source_of_def)
  done

lemma validate_observation_Inr:
  "validate_observation a src t = Inr u \<longleftrightarrow>
     (a = Availability.Unknown \<longleftrightarrow> src = AvailabilitySource.Unknown)"
  by (auto simp: validate_observation_def AvailabilityObservation_new_def result_simps)

lemma instance_timestamp_Inr: "instance_timestamp v = Inr t \<longleftrightarrow> 0 \<le> v \<and> t = UnixMillis v"
  by (auto simp: instance_timestamp_def result_simps UnixMillis_new_Inr)

lemma instance_parse_mode_ok: "instance_row_ok i \<Longrightarrow> instance_parse_mode (in_mode i) = Inr (mode_of (in_mode i))"
  by (auto simp: instance_row_ok_def instance_check_def instance_parse_mode_def mode_of_def)

lemma parse_id_ok [simp]: "is_ok (MembershipId_new v) \<Longrightarrow> parse_id v = Inr v"
  by (simp add: parse_id_def membership_id.accepted)

lemma require_active_membership_Inr:
  "require_active_membership m s = Inr u \<longleftrightarrow>
     (\<exists>r \<in> set (db_memberships s). \<exists>q \<in> set (db_squads s).
        mb_id r = m \<and> is_active_member r \<and> sq_id q = mb_squad_id r \<and> sq_state q = ''active'')"
  by (auto simp: require_active_membership_def result_simps list_ex_iff set_join_rows
      is_active_member_def)

lemma require_active_membership_active:
  "require_active_membership m s = Inr u \<Longrightarrow> m \<in> active_members s"
  by (auto simp: require_active_membership_Inr active_members_def)

lemma insert_instance_row_Inr:
  "insert_instance_row r s = Inr s' \<longleftrightarrow>
     instance_check r \<and> in_id r \<notin> in_id ` set (db_instances s)
     \<and> (is_open r \<longrightarrow> (\<forall>q \<in> set (db_instances s). is_open q \<longrightarrow>
          in_membership_id q \<noteq> in_membership_id r))
     \<and> in_membership_id r \<in> mb_id ` set (db_memberships s)
     \<and> s' = s\<lparr>db_instances := db_instances s @ [r]\<rparr>"
  by (auto simp: insert_instance_row_def list_ex_key list_ex_iff)

text \<open>The row and record of a new instance.\<close>

definition new_instance_row ::
  "(string \<Rightarrow> string) \<Rightarrow> InstanceId \<Rightarrow> MembershipId \<Rightarrow> AgentMode \<Rightarrow> string \<Rightarrow> string option \<Rightarrow> ResumeToken
   \<Rightarrow> Availability \<Rightarrow> AvailabilitySource \<Rightarrow> UnixMillis \<Rightarrow> LeasePolicy \<Rightarrow> instance_row" where
  "new_instance_row H i m mode client_kind hostname token observed source now policy =
     \<lparr>in_id = i, in_membership_id = m, in_mode = mode_name mode, in_client_kind = client_kind,
      in_hostname = hostname, in_resume_token_hash = token_hash H token,
      in_availability = availability observed,
      in_availability_source = availability_source source,
      in_availability_observed_at = as_i64 now,
      in_lease_expires_at = as_i64 now + as_millis (lp_lease_duration policy),
      in_last_seen_at = as_i64 now, in_created_at = as_i64 now, in_closed_at = None\<rparr>"

lemma new_instance_row_sel [simp]:
  "in_id (new_instance_row H i m mode ck hn tok a src now pol) = i"
  "in_membership_id (new_instance_row H i m mode ck hn tok a src now pol) = m"
  "in_created_at (new_instance_row H i m mode ck hn tok a src now pol) = as_i64 now"
  "in_lease_expires_at (new_instance_row H i m mode ck hn tok a src now pol) =
     as_i64 now + as_millis (lp_lease_duration pol)"
  "in_resume_token_hash (new_instance_row H i m mode ck hn tok a src now pol) = token_hash H tok"
  "is_open (new_instance_row H i m mode ck hn tok a src now pol)"
  by (simp_all add: new_instance_row_def is_open_def)

lemma insert_instance_Inr:
  assumes "valid_time now"
  shows "insert_instance H i m mode ck hn tok a src now pol s = Inr (rec, s') \<longleftrightarrow>
    as_i64 now + as_millis (lp_lease_duration pol) \<le> i64_max
    \<and> insert_instance_row (new_instance_row H i m mode ck hn tok a src now pol) s = Inr s'
    \<and> rec = \<lparr>ir_id = i, ir_membership_id = m, ir_mode = mode, ir_availability = a,
           ir_availability_source = src, ir_availability_observed_at = now,
           ir_lease_expires_at = UnixMillis (as_i64 now + as_millis (lp_lease_duration pol)),
           ir_last_seen_at = now, ir_created_at = now,
           ir_closed_at = None, ir_heartbeat_interval = lp_heartbeat_interval pol,
           ir_lease_duration = lp_lease_duration pol\<rparr>"
proof -
  have "0 \<le> as_i64 now" using assms by (simp add: valid_time_def)
  note add = checked_add_Some [OF this, of "lp_lease_duration pol"]
  show ?thesis
    by (auto simp: insert_instance_def result_simps add new_instance_row_def)
qed

lemma new_instance_row_ok:
  assumes "is_ok (InstanceId_new i)" and "is_ok (MembershipId_new m)" and "valid_time now"
    and "as_i64 now + as_millis (lp_lease_duration pol) \<le> i64_max"
    and "validate_observation a src now = Inr u"
    and "instance_check (new_instance_row H i m mode ck hn tok a src now pol)"
  shows "instance_row_ok (new_instance_row H i m mode ck hn tok a src now pol)"
  using assms as_millis_nonneg [of "lp_lease_duration pol"] source_column [of src]
  unfolding instance_row_ok_def
  by (simp add: new_instance_row_def validate_observation_Inr valid_time_def)

lemma insert_instance_ok:
  assumes "db_ok H s" and "is_ok (InstanceId_new i)" and "is_ok (MembershipId_new m)"
    and "valid_time now" and "validate_observation a src now = Inr u" and "m \<in> active_members s"
    and "insert_instance H i m mode ck hn tok a src now pol s = Inr (rec, s')"
  shows "db_ok H s'"
proof -
  let ?r = "new_instance_row H i m mode ck hn tok a src now pol"
  have ins: "insert_instance_row ?r s = Inr s'"
    and bound: "as_i64 now + as_millis (lp_lease_duration pol) \<le> i64_max"
    using assms(7) by (simp_all add: insert_instance_Inr [OF assms(4)])
  have "instance_row_ok ?r"
    using assms(2-5) bound ins by (intro new_instance_row_ok) (simp_all add: insert_instance_row_Inr)
  with assms(1) ins show ?thesis by (rule insert_instance_row_ok) (simp add: assms(6))
qed

section \<open>Ownership\<close>

text \<open>
  The open instance of a membership is its owner. The owner is the newest instance, so that the
  roster and \<open>resume\<close>, which look at the newest instance, look at the owner; its lease is not
  empty; and a member who has not left but has had an instance still has an owner.
\<close>

definition owner_newest :: "db \<Rightarrow> bool" where
  "owner_newest s \<longleftrightarrow>
     (\<forall>i \<in> set (db_instances s). is_open i \<longrightarrow>
        in_created_at i < in_lease_expires_at i
        \<and> (\<forall>j \<in> set (db_instances s). in_membership_id j = in_membership_id i \<longrightarrow>
             j = i \<or> in_created_at j < in_created_at i))"

definition owner_present :: "db \<Rightarrow> bool" where
  "owner_present s \<longleftrightarrow>
     (\<forall>i \<in> set (db_instances s). in_membership_id i \<in> active_members s \<longrightarrow>
        (\<exists>j \<in> set (db_instances s). is_open j \<and> in_membership_id j = in_membership_id i))"

definition ownership_ok :: "db \<Rightarrow> bool" where
  "ownership_ok s \<longleftrightarrow> owner_newest s \<and> owner_present s"

lemma empty_db_ownership [simp]: "ownership_ok empty_db"
  by (simp add: ownership_ok_def owner_newest_def owner_present_def empty_db_def)

text \<open>Ownership depends on the instances and on who is active only.\<close>

lemma ownership_mono:
  assumes "ownership_ok s" and "db_instances s' = db_instances s"
    and "\<And>i. i \<in> set (db_instances s) \<Longrightarrow> in_membership_id i \<in> active_members s' \<Longrightarrow>
      in_membership_id i \<in> active_members s"
  shows "ownership_ok s'"
  using assms by (simp add: ownership_ok_def owner_newest_def owner_present_def)

lemma newest_is_owner:
  assumes "ownership_ok s" and "i \<in> set (db_instances s)" and "is_open i"
    and "in_membership_id i = m"
  shows "newest_instance m (db_instances s) = Some i"
proof (cases "newest_instance m (db_instances s)")
  case None
  with assms show ?thesis by (simp add: newest_instance_None)
next
  case (Some j)
  note j = newest_instance_Some [OF Some]
  have "(in_created_at i, in_id i) \<le> (in_created_at j, in_id j)"
    using j(3) assms(2,4) by blast
  then have "in_created_at i \<le> in_created_at j" by (auto simp: less_eq_prod_def)
  moreover have "j = i \<or> in_created_at j < in_created_at i"
    using assms j(1,2) unfolding ownership_ok_def owner_newest_def by blast
  ultimately show ?thesis using Some by auto
qed

text \<open>Updates that keep the key columns of an instance.\<close>

locale instance_update =
  fixes f :: "instance_row \<Rightarrow> instance_row"
  assumes keeps_member: "in_membership_id (f i) = in_membership_id i"
    and keeps_created: "in_created_at (f i) = in_created_at i"
    and opens_nothing: "is_open (f i) \<Longrightarrow> is_open i"
begin

lemma newest_update:
  assumes "\<forall>i \<in> I. is_open i \<longrightarrow> in_created_at i < in_lease_expires_at i
        \<and> (\<forall>j \<in> I. in_membership_id j = in_membership_id i \<longrightarrow> j = i \<or> in_created_at j < in_created_at i)"
    and "\<And>i. i \<in> I \<Longrightarrow> is_open (f i) \<Longrightarrow> in_lease_expires_at i \<le> in_lease_expires_at (f i)"
  shows "\<forall>x \<in> f ` I. is_open x \<longrightarrow> in_created_at x < in_lease_expires_at x
        \<and> (\<forall>y \<in> f ` I. in_membership_id y = in_membership_id x \<longrightarrow> y = x \<or> in_created_at y < in_created_at x)"
proof (intro ballI impI)
  fix x assume "x \<in> f ` I" "is_open x"
  then obtain i where i: "i \<in> I" "x = f i" "is_open i" "is_open (f i)"
    using opens_nothing by blast
  note own = bspec [OF assms(1) i(1), THEN mp, OF i(3)]
  have "in_created_at x < in_lease_expires_at x"
    using own assms(2) [OF i(1,4)] by (simp add: i(2) keeps_created)
  moreover have "y = x \<or> in_created_at y < in_created_at x"
    if y: "y \<in> f ` I" "in_membership_id y = in_membership_id x" for y
  proof -
    from y(1) obtain j where j: "j \<in> I" "y = f j" by blast
    with y(2) i(2) have "in_membership_id j = in_membership_id i" by (simp add: keeps_member)
    with own j(1) have "j = i \<or> in_created_at j < in_created_at i" by blast
    then show ?thesis by (auto simp: j(2) i(2) keeps_created)
  qed
  ultimately show "in_created_at x < in_lease_expires_at x
      \<and> (\<forall>y \<in> f ` I. in_membership_id y = in_membership_id x \<longrightarrow> y = x \<or> in_created_at y < in_created_at x)"
    by blast
qed

lemma present_update:
  assumes "\<forall>i \<in> I. in_membership_id i \<in> A \<longrightarrow> (\<exists>j \<in> I. is_open j \<and> in_membership_id j = in_membership_id i)"
    and "\<And>i. i \<in> I \<Longrightarrow> in_membership_id i \<in> A' \<Longrightarrow> in_membership_id i \<in> A"
    and "\<And>j. j \<in> I \<Longrightarrow> in_membership_id j \<in> A' \<Longrightarrow> is_open j \<Longrightarrow> is_open (f j)"
  shows "\<forall>x \<in> f ` I. in_membership_id x \<in> A' \<longrightarrow>
     (\<exists>y \<in> f ` I. is_open y \<and> in_membership_id y = in_membership_id x)"
proof (intro ballI impI)
  fix x assume "x \<in> f ` I" "in_membership_id x \<in> A'"
  then obtain i where i: "i \<in> I" "x = f i" "in_membership_id i \<in> A'"
    using keeps_member by auto
  with assms(1,2) obtain j where j: "j \<in> I" "is_open j" "in_membership_id j = in_membership_id i"
    by blast
  with i(3) assms(3) have "is_open (f j)" by simp
  with i j show "\<exists>y \<in> f ` I. is_open y \<and> in_membership_id y = in_membership_id x"
    by (auto simp: keeps_member)
qed

end

interpretation closing: instance_update "\<lambda>i. if p i then close_row t i else i" for p t
  by unfold_locales (auto simp: close_row_def is_open_def split: if_splits)

interpretation renewing: instance_update "\<lambda>i. if p i then renew_row a src now e i else i"
  for p a src now e
  by unfold_locales (auto simp: renew_row_def is_open_def split: if_splits)

lemma set_update_image: "set (update_where p f rows) = (\<lambda>r. if p r then f r else r) ` set rows"
  by (simp add: update_where_def)

lemma close_where_instances:
  "set (db_instances (close_where p t s)) =
     (\<lambda>i. if p i then close_row t i else i) ` set (db_instances s)"
  "active_members (close_where p t s) = active_members s"
  by (simp_all add: close_where_def set_update_image active_members_def)

lemma close_open_kept: "is_open (if p i then close_row t i else i) \<longleftrightarrow> is_open i \<and> \<not> p i"
  by (simp add: close_row_def is_open_def)

text \<open>Closing what is open for a member and appending a newer, open instance.\<close>

lemma rotate_owner:
  assumes "ownership_ok s" and "is_open r" and "in_membership_id r = m"
    and "in_created_at r < in_lease_expires_at r"
    and "\<And>j. j \<in> set (db_instances s) \<Longrightarrow> in_membership_id j = m \<Longrightarrow> in_created_at j < in_created_at r"
    and "db_instances s' =
      update_where (\<lambda>i. in_membership_id i = m \<and> in_closed_at i = None) (close_row t) (db_instances s)
        @ [r]"
    and "\<And>i. i \<in> set (db_instances s) \<Longrightarrow> in_membership_id i \<in> active_members s' \<Longrightarrow>
      in_membership_id i \<in> active_members s"
  shows "ownership_ok s'"
proof -
  define f where "f = (\<lambda>i. if in_membership_id i = m \<and> in_closed_at i = None then close_row t i else i)"
  define I where "I = set (db_instances s)"
  have in_s': "set (db_instances s') = insert r (f ` I)"
    unfolding assms(6) by (simp add: set_update_image f_def I_def)
  have sel: "in_membership_id (f i) = in_membership_id i" "in_created_at (f i) = in_created_at i"
      "is_open (f i) \<longleftrightarrow> is_open i \<and> in_membership_id i \<noteq> m" for i
    by (auto simp: f_def close_row_def is_open_def)
  have newest: "\<forall>x \<in> f ` I. is_open x \<longrightarrow> in_created_at x < in_lease_expires_at x
      \<and> (\<forall>y \<in> f ` I. in_membership_id y = in_membership_id x \<longrightarrow> y = x \<or> in_created_at y < in_created_at x)"
    unfolding f_def using assms(1)
    by (intro closing.newest_update) (auto simp: I_def ownership_ok_def owner_newest_def close_row_def)
  have older: "\<forall>x \<in> f ` I. in_membership_id x = m \<longrightarrow> \<not> is_open x \<and> in_created_at x < in_created_at r"
    using assms(5) by (simp add: sel I_def)
  have "owner_newest s'"
    unfolding owner_newest_def in_s' using newest older assms(2,3,4) by auto
  moreover have "\<forall>x \<in> f ` I. in_membership_id x \<in> active_members s' - {m} \<longrightarrow>
     (\<exists>y \<in> f ` I. is_open y \<and> in_membership_id y = in_membership_id x)"
    unfolding f_def using assms(1,7)
    by (intro closing.present_update [where A = "active_members s"])
      (auto simp: I_def ownership_ok_def owner_present_def)
  then have "\<exists>j \<in> insert r (f ` I). is_open j \<and> in_membership_id j = in_membership_id i"
    if "i \<in> insert r (f ` I)" "in_membership_id i \<in> active_members s'" for i
    using that assms(2,3) by (cases "in_membership_id i = m") auto
  then have "owner_present s'" unfolding owner_present_def in_s' by blast
  ultimately show ?thesis by (simp add: ownership_ok_def)
qed

lemma leave_ownership:
  assumes "ownership_ok s"
    and "\<And>i. i \<in> set (db_instances s) \<Longrightarrow> p i \<Longrightarrow> in_membership_id i = m"
  shows "ownership_ok (leave_where (\<lambda>r. mb_id r = m \<and> mb_left_at r = None) t (close_where p t s))"
    (is "ownership_ok ?s")
proof -
  let ?f = "\<lambda>i. if p i then close_row t i else i"
  have inst: "set (db_instances ?s) = ?f ` set (db_instances s)"
    by (simp add: leave_where_def close_where_def set_update_image)
  have act: "active_members ?s \<subseteq> active_members s - {m}"
    unfolding active_members_leave
    by (auto simp: active_members_def close_where_def is_active_member_def)
  have "owner_newest ?s"
    unfolding owner_newest_def inst using assms(1)
    by (intro closing.newest_update) (auto simp: ownership_ok_def owner_newest_def close_row_def)
  moreover have "owner_present ?s"
    unfolding owner_present_def inst using assms act
    by (intro closing.present_update [where A = "active_members s"])
      (auto simp: ownership_ok_def owner_present_def)
  ultimately show ?thesis by (simp add: ownership_ok_def)
qed

lemma renew_ownership:
  assumes "ownership_ok s"
    and "\<And>i. i \<in> set (db_instances s) \<Longrightarrow> p i \<Longrightarrow> is_open i \<Longrightarrow> in_lease_expires_at i \<le> e"
  shows "ownership_ok (renew_where p a src now e s)" (is "ownership_ok ?s")
proof -
  have inst: "set (db_instances ?s) =
      (\<lambda>i. if p i then renew_row a src now e i else i) ` set (db_instances s)"
    and act: "active_members ?s = active_members s"
    by (simp_all add: renew_where_def set_update_image active_members_def)
  have "owner_newest ?s"
    unfolding owner_newest_def inst using assms
    by (intro renewing.newest_update)
      (auto simp: ownership_ok_def owner_newest_def renew_row_def is_open_def)
  moreover have "owner_present ?s"
    unfolding owner_present_def inst act using assms(1)
    by (intro renewing.present_update [where A = "active_members s"])
      (auto simp: ownership_ok_def owner_present_def)
  ultimately show ?thesis by (simp add: ownership_ok_def)
qed

text \<open>The two invariants together.\<close>

definition store_ok :: "(string \<Rightarrow> string) \<Rightarrow> db \<Rightarrow> bool" where
  "store_ok H s \<longleftrightarrow> db_ok H s \<and> ownership_ok s"

definition policy_ok :: "LeasePolicy \<Rightarrow> bool" where
  "policy_ok p \<longleftrightarrow> 1 \<le> as_millis (lp_lease_duration p)"

lemma store_okD: "store_ok H s \<Longrightarrow> db_ok H s" "store_ok H s \<Longrightarrow> ownership_ok s"
  by (simp_all add: store_ok_def)

lemma empty_store_ok [simp]: "store_ok H empty_db"
  by (simp add: store_ok_def)

text \<open>A fresh owner, after every open instance of the member was closed.\<close>

lemma replace_owner_ok:
  assumes "store_ok H s" and "policy_ok pol" and "valid_time now"
    and "is_ok (InstanceId_new i)" and "is_ok (MembershipId_new m)" and "m \<in> active_members s"
    and "validate_observation a src now = Inr u"
    and "\<And>j. j \<in> set (db_instances s) \<Longrightarrow> in_membership_id j = m \<Longrightarrow> in_created_at j < as_i64 now"
    and "insert_instance H i m mode ck hn tok a src now pol
      (close_where (\<lambda>r. in_membership_id r = m \<and> in_closed_at r = None) (as_i64 now) s) = Inr (rec, s')"
  shows "store_ok H s'"
proof -
  let ?c = "close_where (\<lambda>r. in_membership_id r = m \<and> in_closed_at r = None) (as_i64 now) s"
  let ?r = "new_instance_row H i m mode ck hn tok a src now pol"
  have s': "s' = ?c\<lparr>db_instances := db_instances ?c @ [?r]\<rparr>"
    using assms(9) by (simp add: insert_instance_Inr [OF assms(3)] insert_instance_row_Inr)
  have "db_ok H ?c" using assms(1,3) by (simp add: close_where_ok store_ok_def)
  then have "db_ok H s'"
    using assms(3-7,9) insert_instance_ok [of H ?c] by (simp add: close_where_instances)
  moreover have "ownership_ok s'"
  proof (rule rotate_owner)
    show "ownership_ok s" using assms(1) by (simp add: store_ok_def)
    show "is_open ?r" "in_membership_id ?r = m" by simp_all
    show "in_created_at ?r < in_lease_expires_at ?r" using assms(2) by (simp add: policy_ok_def)
    show "in_created_at j < in_created_at ?r"
      if "j \<in> set (db_instances s)" "in_membership_id j = m" for j
      using assms(8) [OF that] by simp
    show "db_instances s' = update_where (\<lambda>i. in_membership_id i = m \<and> in_closed_at i = None)
        (close_row (as_i64 now)) (db_instances s) @ [?r]"
      by (simp add: s' close_where_def)
    show "in_membership_id j \<in> active_members s" if "in_membership_id j \<in> active_members s'" for j
      using that by (simp add: s' active_members_def close_where_def)
  qed
  ultimately show ?thesis by (simp add: store_ok_def)
qed

lemma close_where_none:
  "(\<And>i. i \<in> set (db_instances s) \<Longrightarrow> \<not> p i) \<Longrightarrow> close_where p t s = s"
  by (simp add: close_where_def update_where_none)

text \<open>A first owner.\<close>

lemma first_owner_ok:
  assumes "store_ok H s" and "policy_ok pol" and "valid_time now"
    and "is_ok (InstanceId_new i)" and "is_ok (MembershipId_new m)" and "m \<in> active_members s"
    and "validate_observation a src now = Inr u"
    and "\<And>j. j \<in> set (db_instances s) \<Longrightarrow> in_membership_id j \<noteq> m"
    and "insert_instance H i m mode ck hn tok a src now pol s = Inr (rec, s')"
  shows "store_ok H s'"
  using replace_owner_ok [OF assms(1-7), of mode ck hn tok rec s'] assms(8,9)
  by (simp add: close_where_none)

definition ClaimInstance_wf :: "ClaimInstance \<Rightarrow> bool" where
  "ClaimInstance_wf req \<longleftrightarrow>
     is_ok (InstanceId_new (cl_id req)) \<and> is_ok (MembershipId_new (cl_membership_id req))
     \<and> valid_time (cl_now req) \<and> policy_ok (cl_lease_policy req)"

definition ResumeInstance_wf :: "ResumeInstance \<Rightarrow> bool" where
  "ResumeInstance_wf req \<longleftrightarrow>
     is_ok (InstanceId_new (rs_id req)) \<and> is_ok (MembershipId_new (rs_membership_id req))
     \<and> valid_time (rs_now req) \<and> policy_ok (rs_lease_policy req)"

definition HeartbeatInstance_wf :: "HeartbeatInstance \<Rightarrow> bool" where
  "HeartbeatInstance_wf req \<longleftrightarrow> is_ok (InstanceId_new (hb_id req)) \<and> valid_time (hb_now req)"

lemma claim_instance_Inr:
  assumes "claim_instance H enc entropy eng req s = (Inr out, s')"
  obtains tok u v rec where
    "validate_observation (cl_availability req) (cl_availability_source req) (cl_now req) = Inr u"
    "ResumeToken_generate enc entropy = Inr tok"
    "require_active_membership (cl_membership_id req) s = Inr v"
    "\<forall>i \<in> set (db_instances s). in_membership_id i \<noteq> cl_membership_id req"
    "insert_instance H (cl_id req) (cl_membership_id req) (cl_mode req) (cl_client_kind req)
       (cl_hostname req) tok (cl_availability req) (cl_availability_source req) (cl_now req)
       (cl_lease_policy req) s = Inr (rec, s')"
    "out = \<lparr>co_instance = rec, co_resume_token = tok\<rparr>"
  using assms
  by (auto simp: claim_instance_def transaction_Inr result_simps Let_def list_ex_iff
      split: sum.splits)

lemma claim_instance_error:
  "claim_instance H enc entropy eng req s = (Inl e, s') \<Longrightarrow> s' = s"
  by (auto simp: claim_instance_def split: sum.splits dest: transaction_error_rolls_back)

lemma claim_instance_keeps:
  assumes "store_ok H s" and "ClaimInstance_wf req"
  shows "store_ok H (snd (claim_instance H enc entropy eng req s))"
proof (cases "claim_instance H enc entropy eng req s")
  case (Pair r s')
  show ?thesis
  proof (cases r)
    case (Inl e)
    with Pair assms(1) show ?thesis by (auto dest: claim_instance_error)
  next
    case (Inr out)
    with Pair have "claim_instance H enc entropy eng req s = (Inr out, s')" by simp
    then show ?thesis
      using assms Pair
      by (elim claim_instance_Inr)
        (auto simp: ClaimInstance_wf_def intro: first_owner_ok require_active_membership_active)
  qed
qed

section \<open>Replacing the owner\<close>

lemma resume_instance_error:
  "resume_instance_with_fault H eng req fault s = (Inl e, s') \<Longrightarrow> s' = s"
  by (auto simp: resume_instance_with_fault_def split: sum.splits dest: transaction_error_rolls_back)

lemma resume_instance_Inr:
  assumes "resume_instance_with_fault H eng req fault s = (Inr rec, s')"
  obtains u v j where
    "validate_observation (rs_availability req) (rs_availability_source req) (rs_now req) = Inr u"
    "require_active_membership (rs_membership_id req) s = Inr v"
    "newest_instance (rs_membership_id req) (db_instances s) = Some j"
    "in_resume_token_hash j = token_hash H (rs_resume_token req)"
    "\<not> live_at (rs_now req) j" "\<not> fault"
    "insert_instance H (rs_id req) (rs_membership_id req) (rs_mode req) (rs_client_kind req)
       (rs_hostname req) (rs_resume_token req) (rs_availability req) (rs_availability_source req)
       (rs_now req) (rs_lease_policy req)
       (close_where (\<lambda>r. in_membership_id r = rs_membership_id req \<and> in_closed_at r = None)
         (as_i64 (rs_now req)) s) = Inr (rec, s')"
  using assms
  by (auto simp: resume_instance_with_fault_def transaction_Inr result_simps Let_def live_at_def
      is_open_def split: sum.splits)

text \<open>
  The owner of an active member with a history exists, is the newest instance, and once it is
  not live every instance of the member is older than the present moment.
\<close>

lemma dead_owner_is_old:
  assumes "store_ok H s" and "m \<in> active_members s"
    and "i \<in> set (db_instances s)" and "in_membership_id i = m"
    and "\<And>x. x \<in> set (db_instances s) \<Longrightarrow> is_open x \<Longrightarrow> in_membership_id x = m \<Longrightarrow> \<not> live_at now x"
  shows "in_created_at i < as_i64 now"
proof -
  from assms(1-4) obtain ow where ow: "ow \<in> set (db_instances s)" "is_open ow" "in_membership_id ow = m"
    unfolding store_ok_def ownership_ok_def owner_present_def by blast
  then have "in_lease_expires_at ow \<le> as_i64 now"
    using assms(5) [OF ow] by (simp add: live_at_def)
  moreover have "in_membership_id i = in_membership_id ow" using assms(4) ow(3) by simp
  then have "in_created_at ow < in_lease_expires_at ow"
      "i = ow \<or> in_created_at i < in_created_at ow"
    using assms(1,3) ow(1,2) unfolding store_ok_def ownership_ok_def owner_newest_def by blast+
  ultimately show ?thesis by auto
qed

lemma newest_of_active_is_owner:
  assumes "store_ok H s" and "m \<in> active_members s"
    and "newest_instance m (db_instances s) = Some j"
  shows "is_open j"
proof -
  note j = newest_instance_Some(1,2) [OF assms(3)]
  with assms(1,2) obtain ow where ow: "ow \<in> set (db_instances s)" "is_open ow" "in_membership_id ow = m"
    unfolding store_ok_def ownership_ok_def owner_present_def by blast
  with assms(1) have "newest_instance m (db_instances s) = Some ow"
    by (intro newest_is_owner) (simp_all add: store_ok_def)
  with assms(3) ow show ?thesis by simp
qed

lemma resume_instance_keeps:
  assumes "store_ok H s" and "ResumeInstance_wf req"
  shows "store_ok H (snd (resume_instance_with_fault H eng req fault s))"
proof (cases "resume_instance_with_fault H eng req fault s")
  case (Pair r s')
  show ?thesis
  proof (cases r)
    case (Inl e)
    with Pair assms(1) show ?thesis by (auto dest: resume_instance_error)
  next
    case (Inr rec)
    with Pair have "resume_instance_with_fault H eng req fault s = (Inr rec, s')" by simp
    then obtain u v j where res:
      "validate_observation (rs_availability req) (rs_availability_source req) (rs_now req) = Inr u"
      "require_active_membership (rs_membership_id req) s = Inr v"
      "newest_instance (rs_membership_id req) (db_instances s) = Some j" "\<not> live_at (rs_now req) j"
      "insert_instance H (rs_id req) (rs_membership_id req) (rs_mode req) (rs_client_kind req)
       (rs_hostname req) (rs_resume_token req) (rs_availability req) (rs_availability_source req)
       (rs_now req) (rs_lease_policy req)
       (close_where (\<lambda>r. in_membership_id r = rs_membership_id req \<and> in_closed_at r = None)
         (as_i64 (rs_now req)) s) = Inr (rec, s')"
      by (rule resume_instance_Inr)
    note act = require_active_membership_active [OF res(2)]
    have dead: "\<not> live_at (rs_now req) ow"
      if "ow \<in> set (db_instances s)" "is_open ow" "in_membership_id ow = rs_membership_id req" for ow
      using newest_is_owner [OF store_okD(2) [OF assms(1)] that] res(3,4) by simp
    have wf: "policy_ok (rs_lease_policy req)" "valid_time (rs_now req)"
        "is_ok (InstanceId_new (rs_id req))" "is_ok (MembershipId_new (rs_membership_id req))"
      using assms(2) by (simp_all add: ResumeInstance_wf_def)
    have "store_ok H s'"
      by (rule replace_owner_ok [OF assms(1) wf act res(1) _ res(5)])
        (rule dead_owner_is_old [OF assms(1) act _ _ dead])
    with Pair show ?thesis by simp
  qed
qed

text \<open>
  (C18) Resuming never preempts a live owner. In a well-formed store a resume that succeeds found
  no instance of the member that was open with its lease still running; afterwards the new
  instance is the only open one of that member, it carries the presented token, and the
  instances of every other member are untouched. A resume that fails, also half way through,
  changes nothing.
\<close>

theorem resume_never_preempts_live_owner:
  assumes "store_ok H s" and "ResumeInstance_wf req"
    and "resume_instance_with_fault H eng req fault s = (r, s')"
  shows "case r of
      Inl e \<Rightarrow> s' = s
    | Inr rec \<Rightarrow>
        (\<forall>i \<in> set (db_instances s). in_membership_id i = rs_membership_id req \<longrightarrow>
           \<not> live_at (rs_now req) i)
        \<and> (\<forall>i \<in> set (db_instances s'). in_membership_id i = rs_membership_id req \<longrightarrow>
             (is_open i \<longleftrightarrow> in_id i = rs_id req))
        \<and> (\<exists>i \<in> set (db_instances s'). in_id i = rs_id req \<and> is_open i
             \<and> in_membership_id i = rs_membership_id req
             \<and> in_resume_token_hash i = token_hash H (rs_resume_token req))
        \<and> filter (\<lambda>i. in_membership_id i \<noteq> rs_membership_id req) (db_instances s') =
            filter (\<lambda>i. in_membership_id i \<noteq> rs_membership_id req) (db_instances s)"
proof (cases r)
  case (Inl e)
  with assms(3) show ?thesis by (auto dest: resume_instance_error)
next
  case (Inr rec)
  let ?m = "rs_membership_id req" and ?t = "as_i64 (rs_now req)"
  let ?row = "new_instance_row H (rs_id req) ?m (rs_mode req) (rs_client_kind req)
       (rs_hostname req) (rs_resume_token req) (rs_availability req) (rs_availability_source req)
       (rs_now req) (rs_lease_policy req)"
  let ?c = "close_where (\<lambda>r. in_membership_id r = ?m \<and> in_closed_at r = None) ?t s"
  from Inr assms(3) have "resume_instance_with_fault H eng req fault s = (Inr rec, s')" by simp
  then obtain u v j where res: "require_active_membership ?m s = Inr v"
      "newest_instance ?m (db_instances s) = Some j" "\<not> live_at (rs_now req) j"
      "insert_instance H (rs_id req) ?m (rs_mode req) (rs_client_kind req)
       (rs_hostname req) (rs_resume_token req) (rs_availability req) (rs_availability_source req)
       (rs_now req) (rs_lease_policy req) ?c = Inr (rec, s')"
    by (rule resume_instance_Inr)
  have "valid_time (rs_now req)" using assms(2) by (simp add: ResumeInstance_wf_def)
  with res(4) have fresh: "in_id ?row \<notin> in_id ` set (db_instances ?c)"
    and s': "s' = ?c\<lparr>db_instances := db_instances ?c @ [?row]\<rparr>"
    unfolding insert_instance_Inr [OF \<open>valid_time (rs_now req)\<close>] insert_instance_row_Inr by blast+
  have "\<not> live_at (rs_now req) i" if "i \<in> set (db_instances s)" "in_membership_id i = ?m" for i
    using newest_is_owner [OF store_okD(2) [OF assms(1)] that(1) _ that(2)] res(2,3)
    by (auto simp: live_at_def)
  moreover have "\<forall>i \<in> set (db_instances ?c). in_membership_id i = ?m \<longrightarrow> \<not> is_open i"
    by (simp add: close_where_def ball_update_where is_open_def close_row_def)
  then have "\<forall>i \<in> set (db_instances s'). in_membership_id i = ?m \<longrightarrow> (is_open i \<longleftrightarrow> in_id i = rs_id req)"
    using fresh by (auto simp: s' image_iff)
  moreover have "filter (\<lambda>i. in_membership_id i \<noteq> ?m) (db_instances s') =
      filter (\<lambda>i. in_membership_id i \<noteq> ?m) (db_instances s)"
    unfolding s' close_where_def by simp (rule filter_update_other, simp)
  moreover have "?row \<in> set (db_instances s')" by (simp add: s')
  then have "\<exists>i \<in> set (db_instances s'). in_id i = rs_id req \<and> is_open i
      \<and> in_membership_id i = ?m \<and> in_resume_token_hash i = token_hash H (rs_resume_token req)"
    by (intro bexI [of _ ?row]) simp_all
  ultimately show ?thesis using Inr by simp
qed

section \<open>Renewing the lease\<close>

text \<open>The statement both heartbeats issue keeps the invariants, given what both compute.\<close>

lemma renewal_keeps:
  assumes "store_ok H s" and "i \<in> set (db_instances s)" and "valid_time now"
    and "validate_observation a src now' = Inr u"
    and "eff = max now (UnixMillis (in_last_seen_at i))"
    and "renew_lease (InstanceState_at None (UnixMillis (in_lease_expires_at i)) eff)
      (UnixMillis (in_lease_expires_at i)) eff d = Inr e"
    and "\<And>r. p r \<Longrightarrow> in_id r = in_id i"
  shows "store_ok H (renew_where p (availability a) (availability_source src) (as_i64 eff) (as_i64 e) s)"
proof -
  have ok: "db_ok H s" using assms(1) by (simp add: store_ok_def)
  then have row: "instance_row_ok i" and ids: "distinct (map in_id (db_instances s))"
    using assms(2) by (auto simp: db_ok_def instances_ok_def)
  have seen: "in_last_seen_at i \<le> i64_max" using row by (simp add: instance_row_ok_def)
  have eff: "as_i64 eff = max (as_i64 now) (in_last_seen_at i)" by (simp add: assms(5))
  with assms(3) seen have "valid_time eff" by (simp add: valid_time_def le_max_iff_disj)
  then have e: "as_i64 eff + as_millis d \<le> i64_max"
      "e = max (UnixMillis (as_i64 eff + as_millis d)) (UnixMillis (in_lease_expires_at i))"
    using assms(6) by (simp_all add: renew_lease_Inr valid_time_def)
  have same: "r = i" if "r \<in> set (db_instances s)" "p r" for r
    by (rule distinct_map_unique [OF ids that(1) assms(2) assms(7) [OF that(2)]])
  have "renewal_ok (availability a) (availability_source src) (as_i64 eff) (as_i64 e) i"
  proof -
    have "as_i64 e = max (as_i64 eff + as_millis d) (in_lease_expires_at i)"
      by (simp add: e(2))
    moreover have "in_lease_expires_at i \<le> i64_max" using row by (simp add: instance_row_ok_def)
    ultimately have "as_i64 eff \<le> as_i64 e" "as_i64 e \<le> i64_max" "in_last_seen_at i \<le> as_i64 eff"
      using e(1) as_millis_nonneg [of d] eff by linarith+
    then show ?thesis
      unfolding renewal_ok_def
      using availability_column [of a] source_column [of src] assms(4)
      by (simp add: validate_observation_Inr)
  qed
  then have "db_ok H (renew_where p (availability a) (availability_source src) (as_i64 eff) (as_i64 e) s)"
    using renew_where_ok [OF ok] same by blast
  moreover have "ownership_ok (renew_where p (availability a) (availability_source src)
      (as_i64 eff) (as_i64 e) s)"
    using assms(1) same e(2) by (intro renew_ownership) (auto simp: store_ok_def)
  ultimately show ?thesis by (simp add: store_ok_def)
qed

lemma heartbeat_tx_Inr:
  assumes "db_ok H s" and "heartbeat_tx H req s = Inr ((i, eff, renewed), s')"
  shows "i \<in> set (db_instances s)" and "in_id i = hb_id req" and "is_open i"
    and "in_membership_id i \<in> active_members s"
    and "in_resume_token_hash i = token_hash H (hb_resume_token req)"
    and "eff = max (hb_now req) (UnixMillis (in_last_seen_at i))"
    and "renew_lease (InstanceState_at None (UnixMillis (in_lease_expires_at i)) eff)
      (UnixMillis (in_lease_expires_at i)) eff (lp_lease_duration (hb_lease_policy req)) = Inr renewed"
    and "s' = renew_where (\<lambda>r. in_id r = hb_id req \<and> in_closed_at r = None)
      (availability (hb_availability req)) (availability_source (hb_availability_source req))
      (as_i64 eff) (as_i64 renewed) s"
proof -
  from assms(2) obtain m where found: "List.find (\<lambda>(i, m). in_id i = hb_id req
        \<and> (in_closed_at i = None \<and> mb_left_at m = None)) (instance_members s) = Some (i, m)"
    and rest: "in_resume_token_hash i = token_hash H (hb_resume_token req)"
      "eff = max (hb_now req) (UnixMillis (in_last_seen_at i))"
      "renew_lease (InstanceState_at None (UnixMillis (in_lease_expires_at i)) eff)
      (UnixMillis (in_lease_expires_at i)) eff (lp_lease_duration (hb_lease_policy req)) = Inr renewed"
      "s' = renew_where (\<lambda>r. in_id r = hb_id req \<and> in_closed_at r = None)
        (availability (hb_availability req)) (availability_source (hb_availability_source req))
        (as_i64 eff) (as_i64 renewed) s"
    by (auto simp: heartbeat_tx_def result_simps Let_def instance_timestamp_Inr)
  then show "in_resume_token_hash i = token_hash H (hb_resume_token req)"
    and "eff = max (hb_now req) (UnixMillis (in_last_seen_at i))"
    and "renew_lease (InstanceState_at None (UnixMillis (in_lease_expires_at i)) eff)
      (UnixMillis (in_lease_expires_at i)) eff (lp_lease_duration (hb_lease_policy req)) = Inr renewed"
    and "s' = renew_where (\<lambda>r. in_id r = hb_id req \<and> in_closed_at r = None)
      (availability (hb_availability req)) (availability_source (hb_availability_source req))
      (as_i64 eff) (as_i64 renewed) s"
    by blast+
  show "i \<in> set (db_instances s)" "in_id i = hb_id req" "is_open i"
    "in_membership_id i \<in> active_members s"
    using found unfolding instance_members_find [OF assms(1)]
    by (auto simp: is_open_def active_members_def is_active_member_def image_iff)
qed

text \<open>In a well-formed store the record of a committed heartbeat always decodes.\<close>

lemma heartbeat_record_ok:
  assumes "instance_row_ok i"
  shows "\<exists>rec. heartbeat_record req i eff renewed = Inr rec \<and> ir_id rec = hb_id req
    \<and> ir_membership_id rec = in_membership_id i \<and> ir_lease_expires_at rec = renewed
    \<and> ir_last_seen_at rec = eff"
proof -
  have "is_ok (MembershipId_new (in_membership_id i))" "0 \<le> in_created_at i"
    using assms by (simp_all add: instance_row_ok_def)
  then show ?thesis
    by (simp add: heartbeat_record_def instance_parse_mode_ok [OF assms] instance_timestamp_def
        UnixMillis_new_def)
qed

lemma heartbeat_instance_cases:
  assumes "db_ok H s" and "heartbeat_instance H eng req s = (r, s')"
  obtains (error) e where "r = Inl e" "s' = s"
  | (committed) i eff renewed u rec where
      "validate_observation (hb_availability req) (hb_availability_source req) (hb_now req) = Inr u"
      "heartbeat_tx H req s = Inr ((i, eff, renewed), s')"
      "r = Inr rec" "heartbeat_record req i eff renewed = Inr rec"
proof (cases "validate_observation (hb_availability req) (hb_availability_source req) (hb_now req)")
  case (Inl e)
  with assms(2) error show thesis by (auto simp: heartbeat_instance_def)
next
  case obs: (Inr u)
  obtain t s1 where tx: "transaction eng (heartbeat_tx H req) s = (t, s1)" by fastforce
  show thesis
  proof (cases t)
    case (Inl e)
    with tx have "s1 = s" by (auto dest: transaction_error_rolls_back)
    with assms(2) obs tx Inl error show thesis by (auto simp: heartbeat_instance_def)
  next
    case (Inr v)
    obtain i eff renewed where v: "v = (i, eff, renewed)" by (cases v)
    with tx Inr have body: "heartbeat_tx H req s = Inr ((i, eff, renewed), s1)"
      by (simp add: transaction_Inr)
    have "instance_row_ok i"
      using heartbeat_tx_Inr(1) [OF assms(1) body] assms(1) by (auto simp: db_ok_def instances_ok_def)
    then obtain rec where rec: "heartbeat_record req i eff renewed = Inr rec"
      using heartbeat_record_ok by blast
    have "s' = s1" "r = Inr rec"
      using assms(2) obs tx Inr v rec by (simp_all add: heartbeat_instance_def)
    with committed [OF obs _ _ rec] body show thesis by simp
  qed
qed

lemma heartbeat_instance_keeps:
  assumes "store_ok H s" and "HeartbeatInstance_wf req"
  shows "store_ok H (snd (heartbeat_instance H eng req s))"
proof -
  obtain r s' where run: "heartbeat_instance H eng req s = (r, s')" by fastforce
  have ok: "db_ok H s" using assms(1) by (simp add: store_ok_def)
  from ok run have "store_ok H s'"
  proof (cases rule: heartbeat_instance_cases)
    case (committed i eff renewed u rec)
    note tx = heartbeat_tx_Inr [OF ok committed(2)]
    show ?thesis
      unfolding tx(8) using assms(2) tx(2)
      by (intro renewal_keeps [OF assms(1) tx(1) _ committed(1) tx(6,7)])
        (simp_all add: HeartbeatInstance_wf_def)
  qed (use assms in simp)
  with run show ?thesis by simp
qed

text \<open>
  A heartbeat is authenticated and monotone. In a well-formed store it succeeds only for the
  open instance of a member who has not left, with the right token and before the lease expired
  at the later of the clock and the last observation; the lease never gets shorter, the last
  observation never moves back, only that row changes, and nothing of its identity. When it
  fails nothing changes.
\<close>

theorem heartbeat_authenticated_and_monotone:
  assumes "db_ok H s" and "valid_time (hb_now req)" and "heartbeat_instance H eng req s = (r, s')"
  shows "case r of
      Inl e \<Rightarrow> s' = s
    | Inr rec \<Rightarrow>
        (\<exists>i \<in> set (db_instances s). in_id i = hb_id req \<and> is_open i
          \<and> in_membership_id i \<in> active_members s
          \<and> in_resume_token_hash i = token_hash H (hb_resume_token req)
          \<and> max (as_i64 (hb_now req)) (in_last_seen_at i) < in_lease_expires_at i
          \<and> in_lease_expires_at i \<le> as_i64 (ir_lease_expires_at rec)
          \<and> in_last_seen_at i \<le> as_i64 (ir_last_seen_at rec)
          \<and> db_instances s' = map (\<lambda>q. if q = i then
                renew_row (availability (hb_availability req))
                  (availability_source (hb_availability_source req))
                  (as_i64 (ir_last_seen_at rec)) (as_i64 (ir_lease_expires_at rec)) i
                else q) (db_instances s)
          \<and> s' = s\<lparr>db_instances := db_instances s'\<rparr>)"
  using assms(1,3)
proof (cases rule: heartbeat_instance_cases)
  case (committed i eff renewed u rec)
  note tx = heartbeat_tx_Inr [OF assms(1) committed(2)]
  have row: "instance_row_ok i" and ids: "distinct (map in_id (db_instances s))"
    using tx(1) assms(1) by (auto simp: db_ok_def instances_ok_def)
  have eff: "as_i64 eff = max (as_i64 (hb_now req)) (in_last_seen_at i)" by (simp add: tx(6))
  then have "0 \<le> as_i64 eff" using assms(2) by (simp add: valid_time_def le_max_iff_disj)
  from tx(7) have "eff < UnixMillis (in_lease_expires_at i)"
      "renewed = max (UnixMillis (as_i64 eff + as_millis (lp_lease_duration (hb_lease_policy req))))
        (UnixMillis (in_lease_expires_at i))"
    unfolding renew_lease_Inr [OF \<open>0 \<le> as_i64 eff\<close>] by blast+
  then have "as_i64 eff < in_lease_expires_at i" "in_lease_expires_at i \<le> as_i64 renewed"
    by (simp_all add: less_UnixMillis_def)
  moreover have "ir_lease_expires_at rec = renewed" "ir_last_seen_at rec = eff"
    using heartbeat_record_ok [OF row, of req eff renewed] committed(4) by auto
  moreover have "update_where (\<lambda>r. in_id r = hb_id req \<and> in_closed_at r = None) f (db_instances s) =
      map (\<lambda>q. if q = i then f i else q) (db_instances s)" for f
    unfolding update_where_def
  proof (rule map_cong [OF refl])
    fix q assume "q \<in> set (db_instances s)"
    then have "(in_id q = hb_id req \<and> in_closed_at q = None) = (q = i)"
      using distinct_map_unique [OF ids _ tx(1)] tx(2,3) by (auto simp: is_open_def)
    then show "(if in_id q = hb_id req \<and> in_closed_at q = None then f q else q) =
        (if q = i then f i else q)" by simp
  qed
  then have "db_instances s' = map (\<lambda>q. if q = i then
        renew_row (availability (hb_availability req))
          (availability_source (hb_availability_source req)) (as_i64 eff) (as_i64 renewed) i
        else q) (db_instances s)" "s' = s\<lparr>db_instances := db_instances s'\<rparr>"
    by (simp_all add: tx(8) renew_where_def)
  ultimately show ?thesis
    using tx(1-5) eff committed(3) by (auto intro!: bexI [of _ i])
qed simp

text \<open>
  A wrong resume token gets nothing: whoever presents a token whose digest is not the stored
  one is refused with \<open>NotMember\<close> by a heartbeat of that instance and by a resume of its member,
  exactly as for an unknown instance or a membership without history, and the store is untouched.
\<close>

theorem wrong_token_is_concealed:
  assumes "db_ok H s"
    and "\<forall>i \<in> set (db_instances s). in_id i = hb_id hb \<longrightarrow>
      in_resume_token_hash i \<noteq> token_hash H (hb_resume_token hb)"
    and "\<forall>i \<in> set (db_instances s). in_membership_id i = rs_membership_id rs \<longrightarrow>
      in_resume_token_hash i \<noteq> token_hash H (rs_resume_token rs)"
    and "validate_observation (hb_availability hb) (hb_availability_source hb) (hb_now hb) = Inr ()"
    and "validate_observation (rs_availability rs) (rs_availability_source rs) (rs_now rs) = Inr ()"
    and "validate_client (rs_client_kind rs) (rs_hostname rs) = Inr ()"
  shows "heartbeat_instance H healthy hb s = (Inl RepositoryError.NotMember, s)
    \<and> resume_instance H healthy rs s = (Inl RepositoryError.NotMember, s)"
proof
  have "heartbeat_tx H hb s = Inl RepositoryError.NotMember"
  proof (cases "List.find (\<lambda>(i, m). in_id i = hb_id hb
          \<and> (in_closed_at i = None \<and> mb_left_at m = None)) (instance_members s)")
    case (Some x)
    obtain i m where x: "x = (i, m)" by (cases x)
    with Some have "i \<in> set (db_instances s)" "in_id i = hb_id hb"
      unfolding x instance_members_find [OF assms(1)] by blast+
    with assms(2) have "in_resume_token_hash i \<noteq> token_hash H (hb_resume_token hb)" by simp
    with Some x show ?thesis by (simp add: heartbeat_tx_def authenticate_eq)
  qed (simp add: heartbeat_tx_def)
  with assms(4) show "heartbeat_instance H healthy hb s = (Inl RepositoryError.NotMember, s)"
    by (simp add: heartbeat_instance_def transaction_healthy)
  have "in_resume_token_hash j \<noteq> token_hash H (rs_resume_token rs)"
    if "newest_instance (rs_membership_id rs) (db_instances s) = Some j" for j
    using assms(3) newest_instance_Some(1,2) [OF that] by simp
  with assms(5,6) show "resume_instance H healthy rs s = (Inl RepositoryError.NotMember, s)"
    by (cases "newest_instance (rs_membership_id rs) (db_instances s)")
      (auto simp: resume_instance_def resume_instance_with_fault_def transaction_healthy
        require_active_membership_def ensure_def authenticate_eq)
qed

text \<open>
  The roster tells the truth about presence. In a well-formed store a described squad's
  roster lists every membership it ever had, once each, in order of joining; a member is shown
  online exactly when it has not left and one of its instances is open with its lease running,
  and then with the availability that instance last reported.
\<close>

theorem roster_presence_is_ownership:
  assumes "store_ok H s" and "q \<in> set (db_squads s)" and "sq_name q = n"
  shows "\<exists>ms. roster healthy n now s = Inr ms
    \<and> sorted (map (\<lambda>m. (as_i64 (mr_joined_at (rm_membership m)), mr_id (rm_membership m))) ms)
    \<and> set (map rm_membership ms) =
        membership_of ` {m \<in> set (db_memberships s). mb_squad_id m = sq_id q}
    \<and> length ms = length (filter (\<lambda>m. mb_squad_id m = sq_id q) (db_memberships s))
    \<and> (\<forall>m \<in> set ms.
        (rm_presence m = TransportPresence.Online \<longleftrightarrow>
          mr_left_at (rm_membership m) = None
          \<and> (\<exists>i \<in> set (db_instances s). in_membership_id i = mr_id (rm_membership m) \<and> live_at now i))
        \<and> (\<forall>i \<in> set (db_instances s).
             in_membership_id i = mr_id (rm_membership m) \<longrightarrow> live_at now i \<longrightarrow>
             mr_left_at (rm_membership m) = None \<longrightarrow>
             obs_availability (rm_availability m) = availability_of (in_availability i)))"
proof -
  have ok: "db_ok H s" and own: "ownership_ok s" using assms(1) by (simp_all add: store_ok_def)
  let ?new = "\<lambda>m. newest_instance (mb_id m) (db_instances s)"
  let ?rows = "sort_key (\<lambda>m. (mb_joined_at m, mb_id m))
    (filter (\<lambda>m. mb_squad_id m = sq_id q) (db_memberships s))"
  let ?ms = "map (\<lambda>m. member_of now m (?new m)) ?rows"
  have "List.find (\<lambda>r. sq_name r = n) (db_squads s) = Some q"
    using squad_by_name_unique [OF db_okD(1) [OF ok]] assms(2,3) by blast
  then have "roster healthy n now s = Inr ?ms" by (simp add: roster_ok [OF ok])
  moreover have "sorted (map (\<lambda>m. (as_i64 (mr_joined_at (rm_membership m)), mr_id (rm_membership m))) ?ms)"
    by (simp add: comp_def member_of_def membership_of_def)
  moreover have "set (map rm_membership ?ms) =
      membership_of ` {m \<in> set (db_memberships s). mb_squad_id m = sq_id q}"
    by (simp add: member_of_def image_image)
  moreover have live: "?new m = Some i"
    if "i \<in> set (db_instances s)" "in_membership_id i = mb_id m" "live_at now i" for i m
    using newest_is_owner [OF own that(1) _ that(2)] that(3) by (simp add: live_at_def)
  have "(rm_presence (member_of now m (?new m)) = TransportPresence.Online \<longleftrightarrow>
        is_active_member m \<and> (\<exists>i \<in> set (db_instances s). in_membership_id i = mb_id m \<and> live_at now i))
      \<and> (\<forall>i \<in> set (db_instances s). in_membership_id i = mb_id m \<longrightarrow> live_at now i \<longrightarrow>
             is_active_member m \<longrightarrow>
             obs_availability (rm_availability (member_of now m (?new m))) =
               availability_of (in_availability i))" for m
  proof (cases "\<exists>i \<in> set (db_instances s). in_membership_id i = mb_id m \<and> live_at now i")
    case True
    then obtain i where i: "i \<in> set (db_instances s)" "in_membership_id i = mb_id m" "live_at now i"
      by blast
    have only: "j = i" if "j \<in> set (db_instances s)" "in_membership_id j = mb_id m" "live_at now j" for j
      using live [OF i] live [OF that] by simp
    have "(\<forall>j \<in> set (db_instances s). in_membership_id j = mb_id m \<longrightarrow> live_at now j \<longrightarrow>
        is_active_member m \<longrightarrow> P j) \<longleftrightarrow> (is_active_member m \<longrightarrow> P i)" for P
      using only i by blast
    with True i(3) show ?thesis
      by (simp add: live [OF i] member_of_def roster_online_def)
  next
    case False
    then have "\<not> live_at now j" if "?new m = Some j" for j
      using newest_instance_Some(1,2) [OF that] by blast
    with False show ?thesis by (auto simp: member_of_def roster_online_def split: option.splits)
  qed
  then have "\<forall>m \<in> set ?ms.
        (rm_presence m = TransportPresence.Online \<longleftrightarrow>
          mr_left_at (rm_membership m) = None
          \<and> (\<exists>i \<in> set (db_instances s). in_membership_id i = mr_id (rm_membership m) \<and> live_at now i))
        \<and> (\<forall>i \<in> set (db_instances s).
             in_membership_id i = mr_id (rm_membership m) \<longrightarrow> live_at now i \<longrightarrow>
             mr_left_at (rm_membership m) = None \<longrightarrow>
             obs_availability (rm_availability m) = availability_of (in_availability i))"
    by (simp add: membership_of_def is_active_member_def) (simp add: member_of_def membership_of_def)
  ultimately show ?thesis by (intro exI [of _ ?ms]) simp
qed

section \<open>Concrete runs\<close>

definition sample_hash :: "string \<Rightarrow> string" where
  "sample_hash bs = take 32 (rev bs @ replicate 32 (CHR ''x''))"

definition sample_claim :: ClaimInstance where
  "sample_claim = \<lparr>cl_id = ''ins_1'', cl_membership_id = ''mem_1'', cl_mode = AgentMode.Cooperative,
     cl_client_kind = ''cli'', cl_hostname = None, cl_availability = Availability.Idle,
     cl_availability_source = AvailabilitySource.SessionLifecycle, cl_now = UnixMillis 3000,
     cl_lease_policy = LeasePolicy_default\<rparr>"

definition sample_instance :: instance_row where
  "sample_instance = new_instance_row sample_hash ''ins_1'' ''mem_1'' AgentMode.Cooperative ''cli''
     None ''tok'' Availability.Idle AvailabilitySource.SessionLifecycle (UnixMillis 3000)
     LeasePolicy_default"

definition sample_claimed :: db where
  "sample_claimed = sample_members\<lparr>db_instances := [sample_instance]\<rparr>"

definition sample_resume :: ResumeInstance where
  "sample_resume = \<lparr>rs_id = ''ins_2'', rs_membership_id = ''mem_1'', rs_mode = AgentMode.Scheduled,
     rs_client_kind = ''cli'', rs_hostname = None, rs_resume_token = ''tok'',
     rs_availability = Availability.Busy, rs_availability_source = AvailabilitySource.ToolActivity,
     rs_now = UnixMillis 40000, rs_lease_policy = LeasePolicy_default\<rparr>"

definition sample_heartbeat :: HeartbeatInstance where
  "sample_heartbeat = \<lparr>hb_id = ''ins_1'', hb_resume_token = ''tok'',
     hb_availability = Availability.Busy, hb_availability_source = AvailabilitySource.ToolActivity,
     hb_now = UnixMillis 4000, hb_lease_policy = LeasePolicy_default\<rparr>"

lemmas [eval_simps] = new_instance_row_def sample_claim_def sample_instance_def sample_claimed_def
  sample_resume_def sample_heartbeat_def sample_hash_def LeasePolicy_default_def
  DEFAULT_HEARTBEAT_INTERVAL_def DEFAULT_LEASE_DURATION_def validate_observation_def
  AvailabilityObservation_new_def validate_client_def blank_def require_active_membership_def
  token_hash_def TOKEN_HASH_DOMAIN_def authenticate_eq checked_add_def i64_try_from_def
  i64_checked_add_def insert_instance_def ResumeToken_generate_def claim_instance_def
  newest_instance_def resume_instance_with_fault_def heartbeat_instance_def heartbeat_tx_def
  heartbeat_record_def instance_timestamp_def parse_id_def instance_parse_mode_def
  InstanceState_at_def renew_lease_def less_eq_UnixMillis_def less_UnixMillis_def

lemma sample_members_store_ok [simp]: "store_ok H sample_members"
  by (simp add: store_ok_def ownership_ok_def owner_newest_def owner_present_def)
    (simp add: eval_simps)

lemma sample_instance_requests_wf [simp]: "ClaimInstance_wf sample_claim"
    "ResumeInstance_wf sample_resume" "HeartbeatInstance_wf sample_heartbeat"
  by (simp_all add: ClaimInstance_wf_def ResumeInstance_wf_def HeartbeatInstance_wf_def policy_ok_def
      eval_simps)

lemma sample_claim_run:
  "snd (claim_instance sample_hash id (Some ''tok'') healthy sample_claim sample_members) = sample_claimed"
  by (simp add: eval_simps)

lemma sample_claimed_ok [simp]: "store_ok sample_hash sample_claimed"
  using claim_instance_keeps [OF sample_members_store_ok sample_instance_requests_wf(1),
      of sample_hash id "Some ''tok''" healthy]
  by (simp add: sample_claim_run)

lemma sample_resume_run:
  "\<exists>rec s'. resume_instance_with_fault sample_hash healthy sample_resume False sample_claimed = (Inr rec, s')"
  by (simp add: eval_simps)

theorem resume_never_preempts_live_owner_witness:
  "\<exists>rec s'. resume_instance_with_fault sample_hash healthy sample_resume False sample_claimed = (Inr rec, s')
     \<and> (\<forall>i \<in> set (db_instances sample_claimed). in_membership_id i = ''mem_1'' \<longrightarrow>
           \<not> live_at (UnixMillis 40000) i)"
proof -
  obtain rec s' where run:
    "resume_instance_with_fault sample_hash healthy sample_resume False sample_claimed = (Inr rec, s')"
    using sample_resume_run by blast
  show ?thesis
    using resume_never_preempts_live_owner [OF sample_claimed_ok sample_instance_requests_wf(2) run] run
    by (simp add: sample_resume_def)
qed

lemma sample_heartbeat_run:
  "\<exists>rec s'. heartbeat_instance sample_hash healthy sample_heartbeat sample_claimed = (Inr rec, s')"
  by (simp add: eval_simps)

theorem heartbeat_authenticated_and_monotone_witness:
  "\<exists>rec s'. heartbeat_instance sample_hash healthy sample_heartbeat sample_claimed = (Inr rec, s')
     \<and> (\<exists>i \<in> set (db_instances sample_claimed).
          in_lease_expires_at i \<le> as_i64 (ir_lease_expires_at rec))"
proof -
  obtain rec s' where run:
    "heartbeat_instance sample_hash healthy sample_heartbeat sample_claimed = (Inr rec, s')"
    using sample_heartbeat_run by blast
  have "valid_time (hb_now sample_heartbeat)"
    using sample_instance_requests_wf(3) by (simp add: HeartbeatInstance_wf_def)
  from heartbeat_authenticated_and_monotone [OF store_okD(1) [OF sample_claimed_ok] this run] run
  show ?thesis by auto
qed

theorem wrong_token_is_concealed_witness:
  "heartbeat_instance sample_hash healthy (sample_heartbeat\<lparr>hb_resume_token := ''bad''\<rparr>) sample_claimed =
     (Inl RepositoryError.NotMember, sample_claimed)"
  using wrong_token_is_concealed [OF store_okD(1) [OF sample_claimed_ok],
      of "sample_heartbeat\<lparr>hb_resume_token := ''bad''\<rparr>" "sample_resume\<lparr>rs_resume_token := ''bad''\<rparr>"]
  by (simp add: sample_heartbeat_def sample_resume_def validate_observation_Inr)
    (simp add: eval_simps)

theorem roster_presence_is_ownership_witness:
  "\<exists>ms. roster healthy ''core'' (UnixMillis 5000) sample_claimed = Inr ms \<and> length ms = 1"
proof -
  let ?q = "new_squad_row ''sqd_1'' ''core'' ''ship'' (UnixMillis 1000)"
  have "?q \<in> set (db_squads sample_claimed)" "sq_name ?q = ''core''"
      "filter (\<lambda>m. mb_squad_id m = sq_id ?q) (db_memberships sample_claimed) =
        [new_membership_row sample_join ''sqd_1'']"
    by (simp_all add: sample_claimed_def sample_members_def sample_squads_def new_membership_row_def)
  then show ?thesis
    using roster_presence_is_ownership [OF sample_claimed_ok, of ?q "''core''" "UnixMillis 5000"]
    by auto
qed

end
