(* ===== verification/Store_Message.thy ===== *)
theory Store_Message
  imports Store_Instance
begin

text \<open>
  \<open>psst-store/src/message.rs\<close>: sending a direct message, with its mandatory dedupe key. The lemmas
  show that a send authorises squad, sender, recipient and reply before it appends exactly one
  row with the next sequence number, and that a retry with the same key returns the first
  record, whatever happened to the first reply, without a second row. \<open>H\<close> is SHA-256.
\<close>

section \<open>Requests and records\<close>

record SendMessage =
  sm_id :: MessageId
  sm_semantics :: MessageSemantics
  sm_dedupe_key :: DedupeKey
  sm_created_at :: UnixMillis

record MessageRecord =
  mg_sequence :: int
  mg_id :: MessageId
  mg_semantics :: MessageSemantics
  mg_dedupe_key :: DedupeKey
  mg_created_at :: UnixMillis

section \<open>Helpers\<close>

fun priority_text :: "MessagePriority \<Rightarrow> string" where
  "priority_text MessagePriority.Normal = ''normal''"
| "priority_text MessagePriority.High = ''high''"

definition parse_priority :: "string \<Rightarrow> rusqlite_error + MessagePriority" where
  "parse_priority v =
     (if v = ''normal'' then Inr MessagePriority.Normal
      else if v = ''high'' then Inr MessagePriority.High
      else Inl invalid_data)"

definition map_decode_error :: "rusqlite_error \<Rightarrow> RepositoryError" where
  "map_decode_error e =
     (if e = InvalidQuery then RepositoryError.InvalidStoredData else repository_error_from e)"

text \<open>The closure of \<open>find_by_dedupe\<close>: squad, sender and key come from the request.\<close>

definition dedupe_row ::
  "(string \<Rightarrow> string) \<Rightarrow> SendMessage \<Rightarrow> message_row \<Rightarrow> rusqlite_error + MessageRecord" where
  "dedupe_row H req r =
     rbind (ensure (ms_body_hash r = H (ms_body r)) invalid_data) (\<lambda>_.
     rbind (parse MessageId_new (ms_id r)) (\<lambda>i.
     rbind (parse MembershipId_new (ms_recipient_membership_id r)) (\<lambda>recipient.
     rbind (parse MessageBody_new (ms_body r)) (\<lambda>body.
     rbind (parse_priority (ms_priority r)) (\<lambda>priority.
     rbind (traverse_opt (parse MessageId_new) (ms_reply_to r)) (\<lambda>reply_to.
     rbind (traverse_opt (parse CorrelationId_new) (ms_correlation_id r)) (\<lambda>correlation_id.
     rbind (timestamp (ms_created_at r)) (\<lambda>created_at.
     Inr \<lparr>mg_sequence = ms_sequence r, mg_id = i,
       mg_semantics = \<lparr>sem_squad = sem_squad (sm_semantics req),
         sem_sender = sem_sender (sm_semantics req), sem_recipient = recipient, sem_body = body,
         sem_priority = priority, sem_reply_to = reply_to, sem_correlation_id = correlation_id\<rparr>,
       mg_dedupe_key = sm_dedupe_key req, mg_created_at = created_at\<rparr>))))))))"

definition dedupe_match :: "SquadId \<Rightarrow> MembershipId \<Rightarrow> DedupeKey \<Rightarrow> message_row \<Rightarrow> bool" where
  "dedupe_match squad sender key r \<longleftrightarrow>
     ms_squad_id r = squad \<and> ms_sender_membership_id r = sender \<and> ms_dedupe_key r = Some key"

definition find_by_dedupe ::
  "(string \<Rightarrow> string) \<Rightarrow> SendMessage \<Rightarrow> db \<Rightarrow> RepositoryError + MessageRecord option" where
  "find_by_dedupe H req s =
     map_err map_decode_error (traverse_opt (dedupe_row H req)
       (List.find (dedupe_match (sem_squad (sm_semantics req)) (sem_sender (sm_semantics req))
          (sm_dedupe_key req)) (db_messages s)))"

definition resolve_retry ::
  "(string \<Rightarrow> string) \<Rightarrow> SendMessage \<Rightarrow> db \<Rightarrow> RepositoryError + (RepositoryError + MessageRecord) option"
  where
  "resolve_retry H req s =
     rbind (find_by_dedupe H req s) (\<lambda>found.
     Inr (map_option (\<lambda>existing.
       if mg_semantics existing = sm_semantics req then Inr existing
       else Inl RepositoryError.IdempotencyConflict) found))"

definition authorize_squad_and_members :: "MessageSemantics \<Rightarrow> db \<Rightarrow> RepositoryError + unit" where
  "authorize_squad_and_members sem s =
     rbind (case map_option sq_state (List.find (\<lambda>r. sq_id r = sem_squad sem) (db_squads s)) of
              None \<Rightarrow> Inl RepositoryError.NotFound
            | Some st \<Rightarrow>
                if st = ''archived'' then Inl RepositoryError.SquadArchived
                else if st = ''active'' then Inr ()
                else Inl RepositoryError.InvalidStoredData) (\<lambda>_.
     rbind (ensure (active_member_of (sem_sender sem) (sem_squad sem) s)
       RepositoryError.NotMember) (\<lambda>_.
     ensure (active_member_of (sem_recipient sem) (sem_squad sem) s)
       RepositoryError.RecipientNotFound))"

definition authorize_reply :: "MessageSemantics \<Rightarrow> db \<Rightarrow> RepositoryError + unit" where
  "authorize_reply sem s =
     (case sem_reply_to sem of
        None \<Rightarrow> Inr ()
      | Some reply_to \<Rightarrow>
          ensure (has_message s reply_to (sem_squad sem)) RepositoryError.InvalidRequest)"

definition new_message_row :: "(string \<Rightarrow> string) \<Rightarrow> SendMessage \<Rightarrow> message_row" where
  "new_message_row H req =
     \<lparr>ms_sequence = 0, ms_id = sm_id req, ms_squad_id = sem_squad (sm_semantics req),
      ms_sender_membership_id = sem_sender (sm_semantics req),
      ms_recipient_membership_id = sem_recipient (sm_semantics req),
      ms_body = sem_body (sm_semantics req), ms_body_hash = H (sem_body (sm_semantics req)),
      ms_priority = priority_text (sem_priority (sm_semantics req)),
      ms_reply_to = sem_reply_to (sm_semantics req),
      ms_correlation_id = sem_correlation_id (sm_semantics req),
      ms_dedupe_key = Some (sm_dedupe_key req), ms_created_at = as_i64 (sm_created_at req),
      ms_acknowledged_at = None\<rparr>"

section \<open>Operations\<close>

definition send_in_transaction ::
  "(string \<Rightarrow> string) \<Rightarrow> SendMessage \<Rightarrow> db \<Rightarrow> RepositoryError + (MessageRecord \<times> db)" where
  "send_in_transaction H req s =
     rbind (resolve_retry H req s) (\<lambda>retry.
     case retry of
       Some result \<Rightarrow> rbind result (\<lambda>rec. Inr (rec, s))
     | None \<Rightarrow>
         rbind (authorize_squad_and_members (sm_semantics req) s) (\<lambda>_.
         rbind (authorize_reply (sm_semantics req) s) (\<lambda>_.
         rbind (sql (insert_message (new_message_row H req) s)) (\<lambda>(sequence, s').
         Inr (\<lparr>mg_sequence = sequence, mg_id = sm_id req, mg_semantics = sm_semantics req,
               mg_dedupe_key = sm_dedupe_key req, mg_created_at = sm_created_at req\<rparr>, s')))))"

definition send_message_with_commit_fault ::
  "(string \<Rightarrow> string) \<Rightarrow> engine \<Rightarrow> SendMessage \<Rightarrow> bool \<Rightarrow> db \<Rightarrow> (RepositoryError + MessageRecord) \<times> db"
  where
  "send_message_with_commit_fault H eng req fail_after_commit s =
     (case transaction eng (send_in_transaction H req) s of
        (Inl e, s') \<Rightarrow> (Inl e, s')
      | (Inr result, s') \<Rightarrow>
          if fail_after_commit then (Inl RepositoryError.InjectedFailure, s')
          else (Inr result, s'))"

definition send_message ::
  "(string \<Rightarrow> string) \<Rightarrow> engine \<Rightarrow> SendMessage \<Rightarrow> db \<Rightarrow> (RepositoryError + MessageRecord) \<times> db" where
  "send_message H eng req = send_message_with_commit_fault H eng req False"

section \<open>Decoding a stored message\<close>

definition priority_of :: "string \<Rightarrow> MessagePriority" where
  "priority_of v = (if v = ''high'' then MessagePriority.High else MessagePriority.Normal)"

text \<open>The record a well-formed row stands for.\<close>

definition message_of :: "message_row \<Rightarrow> MessageRecord" where
  "message_of r =
     \<lparr>mg_sequence = ms_sequence r, mg_id = ms_id r,
      mg_semantics = \<lparr>sem_squad = ms_squad_id r, sem_sender = ms_sender_membership_id r,
        sem_recipient = ms_recipient_membership_id r, sem_body = ms_body r,
        sem_priority = priority_of (ms_priority r), sem_reply_to = ms_reply_to r,
        sem_correlation_id = ms_correlation_id r\<rparr>,
      mg_dedupe_key = the (ms_dedupe_key r), mg_created_at = UnixMillis (ms_created_at r)\<rparr>"

lemma priority_round_trip [simp]: "priority_of (priority_text p) = p"
  by (cases p) (simp_all add: priority_of_def)

lemma priority_column: "priority_text p \<in> {''normal'', ''high''}"
  by (cases p) simp_all

lemma parse_priority_ok:
  "p \<in> {''normal'', ''high''} \<Longrightarrow> parse_priority p = Inr (priority_of p)"
  by (auto simp: parse_priority_def priority_of_def)

lemma optional_parse_ok:
  assumes "case v of None \<Rightarrow> True | Some x \<Rightarrow> is_ok (new x)"
    and "\<And>x. is_ok (new x) \<Longrightarrow> parse new x = Inr x"
  shows "traverse_opt (parse new) v = Inr v"
  using assms by (cases v) auto

lemma message_columns_ok:
  assumes "message_row_ok H r"
  shows "ms_body_hash r = H (ms_body r)"
    and "parse MessageId_new (ms_id r) = Inr (ms_id r)"
    and "parse SquadId_new (ms_squad_id r) = Inr (ms_squad_id r)"
    and "parse MembershipId_new (ms_sender_membership_id r) = Inr (ms_sender_membership_id r)"
    and "parse MembershipId_new (ms_recipient_membership_id r) = Inr (ms_recipient_membership_id r)"
    and "parse MessageBody_new (ms_body r) = Inr (ms_body r)"
    and "parse_priority (ms_priority r) = Inr (priority_of (ms_priority r))"
    and "traverse_opt (parse MessageId_new) (ms_reply_to r) = Inr (ms_reply_to r)"
    and "traverse_opt (parse CorrelationId_new) (ms_correlation_id r) = Inr (ms_correlation_id r)"
    and "timestamp (ms_created_at r) = Inr (UnixMillis (ms_created_at r))"
    and "\<exists>k. ms_dedupe_key r = Some k \<and> parse DedupeKey_new k = Inr k"
proof -
  show "traverse_opt (parse MessageId_new) (ms_reply_to r) = Inr (ms_reply_to r)"
      "traverse_opt (parse CorrelationId_new) (ms_correlation_id r) = Inr (ms_correlation_id r)"
    using assms by (auto simp: message_row_ok_def intro!: optional_parse_ok)
  show "\<exists>k. ms_dedupe_key r = Some k \<and> parse DedupeKey_new k = Inr k"
    using assms by (cases "ms_dedupe_key r") (simp_all add: message_row_ok_def)
  have "ms_priority r \<in> {''normal'', ''high''}"
    using assms unfolding message_row_ok_def message_check_def by blast
  then show "parse_priority (ms_priority r) = Inr (priority_of (ms_priority r))"
    by (rule parse_priority_ok)
qed (use assms in \<open>simp_all add: message_row_ok_def stored_time_def\<close>)

lemma dedupe_row_ok:
  assumes "message_row_ok H r"
    and "dedupe_match (sem_squad (sm_semantics req)) (sem_sender (sm_semantics req)) (sm_dedupe_key req) r"
  shows "dedupe_row H req r = Inr (message_of r)"
  using assms(2) by (simp add: dedupe_row_def message_of_def dedupe_match_def
      message_columns_ok(1,2,5-10) [OF assms(1)])

lemma dedupe_match_unique:
  assumes "db_ok H s" and "r \<in> set (db_messages s)" and "q \<in> set (db_messages s)"
    and "dedupe_match sq m k r" and "dedupe_match sq m k q"
  shows "q = r"
proof -
  have "same_dedupe r q" using assms(4,5) by (simp add: same_dedupe_def dedupe_match_def)
  with assms(1-3) have "ms_id q = ms_id r" unfolding db_ok_def messages_ok_def by blast
  then show ?thesis
    using assms(1-3) distinct_map_unique [of ms_id "db_messages s" q r]
    by (simp add: db_ok_def messages_ok_def)
qed

lemma find_dedupe:
  assumes "db_ok H s"
  shows "List.find (dedupe_match sq m k) (db_messages s) = Some r \<longleftrightarrow>
    r \<in> set (db_messages s) \<and> dedupe_match sq m k r"
  by (rule find_unique_if) (blast dest: dedupe_match_unique [OF assms])

lemma message_row_in: "db_ok H s \<Longrightarrow> r \<in> set (db_messages s) \<Longrightarrow> message_row_ok H r"
  by (simp add: db_ok_def messages_ok_def)

lemma find_by_dedupe_ok:
  assumes "db_ok H s"
  shows "find_by_dedupe H req s =
    Inr (map_option message_of (List.find (dedupe_match (sem_squad (sm_semantics req))
      (sem_sender (sm_semantics req)) (sm_dedupe_key req)) (db_messages s)))"
proof -
  let ?found = "List.find (dedupe_match (sem_squad (sm_semantics req))
      (sem_sender (sm_semantics req)) (sm_dedupe_key req)) (db_messages s)"
  have "traverse_opt (dedupe_row H req) ?found = Inr (map_option message_of ?found)"
    by (rule traverse_opt_id) (auto simp: find_dedupe [OF assms] dedupe_row_ok message_row_in [OF assms])
  then show ?thesis by (simp add: find_by_dedupe_def)
qed

text \<open>The retry lookup in a well-formed store, by cases.\<close>

lemma resolve_retry_ok:
  assumes "db_ok H s"
  shows "resolve_retry H req s =
    Inr (map_option (\<lambda>r. if mg_semantics (message_of r) = sm_semantics req then Inr (message_of r)
        else Inl RepositoryError.IdempotencyConflict)
      (List.find (dedupe_match (sem_squad (sm_semantics req)) (sem_sender (sm_semantics req))
        (sm_dedupe_key req)) (db_messages s)))"
  by (simp add: resolve_retry_def find_by_dedupe_ok [OF assms] option.map_comp comp_def)

section \<open>Well-formed sends\<close>

definition SendMessage_wf :: "SendMessage \<Rightarrow> bool" where
  "SendMessage_wf req \<longleftrightarrow>
     is_ok (MessageId_new (sm_id req)) \<and> is_ok (SquadId_new (sem_squad (sm_semantics req)))
     \<and> is_ok (MembershipId_new (sem_sender (sm_semantics req)))
     \<and> is_ok (MembershipId_new (sem_recipient (sm_semantics req)))
     \<and> is_ok (MessageBody_new (sem_body (sm_semantics req)))
     \<and> (case sem_reply_to (sm_semantics req) of None \<Rightarrow> True | Some m \<Rightarrow> is_ok (MessageId_new m))
     \<and> (case sem_correlation_id (sm_semantics req) of None \<Rightarrow> True
         | Some c \<Rightarrow> is_ok (CorrelationId_new c))
     \<and> is_ok (DedupeKey_new (sm_dedupe_key req)) \<and> valid_time (sm_created_at req)"

lemma new_message_row_ok:
  "SendMessage_wf req \<Longrightarrow> message_check (new_message_row H req) \<Longrightarrow>
     message_row_ok H (new_message_row H req)"
  by (simp add: message_row_ok_def SendMessage_wf_def) (simp add: new_message_row_def)

lemma message_of_new:
  "message_of ((new_message_row H req)\<lparr>ms_sequence := n\<rparr>) =
     \<lparr>mg_sequence = n, mg_id = sm_id req, mg_semantics = sm_semantics req,
      mg_dedupe_key = sm_dedupe_key req, mg_created_at = sm_created_at req\<rparr>"
  by (simp add: message_of_def new_message_row_def)

lemma new_message_row_match:
  "dedupe_match (sem_squad (sm_semantics req)) (sem_sender (sm_semantics req)) (sm_dedupe_key req)
     ((new_message_row H req)\<lparr>ms_sequence := n\<rparr>)"
  by (simp add: dedupe_match_def new_message_row_def)

text \<open>The two ways a send commits: a replay of the stored row, or one new row.\<close>

lemma send_in_transaction_cases:
  assumes "db_ok H s" and "send_in_transaction H req s = Inr (rec, s')"
  obtains (replay) r where "r \<in> set (db_messages s)" "rec = message_of r" "s' = s"
      "dedupe_match (sem_squad (sm_semantics req)) (sem_sender (sm_semantics req)) (sm_dedupe_key req) r"
      "mg_semantics rec = sm_semantics req"
  | (fresh) n where
      "\<forall>r \<in> set (db_messages s). \<not> dedupe_match (sem_squad (sm_semantics req))
         (sem_sender (sm_semantics req)) (sm_dedupe_key req) r"
      "authorize_squad_and_members (sm_semantics req) s = Inr ()"
      "authorize_reply (sm_semantics req) s = Inr ()"
      "insert_message (new_message_row H req) s = Inr (n, s')"
      "rec = message_of ((new_message_row H req)\<lparr>ms_sequence := n\<rparr>)"
proof (cases "List.find (dedupe_match (sem_squad (sm_semantics req)) (sem_sender (sm_semantics req))
    (sm_dedupe_key req)) (db_messages s)")
  case None
  with assms(2) obtain n where "authorize_squad_and_members (sm_semantics req) s = Inr ()"
      "authorize_reply (sm_semantics req) s = Inr ()"
      "insert_message (new_message_row H req) s = Inr (n, s')"
      "rec = message_of ((new_message_row H req)\<lparr>ms_sequence := n\<rparr>)"
    by (auto simp: send_in_transaction_def resolve_retry_ok [OF assms(1)] result_simps message_of_new)
  with None show thesis by (intro fresh [of n]) (auto simp: find_None_iff)
next
  case (Some r)
  with assms(2) have "rec = message_of r" "s' = s" "mg_semantics rec = sm_semantics req"
    by (auto simp: send_in_transaction_def resolve_retry_ok [OF assms(1)] result_simps
        split: if_splits)
  with Some show thesis by (intro replay [of r]) (auto simp: find_dedupe [OF assms(1)])
qed

lemma send_in_transaction_ok:
  assumes "db_ok H s" and "SendMessage_wf req" and "send_in_transaction H req s = Inr (rec, s')"
  shows "db_ok H s'"
  using assms(1,3)
proof (cases rule: send_in_transaction_cases)
  case (fresh n)
  have "message_check (new_message_row H req)" using fresh(4) by (simp add: insert_message_Inr)
  then have "message_row_ok H (new_message_row H req)" by (rule new_message_row_ok [OF assms(2)])
  with assms(1) fresh(4) show ?thesis by (rule insert_message_ok)
qed (use assms in simp)

lemma send_message_snd:
  "snd (send_message_with_commit_fault H eng req f s) = s
   \<or> (\<exists>rec. send_in_transaction H req s = Inr (rec, snd (send_message_with_commit_fault H eng req f s)))"
  by (auto simp: send_message_with_commit_fault_def transaction_def split: option.splits sum.splits)

lemma send_message_keeps:
  assumes "db_ok H s" and "SendMessage_wf req"
  shows "db_ok H (snd (send_message_with_commit_fault H eng req f s))"
  using send_message_snd [of H eng req f s] assms send_in_transaction_ok [OF assms] by auto

section \<open>Authorisation and idempotence\<close>

lemma active_member_of_iff:
  "active_member_of m sq s \<longleftrightarrow>
     (\<exists>r \<in> set (db_memberships s). mb_id r = m \<and> mb_squad_id r = sq \<and> is_active_member r)"
  by (auto simp: active_member_of_def list_ex_iff is_active_member_def)

lemma authorize_squad_and_members_Inr:
  assumes "db_ok H s"
  shows "authorize_squad_and_members sem s = Inr u \<longleftrightarrow>
    (\<exists>q \<in> set (db_squads s). sq_id q = sem_squad sem \<and> sq_state q = ''active'')
    \<and> active_member_of (sem_sender sem) (sem_squad sem) s
    \<and> active_member_of (sem_recipient sem) (sem_squad sem) s"
proof (cases "List.find (\<lambda>r. sq_id r = sem_squad sem) (db_squads s)")
  case None
  then have "\<not> (\<exists>q \<in> set (db_squads s). sq_id q = sem_squad sem)" by (auto simp: find_None_iff)
  with None show ?thesis by (auto simp: authorize_squad_and_members_def)
next
  case (Some q)
  then have q: "q \<in> set (db_squads s)" "sq_id q = sem_squad sem"
    by (auto dest: find_SomeD)
  have "sq_state p = sq_state q" if "p \<in> set (db_squads s)" "sq_id p = sem_squad sem" for p
  proof -
    from that have "List.find (\<lambda>r. sq_id r = sem_squad sem) (db_squads s) = Some p"
      using squad_by_id_unique [OF db_okD(1) [OF assms]] by blast
    with Some show ?thesis by simp
  qed
  then have "(\<exists>p \<in> set (db_squads s). sq_id p = sem_squad sem \<and> sq_state p = ''active'') \<longleftrightarrow>
      sq_state q = ''active''"
    using q by metis
  moreover have "authorize_squad_and_members sem s = Inr u \<longleftrightarrow>
      sq_state q = ''active'' \<and> active_member_of (sem_sender sem) (sem_squad sem) s
      \<and> active_member_of (sem_recipient sem) (sem_squad sem) s"
    by (auto simp: authorize_squad_and_members_def result_simps Some)
  ultimately show ?thesis by simp
qed

text \<open>
  A send that stores a new message was authorised and appends exactly one row: the squad is
  active, sender and recipient are active members of it, a reply answers a message of the same
  squad, nothing was stored under the dedupe key before, and the new row carries the next
  sequence number, above every existing one. Nothing else changes, and a send that fails before
  its commit changes nothing.
\<close>

theorem send_authorises_and_appends:
  assumes "db_ok H s" and "SendMessage_wf req" and "send_message H eng req s = (r, s')"
  shows "case r of
      Inl e \<Rightarrow> s' = s
    | Inr rec \<Rightarrow>
        mg_semantics rec = sm_semantics req \<and> mg_dedupe_key rec = sm_dedupe_key req
        \<and> (s' = s \<or>
            (\<exists>q \<in> set (db_squads s). sq_id q = sem_squad (sm_semantics req) \<and> sq_state q = ''active'')
            \<and> active_member_of (sem_sender (sm_semantics req)) (sem_squad (sm_semantics req)) s
            \<and> active_member_of (sem_recipient (sm_semantics req)) (sem_squad (sm_semantics req)) s
            \<and> (\<forall>m. sem_reply_to (sm_semantics req) = Some m \<longrightarrow>
                 has_message s m (sem_squad (sm_semantics req)))
            \<and> (\<forall>q \<in> set (db_messages s). ms_sequence q < mg_sequence rec)
            \<and> s' = s\<lparr>db_messages := db_messages s @
                  [(new_message_row H req)\<lparr>ms_sequence := mg_sequence rec\<rparr>],
                db_sequence := mg_sequence rec\<rparr>)"
proof (cases r)
  case (Inl e)
  with assms(3) show ?thesis
    by (auto simp: send_message_def send_message_with_commit_fault_def
        dest: transaction_error_rolls_back split: prod.splits sum.splits)
next
  case (Inr rec)
  with assms(3) have send: "send_in_transaction H req s = Inr (rec, s')"
    by (auto simp: send_message_def send_message_with_commit_fault_def transaction_Inr
        split: prod.splits sum.splits)
  from assms(1) send show ?thesis
  proof (cases rule: send_in_transaction_cases)
    case (replay q)
    then have "mg_dedupe_key rec = sm_dedupe_key req"
      by (simp add: message_of_def dedupe_match_def)
    with replay Inr show ?thesis by simp
  next
    case (fresh n)
    have rec: "mg_sequence rec = n" "mg_semantics rec = sm_semantics req"
        "mg_dedupe_key rec = sm_dedupe_key req"
      using fresh(5) by (simp_all add: message_of_new)
    have "\<forall>q \<in> set (db_messages s). ms_sequence q < n"
      using assms(1) fresh(4) by (auto simp: insert_message_Inr db_ok_def messages_ok_def)
    moreover have "\<forall>m. sem_reply_to (sm_semantics req) = Some m \<longrightarrow>
        has_message s m (sem_squad (sm_semantics req))"
      using fresh(3) by (auto simp: authorize_reply_def result_simps)
    ultimately show ?thesis
      using Inr rec fresh(2,4)
      by (simp add: authorize_squad_and_members_Inr [OF assms(1)] insert_message_Inr)
  qed
qed

lemma send_replays:
  assumes "db_ok H s" and "r \<in> set (db_messages s)"
    and "dedupe_match (sem_squad (sm_semantics req)) (sem_sender (sm_semantics req)) (sm_dedupe_key req) r"
  shows "send_message H healthy req s =
    ((if mg_semantics (message_of r) = sm_semantics req then Inr (message_of r)
      else Inl RepositoryError.IdempotencyConflict), s)"
proof -
  have "List.find (dedupe_match (sem_squad (sm_semantics req)) (sem_sender (sm_semantics req))
      (sm_dedupe_key req)) (db_messages s) = Some r"
    using assms by (simp add: find_dedupe)
  then show ?thesis
    by (simp add: send_message_def send_message_with_commit_fault_def transaction_healthy
        send_in_transaction_def resolve_retry_ok [OF assms(1)])
qed

lemma committed_send_is_stored:
  assumes "db_ok H s" and "send_in_transaction H req s = Inr (rec, s')"
  shows "\<exists>r \<in> set (db_messages s'). message_of r = rec \<and> mg_semantics rec = sm_semantics req
    \<and> dedupe_match (sem_squad (sm_semantics req)) (sem_sender (sm_semantics req)) (sm_dedupe_key req) r"
  using assms
proof (cases rule: send_in_transaction_cases)
  case (replay r)
  then show ?thesis by (auto intro!: bexI [of _ r])
next
  case (fresh n)
  then have "(new_message_row H req)\<lparr>ms_sequence := n\<rparr> \<in> set (db_messages s')"
    by (simp add: insert_message_Inr)
  with fresh(5) show ?thesis
    by (intro bexI) (auto simp: new_message_row_match message_of_new)
qed

section \<open>Concrete runs\<close>

definition sample_pair :: db where
  "sample_pair = sample_claimed\<lparr>
     db_agents := db_agents sample_claimed @ [\<lparr>ag_id = ''agt_2'', ag_created_at = 2500\<rparr>],
     db_memberships := db_memberships sample_claimed @ [new_membership_row
       (sample_join\<lparr>jm_agent_id := ''agt_2'', jm_membership_id := ''mem_2'', jm_member_name := ''bob'',
          jm_joined_at := UnixMillis 2500\<rparr>) ''sqd_1'']\<rparr>"

definition sample_send :: SendMessage where
  "sample_send = \<lparr>sm_id = ''msg_1'',
     sm_semantics = \<lparr>sem_squad = ''sqd_1'', sem_sender = ''mem_1'', sem_recipient = ''mem_2'',
       sem_body = ''hi'', sem_priority = MessagePriority.Normal, sem_reply_to = None,
       sem_correlation_id = None\<rparr>,
     sm_dedupe_key = ''k1'', sm_created_at = UnixMillis 5000\<rparr>"

definition sample_sent :: db where
  "sample_sent = sample_pair\<lparr>
     db_messages := [(new_message_row sample_hash sample_send)\<lparr>ms_sequence := 1\<rparr>], db_sequence := 1\<rparr>"

lemmas [eval_simps] = sample_pair_def sample_send_def sample_sent_def new_message_row_def
  find_by_dedupe_def dedupe_row_def dedupe_match_def resolve_retry_def map_decode_error_def
  authorize_squad_and_members_def authorize_reply_def send_in_transaction_def
  send_message_with_commit_fault_def send_message_def message_of_def priority_of_def
  SendMessage_wf_def

lemma sample_send_wf [simp]: "SendMessage_wf sample_send"
  by (simp add: eval_simps)

lemma sample_pair_run:
  "join_with_fault healthy (sample_join\<lparr>jm_agent_id := ''agt_2'', jm_membership_id := ''mem_2'',
     jm_member_name := ''bob'', jm_joined_at := UnixMillis 2500\<rparr>) None sample_claimed =
   (Inr (joined_record (sample_join\<lparr>jm_agent_id := ''agt_2'', jm_membership_id := ''mem_2'',
     jm_member_name := ''bob'', jm_joined_at := UnixMillis 2500\<rparr>) ''sqd_1''), sample_pair)"
  by (simp add: eval_simps)

lemma sample_pair_ok [simp]: "db_ok sample_hash sample_pair"
proof -
  have "JoinMembership_wf (sample_join\<lparr>jm_agent_id := ''agt_2'', jm_membership_id := ''mem_2'',
     jm_member_name := ''bob'', jm_joined_at := UnixMillis 2500\<rparr>)"
    by (simp add: eval_simps)
  from join_keeps [OF store_okD(1) [OF sample_claimed_ok] this, of healthy None]
  show ?thesis by (simp add: sample_pair_run)
qed

lemma sample_send_run:
  "send_in_transaction sample_hash sample_send sample_pair =
     Inr (message_of ((new_message_row sample_hash sample_send)\<lparr>ms_sequence := 1\<rparr>), sample_sent)"
  by (simp add: eval_simps)

lemma sample_send_message_run:
  "send_message sample_hash healthy sample_send sample_pair =
     (Inr (message_of ((new_message_row sample_hash sample_send)\<lparr>ms_sequence := 1\<rparr>)), sample_sent)"
  "send_message_with_commit_fault sample_hash healthy sample_send True sample_pair =
     (Inl RepositoryError.InjectedFailure, sample_sent)"
  by (simp_all add: send_message_def send_message_with_commit_fault_def transaction_healthy
      sample_send_run)

theorem send_authorises_and_appends_witness:
  "active_member_of ''mem_2'' ''sqd_1'' sample_pair \<or> sample_sent = sample_pair"
  using send_authorises_and_appends [OF sample_pair_ok sample_send_wf sample_send_message_run(1)]
  by (auto simp: sample_send_def)

end
