(* ===== verification/Store_Inbox.thy ===== *)
theory Store_Inbox
  imports Store_Message
begin

text \<open>
  \<open>psst-store/src/inbox.rs\<close>: reading a bounded prefix of a member's pending inbox, and
  acknowledging enumerated messages in one transaction. The lemmas show that a page is an
  ascending prefix within both bounds that always makes progress, and that an acknowledgement is
  all or nothing, touches only the recipient's own messages and keeps the first acknowledgement
  time. The iteration order of the \<open>HashSet\<close> of ids is the parameter \<open>hash_order\<close>.
\<close>

section \<open>Bounds and requests\<close>

definition MAX_INBOX_MESSAGES :: nat where "MAX_INBOX_MESSAGES = 100"

definition MAX_INBOX_OUTPUT_BYTES :: nat where "MAX_INBOX_OUTPUT_BYTES = 1024 * 1024"

definition MAX_ACK_MESSAGES :: nat where "MAX_ACK_MESSAGES = 100"

record InboxQuery =
  iq_recipient :: MembershipId
  iq_limit :: nat

record AcknowledgeMessages =
  ak_recipient :: MembershipId
  ak_message_ids :: "MessageId list"
  ak_acknowledged_at :: UnixMillis

text \<open>\<open>usize\<close> arithmetic on a 64-bit target.\<close>

definition usize_max :: nat where "usize_max = 2 ^ 64 - 1"

definition usize_checked_add :: "nat \<Rightarrow> nat \<Rightarrow> nat option" where
  "usize_checked_add a b = (if a + b \<le> usize_max then Some (a + b) else None)"

definition saturating_add :: "nat \<Rightarrow> nat \<Rightarrow> nat" where
  "saturating_add a b = min (a + b) usize_max"

definition saturating_mul :: "nat \<Rightarrow> nat \<Rightarrow> nat" where
  "saturating_mul a b = min (a * b) usize_max"

section \<open>Reading the inbox\<close>

definition map_message :: "(string \<Rightarrow> string) \<Rightarrow> message_row \<Rightarrow> rusqlite_error + MessageRecord" where
  "map_message H r =
     rbind (ensure (ms_body_hash r = H (ms_body r)) invalid_data) (\<lambda>_.
     rbind (parse MessageId_new (ms_id r)) (\<lambda>i.
     rbind (parse SquadId_new (ms_squad_id r)) (\<lambda>squad.
     rbind (parse MembershipId_new (ms_sender_membership_id r)) (\<lambda>sender.
     rbind (parse MembershipId_new (ms_recipient_membership_id r)) (\<lambda>recipient.
     rbind (parse MessageBody_new (ms_body r)) (\<lambda>body.
     rbind (parse_priority (ms_priority r)) (\<lambda>priority.
     rbind (traverse_opt (parse MessageId_new) (ms_reply_to r)) (\<lambda>reply_to.
     rbind (traverse_opt (parse CorrelationId_new) (ms_correlation_id r)) (\<lambda>correlation_id.
     rbind (rbind (ok_or InvalidColumnType (ms_dedupe_key r)) (parse DedupeKey_new)) (\<lambda>dedupe_key.
     rbind (timestamp (ms_created_at r)) (\<lambda>created_at.
     Inr \<lparr>mg_sequence = ms_sequence r, mg_id = i,
       mg_semantics = \<lparr>sem_squad = squad, sem_sender = sender, sem_recipient = recipient,
         sem_body = body, sem_priority = priority, sem_reply_to = reply_to,
         sem_correlation_id = correlation_id\<rparr>,
       mg_dedupe_key = dedupe_key, mg_created_at = created_at\<rparr>)))))))))))"

definition conservative_serialized_size :: "MessageRecord \<Rightarrow> nat" where
  "conservative_serialized_size m =
     (let STRUCTURAL_OVERHEAD = 512;
          variable_bytes = length (mg_id m) + length (sem_squad (mg_semantics m))
            + length (sem_sender (mg_semantics m)) + length (sem_recipient (mg_semantics m))
            + length (sem_body (mg_semantics m)) + length (mg_dedupe_key m)
            + (case sem_reply_to (mg_semantics m) of None \<Rightarrow> 0 | Some v \<Rightarrow> length v)
            + (case sem_correlation_id (mg_semantics m) of None \<Rightarrow> 0 | Some v \<Rightarrow> length v) in
      saturating_add (saturating_mul variable_bytes 6) STRUCTURAL_OVERHEAD)"

text \<open>The loop over the rows: \<open>messages\<close> are those already pushed.\<close>

fun fill_page ::
  "(string \<Rightarrow> string) \<Rightarrow> nat \<Rightarrow> MessageRecord list \<Rightarrow> message_row list
   \<Rightarrow> RepositoryError + MessageRecord list" where
  "fill_page H estimated_bytes messages [] = Inr messages"
| "fill_page H estimated_bytes messages (row # rows) =
     rbind (map_err map_decode_error (map_message H row)) (\<lambda>message.
     let item_bytes = conservative_serialized_size message;
         separator = (if messages = [] then 0 else 1) in
     case Option.bind (usize_checked_add estimated_bytes separator)
            (\<lambda>sz. usize_checked_add sz item_bytes) of
       None \<Rightarrow> Inr messages
     | Some sz \<Rightarrow>
         if sz > MAX_INBOX_OUTPUT_BYTES then Inr messages
         else fill_page H (estimated_bytes + (separator + item_bytes)) (messages @ [message]) rows)"

definition pending_rows :: "MembershipId \<Rightarrow> db \<Rightarrow> message_row list" where
  "pending_rows recipient s =
     sort_key ms_sequence (filter (\<lambda>r. ms_recipient_membership_id r = recipient
       \<and> ms_acknowledged_at r = None) (db_messages s))"

definition pending_inbox_on ::
  "(string \<Rightarrow> string) \<Rightarrow> InboxQuery \<Rightarrow> db \<Rightarrow> RepositoryError + MessageRecord list" where
  "pending_inbox_on H query s =
     (if \<not> (1 \<le> iq_limit query \<and> iq_limit query \<le> MAX_INBOX_MESSAGES)
      then Inl RepositoryError.InvalidRequest
      else fill_page H 2 [] (take (iq_limit query) (pending_rows (iq_recipient query) s)))"

definition pending_inbox ::
  "(string \<Rightarrow> string) \<Rightarrow> engine \<Rightarrow> InboxQuery \<Rightarrow> db \<Rightarrow> RepositoryError + MessageRecord list" where
  "pending_inbox H eng query = read_with eng (pending_inbox_on H query)"

section \<open>Acknowledging\<close>

text \<open>The first loop: the distinct ids, each checked to belong to the recipient.\<close>

fun collect_owned ::
  "(MessageId \<Rightarrow> bool) \<Rightarrow> MessageId list \<Rightarrow> MessageId list \<Rightarrow> RepositoryError + MessageId list" where
  "collect_owned owned distinct_ids [] = Inr distinct_ids"
| "collect_owned owned distinct_ids (i # ids) =
     (if i \<in> set distinct_ids then collect_owned owned distinct_ids ids
      else if owned i then collect_owned owned (distinct_ids @ [i]) ids
      else Inl RepositoryError.NotFound)"

text \<open>The second loop, over the set in its iteration order.\<close>

fun ack_updates ::
  "MembershipId \<Rightarrow> UnixMillis \<Rightarrow> bool \<Rightarrow> nat \<Rightarrow> MessageId list \<Rightarrow> db \<Rightarrow> RepositoryError + db" where
  "ack_updates recipient t fail_after_first_update index [] s = Inr s"
| "ack_updates recipient t fail_after_first_update index (i # ids) s =
     (let s' = ack_where (\<lambda>r. ms_id r = i \<and> ms_recipient_membership_id r = recipient
                  \<and> ms_acknowledged_at r = None) (as_i64 t) s in
      if fail_after_first_update \<and> index = 0 then Inl RepositoryError.InjectedFailure
      else ack_updates recipient t fail_after_first_update (index + 1) ids s')"

definition acknowledge_on ::
  "(MessageId list \<Rightarrow> MessageId list) \<Rightarrow> AcknowledgeMessages \<Rightarrow> bool \<Rightarrow> db \<Rightarrow> RepositoryError + (unit \<times> db)"
  where
  "acknowledge_on hash_order req fail_after_first_update s =
     rbind (collect_owned (\<lambda>i. list_ex (\<lambda>r. ms_id r = i
       \<and> ms_recipient_membership_id r = ak_recipient req) (db_messages s)) [] (ak_message_ids req))
     (\<lambda>distinct_ids.
     rbind (ack_updates (ak_recipient req) (ak_acknowledged_at req) fail_after_first_update 0
       (hash_order distinct_ids) s) (\<lambda>s'. Inr ((), s')))"

definition acknowledge_messages_with_fault ::
  "(MessageId list \<Rightarrow> MessageId list) \<Rightarrow> engine \<Rightarrow> AcknowledgeMessages \<Rightarrow> bool \<Rightarrow> db
   \<Rightarrow> (RepositoryError + unit) \<times> db" where
  "acknowledge_messages_with_fault hash_order eng req fail_after_first_update s =
     (if \<not> (1 \<le> length (ak_message_ids req) \<and> length (ak_message_ids req) \<le> MAX_ACK_MESSAGES)
      then (Inl RepositoryError.InvalidRequest, s)
      else transaction eng (acknowledge_on hash_order req fail_after_first_update) s)"

definition acknowledge_messages ::
  "(MessageId list \<Rightarrow> MessageId list) \<Rightarrow> engine \<Rightarrow> AcknowledgeMessages \<Rightarrow> db
   \<Rightarrow> (RepositoryError + unit) \<times> db" where
  "acknowledge_messages hash_order eng req = acknowledge_messages_with_fault hash_order eng req False"

section \<open>Pages\<close>

lemma map_message_ok:
  assumes "message_row_ok H r"
  shows "map_message H r = Inr (message_of r)"
proof -
  obtain k where "ms_dedupe_key r = Some k" "parse DedupeKey_new k = Inr k"
    using message_columns_ok(11) [OF assms] by blast
  then show ?thesis
    by (simp add: map_message_def message_of_def message_columns_ok(1-10) [OF assms])
qed

lemma pending_rows_set:
  "r \<in> set (pending_rows m s) \<longleftrightarrow>
     r \<in> set (db_messages s) \<and> ms_recipient_membership_id r = m \<and> is_pending r"
  by (auto simp: pending_rows_def is_pending_def)

lemma pending_rows_ascending:
  assumes "db_ok H s"
  shows "sorted_wrt (\<lambda>a b. ms_sequence a < ms_sequence b) (pending_rows m s)"
proof -
  let ?rows = "filter (\<lambda>r. ms_recipient_membership_id r = m \<and> ms_acknowledged_at r = None) (db_messages s)"
  have "sorted_wrt (<) (map ms_sequence (db_messages s))"
    using assms by (simp add: db_ok_def messages_ok_def)
  then have "sorted_wrt (\<lambda>a b. ms_sequence a < ms_sequence b) ?rows"
    by (simp add: sorted_wrt_map sorted_wrt_filter)
  moreover from this have "sorted (map ms_sequence ?rows)"
    by (simp add: sorted_wrt_map) (erule sorted_wrt_mono_rel [rotated], simp)
  then have "pending_rows m s = ?rows" by (simp add: pending_rows_def sort_key_id_if_sorted)
  ultimately show ?thesis by simp
qed

text \<open>The estimate of a whole page: brackets, separators and items.\<close>

fun page_estimate :: "MessageRecord list \<Rightarrow> nat" where
  "page_estimate ms = 2 + (length ms - 1) + sum_list (map conservative_serialized_size ms)"

lemma conservative_size_bound:
  assumes "message_row_ok H r"
  shows "conservative_serialized_size (message_of r) \<le> 400640"
proof -
  have ids: "length (ms_id r) \<le> 128" "length (ms_squad_id r) \<le> 128"
      "length (ms_sender_membership_id r) \<le> 128" "length (ms_recipient_membership_id r) \<le> 128"
      "length (ms_body r) \<le> 65536"
    using assms message_id.accepted_bounds squad_id.accepted_bounds membership_id.accepted_bounds
      message_body.accepted_bounds
    by (auto simp: message_row_ok_def MAX_BYTES_def)
  have key: "length (the (ms_dedupe_key r)) \<le> 256"
    using assms dedupe_key.accepted_bounds
    by (auto simp: message_row_ok_def split: option.splits)
  have reply: "(case ms_reply_to r of None \<Rightarrow> 0 | Some v \<Rightarrow> length v) \<le> 128"
    using assms message_id.accepted_bounds by (auto simp: message_row_ok_def split: option.splits)
  have corr: "(case ms_correlation_id r of None \<Rightarrow> 0 | Some v \<Rightarrow> length v) \<le> 256"
    using assms correlation_id.accepted_bounds
    by (auto simp: message_row_ok_def split: option.splits)
  show ?thesis
    using ids key reply corr
    by (simp add: conservative_serialized_size_def message_of_def saturating_add_def
        saturating_mul_def Let_def min_def)
qed

lemma page_estimate_snoc:
  "page_estimate (ms @ [m]) =
     page_estimate ms + ((if ms = [] then 0 else 1) + conservative_serialized_size m)"
  by (cases ms) simp_all

declare page_estimate.simps [simp del]

lemma fill_page_step:
  assumes "message_row_ok H row" and "est \<le> MAX_INBOX_OUTPUT_BYTES"
  shows "fill_page H est ms (row # rows) =
    (let est' = est + ((if ms = [] then 0 else 1) + conservative_serialized_size (message_of row)) in
     if est' > MAX_INBOX_OUTPUT_BYTES then Inr ms
     else fill_page H est' (ms @ [message_of row]) rows)"
proof -
  have "est + 1 + conservative_serialized_size (message_of row) \<le> usize_max"
    using assms(2) conservative_size_bound [OF assms(1)]
    by (simp add: MAX_INBOX_OUTPUT_BYTES_def usize_max_def)
  then show ?thesis
    by (simp add: map_message_ok [OF assms(1)] usize_checked_add_def Let_def)
qed

text \<open>
  The loop stops at the first message that would not fit: the page is the longest prefix whose
  estimate stays within the bound.
\<close>

lemma fill_page_longest_prefix:
  assumes "\<forall>r \<in> set rows. message_row_ok H r" and "page_estimate ms \<le> MAX_INBOX_OUTPUT_BYTES"
  shows "\<exists>k \<le> length rows.
    fill_page H (page_estimate ms) ms rows = Inr (ms @ map message_of (take k rows))
    \<and> page_estimate (ms @ map message_of (take k rows)) \<le> MAX_INBOX_OUTPUT_BYTES
    \<and> (k < length rows \<longrightarrow>
        MAX_INBOX_OUTPUT_BYTES < page_estimate (ms @ map message_of (take (Suc k) rows)))"
  using assms
proof (induction rows arbitrary: ms)
  case Nil
  then show ?case by simp
next
  case (Cons row rows)
  let ?ms = "ms @ [message_of row]"
  have step: "fill_page H (page_estimate ms) ms (row # rows) =
      (if page_estimate ?ms > MAX_INBOX_OUTPUT_BYTES then Inr ms
       else fill_page H (page_estimate ?ms) ?ms rows)"
    using Cons.prems by (subst fill_page_step) (simp_all add: Let_def page_estimate_snoc)
  show ?case
  proof (cases "page_estimate ?ms > MAX_INBOX_OUTPUT_BYTES")
    case True
    with step Cons.prems show ?thesis by (intro exI [of _ 0]) simp
  next
    case False
    with Cons.prems Cons.IH [of ?ms] obtain k where k: "k \<le> length rows"
        "fill_page H (page_estimate ?ms) ?ms rows = Inr (?ms @ map message_of (take k rows))"
        "page_estimate (?ms @ map message_of (take k rows)) \<le> MAX_INBOX_OUTPUT_BYTES"
        "k < length rows \<longrightarrow>
          MAX_INBOX_OUTPUT_BYTES < page_estimate (?ms @ map message_of (take (Suc k) rows))"
      by auto
    with step False show ?thesis by (intro exI [of _ "Suc k"]) simp
  qed
qed

lemma page_of_one:
  "message_row_ok H r \<Longrightarrow> page_estimate [message_of r] \<le> MAX_INBOX_OUTPUT_BYTES"
  using conservative_size_bound [of H r]
  by (simp add: page_estimate.simps MAX_INBOX_OUTPUT_BYTES_def)

lemma pending_inbox_on_prefix:
  assumes "db_ok H s" and "1 \<le> iq_limit q" and "iq_limit q \<le> MAX_INBOX_MESSAGES"
  shows "\<exists>k. pending_inbox_on H q s = Inr (map message_of (take k (pending_rows (iq_recipient q) s)))
    \<and> k \<le> iq_limit q \<and> (pending_rows (iq_recipient q) s \<noteq> [] \<longrightarrow> 1 \<le> k)
    \<and> page_estimate (map message_of (take k (pending_rows (iq_recipient q) s))) \<le> MAX_INBOX_OUTPUT_BYTES
    \<and> (k < iq_limit q \<and> k < length (pending_rows (iq_recipient q) s) \<longrightarrow>
        MAX_INBOX_OUTPUT_BYTES <
          page_estimate (map message_of (take (Suc k) (pending_rows (iq_recipient q) s))))"
proof -
  let ?all = "pending_rows (iq_recipient q) s"
  let ?rows = "take (iq_limit q) ?all"
  have all_ok: "\<forall>r \<in> set ?all. message_row_ok H r"
    by (simp add: pending_rows_set message_row_in [OF assms(1)])
  then have ok: "\<forall>r \<in> set ?rows. message_row_ok H r"
    by (auto dest: in_set_takeD)
  have start: "page_estimate [] = 2" "page_estimate [] \<le> MAX_INBOX_OUTPUT_BYTES"
    by (simp_all add: page_estimate.simps MAX_INBOX_OUTPUT_BYTES_def)
  obtain k where k: "k \<le> length ?rows"
      "fill_page H 2 [] ?rows = Inr (map message_of (take k ?rows))"
      "page_estimate (map message_of (take k ?rows)) \<le> MAX_INBOX_OUTPUT_BYTES"
      "k < length ?rows \<longrightarrow> MAX_INBOX_OUTPUT_BYTES < page_estimate (map message_of (take (Suc k) ?rows))"
    using fill_page_longest_prefix [OF ok start(2)] unfolding start(1) append_Nil by blast
  have "1 \<le> k" if pending: "?all \<noteq> []"
  proof (rule ccontr)
    assume "\<not> 1 \<le> k"
    then have "k = 0" by simp
    obtain r rest where r: "?all = r # rest" using pending by (cases ?all) auto
    have "0 < length ?rows" using assms(2) pending by simp
    with k(4) \<open>k = 0\<close> have "MAX_INBOX_OUTPUT_BYTES < page_estimate (map message_of (take 1 ?rows))"
      by simp
    moreover have "take 1 ?rows = [r]" using assms(2) r by (simp add: take_Cons')
    ultimately show False using page_of_one [of H r] all_ok r by simp
  qed
  moreover have lim: "k \<le> iq_limit q" using k(1) by simp
  moreover from lim have "take k ?rows = take k ?all" by (simp add: min_absorb1)
  moreover have "take (Suc k) ?rows = take (Suc k) ?all" if "k < iq_limit q"
    using that by (simp add: min_absorb1)
  ultimately show ?thesis
    using k assms(2,3) by (intro exI [of _ k]) (auto simp: pending_inbox_on_def)
qed

text \<open>
  (C19) An inbox page is an honest, bounded prefix. In a well-formed store, for a limit between 1
  and 100, the read succeeds with the decoded first \<open>k\<close> pending messages of the recipient in
  strictly increasing sequence; \<open>k\<close> is at most the limit, the conservative size estimate stays
  within 1 MiB, the page stops early only because the next message would not fit, and it is not
  empty while anything is pending, so repeated reading and acknowledging always makes progress.
\<close>

theorem inbox_page_is_bounded_prefix:
  assumes "db_ok H s" and "1 \<le> iq_limit q" and "iq_limit q \<le> 100"
  shows "sorted_wrt (\<lambda>a b. ms_sequence a < ms_sequence b) (pending_rows (iq_recipient q) s)
    \<and> (\<exists>k. pending_inbox H healthy q s = Inr (map message_of (take k (pending_rows (iq_recipient q) s)))
        \<and> k \<le> iq_limit q \<and> (pending_rows (iq_recipient q) s \<noteq> [] \<longrightarrow> 1 \<le> k)
        \<and> page_estimate (map message_of (take k (pending_rows (iq_recipient q) s))) \<le> 1048576
        \<and> (k < iq_limit q \<and> k < length (pending_rows (iq_recipient q) s) \<longrightarrow>
            1048576 < page_estimate (map message_of (take (Suc k) (pending_rows (iq_recipient q) s)))))"
  using pending_inbox_on_prefix [OF assms(1,2)] assms(3) pending_rows_ascending [OF assms(1)]
  by (simp add: pending_inbox_def MAX_INBOX_MESSAGES_def MAX_INBOX_OUTPUT_BYTES_def)

section \<open>Acknowledgements\<close>

lemma collect_owned_spec:
  "if \<forall>i \<in> set ids. i \<in> set d \<or> owned i
   then \<exists>d'. collect_owned owned d ids = Inr d' \<and> set d' = set d \<union> set ids
   else collect_owned owned d ids = Inl RepositoryError.NotFound"
proof (induction ids arbitrary: d)
  case (Cons i ids)
  show ?case
  proof (cases "i \<in> set d")
    case True
    with Cons.IH [of d] show ?thesis by (auto split: if_splits)
  next
    case False
    with Cons.IH [of "d @ [i]"] show ?thesis by (auto split: if_splits)
  qed
qed simp

text \<open>The rows an acknowledgement marks.\<close>

definition ack_matches :: "MembershipId \<Rightarrow> MessageId set \<Rightarrow> message_row \<Rightarrow> bool" where
  "ack_matches m ids r \<longleftrightarrow> ms_id r \<in> ids \<and> ms_recipient_membership_id r = m \<and> is_pending r"

lemma ack_where_merge:
  "ack_where (ack_matches m B) t (ack_where (ack_matches m A) t s) = ack_where (ack_matches m (A \<union> B)) t s"
  by (simp add: ack_where_def update_where_def comp_def)
    (auto simp: ack_matches_def is_pending_def ack_row_def)

lemma ack_where_empty: "ack_where (ack_matches m {}) t s = s"
  by (simp add: ack_where_def update_where_def ack_matches_def)

lemma ack_updates_ok:
  "ack_updates m t False n ids s = Inr (ack_where (ack_matches m (set ids)) (as_i64 t) s)"
proof (induction ids arbitrary: n s)
  case Nil
  show ?case by (simp add: ack_where_empty)
next
  case (Cons i ids)
  have "(\<lambda>r. ms_id r = i \<and> ms_recipient_membership_id r = m \<and> ms_acknowledged_at r = None) =
      ack_matches m {i}"
    by (auto simp: ack_matches_def is_pending_def)
  then show ?case by (simp add: Cons.IH ack_where_merge)
qed

definition owns_message :: "db \<Rightarrow> MembershipId \<Rightarrow> MessageId \<Rightarrow> bool" where
  "owns_message s m i \<longleftrightarrow> (\<exists>r \<in> set (db_messages s). ms_id r = i \<and> ms_recipient_membership_id r = m)"

interpretation ack_owner: keyed_update "\<lambda>r. (ms_id r, ms_recipient_membership_id r)" "ack_row t" for t
  by unfold_locales simp

lemma owns_message_key:
  "owns_message s m i \<longleftrightarrow>
     (i, m) \<in> (\<lambda>r. (ms_id r, ms_recipient_membership_id r)) ` set (db_messages s)"
  by (auto simp: owns_message_def)

lemma acknowledge_on_ok:
  assumes "\<And>xs. set (hash_order xs) = set xs"
  shows "acknowledge_on hash_order req False s =
    (if \<forall>i \<in> set (ak_message_ids req). owns_message s (ak_recipient req) i
     then Inr ((), ack_where (ack_matches (ak_recipient req) (set (ak_message_ids req)))
                     (as_i64 (ak_acknowledged_at req)) s)
     else Inl RepositoryError.NotFound)"
proof -
  let ?owned = "\<lambda>i. list_ex (\<lambda>r. ms_id r = i
       \<and> ms_recipient_membership_id r = ak_recipient req) (db_messages s)"
  have owned: "?owned i \<longleftrightarrow> owns_message s (ak_recipient req) i" for i
    by (auto simp: owns_message_def list_ex_iff)
  from collect_owned_spec [of "ak_message_ids req" "[]" ?owned] show ?thesis
    by (auto simp: acknowledge_on_def owned ack_updates_ok assms split: if_splits)
qed

lemma acknowledge_error:
  "acknowledge_messages_with_fault ho eng req fault s = (Inl e, s') \<Longrightarrow> s' = s"
  by (auto simp: acknowledge_messages_with_fault_def dest: transaction_error_rolls_back split: if_splits)

lemma acknowledge_on_Inr:
  assumes "\<And>xs. set (hash_order xs) = set xs" and "acknowledge_on hash_order req fault s = Inr (u, s')"
  shows "s' = ack_where (ack_matches (ak_recipient req) (set (ak_message_ids req)))
      (as_i64 (ak_acknowledged_at req)) s"
    and "\<forall>i \<in> set (ak_message_ids req). owns_message s (ak_recipient req) i"
proof -
  have "acknowledge_on hash_order req False s = Inr (u, s')"
  proof (cases fault)
    case True
    then obtain d where d: "collect_owned (\<lambda>i. list_ex (\<lambda>r. ms_id r = i
        \<and> ms_recipient_membership_id r = ak_recipient req) (db_messages s)) [] (ak_message_ids req) = Inr d"
        "ack_updates (ak_recipient req) (ak_acknowledged_at req) True 0 (hash_order d) s = Inr s'"
      using assms(2) by (auto simp: acknowledge_on_def result_simps)
    then have "hash_order d = []" by (cases "hash_order d") (auto simp: Let_def)
    with d show ?thesis by (simp add: acknowledge_on_def)
  qed (use assms(2) in simp)
  with acknowledge_on_ok [of hash_order req s, OF assms(1)]
  show "s' = ack_where (ack_matches (ak_recipient req) (set (ak_message_ids req)))
      (as_i64 (ak_acknowledged_at req)) s"
    and "\<forall>i \<in> set (ak_message_ids req). owns_message s (ak_recipient req) i"
    by (auto split: if_splits)
qed

lemma acknowledge_keeps:
  assumes "\<And>xs. set (hash_order xs) = set xs" and "db_ok H s" and "valid_time (ak_acknowledged_at req)"
  shows "db_ok H (snd (acknowledge_messages_with_fault hash_order eng req fault s))"
proof -
  have "db_ok H s'" if "acknowledge_on hash_order req fault s = Inr (u, s')" for u s'
    unfolding acknowledge_on_Inr(1) [OF assms(1) that] using assms(2,3) by (simp add: ack_where_ok)
  then show ?thesis
    using assms(2) by (simp add: acknowledge_messages_with_fault_def transaction_preserves)
qed

text \<open>
  (C17) Acknowledging is all or nothing and confined to the recipient. Whatever order the id set
  is walked in: if a request fails, also in the middle of its updates, nothing changes; if it
  succeeds, it named between 1 and 100 ids, every one a message addressed to the recipient, those
  that were still pending are now acknowledged at the request's time, and every other message,
  already acknowledged ones included, is untouched. Repeating a successful request later changes
  nothing.
\<close>

theorem acknowledge_is_atomic_and_confined:
  assumes "\<forall>xs. set (hash_order xs) = set xs"
    and "acknowledge_messages_with_fault hash_order eng req fault s = (r, s')"
  shows "case r of
      Inl e \<Rightarrow> s' = s
    | Inr _ \<Rightarrow>
        1 \<le> length (ak_message_ids req) \<and> length (ak_message_ids req) \<le> 100
        \<and> (\<forall>i \<in> set (ak_message_ids req). owns_message s (ak_recipient req) i)
        \<and> s' = s\<lparr>db_messages := map (\<lambda>q.
            if ms_id q \<in> set (ak_message_ids req) \<and> ms_recipient_membership_id q = ak_recipient req
               \<and> is_pending q
            then ack_row (as_i64 (ak_acknowledged_at req)) q else q) (db_messages s)\<rparr>
        \<and> acknowledge_messages hash_order healthy (req\<lparr>ak_acknowledged_at := later\<rparr>) s' = (Inr (), s')"
proof (cases r)
  case (Inl e)
  with assms(2) show ?thesis by (auto dest: acknowledge_error)
next
  case (Inr u)
  have ho: "set (hash_order xs) = set xs" for xs using assms(1) by blast
  from Inr assms(2) have len: "1 \<le> length (ak_message_ids req)" "length (ak_message_ids req) \<le> 100"
    and on: "acknowledge_on hash_order req fault s = Inr ((), s')"
    by (auto simp: acknowledge_messages_with_fault_def transaction_Inr MAX_ACK_MESSAGES_def split: if_splits)
  note ack = acknowledge_on_Inr [OF ho on]
  let ?A = "ack_matches (ak_recipient req) (set (ak_message_ids req))"
  have "owns_message s' m i \<longleftrightarrow> owns_message s m i" for m i
    by (simp add: ack(1) owns_message_key ack_where_def)
  moreover have "ack_where ?A t s' = s'" for t
  proof -
    have "\<forall>q \<in> set (db_messages s'). \<not> ?A q"
      by (simp add: ack(1) ack_where_def ball_update_where) (simp add: ack_matches_def)
    then show ?thesis by (simp add: ack_where_def update_where_none)
  qed
  ultimately have "acknowledge_messages hash_order healthy (req\<lparr>ak_acknowledged_at := later\<rparr>) s' = (Inr (), s')"
    using len ack(2)
    by (simp add: acknowledge_messages_def acknowledge_messages_with_fault_def transaction_healthy
        acknowledge_on_ok [OF ho] MAX_ACK_MESSAGES_def)
  moreover have "s' = s\<lparr>db_messages := map (\<lambda>q.
            if ms_id q \<in> set (ak_message_ids req) \<and> ms_recipient_membership_id q = ak_recipient req
               \<and> is_pending q
            then ack_row (as_i64 (ak_acknowledged_at req)) q else q) (db_messages s)\<rparr>"
    by (simp add: ack(1) ack_where_def update_where_def ack_matches_def)
  ultimately show ?thesis using Inr len ack(2) by simp
qed

section \<open>Concrete runs\<close>

lemma sample_sent_ok [simp]: "db_ok sample_hash sample_sent"
  using send_in_transaction_ok [OF sample_pair_ok sample_send_wf sample_send_run] .

theorem inbox_page_is_bounded_prefix_witness:
  "\<exists>k. pending_inbox sample_hash healthy \<lparr>iq_recipient = ''mem_2'', iq_limit = 10\<rparr> sample_sent =
     Inr (map message_of (take k (pending_rows ''mem_2'' sample_sent))) \<and> 1 \<le> k"
proof -
  have "pending_rows ''mem_2'' sample_sent \<noteq> []"
    by (simp add: pending_rows_def eval_simps)
  then show ?thesis
    using inbox_page_is_bounded_prefix [OF sample_sent_ok,
        of "\<lparr>iq_recipient = ''mem_2'', iq_limit = 10\<rparr>"]
    by auto
qed

lemma sample_ack_run:
  "\<exists>s'. acknowledge_messages_with_fault rev healthy \<lparr>ak_recipient = ''mem_2'',
      ak_message_ids = [''msg_1'', ''msg_1''], ak_acknowledged_at = UnixMillis 6000\<rparr> False sample_sent =
     (Inr (), s')"
  by (simp add: acknowledge_messages_with_fault_def acknowledge_on_def MAX_ACK_MESSAGES_def eval_simps)

theorem acknowledge_is_atomic_and_confined_witness:
  "\<exists>s'. acknowledge_messages_with_fault rev healthy \<lparr>ak_recipient = ''mem_2'',
      ak_message_ids = [''msg_1'', ''msg_1''], ak_acknowledged_at = UnixMillis 6000\<rparr> False sample_sent =
       (Inr (), s')
     \<and> owns_message sample_sent ''mem_2'' ''msg_1''"
proof -
  obtain s' where run: "acknowledge_messages_with_fault rev healthy \<lparr>ak_recipient = ''mem_2'',
      ak_message_ids = [''msg_1'', ''msg_1''], ak_acknowledged_at = UnixMillis 6000\<rparr> False sample_sent =
     (Inr (), s')"
    using sample_ack_run by blast
  have "\<forall>xs. set (rev xs) = set xs" by simp
  from acknowledge_is_atomic_and_confined [OF this run] run show ?thesis by auto
qed

end
