(* ===== verification/Store_Auth.thy ===== *)
theory Store_Auth
  imports Store_Inbox
begin

text \<open>
  \<open>psst-store/src/authenticated.rs\<close>: the operations the relay calls. Every one authenticates the
  session's instance and token inside its own transaction, before it reads or writes anything.
  \<open>H\<close> is SHA-256, \<open>enc\<close> and \<open>entropy\<close> make a generated token, \<open>hash_order\<close> is the iteration
  order of a \<open>HashSet\<close> and \<open>eng\<close> carries the engine's faults.
\<close>

section \<open>Requests and records\<close>

record SendByName =
  sn_id :: MessageId
  sn_recipient :: MemberName
  sn_recipient_membership_id :: "MembershipId option"
  sn_body :: MessageBody
  sn_priority :: MessagePriority
  sn_dedupe_key :: DedupeKey
  sn_reply_to :: "MessageId option"
  sn_correlation_id :: "CorrelationId option"

record MessageView =
  mv_message :: MessageRecord
  mv_squad :: SquadName
  mv_sender :: MemberName
  mv_recipient :: MemberName
  mv_acknowledged_at :: "UnixMillis option"

record SendOutcome =
  so_message :: MessageView
  so_idempotent_replay :: bool

record InboxPage =
  ip_messages :: "MessageView list"
  ip_pending_count :: nat
  ip_highest_priority :: "MessagePriority option"
  ip_oldest_message_id :: "MessageId option"
  ip_recipient_membership :: MembershipId

record TranscriptByName =
  tn_squad :: SquadName
  tn_after :: int
  tn_limit :: nat

record TranscriptQuery =
  tq_squad :: SquadId
  tq_after :: int
  tq_limit :: nat

record AuthenticatedSession =
  se_instance_id :: InstanceId
  se_resume_token :: ResumeToken
  se_now :: UnixMillis

record JoinAndClaim =
  jc_membership :: JoinMembership
  jc_instance_id :: InstanceId
  jc_mode :: AgentMode
  jc_client_kind :: string
  jc_hostname :: "string option"
  jc_availability :: Availability
  jc_availability_source :: AvailabilitySource
  jc_lease_policy :: LeasePolicy

record JoinAndClaimOutcome =
  jo_membership :: MembershipRecord
  jo_squad :: SquadRecord
  jo_claim :: ClaimOutcome

record SessionContext =
  sc_membership :: MembershipRecord
  sc_squad :: SquadRecord
  sc_instance :: InstanceRecord

record LeaveOutcome =
  lo_membership_id :: MembershipId
  lo_left_at :: UnixMillis

record Identity =
  id_membership :: MembershipId
  id_squad :: SquadId
  id_mode :: AgentMode
  id_expiry :: UnixMillis
  id_last_seen :: UnixMillis
  id_created_at :: UnixMillis

section \<open>Row helpers\<close>

definition parse_value :: "(string \<Rightarrow> InvalidValue + string) \<Rightarrow> string \<Rightarrow> rusqlite_error + string" where
  "parse_value new v = map_err (\<lambda>_. invalid_data) (new v)"

definition timestamp_value :: "int \<Rightarrow> rusqlite_error + UnixMillis" where
  "timestamp_value v = map_err (\<lambda>_. invalid_data) (UnixMillis_new v)"

definition optional_timestamp_value :: "int option \<Rightarrow> rusqlite_error + UnixMillis option" where
  "optional_timestamp_value v = traverse_opt timestamp_value v"

definition map_squad_row :: "squad_row \<Rightarrow> rusqlite_error + SquadRecord" where
  "map_squad_row r =
     rbind (parse_value SquadId_new (sq_id r)) (\<lambda>i.
     rbind (parse_value SquadName_new (sq_name r)) (\<lambda>n.
     rbind (parse_value Mission_new (sq_mission r)) (\<lambda>m.
     rbind (if sq_state r = ''active'' then Inr SquadState.Active
            else if sq_state r = ''archived'' then Inr SquadState.Archived
            else Inl invalid_data) (\<lambda>st.
     rbind (timestamp_value (sq_created_at r)) (\<lambda>c.
     rbind (optional_timestamp_value (sq_archived_at r)) (\<lambda>a.
     Inr \<lparr>sr_id = i, sr_name = n, sr_mission = m, sr_state = st, sr_created_at = c,
          sr_archived_at = a\<rparr>))))))"

definition squad_by_name :: "SquadName \<Rightarrow> db \<Rightarrow> RepositoryError + SquadRecord" where
  "squad_by_name name s =
     rbind (sql (traverse_opt map_squad_row (List.find (\<lambda>r. sq_name r = name) (db_squads s))))
       (ok_or RepositoryError.NotFound)"

definition squad_by_id :: "SquadId \<Rightarrow> db \<Rightarrow> RepositoryError + SquadRecord" where
  "squad_by_id i s =
     rbind (sql (traverse_opt map_squad_row (List.find (\<lambda>r. sq_id r = i) (db_squads s))))
       (ok_or RepositoryError.NotFound)"

definition map_membership_row :: "membership_row \<Rightarrow> rusqlite_error + MembershipRecord" where
  "map_membership_row r =
     rbind (parse_value MembershipId_new (mb_id r)) (\<lambda>i.
     rbind (parse_value SquadId_new (mb_squad_id r)) (\<lambda>sq.
     rbind (parse_value AgentId_new (mb_agent_id r)) (\<lambda>a.
     rbind (parse_value MemberName_new (mb_name r)) (\<lambda>n.
     rbind (parse_value Role_new (mb_role r)) (\<lambda>ro.
     rbind (timestamp_value (mb_joined_at r)) (\<lambda>j.
     rbind (optional_timestamp_value (mb_left_at r)) (\<lambda>l.
     Inr \<lparr>mr_id = i, mr_squad_id = sq, mr_agent_id = a, mr_name = n, mr_role = ro,
          mr_joined_at = j, mr_left_at = l\<rparr>)))))))"

definition membership_by_id :: "MembershipId \<Rightarrow> db \<Rightarrow> RepositoryError + MembershipRecord" where
  "membership_by_id i s =
     rbind (sql (traverse_opt map_membership_row (List.find (\<lambda>r. mb_id r = i) (db_memberships s))))
       (ok_or RepositoryError.NotFound)"

text \<open>\<open>messages m JOIN squads s JOIN memberships sm JOIN memberships rm\<close>\<close>

definition message_joins ::
  "db \<Rightarrow> (((message_row \<times> squad_row) \<times> membership_row) \<times> membership_row) list" where
  "message_joins s =
     join_rows (\<lambda>((m, q), sm). ms_recipient_membership_id m) mb_id
       (join_rows (\<lambda>(m, q). ms_sender_membership_id m) mb_id
         (join_rows ms_squad_id sq_id (db_messages s) (db_squads s)) (db_memberships s))
       (db_memberships s)"

definition message_view_on :: "MessageRecord \<Rightarrow> db \<Rightarrow> RepositoryError + MessageView" where
  "message_view_on message s =
     rbind (sql (traverse_opt (\<lambda>(((m, q), sm), rm).
         rbind (parse_value SquadName_new (sq_name q)) (\<lambda>squad.
         rbind (parse_value MemberName_new (mb_name sm)) (\<lambda>sender.
         rbind (parse_value MemberName_new (mb_name rm)) (\<lambda>recipient.
         rbind (optional_timestamp_value (ms_acknowledged_at m)) (\<lambda>acknowledged_at.
         Inr \<lparr>mv_message = message, mv_squad = squad, mv_sender = sender,
              mv_recipient = recipient, mv_acknowledged_at = acknowledged_at\<rparr>)))))
       (List.find (\<lambda>(((m, q), sm), rm). ms_id m = mg_id message) (message_joins s))))
     (ok_or RepositoryError.InvalidStoredData)"

definition auth_parse_mode :: "string \<Rightarrow> RepositoryError + AgentMode" where
  "auth_parse_mode v =
     (if v = ''cooperative'' then Inr AgentMode.Cooperative
      else if v = ''scheduled'' then Inr AgentMode.Scheduled
      else if v = ''harnessed'' then Inr AgentMode.Harnessed
      else Inl RepositoryError.InvalidStoredData)"

fun availability_name :: "Availability \<Rightarrow> string" where
  "availability_name Availability.Idle = ''idle''"
| "availability_name Availability.Busy = ''busy''"
| "availability_name Availability.Blocked = ''blocked''"
| "availability_name Availability.Unknown = ''unknown''"

fun source_name :: "AvailabilitySource \<Rightarrow> string" where
  "source_name AvailabilitySource.SessionLifecycle = ''session_lifecycle''"
| "source_name AvailabilitySource.McpConnection = ''mcp_connection''"
| "source_name AvailabilitySource.ToolActivity = ''tool_activity''"
| "source_name AvailabilitySource.AgentReported = ''agent_reported''"
| "source_name AvailabilitySource.Unknown = ''unknown''"

section \<open>Authentication\<close>

definition stored :: "InvalidValue + 'a \<Rightarrow> RepositoryError + 'a" where
  "stored m = map_err (\<lambda>_. RepositoryError.InvalidStoredData) m"

definition authenticate_historical ::
  "(string \<Rightarrow> string) \<Rightarrow> AuthenticatedSession \<Rightarrow> db \<Rightarrow> RepositoryError + Identity" where
  "authenticate_historical H session s =
     rbind (ok_or RepositoryError.NotFound
       (List.find (\<lambda>(i, m). in_id i = se_instance_id session \<and> True) (instance_members s)))
     (\<lambda>(i, m).
     rbind (map_err (\<lambda>_. RepositoryError.NotFound)
       (authenticate H (in_resume_token_hash i) (se_resume_token session))) (\<lambda>_.
     rbind (stored (MembershipId_new (mb_id m))) (\<lambda>membership.
     rbind (stored (SquadId_new (mb_squad_id m))) (\<lambda>squad.
     rbind (auth_parse_mode (in_mode i)) (\<lambda>mode.
     rbind (stored (UnixMillis_new (in_lease_expires_at i))) (\<lambda>expiry.
     rbind (stored (UnixMillis_new (in_last_seen_at i))) (\<lambda>last_seen.
     rbind (stored (UnixMillis_new (in_created_at i))) (\<lambda>created_at.
     Inr \<lparr>id_membership = membership, id_squad = squad, id_mode = mode, id_expiry = expiry,
          id_last_seen = last_seen, id_created_at = created_at\<rparr>))))))))"

definition authorize_current ::
  "(string \<Rightarrow> string) \<Rightarrow> AuthenticatedSession \<Rightarrow> db \<Rightarrow> RepositoryError + Identity" where
  "authorize_current H session s =
     rbind (authenticate_historical H session s) (\<lambda>identity.
     rbind (ensure (\<not> se_now session \<ge> id_expiry identity) RepositoryError.LeaseExpired) (\<lambda>_.
     rbind (sql (ok_or QueryReturnedNoRows
       (List.find (\<lambda>((i, m), q). in_id i = se_instance_id session \<and> True)
         (instance_member_squads s)))) (\<lambda>((i, m), q).
     rbind (ensure (sq_state q \<noteq> ''archived'') RepositoryError.SquadArchived) (\<lambda>_.
     rbind (ensure (sq_state q = ''active'') RepositoryError.InvalidStoredData) (\<lambda>_.
     rbind (ensure (\<not> (in_closed_at i \<noteq> None \<or> mb_left_at m \<noteq> None))
       RepositoryError.NotMember) (\<lambda>_.
     Inr identity))))))"

section \<open>Joining\<close>

datatype JoinClaimFault = Squad | Agent | Membership | Instance

definition inject_join_claim_fault ::
  "JoinClaimFault option \<Rightarrow> JoinClaimFault \<Rightarrow> RepositoryError + unit" where
  "inject_join_claim_fault actual point =
     (if actual = Some point then Inl RepositoryError.InjectedFailure else Inr ())"

definition auth_find_or_create_squad ::
  "JoinMembership \<Rightarrow> db \<Rightarrow> RepositoryError + (SquadId \<times> db)" where
  "auth_find_or_create_squad req s =
     (case List.find (\<lambda>r. sq_name r = jm_squad_name req) (db_squads s) of
        Some r \<Rightarrow>
          if sq_state r \<noteq> ''active'' then Inl RepositoryError.SquadArchived
          else rbind (stored (SquadId_new (sq_id r))) (\<lambda>i. Inr (i, s))
      | None \<Rightarrow>
          rbind (ok_or RepositoryError.NotFound (jm_mission_if_missing req)) (\<lambda>mission.
          rbind (sql (insert_squad (new_squad_row (jm_squad_id_if_missing req)
            (jm_squad_name req) mission (jm_joined_at req)) s)) (\<lambda>s'.
          Inr (jm_squad_id_if_missing req, s'))))"

definition join_and_claim_inner ::
  "(string \<Rightarrow> string) \<Rightarrow> (string \<Rightarrow> string) \<Rightarrow> string option \<Rightarrow> engine \<Rightarrow> JoinAndClaim
   \<Rightarrow> JoinClaimFault option \<Rightarrow> db \<Rightarrow> (RepositoryError + JoinAndClaimOutcome) \<times> db" where
  "join_and_claim_inner H enc entropy eng req fault s =
     (let mem = jc_membership req in
      case rbind (validate_client (jc_client_kind req) (jc_hostname req))
        (\<lambda>_. rbind (validate_observation (jc_availability req) (jc_availability_source req)
               (jm_joined_at mem))
        (\<lambda>_. map_err (\<lambda>_. RepositoryError.EntropyUnavailable) (ResumeToken_generate enc entropy))) of
        Inl e \<Rightarrow> (Inl e, s)
      | Inr token \<Rightarrow>
          transaction eng (\<lambda>s.
            rbind (auth_find_or_create_squad mem s) (\<lambda>(squad, s1).
            rbind (inject_join_claim_fault fault JoinClaimFault.Squad) (\<lambda>_.
            rbind (sql (insert_agent
              \<lparr>ag_id = jm_agent_id mem, ag_created_at = as_i64 (jm_joined_at mem)\<rparr> s1)) (\<lambda>s2.
            rbind (inject_join_claim_fault fault JoinClaimFault.Agent) (\<lambda>_.
            rbind (sql (insert_membership_or_ignore (new_membership_row mem squad) s2))
              (\<lambda>(changed, s3).
            rbind (ensure (changed \<noteq> 0) RepositoryError.NameInUse) (\<lambda>_.
            rbind (inject_join_claim_fault fault JoinClaimFault.Membership) (\<lambda>_.
            rbind (insert_instance H (jc_instance_id req) (jm_membership_id mem) (jc_mode req)
              (jc_client_kind req) (jc_hostname req) token (jc_availability req)
              (jc_availability_source req) (jm_joined_at mem) (jc_lease_policy req) s3)
              (\<lambda>(inst, s4).
            rbind (inject_join_claim_fault fault JoinClaimFault.Instance) (\<lambda>_.
            rbind (squad_by_id squad s4) (\<lambda>squad_record.
            Inr (\<lparr>jo_membership = joined_record mem squad, jo_squad = squad_record,
                  jo_claim = \<lparr>co_instance = inst, co_resume_token = token\<rparr>\<rparr>, s4)))))))))))) s)"

definition join_and_claim ::
  "(string \<Rightarrow> string) \<Rightarrow> (string \<Rightarrow> string) \<Rightarrow> string option \<Rightarrow> engine \<Rightarrow> JoinAndClaim \<Rightarrow> db
   \<Rightarrow> (RepositoryError + JoinAndClaimOutcome) \<times> db" where
  "join_and_claim H enc entropy eng req = join_and_claim_inner H enc entropy eng req None"

section \<open>Presence and roster\<close>

definition heartbeat_authenticated_tx ::
  "(string \<Rightarrow> string) \<Rightarrow> AuthenticatedSession \<Rightarrow> Availability \<Rightarrow> AvailabilitySource \<Rightarrow> LeasePolicy \<Rightarrow> db
   \<Rightarrow> RepositoryError + (InstanceRecord \<times> db)" where
  "heartbeat_authenticated_tx H session av source policy s =
     rbind (authorize_current H session s) (\<lambda>identity.
     let effective_now = max (se_now session) (id_last_seen identity) in
     rbind (map_err (\<lambda>_. RepositoryError.LeaseExpired)
       (renew_lease (InstanceState_at None (id_expiry identity) effective_now)
         (id_expiry identity) effective_now (lp_lease_duration policy))) (\<lambda>expiry.
     Inr (\<lparr>ir_id = se_instance_id session, ir_membership_id = id_membership identity,
           ir_mode = id_mode identity, ir_availability = av, ir_availability_source = source,
           ir_availability_observed_at = effective_now, ir_lease_expires_at = expiry,
           ir_last_seen_at = effective_now, ir_created_at = id_created_at identity,
           ir_closed_at = None, ir_heartbeat_interval = lp_heartbeat_interval policy,
           ir_lease_duration = lp_lease_duration policy\<rparr>,
       renew_where (\<lambda>r. in_id r = se_instance_id session) (availability_name av) (source_name source)
         (as_i64 effective_now) (as_i64 expiry) s)))"

definition authenticated_heartbeat ::
  "(string \<Rightarrow> string) \<Rightarrow> engine \<Rightarrow> AuthenticatedSession \<Rightarrow> Availability \<Rightarrow> AvailabilitySource
   \<Rightarrow> LeasePolicy \<Rightarrow> db \<Rightarrow> (RepositoryError + InstanceRecord) \<times> db" where
  "authenticated_heartbeat H eng session av source policy s =
     (case AvailabilityObservation_new av source (se_now session) of
        Inl _ \<Rightarrow> (Inl RepositoryError.InvalidRequest, s)
      | Inr _ \<Rightarrow> transaction eng (heartbeat_authenticated_tx H session av source policy) s)"

definition authenticated_roster ::
  "(string \<Rightarrow> string) \<Rightarrow> engine \<Rightarrow> AuthenticatedSession \<Rightarrow> SquadName \<Rightarrow> db
   \<Rightarrow> (RepositoryError + RosterMember list) \<times> db" where
  "authenticated_roster H eng session expected_squad s =
     (case transaction eng (\<lambda>s.
        rbind (authenticate_historical H session s) (\<lambda>identity.
        rbind (squad_by_id (id_squad identity) s) (\<lambda>squad.
        rbind (ensure (sr_name squad = expected_squad) RepositoryError.NotFound) (\<lambda>_.
        Inr ((), s))))) s of
        (Inl e, s') \<Rightarrow> (Inl e, s')
      | (Inr _, s') \<Rightarrow> (roster eng expected_squad (se_now session) s', s'))"

section \<open>Sending\<close>

definition authenticated_send ::
  "(string \<Rightarrow> string) \<Rightarrow> engine \<Rightarrow> AuthenticatedSession \<Rightarrow> SendMessage \<Rightarrow> db
   \<Rightarrow> (RepositoryError + MessageRecord) \<times> db" where
  "authenticated_send H eng session req = transaction eng (\<lambda>s.
     rbind (authenticate_historical H session s) (\<lambda>identity.
     rbind (ensure (\<not> (sem_sender (sm_semantics req) \<noteq> id_membership identity
         \<or> sem_squad (sm_semantics req) \<noteq> id_squad identity)) RepositoryError.NotMember) (\<lambda>_.
     rbind (resolve_retry H req s) (\<lambda>retry.
     case retry of
       Some result \<Rightarrow> rbind result (\<lambda>rec. Inr (rec, s))
     | None \<Rightarrow>
         rbind (authorize_current H session s) (\<lambda>_.
         send_in_transaction H req s)))))"

definition send_from_name ::
  "SendByName \<Rightarrow> SquadId \<Rightarrow> MembershipId \<Rightarrow> MembershipId \<Rightarrow> UnixMillis \<Rightarrow> SendMessage" where
  "send_from_name req squad sender recipient created_at =
     \<lparr>sm_id = sn_id req,
      sm_semantics = \<lparr>sem_squad = squad, sem_sender = sender, sem_recipient = recipient,
        sem_body = sn_body req, sem_priority = sn_priority req, sem_reply_to = sn_reply_to req,
        sem_correlation_id = sn_correlation_id req\<rparr>,
      sm_dedupe_key = sn_dedupe_key req, sm_created_at = created_at\<rparr>"

text \<open>\<open>request.recipient_membership_id.as_ref().is_some_and(|pin| pin != &recipient_id)\<close>\<close>

definition pin_differs :: "SendByName \<Rightarrow> MembershipId \<Rightarrow> bool" where
  "pin_differs req recipient_id =
     (case sn_recipient_membership_id req of None \<Rightarrow> False | Some pin \<Rightarrow> pin \<noteq> recipient_id)"

text \<open>The branch for a key that was used before.\<close>

definition replay_by_name ::
  "(string \<Rightarrow> string) \<Rightarrow> AuthenticatedSession \<Rightarrow> SendByName \<Rightarrow> Identity \<Rightarrow> MembershipId \<Rightarrow> db
   \<Rightarrow> RepositoryError + (SendOutcome \<times> db)" where
  "replay_by_name H session req identity recipient_id s =
     rbind (ensure (\<not> pin_differs req recipient_id) RepositoryError.IdempotencyConflict) (\<lambda>_.
     let candidate = send_from_name req (id_squad identity) (id_membership identity)
           recipient_id (se_now session) in
     rbind (rbind (find_by_dedupe H candidate s) (ok_or RepositoryError.InvalidStoredData))
     (\<lambda>existing.
     rbind (ensure (mg_semantics existing = sm_semantics candidate)
       RepositoryError.IdempotencyConflict) (\<lambda>_.
     rbind (message_view_on existing s) (\<lambda>view.
     rbind (ensure (mv_recipient view = sn_recipient req)
       RepositoryError.IdempotencyConflict) (\<lambda>_.
     Inr (\<lparr>so_message = view, so_idempotent_replay = True\<rparr>, s))))))"

text \<open>The branch for a new key.\<close>

definition fresh_by_name ::
  "(string \<Rightarrow> string) \<Rightarrow> AuthenticatedSession \<Rightarrow> SendByName \<Rightarrow> Identity \<Rightarrow> db
   \<Rightarrow> RepositoryError + (SendOutcome \<times> db)" where
  "fresh_by_name H session req identity s =
     rbind (authorize_current H session s) (\<lambda>_.
     rbind (ok_or RepositoryError.RecipientNotFound
       (List.find (\<lambda>r. mb_squad_id r = id_squad identity
          \<and> mb_normalized_name r = sn_recipient req \<and> mb_left_at r = None) (db_memberships s)))
     (\<lambda>row.
     rbind (stored (MembershipId_new (mb_id row))) (\<lambda>recipient_id.
     rbind (ensure (\<not> pin_differs req recipient_id) RepositoryError.RecipientNotFound) (\<lambda>_.
     let send = send_from_name req (id_squad identity) (id_membership identity)
           recipient_id (se_now session) in
     rbind (send_in_transaction H send s) (\<lambda>(rec, s').
     rbind (message_view_on rec s') (\<lambda>view.
     Inr (\<lparr>so_message = view, so_idempotent_replay = False\<rparr>, s')))))))"

definition send_by_name_tx ::
  "(string \<Rightarrow> string) \<Rightarrow> AuthenticatedSession \<Rightarrow> SendByName \<Rightarrow> db
   \<Rightarrow> RepositoryError + (SendOutcome \<times> db)" where
  "send_by_name_tx H session req s =
     rbind (authenticate_historical H session s) (\<lambda>identity.
     rbind (traverse_opt (\<lambda>r. stored (MembershipId_new (ms_recipient_membership_id r)))
       (List.find (dedupe_match (id_squad identity) (id_membership identity) (sn_dedupe_key req))
         (db_messages s))) (\<lambda>existing_recipient.
     case existing_recipient of
       Some recipient_id \<Rightarrow> replay_by_name H session req identity recipient_id s
     | None \<Rightarrow> fresh_by_name H session req identity s))"

definition authenticated_send_by_name ::
  "(string \<Rightarrow> string) \<Rightarrow> engine \<Rightarrow> AuthenticatedSession \<Rightarrow> SendByName \<Rightarrow> db
   \<Rightarrow> (RepositoryError + SendOutcome) \<times> db" where
  "authenticated_send_by_name H eng session req = transaction eng (send_by_name_tx H session req)"

section \<open>Reading and acknowledging\<close>

definition first_row :: "'a list \<Rightarrow> 'a option" where
  "first_row rows = (case rows of [] \<Rightarrow> None | r # _ \<Rightarrow> Some r)"

definition stored_priority :: "string \<Rightarrow> RepositoryError + MessagePriority" where
  "stored_priority v =
     (if v = ''normal'' then Inr MessagePriority.Normal
      else if v = ''high'' then Inr MessagePriority.High
      else Inl RepositoryError.InvalidStoredData)"

definition pending_page_tx ::
  "(string \<Rightarrow> string) \<Rightarrow> AuthenticatedSession \<Rightarrow> nat \<Rightarrow> db \<Rightarrow> RepositoryError + (InboxPage \<times> db)" where
  "pending_page_tx H session limit s =
     rbind (authorize_current H session s) (\<lambda>identity.
     let pending = filter (\<lambda>r. ms_recipient_membership_id r = id_membership identity
           \<and> ms_acknowledged_at r = None) (db_messages s) in
     rbind (traverse_opt (\<lambda>r. stored_priority (ms_priority r))
       (first_row (sort_key (\<lambda>r. if ms_priority r = ''high'' then (0::nat) else 1) pending)))
     (\<lambda>highest_priority.
     rbind (traverse_opt (\<lambda>r. stored (MessageId_new (ms_id r)))
       (first_row (sort_key ms_sequence pending))) (\<lambda>oldest_message_id.
     rbind (pending_inbox_on H \<lparr>iq_recipient = id_membership identity, iq_limit = limit\<rparr> s)
     (\<lambda>records.
     rbind (collect_results (\<lambda>rec. message_view_on rec s) records) (\<lambda>messages.
     Inr (\<lparr>ip_messages = messages, ip_pending_count = length pending,
           ip_highest_priority = highest_priority, ip_oldest_message_id = oldest_message_id,
           ip_recipient_membership = id_membership identity\<rparr>, s))))))"

definition authenticated_pending_page ::
  "(string \<Rightarrow> string) \<Rightarrow> engine \<Rightarrow> AuthenticatedSession \<Rightarrow> nat \<Rightarrow> db \<Rightarrow> (RepositoryError + InboxPage) \<times> db"
  where
  "authenticated_pending_page H eng session limit = transaction eng (pending_page_tx H session limit)"

definition authenticated_pending ::
  "(string \<Rightarrow> string) \<Rightarrow> engine \<Rightarrow> AuthenticatedSession \<Rightarrow> nat \<Rightarrow> db
   \<Rightarrow> (RepositoryError + MessageRecord list) \<times> db" where
  "authenticated_pending H eng session limit = transaction eng (\<lambda>s.
     rbind (authorize_current H session s) (\<lambda>identity.
     rbind (pending_inbox_on H \<lparr>iq_recipient = id_membership identity, iq_limit = limit\<rparr> s)
     (\<lambda>result. Inr (result, s))))"

definition authenticated_acknowledge ::
  "(string \<Rightarrow> string) \<Rightarrow> (MessageId list \<Rightarrow> MessageId list) \<Rightarrow> engine \<Rightarrow> AuthenticatedSession
   \<Rightarrow> MessageId list \<Rightarrow> db \<Rightarrow> (RepositoryError + unit) \<times> db" where
  "authenticated_acknowledge H hash_order eng session message_ids = transaction eng (\<lambda>s.
     rbind (authorize_current H session s) (\<lambda>identity.
     acknowledge_on hash_order \<lparr>ak_recipient = id_membership identity,
       ak_message_ids = message_ids, ak_acknowledged_at = se_now session\<rparr> False s))"

definition transcript_rows :: "SquadId \<Rightarrow> int \<Rightarrow> nat \<Rightarrow> db \<Rightarrow> message_row list" where
  "transcript_rows squad after limit s =
     take limit (sort_key ms_sequence
       (filter (\<lambda>r. ms_squad_id r = squad \<and> ms_sequence r > after) (db_messages s)))"

definition authenticated_transcript ::
  "(string \<Rightarrow> string) \<Rightarrow> engine \<Rightarrow> AuthenticatedSession \<Rightarrow> TranscriptQuery \<Rightarrow> db
   \<Rightarrow> (RepositoryError + MessageRecord list) \<times> db" where
  "authenticated_transcript H eng session query s =
     (if \<not> (1 \<le> tq_limit query \<and> tq_limit query \<le> 100) \<or> tq_after query < 0
      then (Inl RepositoryError.InvalidRequest, s)
      else transaction eng (\<lambda>s.
        rbind (authorize_current H session s) (\<lambda>identity.
        rbind (ensure (id_squad identity = tq_squad query) RepositoryError.NotMember) (\<lambda>_.
        rbind (sql (collect_results (map_message H)
          (transcript_rows (tq_squad query) (tq_after query) (tq_limit query) s))) (\<lambda>result.
        Inr (result, s))))) s)"

definition transcript_views_tx ::
  "(string \<Rightarrow> string) \<Rightarrow> AuthenticatedSession \<Rightarrow> TranscriptByName \<Rightarrow> db
   \<Rightarrow> RepositoryError + (MessageView list \<times> db)" where
  "transcript_views_tx H session query s =
     rbind (authorize_current H session s) (\<lambda>identity.
     rbind (squad_by_id (id_squad identity) s) (\<lambda>squad.
     rbind (ensure (sr_name squad = tn_squad query) RepositoryError.NotMember) (\<lambda>_.
     rbind (sql (collect_results (map_message H)
       (transcript_rows (id_squad identity) (tn_after query) (tn_limit query) s))) (\<lambda>records.
     rbind (collect_results (\<lambda>rec. message_view_on rec s) records) (\<lambda>views.
     Inr (views, s))))))"

definition authenticated_transcript_views ::
  "(string \<Rightarrow> string) \<Rightarrow> engine \<Rightarrow> AuthenticatedSession \<Rightarrow> TranscriptByName \<Rightarrow> db
   \<Rightarrow> (RepositoryError + MessageView list) \<times> db" where
  "authenticated_transcript_views H eng session query s =
     (if \<not> (1 \<le> tn_limit query \<and> tn_limit query \<le> 100) \<or> tn_after query < 0
      then (Inl RepositoryError.InvalidRequest, s)
      else transaction eng (transcript_views_tx H session query) s)"

section \<open>Leaving, archiving, resuming\<close>

definition authenticated_leave ::
  "(string \<Rightarrow> string) \<Rightarrow> engine \<Rightarrow> AuthenticatedSession \<Rightarrow> SquadName \<Rightarrow> db
   \<Rightarrow> (RepositoryError + LeaveOutcome) \<times> db" where
  "authenticated_leave H eng session expected_squad = transaction eng (\<lambda>s.
     rbind (authorize_current H session s) (\<lambda>identity.
     rbind (squad_by_id (id_squad identity) s) (\<lambda>squad.
     rbind (ensure (sr_name squad = expected_squad) RepositoryError.NotFound) (\<lambda>_.
     let s1 = close_where (\<lambda>r. in_id r = se_instance_id session \<and> in_closed_at r = None)
                (as_i64 (se_now session)) s;
         s2 = leave_where (\<lambda>r. mb_id r = id_membership identity \<and> mb_left_at r = None)
                (as_i64 (se_now session)) s1 in
     Inr (\<lparr>lo_membership_id = id_membership identity, lo_left_at = se_now session\<rparr>, s2)))))"

definition authenticated_archive ::
  "(string \<Rightarrow> string) \<Rightarrow> engine \<Rightarrow> AuthenticatedSession \<Rightarrow> SquadId \<Rightarrow> db \<Rightarrow> (RepositoryError + unit) \<times> db"
  where
  "authenticated_archive H eng session squad = transaction eng (\<lambda>s.
     rbind (authorize_current H session s) (\<lambda>identity.
     rbind (ensure (id_squad identity = squad) RepositoryError.NotMember) (\<lambda>_.
     let p = (\<lambda>r. sq_id r = squad \<and> sq_state r = ''active'') in
     rbind (ensure (changed_rows p (db_squads s) \<noteq> 0) RepositoryError.SquadArchived) (\<lambda>_.
     Inr ((), archive_where p (as_i64 (se_now session)) s)))))"

definition authenticated_archive_by_name ::
  "(string \<Rightarrow> string) \<Rightarrow> engine \<Rightarrow> AuthenticatedSession \<Rightarrow> SquadName \<Rightarrow> db
   \<Rightarrow> (RepositoryError + SquadRecord) \<times> db" where
  "authenticated_archive_by_name H eng session squad_name = transaction eng (\<lambda>s.
     rbind (authorize_current H session s) (\<lambda>identity.
     rbind (squad_by_name squad_name s) (\<lambda>squad.
     rbind (ensure (id_squad identity = sr_id squad) RepositoryError.NotMember) (\<lambda>_.
     rbind (ensure (sr_state squad \<noteq> SquadState.Archived) RepositoryError.SquadArchived) (\<lambda>_.
     Inr (squad\<lparr>sr_state := SquadState.Archived, sr_archived_at := Some (se_now session)\<rparr>,
       archive_where (\<lambda>r. sq_id r = sr_id squad \<and> sq_state r = ''active'')
         (as_i64 (se_now session)) s))))))"

record ResumeSession =
  rq_prior_instance :: InstanceId
  rq_token :: ResumeToken
  rq_new_instance :: InstanceId
  rq_mode :: AgentMode
  rq_client_kind :: string
  rq_hostname :: "string option"
  rq_availability :: Availability
  rq_source :: AvailabilitySource
  rq_now :: UnixMillis
  rq_policy :: LeasePolicy
  rq_expected_squad :: SquadName

definition resume_authenticated_tx ::
  "(string \<Rightarrow> string) \<Rightarrow> ResumeSession \<Rightarrow> db \<Rightarrow> RepositoryError + (SessionContext \<times> db)" where
  "resume_authenticated_tx H req s =
     rbind (ok_or RepositoryError.NotFound
       (List.find (\<lambda>((i, m), q). in_id i = rq_prior_instance req \<and> mb_left_at m = None)
         (instance_member_squads s))) (\<lambda>((i, m), q).
     rbind (map_err (\<lambda>_. RepositoryError.NotFound)
       (authenticate H (in_resume_token_hash i) (rq_token req))) (\<lambda>_.
     rbind (ensure (sq_name q = rq_expected_squad req) RepositoryError.NotFound) (\<lambda>_.
     rbind (ensure (sq_state q \<noteq> ''archived'') RepositoryError.SquadArchived) (\<lambda>_.
     rbind (ensure (sq_state q = ''active'') RepositoryError.InvalidStoredData) (\<lambda>_.
     rbind (ensure (\<not> (in_closed_at i = None \<and> as_i64 (rq_now req) < in_lease_expires_at i))
       RepositoryError.NameInUse) (\<lambda>_.
     rbind (stored (MembershipId_new (in_membership_id i))) (\<lambda>membership.
     let has_live_owner = list_ex (\<lambda>r. in_membership_id r = membership \<and> in_closed_at r = None
           \<and> in_lease_expires_at r > as_i64 (rq_now req)) (db_instances s) in
     rbind (ensure (\<not> has_live_owner) RepositoryError.NameInUse) (\<lambda>_.
     let s1 = close_where (\<lambda>r. in_membership_id r = membership \<and> in_closed_at r = None)
                (as_i64 (rq_now req)) s in
     rbind (membership_by_id membership s1) (\<lambda>membership_record.
     rbind (squad_by_id (mr_squad_id membership_record) s1) (\<lambda>squad.
     rbind (insert_instance H (rq_new_instance req) membership (rq_mode req)
       (rq_client_kind req) (rq_hostname req) (rq_token req) (rq_availability req)
       (rq_source req) (rq_now req) (rq_policy req) s1) (\<lambda>(result, s2).
     Inr (\<lparr>sc_membership = membership_record, sc_squad = squad, sc_instance = result\<rparr>, s2))))))))))))"

definition authenticated_resume ::
  "(string \<Rightarrow> string) \<Rightarrow> engine \<Rightarrow> ResumeSession \<Rightarrow> db \<Rightarrow> (RepositoryError + SessionContext) \<times> db" where
  "authenticated_resume H eng req s =
     (case rbind (validate_client (rq_client_kind req) (rq_hostname req))
        (\<lambda>_. validate_observation (rq_availability req) (rq_source req) (rq_now req)) of
        Inl e \<Rightarrow> (Inl e, s)
      | Inr _ \<Rightarrow> transaction eng (resume_authenticated_tx H req) s)"

section \<open>The helpers agree with those of the other modules\<close>

lemma parse_value_parse [simp]: "parse_value = parse"
  by (intro ext) (simp add: parse_value_def parse_def)

lemma timestamp_value_timestamp [simp]: "timestamp_value = timestamp"
  by (intro ext) (simp add: timestamp_value_def timestamp_def)

lemma optional_timestamp_value_same [simp]: "optional_timestamp_value = optional_timestamp"
  by (intro ext) (simp add: optional_timestamp_value_def optional_timestamp_def)

lemma map_squad_row_map_squad: "map_squad_row = map_squad"
  by (intro ext) (simp add: map_squad_row_def map_squad_def parse_squad_state_def)

lemma availability_name_same [simp]: "availability_name a = availability a"
  by (cases a) simp_all

lemma source_name_same [simp]: "source_name src = availability_source src"
  by (cases src) simp_all

lemma auth_parse_mode_same: "auth_parse_mode = instance_parse_mode"
  by (intro ext) (simp add: auth_parse_mode_def instance_parse_mode_def)

lemma stored_simps [simp]: "stored (Inr x) = Inr x" "stored m = Inr x \<longleftrightarrow> m = Inr x"
  by (simp_all add: stored_def result_simps)

lemma find_lookup_Inr:
  assumes "\<And>q. List.find p rows = Some q \<longleftrightarrow> q \<in> set rows \<and> p q"
  shows "(case List.find p rows of None \<Rightarrow> Inl e | Some r \<Rightarrow> Inr (f r)) = Inr y \<longleftrightarrow>
    (\<exists>q \<in> set rows. p q \<and> y = f q)"
proof (cases "List.find p rows")
  case None
  then show ?thesis using find_NoneD by fastforce
next
  case (Some r)
  then have r: "r \<in> set rows" "p r" using assms by blast+
  have "q = r" if "q \<in> set rows" "p q" for q
    using assms [of q] that Some by simp
  with r have "(\<exists>q \<in> set rows. p q \<and> y = f q) \<longleftrightarrow> y = f r" by blast
  with Some show ?thesis by auto
qed

lemma squad_by_id_ok:
  assumes "db_ok H s"
  shows "squad_by_id k s =
    (case List.find (\<lambda>r. sq_id r = k) (db_squads s) of
       None \<Rightarrow> Inl RepositoryError.NotFound | Some r \<Rightarrow> Inr (squad_of r))"
proof (cases "List.find (\<lambda>r. sq_id r = k) (db_squads s)")
  case (Some r)
  then have "r \<in> set (db_squads s)" by (auto dest: find_SomeD)
  with assms have "map_squad r = Inr (squad_of r)"
    by (auto simp: db_ok_def squads_ok_def map_squad_ok)
  with Some show ?thesis by (simp add: squad_by_id_def map_squad_row_map_squad)
qed (simp add: squad_by_id_def)

lemma squad_by_id_Inr:
  assumes "db_ok H s"
  shows "squad_by_id k s = Inr rec \<longleftrightarrow> (\<exists>q \<in> set (db_squads s). sq_id q = k \<and> rec = squad_of q)"
proof -
  have "List.find (\<lambda>r. sq_id r = k) (db_squads s) = Some q \<longleftrightarrow> q \<in> set (db_squads s) \<and> sq_id q = k" for q
    by (rule squad_by_id_unique) (use assms in \<open>simp add: db_ok_def\<close>)
  from find_lookup_Inr [OF this] show ?thesis unfolding squad_by_id_ok [OF assms] .
qed

lemma squad_by_name_describe: "squad_by_name n s = describe_squad healthy n s"
  by (cases "List.find (\<lambda>r. sq_name r = n) (db_squads s)")
    (simp_all add: squad_by_name_def describe_squad_def map_squad_row_map_squad)

lemma squad_by_name_Inr:
  assumes "db_ok H s"
  shows "squad_by_name n s = Inr rec \<longleftrightarrow> (\<exists>q \<in> set (db_squads s). sq_name q = n \<and> rec = squad_of q)"
proof -
  have "List.find (\<lambda>r. sq_name r = n) (db_squads s) = Some q \<longleftrightarrow> q \<in> set (db_squads s) \<and> sq_name q = n" for q
    by (rule squad_by_name_unique) (use assms in \<open>simp add: db_ok_def\<close>)
  from find_lookup_Inr [OF this] show ?thesis
    unfolding squad_by_name_describe describe_squad_ok [OF assms] .
qed

lemma map_membership_row_ok:
  assumes "membership_row_ok r"
  shows "map_membership_row r = Inr (membership_of r)"
proof -
  have "optional_timestamp (mb_left_at r) = Inr (map_option UnixMillis (mb_left_at r))"
    using assms by (simp add: membership_row_ok_def optional_timestamp_stored)
  with assms show ?thesis
    by (simp add: map_membership_row_def membership_row_ok_def membership_of_def stored_time_def)
qed

section \<open>Authentication\<close>

definition identity_of :: "instance_row \<Rightarrow> membership_row \<Rightarrow> Identity" where
  "identity_of i m =
     \<lparr>id_membership = mb_id m, id_squad = mb_squad_id m, id_mode = mode_of (in_mode i),
      id_expiry = UnixMillis (in_lease_expires_at i), id_last_seen = UnixMillis (in_last_seen_at i),
      id_created_at = UnixMillis (in_created_at i)\<rparr>"

lemma identity_of_sel [simp]:
  "id_membership (identity_of i m) = mb_id m" "id_squad (identity_of i m) = mb_squad_id m"
  "id_expiry (identity_of i m) = UnixMillis (in_lease_expires_at i)"
  "id_last_seen (identity_of i m) = UnixMillis (in_last_seen_at i)"
  by (simp_all add: identity_of_def)

text \<open>The row a session's instance id selects, if any, with its membership.\<close>

definition session_row :: "AuthenticatedSession \<Rightarrow> db \<Rightarrow> instance_row \<Rightarrow> membership_row \<Rightarrow> bool" where
  "session_row session s i m \<longleftrightarrow>
     i \<in> set (db_instances s) \<and> in_id i = se_instance_id session
     \<and> m \<in> set (db_memberships s) \<and> mb_id m = in_membership_id i"

lemma session_row_unique:
  assumes "db_ok H s" and "session_row session s i m" and "session_row session s i' m'"
  shows "i' = i" and "m' = m"
proof -
  have "List.find (\<lambda>(i, m). in_id i = se_instance_id session \<and> True) (instance_members s) = Some (i, m)"
      "List.find (\<lambda>(i, m). in_id i = se_instance_id session \<and> True) (instance_members s) = Some (i', m')"
    unfolding instance_members_find [OF assms(1)] using assms(2,3) by (simp_all add: session_row_def)
  then show "i' = i" "m' = m" by simp_all
qed

lemma historical_decodes:
  assumes "db_ok H s" and "session_row session s i m"
  shows "authenticate_historical H session s =
    (if in_resume_token_hash i = token_hash H (se_resume_token session)
     then Inr (identity_of i m) else Inl RepositoryError.NotFound)"
proof -
  have "List.find (\<lambda>(i, m). in_id i = se_instance_id session \<and> True) (instance_members s) = Some (i, m)"
    unfolding instance_members_find [OF assms(1)] using assms(2) by (simp add: session_row_def)
  moreover have "instance_row_ok i" "membership_row_ok m"
    using assms by (auto simp: session_row_def db_ok_def instances_ok_def memberships_ok_def)
  ultimately show ?thesis
    by (simp add: authenticate_historical_def authenticate_eq auth_parse_mode_same
        instance_parse_mode_ok identity_of_def)
      (simp add: membership_row_ok_def instance_row_ok_def membership_id.accepted squad_id.accepted
        UnixMillis_new_def)
qed

lemma historical_unknown:
  assumes "db_ok H s" and "\<And>i m. \<not> session_row session s i m"
  shows "authenticate_historical H session s = Inl RepositoryError.NotFound"
proof -
  have "List.find (\<lambda>(i, m). in_id i = se_instance_id session \<and> True) (instance_members s) \<noteq> Some (i, m)" for i m
    using assms(2) [of i m] unfolding instance_members_find [OF assms(1)] by (simp add: session_row_def)
  then show ?thesis
    by (cases "List.find (\<lambda>(i, m). in_id i = se_instance_id session \<and> True) (instance_members s)")
      (auto simp: authenticate_historical_def)
qed

lemma authenticate_historical_Inr:
  assumes "db_ok H s"
  shows "authenticate_historical H session s = Inr ident \<longleftrightarrow>
    (\<exists>i m. session_row session s i m
      \<and> in_resume_token_hash i = token_hash H (se_resume_token session) \<and> ident = identity_of i m)"
proof (cases "\<exists>i m. session_row session s i m")
  case True
  then obtain i m where row: "session_row session s i m" by blast
  have "(\<exists>i m. session_row session s i m \<and> P i m) \<longleftrightarrow> P i m" for P
    using row session_row_unique [OF assms row] by blast
  then show ?thesis by (auto simp: historical_decodes [OF assms row])
next
  case False
  then have "\<not> session_row session s i m" for i m by blast
  then show ?thesis using historical_unknown [OF assms] False by simp
qed

text \<open>The current owner: authenticated, lease running, open, not left, squad active.\<close>

definition session_owner ::
  "(string \<Rightarrow> string) \<Rightarrow> AuthenticatedSession \<Rightarrow> db \<Rightarrow> instance_row \<Rightarrow> membership_row \<Rightarrow> bool" where
  "session_owner H session s i m \<longleftrightarrow>
     session_row session s i m
     \<and> in_resume_token_hash i = token_hash H (se_resume_token session)
     \<and> live_at (se_now session) i \<and> is_active_member m
     \<and> (\<exists>q \<in> set (db_squads s). sq_id q = mb_squad_id m \<and> sq_state q = ''active'')"

lemma authorize_current_Inr:
  assumes "db_ok H s"
  shows "authorize_current H session s = Inr ident \<longleftrightarrow>
    (\<exists>i m. session_owner H session s i m \<and> ident = identity_of i m)"
proof
  assume auth: "authorize_current H session s = Inr ident"
  then have hist: "authenticate_historical H session s = Inr ident"
    by (auto simp: authorize_current_def result_simps)
  then obtain i m where row: "session_row session s i m"
      "in_resume_token_hash i = token_hash H (se_resume_token session)" "ident = identity_of i m"
    unfolding authenticate_historical_Inr [OF assms] by blast
  from auth hist obtain i' m' q where
    found: "List.find (\<lambda>((i, m), q). in_id i = se_instance_id session \<and> True)
      (instance_member_squads s) = Some ((i', m'), q)"
    and ok: "\<not> id_expiry ident \<le> se_now session" "sq_state q = ''active''"
      "in_closed_at i' = None" "mb_left_at m' = None"
    by (auto simp: authorize_current_def result_simps)
  from found have sel: "session_row session s i' m'" "q \<in> set (db_squads s)" "sq_id q = mb_squad_id m'"
    unfolding instance_member_squads_find [OF assms] by (auto simp: session_row_def)
  with session_row_unique [OF assms row(1) sel(1)] row ok have "session_owner H session s i m"
    by (auto simp: session_owner_def live_at_def is_open_def is_active_member_def less_eq_UnixMillis_def)
  with row(3) show "\<exists>i m. session_owner H session s i m \<and> ident = identity_of i m" by blast
next
  assume "\<exists>i m. session_owner H session s i m \<and> ident = identity_of i m"
  then obtain i m q where own: "session_owner H session s i m" "ident = identity_of i m"
      "q \<in> set (db_squads s)" "sq_id q = mb_squad_id m" "sq_state q = ''active''"
    by (auto simp: session_owner_def)
  then have row: "session_row session s i m" by (simp add: session_owner_def)
  have "List.find (\<lambda>((i, m), q). in_id i = se_instance_id session \<and> True)
      (instance_member_squads s) = Some ((i, m), q)"
    unfolding instance_member_squads_find [OF assms] using row own by (simp add: session_row_def)
  with own show "authorize_current H session s = Inr ident"
    by (simp add: authorize_current_def historical_decodes [OF assms row] session_owner_def
        live_at_def is_open_def is_active_member_def less_eq_UnixMillis_def ensure_def)
qed

lemma authorized_facts:
  assumes "db_ok H s" and "authorize_current H session s = Inr ident"
  obtains i m where "session_owner H session s i m" "ident = identity_of i m"
    "i \<in> set (db_instances s)" "in_id i = se_instance_id session" "is_open i"
    "m \<in> set (db_memberships s)" "mb_id m = in_membership_id i" "is_active_member m"
    "in_membership_id i \<in> active_members s" "membership_row_ok m"
proof -
  from assms obtain i m where own: "session_owner H session s i m" "ident = identity_of i m"
    unfolding authorize_current_Inr [OF assms(1)] by blast
  moreover from own(1) have "m \<in> set (db_memberships s)" "mb_id m = in_membership_id i" "is_active_member m"
    by (simp_all add: session_owner_def session_row_def)
  moreover from this have "in_membership_id i \<in> active_members s"
    unfolding active_members_def by (metis (mono_tags, lifting) image_eqI mem_Collect_eq)
  moreover from \<open>m \<in> set (db_memberships s)\<close> have "membership_row_ok m"
    using assms(1) by (simp add: db_ok_def memberships_ok_def)
  ultimately show thesis
    by (intro that [of i m]) (simp_all add: session_owner_def session_row_def live_at_def)
qed

section \<open>The store stays well-formed\<close>

definition AuthenticatedSession_wf :: "AuthenticatedSession \<Rightarrow> bool" where
  "AuthenticatedSession_wf session \<longleftrightarrow>
     is_ok (InstanceId_new (se_instance_id session)) \<and> valid_time (se_now session)"

lemma ownership_same_rows:
  "ownership_ok s \<Longrightarrow> db_instances s' = db_instances s \<Longrightarrow> db_memberships s' = db_memberships s \<Longrightarrow>
     ownership_ok s'"
  by (rule ownership_mono) (simp_all add: active_members_def)

text \<open>Every authenticated operation is one transaction: these two facts reduce it to its body.\<close>

lemma transaction_store_ok:
  assumes "store_ok H s" and "\<And>r s'. body s = Inr (r, s') \<Longrightarrow> store_ok H s'"
  shows "store_ok H (snd (transaction eng body s))"
  using assms by (rule transaction_preserves)

lemma heartbeat_authenticated_tx_Inr:
  assumes "db_ok H s" and "heartbeat_authenticated_tx H session av src pol s = Inr (rec, s')"
  obtains i m e where "session_owner H session s i m"
    "renew_lease (InstanceState_at None (UnixMillis (in_lease_expires_at i))
        (max (se_now session) (UnixMillis (in_last_seen_at i)))) (UnixMillis (in_lease_expires_at i))
        (max (se_now session) (UnixMillis (in_last_seen_at i))) (lp_lease_duration pol) = Inr e"
    "s' = renew_where (\<lambda>r. in_id r = se_instance_id session) (availability av)
       (availability_source src) (as_i64 (max (se_now session) (UnixMillis (in_last_seen_at i)))) (as_i64 e) s"
    "ir_lease_expires_at rec = e"
    "ir_last_seen_at rec = max (se_now session) (UnixMillis (in_last_seen_at i))"
  using assms(2)
  by (auto simp: heartbeat_authenticated_tx_def result_simps Let_def authorize_current_Inr [OF assms(1)])

lemma authenticated_heartbeat_keeps:
  assumes "store_ok H s" and "AuthenticatedSession_wf session"
  shows "store_ok H (snd (authenticated_heartbeat H eng session av src pol s))"
proof (cases "AvailabilityObservation_new av src (se_now session)")
  case (Inl e)
  with assms show ?thesis by (simp add: authenticated_heartbeat_def)
next
  case (Inr obs)
  then have obs: "validate_observation av src (se_now session) = Inr ()"
    by (simp add: validate_observation_def)
  have "store_ok H s'"
    if tx: "heartbeat_authenticated_tx H session av src pol s = Inr (rec, s')" for rec s'
    using store_okD(1) [OF assms(1)] tx
  proof (rule heartbeat_authenticated_tx_Inr)
    fix i m e
    assume own: "session_owner H session s i m"
      and ren: "renew_lease (InstanceState_at None (UnixMillis (in_lease_expires_at i))
        (max (se_now session) (UnixMillis (in_last_seen_at i)))) (UnixMillis (in_lease_expires_at i))
        (max (se_now session) (UnixMillis (in_last_seen_at i))) (lp_lease_duration pol) = Inr e"
      and s': "s' = renew_where (\<lambda>r. in_id r = se_instance_id session) (availability av)
       (availability_source src) (as_i64 (max (se_now session) (UnixMillis (in_last_seen_at i)))) (as_i64 e) s"
    from own have i: "i \<in> set (db_instances s)" "in_id i = se_instance_id session"
      by (simp_all add: session_owner_def session_row_def)
    have now: "valid_time (se_now session)" using assms(2) by (simp add: AuthenticatedSession_wf_def)
    show "store_ok H s'"
      unfolding s' by (rule renewal_keeps [OF assms(1) i(1) now obs refl ren]) (simp add: i(2))
  qed
  with Inr assms(1) show ?thesis
    by (simp add: authenticated_heartbeat_def transaction_store_ok)
qed

lemma archive_where_store_ok:
  assumes "store_ok H s" and "valid_time t"
  shows "store_ok H (archive_where p (as_i64 t) s)"
proof -
  have "ownership_ok (archive_where p (as_i64 t) s)"
    using store_okD(2) [OF assms(1)] by (rule ownership_same_rows) (simp_all add: store_ok_def archive_where_def)
  with assms show ?thesis by (simp add: store_ok_def archive_where_ok)
qed

lemma authenticated_archive_keeps:
  assumes "store_ok H s" and "AuthenticatedSession_wf session"
  shows "store_ok H (snd (authenticated_archive H eng session sq s))"
    and "store_ok H (snd (authenticated_archive_by_name H eng session n s))"
  unfolding authenticated_archive_def authenticated_archive_by_name_def
  using assms archive_where_store_ok [OF assms(1), of "se_now session"]
  by (auto intro!: transaction_store_ok simp: result_simps Let_def AuthenticatedSession_wf_def)

lemma send_store_ok:
  assumes "store_ok H s" and "SendMessage_wf req" and "send_in_transaction H req s = Inr (rec, s')"
  shows "store_ok H s'"
proof -
  have ok: "db_ok H s" using assms(1) by (simp add: store_ok_def)
  have "db_instances s' = db_instances s \<and> db_memberships s' = db_memberships s"
    using ok assms(3) by (cases rule: send_in_transaction_cases) (auto simp: insert_message_Inr)
  then have "ownership_ok s'"
    using ownership_same_rows [OF store_okD(2) [OF assms(1)]] by blast
  with send_in_transaction_ok [OF ok assms(2,3)] show ?thesis by (simp add: store_ok_def)
qed

lemma authenticated_send_keeps:
  assumes "store_ok H s" and "SendMessage_wf req"
  shows "store_ok H (snd (authenticated_send H eng session req s))"
  unfolding authenticated_send_def
  using assms send_store_ok [OF assms]
  by (auto intro!: transaction_store_ok simp: result_simps split: option.splits)

definition SendByName_wf :: "SendByName \<Rightarrow> bool" where
  "SendByName_wf req \<longleftrightarrow>
     is_ok (MessageId_new (sn_id req)) \<and> is_ok (MemberName_new (sn_recipient req))
     \<and> is_ok (MessageBody_new (sn_body req)) \<and> is_ok (DedupeKey_new (sn_dedupe_key req))
     \<and> (case sn_reply_to req of None \<Rightarrow> True | Some m \<Rightarrow> is_ok (MessageId_new m))
     \<and> (case sn_correlation_id req of None \<Rightarrow> True | Some c \<Rightarrow> is_ok (CorrelationId_new c))"

lemma send_from_name_wf:
  "SendByName_wf req \<Longrightarrow> is_ok (SquadId_new sq) \<Longrightarrow> is_ok (MembershipId_new snd_id) \<Longrightarrow>
   is_ok (MembershipId_new rcp) \<Longrightarrow> valid_time t \<Longrightarrow> SendMessage_wf (send_from_name req sq snd_id rcp t)"
  by (simp add: SendMessage_wf_def send_from_name_def SendByName_wf_def)

lemma historical_ids_ok:
  assumes "db_ok H s" and "authenticate_historical H session s = Inr ident"
  shows "is_ok (SquadId_new (id_squad ident))" and "is_ok (MembershipId_new (id_membership ident))"
  using assms unfolding authenticate_historical_Inr [OF assms(1)]
  by (auto simp: session_row_def db_ok_def memberships_ok_def membership_row_ok_def)

lemma send_by_name_tx_store_ok:
  assumes "store_ok H s" and "AuthenticatedSession_wf session" and "SendByName_wf req"
    and "send_by_name_tx H session req s = Inr (out, s')"
  shows "store_ok H s'"
proof -
  have ok: "db_ok H s" using assms(1) by (simp add: store_ok_def)
  from assms(4) obtain ident where ident: "authenticate_historical H session s = Inr ident"
    and cases: "(\<exists>r. replay_by_name H session req ident r s = Inr (out, s'))
      \<or> fresh_by_name H session req ident s = Inr (out, s')"
    by (auto simp: send_by_name_tx_def result_simps split: option.splits)
  from cases show ?thesis
  proof
    assume "\<exists>r. replay_by_name H session req ident r s = Inr (out, s')"
    then have "s' = s" by (auto simp: replay_by_name_def result_simps Let_def)
    with assms(1) show ?thesis by simp
  next
    assume "fresh_by_name H session req ident s = Inr (out, s')"
    then obtain rcp rec where "is_ok (MembershipId_new rcp)"
      and send: "send_in_transaction H (send_from_name req (id_squad ident) (id_membership ident) rcp
        (se_now session)) s = Inr (rec, s')"
      by (auto simp: fresh_by_name_def result_simps Let_def membership_id.new_Inr_iff)
    then have "SendMessage_wf (send_from_name req (id_squad ident) (id_membership ident) rcp (se_now session))"
      using assms(2,3) historical_ids_ok [OF ok ident]
      by (intro send_from_name_wf) (simp_all add: AuthenticatedSession_wf_def)
    from send_store_ok [OF assms(1) this send] show ?thesis .
  qed
qed

lemma authenticated_send_by_name_keeps:
  assumes "store_ok H s" and "AuthenticatedSession_wf session" and "SendByName_wf req"
  shows "store_ok H (snd (authenticated_send_by_name H eng session req s))"
  unfolding authenticated_send_by_name_def
  using assms(1) send_by_name_tx_store_ok [OF assms] by (rule transaction_store_ok)

lemma ack_where_store_ok:
  assumes "store_ok H s" and "valid_time t"
  shows "store_ok H (ack_where p (as_i64 t) s)"
proof -
  have "ownership_ok (ack_where p (as_i64 t) s)"
    using store_okD(2) [OF assms(1)] by (rule ownership_same_rows) (simp_all add: store_ok_def ack_where_def)
  with assms show ?thesis by (simp add: store_ok_def ack_where_ok)
qed

lemma authenticated_acknowledge_keeps:
  assumes "\<And>xs. set (hash_order xs) = set xs" and "store_ok H s" and "AuthenticatedSession_wf session"
  shows "store_ok H (snd (authenticated_acknowledge H hash_order eng session ids s))"
  unfolding authenticated_acknowledge_def
proof (rule transaction_store_ok)
  fix r s'
  assume "rbind (authorize_current H session s) (\<lambda>identity.
     acknowledge_on hash_order \<lparr>ak_recipient = id_membership identity,
       ak_message_ids = ids, ak_acknowledged_at = se_now session\<rparr> False s) = Inr (r, s')"
  then obtain ident :: Identity where "acknowledge_on hash_order \<lparr>ak_recipient = id_membership ident,
       ak_message_ids = ids, ak_acknowledged_at = se_now session\<rparr> False s = Inr (r, s')"
    unfolding rbind_eq_Inr by blast
  from acknowledge_on_Inr(1) [OF assms(1) this] show "store_ok H s'"
    using assms(2,3) by (simp add: ack_where_store_ok AuthenticatedSession_wf_def)
qed (rule assms(2))

text \<open>
  Leaving closes only the session's own instance; it is the member's only open one, so nothing
  open is left behind.
\<close>

lemma leave_tx_store_ok:
  assumes "store_ok H s" and "session_owner H session s i m" and "valid_time t"
  shows "store_ok H (leave_where (\<lambda>r. mb_id r = mb_id m \<and> mb_left_at r = None) (as_i64 t)
    (close_where (\<lambda>r. in_id r = se_instance_id session \<and> in_closed_at r = None) (as_i64 t) s))"
proof -
  have ok: "db_ok H s" using assms(1) by (simp add: store_ok_def)
  have i: "i \<in> set (db_instances s)" "in_id i = se_instance_id session" "is_open i"
      "mb_id m = in_membership_id i"
    using assms(2) by (simp_all add: session_owner_def session_row_def live_at_def)
  have ids: "distinct (map in_id (db_instances s))" using ok by (simp add: db_ok_def instances_ok_def)
  have own: "in_id j = se_instance_id session \<and> in_closed_at j = None"
    if "j \<in> set (db_instances s)" "is_open j" "in_membership_id j = mb_id m" for j
    using open_instance_unique [OF db_okD(4) [OF ok] that(1) i(1) that(2) i(3)] that i
    by (simp add: is_open_def)
  have "in_membership_id j = mb_id m"
    if "j \<in> set (db_instances s)" "in_id j = se_instance_id session \<and> in_closed_at j = None" for j
    using distinct_map_unique [OF ids that(1) i(1)] that(2) i by simp
  then have "ownership_ok (leave_where (\<lambda>r. mb_id r = mb_id m \<and> mb_left_at r = None) (as_i64 t)
    (close_where (\<lambda>r. in_id r = se_instance_id session \<and> in_closed_at r = None) (as_i64 t) s))"
    by (rule leave_ownership [OF store_okD(2) [OF assms(1)]])
  moreover have "db_ok H (leave_where (\<lambda>r. mb_id r = mb_id m \<and> mb_left_at r = None) (as_i64 t)
    (close_where (\<lambda>r. in_id r = se_instance_id session \<and> in_closed_at r = None) (as_i64 t) s))"
    using ok assms(3) own by (intro close_then_leave_ok) simp_all
  ultimately show ?thesis by (simp add: store_ok_def)
qed

lemma authenticated_leave_Inr:
  assumes "db_ok H s" and "authenticated_leave H eng session n s = (Inr out, s')"
  obtains i m where "session_owner H session s i m"
    "s' = leave_where (\<lambda>r. mb_id r = mb_id m \<and> mb_left_at r = None) (as_i64 (se_now session))
      (close_where (\<lambda>r. in_id r = se_instance_id session \<and> in_closed_at r = None)
        (as_i64 (se_now session)) s)"
    "out = \<lparr>lo_membership_id = mb_id m, lo_left_at = se_now session\<rparr>"
  using assms(2)
  by (auto simp: authenticated_leave_def transaction_Inr result_simps Let_def
      authorize_current_Inr [OF assms(1)])

lemma authenticated_leave_error:
  "authenticated_leave H eng session n s = (Inl e, s') \<Longrightarrow> s' = s"
  by (auto simp: authenticated_leave_def dest: transaction_error_rolls_back)

lemma authenticated_leave_keeps:
  assumes "store_ok H s" and "AuthenticatedSession_wf session"
  shows "store_ok H (snd (authenticated_leave H eng session n s))"
proof (cases "authenticated_leave H eng session n s")
  case (Pair r s')
  show ?thesis
  proof (cases r)
    case (Inl e)
    with Pair assms(1) show ?thesis by (auto dest: authenticated_leave_error)
  next
    case (Inr out)
    with Pair have "authenticated_leave H eng session n s = (Inr out, s')" by simp
    then have "store_ok H s'"
      by (rule authenticated_leave_Inr [OF store_okD(1) [OF assms(1)]])
        (use assms leave_tx_store_ok in \<open>simp add: AuthenticatedSession_wf_def\<close>)
    with Pair show ?thesis by simp
  qed
qed

definition ResumeSession_wf :: "ResumeSession \<Rightarrow> bool" where
  "ResumeSession_wf req \<longleftrightarrow>
     is_ok (InstanceId_new (rq_new_instance req)) \<and> valid_time (rq_now req) \<and> policy_ok (rq_policy req)"

lemma resume_authenticated_tx_Inr:
  assumes "db_ok H s" and "resume_authenticated_tx H req s = Inr (ctx, s')"
  obtains i m q where "i \<in> set (db_instances s)" "in_id i = rq_prior_instance req"
    "m \<in> set (db_memberships s)" "mb_id m = in_membership_id i" "is_active_member m"
    "in_resume_token_hash i = token_hash H (rq_token req)"
    "q \<in> set (db_squads s)" "sq_id q = mb_squad_id m" "sq_name q = rq_expected_squad req"
    "sq_state q = ''active''"
    "\<forall>j \<in> set (db_instances s). in_membership_id j = mb_id m \<longrightarrow> \<not> live_at (rq_now req) j"
    "insert_instance H (rq_new_instance req) (mb_id m) (rq_mode req)
       (rq_client_kind req) (rq_hostname req) (rq_token req) (rq_availability req)
       (rq_source req) (rq_now req) (rq_policy req)
       (close_where (\<lambda>r. in_membership_id r = mb_id m \<and> in_closed_at r = None) (as_i64 (rq_now req)) s) =
     Inr (sc_instance ctx, s')"
proof -
  from assms(2) obtain i m q where
    found: "List.find (\<lambda>((i, m), q). in_id i = rq_prior_instance req \<and> mb_left_at m = None)
         (instance_member_squads s) = Some ((i, m), q)"
    and rest: "in_resume_token_hash i = token_hash H (rq_token req)" "sq_name q = rq_expected_squad req"
      "sq_state q = ''active''"
      "\<not> list_ex (\<lambda>r. in_membership_id r = in_membership_id i \<and> in_closed_at r = None
           \<and> in_lease_expires_at r > as_i64 (rq_now req)) (db_instances s)"
      "insert_instance H (rq_new_instance req) (in_membership_id i) (rq_mode req)
       (rq_client_kind req) (rq_hostname req) (rq_token req) (rq_availability req)
       (rq_source req) (rq_now req) (rq_policy req)
       (close_where (\<lambda>r. in_membership_id r = in_membership_id i \<and> in_closed_at r = None)
         (as_i64 (rq_now req)) s) = Inr (sc_instance ctx, s')"
    by (auto simp: resume_authenticated_tx_def result_simps Let_def membership_id.new_Inr_iff)
  from found have sel: "i \<in> set (db_instances s)" "in_id i = rq_prior_instance req"
      "m \<in> set (db_memberships s)" "mb_id m = in_membership_id i" "is_active_member m"
      "q \<in> set (db_squads s)" "sq_id q = mb_squad_id m"
    unfolding instance_member_squads_find [OF assms(1)] by (auto simp: is_active_member_def)
  have "\<forall>j \<in> set (db_instances s). in_membership_id j = mb_id m \<longrightarrow> \<not> live_at (rq_now req) j"
    using rest(4) sel(4) by (auto simp: live_at_def is_open_def list_ex_iff)
  with sel rest show thesis by (intro that [of i m q]) simp_all
qed

lemma authenticated_resume_keeps:
  assumes "store_ok H s" and "ResumeSession_wf req"
  shows "store_ok H (snd (authenticated_resume H eng req s))"
proof (cases "rbind (validate_client (rq_client_kind req) (rq_hostname req))
    (\<lambda>_. validate_observation (rq_availability req) (rq_source req) (rq_now req))")
  case (Inl e)
  with assms(1) show ?thesis by (simp add: authenticated_resume_def)
next
  case (Inr u)
  then have obs: "validate_observation (rq_availability req) (rq_source req) (rq_now req) = Inr u"
    by (auto simp: result_simps)
  have ok: "db_ok H s" using assms(1) by (simp add: store_ok_def)
  have "store_ok H s'" if tx: "resume_authenticated_tx H req s = Inr (ctx, s')" for ctx s'
  proof -
    from ok tx obtain i m q where row: "m \<in> set (db_memberships s)" "is_active_member m"
      and dead: "\<forall>j \<in> set (db_instances s). in_membership_id j = mb_id m \<longrightarrow> \<not> live_at (rq_now req) j"
      and ins: "insert_instance H (rq_new_instance req) (mb_id m) (rq_mode req)
       (rq_client_kind req) (rq_hostname req) (rq_token req) (rq_availability req)
       (rq_source req) (rq_now req) (rq_policy req)
       (close_where (\<lambda>r. in_membership_id r = mb_id m \<and> in_closed_at r = None) (as_i64 (rq_now req)) s) =
       Inr (sc_instance ctx, s')"
      by (rule resume_authenticated_tx_Inr)
    have act: "mb_id m \<in> active_members s" using row by (auto simp: active_members_def)
    have wf: "policy_ok (rq_policy req)" "valid_time (rq_now req)"
        "is_ok (InstanceId_new (rq_new_instance req))" "is_ok (MembershipId_new (mb_id m))"
      using assms(2) row(1) ok
      by (auto simp: ResumeSession_wf_def db_ok_def memberships_ok_def membership_row_ok_def)
    show ?thesis
      by (rule replace_owner_ok [OF assms(1) wf act obs _ ins])
        (rule dead_owner_is_old [OF assms(1) act], use dead in auto)
  qed
  with Inr assms(1) show ?thesis by (simp add: authenticated_resume_def transaction_store_ok)
qed

definition JoinAndClaim_wf :: "JoinAndClaim \<Rightarrow> bool" where
  "JoinAndClaim_wf req \<longleftrightarrow>
     JoinMembership_wf (jc_membership req) \<and> is_ok (InstanceId_new (jc_instance_id req))
     \<and> policy_ok (jc_lease_policy req)"

lemma auth_find_or_create_squad_same:
  assumes "db_ok H s" and "auth_find_or_create_squad req s = Inr x"
  shows "find_or_create_squad req s = Inr x"
proof (cases "List.find (\<lambda>r. sq_name r = jm_squad_name req) (db_squads s)")
  case None
  with assms(2) show ?thesis by (simp add: auth_find_or_create_squad_def find_or_create_squad_def)
next
  case (Some r)
  then have "r \<in> set (db_squads s)" by (auto dest: find_SomeD)
  with assms(1) have "is_ok (SquadId_new (sq_id r))"
    by (auto simp: db_ok_def squads_ok_def squad_row_ok_def)
  with Some assms(2) show ?thesis
    by (auto simp: auth_find_or_create_squad_def find_or_create_squad_def squad_id.accepted
        split: if_splits)
qed

lemma inject_join_claim_simps [simp]:
  "inject_join_claim_fault None p = Inr ()" "inject_join_claim_fault f p = Inr u \<longleftrightarrow> f \<noteq> Some p"
  by (auto simp: inject_join_claim_fault_def)

lemma join_and_claim_Inr:
  assumes "join_and_claim_inner H enc entropy eng req fault s = (Inr out, s')"
  obtains token squad s1 s2 n s3 inst squad_record where
    "validate_observation (jc_availability req) (jc_availability_source req)
       (jm_joined_at (jc_membership req)) = Inr ()"
    "ResumeToken_generate enc entropy = Inr token"
    "auth_find_or_create_squad (jc_membership req) s = Inr (squad, s1)"
    "insert_agent \<lparr>ag_id = jm_agent_id (jc_membership req),
       ag_created_at = as_i64 (jm_joined_at (jc_membership req))\<rparr> s1 = Inr s2"
    "insert_membership_or_ignore (new_membership_row (jc_membership req) squad) s2 = Inr (n, s3)" "n \<noteq> 0"
    "insert_instance H (jc_instance_id req) (jm_membership_id (jc_membership req)) (jc_mode req)
       (jc_client_kind req) (jc_hostname req) token (jc_availability req)
       (jc_availability_source req) (jm_joined_at (jc_membership req)) (jc_lease_policy req) s3 =
     Inr (inst, s')"
    "squad_by_id squad s' = Inr squad_record"
    "out = \<lparr>jo_membership = joined_record (jc_membership req) squad, jo_squad = squad_record,
       jo_claim = \<lparr>co_instance = inst, co_resume_token = token\<rparr>\<rparr>"
  using assms
  by (auto simp: join_and_claim_inner_def transaction_Inr result_simps Let_def split: sum.splits)

lemma join_and_claim_error:
  "join_and_claim_inner H enc entropy eng req fault s = (Inl e, s') \<Longrightarrow> s' = s"
  by (auto simp: join_and_claim_inner_def Let_def dest: transaction_error_rolls_back split: sum.splits)

lemma active_members_snoc:
  "db_memberships s' = db_memberships s @ [r] \<Longrightarrow> is_active_member r \<Longrightarrow>
     active_members s' = insert (mb_id r) (active_members s)"
  by (auto simp: active_members_def)

text \<open>What a successful \<open>join_and_claim\<close> leaves: the rows of the join and one open instance.\<close>

lemma join_and_claim_result:
  assumes "store_ok H s" and "JoinAndClaim_wf req"
    and "join_and_claim_inner H enc entropy eng req fault s = (Inr out, s')"
  obtains squad where "store_ok H s'"
    "jo_membership out = joined_record (jc_membership req) squad"
    "new_membership_row (jc_membership req) squad \<in> set (db_memberships s')"
    "\<exists>q \<in> set (db_squads s'). sq_id q = squad \<and> sq_name q = jm_squad_name (jc_membership req)
       \<and> sq_state q = ''active''"
    "new_instance_row H (jc_instance_id req) (jm_membership_id (jc_membership req)) (jc_mode req)
       (jc_client_kind req) (jc_hostname req) (co_resume_token (jo_claim out)) (jc_availability req)
       (jc_availability_source req) (jm_joined_at (jc_membership req)) (jc_lease_policy req)
     \<in> set (db_instances s')"
    "ir_lease_expires_at (co_instance (jo_claim out)) =
       UnixMillis (as_i64 (jm_joined_at (jc_membership req)) + as_millis (lp_lease_duration (jc_lease_policy req)))"
    "ResumeToken_generate enc entropy = Inr (co_resume_token (jo_claim out))"
proof -
  let ?mem = "jc_membership req"
  from assms(3) obtain token squad s1 s2 n s3 inst squad_record where
    obs: "validate_observation (jc_availability req) (jc_availability_source req) (jm_joined_at ?mem) = Inr ()"
    and tok: "ResumeToken_generate enc entropy = Inr token"
    and found: "auth_find_or_create_squad ?mem s = Inr (squad, s1)"
    and steps: "insert_agent \<lparr>ag_id = jm_agent_id ?mem, ag_created_at = as_i64 (jm_joined_at ?mem)\<rparr> s1 = Inr s2"
      "insert_membership_or_ignore (new_membership_row ?mem squad) s2 = Inr (n, s3)" "n \<noteq> 0"
    and ins: "insert_instance H (jc_instance_id req) (jm_membership_id ?mem) (jc_mode req)
       (jc_client_kind req) (jc_hostname req) token (jc_availability req)
       (jc_availability_source req) (jm_joined_at ?mem) (jc_lease_policy req) s3 = Inr (inst, s')"
    and out: "out = \<lparr>jo_membership = joined_record ?mem squad, jo_squad = squad_record,
       jo_claim = \<lparr>co_instance = inst, co_resume_token = token\<rparr>\<rparr>"
    by (rule join_and_claim_Inr)
  let ?row = "new_instance_row H (jc_instance_id req) (jm_membership_id ?mem) (jc_mode req)
       (jc_client_kind req) (jc_hostname req) token (jc_availability req)
       (jc_availability_source req) (jm_joined_at ?mem) (jc_lease_policy req)"
  have ok: "db_ok H s" and own: "ownership_ok s" using assms(1) by (simp_all add: store_ok_def)
  have wf: "JoinMembership_wf ?mem" "policy_ok (jc_lease_policy req)" "valid_time (jm_joined_at ?mem)"
      "is_ok (InstanceId_new (jc_instance_id req))" "is_ok (MembershipId_new (jm_membership_id ?mem))"
    using assms(2) by (simp_all add: JoinAndClaim_wf_def JoinMembership_wf_def)
  note found' = auth_find_or_create_squad_same [OF ok found]
  note fc = find_or_create_squad_ok [OF ok wf(1) found']
  note added = join_statements_ok [OF fc(1) wf(1) fc(2) steps]
  have fresh: "jm_membership_id ?mem \<notin> mb_id ` set (db_memberships s)"
    using insert_membership_Inr [of "new_membership_row ?mem squad" s2 n s3] steps fc(5)
    by (auto simp: new_membership_row_def insert_agent_Inr)
  have inst_s3: "db_instances s3 = db_instances s" using added(2) fc(6) by simp
  have none: "in_membership_id j \<noteq> jm_membership_id ?mem" if "j \<in> set (db_instances s3)" for j
  proof -
    have "in_membership_id j \<in> mb_id ` set (db_memberships s)"
      using that ok inst_s3 by (simp add: db_ok_def instances_ok_def)
    with fresh show ?thesis by metis
  qed
  have active: "active_members s3 = insert (jm_membership_id ?mem) (active_members s)"
    using active_members_snoc [of s3 s "new_membership_row ?mem squad"] added(2) fc(5)
    by (simp add: new_membership_row_def is_active_member_def)
  have "ownership_ok s3"
    using own inst_s3 none active by (intro ownership_mono [of s s3]) auto
  with added(1) have "store_ok H s3" by (simp add: store_ok_def)
  from first_owner_ok [OF this wf(2-5) _ obs none ins] active have "store_ok H s'" by simp
  moreover have s': "s' = s3\<lparr>db_instances := db_instances s3 @ [?row]\<rparr>"
    and expiry: "ir_lease_expires_at inst =
      UnixMillis (as_i64 (jm_joined_at ?mem) + as_millis (lp_lease_duration (jc_lease_policy req)))"
    using ins by (simp_all add: insert_instance_Inr [OF wf(3)] insert_instance_row_Inr)
  moreover have "\<exists>q \<in> set (db_squads s1). sq_id q = squad \<and> sq_name q = jm_squad_name ?mem
      \<and> sq_state q = ''active''"
    using found' found fc(1)
  proof (cases rule: find_or_create_squad_Inr)
    case (existing r)
    with fc(1) show ?thesis by (auto simp: db_ok_def squads_ok_def squad_row_ok_def squad_check_def)
  next
    case (created m)
    then show ?thesis by (auto simp: insert_squad_Inr)
  qed
  ultimately show thesis
    using out tok added(2) by (intro that [of squad]) simp_all
qed

lemma join_and_claim_keeps:
  assumes "store_ok H s" and "JoinAndClaim_wf req"
  shows "store_ok H (snd (join_and_claim_inner H enc entropy eng req fault s))"
proof (cases "join_and_claim_inner H enc entropy eng req fault s")
  case (Pair r s')
  show ?thesis
  proof (cases r)
    case (Inl e)
    with Pair assms(1) show ?thesis by (auto dest: join_and_claim_error)
  next
    case (Inr out)
    with Pair have "join_and_claim_inner H enc entropy eng req fault s = (Inr out, s')" by simp
    with assms have "store_ok H s'" by (rule join_and_claim_result)
    with Pair show ?thesis by simp
  qed
qed

end
