(* ===== verification/Store_Sessions.thy ===== *)
theory Store_Sessions
  imports Store_Auth
begin

text \<open>
  What the authenticated operations of \<open>Store_Auth\<close> guarantee their callers: who is let in and
  what everybody else learns, that a fresh session works, that sending by name is retry-safe,
  that inbox pages and transcript pages are complete, and what leaving and resuming do.
\<close>

section \<open>Message views\<close>

lemma message_joins_set:
  "(((r, q), sm), rm) \<in> set (message_joins s) \<longleftrightarrow>
     r \<in> set (db_messages s) \<and> q \<in> set (db_squads s) \<and> sq_id q = ms_squad_id r
     \<and> sm \<in> set (db_memberships s) \<and> mb_id sm = ms_sender_membership_id r
     \<and> rm \<in> set (db_memberships s) \<and> mb_id rm = ms_recipient_membership_id r"
  by (auto simp: message_joins_def set_join_rows)

lemma message_references:
  assumes "db_ok H s" and "r \<in> set (db_messages s)"
  obtains q sm rm where "(((r, q), sm), rm) \<in> set (message_joins s)"
proof -
  from assms obtain sm rm where sm: "sm \<in> set (db_memberships s)" "mb_id sm = ms_sender_membership_id r"
      "mb_squad_id sm = ms_squad_id r"
    and rm: "rm \<in> set (db_memberships s)" "mb_id rm = ms_recipient_membership_id r"
    by (auto simp: db_ok_def messages_ok_def membership_key_def dest!: bspec)
  moreover from assms(1) sm obtain q where "q \<in> set (db_squads s)" "sq_id q = ms_squad_id r"
    by (auto simp: db_ok_def memberships_ok_def dest!: bspec)
  ultimately show thesis using assms(2) that by (auto simp: message_joins_set)
qed

text \<open>The view of a stored message: the names its ids resolve to.\<close>

definition view_of :: "MessageRecord \<Rightarrow> message_row \<Rightarrow> squad_row \<Rightarrow> membership_row \<Rightarrow> membership_row \<Rightarrow> MessageView" where
  "view_of rec r q sm rm =
     \<lparr>mv_message = rec, mv_squad = sq_name q, mv_sender = mb_name sm, mv_recipient = mb_name rm,
      mv_acknowledged_at = map_option UnixMillis (ms_acknowledged_at r)\<rparr>"

lemma message_view_on_stored:
  assumes "db_ok H s" and "r \<in> set (db_messages s)" and "mg_id rec = ms_id r"
  obtains q sm rm where "(((r, q), sm), rm) \<in> set (message_joins s)"
    "message_view_on rec s = Inr (view_of rec r q sm rm)"
proof -
  let ?p = "\<lambda>(((m, q), sm), rm). ms_id m = mg_id rec"
  obtain q0 sm0 rm0 where row: "(((r, q0), sm0), rm0) \<in> set (message_joins s)"
    using message_references [OF assms(1,2)] .
  have "List.find ?p (message_joins s) \<noteq> None"
  proof
    assume "List.find ?p (message_joins s) = None"
    from find_NoneD [OF this row] assms(3) show False by simp
  qed
  then obtain x where x: "List.find ?p (message_joins s) = Some x" by auto
  obtain r' q sm rm where parts: "x = (((r', q), sm), rm)" by (metis prod.collapse)
  from find_SomeD [OF x] have mem: "(((r', q), sm), rm) \<in> set (message_joins s)" "ms_id r' = ms_id r"
    using assms(3) parts by auto
  then have "r' = r"
    using assms(1,2) distinct_map_unique [of ms_id "db_messages s" r' r]
    by (simp add: message_joins_set db_ok_def messages_ok_def)
  with mem have set: "(((r, q), sm), rm) \<in> set (message_joins s)" by simp
  then have rows: "message_row_ok H r" "squad_row_ok q" "membership_row_ok sm" "membership_row_ok rm"
    using assms(1) by (auto simp: message_joins_set db_ok_def messages_ok_def squads_ok_def memberships_ok_def)
  then have "optional_timestamp (ms_acknowledged_at r) = Inr (map_option UnixMillis (ms_acknowledged_at r))"
    by (simp add: message_row_ok_def optional_timestamp_stored)
  with rows x parts \<open>r' = r\<close> have "message_view_on rec s = Inr (view_of rec r q sm rm)"
    by (simp add: message_view_on_def view_of_def squad_row_ok_def membership_row_ok_def)
  with set that show thesis by blast
qed

section \<open>Who is let in\<close>

text \<open>
  (C20) Authorisation is exact. In a well-formed store a session is authorised for the current
  membership exactly when its instance exists and carries the digest of the presented token, is
  open with its lease running, its member has not left and the squad is active. A session whose
  instance is unknown and one with a wrong token get the same answer, \<open>NotFound\<close>, both from the
  current and from the historical check, so neither reveals whether the instance exists.
\<close>

theorem authorisation_is_exact_and_concealing:
  assumes "db_ok H s"
  shows "(is_ok (authorize_current H session s) \<longleftrightarrow>
      (\<exists>i \<in> set (db_instances s). \<exists>m \<in> set (db_memberships s). \<exists>q \<in> set (db_squads s).
         in_id i = se_instance_id session \<and> mb_id m = in_membership_id i \<and> sq_id q = mb_squad_id m
         \<and> in_resume_token_hash i = token_hash H (se_resume_token session)
         \<and> is_open i \<and> as_i64 (se_now session) < in_lease_expires_at i
         \<and> is_active_member m \<and> sq_state q = ''active''))
    \<and> ((\<forall>i \<in> set (db_instances s). in_id i = se_instance_id session \<longrightarrow>
          in_resume_token_hash i \<noteq> token_hash H (se_resume_token session)) \<longrightarrow>
        authenticate_historical H session s = Inl RepositoryError.NotFound
        \<and> authorize_current H session s = Inl RepositoryError.NotFound)"
proof (intro conjI impI)
  show "is_ok (authorize_current H session s) \<longleftrightarrow>
      (\<exists>i \<in> set (db_instances s). \<exists>m \<in> set (db_memberships s). \<exists>q \<in> set (db_squads s).
         in_id i = se_instance_id session \<and> mb_id m = in_membership_id i \<and> sq_id q = mb_squad_id m
         \<and> in_resume_token_hash i = token_hash H (se_resume_token session)
         \<and> is_open i \<and> as_i64 (se_now session) < in_lease_expires_at i
         \<and> is_active_member m \<and> sq_state q = ''active'')"
    unfolding is_ok_iff authorize_current_Inr [OF assms] session_owner_def session_row_def live_at_def
    by blast
  assume wrong: "\<forall>i \<in> set (db_instances s). in_id i = se_instance_id session \<longrightarrow>
          in_resume_token_hash i \<noteq> token_hash H (se_resume_token session)"
  show hist: "authenticate_historical H session s = Inl RepositoryError.NotFound"
  proof (cases "\<exists>i m. session_row session s i m")
    case True
    then obtain i m where row: "session_row session s i m" by blast
    with wrong show ?thesis by (simp add: historical_decodes [OF assms row]) (simp add: session_row_def)
  next
    case False
    then show ?thesis using historical_unknown [OF assms] by blast
  qed
  then show "authorize_current H session s = Inl RepositoryError.NotFound"
    by (simp add: authorize_current_def)
qed

lemma joined_session_owner:
  assumes "store_ok H s" and "JoinAndClaim_wf req"
    and "join_and_claim_inner H enc entropy eng req fault s = (Inr out, s')"
    and "now < ir_lease_expires_at (co_instance (jo_claim out))"
  shows "store_ok H s'
    \<and> (\<exists>ident. authorize_current H \<lparr>se_instance_id = jc_instance_id req,
          se_resume_token = co_resume_token (jo_claim out), se_now = now\<rparr> s' = Inr ident
        \<and> id_membership ident = mr_id (jo_membership out)
        \<and> id_squad ident = mr_squad_id (jo_membership out)
        \<and> id_expiry ident = ir_lease_expires_at (co_instance (jo_claim out)))"
proof -
  let ?mem = "jc_membership req"
  let ?row = "new_instance_row H (jc_instance_id req) (jm_membership_id ?mem) (jc_mode req)
       (jc_client_kind req) (jc_hostname req) (co_resume_token (jo_claim out)) (jc_availability req)
       (jc_availability_source req) (jm_joined_at ?mem) (jc_lease_policy req)"
  from assms(1-3) obtain squad where ok: "store_ok H s'"
    and mem: "jo_membership out = joined_record ?mem squad"
      "new_membership_row ?mem squad \<in> set (db_memberships s')"
    and squad: "\<exists>q \<in> set (db_squads s'). sq_id q = squad \<and> sq_name q = jm_squad_name ?mem
       \<and> sq_state q = ''active''"
    and inst: "?row \<in> set (db_instances s')"
    and expiry: "ir_lease_expires_at (co_instance (jo_claim out)) =
       UnixMillis (as_i64 (jm_joined_at ?mem) + as_millis (lp_lease_duration (jc_lease_policy req)))"
    by (rule join_and_claim_result)
  have "session_owner H \<lparr>se_instance_id = jc_instance_id req,
      se_resume_token = co_resume_token (jo_claim out), se_now = now\<rparr> s' ?row (new_membership_row ?mem squad)"
    using assms(4) mem(2) squad inst
    by (simp add: session_owner_def session_row_def live_at_def expiry less_UnixMillis_def)
      (auto simp: new_membership_row_def is_active_member_def)
  then show ?thesis
    unfolding authorize_current_Inr [OF store_okD(1) [OF ok]]
    by (intro conjI ok exI [of _ "identity_of ?row (new_membership_row ?mem squad)"])
      (auto simp: mem(1) joined_record_def expiry new_membership_row_def)
qed

text \<open>
  A fresh session works. When joining and claiming succeeds, in one commit, the returned
  token opens the new instance: for any time before the returned expiry the session is
  authorised as the new member in the joined squad. When it fails, at any of the injected
  points, nothing of squad, agent, membership or instance remains.
\<close>

theorem joined_session_is_authorised:
  assumes "store_ok H s" and "JoinAndClaim_wf req"
    and "join_and_claim_inner H enc entropy eng req fault s = (r, s')"
  shows "case r of
      Inl e \<Rightarrow> s' = s
    | Inr out \<Rightarrow>
        store_ok H s'
        \<and> (\<forall>now. now < ir_lease_expires_at (co_instance (jo_claim out)) \<longrightarrow>
            (\<exists>ident. authorize_current H \<lparr>se_instance_id = jc_instance_id req,
                se_resume_token = co_resume_token (jo_claim out), se_now = now\<rparr> s' = Inr ident
              \<and> id_membership ident = mr_id (jo_membership out)
              \<and> id_squad ident = mr_squad_id (jo_membership out)
              \<and> id_expiry ident = ir_lease_expires_at (co_instance (jo_claim out))))"
proof (cases r)
  case (Inl e)
  with assms(3) show ?thesis by (auto dest: join_and_claim_error)
next
  case (Inr out)
  then have run: "join_and_claim_inner H enc entropy eng req fault s = (Inr out, s')" using assms(3) by simp
  with assms(1,2) have "store_ok H s'" using join_and_claim_keeps [of H s req enc entropy eng fault] by simp
  with Inr joined_session_owner [OF assms(1,2) run] show ?thesis by auto
qed

section \<open>Sending by name\<close>

lemma historical_later:
  "authenticate_historical H (session\<lparr>se_now := t\<rparr>) s = authenticate_historical H session s"
  by (simp add: authenticate_historical_def)

lemma send_keeps_rows:
  assumes "db_ok H s" and "send_in_transaction H req s = Inr (rec, s')"
  shows "db_instances s' = db_instances s" and "db_memberships s' = db_memberships s"
  using assms by (cases rule: send_in_transaction_cases; auto simp: insert_message_Inr)+

text \<open>A committed send by name, seen from the state it leaves.\<close>

lemma send_by_name_tx_Inr:
  assumes "db_ok H s" and "AuthenticatedSession_wf session" and "SendByName_wf req"
    and "send_by_name_tx H session req s = Inr (out, s')"
  obtains ident recipient r where
    "authenticate_historical H session s' = Inr ident" "db_ok H s'"
    "r \<in> set (db_messages s')" "ms_recipient_membership_id r = recipient"
    "dedupe_match (id_squad ident) (id_membership ident) (sn_dedupe_key req) r"
    "mg_semantics (message_of r) =
       sm_semantics (send_from_name req (id_squad ident) (id_membership ident) recipient t)"
    "message_view_on (message_of r) s' = Inr (so_message out)"
    "mv_recipient (so_message out) = sn_recipient req" "\<not> pin_differs req recipient"
    "so_idempotent_replay out \<longrightarrow> s' = s"
proof -
  from assms(4) obtain ident where ident: "authenticate_historical H session s = Inr ident"
    and cases: "(\<exists>r rcp. List.find (dedupe_match (id_squad ident) (id_membership ident) (sn_dedupe_key req))
          (db_messages s) = Some r \<and> MembershipId_new (ms_recipient_membership_id r) = Inr rcp
          \<and> replay_by_name H session req ident rcp s = Inr (out, s'))
      \<or> fresh_by_name H session req ident s = Inr (out, s')"
    by (auto simp: send_by_name_tx_def result_simps split: option.splits)
  from cases show thesis
  proof
    assume "\<exists>r rcp. List.find (dedupe_match (id_squad ident) (id_membership ident) (sn_dedupe_key req))
          (db_messages s) = Some r \<and> MembershipId_new (ms_recipient_membership_id r) = Inr rcp
          \<and> replay_by_name H session req ident rcp s = Inr (out, s')"
    then obtain r rcp where r: "List.find (dedupe_match (id_squad ident) (id_membership ident)
          (sn_dedupe_key req)) (db_messages s) = Some r" "rcp = ms_recipient_membership_id r"
      and rep: "replay_by_name H session req ident rcp s = Inr (out, s')"
      by (auto simp: membership_id.new_Inr_iff)
    let ?send = "send_from_name req (id_squad ident) (id_membership ident) rcp (se_now session)"
    have found: "find_by_dedupe H ?send s = Inr (Some (message_of r))"
      using r(1) by (simp add: find_by_dedupe_ok [OF assms(1)] send_from_name_def)
    with rep have "s' = s" "mg_semantics (message_of r) = sm_semantics ?send"
        "message_view_on (message_of r) s = Inr (so_message out)"
        "mv_recipient (so_message out) = sn_recipient req" "\<not> pin_differs req rcp"
      by (auto simp: replay_by_name_def Let_def result_simps)
    moreover have "sm_semantics ?send =
        sm_semantics (send_from_name req (id_squad ident) (id_membership ident) rcp t)"
      by (simp add: send_from_name_def)
    ultimately show thesis
      using ident assms(1) r by (intro that [of ident r rcp]) (simp_all add: find_dedupe [OF assms(1)])
  next
    assume "fresh_by_name H session req ident s = Inr (out, s')"
    then obtain row rec view where row: "List.find (\<lambda>r. mb_squad_id r = id_squad ident
          \<and> mb_normalized_name r = sn_recipient req \<and> mb_left_at r = None) (db_memberships s) = Some row"
      and pin: "\<not> pin_differs req (mb_id row)"
      and send: "send_in_transaction H (send_from_name req (id_squad ident) (id_membership ident)
            (mb_id row) (se_now session)) s = Inr (rec, s')"
      and view: "message_view_on rec s' = Inr view" "so_message out = view" "\<not> so_idempotent_replay out"
      by (auto simp: fresh_by_name_def result_simps Let_def membership_id.new_Inr_iff)
    let ?send = "send_from_name req (id_squad ident) (id_membership ident) (mb_id row) (se_now session)"
    have mem: "row \<in> set (db_memberships s)" "mb_normalized_name row = sn_recipient req"
      using find_SomeD [OF row] by auto
    then have rowok: "membership_row_ok row" using assms(1) by (simp add: db_ok_def memberships_ok_def)
    have "SendMessage_wf ?send"
      using assms(2,3) historical_ids_ok [OF assms(1) ident] rowok
      by (intro send_from_name_wf) (simp_all add: AuthenticatedSession_wf_def membership_row_ok_def)
    then have ok': "db_ok H s'" using send_in_transaction_ok [OF assms(1) _ send] by blast
    have ident': "authenticate_historical H session s' = Inr ident"
      using ident send_keeps_rows [OF assms(1) send]
      by (simp add: authenticate_historical_def instance_members_def)
    obtain r where r: "r \<in> set (db_messages s')" "message_of r = rec"
        "mg_semantics rec = sm_semantics ?send"
        "dedupe_match (sem_squad (sm_semantics ?send)) (sem_sender (sm_semantics ?send)) (sm_dedupe_key ?send) r"
      using committed_send_is_stored [OF assms(1) send] by blast
    have "mg_id rec = ms_id r" using r(2) by (auto simp: message_of_def)
    then obtain q sm rm where "(((r, q), sm), rm) \<in> set (message_joins s')" "view = view_of rec r q sm rm"
      using message_view_on_stored [OF ok' r(1)] view(1) by (metis sum.inject(2))
    moreover have rcp: "ms_recipient_membership_id r = mb_id row"
      using r(2,3) by (auto simp: message_of_def send_from_name_def)
    ultimately have "rm \<in> set (db_memberships s)" "mb_id rm = mb_id row" "mv_recipient view = mb_name rm"
      using send_keeps_rows(2) [OF assms(1) send] by (simp_all add: message_joins_set view_of_def)
    moreover from this have "rm = row"
      using distinct_map_unique [of mb_id "db_memberships s" rm row] mem(1) assms(1)
      by (simp add: db_ok_def memberships_ok_def)
    ultimately have "mv_recipient view = sn_recipient req"
      using mem(2) rowok by (simp add: membership_row_ok_def)
    moreover have "dedupe_match (id_squad ident) (id_membership ident) (sn_dedupe_key req) r"
      using r(4) by (simp add: send_from_name_def)
    moreover have "sm_semantics ?send =
        sm_semantics (send_from_name req (id_squad ident) (id_membership ident) (mb_id row) t)"
      by (simp add: send_from_name_def)
    ultimately show thesis
      using ident' ok' r view pin rcp by (intro that [of ident r "mb_id row"]) simp_all
  qed
qed

text \<open>
  Sending by name is safe to retry. Once a send has committed, repeating the same request
  with the same credential at any later time, also after the lease has run out, returns the very
  same message view marked as a replay, and stores nothing. A request that itself reported a
  replay had stored nothing either, and a failed one leaves the store as it was.
\<close>

theorem send_by_name_retry_is_safe:
  assumes "store_ok H s" and "AuthenticatedSession_wf session" and "SendByName_wf req"
    and "authenticated_send_by_name H eng session req s = (r, s')"
  shows "case r of
      Inl e \<Rightarrow> s' = s
    | Inr out \<Rightarrow>
        (so_idempotent_replay out \<longrightarrow> s' = s)
        \<and> mv_recipient (so_message out) = sn_recipient req
        \<and> authenticated_send_by_name H healthy (session\<lparr>se_now := later\<rparr>) req s' =
            (Inr \<lparr>so_message = so_message out, so_idempotent_replay = True\<rparr>, s')"
proof (cases r)
  case (Inl e)
  with assms(4) show ?thesis
    by (auto simp: authenticated_send_by_name_def dest: transaction_error_rolls_back)
next
  case (Inr out)
  with assms(4) have "send_by_name_tx H session req s = Inr (out, s')"
    by (simp add: authenticated_send_by_name_def transaction_Inr)
  with store_okD(1) [OF assms(1)] assms(2,3) obtain ident rcp m where
    ident: "authenticate_historical H session s' = Inr ident" and ok: "db_ok H s'"
    and m: "m \<in> set (db_messages s')" "ms_recipient_membership_id m = rcp"
      "dedupe_match (id_squad ident) (id_membership ident) (sn_dedupe_key req) m"
      "mg_semantics (message_of m) =
         sm_semantics (send_from_name req (id_squad ident) (id_membership ident) rcp later)"
      "message_view_on (message_of m) s' = Inr (so_message out)"
    and rest: "mv_recipient (so_message out) = sn_recipient req" "\<not> pin_differs req rcp"
      "so_idempotent_replay out \<longrightarrow> s' = s"
    by (rule send_by_name_tx_Inr)
  have find: "List.find (dedupe_match (id_squad ident) (id_membership ident) (sn_dedupe_key req))
      (db_messages s') = Some m"
    using m(1,3) by (simp add: find_dedupe [OF ok])
  have "is_ok (MembershipId_new rcp)"
    using message_row_in [OF ok m(1)] m(2) by (simp add: message_row_ok_def)
  then have rcp: "MembershipId_new (ms_recipient_membership_id m) = Inr rcp"
    by (simp add: m(2) membership_id.accepted)
  let ?send = "send_from_name req (id_squad ident) (id_membership ident) rcp later"
  have "find_by_dedupe H ?send s' = Inr (Some (message_of m))"
    using find by (simp add: find_by_dedupe_ok [OF ok] send_from_name_def)
  then have "send_by_name_tx H (session\<lparr>se_now := later\<rparr>) req s' =
      Inr (\<lparr>so_message = so_message out, so_idempotent_replay = True\<rparr>, s')"
    using ident find rcp m(4,5) rest(1,2)
    by (simp add: send_by_name_tx_def historical_later replay_by_name_def Let_def ensure_def)
  with Inr rest show ?thesis by (simp add: authenticated_send_by_name_def transaction_healthy)
qed

section \<open>Inbox pages\<close>

lemma first_row_sort_key:
  assumes "xs \<noteq> []"
  obtains r where "first_row (sort_key f xs) = Some r" "r \<in> set xs" "\<And>y. y \<in> set xs \<Longrightarrow> f r \<le> f y"
proof (cases "sort_key f xs")
  case Nil
  then show thesis using assms by (metis length_0_conv length_sort)
next
  case (Cons r rest)
  have "set (r # rest) = set xs" by (metis Cons set_sort)
  moreover have "sorted (map f (r # rest))" by (metis Cons sorted_sort_key)
  ultimately show thesis
    using Cons by (intro that [of r]) (auto simp: first_row_def)
qed

lemma first_row_empty [simp]: "first_row [] = None"
  by (simp add: first_row_def)

lemma stored_priority_ok: "p \<in> {''normal'', ''high''} \<Longrightarrow> stored_priority p = Inr (priority_of p)"
  by (auto simp: stored_priority_def priority_of_def)

lemma highest_priority_ok:
  assumes "\<forall>r \<in> set rows. message_row_ok H r"
  shows "traverse_opt (\<lambda>r. stored_priority (ms_priority r))
      (first_row (sort_key (\<lambda>r. if ms_priority r = ''high'' then (0::nat) else 1) rows)) =
    Inr (if rows = [] then None
         else if \<exists>r \<in> set rows. ms_priority r = ''high'' then Some MessagePriority.High
         else Some MessagePriority.Normal)"
proof (cases "rows = []")
  case False
  then obtain r where r: "first_row (sort_key (\<lambda>r. if ms_priority r = ''high'' then (0::nat) else 1) rows) = Some r"
      "r \<in> set rows"
      "\<And>y. y \<in> set rows \<Longrightarrow> (if ms_priority r = ''high'' then (0::nat) else 1) \<le>
        (if ms_priority y = ''high'' then 0 else 1)"
    using first_row_sort_key [of rows "\<lambda>r. if ms_priority r = ''high'' then (0::nat) else 1"] by blast
  have "ms_priority r \<in> {''normal'', ''high''}"
    using assms r(2) unfolding message_row_ok_def message_check_def by blast
  moreover have "ms_priority r = ''high'' \<longleftrightarrow> (\<exists>y \<in> set rows. ms_priority y = ''high'')"
  proof
    assume "\<exists>y \<in> set rows. ms_priority y = ''high''"
    then obtain y where "y \<in> set rows" "ms_priority y = ''high''" by blast
    with r(3) [of y] show "ms_priority r = ''high''" by (simp split: if_splits)
  qed (use r(2) in blast)
  ultimately show ?thesis using False r(1) by (auto simp: stored_priority_def)
qed simp

lemma oldest_message_ok:
  assumes "\<forall>r \<in> set rows. message_row_ok H r"
  shows "traverse_opt (\<lambda>r. stored (MessageId_new (ms_id r))) (first_row rows) =
    Inr (map_option ms_id (first_row rows))"
proof (cases rows)
  case (Cons r rest)
  with assms have "is_ok (MessageId_new (ms_id r))" by (simp add: message_row_ok_def)
  with Cons show ?thesis by (simp add: first_row_def message_id.accepted)
qed simp

text \<open>A view of a stored message: its row joined with the rows it refers to.\<close>

definition viewed :: "db \<Rightarrow> MessageView \<Rightarrow> message_row \<Rightarrow> bool" where
  "viewed s v r \<longleftrightarrow>
     (\<exists>q sm rm. (((r, q), sm), rm) \<in> set (message_joins s) \<and> v = view_of (message_of r) r q sm rm)"

lemma viewed_message: "viewed s v r \<Longrightarrow> mv_message v = message_of r"
  by (auto simp: viewed_def view_of_def)

lemma viewed_messages: "list_all2 (viewed s) vs rows \<Longrightarrow> map mv_message vs = map message_of rows"
  by (induction rule: list_all2_induct) (auto dest: viewed_message)

lemma views_ok:
  assumes "db_ok H s" and "set rows \<subseteq> set (db_messages s)"
  shows "\<exists>vs. collect_results (\<lambda>rec. message_view_on rec s) (map message_of rows) = Inr vs
    \<and> list_all2 (viewed s) vs rows"
  using assms(2)
proof (induction rows)
  case (Cons r rows)
  then have "r \<in> set (db_messages s)" by simp
  moreover have "mg_id (message_of r) = ms_id r" by (simp add: message_of_def)
  ultimately obtain q sm rm where row: "(((r, q), sm), rm) \<in> set (message_joins s)"
      and v: "message_view_on (message_of r) s = Inr (view_of (message_of r) r q sm rm)"
    by (rule message_view_on_stored [OF assms(1)])
  have "viewed s (view_of (message_of r) r q sm rm) r" using row by (auto simp: viewed_def)
  moreover obtain vs where "collect_results (\<lambda>rec. message_view_on rec s) (map message_of rows) = Inr vs"
      "list_all2 (viewed s) vs rows"
    using Cons by auto
  ultimately show ?case using v by simp
qed simp

lemma pending_page_tx_ok:
  assumes "db_ok H s" and "session_owner H session s i m" and "1 \<le> limit" and "limit \<le> 100"
  obtains page k where "pending_page_tx H session limit s = Inr (page, s)"
    "ip_recipient_membership page = mb_id m"
    "ip_pending_count page = length (pending_rows (mb_id m) s)"
    "ip_oldest_message_id page = map_option ms_id (first_row (pending_rows (mb_id m) s))"
    "ip_highest_priority page =
       (if pending_rows (mb_id m) s = [] then None
        else if \<exists>r \<in> set (pending_rows (mb_id m) s). ms_priority r = ''high''
        then Some MessagePriority.High else Some MessagePriority.Normal)"
    "list_all2 (viewed s) (ip_messages page) (take k (pending_rows (mb_id m) s))"
    "k \<le> limit" "pending_rows (mb_id m) s \<noteq> [] \<longrightarrow> 1 \<le> k"
proof -
  let ?pending = "filter (\<lambda>r. ms_recipient_membership_id r = mb_id m \<and> ms_acknowledged_at r = None) (db_messages s)"
  have rows: "pending_rows (mb_id m) s = sort_key ms_sequence ?pending" by (simp add: pending_rows_def)
  have auth: "authorize_current H session s = Inr (identity_of i m)"
    using assms(2) unfolding authorize_current_Inr [OF assms(1)] by blast
  have ok: "\<forall>r \<in> set ?pending. message_row_ok H r" using message_row_in [OF assms(1)] by simp
  have ok': "\<forall>r \<in> set (pending_rows (mb_id m) s). message_row_ok H r" using ok by (simp add: rows)
  have same: "set (pending_rows (mb_id m) s) = set ?pending" "pending_rows (mb_id m) s = [] \<longleftrightarrow> ?pending = []"
    by (simp_all add: rows flip: length_0_conv)
  obtain k where k: "pending_inbox_on H \<lparr>iq_recipient = mb_id m, iq_limit = limit\<rparr> s =
        Inr (map message_of (take k (pending_rows (mb_id m) s)))" "k \<le> limit"
      "pending_rows (mb_id m) s \<noteq> [] \<longrightarrow> 1 \<le> k"
    using pending_inbox_on_prefix [OF assms(1), of "\<lparr>iq_recipient = mb_id m, iq_limit = limit\<rparr>"] assms(3,4)
    by (auto simp: MAX_INBOX_MESSAGES_def)
  have "set (take k (pending_rows (mb_id m) s)) \<subseteq> set (db_messages s)"
    using set_take_subset [of k "pending_rows (mb_id m) s"] by (auto simp: pending_rows_set)
  then obtain vs where vs: "collect_results (\<lambda>rec. message_view_on rec s)
        (map message_of (take k (pending_rows (mb_id m) s))) = Inr vs"
      "list_all2 (viewed s) vs (take k (pending_rows (mb_id m) s))"
    using views_ok [OF assms(1)] by blast
  define page where "page = \<lparr>ip_messages = vs, ip_pending_count = length ?pending,
      ip_highest_priority = (if ?pending = [] then None
         else if \<exists>r \<in> set ?pending. ms_priority r = ''high''
         then Some MessagePriority.High else Some MessagePriority.Normal),
      ip_oldest_message_id = map_option ms_id (first_row (pending_rows (mb_id m) s)),
      ip_recipient_membership = mb_id m\<rparr>"
  have run: "pending_page_tx H session limit s = Inr (page, s)"
    unfolding pending_page_tx_def auth rbind_simps Let_def identity_of_sel page_def
      highest_priority_ok [OF ok] rows [symmetric] oldest_message_ok [OF ok'] k(1) vs(1) ..
  have "ip_highest_priority page = (if pending_rows (mb_id m) s = [] then None
         else if \<exists>r \<in> set (pending_rows (mb_id m) s). ms_priority r = ''high''
         then Some MessagePriority.High else Some MessagePriority.Normal)"
    unfolding same by (simp add: page_def)
  then show thesis
    using that [OF run _ _ _ _ _ k(2,3)] vs(2) by (simp add: page_def rows)
qed

text \<open>
  An authorised inbox read reports the whole truth and changes nothing: the exact number of
  pending messages, the oldest one's id and the highest priority among all of them (not only
  those on the page), with a page that holds the first \<open>k\<close> pending messages in order, at most
  the limit, and at least one while anything is pending.
\<close>

theorem inbox_page_summary_is_exact:
  assumes "db_ok H s" and "session_owner H session s i m" and "1 \<le> limit" and "limit \<le> 100"
  shows "\<exists>page k. authenticated_pending_page H healthy session limit s = (Inr page, s)
    \<and> ip_recipient_membership page = mb_id m
    \<and> ip_pending_count page = length (pending_rows (mb_id m) s)
    \<and> ip_oldest_message_id page = map_option ms_id (first_row (pending_rows (mb_id m) s))
    \<and> ip_highest_priority page =
        (if pending_rows (mb_id m) s = [] then None
         else if \<exists>r \<in> set (pending_rows (mb_id m) s). ms_priority r = ''high''
         then Some MessagePriority.High else Some MessagePriority.Normal)
    \<and> map mv_message (ip_messages page) = map message_of (take k (pending_rows (mb_id m) s))
    \<and> k \<le> limit \<and> (pending_rows (mb_id m) s \<noteq> [] \<longrightarrow> 1 \<le> k)"
proof -
  obtain page k where "pending_page_tx H session limit s = Inr (page, s)"
      "ip_recipient_membership page = mb_id m"
      "ip_pending_count page = length (pending_rows (mb_id m) s)"
      "ip_oldest_message_id page = map_option ms_id (first_row (pending_rows (mb_id m) s))"
      "ip_highest_priority page =
         (if pending_rows (mb_id m) s = [] then None
          else if \<exists>r \<in> set (pending_rows (mb_id m) s). ms_priority r = ''high''
          then Some MessagePriority.High else Some MessagePriority.Normal)"
      "list_all2 (viewed s) (ip_messages page) (take k (pending_rows (mb_id m) s))"
      "k \<le> limit" "pending_rows (mb_id m) s \<noteq> [] \<longrightarrow> 1 \<le> k"
    using pending_page_tx_ok [OF assms] .
  then show ?thesis
    by (intro exI [of _ page] exI [of _ k])
      (simp add: authenticated_pending_page_def transaction_healthy viewed_messages)
qed

section \<open>Transcripts\<close>

text \<open>The messages of a squad after a cursor, in order.\<close>

definition squad_history :: "SquadId \<Rightarrow> int \<Rightarrow> db \<Rightarrow> message_row list" where
  "squad_history squad after s =
     filter (\<lambda>r. ms_squad_id r = squad \<and> ms_sequence r > after) (db_messages s)"

lemma history_ascending:
  assumes "db_ok H s"
  shows "sorted_wrt (\<lambda>a b. ms_sequence a < ms_sequence b) (squad_history sq after s)"
proof -
  have "sorted_wrt (<) (map ms_sequence (db_messages s))"
    using assms by (simp add: db_ok_def messages_ok_def)
  then show ?thesis by (simp add: squad_history_def sorted_wrt_map sorted_wrt_filter)
qed

lemma transcript_rows_history:
  assumes "db_ok H s"
  shows "transcript_rows sq after limit s = take limit (squad_history sq after s)"
proof -
  have "sorted (map ms_sequence (squad_history sq after s))"
    using history_ascending [OF assms, of sq after]
    by (simp add: sorted_wrt_map) (erule sorted_wrt_mono_rel [rotated], simp)
  then show ?thesis by (simp add: transcript_rows_def squad_history_def sort_key_id_if_sorted)
qed

lemma filter_after_prefix:
  fixes f :: "'a \<Rightarrow> int"
  assumes "sorted_wrt (\<lambda>a b. f a < f b) xs" and "n < length xs"
  shows "filter (\<lambda>x. f x > f (xs ! n)) xs = drop (Suc n) xs"
  using assms
proof (induction xs arbitrary: n)
  case (Cons x xs)
  show ?case
  proof (cases n)
    case 0
    with Cons.prems have "\<forall>y \<in> set xs. f x < f y" by simp
    with 0 show ?thesis by simp
  next
    case (Suc k)
    with Cons.prems have "f x < f (xs ! k)" by simp
    then have "\<not> f (xs ! k) < f x" by simp
    with Cons Suc show ?thesis by simp
  qed
qed simp

lemma history_continues:
  assumes "db_ok H s" and "0 < limit" and "limit \<le> length (squad_history sq after s)"
  shows "squad_history sq (ms_sequence (squad_history sq after s ! (limit - 1))) s =
    drop limit (squad_history sq after s)"
proof -
  let ?h = "squad_history sq after s"
  have last: "?h ! (limit - 1) \<in> set ?h" using assms(2,3) by simp
  then have "after < ms_sequence (?h ! (limit - 1))" by (simp add: squad_history_def)
  then have "squad_history sq (ms_sequence (?h ! (limit - 1))) s =
      filter (\<lambda>r. ms_sequence r > ms_sequence (?h ! (limit - 1))) ?h"
    by (auto simp: squad_history_def intro!: filter_cong)
  also have "\<dots> = drop limit ?h"
    using filter_after_prefix [OF history_ascending [OF assms(1)], of "limit - 1"] assms(2,3) by simp
  finally show ?thesis .
qed

lemma transcript_views_tx_ok:
  assumes "db_ok H s" and "session_owner H session s i m"
    and "q \<in> set (db_squads s)" and "sq_id q = mb_squad_id m" and "sq_name q = tn_squad query"
  obtains vs where "transcript_views_tx H session query s = Inr (vs, s)"
    "list_all2 (viewed s) vs (take (tn_limit query) (squad_history (mb_squad_id m) (tn_after query) s))"
proof -
  let ?rows = "take (tn_limit query) (squad_history (mb_squad_id m) (tn_after query) s)"
  have auth: "authorize_current H session s = Inr (identity_of i m)"
    using assms(2) unfolding authorize_current_Inr [OF assms(1)] by blast
  have squad: "squad_by_id (mb_squad_id m) s = Inr (squad_of q)"
    using assms(3,4) unfolding squad_by_id_Inr [OF assms(1)] by blast
  have sub: "set ?rows \<subseteq> set (db_messages s)"
    using set_take_subset [of "tn_limit query" "squad_history (mb_squad_id m) (tn_after query) s"]
    by (auto simp: squad_history_def)
  then have dec: "collect_results (map_message H) ?rows = Inr (map message_of ?rows)"
    by (intro collect_results_map map_message_ok message_row_in [OF assms(1)]) blast
  obtain vs where vs: "collect_results (\<lambda>rec. message_view_on rec s) (map message_of ?rows) = Inr vs"
      "list_all2 (viewed s) vs ?rows"
    using views_ok [OF assms(1) sub] by blast
  have "transcript_views_tx H session query s = Inr (vs, s)"
    using assms(5) by (simp add: transcript_views_tx_def auth squad transcript_rows_history [OF assms(1)] dec vs)
  with vs(2) that show thesis by blast
qed

lemma transcript_views_ok:
  assumes "db_ok H s" and "session_owner H session s i m"
    and "q \<in> set (db_squads s)" and "sq_id q = mb_squad_id m" and "sq_name q = tn_squad query"
    and "1 \<le> tn_limit query" and "tn_limit query \<le> 100" and "0 \<le> tn_after query"
  shows "\<exists>vs. authenticated_transcript_views H healthy session query s = (Inr vs, s)
    \<and> map mv_message vs = map message_of (take (tn_limit query) (squad_history (mb_squad_id m) (tn_after query) s))"
proof -
  obtain vs where "transcript_views_tx H session query s = Inr (vs, s)"
      "list_all2 (viewed s) vs (take (tn_limit query) (squad_history (mb_squad_id m) (tn_after query) s))"
    using transcript_views_tx_ok [OF assms(1-5)] .
  with assms(6-8) show ?thesis
    by (simp add: authenticated_transcript_views_def transaction_healthy viewed_messages)
qed

text \<open>
  Paging through a transcript misses nothing and repeats nothing. For an authorised member
  of the named squad a page holds the first messages of the squad after the cursor in strictly
  increasing sequence; when the page is full, reading again from the sequence number of its last
  message continues with exactly the messages that follow, so two consecutive pages are together
  the page of twice the size.
\<close>

theorem transcript_pages_are_contiguous:
  assumes "db_ok H s" and "session_owner H session s i m"
    and "q \<in> set (db_squads s)" and "sq_id q = mb_squad_id m" and "sq_name q = tn_squad query"
    and "1 \<le> tn_limit query" and "tn_limit query \<le> 100" and "0 \<le> tn_after query"
    and "authenticated_transcript_views H healthy session query s = (Inr page, s1)"
    and "length page = tn_limit query"
    and "authenticated_transcript_views H healthy session
      (query\<lparr>tn_after := mg_sequence (mv_message (last page))\<rparr>) s = (Inr next_page, s2)"
  shows "sorted_wrt (\<lambda>a b. ms_sequence a < ms_sequence b) (squad_history (mb_squad_id m) (tn_after query) s)
    \<and> s1 = s \<and> s2 = s
    \<and> map mv_message (page @ next_page) =
        map message_of (take (2 * tn_limit query) (squad_history (mb_squad_id m) (tn_after query) s))"
proof -
  let ?h = "squad_history (mb_squad_id m) (tn_after query) s" and ?l = "tn_limit query"
  have page: "map mv_message page = map message_of (take ?l ?h)" and s1: "s1 = s"
    using transcript_views_ok [OF assms(1-8)] assms(9) by auto
  from arg_cong [OF page, of length] assms(10) have len: "?l \<le> length ?h" by simp
  have "page \<noteq> []" using assms(6,10) by auto
  then have "mv_message (last page) = last (map mv_message page)" by (simp add: last_map)
  also have "\<dots> = message_of (?h ! (?l - 1))"
  proof -
    have "take ?l ?h \<noteq> []" using assms(6) len by (cases ?h) auto
    then have "last (map message_of (take ?l ?h)) = message_of (last (take ?l ?h))" by (simp add: last_map)
    with \<open>take ?l ?h \<noteq> []\<close> show ?thesis
      using assms(6) len by (simp add: page last_conv_nth min_absorb2)
  qed
  finally have cursor: "mg_sequence (mv_message (last page)) = ms_sequence (?h ! (?l - 1))"
    by (simp add: message_of_def)
  have "?h ! (?l - 1) \<in> set ?h" using assms(6) len by simp
  then have "0 \<le> ms_sequence (?h ! (?l - 1))" using assms(8) by (simp add: squad_history_def)
  with cursor transcript_views_ok [OF assms(1-4), of "query\<lparr>tn_after := mg_sequence (mv_message (last page))\<rparr>"]
    assms(5-7,11)
  have "map mv_message next_page = map message_of (take ?l (squad_history (mb_squad_id m)
        (ms_sequence (?h ! (?l - 1))) s))" and s2: "s2 = s"
    by auto
  then have "map mv_message next_page = map message_of (take ?l (drop ?l ?h))"
    using history_continues [OF assms(1) _ len] assms(6) by simp
  moreover have "take (2 * ?l) ?h = take ?l ?h @ take ?l (drop ?l ?h)"
    by (metis mult_2 take_add)
  ultimately show ?thesis
    using page s1 s2 history_ascending [OF assms(1)] by simp
qed

section \<open>Leaving and resuming\<close>

text \<open>A closed instance, or one whose member left, is never authorised.\<close>

lemma not_authorised_unless_owner:
  assumes "db_ok H s"
    and "\<And>i m. session_row session s i m \<Longrightarrow> \<not> (is_open i \<and> is_active_member m)"
  shows "\<not> is_ok (authorize_current H session s)"
  using assms(2) unfolding is_ok_iff authorize_current_Inr [OF assms(1)]
  by (auto simp: session_owner_def live_at_def)

text \<open>
  Leaving ends a session for good but keeps its history readable. A successful leave marks
  the member as left and leaves none of its instances open; the same credential is from then on
  refused for every current operation, at any time, yet still identifies the former member for
  reading history; nothing of other members changes. A failed leave changes nothing.
\<close>

theorem leave_ends_the_session:
  assumes "store_ok H s" and "AuthenticatedSession_wf session"
    and "authenticated_leave H eng session n s = (r, s')"
  shows "case r of
      Inl e \<Rightarrow> s' = s
    | Inr out \<Rightarrow>
        lo_membership_id out \<in> active_members s
        \<and> active_members s' = active_members s - {lo_membership_id out}
        \<and> (\<forall>i \<in> set (db_instances s'). in_membership_id i = lo_membership_id out \<longrightarrow> \<not> is_open i)
        \<and> (\<forall>t. \<not> is_ok (authorize_current H (session\<lparr>se_now := t\<rparr>) s'))
        \<and> (\<forall>t. \<exists>ident. authenticate_historical H (session\<lparr>se_now := t\<rparr>) s' = Inr ident
              \<and> id_membership ident = lo_membership_id out)
        \<and> filter (\<lambda>i. in_membership_id i \<noteq> lo_membership_id out) (db_instances s') =
            filter (\<lambda>i. in_membership_id i \<noteq> lo_membership_id out) (db_instances s)
        \<and> db_messages s' = db_messages s \<and> db_squads s' = db_squads s"
proof (cases r)
  case (Inl e)
  with assms(3) show ?thesis by (auto dest: authenticated_leave_error)
next
  case (Inr out)
  have ok: "db_ok H s" using assms(1) by (simp add: store_ok_def)
  from Inr assms(3) have run: "authenticated_leave H eng session n s = (Inr out, s')" by simp
  from ok run obtain i m where own: "session_owner H session s i m"
    and s': "s' = leave_where (\<lambda>r. mb_id r = mb_id m \<and> mb_left_at r = None) (as_i64 (se_now session))
      (close_where (\<lambda>r. in_id r = se_instance_id session \<and> in_closed_at r = None)
        (as_i64 (se_now session)) s)"
    and out: "lo_membership_id out = mb_id m"
    by (rule authenticated_leave_Inr) simp
  have ok': "store_ok H s'"
    using authenticated_leave_keeps [OF assms(1,2), of eng n] run by simp
  have row: "i \<in> set (db_instances s)" "in_id i = se_instance_id session" "m \<in> set (db_memberships s)"
      "mb_id m = in_membership_id i" "is_active_member m"
      "in_resume_token_hash i = token_hash H (se_resume_token session)"
    using own by (simp_all add: session_owner_def session_row_def)
  have ids: "distinct (map in_id (db_instances s))" "distinct (map mb_id (db_memberships s))"
    using ok by (simp_all add: db_ok_def instances_ok_def memberships_ok_def)
  have active: "active_members s' = active_members s - {mb_id m}"
    unfolding s' active_members_leave
    by (auto simp: active_members_def close_where_def is_active_member_def)
  have closed: "\<not> is_open j" if "j \<in> set (db_instances s')" "in_membership_id j = mb_id m" for j
    using ok' that active unfolding store_ok_def db_ok_def instances_ok_def by auto
  have hist: "\<exists>i' m'. session_row session s' i' m' \<and> in_membership_id i' = mb_id m
      \<and> in_resume_token_hash i' = token_hash H (se_resume_token session) \<and> mb_id m' = mb_id m"
  proof -
    let ?i = "if in_id i = se_instance_id session \<and> in_closed_at i = None
        then close_row (as_i64 (se_now session)) i else i"
    let ?m = "if mb_id m = mb_id m \<and> mb_left_at m = None
        then leave_row (as_i64 (se_now session)) m else m"
    have "?i \<in> set (db_instances s')" "?m \<in> set (db_memberships s')"
      using row unfolding s' leave_where_def close_where_def update_where_def by auto
    then show ?thesis
      using row by (intro exI [of _ ?i] exI [of _ ?m]) (auto simp: session_row_def close_row_def leave_row_def)
  qed
  have "\<not> is_ok (authorize_current H (session\<lparr>se_now := t\<rparr>) s')" for t
  proof (rule not_authorised_unless_owner [OF store_okD(1) [OF ok']])
    fix i' m' assume "session_row (session\<lparr>se_now := t\<rparr>) s' i' m'"
    then have "session_row session s' i' m'" by (simp add: session_row_def)
    with hist session_row_unique [OF store_okD(1) [OF ok']] have "in_membership_id i' = mb_id m"
      by blast
    with \<open>session_row session s' i' m'\<close> closed show "\<not> (is_open i' \<and> is_active_member m')"
      by (simp add: session_row_def)
  qed
  moreover have "\<exists>ident. authenticate_historical H (session\<lparr>se_now := t\<rparr>) s' = Inr ident
      \<and> id_membership ident = mb_id m" for t
    unfolding historical_later authenticate_historical_Inr [OF store_okD(1) [OF ok']]
    using hist by (metis identity_of_sel(1))
  moreover have "in_membership_id j = mb_id m" if "j \<in> set (db_instances s)" "in_id j = se_instance_id session" for j
    using distinct_map_unique [OF ids(1) that(1) row(1)] that(2) row(2,4) by simp
  then have "filter (\<lambda>i. in_membership_id i \<noteq> mb_id m) (db_instances s') =
      filter (\<lambda>i. in_membership_id i \<noteq> mb_id m) (db_instances s)"
    unfolding s' leave_where_def close_where_def by simp (rule filter_update_other_on, simp)
  moreover have "mb_id m \<in> active_members s" using row(3,5) unfolding active_members_def by blast
  moreover have "db_messages s' = db_messages s" "db_squads s' = db_squads s"
    by (simp_all add: s' leave_where_def close_where_def)
  ultimately show ?thesis using Inr out active closed by simp
qed

text \<open>
  Resuming a session rotates the instance and never takes over a live one. A successful
  resume presented the token of a former instance of a member who has not left, in the named,
  active squad, and found no live instance of that member. Afterwards the new instance is
  authorised with the same token until its expiry, and the instance it replaced is not, at any
  time. A refused resume changes nothing.
\<close>

theorem session_resume_rotates_ownership:
  assumes "store_ok H s" and "ResumeSession_wf req" and "authenticated_resume H eng req s = (r, s')"
  shows "case r of
      Inl e \<Rightarrow> s' = s
    | Inr ctx \<Rightarrow>
        (\<exists>i \<in> set (db_instances s). in_id i = rq_prior_instance req
           \<and> in_resume_token_hash i = token_hash H (rq_token req)
           \<and> in_membership_id i \<in> active_members s
           \<and> (\<forall>j \<in> set (db_instances s). in_membership_id j = in_membership_id i \<longrightarrow>
                \<not> live_at (rq_now req) j))
        \<and> (\<forall>t. t < ir_lease_expires_at (sc_instance ctx) \<longrightarrow>
             is_ok (authorize_current H \<lparr>se_instance_id = rq_new_instance req,
               se_resume_token = rq_token req, se_now = t\<rparr> s'))
        \<and> (\<forall>t. \<not> is_ok (authorize_current H \<lparr>se_instance_id = rq_prior_instance req,
               se_resume_token = rq_token req, se_now = t\<rparr> s'))"
proof (cases r)
  case (Inl e)
  with assms(3) show ?thesis
    by (auto simp: authenticated_resume_def dest: transaction_error_rolls_back split: sum.splits)
next
  case (Inr ctx)
  have ok: "db_ok H s" using assms(1) by (simp add: store_ok_def)
  have ok': "store_ok H s'" using authenticated_resume_keeps [OF assms(1,2), of eng] assms(3) by simp
  from Inr assms(3) have tx: "resume_authenticated_tx H req s = Inr (ctx, s')"
    by (auto simp: authenticated_resume_def transaction_Inr split: sum.splits)
  from ok tx obtain i m q where i: "i \<in> set (db_instances s)" "in_id i = rq_prior_instance req"
    and m: "m \<in> set (db_memberships s)" "mb_id m = in_membership_id i" "is_active_member m"
    and tok: "in_resume_token_hash i = token_hash H (rq_token req)"
    and q: "q \<in> set (db_squads s)" "sq_id q = mb_squad_id m" "sq_state q = ''active''"
    and dead: "\<forall>j \<in> set (db_instances s). in_membership_id j = mb_id m \<longrightarrow> \<not> live_at (rq_now req) j"
    and ins: "insert_instance H (rq_new_instance req) (mb_id m) (rq_mode req)
       (rq_client_kind req) (rq_hostname req) (rq_token req) (rq_availability req)
       (rq_source req) (rq_now req) (rq_policy req)
       (close_where (\<lambda>r. in_membership_id r = mb_id m \<and> in_closed_at r = None) (as_i64 (rq_now req)) s) =
       Inr (sc_instance ctx, s')"
    by (rule resume_authenticated_tx_Inr)
  let ?row = "new_instance_row H (rq_new_instance req) (mb_id m) (rq_mode req)
       (rq_client_kind req) (rq_hostname req) (rq_token req) (rq_availability req)
       (rq_source req) (rq_now req) (rq_policy req)"
  let ?c = "close_where (\<lambda>r. in_membership_id r = mb_id m \<and> in_closed_at r = None) (as_i64 (rq_now req)) s"
  have now: "valid_time (rq_now req)" using assms(2) by (simp add: ResumeSession_wf_def)
  have s': "s' = ?c\<lparr>db_instances := db_instances ?c @ [?row]\<rparr>"
    and fresh: "rq_new_instance req \<notin> in_id ` set (db_instances ?c)"
    and expiry: "ir_lease_expires_at (sc_instance ctx) =
      UnixMillis (as_i64 (rq_now req) + as_millis (lp_lease_duration (rq_policy req)))"
    using ins by (simp_all add: insert_instance_Inr [OF now] insert_instance_row_Inr)
  have "session_owner H \<lparr>se_instance_id = rq_new_instance req, se_resume_token = rq_token req,
      se_now = t\<rparr> s' ?row m" if "t < ir_lease_expires_at (sc_instance ctx)" for t
    using that m q
    by (auto simp: session_owner_def session_row_def live_at_def expiry less_UnixMillis_def s' close_where_def)
  then have new: "is_ok (authorize_current H \<lparr>se_instance_id = rq_new_instance req,
      se_resume_token = rq_token req, se_now = t\<rparr> s')"
    if "t < ir_lease_expires_at (sc_instance ctx)" for t
    using that unfolding is_ok_iff authorize_current_Inr [OF store_okD(1) [OF ok']] by blast
  let ?i = "if in_membership_id i = mb_id m \<and> in_closed_at i = None
      then close_row (as_i64 (rq_now req)) i else i"
  have prior: "?i \<in> set (db_instances s')" "in_id ?i = rq_prior_instance req" "\<not> is_open ?i"
      "in_membership_id ?i = mb_id m"
    using i m(2) unfolding s' close_where_def update_where_def by (auto simp: close_row_def is_open_def)
  have "\<not> is_ok (authorize_current H \<lparr>se_instance_id = rq_prior_instance req,
      se_resume_token = rq_token req, se_now = t\<rparr> s')" (is "\<not> is_ok (authorize_current H ?se s')") for t
  proof (rule not_authorised_unless_owner [OF store_okD(1) [OF ok']])
    fix i' m' assume row: "session_row ?se s' i' m'"
    moreover have "session_row ?se s' ?i m"
      using prior m by (simp add: session_row_def s' close_where_def)
    ultimately have "i' = ?i" using session_row_unique(1) [OF store_okD(1) [OF ok']] by blast
    with prior(3) show "\<not> (is_open i' \<and> is_active_member m')" by simp
  qed
  moreover have "in_membership_id i \<in> active_members s"
    using m by (auto simp: active_members_def image_iff)
  ultimately show ?thesis using Inr i tok dead m(2) new by auto
qed

section \<open>Concrete runs\<close>

definition sample_session :: AuthenticatedSession where
  "sample_session = \<lparr>se_instance_id = ''ins_1'', se_resume_token = ''tok'', se_now = UnixMillis 5000\<rparr>"

definition sample_send_by_name :: SendByName where
  "sample_send_by_name = \<lparr>sn_id = ''msg_1'', sn_recipient = ''bob'', sn_recipient_membership_id = None,
     sn_body = ''hi'', sn_priority = MessagePriority.Normal, sn_dedupe_key = ''k1'',
     sn_reply_to = None, sn_correlation_id = None\<rparr>"

definition sample_join_and_claim :: JoinAndClaim where
  "sample_join_and_claim = \<lparr>jc_membership = sample_join, jc_instance_id = ''ins_1'',
     jc_mode = AgentMode.Cooperative, jc_client_kind = ''cli'', jc_hostname = None,
     jc_availability = Availability.Idle, jc_availability_source = AvailabilitySource.SessionLifecycle,
     jc_lease_policy = LeasePolicy_default\<rparr>"

definition sample_resume_session :: ResumeSession where
  "sample_resume_session = \<lparr>rq_prior_instance = ''ins_1'', rq_token = ''tok'', rq_new_instance = ''ins_2'',
     rq_mode = AgentMode.Scheduled, rq_client_kind = ''cli'', rq_hostname = None,
     rq_availability = Availability.Busy, rq_source = AvailabilitySource.ToolActivity,
     rq_now = UnixMillis 40000, rq_policy = LeasePolicy_default, rq_expected_squad = ''core''\<rparr>"

lemmas [eval_simps] = sample_session_def sample_send_by_name_def sample_join_and_claim_def
  sample_resume_session_def parse_value_def timestamp_value_def optional_timestamp_value_def
  map_squad_row_def squad_by_name_def squad_by_id_def map_membership_row_def membership_by_id_def
  message_joins_def message_view_on_def auth_parse_mode_def stored_def authenticate_historical_def
  authorize_current_def inject_join_claim_fault_def auth_find_or_create_squad_def
  join_and_claim_inner_def authenticated_leave_def send_from_name_def pin_differs_def
  replay_by_name_def fresh_by_name_def send_by_name_tx_def authenticated_send_by_name_def
  resume_authenticated_tx_def authenticated_resume_def AuthenticatedSession_wf_def SendByName_wf_def
  ResumeSession_wf_def JoinAndClaim_wf_def policy_ok_def

lemma sample_session_wf [simp]: "AuthenticatedSession_wf sample_session"
    "SendByName_wf sample_send_by_name" "JoinAndClaim_wf sample_join_and_claim"
    "ResumeSession_wf sample_resume_session"
  by (simp_all add: eval_simps)

lemma sample_pair_store_ok [simp]: "store_ok sample_hash sample_pair"
proof -
  have "ownership_ok sample_pair"
    by (rule ownership_mono [OF store_okD(2) [OF sample_claimed_ok]])
      (auto simp: sample_pair_def sample_claimed_def sample_instance_def active_members_def image_iff
        sample_members_def new_membership_row_def sample_join_def is_active_member_def)
  then show ?thesis by (simp add: store_ok_def)
qed

lemma sample_squads_store_ok [simp]: "store_ok H sample_squads"
  by (simp add: store_ok_def ownership_ok_def owner_newest_def owner_present_def)
    (simp add: eval_simps)

lemma sample_sent_store_ok [simp]: "store_ok sample_hash sample_sent"
  using send_store_ok [OF sample_pair_store_ok sample_send_wf sample_send_run] .

lemma sample_owner:
  "session_owner sample_hash sample_session sample_sent sample_instance (new_membership_row sample_join ''sqd_1'')"
  by (simp add: session_owner_def session_row_def live_at_def)
    (simp add: eval_simps)

theorem authorisation_is_exact_and_concealing_witness:
  "authorize_current sample_hash (sample_session\<lparr>se_resume_token := ''bad''\<rparr>) sample_sent =
     Inl RepositoryError.NotFound"
  using authorisation_is_exact_and_concealing [OF sample_sent_ok, of "sample_session\<lparr>se_resume_token := ''bad''\<rparr>"]
  by (simp add: eval_simps)

lemma sample_join_and_claim_run:
  "\<exists>out s'. join_and_claim_inner sample_hash id (Some ''tok'') healthy sample_join_and_claim None sample_squads =
     (Inr out, s')"
  by (simp add: eval_simps)

theorem joined_session_is_authorised_witness:
  "\<exists>out s'. join_and_claim_inner sample_hash id (Some ''tok'') healthy sample_join_and_claim None sample_squads =
     (Inr out, s') \<and> store_ok sample_hash s'"
proof -
  obtain out s' where run:
    "join_and_claim_inner sample_hash id (Some ''tok'') healthy sample_join_and_claim None sample_squads = (Inr out, s')"
    using sample_join_and_claim_run by blast
  from joined_session_is_authorised [OF sample_squads_store_ok sample_session_wf(3) run] run
  show ?thesis by auto
qed

lemma sample_send_by_name_run:
  "\<exists>out. authenticated_send_by_name sample_hash healthy sample_session sample_send_by_name sample_pair =
     (Inr out, sample_sent)"
  by (simp add: eval_simps)

theorem send_by_name_retry_is_safe_witness:
  "\<exists>out. authenticated_send_by_name sample_hash healthy (sample_session\<lparr>se_now := UnixMillis 99999\<rparr>)
      sample_send_by_name sample_sent = (Inr \<lparr>so_message = out, so_idempotent_replay = True\<rparr>, sample_sent)"
proof -
  obtain out where run:
    "authenticated_send_by_name sample_hash healthy sample_session sample_send_by_name sample_pair =
     (Inr out, sample_sent)"
    using sample_send_by_name_run by blast
  from send_by_name_retry_is_safe [OF sample_pair_store_ok sample_session_wf(1,2) run, of "UnixMillis 99999"]
  show ?thesis by auto
qed

theorem inbox_page_summary_is_exact_witness:
  "\<exists>page. authenticated_pending_page sample_hash healthy sample_session 10 sample_sent = (Inr page, sample_sent)
     \<and> ip_recipient_membership page = ''mem_1''"
  using inbox_page_summary_is_exact [OF sample_sent_ok sample_owner, of 10]
  by (auto simp: new_membership_row_def sample_join_def)

lemma sample_transcript_run:
  "\<exists>v. authenticated_transcript_views sample_hash healthy sample_session
      \<lparr>tn_squad = ''core'', tn_after = 0, tn_limit = 1\<rparr> sample_sent = (Inr [v], sample_sent)
    \<and> mg_sequence (mv_message v) = 1
    \<and> authenticated_transcript_views sample_hash healthy sample_session
      \<lparr>tn_squad = ''core'', tn_after = 1, tn_limit = 1\<rparr> sample_sent = (Inr [], sample_sent)"
  by (simp add: authenticated_transcript_views_def transcript_views_tx_def transcript_rows_def
      map_message_def parse_priority_def eval_simps)

theorem transcript_pages_are_contiguous_witness:
  "\<exists>page next_page :: MessageView list.
     map mv_message (page @ next_page) = map message_of (take 2 (squad_history ''sqd_1'' 0 sample_sent))
     \<and> length page = 1"
proof -
  let ?q = "new_squad_row ''sqd_1'' ''core'' ''ship'' (UnixMillis 1000)"
  let ?m = "new_membership_row sample_join ''sqd_1''"
  let ?query = "\<lparr>tn_squad = ''core'', tn_after = 0, tn_limit = 1\<rparr>"
  obtain v where run: "authenticated_transcript_views sample_hash healthy sample_session ?query sample_sent =
        (Inr [v], sample_sent)"
      "authenticated_transcript_views sample_hash healthy sample_session
        (?query\<lparr>tn_after := mg_sequence (mv_message (last [v]))\<rparr>) sample_sent = (Inr [], sample_sent)"
    using sample_transcript_run by auto
  have "?q \<in> set (db_squads sample_sent)" "sq_id ?q = mb_squad_id ?m"
    by (simp_all add: sample_sent_def sample_pair_def sample_claimed_def sample_members_def
        sample_squads_def new_membership_row_def)
  from transcript_pages_are_contiguous [OF sample_sent_ok sample_owner this _ _ _ _ run(1) _ run(2)]
  have "map mv_message ([v] @ []) = map message_of (take 2 (squad_history ''sqd_1'' 0 sample_sent))"
    by (simp add: new_membership_row_def)
  moreover have "length [v] = 1" by simp
  ultimately show ?thesis by blast
qed

lemma sample_session_leave_run:
  "\<exists>out s'. authenticated_leave sample_hash healthy sample_session ''core'' sample_sent = (Inr out, s')"
  by (simp add: eval_simps)

theorem leave_ends_the_session_witness:
  "\<exists>out s'. authenticated_leave sample_hash healthy sample_session ''core'' sample_sent = (Inr out, s')
     \<and> (\<forall>t. \<not> is_ok (authorize_current sample_hash (sample_session\<lparr>se_now := t\<rparr>) s'))"
proof -
  obtain out s' where run:
    "authenticated_leave sample_hash healthy sample_session ''core'' sample_sent = (Inr out, s')"
    using sample_session_leave_run by blast
  from leave_ends_the_session [OF sample_sent_store_ok sample_session_wf(1) run] run
  show ?thesis by auto
qed

lemma sample_session_resume_run:
  "\<exists>ctx s'. authenticated_resume sample_hash healthy sample_resume_session sample_sent = (Inr ctx, s')"
  by (simp add: eval_simps)

theorem session_resume_rotates_ownership_witness:
  "\<exists>ctx s'. authenticated_resume sample_hash healthy sample_resume_session sample_sent = (Inr ctx, s')
     \<and> (\<forall>t. \<not> is_ok (authorize_current sample_hash \<lparr>se_instance_id = ''ins_1'',
               se_resume_token = ''tok'', se_now = t\<rparr> s'))"
proof -
  obtain ctx s' where run:
    "authenticated_resume sample_hash healthy sample_resume_session sample_sent = (Inr ctx, s')"
    using sample_session_resume_run by blast
  from session_resume_rotates_ownership [OF sample_sent_store_ok sample_session_wf(4) run] run
  show ?thesis by (auto simp: sample_resume_session_def)
qed

end
