(* ===== verification/Store_Machine.thy ===== *)
theory Store_Machine
  imports Store_Sessions
begin

text \<open>
  The store as a state machine: a step is one call of a mutating operation of the store
  (\<open>repository.rs\<close>, \<open>instance.rs\<close>, \<open>message.rs\<close>, \<open>inbox.rs\<close>, \<open>authenticated.rs\<close>) with any
  request that the typed constructors of the core allow, any engine outcome and any injected
  fault. The contract every operation meets is the locale \<open>store_operation\<close>, interpreted on
  each of them; from it follow, by rule induction, the consistency of every reachable store and
  the durability of its history.
\<close>

section \<open>How a store may change\<close>

text \<open>Tables only grow at the end, and every row changes as its entity's life cycle allows.\<close>

definition grows :: "('r \<Rightarrow> 'r \<Rightarrow> bool) \<Rightarrow> 'r list \<Rightarrow> 'r list \<Rightarrow> bool" where
  "grows R xs ys \<longleftrightarrow> length xs \<le> length ys \<and> list_all2 R xs (take (length xs) ys)"

definition squad_evolves :: "squad_row \<Rightarrow> squad_row \<Rightarrow> bool" where
  "squad_evolves q q' \<longleftrightarrow> q' = q \<or> (sq_state q = ''active'' \<and> (\<exists>t. q' = archive_row t q))"

definition membership_evolves :: "membership_row \<Rightarrow> membership_row \<Rightarrow> bool" where
  "membership_evolves m m' \<longleftrightarrow> m' = m \<or> (mb_left_at m = None \<and> (\<exists>t. m' = leave_row t m))"

definition message_evolves :: "message_row \<Rightarrow> message_row \<Rightarrow> bool" where
  "message_evolves r r' \<longleftrightarrow> r' = r \<or> (ms_acknowledged_at r = None \<and> (\<exists>t. r' = ack_row t r))"

text \<open>An instance keeps its identity and its secret, its lease never shrinks, and once closed it is fixed.\<close>

definition instance_evolves :: "instance_row \<Rightarrow> instance_row \<Rightarrow> bool" where
  "instance_evolves i i' \<longleftrightarrow>
     in_id i' = in_id i \<and> in_membership_id i' = in_membership_id i \<and> in_mode i' = in_mode i
     \<and> in_resume_token_hash i' = in_resume_token_hash i \<and> in_created_at i' = in_created_at i
     \<and> in_lease_expires_at i \<le> in_lease_expires_at i' \<and> in_last_seen_at i \<le> in_last_seen_at i'
     \<and> (in_closed_at i \<noteq> None \<longrightarrow> i' = i)"

definition evolves :: "db \<Rightarrow> db \<Rightarrow> bool" where
  "evolves s s' \<longleftrightarrow>
     grows squad_evolves (db_squads s) (db_squads s') \<and> grows (=) (db_agents s) (db_agents s')
     \<and> grows membership_evolves (db_memberships s) (db_memberships s')
     \<and> grows instance_evolves (db_instances s) (db_instances s')
     \<and> grows message_evolves (db_messages s) (db_messages s')
     \<and> db_sequence s \<le> db_sequence s'"

lemma grows_nth: "grows R xs ys \<longleftrightarrow> length xs \<le> length ys \<and> (\<forall>k < length xs. R (xs ! k) (ys ! k))"
  by (auto simp: grows_def list_all2_conv_all_nth)

lemma grows_refl [simp]: "(\<And>x. R x x) \<Longrightarrow> grows R xs xs"
  by (simp add: grows_nth)

lemma grows_snoc [simp]: "(\<And>x. R x x) \<Longrightarrow> grows R xs (xs @ ys)"
  by (simp add: grows_nth nth_append)

lemma grows_trans:
  "(\<And>x y z. R x y \<Longrightarrow> R y z \<Longrightarrow> R x z) \<Longrightarrow> grows R xs ys \<Longrightarrow> grows R ys zs \<Longrightarrow> grows R xs zs"
  unfolding grows_nth by (meson less_le_trans le_trans)

lemma grows_update_where:
  assumes "\<And>x. R x x" and "\<And>x. x \<in> set xs \<Longrightarrow> p x \<Longrightarrow> R x (f x)"
  shows "grows R xs (update_where p f xs)"
  using assms by (simp add: grows_nth update_where_def)

lemma row_evolves_refl [simp]:
  "squad_evolves q q" "membership_evolves m m" "message_evolves r r" "instance_evolves i i"
  by (simp_all add: squad_evolves_def membership_evolves_def message_evolves_def instance_evolves_def)

lemma row_evolves_trans:
  "squad_evolves q q' \<Longrightarrow> squad_evolves q' q'' \<Longrightarrow> squad_evolves q q''"
  "membership_evolves m m' \<Longrightarrow> membership_evolves m' m'' \<Longrightarrow> membership_evolves m m''"
  "message_evolves r r' \<Longrightarrow> message_evolves r' r'' \<Longrightarrow> message_evolves r r''"
  "instance_evolves i i' \<Longrightarrow> instance_evolves i' i'' \<Longrightarrow> instance_evolves i i''"
  by (auto simp: squad_evolves_def membership_evolves_def message_evolves_def instance_evolves_def
      archive_row_def leave_row_def ack_row_def)

lemma evolves_refl [simp]: "evolves s s"
  by (simp add: evolves_def)

lemma evolves_trans: "evolves s s' \<Longrightarrow> evolves s' s'' \<Longrightarrow> evolves s s''"
  unfolding evolves_def
  by (auto intro: grows_trans row_evolves_trans simp del: grows_refl)

text \<open>The statements of the store, one by one.\<close>

lemma insert_evolves:
  "insert_squad q s = Inr s' \<Longrightarrow> evolves s s'"
  "insert_agent a s = Inr s' \<Longrightarrow> evolves s s'"
  "insert_membership_or_ignore m s = Inr (n, s') \<Longrightarrow> evolves s s'"
  "insert_instance_row i s = Inr s' \<Longrightarrow> evolves s s'"
  "insert_message r s = Inr (k, s') \<Longrightarrow> evolves s s'"
  by (auto simp: insert_squad_Inr insert_agent_Inr insert_membership_or_ignore_def insert_instance_row_Inr
      insert_message_Inr evolves_def split: if_splits)

lemma update_evolves:
  "(\<And>q. p1 q \<Longrightarrow> sq_state q = ''active'') \<Longrightarrow> evolves s (archive_where p1 t s)"
  "(\<And>m. p2 m \<Longrightarrow> mb_left_at m = None) \<Longrightarrow> evolves s (leave_where p2 t s)"
  "(\<And>i. p3 i \<Longrightarrow> in_closed_at i = None) \<Longrightarrow> evolves s (close_where p3 t s)"
  "(\<And>r. p4 r \<Longrightarrow> ms_acknowledged_at r = None) \<Longrightarrow> evolves s (ack_where p4 t s)"
  by (auto simp: evolves_def archive_where_def leave_where_def close_where_def ack_where_def
      squad_evolves_def membership_evolves_def message_evolves_def instance_evolves_def close_row_def
      intro!: grows_update_where)

lemma renew_evolves:
  assumes "\<And>i. i \<in> set (db_instances s) \<Longrightarrow> p i \<Longrightarrow>
      in_closed_at i = None \<and> in_lease_expires_at i \<le> e \<and> in_last_seen_at i \<le> now"
  shows "evolves s (renew_where p a src now e s)"
  using assms by (auto simp: evolves_def renew_where_def instance_evolves_def renew_row_def
      intro!: grows_update_where)


section \<open>The contract of a store operation\<close>

text \<open>
  Whatever the request and the engine do: an admissible request keeps the store consistent and
  only evolves it, and an operation that answers with an error has changed nothing.
\<close>

primrec run_all :: "('q \<Rightarrow> 's \<Rightarrow> 'r \<times> 's) \<Rightarrow> 'q list \<Rightarrow> 's \<Rightarrow> 's" where
  "run_all run [] s = s"
| "run_all run (q # qs) s = run_all run qs (snd (run q s))"

locale store_operation =
  fixes H :: "string \<Rightarrow> string"
    and wf :: "'q \<Rightarrow> bool"
    and run :: "'q \<Rightarrow> db \<Rightarrow> (RepositoryError + 'r) \<times> db"
  assumes keeps: "store_ok H s \<Longrightarrow> wf q \<Longrightarrow> store_ok H (snd (run q s))"
    and advances: "store_ok H s \<Longrightarrow> wf q \<Longrightarrow> evolves s (snd (run q s))"
    and rolls_back: "store_ok H s \<Longrightarrow> run q s = (Inl e, s') \<Longrightarrow> s' = s"
begin

lemma step: "store_ok H s \<Longrightarrow> wf q \<Longrightarrow> run q s = (r, s') \<Longrightarrow> store_ok H s' \<and> evolves s s'"
  using keeps [of s q] advances [of s q] by simp

lemma serial:
  "store_ok H s \<Longrightarrow> list_all wf qs \<Longrightarrow> store_ok H (run_all run qs s) \<and> evolves s (run_all run qs s)"
proof (induction qs arbitrary: s)
  case (Cons q qs)
  then have "store_ok H (snd (run q s))" "evolves s (snd (run q s))" by (simp_all add: keeps advances)
  with Cons show ?case by (auto intro: evolves_trans)
qed simp

text \<open>Refused requests leave no trace: dropping one from a sequence does not change the outcome.\<close>

lemma refused_invisible:
  assumes "store_ok H s" and "list_all wf qs" and "run q (run_all run qs s) = (Inl e, s')"
  shows "run_all run (qs @ q # qs') s = run_all run (qs @ qs') s"
proof -
  have app: "run_all run (xs @ ys) s = run_all run ys (run_all run xs s)" for xs ys
    by (induction xs arbitrary: s) simp_all
  have "s' = run_all run qs s" using serial [OF assms(1,2)] rolls_back [OF _ assms(3)] by blast
  with assms(3) show ?thesis by (simp add: app)
qed

end

text \<open>An operation that is one transaction rolls back, and evolves the store as its body does.\<close>

lemma transaction_evolves:
  "(\<And>r s'. body s = Inr (r, s') \<Longrightarrow> evolves s s') \<Longrightarrow> evolves s (snd (transaction eng body s))"
  by (rule transaction_preserves) simp_all

lemma evolves_if_ok:
  assumes "\<And>e s'. run s = (Inl e, s') \<Longrightarrow> s' = s" and "\<And>x s'. run s = (Inr x, s') \<Longrightarrow> evolves s s'"
  shows "evolves s (snd (run s))"
  using assms by (cases "run s"; cases "fst (run s)") fastforce+

lemma store_ok_same_rows:
  "store_ok H s \<Longrightarrow> db_ok H s' \<Longrightarrow> db_instances s' = db_instances s \<Longrightarrow>
     db_memberships s' = db_memberships s \<Longrightarrow> store_ok H s'"
  unfolding store_ok_def by (blast intro: ownership_same_rows)

subsection \<open>Repository operations\<close>

lemma find_or_create_squad_evolves: "find_or_create_squad req s = Inr (sq, s') \<Longrightarrow> evolves s s'"
  by (erule find_or_create_squad_Inr) (auto dest: insert_evolves)

lemma create_squad_store_ok:
  assumes "store_ok H s" and "CreateSquad_wf req"
  shows "store_ok H (snd (create_squad eng req s))"
proof -
  have "db_instances (snd (create_squad eng req s)) = db_instances s
      \<and> db_memberships (snd (create_squad eng req s)) = db_memberships s"
    unfolding create_squad_def
    by (rule transaction_preserves)
      (auto simp: result_simps insert_squad_or_ignore_def insert_squad_Inr split: if_splits)
  with assms create_squad_keeps [OF store_okD(1) [OF assms(1)] assms(2)] show ?thesis
    by (blast intro: store_ok_same_rows)
qed

lemma create_squad_advances: "evolves s (snd (create_squad eng req s))"
  unfolding create_squad_def
  by (rule transaction_evolves)
    (auto simp: result_simps insert_squad_or_ignore_def dest: insert_evolves split: if_splits)

lemma create_squad_error: "create_squad eng req s = (Inl e, s') \<Longrightarrow> s' = s"
  by (auto simp: create_squad_def dest: transaction_error_rolls_back)

interpretation create_squad: store_operation H "\<lambda>(eng, req). CreateSquad_wf req"
    "\<lambda>(eng, req). create_squad eng req" for H
  by unfold_locales
    (auto simp: create_squad_store_ok create_squad_advances dest: create_squad_error)

lemma archive_squad_error:
  assumes "db_ok H s" and "archive_squad eng n t s = (Inl e, s')"
  shows "s' = s"
proof (rule ccontr)
  let ?p = "\<lambda>r. sq_name r = n \<and> sq_state r = ''active''"
  assume changed: "s' \<noteq> s"
  with assms(2) have s': "s' = archive_where ?p (as_i64 t) s" and "changed_rows ?p (db_squads s) \<noteq> 1"
    by (auto simp: archive_squad_def transaction_def Let_def
        split: option.splits sum.splits if_splits)
  moreover have "\<not> (\<forall>r \<in> set (db_squads s). \<not> ?p r)"
  proof
    assume "\<forall>r \<in> set (db_squads s). \<not> ?p r"
    then have "update_where ?p (archive_row (as_i64 t)) (db_squads s) = db_squads s"
      by (intro update_where_none) blast
    with s' changed show False by (simp add: archive_where_def)
  qed
  then obtain r where "r \<in> set (db_squads s)" "?p r" by blast
  then have "changed_rows ?p (db_squads s) = 1"
    using assms(1) by (intro changed_rows_unique [of sq_name])
      (auto simp: db_ok_def squads_ok_def)
  ultimately show False by simp
qed

lemma archive_squad_advances: "evolves s (snd (archive_squad eng n t s))"
  using archive_squad_snd [of eng n t s]
    update_evolves(1) [of "\<lambda>r. sq_name r = n \<and> sq_state r = ''active''" s "as_i64 t"] by auto

lemma archive_squad_store_ok:
  "store_ok H s \<Longrightarrow> valid_time t \<Longrightarrow> store_ok H (snd (archive_squad eng n t s))"
  using archive_squad_snd [of eng n t s] archive_where_store_ok [of H s t] by auto

interpretation archive_squad: store_operation H "\<lambda>(eng, n, t). valid_time t"
    "\<lambda>(eng, n, t). archive_squad eng n t" for H
  by unfold_locales
    (auto simp: archive_squad_store_ok archive_squad_advances dest: store_okD(1) archive_squad_error)

lemma join_error: "join_with_fault eng req fault s = (Inl e, s') \<Longrightarrow> s' = s"
  by (auto simp: join_with_fault_def dest: transaction_error_rolls_back)

lemma join_Inr_advances:
  "join_with_fault eng req fault s = (Inr rec, s') \<Longrightarrow> evolves s s'"
  by (erule join_with_fault_Inr)
    (blast intro: evolves_trans find_or_create_squad_evolves insert_evolves)

lemma join_store_ok:
  assumes "store_ok H s" and "JoinMembership_wf req" and "join_with_fault eng req fault s = (Inr rec, s')"
  shows "store_ok H s'"
proof -
  have ok: "db_ok H s" using assms(1) by (simp add: store_ok_def)
  from assms(3) obtain sq s1 s2 n where steps: "find_or_create_squad req s = Inr (sq, s1)"
      "insert_agent \<lparr>ag_id = jm_agent_id req, ag_created_at = as_i64 (jm_joined_at req)\<rparr> s1 = Inr s2"
      "insert_membership_or_ignore (new_membership_row req sq) s2 = Inr (n, s')" "n \<noteq> 0"
    by (rule join_with_fault_Inr)
  note fc = find_or_create_squad_ok [OF ok assms(2) steps(1)]
  note added = join_statements_ok [OF fc(1) assms(2) fc(2) steps(2-4)]
  have fresh: "jm_membership_id req \<notin> mb_id ` set (db_memberships s)"
    using insert_membership_Inr [of "new_membership_row req sq" s2 n s'] steps fc(5)
    by (auto simp: new_membership_row_def insert_agent_Inr)
  have "in_membership_id i \<noteq> jm_membership_id req" if "i \<in> set (db_instances s)" for i
  proof -
    have "in_membership_id i \<in> mb_id ` set (db_memberships s)"
      using that ok by (simp add: db_ok_def instances_ok_def)
    with fresh show ?thesis by metis
  qed
  moreover have "active_members s' = insert (jm_membership_id req) (active_members s)"
    using active_members_snoc [of s' s "new_membership_row req sq"] added(2) fc(5)
    by (simp add: new_membership_row_def is_active_member_def)
  moreover have "db_instances s' = db_instances s" using added(2) fc(6) by simp
  ultimately have "ownership_ok s'"
    using store_okD(2) [OF assms(1)] by (intro ownership_mono [of s s']) auto
  with added(1) show ?thesis by (simp add: store_ok_def)
qed

lemma step_if_ok:
  assumes "\<And>e s'. run s = (Inl e, s') \<Longrightarrow> s' = s" and "P s" and "\<And>x s'. run s = (Inr x, s') \<Longrightarrow> P s'"
  shows "P (snd (run s))"
  using assms by (cases "run s"; cases "fst (run s)") fastforce+

interpretation join: store_operation H "\<lambda>(eng, req, fault). JoinMembership_wf req"
    "\<lambda>(eng, req, fault). join_with_fault eng req fault" for H
  by unfold_locales
    (auto intro!: step_if_ok [where P = "store_ok H"] step_if_ok [where P = "evolves s" for s]
      dest: join_error join_Inr_advances join_store_ok)

lemma close_then_leave_advances:
  "(\<And>i. p i \<Longrightarrow> in_closed_at i = None) \<Longrightarrow> (\<And>r. p' r \<Longrightarrow> mb_left_at r = None) \<Longrightarrow>
     evolves s (leave_where p' t (close_where p t s))"
  by (rule evolves_trans [OF update_evolves(3) update_evolves(2)])

lemma leave_error: "leave_with_fault eng sq m t fault s = (Inl e, s') \<Longrightarrow> s' = s"
  by (auto simp: leave_with_fault_def dest: transaction_error_rolls_back)

lemma leave_Inr_advances: "leave_with_fault eng sq m t fault s = (Inr u, s') \<Longrightarrow> evolves s s'"
  by (auto simp: leave_with_fault_Inr intro: close_then_leave_advances)

lemma leave_store_ok:
  assumes "store_ok H s" and "valid_time t" and "leave_with_fault eng sq m t fault s = (Inr u, s')"
  shows "store_ok H s'"
proof -
  have "db_ok H s'" using leave_keeps [OF store_okD(1) [OF assms(1)] assms(2), of eng sq m fault] assms(3) by simp
  moreover have "ownership_ok s'"
    using assms(3) leave_ownership [OF store_okD(2) [OF assms(1)],
        of "\<lambda>r. in_membership_id r = m \<and> in_closed_at r = None" m "as_i64 t"]
    by (simp add: leave_with_fault_Inr)
  ultimately show ?thesis by (simp add: store_ok_def)
qed

interpretation leave: store_operation H "\<lambda>(eng, sq, m, t, fault). valid_time t"
    "\<lambda>(eng, sq, m, t, fault). leave_with_fault eng sq m t fault" for H
  by unfold_locales
    (auto intro!: step_if_ok [where P = "store_ok H"] step_if_ok [where P = "evolves s" for s]
      dest: leave_error leave_Inr_advances leave_store_ok)

subsection \<open>Instance operations\<close>

lemma insert_instance_evolves:
  "insert_instance H i m mode ck hn tok a src now pol s = Inr (rec, s') \<Longrightarrow> evolves s s'"
  by (auto simp: insert_instance_def result_simps Let_def dest: insert_evolves(4))

lemma replace_owner_advances:
  "insert_instance H i m mode ck hn tok a src now pol
     (close_where (\<lambda>r. in_membership_id r = m' \<and> in_closed_at r = None) t s) = Inr (rec, s') \<Longrightarrow>
   evolves s s'"
  by (rule evolves_trans [OF update_evolves(3) insert_instance_evolves]) auto

interpretation claim_instance: store_operation H "\<lambda>(eng, req, entropy). ClaimInstance_wf req"
    "\<lambda>(eng, req, entropy). claim_instance H enc entropy eng req" for H enc
  by unfold_locales
    (auto simp: claim_instance_keeps intro!: step_if_ok [where P = "evolves s" for s]
      dest: claim_instance_error elim!: claim_instance_Inr insert_instance_evolves)

interpretation resume_instance: store_operation H "\<lambda>(eng, req, fault). ResumeInstance_wf req"
    "\<lambda>(eng, req, fault). resume_instance_with_fault H eng req fault" for H
  by unfold_locales
    (auto simp: resume_instance_keeps intro!: step_if_ok [where P = "evolves s" for s]
      dest: resume_instance_error elim!: resume_instance_Inr replace_owner_advances)

text \<open>Both heartbeats extend the lease of one open instance, found by its unique id.\<close>

lemma renewal_advances:
  assumes "db_ok H s" and "i \<in> set (db_instances s)" and "is_open i"
    and "eff = max now (UnixMillis (in_last_seen_at i))" and "valid_time now"
    and "renew_lease (InstanceState_at None (UnixMillis (in_lease_expires_at i)) eff)
      (UnixMillis (in_lease_expires_at i)) eff d = Inr e"
    and "\<And>r. p r \<Longrightarrow> in_id r = in_id i"
  shows "evolves s (renew_where p a src (as_i64 eff) (as_i64 e) s)"
proof (rule renew_evolves)
  fix r assume r: "r \<in> set (db_instances s)" "p r"
  have ids: "distinct (map in_id (db_instances s))" and row: "instance_row_ok i"
    using assms(1,2) by (auto simp: db_ok_def instances_ok_def)
  have "r = i" by (rule distinct_map_unique [OF ids r(1) assms(2) assms(7) [OF r(2)]])
  moreover have "in_last_seen_at i \<le> i64_max" using row by (simp add: instance_row_ok_def)
  with assms(4,5) have "valid_time eff" by (simp add: valid_time_def le_max_iff_disj)
  then have "e = max (UnixMillis (as_i64 eff + as_millis d)) (UnixMillis (in_lease_expires_at i))"
    using assms(6) by (simp add: renew_lease_Inr valid_time_def)
  ultimately show "in_closed_at r = None \<and> in_lease_expires_at r \<le> as_i64 e \<and> in_last_seen_at r \<le> as_i64 eff"
    using assms(3,4) by (simp add: is_open_def)
qed

lemma heartbeat_instance_advances:
  assumes "store_ok H s" and "HeartbeatInstance_wf req"
  shows "evolves s (snd (heartbeat_instance H eng req s))"
proof -
  obtain r s' where run: "heartbeat_instance H eng req s = (r, s')" by fastforce
  have ok: "db_ok H s" using assms(1) by (simp add: store_ok_def)
  from ok run have "evolves s s'"
  proof (cases rule: heartbeat_instance_cases)
    case (committed i eff renewed u rec)
    note tx = heartbeat_tx_Inr [OF ok committed(2)]
    show ?thesis
      unfolding tx(8) using assms(2) tx(2)
      by (intro renewal_advances [OF ok tx(1,3,6) _ tx(7)]) (simp_all add: HeartbeatInstance_wf_def)
  qed simp
  with run show ?thesis by simp
qed

lemma heartbeat_instance_error:
  assumes "store_ok H s" and "heartbeat_instance H eng req s = (Inl e, s')"
  shows "s' = s"
  using store_okD(1) [OF assms(1)] assms(2) by (cases rule: heartbeat_instance_cases) auto

interpretation heartbeat_instance: store_operation H "\<lambda>(eng, req). HeartbeatInstance_wf req"
    "\<lambda>(eng, req). heartbeat_instance H eng req" for H
  by unfold_locales
    (auto simp: heartbeat_instance_keeps heartbeat_instance_advances dest: heartbeat_instance_error)

subsection \<open>Messages and acknowledgement\<close>

lemma send_in_transaction_evolves:
  assumes "db_ok H s" and "send_in_transaction H req s = Inr (rec, s')"
  shows "evolves s s'"
  using assms by (cases rule: send_in_transaction_cases) (auto dest: insert_evolves)

lemma send_message_error: "send_message H eng req s = (Inl e, s') \<Longrightarrow> s' = s"
  by (auto simp: send_message_def send_message_with_commit_fault_def
      dest: transaction_error_rolls_back split: prod.splits sum.splits)

interpretation send_message: store_operation H "\<lambda>(eng, req). SendMessage_wf req"
    "\<lambda>(eng, req). send_message H eng req" for H
proof (unfold_locales, goal_cases)
  case (1 s q)
  then show ?case
    using send_message_snd [of H "fst q" "snd q" False s]
    by (auto simp: send_message_def intro: send_store_ok)
next
  case (2 s q)
  then show ?case
    using send_message_snd [of H "fst q" "snd q" False s]
    by (auto simp: send_message_def intro: send_in_transaction_evolves [OF store_okD(1)])
qed (auto dest: send_message_error)

lemma acknowledge_on_evolves:
  assumes "\<And>xs. set (hash_order xs) = set xs" and "acknowledge_on hash_order req fault s = Inr (u, s')"
  shows "evolves s s'"
  unfolding acknowledge_on_Inr(1) [OF assms] by (rule update_evolves(4)) (simp add: ack_matches_def is_pending_def)

lemma acknowledge_store_ok:
  assumes "\<And>xs. set (hash_order xs) = set xs" and "store_ok H s" and "valid_time (ak_acknowledged_at req)"
  shows "store_ok H (snd (acknowledge_messages_with_fault hash_order eng req fault s))"
proof -
  have "store_ok H s'" if "acknowledge_on hash_order req fault s = Inr (u, s')" for u s'
    unfolding acknowledge_on_Inr(1) [OF assms(1) that] using assms(2,3) by (simp add: ack_where_store_ok)
  then show ?thesis
    using assms(2) by (simp add: acknowledge_messages_with_fault_def transaction_store_ok)
qed

lemma acknowledge_advances:
  assumes "\<And>xs. set (hash_order xs) = set xs"
  shows "evolves s (snd (acknowledge_messages_with_fault hash_order eng req fault s))"
  using acknowledge_on_evolves [OF assms]
  by (auto simp: acknowledge_messages_with_fault_def intro!: transaction_evolves)

text \<open>The order in which a hash set of ids is walked is any enumeration of the set.\<close>

definition enumerates :: "('a list \<Rightarrow> 'a list) \<Rightarrow> bool" where
  "enumerates hash_order \<longleftrightarrow> (\<forall>xs. set (hash_order xs) = set xs)"

interpretation acknowledge_messages: store_operation H
    "\<lambda>(eng, req, fault, hash_order). enumerates hash_order \<and> valid_time (ak_acknowledged_at req)"
    "\<lambda>(eng, req, fault, hash_order). acknowledge_messages_with_fault hash_order eng req fault" for H
  by unfold_locales
    (auto simp: enumerates_def acknowledge_store_ok acknowledge_advances dest: acknowledge_error)

subsection \<open>Authenticated operations\<close>

lemma join_and_claim_advances:
  assumes "store_ok H s"
  shows "evolves s (snd (join_and_claim_inner H enc entropy eng req fault s))"
proof (rule step_if_ok [where P = "evolves s"])
  fix out s'
  assume "join_and_claim_inner H enc entropy eng req fault s = (Inr out, s')"
  then show "evolves s s'"
    by (rule join_and_claim_Inr)
      (blast intro: evolves_trans insert_evolves insert_instance_evolves
        find_or_create_squad_evolves [OF auth_find_or_create_squad_same [OF store_okD(1) [OF assms]]])
qed (auto dest: join_and_claim_error)

interpretation join_and_claim: store_operation H "\<lambda>(eng, req, entropy, fault). JoinAndClaim_wf req"
    "\<lambda>(eng, req, entropy, fault). join_and_claim_inner H enc entropy eng req fault" for H enc
  by unfold_locales
    (auto simp: join_and_claim_keeps join_and_claim_advances dest: join_and_claim_error)

lemma authenticated_heartbeat_advances:
  assumes "store_ok H s" and "AuthenticatedSession_wf session"
  shows "evolves s (snd (authenticated_heartbeat H eng session av src pol s))"
proof -
  have ok: "db_ok H s" using assms(1) by (simp add: store_ok_def)
  have "evolves s s'" if tx: "heartbeat_authenticated_tx H session av src pol s = Inr (rec, s')" for rec s'
    using ok tx
  proof (rule heartbeat_authenticated_tx_Inr)
    fix i m e
    assume own: "session_owner H session s i m"
      and ren: "renew_lease (InstanceState_at None (UnixMillis (in_lease_expires_at i))
        (max (se_now session) (UnixMillis (in_last_seen_at i)))) (UnixMillis (in_lease_expires_at i))
        (max (se_now session) (UnixMillis (in_last_seen_at i))) (lp_lease_duration pol) = Inr e"
      and s': "s' = renew_where (\<lambda>r. in_id r = se_instance_id session) (availability av)
       (availability_source src) (as_i64 (max (se_now session) (UnixMillis (in_last_seen_at i)))) (as_i64 e) s"
    from own have i: "i \<in> set (db_instances s)" "in_id i = se_instance_id session" "is_open i"
      by (simp_all add: session_owner_def session_row_def live_at_def)
    have now: "valid_time (se_now session)" using assms(2) by (simp add: AuthenticatedSession_wf_def)
    show "evolves s s'"
      unfolding s' by (rule renewal_advances [OF ok i(1,3) refl now ren]) (simp add: i(2))
  qed
  then show ?thesis
    by (auto simp: authenticated_heartbeat_def intro!: transaction_evolves split: sum.splits)
qed

lemma authenticated_heartbeat_error:
  "authenticated_heartbeat H eng session av src pol s = (Inl e, s') \<Longrightarrow> s' = s"
  by (auto simp: authenticated_heartbeat_def dest: transaction_error_rolls_back split: sum.splits)

interpretation authenticated_heartbeat: store_operation H
    "\<lambda>(eng, session, av, src, pol). AuthenticatedSession_wf session"
    "\<lambda>(eng, session, av, src, pol). authenticated_heartbeat H eng session av src pol" for H
  by unfold_locales
    (auto simp: authenticated_heartbeat_keeps authenticated_heartbeat_advances
      dest: authenticated_heartbeat_error)

lemma authenticated_archive_advances:
  "evolves s (snd (authenticated_archive H eng session sq s))"
  "evolves s (snd (authenticated_archive_by_name H eng session n s))"
  unfolding authenticated_archive_def authenticated_archive_by_name_def
  by (auto intro!: transaction_evolves simp: result_simps Let_def intro: update_evolves(1))

interpretation authenticated_archive: store_operation H
    "\<lambda>(eng, session, sq). AuthenticatedSession_wf session"
    "\<lambda>(eng, session, sq). authenticated_archive H eng session sq" for H
  by unfold_locales
    (auto simp: authenticated_archive_keeps authenticated_archive_advances,
      auto simp: authenticated_archive_def dest: transaction_error_rolls_back)

interpretation authenticated_archive_by_name: store_operation H
    "\<lambda>(eng, session, n). AuthenticatedSession_wf session"
    "\<lambda>(eng, session, n). authenticated_archive_by_name H eng session n" for H
  by unfold_locales
    (auto simp: authenticated_archive_keeps authenticated_archive_advances,
      auto simp: authenticated_archive_by_name_def dest: transaction_error_rolls_back)

lemma authenticated_send_advances:
  "store_ok H s \<Longrightarrow> evolves s (snd (authenticated_send H eng session req s))"
  unfolding authenticated_send_def
  by (auto intro!: transaction_evolves simp: result_simps split: option.splits
      intro: send_in_transaction_evolves [OF store_okD(1)])

interpretation authenticated_send: store_operation H
    "\<lambda>(eng, session, req). SendMessage_wf req"
    "\<lambda>(eng, session, req). authenticated_send H eng session req" for H
  by unfold_locales
    (auto simp: authenticated_send_keeps authenticated_send_advances,
      auto simp: authenticated_send_def dest: transaction_error_rolls_back)

lemma send_by_name_tx_evolves:
  assumes "db_ok H s" and "send_by_name_tx H session req s = Inr (out, s')"
  shows "evolves s s'"
proof -
  have "s' = s \<or> (\<exists>send rec. send_in_transaction H send s = Inr (rec, s'))"
    using assms(2) unfolding send_by_name_tx_def replay_by_name_def fresh_by_name_def
    by (auto simp: result_simps Let_def split: option.splits)
  then show ?thesis using send_in_transaction_evolves [OF assms(1)] by auto
qed

lemma authenticated_send_by_name_advances:
  "store_ok H s \<Longrightarrow> evolves s (snd (authenticated_send_by_name H eng session req s))"
  unfolding authenticated_send_by_name_def
  by (rule transaction_evolves) (blast intro: send_by_name_tx_evolves store_okD(1))

interpretation authenticated_send_by_name: store_operation H
    "\<lambda>(eng, session, req). AuthenticatedSession_wf session \<and> SendByName_wf req"
    "\<lambda>(eng, session, req). authenticated_send_by_name H eng session req" for H
  by unfold_locales
    (auto simp: authenticated_send_by_name_keeps authenticated_send_by_name_advances,
      auto simp: authenticated_send_by_name_def dest: transaction_error_rolls_back)

lemma authenticated_acknowledge_advances:
  assumes "enumerates hash_order"
  shows "evolves s (snd (authenticated_acknowledge H hash_order eng session ids s))"
  unfolding authenticated_acknowledge_def
proof (rule transaction_evolves)
  fix r s'
  assume "rbind (authorize_current H session s) (\<lambda>identity.
     acknowledge_on hash_order \<lparr>ak_recipient = id_membership identity,
       ak_message_ids = ids, ak_acknowledged_at = se_now session\<rparr> False s) = Inr (r, s')"
  then show "evolves s s'"
    using assms acknowledge_on_evolves [of hash_order] by (auto simp: rbind_eq_Inr enumerates_def)
qed

interpretation authenticated_acknowledge: store_operation H
    "\<lambda>(eng, session, ids, hash_order). enumerates hash_order \<and> AuthenticatedSession_wf session"
    "\<lambda>(eng, session, ids, hash_order). authenticated_acknowledge H hash_order eng session ids" for H
  by unfold_locales
    (auto simp: enumerates_def authenticated_acknowledge_keeps,
      auto simp: enumerates_def authenticated_acknowledge_advances,
      auto simp: authenticated_acknowledge_def dest: transaction_error_rolls_back)

lemma authenticated_leave_advances:
  "evolves s (snd (authenticated_leave H eng session n s))"
  unfolding authenticated_leave_def
  by (auto intro!: transaction_evolves close_then_leave_advances simp: result_simps Let_def)

interpretation authenticated_leave: store_operation H
    "\<lambda>(eng, session, n). AuthenticatedSession_wf session"
    "\<lambda>(eng, session, n). authenticated_leave H eng session n" for H
  by unfold_locales
    (auto simp: authenticated_leave_keeps authenticated_leave_advances dest: authenticated_leave_error)

lemma authenticated_resume_advances:
  assumes "store_ok H s"
  shows "evolves s (snd (authenticated_resume H eng req s))"
proof -
  have "evolves s s'" if tx: "resume_authenticated_tx H req s = Inr (ctx, s')" for ctx s'
    using store_okD(1) [OF assms] tx
    by (rule resume_authenticated_tx_Inr) (rule replace_owner_advances)
  then show ?thesis
    by (auto simp: authenticated_resume_def intro!: transaction_evolves split: sum.splits)
qed

lemma authenticated_resume_error: "authenticated_resume H eng req s = (Inl e, s') \<Longrightarrow> s' = s"
  by (auto simp: authenticated_resume_def dest: transaction_error_rolls_back split: sum.splits)

interpretation authenticated_resume: store_operation H "\<lambda>(eng, req). ResumeSession_wf req"
    "\<lambda>(eng, req). authenticated_resume H eng req" for H
  by unfold_locales
    (auto simp: authenticated_resume_keeps authenticated_resume_advances dest: authenticated_resume_error)

text \<open>The operations that only read leave the store as it is.\<close>

lemma reading_operations_change_nothing [simp]:
  "snd (authenticated_roster H eng session n s) = s"
  "snd (authenticated_pending H eng session k s) = s"
  "snd (authenticated_pending_page H eng session k s) = s"
  "snd (authenticated_transcript H eng session q s) = s"
  "snd (authenticated_transcript_views H eng session v s) = s"
  by (auto simp: authenticated_roster_def authenticated_pending_def authenticated_pending_page_def
      authenticated_transcript_def authenticated_transcript_views_def pending_page_tx_def
      transcript_views_tx_def transaction_def result_simps Let_def
      split: option.splits sum.splits prod.splits)

section \<open>Runs\<close>

text \<open>One call of any operation that may write, with an admissible request.\<close>

inductive store_step :: "(string \<Rightarrow> string) \<Rightarrow> (string \<Rightarrow> string) \<Rightarrow> db \<Rightarrow> db \<Rightarrow> bool" for H enc where
  create_squad: "CreateSquad_wf req \<Longrightarrow> create_squad eng req s = (r, s') \<Longrightarrow> store_step H enc s s'"
| archive_squad: "valid_time t \<Longrightarrow> archive_squad eng n t s = (r, s') \<Longrightarrow> store_step H enc s s'"
| join: "JoinMembership_wf req \<Longrightarrow> join_with_fault eng req fault s = (r, s') \<Longrightarrow> store_step H enc s s'"
| leave: "valid_time t \<Longrightarrow> leave_with_fault eng sq m t fail s = (r, s') \<Longrightarrow> store_step H enc s s'"
| claim_instance: "ClaimInstance_wf req \<Longrightarrow> claim_instance H enc entropy eng req s = (r, s') \<Longrightarrow>
    store_step H enc s s'"
| resume_instance: "ResumeInstance_wf req \<Longrightarrow> resume_instance_with_fault H eng req fail s = (r, s') \<Longrightarrow>
    store_step H enc s s'"
| heartbeat_instance: "HeartbeatInstance_wf req \<Longrightarrow> heartbeat_instance H eng req s = (r, s') \<Longrightarrow>
    store_step H enc s s'"
| send_message: "SendMessage_wf req \<Longrightarrow> send_message H eng req s = (r, s') \<Longrightarrow> store_step H enc s s'"
| acknowledge_messages: "enumerates hash_order \<Longrightarrow> valid_time (ak_acknowledged_at req) \<Longrightarrow>
    acknowledge_messages_with_fault hash_order eng req fail s = (r, s') \<Longrightarrow> store_step H enc s s'"
| join_and_claim: "JoinAndClaim_wf req \<Longrightarrow>
    join_and_claim_inner H enc entropy eng req fault s = (r, s') \<Longrightarrow> store_step H enc s s'"
| authenticated_heartbeat: "AuthenticatedSession_wf session \<Longrightarrow>
    authenticated_heartbeat H eng session av src pol s = (r, s') \<Longrightarrow> store_step H enc s s'"
| authenticated_send: "SendMessage_wf req \<Longrightarrow> authenticated_send H eng session req s = (r, s') \<Longrightarrow>
    store_step H enc s s'"
| authenticated_send_by_name: "AuthenticatedSession_wf session \<Longrightarrow> SendByName_wf req \<Longrightarrow>
    authenticated_send_by_name H eng session req s = (r, s') \<Longrightarrow> store_step H enc s s'"
| authenticated_acknowledge: "enumerates hash_order \<Longrightarrow> AuthenticatedSession_wf session \<Longrightarrow>
    authenticated_acknowledge H hash_order eng session ids s = (r, s') \<Longrightarrow> store_step H enc s s'"
| authenticated_leave: "AuthenticatedSession_wf session \<Longrightarrow>
    authenticated_leave H eng session n s = (r, s') \<Longrightarrow> store_step H enc s s'"
| authenticated_archive: "AuthenticatedSession_wf session \<Longrightarrow>
    authenticated_archive H eng session sq s = (r, s') \<Longrightarrow> store_step H enc s s'"
| authenticated_archive_by_name: "AuthenticatedSession_wf session \<Longrightarrow>
    authenticated_archive_by_name H eng session n s = (r, s') \<Longrightarrow> store_step H enc s s'"
| authenticated_resume: "ResumeSession_wf req \<Longrightarrow> authenticated_resume H eng req s = (r, s') \<Longrightarrow>
    store_step H enc s s'"

abbreviation store_run :: "(string \<Rightarrow> string) \<Rightarrow> (string \<Rightarrow> string) \<Rightarrow> db \<Rightarrow> db \<Rightarrow> bool" where
  "store_run H enc \<equiv> (store_step H enc)\<^sup>*\<^sup>*"

lemma store_step_ok:
  assumes "store_step H enc s s'" and "store_ok H s"
  shows "store_ok H s' \<and> evolves s s'"
  using assms
proof cases
  case create_squad then show ?thesis using create_squad.step [OF assms(2), of "(eng, req)" for eng req] by simp
next
  case archive_squad
  then show ?thesis using archive_squad.step [OF assms(2), of "(eng, n, t)" for eng n t] by simp
next
  case join then show ?thesis using join.step [OF assms(2), of "(eng, req, f)" for eng req f] by simp
next
  case leave
  then show ?thesis using leave.step [OF assms(2), of "(eng, sq, m, t, f)" for eng sq m t f] by simp
next
  case claim_instance
  then show ?thesis using claim_instance.step [OF assms(2), of "(eng, req, e)" for eng req e] by simp
next
  case resume_instance
  then show ?thesis using resume_instance.step [OF assms(2), of "(eng, req, f)" for eng req f] by simp
next
  case heartbeat_instance
  then show ?thesis using heartbeat_instance.step [OF assms(2), of "(eng, req)" for eng req] by simp
next
  case send_message
  then show ?thesis using send_message.step [OF assms(2), of "(eng, req)" for eng req] by simp
next
  case acknowledge_messages
  then show ?thesis
    using acknowledge_messages.step [OF assms(2), of "(eng, req, f, ho)" for eng req f ho] by simp
next
  case join_and_claim
  then show ?thesis using join_and_claim.step [OF assms(2), of "(eng, req, e, f)" for eng req e f] by simp
next
  case authenticated_heartbeat
  then show ?thesis
    using authenticated_heartbeat.step [OF assms(2), of "(eng, se, av, src, pol)" for eng se av src pol] by simp
next
  case authenticated_send
  then show ?thesis using authenticated_send.step [OF assms(2), of "(eng, se, req)" for eng se req] by simp
next
  case authenticated_send_by_name
  then show ?thesis
    using authenticated_send_by_name.step [OF assms(2), of "(eng, se, req)" for eng se req] by simp
next
  case authenticated_acknowledge
  then show ?thesis
    using authenticated_acknowledge.step [OF assms(2), of "(eng, se, ids, ho)" for eng se ids ho] by simp
next
  case authenticated_leave
  then show ?thesis using authenticated_leave.step [OF assms(2), of "(eng, se, n)" for eng se n] by simp
next
  case authenticated_archive
  then show ?thesis using authenticated_archive.step [OF assms(2), of "(eng, se, sq)" for eng se sq] by simp
next
  case authenticated_archive_by_name
  then show ?thesis
    using authenticated_archive_by_name.step [OF assms(2), of "(eng, se, n)" for eng se n] by simp
next
  case authenticated_resume
  then show ?thesis using authenticated_resume.step [OF assms(2), of "(eng, req)" for eng req] by simp
qed

lemma store_run_ok:
  assumes "store_run H enc s s'" and "store_ok H s"
  shows "store_ok H s' \<and> evolves s s'"
  using assms
proof (induction rule: rtranclp_induct)
  case (step s1 s2)
  then show ?case using store_step_ok [OF step(2)] by (auto intro: evolves_trans)
qed simp

section \<open>What holds of every store\<close>

lemma grows_member:
  assumes "grows R xs ys" and "x \<in> set xs"
  obtains y where "y \<in> set ys" "R x y"
proof -
  from assms(2) obtain k where "k < length xs" "x = xs ! k" by (auto simp: in_set_conv_nth)
  with assms(1) that [of "ys ! k"] show thesis by (auto simp: grows_nth)
qed

text \<open>
  (C1) Every store that any sequence of operations can produce from an empty database is
  consistent, whatever the requests, the faults of the engine and the faults injected half way:
  a member has at most one open instance, and only while it has not left; names are unique among
  the active members of a squad; the sequence numbers of messages are positive, strictly
  increasing and never beyond the counter; a message's body carries its hash, and sender,
  recipient and the message it replies to are of its squad; at most one message carries a given
  deduplication key of a sender.
\<close>

theorem reachable_store_is_consistent:
  assumes "store_run H enc empty_db s"
  shows "(\<forall>i \<in> set (db_instances s). \<forall>j \<in> set (db_instances s).
        is_open i \<longrightarrow> is_open j \<longrightarrow> in_membership_id i = in_membership_id j \<longrightarrow> i = j)
    \<and> (\<forall>i \<in> set (db_instances s). is_open i \<longrightarrow>
        (\<exists>m \<in> set (db_memberships s). mb_id m = in_membership_id i \<and> mb_left_at m = None))
    \<and> (\<forall>m \<in> set (db_memberships s). \<forall>m' \<in> set (db_memberships s).
        mb_left_at m = None \<longrightarrow> mb_left_at m' = None \<longrightarrow> mb_squad_id m = mb_squad_id m' \<longrightarrow>
        mb_normalized_name m = mb_normalized_name m' \<longrightarrow> m = m')
    \<and> sorted_wrt (<) (map ms_sequence (db_messages s))
    \<and> (\<forall>r \<in> set (db_messages s). 1 \<le> ms_sequence r \<and> ms_sequence r \<le> db_sequence s
        \<and> ms_body_hash r = H (ms_body r)
        \<and> has_membership s (ms_sender_membership_id r) (ms_squad_id r)
        \<and> has_membership s (ms_recipient_membership_id r) (ms_squad_id r)
        \<and> (\<forall>q. ms_reply_to r = Some q \<longrightarrow> has_message s q (ms_squad_id r)))
    \<and> (\<forall>r \<in> set (db_messages s). \<forall>q \<in> set (db_messages s). same_dedupe r q \<longrightarrow> r = q)"
proof -
  have ok: "db_ok H s" using store_run_ok [OF assms] by (simp add: store_okD(1))
  note [simp] = db_okD [OF ok]
  have open_active: "\<exists>m \<in> set (db_memberships s). mb_id m = in_membership_id i \<and> mb_left_at m = None"
    if "i \<in> set (db_instances s)" "is_open i" for i
  proof -
    have "in_membership_id i \<in> active_members s" using that db_okD(4) [OF ok] by (simp add: instances_ok_def)
    then show ?thesis by (auto simp: active_members_def is_active_member_def)
  qed
  have names: "m = m'" if "m \<in> set (db_memberships s)" "m' \<in> set (db_memberships s)"
      "mb_left_at m = None" "mb_left_at m' = None" "routing_key m = routing_key m'" for m m'
    using db_okD(3) [OF ok] that
    by (auto simp: memberships_ok_def distinct_map is_active_member_def dest: inj_onD)
  have rows: "1 \<le> ms_sequence r \<and> ms_sequence r \<le> db_sequence s \<and> ms_body_hash r = H (ms_body r)
      \<and> has_membership s (ms_sender_membership_id r) (ms_squad_id r)
      \<and> has_membership s (ms_recipient_membership_id r) (ms_squad_id r)
      \<and> (\<forall>q. ms_reply_to r = Some q \<longrightarrow> has_message s q (ms_squad_id r))"
    if "r \<in> set (db_messages s)" for r
    using db_okD(5) [OF ok] that
    by (simp add: messages_ok_def message_row_ok_def has_membership_key has_message_key)
  have dedupe: "r = q" if "r \<in> set (db_messages s)" "q \<in> set (db_messages s)" "same_dedupe r q" for r q
    using db_okD(5) [OF ok] that unfolding messages_ok_def by (metis distinct_map_unique)
  have "sorted_wrt (<) (map ms_sequence (db_messages s))"
    using db_okD(5) [OF ok] by (simp add: messages_ok_def)
  with open_active names rows dedupe open_instance_unique [OF db_okD(4) [OF ok]]
  show ?thesis unfolding routing_key_def by (intro conjI ballI impI) blast+
qed

text \<open>
  (C3) History is durable: along any run from a reachable store, a message is never lost, reordered
  or altered, its acknowledgement is set at most once and then stays; an archived squad stays
  archived, a member who left stays gone, a closed instance is never touched again, and the lease
  of an instance never gets shorter nor does its secret change.
\<close>

theorem history_is_durable:
  assumes "store_run H enc empty_db s" and "store_run H enc s s'"
  shows "(\<forall>k < length (db_messages s). k < length (db_messages s')
        \<and> (db_messages s' ! k)\<lparr>ms_acknowledged_at := ms_acknowledged_at (db_messages s ! k)\<rparr> =
            db_messages s ! k
        \<and> (ms_acknowledged_at (db_messages s ! k) \<noteq> None \<longrightarrow> db_messages s' ! k = db_messages s ! k))
    \<and> (\<forall>q \<in> set (db_squads s). sq_state q \<noteq> ''active'' \<longrightarrow> q \<in> set (db_squads s'))
    \<and> (\<forall>m \<in> set (db_memberships s). mb_left_at m \<noteq> None \<longrightarrow> m \<in> set (db_memberships s'))
    \<and> (\<forall>i \<in> set (db_instances s). \<exists>i' \<in> set (db_instances s'). in_id i' = in_id i
        \<and> in_membership_id i' = in_membership_id i
        \<and> in_resume_token_hash i' = in_resume_token_hash i
        \<and> in_lease_expires_at i \<le> in_lease_expires_at i'
        \<and> (\<not> is_open i \<longrightarrow> i' = i))"
proof -
  have "evolves s s'" using store_run_ok [OF assms(1)] store_run_ok [OF assms(2)] by simp
  then have ev: "grows squad_evolves (db_squads s) (db_squads s')"
      "grows membership_evolves (db_memberships s) (db_memberships s')"
      "grows instance_evolves (db_instances s) (db_instances s')"
      "grows message_evolves (db_messages s) (db_messages s')"
    by (simp_all add: evolves_def)
  have "\<forall>k < length (db_messages s). k < length (db_messages s')
      \<and> (db_messages s' ! k)\<lparr>ms_acknowledged_at := ms_acknowledged_at (db_messages s ! k)\<rparr> = db_messages s ! k
      \<and> (ms_acknowledged_at (db_messages s ! k) \<noteq> None \<longrightarrow> db_messages s' ! k = db_messages s ! k)"
    using ev(4) by (auto simp: grows_nth message_evolves_def ack_row_def)
  moreover have "\<forall>q \<in> set (db_squads s). sq_state q \<noteq> ''active'' \<longrightarrow> q \<in> set (db_squads s')"
    using grows_member [OF ev(1)] unfolding squad_evolves_def by metis
  moreover have "\<forall>m \<in> set (db_memberships s). mb_left_at m \<noteq> None \<longrightarrow> m \<in> set (db_memberships s')"
    using grows_member [OF ev(2)] unfolding membership_evolves_def by metis
  moreover have "\<exists>i' \<in> set (db_instances s'). in_id i' = in_id i
        \<and> in_membership_id i' = in_membership_id i \<and> in_resume_token_hash i' = in_resume_token_hash i
        \<and> in_lease_expires_at i \<le> in_lease_expires_at i' \<and> (\<not> is_open i \<longrightarrow> i' = i)"
    if "i \<in> set (db_instances s)" for i
    using grows_member [OF ev(3) that] unfolding instance_evolves_def is_open_def by metis
  ultimately show ?thesis by blast
qed

text \<open>What a refused call looks like: an error, and the store as it was.\<close>

definition declined :: "('e + 'a) \<times> db \<Rightarrow> db \<Rightarrow> bool" where
  "declined res s \<longleftrightarrow> \<not> is_ok (fst res) \<and> snd res = s"

lemma refused_transaction:
  assumes "\<not> is_ok (body s)"
  shows "declined (transaction eng body s) s"
proof -
  from assms obtain e where "body s = Inl e" by (cases "body s") auto
  then show ?thesis by (simp add: declined_def transaction_def split: option.splits)
qed

text \<open>The operations that ask for the current owner refuse everybody else.\<close>

lemma not_owner_refused:
  assumes "\<not> is_ok (authorize_current H session s)"
  shows "declined (authenticated_heartbeat H eng session av source policy s) s"
    and "declined (authenticated_pending_page H eng session limit s) s"
    and "declined (authenticated_pending H eng session limit s) s"
    and "declined (authenticated_acknowledge H order eng session ids s) s"
    and "declined (authenticated_transcript H eng session query s) s"
    and "declined (authenticated_transcript_views H eng session view_query s) s"
    and "declined (authenticated_leave H eng session name s) s"
    and "declined (authenticated_archive H eng session squad s) s"
    and "declined (authenticated_archive_by_name H eng session name s) s"
proof -
  from assms obtain e where e: "authorize_current H session s = Inl e"
    by (cases "authorize_current H session s") auto
  have early: "declined (Inl x, s) s" for x by (simp add: declined_def)
  note defs = authenticated_heartbeat_def heartbeat_authenticated_tx_def authenticated_pending_page_def
    pending_page_tx_def authenticated_pending_def authenticated_acknowledge_def authenticated_transcript_def
    authenticated_transcript_views_def transcript_views_tx_def authenticated_leave_def
    authenticated_archive_def authenticated_archive_by_name_def
  show "declined (authenticated_heartbeat H eng session av source policy s) s"
    by (auto simp: defs e early intro!: refused_transaction split: sum.splits)
  show "declined (authenticated_transcript H eng session query s) s"
    "declined (authenticated_transcript_views H eng session view_query s) s"
    by (auto simp: defs e early intro!: refused_transaction)
  show "declined (authenticated_pending_page H eng session limit s) s"
    "declined (authenticated_pending H eng session limit s) s"
    "declined (authenticated_acknowledge H order eng session ids s) s"
    "declined (authenticated_leave H eng session name s) s"
    "declined (authenticated_archive H eng session squad s) s"
    "declined (authenticated_archive_by_name H eng session name s) s"
    by (auto simp: defs e intro!: refused_transaction)
qed

text \<open>Without a current owner a send stores nothing; what it may still return is an earlier message.\<close>

lemma not_owner_sends_nothing:
  assumes "\<not> is_ok (authorize_current H session s)"
  shows "declined (authenticated_send H eng session req s) s
      \<or> (\<exists>rec. authenticated_send H eng session req s = (Inr rec, s) \<and> find_by_dedupe H req s = Inr (Some rec))"
    and "declined (authenticated_send_by_name H eng session named s) s
      \<or> (\<exists>out. authenticated_send_by_name H eng session named s = (Inr out, s) \<and> so_idempotent_replay out)"
proof -
  from assms obtain e where e: "authorize_current H session s = Inl e"
    by (cases "authorize_current H session s") auto
  have either: "declined (transaction eng body s) s \<or> (\<exists>r. transaction eng body s = (Inr r, s) \<and> P r)"
    if "\<And>r s'. body s = Inr (r, s') \<Longrightarrow> s' = s \<and> P r"
    for P and body :: "db \<Rightarrow> RepositoryError + ('a \<times> db)"
    using that by (auto simp: declined_def transaction_def split: option.splits sum.splits)
  show "declined (authenticated_send H eng session req s) s
      \<or> (\<exists>rec. authenticated_send H eng session req s = (Inr rec, s) \<and> find_by_dedupe H req s = Inr (Some rec))"
    unfolding authenticated_send_def
    by (rule either) (auto simp: e resolve_retry_def result_simps split: option.splits if_splits)
  show "declined (authenticated_send_by_name H eng session named s) s
      \<or> (\<exists>out. authenticated_send_by_name H eng session named s = (Inr out, s) \<and> so_idempotent_replay out)"
    unfolding authenticated_send_by_name_def
    by (rule either)
      (auto simp: e send_by_name_tx_def replay_by_name_def fresh_by_name_def Let_def result_simps split: option.splits)
qed

lemma closed_stays_closed:
  assumes "store_run H enc empty_db s" and "i \<in> set (db_instances s)" and "\<not> is_open i" and "store_run H enc s s'"
  shows "i \<in> set (db_instances s')" and "db_ok H s'"
proof -
  show "db_ok H s'" using store_run_ok [OF assms(1)] store_run_ok [OF assms(4)] by (simp add: store_okD(1))
  have "evolves s s'" using store_run_ok [OF assms(1)] store_run_ok [OF assms(4)] by simp
  then obtain i' where "i' \<in> set (db_instances s')" "instance_evolves i i'"
    using assms(2) unfolding evolves_def by (blast elim: grows_member)
  then show "i \<in> set (db_instances s')" using assms(3) by (auto simp: instance_evolves_def is_open_def)
qed

lemma closed_resume:
  assumes "db_ok H s" and "i \<in> set (db_instances s)" and "rq_prior_instance req = in_id i"
    and "ResumeSession_wf req" and "authenticated_resume H eng req s = (Inr ctx, s')"
  shows "in_membership_id i \<in> active_members s" and "rq_new_instance req \<noteq> in_id i"
proof -
  from assms(5) have tx: "resume_authenticated_tx H req s = Inr (ctx, s')"
    by (auto simp: authenticated_resume_def transaction_Inr split: sum.splits)
  from assms(1) tx obtain j m where j: "j \<in> set (db_instances s)" "in_id j = rq_prior_instance req"
    and m: "m \<in> set (db_memberships s)" "mb_id m = in_membership_id j" "is_active_member m"
    and ins: "insert_instance H (rq_new_instance req) (mb_id m) (rq_mode req)
       (rq_client_kind req) (rq_hostname req) (rq_token req) (rq_availability req)
       (rq_source req) (rq_now req) (rq_policy req)
       (close_where (\<lambda>r. in_membership_id r = mb_id m \<and> in_closed_at r = None) (as_i64 (rq_now req)) s) =
       Inr (sc_instance ctx, s')"
    by (rule resume_authenticated_tx_Inr)
  have "distinct (map in_id (db_instances s))" using assms(1) by (simp add: db_ok_def instances_ok_def)
  from distinct_map_unique [OF this j(1) assms(2)] j(2) assms(3) have "j = i" by simp
  with m show "in_membership_id i \<in> active_members s" by (auto simp: active_members_def image_iff)
  have "valid_time (rq_now req)" using assms(4) by (simp add: ResumeSession_wf_def)
  with ins have "rq_new_instance req \<notin> in_id ` set (db_instances
      (close_where (\<lambda>r. in_membership_id r = mb_id m \<and> in_closed_at r = None) (as_i64 (rq_now req)) s))"
    by (simp add: insert_instance_Inr insert_instance_row_Inr)
  moreover have "in_id ` set (db_instances (close_where p t s)) = in_id ` set (db_instances s)" for p t
    by (simp add: close_where_def update_where_def image_Un image_image close_row_def) blast
  ultimately show "rq_new_instance req \<noteq> in_id i" using assms(2) by auto
qed

text \<open>
  (C4) A session that ended never comes back. Once the instance of a session is closed, whatever
  operations follow, its credential is refused, at any time and without a change of the store, by every
  operation of the current owner: heartbeat, inbox, acknowledgement, transcript, leaving and archiving.
  It stores no message: a send is refused, or answered with the message stored before under the same key.
  What it remains good for is reading the roster, which changes nothing, and a resume, which opens another
  instance than this one, and only while the member has not left.
\<close>

theorem closed_session_never_revives:
  assumes "store_run H enc empty_db s" and "i \<in> set (db_instances s)" and "\<not> is_open i"
    and "in_id i = se_instance_id session" and "store_run H enc s s'"
  shows "declined (authenticated_heartbeat H eng session av source policy s') s'
    \<and> declined (authenticated_pending_page H eng session limit s') s'
    \<and> declined (authenticated_pending H eng session limit s') s'
    \<and> declined (authenticated_acknowledge H order eng session ids s') s'
    \<and> declined (authenticated_transcript H eng session query s') s'
    \<and> declined (authenticated_transcript_views H eng session view_query s') s'
    \<and> declined (authenticated_leave H eng session name s') s'
    \<and> declined (authenticated_archive H eng session squad s') s'
    \<and> declined (authenticated_archive_by_name H eng session name s') s'
    \<and> (declined (authenticated_send H eng session req s') s'
       \<or> (\<exists>rec. authenticated_send H eng session req s' = (Inr rec, s') \<and> find_by_dedupe H req s' = Inr (Some rec)))
    \<and> (declined (authenticated_send_by_name H eng session named s') s'
       \<or> (\<exists>out. authenticated_send_by_name H eng session named s' = (Inr out, s') \<and> so_idempotent_replay out))
    \<and> snd (authenticated_roster H eng session name s') = s'
    \<and> (\<forall>resume ctx s''. rq_prior_instance resume = se_instance_id session \<and> ResumeSession_wf resume
        \<and> authenticated_resume H eng resume s' = (Inr ctx, s'') \<longrightarrow>
        in_membership_id i \<in> active_members s' \<and> rq_new_instance resume \<noteq> se_instance_id session)"
proof -
  note i = closed_stays_closed [OF assms(1-3,5)]
  have ids: "distinct (map in_id (db_instances s'))" using i(2) by (simp add: db_ok_def instances_ok_def)
  have closed: "\<not> is_ok (authorize_current H session s')"
  proof (rule not_authorised_unless_owner [OF i(2)])
    fix j m assume "session_row session s' j m"
    then have j: "j \<in> set (db_instances s')" "in_id j = in_id i"
      using assms(4) by (simp_all add: session_row_def)
    from distinct_map_unique [OF ids j(1) i(1) j(2)] assms(3)
    show "\<not> (is_open j \<and> is_active_member m)" by simp
  qed
  have resumed: "in_membership_id i \<in> active_members s' \<and> rq_new_instance resume \<noteq> se_instance_id session"
    if "rq_prior_instance resume = se_instance_id session" "ResumeSession_wf resume"
      "authenticated_resume H eng resume s' = (Inr ctx, s'')" for resume ctx s''
    using closed_resume [OF i(2,1) _ that(2,3)] that(1) assms(4) by simp
  show ?thesis
    using not_owner_refused [OF closed] not_owner_sends_nothing [OF closed] resumed
    by (intro conjI allI impI; (elim conjE)?) (blast | simp)+
qed

section \<open>Retries\<close>

lemma message_evolves_record:
  assumes "message_evolves r r'"
  shows "message_of r' = message_of r" and "dedupe_match squad sender key r' \<longleftrightarrow> dedupe_match squad sender key r"
  using assms by (auto simp: message_evolves_def ack_row_def message_of_def dedupe_match_def)

text \<open>
  (C16) Sending is idempotent per dedupe key, for good. Once a send has committed, even if its reply
  was lost because the caller saw a failure after the commit, and whatever the store did since, any
  later send by the same sender in the same squad with the same key leaves the store unchanged. On an
  engine that does not fail it returns the first record when the semantics are the same, under whatever
  id and time, and is refused with \<open>IdempotencyConflict\<close> when they differ; on one that fails it is
  refused.
\<close>

theorem send_is_idempotent:
  assumes "store_ok H s" and "SendMessage_wf req"
    and "send_in_transaction H req s = Inr (rec, s1)"
    and "send_message_with_commit_fault H healthy req lost s = (r, s')"
    and "store_run H enc s' s''"
    and "sm_dedupe_key retry = sm_dedupe_key req"
    and "sem_squad (sm_semantics retry) = sem_squad (sm_semantics req)"
    and "sem_sender (sm_semantics retry) = sem_sender (sm_semantics req)"
  shows "snd (send_message H eng retry s'') = s''
    \<and> (if begin_fault eng = None \<and> (commit_fault eng = None \<or> sm_semantics retry \<noteq> sm_semantics req)
       then fst (send_message H eng retry s'') =
         (if sm_semantics retry = sm_semantics req then Inr rec else Inl RepositoryError.IdempotencyConflict)
       else \<not> is_ok (fst (send_message H eng retry s'')))"
proof -
  have s': "s' = s1"
    using assms(3,4) by (auto simp: send_message_with_commit_fault_def transaction_healthy split: if_splits)
  have db: "db_ok H s" using assms(1) by (rule store_okD)
  have "store_ok H s'" unfolding s' using send_store_ok [OF assms(1-3)] .
  then have ok: "db_ok H s''" and "evolves s' s''" using store_run_ok [OF assms(5)] by (simp_all add: store_okD)
  obtain q where q: "q \<in> set (db_messages s')" "message_of q = rec" "mg_semantics rec = sm_semantics req"
      "dedupe_match (sem_squad (sm_semantics req)) (sem_sender (sm_semantics req)) (sm_dedupe_key req) q"
    using committed_send_is_stored [OF db assms(3)] s' by blast
  then obtain q' where q': "q' \<in> set (db_messages s'')" "message_evolves q q'"
    using \<open>evolves s' s''\<close> unfolding evolves_def by (blast elim: grows_member)
  have "send_message H healthy retry s'' =
      ((if sm_semantics retry = sm_semantics req then Inr rec else Inl RepositoryError.IdempotencyConflict), s'')"
    using send_replays [OF ok q'(1), of retry] message_evolves_record [OF q'(2)] q assms(6-8) by auto
  then show ?thesis
    by (auto simp: send_message_def send_message_with_commit_fault_def transaction_def healthy_def
        split: option.splits sum.splits if_splits prod.splits)
qed

section \<open>A concrete run\<close>

text \<open>A squad is created, two members join, the first claims an instance and sends to the second.\<close>

lemma sample_members_reachable: "store_run sample_hash id empty_db sample_members"
proof -
  have "store_run sample_hash id empty_db sample_squads"
    by (rule r_into_rtranclp, rule store_step.create_squad [OF _ sample_create_run]) (simp add: eval_simps)
  also have "store_step sample_hash id sample_squads sample_members"
    by (rule store_step.join [OF _ sample_join_run]) simp
  finally show ?thesis .
qed

lemma sample_reachable: "store_run sample_hash id empty_db sample_sent"
proof -
  note sample_members_reachable
  also have "store_step sample_hash id sample_members sample_claimed"
    by (rule store_step.claim_instance [where req = sample_claim and eng = healthy and entropy = "Some ''tok''"])
      (simp_all add: sample_claim_run prod_eq_iff)
  also have "store_step sample_hash id sample_claimed sample_pair"
    by (rule store_step.join [OF _ sample_pair_run]) (simp add: eval_simps)
  also have "store_step sample_hash id sample_pair sample_sent"
    by (rule store_step.send_message [OF _ sample_send_message_run(1)]) simp
  finally show ?thesis .
qed

theorem reachable_store_is_consistent_witness:
  "\<exists>r \<in> set (db_messages sample_sent). ms_body_hash r = sample_hash (ms_body r)
     \<and> has_membership sample_sent (ms_sender_membership_id r) (ms_squad_id r)"
proof -
  have "\<exists>r. r \<in> set (db_messages sample_sent)" by (simp add: sample_sent_def)
  with reachable_store_is_consistent [OF sample_reachable] show ?thesis by blast
qed

definition sample_left :: db where
  "sample_left = snd (leave_with_fault healthy ''sqd_1'' ''mem_1'' (UnixMillis 6000) False sample_sent)"

lemma sample_left_step: "store_step sample_hash id sample_sent sample_left"
  by (rule store_step.leave [where t = "UnixMillis 6000" and eng = healthy and sq = "''sqd_1''"
        and m = "''mem_1''" and fail = False]) (simp_all add: sample_left_def prod_eq_iff eval_simps)

theorem history_is_durable_witness:
  "\<exists>i' \<in> set (db_instances sample_left). in_id i' = ''ins_1''"
proof -
  have "store_run sample_hash id sample_sent sample_left" using sample_left_step by simp
  from history_is_durable [OF sample_reachable this]
  have "\<forall>i \<in> set (db_instances sample_sent). \<exists>i' \<in> set (db_instances sample_left). in_id i' = in_id i"
    by blast
  moreover have "sample_instance \<in> set (db_instances sample_sent)" "in_id sample_instance = ''ins_1''"
    by (simp_all add: eval_simps)
  ultimately show ?thesis by metis
qed

theorem closed_session_never_revives_witness:
  "declined (authenticated_leave sample_hash healthy (sample_session\<lparr>se_now := UnixMillis 6500\<rparr>) ''s'' sample_left)
     sample_left"
proof -
  have run: "store_run sample_hash id empty_db sample_left"
    using sample_reachable sample_left_step by (rule rtranclp.rtrancl_into_rtrancl)
  have "close_row 6000 sample_instance \<in> set (db_instances sample_left)"
      "\<not> is_open (close_row 6000 sample_instance)" "in_id (close_row 6000 sample_instance) = ''ins_1''"
    by (simp_all add: sample_left_def eval_simps)
  with closed_session_never_revives [OF run this(1,2) _ rtranclp.rtrancl_refl]
  show ?thesis by (simp add: sample_session_def)
qed

text \<open>The first message is acknowledged before it is sent again.\<close>

definition sample_acked :: db where
  "sample_acked = snd (acknowledge_messages_with_fault id healthy
     \<lparr>ak_recipient = ''mem_2'', ak_message_ids = [''msg_1''], ak_acknowledged_at = UnixMillis 7000\<rparr> False sample_sent)"

lemma sample_acked_step: "store_step sample_hash id sample_sent sample_acked"
  by (rule store_step.acknowledge_messages [where hash_order = id and eng = healthy and fail = False])
    (simp_all add: sample_acked_def prod_eq_iff enumerates_def eval_simps)

theorem send_is_idempotent_witness:
  "send_message sample_hash healthy (sample_send\<lparr>sm_id := ''msg_9'', sm_created_at := UnixMillis 9000\<rparr>)
     sample_acked =
   (Inr (message_of ((new_message_row sample_hash sample_send)\<lparr>ms_sequence := 1\<rparr>)), sample_acked)"
proof -
  have "store_run sample_hash id sample_sent sample_acked" using sample_acked_step by simp
  from send_is_idempotent [OF sample_pair_store_ok sample_send_wf sample_send_run sample_send_message_run(2) this,
      of "sample_send\<lparr>sm_id := ''msg_9'', sm_created_at := UnixMillis 9000\<rparr>" healthy]
  show ?thesis by (simp add: healthy_def prod_eq_iff)
qed

end
