(* ===== verification/Relay_Registry.thy ===== *)
theory Relay_Registry
  imports Core_Value
begin

text \<open>
  The notification registry of the relay (\<open>NotificationRegistry\<close> in \<open>psst-relay/src/lib.rs\<close>): long
  polls subscribe to the generation counter of their membership, the store worker bumps it after a
  send, and dropping a subscription releases its entry and its permit.

  The \<open>tokio\<close> primitives are a parameter: a record of the operations the registry uses, with what
  their documentation promises as \<open>tokio_ok\<close>. The state keeps the live subscriptions, which in the
  program are owned by the request handlers, so that their interleavings are sequences of steps.
\<close>

section \<open>Semaphores and watch channels\<close>

record ('sem, 'tx, 'rx) tokio =
  sem_new :: "nat \<Rightarrow> 'sem"
  try_acquire_owned :: "'sem \<Rightarrow> 'sem option"
  release_permit :: "'sem \<Rightarrow> 'sem"
  available_permits :: "'sem \<Rightarrow> nat"
  watch_channel :: "64 word \<Rightarrow> 'tx"
  watch_subscribe :: "'tx \<Rightarrow> 'rx"
  send_modify :: "(64 word \<Rightarrow> 64 word) \<Rightarrow> 'tx \<Rightarrow> 'tx"
  has_changed :: "'tx \<Rightarrow> 'rx \<Rightarrow> bool"
  mark_seen :: "'tx \<Rightarrow> 'rx \<Rightarrow> 'rx"

text \<open>
  A semaphore hands out its permits one by one and takes them back; a receiver has not seen a change
  when it subscribes or after it looked, every modification is a change for those receivers, and an
  unseen change stays unseen while further modifications happen.
\<close>

definition tokio_ok :: "('sem, 'tx, 'rx) tokio \<Rightarrow> bool" where
  "tokio_ok T \<longleftrightarrow>
     (\<forall>n. available_permits T (sem_new T n) = n)
     \<and> (\<forall>s. case try_acquire_owned T s of
           None \<Rightarrow> available_permits T s = 0
         | Some s' \<Rightarrow> available_permits T s = Suc (available_permits T s'))
     \<and> (\<forall>s. available_permits T (release_permit T s) = Suc (available_permits T s))
     \<and> (\<forall>tx. \<not> has_changed T tx (watch_subscribe T tx))
     \<and> (\<forall>tx f. has_changed T (send_modify T f tx) (watch_subscribe T tx))
     \<and> (\<forall>tx rx f. has_changed T tx rx \<longrightarrow> has_changed T (send_modify T f tx) rx)
     \<and> (\<forall>tx rx. \<not> has_changed T tx (mark_seen T tx rx))
     \<and> (\<forall>tx rx f. has_changed T (send_modify T f tx) (mark_seen T tx rx))"

section \<open>The registry\<close>

definition MAX_INBOX_WAITERS :: nat where "MAX_INBOX_WAITERS = 128"

record 'tx NotificationEntry =
  ne_generation :: 'tx
  ne_registrations :: nat

record ('sem, 'tx) NotificationRegistry =
  nr_entries :: "string \<rightharpoonup> 'tx NotificationEntry"
  nr_permits :: 'sem

record 'rx NotificationSubscription =
  ns_key :: string
  ns_receiver :: 'rx

definition bounded :: "('sem, 'tx, 'rx) tokio \<Rightarrow> ('sem, 'tx) NotificationRegistry" where
  "bounded T = \<lparr>nr_entries = Map.empty, nr_permits = sem_new T MAX_INBOX_WAITERS\<rparr>"

definition subscribe ::
  "('sem, 'tx, 'rx) tokio \<Rightarrow> MembershipId \<Rightarrow> ('sem, 'tx) NotificationRegistry
   \<Rightarrow> ('rx NotificationSubscription \<times> ('sem, 'tx) NotificationRegistry) option" where
  "subscribe T membership self =
     (case try_acquire_owned T (nr_permits self) of
        None \<Rightarrow> None
      | Some permits \<Rightarrow>
          (let entry = (case nr_entries self membership of
                 Some e \<Rightarrow> e
               | None \<Rightarrow> \<lparr>ne_generation = watch_channel T 0, ne_registrations = 0\<rparr>);
               entry = entry\<lparr>ne_registrations := ne_registrations entry + 1\<rparr> in
           Some (\<lparr>ns_key = membership, ns_receiver = watch_subscribe T (ne_generation entry)\<rparr>,
             \<lparr>nr_entries = (nr_entries self)(membership \<mapsto> entry), nr_permits = permits\<rparr>)))"

definition notify ::
  "('sem, 'tx, 'rx) tokio \<Rightarrow> MembershipId \<Rightarrow> ('sem, 'tx) NotificationRegistry \<Rightarrow> ('sem, 'tx) NotificationRegistry"
  where
  "notify T membership self =
     (case nr_entries self membership of
        None \<Rightarrow> self
      | Some entry \<Rightarrow> self\<lparr>nr_entries := (nr_entries self)(membership \<mapsto>
          entry\<lparr>ne_generation := send_modify T (\<lambda>value. value + 1) (ne_generation entry)\<rparr>)\<rparr>)"

text \<open>
  \<open>Drop for NotificationSubscription\<close>: the body, then the permit it owns. The decrement is written
  with the panic the source has on underflow, which \<open>None\<close> stands for.
\<close>

definition drop_subscription ::
  "('sem, 'tx, 'rx) tokio \<Rightarrow> 'rx NotificationSubscription \<Rightarrow> ('sem, 'tx) NotificationRegistry
   \<Rightarrow> ('sem, 'tx) NotificationRegistry option" where
  "drop_subscription T self registry =
     (let released = release_permit T (nr_permits registry) in
      case nr_entries registry (ns_key self) of
        None \<Rightarrow> Some (registry\<lparr>nr_permits := released\<rparr>)
      | Some entry \<Rightarrow>
          if ne_registrations entry = 0 then None
          else let entry = entry\<lparr>ne_registrations := ne_registrations entry - 1\<rparr> in
            if ne_registrations entry = 0
            then Some \<lparr>nr_entries = (nr_entries registry)(ns_key self := None), nr_permits = released\<rparr>
            else Some \<lparr>nr_entries = (nr_entries registry)(ns_key self \<mapsto> entry), nr_permits = released\<rparr>)"

definition registration_count :: "('sem, 'tx) NotificationRegistry \<Rightarrow> nat" where
  "registration_count self = (\<Sum>k \<in> dom (nr_entries self). ne_registrations (the (nr_entries self k)))"

section \<open>Interleavings\<close>

text \<open>
  A system state is the registry with the subscriptions that are alive. A step subscribes, notifies,
  drops a live subscription or lets a live one look at its channel (\<open>receiver.changed().await\<close>
  returning, which marks the current value as seen).
\<close>

record ('sem, 'tx, 'rx) waiting =
  wt_registry :: "('sem, 'tx) NotificationRegistry"
  wt_live :: "'rx NotificationSubscription list"

inductive registry_step ::
  "('sem, 'tx, 'rx) tokio \<Rightarrow> ('sem, 'tx, 'rx) waiting \<Rightarrow> ('sem, 'tx, 'rx) waiting \<Rightarrow> bool" for T where
  subscribe: "subscribe T m (wt_registry w) = Some (sub, reg) \<Longrightarrow>
    registry_step T w \<lparr>wt_registry = reg, wt_live = sub # wt_live w\<rparr>"
| notify: "registry_step T w (w\<lparr>wt_registry := notify T m (wt_registry w)\<rparr>)"
| drop: "wt_live w = xs @ sub # ys \<Longrightarrow> drop_subscription T sub (wt_registry w) = Some reg \<Longrightarrow>
    registry_step T w \<lparr>wt_registry = reg, wt_live = xs @ ys\<rparr>"
| look: "wt_live w = xs @ sub # ys \<Longrightarrow> nr_entries (wt_registry w) (ns_key sub) = Some entry \<Longrightarrow>
    registry_step T w (w\<lparr>wt_live := xs @ sub\<lparr>ns_receiver :=
      mark_seen T (ne_generation entry) (ns_receiver sub)\<rparr> # ys\<rparr>)"

definition initial :: "('sem, 'tx, 'rx) tokio \<Rightarrow> ('sem, 'tx, 'rx) waiting" where
  "initial T = \<lparr>wt_registry = bounded T, wt_live = []\<rparr>"

definition live_on :: "string \<Rightarrow> ('sem, 'tx, 'rx) waiting \<Rightarrow> nat" where
  "live_on k w = length (filter (\<lambda>s. ns_key s = k) (wt_live w))"

text \<open>Entries count exactly the live subscriptions of their key, and every permit is accounted for.\<close>

definition registry_ok :: "('sem, 'tx, 'rx) tokio \<Rightarrow> ('sem, 'tx, 'rx) waiting \<Rightarrow> bool" where
  "registry_ok T w \<longleftrightarrow>
     (\<forall>k. case nr_entries (wt_registry w) k of
        None \<Rightarrow> live_on k w = 0
      | Some e \<Rightarrow> ne_registrations e = live_on k w \<and> 0 < live_on k w)
     \<and> available_permits T (nr_permits (wt_registry w)) + length (wt_live w) = MAX_INBOX_WAITERS"

text \<open>Every live receiver would notice the next modification of its channel.\<close>

definition receivers_ok :: "('sem, 'tx, 'rx) tokio \<Rightarrow> ('sem, 'tx, 'rx) waiting \<Rightarrow> bool" where
  "receivers_ok T w \<longleftrightarrow>
     (\<forall>sub \<in> set (wt_live w). \<forall>e f. nr_entries (wt_registry w) (ns_key sub) = Some e \<longrightarrow>
        has_changed T (send_modify T f (ne_generation e)) (ns_receiver sub))"

lemma tokio_okD:
  assumes "tokio_ok T"
  shows "available_permits T (sem_new T n) = n"
    and "try_acquire_owned T s = None \<Longrightarrow> available_permits T s = 0"
    and "try_acquire_owned T s = Some s' \<Longrightarrow> available_permits T s = Suc (available_permits T s')"
    and "available_permits T (release_permit T s) = Suc (available_permits T s)"
    and "\<not> has_changed T tx (watch_subscribe T tx)"
    and "has_changed T (send_modify T f tx) (watch_subscribe T tx)"
    and "has_changed T tx rx \<Longrightarrow> has_changed T (send_modify T f tx) rx"
    and "\<not> has_changed T tx (mark_seen T tx rx)"
    and "has_changed T (send_modify T f tx) (mark_seen T tx rx)"
proof -
  have acq: "case try_acquire_owned T s of None \<Rightarrow> available_permits T s = 0
      | Some s' \<Rightarrow> available_permits T s = Suc (available_permits T s')"
    using assms unfolding tokio_ok_def by blast
  show "try_acquire_owned T s = None \<Longrightarrow> available_permits T s = 0"
    and "try_acquire_owned T s = Some s' \<Longrightarrow> available_permits T s = Suc (available_permits T s')"
    using acq by simp_all
qed (use assms in \<open>auto simp: tokio_ok_def\<close>)

lemma live_on_Cons:
  "live_on k \<lparr>wt_registry = r, wt_live = sub # l\<rparr> =
     (if ns_key sub = k then Suc (live_on k \<lparr>wt_registry = r', wt_live = l\<rparr>)
      else live_on k \<lparr>wt_registry = r', wt_live = l\<rparr>)"
  by (simp add: live_on_def)

lemma live_on_split:
  "wt_live w = xs @ sub # ys \<Longrightarrow>
     live_on k w = length (filter (\<lambda>s. ns_key s = k) (xs @ ys)) + (if ns_key sub = k then 1 else 0)"
  by (simp add: live_on_def)

lemma registry_ok_entry:
  assumes "registry_ok T w" and "sub \<in> set (wt_live w)"
  obtains e where "nr_entries (wt_registry w) (ns_key sub) = Some e" "ne_registrations e = live_on (ns_key sub) w"
    "0 < live_on (ns_key sub) w"
proof -
  have "0 < live_on (ns_key sub) w" using assms(2) by (auto simp: live_on_def filter_empty_conv)
  with assms(1) that show thesis by (auto simp: registry_ok_def split: option.splits dest: spec [of _ "ns_key sub"])
qed

lemma registry_okD:
  assumes "registry_ok T w"
  shows "nr_entries (wt_registry w) k = None \<Longrightarrow> live_on k w = 0"
    and "nr_entries (wt_registry w) k = Some e \<Longrightarrow> ne_registrations e = live_on k w \<and> 0 < live_on k w"
    and "available_permits T (nr_permits (wt_registry w)) + length (wt_live w) = MAX_INBOX_WAITERS"
  using assms by (auto simp: registry_ok_def split: option.splits dest: spec [of _ k])

lemma subscribe_keeps:
  assumes "tokio_ok T" and "registry_ok T w" and "receivers_ok T w"
    and "subscribe T m (wt_registry w) = Some (sub, reg)"
  shows "registry_ok T \<lparr>wt_registry = reg, wt_live = sub # wt_live w\<rparr>"
    and "receivers_ok T \<lparr>wt_registry = reg, wt_live = sub # wt_live w\<rparr>"
proof -
  define old where "old = (case nr_entries (wt_registry w) m of
      Some e \<Rightarrow> e | None \<Rightarrow> \<lparr>ne_generation = watch_channel T 0, ne_registrations = 0\<rparr>)"
  from assms(4) obtain permits where acq: "try_acquire_owned T (nr_permits (wt_registry w)) = Some permits"
    and sub: "sub = \<lparr>ns_key = m, ns_receiver = watch_subscribe T (ne_generation old)\<rparr>"
    and reg: "reg = \<lparr>nr_entries = (nr_entries (wt_registry w))(m \<mapsto> old\<lparr>ne_registrations := Suc (ne_registrations old)\<rparr>),
      nr_permits = permits\<rparr>"
    by (auto simp: subscribe_def Let_def old_def split: option.splits)
  have old_count: "ne_registrations old = live_on m w"
    using registry_okD(1,2) [OF assms(2), of m] by (auto simp: old_def split: option.splits)
  have "available_permits T (nr_permits (wt_registry w)) = Suc (available_permits T permits)"
    by (rule tokio_okD(3) [OF assms(1) acq])
  then show "registry_ok T \<lparr>wt_registry = reg, wt_live = sub # wt_live w\<rparr>"
    using registry_okD [OF assms(2)] old_count
    by (auto simp: registry_ok_def reg sub live_on_def split: option.splits)
  show "receivers_ok T \<lparr>wt_registry = reg, wt_live = sub # wt_live w\<rparr>"
    unfolding receivers_ok_def
  proof (intro ballI allI impI)
    fix s e f
    assume s: "s \<in> set (wt_live \<lparr>wt_registry = reg, wt_live = sub # wt_live w\<rparr>)"
      and e: "nr_entries (wt_registry \<lparr>wt_registry = reg, wt_live = sub # wt_live w\<rparr>) (ns_key s) = Some e"
    show "has_changed T (send_modify T f (ne_generation e)) (ns_receiver s)"
    proof (cases "s = sub")
      case True
      with e show ?thesis by (auto simp: reg sub tokio_okD(6) [OF assms(1)])
    next
      case False
      with s have live: "s \<in> set (wt_live w)" by simp
      obtain e' where "nr_entries (wt_registry w) (ns_key s) = Some e'"
        using registry_ok_entry [OF assms(2) live] .
      moreover from this e have "ne_generation e = ne_generation e'"
        by (auto simp: reg old_def split: if_splits)
      ultimately show ?thesis using assms(3) live by (auto simp: receivers_ok_def)
    qed
  qed
qed

lemma notify_keeps:
  assumes "tokio_ok T" and "registry_ok T w" and "receivers_ok T w"
  shows "registry_ok T (w\<lparr>wt_registry := notify T m (wt_registry w)\<rparr>)"
    and "receivers_ok T (w\<lparr>wt_registry := notify T m (wt_registry w)\<rparr>)"
proof -
  show "registry_ok T (w\<lparr>wt_registry := notify T m (wt_registry w)\<rparr>)"
    using registry_okD [OF assms(2)]
    by (auto simp: registry_ok_def notify_def live_on_def split: option.splits)
  show "receivers_ok T (w\<lparr>wt_registry := notify T m (wt_registry w)\<rparr>)"
    using assms(3) tokio_okD(7) [OF assms(1)]
    by (auto simp: receivers_ok_def notify_def split: option.splits if_splits)
qed

lemma look_keeps:
  assumes "tokio_ok T" and "registry_ok T w" and "receivers_ok T w"
    and "wt_live w = xs @ sub # ys" and "nr_entries (wt_registry w) (ns_key sub) = Some entry"
  shows "registry_ok T (w\<lparr>wt_live := xs @ sub\<lparr>ns_receiver := mark_seen T (ne_generation entry) (ns_receiver sub)\<rparr> # ys\<rparr>)"
    and "receivers_ok T (w\<lparr>wt_live := xs @ sub\<lparr>ns_receiver := mark_seen T (ne_generation entry) (ns_receiver sub)\<rparr> # ys\<rparr>)"
proof -
  show "registry_ok T (w\<lparr>wt_live := xs @ sub\<lparr>ns_receiver := mark_seen T (ne_generation entry) (ns_receiver sub)\<rparr> # ys\<rparr>)"
  proof -
    let ?w = "w\<lparr>wt_live := xs @ sub\<lparr>ns_receiver := mark_seen T (ne_generation entry) (ns_receiver sub)\<rparr> # ys\<rparr>"
    have "live_on k ?w = live_on k w" for k by (simp add: live_on_def assms(4))
    moreover have "length (wt_live ?w) = length (wt_live w)" by (simp add: assms(4))
    ultimately show ?thesis
      using registry_okD [OF assms(2)] by (auto simp: registry_ok_def split: option.splits)
  qed
  show "receivers_ok T (w\<lparr>wt_live := xs @ sub\<lparr>ns_receiver := mark_seen T (ne_generation entry) (ns_receiver sub)\<rparr> # ys\<rparr>)"
    using assms(3-5) tokio_okD(9) [OF assms(1)] by (auto simp: receivers_ok_def)
qed

lemma drop_keeps:
  assumes "tokio_ok T" and "registry_ok T w" and "receivers_ok T w" and "wt_live w = xs @ sub # ys"
  obtains reg where "drop_subscription T sub (wt_registry w) = Some reg"
    "registry_ok T \<lparr>wt_registry = reg, wt_live = xs @ ys\<rparr>"
    "receivers_ok T \<lparr>wt_registry = reg, wt_live = xs @ ys\<rparr>"
proof -
  have "sub \<in> set (wt_live w)" using assms(4) by simp
  with assms(2) obtain e where e: "nr_entries (wt_registry w) (ns_key sub) = Some e"
    "ne_registrations e = live_on (ns_key sub) w" "0 < live_on (ns_key sub) w"
    by (rule registry_ok_entry)
  define n where "n = length (filter (\<lambda>s. ns_key s = ns_key sub) (xs @ ys))"
  have n: "ne_registrations e = Suc n"
    using e(2) live_on_split [OF assms(4), of "ns_key sub"] by (simp add: n_def)
  define reg where "reg = \<lparr>nr_entries = (nr_entries (wt_registry w))(ns_key sub :=
      (if n = 0 then None else Some (e\<lparr>ne_registrations := n\<rparr>))),
    nr_permits = release_permit T (nr_permits (wt_registry w))\<rparr>"
  have d: "drop_subscription T sub (wt_registry w) = Some reg"
    using e(1) n by (simp add: drop_subscription_def Let_def reg_def)
  have count: "length (filter (\<lambda>s. ns_key s = k) (xs @ ys)) = live_on k w" if "k \<noteq> ns_key sub" for k
    using live_on_split [OF assms(4), of k] that by simp
  have ok: "registry_ok T \<lparr>wt_registry = reg, wt_live = xs @ ys\<rparr>"
    unfolding registry_ok_def
  proof (intro conjI allI)
    fix k
    show "case nr_entries (wt_registry \<lparr>wt_registry = reg, wt_live = xs @ ys\<rparr>) k of
        None \<Rightarrow> live_on k \<lparr>wt_registry = reg, wt_live = xs @ ys\<rparr> = 0
      | Some e \<Rightarrow> ne_registrations e = live_on k \<lparr>wt_registry = reg, wt_live = xs @ ys\<rparr>
          \<and> 0 < live_on k \<lparr>wt_registry = reg, wt_live = xs @ ys\<rparr>"
    proof (cases "k = ns_key sub")
      case True
      then show ?thesis by (simp add: reg_def live_on_def n_def)
    next
      case False
      then show ?thesis
        using registry_okD(1,2) [OF assms(2), of k] count [OF False]
        by (auto simp: reg_def live_on_def split: option.splits)
    qed
    show "available_permits T (nr_permits (wt_registry \<lparr>wt_registry = reg, wt_live = xs @ ys\<rparr>))
        + length (wt_live \<lparr>wt_registry = reg, wt_live = xs @ ys\<rparr>) = MAX_INBOX_WAITERS"
      using registry_okD(3) [OF assms(2)] assms(4) tokio_okD(4) [OF assms(1)] by (simp add: reg_def)
  qed
  have rc: "receivers_ok T \<lparr>wt_registry = reg, wt_live = xs @ ys\<rparr>"
    using assms(3,4) e(1) by (auto simp: receivers_ok_def reg_def split: if_splits)
  from that [OF d ok rc] show thesis .
qed

lemma registry_step_keeps:
  assumes "registry_step T w w'" and "tokio_ok T" and "registry_ok T w" and "receivers_ok T w"
  shows "registry_ok T w' \<and> receivers_ok T w'"
  using assms(1)
proof cases
  case (subscribe m sub reg)
  then show ?thesis using subscribe_keeps [OF assms(2-4)] by blast
next
  case (notify m)
  then show ?thesis using notify_keeps [OF assms(2-4)] by blast
next
  case (drop xs sub ys reg)
  then show ?thesis using drop_keeps [OF assms(2-4) drop(2)] by (metis option.inject)
next
  case (look xs sub ys entry)
  then show ?thesis using look_keeps [OF assms(2-4)] by blast
qed

lemma registry_reachable_ok:
  assumes "(registry_step T)\<^sup>*\<^sup>* (initial T) w" and "tokio_ok T"
  shows "registry_ok T w \<and> receivers_ok T w"
  using assms(1)
proof (induction rule: rtranclp_induct)
  case base
  show ?case
    by (simp add: initial_def bounded_def registry_ok_def receivers_ok_def live_on_def
        tokio_okD(1) [OF assms(2)])
next
  case (step w w')
  then show ?case using registry_step_keeps [OF step(2) assms(2)] by blast
qed

section \<open>What waiting requests can rely on\<close>

lemma registration_count_live:
  assumes "registry_ok T w"
  shows "registration_count (wt_registry w) = length (wt_live w)"
proof -
  have dom: "dom (nr_entries (wt_registry w)) = ns_key ` set (wt_live w)"
  proof (intro set_eqI iffI)
    fix k assume "k \<in> dom (nr_entries (wt_registry w))"
    then obtain e where "nr_entries (wt_registry w) k = Some e" by blast
    then have "0 < live_on k w" using registry_okD(2) [OF assms] by blast
    then have "filter (\<lambda>s. ns_key s = k) (wt_live w) \<noteq> []" by (simp add: live_on_def)
    then show "k \<in> ns_key ` set (wt_live w)" by (auto simp: filter_empty_conv)
  next
    fix k assume "k \<in> ns_key ` set (wt_live w)"
    then show "k \<in> dom (nr_entries (wt_registry w))" using registry_ok_entry [OF assms] by (metis domI imageE)
  qed
  have "registration_count (wt_registry w) = (\<Sum>k \<in> ns_key ` set (wt_live w). live_on k w)"
    unfolding registration_count_def dom
  proof (rule sum.cong [OF refl])
    fix k assume "k \<in> ns_key ` set (wt_live w)"
    then show "ne_registrations (the (nr_entries (wt_registry w) k)) = live_on k w"
      using registry_ok_entry [OF assms] by (metis imageE option.sel)
  qed
  also have "\<dots> = (\<Sum>k \<in> set (map ns_key (wt_live w)). count_list (map ns_key (wt_live w)) k)"
  proof (rule sum.cong)
    fix k
    show "live_on k w = count_list (map ns_key (wt_live w)) k"
      unfolding live_on_def by (induction "wt_live w" arbitrary: w) (auto simp: count_list_eq_length_filter filter_map o_def eq_commute)
  qed simp
  also have "\<dots> = length (wt_live w)" by (simp add: sum_count_set)
  finally show ?thesis .
qed

text \<open>
  The registry never leaks and never over-admits. In every interleaving of subscriptions,
  notifications, wake-ups and drops: at most 128 waiters are registered, the registry counts exactly
  the live ones and holds an entry for a membership exactly while one of them waits on it, a further
  waiter is admitted exactly while fewer than 128 are live, and dropping a live subscription never
  underflows its counter.
\<close>

theorem waiters_are_bounded_and_released:
  assumes "tokio_ok T" and "(registry_step T)\<^sup>*\<^sup>* (initial T) w"
  shows "length (wt_live w) \<le> 128
    \<and> registration_count (wt_registry w) = length (wt_live w)
    \<and> (\<forall>k. k \<in> dom (nr_entries (wt_registry w)) \<longleftrightarrow> k \<in> ns_key ` set (wt_live w))
    \<and> (subscribe T m (wt_registry w) \<noteq> None \<longleftrightarrow> length (wt_live w) < 128)
    \<and> (\<forall>sub \<in> set (wt_live w). drop_subscription T sub (wt_registry w) \<noteq> None)"
proof -
  have ok: "registry_ok T w" and rc: "receivers_ok T w"
    using registry_reachable_ok [OF assms(2,1)] by auto
  have permits: "available_permits T (nr_permits (wt_registry w)) + length (wt_live w) = 128"
    using registry_okD(3) [OF ok] by (simp add: MAX_INBOX_WAITERS_def)
  have "try_acquire_owned T (nr_permits (wt_registry w)) \<noteq> None \<longleftrightarrow> length (wt_live w) < 128"
    using permits tokio_okD(2,3) [OF assms(1), of "nr_permits (wt_registry w)"]
    by (cases "try_acquire_owned T (nr_permits (wt_registry w))") auto
  then have "subscribe T m (wt_registry w) \<noteq> None \<longleftrightarrow> length (wt_live w) < 128"
    by (auto simp: subscribe_def Let_def split: option.splits)
  moreover have "drop_subscription T sub (wt_registry w) \<noteq> None" if sub: "sub \<in> set (wt_live w)" for sub
  proof -
    obtain xs ys where "wt_live w = xs @ sub # ys" using split_list [OF sub] by blast
    from drop_keeps [OF assms(1) ok rc this] show ?thesis by (metis option.distinct(1))
  qed
  moreover have "k \<in> dom (nr_entries (wt_registry w)) \<longleftrightarrow> k \<in> ns_key ` set (wt_live w)" for k
  proof
    assume "k \<in> dom (nr_entries (wt_registry w))"
    then have "0 < live_on k w" using registry_okD(2) [OF ok] by blast
    then show "k \<in> ns_key ` set (wt_live w)" by (auto simp: live_on_def filter_empty_conv)
  next
    assume "k \<in> ns_key ` set (wt_live w)"
    then show "k \<in> dom (nr_entries (wt_registry w))" using registry_ok_entry [OF ok] by (metis domI imageE)
  qed
  ultimately show ?thesis using permits registration_count_live [OF ok] by simp
qed

text \<open>A change that a live subscription has not looked at yet.\<close>

definition unseen ::
  "('sem, 'tx, 'rx) tokio \<Rightarrow> ('sem, 'tx, 'rx) waiting \<Rightarrow> 'rx NotificationSubscription \<Rightarrow> bool" where
  "unseen T w sub \<longleftrightarrow>
     (\<exists>e. nr_entries (wt_registry w) (ns_key sub) = Some e \<and> has_changed T (ne_generation e) (ns_receiver sub))"

lemma unseen_step:
  assumes "registry_step T w w'" and "tokio_ok T" and "registry_ok T w" and "sub \<in> set (wt_live w')"
    and "unseen T w sub"
  shows "unseen T w' sub"
proof -
  from assms(5) obtain e where e: "nr_entries (wt_registry w) (ns_key sub) = Some e"
    "has_changed T (ne_generation e) (ns_receiver sub)" by (auto simp: unseen_def)
  from assms(1) show ?thesis
  proof cases
    case (subscribe m new reg)
    then show ?thesis using e by (auto simp: subscribe_def Let_def unseen_def split: option.splits)
  next
    case (notify m)
    then show ?thesis
      using e tokio_okD(7) [OF assms(2)] by (auto simp: notify_def unseen_def split: option.splits)
  next
    case (drop xs old ys reg)
    show ?thesis
    proof (cases "ns_key old = ns_key sub")
      case True
      have "sub \<in> set (xs @ ys)" using drop(1) assms(4) by simp
      then have "0 < length (filter (\<lambda>s. ns_key s = ns_key sub) (xs @ ys))"
        by (metis (mono_tags, lifting) filter_empty_conv length_greater_0_conv)
      then have "1 < ne_registrations e"
        using live_on_split [OF drop(2), of "ns_key sub"] registry_okD(2) [OF assms(3) e(1)] True by simp
      with drop(1,3) e True show ?thesis
        by (auto simp: drop_subscription_def Let_def unseen_def)
    next
      case False
      with drop(1,3) e show ?thesis
        by (auto simp: drop_subscription_def Let_def unseen_def split: option.splits if_splits)
    qed
  next
    case (look xs old ys entry)
    then show ?thesis using e by (auto simp: unseen_def)
  qed
qed

lemma notify_unseen:
  assumes "registry_ok T w" and "receivers_ok T w" and "sub \<in> set (wt_live w)"
  shows "unseen T (w\<lparr>wt_registry := notify T (ns_key sub) (wt_registry w)\<rparr>) sub"
proof -
  obtain e where "nr_entries (wt_registry w) (ns_key sub) = Some e"
    using registry_ok_entry [OF assms(1,3)] .
  with assms(2,3) show ?thesis by (auto simp: unseen_def notify_def receivers_ok_def)
qed

text \<open>
  No wake-up is lost. When a membership is notified, every subscription that was live on it has a
  change to see, whatever number of notifications came before and although the generation counter
  wraps around; and the change stays there, through any further steps of other requests, until the
  subscription looks at it or is dropped.
\<close>

theorem no_lost_wakeup:
  assumes "tokio_ok T" and "(registry_step T)\<^sup>*\<^sup>* (initial T) w" and "sub \<in> set (wt_live w)"
    and "(\<lambda>a b. registry_step T a b \<and> sub \<in> set (wt_live b))\<^sup>*\<^sup>*
      (w\<lparr>wt_registry := notify T (ns_key sub) (wt_registry w)\<rparr>) w'"
  shows "\<exists>e. nr_entries (wt_registry w') (ns_key sub) = Some e
    \<and> has_changed T (ne_generation e) (ns_receiver sub)"
proof -
  let ?w = "w\<lparr>wt_registry := notify T (ns_key sub) (wt_registry w)\<rparr>"
  have ok: "registry_ok T w" "receivers_ok T w" using registry_reachable_ok [OF assms(2,1)] by auto
  note kept = notify_keeps [OF assms(1) ok]
  have base: "unseen T ?w sub" using notify_unseen [OF ok assms(3)] .
  from assms(4) have "unseen T w' sub \<and> registry_ok T w' \<and> receivers_ok T w'"
  proof (induction rule: rtranclp_induct)
    case (step a b)
    then have s: "registry_step T a b" "sub \<in> set (wt_live b)" by simp_all
    with step show ?case
      using unseen_step [OF s(1) assms(1)] registry_step_keeps [OF s(1) assms(1)] by blast
  qed (use base kept in simp)
  then show ?thesis by (simp add: unseen_def)
qed

text \<open>Counters meet the promises of the primitives.\<close>

definition counting_tokio :: "(nat, 64 word \<times> nat, nat) tokio" where
  "counting_tokio = \<lparr>sem_new = (\<lambda>n. n), try_acquire_owned = (\<lambda>s. if s = 0 then None else Some (s - 1)),
     release_permit = Suc, available_permits = (\<lambda>s. s), watch_channel = (\<lambda>v. (v, 0)),
     watch_subscribe = snd, send_modify = (\<lambda>f (v, n). (f v, Suc n)),
     has_changed = (\<lambda>(v, n) r. r < n), mark_seen = (\<lambda>(v, n) r. n)\<rparr>"

lemma counting_tokio_ok: "tokio_ok counting_tokio"
  by (simp add: tokio_ok_def counting_tokio_def split: option.splits prod.splits)

definition sample_waiting :: "(nat, 64 word \<times> nat, nat) waiting" where
  "sample_waiting = \<lparr>wt_registry = \<lparr>nr_entries = [''mem_1'' \<mapsto> \<lparr>ne_generation = (0, 0), ne_registrations = 1\<rparr>],
     nr_permits = 127\<rparr>, wt_live = [\<lparr>ns_key = ''mem_1'', ns_receiver = 0\<rparr>]\<rparr>"

lemma sample_waiting_reachable: "(registry_step counting_tokio)\<^sup>*\<^sup>* (initial counting_tokio) sample_waiting"
proof -
  have "registry_step counting_tokio (initial counting_tokio)
      \<lparr>wt_registry = wt_registry sample_waiting,
       wt_live = \<lparr>ns_key = ''mem_1'', ns_receiver = 0\<rparr> # wt_live (initial counting_tokio)\<rparr>"
    by (rule registry_step.subscribe [where m = "''mem_1''"])
      (simp add: subscribe_def initial_def bounded_def counting_tokio_def sample_waiting_def
        MAX_INBOX_WAITERS_def Let_def)
  then show ?thesis by (simp add: sample_waiting_def initial_def r_into_rtranclp)
qed

theorem waiters_are_bounded_and_released_witness:
  "registration_count (wt_registry sample_waiting) = 1
   \<and> subscribe counting_tokio ''mem_2'' (wt_registry sample_waiting) \<noteq> None"
  using waiters_are_bounded_and_released [OF counting_tokio_ok sample_waiting_reachable]
  by (simp add: sample_waiting_def)

theorem no_lost_wakeup_witness:
  "\<exists>e. nr_entries (notify counting_tokio ''mem_1'' (wt_registry sample_waiting)) ''mem_1'' = Some e
     \<and> has_changed counting_tokio (ne_generation e) 0"
proof -
  have "\<lparr>ns_key = ''mem_1'', ns_receiver = 0\<rparr> \<in> set (wt_live sample_waiting)"
    by (simp add: sample_waiting_def)
  from no_lost_wakeup [OF counting_tokio_ok sample_waiting_reachable this rtranclp.rtrancl_refl]
  show ?thesis by simp
qed

end
