(* ===== verification/Relay_Worker.thy ===== *)
theory Relay_Worker
  imports Store_Machine Relay_Registry
begin

text \<open>
  The store worker of the relay (\<open>StoreWorker\<close> in \<open>psst-relay/src/lib.rs\<close>): request handlers put
  commands on a bounded channel, one thread takes them off, runs them on the store and answers on a
  one-shot channel. A command on the channel is paired with the number of its one-shot channel; what
  the channel delivers, or that it was dropped, is a \<open>Reply\<close>. Every iteration of the thread gets what
  it observes of its surroundings (clock, engine, entropy, the order of a hash set, the outcome of
  pragma statements) as an \<open>iteration\<close>.
\<close>

section \<open>Commands\<close>

record Credential =
  cr_instance_id :: InstanceId
  cr_resume_token :: ResumeToken

record WorkerJoin =
  wj_membership :: JoinMembership
  wj_instance_id :: InstanceId
  wj_mode :: AgentMode
  wj_client_kind :: string
  wj_hostname :: "string option"
  wj_availability :: Availability
  wj_availability_source :: AvailabilitySource
  wj_lease_policy :: LeasePolicy

record WorkerCreateSquad =
  wc_id :: SquadId
  wc_name :: SquadName
  wc_mission :: Mission

record WorkerResume =
  wr_prior :: Credential
  wr_squad :: SquadName
  wr_new_instance :: InstanceId
  wr_mode :: AgentMode
  wr_client_kind :: string
  wr_hostname :: "string option"
  wr_availability :: Availability
  wr_availability_source :: AvailabilitySource
  wr_lease_policy :: LeasePolicy

datatype StoreCommand =
    Join WorkerJoin
  | ListSquads
  | CreateSquad WorkerCreateSquad
  | DescribeSquad SquadName
  | Roster Credential SquadName
  | Heartbeat Credential Availability AvailabilitySource LeasePolicy
  | Send Credential SendByName
  | Pending Credential nat
  | Acknowledge Credential "MessageId list"
  | Transcript Credential TranscriptByName
  | Leave Credential SquadName
  | Archive Credential SquadName
  | Resume WorkerResume
  | Ready
  | Checkpoint

datatype WorkerError = RateLimited | Unavailable | Store | Timeout

datatype Reply =
    JoinReply "RepositoryError + JoinAndClaimOutcome"
  | SquadsReply "RepositoryError + SquadRecord list"
  | SquadReply "RepositoryError + SquadRecord"
  | RosterReply "RepositoryError + RosterMember list"
  | HeartbeatReply "RepositoryError + InstanceRecord"
  | SendReply "RepositoryError + SendOutcome"
  | PendingReply "RepositoryError + InboxPage"
  | AcknowledgeReply "RepositoryError + unit"
  | TranscriptReply "RepositoryError + MessageView list"
  | LeaveReply "RepositoryError + LeaveOutcome"
  | ResumeReply "RepositoryError + SessionContext"
  | StatusReply "WorkerError + unit"
  | Dropped

text \<open>\<open>StoreCommand::cancel\<close>: status commands are told, the others see their channel dropped.\<close>

fun cancel :: "StoreCommand \<Rightarrow> Reply" where
  "cancel StoreCommand.Ready = StatusReply (Inl WorkerError.Unavailable)"
| "cancel StoreCommand.Checkpoint = StatusReply (Inl WorkerError.Unavailable)"
| "cancel _ = Dropped"

section \<open>Executing one command\<close>

record iteration =
  it_now :: UnixMillis
  it_engine :: engine
  it_entropy :: "string option"
  it_hash_order :: "MessageId list \<Rightarrow> MessageId list"
  it_readiness :: bool
  it_checkpoint :: bool

definition session :: "Credential \<Rightarrow> UnixMillis \<Rightarrow> AuthenticatedSession" where
  "session credential now =
     \<lparr>se_instance_id = cr_instance_id credential, se_resume_token = cr_resume_token credential, se_now = now\<rparr>"

definition join_request :: "WorkerJoin \<Rightarrow> UnixMillis \<Rightarrow> JoinAndClaim" where
  "join_request request now =
     \<lparr>jc_membership = (wj_membership request)\<lparr>jm_joined_at := now\<rparr>,
      jc_instance_id = wj_instance_id request, jc_mode = wj_mode request,
      jc_client_kind = wj_client_kind request, jc_hostname = wj_hostname request,
      jc_availability = wj_availability request, jc_availability_source = wj_availability_source request,
      jc_lease_policy = wj_lease_policy request\<rparr>"

definition create_request :: "WorkerCreateSquad \<Rightarrow> UnixMillis \<Rightarrow> CreateSquad" where
  "create_request request now =
     \<lparr>cs_id = wc_id request, cs_name = wc_name request, cs_mission = wc_mission request, cs_created_at = now\<rparr>"

definition resume_request :: "WorkerResume \<Rightarrow> UnixMillis \<Rightarrow> ResumeSession" where
  "resume_request request now =
     \<lparr>rq_prior_instance = cr_instance_id (wr_prior request), rq_token = cr_resume_token (wr_prior request),
      rq_new_instance = wr_new_instance request, rq_mode = wr_mode request,
      rq_client_kind = wr_client_kind request, rq_hostname = wr_hostname request,
      rq_availability = wr_availability request, rq_source = wr_availability_source request,
      rq_now = now, rq_policy = wr_lease_policy request, rq_expected_squad = wr_squad request\<rparr>"

definition reply_with :: "('a \<Rightarrow> Reply) \<Rightarrow> 'a \<times> db \<Rightarrow> Reply \<times> db" where
  "reply_with f res = (f (fst res), snd res)"

fun run_command ::
  "(string \<Rightarrow> string) \<Rightarrow> (string \<Rightarrow> string) \<Rightarrow> iteration \<Rightarrow> StoreCommand \<Rightarrow> db \<Rightarrow> Reply \<times> db" where
  "run_command H enc it (StoreCommand.Join request) s =
     reply_with JoinReply (join_and_claim H enc (it_entropy it) (it_engine it) (join_request request (it_now it)) s)"
| "run_command H enc it StoreCommand.ListSquads s = (SquadsReply (list_squads (it_engine it) s), s)"
| "run_command H enc it (StoreCommand.CreateSquad request) s =
     reply_with SquadReply (create_squad (it_engine it) (create_request request (it_now it)) s)"
| "run_command H enc it (StoreCommand.DescribeSquad name) s =
     (SquadReply (describe_squad (it_engine it) name s), s)"
| "run_command H enc it (StoreCommand.Roster credential name) s =
     reply_with RosterReply (authenticated_roster H (it_engine it) (session credential (it_now it)) name s)"
| "run_command H enc it (StoreCommand.Heartbeat credential av source policy) s =
     reply_with HeartbeatReply
       (authenticated_heartbeat H (it_engine it) (session credential (it_now it)) av source policy s)"
| "run_command H enc it (StoreCommand.Send credential request) s =
     reply_with SendReply
       (authenticated_send_by_name H (it_engine it) (session credential (it_now it)) request s)"
| "run_command H enc it (StoreCommand.Pending credential limit) s =
     reply_with PendingReply
       (authenticated_pending_page H (it_engine it) (session credential (it_now it)) limit s)"
| "run_command H enc it (StoreCommand.Acknowledge credential ids) s =
     reply_with AcknowledgeReply
       (authenticated_acknowledge H (it_hash_order it) (it_engine it) (session credential (it_now it)) ids s)"
| "run_command H enc it (StoreCommand.Transcript credential query) s =
     reply_with TranscriptReply
       (authenticated_transcript_views H (it_engine it) (session credential (it_now it)) query s)"
| "run_command H enc it (StoreCommand.Leave credential squad) s =
     reply_with LeaveReply (authenticated_leave H (it_engine it) (session credential (it_now it)) squad s)"
| "run_command H enc it (StoreCommand.Archive credential squad) s =
     reply_with SquadReply
       (authenticated_archive_by_name H (it_engine it) (session credential (it_now it)) squad s)"
| "run_command H enc it (StoreCommand.Resume request) s =
     reply_with ResumeReply (authenticated_resume H (it_engine it) (resume_request request (it_now it)) s)"
| "run_command H enc it StoreCommand.Ready s =
     (StatusReply (if it_readiness it then Inr () else Inl WorkerError.Store), s)"
| "run_command H enc it StoreCommand.Checkpoint s =
     (StatusReply (if it_checkpoint it then Inr () else Inl WorkerError.Store), s)"

text \<open>A send that succeeded, replays included, notifies its recipient.\<close>

definition notified ::
  "('sem, 'tx, 'rx) tokio \<Rightarrow> Reply \<Rightarrow> ('sem, 'tx) NotificationRegistry \<Rightarrow> ('sem, 'tx) NotificationRegistry" where
  "notified T reply registry =
     (case reply of
        SendReply (Inr outcome) \<Rightarrow>
          notify T (sem_recipient (mg_semantics (mv_message (so_message outcome)))) registry
      | _ \<Rightarrow> registry)"

section \<open>The channel and the thread\<close>

text \<open>
  Where the thread is: waiting in \<open>recv\<close>, having taken a command off the channel, executing it,
  past the loop, or returned.
\<close>

datatype phase =
    Receiving
  | Received nat StoreCommand
  | Executing nat StoreCommand
  | Leaving
  | Exited

text \<open>
  The state of \<open>WorkerInner\<close>, its channel and its thread, with the subscriptions the handlers hold;
  \<open>wk_accepted\<close> and \<open>wk_replies\<close> record what was put on the channel and what was answered.
\<close>

record ('sem, 'tx, 'rx) worker =
  wk_store :: db
  wk_waiting :: "('sem, 'tx, 'rx) waiting"
  wk_capacity :: nat
  wk_queue :: "(nat \<times> StoreCommand) list"
  wk_sender :: bool
  wk_accepting :: bool
  wk_shutdown :: bool
  wk_phase :: phase
  wk_replies :: "(nat \<times> Reply) list"
  wk_accepted :: "nat list"

text \<open>\<open>start_internal\<close>, once the store has been opened.\<close>

definition start_worker :: "('sem, 'tx, 'rx) tokio \<Rightarrow> nat \<Rightarrow> db \<Rightarrow> ('sem, 'tx, 'rx) worker" where
  "start_worker T capacity s =
     \<lparr>wk_store = s, wk_waiting = initial T, wk_capacity = capacity, wk_queue = [], wk_sender = True,
      wk_accepting = True, wk_shutdown = False, wk_phase = Receiving, wk_replies = [], wk_accepted = []\<rparr>"

datatype SendFailure = Full | Disconnected

text \<open>
  \<open>try_send\<close>. The \<open>accepting\<close> flag is loaded before the sender is locked, so the value that was
  loaded is an argument; the channel refuses when it is full or its receiver is gone. The capacity
  is positive, which \<open>RelayConfig::validate\<close> demands.
\<close>

definition try_send ::
  "bool \<Rightarrow> nat \<Rightarrow> StoreCommand \<Rightarrow> ('sem, 'tx, 'rx) worker \<Rightarrow> SendFailure + ('sem, 'tx, 'rx) worker" where
  "try_send accepting i command w =
     rbind (ensure accepting SendFailure.Disconnected) (\<lambda>_.
     rbind (ensure (wk_sender w) SendFailure.Disconnected) (\<lambda>_.
     rbind (ensure (wk_phase w \<noteq> Exited) SendFailure.Disconnected) (\<lambda>_.
     rbind (ensure (length (wk_queue w) < wk_capacity w) SendFailure.Full) (\<lambda>_.
     Inr (w\<lparr>wk_queue := wk_queue w @ [(i, command)], wk_accepted := wk_accepted w @ [i]\<rparr>)))))"

text \<open>The three stores of \<open>begin_shutdown\<close>, one by one.\<close>

definition stop_accepting :: "('sem, 'tx, 'rx) worker \<Rightarrow> ('sem, 'tx, 'rx) worker" where
  "stop_accepting w = w\<lparr>wk_accepting := False\<rparr>"

definition raise_shutdown :: "('sem, 'tx, 'rx) worker \<Rightarrow> ('sem, 'tx, 'rx) worker" where
  "raise_shutdown w = w\<lparr>wk_shutdown := True\<rparr>"

definition take_sender :: "('sem, 'tx, 'rx) worker \<Rightarrow> ('sem, 'tx, 'rx) worker" where
  "take_sender w = w\<lparr>wk_sender := False\<rparr>"

definition begin_shutdown :: "('sem, 'tx, 'rx) worker \<Rightarrow> ('sem, 'tx, 'rx) worker" where
  "begin_shutdown w = take_sender (raise_shutdown (stop_accepting w))"

definition cancel_all :: "(nat \<times> StoreCommand) list \<Rightarrow> (nat \<times> Reply) list" where
  "cancel_all = map (\<lambda>(i, command). (i, cancel command))"

definition drop_all :: "(nat \<times> StoreCommand) list \<Rightarrow> (nat \<times> Reply) list" where
  "drop_all = map (\<lambda>(i, command). (i, Dropped))"

text \<open>
  One turn of the thread; \<open>None\<close> while it waits for a command and after it returned. It takes the
  next command; once the shutdown flag is up it cancels it with all that is queued and leaves the
  loop, otherwise it executes it. It also leaves the loop when every sender is gone and the channel
  is empty. Past the loop it checkpoints and returns, which drops the receiver with whatever was
  queued meanwhile.
\<close>

definition worker_turn ::
  "('sem, 'tx, 'rx) tokio \<Rightarrow> (string \<Rightarrow> string) \<Rightarrow> (string \<Rightarrow> string) \<Rightarrow> iteration
   \<Rightarrow> ('sem, 'tx, 'rx) worker \<Rightarrow> ('sem, 'tx, 'rx) worker option" where
  "worker_turn T H enc it w =
     (case wk_phase w of
        Receiving \<Rightarrow>
          (case wk_queue w of
             [] \<Rightarrow> if wk_sender w then None else Some (w\<lparr>wk_phase := Leaving\<rparr>)
           | (i, command) # rest \<Rightarrow> Some (w\<lparr>wk_phase := Received i command, wk_queue := rest\<rparr>))
      | Received i command \<Rightarrow>
          if wk_shutdown w then
            Some (w\<lparr>wk_phase := Leaving, wk_queue := [],
              wk_replies := wk_replies w @ cancel_all ((i, command) # wk_queue w)\<rparr>)
          else Some (w\<lparr>wk_phase := Executing i command\<rparr>)
      | Executing i command \<Rightarrow>
          (let (reply, s') = run_command H enc it command (wk_store w) in
           Some (w\<lparr>wk_store := s',
             wk_waiting := (wk_waiting w)\<lparr>wt_registry := notified T reply (wt_registry (wk_waiting w))\<rparr>,
             wk_phase := Receiving, wk_replies := wk_replies w @ [(i, reply)]\<rparr>))
      | Leaving \<Rightarrow>
          Some (w\<lparr>wk_phase := Exited, wk_queue := [], wk_replies := wk_replies w @ drop_all (wk_queue w)\<rparr>)
      | Exited \<Rightarrow> None)"

text \<open>The thread running on its own, one observation of the surroundings per turn.\<close>

primrec worker_turns ::
  "('sem, 'tx, 'rx) tokio \<Rightarrow> (string \<Rightarrow> string) \<Rightarrow> (string \<Rightarrow> string) \<Rightarrow> iteration list
   \<Rightarrow> ('sem, 'tx, 'rx) worker \<Rightarrow> ('sem, 'tx, 'rx) worker" where
  "worker_turns T H enc [] w = w"
| "worker_turns T H enc (it # its) w =
     (case worker_turn T H enc it w of None \<Rightarrow> w | Some w' \<Rightarrow> worker_turns T H enc its w')"

section \<open>Waiting for the reply\<close>

datatype DispatchError = RateLimited | Unavailable | Timeout | Store RepositoryError

datatype 'r awaited = TimedOut | ReplyDropped | Replied 'r

definition dispatch_result ::
  "SendFailure + unit \<Rightarrow> (RepositoryError + 'r) awaited \<Rightarrow> DispatchError + 'r" where
  "dispatch_result sent received =
     rbind (map_err (\<lambda>error. case error of SendFailure.Full \<Rightarrow> DispatchError.RateLimited
         | SendFailure.Disconnected \<Rightarrow> DispatchError.Unavailable) sent) (\<lambda>_.
     case received of
       TimedOut \<Rightarrow> Inl DispatchError.Timeout
     | ReplyDropped \<Rightarrow> Inl DispatchError.Unavailable
     | Replied result \<Rightarrow> map_err DispatchError.Store result)"

definition request_result :: "SendFailure + unit \<Rightarrow> (WorkerError + unit) awaited \<Rightarrow> WorkerError + unit" where
  "request_result sent received =
     rbind (map_err (\<lambda>error. case error of SendFailure.Full \<Rightarrow> WorkerError.RateLimited
         | SendFailure.Disconnected \<Rightarrow> WorkerError.Unavailable) sent) (\<lambda>_.
     case received of
       TimedOut \<Rightarrow> Inl WorkerError.Timeout
     | ReplyDropped \<Rightarrow> Inl WorkerError.Unavailable
     | Replied result \<Rightarrow> result)"

section \<open>Interleavings\<close>

text \<open>Commands whose values went through the typed constructors of the core.\<close>

fun StoreCommand_wf :: "StoreCommand \<Rightarrow> bool" where
  "StoreCommand_wf (StoreCommand.Join request) = JoinAndClaim_wf (join_request request (UnixMillis 0))"
| "StoreCommand_wf (StoreCommand.CreateSquad request) = CreateSquad_wf (create_request request (UnixMillis 0))"
| "StoreCommand_wf (StoreCommand.Heartbeat credential _ _ _) = is_ok (InstanceId_new (cr_instance_id credential))"
| "StoreCommand_wf (StoreCommand.Send credential request) =
     (is_ok (InstanceId_new (cr_instance_id credential)) \<and> SendByName_wf request)"
| "StoreCommand_wf (StoreCommand.Acknowledge credential _) = is_ok (InstanceId_new (cr_instance_id credential))"
| "StoreCommand_wf (StoreCommand.Leave credential _) = is_ok (InstanceId_new (cr_instance_id credential))"
| "StoreCommand_wf (StoreCommand.Archive credential _) = is_ok (InstanceId_new (cr_instance_id credential))"
| "StoreCommand_wf (StoreCommand.Resume request) = ResumeSession_wf (resume_request request (UnixMillis 0))"
| "StoreCommand_wf _ = True"

definition iteration_ok :: "iteration \<Rightarrow> bool" where
  "iteration_ok it \<longleftrightarrow> valid_time (it_now it) \<and> enumerates (it_hash_order it)"

text \<open>
  What can happen next: a handler puts a command on the channel, after it loaded \<open>accepting\<close> at any
  earlier moment; a handler subscribes, looks at or drops a subscription; a thread in
  \<open>begin_shutdown\<close> makes one of its stores, or the last handle of the worker is dropped, which drops
  the sender; the worker thread takes a turn.
\<close>

inductive worker_step ::
  "('sem, 'tx, 'rx) tokio \<Rightarrow> (string \<Rightarrow> string) \<Rightarrow> (string \<Rightarrow> string)
   \<Rightarrow> ('sem, 'tx, 'rx) worker \<Rightarrow> ('sem, 'tx, 'rx) worker \<Rightarrow> bool" for T H enc where
  submit: "try_send accepting i command w = Inr w' \<Longrightarrow> i \<notin> set (wk_accepted w) \<Longrightarrow>
    StoreCommand_wf command \<Longrightarrow> worker_step T H enc w w'"
| waiter: "registry_step T (wk_waiting w) v \<Longrightarrow> worker_step T H enc w (w\<lparr>wk_waiting := v\<rparr>)"
| stop_accepting: "worker_step T H enc w (stop_accepting w)"
| raise_shutdown: "worker_step T H enc w (raise_shutdown w)"
| take_sender: "worker_step T H enc w (take_sender w)"
| work: "iteration_ok it \<Longrightarrow> worker_turn T H enc it w = Some w' \<Longrightarrow> worker_step T H enc w w'"

abbreviation worker_run ::
  "('sem, 'tx, 'rx) tokio \<Rightarrow> (string \<Rightarrow> string) \<Rightarrow> (string \<Rightarrow> string)
   \<Rightarrow> ('sem, 'tx, 'rx) worker \<Rightarrow> ('sem, 'tx, 'rx) worker \<Rightarrow> bool" where
  "worker_run T H enc \<equiv> (worker_step T H enc)\<^sup>*\<^sup>*"

section \<open>The worker's invariant\<close>

fun held :: "phase \<Rightarrow> (nat \<times> StoreCommand) list" where
  "held (Received i command) = [(i, command)]"
| "held (Executing i command) = [(i, command)]"
| "held _ = []"

text \<open>
  What was answered, then what the thread holds, then what is queued, is what was accepted, in that
  order and each once.
\<close>

definition worker_ok :: "('sem, 'tx, 'rx) worker \<Rightarrow> bool" where
  "worker_ok w \<longleftrightarrow>
     map fst (wk_replies w) @ map fst (held (wk_phase w)) @ map fst (wk_queue w) = wk_accepted w
     \<and> distinct (wk_accepted w)
     \<and> length (wk_queue w) \<le> wk_capacity w
     \<and> (wk_phase w = Exited \<longrightarrow> wk_queue w = [])
     \<and> list_all (StoreCommand_wf \<circ> snd) (held (wk_phase w) @ wk_queue w)"

lemma cancel_all_fst [simp]: "map fst (cancel_all q) = map fst q"
  by (auto simp: cancel_all_def)

lemma drop_all_fst [simp]: "map fst (drop_all q) = map fst q"
  by (auto simp: drop_all_def)

lemma try_send_Inr:
  "try_send accepting i command w = Inr w' \<longleftrightarrow>
     accepting \<and> wk_sender w \<and> wk_phase w \<noteq> Exited \<and> length (wk_queue w) < wk_capacity w
     \<and> w' = w\<lparr>wk_queue := wk_queue w @ [(i, command)], wk_accepted := wk_accepted w @ [i]\<rparr>"
  by (auto simp: try_send_def result_simps)

text \<open>The turns the thread can take.\<close>

lemma worker_turn_cases:
  assumes "worker_turn T H enc it w = Some w'"
  obtains (take) i command rest where "wk_phase w = Receiving" "wk_queue w = (i, command) # rest"
      "w' = w\<lparr>wk_phase := Received i command, wk_queue := rest\<rparr>"
  | (hang_up) "wk_phase w = Receiving" "wk_queue w = []" "\<not> wk_sender w" "w' = w\<lparr>wk_phase := Leaving\<rparr>"
  | (cancel) i command where "wk_phase w = Received i command" "wk_shutdown w"
      "w' = w\<lparr>wk_phase := Leaving, wk_queue := [],
         wk_replies := wk_replies w @ cancel_all ((i, command) # wk_queue w)\<rparr>"
  | (commence) i command where "wk_phase w = Received i command" "\<not> wk_shutdown w"
      "w' = w\<lparr>wk_phase := Executing i command\<rparr>"
  | (execute) i command reply s' where "wk_phase w = Executing i command"
      "run_command H enc it command (wk_store w) = (reply, s')"
      "w' = w\<lparr>wk_store := s',
         wk_waiting := (wk_waiting w)\<lparr>wt_registry := notified T reply (wt_registry (wk_waiting w))\<rparr>,
         wk_phase := Receiving, wk_replies := wk_replies w @ [(i, reply)]\<rparr>"
  | (return) "wk_phase w = Leaving"
      "w' = w\<lparr>wk_phase := Exited, wk_queue := [], wk_replies := wk_replies w @ drop_all (wk_queue w)\<rparr>"
proof (cases "wk_phase w")
  case Receiving
  show thesis
  proof (cases "wk_queue w")
    case Nil
    with Receiving assms hang_up show thesis by (simp add: worker_turn_def split: if_splits)
  next
    case (Cons x rest)
    with Receiving assms take [of "fst x" "snd x" rest] show thesis
      by (cases x) (simp add: worker_turn_def)
  qed
next
  case (Received i command)
  with assms cancel commence show thesis by (simp add: worker_turn_def split: if_splits)
next
  case (Executing i command)
  with assms execute [OF Executing] show thesis
    by (cases "run_command H enc it command (wk_store w)") (simp add: worker_turn_def)
next
  case Leaving
  with assms return show thesis by (simp add: worker_turn_def)
qed (use assms in \<open>simp add: worker_turn_def\<close>)

lemma worker_turn_ok:
  assumes "worker_turn T H enc it w = Some w'" and "worker_ok w"
  shows "worker_ok w'"
  using assms(1) by (cases rule: worker_turn_cases) (use assms(2) in \<open>auto simp: worker_ok_def\<close>)

lemma worker_step_ok:
  assumes "worker_step T H enc w w'" and "worker_ok w"
  shows "worker_ok w'"
  using assms(1)
proof cases
  case submit
  then show ?thesis using assms(2) by (auto simp: try_send_Inr worker_ok_def)
next
  case work
  then show ?thesis using assms(2) worker_turn_ok by blast
qed (use assms(2) in \<open>auto simp: worker_ok_def stop_accepting_def raise_shutdown_def take_sender_def\<close>)

lemma worker_run_ok:
  assumes "worker_run T H enc w w'" and "worker_ok w"
  shows "worker_ok w'"
  using assms by (induction rule: rtranclp_induct) (auto intro: worker_step_ok)

lemma start_worker_ok [simp]: "worker_ok (start_worker T capacity s)"
  by (simp add: start_worker_def worker_ok_def)

section \<open>Executing a command is an operation of the store\<close>

lemma request_at_now:
  "JoinAndClaim_wf (join_request r t) \<Longrightarrow> valid_time now \<Longrightarrow> JoinAndClaim_wf (join_request r now)"
  "CreateSquad_wf (create_request c t) \<Longrightarrow> valid_time now \<Longrightarrow> CreateSquad_wf (create_request c now)"
  "ResumeSession_wf (resume_request q t) \<Longrightarrow> valid_time now \<Longrightarrow> ResumeSession_wf (resume_request q now)"
  "is_ok (InstanceId_new (cr_instance_id credential)) \<Longrightarrow> valid_time now \<Longrightarrow>
     AuthenticatedSession_wf (session credential now)"
  by (simp_all add: JoinAndClaim_wf_def JoinMembership_wf_def join_request_def CreateSquad_wf_def
      create_request_def ResumeSession_wf_def resume_request_def AuthenticatedSession_wf_def session_def)

lemma reply_with_eq: "reply_with f res = (reply, s') \<longleftrightarrow> (\<exists>r. res = (r, s') \<and> reply = f r)"
  by (cases res) (auto simp: reply_with_def)

lemma run_command_step:
  assumes "iteration_ok it" and "StoreCommand_wf command" and "run_command H enc it command s = (reply, s')"
  shows "s' = s \<or> store_step H enc s s'"
proof -
  have time: "valid_time (it_now it)" and order: "enumerates (it_hash_order it)"
    using assms(1) by (simp_all add: iteration_ok_def)
  note wf = request_at_now [OF _ time]
  show ?thesis
  proof (cases command)
    case Join with assms(2,3) show ?thesis
      by (auto simp: reply_with_eq join_and_claim_def intro: store_step.join_and_claim wf(1))
  next
    case CreateSquad with assms(2,3) show ?thesis
      by (auto simp: reply_with_eq intro: store_step.create_squad wf(2))
  next
    case Roster with assms(3) show ?thesis
      using reading_operations_change_nothing(1) by (auto simp: reply_with_eq dest: arg_cong [of _ _ snd])
  next
    case Heartbeat with assms(2,3) show ?thesis
      by (auto simp: reply_with_eq intro: store_step.authenticated_heartbeat wf(4))
  next
    case Send with assms(2,3) show ?thesis
      by (auto simp: reply_with_eq intro: store_step.authenticated_send_by_name wf(4))
  next
    case Pending with assms(3) show ?thesis by (auto simp: reply_with_eq dest: arg_cong [of _ _ snd])
  next
    case Acknowledge with assms(2,3) order show ?thesis
      by (auto simp: reply_with_eq intro: store_step.authenticated_acknowledge wf(4))
  next
    case Transcript with assms(3) show ?thesis by (auto simp: reply_with_eq dest: arg_cong [of _ _ snd])
  next
    case Leave with assms(2,3) show ?thesis
      by (auto simp: reply_with_eq intro: store_step.authenticated_leave wf(4))
  next
    case Archive with assms(2,3) show ?thesis
      by (auto simp: reply_with_eq intro: store_step.authenticated_archive_by_name wf(4))
  next
    case Resume with assms(2,3) show ?thesis
      by (auto simp: reply_with_eq intro: store_step.authenticated_resume wf(3))
  qed (use assms(3) in auto)
qed

section \<open>What the worker guarantees\<close>

lemma notified_step: "(registry_step T)\<^sup>*\<^sup>* v (v\<lparr>wt_registry := notified T reply (wt_registry v)\<rparr>)"
proof (cases "notified T reply (wt_registry v) = wt_registry v")
  case False
  then obtain m where "notified T reply (wt_registry v) = notify T m (wt_registry v)"
    by (auto simp: notified_def split: Reply.splits sum.splits)
  then show ?thesis using registry_step.notify [of T v m] by auto
qed simp

lemma worker_step_refines:
  assumes "worker_step T H enc w w'" and "worker_ok w"
  shows "store_run H enc (wk_store w) (wk_store w') \<and> (registry_step T)\<^sup>*\<^sup>* (wk_waiting w) (wk_waiting w')"
  using assms(1)
proof cases
  case (work it)
  from work(2) show ?thesis
  proof (cases rule: worker_turn_cases)
    case (execute i command reply s')
    have "StoreCommand_wf command" using assms(2) execute(1) by (simp add: worker_ok_def)
    then have "s' = wk_store w \<or> store_step H enc (wk_store w) s'"
      by (rule run_command_step [OF work(1) _ execute(2)])
    then show ?thesis using notified_step [of T "wk_waiting w" reply] by (auto simp: execute(3))
  qed auto
qed (auto simp: try_send_Inr stop_accepting_def raise_shutdown_def take_sender_def)

lemma worker_run_refines:
  assumes "worker_run T H enc (start_worker T capacity s) w"
  shows "worker_ok w \<and> store_run H enc s (wk_store w) \<and> (registry_step T)\<^sup>*\<^sup>* (initial T) (wk_waiting w)"
  using assms
proof (induction rule: rtranclp_induct)
  case base
  show ?case by (simp add: start_worker_ok) (simp add: start_worker_def)
next
  case (step a b)
  then show ?case
    using worker_step_ok [OF step(2)] worker_step_refines [OF step(2)] by (blast intro: rtranclp_trans)
qed

text \<open>
  (C39) Every command that was accepted is answered at most once, in the order of acceptance, and the
  channel never holds more than its capacity; when the worker has returned, each accepted command has
  had its answer or its cancellation, so no handler waits for a reply that cannot come.
\<close>

theorem accepted_commands_are_answered_once:
  assumes "worker_run T H enc (start_worker T capacity s) w"
  shows "take (length (wk_replies w)) (wk_accepted w) = map fst (wk_replies w)
    \<and> distinct (map fst (wk_replies w))
    \<and> length (wk_queue w) \<le> wk_capacity w
    \<and> length (wk_accepted w) \<le> length (wk_replies w) + 1 + length (wk_queue w)
    \<and> (wk_phase w = Exited \<longrightarrow> map fst (wk_replies w) = wk_accepted w)"
proof -
  have ok: "worker_ok w" using worker_run_ok [OF assms] by simp
  then have acc: "wk_accepted w = map fst (wk_replies w) @ map fst (held (wk_phase w)) @ map fst (wk_queue w)"
    and "distinct (wk_accepted w)" "length (wk_queue w) \<le> wk_capacity w"
      "wk_phase w = Exited \<longrightarrow> wk_queue w = []"
    by (simp_all add: worker_ok_def)
  moreover have "length (held (wk_phase w)) \<le> 1" by (cases "wk_phase w") simp_all
  ultimately show ?thesis by auto
qed

definition cancellation :: "nat \<times> Reply \<Rightarrow> bool" where
  "cancellation x \<longleftrightarrow> snd x \<in> {Dropped, StatusReply (Inl WorkerError.Unavailable)}"

lemma cancel_all_cancels: "list_all cancellation (cancel_all q)" "list_all cancellation (drop_all q)"
proof -
  have "cancellation (i, cancel command)" for i command
    by (cases command) (simp_all add: cancellation_def)
  then show "list_all cancellation (cancel_all q)" by (auto simp: cancel_all_def list_all_iff)
qed (auto simp: drop_all_def cancellation_def list_all_iff)

definition quiescing :: "('sem, 'tx, 'rx) worker \<Rightarrow> bool" where
  "quiescing w \<longleftrightarrow> wk_shutdown w \<and> (\<forall>i command. wk_phase w \<noteq> Executing i command)"

lemma quiescing_turn:
  assumes "worker_turn T H enc it w = Some w'" and "quiescing w"
  shows "quiescing w' \<and> wk_store w' = wk_store w
    \<and> (\<exists>rs. wk_replies w' = wk_replies w @ rs \<and> list_all cancellation rs)"
  using assms(1) by (cases rule: worker_turn_cases) (use assms(2) in \<open>auto simp: quiescing_def intro: cancel_all_cancels\<close>)

lemma quiescing_step:
  assumes "worker_step T H enc w w'" and "quiescing w"
  shows "quiescing w' \<and> wk_store w' = wk_store w
    \<and> (\<exists>rs. wk_replies w' = wk_replies w @ rs \<and> list_all cancellation rs)"
  using assms(1)
proof cases
  case (work it)
  then show ?thesis using quiescing_turn [OF _ assms(2)] by blast
qed (use assms(2) in \<open>auto simp: quiescing_def try_send_Inr stop_accepting_def raise_shutdown_def take_sender_def\<close>)

lemma quiescing_turns:
  assumes "quiescing w"
  shows "wk_store (worker_turns T H enc its w) = wk_store w
    \<and> (\<exists>rs. wk_replies (worker_turns T H enc its w) = wk_replies w @ rs \<and> list_all cancellation rs)"
  using assms
proof (induction its arbitrary: w)
  case (Cons it its)
  show ?case
  proof (cases "worker_turn T H enc it w")
    case (Some w')
    then show ?thesis using quiescing_turn [OF Some Cons.prems] Cons.IH [of w'] by auto
  qed simp
qed simp

text \<open>
  Once shutdown is under way and the command in execution, if any, has ended, nothing is executed
  any more: the store stays as it is through any further steps, and every reply given from then on is
  a cancellation.
\<close>

theorem shutdown_stops_execution:
  assumes "wk_shutdown w" and "\<forall>i command. wk_phase w \<noteq> Executing i command" and "worker_run T H enc w w'"
  shows "wk_store w' = wk_store w
    \<and> (\<exists>rs. wk_replies w' = wk_replies w @ rs
        \<and> (\<forall>x \<in> set rs. snd x = Dropped \<or> snd x = StatusReply (Inl WorkerError.Unavailable)))"
proof -
  have "quiescing w' \<and> wk_store w' = wk_store w
      \<and> (\<exists>rs. wk_replies w' = wk_replies w @ rs \<and> list_all cancellation rs)"
    using assms(3)
  proof (induction rule: rtranclp_induct)
    case base show ?case using assms(1,2) by (simp add: quiescing_def)
  next
    case (step a b)
    then show ?case using quiescing_step [OF step(2)] by auto
  qed
  then show ?thesis by (auto simp: list_all_iff cancellation_def)
qed

text \<open>How many turns the thread still needs once no sender is left.\<close>

fun remaining :: "phase \<Rightarrow> nat" where
  "remaining Receiving = 2"
| "remaining (Received _ _) = 4"
| "remaining (Executing _ _) = 3"
| "remaining Leaving = 1"
| "remaining Exited = 0"

lemma worker_turn_progress:
  assumes "\<not> wk_sender w" and "wk_phase w \<noteq> Exited"
  obtains w' where "worker_turn T H enc it w = Some w'" "\<not> wk_sender w'" "wk_accepted w' = wk_accepted w"
    "3 * length (wk_queue w') + remaining (wk_phase w') < 3 * length (wk_queue w) + remaining (wk_phase w)"
proof -
  have "worker_turn T H enc it w \<noteq> None"
    using assms by (simp add: worker_turn_def split: phase.splits list.splits prod.splits)
  then obtain w' where turn: "worker_turn T H enc it w = Some w'" by blast
  from turn have "\<not> wk_sender w' \<and> wk_accepted w' = wk_accepted w
    \<and> 3 * length (wk_queue w') + remaining (wk_phase w') < 3 * length (wk_queue w) + remaining (wk_phase w)"
    by (cases rule: worker_turn_cases) (use assms in simp_all)
  with turn that show thesis by blast
qed

lemma worker_turns_exit:
  assumes "worker_ok w" and "\<not> wk_sender w" and "3 * length (wk_queue w) + remaining (wk_phase w) \<le> length its"
  shows "wk_phase (worker_turns T H enc its w) = Exited
    \<and> worker_ok (worker_turns T H enc its w) \<and> wk_accepted (worker_turns T H enc its w) = wk_accepted w"
  using assms
proof (induction its arbitrary: w)
  case Nil
  then show ?case by (cases "wk_phase w") simp_all
next
  case (Cons it its)
  show ?case
  proof (cases "wk_phase w = Exited")
    case True
    with Cons.prems(1) show ?thesis by (simp add: worker_turn_def)
  next
    case False
    with Cons.prems(2) obtain w' where w': "worker_turn T H enc it w = Some w'" "\<not> wk_sender w'"
      "wk_accepted w' = wk_accepted w"
      "3 * length (wk_queue w') + remaining (wk_phase w') < 3 * length (wk_queue w) + remaining (wk_phase w)"
      by (rule worker_turn_progress)
    moreover have "worker_ok w'" using worker_turn_ok [OF w'(1) Cons.prems(1)] .
    ultimately show ?thesis using Cons.IH [of w'] Cons.prems(3) by simp
  qed
qed

text \<open>
  (C5) Shutdown ends, and ends what runs. From any reachable state in which shutdown was raised and the sender taken,
  the thread is never stuck and returns within three turns for every queued command and four more, whatever it
  observes. By then every accepted command has been answered, in the order of acceptance: the one in execution, if any, with its
  own result, all others with a cancellation. The store is the one that this command left, or else unchanged, so a command
  whose caller was told of the cancellation had no effect.
\<close>

theorem worker_returns_after_shutdown:
  assumes "worker_run T H enc (start_worker T capacity s) w" and "wk_shutdown w" and "\<not> wk_sender w"
    and "3 * length (wk_queue w) + 4 \<le> length its"
  shows "wk_phase (worker_turns T H enc its w) = Exited
    \<and> map fst (wk_replies (worker_turns T H enc its w)) = wk_accepted w
    \<and> (\<exists>own cancelled. wk_replies (worker_turns T H enc its w) = wk_replies w @ own @ cancelled
        \<and> (\<forall>x \<in> set cancelled. snd x = Dropped \<or> snd x = StatusReply (Inl WorkerError.Unavailable))
        \<and> (case wk_phase w of
             Executing i command \<Rightarrow> (\<exists>reply. run_command H enc (hd its) command (wk_store w) = (reply, wk_store (worker_turns T H enc its w))
               \<and> own = [(i, reply)])
           | _ \<Rightarrow> own = [] \<and> wk_store (worker_turns T H enc its w) = wk_store w))"
proof -
  have "remaining (wk_phase w) \<le> 4" by (cases "wk_phase w") simp_all
  then have exits: "wk_phase (worker_turns T H enc its w) = Exited \<and> worker_ok (worker_turns T H enc its w)
      \<and> wk_accepted (worker_turns T H enc its w) = wk_accepted w"
    using assms by (intro worker_turns_exit) (auto intro: worker_run_ok [OF assms(1)])
  note cancels = cancellation_def list_all_iff
  show ?thesis
  proof (cases "quiescing w")
    case True
    then have "case wk_phase w of Executing i command \<Rightarrow> False | _ \<Rightarrow> True" by (simp add: quiescing_def split: phase.splits)
    with quiescing_turns [OF True, of T H enc its] exits show ?thesis
      by (auto simp: worker_ok_def cancels split: phase.splits)
  next
    case False
    then obtain i command where phase: "wk_phase w = Executing i command" using assms(2) by (auto simp: quiescing_def)
    obtain it rest where its: "its = it # rest" using assms(4) by (cases its) auto
    obtain reply s' where run: "run_command H enc it command (wk_store w) = (reply, s')" by fastforce
    then obtain w' where w': "worker_turn T H enc it w = Some w'" "wk_store w' = s'" "wk_replies w' = wk_replies w @ [(i, reply)]"
        "wk_phase w' = Receiving" "wk_shutdown w' = wk_shutdown w"
      by (simp add: worker_turn_def phase)
    then have "quiescing w'" using assms(2) by (simp add: quiescing_def)
    from quiescing_turns [OF this, of T H enc rest] obtain rs where rs: "wk_store (worker_turns T H enc its w) = s'"
        "wk_replies (worker_turns T H enc its w) = wk_replies w @ [(i, reply)] @ rs" "list_all cancellation rs"
      by (auto simp: its w')
    show ?thesis
      using exits rs run
      by (intro conjI exI [of _ "[(i, reply)]"] exI [of _ rs]) (auto simp: worker_ok_def phase its cancels)
  qed
qed

lemma sent_by_name_is_stored:
  assumes "db_ok H s" and "AuthenticatedSession_wf se" and "SendByName_wf req"
    and "authenticated_send_by_name H eng se req s = (Inr out, s')"
  obtains m where "m \<in> set (db_messages s')" "mv_message (so_message out) = message_of m"
proof -
  have "send_by_name_tx H se req s = Inr (out, s')"
    using assms(4) by (simp add: authenticated_send_by_name_def transaction_Inr)
  with assms(1-3) obtain m where m: "m \<in> set (db_messages s')"
      "message_view_on (message_of m) s' = Inr (so_message out)" and ok: "db_ok H s'"
    by (rule send_by_name_tx_Inr) blast
  moreover have "mg_id (message_of m) = ms_id m" by (simp add: message_of_def)
  then obtain q sm rm where "message_view_on (message_of m) s' = Inr (view_of (message_of m) m q sm rm)"
    by (rule message_view_on_stored [OF ok m(1)])
  ultimately have "so_message out = view_of (message_of m) m q sm rm" by simp
  then have "mv_message (so_message out) = message_of m" by (simp add: view_of_def)
  with m(1) that show thesis by blast
qed

text \<open>
  A message is stored before its recipient is woken, and the wake-up is not lost: when the thread
  has executed a send that succeeded, the store holds the message, and every request that waits on
  the recipient's membership has a change to see.
\<close>

theorem sent_message_wakes_its_recipient:
  assumes "tokio_ok T" and "store_ok H s" and "worker_run T H enc (start_worker T capacity s) w"
    and "wk_phase w = Executing i (StoreCommand.Send credential request)"
    and "iteration_ok it" and "worker_turn T H enc it w = Some w'"
    and "wk_replies w' = wk_replies w @ [(i, SendReply (Inr out))]"
    and "sub \<in> set (wt_live (wk_waiting w'))"
    and "ns_key sub = sem_recipient (mg_semantics (mv_message (so_message out)))"
  shows "(\<exists>m \<in> set (db_messages (wk_store w')). ms_id m = mg_id (mv_message (so_message out))
      \<and> ms_recipient_membership_id m = ns_key sub)
    \<and> (\<exists>e. nr_entries (wt_registry (wk_waiting w')) (ns_key sub) = Some e
        \<and> has_changed T (ne_generation e) (ns_receiver sub))"
proof -
  from assms(6) obtain reply s' where exec:
      "run_command H enc it (StoreCommand.Send credential request) (wk_store w) = (reply, s')"
      "w' = w\<lparr>wk_store := s',
         wk_waiting := (wk_waiting w)\<lparr>wt_registry := notified T reply (wt_registry (wk_waiting w))\<rparr>,
         wk_phase := Receiving, wk_replies := wk_replies w @ [(i, reply)]\<rparr>"
    by (cases rule: worker_turn_cases) (use assms(4) in simp_all)
  then have reply: "reply = SendReply (Inr out)" using assms(7) by simp
  from worker_run_refines [OF assms(3)] have ok: "db_ok H (wk_store w)"
      "registry_ok T (wk_waiting w)" "receivers_ok T (wk_waiting w)"
    and wf: "SendByName_wf request" "is_ok (InstanceId_new (cr_instance_id credential))"
    using store_run_ok [OF _ assms(2)] registry_reachable_ok [OF _ assms(1)] assms(4)
    by (auto simp: store_okD(1) worker_ok_def)
  have "authenticated_send_by_name H (it_engine it) (session credential (it_now it)) request (wk_store w) =
      (Inr out, s')"
    using exec(1) reply by (auto simp: reply_with_eq)
  moreover have "AuthenticatedSession_wf (session credential (it_now it))"
    using request_at_now(4) [OF wf(2)] assms(5) by (simp add: iteration_ok_def)
  ultimately obtain m where "m \<in> set (db_messages s')" "mv_message (so_message out) = message_of m"
    using sent_by_name_is_stored [OF ok(1) _ wf(1)] by blast
  moreover have "unseen T (wk_waiting w') sub"
    using notify_unseen [OF ok(2,3), of sub] assms(8,9) by (simp add: exec(2) reply notified_def)
  ultimately show ?thesis using assms(9) by (auto simp: unseen_def exec(2) message_of_def)
qed

section \<open>A concrete run\<close>

text \<open>
  A request of the second member waits for messages when the first member's send is accepted, taken
  off the channel and executed.
\<close>

definition sample_iteration :: iteration where
  "sample_iteration = \<lparr>it_now = UnixMillis 5000, it_engine = healthy, it_entropy = Some ''tok'',
     it_hash_order = id, it_readiness = True, it_checkpoint = True\<rparr>"

definition sample_command :: StoreCommand where
  "sample_command = StoreCommand.Send \<lparr>cr_instance_id = ''ins_1'', cr_resume_token = ''tok''\<rparr> sample_send_by_name"

definition sample_subscriber :: "nat NotificationSubscription" where
  "sample_subscriber = \<lparr>ns_key = ''mem_2'', ns_receiver = 0\<rparr>"

definition sample_worker :: "phase \<Rightarrow> (nat \<times> StoreCommand) list \<Rightarrow> (nat, 64 word \<times> nat, nat) worker" where
  "sample_worker ph queue = (start_worker counting_tokio 4 sample_pair)\<lparr>
     wk_waiting := \<lparr>wt_registry = \<lparr>nr_entries = [''mem_2'' \<mapsto> \<lparr>ne_generation = (0, 0), ne_registrations = 1\<rparr>],
       nr_permits = 127\<rparr>, wt_live = [sample_subscriber]\<rparr>,
     wk_phase := ph, wk_queue := queue, wk_accepted := [7]\<rparr>"

lemma sample_iteration_ok [simp]: "iteration_ok sample_iteration"
  by (simp add: iteration_ok_def sample_iteration_def enumerates_def valid_time_def)

lemma sample_command_wf [simp]: "StoreCommand_wf sample_command"
  using sample_session_wf by (simp add: sample_command_def AuthenticatedSession_wf_def sample_session_def)

lemma sample_session_eq: "session \<lparr>cr_instance_id = ''ins_1'', cr_resume_token = ''tok''\<rparr> (UnixMillis 5000) = sample_session"
  by (simp add: session_def sample_session_def)

lemma sample_queued_run:
  "worker_run counting_tokio sample_hash id (start_worker counting_tokio 4 sample_pair)
     (sample_worker Receiving [(7, sample_command)])"
proof -
  let ?start = "start_worker counting_tokio 4 sample_pair"
  let ?v = "\<lparr>wt_registry = \<lparr>nr_entries = [''mem_2'' \<mapsto> \<lparr>ne_generation = (0, 0), ne_registrations = 1\<rparr>],
      nr_permits = 127\<rparr>, wt_live = sample_subscriber # wt_live (wk_waiting ?start)\<rparr>"
  have "registry_step counting_tokio (wk_waiting ?start) ?v"
    by (rule registry_step.subscribe [where m = "''mem_2''"])
      (simp add: subscribe_def initial_def bounded_def counting_tokio_def start_worker_def
        sample_subscriber_def MAX_INBOX_WAITERS_def Let_def)
  then have "worker_run counting_tokio sample_hash id ?start (?start\<lparr>wk_waiting := ?v\<rparr>)"
    by (intro r_into_rtranclp worker_step.waiter)
  also have "worker_step counting_tokio sample_hash id (?start\<lparr>wk_waiting := ?v\<rparr>)
      (sample_worker Receiving [(7, sample_command)])"
    by (rule worker_step.submit [where accepting = True and i = 7 and command = sample_command])
      (simp_all add: try_send_Inr start_worker_def sample_worker_def initial_def)
  finally show ?thesis .
qed

lemma sample_executing_run:
  "worker_run counting_tokio sample_hash id (start_worker counting_tokio 4 sample_pair)
     (sample_worker (Executing 7 sample_command) [])"
proof -
  note sample_queued_run
  also have "worker_step counting_tokio sample_hash id (sample_worker Receiving [(7, sample_command)])
      (sample_worker (Received 7 sample_command) [])"
    by (rule worker_step.work [where it = sample_iteration])
      (simp_all add: worker_turn_def sample_worker_def start_worker_def)
  also have "worker_step counting_tokio sample_hash id (sample_worker (Received 7 sample_command) [])
      (sample_worker (Executing 7 sample_command) [])"
    by (rule worker_step.work [where it = sample_iteration])
      (simp_all add: worker_turn_def sample_worker_def start_worker_def)
  finally show ?thesis .
qed

theorem accepted_commands_are_answered_once_witness:
  "length (wk_accepted (sample_worker Receiving [(7, sample_command)])) \<le> 0 + 1 + 1"
  using accepted_commands_are_answered_once [OF sample_queued_run]
  by (simp add: sample_worker_def start_worker_def)

theorem shutdown_stops_execution_witness:
  "wk_store (worker_turns counting_tokio sample_hash id [sample_iteration, sample_iteration]
      (begin_shutdown (sample_worker Receiving [(7, sample_command)]))) = sample_pair"
proof -
  let ?w = "begin_shutdown (sample_worker Receiving [(7, sample_command)])"
  let ?step = "worker_step counting_tokio sample_hash id"
  obtain w1 w2 where turns: "worker_turn counting_tokio sample_hash id sample_iteration ?w = Some w1"
      "worker_turn counting_tokio sample_hash id sample_iteration w1 = Some w2"
    by (simp add: worker_turn_def sample_worker_def start_worker_def begin_shutdown_def
        stop_accepting_def raise_shutdown_def take_sender_def)
  then have "?step ?w w1" and "?step w1 w2" by (simp_all add: worker_step.work [OF sample_iteration_ok])
  then have "worker_run counting_tokio sample_hash id ?w w2"
    by (rule converse_rtranclp_into_rtranclp [OF _ r_into_rtranclp])
  with shutdown_stops_execution [of ?w counting_tokio sample_hash id w2] turns show ?thesis
    by (simp add: sample_worker_def start_worker_def begin_shutdown_def stop_accepting_def
        raise_shutdown_def take_sender_def)
qed

theorem worker_returns_after_shutdown_witness:
  "wk_phase (worker_turns counting_tokio sample_hash id (replicate 7 sample_iteration)
      (begin_shutdown (sample_worker Receiving [(7, sample_command)]))) = Exited
    \<and> wk_store (worker_turns counting_tokio sample_hash id (replicate 7 sample_iteration)
      (begin_shutdown (sample_worker Receiving [(7, sample_command)]))) = sample_pair"
proof -
  let ?w = "sample_worker Receiving [(7, sample_command)]"
  let ?step = "worker_step counting_tokio sample_hash id"
  note sample_queued_run
  also have "?step ?w (stop_accepting ?w)" by (rule worker_step.stop_accepting)
  also have "?step (stop_accepting ?w) (raise_shutdown (stop_accepting ?w))" by (rule worker_step.raise_shutdown)
  also have "?step (raise_shutdown (stop_accepting ?w)) (begin_shutdown ?w)"
    unfolding begin_shutdown_def by (rule worker_step.take_sender)
  finally have "worker_run counting_tokio sample_hash id (start_worker counting_tokio 4 sample_pair) (begin_shutdown ?w)" .
  from worker_returns_after_shutdown [OF this, of "replicate 7 sample_iteration"] show ?thesis
    by (auto simp add: sample_worker_def start_worker_def begin_shutdown_def stop_accepting_def
        raise_shutdown_def take_sender_def)
qed

theorem sent_message_wakes_its_recipient_witness:
  "\<exists>w'. worker_turn counting_tokio sample_hash id sample_iteration
      (sample_worker (Executing 7 sample_command) []) = Some w'
    \<and> (\<exists>e. nr_entries (wt_registry (wk_waiting w')) ''mem_2'' = Some e
        \<and> has_changed counting_tokio (ne_generation e) 0)"
proof -
  let ?w = "sample_worker (Executing 7 sample_command) []"
  obtain out where run: "authenticated_send_by_name sample_hash healthy sample_session sample_send_by_name sample_pair =
      (Inr out, sample_sent)" and rcp: "sem_recipient (mg_semantics (mv_message (so_message out))) = ''mem_2''"
    by (simp add: eval_simps)
  have cmd: "run_command sample_hash id sample_iteration sample_command sample_pair =
      (SendReply (Inr out), sample_sent)"
    by (simp add: sample_command_def sample_iteration_def sample_session_eq run reply_with_def)
  obtain w' where turn: "worker_turn counting_tokio sample_hash id sample_iteration ?w = Some w'"
      "wk_replies w' = wk_replies ?w @ [(7, SendReply (Inr out))]" "sample_subscriber \<in> set (wt_live (wk_waiting w'))"
    using cmd by (simp add: worker_turn_def sample_worker_def start_worker_def)
  have ph: "wk_phase ?w = Executing 7 (StoreCommand.Send \<lparr>cr_instance_id = ''ins_1'', cr_resume_token = ''tok''\<rparr>
      sample_send_by_name)"
    by (simp add: sample_worker_def sample_command_def)
  have "ns_key sample_subscriber = sem_recipient (mg_semantics (mv_message (so_message out)))"
    by (simp add: sample_subscriber_def rcp)
  from sent_message_wakes_its_recipient [OF counting_tokio_ok sample_pair_store_ok sample_executing_run ph
      sample_iteration_ok turn this]
  show ?thesis using turn(1) by (auto simp: sample_subscriber_def)
qed

end
