(* ===== verification/Relay_Http.thy ===== *)
theory Relay_Http
  imports Relay_Worker Protocol_Validation Protocol_Auth
begin

text \<open>
  The HTTP surface of the relay (\<open>psst-relay/src/lib.rs\<close>): configuration, the translation between
  wire types and the types of the core and the store, error responses, and the handlers. A handler
  is a preparation, which turns an extracted request into a store command or an error, a dispatch to
  the store worker, and a completion, which turns the store's answer into a response.

  Outside the program are \<open>getrandom\<close> (the bytes each call of a handler draws), the \<open>time\<close> crate
  (which instants are representable), base64, \<open>HeaderValue::from_str\<close> and the JSON serializer; they
  are fields of \<open>library\<close> and \<open>exchange\<close>.
\<close>

section \<open>Configuration\<close>

datatype LogFormat = Text | Json

text \<open>Socket addresses of the standard library, with \<open>IpAddr::is_loopback\<close>.\<close>

datatype IpAddr = V4 "32 word" | V6 "128 word"

record SocketAddr =
  sa_ip :: IpAddr
  sa_port :: "16 word"

fun is_loopback :: "IpAddr \<Rightarrow> bool" where
  "is_loopback (V4 a) \<longleftrightarrow> drop_bit 24 a = 127"
| "is_loopback (V6 a) \<longleftrightarrow> a = 1"

record RelayConfig =
  rc_bind :: SocketAddr
  rc_allow_lan :: bool
  rc_database :: string
  rc_queue_capacity :: nat
  rc_request_timeout :: Duration
  rc_shutdown_timeout :: Duration
  rc_max_body_bytes :: nat
  rc_max_connections :: nat
  rc_max_in_flight_requests :: nat
  rc_log_format :: LogFormat
  rc_log_level :: string

datatype ConfigError = LanRequiresOptIn | OutOfBounds | InvalidLogLevel

definition DEFAULT_QUEUE_CAPACITY :: nat where "DEFAULT_QUEUE_CAPACITY = 256"

text \<open>\<open>RelayConfig::local\<close> binds \<open>127.0.0.1\<close>.\<close>

definition RelayConfig_local :: "string \<Rightarrow> RelayConfig" where
  "RelayConfig_local database =
     \<lparr>rc_bind = \<lparr>sa_ip = V4 0x7f000001, sa_port = 7341\<rparr>, rc_allow_lan = False, rc_database = database,
      rc_queue_capacity = DEFAULT_QUEUE_CAPACITY, rc_request_timeout = from_secs 5,
      rc_shutdown_timeout = from_secs 10, rc_max_body_bytes = 512 * 1024, rc_max_connections = 128,
      rc_max_in_flight_requests = 128, rc_log_format = LogFormat.Text, rc_log_level = ''info''\<rparr>"

definition validate_config :: "(string \<Rightarrow> bool) \<Rightarrow> RelayConfig \<Rightarrow> ConfigError + unit" where
  "validate_config env_filter self =
     rbind (ensure (\<not> (\<not> is_loopback (sa_ip (rc_bind self)) \<and> \<not> rc_allow_lan self)) LanRequiresOptIn) (\<lambda>_.
     rbind (ensure (\<not> (rc_queue_capacity self = 0
         \<or> rc_queue_capacity self > 4096
         \<or> rc_request_timeout self = 0
         \<or> rc_shutdown_timeout self = 0
         \<or> rc_max_body_bytes self = 0
         \<or> rc_max_body_bytes self > 1024 * 1024
         \<or> rc_max_connections self = 0
         \<or> rc_max_connections self > 10000
         \<or> rc_max_in_flight_requests self = 0
         \<or> rc_max_in_flight_requests self > 10000)) OutOfBounds) (\<lambda>_.
     ensure (env_filter (rc_log_level self)) InvalidLogLevel))"

definition trusted_lan_warning :: "RelayConfig \<Rightarrow> string option" where
  "trusted_lan_warning self =
     (if \<not> is_loopback (sa_ip (rc_bind self))
      then Some ''WARNING: Psst has no TLS and trusts every process on this LAN; do not expose it to hostile networks or the internet.''
      else None)"

section \<open>The deadline of a request\<close>

text \<open>\<open>parse::<u8>\<close> on a non-empty string of ASCII digits.\<close>

definition parse_u8 :: "string \<Rightarrow> nat option" where
  "parse_u8 value = (let n = digits_value value in if n \<le> 255 then Some n else None)"

fun wait_pairs :: "nat option \<Rightarrow> string list \<Rightarrow> nat option option" where
  "wait_pairs wait [] = Some wait"
| "wait_pairs wait (pair # pairs) =
     Option.bind (split_once (CHR ''='') pair) (\<lambda>(name, value).
     if name = ''wait'' then
       if wait \<noteq> None \<or> value = [] \<or> \<not> list_all is_ascii_digit value then None
       else Option.bind (parse_u8 value) (\<lambda>seconds.
         if seconds > 30 then None else wait_pairs (Some seconds) pairs)
     else wait_pairs wait pairs)"

definition inbox_wait_allowance :: "string \<Rightarrow> string option \<Rightarrow> Duration option" where
  "inbox_wait_allowance path query =
     (if path \<noteq> ''/v1/inbox'' then None
      else Option.bind query (\<lambda>q.
        Option.bind (wait_pairs None (split_on (CHR ''&'') q)) (\<lambda>wait.
        map_option from_secs wait)))"

text \<open>\<open>timeout.saturating_add(allowance.unwrap_or_default())\<close>\<close>

definition request_deadline :: "Duration \<Rightarrow> string \<Rightarrow> string option \<Rightarrow> Duration" where
  "request_deadline timeout path query =
     min duration_max (timeout + (case inbox_wait_allowance path query of None \<Rightarrow> 0 | Some d \<Rightarrow> d))"

section \<open>Failures\<close>

type_synonym ApiFailure = ApiErrorCode

fun failure_message :: "ApiErrorCode \<Rightarrow> string" where
  "failure_message ApiErrorCode.InvalidRequest = ''The request is invalid.''"
| "failure_message ApiErrorCode.NotFound = ''The requested resource was not found.''"
| "failure_message ApiErrorCode.SquadArchived = ''The squad is archived.''"
| "failure_message ApiErrorCode.NotMember = ''The session is not an active member.''"
| "failure_message ApiErrorCode.NameInUse = ''The requested name is in use.''"
| "failure_message ApiErrorCode.LeaseExpired = ''The session lease has expired.''"
| "failure_message ApiErrorCode.RecipientNotFound = ''The recipient was not found.''"
| "failure_message ApiErrorCode.IdempotencyConflict = ''The idempotency key conflicts.''"
| "failure_message ApiErrorCode.PayloadTooLarge = ''The payload is too large.''"
| "failure_message ApiErrorCode.RateLimited = ''The relay is busy; retry later.''"
| "failure_message ApiErrorCode.DatabaseBusy = ''The database is busy; retry later.''"
| "failure_message ApiErrorCode.InternalError = ''The relay encountered an internal error.''"

definition failure_response :: "ApiFailure \<Rightarrow> nat \<times> ErrorBody" where
  "failure_response self =
     (http_status self,
      \<lparr>eb_code = self, eb_message = failure_message self,
       eb_retryable = (self \<in> {ApiErrorCode.RateLimited, ApiErrorCode.DatabaseBusy}), eb_details = []\<rparr>)"

fun failure_from_code :: "ErrorCode \<Rightarrow> ApiFailure" where
  "failure_from_code ErrorCode.InvalidRequest = ApiErrorCode.InvalidRequest"
| "failure_from_code ErrorCode.NotFound = ApiErrorCode.NotFound"
| "failure_from_code ErrorCode.SquadArchived = ApiErrorCode.SquadArchived"
| "failure_from_code ErrorCode.NotMember = ApiErrorCode.NotMember"
| "failure_from_code ErrorCode.NameInUse = ApiErrorCode.NameInUse"
| "failure_from_code ErrorCode.LeaseExpired = ApiErrorCode.LeaseExpired"
| "failure_from_code ErrorCode.RecipientNotFound = ApiErrorCode.RecipientNotFound"
| "failure_from_code ErrorCode.IdempotencyConflict = ApiErrorCode.IdempotencyConflict"
| "failure_from_code ErrorCode.PayloadTooLarge = ApiErrorCode.PayloadTooLarge"
| "failure_from_code ErrorCode.RateLimited = ApiErrorCode.RateLimited"
| "failure_from_code ErrorCode.DatabaseBusy = ApiErrorCode.DatabaseBusy"
| "failure_from_code _ = ApiErrorCode.InternalError"

fun failure_from :: "DispatchError \<Rightarrow> ApiFailure" where
  "failure_from DispatchError.RateLimited = ApiErrorCode.RateLimited"
| "failure_from DispatchError.Unavailable = ApiErrorCode.DatabaseBusy"
| "failure_from DispatchError.Timeout = ApiErrorCode.DatabaseBusy"
| "failure_from (DispatchError.Store error) = failure_from_code (repository_error_code error)"

text \<open>What the extractors \<open>ApiJson\<close> and \<open>ApiQuery\<close> make of a rejection of axum, given its status.\<close>

definition api_json :: "nat + 'a \<Rightarrow> ApiFailure + 'a" where
  "api_json = map_err (\<lambda>status. if status = 413 then ApiErrorCode.PayloadTooLarge else ApiErrorCode.InvalidRequest)"

definition api_query :: "nat + 'a \<Rightarrow> ApiFailure + 'a" where
  "api_query = map_err (\<lambda>_. ApiErrorCode.InvalidRequest)"

section \<open>Values on the wire and in the core\<close>

record library =
  li_from_nanos :: "int \<Rightarrow> OffsetDateTime option"
  li_dec :: "string \<Rightarrow> string option"
  li_enc :: "string \<Rightarrow> string"
  li_header :: "string \<Rightarrow> string option"
  li_to_json :: "InboxResponse \<Rightarrow> string option"

definition parsed :: "InvalidValue + 'a \<Rightarrow> ApiFailure + 'a" where
  "parsed = map_err (\<lambda>_. ApiErrorCode.InvalidRequest)"

text \<open>The values of the \<open>Authorization\<close> header, each \<open>None\<close> when it is not visible ASCII.\<close>

definition credential :: "library \<Rightarrow> string option list \<Rightarrow> ApiFailure + Credential" where
  "credential L headers =
     rbind (ensure (length headers = 1) ApiErrorCode.NotFound) (\<lambda>_.
     rbind (ok_or ApiErrorCode.NotFound (hd headers)) (\<lambda>value.
     rbind (map_err (\<lambda>_. ApiErrorCode.NotFound) (parse_authorization (li_dec L) (li_enc L) value)) (\<lambda>p.
     Inr \<lparr>cr_instance_id = sc_instance_id p, cr_resume_token = sc_resume_token p\<rparr>)))"

definition fresh_identifier :: "string \<Rightarrow> (string \<Rightarrow> InvalidValue + 'a) \<Rightarrow> 8 word list option \<Rightarrow> ApiFailure + 'a" where
  "fresh_identifier prefix new random =
     rbind (ok_or ApiErrorCode.InternalError random) (\<lambda>bytes.
     let suffix = fold (\<lambda>byte output. output @ hex_byte byte) bytes [] in
     parsed (new (prefix @ ''_'' @ suffix)))"

definition api_timestamp :: "library \<Rightarrow> UnixMillis \<Rightarrow> ApiFailure + ApiTimestamp" where
  "api_timestamp L value =
     (let nanos = as_i64 value * 1000000 in
      rbind (ok_or ApiErrorCode.InternalError (li_from_nanos L nanos)) (\<lambda>time.
      map_err (\<lambda>_. ApiErrorCode.InternalError) (ApiTimestamp_new time)))"

definition squad_state_dto :: "SquadState \<Rightarrow> SquadStateDto" where
  "squad_state_dto state =
     (case state of SquadState.Active \<Rightarrow> SquadStateDto.Active | SquadState.Archived \<Rightarrow> SquadStateDto.Archived)"

definition squad_dto :: "library \<Rightarrow> SquadRecord \<Rightarrow> ApiFailure + SquadSummary" where
  "squad_dto L value =
     rbind (api_timestamp L (sr_created_at value)) (\<lambda>created_at.
     rbind (traverse_opt (api_timestamp L) (sr_archived_at value)) (\<lambda>archived_at.
     Inr \<lparr>ss_id = sr_id value, ss_name = sr_name value, ss_mission = sr_mission value,
          ss_state = squad_state_dto (sr_state value), ss_created_at = created_at,
          ss_archived_at = archived_at\<rparr>))"

fun mode_from_dto :: "AgentModeDto \<Rightarrow> AgentMode" where
  "mode_from_dto AgentModeDto.Cooperative = AgentMode.Cooperative"
| "mode_from_dto AgentModeDto.Scheduled = AgentMode.Scheduled"
| "mode_from_dto AgentModeDto.Harnessed = AgentMode.Harnessed"

fun availability_from_dto :: "AvailabilityDto \<Rightarrow> Availability" where
  "availability_from_dto AvailabilityDto.Idle = Availability.Idle"
| "availability_from_dto AvailabilityDto.Busy = Availability.Busy"
| "availability_from_dto AvailabilityDto.Blocked = Availability.Blocked"
| "availability_from_dto AvailabilityDto.Unknown = Availability.Unknown"

fun source_from_dto :: "AvailabilitySourceDto \<Rightarrow> AvailabilitySource" where
  "source_from_dto AvailabilitySourceDto.SessionLifecycle = AvailabilitySource.SessionLifecycle"
| "source_from_dto AvailabilitySourceDto.McpConnection = AvailabilitySource.McpConnection"
| "source_from_dto AvailabilitySourceDto.ToolActivity = AvailabilitySource.ToolActivity"
| "source_from_dto AvailabilitySourceDto.AgentReported = AvailabilitySource.AgentReported"
| "source_from_dto AvailabilitySourceDto.Unknown = AvailabilitySource.Unknown"

fun mode_dto :: "AgentMode \<Rightarrow> AgentModeDto" where
  "mode_dto AgentMode.Cooperative = AgentModeDto.Cooperative"
| "mode_dto AgentMode.Scheduled = AgentModeDto.Scheduled"
| "mode_dto AgentMode.Harnessed = AgentModeDto.Harnessed"

fun availability_dto :: "Availability \<Rightarrow> AvailabilityDto" where
  "availability_dto Availability.Idle = AvailabilityDto.Idle"
| "availability_dto Availability.Busy = AvailabilityDto.Busy"
| "availability_dto Availability.Blocked = AvailabilityDto.Blocked"
| "availability_dto Availability.Unknown = AvailabilityDto.Unknown"

fun source_dto :: "AvailabilitySource \<Rightarrow> AvailabilitySourceDto" where
  "source_dto AvailabilitySource.SessionLifecycle = AvailabilitySourceDto.SessionLifecycle"
| "source_dto AvailabilitySource.McpConnection = AvailabilitySourceDto.McpConnection"
| "source_dto AvailabilitySource.ToolActivity = AvailabilitySourceDto.ToolActivity"
| "source_dto AvailabilitySource.AgentReported = AvailabilitySourceDto.AgentReported"
| "source_dto AvailabilitySource.Unknown = AvailabilitySourceDto.Unknown"

fun priority_from_dto :: "MessagePriorityDto \<Rightarrow> MessagePriority" where
  "priority_from_dto MessagePriorityDto.Normal = MessagePriority.Normal"
| "priority_from_dto MessagePriorityDto.High = MessagePriority.High"

fun priority_dto :: "MessagePriority \<Rightarrow> MessagePriorityDto" where
  "priority_dto MessagePriority.Normal = MessagePriorityDto.Normal"
| "priority_dto MessagePriority.High = MessagePriorityDto.High"

definition seconds :: "Duration \<Rightarrow> ApiFailure + int" where
  "seconds value = (if as_secs value \<le> 4294967295 then Inr (as_secs value) else Inl ApiErrorCode.InternalError)"

definition session_response ::
  "library \<Rightarrow> MembershipRecord \<Rightarrow> SquadRecord \<Rightarrow> InstanceRecord \<Rightarrow> ApiFailure + SessionResponse" where
  "session_response L membership squad inst =
     rbind (squad_dto L squad) (\<lambda>squad.
     rbind (seconds (ir_heartbeat_interval inst)) (\<lambda>heartbeat.
     rbind (seconds (ir_lease_duration inst)) (\<lambda>lease.
     rbind (api_timestamp L (ir_lease_expires_at inst)) (\<lambda>expires.
     Inr \<lparr>sp_agent_id = mr_agent_id membership, sp_membership_id = mr_id membership,
          sp_instance_id = ir_id inst, sp_squad = squad, sp_member_name = mr_name membership,
          sp_role = mr_role membership, sp_heartbeat_interval_seconds = heartbeat,
          sp_lease_seconds = lease, sp_lease_expires_at = expires\<rparr>))))"

text \<open>The response's body with the credential header it carries.\<close>

definition issued_response ::
  "library \<Rightarrow> SessionResponse \<Rightarrow> InstanceId \<Rightarrow> ResumeToken \<Rightarrow> ApiFailure + SessionResponse \<times> HeaderValue" where
  "issued_response L body inst token =
     rbind (map_err (\<lambda>_. ApiErrorCode.InternalError)
       (parse_session_value (li_dec L) (li_enc L) (inst @ ''.'' @ token))) (\<lambda>authority.
     rbind (map_err (\<lambda>_. ApiErrorCode.InternalError) (IssuedSessionHeaders_new (li_header L) authority)) (\<lambda>issued.
     Inr (body, issued)))"

definition message_dto :: "library \<Rightarrow> MessageView \<Rightarrow> ApiFailure + MessageDto" where
  "message_dto L value =
     (let message = mv_message value; semantics = mg_semantics message in
      rbind (map_err (\<lambda>_. ApiErrorCode.InternalError) (MessageSequence_new (mg_sequence message))) (\<lambda>sequence.
      rbind (api_timestamp L (mg_created_at message)) (\<lambda>created_at.
      rbind (traverse_opt (api_timestamp L) (mv_acknowledged_at value)) (\<lambda>acknowledged_at.
      Inr \<lparr>md_sequence = sequence, md_id = mg_id message, md_squad = mv_squad value,
           md_sender = mv_sender value, md_recipient = mv_recipient value, md_body = sem_body semantics,
           md_priority = priority_dto (sem_priority semantics), md_reply_to = sem_reply_to semantics,
           md_correlation_id = sem_correlation_id semantics, md_created_at = created_at,
           md_acknowledged_at = acknowledged_at\<rparr>))))"

definition roster_member_dto :: "library \<Rightarrow> RosterMember \<Rightarrow> ApiFailure + RosterMemberDto" where
  "roster_member_dto L value =
     rbind (api_timestamp L (obs_observed_at (rm_availability value))) (\<lambda>observed_at.
     rbind (traverse_opt (api_timestamp L) (rm_last_seen_at value)) (\<lambda>last_seen_at.
     Inr \<lparr>rmd_membership_id = mr_id (rm_membership value), rmd_name = mr_name (rm_membership value),
          rmd_role = mr_role (rm_membership value),
          rmd_membership_state = (if mr_left_at (rm_membership value) \<noteq> None
            then MembershipStateDto.Left else MembershipStateDto.Joined),
          rmd_presence = (case rm_presence value of TransportPresence.Online \<Rightarrow> TransportPresenceDto.Online
            | TransportPresence.Offline \<Rightarrow> TransportPresenceDto.Offline),
          rmd_availability = availability_dto (obs_availability (rm_availability value)),
          rmd_availability_source = source_dto (obs_source (rm_availability value)),
          rmd_availability_observed_at = observed_at,
          rmd_mode = map_option mode_dto (rm_mode value), rmd_last_seen_at = last_seen_at\<rparr>))"

definition inbox_body :: "library \<Rightarrow> InboxPage \<Rightarrow> ApiFailure + InboxResponse" where
  "inbox_body L page =
     rbind (collect_results (message_dto L) (ip_messages page)) (\<lambda>messages.
     Inr \<lparr>ibr_messages = messages, ibr_pending_count = ip_pending_count page,
          ibr_highest_priority = map_option priority_dto (ip_highest_priority page),
          ibr_oldest_message_id = ip_oldest_message_id page\<rparr>)"

definition encode_inbox :: "library \<Rightarrow> InboxPage \<Rightarrow> ApiFailure + string" where
  "encode_inbox L page =
     rbind (inbox_body L page) (\<lambda>response.
     map_err (\<lambda>_. ApiErrorCode.PayloadTooLarge) (encode_bounded_inbox (li_to_json L) response))"

section \<open>Handlers: from the request to the command\<close>

text \<open>The bytes the successive calls of \<open>getrandom\<close> in one handler deliver.\<close>

type_synonym draws = "nat \<Rightarrow> 8 word list option"

text \<open>\<open>request.validate().map_err(|_| ApiFailure(InvalidRequest))?\<close>\<close>

definition valid_request :: "InvalidValue + unit \<Rightarrow> ApiFailure + unit" where
  "valid_request = map_err (\<lambda>_. ApiErrorCode.InvalidRequest)"

definition create_squad_command :: "draws \<Rightarrow> CreateSquadRequest \<Rightarrow> ApiFailure + StoreCommand" where
  "create_squad_command random request =
     rbind (valid_request (validate_create_squad request)) (\<lambda>_.
     rbind (fresh_identifier ''sqd'' SquadId_new (random 0)) (\<lambda>id.
     rbind (parsed (SquadName_new (csq_name request))) (\<lambda>name.
     rbind (parsed (Mission_new (csq_mission request))) (\<lambda>mission.
     Inr (StoreCommand.CreateSquad \<lparr>wc_id = id, wc_name = name, wc_mission = mission\<rparr>)))))"

definition describe_squad_command :: "string \<Rightarrow> ApiFailure + StoreCommand" where
  "describe_squad_command squad =
     rbind (parsed (SquadName_new squad)) (\<lambda>name. Inr (StoreCommand.DescribeSquad name))"

definition join_squad_command :: "draws \<Rightarrow> string \<Rightarrow> JoinSquadRequest \<Rightarrow> ApiFailure + StoreCommand" where
  "join_squad_command random squad request =
     rbind (valid_request (validate_join_squad request)) (\<lambda>_.
     rbind (parsed (SquadName_new squad)) (\<lambda>squad_name.
     rbind (map_err (\<lambda>_. ApiErrorCode.InvalidRequest) (traverse_opt Mission_new (jsq_mission request))) (\<lambda>mission.
     rbind (fresh_identifier ''sqd'' SquadId_new (random 0)) (\<lambda>squad_id.
     rbind (fresh_identifier ''agt'' AgentId_new (random 1)) (\<lambda>agent_id.
     rbind (fresh_identifier ''mem'' MembershipId_new (random 2)) (\<lambda>membership_id.
     rbind (parsed (MemberName_new (jsq_name request))) (\<lambda>member_name.
     rbind (parsed (Role_new (jsq_role request))) (\<lambda>role.
     rbind (fresh_identifier ''ins'' InstanceId_new (random 3)) (\<lambda>instance_id.
     Inr (StoreCommand.Join
       \<lparr>wj_membership = \<lparr>jm_squad_name = squad_name, jm_mission_if_missing = mission,
          jm_squad_id_if_missing = squad_id, jm_agent_id = agent_id, jm_membership_id = membership_id,
          jm_member_name = member_name, jm_role = role, jm_joined_at = UnixMillis 0\<rparr>,
        wj_instance_id = instance_id, wj_mode = mode_from_dto (jsq_mode request),
        wj_client_kind = cm_kind (jsq_client request), wj_hostname = cm_hostname (jsq_client request),
        wj_availability = Availability.Unknown, wj_availability_source = AvailabilitySource.Unknown,
        wj_lease_policy = LeasePolicy_default\<rparr>))))))))))"

definition resume_squad_command ::
  "library \<Rightarrow> draws \<Rightarrow> string \<Rightarrow> string option list \<Rightarrow> ResumeSquadRequest \<Rightarrow> ApiFailure + StoreCommand" where
  "resume_squad_command L random squad headers request =
     rbind (valid_request (validate_resume_squad request)) (\<lambda>_.
     rbind (credential L headers) (\<lambda>prior.
     rbind (parsed (SquadName_new squad)) (\<lambda>name.
     rbind (fresh_identifier ''ins'' InstanceId_new (random 0)) (\<lambda>new_instance.
     Inr (StoreCommand.Resume
       \<lparr>wr_prior = prior, wr_squad = name, wr_new_instance = new_instance,
        wr_mode = mode_from_dto (rsq_mode request), wr_client_kind = cm_kind (rsq_client request),
        wr_hostname = cm_hostname (rsq_client request), wr_availability = Availability.Unknown,
        wr_availability_source = AvailabilitySource.Unknown, wr_lease_policy = LeasePolicy_default\<rparr>)))))"

definition leave_squad_command ::
  "library \<Rightarrow> string \<Rightarrow> string option list \<Rightarrow> ApiFailure + StoreCommand" where
  "leave_squad_command L squad headers =
     rbind (credential L headers) (\<lambda>c.
     rbind (parsed (SquadName_new squad)) (\<lambda>name. Inr (StoreCommand.Leave c name)))"

definition archive_squad_command ::
  "library \<Rightarrow> string \<Rightarrow> string option list \<Rightarrow> ApiFailure + StoreCommand" where
  "archive_squad_command L squad headers =
     rbind (credential L headers) (\<lambda>c.
     rbind (parsed (SquadName_new squad)) (\<lambda>name. Inr (StoreCommand.Archive c name)))"

definition roster_command :: "library \<Rightarrow> string \<Rightarrow> string option list \<Rightarrow> ApiFailure + StoreCommand" where
  "roster_command L squad headers =
     rbind (parsed (SquadName_new squad)) (\<lambda>name.
     rbind (credential L headers) (\<lambda>c. Inr (StoreCommand.Roster c name)))"

definition heartbeat_command ::
  "library \<Rightarrow> string option list \<Rightarrow> HeartbeatRequest \<Rightarrow> ApiFailure + StoreCommand" where
  "heartbeat_command L headers request =
     rbind (valid_request (validate_heartbeat request)) (\<lambda>_.
     rbind (credential L headers) (\<lambda>c.
     Inr (StoreCommand.Heartbeat c (availability_from_dto (hq_availability request))
       (source_from_dto (hq_availability_source request)) LeasePolicy_default)))"

definition send_message_command ::
  "library \<Rightarrow> draws \<Rightarrow> string option list \<Rightarrow> SendMessageRequest \<Rightarrow> ApiFailure + StoreCommand" where
  "send_message_command L random headers request =
     rbind (ensure (\<not> length (smq_body request) > MAX_BYTES) ApiErrorCode.PayloadTooLarge) (\<lambda>_.
     rbind (valid_request (validate_send_message request)) (\<lambda>_.
     rbind (credential L headers) (\<lambda>c.
     rbind (fresh_identifier ''msg'' MessageId_new (random 0)) (\<lambda>id.
     rbind (parsed (MemberName_new (smq_recipient request))) (\<lambda>recipient.
     rbind (map_err (\<lambda>_. ApiErrorCode.InvalidRequest)
       (traverse_opt MembershipId_new (smq_recipient_membership_id request))) (\<lambda>pin.
     rbind (parsed (MessageBody_new (smq_body request))) (\<lambda>body.
     rbind (parsed (DedupeKey_new (smq_dedupe_key request))) (\<lambda>dedupe_key.
     rbind (map_err (\<lambda>_. ApiErrorCode.InvalidRequest) (traverse_opt MessageId_new (smq_reply_to request))) (\<lambda>reply_to.
     rbind (map_err (\<lambda>_. ApiErrorCode.InvalidRequest)
       (traverse_opt CorrelationId_new (smq_correlation_id request))) (\<lambda>correlation_id.
     Inr (StoreCommand.Send c
       \<lparr>sn_id = id, sn_recipient = recipient, sn_recipient_membership_id = pin, sn_body = body,
        sn_priority = priority_from_dto (smq_priority request), sn_dedupe_key = dedupe_key,
        sn_reply_to = reply_to, sn_correlation_id = correlation_id\<rparr>)))))))))))"

text \<open>The loop of \<open>acknowledge_messages\<close> over the requested identifiers.\<close>

fun distinct_ids :: "MessageId set \<Rightarrow> string list \<Rightarrow> ApiFailure + MessageId list" where
  "distinct_ids seen [] = Inr []"
| "distinct_ids seen (v # vs) =
     rbind (parsed (MessageId_new v)) (\<lambda>id.
     if id \<notin> seen then rbind (distinct_ids (insert id seen) vs) (\<lambda>ids. Inr (id # ids))
     else distinct_ids seen vs)"

definition acknowledge_command ::
  "library \<Rightarrow> string option list \<Rightarrow> AckMessagesRequest \<Rightarrow> ApiFailure + StoreCommand" where
  "acknowledge_command L headers request =
     rbind (valid_request (validate_ack_request request)) (\<lambda>_.
     rbind (distinct_ids {} (akq_message_ids request)) (\<lambda>ids.
     rbind (credential L headers) (\<lambda>c. Inr (StoreCommand.Acknowledge c ids))))"

definition transcript_command ::
  "library \<Rightarrow> string \<Rightarrow> string option list \<Rightarrow> TranscriptQueryDto \<Rightarrow> ApiFailure + StoreCommand" where
  "transcript_command L squad headers query =
     rbind (ensure (1 \<le> tqd_limit query \<and> tqd_limit query \<le> 100) ApiErrorCode.InvalidRequest) (\<lambda>_.
     rbind (credential L headers) (\<lambda>c.
     rbind (parsed (SquadName_new squad)) (\<lambda>name.
     Inr (StoreCommand.Transcript c
       \<lparr>tn_squad = name, tn_after = seq_value (tqd_after query), tn_limit = tqd_limit query\<rparr>))))"

definition pending_command ::
  "library \<Rightarrow> string option list \<Rightarrow> InboxQueryDto \<Rightarrow> ApiFailure + StoreCommand" where
  "pending_command L headers query =
     rbind (ensure (1 \<le> iqd_limit query \<and> iqd_limit query \<le> 100 \<and> \<not> iqd_wait_seconds query > 30)
       ApiErrorCode.InvalidRequest) (\<lambda>_.
     rbind (credential L headers) (\<lambda>c. Inr (StoreCommand.Pending c (iqd_limit query))))"

section \<open>Handlers: the whole exchange\<close>

text \<open>
  What becomes of a dispatched command: refused by the channel, cancelled, timed out before or after
  the worker executed it, or answered.
\<close>

datatype fate = Refused SendFailure | Abandoned | Expired bool | Delivered

record exchange =
  ex_random :: draws
  ex_fate :: fate
  ex_iteration :: iteration

definition dispatch :: "fate \<Rightarrow> (Reply \<Rightarrow> RepositoryError + 'r) \<Rightarrow> Reply \<times> db \<Rightarrow> db \<Rightarrow> (DispatchError + 'r) \<times> db" where
  "dispatch fate out executed_result s =
     (case fate of
        Refused failure \<Rightarrow> (dispatch_result (Inl failure) TimedOut, s)
      | Abandoned \<Rightarrow> (dispatch_result (Inr ()) ReplyDropped, s)
      | Expired executed \<Rightarrow> (dispatch_result (Inr ()) TimedOut, if executed then snd executed_result else s)
      | Delivered \<Rightarrow> (dispatch_result (Inr ()) (Replied (out (fst executed_result))), snd executed_result))"

definition exchanged ::
  "(string \<Rightarrow> string) \<Rightarrow> library \<Rightarrow> exchange \<Rightarrow> ApiFailure + StoreCommand
   \<Rightarrow> (Reply \<Rightarrow> RepositoryError + 'r) \<Rightarrow> ('r \<Rightarrow> ApiFailure + 'resp) \<Rightarrow> db \<Rightarrow> (ApiFailure + 'resp) \<times> db" where
  "exchanged H L ex prepared out finish s =
     (case prepared of
        Inl failure \<Rightarrow> (Inl failure, s)
      | Inr command \<Rightarrow>
          (let (answer, s') = dispatch (ex_fate ex) out
                 (run_command H (li_enc L) (ex_iteration ex) command s) s in
           (rbind (map_err failure_from answer) finish, s')))"

text \<open>Each command's one-shot channel is typed; the other constructors never answer it.\<close>

fun squads_reply where
  "squads_reply (SquadsReply r) = r"
| "squads_reply _ = Inl RepositoryError.InvalidStoredData"

fun squad_reply where
  "squad_reply (SquadReply r) = r"
| "squad_reply _ = Inl RepositoryError.InvalidStoredData"

fun join_reply where
  "join_reply (JoinReply r) = r"
| "join_reply _ = Inl RepositoryError.InvalidStoredData"

fun resume_reply where
  "resume_reply (ResumeReply r) = r"
| "resume_reply _ = Inl RepositoryError.InvalidStoredData"

fun leave_reply where
  "leave_reply (LeaveReply r) = r"
| "leave_reply _ = Inl RepositoryError.InvalidStoredData"

fun roster_reply where
  "roster_reply (RosterReply r) = r"
| "roster_reply _ = Inl RepositoryError.InvalidStoredData"

fun heartbeat_reply where
  "heartbeat_reply (HeartbeatReply r) = r"
| "heartbeat_reply _ = Inl RepositoryError.InvalidStoredData"

fun send_reply where
  "send_reply (SendReply r) = r"
| "send_reply _ = Inl RepositoryError.InvalidStoredData"

fun pending_reply where
  "pending_reply (PendingReply r) = r"
| "pending_reply _ = Inl RepositoryError.InvalidStoredData"

fun acknowledge_reply where
  "acknowledge_reply (AcknowledgeReply r) = r"
| "acknowledge_reply _ = Inl RepositoryError.InvalidStoredData"

fun transcript_reply where
  "transcript_reply (TranscriptReply r) = r"
| "transcript_reply _ = Inl RepositoryError.InvalidStoredData"

definition list_squads_handler where
  "list_squads_handler H L ex =
     exchanged H L ex (Inr StoreCommand.ListSquads) squads_reply (collect_results (squad_dto L))"

definition create_squad_handler where
  "create_squad_handler H L ex request =
     exchanged H L ex (create_squad_command (ex_random ex) request) squad_reply (squad_dto L)"

definition describe_squad_handler where
  "describe_squad_handler H L ex squad =
     exchanged H L ex (describe_squad_command squad) squad_reply (squad_dto L)"

definition join_squad_handler where
  "join_squad_handler H L ex squad request =
     exchanged H L ex (join_squad_command (ex_random ex) squad request) join_reply (\<lambda>outcome.
       rbind (session_response L (jo_membership outcome) (jo_squad outcome) (co_instance (jo_claim outcome))) (\<lambda>body.
       issued_response L body (ir_id (co_instance (jo_claim outcome))) (co_resume_token (jo_claim outcome))))"

definition resume_squad_handler where
  "resume_squad_handler H L ex squad headers request =
     exchanged H L ex (resume_squad_command L (ex_random ex) squad headers request) resume_reply (\<lambda>context.
       rbind (session_response L (sc_membership context) (sc_squad context) (sc_instance context)) (\<lambda>body.
       rbind (credential L headers) (\<lambda>prior.
       issued_response L body (ir_id (sc_instance context)) (cr_resume_token prior))))"

definition leave_squad_handler where
  "leave_squad_handler H L ex squad headers =
     exchanged H L ex (leave_squad_command L squad headers) leave_reply (\<lambda>result.
       rbind (api_timestamp L (lo_left_at result)) (\<lambda>left_at.
       Inr \<lparr>lsr_membership_id = lo_membership_id result, lsr_left_at = left_at\<rparr>))"

definition archive_squad_handler where
  "archive_squad_handler H L ex squad headers =
     exchanged H L ex (archive_squad_command L squad headers) squad_reply (\<lambda>result.
       rbind (squad_dto L result) (\<lambda>squad. Inr \<lparr>asr_squad = squad\<rparr>))"

definition roster_handler where
  "roster_handler H L ex squad headers =
     exchanged H L ex (roster_command L squad headers) roster_reply (\<lambda>members.
       rbind (collect_results (roster_member_dto L) members) (\<lambda>members.
       Inr \<lparr>rp_squad = squad, rp_members = members\<rparr>))"

definition heartbeat_handler where
  "heartbeat_handler H L ex headers request =
     exchanged H L ex (heartbeat_command L headers request) heartbeat_reply (\<lambda>record.
       rbind (api_timestamp L (ir_lease_expires_at record)) (\<lambda>expires.
       rbind (seconds (ir_heartbeat_interval record)) (\<lambda>interval.
       Inr \<lparr>hp_lease_expires_at = expires, hp_heartbeat_interval_seconds = interval\<rparr>)))"

definition send_message_handler where
  "send_message_handler H L ex headers request =
     exchanged H L ex (send_message_command L (ex_random ex) headers request) send_reply (\<lambda>outcome.
       rbind (message_dto L (so_message outcome)) (\<lambda>message.
       Inr \<lparr>smr_message = message, smr_idempotent_replay = so_idempotent_replay outcome\<rparr>))"

definition acknowledge_handler where
  "acknowledge_handler H L ex headers request =
     exchanged H L ex (acknowledge_command L headers request) acknowledge_reply (\<lambda>_.
       rbind (distinct_ids {} (akq_message_ids request)) (\<lambda>acknowledged_ids.
       Inr \<lparr>akr_acknowledged_ids = acknowledged_ids\<rparr>))"

definition transcript_handler where
  "transcript_handler H L ex squad headers query =
     exchanged H L ex (transcript_command L squad headers query) transcript_reply (\<lambda>views.
       rbind (collect_results (message_dto L) views) (\<lambda>messages.
       Inr \<lparr>tsr_messages = messages,
            tsr_next_after = (if messages = [] then None else Some (md_sequence (last messages)))\<rparr>))"

text \<open>A poll that does not wait.\<close>

definition inbox_poll where
  "inbox_poll H L ex headers query =
     exchanged H L ex (pending_command L headers query) pending_reply (encode_inbox L)"

section \<open>Long polls\<close>

text \<open>
  What wakes the loop of \<open>inbox\<close>: the shutdown signal, the deadline, the registry's sender dropped, or
  a change followed by another durable check, with what that check returned.
\<close>

datatype wake = ShuttingDown | DeadlineReached | SenderGone | Changed "DispatchError + InboxPage"

fun inbox_loop :: "wake list \<Rightarrow> InboxPage \<Rightarrow> (ApiFailure + InboxPage) option" where
  "inbox_loop [] page = (if ip_pending_count page = 0 then None else Some (Inr page))"
| "inbox_loop (wake # wakes) page =
     (if ip_pending_count page \<noteq> 0 then Some (Inr page)
      else case wake of
        ShuttingDown \<Rightarrow> Some (Inl ApiErrorCode.DatabaseBusy)
      | DeadlineReached \<Rightarrow> Some (Inr page)
      | SenderGone \<Rightarrow> Some (Inl ApiErrorCode.DatabaseBusy)
      | Changed result \<Rightarrow>
          (case result of Inl e \<Rightarrow> Some (Inl (failure_from e)) | Inr page' \<Rightarrow> inbox_loop wakes page'))"

text \<open>
  The handler \<open>inbox\<close>, given what its first and second check return, whether the registry admits the
  subscription, and what wakes it; \<open>None\<close> while it waits.
\<close>

definition inbox_handler ::
  "library \<Rightarrow> string option list \<Rightarrow> InboxQueryDto \<Rightarrow> DispatchError + InboxPage \<Rightarrow> bool
   \<Rightarrow> DispatchError + InboxPage \<Rightarrow> wake list \<Rightarrow> (ApiFailure + string) option" where
  "inbox_handler L headers query first admitted second wakes =
     (case rbind (pending_command L headers query) (\<lambda>_. map_err failure_from first) of
        Inl e \<Rightarrow> Some (Inl e)
      | Inr page \<Rightarrow>
          if ip_pending_count page = 0 \<and> iqd_wait_seconds query > 0 then
            if \<not> admitted then Some (Inl ApiErrorCode.RateLimited)
            else case map_err failure_from second of
              Inl e \<Rightarrow> Some (Inl e)
            | Inr page \<Rightarrow> map_option (\<lambda>r. rbind r (encode_inbox L)) (inbox_loop wakes page)
          else Some (encode_inbox L page))"

text \<open>
  A long poll ends with the deadline, the shutdown or the end of its channel, whatever wakes it
  before; it returns an empty page only because of the deadline.
\<close>

lemma inbox_loop_returns:
  assumes "wake \<in> set wakes" and "wake \<in> {ShuttingDown, DeadlineReached, SenderGone}"
  shows "inbox_loop wakes page \<noteq> None"
  using assms by (induction wakes arbitrary: page) (auto split: wake.splits sum.splits)

lemma inbox_loop_page:
  assumes "inbox_loop wakes page = Some (Inr page')"
  shows "ip_pending_count page' \<noteq> 0 \<or> DeadlineReached \<in> set wakes"
  using assms by (induction wakes page rule: inbox_loop.induct) (auto split: if_splits wake.splits sum.splits)

text \<open>The default configuration is valid and stays on the loopback interface.\<close>

lemma local_config_ok:
  assumes "env_filter ''info''"
  shows "validate_config env_filter (RelayConfig_local database) = Inr ()"
    and "trusted_lan_warning (RelayConfig_local database) = None"
  using assms
  by (simp_all add: validate_config_def trusted_lan_warning_def RelayConfig_local_def DEFAULT_QUEUE_CAPACITY_def from_secs_def)

end
