(* ===== verification/Store_Migration.thy ===== *)
theory Store_Migration
  imports Sql_Db
begin

text \<open>
  Opening a store (\<open>psst-store/src/lib.rs\<close>): the embedded migration plan, the ledger of applied
  migrations with their checksums, the application id, and readiness. Executing the SQL of a
  migration is the engine's business: \<open>exec\<close> maps a script and a schema to the schema it leaves, or
  fails; \<open>digest\<close> is the hexadecimal SHA-256, and the texts of the scripts are the function \<open>script\<close>.
\<close>

section \<open>The plan\<close>

definition APPLICATION_ID :: int where "APPLICATION_ID = 0x50535354"

record Migration =
  mi_version :: int
  mi_sql :: string

definition MIGRATIONS :: "(int \<Rightarrow> string) \<Rightarrow> Migration list" where
  "MIGRATIONS script = map (\<lambda>v. \<lparr>mi_version = v, mi_sql = script v\<rparr>) [1, 2, 3, 4]"

definition supported_version :: "Migration list \<Rightarrow> int" where
  "supported_version migrations = (if migrations = [] then 0 else mi_version (last migrations))"

definition current_schema_version :: "(int \<Rightarrow> string) \<Rightarrow> int" where
  "current_schema_version script = supported_version (MIGRATIONS script)"

datatype StoreError =
    Database rusqlite_error
  | UnexpectedApplicationId int
  | FutureSchema int int
  | MigrationChecksumMismatch int
  | InvalidMigrationLedger int int
  | InvalidMigrationPlan string
  | WorkerUnavailable

fun plan_from :: "int \<Rightarrow> Migration list \<Rightarrow> StoreError + unit" where
  "plan_from index [] = Inr ()"
| "plan_from index (migration # rest) =
     rbind (ensure (mi_version migration = index + 1)
       (InvalidMigrationPlan ''embedded migrations must be contiguous and start at version 1'')) (\<lambda>_.
     plan_from (index + 1) rest)"

definition validate_migration_plan :: "Migration list \<Rightarrow> StoreError + unit" where
  "validate_migration_plan migrations = plan_from 0 migrations"

section \<open>The database file\<close>

text \<open>The rows of \<open>schema_migrations\<close> in the order of their primary key; \<open>None\<close> before the table exists.\<close>

record 'sc dbfile =
  df_application_id :: int
  df_ledger :: "(int \<times> string) list option"
  df_schema :: 'sc

definition verify_application_id :: "'sc dbfile \<Rightarrow> StoreError + unit" where
  "verify_application_id f =
     ensure (\<not> (df_application_id f \<noteq> 0 \<and> df_application_id f \<noteq> APPLICATION_ID))
       (UnexpectedApplicationId (df_application_id f))"

text \<open>
  The loop of \<open>verify_migration_ledger\<close>, with \<open>applied\<close> as its state. The migration of a version is
  looked up by its index, which the checks before keep in range.
\<close>

fun ledger_from ::
  "(string \<Rightarrow> string) \<Rightarrow> Migration list \<Rightarrow> int \<Rightarrow> int \<Rightarrow> (int \<times> string) list \<Rightarrow> StoreError + int" where
  "ledger_from digest migrations supported applied [] = Inr applied"
| "ledger_from digest migrations supported applied ((version, recorded) # rows) =
     (let expected = applied + 1 in
      rbind (ensure (\<not> version > supported) (FutureSchema version supported)) (\<lambda>_.
      rbind (ensure (version = expected) (InvalidMigrationLedger expected version)) (\<lambda>_.
      rbind (ensure (recorded = digest (mi_sql (migrations ! nat (version - 1))))
        (MigrationChecksumMismatch version)) (\<lambda>_.
      ledger_from digest migrations supported version rows))))"

definition verify_migration_ledger ::
  "(string \<Rightarrow> string) \<Rightarrow> Migration list \<Rightarrow> int \<Rightarrow> (int \<times> string) list \<Rightarrow> StoreError + int" where
  "verify_migration_ledger digest migrations supported rows = ledger_from digest migrations supported 0 rows"

text \<open>\<open>INSERT INTO schema_migrations\<close>: the version is the primary key.\<close>

definition insert_ledger :: "int \<Rightarrow> string \<Rightarrow> (int \<times> string) list \<Rightarrow> rusqlite_error + (int \<times> string) list" where
  "insert_ledger version recorded rows =
     (if version \<in> fst ` set rows then Inl (SqliteFailure ConstraintViolation)
      else Inr (insort_key fst (version, recorded) rows))"

fun apply_migrations ::
  "(string \<Rightarrow> 'sc \<Rightarrow> rusqlite_error + 'sc) \<Rightarrow> (string \<Rightarrow> string) \<Rightarrow> Migration list
   \<Rightarrow> (int \<times> string) list \<Rightarrow> 'sc \<Rightarrow> StoreError + ((int \<times> string) list \<times> 'sc)" where
  "apply_migrations exec digest [] rows schema = Inr (rows, schema)"
| "apply_migrations exec digest (migration # rest) rows schema =
     rbind (map_err Database (exec (mi_sql migration) schema)) (\<lambda>schema.
     rbind (map_err Database (insert_ledger (mi_version migration) (digest (mi_sql migration)) rows)) (\<lambda>rows.
     apply_migrations exec digest rest rows schema))"

definition migrate_body ::
  "(string \<Rightarrow> 'sc \<Rightarrow> rusqlite_error + 'sc) \<Rightarrow> (string \<Rightarrow> string) \<Rightarrow> Migration list
   \<Rightarrow> 'sc dbfile \<Rightarrow> StoreError + 'sc dbfile" where
  "migrate_body exec digest migrations f =
     rbind (verify_application_id f) (\<lambda>_.
     let rows = (case df_ledger f of None \<Rightarrow> [] | Some rows \<Rightarrow> rows);
         supported = supported_version migrations in
     rbind (verify_migration_ledger digest migrations supported rows) (\<lambda>database.
     rbind (apply_migrations exec digest (filter (\<lambda>item. mi_version item > database) migrations) rows
       (df_schema f)) (\<lambda>(rows, schema).
     Inr \<lparr>df_application_id = APPLICATION_ID, df_ledger = Some rows, df_schema = schema\<rparr>)))"

definition migrate ::
  "(string \<Rightarrow> 'sc \<Rightarrow> rusqlite_error + 'sc) \<Rightarrow> (string \<Rightarrow> string) \<Rightarrow> engine \<Rightarrow> Migration list
   \<Rightarrow> 'sc dbfile \<Rightarrow> (StoreError + unit) \<times> 'sc dbfile" where
  "migrate exec digest eng migrations f =
     (case begin_fault eng of
        Some e \<Rightarrow> (Inl (Database e), f)
      | None \<Rightarrow>
          (case migrate_body exec digest migrations f of
             Inl e \<Rightarrow> (Inl e, f)
           | Inr f' \<Rightarrow>
               (case commit_fault eng of
                  Some e \<Rightarrow> (Inl (Database e), f)
                | None \<Rightarrow> (Inr (), f'))))"

section \<open>Opening\<close>

text \<open>
  The retry loop around the switch to WAL: for each attempt what the engine answers and whether the
  deadline lies still ahead; \<open>None\<close> while the loop goes on.
\<close>

fun enable_wal_with_bounded_retry :: "((rusqlite_error + unit) \<times> bool) list \<Rightarrow> (StoreError + unit) option" where
  "enable_wal_with_bounded_retry [] = None"
| "enable_wal_with_bounded_retry ((outcome, in_time) # later) =
     (case outcome of
        Inr _ \<Rightarrow> Some (Inr ())
      | Inl error \<Rightarrow>
          if is_busy error \<and> in_time then enable_wal_with_bounded_retry later
          else Some (Inl (Database error)))"

text \<open>
  What opening observes of the engine: connecting with the busy handler, the pragma for foreign keys,
  the attempts at WAL, the other pragmas, the migration's transaction, and the final busy handler.
\<close>

record open_trace =
  op_connect :: "rusqlite_error + unit"
  op_foreign_keys :: "rusqlite_error + unit"
  op_attempts :: "((rusqlite_error + unit) \<times> bool) list"
  op_policy :: "rusqlite_error + unit"
  op_engine :: engine
  op_busy_timeout :: "rusqlite_error + unit"

definition configure_connection :: "open_trace \<Rightarrow> (StoreError + unit) option" where
  "configure_connection op =
     (case op_foreign_keys op of
        Inl e \<Rightarrow> Some (Inl (Database e))
      | Inr _ \<Rightarrow> map_option (\<lambda>r. rbind r (\<lambda>_. map_err Database (op_policy op)))
          (enable_wal_with_bounded_retry (op_attempts op)))"

definition open_with_migrations ::
  "(string \<Rightarrow> 'sc \<Rightarrow> rusqlite_error + 'sc) \<Rightarrow> (string \<Rightarrow> string) \<Rightarrow> open_trace \<Rightarrow> Migration list
   \<Rightarrow> 'sc dbfile \<Rightarrow> (StoreError + unit) option \<times> 'sc dbfile" where
  "open_with_migrations exec digest op migrations f =
     (case rbind (validate_migration_plan migrations) (\<lambda>_.
           rbind (map_err Database (op_connect op)) (\<lambda>_.
           verify_application_id f)) of
        Inl e \<Rightarrow> (Some (Inl e), f)
      | Inr _ \<Rightarrow>
          (case configure_connection op of
             None \<Rightarrow> (None, f)
           | Some (Inl e) \<Rightarrow> (Some (Inl e), f)
           | Some (Inr _) \<Rightarrow>
               (let (result, f') = migrate exec digest (op_engine op) migrations f in
                (Some (rbind result (\<lambda>_. map_err Database (op_busy_timeout op))), f'))))"

text \<open>\<open>read\<close> and \<open>probe\<close> are the outcomes of the queries themselves.\<close>

definition current_version :: "rusqlite_error + unit \<Rightarrow> 'sc dbfile \<Rightarrow> rusqlite_error + int option" where
  "current_version read f =
     rbind read (\<lambda>_. Inr (case df_ledger f of
        None \<Rightarrow> None
      | Some rows \<Rightarrow> if rows = [] then None else Some (Max (fst ` set rows))))"

definition schema_version :: "rusqlite_error + unit \<Rightarrow> 'sc dbfile \<Rightarrow> StoreError + int" where
  "schema_version read f =
     rbind (map_err Database (current_version read f)) (\<lambda>v. Inr (case v of None \<Rightarrow> 0 | Some v \<Rightarrow> v))"

definition readiness ::
  "(int \<Rightarrow> string) \<Rightarrow> rusqlite_error + unit \<Rightarrow> rusqlite_error + unit \<Rightarrow> 'sc dbfile \<Rightarrow> StoreError + unit" where
  "readiness script read probe f =
     rbind (schema_version read f) (\<lambda>version.
     let supported = supported_version (MIGRATIONS script) in
      rbind (ensure (version = supported) (FutureSchema version supported)) (\<lambda>_.
      map_err Database probe))"

section \<open>What the ledger guarantees\<close>

text \<open>The ledger entries of a prefix of the plan.\<close>

definition entries :: "(string \<Rightarrow> string) \<Rightarrow> Migration list \<Rightarrow> (int \<times> string) list" where
  "entries digest = map (\<lambda>m. (mi_version m, digest (mi_sql m)))"

definition contiguous :: "Migration list \<Rightarrow> bool" where
  "contiguous migrations \<longleftrightarrow> (\<forall>k < length migrations. mi_version (migrations ! k) = int k + 1)"

lemma plan_from_ok:
  "plan_from n migrations = Inr () \<longleftrightarrow> (\<forall>k < length migrations. mi_version (migrations ! k) = n + int k + 1)"
proof (induction migrations arbitrary: n)
  case (Cons m ms)
  have "(\<forall>k < length (m # ms). mi_version ((m # ms) ! k) = n + int k + 1) \<longleftrightarrow>
      mi_version m = n + 1 \<and> (\<forall>k < length ms. mi_version (ms ! k) = (n + 1) + int k + 1)"
    by (auto simp: less_Suc_eq_0_disj algebra_simps)
  then show ?case by (simp add: Cons result_simps)
qed simp

lemma validate_migration_plan_ok: "validate_migration_plan migrations = Inr () \<longleftrightarrow> contiguous migrations"
  by (simp add: validate_migration_plan_def plan_from_ok contiguous_def)

lemma supported_contiguous: "contiguous migrations \<Longrightarrow> supported_version migrations = int (length migrations)"
  by (cases migrations rule: rev_cases) (auto simp: supported_version_def contiguous_def nth_append)

lemma entries_simps [simp]:
  "length (entries digest ms) = length ms" "entries digest (m # ms) = (mi_version m, digest (mi_sql m)) # entries digest ms"
  by (simp_all add: entries_def)

lemma ledger_from_ok:
  assumes "contiguous ms" and "n \<le> length ms"
  shows "ledger_from digest ms (int (length ms)) (int n) rows = Inr d \<longleftrightarrow>
    n + length rows \<le> length ms \<and> rows = take (length rows) (drop n (entries digest ms))
    \<and> d = int (n + length rows)"
  using assms(2)
proof (induction rows arbitrary: n)
  case (Cons row rows)
  obtain v c where row: "row = (v, c)" by (cases row)
  show ?case
  proof (cases "n < length ms")
    case True
    then have nth: "mi_version (ms ! n) = int n + 1" using assms(1) by (simp add: contiguous_def)
    have drop: "drop n (entries digest ms) = (int n + 1, digest (mi_sql (ms ! n))) # drop (Suc n) (entries digest ms)"
      using True nth by (simp add: Cons_nth_drop_Suc [symmetric] entries_def)
    have "ledger_from digest ms (int (length ms)) (int n) (row # rows) = Inr d \<longleftrightarrow>
        v = int n + 1 \<and> c = digest (mi_sql (ms ! n)) \<and> ledger_from digest ms (int (length ms)) (int (Suc n)) rows = Inr d"
      using True by (auto simp: row Let_def result_simps algebra_simps)
    also have "\<dots> \<longleftrightarrow> v = int n + 1 \<and> c = digest (mi_sql (ms ! n)) \<and> Suc n + length rows \<le> length ms
        \<and> rows = take (length rows) (drop (Suc n) (entries digest ms)) \<and> d = int (Suc n + length rows)"
      using Cons.IH [of "Suc n"] True by simp
    finally show ?thesis by (auto simp: drop row)
  next
    case False
    then show ?thesis using Cons.prems by (auto simp: row Let_def result_simps)
  qed
qed auto

lemma verify_ledger_ok:
  assumes "contiguous ms"
  shows "verify_migration_ledger digest ms (supported_version ms) rows = Inr d \<longleftrightarrow>
    (\<exists>k \<le> length ms. rows = take k (entries digest ms) \<and> d = int k)"
  using ledger_from_ok [OF assms, of 0 digest rows d]
  by (auto simp: verify_migration_ledger_def supported_contiguous [OF assms] min_def split: if_splits)

lemma missing_migrations:
  assumes "contiguous ms"
  shows "filter (\<lambda>m. mi_version m > int k) ms = drop k ms"
proof -
  have "filter (\<lambda>m. mi_version m > int k) (take k ms) = []"
    using assms by (auto simp: contiguous_def filter_empty_conv in_set_conv_nth)
  moreover have "filter (\<lambda>m. mi_version m > int k) (drop k ms) = drop k ms"
    using assms by (auto simp: contiguous_def filter_id_conv in_set_conv_nth)
  ultimately show ?thesis by (metis append_Nil append_take_drop_id filter_append)
qed

primrec run_scripts :: "(string \<Rightarrow> 'sc \<Rightarrow> rusqlite_error + 'sc) \<Rightarrow> string list \<Rightarrow> 'sc \<Rightarrow> rusqlite_error + 'sc" where
  "run_scripts exec [] schema = Inr schema"
| "run_scripts exec (s # rest) schema = rbind (exec s schema) (run_scripts exec rest)"

lemma insort_last: "\<forall>r \<in> set rows. fst r < v \<Longrightarrow> insort_key fst (v, c) rows = rows @ [(v, c)]"
  by (induction rows) auto

lemma apply_migrations_ok:
  assumes "contiguous ms" and "k \<le> length ms"
  shows "apply_migrations exec digest (drop k ms) (take k (entries digest ms)) schema = Inr (rows, schema') \<longleftrightarrow>
    rows = entries digest ms \<and> run_scripts exec (map mi_sql (drop k ms)) schema = Inr schema'"
  using assms(2)
proof (induction "length ms - k" arbitrary: k schema)
  case 0
  then show ?case by auto
next
  case (Suc n)
  then have k: "k < length ms" by simp
  then have v: "mi_version (ms ! k) = int k + 1" using assms(1) by (simp add: contiguous_def)
  have below: "\<forall>r \<in> set (take k (entries digest ms)). fst r < int k + 1"
    using assms(1) k by (auto simp: in_set_conv_nth entries_def contiguous_def)
  then have ins: "insert_ledger (int k + 1) (digest (mi_sql (ms ! k))) (take k (entries digest ms)) =
      Inr (take (Suc k) (entries digest ms))"
    using k v by (auto simp: insert_ledger_def insort_last take_Suc_conv_app_nth entries_def)
  have d: "drop k ms = ms ! k # drop (Suc k) ms" using k by (simp add: Cons_nth_drop_Suc)
  have ih: "apply_migrations exec digest (drop (Suc k) ms) (take (Suc k) (entries digest ms)) sc = Inr (rows, schema') \<longleftrightarrow>
    rows = entries digest ms \<and> run_scripts exec (map mi_sql (drop (Suc k) ms)) sc = Inr schema'" for sc
    using Suc.hyps(1) [of "Suc k"] Suc.hyps(2) k by simp
  show ?case by (auto simp: d v ins ih result_simps)
qed

lemma migrate_body_ok:
  assumes "contiguous ms"
  shows "migrate_body exec digest ms f = Inr f' \<longleftrightarrow>
    df_application_id f \<in> {0, APPLICATION_ID}
    \<and> (\<exists>k \<le> length ms. (case df_ledger f of None \<Rightarrow> [] | Some rows \<Rightarrow> rows) = take k (entries digest ms)
        \<and> run_scripts exec (map mi_sql (drop k ms)) (df_schema f) = Inr (df_schema f'))
    \<and> df_ledger f' = Some (entries digest ms) \<and> df_application_id f' = APPLICATION_ID"
  unfolding migrate_body_def Let_def rbind_eq_Inr verify_ledger_ok [OF assms] verify_application_id_def
  by (cases f') (auto simp: result_simps missing_migrations [OF assms] apply_migrations_ok [OF assms])

text \<open>
  (C40) Migrating is atomic, exact and idempotent. It succeeds only on a file of this application or a
  new one whose ledger records, with matching checksums, a prefix of the plan (a file from a newer
  build, a gap or an edited script is refused); it then runs exactly the missing scripts in order,
  leaves the full ledger and the application id, and opening the file again changes nothing. When it
  fails, at whatever point, the file is as it was.
\<close>

theorem migration_is_atomic_and_exact:
  assumes "validate_migration_plan migrations = Inr ()" and "migrate exec digest eng migrations f = (r, f')"
  shows "case r of
      Inl e \<Rightarrow> f' = f
    | Inr _ \<Rightarrow>
        df_application_id f \<in> {0, APPLICATION_ID}
        \<and> (\<exists>k \<le> length migrations.
            (case df_ledger f of None \<Rightarrow> [] | Some rows \<Rightarrow> rows) = take k (entries digest migrations)
            \<and> run_scripts exec (map mi_sql (drop k migrations)) (df_schema f) = Inr (df_schema f'))
        \<and> df_ledger f' = Some (entries digest migrations) \<and> df_application_id f' = APPLICATION_ID
        \<and> migrate exec digest healthy migrations f' = (Inr (), f')"
proof -
  have plan: "contiguous migrations" using assms(1) by (simp add: validate_migration_plan_ok)
  note body = migrate_body_ok [OF plan]
  show ?thesis
  proof (cases r)
    case (Inl e)
    with assms(2) show ?thesis by (auto simp: migrate_def split: option.splits sum.splits)
  next
    case (Inr u)
    with assms(2) have run: "migrate_body exec digest migrations f = Inr f'"
      by (auto simp: migrate_def split: option.splits sum.splits)
    then have full: "df_ledger f' = Some (entries digest migrations)" "df_application_id f' = APPLICATION_ID"
      by (simp_all add: body)
    then have "migrate_body exec digest migrations f' = Inr f'"
      unfolding body by (auto intro!: exI [of _ "length migrations"])
    then have "migrate exec digest healthy migrations f' = (Inr (), f')"
      by (simp add: migrate_def healthy_def)
    with Inr run show ?thesis by (simp add: body)
  qed
qed

text \<open>A freshly opened store is ready.\<close>

lemma migrated_is_ready:
  assumes "migrate exec digest eng (MIGRATIONS script) f = (Inr (), f')"
  shows "schema_version (Inr ()) f' = Inr (current_schema_version script) \<and> readiness script (Inr ()) (Inr ()) f' = Inr ()"
proof -
  have "contiguous (MIGRATIONS script)"
    by (simp add: validate_migration_plan_ok [symmetric] validate_migration_plan_def MIGRATIONS_def)
  from migrate_body_ok [OF this, of exec digest f f'] assms
  have "df_ledger f' = Some (entries digest (MIGRATIONS script))"
    by (auto simp: migrate_def split: option.splits sum.splits)
  then have "schema_version (Inr ()) f' = Inr 4"
    by (simp add: schema_version_def current_version_def entries_def MIGRATIONS_def)
  then show ?thesis
    by (simp add: readiness_def current_schema_version_def supported_version_def MIGRATIONS_def)
qed

text \<open>The retry loop ends as soon as an attempt succeeds, fails for another reason or comes too late.\<close>

lemma wal_retry_terminates:
  assumes "(outcome, in_time) \<in> set outcomes"
    and "case outcome of Inr _ \<Rightarrow> True | Inl e \<Rightarrow> \<not> (is_busy e \<and> in_time)"
  shows "enable_wal_with_bounded_retry outcomes \<noteq> None"
  using assms by (induction outcomes) (auto split: sum.splits)

theorem migration_is_atomic_and_exact_witness:
  "\<exists>f'. migrate (\<lambda>s schema. Inr (schema @ [s])) id healthy (MIGRATIONS (\<lambda>v. replicate (nat v) (CHR ''s'')))
      \<lparr>df_application_id = APPLICATION_ID, df_ledger = Some [(1, ''s'')], df_schema = [''s'']\<rparr> = (Inr (), f')
    \<and> df_ledger f' = Some [(1, ''s''), (2, ''ss''), (3, ''sss''), (4, ''ssss'')]"
proof -
  let ?ms = "MIGRATIONS (\<lambda>v. replicate (nat v) (CHR ''s''))"
  let ?f = "\<lparr>df_application_id = APPLICATION_ID, df_ledger = Some [(1, ''s'')], df_schema = [''s'']\<rparr>"
  let ?exec = "\<lambda>s schema. Inr (schema @ [s]) :: rusqlite_error + string list"
  have plan: "validate_migration_plan ?ms = Inr ()"
    by (simp add: validate_migration_plan_def MIGRATIONS_def)
  obtain f' where run: "migrate ?exec id healthy ?ms ?f = (Inr (), f')"
    by (simp add: migrate_def migrate_body_def healthy_def verify_application_id_def verify_migration_ledger_def
        supported_version_def MIGRATIONS_def Let_def insert_ledger_def eval_nat_numeral)
  from migration_is_atomic_and_exact [OF plan run] run show ?thesis
    by (simp add: entries_def MIGRATIONS_def eval_nat_numeral)
qed

end
