(* ===== verification/Cli_Relay.thy ===== *)
theory Cli_Relay
  imports Cli_Parse Relay_Http Store_Migration App_Profile App_Error Json_Value
begin

text \<open>
  What the command line makes of its options (\<open>resolve_config\<close> of \<open>psst-cli/src/lib.rs\<close>), the relay's
  configuration it starts a relay with, and the error codes of a relay that failed.
\<close>

section \<open>Configuration\<close>

definition cli_flags :: "GlobalOptions \<Rightarrow> RelayStartArgs \<Rightarrow> ConfigFlags" where
  "cli_flags options relay = \<lparr>
     fl_relay_origin = go_relay options, fl_profile = go_profile options, fl_config_path = go_config options,
     fl_relay_bind = rsa_bind relay, fl_data_dir = rsa_data_dir relay,
     fl_allow_lan = (if rsa_allow_lan relay then Some ''true'' else None), fl_log_level = rsa_log_level relay,
     fl_log_format = None, fl_max_message_bytes = None, fl_max_long_poll_seconds = None, fl_heartbeat_seconds = None,
     fl_lease_seconds = None\<rparr>"

text \<open>\<open>env\<close> is the environment of the process; only variables that are Unicode are configuration.\<close>

definition resolve_config ::
  "config_lib \<Rightarrow> (string \<Rightarrow> string option) \<Rightarrow> GlobalOptions \<Rightarrow> RelayStartArgs option \<Rightarrow> LocalErrorCode + ResolvedConfig" where
  "resolve_config L env options relay =
     rbind (map_err (\<lambda>_. LocalErrorCode.InvalidConfiguration) (detect env)) (\<lambda>paths.
     let relay = (case relay of None \<Rightarrow> RelayStartArgs_default | Some r \<Rightarrow> r) in
     map_err (\<lambda>_. LocalErrorCode.InvalidConfiguration)
       (resolve L paths \<lparr>ci_flags = cli_flags options relay, ci_environment = (\<lambda>key. Option.bind (env key) to_str)\<rparr>))"

text \<open>\<open>addr\<close> parses a socket address; \<open>env_filter\<close> is what the logging library accepts as a level.\<close>

definition relay_config ::
  "(string \<Rightarrow> SocketAddr option) \<Rightarrow> (string \<Rightarrow> bool) \<Rightarrow> ResolvedConfig \<Rightarrow> LocalErrorCode + (string \<times> RelayConfig)" where
  "relay_config addr env_filter resolved =
     (let data_dir = ev_value (rs_relay_data_dir resolved);
          config = RelayConfig_local (path_join data_dir ''psst.db'') in
      rbind (ok_or LocalErrorCode.InvalidConfiguration (addr (ev_value (rs_relay_bind resolved)))) (\<lambda>bind.
      rbind (let format = ev_value (rs_log_format resolved) in
             if format = ''text'' then Inr LogFormat.Text else if format = ''json'' then Inr LogFormat.Json
             else Inl LocalErrorCode.InvalidConfiguration) (\<lambda>log_format.
      let config = config\<lparr>rc_bind := bind, rc_allow_lan := ev_value (rs_allow_lan resolved),
            rc_log_level := ev_value (rs_log_level resolved), rc_log_format := log_format\<rparr> in
      rbind (map_err (\<lambda>_. LocalErrorCode.InvalidConfiguration) (validate_config env_filter config)) (\<lambda>_.
      Inr (data_dir, config)))))"

section \<open>A relay that failed\<close>

text \<open>The types \<open>downcast_ref\<close> finds in the error of \<open>psst_relay::serve\<close>.\<close>

datatype serve_error =
    ServeTimedOut
  | ServeConfig ConfigError
  | ServeIo io_error
  | ServeWorker WorkerError
  | ServeStore StoreError
  | ServeOther

definition map_io_error :: "io_error \<Rightarrow> LocalErrorCode" where
  "map_io_error e =
     (case io_kind e of
        PermissionDenied \<Rightarrow> LocalErrorCode.LocalPermission
      | ErrorKind.TimedOut \<Rightarrow> LocalErrorCode.RelayTimeout
      | AddrInUse \<Rightarrow> LocalErrorCode.RelayUnavailable
      | AddrNotAvailable \<Rightarrow> LocalErrorCode.RelayUnavailable
      | _ \<Rightarrow> LocalErrorCode.LocalWrite)"

fun map_worker_error :: "WorkerError \<Rightarrow> LocalErrorCode" where
  "map_worker_error WorkerError.RateLimited = LocalErrorCode.RateLimited"
| "map_worker_error WorkerError.Timeout = LocalErrorCode.RelayTimeout"
| "map_worker_error WorkerError.Unavailable = LocalErrorCode.RelayUnavailable"
| "map_worker_error WorkerError.Store = LocalErrorCode.LocalWrite"

fun map_store_error :: "StoreError \<Rightarrow> LocalErrorCode" where
  "map_store_error (FutureSchema _ _) = LocalErrorCode.InvalidConfiguration"
| "map_store_error (MigrationChecksumMismatch _) = LocalErrorCode.InvalidConfiguration"
| "map_store_error (InvalidMigrationLedger _ _) = LocalErrorCode.InvalidConfiguration"
| "map_store_error (InvalidMigrationPlan _) = LocalErrorCode.InvalidConfiguration"
| "map_store_error (UnexpectedApplicationId _) = LocalErrorCode.InvalidConfiguration"
| "map_store_error (Database _) = LocalErrorCode.LocalWrite"
| "map_store_error WorkerUnavailable = LocalErrorCode.RelayUnavailable"

fun map_relay_serve_error :: "serve_error \<Rightarrow> LocalErrorCode" where
  "map_relay_serve_error ServeTimedOut = LocalErrorCode.OutcomeUnknown"
| "map_relay_serve_error (ServeConfig _) = LocalErrorCode.InvalidConfiguration"
| "map_relay_serve_error (ServeIo e) = map_io_error e"
| "map_relay_serve_error (ServeWorker e) = map_worker_error e"
| "map_relay_serve_error (ServeStore e) = map_store_error e"
| "map_relay_serve_error ServeOther = LocalErrorCode.Internal"

text \<open>How a command ends that gives no value: it panicked, it still runs, the process was ended, or it failed.\<close>

datatype cli_stop = Panicked | StillRunning | ProcessExit | Failed LocalErrorCode

text \<open>\<open>process_result_for_serve_error\<close> ends the process where shutting down took too long.\<close>

definition handle_relay_error :: "serve_error \<Rightarrow> bool \<Rightarrow> cli_stop" where
  "handle_relay_error e hard_exit_on_timeout =
     (if hard_exit_on_timeout \<and> e = ServeTimedOut then ProcessExit else Failed (map_relay_serve_error e))"

text \<open>
  \<open>run_relay_until\<close>: \<open>tracing\<close>, \<open>create_dir\<close> and \<open>served\<close> are how initialising the log, making the data
  directory and serving until shutdown went.
\<close>

definition run_relay_until ::
  "(string \<Rightarrow> SocketAddr option) \<Rightarrow> (string \<Rightarrow> bool) \<Rightarrow> bool \<Rightarrow> (string \<Rightarrow> io_error + unit) \<Rightarrow> (RelayConfig \<Rightarrow> serve_error + unit)
   \<Rightarrow> bool \<Rightarrow> bool \<Rightarrow> ResolvedConfig \<Rightarrow> cli_stop + json" where
  "run_relay_until addr env_filter tracing create_dir served json hard_exit_on_timeout resolved =
     rbind (map_err Failed (relay_config addr env_filter resolved)) (\<lambda>(data_dir, config).
     rbind (ensure (json \<or> tracing) (Failed LocalErrorCode.InvalidConfiguration)) (\<lambda>_.
     rbind (map_err (\<lambda>e. Failed (map_io_error e)) (create_dir data_dir)) (\<lambda>_.
     rbind (map_err (\<lambda>e. handle_relay_error e hard_exit_on_timeout) (served config)) (\<lambda>_.
     Inr (JObject [(''shutdown'', JObject [(''clean'', JBool True)])])))))"

text \<open>A relay that is started is one whose configuration the relay accepts, in the directory that was resolved.\<close>

lemma relay_config_valid:
  assumes "relay_config addr env_filter resolved = Inr (data_dir, config)"
  shows "validate_config env_filter config = Inr ()" and "rc_database config = path_join data_dir ''psst.db''"
    and "\<not> is_loopback (sa_ip (rc_bind config)) \<Longrightarrow> ev_value (rs_allow_lan resolved)"
  using assms
  by (auto simp: relay_config_def result_simps Let_def RelayConfig_local_def validate_config_def split: if_splits)

end
