(* ===== verification/Cli_Execute.thy ===== *)
theory Cli_Execute
  imports Cli_Relay Session_Types
begin

text \<open>
  The commands of \<open>psst\<close> (\<open>psst-cli/src/lib.rs\<close>): the readers that take a command's arguments apart again
  once its grammar was accepted, each command over a session of the profile, and the end of the session.
  The grammar and the readers agree, so that no accepted command line panics.
\<close>

section \<open>Errors\<close>

definition cli_local_io :: "io_error \<Rightarrow> LocalErrorCode" where
  "cli_local_io e =
     (case io_kind e of
        PermissionDenied \<Rightarrow> LocalErrorCode.LocalPermission
      | WouldBlock \<Rightarrow> LocalErrorCode.ProfileLocked
      | AddrInUse \<Rightarrow> LocalErrorCode.ProfileLocked
      | AlreadyExists \<Rightarrow> LocalErrorCode.ProfileAlreadyBound
      | ErrorKind.NotFound \<Rightarrow> LocalErrorCode.InvalidSession
      | _ \<Rightarrow> LocalErrorCode.LocalRead)"

definition input_io :: "io_error \<Rightarrow> LocalErrorCode" where
  "input_io e = (if io_kind e = PermissionDenied then LocalErrorCode.LocalPermission else LocalErrorCode.LocalRead)"

fun cli_session_error :: "SessionError \<Rightarrow> LocalErrorCode" where
  "cli_session_error (SessionError.Local e) = cli_local_io e"
| "cli_session_error (SessionError.Relay e) = map_client_error e"
| "cli_session_error SessionError.ShutdownTimedOut = LocalErrorCode.OutcomeUnknown"
| "cli_session_error SessionError.RecoveryOutcomeUnknown = LocalErrorCode.OutcomeUnknown"
| "cli_session_error SessionError.NotReady = LocalErrorCode.InvalidSession"
| "cli_session_error SessionError.Unbound = LocalErrorCode.ProfileUnbound"
| "cli_session_error SessionError.SendCapacity = LocalErrorCode.LocalLock"
| "cli_session_error SessionError.OperationCapacity = LocalErrorCode.LocalLock"

definition cli_metadata :: "string \<Rightarrow> ClientMetadata" where
  "cli_metadata version = \<lparr>cm_kind = ''psst-cli'', cm_hostname = None, cm_version = Some version\<rparr>"

fun session_health_name :: "SessionHealth \<Rightarrow> string" where
  "session_health_name SessionHealth.Ready = ''ready''"
| "session_health_name SessionHealth.Degraded = ''degraded''"
| "session_health_name SessionHealth.OutcomeUnknown = ''outcome_unknown''"
| "session_health_name SessionHealth.RotationFailed = ''rotation_failed''"
| "session_health_name SessionHealth.Stopped = ''stopped''"

section \<open>Arguments\<close>

text \<open>
  \<open>to_string_lossy\<close>: bytes that are not Unicode are replaced, by \<open>lossy\<close>; the text then holds U+FFFD and is
  no number. \<open>None\<close> is a panic.
\<close>

definition to_string_lossy :: "(string \<Rightarrow> string) \<Rightarrow> string \<Rightarrow> string" where
  "to_string_lossy lossy v = (if is_utf8 v then v else lossy v)"

definition parse_lossy :: "nat \<Rightarrow> string \<Rightarrow> nat option" where
  "parse_lossy largest v = (if is_utf8 v then parse_unsigned largest v else None)"

function inbox_reader :: "(string \<Rightarrow> string) \<Rightarrow> string list \<Rightarrow> nat \<times> nat \<times> string list \<Rightarrow> (nat \<times> nat \<times> string list) option" where
  "inbox_reader lossy [] found = Some found"
| "inbox_reader lossy (flag # rest) (limit, wait, ack) =
     (if flag = ''--limit'' then
        Option.bind (Option.bind (arg 0 rest) (parse_lossy 65535)) (\<lambda>n. inbox_reader lossy (drop 1 rest) (n, wait, ack))
      else if flag = ''--wait'' then
        Option.bind (Option.bind (arg 0 rest) (parse_lossy 255)) (\<lambda>n. inbox_reader lossy (drop 1 rest) (limit, n, ack))
      else if flag = ''--ack'' then
        inbox_reader lossy (after_ack rest) (limit, wait, ack @ map (to_string_lossy lossy) (ack_values rest))
      else None)"
  by pat_completeness auto

termination
  by (relation "measure (\<lambda>(lossy, args, found). length args)") (auto simp: le_imp_less_Suc length_dropWhile_le)

definition inbox_arguments :: "(string \<Rightarrow> string) \<Rightarrow> string list \<Rightarrow> (nat \<times> nat \<times> string list) option" where
  "inbox_arguments lossy args = inbox_reader lossy (drop 1 args) (100, 0, [])"

text \<open>\<open>args.windows(2).find(|v| v[0] == "--wait")\<close>\<close>

fun value_after :: "string \<Rightarrow> string list \<Rightarrow> string option" where
  "value_after flag (a # b # rest) = (if a = flag then Some b else value_after flag (b # rest))"
| "value_after flag _ = None"

definition listen_wait :: "string list \<Rightarrow> nat option" where
  "listen_wait args = (case value_after ''--wait'' args of None \<Rightarrow> Some 30 | Some v \<Rightarrow> parse_lossy 255 v)"

text \<open>\<open>&args[n..]\<close>, and the options that the grammar has read before.\<close>

definition slice_from :: "nat \<Rightarrow> string list \<Rightarrow> string list option" where
  "slice_from n args = (if n \<le> length args then Some (drop n args) else None)"

definition transcript_arguments :: "string list \<Rightarrow> (MessageSequence \<times> nat) option" where
  "transcript_arguments args =
     Option.bind (Option.bind (slice_from 1 args) (\<lambda>rest. parse_option_pairs rest [''--after'', ''--limit''])) (\<lambda>values.
     Option.bind (case map_of values ''--after'' of None \<Rightarrow> Some 0 | Some v \<Rightarrow> parse_i64 v) (\<lambda>after.
     Option.bind (case MessageSequence_new after of Inl _ \<Rightarrow> None | Inr s \<Rightarrow> Some s) (\<lambda>after.
     Option.bind (case map_of values ''--limit'' of None \<Rightarrow> Some 100 | Some v \<Rightarrow> parse_unsigned 65535 v) (\<lambda>limit.
     Some (after, limit)))))"

section \<open>What commands call\<close>

text \<open>
  A file or a stream: the bytes up to its end, and whether reading fails there.
  A turn of \<open>listen\<close>: the interrupt, or the answer to a poll.
\<close>

type_synonym reader = "string \<times> bool"

datatype listen_turn = Interrupted | Polled "SessionError + InboxResponse"

datatype cli_output =
    JoinOut SessionResponse | LeaveOut LeaveSquadResponse | ArchiveOut ArchiveSquadResponse | RosterOut RosterResponse
  | SendOut SendMessageResponse | InboxOut InboxResponse | AckOut AckMessagesResponse | TranscriptOut TranscriptResponse
  | SquadsOut "SquadSummary list" | SquadOut SquadSummary | ConfigOut ResolvedConfig CredentialState | HarnessOut string

text \<open>What a command did with the session of the profile.\<close>

datatype cli_event =
    SessionStarted | LeaveCall | AuthorityCall | ArchiveCall | RosterCall | SendCall PreparedSend
  | AckCall "string list" | InboxCall nat nat | TranscriptCall MessageSequence nat | SessionShutdown

record 'r cli_env =
  le_config :: config_lib
  le_env :: "string \<Rightarrow> string option"
  le_sha256 :: "string \<Rightarrow> 8 word list"
  le_version :: string
  le_addr :: "string \<Rightarrow> SocketAddr option"
  le_env_filter :: "string \<Rightarrow> bool"
  le_tracing :: bool
  le_create_dir :: "string \<Rightarrow> io_error + unit"
  le_serve :: "RelayConfig \<Rightarrow> serve_error + unit"
  le_binding :: "PathBuf \<Rightarrow> io_error + ProfileBinding option"
  le_recovered :: "SessionError + unit"
  le_rebinding :: "PathBuf \<Rightarrow> io_error + ProfileBinding option"
  le_client :: "string \<Rightarrow> Error + unit"
  le_start :: "ProfileBinding \<Rightarrow> SessionError + 'r"
  le_join :: "string \<Rightarrow> JoinSquadRequest \<Rightarrow> SessionError + (SessionResponse \<times> 'r)"
  le_leave :: "'r \<Rightarrow> SessionError + LeaveSquadResponse"
  le_authority :: "'r \<Rightarrow> SessionError + string"
  le_archive :: "'r \<Rightarrow> SessionError + ArchiveSquadResponse"
  le_roster :: "'r \<Rightarrow> SessionError + RosterResponse"
  le_snapshot :: "'r \<Rightarrow> SessionHealth \<times> nat \<times> string \<times> nat \<times> string"
  le_send :: "'r \<Rightarrow> PreparedSend \<Rightarrow> SessionError + SendMessageResponse"
  le_acknowledge :: "'r \<Rightarrow> AckMessagesRequest \<Rightarrow> SessionError + AckMessagesResponse"
  le_inbox :: "'r \<Rightarrow> nat \<Rightarrow> nat \<Rightarrow> SessionError + InboxResponse"
  le_listen :: "'r \<Rightarrow> listen_turn list"
  le_transcript :: "'r \<Rightarrow> MessageSequence \<Rightarrow> nat \<Rightarrow> SessionError + TranscriptResponse"
  le_shutdown :: "'r \<Rightarrow> SessionError + unit"
  le_health :: "Error + json"
  le_ready :: "Error + json"
  le_list_squads :: "Error + SquadSummary list"
  le_create_squad :: "CreateSquadRequest \<Rightarrow> Error + SquadSummary"
  le_describe_squad :: "string \<Rightarrow> Error + SquadSummary"
  le_credential_exists :: "PathBuf \<Rightarrow> io_error + bool"
  le_status_path :: "ProfilePaths \<Rightarrow> PathBuf option"
  le_harness_status :: "PathBuf \<Rightarrow> io_error + string option"
  le_encode :: "cli_output \<Rightarrow> json option"
  le_random :: "8 word list option"
  le_stdin :: reader
  le_metadata :: "string \<Rightarrow> io_error + nat"
  le_open :: "string \<Rightarrow> io_error + reader"
  le_lossy :: "string \<Rightarrow> string"

type_synonym 'a cli_op = "(cli_event list, cli_stop, 'a) op"

definition unwrap :: "'a option \<Rightarrow> 'a cli_op" where
  "unwrap m = op_return (ok_or Panicked m)"

definition attempt :: "LocalErrorCode + 'a \<Rightarrow> 'a cli_op" where
  "attempt m = op_return (map_err Failed m)"

definition session_call :: "cli_event \<Rightarrow> SessionError + 'a \<Rightarrow> 'a cli_op" where
  "session_call event m log = (map_err (\<lambda>e. Failed (cli_session_error e)) m, log @ [event])"

text \<open>A session that runs is one that has started.\<close>

definition session_started :: "SessionError + 'a \<Rightarrow> 'a cli_op" where
  "session_started m log =
     (case m of Inl e \<Rightarrow> (Inl (Failed (cli_session_error e)), log) | Inr x \<Rightarrow> (Inr x, log @ [SessionStarted]))"

definition to_value :: "'r cli_env \<Rightarrow> cli_output \<Rightarrow> json cli_op" where
  "to_value E out = attempt (ok_or LocalErrorCode.Internal (le_encode E out))"

section \<open>Opening a session\<close>

definition cli_paths :: "'r cli_env \<Rightarrow> ResolvedConfig \<Rightarrow> LocalErrorCode + ProfilePaths" where
  "cli_paths E resolved =
     map_err (\<lambda>_. LocalErrorCode.InvalidConfiguration)
       (for_profile (cl_url (le_config E)) (le_sha256 E) (rs_paths resolved) (ev_value (rs_relay_origin resolved))
          (ev_value (rs_profile resolved)))"

definition cli_client :: "'r cli_env \<Rightarrow> ResolvedConfig \<Rightarrow> LocalErrorCode + unit" where
  "cli_client E resolved = map_err map_client_error (le_client E (ev_value (rs_relay_origin resolved)))"

definition open_binding :: "'r cli_env \<Rightarrow> ResolvedConfig \<Rightarrow> ProfilePaths \<Rightarrow> LocalErrorCode + ProfileBinding" where
  "open_binding E resolved paths =
     rbind (map_err cli_local_io (le_binding E (pa_metadata paths))) (\<lambda>binding.
     rbind (case binding of
         Some b \<Rightarrow> Inr (Some b)
       | None \<Rightarrow>
           rbind (map_err cli_session_error (le_recovered E)) (\<lambda>_.
           map_err cli_local_io (le_rebinding E (pa_metadata paths)))) (\<lambda>binding.
     rbind (ok_or LocalErrorCode.ProfileUnbound binding) (\<lambda>binding.
     rbind (map_err (\<lambda>_. LocalErrorCode.ProfileOriginMismatch)
       (verify_profile_origin (cl_url (le_config E)) binding (ev_value (rs_relay_origin resolved)))) (\<lambda>_.
     Inr binding))))"

definition open_session :: "'r cli_env \<Rightarrow> ResolvedConfig \<Rightarrow> 'r cli_op" where
  "open_session E resolved =
     op_bind (attempt (rbind (cli_paths E resolved) (\<lambda>paths.
       rbind (open_binding E resolved paths) (\<lambda>binding.
       rbind (cli_client E resolved) (\<lambda>_. Inr binding))))) (\<lambda>binding.
     session_started (le_start E binding))"

section \<open>Commands over a session\<close>

text \<open>\<open>reader.take(maximum + 1).read_to_end\<close>: at most one byte more than is allowed is read.\<close>

definition read_bounded_utf8 :: "reader \<Rightarrow> nat \<Rightarrow> LocalErrorCode + string" where
  "read_bounded_utf8 r maximum =
     (case r of (content, fails) \<Rightarrow>
        if fails \<and> length content < maximum + 1 then Inl LocalErrorCode.LocalRead
        else let bytes = take (maximum + 1) content in
          if length bytes > maximum then Inl LocalErrorCode.PayloadTooLarge
          else if is_utf8 bytes then Inr bytes else Inl LocalErrorCode.InvalidInput)"

definition file_body :: "'r cli_env \<Rightarrow> nat \<Rightarrow> string \<Rightarrow> LocalErrorCode + string" where
  "file_body E maximum path =
     (if path = ''-'' then read_bounded_utf8 (le_stdin E) maximum
      else rbind (map_err input_io (le_metadata E path)) (\<lambda>size.
        if size > maximum then Inl LocalErrorCode.PayloadTooLarge
        else rbind (map_err input_io (le_open E path)) (\<lambda>file. read_bounded_utf8 file maximum)))"

definition send_body :: "'r cli_env \<Rightarrow> ResolvedConfig \<Rightarrow> (string \<times> string) list \<Rightarrow> string cli_op" where
  "send_body E resolved values =
     (let maximum = ev_value (rs_max_message_bytes resolved) in
      case map_of values ''--body'' of
        Some body \<Rightarrow> attempt (if length body > maximum then Inl LocalErrorCode.PayloadTooLarge else Inr body)
      | None \<Rightarrow> op_bind (unwrap (map_of values ''--file'')) (\<lambda>path. attempt (file_body E maximum path)))"

definition execute_send :: "'r cli_env \<Rightarrow> ResolvedConfig \<Rightarrow> 'r \<Rightarrow> string list \<Rightarrow> json cli_op" where
  "execute_send E resolved r args =
     op_bind (unwrap (Option.bind (slice_from 2 args) (\<lambda>rest. parse_option_pairs rest send_options))) (\<lambda>values.
     op_bind (send_body E resolved values) (\<lambda>body.
     let priority = (if map_of values ''--priority'' = Some ''high'' then MessagePriorityDto.High else MessagePriorityDto.Normal) in
     op_bind (unwrap (map_of values ''--to'')) (\<lambda>to.
     op_bind (attempt (map_err map_client_error
       (prepare_send (le_random E) to body priority (map_of values ''--reply-to'') (map_of values ''--correlation-id'')))) (\<lambda>prepared.
     op_bind (session_call (SendCall prepared) (le_send E r prepared)) (\<lambda>response.
     to_value E (SendOut response))))))"

definition acknowledge_call :: "'r cli_env \<Rightarrow> 'r \<Rightarrow> string list \<Rightarrow> AckMessagesResponse cli_op" where
  "acknowledge_call E r ids = session_call (AckCall ids) (le_acknowledge E r \<lparr>akq_message_ids = ids\<rparr>)"

definition execute_inbox :: "'r cli_env \<Rightarrow> 'r \<Rightarrow> string list \<Rightarrow> json cli_op" where
  "execute_inbox E r args =
     op_bind (unwrap (inbox_arguments (le_lossy E) args)) (\<lambda>(limit, wait, ack).
     op_bind (if ack = [] then op_return (Inr ()) else op_bind (acknowledge_call E r ack) (\<lambda>_. op_return (Inr ()))) (\<lambda>_.
     op_bind (session_call (InboxCall limit wait) (le_inbox E r limit wait)) (\<lambda>response.
     to_value E (InboxOut response))))"

definition execute_ack :: "'r cli_env \<Rightarrow> 'r \<Rightarrow> string list \<Rightarrow> json cli_op" where
  "execute_ack E r ids =
     op_bind (acknowledge_call E r (map (to_string_lossy (le_lossy E)) ids)) (\<lambda>response. to_value E (AckOut response))"

definition execute_transcript :: "'r cli_env \<Rightarrow> 'r \<Rightarrow> string list \<Rightarrow> json cli_op" where
  "execute_transcript E r args =
     op_bind (unwrap (transcript_arguments args)) (\<lambda>(after, limit).
     op_bind (session_call (TranscriptCall after limit) (le_transcript E r after limit)) (\<lambda>response.
     to_value E (TranscriptOut response)))"

definition no_messages :: InboxResponse where
  "no_messages = \<lparr>ibr_messages = [], ibr_pending_count = 0, ibr_highest_priority = None, ibr_oldest_message_id = None\<rparr>"

fun listen_loop :: "nat \<Rightarrow> listen_turn list \<Rightarrow> InboxResponse cli_op" where
  "listen_loop wait [] = op_return (Inl StillRunning)"
| "listen_loop wait (Interrupted # turns) = op_return (Inr no_messages)"
| "listen_loop wait (Polled m # turns) =
     op_bind (session_call (InboxCall 100 wait) m) (\<lambda>response.
     if ibr_messages response \<noteq> [] \<or> wait = 0 then op_return (Inr response) else listen_loop wait turns)"

definition execute_listen_until :: "'r cli_env \<Rightarrow> 'r \<Rightarrow> string list \<Rightarrow> json cli_op" where
  "execute_listen_until E r args =
     op_bind (unwrap (listen_wait args)) (\<lambda>wait.
     op_bind (listen_loop wait (le_listen E r)) (\<lambda>response.
     op_bind (if ''--ack'' \<in> set args \<and> ibr_messages response \<noteq> []
       then op_bind (acknowledge_call E r (map md_id (ibr_messages response))) (\<lambda>_. op_return (Inr ()))
       else op_return (Inr ())) (\<lambda>_.
     to_value E (InboxOut response))))"

definition status_json :: "SessionHealth \<times> nat \<times> string \<times> nat \<times> string \<Rightarrow> json" where
  "status_json snapshot =
     (case snapshot of (health, generation, instance_id, heartbeat_interval_seconds, lease_expires_at) \<Rightarrow>
        JObject [(''health'', JString (session_health_name health)), (''generation'', json_u64 generation),
          (''instance_id'', JString instance_id), (''heartbeat_interval_seconds'', json_u64 heartbeat_interval_seconds),
          (''lease_expires_at'', JString lease_expires_at)])"

section \<open>Protected commands\<close>

text \<open>The arms of \<open>execute_protected\<close> that give a result to the end of the function.\<close>

definition protected_arm :: "'r cli_env \<Rightarrow> ResolvedConfig \<Rightarrow> 'r \<Rightarrow> CliCommand \<Rightarrow> string list \<Rightarrow> json cli_op" where
  "protected_arm E resolved r command args =
     (case command of
        CliCommand.Status \<Rightarrow> op_return (Inr (status_json (le_snapshot E r)))
      | CliCommand.MessageSend \<Rightarrow> execute_send E resolved r args
      | CliCommand.Inbox \<Rightarrow> execute_inbox E r args
      | CliCommand.MessageAcknowledge \<Rightarrow> op_bind (unwrap (slice_from 2 args)) (execute_ack E r)
      | CliCommand.Transcript \<Rightarrow> execute_transcript E r args
      | CliCommand.Listen \<Rightarrow> execute_listen_until E r args
      | _ \<Rightarrow> op_return (Inl (Failed LocalErrorCode.Unsupported)))"

text \<open>The end of the function: shutdown is awaited, and its error counts only where the command had none.\<close>

definition with_shutdown :: "'r cli_env \<Rightarrow> 'r \<Rightarrow> json cli_op \<Rightarrow> json cli_op" where
  "with_shutdown E r m log =
     (case m log of
        (Inr v, log') \<Rightarrow> (map_err (\<lambda>e. Failed (cli_session_error e)) (rbind (le_shutdown E r) (\<lambda>_. Inr v)), log' @ [SessionShutdown])
      | (Inl (Failed code), log') \<Rightarrow> (Inl (Failed code), log' @ [SessionShutdown])
      | (Inl stop, log') \<Rightarrow> (Inl stop, log'))"

definition finish_leave :: "'r cli_env \<Rightarrow> 'r \<Rightarrow> json cli_op" where
  "finish_leave E r log =
     (case session_call LeaveCall (le_leave E r) log of
        (Inr response, log') \<Rightarrow> to_value E (LeaveOut response) log'
      | (Inl stop, log') \<Rightarrow> (Inl stop, log' @ [SessionShutdown]))"

text \<open>The arms for \<open>squad archive\<close> and \<open>squad roster\<close> return at their first error.\<close>

definition run_protected :: "'r cli_env \<Rightarrow> ResolvedConfig \<Rightarrow> 'r \<Rightarrow> CliCommand \<Rightarrow> string list \<Rightarrow> json cli_op" where
  "run_protected E resolved r command args =
     (if command = CliCommand.SquadLeave then finish_leave E r
      else if command = CliCommand.SquadArchive then
        op_bind (session_call AuthorityCall (le_authority E r)) (\<lambda>squad_name.
        if nonempty (arg 2 args) = Some squad_name then
          op_bind (session_call ArchiveCall (le_archive E r)) (\<lambda>response. with_shutdown E r (to_value E (ArchiveOut response)))
        else with_shutdown E r (op_return (Inl (Failed LocalErrorCode.AuthorityDenied))))
      else if command = CliCommand.SquadRoster then
        op_bind (session_call RosterCall (le_roster E r)) (\<lambda>response. with_shutdown E r (to_value E (RosterOut response)))
      else with_shutdown E r (protected_arm E resolved r command args))"

definition execute_join :: "'r cli_env \<Rightarrow> ResolvedConfig \<Rightarrow> string list \<Rightarrow> json cli_op" where
  "execute_join E resolved args =
     op_bind (unwrap (slice_from 3 args)) (\<lambda>rest.
     op_bind (attempt (ok_or LocalErrorCode.InvalidInput (parse_option_pairs rest [''--name'', ''--role'', ''--mission'']))) (\<lambda>values.
     op_bind (attempt (ok_or LocalErrorCode.InvalidInput (nonempty (arg 2 args)))) (\<lambda>squad.
     op_bind (attempt (cli_paths E resolved)) (\<lambda>paths.
     op_bind (attempt (cli_client E resolved)) (\<lambda>_.
     op_bind (unwrap (map_of values ''--name'')) (\<lambda>name.
     op_bind (unwrap (map_of values ''--role'')) (\<lambda>role.
     op_bind (session_started (le_join E squad \<lparr>jsq_name = name, jsq_role = role, jsq_mode = AgentModeDto.Cooperative,
       jsq_client = cli_metadata (le_version E), jsq_mission = map_of values ''--mission''\<rparr>)) (\<lambda>(response, r).
     op_bind (to_value E (JoinOut response)) (\<lambda>v.
     op_bind (session_call SessionShutdown (le_shutdown E r)) (\<lambda>_.
     op_return (Inr v)))))))))))"

definition execute_protected :: "'r cli_env \<Rightarrow> GlobalOptions \<Rightarrow> CliCommand \<Rightarrow> string list \<Rightarrow> json cli_op" where
  "execute_protected E options command args =
     op_bind (attempt (resolve_config (le_config E) (le_env E) options None)) (\<lambda>resolved.
     if command = CliCommand.SquadJoin then execute_join E resolved args
     else op_bind (open_session E resolved) (\<lambda>r. run_protected E resolved r command args))"

section \<open>Every command\<close>

definition credential_state :: "'r cli_env \<Rightarrow> ResolvedConfig \<Rightarrow> CredentialState" where
  "credential_state E resolved =
     (case cli_paths E resolved of
        Inl _ \<Rightarrow> CredentialUnavailable
      | Inr paths \<Rightarrow> (case le_credential_exists E (pa_credential paths) of
          Inr True \<Rightarrow> Available | Inr False \<Rightarrow> Absent | Inl _ \<Rightarrow> CredentialUnavailable))"

definition execute_harness_status :: "'r cli_env \<Rightarrow> ResolvedConfig \<Rightarrow> json cli_op" where
  "execute_harness_status E resolved =
     op_bind (attempt (cli_paths E resolved)) (\<lambda>paths.
     op_bind (attempt (ok_or LocalErrorCode.InvalidConfiguration (le_status_path E paths))) (\<lambda>path.
     op_bind (attempt (map_err input_io (le_harness_status E path))) (\<lambda>found.
     op_bind (attempt (ok_or LocalErrorCode.InvalidSession found)) (\<lambda>view.
     to_value E (HarnessOut view)))))"

definition over_client :: "'r cli_env \<Rightarrow> GlobalOptions \<Rightarrow> (Error + 'a) \<Rightarrow> ('a \<Rightarrow> json cli_op) \<Rightarrow> json cli_op" where
  "over_client E options m f =
     op_bind (attempt (rbind (resolve_config (le_config E) (le_env E) options None) (cli_client E))) (\<lambda>_.
     op_bind (attempt (map_err map_client_error m)) f)"

fun execute_command :: "'r cli_env \<Rightarrow> GlobalOptions \<Rightarrow> ParsedCommand \<Rightarrow> json cli_op" where
  "execute_command E options (ParsedRelayStart arguments) =
     op_bind (attempt (resolve_config (le_config E) (le_env E) options (Some arguments))) (\<lambda>resolved.
     op_return (run_relay_until (le_addr E) (le_env_filter E) (le_tracing E) (le_create_dir E) (le_serve E)
       (go_json options) True resolved))"
| "execute_command E options ParsedHealth =
     over_client E options (le_health E) (\<lambda>health.
     op_bind (attempt (map_err map_client_error (le_ready E))) (\<lambda>ready.
     op_return (Inr (JObject [(''health'', health), (''ready'', ready)]))))"
| "execute_command E options ParsedConfigShowEffective =
     op_bind (attempt (resolve_config (le_config E) (le_env E) options None)) (\<lambda>resolved.
     to_value E (ConfigOut resolved (credential_state E resolved)))"
| "execute_command E options ParsedHarnessStatus =
     op_bind (attempt (resolve_config (le_config E) (le_env E) options None)) (execute_harness_status E)"
| "execute_command E options ParsedSquadList = over_client E options (le_list_squads E) (\<lambda>squads. to_value E (SquadsOut squads))"
| "execute_command E options (ParsedSquadCreate squad mission) =
     over_client E options (le_create_squad E \<lparr>csq_name = squad, csq_mission = mission\<rparr>) (\<lambda>s. to_value E (SquadOut s))"
| "execute_command E options (ParsedSquadDescribe squad) =
     over_client E options (le_describe_squad E squad) (\<lambda>s. to_value E (SquadOut s))"
| "execute_command E options (Deferred command arguments) = execute_protected E options command arguments"

section \<open>Accepted command lines do not panic\<close>

text \<open>What the relay accepts of a page, and that an acknowledgement names something.\<close>

fun bounded_event :: "cli_event \<Rightarrow> bool" where
  "bounded_event (InboxCall limit wait) \<longleftrightarrow> 1 \<le> limit \<and> limit \<le> 100 \<and> wait \<le> 30"
| "bounded_event (TranscriptCall after limit) \<longleftrightarrow> 1 \<le> limit \<and> limit \<le> 100"
| "bounded_event (AckCall ids) \<longleftrightarrow> ids \<noteq> []"
| "bounded_event _ \<longleftrightarrow> True"

definition orderly :: "'a cli_op \<Rightarrow> bool" where
  "orderly m \<longleftrightarrow> (\<forall>log. list_all bounded_event log \<longrightarrow> fst (m log) \<noteq> Inl Panicked \<and> list_all bounded_event (snd (m log)))"

named_theorems orderly_intros

lemma orderly_bind [orderly_intros]:
  assumes "orderly m" and "\<And>x. orderly (f x)"
  shows "orderly (op_bind m f)"
  using assms by (fastforce simp: orderly_def op_bind_def split: prod.splits sum.splits)

lemma orderly_unwrap_bind: "m = Some x \<Longrightarrow> orderly (f x) \<Longrightarrow> orderly (op_bind (unwrap m) f)"
  by (simp add: orderly_def op_bind_def unwrap_def ok_or_def)

lemma orderly_attempt_bind: "m = Inr x \<Longrightarrow> orderly (f x) \<Longrightarrow> orderly (op_bind (attempt m) f)"
  by (simp add: orderly_def op_bind_def attempt_def)

lemma orderly_return [orderly_intros]: "r \<noteq> Inl Panicked \<Longrightarrow> orderly (op_return r)"
  by (simp add: orderly_def)

lemma orderly_attempt [orderly_intros]: "orderly (attempt m)"
  by (cases m) (simp_all add: orderly_def attempt_def)

lemma orderly_to_value [orderly_intros]: "orderly (to_value E out)"
  by (simp add: to_value_def orderly_attempt)

lemma orderly_session_call [orderly_intros]: "bounded_event event \<Longrightarrow> orderly (session_call event m)"
  by (cases m) (simp_all add: orderly_def session_call_def)

lemma orderly_session_started [orderly_intros]: "orderly (session_started m)"
  by (cases m) (simp_all add: orderly_def session_started_def)

lemma orderly_with_shutdown [orderly_intros]: "orderly m \<Longrightarrow> orderly (with_shutdown E r m)"
  by (fastforce simp: orderly_def with_shutdown_def rbind_def split: prod.splits sum.splits cli_stop.splits)

lemma orderly_finish_leave [orderly_intros]: "orderly (finish_leave E r)"
  using orderly_to_value [of E] by (cases "le_leave E r") (auto simp: orderly_def finish_leave_def session_call_def)

lemma orderly_open_session [orderly_intros]: "orderly (open_session E resolved)"
  unfolding open_session_def by (intro orderly_intros)

lemma orderly_acknowledge [orderly_intros]: "ids \<noteq> [] \<Longrightarrow> orderly (acknowledge_call E r ids)"
  unfolding acknowledge_call_def by (intro orderly_intros) simp

lemma parse_unsigned_fits: "parse_unsigned largest s = Some n \<Longrightarrow> n \<le> smaller \<Longrightarrow> parse_unsigned smaller s = Some n"
  unfolding parse_unsigned_def Let_def by (metis option.distinct(1) option.inject)

lemma bounded_number_reads:
  assumes "bounded_number v lo hi" and "hi \<le> largest"
  shows "\<exists>s n. v = Some s \<and> parse_lossy largest s = Some n \<and> lo \<le> n \<and> n \<le> hi"
proof -
  obtain s n where s: "nonempty v = Some s" and n: "parse_unsigned 65535 s = Some n" "lo \<le> n" "n \<le> hi"
    using assms(1) by (auto simp: bounded_number_def bind_eq_Some_conv split: option.splits)
  have "v = Some s" "is_utf8 s"
    using s by (auto simp: nonempty_def to_str_def bind_eq_Some_conv split: option.splits if_splits)
  then show ?thesis using n parse_unsigned_fits [OF n(1)] assms(2) by (simp add: parse_lossy_def)
qed

text \<open>The reader of \<open>inbox\<close> follows its grammar.\<close>

lemma inbox_grammar_step:
  assumes "inbox_grammar (flag # rest) seen"
  shows "flag = ''--limit'' \<and> bounded_number (arg 0 rest) 1 100 \<and> inbox_grammar (drop 1 rest) (insert flag seen)
    \<or> flag = ''--wait'' \<and> bounded_number (arg 0 rest) 0 30 \<and> inbox_grammar (drop 1 rest) (insert flag seen)
    \<or> flag = ''--ack'' \<and> ack_values rest \<noteq> [] \<and> inbox_grammar (after_ack rest) (insert flag seen)"
  using assms by (simp only: inbox_grammar.simps(2) if_bool_eq_disj) blast

lemma inbox_reader_steps:
  "arg 0 rest = Some s \<Longrightarrow> parse_lossy 65535 s = Some n \<Longrightarrow>
     inbox_reader lossy (''--limit'' # rest) (limit, wait, ack) = inbox_reader lossy (drop 1 rest) (n, wait, ack)"
  "arg 0 rest = Some s \<Longrightarrow> parse_lossy 255 s = Some n \<Longrightarrow>
     inbox_reader lossy (''--wait'' # rest) (limit, wait, ack) = inbox_reader lossy (drop 1 rest) (limit, n, ack)"
  "inbox_reader lossy (''--ack'' # rest) (limit, wait, ack)
     = inbox_reader lossy (after_ack rest) (limit, wait, ack @ map (to_string_lossy lossy) (ack_values rest))"
  by simp_all

lemma inbox_reader_reads:
  assumes "inbox_grammar args seen" and "1 \<le> limit" "limit \<le> 100" "wait \<le> 30"
  shows "\<exists>limit' wait' ack'. inbox_reader lossy args (limit, wait, ack) = Some (limit', wait', ack')
    \<and> 1 \<le> limit' \<and> limit' \<le> 100 \<and> wait' \<le> 30"
  using assms
proof (induction args arbitrary: seen limit wait ack rule: length_induct)
  case (1 args)
  show ?case
  proof (cases args)
    case (Cons flag rest)
    have shorter: "length (drop 1 rest) < length args" "length (after_ack rest) < length args"
      using Cons length_dropWhile_le [of "\<lambda>v. \<not> starts_with_dashes v" rest] by auto
    from inbox_grammar_step [of flag rest seen] "1.prems"(1) Cons
    consider (limit) "flag = ''--limit''" "bounded_number (arg 0 rest) 1 100" "inbox_grammar (drop 1 rest) (insert flag seen)"
      | (wait) "flag = ''--wait''" "bounded_number (arg 0 rest) 0 30" "inbox_grammar (drop 1 rest) (insert flag seen)"
      | (ack) "flag = ''--ack''" "inbox_grammar (after_ack rest) (insert flag seen)"
      by blast
    then show ?thesis
    proof cases
      case limit
      obtain s n where "arg 0 rest = Some s" "parse_lossy 65535 s = Some n" "1 \<le> n" "n \<le> 100"
        using bounded_number_reads [OF limit(2), of 65535] by auto
      then show ?thesis using 1 Cons limit shorter(1) by (simp only: inbox_reader_steps)
    next
      case wait
      obtain s n where "arg 0 rest = Some s" "parse_lossy 255 s = Some n" "n \<le> 30"
        using bounded_number_reads [OF wait(2), of 255] by auto
      then show ?thesis using 1 Cons wait shorter(1) by (simp only: inbox_reader_steps)
    next
      case ack
      then show ?thesis using 1 Cons shorter(2) by (simp only: inbox_reader_steps)
    qed
  qed (use 1 in simp)
qed

lemma listen_grammar_step:
  assumes "listen_grammar (flag # rest) wait ack"
  shows "flag = ''--wait'' \<and> bounded_number (arg 0 rest) 1 30
    \<or> flag \<noteq> ''--wait'' \<and> listen_grammar rest wait True"
  using assms by (simp only: listen_grammar.simps(2) if_bool_eq_disj) auto

lemma listen_wait_reads:
  assumes "listen_grammar args wait ack" and "value_after ''--wait'' args = Some v"
  shows "\<exists>n. parse_lossy 255 v = Some n \<and> n \<le> 30"
  using assms
proof (induction args arbitrary: ack)
  case (Cons flag rest)
  show ?case
  proof (cases "flag = ''--wait''")
    case True
    then obtain s n where "arg 0 rest = Some s" "parse_lossy 255 s = Some n" "n \<le> 30"
      using bounded_number_reads [of "arg 0 rest" 1 30 255] listen_grammar_step [OF Cons.prems(1)] by auto
    then show ?thesis using Cons.prems(2) True by (cases rest) (auto simp: arg_def)
  next
    case False
    then have "listen_grammar rest wait True" "value_after ''--wait'' rest = Some v"
      using listen_grammar_step [OF Cons.prems(1)] Cons.prems(2) by (cases rest; auto)+
    then show ?thesis by (rule Cons.IH)
  qed
qed simp

text \<open>What the parser has established of a command's arguments.\<close>

lemma single_command_cases:
  assumes "single_command args = Some command"
  shows "command = CliCommand.Inbox \<and> valid_inbox_grammar args
    \<or> command = CliCommand.Listen \<and> arg 0 args = Some ''listen'' \<and> valid_listen_grammar args
    \<or> command = CliCommand.Transcript \<and> arg 0 args = Some ''transcript'' \<and> valid_transcript_grammar args
    \<or> command = CliCommand.Status"
  using assms unfolding single_command_def by (simp split: if_split_asm)

definition established :: "CliCommand \<Rightarrow> string list \<Rightarrow> bool" where
  "established command args \<longleftrightarrow>
     (command = CliCommand.SquadJoin \<longrightarrow> valid_join_grammar args)
     \<and> (command = CliCommand.MessageSend \<longrightarrow> valid_send_grammar args = Some True)
     \<and> (command = CliCommand.MessageAcknowledge \<longrightarrow> 3 \<le> length args)
     \<and> (command = CliCommand.Inbox \<longrightarrow> valid_inbox_grammar args)
     \<and> (command = CliCommand.Listen \<longrightarrow> arg 0 args = Some ''listen'' \<and> valid_listen_grammar args)
     \<and> (command = CliCommand.Transcript \<longrightarrow> arg 0 args = Some ''transcript'' \<and> valid_transcript_grammar args)"

lemma if_SomeE: "(if b then Some x else m) = Some y \<Longrightarrow> (b \<Longrightarrow> x = y \<Longrightarrow> P) \<Longrightarrow> (m = Some y \<Longrightarrow> P) \<Longrightarrow> P"
  by (simp split: if_split_asm)

lemma keyed_command_established:
  assumes "keyed_command args = Some command"
  shows "established command args"
  using assms unfolding keyed_command_def Let_def
  by (elim if_SomeE conjE) (auto simp: established_def dest!: single_command_cases)

lemma parse_deferred_established:
  assumes "parse_deferred args json = Some (Inr (Deferred command arguments))"
  shows "arguments = args \<and> established command args"
  using assms keyed_command_established [of args command]
  by (auto simp: parse_deferred_def parse_error_def established_def bind_eq_Some_conv split: if_splits option.splits)

lemma parse_command_established:
  assumes "parse_command addr args json = Some (Inr (Deferred command arguments))"
  shows "established command arguments"
  using assms parse_deferred_established [of args json command arguments]
  by (auto simp: parse_command_def parse_relay_start_def parse_error_def result_simps split: option.splits if_split_asm)

lemma transcript_arguments_read:
  assumes "arg 0 args = Some first" and "valid_transcript_grammar args"
  shows "\<exists>after limit. transcript_arguments args = Some (after, limit) \<and> 1 \<le> limit \<and> limit \<le> 100"
  using assms
  by (auto simp: valid_transcript_grammar_def transcript_arguments_def slice_from_def arg_def MessageSequence_new_def Suc_le_eq
      split: option.splits if_splits)

lemma execute_listen_orderly [orderly_intros]:
  assumes "arg 0 args = Some ''listen''" and "valid_listen_grammar args"
  shows "orderly (execute_listen_until E r args)"
proof -
  obtain rest where args: "args = ''listen'' # rest" using assms(1) by (cases args) (auto simp: arg_def split: if_splits)
  have "\<exists>wait. listen_wait args = Some wait \<and> wait \<le> 30"
  proof (cases "value_after ''--wait'' args")
    case (Some v)
    then have "value_after ''--wait'' rest = Some v" using args by (cases rest) auto
    then show ?thesis using listen_wait_reads [of rest False False v] assms(2) args Some
      by (auto simp: listen_wait_def valid_listen_grammar_def)
  qed (simp add: listen_wait_def)
  then obtain wait where wait: "listen_wait args = Some wait" "wait \<le> 30" by blast
  have loop: "orderly (listen_loop wait turns)" for turns
    using wait(2) by (induction wait turns rule: listen_loop.induct) (auto intro!: orderly_intros)
  show ?thesis unfolding execute_listen_until_def
    by (intro orderly_unwrap_bind [OF wait(1)] orderly_bind loop) (auto intro!: orderly_intros)
qed

lemma execute_inbox_orderly [orderly_intros]:
  assumes "valid_inbox_grammar args"
  shows "orderly (execute_inbox E r args)"
proof -
  obtain limit wait ack where read: "inbox_arguments (le_lossy E) args = Some (limit, wait, ack)"
      and bounds: "1 \<le> limit" "limit \<le> 100" "wait \<le> 30"
    using inbox_reader_reads [of "drop 1 args" "{}" 100 0] assms unfolding inbox_arguments_def valid_inbox_grammar_def by fastforce
  show ?thesis unfolding execute_inbox_def
    by (intro orderly_unwrap_bind [OF read]) (use bounds in \<open>auto intro!: orderly_intros\<close>)
qed

lemma execute_transcript_orderly [orderly_intros]:
  assumes "arg 0 args = Some first" and "valid_transcript_grammar args"
  shows "orderly (execute_transcript E r args)"
proof -
  obtain after limit where "transcript_arguments args = Some (after, limit)" "1 \<le> limit" "limit \<le> 100"
    using transcript_arguments_read [OF assms] by blast
  then show ?thesis unfolding execute_transcript_def
    by (intro orderly_unwrap_bind) (auto intro!: orderly_intros)
qed

lemma execute_ack_orderly [orderly_intros]: "ids \<noteq> [] \<Longrightarrow> orderly (execute_ack E r ids)"
  unfolding execute_ack_def by (intro orderly_intros) simp

lemma execute_send_orderly [orderly_intros]:
  assumes "valid_send_grammar args = Some True"
  shows "orderly (execute_send E resolved r args)"
proof -
  obtain found to where read: "Option.bind (slice_from 2 args) (\<lambda>rest. parse_option_pairs rest send_options) = Some found"
      and to: "map_of found ''--to'' = Some to" and body: "map_of found ''--body'' \<noteq> None \<or> map_of found ''--file'' \<noteq> None"
    using assms by (auto simp: valid_send_grammar_def slice_from_def split: option.splits if_splits)
  have "orderly (send_body E resolved found)"
    using body by (auto simp: send_body_def Let_def intro!: orderly_intros orderly_unwrap_bind split: option.splits)
  then show ?thesis unfolding execute_send_def Let_def
    by (intro orderly_unwrap_bind [OF read] orderly_bind orderly_unwrap_bind [OF to]) (auto intro!: orderly_intros)
qed

lemma execute_join_orderly [orderly_intros]:
  assumes "valid_join_grammar args"
  shows "orderly (execute_join E resolved args)"
proof -
  obtain found name role where len: "3 \<le> length args"
      and read: "parse_option_pairs (drop 3 args) [''--name'', ''--role'', ''--mission''] = Some found"
      and name: "map_of found ''--name'' = Some name" and role: "map_of found ''--role'' = Some role"
    using assms by (auto simp: valid_join_grammar_def valid_named_options_def split: option.splits if_splits)
  show ?thesis unfolding execute_join_def
    by (intro orderly_unwrap_bind [of _ "drop 3 args"] orderly_attempt_bind [of _ found] orderly_bind orderly_attempt
        orderly_unwrap_bind [OF name] orderly_unwrap_bind [OF role])
      (use len read in \<open>auto simp: slice_from_def intro!: orderly_intros\<close>)
qed

lemma run_protected_orderly:
  assumes "established command args"
  shows "orderly (run_protected E resolved r command args)"
proof -
  have "orderly (protected_arm E resolved r command args)"
  proof (cases "command = CliCommand.MessageAcknowledge")
    case True
    then have "slice_from 2 args = Some (drop 2 args)" "drop 2 args \<noteq> []"
      using assms by (auto simp: established_def slice_from_def)
    then show ?thesis using True by (simp add: protected_arm_def orderly_unwrap_bind execute_ack_orderly)
  next
    case False
    then show ?thesis using assms
      by (cases command) (auto simp: protected_arm_def established_def intro!: orderly_intros)
  qed
  then show ?thesis unfolding run_protected_def by (auto intro!: orderly_intros)
qed

lemma execute_command_orderly:
  assumes "\<And>command arguments. p = Deferred command arguments \<Longrightarrow> established command arguments"
  shows "orderly (execute_command E options p)"
proof (cases p)
  case (Deferred command arguments)
  then show ?thesis using assms [OF Deferred]
    by (auto simp: execute_protected_def established_def intro!: orderly_intros run_protected_orderly)
next
  case (ParsedRelayStart arguments)
  have "run_relay_until addr env_filter tracing create_dir served json hard resolved \<noteq> Inl Panicked"
    for addr env_filter tracing create_dir served json hard resolved
    by (auto simp: run_relay_until_def handle_relay_error_def result_simps split: prod.splits if_splits)
  then show ?thesis using ParsedRelayStart by (auto intro!: orderly_intros)
qed (auto simp: over_client_def execute_harness_status_def intro!: orderly_intros)

text \<open>The one command line that panics: its blank makes the key of a command out of a single argument.\<close>

lemma deferred_key_single:
  assumes "deferred_key args = ''message send''" and "length args < 2"
  shows "args = [''message send'']"
  using assms by (cases args) (auto simp: deferred_key_def to_str_def map_filter_simps split: if_splits)

lemma parse_deferred_panics: "parse_deferred args json = None \<longleftrightarrow> args = [''message send'']"
proof
  assume "parse_deferred args json = None"
  then show "args = [''message send'']"
    using deferred_key_single [of args]
    by (auto simp: parse_deferred_def valid_send_grammar_def bind_eq_None_conv split: if_splits)
qed (simp add: parse_deferred_def valid_send_grammar_def deferred_key_def map_filter_simps to_str_def)

lemma parse_command_panics: "parse_command addr args json = None \<longleftrightarrow> args = [''message send'']"
proof -
  have "parse_command addr args json = None \<Longrightarrow> parse_deferred args json = None"
    by (auto simp: parse_command_def split: option.splits if_split_asm)
  moreover have "parse_command addr [''message send''] json = parse_deferred [''message send''] json"
    by (simp add: parse_command_def arg_def to_str_def)
  ultimately show ?thesis using parse_deferred_panics [of args json] by metis
qed

text \<open>
  (C27) A command line that is accepted never panics. The readers of a command's arguments unwrap, index
  and take slices without checks of their own; the grammar that the parser checked is enough for all of
  them, whatever the relay, the files and the session answer. What the commands then ask of the relay is within its
  bounds: pages of 1 to 100 messages, waits of at most 30 seconds, and no empty acknowledgement. Parsing itself panics on
  exactly one command: the single argument \<open>message send\<close>, with its blank.
\<close>

theorem accepted_command_lines_do_not_panic:
  shows "(parse_arguments addr argv = None \<longleftrightarrow>
      (\<exists>g. global_options (drop 1 argv) {} (GlobalOptions_default\<lparr>go_json := leading_json_requested (drop 1 argv)\<rparr>)
         = Inr (g, [''message send''])))
    \<and> (\<forall>g p result log. parse_arguments addr argv = Some (Inr (Command g p)) \<and> execute_command E g p [] = (result, log)
         \<longrightarrow> result \<noteq> Inl Panicked \<and> list_all bounded_event log)"
proof -
  let ?args = "drop 1 argv"
  let ?start = "GlobalOptions_default\<lparr>go_json := leading_json_requested ?args\<rparr>"
  have trivial: "?args \<in> {[], [''--help''], [''-h''], [''--version''], [''-V'']} \<Longrightarrow> global_options ?args {} ?start \<noteq> Inr (g, [''message send''])" for g
    by auto
  have "parse_arguments addr argv = None \<longleftrightarrow> (\<exists>g. global_options ?args {} ?start = Inr (g, [''message send'']))"
    using trivial by (auto simp: parse_arguments_def Let_def parse_command_panics split: sum.splits if_split_asm)
  moreover have "result \<noteq> Inl Panicked \<and> list_all bounded_event log"
    if accepted: "parse_arguments addr argv = Some (Inr (Command g p))" and run: "execute_command E g p [] = (result, log)" for g p result log
  proof -
    obtain rest json where parsed: "parse_command addr rest json = Some (Inr p)"
      using accepted by (auto simp: parse_arguments_def Let_def result_simps split: sum.splits if_split_asm)
    have "orderly (execute_command E g p)"
      by (rule execute_command_orderly) (use parsed parse_command_established in blast)
    then show ?thesis using run unfolding orderly_def by (auto dest: spec [of _ "[]"])
  qed
  ultimately show ?thesis by blast
qed

theorem accepted_command_lines_do_not_panic_witness:
  "parse_arguments (\<lambda>_. None) [''psst'', ''inbox'', ''--limit'', ''5''] = Some (Inr (Command GlobalOptions_default (Deferred CliCommand.Inbox [''inbox'', ''--limit'', ''5''])))
    \<and> (\<forall>E :: nat cli_env. fst (execute_command E GlobalOptions_default (Deferred CliCommand.Inbox [''inbox'', ''--limit'', ''5'']) []) \<noteq> Inl Panicked)
    \<and> parse_arguments (\<lambda>_. None) [''psst'', ''message send''] = None"
proof -
  have accepted: "parse_arguments (\<lambda>_. None) [''psst'', ''inbox'', ''--limit'', ''5'']
      = Some (Inr (Command GlobalOptions_default (Deferred CliCommand.Inbox [''inbox'', ''--limit'', ''5''])))"
    by (simp add: parse_arguments_def GlobalOptions_default_def takes_value_def plain_value_def parse_command_def parse_deferred_def deferred_key_def
        keyed_command_def single_command_def valid_inbox_grammar_def bounded_number_def nonempty_def parse_unsigned_def arg_def
        to_str_def map_filter_simps digits_value_def eval_simps)
  have "parse_arguments (\<lambda>_. None) [''psst'', ''message send''] = None"
    using accepted_command_lines_do_not_panic [THEN conjunct1, of "\<lambda>_. None" "[''psst'', ''message send'']"]
    by (simp add: takes_value_def plain_value_def)
  moreover have "fst (execute_command E GlobalOptions_default (Deferred CliCommand.Inbox [''inbox'', ''--limit'', ''5'']) []) \<noteq> Inl Panicked"
    for E :: "nat cli_env"
    using accepted_command_lines_do_not_panic [of "\<lambda>_. None" "[''psst'', ''inbox'', ''--limit'', ''5'']" E] accepted
    by (metis prod.collapse)
  ultimately show ?thesis using accepted by blast
qed

section \<open>The session is released\<close>

definition is_call :: "cli_event \<Rightarrow> bool" where
  "is_call event \<longleftrightarrow> event \<noteq> SessionStarted \<and> event \<noteq> SessionShutdown"

text \<open>An operation that only calls, and neither starts nor ends a session.\<close>

definition only_calls :: "'a cli_op \<Rightarrow> bool" where
  "only_calls m \<longleftrightarrow> (\<forall>log. \<exists>calls. snd (m log) = log @ calls \<and> list_all is_call calls)"

named_theorems call_intros

lemma only_calls_bind [call_intros]:
  assumes m: "only_calls m" and f: "\<And>x. only_calls (f x)"
  shows "only_calls (op_bind m f)"
  unfolding only_calls_def
proof
  fix log
  obtain calls where first: "snd (m log) = log @ calls" "list_all is_call calls" using m unfolding only_calls_def by blast
  show "\<exists>calls. snd (op_bind m f log) = log @ calls \<and> list_all is_call calls"
  proof (cases "fst (m log)")
    case (Inl e)
    then show ?thesis using first by (cases "m log") (auto simp: op_bind_def)
  next
    case (Inr x)
    obtain more where "snd (f x (log @ calls)) = (log @ calls) @ more" "list_all is_call more"
      using f [of x] unfolding only_calls_def by blast
    then show ?thesis using first Inr by (cases "m log") (auto simp: op_bind_def intro!: exI [of _ "calls @ more"])
  qed
qed

lemma only_calls_pure [call_intros]:
  "only_calls (op_return r)" "only_calls (Pair r)" "only_calls (attempt m)" "only_calls (unwrap u)" "only_calls (to_value E out)"
  by (simp_all add: only_calls_def attempt_def unwrap_def to_value_def)

lemma only_calls_session_call [call_intros]: "is_call event \<Longrightarrow> only_calls (session_call event m)"
  by (auto simp: only_calls_def session_call_def)

lemma only_calls_listen [call_intros]: "only_calls (listen_loop wait turns)"
  by (induction wait turns rule: listen_loop.induct) (auto simp: is_call_def intro!: call_intros)

lemma only_calls_arm: "only_calls (protected_arm E resolved r command args)"
  by (cases command)
    (auto simp: protected_arm_def execute_send_def send_body_def execute_inbox_def execute_ack_def execute_transcript_def
      execute_listen_until_def acknowledge_call_def is_call_def Let_def intro!: call_intros split: option.splits prod.splits)

lemma to_value_encodes:
  assumes "\<forall>out. le_encode E out \<noteq> None" and "to_value E out log = (r, log')"
  shows "(\<exists>v. r = Inr v) \<and> log' = log"
  using assms(2) assms(1) [rule_format, of out] by (auto simp: to_value_def attempt_def)

lemma with_shutdown_log:
  assumes "with_shutdown E r m log = (result, log')" and "only_calls m" and "result \<notin> Inl ` {Panicked, StillRunning, ProcessExit}"
  shows "\<exists>calls. log' = log @ calls @ [SessionShutdown] \<and> list_all is_call calls"
proof -
  obtain calls where "snd (m log) = log @ calls" "list_all is_call calls" using assms(2) unfolding only_calls_def by blast
  then show ?thesis using assms(1,3)
    by (cases "m log"; cases "fst (m log)") (auto simp: with_shutdown_def split: cli_stop.splits)
qed

text \<open>The way a command ended that ends the session in good order.\<close>

definition ended_well :: "CliCommand \<Rightarrow> cli_stop + json \<Rightarrow> bool" where
  "ended_well command result \<longleftrightarrow> result \<notin> Inl ` {Panicked, StillRunning, ProcessExit}
     \<and> (command = CliCommand.SquadArchive \<or> command = CliCommand.SquadRoster \<longrightarrow> is_ok result)"

abbreviation shutdown_due :: "CliCommand \<Rightarrow> cli_stop + json \<Rightarrow> cli_event list" where
  "shutdown_due command result \<equiv> (if command = CliCommand.SquadLeave \<and> is_ok result then [] else [SessionShutdown])"

lemma run_protected_log:
  assumes run: "run_protected E resolved r command args log = (result, log')"
    and "\<forall>out. le_encode E out \<noteq> None" and "ended_well command result"
  shows "\<exists>calls. log' = log @ calls @ shutdown_due command result \<and> list_all is_call calls"
proof (cases "command \<in> {CliCommand.SquadLeave, CliCommand.SquadArchive, CliCommand.SquadRoster}")
  case False
  then show ?thesis
    using with_shutdown_log [of E r "protected_arm E resolved r command args" log result log'] only_calls_arm [of E resolved r command args] assms
    by (auto simp: run_protected_def ended_well_def)
next
  case True
  then consider "command = CliCommand.SquadLeave" | "command = CliCommand.SquadArchive" | "command = CliCommand.SquadRoster" by blast
  then show ?thesis
  proof cases
    case 1
    then show ?thesis using run
      by (cases "le_leave E r")
        (auto simp: run_protected_def finish_leave_def session_call_def is_call_def dest!: to_value_encodes [OF assms(2)])
  next
    case 2
    then show ?thesis using run assms(2,3)
      by (auto simp: run_protected_def op_bind_def session_call_def with_shutdown_def to_value_def attempt_def is_call_def ended_well_def
          ok_or_def map_err_def split: sum.splits option.splits if_splits)
  next
    case 3
    then show ?thesis using run assms(2,3)
      by (auto simp: run_protected_def op_bind_def session_call_def with_shutdown_def to_value_def attempt_def is_call_def ended_well_def
          ok_or_def map_err_def split: sum.splits option.splits if_splits)
  qed
qed

lemma open_session_log:
  assumes "open_session E resolved log = (opened, log')"
  shows "(\<exists>r. opened = Inr r \<and> log' = log @ [SessionStarted]) \<or> (\<exists>code. opened = Inl (Failed code) \<and> log' = log)"
  using assms unfolding open_session_def
  by (elim op_bind_cases) (auto simp: attempt_def session_started_def result_simps split: sum.splits)

lemma execute_join_log:
  assumes "execute_join E resolved args [] = (result, log)" and "\<forall>out. le_encode E out \<noteq> None" and "SessionStarted \<in> set log"
  shows "log = [SessionStarted, SessionShutdown]"
  using assms(1,3) unfolding execute_join_def
  by (elim op_bind_cases)
    (auto simp: attempt_def unwrap_def session_started_def session_call_def result_simps dest!: to_value_encodes [OF assms(2)]
      elim!: op_bind_cases split: sum.splits)

text \<open>
  (C29) A command over a session releases it. Where a command started a session and came to its end, the
  session was started once and first, everything else it did lies between, and last it was shut down once; only a
  leave that succeeded, which ends the session itself, is not followed by a shutdown. (A failed \<open>squad archive\<close> or
  \<open>squad roster\<close> is excepted, and that answers can be encoded is assumed.)
\<close>

theorem protected_commands_release_the_session:
  assumes run: "execute_protected E options command args [] = (result, log)" and started: "SessionStarted \<in> set log"
    and encodes: "\<forall>out. le_encode E out \<noteq> None" and ended: "ended_well command result"
  shows "\<exists>calls. log = SessionStarted # calls @ (if command = CliCommand.SquadLeave \<and> is_ok result then [] else [SessionShutdown])
    \<and> SessionStarted \<notin> set calls \<and> SessionShutdown \<notin> set calls"
proof -
  obtain resolved where body: "(if command = CliCommand.SquadJoin then execute_join E resolved args
      else op_bind (open_session E resolved) (\<lambda>r. run_protected E resolved r command args)) [] = (result, log)"
    using run started unfolding execute_protected_def by (elim op_bind_cases) (auto simp: attempt_def)
  show ?thesis
  proof (cases "command = CliCommand.SquadJoin")
    case True
    then show ?thesis using body execute_join_log [of E resolved args result log] encodes started by auto
  next
    case False
    then obtain r where "run_protected E resolved r command args [SessionStarted] = (result, log)"
      using body started by (auto elim!: op_bind_cases dest: open_session_log)
    from run_protected_log [OF this encodes ended] show ?thesis by (fastforce simp: is_call_def list_all_iff)
  qed
qed

text \<open>The exception: a roster that fails returns past the shutdown.\<close>

lemma failed_roster_skips_shutdown:
  "le_roster E r = Inl e \<Longrightarrow>
     run_protected E resolved r CliCommand.SquadRoster args log = (Inl (Failed (cli_session_error e)), log @ [RosterCall])"
  by (simp add: run_protected_def op_bind_def session_call_def)

text \<open>Commands of the help text that open a session only to answer that they are not supported.\<close>

lemma documented_commands_unsupported:
  assumes "command \<in> {CliCommand.ProfileList, CliCommand.ProfileShow, CliCommand.DatabaseInfo, CliCommand.DatabaseBackup,
    CliCommand.DatabaseIntegrityCheck}"
  shows "run_protected E resolved r command args log = (Inl (Failed LocalErrorCode.Unsupported), log @ [SessionShutdown])"
  using assms by (auto simp: run_protected_def with_shutdown_def protected_arm_def)

text \<open>\<open>listen --ack\<close> acknowledges the messages it prints, all of them, after it has received them.\<close>

lemma listen_loop_calls:
  "listen_loop wait turns log = (Inr response, log') \<Longrightarrow> \<exists>n. log' = log @ replicate n (InboxCall 100 wait)"
proof (induction wait turns arbitrary: log rule: listen_loop.induct)
  case (3 wait m turns)
  obtain first log1 where "session_call (InboxCall 100 wait) m log = (Inr first, log1)" "log1 = log @ [InboxCall 100 wait]"
      and rest: "(if ibr_messages first \<noteq> [] \<or> wait = 0 then op_return (Inr first) else listen_loop wait turns) log1 = (Inr response, log')"
    using 3(2) by (auto elim!: op_bind_cases simp: session_call_def)
  then show ?case
  proof (cases "ibr_messages first \<noteq> [] \<or> wait = 0")
    case True
    then show ?thesis using rest \<open>log1 = _\<close> by (auto intro!: exI [of _ 1])
  next
    case False
    then obtain n where "log' = log1 @ replicate n (InboxCall 100 wait)" using 3(1) [OF False, of log1] rest by auto
    then show ?thesis using \<open>log1 = _\<close> by (auto intro!: exI [of _ "Suc n"])
  qed
qed (auto intro!: exI [of _ 0])

lemma listen_acknowledges_what_it_prints:
  assumes "execute_listen_until E r args [] = (Inr v, log)"
  shows "\<exists>response n wait. le_encode E (InboxOut response) = Some v
    \<and> log = replicate n (InboxCall 100 wait)
        @ (if ''--ack'' \<in> set args \<and> ibr_messages response \<noteq> [] then [AckCall (map md_id (ibr_messages response))] else [])"
proof -
  from assms obtain wait response log1 log2 where
      "listen_loop wait (le_listen E r) [] = (Inr response, log1)"
      and ack: "(if ''--ack'' \<in> set args \<and> ibr_messages response \<noteq> []
        then op_bind (acknowledge_call E r (map md_id (ibr_messages response))) (\<lambda>_. op_return (Inr ()))
        else op_return (Inr ())) log1 = (Inr (), log2)"
      and printed: "to_value E (InboxOut response) log2 = (Inr v, log)"
    unfolding execute_listen_until_def by (elim op_bind_cases) (auto simp: unwrap_def)
  from listen_loop_calls [OF this(1)] obtain n where "log1 = replicate n (InboxCall 100 wait)" by auto
  moreover have "log2 = log1 @ (if ''--ack'' \<in> set args \<and> ibr_messages response \<noteq> []
      then [AckCall (map md_id (ibr_messages response))] else [])"
    using ack by (auto simp: acknowledge_call_def session_call_def elim!: op_bind_cases split: if_splits)
  moreover have "le_encode E (InboxOut response) = Some v" "log = log2"
    using printed by (auto simp: to_value_def attempt_def result_simps)
  ultimately show ?thesis by blast
qed

text \<open>A profile whose session is ready, in the environment of the sample configuration.\<close>

definition sample_cli_env :: "nat cli_env" where
  "sample_cli_env = \<lparr>le_config = sample_config_lib, le_env = (\<lambda>key. if key = ''HOME'' then Some ''/h'' else None),
     le_sha256 = (\<lambda>_. []), le_version = ''1'', le_addr = (\<lambda>_. None), le_env_filter = (\<lambda>_. True), le_tracing = True,
     le_create_dir = (\<lambda>_. Inr ()), le_serve = (\<lambda>_. Inr ()),
     le_binding = (\<lambda>_. Inr (Some \<lparr>pb_version = 1, pb_profile = ''default'', pb_relay_origin = ''http://127.0.0.1:7341'',
       pb_squad_name = ''alpha'', pb_squad_id = ''sqd_1'', pb_member_id = ''mem_1''\<rparr>)),
     le_recovered = Inr (), le_rebinding = (\<lambda>_. Inr None), le_client = (\<lambda>_. Inr ()), le_start = (\<lambda>_. Inr 7),
     le_join = (\<lambda>_ _. Inl NotReady), le_leave = (\<lambda>_. Inl NotReady), le_authority = (\<lambda>_. Inr ''alpha''),
     le_archive = (\<lambda>_. Inl NotReady), le_roster = (\<lambda>_. Inl NotReady),
     le_snapshot = (\<lambda>_. (SessionHealth.Ready, 1, ''ins_1'', 30, ''t'')), le_send = (\<lambda>_ _. Inl NotReady),
     le_acknowledge = (\<lambda>_ _. Inl NotReady), le_inbox = (\<lambda>_ _ _. Inr no_messages), le_listen = (\<lambda>_. []),
     le_transcript = (\<lambda>_ _ _. Inl NotReady), le_shutdown = (\<lambda>_. Inr ()), le_health = Inr JNull, le_ready = Inr JNull,
     le_list_squads = Inr [], le_create_squad = (\<lambda>_. Inl Error.Timeout), le_describe_squad = (\<lambda>_. Inl Error.Timeout),
     le_credential_exists = (\<lambda>_. Inr True), le_status_path = (\<lambda>_. None), le_harness_status = (\<lambda>_. Inr None),
     le_encode = (\<lambda>_. Some JNull), le_random = None, le_stdin = ([], False), le_metadata = (\<lambda>_. Inr 0),
     le_open = (\<lambda>_. Inr ([], False)), le_lossy = (\<lambda>v. v)\<rparr>"

lemma sample_resolves:
  "\<exists>r. resolve_config sample_config_lib (le_env sample_cli_env) GlobalOptions_default None = Inr r
     \<and> ev_value (rs_profile r) = ''default'' \<and> ev_value (rs_relay_origin r) = ''http://127.0.0.1:7341''"
  by (simp add: sample_cli_env_def resolve_config_def detect_def cli_flags_def GlobalOptions_default_def RelayStartArgs_default_def
        path_join_def resolve_def sample_config_lib_def read_config_def MAX_CONFIG_BYTES_def
        FileConfig_default_def pick_def canonical_relay_origin_def DEFAULT_RELAY_ORIGIN_def sample_url_lib_def
        sample_origin_url_def trim_end_matches_def validate_profile_name_def profile_char_def parsed_value_def parse_bool_def parse_unsigned_def
        bounded_value_def decimal_20 digits_value_def Let_def eval_simps)

lemma sample_command_line:
  "execute_protected sample_cli_env GlobalOptions_default CliCommand.Inbox [''inbox''] []
     = (Inr JNull, [SessionStarted, InboxCall 100 0, SessionShutdown])"
proof -
  obtain r where r: "resolve_config sample_config_lib (le_env sample_cli_env) GlobalOptions_default None = Inr r"
      and parts: "ev_value (rs_profile r) = ''default''" "ev_value (rs_relay_origin r) = ''http://127.0.0.1:7341''"
    using sample_resolves by blast
  have env: "le_config sample_cli_env = sample_config_lib" by (simp add: sample_cli_env_def)
  have "open_session sample_cli_env r log = (Inr 7, log @ [SessionStarted])" for log
    by (simp add: open_session_def cli_paths_def for_profile_def validate_profile_name_def profile_char_def canonical_relay_origin_def
        sample_config_lib_def sample_url_lib_def sample_origin_url_def trim_end_matches_def sample_cli_env_def parts open_binding_def cli_client_def
        verify_profile_origin_def session_started_def attempt_def op_bind_def Let_def eval_simps)
  then show ?thesis
    by (simp add: execute_protected_def env r attempt_def op_bind_def)
      (simp add: run_protected_def with_shutdown_def protected_arm_def execute_inbox_def inbox_arguments_def unwrap_def session_call_def
        to_value_def attempt_def op_bind_def sample_cli_env_def)
qed

theorem protected_commands_release_the_session_witness:
  "execute_protected sample_cli_env GlobalOptions_default CliCommand.Inbox [''inbox''] []
     = (Inr JNull, [SessionStarted, InboxCall 100 0, SessionShutdown])
    \<and> (\<exists>calls. [SessionStarted, InboxCall 100 0, SessionShutdown] = SessionStarted # calls @ [SessionShutdown]
         \<and> SessionStarted \<notin> set calls \<and> SessionShutdown \<notin> set calls)"
  using protected_commands_release_the_session [OF sample_command_line] sample_command_line
  by (simp add: ended_well_def image_def sample_cli_env_def)

end
