(* ===== verification/Cli_Output.thy ===== *)
theory Cli_Output
  imports Cli_Execute
begin

text \<open>
  What \<open>psst\<close> writes and how it exits (\<open>psst-cli/src/lib.rs\<close>, envelopes of \<open>psst-application/src/cli.rs\<close>): the
  JSON value of a success or a failure, the text for people, the relay started in JSON mode, and the
  whole run of a command line.
\<close>

section \<open>Envelopes\<close>

text \<open>Names as \<open>serde(rename_all = "snake_case")\<close> gives them.\<close>

fun command_name :: "CliCommand \<Rightarrow> string" where
  "command_name CliCommand.Invocation = ''invocation''"
| "command_name CliCommand.RelayStart = ''relay_start''"
| "command_name CliCommand.Health = ''health''"
| "command_name CliCommand.ConfigShowEffective = ''config_show_effective''"
| "command_name CliCommand.ProfileList = ''profile_list''"
| "command_name CliCommand.ProfileShow = ''profile_show''"
| "command_name CliCommand.SquadList = ''squad_list''"
| "command_name CliCommand.SquadCreate = ''squad_create''"
| "command_name CliCommand.SquadDescribe = ''squad_describe''"
| "command_name CliCommand.SquadArchive = ''squad_archive''"
| "command_name CliCommand.SquadJoin = ''squad_join''"
| "command_name CliCommand.SquadLeave = ''squad_leave''"
| "command_name CliCommand.SquadRoster = ''squad_roster''"
| "command_name CliCommand.MessageSend = ''message_send''"
| "command_name CliCommand.Inbox = ''inbox''"
| "command_name CliCommand.Listen = ''listen''"
| "command_name CliCommand.MessageAcknowledge = ''message_acknowledge''"
| "command_name CliCommand.Transcript = ''transcript''"
| "command_name CliCommand.Status = ''status''"
| "command_name CliCommand.HarnessStatus = ''harness_status''"
| "command_name CliCommand.DatabaseInfo = ''database_info''"
| "command_name CliCommand.DatabaseBackup = ''database_backup''"
| "command_name CliCommand.DatabaseIntegrityCheck = ''database_integrity_check''"

fun exit_class_name :: "ExitClass \<Rightarrow> string" where
  "exit_class_name ExitClass.Success = ''success''"
| "exit_class_name ExitClass.Usage = ''usage''"
| "exit_class_name ExitClass.Configuration = ''configuration''"
| "exit_class_name ExitClass.Unavailable = ''unavailable''"
| "exit_class_name ExitClass.Conflict = ''conflict''"
| "exit_class_name ExitClass.Authority = ''authority''"
| "exit_class_name ExitClass.OutcomeUnknown = ''outcome_unknown''"
| "exit_class_name ExitClass.LocalIo = ''local_io''"
| "exit_class_name ExitClass.Locked = ''locked''"
| "exit_class_name ExitClass.Internal = ''internal''"

fun error_code_name :: "LocalErrorCode \<Rightarrow> string" where
  "error_code_name LocalErrorCode.InvalidRequest = ''invalid_request''"
| "error_code_name LocalErrorCode.NotFound = ''not_found''"
| "error_code_name LocalErrorCode.NotMember = ''not_member''"
| "error_code_name LocalErrorCode.NameInUse = ''name_in_use''"
| "error_code_name LocalErrorCode.LeaseExpired = ''lease_expired''"
| "error_code_name LocalErrorCode.RecipientNotFound = ''recipient_not_found''"
| "error_code_name LocalErrorCode.IdempotencyConflict = ''idempotency_conflict''"
| "error_code_name LocalErrorCode.RateLimited = ''rate_limited''"
| "error_code_name LocalErrorCode.DatabaseBusy = ''database_busy''"
| "error_code_name LocalErrorCode.InternalError = ''internal_error''"
| "error_code_name LocalErrorCode.InvalidInput = ''invalid_input''"
| "error_code_name LocalErrorCode.InvalidConfiguration = ''invalid_configuration''"
| "error_code_name LocalErrorCode.InvalidOrigin = ''invalid_origin''"
| "error_code_name LocalErrorCode.ProfileNotFound = ''profile_not_found''"
| "error_code_name LocalErrorCode.ProfileLocked = ''profile_locked''"
| "error_code_name LocalErrorCode.ProfileOriginMismatch = ''profile_origin_mismatch''"
| "error_code_name LocalErrorCode.ProfileAlreadyBound = ''profile_already_bound''"
| "error_code_name LocalErrorCode.ProfileUnbound = ''profile_unbound''"
| "error_code_name LocalErrorCode.ConfigRead = ''config_read''"
| "error_code_name LocalErrorCode.ConfigWrite = ''config_write''"
| "error_code_name LocalErrorCode.LocalRead = ''local_read''"
| "error_code_name LocalErrorCode.LocalWrite = ''local_write''"
| "error_code_name LocalErrorCode.LocalPermission = ''local_permission''"
| "error_code_name LocalErrorCode.LocalLock = ''local_lock''"
| "error_code_name LocalErrorCode.RelayUnavailable = ''relay_unavailable''"
| "error_code_name LocalErrorCode.RelayTimeout = ''relay_timeout''"
| "error_code_name LocalErrorCode.RelayProtocol = ''relay_protocol''"
| "error_code_name LocalErrorCode.InvalidSession = ''invalid_session''"
| "error_code_name LocalErrorCode.InactiveMembership = ''inactive_membership''"
| "error_code_name LocalErrorCode.UnknownRecipient = ''unknown_recipient''"
| "error_code_name LocalErrorCode.DuplicateName = ''duplicate_name''"
| "error_code_name LocalErrorCode.SquadNotFound = ''squad_not_found''"
| "error_code_name LocalErrorCode.SquadArchived = ''squad_archived''"
| "error_code_name LocalErrorCode.MessageNotFound = ''message_not_found''"
| "error_code_name LocalErrorCode.Conflict = ''conflict''"
| "error_code_name LocalErrorCode.AuthorityDenied = ''authority_denied''"
| "error_code_name LocalErrorCode.PayloadTooLarge = ''payload_too_large''"
| "error_code_name LocalErrorCode.OutcomeUnknown = ''outcome_unknown''"
| "error_code_name LocalErrorCode.Unsupported = ''unsupported''"
| "error_code_name LocalErrorCode.Internal = ''internal''"

definition CLI_CONTRACT_VERSION :: string where "CLI_CONTRACT_VERSION = ''psst.cli.v1''"

definition CliSuccess_new :: "CliCommand \<Rightarrow> json \<Rightarrow> json" where
  "CliSuccess_new command data = JObject [(''version'', JString CLI_CONTRACT_VERSION), (''ok'', JBool True),
     (''command'', JString (command_name command)), (''data'', data)]"

definition safe_error_json :: "SafeError \<Rightarrow> json" where
  "safe_error_json e = JObject [(''code'', JString (error_code_name (sf_code e))), (''message'', JString (sf_message e)),
     (''retryable'', JBool (sf_retryable e)), (''exit_class'', JString (exit_class_name (sf_exit_class e)))]"

definition CliFailure_new :: "CliCommand \<Rightarrow> SafeError \<Rightarrow> json" where
  "CliFailure_new command e = JObject [(''version'', JString CLI_CONTRACT_VERSION), (''ok'', JBool False),
     (''command'', JString (command_name command)), (''error'', safe_error_json e)]"

abbreviation newline :: char where "newline \<equiv> CHR ''\<newline>''"

record JsonEmission =
  je_stdout :: string
  je_stderr :: string
  je_exit_code :: nat

definition emit_json_success :: "json_lib \<Rightarrow> json \<Rightarrow> JsonEmission option" where
  "emit_json_success L v = map_option (\<lambda>text. \<lparr>je_stdout = text @ [newline], je_stderr = [], je_exit_code = 0\<rparr>) (to_vec L v)"

definition emit_json_failure :: "json_lib \<Rightarrow> CliCommand \<Rightarrow> SafeError \<Rightarrow> JsonEmission option" where
  "emit_json_failure L command e =
     map_option (\<lambda>text. \<lparr>je_stdout = [], je_stderr = text @ [newline], je_exit_code = exit_code (sf_exit_class e)\<rparr>)
       (to_vec L (CliFailure_new command e))"

section \<open>Streams\<close>

text \<open>A stream takes all bytes, or only as many as there is room for before writing to it fails.\<close>

datatype stream = Stdout | Stderr

record streams =
  st_out :: string
  st_err :: string
  st_room :: "stream \<Rightarrow> nat option"

definition appended :: "stream \<Rightarrow> string \<Rightarrow> streams \<Rightarrow> streams" where
  "appended w bytes s = (case w of Stdout \<Rightarrow> s\<lparr>st_out := st_out s @ bytes\<rparr> | Stderr \<Rightarrow> s\<lparr>st_err := st_err s @ bytes\<rparr>)"

definition write_bytes :: "stream \<Rightarrow> string \<Rightarrow> nat \<Rightarrow> streams \<Rightarrow> nat \<times> streams" where
  "write_bytes w bytes code s =
     (case st_room s w of
        None \<Rightarrow> (code, appended w bytes s)
      | Some room \<Rightarrow>
          (let s = s\<lparr>st_room := (st_room s)(w := Some (room - length bytes))\<rparr> in
           if length bytes \<le> room then (code, appended w bytes s) else (70, appended w (take room bytes) s)))"

text \<open>The libraries output goes through, and the help text.\<close>

record output_env =
  oe_json :: json_lib
  oe_pretty :: "json \<Rightarrow> string option"
  oe_help :: string
  oe_version :: string

definition encoding_failed :: string where
  "encoding_failed = ''psst: output encoding failed'' @ [newline]"

section \<open>Text for people\<close>

text \<open>\<open>value[key]\<close> is null where there is no such field.\<close>

definition json_index :: "json \<Rightarrow> string \<Rightarrow> json" where
  "json_index v key = (case json_get key v of None \<Rightarrow> JNull | Some x \<Rightarrow> x)"

definition text_or :: "string \<Rightarrow> json \<Rightarrow> string" where
  "text_or fallback v = (case as_str v of None \<Rightarrow> fallback | Some s \<Rightarrow> s)"

definition squad_line :: "json \<Rightarrow> string" where
  "squad_line squad = text_or ''?'' (json_index squad ''name'') @ [CHR 0x09] @ text_or ''?'' (json_index squad ''state'') @ [CHR 0x09]
     @ text_or [] (json_index squad ''mission'') @ [newline]"

definition rendered :: "output_env \<Rightarrow> CliCommand \<Rightarrow> json \<Rightarrow> string" where
  "rendered W command v =
     (case command of
        CliCommand.Health \<Rightarrow>
          ''relay: '' @ text_or ''unknown'' (json_index (json_index v ''health'') ''status'') @ [newline]
          @ ''database: '' @ text_or ''unknown'' (json_index (json_index v ''ready'') ''status'') @ '' (schema ''
          @ decimal (case as_u64 (json_index (json_index v ''ready'') ''schema_version'') of None \<Rightarrow> 0 | Some n \<Rightarrow> n) @ '')'' @ [newline]
      | CliCommand.SquadList \<Rightarrow> concat (map squad_line (case as_array v of None \<Rightarrow> [] | Some squads \<Rightarrow> squads))
      | CliCommand.SquadCreate \<Rightarrow> text_or ''?'' (json_index v ''name'') @ '' ['' @ text_or ''?'' (json_index v ''state'') @ '']'' @ [newline]
          @ ''mission: '' @ text_or [] (json_index v ''mission'') @ [newline]
      | CliCommand.SquadDescribe \<Rightarrow> text_or ''?'' (json_index v ''name'') @ '' ['' @ text_or ''?'' (json_index v ''state'') @ '']'' @ [newline]
          @ ''mission: '' @ text_or [] (json_index v ''mission'') @ [newline]
      | _ \<Rightarrow> (case oe_pretty W v of None \<Rightarrow> encoding_failed | Some text \<Rightarrow> text @ [newline]))"

definition write_human :: "output_env \<Rightarrow> CliCommand \<Rightarrow> json \<Rightarrow> streams \<Rightarrow> nat \<times> streams" where
  "write_human W command v = write_bytes Stdout (rendered W command v) 0"

section \<open>Results\<close>

definition emit_success :: "output_env \<Rightarrow> bool \<Rightarrow> CliCommand \<Rightarrow> json \<Rightarrow> streams \<Rightarrow> nat \<times> streams" where
  "emit_success W json command data =
     (if json then
        (case emit_json_success (oe_json W) (CliSuccess_new command data) of
           Some emission \<Rightarrow> write_bytes Stdout (je_stdout emission) (je_exit_code emission)
         | None \<Rightarrow> write_bytes Stderr encoding_failed 70)
      else write_human W command data)"

definition emit_failure :: "output_env \<Rightarrow> bool \<Rightarrow> CliCommand \<Rightarrow> LocalErrorCode \<Rightarrow> streams \<Rightarrow> nat \<times> streams" where
  "emit_failure W json command code =
     (if json then
        (case emit_json_failure (oe_json W) command (SafeError_from code) of
           Some emission \<Rightarrow> write_bytes Stderr (je_stderr emission) (je_exit_code emission)
         | None \<Rightarrow> write_bytes Stderr encoding_failed 70)
      else write_bytes Stderr (''psst: '' @ safe_message code @ [newline]) (exit_code (sf_exit_class (SafeError_from code))))"

section \<open>A relay in JSON mode\<close>

text \<open>
  How the relay's task went: it ended before it reported its start (with its error, where it had one), or it
  reported it and stopped, failed or panicked later.
\<close>

record RelayStartup =
  sup_bind :: string
  sup_database :: string
  sup_schema_version :: nat
  sup_trusted_lan_warning :: "string option"

datatype relay_end = RelayStopped | RelayFailed serve_error | RelayTaskLost

datatype relay_run = NeverStarted "serve_error option" | Served RelayStartup relay_end

definition startup_json :: "RelayStartup \<Rightarrow> json" where
  "startup_json r = JObject [(''running'', JBool True), (''bind'', JString (sup_bind r)), (''database'', JString (sup_database r)),
     (''schema_version'', json_u64 (sup_schema_version r)), (''trusted_lan'', JBool (sup_trusted_lan_warning r \<noteq> None)),
     (''security_warning'', (case sup_trusted_lan_warning r of None \<Rightarrow> JNull | Some w \<Rightarrow> JString w))]"

definition relay_failed :: string where
  "relay_failed = ''psst: relay failed after startup'' @ [newline]"

text \<open>No exit code where the relay's own deadline ends the process.\<close>

fun relay_ended :: "relay_end \<Rightarrow> streams \<Rightarrow> nat option \<times> streams" where
  "relay_ended RelayStopped s = (Some 0, s)"
| "relay_ended (RelayFailed e) s =
     (if e = ServeTimedOut then (None, s)
      else apfst Some (write_bytes Stderr relay_failed (exit_code (exit_class (map_relay_serve_error e))) s))"
| "relay_ended RelayTaskLost s = apfst Some (write_bytes Stderr relay_failed 70 s)"

definition run_relay_json_until ::
  "output_env \<Rightarrow> 'r cli_env \<Rightarrow> GlobalOptions \<Rightarrow> RelayStartArgs \<Rightarrow> (RelayConfig \<Rightarrow> relay_run) \<Rightarrow> streams \<Rightarrow> nat option \<times> streams" where
  "run_relay_json_until W E options arguments serving s =
     (let failed = (\<lambda>code. apfst Some (emit_failure W True CliCommand.RelayStart code s)) in
      case resolve_config (le_config E) (le_env E) options (Some arguments) of
        Inl code \<Rightarrow> failed code
      | Inr resolved \<Rightarrow>
          (case relay_config (le_addr E) (le_env_filter E) resolved of
             Inl code \<Rightarrow> failed code
           | Inr (data_dir, config) \<Rightarrow>
               (case le_create_dir E data_dir of
                  Inl e \<Rightarrow> failed (map_io_error e)
                | Inr _ \<Rightarrow>
                    (case serving config of
                       NeverStarted (Some e) \<Rightarrow> failed (map_relay_serve_error e)
                     | NeverStarted None \<Rightarrow> failed LocalErrorCode.Internal
                     | Served startup ending \<Rightarrow>
                         (case emit_success W True CliCommand.RelayStart (startup_json startup) s of
                            (emitted, s) \<Rightarrow> if emitted \<noteq> 0 then (Some emitted, s) else relay_ended ending s)))))"

section \<open>The run of a command line\<close>

text \<open>No exit code where the command panicked, still runs or ended the process itself.\<close>

definition run_with_io ::
  "output_env \<Rightarrow> 'r cli_env \<Rightarrow> (string \<Rightarrow> string option) \<Rightarrow> (RelayConfig \<Rightarrow> relay_run) \<Rightarrow> string list \<Rightarrow> streams \<Rightarrow> nat option \<times> streams" where
  "run_with_io W E addr serving arguments s =
     (case parse_arguments addr arguments of
        None \<Rightarrow> (None, s)
      | Some (Inr Help) \<Rightarrow> apfst Some (write_bytes Stdout (oe_help W) 0 s)
      | Some (Inr Version) \<Rightarrow> apfst Some (write_bytes Stdout (''psst '' @ oe_version W @ [newline]) 0 s)
      | Some (Inr (Command options p)) \<Rightarrow>
          (case (p, go_json options) of
             (ParsedRelayStart relay_arguments, True) \<Rightarrow> run_relay_json_until W E options relay_arguments serving s
           | _ \<Rightarrow>
               (case fst (execute_command E options p []) of
                  Inr v \<Rightarrow> apfst Some (emit_success W (go_json options) (contract p) v s)
                | Inl (Failed code) \<Rightarrow> apfst Some (emit_failure W (go_json options) (contract p) code s)
                | Inl _ \<Rightarrow> (None, s)))
      | Some (Inl e) \<Rightarrow>
          (if pse_json e then apfst Some (emit_failure W True
             (case pse_command e of None \<Rightarrow> CliCommand.Invocation | Some command \<Rightarrow> command) LocalErrorCode.InvalidInput s)
           else apfst Some (write_bytes Stderr (''psst: invalid command line'' @ [newline]) 2 s)))"

section \<open>The contract of JSON mode\<close>

text \<open>Exactly one line, which is the given value.\<close>

definition one_json_line :: "json_lib \<Rightarrow> json \<Rightarrow> string \<Rightarrow> bool" where
  "one_json_line L v bytes \<longleftrightarrow> (\<exists>line. to_vec L v = Some line \<and> bytes = line @ [newline] \<and> newline \<notin> set line)"

definition succeeded :: "json_lib \<Rightarrow> CliCommand \<Rightarrow> json \<Rightarrow> nat option \<times> streams \<Rightarrow> bool" where
  "succeeded L command v outcome \<longleftrightarrow> fst outcome = Some 0 \<and> one_json_line L (CliSuccess_new command v) (st_out (snd outcome))
     \<and> st_err (snd outcome) = []"

definition refused :: "json_lib \<Rightarrow> CliCommand \<Rightarrow> LocalErrorCode \<Rightarrow> nat option \<times> streams \<Rightarrow> bool" where
  "refused L command code outcome \<longleftrightarrow> fst outcome = Some (exit_code (exit_class code)) \<and> fst outcome \<noteq> Some 0
     \<and> one_json_line L (CliFailure_new command (SafeError_from code)) (st_err (snd outcome)) \<and> st_out (snd outcome) = []"

lemma failures_exit_nonzero: "exit_code (exit_class code) \<noteq> 0"
  by (cases code) auto

lemma emit_success_json:
  assumes "\<forall>v. \<exists>line. to_vec (oe_json W) v = Some line \<and> newline \<notin> set line" and "s = \<lparr>st_out = [], st_err = [], st_room = (\<lambda>_. None)\<rparr>"
  shows "succeeded (oe_json W) command v (apfst Some (emit_success W True command v s))"
  using assms(1) [rule_format, of "CliSuccess_new command v"] assms(2)
  by (auto simp: succeeded_def emit_success_def emit_json_success_def write_bytes_def appended_def one_json_line_def)

lemma emit_failure_json:
  assumes "\<forall>v. \<exists>line. to_vec (oe_json W) v = Some line \<and> newline \<notin> set line" and "s = \<lparr>st_out = [], st_err = [], st_room = (\<lambda>_. None)\<rparr>"
  shows "refused (oe_json W) command code (apfst Some (emit_failure W True command code s))"
  using assms(1) [rule_format, of "CliFailure_new command (SafeError_from code)"] assms(2) failures_exit_nonzero [of code]
  by (auto simp: refused_def emit_failure_def emit_json_failure_def write_bytes_def appended_def one_json_line_def SafeError_from_def)

text \<open>
  A command line that asks for JSON: \<open>--json\<close> stands before the command, after no global option but those with a value
  the parser's first look takes, one that is Unicode and does not begin with a dash.
\<close>

fun plain_option :: "string \<times> string \<Rightarrow> bool" where
  "plain_option (flag, v) \<longleftrightarrow> takes_value flag \<and> plain_value (Some v)"

fun json_line :: "string \<Rightarrow> (string \<times> string) list \<Rightarrow> string list \<Rightarrow> string list" where
  "json_line program options rest = program # concat (map (\<lambda>(flag, v). [flag, v]) options) @ ''--json'' # rest"

lemma plain_options_lead:
  "list_all plain_option options \<Longrightarrow> leading_json_requested (concat (map (\<lambda>(flag, v). [flag, v]) options) @ ''--json'' # rest)"
  by (induction options) (auto simp: arg_def)

lemma read_arguments_keep_json:
  "parse_error command json = Inl e \<Longrightarrow> pse_json e = json"
  "string_arg v json = Inl e \<Longrightarrow> pse_json e = json"
  "os_arg v json = Inl e \<Longrightarrow> pse_json e = json"
  "command_arg v json c = Inl e \<Longrightarrow> pse_json e = json"
  "command_os_arg v json c = Inl e \<Longrightarrow> pse_json e = json"
  by (auto simp: parse_error_def string_arg_def os_arg_def command_arg_def command_os_arg_def result_simps split: option.splits if_split_asm)

lemma global_options_keep_json: "global_options args seen g = Inr (g', rest) \<Longrightarrow> go_json g' = go_json g"
proof (induction args seen g rule: global_options.induct)
  case (2 a rest' seen g)
  then show ?case by (auto simp: parse_error_def result_simps split: if_split_asm)
qed simp

lemma global_errors_keep_json: "global_options args seen g = Inl e \<Longrightarrow> go_json g \<Longrightarrow> pse_json e"
proof (induction args seen g rule: global_options.induct)
  case (2 a rest seen g)
  then show ?case by (auto simp: result_simps dest: read_arguments_keep_json split: if_split_asm)
qed simp

lemma relay_start_args_keep_json: "relay_start_args addr json args seen start = Inl e \<Longrightarrow> pse_json e = json"
proof (induction addr json args seen start rule: relay_start_args.induct)
  case (2 addr json flag rest seen start)
  then show ?case by (auto simp: result_simps dest: read_arguments_keep_json split: if_split_asm)
qed simp

lemma parse_deferred_keeps_json: "parse_deferred args json = Some (Inl e) \<Longrightarrow> pse_json e = json"
  by (auto simp: parse_deferred_def bind_eq_Some_conv dest: read_arguments_keep_json split: option.splits if_split_asm)

lemma command_arg_refused: "command_arg v json c = Inl e \<longleftrightarrow> nonempty v = None \<and> e = \<lparr>pse_command = Some c, pse_json = json\<rparr>"
  by (auto simp: command_arg_def string_arg_def result_simps)

lemma parse_command_keeps_json: "parse_command addr args json = Some (Inl e) \<Longrightarrow> pse_json e = json"
  using parse_deferred_keeps_json [of args json e] relay_start_args_keep_json [of addr json "drop 2 args" "{}" RelayStartArgs_default e]
  unfolding parse_command_def parse_relay_start_def
  by (simp add: result_simps parse_error_def command_arg_refused split: option.splits if_split_asm; auto)

lemma json_line_is_json_mode:
  assumes "list_all plain_option options"
  shows "case parse_arguments addr (json_line program options rest) of
      None \<Rightarrow> True | Some (Inl e) \<Rightarrow> pse_json e | Some (Inr (Command g p)) \<Rightarrow> go_json g | Some (Inr _) \<Rightarrow> False"
proof -
  let ?args = "concat (map (\<lambda>(flag, v). [flag, v]) options) @ ''--json'' # rest"
  have "''--json'' \<in> set ?args" by simp
  then have other: "?args \<notin> {[], [''--help''], [''-h''], [''--version''], [''-V'']}" by (cases options) auto
  show ?thesis
    using plain_options_lead [OF assms, of rest] other global_errors_keep_json [of ?args "{}" "GlobalOptions_default\<lparr>go_json := True\<rparr>"]
      global_options_keep_json [of ?args "{}" "GlobalOptions_default\<lparr>go_json := True\<rparr>"]
    by (auto simp: parse_arguments_def Let_def result_simps dest: parse_command_keeps_json split: sum.splits option.splits cli_invocation.splits)
qed

lemma relay_ended_keeps_stdout: "st_out (snd (relay_ended ending s)) = st_out s"
  by (cases ending) (auto simp: write_bytes_def appended_def Let_def split: option.splits)

text \<open>A relay start in JSON mode is refused, or the relay serves and its startup is the one line on standard output.\<close>

lemma relay_json_outcome:
  assumes encodes: "\<forall>v. \<exists>line. to_vec (oe_json W) v = Some line \<and> newline \<notin> set line"
    and fresh: "s = \<lparr>st_out = [], st_err = [], st_room = (\<lambda>_. None)\<rparr>"
  shows "(\<exists>code. refused (oe_json W) CliCommand.RelayStart code (run_relay_json_until W E g a serving s))
    \<or> (\<exists>resolved data_dir config startup ending.
         resolve_config (le_config E) (le_env E) g (Some a) = Inr resolved
         \<and> relay_config (le_addr E) (le_env_filter E) resolved = Inr (data_dir, config) \<and> le_create_dir E data_dir = Inr ()
         \<and> serving config = Served startup ending
         \<and> one_json_line (oe_json W) (CliSuccess_new CliCommand.RelayStart (startup_json startup))
             (st_out (snd (run_relay_json_until W E g a serving s))))"
proof (cases "\<exists>resolved data_dir config startup ending. resolve_config (le_config E) (le_env E) g (Some a) = Inr resolved
    \<and> relay_config (le_addr E) (le_env_filter E) resolved = Inr (data_dir, config) \<and> le_create_dir E data_dir = Inr ()
    \<and> serving config = Served startup ending")
  case True
  then obtain resolved data_dir config startup ending where served: "resolve_config (le_config E) (le_env E) g (Some a) = Inr resolved"
    "relay_config (le_addr E) (le_env_filter E) resolved = Inr (data_dir, config)" "le_create_dir E data_dir = Inr ()"
    "serving config = Served startup ending"
    by blast
  have "succeeded (oe_json W) CliCommand.RelayStart (startup_json startup) (apfst Some (emit_success W True CliCommand.RelayStart (startup_json startup) s))"
    by (rule emit_success_json [OF encodes fresh])
  then have "one_json_line (oe_json W) (CliSuccess_new CliCommand.RelayStart (startup_json startup))
      (st_out (snd (run_relay_json_until W E g a serving s)))"
    using served by (auto simp: run_relay_json_until_def succeeded_def relay_ended_keeps_stdout split: prod.splits)
  then show ?thesis using served by blast
next
  case False
  then show ?thesis
    using emit_failure_json [OF encodes fresh, of CliCommand.RelayStart]
    unfolding run_relay_json_until_def Let_def by (fastforce split: sum.splits relay_run.splits option.splits)
qed


text \<open>The inbox of the sample profile, in JSON mode, with a stand-in for the encoder.\<close>

definition sample_output_env :: output_env where
  "sample_output_env = \<lparr>oe_json = \<lparr>to_vec = (\<lambda>v. Some (case v of JNull \<Rightarrow> ''null'' | _ \<Rightarrow> ''{}'')), from_slice = (\<lambda>_. None)\<rparr>,
     oe_pretty = (\<lambda>_. None), oe_help = ''psst'', oe_version = ''1''\<rparr>"

definition fresh_streams :: streams where
  "fresh_streams = \<lparr>st_out = [], st_err = [], st_room = (\<lambda>_. None)\<rparr>"

lemma sample_json_line:
  "parse_arguments (\<lambda>_. None) [''psst'', ''--json'', ''inbox'']
     = Some (Inr (Command (GlobalOptions_default\<lparr>go_json := True\<rparr>) (Deferred CliCommand.Inbox [''inbox''])))"
  by (simp add: parse_arguments_def GlobalOptions_default_def takes_value_def plain_value_def parse_command_def parse_deferred_def deferred_key_def
      keyed_command_def single_command_def valid_inbox_grammar_def arg_def to_str_def map_filter_simps eval_simps)

lemma json_option_configures_nothing:
  "execute_protected E (options\<lparr>go_json := j\<rparr>) command args = execute_protected E options command args"
  by (simp add: execute_protected_def resolve_config_def cli_flags_def)


end
