(* ===== verification/Relay_Service.thy ===== *)
theory Relay_Service
  imports Relay_Http
begin

text \<open>
  What the HTTP surface of the relay guarantees: identifiers it draws are valid, the commands it
  submits are well formed, a refused request changes nothing, what it serves passes the validation of
  its clients, and a session it issues works.
\<close>

section \<open>Well-formed commands\<close>

lemma hex_digit_id_char:
  assumes "n < 16"
  shows "id_char (hex_digit n)"
proof -
  have "list_all id_char ''0123456789abcdef''"
    by (simp add: id_char_def is_ascii_lowercase_def is_ascii_digit_def)
  then show ?thesis using assms by (simp add: hex_digit_def list_all_length)
qed

lemma hex_byte_id_chars: "list_all id_char (hex_byte b)"
proof -
  have "unat b < 2 ^ LENGTH(8)" by (rule unsigned_less)
  then have "unat b < 256" by simp
  then show ?thesis by (auto simp: hex_byte_def intro!: hex_digit_id_char)
qed

definition hex_suffix :: "8 word list \<Rightarrow> string" where
  "hex_suffix bytes = concat (map hex_byte bytes)"

lemma fold_hex: "fold (\<lambda>byte output. output @ hex_byte byte) bytes acc = acc @ hex_suffix bytes"
  by (induction bytes arbitrary: acc) (simp_all add: hex_suffix_def)

lemma hex_suffix_ok: "list_all id_char (hex_suffix bytes)" "length (hex_suffix bytes) = 2 * length bytes"
  using hex_byte_id_chars
  by (induction bytes) (auto simp: hex_suffix_def hex_byte_def list_all_append)

text \<open>The contract of a generator of identifiers: 16 random bytes always make a valid one.\<close>

locale generated_id =
  fixes prefix :: string and new :: "string \<Rightarrow> InvalidValue + string"
  assumes accepts: "suffix \<noteq> [] \<Longrightarrow> list_all id_char suffix \<Longrightarrow> length suffix \<le> 64 \<Longrightarrow>
      new (prefix @ ''_'' @ suffix) = Inr (prefix @ ''_'' @ suffix)"
begin

lemma generated:
  assumes "length bytes = 16"
  shows "fresh_identifier prefix new (Some bytes) = Inr (prefix @ ''_'' @ hex_suffix bytes)"
proof -
  have len: "length (hex_suffix bytes) = 32" using assms hex_suffix_ok(2) [of bytes] by simp
  then have "hex_suffix bytes \<noteq> []" by auto
  with len hex_suffix_ok(1) [of bytes] have "new (prefix @ ''_'' @ hex_suffix bytes) = Inr (prefix @ ''_'' @ hex_suffix bytes)"
    by (intro accepts) simp_all
  then show ?thesis by (simp add: fresh_identifier_def fold_hex parsed_def)
qed

lemma no_randomness: "fresh_identifier prefix new None = Inl ApiErrorCode.InternalError"
  by (simp add: fresh_identifier_def)

lemma issued: "fresh_identifier prefix new random = Inr v \<Longrightarrow> \<exists>w. new w = Inr v"
  by (auto simp: fresh_identifier_def parsed_def result_simps Let_def)

end

lemma opaque_id_accepts:
  "length prefix = 3 \<Longrightarrow> suffix \<noteq> [] \<Longrightarrow> list_all id_char suffix \<Longrightarrow> length suffix \<le> 64 \<Longrightarrow>
     opaque_id_new ty prefix (prefix @ ''_'' @ suffix) = Inr (prefix @ ''_'' @ suffix)"
  by (simp add: opaque_id_new_Inr)

interpretation squad_ids: generated_id "''sqd''" SquadId_new
  by unfold_locales (simp add: SquadId_new_def opaque_id_accepts [of "''sqd''", simplified])

interpretation agent_ids: generated_id "''agt''" AgentId_new
  by unfold_locales (simp add: AgentId_new_def opaque_id_accepts [of "''agt''", simplified])

interpretation membership_ids: generated_id "''mem''" MembershipId_new
  by unfold_locales (simp add: MembershipId_new_def opaque_id_accepts [of "''mem''", simplified])

interpretation instance_ids: generated_id "''ins''" InstanceId_new
  by unfold_locales (simp add: InstanceId_new_def opaque_id_accepts [of "''ins''", simplified])

interpretation message_ids: generated_id "''msg''" MessageId_new
  by unfold_locales (simp add: MessageId_new_def opaque_id_accepts [of "''msg''", simplified])

lemma credential_ok:
  "credential L headers = Inr c \<Longrightarrow> is_ok (InstanceId_new (cr_instance_id c))"
  by (auto simp: credential_def parse_authorization_def result_simps split: if_splits
      dest!: parse_session_value_canonical(2) simp: SessionCredential_wf_def)

text \<open>The commands the handlers submit, each from whatever request arrives.\<close>

inductive handler_command :: "library \<Rightarrow> StoreCommand \<Rightarrow> bool" for L where
  list: "handler_command L StoreCommand.ListSquads"
| ready: "handler_command L StoreCommand.Ready"
| create: "create_squad_command random r = Inr command \<Longrightarrow> handler_command L command"
| describe: "describe_squad_command squad = Inr command \<Longrightarrow> handler_command L command"
| join: "join_squad_command random squad r = Inr command \<Longrightarrow> handler_command L command"
| resume: "resume_squad_command L random squad headers r = Inr command \<Longrightarrow> handler_command L command"
| leave: "leave_squad_command L squad headers = Inr command \<Longrightarrow> handler_command L command"
| archive: "archive_squad_command L squad headers = Inr command \<Longrightarrow> handler_command L command"
| roster: "roster_command L squad headers = Inr command \<Longrightarrow> handler_command L command"
| heartbeat: "heartbeat_command L headers r = Inr command \<Longrightarrow> handler_command L command"
| send: "send_message_command L random headers r = Inr command \<Longrightarrow> handler_command L command"
| acknowledge: "acknowledge_command L headers r = Inr command \<Longrightarrow> handler_command L command"
| transcript: "transcript_command L squad headers query = Inr command \<Longrightarrow> handler_command L command"
| inbox: "pending_command L headers query = Inr command \<Longrightarrow> handler_command L command"

lemma parsed_Inr [simp]: "parsed m = Inr x \<longleftrightarrow> m = Inr x"
  by (simp add: parsed_def map_err_eq_Inr)

lemma default_policy_ok [simp]: "policy_ok LeasePolicy_default"
  by (simp add: policy_ok_def LeasePolicy_default_def DEFAULT_HEARTBEAT_INTERVAL_def DEFAULT_LEASE_DURATION_def)

lemma issued_ids:
  "fresh_identifier ''sqd'' SquadId_new random = Inr v \<Longrightarrow> is_ok (SquadId_new v)"
  "fresh_identifier ''agt'' AgentId_new random = Inr v \<Longrightarrow> is_ok (AgentId_new v)"
  "fresh_identifier ''mem'' MembershipId_new random = Inr v \<Longrightarrow> is_ok (MembershipId_new v)"
  "fresh_identifier ''ins'' InstanceId_new random = Inr v \<Longrightarrow> is_ok (InstanceId_new v)"
  "fresh_identifier ''msg'' MessageId_new random = Inr v \<Longrightarrow> is_ok (MessageId_new v)"
  using squad_ids.issued agent_ids.issued membership_ids.issued instance_ids.issued message_ids.issued
    squad_id.reparse agent_id.reparse membership_id.reparse instance_id.reparse message_id.reparse
  by (metis is_ok_simps(2))+

lemmas reparsed =
  squad_name.reparse member_name.reparse mission.reparse role.reparse dedupe_key.reparse
  correlation_id.reparse message_body.reparse message_id.reparse membership_id.reparse

lemma create_squad_command_wf: "create_squad_command random r = Inr c \<Longrightarrow> StoreCommand_wf c"
  by (auto simp: create_squad_command_def result_simps CreateSquad_wf_def create_request_def valid_time_def
      issued_ids reparsed)

lemma join_squad_command_wf: "join_squad_command random squad r = Inr c \<Longrightarrow> StoreCommand_wf c"
  by (auto simp: join_squad_command_def result_simps JoinAndClaim_wf_def JoinMembership_wf_def
      join_request_def valid_time_def issued_ids reparsed split: option.splits)

lemma resume_squad_command_wf: "resume_squad_command L random squad headers r = Inr c \<Longrightarrow> StoreCommand_wf c"
  by (auto simp: resume_squad_command_def result_simps ResumeSession_wf_def resume_request_def valid_time_def
      issued_ids)

lemma send_message_command_wf: "send_message_command L random headers r = Inr c \<Longrightarrow> StoreCommand_wf c"
  by (auto simp: send_message_command_def result_simps SendByName_wf_def issued_ids reparsed credential_ok
      split: option.splits)

lemma handler_command_wf:
  assumes "handler_command L command"
  shows "StoreCommand_wf command"
  using assms
proof cases
  case create then show ?thesis by (rule create_squad_command_wf)
next
  case join then show ?thesis by (rule join_squad_command_wf)
next
  case resume then show ?thesis by (rule resume_squad_command_wf)
next
  case send then show ?thesis by (rule send_message_command_wf)
qed (auto simp: describe_squad_command_def leave_squad_command_def archive_squad_command_def roster_command_def
    heartbeat_command_def acknowledge_command_def transcript_command_def pending_command_def result_simps
    credential_ok)

section \<open>Refused requests\<close>

text \<open>The reply of a command that failed in the store.\<close>

fun failed_reply :: "Reply \<Rightarrow> bool" where
  "failed_reply (JoinReply (Inl _)) = True"
| "failed_reply (SquadsReply (Inl _)) = True"
| "failed_reply (SquadReply (Inl _)) = True"
| "failed_reply (RosterReply (Inl _)) = True"
| "failed_reply (HeartbeatReply (Inl _)) = True"
| "failed_reply (SendReply (Inl _)) = True"
| "failed_reply (PendingReply (Inl _)) = True"
| "failed_reply (AcknowledgeReply (Inl _)) = True"
| "failed_reply (TranscriptReply (Inl _)) = True"
| "failed_reply (LeaveReply (Inl _)) = True"
| "failed_reply (ResumeReply (Inl _)) = True"
| "failed_reply (StatusReply _) = True"
| "failed_reply Dropped = True"
| "failed_reply _ = False"

lemma failed_command_changes_nothing:
  assumes "store_ok H s" and "run_command H enc it command s = (reply, s')" and "failed_reply reply"
  shows "s' = s"
proof (cases command)
  case Join with assms show ?thesis
    by (auto simp: reply_with_eq join_and_claim_def elim: failed_reply.elims dest: join_and_claim_error)
next
  case CreateSquad with assms show ?thesis
    by (auto simp: reply_with_eq elim: failed_reply.elims dest: create_squad_error)
next
  case Roster with assms(2) show ?thesis by (auto simp: reply_with_eq dest: arg_cong [of _ _ snd])
next
  case Pending with assms(2) show ?thesis by (auto simp: reply_with_eq dest: arg_cong [of _ _ snd])
next
  case Transcript with assms(2) show ?thesis by (auto simp: reply_with_eq dest: arg_cong [of _ _ snd])
next
  case (Heartbeat c av src pol)
  with assms show ?thesis
    using authenticated_heartbeat.rolls_back
      [OF assms(1), of "(it_engine it, session c (it_now it), av, src, pol)"]
    by (auto simp: reply_with_eq elim: failed_reply.elims)
next
  case (Send c req)
  with assms show ?thesis
    using authenticated_send_by_name.rolls_back [OF assms(1), of "(it_engine it, session c (it_now it), req)"]
    by (auto simp: reply_with_eq elim: failed_reply.elims)
next
  case (Acknowledge c ids)
  with assms show ?thesis
    using authenticated_acknowledge.rolls_back
      [OF assms(1), of "(it_engine it, session c (it_now it), ids, it_hash_order it)"]
    by (auto simp: reply_with_eq elim: failed_reply.elims)
next
  case Leave with assms show ?thesis
    by (auto simp: reply_with_eq elim: failed_reply.elims dest: authenticated_leave_error)
next
  case (Archive c n)
  with assms show ?thesis
    using authenticated_archive_by_name.rolls_back [OF assms(1), of "(it_engine it, session c (it_now it), n)"]
    by (auto simp: reply_with_eq elim: failed_reply.elims)
next
  case Resume with assms show ?thesis
    by (auto simp: reply_with_eq elim: failed_reply.elims dest: authenticated_resume_error)
qed (use assms in auto)

text \<open>
  What an error answer says of the store: it is as it was; or the request timed out while the worker went
  on to execute it; or the store executed the command with success and only its answer could not be put
  on the wire.
\<close>

definition refusal_explained ::
  "(string \<Rightarrow> string) \<Rightarrow> library \<Rightarrow> exchange \<Rightarrow> ApiFailure + StoreCommand \<Rightarrow> ApiFailure \<Rightarrow> db \<Rightarrow> db \<Rightarrow> bool" where
  "refusal_explained H L ex prepared e s s' \<longleftrightarrow>
     s' = s
     \<or> ex_fate ex = Expired True \<and> e = ApiErrorCode.DatabaseBusy
     \<or> ex_fate ex = Delivered \<and> e = ApiErrorCode.InternalError
       \<and> (\<exists>command reply. prepared = Inr command \<and> \<not> failed_reply reply
           \<and> run_command H (li_enc L) (ex_iteration ex) command s = (reply, s'))"

lemma exchanged_refused:
  assumes "store_ok H s" and "exchanged H L ex prepared out finish s = (Inl e, s')"
    and "\<And>command x. prepared = Inr command \<Longrightarrow>
      out (fst (run_command H (li_enc L) (ex_iteration ex) command s)) = Inl x \<Longrightarrow>
      failed_reply (fst (run_command H (li_enc L) (ex_iteration ex) command s))"
    and "\<And>command r. prepared = Inr command \<Longrightarrow> finish r = Inl e \<Longrightarrow> e = ApiErrorCode.InternalError"
  shows "refusal_explained H L ex prepared e s s'"
proof (cases prepared)
  case (Inl f)
  with assms(2) show ?thesis by (simp add: exchanged_def refusal_explained_def)
next
  case (Inr command)
  obtain reply t where ran: "run_command H (li_enc L) (ex_iteration ex) command s = (reply, t)" by fastforce
  show ?thesis
  proof (cases "ex_fate ex")
    case Delivered
    with Inr ran assms(2) have answer: "rbind (map_err failure_from (dispatch_result (Inr ()) (Replied (out reply)))) finish = Inl e"
      and s': "s' = t"
      by (simp_all add: exchanged_def dispatch_def)
    show ?thesis
    proof (cases "failed_reply reply")
      case True
      from failed_command_changes_nothing [OF assms(1) ran this] s' show ?thesis by (simp add: refusal_explained_def)
    next
      case False
      with assms(3) [OF Inr] ran obtain r where "out reply = Inr r" by (cases "out reply") auto
      with answer have "finish r = Inl e" by (simp add: dispatch_result_def)
      from assms(4) [OF Inr this] show ?thesis using Delivered Inr ran s' False by (simp add: refusal_explained_def)
    qed
  qed (use Inr assms(2) in \<open>auto simp: exchanged_def dispatch_def dispatch_result_def refusal_explained_def split: bool.splits\<close>)
qed

text \<open>Translating what the store answers fails only with an internal error.\<close>

lemma api_timestamp_Inl: "api_timestamp L t = Inl e \<Longrightarrow> e = ApiErrorCode.InternalError"
  by (auto simp: api_timestamp_def Let_def result_simps)

lemma optional_timestamp_Inl: "traverse_opt (api_timestamp L) t = Inl e \<Longrightarrow> e = ApiErrorCode.InternalError"
  by (cases t) (auto simp: result_simps dest: api_timestamp_Inl)

lemma squad_dto_Inl: "squad_dto L q = Inl e \<Longrightarrow> e = ApiErrorCode.InternalError"
  by (auto simp: squad_dto_def result_simps dest: api_timestamp_Inl optional_timestamp_Inl)

lemma seconds_Inl: "seconds d = Inl e \<Longrightarrow> e = ApiErrorCode.InternalError"
  by (simp add: seconds_def split: if_splits)

lemma message_dto_Inl: "message_dto L v = Inl e \<Longrightarrow> e = ApiErrorCode.InternalError"
  by (auto simp: message_dto_def Let_def result_simps dest: api_timestamp_Inl optional_timestamp_Inl)

lemma session_response_Inl: "session_response L m q i = Inl e \<Longrightarrow> e = ApiErrorCode.InternalError"
  by (auto simp: session_response_def result_simps dest: squad_dto_Inl seconds_Inl api_timestamp_Inl)

lemma issued_response_Inl: "issued_response L b i t = Inl e \<Longrightarrow> e = ApiErrorCode.InternalError"
  by (auto simp: issued_response_def result_simps)

lemmas translation_errors =
  api_timestamp_Inl squad_dto_Inl seconds_Inl message_dto_Inl session_response_Inl issued_response_Inl

lemmas writing_handlers =
  create_squad_handler_def join_squad_handler_def resume_squad_handler_def leave_squad_handler_def
  archive_squad_handler_def heartbeat_handler_def send_message_handler_def acknowledge_handler_def

lemmas writing_commands =
  create_squad_command_def join_squad_command_def resume_squad_command_def leave_squad_command_def
  archive_squad_command_def heartbeat_command_def send_message_command_def acknowledge_command_def

text \<open>
  (C21) A refused request changes nothing. When a handler that may write answers with an error, whatever
  the error, the store is as it was, with two exceptions: the answer is \<open>DatabaseBusy\<close> because the request
  timed out while the worker went on to execute it; or it is \<open>InternalError\<close> because the store executed the
  command of this request with success and its answer could not be put on the wire. In particular an error
  of the store, internal ones included, means that nothing was written.
\<close>

theorem refused_request_changes_nothing:
  assumes "store_ok H s"
  shows "(create_squad_handler H L ex create_req s = (Inl e, s') \<longrightarrow>
        refusal_explained H L ex (create_squad_command (ex_random ex) create_req) e s s')
    \<and> (join_squad_handler H L ex squad join_req s = (Inl e, s') \<longrightarrow>
        refusal_explained H L ex (join_squad_command (ex_random ex) squad join_req) e s s')
    \<and> (resume_squad_handler H L ex squad headers resume_req s = (Inl e, s') \<longrightarrow>
        refusal_explained H L ex (resume_squad_command L (ex_random ex) squad headers resume_req) e s s')
    \<and> (leave_squad_handler H L ex squad headers s = (Inl e, s') \<longrightarrow>
        refusal_explained H L ex (leave_squad_command L squad headers) e s s')
    \<and> (archive_squad_handler H L ex squad headers s = (Inl e, s') \<longrightarrow>
        refusal_explained H L ex (archive_squad_command L squad headers) e s s')
    \<and> (heartbeat_handler H L ex headers heartbeat_req s = (Inl e, s') \<longrightarrow>
        refusal_explained H L ex (heartbeat_command L headers heartbeat_req) e s s')
    \<and> (send_message_handler H L ex headers send_req s = (Inl e, s') \<longrightarrow>
        refusal_explained H L ex (send_message_command L (ex_random ex) headers send_req) e s s')
    \<and> (acknowledge_handler H L ex headers ack_req s = (Inl e, s') \<longrightarrow>
        refusal_explained H L ex (acknowledge_command L headers ack_req) e s s')"
  unfolding writing_handlers
  by (intro conjI impI; erule exchanged_refused [OF assms])
    (auto simp: writing_commands result_simps reply_with_def dest: translation_errors)

section \<open>Served pages\<close>

text \<open>
  What the \<open>time\<close> crate promises of \<open>from_unix_timestamp_nanos\<close>: an instant it accepts is the one it
  was given.
\<close>

definition instants_ok :: "library \<Rightarrow> bool" where
  "instants_ok L \<longleftrightarrow> (\<forall>n t. li_from_nanos L n = Some t \<longrightarrow> t = n)"

lemma api_timestamp_Inr:
  assumes "instants_ok L" and "api_timestamp L t = Inr ts"
  shows "ts = ApiTimestamp (as_i64 t * 1000000)"
  using assms by (auto simp: api_timestamp_def instants_ok_def ApiTimestamp_new_def Let_def result_simps
      split: if_splits)

lemma message_dto_Inr:
  assumes "instants_ok L" and "message_dto L v = Inr d"
  shows "d = \<lparr>md_sequence = MessageSequence (mg_sequence (mv_message v)), md_id = mg_id (mv_message v),
      md_squad = mv_squad v, md_sender = mv_sender v, md_recipient = mv_recipient v,
      md_body = sem_body (mg_semantics (mv_message v)),
      md_priority = priority_dto (sem_priority (mg_semantics (mv_message v))),
      md_reply_to = sem_reply_to (mg_semantics (mv_message v)),
      md_correlation_id = sem_correlation_id (mg_semantics (mv_message v)),
      md_created_at = ApiTimestamp (as_i64 (mg_created_at (mv_message v)) * 1000000),
      md_acknowledged_at = map_option (\<lambda>t. ApiTimestamp (as_i64 t * 1000000)) (mv_acknowledged_at v)\<rparr>"
  using assms(2)
  by (cases "mv_acknowledged_at v")
    (auto simp: message_dto_def Let_def result_simps MessageSequence_new_def split: if_splits
      dest!: api_timestamp_Inr [OF assms(1)])

text \<open>A stored message is valid on the wire but for an acknowledgement that precedes its creation.\<close>

definition acknowledged_in_order :: "MessageDto \<Rightarrow> bool" where
  "acknowledged_in_order d \<longleftrightarrow> opt_ok (\<lambda>t. md_created_at d \<le> t) (md_acknowledged_at d)"

lemma stored_message_valid:
  assumes "db_ok H s" and "instants_ok L" and "viewed s v r" and "message_dto L v = Inr d"
  shows "valid_message d \<longleftrightarrow> acknowledged_in_order d"
    and "md_sequence d = MessageSequence (ms_sequence r)" and "md_id d = ms_id r"
    and "ms_acknowledged_at r = None \<Longrightarrow> md_acknowledged_at d = None"
proof -
  from assms(3) obtain q sm rm where row: "(((r, q), sm), rm) \<in> set (message_joins s)"
    and v: "v = view_of (message_of r) r q sm rm"
    by (auto simp: viewed_def)
  then have r: "message_row_ok H r" and q: "squad_row_ok q" and sm: "membership_row_ok sm"
    and rm: "membership_row_ok rm"
    using assms(1) message_row_in [OF assms(1)]
    by (auto simp: message_joins_set db_ok_def squads_ok_def memberships_ok_def)
  note d = message_dto_Inr [OF assms(2,4), unfolded v view_of_def message_of_def, simplified]
  show "md_sequence d = MessageSequence (ms_sequence r)" "md_id d = ms_id r"
    and "ms_acknowledged_at r = None \<Longrightarrow> md_acknowledged_at d = None"
    by (simp_all add: d)
  show "valid_message d \<longleftrightarrow> acknowledged_in_order d"
    unfolding valid_message_def acknowledged_in_order_def
    using r q sm rm
    by (auto simp: d message_row_ok_def squad_row_ok_def membership_row_ok_def opt_ok_def split: option.splits)
qed

lemma stored_page_valid:
  assumes "db_ok H s" and "instants_ok L" and "list_all2 (viewed s) vs rows"
    and "collect_results (message_dto L) vs = Inr ds"
    and "sorted_wrt (\<lambda>a b. ms_sequence a < ms_sequence b) rows"
  shows "valid_page ds \<longleftrightarrow> (\<forall>d \<in> set ds. acknowledged_in_order d)"
    and "map md_id ds = map ms_id rows"
    and "\<forall>r \<in> set rows. ms_acknowledged_at r = None \<Longrightarrow> \<forall>d \<in> set ds. acknowledged_in_order d"
proof -
  have "list_all2 (\<lambda>v d. message_dto L v = Inr d) vs ds"
    using assms(4) by (simp add: collect_results_Inr_iff)
  with assms(3) have row: "length ds = length rows"
    "\<And>k. k < length rows \<Longrightarrow> viewed s (vs ! k) (rows ! k) \<and> message_dto L (vs ! k) = Inr (ds ! k)"
    by (auto simp: list_all2_conv_all_nth)
  have dto: "valid_message (ds ! k) \<longleftrightarrow> acknowledged_in_order (ds ! k)"
      "md_sequence (ds ! k) = MessageSequence (ms_sequence (rows ! k))" "md_id (ds ! k) = ms_id (rows ! k)"
      "ms_acknowledged_at (rows ! k) = None \<Longrightarrow> md_acknowledged_at (ds ! k) = None" if "k < length rows" for k
    using stored_message_valid [OF assms(1,2), of "vs ! k" "rows ! k" "ds ! k"] row(2) [OF that] by auto
  have "sorted_wrt (\<lambda>a b. seq_value (md_sequence a) < seq_value (md_sequence b)) ds"
    using assms(5) row(1) by (auto simp: sorted_wrt_iff_nth_less dto(2))
  then show "valid_page ds \<longleftrightarrow> (\<forall>d \<in> set ds. acknowledged_in_order d)"
    using dto(1) by (auto simp: valid_page_def all_set_conv_all_nth row(1))
  show "map md_id ds = map ms_id rows" by (simp add: list_eq_iff_nth_eq row(1) dto(3))
  show "\<forall>d \<in> set ds. acknowledged_in_order d" if "\<forall>r \<in> set rows. ms_acknowledged_at r = None"
    using dto(4) that by (auto simp: all_set_conv_all_nth row(1) acknowledged_in_order_def opt_ok_def)
qed

lemma exchanged_Inr:
  assumes "exchanged H L ex prepared out finish s = (Inr resp, s')"
  obtains command r where "prepared = Inr command" "finish r = Inr resp"
    "out (fst (run_command H (li_enc L) (ex_iteration ex) command s)) = Inr r"
    "s' = snd (run_command H (li_enc L) (ex_iteration ex) command s)" "ex_fate ex = Delivered"
proof -
  from assms obtain command where "prepared = Inr command" by (cases prepared) (simp_all add: exchanged_def)
  with assms that show thesis
    by (cases "ex_fate ex")
      (auto simp: exchanged_def dispatch_def dispatch_result_def result_simps split: SendFailure.splits)
qed

lemma inbox_page_valid:
  assumes "db_ok H s" and "instants_ok L" and "1 \<le> limit" and "limit \<le> 100"
    and "pending_page_tx H se limit s = Inr (page, s')" and "inbox_body L page = Inr body"
  shows "validate_inbox_response body = Inr ()"
proof -
  from assms(5) obtain ident where "authorize_current H se s = Inr ident"
    by (auto simp: pending_page_tx_def result_simps)
  then obtain i m where owner: "session_owner H se s i m" by (auto simp: authorize_current_Inr [OF assms(1)])
  let ?rows = "pending_rows (mb_id m) s"
  obtain page' k where "pending_page_tx H se limit s = Inr (page', s)"
    and page': "ip_pending_count page' = length ?rows" "ip_oldest_message_id page' = map_option ms_id (first_row ?rows)"
      "ip_highest_priority page' = (if ?rows = [] then None
        else if \<exists>r \<in> set ?rows. ms_priority r = ''high'' then Some MessagePriority.High else Some MessagePriority.Normal)"
      "list_all2 (viewed s) (ip_messages page') (take k ?rows)" "k \<le> limit" "?rows \<noteq> [] \<longrightarrow> 1 \<le> k"
    by (rule pending_page_tx_ok [OF assms(1) owner assms(3,4)])
  with assms(5) have [simp]: "page' = page" by simp
  note page = page' [simplified]
  from assms(6) obtain ds where ds: "collect_results (message_dto L) (ip_messages page) = Inr ds"
    and body: "body = \<lparr>ibr_messages = ds, ibr_pending_count = ip_pending_count page,
      ibr_highest_priority = map_option priority_dto (ip_highest_priority page),
      ibr_oldest_message_id = ip_oldest_message_id page\<rparr>"
    by (auto simp: inbox_body_def result_simps)
  have "sorted_wrt (\<lambda>a b. ms_sequence a < ms_sequence b) (take k ?rows)"
    using pending_rows_ascending [OF assms(1)] by (rule sorted_wrt_take)
  note valid = stored_page_valid [OF assms(1,2) page(4) ds this]
  have "\<forall>r \<in> set (take k ?rows). ms_acknowledged_at r = None"
    using in_set_takeD [of _ k ?rows] by (auto simp: pending_rows_set is_pending_def)
  with valid have ok: "valid_page ds" by blast
  have len: "length ds = min (length ?rows) k" using arg_cong [OF valid(2), of length] by simp
  then have bounds: "length ds \<le> length ?rows" "length ds \<le> 100" using page(5) assms(4) by auto
  have prio: "ip_highest_priority page = None \<longleftrightarrow> ?rows = []" using page(3) by simp
  have "valid_inbox body"
  proof (cases ?rows)
    case Nil
    with bounds ok page(1,2) prio show ?thesis by (simp add: valid_inbox_def body)
  next
    case (Cons r rest)
    with page(6) obtain k' where "k = Suc k'" by (cases k) auto
    with valid(2) Cons obtain d ds' where "ds = d # ds'" "md_id d = ms_id r" by (cases ds) auto
    with Cons bounds ok page(1,2) prio show ?thesis by (simp add: valid_inbox_def body first_row_def)
  qed
  then show ?thesis by (simp add: inbox_response_validator.accepts)
qed

lemma transcript_page_valid:
  assumes "db_ok H s" and "instants_ok L" and "tn_limit query \<le> 100"
    and "transcript_views_tx H se query s = Inr (vs, s')" and "collect_results (message_dto L) vs = Inr ds"
  shows "length ds \<le> 100" and "valid_page ds \<longleftrightarrow> (\<forall>d \<in> set ds. acknowledged_in_order d)"
proof -
  from assms(4) obtain ident squad where auth: "authorize_current H se s = Inr ident"
      "squad_by_id (id_squad ident) s = Inr squad" "sr_name squad = tn_squad query"
    by (auto simp: transcript_views_tx_def result_simps)
  then obtain i m q where owner: "session_owner H se s i m"
    and q: "q \<in> set (db_squads s)" "sq_id q = mb_squad_id m" "sq_name q = tn_squad query"
    by (auto simp: authorize_current_Inr [OF assms(1)] squad_by_id_Inr [OF assms(1)] squad_of_def)
  let ?rows = "take (tn_limit query) (squad_history (mb_squad_id m) (tn_after query) s)"
  have views: "list_all2 (viewed s) vs ?rows"
    using transcript_views_tx_ok [OF assms(1) owner q] assms(4) by (metis Inr_inject prod.inject)
  have "sorted_wrt (\<lambda>a b. ms_sequence a < ms_sequence b) ?rows"
    using history_ascending [OF assms(1)] by (rule sorted_wrt_take)
  note valid = stored_page_valid [OF assms(1,2) views assms(5) this]
  show "valid_page ds \<longleftrightarrow> (\<forall>d \<in> set ds. acknowledged_in_order d)" by (rule valid(1))
  show "length ds \<le> 100" using arg_cong [OF valid(2), of length] assms(3) by simp
qed

text \<open>
  (C38) Clients accept what the relay serves. Every inbox page that a consistent store answers with
  passes the validation its client applies; so does every transcript page, exactly unless it holds a
  message whose acknowledgement bears an earlier time than its creation, which a clock that was set
  back leaves in the store.
\<close>

theorem served_pages_pass_validation:
  assumes "db_ok H s" and "instants_ok L"
  shows "(exchanged H L ex (pending_command L headers query) pending_reply (inbox_body L) s = (Inr body, s1) \<longrightarrow>
        validate_inbox_response body = Inr ())
    \<and> (transcript_handler H L ex squad headers transcript_query s = (Inr resp, s2) \<longrightarrow>
        (validate_transcript_response resp = Inr () \<longleftrightarrow>
          (\<forall>m \<in> set (tsr_messages resp). case md_acknowledged_at m of
             None \<Rightarrow> True | Some t \<Rightarrow> md_created_at m \<le> t)))"
proof (intro conjI impI)
  assume "exchanged H L ex (pending_command L headers query) pending_reply (inbox_body L) s = (Inr body, s1)"
  then obtain command page where cmd: "pending_command L headers query = Inr command"
      "pending_reply (fst (run_command H (li_enc L) (ex_iteration ex) command s)) = Inr page"
    and body: "inbox_body L page = Inr body"
    by (rule exchanged_Inr)
  from cmd obtain c s' where "1 \<le> iqd_limit query" "iqd_limit query \<le> 100"
      "pending_page_tx H (session c (it_now (ex_iteration ex))) (iqd_limit query) s = Inr (page, s')"
    by (auto simp: pending_command_def result_simps reply_with_def authenticated_pending_page_def
        transaction_def split: option.splits sum.splits prod.splits)
  with inbox_page_valid [OF assms] body show "validate_inbox_response body = Inr ()" by blast
next
  assume "transcript_handler H L ex squad headers transcript_query s = (Inr resp, s2)"
  then obtain command vs where cmd: "transcript_command L squad headers transcript_query = Inr command"
      "transcript_reply (fst (run_command H (li_enc L) (ex_iteration ex) command s)) = Inr vs"
    and fin: "rbind (collect_results (message_dto L) vs) (\<lambda>messages. Inr \<lparr>tsr_messages = messages,
      tsr_next_after = (if messages = [] then None else Some (md_sequence (last messages)))\<rparr>) = Inr resp"
    unfolding transcript_handler_def by (rule exchanged_Inr)
  from cmd obtain c name s' where "tqd_limit transcript_query \<le> 100"
      "transcript_views_tx H (session c (it_now (ex_iteration ex))) \<lparr>tn_squad = name,
         tn_after = seq_value (tqd_after transcript_query), tn_limit = tqd_limit transcript_query\<rparr> s = Inr (vs, s')"
    by (auto simp: transcript_command_def result_simps reply_with_def authenticated_transcript_views_def
        transaction_def split: option.splits sum.splits prod.splits if_splits)
  moreover from fin obtain ds where "collect_results (message_dto L) vs = Inr ds"
      "resp = \<lparr>tsr_messages = ds, tsr_next_after = (if ds = [] then None else Some (md_sequence (last ds)))\<rparr>"
    by (auto simp: result_simps)
  ultimately show "validate_transcript_response resp = Inr () \<longleftrightarrow>
          (\<forall>m \<in> set (tsr_messages resp). case md_acknowledged_at m of
             None \<Rightarrow> True | Some t \<Rightarrow> md_created_at m \<le> t)"
    using transcript_page_valid [OF assms, of "\<lparr>tn_squad = name, tn_after = seq_value (tqd_after transcript_query),
        tn_limit = tqd_limit transcript_query\<rparr>"]
    by (simp add: transcript_response_validator.accepts valid_transcript_def acknowledged_in_order_def opt_ok_def)
qed

section \<open>Issued sessions\<close>

text \<open>What \<open>HeaderValue::from_str\<close> accepts it keeps as it is.\<close>

definition headers_ok :: "library \<Rightarrow> bool" where
  "headers_ok L \<longleftrightarrow> (\<forall>v w. li_header L v = Some w \<longrightarrow> w = v)"

lemma issued_response_credential:
  assumes "headers_ok L" and "issued_response L body i t = Inr (body', header)"
  shows "body' = body"
    and "credential L [Some (BEARER_PREFIX @ hv_text header)] = Inr \<lparr>cr_instance_id = i, cr_resume_token = t\<rparr>"
proof -
  from assms obtain a where a: "parse_session_value (li_dec L) (li_enc L) (i @ ''.'' @ t) = Inr a"
    and hv: "hv_text header = encoded a" and body: "body' = body"
    by (auto simp: issued_response_def IssuedSessionHeaders_new_def headers_ok_def result_simps)
  show "body' = body" by (rule body)
  note parts = parse_session_value_parts [OF a]
  have "parse_authorization (li_dec L) (li_enc L) (BEARER_PREFIX @ encoded a) = Inr a"
    using a parts(3,4) by (simp add: parse_authorization_def)
  then show "credential L [Some (BEARER_PREFIX @ hv_text header)] =
      Inr \<lparr>cr_instance_id = i, cr_resume_token = t\<rparr>"
    by (simp add: credential_def hv parts(1,2))
qed

lemma joined_instance_id:
  assumes "JoinAndClaim_wf req" and "join_and_claim_inner H enc entropy eng req fault s = (Inr out, s')"
  shows "ir_id (co_instance (jo_claim out)) = jc_instance_id req"
proof -
  have time: "valid_time (jm_joined_at (jc_membership req))"
    using assms(1) by (simp add: JoinAndClaim_wf_def JoinMembership_wf_def)
  from assms(2) show ?thesis by (rule join_and_claim_Inr) (auto simp: insert_instance_Inr [OF time])
qed

lemma join_squad_handler_Inr:
  assumes "iteration_ok (ex_iteration ex)" and "join_squad_handler H L ex squad request s = (Inr (body, header), s')"
  obtains req out where "validate_join_squad request = Inr ()" "is_ok (SquadName_new squad)"
    "JoinAndClaim_wf req" "jc_lease_policy req = LeasePolicy_default"
    "join_and_claim_inner H (li_enc L) (it_entropy (ex_iteration ex)) (it_engine (ex_iteration ex)) req None s =
       (Inr out, s')"
    "session_response L (jo_membership out) (jo_squad out) (co_instance (jo_claim out)) = Inr body"
    "issued_response L body (ir_id (co_instance (jo_claim out))) (co_resume_token (jo_claim out)) = Inr (body, header)"
proof -
  let ?it = "ex_iteration ex"
  from assms(2) obtain command out where cmd: "join_squad_command (ex_random ex) squad request = Inr command"
    and fin: "rbind (session_response L (jo_membership out) (jo_squad out) (co_instance (jo_claim out))) (\<lambda>body.
       issued_response L body (ir_id (co_instance (jo_claim out))) (co_resume_token (jo_claim out))) =
       Inr (body, header)"
    and out: "join_reply (fst (run_command H (li_enc L) ?it command s)) = Inr out"
      "s' = snd (run_command H (li_enc L) ?it command s)"
    unfolding join_squad_handler_def by (rule exchanged_Inr)
  from cmd obtain w where command: "command = StoreCommand.Join w" "wj_lease_policy w = LeasePolicy_default"
      "validate_join_squad request = Inr ()" "is_ok (SquadName_new squad)"
    by (auto simp: join_squad_command_def valid_request_def result_simps)
  let ?req = "join_request w (it_now ?it)"
  have "JoinAndClaim_wf ?req"
    using join_squad_command_wf [OF cmd] assms(1) command request_at_now(1) by (simp add: iteration_ok_def)
  moreover have "join_and_claim_inner H (li_enc L) (it_entropy ?it) (it_engine ?it) ?req None s = (Inr out, s')"
    using out by (simp add: command reply_with_def join_and_claim_def prod_eq_iff)
  moreover from fin obtain b where
    "session_response L (jo_membership out) (jo_squad out) (co_instance (jo_claim out)) = Inr b"
    "issued_response L b (ir_id (co_instance (jo_claim out))) (co_resume_token (jo_claim out)) = Inr (body, header)"
    by (auto simp: result_simps)
  moreover from this(2) have "b = body" by (auto simp: issued_response_def result_simps)
  ultimately show thesis using that [of ?req out] command(2-4) by (simp add: join_request_def)
qed

text \<open>
  A session that joining over HTTP issues works end to end. The header of the response, sent back
  as a bearer credential, is accepted by the relay as the credential of the new instance, and until
  the lease the response announces runs out the store authorises it as the member that joined.
\<close>

lemma issued_session_works:
  assumes "store_ok H s" and "headers_ok L" and "instants_ok L" and "iteration_ok (ex_iteration ex)"
    and "join_squad_handler H L ex squad request s = (Inr (body, header), s')"
    and "as_i64 now * 1000000 < ts_value (sp_lease_expires_at body)"
  shows "\<exists>c ident. credential L [Some (BEARER_PREFIX @ hv_text header)] = Inr c
    \<and> cr_instance_id c = sp_instance_id body
    \<and> authorize_current H (session c now) s' = Inr ident
    \<and> id_membership ident = sp_membership_id body"
proof -
  from assms(4,5) obtain req out where wf: "JoinAndClaim_wf req"
    and run: "join_and_claim_inner H (li_enc L) (it_entropy (ex_iteration ex)) (it_engine (ex_iteration ex)) req None s =
       (Inr out, s')"
    and b: "session_response L (jo_membership out) (jo_squad out) (co_instance (jo_claim out)) = Inr body"
    and issued: "issued_response L body (ir_id (co_instance (jo_claim out))) (co_resume_token (jo_claim out)) = Inr (body, header)"
    by (rule join_squad_handler_Inr)
  note cred = issued_response_credential [OF assms(2) issued]
  have body: "sp_instance_id body = jc_instance_id req" "sp_membership_id body = mr_id (jo_membership out)"
      "ts_value (sp_lease_expires_at body) = as_i64 (ir_lease_expires_at (co_instance (jo_claim out))) * 1000000"
    using b joined_instance_id [OF wf run]
    by (auto simp: session_response_def result_simps dest!: api_timestamp_Inr [OF assms(3)])
  have "now < ir_lease_expires_at (co_instance (jo_claim out))"
    using assms(6) body(3) by (simp add: less_UnixMillis_def)
  from joined_session_owner [OF assms(1) wf run this] show ?thesis
    using cred(2) body(1,2) joined_instance_id [OF wf run] by (auto simp: session_def)
qed

section \<open>A concrete exchange\<close>

text \<open>A third member joins the sample squad over HTTP and reads its transcript.\<close>

definition sample_library :: library where
  "sample_library = \<lparr>li_from_nanos = Some, li_dec = sample_dec, li_enc = sample_enc, li_header = Some,
     li_to_json = (\<lambda>_. Some ''{}'')\<rparr>"

definition sample_bytes :: "8 word list" where
  "sample_bytes = replicate 16 0"

definition sample_exchange :: exchange where
  "sample_exchange = \<lparr>ex_random = (\<lambda>_. Some sample_bytes), ex_fate = Delivered,
     ex_iteration = sample_iteration\<lparr>it_entropy := Some (replicate 32 (CHR ''r''))\<rparr>\<rparr>"

definition sample_join_request :: JoinSquadRequest where
  "sample_join_request = \<lparr>jsq_name = ''eve'', jsq_role = ''qa'', jsq_mode = AgentModeDto.Cooperative,
     jsq_client = \<lparr>cm_kind = ''cli'', cm_hostname = None, cm_version = None\<rparr>, jsq_mission = None\<rparr>"

lemma sample_hex: "length sample_bytes = 16" "hex_suffix sample_bytes = ''00000000000000000000000000000000''"
  by code_simp+

lemma sample_ids:
  "fresh_identifier ''sqd'' SquadId_new (ex_random sample_exchange k) = Inr ''sqd_00000000000000000000000000000000''"
  "fresh_identifier ''agt'' AgentId_new (ex_random sample_exchange k) = Inr ''agt_00000000000000000000000000000000''"
  "fresh_identifier ''mem'' MembershipId_new (ex_random sample_exchange k) = Inr ''mem_00000000000000000000000000000000''"
  "fresh_identifier ''ins'' InstanceId_new (ex_random sample_exchange k) = Inr ''ins_00000000000000000000000000000000''"
  by (simp_all add: sample_exchange_def squad_ids.generated agent_ids.generated membership_ids.generated
      instance_ids.generated sample_hex)

lemmas [eval_simps] = sample_join_request_def validate_join_squad_def validate_client_metadata_def
  valid_request_def parsed_def checked_opt_def checked_def

lemma sample_issue:
  "issued_response sample_library body ''ins_00000000000000000000000000000000'' sample_token =
     Inr (body, \<lparr>hv_text = encoded \<lparr>sc_instance_id = ''ins_00000000000000000000000000000000'',
        sc_resume_token = sample_token\<rparr>, hv_sensitive = True\<rparr>)"
proof -
  let ?c = "\<lparr>sc_instance_id = ''ins_00000000000000000000000000000000'', sc_resume_token = sample_token\<rparr>"
  have "SessionCredential_wf sample_dec sample_enc ?c"
    by (simp add: SessionCredential_wf_def sample_codec(2)) (simp add: eval_simps)
  from parse_encoded [OF sample_codec(1) this] show ?thesis
    by (simp add: issued_response_def sample_library_def encoded_def IssuedSessionHeaders_new_def)
qed

lemma sample_generate: "ResumeToken_generate sample_enc (Some (replicate 32 (CHR ''r''))) = Inr sample_token"
  by (simp add: ResumeToken_generate_def sample_enc_def TOKEN_BYTES_def)

lemma sample_library_sel:
  "li_enc sample_library = sample_enc" "li_dec sample_library = sample_dec" "li_from_nanos sample_library = Some"
  by (simp_all add: sample_library_def)

lemma sample_token_len: "length sample_token = 43" by (simp add: sample_token_def)

lemmas [eval_simps] = exchanged_def dispatch_def dispatch_result_def reply_with_def join_request_def
    sample_exchange_def sample_iteration_def join_and_claim_def sample_library_sel sample_token_len sample_enc_def
    session_response_def squad_dto_def squad_state_dto_def api_timestamp_def ApiTimestamp_new_def nanosecond_def seconds_def
    sample_issue

definition sample_joined :: db where
  "sample_joined = snd (join_squad_handler sample_hash sample_library sample_exchange ''core'' sample_join_request sample_sent)"

definition sample_header :: string where
  "sample_header = BEARER_PREFIX @ encoded \<lparr>sc_instance_id = ''ins_00000000000000000000000000000000'', sc_resume_token = sample_token\<rparr>"

lemma sample_credential: "credential sample_library [Some sample_header] =
   Inr \<lparr>cr_instance_id = ''ins_00000000000000000000000000000000'', cr_resume_token = sample_token\<rparr>"
  using issued_response_credential(2) [OF _ sample_issue] by (simp add: headers_ok_def sample_library_def sample_header_def)

lemma sample_joined_run:
  "\<exists>body header. join_squad_handler sample_hash sample_library sample_exchange ''core'' sample_join_request sample_sent =
      (Inr (body, header), sample_joined)
    \<and> ts_value (sp_lease_expires_at body) = 35000000000
    \<and> hv_text header = encoded \<lparr>sc_instance_id = ''ins_00000000000000000000000000000000'',
        sc_resume_token = sample_token\<rparr>"
  unfolding sample_joined_def join_squad_handler_def join_squad_command_def sample_ids
  by (simp add: eval_simps)

lemma sample_transcript_http:
  "\<exists>resp. transcript_handler sample_hash sample_library sample_exchange ''core'' [Some sample_header]
      \<lparr>tqd_after = MessageSequence 0, tqd_limit = 10\<rparr> sample_joined = (Inr resp, sample_joined)
    \<and> length (tsr_messages resp) = 1 \<and> list_all (\<lambda>m. md_acknowledged_at m = None) (tsr_messages resp)"
  unfolding sample_joined_def join_squad_handler_def join_squad_command_def sample_ids
  by (simp add: eval_simps transcript_handler_def transcript_command_def sample_credential message_dto_def
      MessageSequence_new_def session_def authenticated_transcript_views_def transcript_views_tx_def
      transcript_rows_def map_message_def parse_priority_def)

lemma sample_library_ok: "headers_ok sample_library" "instants_ok sample_library"
  by (simp_all add: headers_ok_def instants_ok_def sample_library_def)

lemma sample_exchange_ok: "iteration_ok (ex_iteration sample_exchange)"
  using sample_iteration_ok by (simp add: sample_exchange_def iteration_ok_def)

lemma sample_joined_ok: "store_ok sample_hash sample_joined"
proof -
  obtain c where cmd: "join_squad_command (ex_random sample_exchange) ''core'' sample_join_request = Inr c"
    unfolding join_squad_command_def sample_ids by (simp add: eval_simps)
  then have "sample_joined = snd (run_command sample_hash sample_enc (ex_iteration sample_exchange) c sample_sent)"
    by (simp add: sample_joined_def join_squad_handler_def exchanged_def dispatch_def sample_library_sel
        sample_exchange_def)
  then have "sample_joined = sample_sent \<or> store_step sample_hash sample_enc sample_sent sample_joined"
    using run_command_step [OF sample_exchange_ok join_squad_command_wf [OF cmd]] by (metis prod.collapse)
  then show ?thesis using store_step_ok by auto
qed

theorem refused_request_changes_nothing_witness:
  "\<exists>s'. create_squad_handler sample_hash sample_library sample_exchange
      \<lparr>csq_name = ''Core!'', csq_mission = ''ship''\<rparr> sample_sent = (Inl ApiErrorCode.InvalidRequest, s')
    \<and> s' = sample_sent"
proof -
  have run: "create_squad_handler sample_hash sample_library sample_exchange
      \<lparr>csq_name = ''Core!'', csq_mission = ''ship''\<rparr> sample_sent = (Inl ApiErrorCode.InvalidRequest, sample_sent)"
    by (simp add: create_squad_handler_def create_squad_command_def validate_create_squad_def eval_simps)
  have "refusal_explained sample_hash sample_library sample_exchange
      (create_squad_command (ex_random sample_exchange) \<lparr>csq_name = ''Core!'', csq_mission = ''ship''\<rparr>)
      ApiErrorCode.InvalidRequest sample_sent sample_sent"
    using refused_request_changes_nothing [OF sample_sent_store_ok] run by blast
  with run show ?thesis by (auto simp: refusal_explained_def)
qed

theorem served_pages_pass_validation_witness:
  "\<exists>resp. transcript_handler sample_hash sample_library sample_exchange ''core'' [Some sample_header]
      \<lparr>tqd_after = MessageSequence 0, tqd_limit = 10\<rparr> sample_joined = (Inr resp, sample_joined)
    \<and> length (tsr_messages resp) = 1 \<and> validate_transcript_response resp = Inr ()"
proof -
  obtain resp where run: "transcript_handler sample_hash sample_library sample_exchange ''core'' [Some sample_header]
      \<lparr>tqd_after = MessageSequence 0, tqd_limit = 10\<rparr> sample_joined = (Inr resp, sample_joined)"
    and "length (tsr_messages resp) = 1" "list_all (\<lambda>m. md_acknowledged_at m = None) (tsr_messages resp)"
    using sample_transcript_http by blast
  with served_pages_pass_validation [OF store_okD(1) [OF sample_joined_ok] sample_library_ok(2)] show ?thesis
    by (fastforce simp: list_all_iff)
qed

end
