(* ===== verification/Relay_Delivery.thy ===== *)
theory Relay_Delivery
  imports Relay_Service
begin

text \<open>
  Delivery to a waiting request: what commands do to the set of pending messages, and that a long
  poll which found its inbox empty after it subscribed never sleeps through a message.
\<close>

section \<open>Commands and pending messages\<close>

definition has_pending :: "MembershipId \<Rightarrow> db \<Rightarrow> bool" where
  "has_pending m s \<longleftrightarrow> (\<exists>r \<in> set (db_messages s). ms_recipient_membership_id r = m \<and> ms_acknowledged_at r = None)"

lemma has_pending_rows: "has_pending m s \<longleftrightarrow> pending_rows m s \<noteq> []"
proof -
  have "pending_rows m s \<noteq> [] \<longleftrightarrow> (\<exists>r. r \<in> set (pending_rows m s))" by (metis last_in_set list.set_cases neq_Nil_conv)
  then show ?thesis by (auto simp: has_pending_def pending_rows_set is_pending_def)
qed

text \<open>The statements that leave messages alone.\<close>

lemma inserts_keep_messages:
  "insert_squad q s = Inr s' \<Longrightarrow> db_messages s' = db_messages s"
  "insert_agent a s = Inr s' \<Longrightarrow> db_messages s' = db_messages s"
  "insert_membership_or_ignore m s = Inr (n, s') \<Longrightarrow> db_messages s' = db_messages s"
  "insert_instance_row i s = Inr s' \<Longrightarrow> db_messages s' = db_messages s"
  by (auto simp: insert_squad_Inr insert_agent_Inr insert_membership_or_ignore_def insert_instance_row_Inr
      split: if_splits)

lemma updates_keep_messages [simp]:
  "db_messages (archive_where p1 t s) = db_messages s"
  "db_messages (leave_where p2 t s) = db_messages s"
  "db_messages (close_where p3 t s) = db_messages s"
  "db_messages (renew_where p3 av src t u s) = db_messages s"
  by (simp_all add: archive_where_def leave_where_def close_where_def renew_where_def)

lemma create_squad_messages: "db_messages (snd (create_squad eng req s)) = db_messages s"
  unfolding create_squad_def
  by (rule transaction_preserves)
    (auto simp: result_simps insert_squad_or_ignore_def dest: inserts_keep_messages split: if_splits)

lemma insert_instance_messages:
  "insert_instance H i m mode ck hn tok a src now pol s = Inr (rec, s') \<Longrightarrow> db_messages s' = db_messages s"
  by (auto simp: insert_instance_def result_simps dest: inserts_keep_messages)

lemma join_and_claim_messages:
  assumes "join_and_claim_inner H enc entropy eng req fault s = (Inr out, s')" and "db_ok H s"
  shows "db_messages s' = db_messages s"
  using assms(1)
proof (rule join_and_claim_Inr)
  fix token squad s1 s2 n s3 inst squad_record
  assume "auth_find_or_create_squad (jc_membership req) s = Inr (squad, s1)"
  then have "find_or_create_squad (jc_membership req) s = Inr (squad, s1)"
    by (rule auth_find_or_create_squad_same [OF assms(2)])
  then have "db_messages s1 = db_messages s" by (rule find_or_create_squad_Inr) (auto dest: inserts_keep_messages)
  moreover assume "insert_agent \<lparr>ag_id = jm_agent_id (jc_membership req),
       ag_created_at = as_i64 (jm_joined_at (jc_membership req))\<rparr> s1 = Inr s2"
    and "insert_membership_or_ignore (new_membership_row (jc_membership req) squad) s2 = Inr (n, s3)"
    and "insert_instance H (jc_instance_id req) (jm_membership_id (jc_membership req)) (jc_mode req)
       (jc_client_kind req) (jc_hostname req) token (jc_availability req)
       (jc_availability_source req) (jm_joined_at (jc_membership req)) (jc_lease_policy req) s3 = Inr (inst, s')"
  ultimately show ?thesis by (metis inserts_keep_messages(2,3) insert_instance_messages)
qed

lemma session_writes_messages:
  assumes "db_ok H s"
  shows "db_messages (snd (authenticated_heartbeat H eng se av src pol s)) = db_messages s"
    and "db_messages (snd (authenticated_leave H eng se n s)) = db_messages s"
    and "db_messages (snd (authenticated_archive_by_name H eng se n s)) = db_messages s"
    and "db_messages (snd (authenticated_resume H eng req s)) = db_messages s"
proof -
  have "db_messages s' = db_messages s" if "heartbeat_authenticated_tx H se av src pol s = Inr (rec, s')" for rec s'
    using assms that by (rule heartbeat_authenticated_tx_Inr) simp
  then have hb: "db_messages (snd (transaction eng (heartbeat_authenticated_tx H se av src pol) s)) = db_messages s"
    by (intro transaction_preserves [where P = "\<lambda>x. db_messages x = db_messages s"]) simp_all
  then show "db_messages (snd (authenticated_heartbeat H eng se av src pol s)) = db_messages s"
    by (simp add: authenticated_heartbeat_def split: sum.splits)
  show "db_messages (snd (authenticated_leave H eng se n s)) = db_messages s"
      "db_messages (snd (authenticated_archive_by_name H eng se n s)) = db_messages s"
    unfolding authenticated_leave_def authenticated_archive_by_name_def
    by (rule transaction_preserves; auto simp: result_simps Let_def)+
  have "db_messages s' = db_messages s" if "resume_authenticated_tx H req s = Inr (ctx, s')" for ctx s'
    using assms that by (rule resume_authenticated_tx_Inr) (auto dest!: insert_instance_messages)
  then have "db_messages (snd (transaction eng (resume_authenticated_tx H req) s)) = db_messages s"
    by (intro transaction_preserves [where P = "\<lambda>x. db_messages x = db_messages s"]) simp_all
  then show "db_messages (snd (authenticated_resume H eng req s)) = db_messages s"
    by (simp add: authenticated_resume_def split: sum.splits)
qed

lemma acknowledge_pending:
  assumes "enumerates hash_order"
    and "has_pending m (snd (authenticated_acknowledge H hash_order eng se ids s))"
  shows "has_pending m s"
proof -
  have step: "has_pending m s' \<longrightarrow> has_pending m s"
    if "rbind (authorize_current H se s) (\<lambda>identity.
     acknowledge_on hash_order \<lparr>ak_recipient = id_membership identity,
       ak_message_ids = ids, ak_acknowledged_at = se_now se\<rparr> False s) = Inr (u, s')" for u s'
  proof -
    from that obtain rcp where ack: "acknowledge_on hash_order \<lparr>ak_recipient = rcp,
       ak_message_ids = ids, ak_acknowledged_at = se_now se\<rparr> False s = Inr (u, s')"
      by (auto simp: result_simps)
    have order: "\<And>xs. set (hash_order xs) = set xs" using assms(1) by (simp add: enumerates_def)
    have "s' = ack_where (ack_matches rcp (set ids)) (as_i64 (se_now se)) s"
      using acknowledge_on_Inr(1) [OF order ack] by simp
    then show ?thesis by (auto simp: has_pending_def ack_where_def update_where_def ack_row_def split: if_splits)
  qed
  have "has_pending m (snd (authenticated_acknowledge H hash_order eng se ids s)) \<longrightarrow> has_pending m s"
    unfolding authenticated_acknowledge_def
    by (rule transaction_preserves [where P = "\<lambda>x. has_pending m x \<longrightarrow> has_pending m s"]) (simp, rule step)
  with assms(2) show ?thesis by blast
qed

lemma message_view_on_message: "message_view_on rec s = Inr v \<Longrightarrow> mv_message v = rec"
  by (auto simp: message_view_on_def result_simps traverse_opt_def split: option.splits)

lemma send_by_name_messages:
  assumes "db_ok H s" and "send_by_name_tx H se req s = Inr (out, s')"
  obtains "db_messages s' = db_messages s"
  | row where "db_messages s' = db_messages s @ [row]"
      "ms_recipient_membership_id row = sem_recipient (mg_semantics (mv_message (so_message out)))"
proof -
  from assms(2) obtain ident where
    "s' = s \<or> fresh_by_name H se req ident s = Inr (out, s')"
    by (auto simp: send_by_name_tx_def replay_by_name_def Let_def result_simps split: option.splits)
  then show thesis
  proof
    assume "fresh_by_name H se req ident s = Inr (out, s')"
    then obtain send rec where send: "send_in_transaction H send s = Inr (rec, s')"
      and view: "message_view_on rec s' = Inr (so_message out)"
      by (auto simp: fresh_by_name_def Let_def result_simps)
    have rec: "mv_message (so_message out) = rec" using message_view_on_message [OF view] .
    from assms(1) send show thesis
    proof (cases rule: send_in_transaction_cases)
      case (fresh n)
      then show thesis using that(2) rec by (auto simp: insert_message_Inr message_of_def)
    qed (use that(1) in simp)
  qed (use that(1) in simp)
qed

text \<open>A message becomes pending only through a send that succeeds, and then for its recipient.\<close>

lemma run_command_pending:
  assumes "store_ok H s" and "iteration_ok it" and "run_command H enc it command s = (reply, s')"
    and "has_pending m s'" and "\<not> has_pending m s"
  obtains out where "reply = SendReply (Inr out)" "m = sem_recipient (mg_semantics (mv_message (so_message out)))"
proof -
  have db: "db_ok H s" using assms(1) by (rule store_okD)
  have same: False if "db_messages s' = db_messages s"
    using assms(4,5) that by (simp add: has_pending_def)
  have snd_eq: "s' = snd res" if "reply_with f res = (reply, s')" for f :: "'a \<Rightarrow> Reply" and res
    using that by (auto simp: reply_with_def)
  show thesis
  proof (cases command)
    case (Send c req)
    let ?se = "session c (it_now it)"
    obtain r where run: "authenticated_send_by_name H (it_engine it) ?se req s = (r, s')" and reply: "reply = SendReply r"
      using assms(3) Send by (auto simp: reply_with_eq)
    show thesis
    proof (cases r)
      case (Inl e)
      with run same show thesis
        by (auto simp: authenticated_send_by_name_def dest: transaction_error_rolls_back)
    next
      case (Inr out)
      with run have "send_by_name_tx H ?se req s = Inr (out, s')"
        by (simp add: authenticated_send_by_name_def transaction_Inr)
      with db show thesis
      proof (cases rule: send_by_name_messages)
        case (2 row)
        then have "m = ms_recipient_membership_id row" using assms(4,5) by (auto simp: has_pending_def)
        with 2 Inr reply that show thesis by simp
      qed (use same in simp)
    qed
  next
    case (Acknowledge c ids)
    then show thesis
      using assms(2-5) acknowledge_pending [of "it_hash_order it" m] by (auto simp: iteration_ok_def reply_with_def)
  next
    case (Join w)
    obtain r where run: "join_and_claim_inner H enc (it_entropy it) (it_engine it) (join_request w (it_now it)) None s = (r, s')"
      using assms(3) Join by (auto simp: reply_with_eq join_and_claim_def)
    then show thesis
      using same join_and_claim_error join_and_claim_messages [OF _ db] by (cases r) fastforce+
  qed (use assms(3) same create_squad_messages session_writes_messages [OF db] in \<open>auto simp: reply_with_def\<close>)
qed

section \<open>Long polls\<close>

definition attentive ::
  "('sem, 'tx, 'rx) tokio \<Rightarrow> 'rx NotificationSubscription \<Rightarrow> ('sem, 'tx, 'rx) worker \<Rightarrow> bool" where
  "attentive T sub w \<longleftrightarrow> has_pending (ns_key sub) (wk_store w) \<longrightarrow> unseen T (wk_waiting w) sub"

definition relay_ok ::
  "('sem, 'tx, 'rx) tokio \<Rightarrow> (string \<Rightarrow> string) \<Rightarrow> ('sem, 'tx, 'rx) worker \<Rightarrow> bool" where
  "relay_ok T H w \<longleftrightarrow> worker_ok w \<and> store_ok H (wk_store w) \<and> registry_ok T (wk_waiting w)
     \<and> receivers_ok T (wk_waiting w)"

lemma relay_step_ok:
  assumes "worker_step T H enc w w'" and "tokio_ok T" and "relay_ok T H w"
  shows "relay_ok T H w'"
proof -
  have ok: "worker_ok w" "store_ok H (wk_store w)" "registry_ok T (wk_waiting w)" "receivers_ok T (wk_waiting w)"
    using assms(3) by (simp_all add: relay_ok_def)
  have step: "store_run H enc (wk_store w) (wk_store w')" "(registry_step T)\<^sup>*\<^sup>* (wk_waiting w) (wk_waiting w')"
    using worker_step_refines [OF assms(1) ok(1)] by simp_all
  from step(2) have "registry_ok T (wk_waiting w') \<and> receivers_ok T (wk_waiting w')"
    by (induction rule: rtranclp_induct) (use ok(3,4) registry_step_keeps [OF _ assms(2)] in blast)+
  with worker_step_ok [OF assms(1) ok(1)] store_run_ok [OF step(1) ok(2)] show ?thesis by (simp add: relay_ok_def)
qed

lemma relay_run_ok:
  assumes "worker_run T H enc (start_worker T capacity s) w" and "tokio_ok T" and "store_ok H s"
  shows "relay_ok T H w"
proof -
  from worker_run_refines [OF assms(1)] have "worker_ok w" "store_run H enc s (wk_store w)"
      "(registry_step T)\<^sup>*\<^sup>* (initial T) (wk_waiting w)" by simp_all
  with store_run_ok [OF _ assms(3)] registry_reachable_ok [OF _ assms(2)] show ?thesis
    by (auto simp: relay_ok_def)
qed

lemma notified_unseen:
  assumes "tokio_ok T" and "registry_ok T v" and "sub \<in> set (wt_live v)" and "unseen T v sub"
  shows "unseen T (v\<lparr>wt_registry := notified T reply (wt_registry v)\<rparr>) sub"
proof (cases "notified T reply (wt_registry v) = wt_registry v")
  case False
  then obtain m where "notified T reply (wt_registry v) = notify T m (wt_registry v)"
    by (auto simp: notified_def split: Reply.splits sum.splits)
  then show ?thesis
    using unseen_step [OF registry_step.notify [of T v m] assms(1,2) _ assms(4)] assms(3) by simp
qed (use assms(4) in simp)

lemma attentive_step:
  assumes "worker_step T H enc w w'" and "tokio_ok T" and "relay_ok T H w"
    and "sub \<in> set (wt_live (wk_waiting w))" and "sub \<in> set (wt_live (wk_waiting w'))" and "attentive T sub w"
  shows "attentive T sub w'"
  using assms(1)
proof cases
  case (waiter v)
  then show ?thesis
    using assms unseen_step [of T "wk_waiting w" v sub] by (auto simp: attentive_def relay_ok_def)
next
  case (work it)
  from work(2) show ?thesis
  proof (cases rule: worker_turn_cases)
    case (execute i command reply s')
    have ok: "store_ok H (wk_store w)" "registry_ok T (wk_waiting w)" "receivers_ok T (wk_waiting w)"
      using assms(3) by (simp_all add: relay_ok_def)
    show ?thesis
    proof (cases "has_pending (ns_key sub) (wk_store w)")
      case True
      then show ?thesis
        using notified_unseen [OF assms(2) ok(2) assms(4)] assms(6) by (simp add: attentive_def execute(3))
    next
      case False
      have "unseen T (wk_waiting w') sub" if "has_pending (ns_key sub) (wk_store w')"
      proof -
        from that have "has_pending (ns_key sub) s'" by (simp add: execute(3))
        from ok(1) work(1) execute(2) this False obtain out where "reply = SendReply (Inr out)"
            "ns_key sub = sem_recipient (mg_semantics (mv_message (so_message out)))"
          by (rule run_command_pending)
        with notify_unseen [OF ok(2,3) assms(4)] show ?thesis by (simp add: execute(3) notified_def)
      qed
      then show ?thesis by (simp add: attentive_def)
    qed
  qed (use assms(6) in \<open>auto simp: attentive_def\<close>)
qed (use assms(6) in \<open>auto simp: attentive_def try_send_Inr stop_accepting_def raise_shutdown_def take_sender_def\<close>)

text \<open>
  (C6) No long poll sleeps through a message. Take a request that subscribed to its membership and
  then found its inbox empty, in any reachable state of the relay; as long as it has not looked at its
  channel again, at any later moment either its inbox is still empty or its channel shows a change,
  whatever the other requests and the worker do in between, sends that came before it waited included.
\<close>

theorem waiting_request_is_never_stranded:
  assumes "tokio_ok T" and "store_ok H s" and "worker_run T H enc (start_worker T capacity s) w"
    and "sub \<in> set (wt_live (wk_waiting w))" and "pending_rows (ns_key sub) (wk_store w) = []"
    and "(\<lambda>a b. worker_step T H enc a b \<and> sub \<in> set (wt_live (wk_waiting b)))\<^sup>*\<^sup>* w w'"
  shows "pending_rows (ns_key sub) (wk_store w') = []
    \<or> (\<exists>e. nr_entries (wt_registry (wk_waiting w')) (ns_key sub) = Some e
        \<and> has_changed T (ne_generation e) (ns_receiver sub))"
proof -
  from assms(6) have "relay_ok T H w' \<and> sub \<in> set (wt_live (wk_waiting w')) \<and> attentive T sub w'"
  proof (induction rule: rtranclp_induct)
    case base
    show ?case using relay_run_ok [OF assms(3,1,2)] assms(4,5) by (simp add: attentive_def has_pending_rows)
  next
    case (step a b)
    then show ?case using relay_step_ok [OF _ assms(1)] attentive_step [OF _ assms(1)] by blast
  qed
  then show ?thesis by (auto simp: attentive_def has_pending_rows unseen_def)
qed

theorem waiting_request_is_never_stranded_witness:
  "\<exists>w'. worker_turn counting_tokio sample_hash id sample_iteration
      (sample_worker (Executing 7 sample_command) []) = Some w'
    \<and> (pending_rows ''mem_2'' (wk_store w') = []
      \<or> (\<exists>e. nr_entries (wt_registry (wk_waiting w')) ''mem_2'' = Some e
          \<and> has_changed counting_tokio (ne_generation e) 0))"
proof -
  let ?w = "sample_worker (Executing 7 sample_command) []"
  have sub: "sample_subscriber \<in> set (wt_live (wk_waiting ?w))"
      "pending_rows (ns_key sample_subscriber) (wk_store ?w) = []"
    by (simp_all add: sample_worker_def start_worker_def) (simp add: sample_subscriber_def pending_rows_def eval_simps)
  obtain w' where turn: "worker_turn counting_tokio sample_hash id sample_iteration ?w = Some w'"
    and live: "sample_subscriber \<in> set (wt_live (wk_waiting w'))"
    by (cases "run_command sample_hash id sample_iteration sample_command sample_pair")
      (simp add: worker_turn_def sample_worker_def start_worker_def)
  have "(\<lambda>a b. worker_step counting_tokio sample_hash id a b \<and> sample_subscriber \<in> set (wt_live (wk_waiting b)))\<^sup>*\<^sup>* ?w w'"
    by (rule r_into_rtranclp) (simp add: live worker_step.work [OF sample_iteration_ok turn])
  from waiting_request_is_never_stranded
    [OF counting_tokio_ok sample_pair_store_ok sample_executing_run sub this] turn
  show ?thesis by (simp add: sample_subscriber_def)
qed

end
