(* ===== verification/Client_Relay.thy ===== *)
theory Client_Relay
  imports Relay_Delivery Client_Http
begin

text \<open>
  The client talking to the relay. A request may get lost on the way, the relay's response may get
  lost on the way back, and the client's deadline may pass at any moment; what arrives is what the
  handlers of \<open>Relay_Http\<close> produce. JSON is outside the program: \<open>render\<close> and \<open>render_error\<close> print the
  bodies and a \<open>codec\<close> reads them, related by \<open>reads\<close>.
\<close>

section \<open>Responses on the wire\<close>

definition json_response :: "nat \<Rightarrow> string \<Rightarrow> http_response" where
  "json_response status body =
     \<lparr>rsp_status = status, rsp_content_type = [Some ''application/json''], rsp_session_credential = [],
      rsp_cache_control = [], rsp_content_length = Some (length body), rsp_chunks = [Inr body]\<rparr>"

definition relay_response :: "('r \<Rightarrow> string) \<Rightarrow> (ErrorBody \<Rightarrow> string) \<Rightarrow> ApiFailure + 'r \<Rightarrow> http_response" where
  "relay_response render render_error result =
     (case result of
        Inl failure \<Rightarrow> (let (status, body) = failure_response failure in json_response status (render_error body))
      | Inr v \<Rightarrow> json_response 200 (render v))"

text \<open>\<open>IssuedSessionHeaders::apply\<close>\<close>

definition issued_headers :: "HeaderValue \<Rightarrow> http_response \<Rightarrow> http_response" where
  "issued_headers header response =
     response\<lparr>rsp_session_credential := [Some (hv_text header)], rsp_cache_control := [Some ''no-store'']\<rparr>"

text \<open>
  JSON text is read as the value it was printed from, if at all, and the relay's error bodies are
  read back and small.
\<close>

definition reads :: "'r codec \<Rightarrow> ('r \<Rightarrow> string) \<Rightarrow> (ErrorBody \<Rightarrow> string) \<Rightarrow> bool" where
  "reads C render render_error \<longleftrightarrow>
     (\<forall>v v'. co_value C (render v) = Some v' \<longrightarrow> v' = v)
     \<and> (\<forall>f. let body = snd (failure_response f) in
          co_error C (render_error body) = Some body \<and> length (render_error body) \<le> MAX_RESPONSE_BYTES)"

lemma json_is_json [simp]: "is_json (json_response status body)"
  by (simp add: is_json_def json_response_def trim_ascii_def eq_ignore_ascii_case_def eval_simps)

lemma json_response_sel [simp]:
  "rsp_status (json_response status body) = status"
  "rsp_content_length (json_response status body) = Some (length body)"
  "rsp_chunks (json_response status body) = [Inr body]"
  by (simp_all add: json_response_def)

lemma failure_body_valid: "validate_error_body (snd (failure_response f)) = Inr ()"
  by (cases f) (simp_all add: failure_response_def validate_error_body_def protocol_bounds eval_simps)

lemma failure_status: "http_status f \<noteq> 408 \<and> \<not> (200 \<le> http_status f \<and> http_status f < 300)"
  by (cases f) simp_all

lemma decode_failure:
  assumes "reads C render render_error"
  shows "decode C (relay_response render render_error (Inl f)) =
    Inl (Error.Api (http_status f) f (f \<in> {ApiErrorCode.RateLimited, ApiErrorCode.DatabaseBusy}))"
proof -
  obtain body where body: "failure_response f = (http_status f, body)" "eb_code body = f"
      "eb_retryable body = (f \<in> {ApiErrorCode.RateLimited, ApiErrorCode.DatabaseBusy})"
    by (simp add: failure_response_def)
  have "length (render_error body) \<le> MAX_RESPONSE_BYTES" "co_error C (render_error body) = Some body"
    using assms body(1) by (simp_all add: reads_def Let_def) (metis snd_conv)+
  moreover have "validate_error_body body = Inr ()" using failure_body_valid [of f] by (simp add: body(1))
  ultimately show ?thesis
    using body(1-3) failure_status [of f] by (auto simp: relay_response_def decode_def Let_def)
qed

lemma decode_value:
  assumes "reads C render render_error" and "decode C (relay_response render render_error result) = Inr v"
  shows "result = Inr v"
proof (cases result)
  case (Inl f)
  with assms show ?thesis by (simp add: decode_failure)
next
  case (Inr v')
  with assms show ?thesis
    by (auto simp: reads_def relay_response_def decode_def Let_def result_simps split: if_splits)
qed

text \<open>
  The error answers of the relay that carry no envelope: the deadline of a request has passed
  (\<open>request_deadline\<close>), the semaphore of the admission is closed (\<open>admit_request\<close>), or the worker is not
  ready (\<open>ready\<close>, which answers with the body of its success).
\<close>

definition bare_response :: "nat \<Rightarrow> http_response" where
  "bare_response status =
     \<lparr>rsp_status = status, rsp_content_type = [], rsp_session_credential = [], rsp_cache_control = [],
      rsp_content_length = Some 0, rsp_chunks = []\<rparr>"

definition ready_response :: "nat \<Rightarrow> WorkerError + unit \<Rightarrow> nat \<times> ReadyResponse" where
  "ready_response schema_version worker =
     (case worker of
        Inr _ \<Rightarrow> (200, \<lparr>rr_status = ''ready'', rr_schema_version = schema_version\<rparr>)
      | Inl _ \<Rightarrow> (503, \<lparr>rr_status = ''unavailable'', rr_schema_version = schema_version\<rparr>))"

datatype relay_error =
    Answered ApiFailure
  | DeadlinePassed
  | AdmissionClosed
  | WorkerNotReady WorkerError

definition error_response ::
  "(ErrorBody \<Rightarrow> string) \<Rightarrow> (ReadyResponse \<Rightarrow> string) \<Rightarrow> nat \<Rightarrow> relay_error \<Rightarrow> http_response" where
  "error_response render_error render_ready schema_version e =
     (case e of
        Answered f \<Rightarrow> (let (status, body) = failure_response f in json_response status (render_error body))
      | DeadlinePassed \<Rightarrow> bare_response 408
      | AdmissionClosed \<Rightarrow> bare_response 503
      | WorkerNotReady w \<Rightarrow> (let (status, body) = ready_response schema_version (Inl w) in json_response status (render_ready body)))"

text \<open>The body of a readiness check is small and is not an error envelope.\<close>

definition reads_ready :: "'r codec \<Rightarrow> (ReadyResponse \<Rightarrow> string) \<Rightarrow> bool" where
  "reads_ready C render_ready \<longleftrightarrow>
     (\<forall>body. co_error C (render_ready body) = None \<and> length (render_ready body) \<le> MAX_RESPONSE_BYTES)"

text \<open>
  (C37) The client reads every error answer of the relay's handlers and limits, on the routes it asks, as the relay meant it. An error envelope keeps
  its code and whether it may be retried; a passed deadline of the relay, which answers 408 without an
  envelope, is a timeout; a closed admission and a worker that is not ready are an unexpected status 503.
  An attempt is repeated exactly when attempts are left and the relay was busy (or its database) or let
  its deadline pass.
\<close>

theorem client_reads_relay_errors:
  fixes C :: "'r codec" and render :: "'r \<Rightarrow> string"
  assumes "reads C render render_error" and "reads_ready C render_ready"
  shows "decode C (error_response render_error render_ready v e) =
      Inl (case e of
          Answered f \<Rightarrow> Error.Api (http_status f) f (eb_retryable (snd (failure_response f)))
        | DeadlinePassed \<Rightarrow> Error.Timeout
        | AdmissionClosed \<Rightarrow> Error.UnexpectedHttp 503
        | WorkerNotReady _ \<Rightarrow> Error.UnexpectedHttp 503)
    \<and> (settled C attempts attempt (Inr (error_response render_error render_ready v e)) = None \<longleftrightarrow>
        attempt \<noteq> attempts
        \<and> e \<in> {Answered ApiErrorCode.RateLimited, Answered ApiErrorCode.DatabaseBusy, DeadlinePassed})"
proof (cases e)
  case (Answered f)
  have same: "error_response render_error render_ready v e = relay_response render render_error (Inl f)"
    by (simp add: Answered error_response_def relay_response_def)
  have status: "rsp_status (relay_response render render_error (Inl f)) = http_status f"
    by (simp add: relay_response_def failure_response_def)
  note d = decode_failure [OF assms(1), of f]
  have retry: "eb_retryable (snd (failure_response f)) = (f \<in> {ApiErrorCode.RateLimited, ApiErrorCode.DatabaseBusy})"
    by (simp add: failure_response_def)
  have "settled C attempts attempt (Inr (relay_response render render_error (Inl f))) = None \<longleftrightarrow>
      f \<in> {ApiErrorCode.RateLimited, ApiErrorCode.DatabaseBusy} \<and> attempt \<noteq> attempts"
    unfolding settled_def by (auto simp: d status Let_def)
  then show ?thesis unfolding same using d retry Answered by auto
next
  case (WorkerNotReady w)
  have "decode C (error_response render_error render_ready v e) = Inl (Error.UnexpectedHttp 503)"
    using assms(2) by (simp add: WorkerNotReady error_response_def ready_response_def decode_def reads_ready_def not_less)
  then show ?thesis by (simp add: settled_def WorkerNotReady)
qed (simp_all add: error_response_def bare_response_def decode_def settled_def is_json_def ensure_def Let_def)

section \<open>Sending over an unreliable network\<close>

text \<open>What the network and the clock do to each attempt, and how the relay fares with it.\<close>

record relay_net =
  rn_permit :: "nat \<Rightarrow> bool"
  rn_late :: "nat \<Rightarrow> bool"
  rn_request_lost :: "nat \<Rightarrow> reqwest_error option"
  rn_response_lost :: "nat \<Rightarrow> reqwest_error option"
  rn_exchange :: "nat \<Rightarrow> exchange"

definition over_network ::
  "relay_net \<Rightarrow> (exchange \<Rightarrow> 'b http_request \<Rightarrow> db \<Rightarrow> http_response \<times> db) \<Rightarrow> ('b, db) transport" where
  "over_network net serve =
     \<lparr>tp_joins = (\<lambda>_. True), tp_permit = rn_permit net,
      tp_send = (\<lambda>k req s.
        case rn_request_lost net k of
          Some e \<Rightarrow> (Inl e, s)
        | None \<Rightarrow>
            (let (response, s') = serve (rn_exchange net k) req s in
             case rn_response_lost net k of Some e \<Rightarrow> (Inl e, s') | None \<Rightarrow> (Inr response, s'))),
      tp_late = rn_late net\<rparr>"

text \<open>The route \<open>POST /v1/messages\<close>; a request without a body is rejected by the extractor.\<close>

definition serve_send ::
  "(string \<Rightarrow> string) \<Rightarrow> library \<Rightarrow> (SendMessageResponse \<Rightarrow> string) \<Rightarrow> (ErrorBody \<Rightarrow> string) \<Rightarrow> exchange
   \<Rightarrow> SendMessageRequest http_request \<Rightarrow> db \<Rightarrow> http_response \<times> db" where
  "serve_send H L render render_error ex req s =
     (let (result, s') =
        (case hr_body req of
           None \<Rightarrow> (Inl ApiErrorCode.InvalidRequest, s)
         | Some r \<Rightarrow> send_message_handler H L ex
             (case hr_authorization req of None \<Rightarrow> [] | Some v \<Rightarrow> [Some v]) r s) in
      (relay_response render render_error result, s'))"

definition net_ok :: "relay_net \<Rightarrow> bool" where
  "net_ok net \<longleftrightarrow> (\<forall>k. iteration_ok (ex_iteration (rn_exchange net k)))"

lemma send_by_name_appends:
  assumes "db_ok H s" and "send_by_name_tx H se req s = Inr (out, s')"
  shows "db_instances s' = db_instances s" and "db_memberships s' = db_memberships s"
    and "s' = s \<or> (\<exists>row ident. db_messages s' = db_messages s @ [row]
      \<and> authenticate_historical H se s = Inr ident
      \<and> dedupe_match (id_squad ident) (id_membership ident) (sn_dedupe_key req) row
      \<and> (\<forall>r \<in> set (db_messages s). \<not> dedupe_match (id_squad ident) (id_membership ident) (sn_dedupe_key req) r))"
proof -
  from assms(2) obtain ident where ident: "authenticate_historical H se s = Inr ident"
    and cases: "s' = s \<or> fresh_by_name H se req ident s = Inr (out, s')"
    by (auto simp: send_by_name_tx_def replay_by_name_def Let_def result_simps split: option.splits)
  have fresh: "db_instances s' = db_instances s \<and> db_memberships s' = db_memberships s
    \<and> (s' = s \<or> (\<exists>row. db_messages s' = db_messages s @ [row]
      \<and> dedupe_match (id_squad ident) (id_membership ident) (sn_dedupe_key req) row
      \<and> (\<forall>r \<in> set (db_messages s). \<not> dedupe_match (id_squad ident) (id_membership ident) (sn_dedupe_key req) r)))"
    if "fresh_by_name H se req ident s = Inr (out, s')"
  proof -
    from that obtain rcp rec where send: "send_in_transaction H
        (send_from_name req (id_squad ident) (id_membership ident) rcp (se_now se)) s = Inr (rec, s')"
      by (auto simp: fresh_by_name_def Let_def result_simps)
    from assms(1) send show ?thesis
      by (cases rule: send_in_transaction_cases)
        (auto simp: insert_message_Inr send_from_name_def new_message_row_def dedupe_match_def)
  qed
  from cases fresh show "db_instances s' = db_instances s" "db_memberships s' = db_memberships s" by blast+
  from cases fresh ident show "s' = s \<or> (\<exists>row ident. db_messages s' = db_messages s @ [row]
      \<and> authenticate_historical H se s = Inr ident
      \<and> dedupe_match (id_squad ident) (id_membership ident) (sn_dedupe_key req) row
      \<and> (\<forall>r \<in> set (db_messages s). \<not> dedupe_match (id_squad ident) (id_membership ident) (sn_dedupe_key req) r))"
    by blast
qed

text \<open>
  All attempts of one send leave at most one new message behind, under the key and the sender of
  the request; no session or membership changes.
\<close>

definition sent_once :: "(string \<Rightarrow> string) \<Rightarrow> db \<Rightarrow> Credential \<Rightarrow> DedupeKey \<Rightarrow> db \<Rightarrow> bool" where
  "sent_once H before c key s \<longleftrightarrow>
     store_ok H s \<and> db_instances s = db_instances before \<and> db_memberships s = db_memberships before
     \<and> (db_messages s = db_messages before
       \<or> (\<exists>row ident. db_messages s = db_messages before @ [row]
           \<and> authenticate_historical H (session c (UnixMillis 0)) s = Inr ident
           \<and> dedupe_match (id_squad ident) (id_membership ident) key row))"

definition stored_as :: "SendMessageRequest \<Rightarrow> SendMessageResponse \<Rightarrow> db \<Rightarrow> bool" where
  "stored_as r v s \<longleftrightarrow> (\<exists>row \<in> set (db_messages s). ms_id row = md_id (smr_message v)
     \<and> ms_dedupe_key row = Some (smq_dedupe_key r) \<and> ms_body row = smq_body r
     \<and> md_body (smr_message v) = smq_body r \<and> md_recipient (smr_message v) = smq_recipient r)"

lemma historical_session: "authenticate_historical H (session c t) s = authenticate_historical H (session c u) s"
  by (simp add: authenticate_historical_def session_def)

lemma historical_rows:
  "db_instances s' = db_instances s \<Longrightarrow> db_memberships s' = db_memberships s \<Longrightarrow>
     authenticate_historical H se s' = authenticate_historical H se s"
  by (simp add: authenticate_historical_def instance_members_def)

lemma send_message_command_Inr:
  assumes "send_message_command L random headers r = Inr command"
  obtains c req where "command = StoreCommand.Send c req" "credential L headers = Inr c"
    "sn_dedupe_key req = smq_dedupe_key r" "sn_body req = smq_body r" "sn_recipient req = smq_recipient r"
    "is_ok (InstanceId_new (cr_instance_id c))" "SendByName_wf req"
  using assms send_message_command_wf [OF assms]
  by (auto simp: send_message_command_def result_simps dedupe_key.new_Inr_iff message_body.new_Inr_iff
      member_name.new_Inr_iff)

lemma sent_once_step:
  assumes "sent_once H before c (sn_dedupe_key req) s" and "iteration_ok it"
    and "is_ok (InstanceId_new (cr_instance_id c))" and "SendByName_wf req"
    and "run_command H enc it (StoreCommand.Send c req) s = (reply, s')"
  shows "sent_once H before c (sn_dedupe_key req) s'"
proof -
  let ?se = "session c (it_now it)"
  have ok: "store_ok H s" "db_ok H s" using assms(1) store_okD by (auto simp: sent_once_def)
  have "store_ok H s'"
    using run_command_step [OF assms(2) _ assms(5)] assms(3,4) ok(1) store_run_ok [of H enc s s'] by auto
  from assms(5) obtain res where run: "authenticated_send_by_name H (it_engine it) ?se req s = (res, s')"
    by (auto simp: reply_with_eq)
  show ?thesis
  proof (cases res)
    case (Inl e)
    with run have "s' = s" by (auto simp: authenticated_send_by_name_def dest: transaction_error_rolls_back)
    with assms(1) show ?thesis by simp
  next
    case (Inr out)
    with run have tx: "send_by_name_tx H ?se req s = Inr (out, s')"
      by (simp add: authenticated_send_by_name_def transaction_Inr)
    note rows = send_by_name_appends [OF ok(2) tx]
    have same: "authenticate_historical H (session c t) s' = authenticate_historical H (session c u) s" for t u
      using historical_rows [OF rows(1,2)] historical_session by metis
    show ?thesis
    proof (cases "s' = s")
      case False
      with rows(3) obtain row ident where row: "db_messages s' = db_messages s @ [row]"
          "authenticate_historical H ?se s = Inr ident"
          "dedupe_match (id_squad ident) (id_membership ident) (sn_dedupe_key req) row"
          "\<forall>q \<in> set (db_messages s). \<not> dedupe_match (id_squad ident) (id_membership ident) (sn_dedupe_key req) q"
        by blast
      then have "db_messages s = db_messages before"
        using assms(1) historical_session [of H c "it_now it" s "UnixMillis 0"] by (auto simp: sent_once_def)
      with row same [of "UnixMillis 0" "it_now it"] rows(1,2) \<open>store_ok H s'\<close> assms(1) show ?thesis
        by (auto simp: sent_once_def)
    qed (use assms(1) in simp)
  qed
qed

lemma send_reply_stored:
  assumes "db_ok H s" and "iteration_ok it" and "is_ok (InstanceId_new (cr_instance_id c))" and "SendByName_wf req"
    and "run_command H enc it (StoreCommand.Send c req) s = (SendReply (Inr out), s')"
    and "message_dto L (so_message out) = Inr dto"
  shows "\<exists>row \<in> set (db_messages s'). ms_id row = md_id dto \<and> ms_dedupe_key row = Some (sn_dedupe_key req)
    \<and> ms_body row = sn_body req \<and> md_body dto = sn_body req \<and> md_recipient dto = sn_recipient req"
proof -
  let ?se = "session c (it_now it)"
  have wf: "AuthenticatedSession_wf ?se" using assms(2,3) request_at_now(4) by (simp add: iteration_ok_def)
  have tx: "send_by_name_tx H ?se req s = Inr (out, s')"
    using assms(5) by (auto simp: reply_with_eq authenticated_send_by_name_def transaction_Inr)
  from assms(1) wf assms(4) tx obtain ident rcp r where "authenticate_historical H ?se s' = Inr ident" "db_ok H s'"
    and r: "r \<in> set (db_messages s')" "ms_recipient_membership_id r = rcp"
      "dedupe_match (id_squad ident) (id_membership ident) (sn_dedupe_key req) r"
      "mg_semantics (message_of r) =
         sm_semantics (send_from_name req (id_squad ident) (id_membership ident) rcp (se_now ?se))"
      "message_view_on (message_of r) s' = Inr (so_message out)" "mv_recipient (so_message out) = sn_recipient req"
    and "\<not> pin_differs req rcp" "so_idempotent_replay out \<longrightarrow> s' = s"
    by (rule send_by_name_tx_Inr)
  have "mv_message (so_message out) = message_of r" using message_view_on_message [OF r(5)] .
  with r assms(6) show ?thesis
    by (intro bexI [of _ r])
      (auto simp: message_dto_def Let_def result_simps message_of_def dedupe_match_def send_from_name_def)
qed

lemma exchanged_state:
  assumes "exchanged H L ex prepared out finish s = (result, s')"
  shows "s' = s \<or> (\<exists>command. prepared = Inr command
    \<and> s' = snd (run_command H (li_enc L) (ex_iteration ex) command s))"
  using assms by (auto simp: exchanged_def dispatch_def split: sum.splits fate.splits if_splits)

lemma serve_send_keeps:
  assumes "credential L [Some auth] = Inr c" and "iteration_ok (ex_iteration ex)"
    and "sent_once H before c (smq_dedupe_key r) s"
    and "send_message_handler H L ex [Some auth] r s = (result, s')"
  shows "sent_once H before c (smq_dedupe_key r) s'" and "result = Inr v \<Longrightarrow> stored_as r v s'"
proof -
  let ?prep = "send_message_command L (ex_random ex) [Some auth] r"
  note run = assms(4) [unfolded send_message_handler_def]
  have db: "db_ok H s" using assms(3) store_okD by (auto simp: sent_once_def)
  show "sent_once H before c (smq_dedupe_key r) s'"
  proof (cases "s' = s")
    case False
    with exchanged_state [OF run] obtain command where cmd: "?prep = Inr command"
        "s' = snd (run_command H (li_enc L) (ex_iteration ex) command s)" by blast
    from cmd(1) obtain c' req where req: "command = StoreCommand.Send c' req" "credential L [Some auth] = Inr c'"
        "sn_dedupe_key req = smq_dedupe_key r" "is_ok (InstanceId_new (cr_instance_id c'))" "SendByName_wf req"
      by (rule send_message_command_Inr)
    have "c' = c" using req(2) assms(1) by simp
    obtain reply where "run_command H (li_enc L) (ex_iteration ex) (StoreCommand.Send c req) s = (reply, s')"
      using cmd(2) req(1) \<open>c' = c\<close> prod.collapse by metis
    then show ?thesis
      using sent_once_step [of H before c req s] assms(2,3) req(3-5) \<open>c' = c\<close> by simp
  qed (use assms(3) in simp)
  assume result: "result = Inr v"
  from run [unfolded result] obtain command out where cmd: "?prep = Inr command"
      "rbind (message_dto L (so_message out)) (\<lambda>message.
         Inr \<lparr>smr_message = message, smr_idempotent_replay = so_idempotent_replay out\<rparr>) = Inr v"
      "send_reply (fst (run_command H (li_enc L) (ex_iteration ex) command s)) = Inr out"
      "s' = snd (run_command H (li_enc L) (ex_iteration ex) command s)"
    by (rule exchanged_Inr)
  from cmd(1) obtain c' req where req: "command = StoreCommand.Send c' req"
      "sn_dedupe_key req = smq_dedupe_key r" "sn_body req = smq_body r" "sn_recipient req = smq_recipient r"
      "is_ok (InstanceId_new (cr_instance_id c'))" "SendByName_wf req"
    by (rule send_message_command_Inr)
  have "run_command H (li_enc L) (ex_iteration ex) (StoreCommand.Send c' req) s = (SendReply (Inr out), s')"
    using cmd(3,4) by (auto simp: req(1) reply_with_def prod_eq_iff)
  moreover obtain dto where "message_dto L (so_message out) = Inr dto" "smr_message v = dto"
    using cmd(2) by (auto simp: result_simps)
  ultimately show "stored_as r v s'"
    using send_reply_stored [OF db assms(2) req(5,6)] req(2-4) by (auto simp: stored_as_def)
qed

lemma serve_send_refuses:
  assumes "credential L headers = Inl e" and "send_message_handler H L ex headers r s = (result, s')"
  shows "s' = s" and "result \<noteq> Inr v"
  using assms by (auto simp: send_message_handler_def exchanged_def send_message_command_def result_simps
      split: sum.splits)

definition sending ::
  "(string \<Rightarrow> string) \<Rightarrow> library \<Rightarrow> relay_net \<Rightarrow> string \<Rightarrow> DedupeKey \<Rightarrow> db \<Rightarrow> db \<Rightarrow> bool" where
  "sending H L net auth key before s \<longleftrightarrow>
     net_ok net \<and> (case credential L [Some auth] of Inl _ \<Rightarrow> s = before | Inr c \<Rightarrow> sent_once H before c key s)"

lemma sending_step:
  assumes "sending H L net auth (smq_dedupe_key r) before s"
    and "send_message_handler H L (rn_exchange net k) [Some auth] r s = (result, s')"
  shows "sending H L net auth (smq_dedupe_key r) before s'" and "result = Inr v \<Longrightarrow> stored_as r v s'"
proof -
  have it: "iteration_ok (ex_iteration (rn_exchange net k))" using assms(1) by (simp add: sending_def net_ok_def)
  show "sending H L net auth (smq_dedupe_key r) before s'"
    using assms serve_send_keeps(1) [OF _ it _ assms(2)] serve_send_refuses(1) [OF _ assms(2)]
    by (auto simp: sending_def split: sum.splits)
  show "stored_as r v s'" if "result = Inr v"
    using assms that serve_send_keeps(2) [OF _ it _ assms(2) that] serve_send_refuses(2) [OF _ assms(2), of _ v]
    by (auto simp: sending_def split: sum.splits)
qed

interpretation sends: guarded_transport
  "over_network net (serve_send H L render render_error)" "post_request path r (Some cred) timeout"
  "sending H L net (hv_text (cc_value cred)) (smq_dedupe_key r) before"
  "\<lambda>response s. \<exists>result. response = relay_response render render_error result \<and> (\<forall>v. result = Inr v \<longrightarrow> stored_as r v s)"
  for net H L render render_error path r cred timeout before
proof
  fix s k s' and res :: "reqwest_error + http_response"
  let ?serve = "send_message_handler H L (rn_exchange net k) [Some (hv_text (cc_value cred))] r s"
  assume good: "sending H L net (hv_text (cc_value cred)) (smq_dedupe_key r) before s"
    and sent: "tp_send (over_network net (serve_send H L render render_error)) k
      (post_request path r (Some cred) timeout) s = (res, s')"
  obtain result t where serve: "?serve = (result, t)" by (cases ?serve)
  have "s' = s \<and> (\<forall>response. res \<noteq> Inr response)
      \<or> s' = t \<and> (\<forall>response. res = Inr response \<longrightarrow> response = relay_response render render_error result)"
    using sent serve
    by (auto simp: over_network_def serve_send_def post_request_def Let_def split: option.splits)
  then show "sending H L net (hv_text (cc_value cred)) (smq_dedupe_key r) before s'"
    using good sending_step(1) [OF good serve] by auto
next
  fix s k s' response
  let ?serve = "send_message_handler H L (rn_exchange net k) [Some (hv_text (cc_value cred))] r s"
  assume good: "sending H L net (hv_text (cc_value cred)) (smq_dedupe_key r) before s"
    and sent: "tp_send (over_network net (serve_send H L render render_error)) k
      (post_request path r (Some cred) timeout) s = (Inr response, s')"
  obtain result t where serve: "?serve = (result, t)" by (cases ?serve)
  have "s' = t" "response = relay_response render render_error result"
    using sent serve
    by (auto simp: over_network_def serve_send_def post_request_def Let_def split: option.splits)
  then show "\<exists>result. response = relay_response render render_error result \<and> (\<forall>v. result = Inr v \<longrightarrow> stored_as r v s')"
    using sending_step(2) [OF good serve] by blast
qed

text \<open>
  (C7) A send over an unreliable network stores the message at most once, and exactly once when it
  reports success. However often requests and responses get lost and the client tries again, whatever
  the relay's own faults and deadlines, at most one message is added, nothing else of the history or
  of any session changes, and a response the client accepts names a stored message with the body
  and the deduplication key of the request.
\<close>

theorem client_send_is_exactly_once:
  assumes "store_ok H s" and "net_ok net" and "reads C render render_error"
    and "send_with_request config (over_network net (serve_send H L render render_error)) C r cred s =
      Some (result, s', events)"
  shows "store_ok H s'
    \<and> (\<exists>new. db_messages s' = db_messages s @ new \<and> length new \<le> 1)
    \<and> db_instances s' = db_instances s \<and> db_memberships s' = db_memberships s
    \<and> (case result of Inl e \<Rightarrow> True
       | Inr v \<Rightarrow> \<exists>row \<in> set (db_messages s'). ms_id row = md_id (smr_message v)
           \<and> ms_dedupe_key row = Some (smq_dedupe_key r) \<and> ms_body row = smq_body r)"
proof -
  let ?auth = "hv_text (cc_value cred)" and ?C = "C\<lparr>co_validate := protocol_validated validate_send_response\<rparr>"
  have reads: "reads ?C render render_error" using assms(3) by (simp add: reads_def)
  have good: "sending H L net ?auth (smq_dedupe_key r) s s"
    using assms(1,2) by (simp add: sending_def sent_once_def split: sum.splits)
  show ?thesis
  proof (cases "validate_send_message r")
    case (Inl e)
    with assms(1,4) show ?thesis by (auto simp: send_with_request_def before_sending_def valid_or_refused_def)
  next
    case (Inr u)
    with assms(4) have run: "execute config (over_network net (serve_send H L render render_error)) ?C
        (post_request ''v1/messages'' r (Some cred) (cf_request_timeout config)) Deduplicated s = Some (result, s', events)"
      by (simp add: send_with_request_def before_sending_def valid_or_refused_def)
    have "sending H L net ?auth (smq_dedupe_key r) s s'" by (rule sends.execute_keeps(1) [OF good run])
    then have "store_ok H s' \<and> (\<exists>new. db_messages s' = db_messages s @ new \<and> length new \<le> 1)
        \<and> db_instances s' = db_instances s \<and> db_memberships s' = db_memberships s"
      using assms(1) by (auto simp: sending_def sent_once_def split: sum.splits)
    moreover have "stored_as r v s'" if v: "result = Inr v" for v
      using sends.execute_keeps(2) [OF good run v] decode_value [OF reads, of _ v] by blast
    ultimately show ?thesis by (auto simp: stored_as_def split: sum.splits)
  qed
qed

section \<open>Joining\<close>

lemma joined_session_valid:
  assumes "store_ok H s" and "JoinAndClaim_wf req" and "jc_lease_policy req = LeasePolicy_default"
    and "join_and_claim_inner H enc entropy eng req None s = (Inr out, s')"
    and "session_response L (jo_membership out) (jo_squad out) (co_instance (jo_claim out)) = Inr body"
  shows "validate_session_response body = Inr ()"
proof -
  let ?mem = "jc_membership req"
  have mem: "is_ok (AgentId_new (jm_agent_id ?mem))" "is_ok (MembershipId_new (jm_membership_id ?mem))"
      "is_ok (MemberName_new (jm_member_name ?mem))" "is_ok (Role_new (jm_role ?mem))"
      "is_ok (InstanceId_new (jc_instance_id req))" and time: "valid_time (jm_joined_at ?mem)"
    using assms(2) by (simp_all add: JoinAndClaim_wf_def JoinMembership_wf_def)
  from join_and_claim_result [OF assms(1,2,4)] obtain squad where ok: "store_ok H s'"
    and rec: "jo_membership out = joined_record ?mem squad"
    and active: "\<exists>q \<in> set (db_squads s'). sq_id q = squad \<and> sq_state q = ''active''" by metis
  have db: "db_ok H s'" using ok by (rule store_okD)
  from assms(4) obtain squad' where "jo_membership out = joined_record ?mem squad'"
      and found: "squad_by_id squad' s' = Inr (jo_squad out)"
      and inst: "ir_id (co_instance (jo_claim out)) = jc_instance_id req"
        "ir_heartbeat_interval (co_instance (jo_claim out)) = DEFAULT_HEARTBEAT_INTERVAL"
        "ir_lease_duration (co_instance (jo_claim out)) = DEFAULT_LEASE_DURATION"
    by (rule join_and_claim_Inr) (auto simp: insert_instance_Inr [OF time] assms(3) LeasePolicy_default_def)
  with rec have "squad' = squad" by (simp add: joined_record_def)
  with found obtain q where q: "q \<in> set (db_squads s')" "sq_id q = squad" "jo_squad out = squad_of q"
    by (auto simp: squad_by_id_Inr [OF db])
  have "sq_state q = ''active''" and row: "squad_row_ok q"
    using active q(1,2) db_okD(1) [OF db] distinct_map_unique [of sq_id "db_squads s'"]
    by (auto simp: squads_ok_def)
  then have "sq_archived_at q = None" by (auto simp: squad_row_ok_def squad_check_def)
  with row \<open>sq_state q = ''active''\<close> have "valid_squad_summary (sp_squad body)"
    using assms(5) by (auto simp: q(3) session_response_def squad_dto_def squad_of_def squad_state_dto_def
        result_simps valid_squad_summary_def squad_row_ok_def opt_ok_def)
  then have "validate_squad_summary (sp_squad body) = Inr ()" "is_ok (SquadId_new (ss_id (sp_squad body)))"
      "is_ok (SquadName_new (ss_name (sp_squad body)))"
    by (simp_all add: squad_summary.accepts) (simp_all add: valid_squad_summary_def)
  with assms(5) mem show ?thesis
    by (auto simp: validate_session_response_def session_response_def result_simps rec joined_record_def inst
        seconds_def DEFAULT_HEARTBEAT_INTERVAL_def DEFAULT_LEASE_DURATION_def split: if_splits)
qed

text \<open>The route \<open>POST /v1/squads/{squad}/join\<close>.\<close>

definition join_route :: "string \<Rightarrow> string option" where
  "join_route path =
     Option.bind (strip_prefix ''v1/squads/'' path) (\<lambda>rest.
     map_option rev (strip_prefix (rev ''/join'') (rev rest)))"

definition serve_join ::
  "(string \<Rightarrow> string) \<Rightarrow> library \<Rightarrow> (SessionResponse \<Rightarrow> string) \<Rightarrow> (ErrorBody \<Rightarrow> string) \<Rightarrow> exchange
   \<Rightarrow> JoinSquadRequest http_request \<Rightarrow> db \<Rightarrow> http_response \<times> db" where
  "serve_join H L render render_error ex req s =
     (case (join_route (hr_path req), hr_body req) of
        (Some squad, Some r) \<Rightarrow>
          (let (result, s') = join_squad_handler H L ex squad r s in
           (case result of
              Inl f \<Rightarrow> relay_response render render_error (Inl f)
            | Inr (body, header) \<Rightarrow> issued_headers header (json_response 200 (render body)), s'))
      | _ \<Rightarrow> (json_response 404 [], s))"

definition same_codecs :: "headers_lib \<Rightarrow> library \<Rightarrow> bool" where
  "same_codecs lib L \<longleftrightarrow> hl_from_str lib = li_header L \<and> hl_dec lib = li_dec L \<and> hl_enc lib = li_enc L"

lemma join_route_path: "join_route (''v1/squads/'' @ squad @ ''/join'') = Some squad"
  unfolding join_route_def strip_prefix_append by (simp add: strip_prefix_def)

lemma issued_sel [simp]:
  "rsp_status (issued_headers header response) = rsp_status response"
  "rsp_content_type (issued_headers header response) = rsp_content_type response"
  "rsp_content_length (issued_headers header response) = rsp_content_length response"
  "rsp_chunks (issued_headers header response) = rsp_chunks response"
  "rsp_session_credential (issued_headers header response) = [Some (hv_text header)]"
  "rsp_cache_control (issued_headers header response) = [Some ''no-store'']"
  by (simp_all add: issued_headers_def)

lemma decode_issued:
  assumes "co_value C printed = Some body" and "length printed \<le> MAX_RESPONSE_BYTES"
    and "co_validate C body = Inr ()"
  shows "decode C (issued_headers header (json_response 200 printed)) = Inr body"
proof -
  have "is_json (issued_headers header (json_response 200 printed))"
    using json_is_json [of 200 "printed"] by (simp add: is_json_def)
  then show ?thesis using assms by (simp add: decode_def)
qed

lemma accept_issued_ok:
  assumes "co_value C printed = Some body" and "length printed \<le> MAX_RESPONSE_BYTES"
    and "co_validate C body = Inr ()" and "same_codecs lib L" and "headers_ok L"
    and "issued_response L body (sp_instance_id body) token = Inr (body, header)"
    and "li_header L (BEARER_PREFIX @ hv_text header) \<noteq> None"
  obtains cred where "accept_issued lib C (issued_headers header (json_response 200 printed)) = Inr (body, cred)"
    "hv_text (cc_value cred) = BEARER_PREFIX @ hv_text header" "cc_instance_id cred = sp_instance_id body"
proof -
  from assms(5,6) obtain a where a: "parse_session_value (li_dec L) (li_enc L) (sp_instance_id body @ ''.'' @ token) = Inr a"
    and hv: "hv_text header = encoded a"
    by (auto simp: issued_response_def IssuedSessionHeaders_new_def headers_ok_def result_simps)
  note parts = parse_session_value_parts [OF a]
  have "has_no_store [Some ''no-store'']"
    by (simp add: has_no_store_def trim_ascii_def eq_ignore_ascii_case_def eval_simps)
  moreover obtain cred where cred: "Credential_from_response lib (Some (hv_text header)) = Inr cred"
      "hv_text (cc_value cred) = BEARER_PREFIX @ hv_text header" "cc_instance_id cred = sp_instance_id body"
    using assms(4,5,7) a parts(1)
    by (auto simp: Credential_from_response_def same_codecs_def hv parts(3) headers_ok_def BEARER_PREFIX_def)
  ultimately show thesis
    using that cred decode_issued [OF assms(1-3), of header] by (simp add: accept_issued_def)
qed

text \<open>
  (C22) Joining works from end to end. When the relay serves a join and the response arrives, the client
  accepts it (the response passes all its checks) and hands out the session of the response with a
  credential for the very instance it names; that credential, sent back, is authorised as the new
  member until the announced lease runs out.
\<close>

theorem client_join_gets_a_working_session:
  assumes "store_ok H s" and "headers_ok L" and "instants_ok L" and "same_codecs lib L"
    and "iteration_ok (ex_iteration (rn_exchange net 1))" and "co_value C (render body) = Some body"
    and "join_squad_handler H L (rn_exchange net 1) squad r s = (Inr (body, header), s')"
    and "rn_permit net 1" and "\<not> rn_late net 1" and "rn_request_lost net 1 = None" and "rn_response_lost net 1 = None"
    and "length (render body) \<le> MAX_RESPONSE_BYTES" and "li_header L (BEARER_PREFIX @ hv_text header) \<noteq> None"
    and "as_i64 now * 1000000 < ts_value (sp_lease_expires_at body)"
  shows "\<exists>cred c ident.
      client_join config lib (over_network net (serve_join H L render render_error)) C squad r s = (Inr (body, cred), s')
    \<and> cc_instance_id cred = sp_instance_id body
    \<and> credential L [Some (hv_text (cc_value cred))] = Inr c
    \<and> authorize_current H (session c now) s' = Inr ident \<and> id_membership ident = sp_membership_id body"
proof -
  let ?C = "C\<lparr>co_validate := validate_session_response\<rparr>"
  from assms(5,7) obtain req out where valid: "validate_join_squad r = Inr ()" "is_ok (SquadName_new squad)"
    and wf: "JoinAndClaim_wf req" "jc_lease_policy req = LeasePolicy_default"
    and run: "join_and_claim_inner H (li_enc L) (it_entropy (ex_iteration (rn_exchange net 1)))
        (it_engine (ex_iteration (rn_exchange net 1))) req None s = (Inr out, s')"
    and resp: "session_response L (jo_membership out) (jo_squad out) (co_instance (jo_claim out)) = Inr body"
    and issued: "issued_response L body (ir_id (co_instance (jo_claim out))) (co_resume_token (jo_claim out)) = Inr (body, header)"
    by (rule join_squad_handler_Inr)
  have "co_value ?C (render body) = Some body" using assms(6) by simp
  have "sp_instance_id body = ir_id (co_instance (jo_claim out))"
    using resp by (auto simp: session_response_def result_simps)
  with issued have "issued_response L body (sp_instance_id body) (co_resume_token (jo_claim out)) = Inr (body, header)" by simp
  moreover have "co_validate ?C body = Inr ()"
    using joined_session_valid [OF assms(1) wf run resp] by simp
  ultimately obtain cred where
    acc: "accept_issued lib ?C (issued_headers header (json_response 200 (render body))) = Inr (body, cred)"
    and cred: "hv_text (cc_value cred) = BEARER_PREFIX @ hv_text header" "cc_instance_id cred = sp_instance_id body"
    using accept_issued_ok [OF \<open>co_value ?C (render body) = Some body\<close> assms(12) _ assms(4,2) _ assms(13)] by blast
  have "client_join config lib (over_network net (serve_join H L render render_error)) C squad r s = (Inr (body, cred), s')"
    using valid assms(7-11) acc
    by (simp add: client_join_def squad_path_ok valid_or_refused_def execute_issued_def request_def over_network_def
        serve_join_def post_request_def join_route_path [simplified])
  with issued_session_works [OF assms(1-3) assms(5) assms(7,14)] cred show ?thesis by auto
qed

section \<open>Long polls\<close>

lemma split_on_plain: "c \<notin> set v \<Longrightarrow> split_on c (v @ c # w) = v # split_on c w"
  by (induction v) auto

lemma split_on_last: "c \<notin> set v \<Longrightarrow> split_on c v = [v]"
  by (induction v) auto

text \<open>
  Client and relay agree on how long a long poll may take. The query the client sends for a wait
  it accepts is read by the relay's deadline as exactly that wait, so the relay allows the request
  its normal timeout on top of the wait, and the client waits its margin longer than the wait.
\<close>

theorem long_poll_deadlines_agree:
  assumes "validate_inbox_query \<lparr>iqd_limit = limit, iqd_wait_seconds = wait\<rparr> = Inr ()"
  shows "\<exists>query. inbox_path limit wait = ''v1/inbox?'' @ query
    \<and> inbox_wait_allowance ''/v1/inbox'' (Some query) = Some (from_secs wait)
    \<and> request_deadline timeout ''/v1/inbox'' (Some query) = min duration_max (timeout + from_secs wait)"
proof -
  have wait: "wait \<le> 30" using assms by (simp add: validate_inbox_query_def result_simps MAX_WAIT_SECONDS_def)
  let ?query = "''limit='' @ decimal limit @ ''&wait='' @ decimal wait"
  have amp: "CHR ''&'' \<notin> set (''limit='' @ decimal limit)" "CHR ''&'' \<notin> set (''wait='' @ decimal wait)"
    by (simp_all add: decimal_plain is_ascii_digit_def)
  have split: "split_on (CHR ''&'') ?query = [''limit='' @ decimal limit, ''wait='' @ decimal wait]"
    using split_on_plain [OF amp(1), of "''wait='' @ decimal wait"] split_on_last [OF amp(2)] by simp
  have once: "split_once (CHR ''='') (''limit='' @ decimal limit) = Some (''limit'', decimal limit)"
      "split_once (CHR ''='') (''wait='' @ decimal wait) = Some (''wait'', decimal wait)"
    using split_once_append [of "CHR ''=''" "''limit''" "decimal limit"]
      split_once_append [of "CHR ''=''" "''wait''" "decimal wait"] by simp_all
  have "wait_pairs None [''limit='' @ decimal limit, ''wait='' @ decimal wait] = Some (Some wait)"
    using wait decimal_digits [of wait] by (simp add: once parse_u8_def decimal_value del: append.simps)
  then have "inbox_wait_allowance ''/v1/inbox'' (Some ?query) = Some (from_secs wait)"
    using split by (simp add: inbox_wait_allowance_def)
  then show ?thesis by (intro exI [of _ ?query]) (simp add: inbox_path_def request_deadline_def)
qed

section \<open>Concrete runs\<close>

definition sample_send_request :: SendMessageRequest where
  "sample_send_request = \<lparr>smq_recipient = ''bob'', smq_recipient_membership_id = None, smq_body = ''ping'',
     smq_priority = MessagePriorityDto.High, smq_dedupe_key = ''sdk-9'', smq_reply_to = None,
     smq_correlation_id = None\<rparr>"

lemma sample_message_id:
  "fresh_identifier ''msg'' MessageId_new (ex_random sample_exchange k) = Inr ''msg_00000000000000000000000000000000''"
  by (simp add: sample_exchange_def message_ids.generated sample_hex)

lemma sample_send_http:
  "\<exists>v s'. send_message_handler sample_hash sample_library sample_exchange [Some sample_header]
      sample_send_request sample_joined = (Inr v, s')"
  unfolding sample_joined_def join_squad_handler_def join_squad_command_def sample_ids send_message_handler_def
    send_message_command_def sample_message_id
  by (simp add: eval_simps sample_credential message_dto_def sample_send_request_def validate_send_message_def
      MessageSequence_new_def session_def)

text \<open>A printer that prints one value, and the relay's errors, legibly.\<close>

definition sample_render :: "'r \<Rightarrow> 'r \<Rightarrow> string" where
  "sample_render v0 v = (if v = v0 then ''v'' else [])"

definition sample_reader :: "'r \<Rightarrow> 'r codec" where
  "sample_reader v0 = \<lparr>co_value = (\<lambda>t. if t = ''v'' then Some v0 else None),
     co_error = (\<lambda>t. map_option (snd \<circ> failure_response) (List.find (\<lambda>f. failure_message f = t)
       [ApiErrorCode.InvalidRequest, ApiErrorCode.NotFound, ApiErrorCode.SquadArchived, ApiErrorCode.NotMember,
        ApiErrorCode.NameInUse, ApiErrorCode.LeaseExpired, ApiErrorCode.RecipientNotFound,
        ApiErrorCode.IdempotencyConflict, ApiErrorCode.PayloadTooLarge, ApiErrorCode.RateLimited,
        ApiErrorCode.DatabaseBusy, ApiErrorCode.InternalError])),
     co_validate = (\<lambda>_. Inr ())\<rparr>"

lemma sample_reads: "reads (sample_reader v0) (sample_render v0) eb_message"
proof -
  have "co_error (sample_reader v0) (eb_message (snd (failure_response f))) = Some (snd (failure_response f))
      \<and> length (eb_message (snd (failure_response f))) \<le> MAX_RESPONSE_BYTES" for f
    by (cases f) (simp_all add: sample_reader_def failure_response_def MAX_RESPONSE_BYTES_def)
  then show ?thesis by (simp add: reads_def Let_def) (simp add: sample_reader_def sample_render_def)
qed

lemma sample_reads_ready: "reads_ready (sample_reader v0) (\<lambda>_. ''ready'')"
  by (simp add: reads_ready_def sample_reader_def MAX_RESPONSE_BYTES_def)

theorem client_reads_relay_errors_witness:
  "settled (sample_reader ()) 3 1 (Inr (error_response eb_message (\<lambda>_. ''ready'') 1 (Answered ApiErrorCode.DatabaseBusy))) = None
    \<and> decode (sample_reader ()) (error_response eb_message (\<lambda>_. ''ready'') 1 DeadlinePassed) = Inl Error.Timeout"
  using client_reads_relay_errors [OF sample_reads [of "()"] sample_reads_ready, of 1 "Answered ApiErrorCode.DatabaseBusy" 3 1]
    client_reads_relay_errors [OF sample_reads [of "()"] sample_reads_ready, of 1 DeadlinePassed 3 1]
  by simp

theorem long_poll_deadlines_agree_witness:
  "\<exists>query. inbox_path 50 25 = ''v1/inbox?'' @ query
    \<and> inbox_wait_allowance ''/v1/inbox'' (Some query) = Some (from_secs 25)"
  using long_poll_deadlines_agree [of 50 25] by (auto simp: validate_inbox_query_def protocol_bounds)

text \<open>The response of the first attempt is lost; the second attempt learns that the message is stored.\<close>

definition sample_net :: relay_net where
  "sample_net = \<lparr>rn_permit = (\<lambda>_. True), rn_late = (\<lambda>_. False), rn_request_lost = (\<lambda>_. None),
     rn_response_lost = (\<lambda>k. if k = 1 then Some sample_refused else None), rn_exchange = (\<lambda>_. sample_exchange)\<rparr>"

definition sample_client_credential :: ClientCredential where
  "sample_client_credential = \<lparr>cc_value = \<lparr>hv_text = sample_header, hv_sensitive = True\<rparr>,
     cc_instance_id = ''ins_00000000000000000000000000000000''\<rparr>"

lemma sample_net_ok: "net_ok sample_net"
  using sample_exchange_ok by (simp add: net_ok_def sample_net_def)

definition sample_response :: SendMessageResponse where
  "sample_response = (projr (fst (send_message_handler sample_hash sample_library sample_exchange
     [Some sample_header] sample_send_request sample_joined)))\<lparr>smr_idempotent_replay := True\<rparr>"

theorem client_send_is_exactly_once_witness:
  "\<exists>result s' events. send_with_request ClientConfig_default
      (over_network sample_net (serve_send sample_hash sample_library (sample_render sample_response) eb_message))
      (sample_reader sample_response) sample_send_request sample_client_credential sample_joined =
        Some (result, s', events)
    \<and> store_ok sample_hash s' \<and> (\<exists>new. db_messages s' = db_messages sample_joined @ new \<and> length new \<le> 1)"
proof -
  let ?T = "over_network sample_net (serve_send sample_hash sample_library (sample_render sample_response) eb_message)"
    and ?C = "(sample_reader sample_response)\<lparr>co_validate := protocol_validated validate_send_response\<rparr>"
    and ?req = "post_request ''v1/messages'' sample_send_request (Some sample_client_credential) (from_secs 10)"
  have valid: "validate_send_message sample_send_request = Inr ()"
    by (simp add: validate_send_message_def sample_send_request_def eval_simps)
  obtain result s' events where "execute_from RetryPolicy_default ?T ?C ?req 3 3 (50 * 1000000) sample_joined =
      Some (result, s', events)"
    using execute_from_trace [of RetryPolicy_default 3 3 "50 * 1000000" 0 ?T ?C ?req sample_joined]
    by (auto simp: RetryPolicy_default_def duration_max_def)
  with valid have run: "send_with_request ClientConfig_default ?T (sample_reader sample_response)
      sample_send_request sample_client_credential sample_joined = Some (result, s', events)"
    by (simp add: send_with_request_def before_sending_def valid_or_refused_def execute_def attempts_for_def
        ClientConfig_default_def RetryPolicy_default_def)
  from client_send_is_exactly_once [OF sample_joined_ok sample_net_ok sample_reads this] run show ?thesis by blast
qed

text \<open>A join that arrives.\<close>

definition sample_direct :: relay_net where
  "sample_direct = sample_net\<lparr>rn_response_lost := (\<lambda>_. None)\<rparr>"

theorem client_join_gets_a_working_session_witness:
  "\<exists>body cred c ident.
      client_join ClientConfig_default \<lparr>hl_from_str = Some, hl_dec = sample_dec, hl_enc = sample_enc\<rparr>
        (over_network sample_direct (serve_join sample_hash sample_library (sample_render body) eb_message))
        (sample_reader body) ''core'' sample_join_request sample_sent = (Inr (body, cred), sample_joined)
    \<and> credential sample_library [Some (hv_text (cc_value cred))] = Inr c
    \<and> authorize_current sample_hash (session c (UnixMillis 34999)) sample_joined = Inr ident"
proof -
  obtain body header where run: "join_squad_handler sample_hash sample_library (rn_exchange sample_direct 1) ''core''
      sample_join_request sample_sent = (Inr (body, header), sample_joined)"
    and lease: "as_i64 (UnixMillis 34999) * 1000000 < ts_value (sp_lease_expires_at body)"
    using sample_joined_run by (auto simp: sample_direct_def sample_net_def)
  have lib: "same_codecs \<lparr>hl_from_str = Some, hl_dec = sample_dec, hl_enc = sample_enc\<rparr> sample_library"
    by (simp add: same_codecs_def sample_library_def)
  have net: "iteration_ok (ex_iteration (rn_exchange sample_direct 1))" "rn_permit sample_direct 1"
      "\<not> rn_late sample_direct 1" "rn_request_lost sample_direct 1 = None" "rn_response_lost sample_direct 1 = None"
    using sample_exchange_ok by (simp_all add: sample_direct_def sample_net_def)
  have printed: "co_value (sample_reader body) (sample_render body body) = Some body"
      "length (sample_render body body) \<le> MAX_RESPONSE_BYTES"
      "li_header sample_library (BEARER_PREFIX @ hv_text header) \<noteq> None"
    by (simp_all add: sample_reader_def sample_render_def MAX_RESPONSE_BYTES_def sample_library_def)
  from client_join_gets_a_working_session [where render = "sample_render body" and C = "sample_reader body"
        and body = body, OF sample_sent_store_ok sample_library_ok lib net(1)
      printed(1) run net(2-5) printed(2,3) lease, of ClientConfig_default eb_message]
  show ?thesis by blast
qed

end
