(* ===== verification/Leave_Journal.thy ===== *)
theory Leave_Journal
  imports App_Profile
begin

text \<open>
  The durable journal of a leave (\<open>psst-application/src/leave_journal.rs\<close>, Unix): an intent, written
  before the relay is asked, and its confirmation, written before local authority is removed.
\<close>

definition JOURNAL_VERSION :: nat where "JOURNAL_VERSION = 1"

definition MAX_JOURNAL_BYTES :: nat where "MAX_JOURNAL_BYTES = 16 * 1024"

definition journal_invalid_input :: io_error where
  "journal_invalid_input = IoError InvalidInput ''invalid leave journal path''"

definition journal_invalid_data :: io_error where
  "journal_invalid_data = IoError InvalidData ''invalid leave journal''"

definition journal_substitution :: io_error where
  "journal_substitution = IoError PermissionDenied ''leave journal path substitution rejected''"

definition journal_injected :: io_error where
  "journal_injected = IoError Other ''injected leave journal fault''"

section \<open>Records\<close>

datatype LeavePhase = Intent | Confirmed

record LeaveJournal =
  lj_version :: nat
  lj_phase :: LeavePhase
  lj_relay_origin :: string
  lj_profile :: string
  lj_squad_name :: string
  lj_squad_id :: string
  lj_member_id :: string
  lj_operation_id :: string
  lj_created_at :: ApiTimestamp
  lj_confirmed_at :: "ApiTimestamp option"

definition validate_record :: "url_lib \<Rightarrow> LeaveJournal \<Rightarrow> io_error + unit" where
  "validate_record U self =
     rbind (map_err (\<lambda>_. journal_invalid_data) (ProfileBinding_new U (lj_profile self) (lj_relay_origin self)
       (lj_squad_name self) (lj_squad_id self) (lj_member_id self))) (\<lambda>binding.
     let operation_valid = (1 \<le> length (lj_operation_id self) \<and> length (lj_operation_id self) \<le> 128
       \<and> list_all profile_char (lj_operation_id self)) in
     ensure (\<not> (lj_version self \<noteq> JOURNAL_VERSION
       \<or> pb_relay_origin binding \<noteq> lj_relay_origin self
       \<or> \<not> operation_valid
       \<or> (lj_phase self = Confirmed) \<noteq> (lj_confirmed_at self \<noteq> None)
       \<or> (case lj_confirmed_at self of None \<Rightarrow> False | Some v \<Rightarrow> v < lj_created_at self))) journal_invalid_data)"

definition validate_journal :: "url_lib \<Rightarrow> LeaveJournal \<Rightarrow> ProfileBinding \<Rightarrow> io_error + unit" where
  "validate_journal U self binding =
     rbind (map_err (\<lambda>_. journal_invalid_data) (validate_binding U binding)) (\<lambda>_.
     rbind (validate_record U self) (\<lambda>_.
     ensure (\<not> (lj_relay_origin self \<noteq> pb_relay_origin binding
       \<or> lj_profile self \<noteq> pb_profile binding
       \<or> lj_squad_name self \<noteq> pb_squad_name binding
       \<or> lj_squad_id self \<noteq> pb_squad_id binding
       \<or> lj_member_id self \<noteq> pb_member_id binding)) journal_invalid_data))"

definition intent :: "url_lib \<Rightarrow> ProfileBinding \<Rightarrow> string \<Rightarrow> ApiTimestamp \<Rightarrow> io_error + LeaveJournal" where
  "intent U binding operation_id created_at =
     (let v = \<lparr>lj_version = JOURNAL_VERSION, lj_phase = Intent, lj_relay_origin = pb_relay_origin binding,
        lj_profile = pb_profile binding, lj_squad_name = pb_squad_name binding, lj_squad_id = pb_squad_id binding,
        lj_member_id = pb_member_id binding, lj_operation_id = operation_id, lj_created_at = created_at,
        lj_confirmed_at = None\<rparr> in
      rbind (validate_journal U v binding) (\<lambda>_. Inr v))"

definition confirmed :: "LeaveJournal \<Rightarrow> ApiTimestamp \<Rightarrow> io_error + LeaveJournal" where
  "confirmed self confirmed_at =
     rbind (ensure (lj_phase self = Intent) journal_invalid_data) (\<lambda>_.
     Inr (self\<lparr>lj_phase := Confirmed, lj_confirmed_at := Some confirmed_at\<rparr>))"

section \<open>The store\<close>

datatype JournalFault = NoJournalFault | BeforeTempName | BeforeCreate | BeforeWriting | BeforeFileSync | BeforeReplacing
  | BeforePostReplaceSync | BeforeRemove | BeforeRemoveDirectorySync

definition sibling_path :: "PathBuf \<Rightarrow> io_error + string" where
  "sibling_path metadata =
     rbind (ok_or journal_invalid_input (file_stem metadata)) (\<lambda>stem.
     Inr (stem @ ''.leave-v1.json''))"

text \<open>The mode of an open file, masked with \<open>0o777\<close>, is \<open>0o600\<close>.\<close>

definition verify_journal_handle :: "os \<Rightarrow> node \<Rightarrow> unit dir_op" where
  "verify_journal_handle os f =
     call os Stat (io_guard (node_mode f mod 512 = 384)
       (IoError PermissionDenied ''leave journal permissions are unsafe''))"

fun is_regular :: "node \<Rightarrow> bool" where
  "is_regular (Regular _ _ _) = True"
| "is_regular _ = False"

definition open_target :: "string \<Rightarrow> os \<Rightarrow> node option dir_op" where
  "open_target name os d =
     (case open_read os name d of
        (Inr f, d') \<Rightarrow>
          io_bind (call os Stat (io_guard (is_regular f) journal_substitution)) (\<lambda>_.
          io_bind (verify_journal_handle os f) (\<lambda>_.
          io_return (Inr (Some f)))) d'
      | (Inl (IoOs NOENT), d') \<Rightarrow> (Inr None, d')
      | (Inl e, d') \<Rightarrow> (Inl e, d'))"

definition reject_target_substitution :: "string \<Rightarrow> os \<Rightarrow> unit dir_op" where
  "reject_target_substitution name os = io_bind (open_target name os) (\<lambda>_. io_return (Inr ()))"

definition open_journal :: "parent_dir \<Rightarrow> os \<Rightarrow> PathBuf \<Rightarrow> string dir_op" where
  "open_journal p os metadata =
     io_bind (io_return (sibling_path metadata)) (\<lambda>name.
     io_bind (io_guard (pd_present p) journal_invalid_input) (\<lambda>_.
     io_bind (io_return (rbind (pd_link p) (\<lambda>link. ensure (\<not> link) journal_substitution))) (\<lambda>_.
     io_bind (io_return (pd_open p)) (\<lambda>_.
     io_bind (io_return (map_err (\<lambda>_. IoError PermissionDenied ''application-owned profile directory is unsafe'')
       (verify_owned_directory p))) (\<lambda>_.
     io_bind (reject_target_substitution name os) (\<lambda>_.
     io_return (Inr name)))))))"

definition load_record :: "url_lib \<Rightarrow> LeaveJournal json_codec \<Rightarrow> string \<Rightarrow> os \<Rightarrow> LeaveJournal option dir_op" where
  "load_record U J name os =
     io_bind (open_target name os) (\<lambda>target.
     case target of
       None \<Rightarrow> io_return (Inr None)
     | Some f \<Rightarrow>
         io_bind (call os Stat (io_guard (\<not> (node_length f = 0 \<or> node_length f > MAX_JOURNAL_BYTES)) journal_invalid_data)) (\<lambda>_.
         io_bind (read_bytes os (MAX_JOURNAL_BYTES + 1) f) (\<lambda>bytes.
         io_bind (io_guard (\<not> length bytes > MAX_JOURNAL_BYTES) journal_invalid_data) (\<lambda>_.
         io_bind (io_return (map_err (\<lambda>_. journal_invalid_data) (jc_from_slice J bytes))) (\<lambda>v.
         io_bind (io_return (validate_record U v)) (\<lambda>_.
         io_return (Inr (Some v))))))))"

definition load_journal ::
  "url_lib \<Rightarrow> LeaveJournal json_codec \<Rightarrow> string \<Rightarrow> os \<Rightarrow> ProfileBinding \<Rightarrow> LeaveJournal option dir_op" where
  "load_journal U J name os binding =
     io_bind (load_record U J name os) (\<lambda>loaded.
     case loaded of
       None \<Rightarrow> io_return (Inr None)
     | Some v \<Rightarrow> io_bind (io_return (validate_journal U v binding)) (\<lambda>_. io_return (Inr (Some v))))"

definition load_for_profile_key ::
  "url_lib \<Rightarrow> LeaveJournal json_codec \<Rightarrow> string \<Rightarrow> os \<Rightarrow> string \<Rightarrow> string \<Rightarrow> (LeaveJournal \<times> ProfileBinding) option dir_op" where
  "load_for_profile_key U J name os relay_origin profile =
     io_bind (io_return (map_err (\<lambda>_. journal_invalid_input) (canonical_relay_origin U relay_origin))) (\<lambda>canonical.
     io_bind (load_record U J name os) (\<lambda>loaded.
     case loaded of
       None \<Rightarrow> io_return (Inr None)
     | Some v \<Rightarrow>
         io_bind (io_guard (\<not> (lj_relay_origin v \<noteq> canonical \<or> lj_profile v \<noteq> profile)) journal_invalid_data) (\<lambda>_.
         io_bind (io_return (map_err (\<lambda>_. journal_invalid_data) (ProfileBinding_new U (lj_profile v) (lj_relay_origin v)
           (lj_squad_name v) (lj_squad_id v) (lj_member_id v)))) (\<lambda>binding.
         io_bind (io_return (validate_journal U v binding)) (\<lambda>_.
         io_return (Inr (Some (v, binding))))))))"

text \<open>The temporary name, from the random bytes of \<open>/dev/urandom\<close>.\<close>

definition temp_name :: "string \<Rightarrow> io_error + 8 word list \<Rightarrow> io_error + string" where
  "temp_name name random =
     rbind random (\<lambda>bytes. Inr (''.'' @ name @ ''.tmp-'' @ concat (map hex_byte bytes)))"

definition store_unix :: "string \<Rightarrow> JournalFault \<times> (io_error + 8 word list) \<Rightarrow> os \<Rightarrow> string \<Rightarrow> unit dir_op" where
  "store_unix name how os bytes =
     (let fault = fst how in
      io_bind (io_guard (fault \<noteq> BeforeTempName) journal_injected) (\<lambda>_.
      io_bind (io_return (temp_name name (snd how))) (\<lambda>temp.
      io_bind (io_guard (fault \<noteq> BeforeCreate) journal_injected) (\<lambda>_.
      io_bind (create_excl os temp) (\<lambda>_.
      io_bind (io_guard (fault \<noteq> BeforeWriting) journal_injected) (\<lambda>_.
      io_bind (write_all os temp bytes) (\<lambda>_.
      io_bind (io_guard (fault \<noteq> BeforeFileSync) journal_injected) (\<lambda>_.
      io_bind (sync_file os temp) (\<lambda>_.
      io_bind (io_guard (fault \<noteq> BeforeReplacing) journal_injected) (\<lambda>_.
      io_bind (renameat os temp name) (\<lambda>_.
      io_bind (io_guard (fault \<noteq> BeforePostReplaceSync) journal_injected) (\<lambda>_.
      sync_dir os))))))))))))"

definition store_journal_with_fault ::
  "url_lib \<Rightarrow> LeaveJournal json_codec \<Rightarrow> string \<Rightarrow> os \<Rightarrow> LeaveJournal \<Rightarrow> JournalFault \<times> (io_error + 8 word list) \<Rightarrow> unit dir_op" where
  "store_journal_with_fault U J name os v how =
     io_bind (io_return (map_err (\<lambda>_. journal_invalid_data) (jc_to_vec J v))) (\<lambda>bytes.
     io_bind (io_return (validate_record U v)) (\<lambda>_.
     io_bind (io_guard (\<not> length bytes > MAX_JOURNAL_BYTES) journal_invalid_data) (\<lambda>_.
     io_bind (reject_target_substitution name os) (\<lambda>_.
     store_unix name how os bytes))))"

definition remove_with_fault :: "string \<Rightarrow> os \<Rightarrow> JournalFault \<Rightarrow> unit dir_op" where
  "remove_with_fault name os fault =
     io_bind (io_guard (fault \<noteq> BeforeRemove) journal_injected) (\<lambda>_ d.
       case unlinkat os name d of
         (Inl (IoOs NOENT), d') \<Rightarrow> (Inr (), d')
       | (Inl e, d') \<Rightarrow> (Inl e, d')
       | (Inr _, d') \<Rightarrow>
           io_bind (io_guard (fault \<noteq> BeforeRemoveDirectorySync) journal_injected) (\<lambda>_. sync_dir os) d')"

section \<open>Atomic replacement\<close>

lemma journal_temp_is_other: "''.'' @ name @ ''.tmp-'' @ suffix \<noteq> name"
  by (rule notI) (drule arg_cong [of _ _ length], simp)

interpretation journal_file: atomic_replacement name "store_unix name" for name
proof
  fix A :: "node option \<Rightarrow> bool" and bytes :: string and os :: os and how :: "JournalFault \<times> (io_error + 8 word list)"
  assume A: "A (Some (Regular bytes True (os_mode os)))"
  have temp: "triple (entry_in name A)
      (io_bind (io_guard (fst how \<noteq> BeforeCreate) journal_injected) (\<lambda>_.
       io_bind (create_excl os temp) (\<lambda>_.
       io_bind (io_guard (fst how \<noteq> BeforeWriting) journal_injected) (\<lambda>_.
       io_bind (write_all os temp bytes) (\<lambda>_.
       io_bind (io_guard (fst how \<noteq> BeforeFileSync) journal_injected) (\<lambda>_.
       io_bind (sync_file os temp) (\<lambda>_.
       io_bind (io_guard (fst how \<noteq> BeforeReplacing) journal_injected) (\<lambda>_.
       io_bind (renameat os temp name) (\<lambda>_.
       io_bind (io_guard (fst how \<noteq> BeforePostReplaceSync) journal_injected) (\<lambda>_.
       sync_dir os))))))))))
      (durable name (Regular bytes True (os_mode os))) (entry_in name A)" if other: "temp \<noteq> name" for temp
  proof -
    have guard: "triple (staged name A temp n) (io_guard b e) (staged name A temp n) (entry_in name A)" for n b e
      by (rule triple_guard) (rule staged_entry)
    have installed_guard: "triple (installed name A n) (io_guard b e) (installed name A n) (entry_in name A)" for n b e
      by (rule triple_guard) (simp add: installed_def)
    have written: "triple (staged name A temp (Regular [] False (os_mode os))) (write_all os temp bytes)
        (staged name A temp (Regular bytes False (os_mode os))) (entry_in name A)"
      using triple_write [OF other, of A "[]" False] by simp
    show ?thesis
      by (rule triple_bind [OF triple_guard], assumption, rule triple_bind [OF triple_create [OF other]],
          rule triple_bind [OF guard], rule triple_bind [OF written], rule triple_bind [OF guard],
          rule triple_bind [OF triple_sync_file [OF other]], rule triple_bind [OF guard],
          rule triple_bind [where Q = "installed name A (Regular bytes True (os_mode os))", OF triple_rename], rule A,
          rule triple_bind [OF installed_guard], rule triple_sync_dir)
  qed
  show "triple (entry_in name A) (store_unix name how os bytes)
      (durable name (Regular bytes True (os_mode os))) (entry_in name A)"
  proof (cases "snd how")
    case (Inl e)
    then show ?thesis
      by (auto simp: store_unix_def Let_def temp_name_def io_bind_def ensure_def triple_def)
  next
    case (Inr suffix)
    show ?thesis
      unfolding store_unix_def Let_def temp_name_def Inr rbind_simps io_bind_return
      by (rule triple_bind [OF triple_guard], assumption, rule temp, rule journal_temp_is_other)
  qed
qed

end
