(* ===== verification/Send_Ledger.thy ===== *)
theory Send_Ledger
  imports Session_Types
begin

text \<open>
  The bounded book-keeping of a session supervisor (\<open>psst-application/src/session.rs\<close>): availability
  reports in progress (\<open>ReportTracker\<close>) and sends that are in flight or whose result is kept
  (\<open>SendLedger\<close>). An \<open>Arc<SendEntry>\<close> is a position in a list of entries; a cancellation token is a
  number, and the cancelled ones are listed. Every operation runs under the lock of its part or is one
  atomic exchange, so it is one step.
\<close>

section \<open>Saturating arithmetic\<close>

definition usize_max :: nat where "usize_max = 18446744073709551615"

definition saturating_add :: "nat \<Rightarrow> nat \<Rightarrow> nat" where
  "saturating_add a b = min usize_max (a + b)"

definition saturating_mul :: "nat \<Rightarrow> nat \<Rightarrow> nat" where
  "saturating_mul a b = min usize_max (a * b)"

definition option_len :: "string option \<Rightarrow> nat" where
  "option_len v = (case v of None \<Rightarrow> 0 | Some x \<Rightarrow> length x)"

section \<open>Reports in progress\<close>

record ReportTracker =
  rt_active :: nat
  rt_cancel :: nat
  rt_cancelled :: "nat list"
  rt_permanently_closed :: bool

definition MAX_ACTIVE_REPORTS :: nat where "MAX_ACTIVE_REPORTS = 8"

definition ReportTracker_new :: ReportTracker where
  "ReportTracker_new = \<lparr>rt_active = 0, rt_cancel = 0, rt_cancelled = [], rt_permanently_closed = False\<rparr>"

definition register :: "ReportTracker \<Rightarrow> (SessionError + nat) \<times> ReportTracker" where
  "register self =
     (if rt_permanently_closed self \<or> rt_cancel self \<in> set (rt_cancelled self) then (Inl SessionError.NotReady, self)
      else if rt_active self \<ge> MAX_ACTIVE_REPORTS then (Inl OperationCapacity, self)
      else (Inr (rt_cancel self), self\<lparr>rt_active := rt_active self + 1\<rparr>))"

text \<open>\<open>fetch_sub\<close> wraps around.\<close>

definition report_finish :: "ReportTracker \<Rightarrow> ReportTracker" where
  "report_finish self = self\<lparr>rt_active := (if rt_active self = 0 then usize_max else rt_active self - 1)\<rparr>"

definition cancel_reports :: "ReportTracker \<Rightarrow> ReportTracker" where
  "cancel_reports self = self\<lparr>rt_cancelled := rt_cancel self # rt_cancelled self\<rparr>"

definition reports_close_permanently :: "ReportTracker \<Rightarrow> ReportTracker" where
  "reports_close_permanently self = cancel_reports (self\<lparr>rt_permanently_closed := True\<rparr>)"

definition reports_reopen :: "ReportTracker \<Rightarrow> ReportTracker" where
  "reports_reopen self =
     (if \<not> rt_permanently_closed self then self\<lparr>rt_cancel := Suc (rt_cancel self)\<rparr> else self)"

text \<open>Waiting until nothing is active: the counts that are read, one per notification, until the time is up.\<close>

fun drain :: "nat list \<Rightarrow> SessionError + unit" where
  "drain [] = Inl ShutdownTimedOut"
| "drain (active # later) = (if active = 0 then Inr () else drain later)"

section \<open>Sends\<close>

definition MAX_OWNED_SENDS :: nat where "MAX_OWNED_SENDS = 64"

definition MAX_OWNED_SEND_BYTES :: nat where "MAX_OWNED_SEND_BYTES = 1024 * 1024"

definition OWNED_SEND_FIXED_BYTES :: nat where "OWNED_SEND_FIXED_BYTES = 1024"

datatype StoredSendFailure = Relay StoredClientError | NotReady

type_synonym SendTerminal = "StoredSendFailure + SendMessageResponse"

definition validate_owned_send_response ::
  "PreparedSend \<Rightarrow> string \<Rightarrow> SendMessageResponse \<Rightarrow> StoredSendFailure + unit" where
  "validate_owned_send_response prepared squad_name response =
     (let expected = ps_request prepared; message = smr_message response in
      ensure (\<not> (md_squad message \<noteq> squad_name
        \<or> md_recipient message \<noteq> smq_recipient expected
        \<or> md_body message \<noteq> smq_body expected
        \<or> md_priority message \<noteq> smq_priority expected
        \<or> md_reply_to message \<noteq> smq_reply_to expected
        \<or> md_correlation_id message \<noteq> smq_correlation_id expected))
        (StoredSendFailure.Relay (StoredClientError.MalformedResponse 200)))"

definition send_terminal_retained_bytes :: "SendTerminal \<Rightarrow> nat" where
  "send_terminal_retained_bytes result =
     (case result of
        Inr response \<Rightarrow>
          let message = smr_message response in
          foldl saturating_add OWNED_SEND_FIXED_BYTES
            [length (md_id message), length (md_squad message), length (md_sender message),
             length (md_recipient message), length (md_body message), option_len (md_reply_to message),
             option_len (md_correlation_id message)]
      | Inl _ \<Rightarrow> OWNED_SEND_FIXED_BYTES)"

record SendEntry =
  en_retained_bytes :: nat
  en_terminal :: "SendTerminal option"

record SendLedger =
  ld_accepting :: bool
  ld_retained_bytes :: nat
  ld_inflight :: nat
  ld_entries :: "(string \<times> nat) list"
  ld_terminal_fifo :: "string list"
  ld_admission_open :: bool
  ld_permanently_closed :: bool
  ld_heap :: "SendEntry list"

datatype SendReservation = Existing nat | New nat

definition SendLedger_new :: SendLedger where
  "SendLedger_new = \<lparr>ld_accepting = True, ld_retained_bytes = 0, ld_inflight = 0, ld_entries = [],
     ld_terminal_fifo = [], ld_admission_open = True, ld_permanently_closed = False, ld_heap = []\<rparr>"

definition entries_remove :: "string \<Rightarrow> (string \<times> nat) list \<Rightarrow> (string \<times> nat) list" where
  "entries_remove key entries = filter (\<lambda>e. fst e \<noteq> key) entries"

text \<open>Removing an entry, if there is one, and the bytes it accounted for.\<close>

definition forget :: "string \<Rightarrow> SendLedger \<Rightarrow> SendLedger" where
  "forget key state =
     (case map_of (ld_entries state) key of
        None \<Rightarrow> state
      | Some entry \<Rightarrow> state\<lparr>ld_entries := entries_remove key (ld_entries state),
          ld_retained_bytes := ld_retained_bytes state - en_retained_bytes (ld_heap state ! entry)\<rparr>)"

definition over_capacity :: "nat \<Rightarrow> SendLedger \<Rightarrow> bool" where
  "over_capacity bytes state \<longleftrightarrow> length (ld_entries state) \<ge> MAX_OWNED_SENDS
     \<or> saturating_add (ld_retained_bytes state) bytes > MAX_OWNED_SEND_BYTES"

text \<open>The loop of \<open>reserve\<close> that drops the oldest kept results while there is no room.\<close>

fun evict :: "nat \<Rightarrow> string list \<Rightarrow> SendLedger \<Rightarrow> SendLedger" where
  "evict bytes [] state = state"
| "evict bytes (key # fifo) state =
     (if over_capacity bytes state then evict bytes fifo (forget key (state\<lparr>ld_terminal_fifo := fifo\<rparr>)) else state)"

definition request_bytes :: "PreparedSend \<Rightarrow> nat" where
  "request_bytes prepared =
     (let r = ps_request prepared;
          request_strings = foldl saturating_add (length (smq_recipient r))
            [length (smq_body r), length (smq_dedupe_key r), option_len (smq_reply_to r), option_len (smq_correlation_id r)] in
      saturating_add (saturating_mul request_strings 2) OWNED_SEND_FIXED_BYTES)"

definition reserve :: "PreparedSend \<Rightarrow> SendLedger \<Rightarrow> (SessionError + SendReservation) \<times> SendLedger" where
  "reserve prepared self =
     (if ld_permanently_closed self \<or> \<not> ld_admission_open self then (Inl SessionError.NotReady, self)
      else if ld_permanently_closed self \<or> \<not> ld_accepting self \<or> \<not> ld_admission_open self
      then (Inl SessionError.NotReady, self)
      else let key = ps_identity prepared in
        case map_of (ld_entries self) key of
          Some entry \<Rightarrow> (Inr (Existing entry), self)
        | None \<Rightarrow>
            let bytes = request_bytes prepared; state = evict bytes (ld_terminal_fifo self) self in
            if over_capacity bytes state then (Inl SendCapacity, state)
            else let entry = length (ld_heap state) in
              (Inr (New entry), state\<lparr>ld_retained_bytes := ld_retained_bytes state + bytes,
                 ld_inflight := ld_inflight state + 1, ld_entries := (key, entry) # ld_entries state,
                 ld_heap := ld_heap state @ [\<lparr>en_retained_bytes = bytes, en_terminal = None\<rparr>]\<rparr>))"

definition ledger_finish :: "string \<Rightarrow> nat \<Rightarrow> SendTerminal \<Rightarrow> SendLedger \<Rightarrow> SendLedger" where
  "ledger_finish key entry result self =
     (let retain_terminal = (send_terminal_retained_bytes result \<le> en_retained_bytes (ld_heap self ! entry));
          state = self\<lparr>ld_heap := (ld_heap self)[entry := (ld_heap self ! entry)\<lparr>en_terminal := Some result\<rparr>],
            ld_inflight := ld_inflight self - 1\<rparr> in
      if retain_terminal then state\<lparr>ld_terminal_fifo := ld_terminal_fifo state @ [key]\<rparr>
      else case map_of (ld_entries state) key of
        None \<Rightarrow> state
      | Some _ \<Rightarrow> state\<lparr>ld_entries := entries_remove key (ld_entries state),
          ld_retained_bytes := ld_retained_bytes state - en_retained_bytes (ld_heap self ! entry)\<rparr>)"

definition stop_admission :: "SendLedger \<Rightarrow> SendLedger" where
  "stop_admission self = self\<lparr>ld_admission_open := False\<rparr>"

text \<open>\<open>stop_and_drain\<close>: the counts of sends in flight that it reads later, until the time is up.\<close>

definition stop_and_drain :: "nat list \<Rightarrow> SendLedger \<Rightarrow> (SessionError + unit) \<times> SendLedger" where
  "stop_and_drain later self =
     (let state = (stop_admission self)\<lparr>ld_accepting := False\<rparr> in
      if ld_inflight state = 0 then (Inr (), state) else (drain later, state))"

text \<open>
  \<open>reopen_admission\<close> reads the permanent flag again after it opened admission, because
  \<open>close_permanently\<close> does not take the lock; both halves are steps of their own.
\<close>

definition reopen_locked :: "SendLedger \<Rightarrow> SendLedger" where
  "reopen_locked self =
     (if ld_permanently_closed self then self else self\<lparr>ld_accepting := True, ld_admission_open := True\<rparr>)"

definition reopen_recheck :: "SendLedger \<Rightarrow> SendLedger" where
  "reopen_recheck self = (if ld_permanently_closed self then self\<lparr>ld_admission_open := False\<rparr> else self)"

definition reopen_admission :: "SendLedger \<Rightarrow> SendLedger" where
  "reopen_admission self = reopen_recheck (reopen_locked self)"

definition sends_close_permanently :: "SendLedger \<Rightarrow> SendLedger" where
  "sends_close_permanently self = stop_admission (self\<lparr>ld_permanently_closed := True\<rparr>)"

text \<open>What a caller sees of its entry: nothing yet, or the result.\<close>

definition await_send :: "nat \<Rightarrow> SendLedger \<Rightarrow> (SessionError + SendMessageResponse) option" where
  "await_send entry self =
     map_option (map_err (\<lambda>error. case error of
         StoredSendFailure.Relay e \<Rightarrow> SessionError.Relay (restore e)
       | StoredSendFailure.NotReady \<Rightarrow> SessionError.NotReady)) (en_terminal (ld_heap self ! entry))"

section \<open>The steps of callers and owners\<close>

text \<open>
  A ledger in use: the sends that a task owns, as identity and entry, and how many threads are between
  the two halves of reopening and of closing.
\<close>

record send_world =
  sw_ledger :: SendLedger
  sw_owned :: "(string \<times> nat) list"
  sw_reopening :: nat
  sw_closing :: nat

definition send_start :: send_world where
  "send_start = \<lparr>sw_ledger = SendLedger_new, sw_owned = [], sw_reopening = 0, sw_closing = 0\<rparr>"

inductive send_step :: "send_world \<Rightarrow> send_world \<Rightarrow> bool" where
  owns: "reserve prepared (sw_ledger w) = (Inr (New entry), l) \<Longrightarrow>
    send_step w (w\<lparr>sw_ledger := l, sw_owned := (ps_identity prepared, entry) # sw_owned w\<rparr>)"
| joins: "reserve prepared (sw_ledger w) = (Inr (Existing entry), l) \<Longrightarrow> send_step w (w\<lparr>sw_ledger := l\<rparr>)"
| refused: "reserve prepared (sw_ledger w) = (Inl e, l) \<Longrightarrow> send_step w (w\<lparr>sw_ledger := l\<rparr>)"
| finishes: "(key, entry) \<in> set (sw_owned w) \<Longrightarrow>
    send_step w (w\<lparr>sw_ledger := ledger_finish key entry result (sw_ledger w), sw_owned := remove1 (key, entry) (sw_owned w)\<rparr>)"
| stops: "send_step w (w\<lparr>sw_ledger := snd (stop_and_drain later (sw_ledger w))\<rparr>)"
| reopens: "send_step w (w\<lparr>sw_ledger := reopen_locked (sw_ledger w), sw_reopening := Suc (sw_reopening w)\<rparr>)"
| rechecks: "sw_reopening w = Suc n \<Longrightarrow> send_step w (w\<lparr>sw_ledger := reopen_recheck (sw_ledger w), sw_reopening := n\<rparr>)"
| closes: "send_step w (w\<lparr>sw_ledger := (sw_ledger w)\<lparr>ld_permanently_closed := True\<rparr>, sw_closing := Suc (sw_closing w)\<rparr>)"
| closed: "sw_closing w = Suc n \<Longrightarrow> send_step w (w\<lparr>sw_ledger := stop_admission (sw_ledger w), sw_closing := n\<rparr>)"

section \<open>The invariant\<close>

abbreviation entry_bytes :: "SendLedger \<Rightarrow> string \<times> nat \<Rightarrow> nat" where
  "entry_bytes s e \<equiv> en_retained_bytes (ld_heap s ! snd e)"

abbreviation entry_result :: "SendLedger \<Rightarrow> string \<times> nat \<Rightarrow> SendTerminal option" where
  "entry_result s e \<equiv> en_terminal (ld_heap s ! snd e)"

definition ledger_ok :: "(string \<times> nat) list \<Rightarrow> SendLedger \<Rightarrow> bool" where
  "ledger_ok owned s \<longleftrightarrow>
     distinct (map fst (ld_entries s)) \<and> distinct (map snd (ld_entries s)) \<and> distinct owned
     \<and> set owned = {e \<in> set (ld_entries s). entry_result s e = None}
     \<and> distinct (ld_terminal_fifo s)
     \<and> set (ld_terminal_fifo s) = fst ` {e \<in> set (ld_entries s). entry_result s e \<noteq> None}
     \<and> ld_inflight s = length owned
     \<and> ld_retained_bytes s = sum_list (map (entry_bytes s) (ld_entries s))
     \<and> (\<forall>e \<in> set (ld_entries s). snd e < length (ld_heap s)
          \<and> (\<forall>r. entry_result s e = Some r \<longrightarrow> send_terminal_retained_bytes r \<le> entry_bytes s e))
     \<and> (\<forall>h < length (ld_heap s). en_terminal (ld_heap s ! h) = None \<longrightarrow> h \<in> snd ` set owned)
     \<and> length (ld_entries s) \<le> MAX_OWNED_SENDS \<and> ld_retained_bytes s \<le> MAX_OWNED_SEND_BYTES"

lemma ledger_okD:
  assumes "ledger_ok owned s"
  shows "distinct (map fst (ld_entries s))" and "distinct owned"
    and "set owned = {e \<in> set (ld_entries s). entry_result s e = None}"
    and "distinct (ld_terminal_fifo s)"
    and "set (ld_terminal_fifo s) = fst ` {e \<in> set (ld_entries s). entry_result s e \<noteq> None}"
    and "ld_inflight s = length owned"
    and "ld_retained_bytes s = sum_list (map (entry_bytes s) (ld_entries s))"
    and "\<And>e. e \<in> set (ld_entries s) \<Longrightarrow> snd e < length (ld_heap s)"
    and "\<And>e r. e \<in> set (ld_entries s) \<Longrightarrow> entry_result s e = Some r \<Longrightarrow> send_terminal_retained_bytes r \<le> entry_bytes s e"
    and "\<And>h. h < length (ld_heap s) \<Longrightarrow> en_terminal (ld_heap s ! h) = None \<Longrightarrow> h \<in> snd ` set owned"
    and "length (ld_entries s) \<le> MAX_OWNED_SENDS" and "ld_retained_bytes s \<le> MAX_OWNED_SEND_BYTES"
    and "distinct (map snd (ld_entries s))"
  using assms unfolding ledger_ok_def by blast+

lemma new_ledger_ok: "ledger_ok [] SendLedger_new"
  by (simp add: ledger_ok_def SendLedger_new_def)

lemma entries_remove_sum:
  assumes "distinct (map fst es)" and "(k, h) \<in> set es"
  shows "sum_list (map f es) = f (k, h) + (sum_list (map f (entries_remove k es)) :: nat)"
  using assms
proof (induction es)
  case (Cons e es)
  show ?case
  proof (cases "fst e = k")
    case True
    then have "e = (k, h)" using Cons.prems by (cases e) (force simp: image_iff)
    moreover have "k \<notin> fst ` set es" using True Cons.prems(1) by auto
    then have "entries_remove k es = es" unfolding entries_remove_def filter_id_conv by blast
    ultimately show ?thesis by (simp add: entries_remove_def)
  next
    case False
    then show ?thesis using Cons by (auto simp: entries_remove_def)
  qed
qed simp

lemma entries_remove_simps [simp]:
  "set (entries_remove k es) = {e \<in> set es. fst e \<noteq> k}"
  "length (entries_remove k es) \<le> length es"
  by (auto simp: entries_remove_def)

lemma entries_remove_distinct: "distinct (map f es) \<Longrightarrow> distinct (map f (entries_remove k es))"
  by (simp add: entries_remove_def distinct_map_filter)

text \<open>Dropping the oldest kept result.\<close>

lemma forget_oldest_ok:
  assumes ok: "ledger_ok owned s" and fifo: "ld_terminal_fifo s = key # fifo"
  shows "ledger_ok owned (forget key (s\<lparr>ld_terminal_fifo := fifo\<rparr>))"
    and "ld_terminal_fifo (forget key (s\<lparr>ld_terminal_fifo := fifo\<rparr>)) = fifo"
proof -
  note D = ledger_okD [OF ok]
  have "key \<in> fst ` {e \<in> set (ld_entries s). entry_result s e \<noteq> None}"
    using D(5) fifo by (metis list.set_intros(1))
  then obtain h where h: "(key, h) \<in> set (ld_entries s)" "entry_result s (key, h) \<noteq> None" by force
  have unique: "e = (key, h)" if "e \<in> set (ld_entries s)" "fst e = key" for e
    using that h(1) D(1) by (metis eq_key_imp_eq_value prod.collapse)
  have get: "map_of (ld_entries s) key = Some h" using h(1) D(1) by simp
  let ?s = "forget key (s\<lparr>ld_terminal_fifo := fifo\<rparr>)"
  have s: "ld_entries ?s = entries_remove key (ld_entries s)" "ld_heap ?s = ld_heap s" "ld_inflight ?s = ld_inflight s"
      "ld_retained_bytes ?s = ld_retained_bytes s - entry_bytes s (key, h)" "ld_terminal_fifo ?s = fifo"
    by (simp_all add: forget_def get)
  have bytes: "ld_retained_bytes s = entry_bytes s (key, h) + sum_list (map (entry_bytes s) (entries_remove key (ld_entries s)))"
    using entries_remove_sum [OF D(1) h(1), of "entry_bytes s"] D(7) by simp
  have fifo': "set fifo = fst ` {e \<in> set (entries_remove key (ld_entries s)). entry_result s e \<noteq> None}"
    using D(4,5) fifo by (force simp: image_iff)
  have owned: "set owned = {e \<in> set (entries_remove key (ld_entries s)). entry_result s e = None}"
    using D(3) unique h(2) by auto
  have len: "length (entries_remove key (ld_entries s)) \<le> MAX_OWNED_SENDS"
    using D(11) entries_remove_simps(2) [of key "ld_entries s"] by linarith
  show "ledger_ok owned ?s"
    unfolding ledger_ok_def s
    using D(2,4,6,8-10,12) entries_remove_distinct [OF D(1)] entries_remove_distinct [OF D(13)] bytes fifo fifo' owned len by auto
  show "ld_terminal_fifo ?s = fifo" by (rule s)
qed

lemma evict_ok:
  assumes "ledger_ok owned s" and "ld_terminal_fifo s = fifo"
  shows "ledger_ok owned (evict bytes fifo s)
    \<and> (over_capacity bytes (evict bytes fifo s) \<longrightarrow> ld_terminal_fifo (evict bytes fifo s) = [])
    \<and> ld_heap (evict bytes fifo s) = ld_heap s
    \<and> set (ld_entries (evict bytes fifo s)) \<subseteq> set (ld_entries s)"
  using assms
proof (induction fifo arbitrary: s)
  case (Cons key fifo)
  let ?s = "forget key (s\<lparr>ld_terminal_fifo := fifo\<rparr>)"
  note dropped = forget_oldest_ok [OF Cons.prems]
  have "ld_heap ?s = ld_heap s" "set (ld_entries ?s) \<subseteq> set (ld_entries s)"
    by (auto simp: forget_def split: option.splits)
  with Cons.IH [OF dropped] Cons.prems show ?case by auto
qed simp

lemma flags_ok [simp]:
  "ledger_ok owned (s\<lparr>ld_accepting := a\<rparr>) = ledger_ok owned s"
  "ledger_ok owned (s\<lparr>ld_admission_open := a\<rparr>) = ledger_ok owned s"
  "ledger_ok owned (s\<lparr>ld_permanently_closed := a\<rparr>) = ledger_ok owned s"
  by (simp_all add: ledger_ok_def)

lemma room_is_exact: "\<not> over_capacity bytes s \<longleftrightarrow>
    length (ld_entries s) < MAX_OWNED_SENDS \<and> ld_retained_bytes s + bytes \<le> MAX_OWNED_SEND_BYTES"
  by (auto simp: over_capacity_def saturating_add_def usize_max_def MAX_OWNED_SEND_BYTES_def)

lemma reserve_New:
  assumes ok: "ledger_ok owned s" and run: "reserve prepared s = (Inr (New entry), s')"
  shows "ledger_ok ((ps_identity prepared, entry) # owned) s'"
proof -
  let ?key = "ps_identity prepared" and ?bytes = "request_bytes prepared"
  let ?t = "evict ?bytes (ld_terminal_fifo s) s"
  have absent: "map_of (ld_entries s) ?key = None" and room: "\<not> over_capacity ?bytes ?t"
    and entry: "entry = length (ld_heap ?t)"
    and s': "s' = ?t\<lparr>ld_retained_bytes := ld_retained_bytes ?t + ?bytes, ld_inflight := ld_inflight ?t + 1,
        ld_entries := (?key, entry) # ld_entries ?t,
        ld_heap := ld_heap ?t @ [\<lparr>en_retained_bytes = ?bytes, en_terminal = None\<rparr>]\<rparr>"
    using run by (auto simp: reserve_def Let_def split: if_splits option.splits)
  note E = evict_ok [OF ok refl, of ?bytes]
  note D = ledger_okD [OF conjunct1 [OF E]]
  have fresh: "?key \<notin> fst ` set (ld_entries ?t)"
    using absent E by (auto simp: map_of_eq_None_iff)
  have old: "(ld_heap ?t @ [x]) ! snd e = ld_heap ?t ! snd e" if "e \<in> set (ld_entries ?t)" for e x
    using D(8) [OF that] by (simp add: nth_append)
  have sel: "ld_heap s' = ld_heap ?t @ [\<lparr>en_retained_bytes = ?bytes, en_terminal = None\<rparr>]"
      "ld_entries s' = (?key, entry) # ld_entries ?t" "ld_terminal_fifo s' = ld_terminal_fifo ?t"
      "ld_inflight s' = ld_inflight ?t + 1" "ld_retained_bytes s' = ld_retained_bytes ?t + ?bytes"
    by (simp_all add: s')
  have sum: "sum_list (map (entry_bytes s') (ld_entries ?t)) = sum_list (map (entry_bytes ?t) (ld_entries ?t))"
    using old by (intro arg_cong [of _ _ sum_list] map_cong) (simp_all add: sel)
  have results: "entry_result s' e = entry_result ?t e" "entry_bytes s' e = entry_bytes ?t e"
    if "e \<in> set (ld_entries ?t)" for e
    using old [OF that] by (simp_all add: sel)
  have new: "entry_result s' (?key, entry) = None" "entry_bytes s' (?key, entry) = ?bytes"
    by (simp_all add: sel entry)
  have set_owned: "insert (?key, entry) (set owned) = {e \<in> set (ld_entries s'). entry_result s' e = None}"
    using D(3) results new by (auto simp: sel(2))
  have set_fifo: "set (ld_terminal_fifo s') = fst ` {e \<in> set (ld_entries s'). entry_result s' e \<noteq> None}"
    using D(5) results new by (auto simp: sel(2,3))
  have "(?key, entry) \<notin> set owned" using D(3) fresh by force
  moreover have "entry \<notin> snd ` set (ld_entries ?t)" using D(8) by (fastforce simp: entry)
  moreover have "\<forall>e \<in> set (ld_entries s'). snd e < length (ld_heap s')
      \<and> (\<forall>r. entry_result s' e = Some r \<longrightarrow> send_terminal_retained_bytes r \<le> entry_bytes s' e)"
    using D(8,9) results new by (auto simp: sel(1,2) entry less_SucI)
  moreover have "\<forall>h < length (ld_heap s'). en_terminal (ld_heap s' ! h) = None \<longrightarrow> h \<in> snd ` set ((?key, entry) # owned)"
    using D(10) by (auto simp: sel(1) entry nth_append less_Suc_eq)
  ultimately show ?thesis
    using D(1,2,4,6,7,13) fresh set_owned set_fifo sum new room unfolding ledger_ok_def room_is_exact
    by (auto simp: sel)
qed

lemma reserve_other:
  assumes "ledger_ok owned s" and "reserve prepared s = (r, s')" and "\<And>entry. r \<noteq> Inr (New entry)"
  shows "ledger_ok owned s'" and "r = Inl SendCapacity \<Longrightarrow> ld_terminal_fifo s' = []"
    and "ld_heap s' = ld_heap s"
  using assms evict_ok [OF assms(1) refl, of "request_bytes prepared"]
  by (auto simp: reserve_def Let_def split: if_splits option.splits)

lemma ledger_finish_ok:
  assumes ok: "ledger_ok owned s" and mine: "(key, h) \<in> set owned"
  shows "ledger_ok (remove1 (key, h) owned) (ledger_finish key h result s)"
proof -
  note D = ledger_okD [OF ok]
  let ?s = "ledger_finish key h result s" and ?heap = "(ld_heap s)[h := (ld_heap s ! h)\<lparr>en_terminal := Some result\<rparr>]"
  have entry: "(key, h) \<in> set (ld_entries s)" using mine D(3) by auto
  have bound: "h < length (ld_heap s)" using D(8) [OF entry] by simp
  have get: "map_of (ld_entries s) key = Some h" using entry D(1) by simp
  have unique: "e = (key, h)" if "e \<in> set (ld_entries s)" "fst e = key" for e
    using that entry D(1) by (metis eq_key_imp_eq_value prod.collapse)
  have alone: "e = (key, h)" if "e \<in> set (ld_entries s)" "snd e = h" for e
    using that entry D(13) by (metis distinct_map inj_onD snd_conv)
  have results: "?heap ! snd e = ld_heap s ! snd e" if "e \<in> set (ld_entries s)" "e \<noteq> (key, h)" for e
    using alone that by (metis nth_list_update_neq)
  have finished: "?heap ! h = (ld_heap s ! h)\<lparr>en_terminal := Some result\<rparr>" using bound by simp
  have after: "en_terminal (?heap ! snd e) = (if e = (key, h) then Some result else entry_result s e)"
    if "e \<in> set (ld_entries s)" for e
    using results [OF that] finished by (cases "e = (key, h)") simp_all
  have bytes: "en_retained_bytes (?heap ! i) = en_retained_bytes (ld_heap s ! i)" for i
    using bound by (cases "i = h") simp_all
  have inflight: "ld_inflight s - 1 = length (remove1 (key, h) owned)"
    using D(6) mine by (simp add: length_remove1)
  have waiting: "\<forall>i < length ?heap. en_terminal (?heap ! i) = None \<longrightarrow> i \<in> snd ` set (remove1 (key, h) owned)"
  proof (intro allI impI)
    fix i assume i: "i < length ?heap" "en_terminal (?heap ! i) = None"
    then have "i \<noteq> h" using bound by auto
    with i D(10) [of i] obtain e where "e \<in> set owned" "snd e = i" by auto
    with \<open>i \<noteq> h\<close> D(2) show "i \<in> snd ` set (remove1 (key, h) owned)" by (force simp: image_iff)
  qed
  show ?thesis
  proof (cases "send_terminal_retained_bytes result \<le> en_retained_bytes (ld_heap s ! h)")
    case True
    have s: "?s = s\<lparr>ld_heap := ?heap, ld_inflight := ld_inflight s - 1, ld_terminal_fifo := ld_terminal_fifo s @ [key]\<rparr>"
      using True by (simp add: ledger_finish_def)
    have owned: "set (remove1 (key, h) owned) = {e \<in> set (ld_entries s). en_terminal (?heap ! snd e) = None}"
      using D(2,3) after by (auto split: if_splits)
    have "set (ld_terminal_fifo s @ [key]) = fst ` {e \<in> set (ld_entries s). en_terminal (?heap ! snd e) \<noteq> None}"
    proof -
      have "{e \<in> set (ld_entries s). en_terminal (?heap ! snd e) \<noteq> None}
          = insert (key, h) {e \<in> set (ld_entries s). entry_result s e \<noteq> None}"
        using after entry by auto
      then show ?thesis using D(5) by simp
    qed
    moreover have "key \<notin> set (ld_terminal_fifo s)"
      using D(3,5) mine unique by auto
    moreover have "\<forall>e \<in> set (ld_entries s). snd e < length ?heap
        \<and> (\<forall>r. en_terminal (?heap ! snd e) = Some r \<longrightarrow> send_terminal_retained_bytes r \<le> en_retained_bytes (?heap ! snd e))"
      using D(8,9) after True bytes by auto
    ultimately show ?thesis
      unfolding s ledger_ok_def using D(1,2,4,7,11-13) owned waiting inflight bytes by simp
  next
    case False
    have s: "?s = s\<lparr>ld_heap := ?heap, ld_inflight := ld_inflight s - 1, ld_entries := entries_remove key (ld_entries s),
        ld_retained_bytes := ld_retained_bytes s - en_retained_bytes (ld_heap s ! h)\<rparr>"
      using False get by (simp add: ledger_finish_def)
    have "fst e \<noteq> key \<longleftrightarrow> e \<noteq> (key, h)" if "e \<in> set (ld_entries s)" for e using unique [OF that] by auto
    then have removed: "set (entries_remove key (ld_entries s)) = set (ld_entries s) - {(key, h)}"
      unfolding entries_remove_simps by blast
    have owned: "set (remove1 (key, h) owned) = {e \<in> set (entries_remove key (ld_entries s)). en_terminal (?heap ! snd e) = None}"
      unfolding removed using D(2,3) after by auto
    have "entry_result s (key, h) = None" using D(3) mine by simp
    then have "{e \<in> set (entries_remove key (ld_entries s)). en_terminal (?heap ! snd e) \<noteq> None}
        = {e \<in> set (ld_entries s). entry_result s e \<noteq> None}"
      unfolding removed using after by auto
    then have fifo: "set (ld_terminal_fifo s) = fst ` {e \<in> set (entries_remove key (ld_entries s)). en_terminal (?heap ! snd e) \<noteq> None}"
      using D(5) by simp
    have sum: "ld_retained_bytes s - en_retained_bytes (ld_heap s ! h)
        = sum_list (map (entry_bytes s) (entries_remove key (ld_entries s)))"
      using entries_remove_sum [OF D(1) entry, of "entry_bytes s"] D(7) by simp
    have "\<forall>e \<in> set (entries_remove key (ld_entries s)). snd e < length ?heap
        \<and> (\<forall>r. en_terminal (?heap ! snd e) = Some r \<longrightarrow> send_terminal_retained_bytes r \<le> en_retained_bytes (?heap ! snd e))"
      using D(8,9) after bytes by auto
    moreover have "length (entries_remove key (ld_entries s)) \<le> MAX_OWNED_SENDS"
      using D(11) entries_remove_simps(2) [of key "ld_entries s"] by linarith
    ultimately show ?thesis
      unfolding s ledger_ok_def
      using D(2,4,12) entries_remove_distinct [OF D(1)] entries_remove_distinct [OF D(13)] owned fifo sum waiting inflight bytes
      by simp
  qed
qed

definition world_ok :: "send_world \<Rightarrow> bool" where
  "world_ok w \<longleftrightarrow> ledger_ok (sw_owned w) (sw_ledger w)
     \<and> (ld_permanently_closed (sw_ledger w) \<longrightarrow> ld_admission_open (sw_ledger w) \<longrightarrow> 0 < sw_reopening w \<or> 0 < sw_closing w)"

lemma reserve_flags:
  "reserve prepared s = (r, s') \<Longrightarrow> ld_permanently_closed s' = ld_permanently_closed s
     \<and> ld_admission_open s' = ld_admission_open s \<and> ld_accepting s' = ld_accepting s"
proof -
  have forget: "ld_permanently_closed (forget k s) = ld_permanently_closed s"
      "ld_admission_open (forget k s) = ld_admission_open s" "ld_accepting (forget k s) = ld_accepting s" for k s
    by (simp_all add: forget_def split: option.splits)
  have "ld_permanently_closed (evict b fifo s) = ld_permanently_closed s
      \<and> ld_admission_open (evict b fifo s) = ld_admission_open s \<and> ld_accepting (evict b fifo s) = ld_accepting s" for b fifo s
    by (induction b fifo s rule: evict.induct) (simp_all add: forget)
  then show "reserve prepared s = (r, s') \<Longrightarrow> ?thesis"
    by (auto simp: reserve_def Let_def split: if_splits option.splits)
qed

lemma ledger_finish_flags:
  "ld_permanently_closed (ledger_finish k h r s) = ld_permanently_closed s"
  "ld_admission_open (ledger_finish k h r s) = ld_admission_open s"
  by (simp_all add: ledger_finish_def Let_def split: option.splits)

lemma send_step_ok: "send_step w w' \<Longrightarrow> world_ok w \<Longrightarrow> world_ok w'"
proof (induction rule: send_step.induct)
  case (owns prepared w entry l)
  then show ?case using reserve_New [OF _ owns(1)] reserve_flags [OF owns(1)] by (auto simp: world_ok_def)
next
  case (joins prepared w entry l)
  then show ?case using reserve_other(1) [OF _ joins(1)] reserve_flags [OF joins(1)] by (auto simp: world_ok_def)
next
  case (refused prepared w e l)
  then show ?case using reserve_other(1) [OF _ refused(1)] reserve_flags [OF refused(1)] by (auto simp: world_ok_def)
next
  case (finishes key entry w result)
  then show ?case using ledger_finish_ok [OF _ finishes(1)] by (auto simp: world_ok_def ledger_finish_flags)
qed (auto simp: world_ok_def stop_and_drain_def Let_def stop_admission_def reopen_locked_def reopen_recheck_def)

lemma send_run_ok: "send_step\<^sup>*\<^sup>* w w' \<Longrightarrow> world_ok w \<Longrightarrow> world_ok w'"
  by (induction rule: rtranclp_induct) (auto intro: send_step_ok)

lemma send_start_ok: "world_ok send_start"
  by (simp add: world_ok_def send_start_def new_ledger_ok) (simp add: SendLedger_new_def)

text \<open>A result, once there, stays.\<close>

lemma send_step_result:
  assumes "send_step w w'" and "world_ok w" and "h < length (ld_heap (sw_ledger w))"
    and "en_terminal (ld_heap (sw_ledger w) ! h) = Some r"
  shows "h < length (ld_heap (sw_ledger w')) \<and> en_terminal (ld_heap (sw_ledger w') ! h) = Some r"
  using assms
proof (induction rule: send_step.induct)
  case (owns prepared w entry l)
  then have "ld_heap l = ld_heap (sw_ledger w) @ [\<lparr>en_retained_bytes = request_bytes prepared, en_terminal = None\<rparr>]"
    using evict_ok [of "sw_owned w" "sw_ledger w", OF _ refl]
    by (auto simp: reserve_def Let_def world_ok_def split: if_splits option.splits)
  with owns show ?case by (simp add: nth_append)
next
  case (joins prepared w entry l)
  then show ?case using reserve_other(3) [OF _ joins(1)] by (auto simp: world_ok_def)
next
  case (refused prepared w e l)
  then show ?case using reserve_other(3) [OF _ refused(1)] by (auto simp: world_ok_def)
next
  case (finishes key entry w result)
  have "h \<noteq> entry" using finishes ledger_okD(3) by (fastforce simp: world_ok_def)
  with finishes show ?case by (simp add: ledger_finish_def Let_def split: option.splits)
qed (auto simp: stop_and_drain_def Let_def stop_admission_def reopen_locked_def reopen_recheck_def)

lemma send_run_result:
  assumes "send_step\<^sup>*\<^sup>* w w'" and "world_ok w" and "h < length (ld_heap (sw_ledger w))"
    and "en_terminal (ld_heap (sw_ledger w) ! h) = Some r"
  shows "h < length (ld_heap (sw_ledger w')) \<and> en_terminal (ld_heap (sw_ledger w') ! h) = Some r"
  using assms
proof (induction rule: rtranclp_induct)
  case (step y z)
  then show ?case using send_step_result [of y z h r] send_run_ok [of w y] by blast
qed simp

text \<open>
  (C25) Owned sends are bounded and never doubled. However callers, owners, reopening and closing
  interleave, at most 64 sends with at most one mebibyte are held, the results that are kept fit in what
  was reserved for them, the count of sends in flight is exact, and no identity is in flight twice. A
  request is refused for lack of room only when no kept result is left to drop. Whoever waits for an
  entry without a result waits for a send that a task still owns, and a result never changes; and when
  closing has finished, nothing is admitted any more.
\<close>

theorem owned_sends_are_bounded:
  assumes "send_step\<^sup>*\<^sup>* send_start w"
  shows "length (ld_entries (sw_ledger w)) \<le> 64 \<and> ld_retained_bytes (sw_ledger w) \<le> 1024 * 1024
    \<and> (\<Sum>e \<leftarrow> ld_entries (sw_ledger w). case entry_result (sw_ledger w) e of None \<Rightarrow> 0
         | Some r \<Rightarrow> send_terminal_retained_bytes r) \<le> ld_retained_bytes (sw_ledger w)
    \<and> ld_inflight (sw_ledger w) = length (sw_owned w) \<and> distinct (map fst (sw_owned w))
    \<and> (\<forall>prepared l. reserve prepared (sw_ledger w) = (Inl SendCapacity, l) \<longrightarrow>
         ld_terminal_fifo l = [] \<and> set (ld_entries l) = set (sw_owned w))
    \<and> (\<forall>h < length (ld_heap (sw_ledger w)).
         (await_send h (sw_ledger w) = None \<longleftrightarrow> h \<in> snd ` set (sw_owned w))
         \<and> (\<forall>w' r. send_step\<^sup>*\<^sup>* w w' \<longrightarrow> await_send h (sw_ledger w) = Some r \<longrightarrow> await_send h (sw_ledger w') = Some r))
    \<and> (ld_permanently_closed (sw_ledger w) \<and> sw_reopening w = 0 \<and> sw_closing w = 0 \<longrightarrow> \<not> ld_admission_open (sw_ledger w))"
proof -
  have ok: "world_ok w" using send_run_ok [OF assms send_start_ok] .
  then have ledger: "ledger_ok (sw_owned w) (sw_ledger w)" by (simp add: world_ok_def)
  note D = ledger_okD [OF ledger]
  have "(\<Sum>e \<leftarrow> ld_entries (sw_ledger w). case entry_result (sw_ledger w) e of None \<Rightarrow> 0
      | Some r \<Rightarrow> send_terminal_retained_bytes r) \<le> ld_retained_bytes (sw_ledger w)"
    unfolding D(7) using D(9) by (intro sum_list_mono) (auto split: option.splits)
  moreover have "distinct (map fst (sw_owned w))"
    using D(1,2,3) by (auto simp: distinct_map inj_on_def)
  moreover have "ld_terminal_fifo l = [] \<and> set (ld_entries l) = set (sw_owned w)"
    if "reserve prepared (sw_ledger w) = (Inl SendCapacity, l)" for prepared l
  proof -
    have l: "ledger_ok (sw_owned w) l" "ld_terminal_fifo l = []"
      using reserve_other(1,2) [OF ledger that] by simp_all
    with ledger_okD(3,5) [OF l(1)] show ?thesis by auto
  qed
  moreover have "await_send h (sw_ledger w) = None \<longleftrightarrow> h \<in> snd ` set (sw_owned w)" if "h < length (ld_heap (sw_ledger w))" for h
    using D(3) D(10) [OF that] by (auto simp: await_send_def)
  moreover have "await_send h (sw_ledger w') = Some r"
    if "send_step\<^sup>*\<^sup>* w w'" "h < length (ld_heap (sw_ledger w))" "await_send h (sw_ledger w) = Some r" for h w' r
    using send_run_result [OF that(1) ok that(2)] that(3) by (auto simp: await_send_def)
  moreover have "ld_permanently_closed (sw_ledger w) \<and> sw_reopening w = 0 \<and> sw_closing w = 0 \<longrightarrow> \<not> ld_admission_open (sw_ledger w)"
    using ok by (auto simp: world_ok_def)
  moreover have "length (ld_entries (sw_ledger w)) \<le> 64" "ld_retained_bytes (sw_ledger w) \<le> 1024 * 1024"
    using D(11,12) by (simp_all add: MAX_OWNED_SENDS_def MAX_OWNED_SEND_BYTES_def)
  ultimately show ?thesis using D(6) by - (intro conjI allI impI; (assumption | blast))
qed

definition sample_prepared :: PreparedSend where
  "sample_prepared = \<lparr>ps_request = \<lparr>smq_recipient = ''b'', smq_recipient_membership_id = None, smq_body = ''hi'',
     smq_priority = MessagePriorityDto.Normal, smq_dedupe_key = ''k1'', smq_reply_to = None, smq_correlation_id = None\<rparr>,
     ps_identity = ''k1''\<rparr>"

theorem owned_sends_are_bounded_witness:
  "\<exists>l. reserve sample_prepared SendLedger_new = (Inr (New 0), l)
     \<and> reserve sample_prepared (ledger_finish ''k1'' 0 (Inl StoredSendFailure.NotReady) l)
       = (Inr (Existing 0), ledger_finish ''k1'' 0 (Inl StoredSendFailure.NotReady) l)
     \<and> ld_inflight l = 1 \<and> ld_retained_bytes (ledger_finish ''k1'' 0 (Inl StoredSendFailure.NotReady) l) \<le> 1024 * 1024"
proof -
  obtain l where l: "reserve sample_prepared SendLedger_new = (Inr (New 0), l)"
    and again: "reserve sample_prepared (ledger_finish ''k1'' 0 (Inl StoredSendFailure.NotReady) l)
       = (Inr (Existing 0), ledger_finish ''k1'' 0 (Inl StoredSendFailure.NotReady) l)"
    by (simp add: reserve_def SendLedger_new_def sample_prepared_def Let_def request_bytes_def saturating_add_def
        saturating_mul_def usize_max_def option_len_def OWNED_SEND_FIXED_BYTES_def over_capacity_def MAX_OWNED_SENDS_def
        MAX_OWNED_SEND_BYTES_def ledger_finish_def send_terminal_retained_bytes_def)
  let ?w = "send_start\<lparr>sw_ledger := l, sw_owned := [(''k1'', 0)]\<rparr>"
  have one: "send_step send_start ?w"
    using send_step.owns [of sample_prepared send_start 0 l] l by (simp add: send_start_def sample_prepared_def)
  have two: "send_step ?w (?w\<lparr>sw_ledger := ledger_finish ''k1'' 0 (Inl StoredSendFailure.NotReady) l, sw_owned := []\<rparr>)"
    using send_step.finishes [of "''k1''" 0 ?w "Inl StoredSendFailure.NotReady"] by (simp add: send_start_def)
  have run1: "send_step\<^sup>*\<^sup>* send_start ?w" using one by (rule r_into_rtranclp)
  have run2: "send_step\<^sup>*\<^sup>* send_start (?w\<lparr>sw_ledger := ledger_finish ''k1'' 0 (Inl StoredSendFailure.NotReady) l, sw_owned := []\<rparr>)"
    using run1 two by (rule rtranclp.rtrancl_into_rtrancl)
  have "ld_inflight l = 1" using owned_sends_are_bounded [OF run1] by simp
  moreover have "ld_retained_bytes (ledger_finish ''k1'' 0 (Inl StoredSendFailure.NotReady) l) \<le> 1024 * 1024"
    using conjunct1 [OF conjunct2 [OF owned_sends_are_bounded [OF run2]]] by simp
  ultimately show ?thesis using l again by blast
qed

end
