(* ===== verification/Session_Start.thy ===== *)
theory Session_Start
  imports Leave_Journal Harness_Status Send_Ledger
begin

text \<open>
  How a session begins and how its end is cleaned up (\<open>psst-application/src/session.rs\<close>): the resume
  transaction, the cleanup after a confirmed leave and its recovery, starting from a bound profile and
  joining an unbound one. The credential files and the profile files are two directories. What the relay
  answers is given; the system calls of the \<open>n\<close>-th step on the disk go as \<open>sys n\<close> says.
\<close>

section \<open>The disk\<close>

record disk =
  dk_credentials :: directory
  dk_profiles :: directory

type_synonym ('e, 'a) disk_op = "disk \<Rightarrow> ('e + 'a) \<times> disk"

definition then_do :: "('e, 'a) disk_op \<Rightarrow> ('a \<Rightarrow> ('e, 'b) disk_op) \<Rightarrow> ('e, 'b) disk_op" where
  "then_do m f d = (case m d of (Inl e, d') \<Rightarrow> (Inl e, d') | (Inr x, d') \<Rightarrow> f x d')"

definition give :: "'e + 'a \<Rightarrow> ('e, 'a) disk_op" where
  "give r d = (r, d)"

definition on_credentials :: "'a dir_op \<Rightarrow> (io_error, 'a) disk_op" where
  "on_credentials m d = (case m (dk_credentials d) of (r, c) \<Rightarrow> (r, d\<lparr>dk_credentials := c\<rparr>))"

definition on_profiles :: "'a dir_op \<Rightarrow> (io_error, 'a) disk_op" where
  "on_profiles m d = (case m (dk_profiles d) of (r, c) \<Rightarrow> (r, d\<lparr>dk_profiles := c\<rparr>))"

definition failing :: "('e \<Rightarrow> 'f) \<Rightarrow> ('e, 'a) disk_op \<Rightarrow> ('f, 'a) disk_op" where
  "failing f m d = (case m d of (r, d') \<Rightarrow> (map_err f r, d'))"

text \<open>What belongs to one profile: the libraries, the two parent directories and the paths.\<close>

record session_site =
  st_store :: store_lib
  st_profile_codec :: "ProfileBinding json_codec"
  st_journal_codec :: "LeaveJournal json_codec"
  st_credential_parent :: parent_dir
  st_profile_parent :: parent_dir
  st_paths :: ProfilePaths

abbreviation st_url :: "session_site \<Rightarrow> url_lib" where
  "st_url S \<equiv> sl_url (st_store S)"

abbreviation st_credential_name :: "session_site \<Rightarrow> string option" where
  "st_credential_name S \<equiv> file_name (pa_credential (st_paths S))"

abbreviation st_metadata_name :: "session_site \<Rightarrow> string option" where
  "st_metadata_name S \<equiv> file_name (pa_metadata (st_paths S))"

section \<open>The journal issuer\<close>

record JournalIssuer =
  ji_intent :: "ProfileBinding \<Rightarrow> io_error + LeaveJournal"
  ji_confirm :: "LeaveJournal \<Rightarrow> io_error + LeaveJournal"

definition issuer_now :: "OffsetDateTime \<Rightarrow> io_error + ApiTimestamp" where
  "issuer_now now = map_err (\<lambda>_. IoError Other ''system time cannot be represented'') (ApiTimestamp_new (to_millis now))"

text \<open>\<open>SystemJournalIssuer\<close>, with its random bytes and the times of the two calls.\<close>

definition SystemJournalIssuer ::
  "url_lib \<Rightarrow> io_error + 8 word list \<Rightarrow> OffsetDateTime \<Rightarrow> OffsetDateTime \<Rightarrow> JournalIssuer" where
  "SystemJournalIssuer U random now later =
     \<lparr>ji_intent = (\<lambda>binding.
        rbind random (\<lambda>bytes.
        rbind (issuer_now now) (\<lambda>created_at.
        intent U binding (concat (map hex_byte bytes)) created_at))),
      ji_confirm = (\<lambda>intent. rbind (issuer_now later) (\<lambda>confirmed_at. confirmed intent confirmed_at))\<rparr>"

section \<open>Cleanup\<close>

datatype CleanupStep = Credential | Profile | Journal

definition cleanup_confirmed_leave ::
  "session_site \<Rightarrow> (CleanupStep \<Rightarrow> io_error + unit) \<Rightarrow> (nat \<Rightarrow> os) \<Rightarrow> CredentialStore \<Rightarrow> string \<Rightarrow> (io_error, unit) disk_op" where
  "cleanup_confirmed_leave S seam sys st journal =
     then_do (give (seam Credential)) (\<lambda>_.
     then_do (on_credentials (clear st (sys 0))) (\<lambda>_.
     then_do (give (seam Profile)) (\<lambda>_.
     then_do (on_profiles (clear_profile (st_profile_parent S) (st_metadata_name S) (sys 1))) (\<lambda>_.
     then_do (give (seam Journal)) (\<lambda>_.
     on_profiles (remove_with_fault journal (sys 2) NoJournalFault))))))"

text \<open>The lock is taken before; \<open>lock\<close> is what \<open>ProfileLock::acquire\<close> answered.\<close>

definition recover_orphaned_leave ::
  "session_site \<Rightarrow> io_error + unit \<Rightarrow> string \<Rightarrow> string \<Rightarrow> (nat \<Rightarrow> os) \<Rightarrow> (SessionError, bool) disk_op" where
  "recover_orphaned_leave S lock relay_origin profile_name sys =
     then_do (give (map_err Local lock)) (\<lambda>_.
     if \<not> pd_present (st_profile_parent S) then give (Inr False)
     else
       then_do (failing Local (on_profiles (load_profile (st_url S) (st_profile_codec S) (st_profile_parent S)
         (st_metadata_name S) (sys 0)))) (\<lambda>loaded.
       if loaded \<noteq> None then give (Inr False)
       else
         then_do (failing Local (on_profiles (open_journal (st_profile_parent S) (sys 1) (pa_metadata (st_paths S))))) (\<lambda>journal.
         then_do (failing Local (on_profiles (load_for_profile_key (st_url S) (st_journal_codec S) journal (sys 2)
           relay_origin profile_name))) (\<lambda>found.
         case found of
           None \<Rightarrow> give (Inr False)
         | Some (pending, _) \<Rightarrow>
             if lj_phase pending \<noteq> Confirmed then give (Inl RecoveryOutcomeUnknown)
             else
               then_do (failing Local (on_credentials (open_store (st_credential_parent S) (sys 3) (st_credential_name S)))) (\<lambda>st.
               then_do (failing Local (cleanup_confirmed_leave S (\<lambda>_. Inr ()) (\<lambda>n. sys (4 + n)) st journal)) (\<lambda>_.
               give (Inr True)))))))"

section \<open>Resuming\<close>

datatype ResumeTransactionError = Relay Error | Persist io_error | Task

definition resume_session_error :: "ResumeTransactionError \<Rightarrow> SessionError" where
  "resume_session_error error =
     (case error of
        ResumeTransactionError.Relay e \<Rightarrow> SessionError.Relay e
      | Persist e \<Rightarrow> Local e
      | Task \<Rightarrow> Local (IoError Other ''resume transaction task failed''))"

text \<open>The answer of the relay, or nothing when the task died.\<close>

definition resume_transaction ::
  "session_site \<Rightarrow> CredentialStore \<Rightarrow> CredentialBinding \<Rightarrow> string \<Rightarrow> (Error + SessionResponse \<times> ClientCredential) option
   \<Rightarrow> os \<Rightarrow> (ResumeTransactionError, SessionResponse \<times> ClientCredential) disk_op" where
  "resume_transaction S st binding squad answer os =
     (case answer of
        None \<Rightarrow> give (Inl Task)
      | Some result \<Rightarrow>
          then_do (give (map_err ResumeTransactionError.Relay result)) (\<lambda>(response, credential).
          then_do (give (ensure (\<not> (ss_id (sp_squad response) \<noteq> cb_squad_id binding
              \<or> ss_name (sp_squad response) \<noteq> squad
              \<or> sp_membership_id response \<noteq> cb_member_id binding))
            (ResumeTransactionError.Relay (Error.MalformedResponse 200)))) (\<lambda>_.
          then_do (failing Persist (on_credentials (store (st_store S) st os binding credential))) (\<lambda>_.
          give (Inr (response, credential))))))"

section \<open>Starting\<close>

record Shared =
  sh_credential :: ClientCredential
  sh_instance_id :: string
  sh_heartbeat_interval_seconds :: int
  sh_lease_expires_at :: ApiTimestamp
  sh_availability :: AvailabilityDto
  sh_availability_source :: AvailabilitySourceDto
  sh_health :: SessionHealth
  sh_generation :: nat

record RuntimeSpec =
  rp_profile :: ProfileBinding
  rp_mode :: AgentModeDto
  rp_client_metadata :: ClientMetadata

record relay_answers =
  ra_heartbeat :: "HeartbeatRequest \<Rightarrow> ClientCredential \<Rightarrow> Error + HeartbeatResponse"
  ra_resume :: "ResumeSquadRequest \<Rightarrow> ClientCredential \<Rightarrow> (Error + SessionResponse \<times> ClientCredential) option"

text \<open>What the supervisor keeps of its start.\<close>

record started =
  sd_shared :: Shared
  sd_store :: CredentialStore
  sd_journal :: string
  sd_binding :: CredentialBinding

definition api_code :: "Error \<Rightarrow> ApiErrorCode option" where
  "api_code e = (case e of Error.Api _ code _ \<Rightarrow> Some code | _ \<Rightarrow> None)"

definition ready :: "ClientCredential \<Rightarrow> nat \<Rightarrow> int \<Rightarrow> ApiTimestamp \<Rightarrow> Shared" where
  "ready credential generation interval lease =
     \<lparr>sh_credential = credential, sh_instance_id = cc_instance_id credential,
      sh_heartbeat_interval_seconds = interval, sh_lease_expires_at = lease,
      sh_availability = AvailabilityDto.Unknown, sh_availability_source = AvailabilitySourceDto.Unknown,
      sh_health = SessionHealth.Ready, sh_generation = generation\<rparr>"

definition remove_pending :: "LeaveJournal option \<Rightarrow> string \<Rightarrow> os \<Rightarrow> (SessionError, unit) disk_op" where
  "remove_pending pending journal os =
     (if pending \<noteq> None then failing Local (on_profiles (remove_with_fault journal os NoJournalFault)) else give (Inr ()))"

definition start_locked_with ::
  "session_site \<Rightarrow> RuntimeSpec \<Rightarrow> JournalIssuer \<Rightarrow> (CleanupStep \<Rightarrow> io_error + unit) \<Rightarrow> relay_answers
   \<Rightarrow> io_error + 8 word list \<Rightarrow> (nat \<Rightarrow> os) \<Rightarrow> (SessionError, started) disk_op" where
  "start_locked_with S spec issuer seam relay random sys =
     (let profile = rp_profile spec in
      then_do (failing Local (on_credentials (open_store (st_credential_parent S) (sys 0) (st_credential_name S)))) (\<lambda>st.
      then_do (failing Local (on_profiles (open_journal (st_profile_parent S) (sys 1) (pa_metadata (st_paths S))))) (\<lambda>journal.
      then_do (failing Local (give (CredentialBinding_new (st_url S) (pb_relay_origin profile) (pb_profile profile)
        (pb_squad_id profile) (pb_member_id profile)))) (\<lambda>binding.
      then_do (failing Local (on_profiles (load_journal (st_url S) (st_journal_codec S) journal (sys 2) profile))) (\<lambda>pending.
      if (case pending of None \<Rightarrow> False | Some v \<Rightarrow> lj_phase v = Confirmed)
      then
        then_do (failing Local (cleanup_confirmed_leave S seam (\<lambda>n. sys (8 + n)) st journal)) (\<lambda>_.
        give (Inl Unbound))
      else
        then_do (failing Local (on_credentials (load (st_store S) st (sys 3) binding))) (\<lambda>credential.
        let request = \<lparr>hq_availability = AvailabilityDto.Unknown, hq_availability_source = AvailabilitySourceDto.Unknown\<rparr> in
        case ra_heartbeat relay request credential of
          Inr value \<Rightarrow>
            then_do (remove_pending pending journal (sys 4)) (\<lambda>_.
            give (Inr \<lparr>sd_shared = ready credential 0 (hp_heartbeat_interval_seconds value) (hp_lease_expires_at value),
              sd_store = st, sd_journal = journal, sd_binding = binding\<rparr>))
        | Inl error \<Rightarrow>
            if api_code error = Some ApiErrorCode.LeaseExpired then
              then_do (failing resume_session_error (resume_transaction S st binding (pb_squad_name profile)
                (ra_resume relay \<lparr>rsq_mode = rp_mode spec, rsq_client = rp_client_metadata spec\<rparr> credential) (sys 5)))
                (\<lambda>(response, credential).
              then_do (remove_pending pending journal (sys 4)) (\<lambda>_.
              give (Inr \<lparr>sd_shared = ready credential 1 (sp_heartbeat_interval_seconds response) (sp_lease_expires_at response),
                sd_store = st, sd_journal = journal, sd_binding = binding\<rparr>)))
            else (case pending of
              Some value \<Rightarrow>
                if api_code error \<in> {Some ApiErrorCode.NotMember, Some ApiErrorCode.SquadArchived} then
                  then_do (failing Local (give (ji_confirm issuer value))) (\<lambda>confirmed.
                  then_do (failing Local (on_profiles (store_journal_with_fault (st_url S) (st_journal_codec S) journal (sys 6)
                    confirmed (NoJournalFault, random)))) (\<lambda>_.
                  then_do (failing Local (cleanup_confirmed_leave S seam (\<lambda>n. sys (8 + n)) st journal)) (\<lambda>_.
                  give (Inl Unbound))))
                else give (Inl (SessionError.Relay error))
            | None \<Rightarrow> give (Inl (SessionError.Relay error)))))))))"

definition start_locked ::
  "session_site \<Rightarrow> RuntimeSpec \<Rightarrow> OffsetDateTime \<Rightarrow> relay_answers \<Rightarrow> io_error + 8 word list \<Rightarrow> (nat \<Rightarrow> os) \<Rightarrow> (SessionError, started) disk_op" where
  "start_locked S spec now relay random sys =
     start_locked_with S spec (SystemJournalIssuer (st_url S) random now now) (\<lambda>_. Inr ()) relay random sys"

definition require_client_origin :: "url_lib \<Rightarrow> string \<Rightarrow> string \<Rightarrow> SessionError + unit" where
  "require_client_origin U client_origin relay_origin =
     rbind (ok_or (SessionError.Relay Error.InvalidBaseUrl) (ul_parse U relay_origin)) (\<lambda>expected.
     ensure (client_origin = ul_print U (expected\<lparr>ur_path := ''/''\<rparr>)) (SessionError.Relay Error.InvalidBaseUrl))"

definition start ::
  "session_site \<Rightarrow> string \<Rightarrow> io_error + unit \<Rightarrow> RuntimeSpec \<Rightarrow> OffsetDateTime \<Rightarrow> relay_answers \<Rightarrow> io_error + 8 word list
   \<Rightarrow> (nat \<Rightarrow> os) \<Rightarrow> (SessionError, started) disk_op" where
  "start S client_origin lock spec now relay random sys =
     then_do (give (require_client_origin (st_url S) client_origin (pb_relay_origin (rp_profile spec)))) (\<lambda>_.
     then_do (give (map_err Local lock)) (\<lambda>_.
     then_do (failing Local (on_profiles (load_profile (st_url S) (st_profile_codec S) (st_profile_parent S)
       (st_metadata_name S) (sys 20)))) (\<lambda>loaded.
     if loaded \<noteq> Some (rp_profile spec) then give (Inl Unbound)
     else start_locked S spec now relay random sys)))"

section \<open>Joining\<close>

record UnboundRuntimeSpec =
  us_relay_origin :: string
  us_profile_name :: string
  us_squad :: string

definition join_and_bind_owned ::
  "session_site \<Rightarrow> string \<Rightarrow> io_error + unit \<Rightarrow> UnboundRuntimeSpec \<Rightarrow> JoinSquadRequest
   \<Rightarrow> Error + SessionResponse \<times> ClientCredential \<Rightarrow> OffsetDateTime \<Rightarrow> relay_answers \<Rightarrow> io_error + 8 word list
   \<Rightarrow> (nat \<Rightarrow> os) \<Rightarrow> (SessionError, started \<times> SessionResponse) disk_op" where
  "join_and_bind_owned S client_origin lock spec req joined now relay random sys =
     then_do (give (require_client_origin (st_url S) client_origin (us_relay_origin spec))) (\<lambda>_.
     then_do (give (map_err Local lock)) (\<lambda>_.
     then_do (\<lambda>d. (ensure (\<not> ((case st_metadata_name S of None \<Rightarrow> False | Some n \<Rightarrow> path_exists (sys 21) n (dk_profiles d))
         \<or> (case st_credential_name S of None \<Rightarrow> False | Some n \<Rightarrow> path_exists (sys 22) n (dk_credentials d))))
       (Local (IoError AlreadyExists ''profile is already bound'')), d)) (\<lambda>_.
     then_do (give (map_err SessionError.Relay joined)) (\<lambda>(response, credential).
     then_do (give (ensure (\<not> (ss_name (sp_squad response) \<noteq> us_squad spec
         \<or> sp_member_name response \<noteq> jsq_name req
         \<or> sp_role response \<noteq> jsq_role req))
       (SessionError.Relay (Error.MalformedResponse 200)))) (\<lambda>_.
     then_do (give (map_err (\<lambda>_. Local (IoError InvalidData ''joined profile is invalid''))
       (ProfileBinding_new (st_url S) (us_profile_name spec) (us_relay_origin spec) (ss_name (sp_squad response))
         (ss_id (sp_squad response)) (sp_membership_id response)))) (\<lambda>profile.
     then_do (failing Local (on_credentials (open_store (st_credential_parent S) (sys 23) (st_credential_name S)))) (\<lambda>st.
     then_do (failing Local (give (CredentialBinding_new (st_url S) (pb_relay_origin profile) (pb_profile profile)
       (pb_squad_id profile) (pb_member_id profile)))) (\<lambda>binding.
     then_do (failing Local (on_credentials (store (st_store S) st (sys 24) binding credential))) (\<lambda>_.
     then_do (\<lambda>d. case on_profiles (store_profile (st_url S) (st_profile_codec S) (st_profile_parent S)
           (st_metadata_name S) (sys 25) profile) d of
         (Inr _, d') \<Rightarrow> (Inr (), d')
       | (Inl error, d') \<Rightarrow>
           then_do (failing Local (on_credentials (clear st (sys 26)))) (\<lambda>_. give (Inl (Local error))) d') (\<lambda>_.
     then_do (start_locked S \<lparr>rp_profile = profile, rp_mode = jsq_mode req, rp_client_metadata = jsq_client req\<rparr>
       now relay random sys) (\<lambda>runtime.
     give (Inr (runtime, response)))))))))))))"

end
