(* ===== verification/Session_Leave.thy ===== *)
theory Session_Leave
  imports Session_Start
begin

text \<open>
  The durable part of leaving (\<open>psst-application/src/session.rs\<close>, \<open>SessionRuntime::leave\<close>, the section
  under both gates): the intent is journalled, the relay is asked, the confirmation is journalled and
  local authority is removed. Shown here: wherever this is interrupted, also by a crash of the machine,
  the next start finishes it one way or the other.
\<close>

section \<open>The transaction\<close>

text \<open>How it ends: back to ready, outcome unknown, or left, with the result of the cleanup and the answer.\<close>

datatype leave_outcome =
    RolledBack SessionError
  | Unresolved SessionError
  | LeftRelay "io_error + unit" "Error + LeaveSquadResponse"

definition leave_confirmed ::
  "session_site \<Rightarrow> CredentialStore \<Rightarrow> string \<Rightarrow> JournalIssuer \<Rightarrow> (CleanupStep \<Rightarrow> io_error + unit) \<Rightarrow> io_error + 8 word list
   \<Rightarrow> (nat \<Rightarrow> os) \<Rightarrow> LeaveJournal \<Rightarrow> Error + LeaveSquadResponse \<Rightarrow> disk \<Rightarrow> leave_outcome \<times> disk" where
  "leave_confirmed S st journal issuer seam random sys pending response d =
     (case ji_confirm issuer pending of
        Inl error \<Rightarrow> (Unresolved (Local error), d)
      | Inr confirmation \<Rightarrow>
          (case on_profiles (store_journal_with_fault (st_url S) (st_journal_codec S) journal (sys 2) confirmation
              (NoJournalFault, random)) d of
             (Inl error, d') \<Rightarrow> (Unresolved (Local error), d')
           | (Inr _, d') \<Rightarrow>
               (case cleanup_confirmed_leave S seam (\<lambda>n. sys (3 + n)) st journal d' of
                  (cleanup, d'') \<Rightarrow> (LeftRelay cleanup response, d''))))"

text \<open>What follows the answer of the relay.\<close>

definition leave_settle ::
  "session_site \<Rightarrow> CredentialStore \<Rightarrow> string \<Rightarrow> ProfileBinding \<Rightarrow> JournalIssuer \<Rightarrow> (CleanupStep \<Rightarrow> io_error + unit)
   \<Rightarrow> LeaveJournal \<Rightarrow> Error + LeaveSquadResponse \<Rightarrow> io_error + 8 word list \<Rightarrow> (nat \<Rightarrow> os) \<Rightarrow> disk \<Rightarrow> leave_outcome \<times> disk" where
  "leave_settle S st journal profile issuer seam pending answer random sys d =
     (case answer of
        Inr response \<Rightarrow>
          if lsr_membership_id response = pb_member_id profile
          then leave_confirmed S st journal issuer seam random sys pending (Inr response) d
          else (Unresolved (SessionError.Relay (Error.MalformedResponse 200)), d)
      | Inl error \<Rightarrow>
          if api_code error \<in> {Some ApiErrorCode.NotMember, Some ApiErrorCode.SquadArchived}
          then leave_confirmed S st journal issuer seam random sys pending (Inl error) d
          else if api_code error \<noteq> None then
            (case on_profiles (remove_with_fault journal (sys 1) NoJournalFault) d of
               (Inl local, d2) \<Rightarrow> (Unresolved (Local local), d2)
             | (Inr _, d2) \<Rightarrow> (RolledBack (SessionError.Relay error), d2))
          else (Unresolved (SessionError.Relay error), d))"

text \<open>\<open>random\<close> gives the names of the temporary files of the two journal records.\<close>

definition leave_transaction ::
  "session_site \<Rightarrow> CredentialStore \<Rightarrow> string \<Rightarrow> ProfileBinding \<Rightarrow> JournalIssuer \<Rightarrow> (CleanupStep \<Rightarrow> io_error + unit)
   \<Rightarrow> Error + LeaveSquadResponse \<Rightarrow> (nat \<Rightarrow> io_error + 8 word list) \<Rightarrow> (nat \<Rightarrow> os) \<Rightarrow> disk \<Rightarrow> leave_outcome \<times> disk" where
  "leave_transaction S st journal profile issuer seam answer random sys d =
     (case ji_intent issuer profile of
        Inl error \<Rightarrow> (RolledBack (Local error), d)
      | Inr pending \<Rightarrow>
          (case on_profiles (store_journal_with_fault (st_url S) (st_journal_codec S) journal (sys 0) pending
              (NoJournalFault, random 0)) d of
             (Inl error, d1) \<Rightarrow> (RolledBack (Local error), d1)
           | (Inr _, d1) \<Rightarrow> leave_settle S st journal profile issuer seam pending answer (random 1) sys d1))"

section \<open>Entries of the two directories\<close>

lemma then_do_simps [simp]:
  "then_do (give (Inr x)) f = f x"
  "then_do (give (Inl e)) f = give (Inl e)"
  "give r d = (r, d)"
  "failing f (give r) = give (map_err f r)"
  by (auto simp: then_do_def give_def failing_def)

lemma then_do_run:
  "m d = (Inr x, d') \<Longrightarrow> then_do m f d = f x d'"
  "m d = (Inl e, d') \<Longrightarrow> then_do m f d = (Inl e, d')"
  by (simp_all add: then_do_def)

lemma on_directory_run:
  "m (dk_credentials d) = (r, c) \<Longrightarrow> on_credentials m d = (r, d\<lparr>dk_credentials := c\<rparr>)"
  "n (dk_profiles d) = (q, c) \<Longrightarrow> on_profiles n d = (q, d\<lparr>dk_profiles := c\<rparr>)"
  by (simp_all add: on_credentials_def on_profiles_def)

lemma failing_run: "m d = (r, d') \<Longrightarrow> failing f m d = (map_err f r, d')"
  by (simp add: failing_def)

definition disk_crash :: "disk \<Rightarrow> disk \<Rightarrow> bool" where
  "disk_crash d d' \<longleftrightarrow> crash (dk_credentials d) (dk_credentials d') \<and> crash (dk_profiles d) (dk_profiles d')"

text \<open>In every state the disk may be found in, the three files of a profile are as \<open>C\<close>, \<open>P\<close> and \<open>J\<close> allow.\<close>

definition holds ::
  "string \<times> string \<times> string \<Rightarrow> (node option \<Rightarrow> bool) \<Rightarrow> (node option \<Rightarrow> bool) \<Rightarrow> (node option \<Rightarrow> bool) \<Rightarrow> disk \<Rightarrow> bool" where
  "holds names C P J d = (case names of (c, p, j) \<Rightarrow>
     entry_in c C (dk_credentials d) \<and> entry_in p P (dk_profiles d) \<and> entry_in j J (dk_profiles d))"

definition synced :: "(node option \<Rightarrow> bool) \<Rightarrow> bool" where
  "synced P \<longleftrightarrow> (\<forall>n. P n \<longrightarrow> n = None \<or> (\<exists>b m. n = Some (Regular b True m)))"

lemma crash_entry_in:
  assumes "crash d d'" and "entry_in name P d" and "synced P"
  shows "entry_in name P d'"
proof -
  from assms(1) obtain m where m: "m \<in> insert (dir_live d) (set (dir_past d))"
    and s: "rel_option survives (m name) (dir_live d' name)" and settled: "dir_past d' = []"
    by (auto simp: crash_def)
  have P: "P (m name)" using m assms(2) unfolding entry_in_def by blast
  with assms(3) have "m name = None \<or> (\<exists>b k. m name = Some (Regular b True k))" by (simp add: synced_def)
  with s have "dir_live d' name = m name" by (auto simp: option_rel_Some1)
  with P settled show ?thesis by (simp add: entry_in_def)
qed

lemma entry_in_mono: "entry_in name P d \<Longrightarrow> (\<And>n. P n \<Longrightarrow> Q n) \<Longrightarrow> entry_in name Q d"
  by (simp add: entry_in_def)

lemma holds_crash:
  assumes "disk_crash d d'" and "holds names C P J d" and "synced C" and "synced P" and "synced J"
  shows "holds names C P J d'"
  using assms crash_entry_in by (auto simp: holds_def disk_crash_def split: prod.splits)

lemma holds_mono:
  "holds names C P J d \<Longrightarrow> (\<And>n. C n \<Longrightarrow> C' n) \<Longrightarrow> (\<And>n. P n \<Longrightarrow> P' n) \<Longrightarrow> (\<And>n. J n \<Longrightarrow> J' n) \<Longrightarrow> holds names C' P' J' d"
  by (auto simp: holds_def entry_in_def split: prod.splits)

section \<open>What the operations do to the entries\<close>

text \<open>Unlinking an entry and synchronising the directory.\<close>

lemma unlink_entry:
  assumes "entry_in name A d" and "A None" and "unlinkat os name d = (r, d')"
  shows "entry_in name A d'" and "r = Inr () \<Longrightarrow> dir_live d' name = None"
    and "r = Inl (IoOs NOENT) \<Longrightarrow> os_fail os Unlink = None \<Longrightarrow> dir_live d name = None"
  using assms
  by (auto simp: unlinkat_def call_def entry_in_def relink_def split: option.splits node.splits)

lemma unlink_spares:
  assumes "unlinkat os name d = (r, d')" and "other \<noteq> name" and "entry_in other A d"
  shows "entry_in other A d'"
  using sparesD(1) [OF spares_unlinkat] assms by metis

lemma sync_dir_entry:
  assumes "sync_dir os d = (r, d')" and "entry_in name A d"
  shows "entry_in name A d'" and "r = Inr () \<Longrightarrow> dir_live d name = None \<Longrightarrow> entry_in name (\<lambda>n. n = None) d'"
  using assms by (auto simp: sync_dir_def call_def entry_in_def split: option.splits)

text \<open>
  A system that does not call a file absent when it is there: no call answers \<open>ENOENT\<close> for a file that
  exists, and asking for the metadata of a file works, since \<open>Path::exists\<close> takes an error for absence.
\<close>

definition honest :: "os \<Rightarrow> bool" where
  "honest os \<longleftrightarrow> os_fail os Unlink \<noteq> Some (IoOs NOENT) \<and> os_fail os Stat = None"

lemma clear_entry:
  assumes old: "entry_in c (\<lambda>n. n = Some (Regular b True m)) d" and os: "honest os"
    and run: "clear \<lparr>cs_name = Some c\<rparr> os d = (r, d')"
  shows "entry_in c (\<lambda>n. n = Some (Regular b True m) \<or> n = None) d'"
    and "r = Inr () \<Longrightarrow> entry_in c (\<lambda>n. n = None) d'"
proof -
  let ?A = "\<lambda>n. n = Some (Regular b True m) \<or> n = None"
  have d: "entry_in c ?A d" using old by (simp add: entry_in_def)
  have live: "dir_live d c = Some (Regular b True m)" using entry_in_live [OF old] .
  obtain q d1 where u: "unlinkat os c d = (q, d1)" by fastforce
  note U = unlink_entry [OF d _ u]
  have run': "(r, d') = (case q of Inr _ \<Rightarrow> sync_dir os d1 | Inl e \<Rightarrow> (if e = IoOs NOENT then Inr () else Inl e, d1))"
    using run u by (cases q) (auto simp: clear_def split: io_error.splits errno.splits)
  show "entry_in c ?A d'"
    using run' U(1) sync_dir_entry(1) [of os d1 r d' c ?A] by (cases q) (auto split: if_splits)
  show "entry_in c (\<lambda>n. n = None) d'" if "r = Inr ()"
  proof (cases q)
    case (Inl e)
    then have "q = Inl (IoOs NOENT)" using run' that by (auto split: if_splits)
    then show ?thesis using u os live by (auto simp: unlinkat_def call_def honest_def split: option.splits)
  next
    case (Inr x)
    then show ?thesis using run' that U(1,2) sync_dir_entry(2) [of os d1 r d' c ?A] by simp
  qed
qed

lemma clear_profile_entry:
  assumes old: "entry_in p (\<lambda>n. n = Some (Regular b True m)) d" and os: "honest os"
    and run: "clear_profile q (Some p) os d = (r, d')"
  shows "entry_in p (\<lambda>n. n = Some (Regular b True m) \<or> n = None) d'"
    and "r = Inr () \<Longrightarrow> entry_in p (\<lambda>n. n = None) d'"
    and "j \<noteq> p \<Longrightarrow> entry_in j A d \<Longrightarrow> entry_in j A d'"
proof -
  let ?A = "\<lambda>n. n = Some (Regular b True m) \<or> n = None"
  have d: "entry_in p ?A d" using old by (simp add: entry_in_def)
  have live: "dir_live d p = Some (Regular b True m)" using entry_in_live [OF old] .
  have "path_exists os p d" using os live by (simp add: path_exists_def honest_def)
  then have steps: "clear_profile q (Some p) os d = io_bind (reject_symlink os p) (\<lambda>_.
      io_bind (io_guard (pd_present q) (IoError InvalidInput ''profile parent unavailable'')) (\<lambda>_.
      io_bind (io_return (pd_open q)) (\<lambda>_. io_bind (unlinkat os p) (\<lambda>_. sync_dir os)))) d"
    by (simp add: clear_profile_def)
  have "r = Inl e \<and> d' = d \<or> (\<exists>s d1. unlinkat os p d = (s, d1) \<and> (case s of Inl e \<Rightarrow> (r, d') = (Inl e, d1) | Inr _ \<Rightarrow> sync_dir os d1 = (r, d')))"
    if "e = (case r of Inl e \<Rightarrow> e | Inr _ \<Rightarrow> IoOs NOENT)" for e
    using run that unfolding steps
    by (auto simp: io_bind_def reject_symlink_def lstat_not_link_def live call_def ensure_def
        split: option.splits sum.splits prod.splits if_splits)
  then consider "\<exists>e. r = Inl e" "d' = d" | s d1 where "unlinkat os p d = (s, d1)"
      "case s of Inl e \<Rightarrow> (r, d') = (Inl e, d1) | Inr _ \<Rightarrow> sync_dir os d1 = (r, d')" by blast
  then have all: "entry_in p ?A d' \<and> (r = Inr () \<longrightarrow> entry_in p (\<lambda>n. n = None) d') \<and> (j \<noteq> p \<longrightarrow> entry_in j A d \<longrightarrow> entry_in j A d')" for j A
  proof cases
    case 1
    then show ?thesis using d by auto
  next
    case (2 s d1)
    note U = unlink_entry [OF d _ 2(1)]
    show ?thesis
      using 2(2) U(1,2) sync_dir_entry [of os d1 r d' p ?A] sync_dir_entry(1) [of os d1 r d' j A] unlink_spares [OF 2(1), of j A]
      by (cases s) auto
  qed
  show "entry_in p ?A d'" and "r = Inr () \<Longrightarrow> entry_in p (\<lambda>n. n = None) d'" using all [of p ?A] by auto
  show "j \<noteq> p \<Longrightarrow> entry_in j A d \<Longrightarrow> entry_in j A d'" using all by blast
qed

lemma remove_journal_entry:
  assumes old: "entry_in j A d" and "A None" and run: "remove_with_fault j os NoJournalFault d = (r, d')"
  shows "entry_in j A d'" and "p \<noteq> j \<Longrightarrow> entry_in p B d \<Longrightarrow> entry_in p B d'"
proof -
  obtain q d1 where u: "unlinkat os j d = (q, d1)" by fastforce
  note U = unlink_entry [OF old assms(2) u]
  have run': "(r, d') = (case q of Inr _ \<Rightarrow> sync_dir os d1 | Inl e \<Rightarrow> (if e = IoOs NOENT then Inr () else Inl e, d1))"
    using run u by (cases q) (auto simp: remove_with_fault_def io_bind_def split: io_error.splits errno.splits)
  show "entry_in j A d'"
    using run' U(1) sync_dir_entry(1) [of os d1 r d' j A] by (cases q) (auto split: if_splits)
  show "entry_in p B d'" if "p \<noteq> j" "entry_in p B d"
    using run' unlink_spares [OF u that] sync_dir_entry(1) [of os d1 r d' p B] by (cases q) (auto split: if_splits)
qed

lemma open_target_reads: "snd (open_target name os d) = d"
  by (auto simp: open_target_def open_read_def verify_journal_handle_def io_bind_def call_def
      split: option.splits node.splits sum.splits prod.splits io_error.splits errno.splits)

lemma reject_target_reads: "snd (reject_target_substitution name os d) = d"
  using open_target_reads [of name os d]
  by (auto simp: reject_target_substitution_def io_bind_def split: prod.splits sum.splits)

lemma spares_renameat [intro]: "old \<noteq> name \<Longrightarrow> new \<noteq> name \<Longrightarrow> spares name (renameat os old new)"
  unfolding renameat_def
  by (rule spares_call) (auto simp: spares_def relink_def entry_in_def split: option.splits node.splits)

text \<open>Storing a record: the entry is the old one or the complete new one, and the new one for good on success.\<close>

lemma store_journal_entry:
  assumes old: "entry_in j A d" and run: "store_journal_with_fault U J j os v (NoJournalFault, random) d = (r, d')"
    and other: "take 1 p \<noteq> ''.''" "p \<noteq> j"
  obtains bytes where "jc_to_vec J v = Inr bytes" "validate_record U v = Inr ()" "length bytes \<le> MAX_JOURNAL_BYTES"
      "entry_in j (\<lambda>n. A n \<or> n = Some (Regular bytes True (os_mode os))) d'"
      "r = Inr () \<longrightarrow> entry_in j (\<lambda>n. n = Some (Regular bytes True (os_mode os))) d'"
      "\<And>B. entry_in p B d \<Longrightarrow> entry_in p B d'"
    | "\<exists>e. r = Inl e" "d' = d"
proof -
  have "(\<exists>e. r = Inl e) \<and> d' = d \<or> (\<exists>bytes. jc_to_vec J v = Inr bytes \<and> validate_record U v = Inr ()
      \<and> length bytes \<le> MAX_JOURNAL_BYTES \<and> store_unix j (NoJournalFault, random) os bytes d = (r, d'))"
  proof -
    obtain q where "reject_target_substitution j os d = (q, d)" by (metis prod.collapse reject_target_reads)
    then have "store_journal_with_fault U J j os v (NoJournalFault, random) d = (case jc_to_vec J v of Inl _ \<Rightarrow> (Inl journal_invalid_data, d) | Inr bytes \<Rightarrow>
        (case validate_record U v of Inl e \<Rightarrow> (Inl e, d) | Inr _ \<Rightarrow>
          if length bytes > MAX_JOURNAL_BYTES then (Inl journal_invalid_data, d)
          else case q of Inl e \<Rightarrow> (Inl e, d) | Inr _ \<Rightarrow> store_unix j (NoJournalFault, random) os bytes d))"
      by (cases "jc_to_vec J v"; cases "validate_record U v"; cases q)
        (auto simp: store_journal_with_fault_def io_bind_def ensure_def)
    then show ?thesis
      using run by (cases "jc_to_vec J v"; cases "validate_record U v"; cases q) (auto split: if_splits)
  qed
  then show thesis
  proof (elim disjE exE conjE)
    fix bytes
    assume bytes: "jc_to_vec J v = Inr bytes" "validate_record U v = Inr ()" "length bytes \<le> MAX_JOURNAL_BYTES"
      and stored: "store_unix j (NoJournalFault, random) os bytes d = (r, d')"
    let ?A = "\<lambda>n. A n \<or> n = Some (Regular bytes True (os_mode os))"
    have "triple (entry_in j ?A) (store_unix j (NoJournalFault, random) os bytes)
        (durable j (Regular bytes True (os_mode os))) (entry_in j ?A)"
      by (rule journal_file.replaces) simp
    moreover have "entry_in j ?A d" using old by (simp add: entry_in_def)
    ultimately have "entry_in j ?A d'" "r = Inr () \<longrightarrow> entry_in j (\<lambda>n. n = Some (Regular bytes True (os_mode os))) d'"
      using stored by (cases r; fastforce simp: triple_def durable_def entry_in_def)+
    moreover have "spares p (store_unix j (NoJournalFault, random) os bytes)"
    proof (cases random)
      case (Inr suffix)
      have "''.'' @ j @ ''.tmp-'' @ concat (map hex_byte suffix) \<noteq> p" using other(1) by auto
      then show ?thesis
        using other(2) Inr
        unfolding store_unix_def Let_def temp_name_def
        by (auto intro!: spares_bind spares_unlinkat spares_create_excl spares_write_all spares_sync_file)
    qed (auto simp: store_unix_def temp_name_def spares_def io_bind_def)
    ultimately show thesis using that(1) [OF bytes] sparesD(1) stored by blast
  qed (use that(2) in auto)
qed

section \<open>Where an interrupted leave can be\<close>

definition parent_ok :: "parent_dir \<Rightarrow> bool" where
  "parent_ok q \<longleftrightarrow> pd_present q \<and> pd_create q = Inr () \<and> pd_link q = Inr False \<and> pd_open q = Inr ()
     \<and> verify_owned_directory q = Inr ()"

fun site_ok :: "session_site \<Rightarrow> string \<times> string \<times> string \<Rightarrow> bool" where
  "site_ok S (c, p, j) \<longleftrightarrow> st_credential_name S = Some c \<and> st_metadata_name S = Some p
     \<and> sibling_path (pa_metadata (st_paths S)) = Inr j \<and> p \<noteq> j \<and> take 1 p \<noteq> ''.''
     \<and> parent_ok (st_credential_parent S) \<and> parent_ok (st_profile_parent S)"

text \<open>An entry that holds a complete, valid record which loading accepts.\<close>

definition recorded :: "session_site \<Rightarrow> LeaveJournal \<Rightarrow> node option \<Rightarrow> bool" where
  "recorded S v n \<longleftrightarrow> (\<exists>bytes m. n = Some (Regular bytes True m) \<and> jc_to_vec (st_journal_codec S) v = Inr bytes
     \<and> length bytes \<le> MAX_JOURNAL_BYTES \<and> validate_record (st_url S) v = Inr () \<and> m mod 512 = 384)"

text \<open>
  The states of the disk while a leave is under way, by whether the relay still has the membership: the
  journal says nothing or the intent \<open>i\<close>, the intent or the confirmation \<open>k\<close>, or the confirmation while
  credential, profile and finally the journal itself are removed in this order. After an answer that leaves it
  \<open>unsure\<close> whether the relay committed the leave, the intent may be gone although the membership is, too.
\<close>

definition leaving ::
  "session_site \<Rightarrow> string \<times> string \<times> string \<Rightarrow> node option \<Rightarrow> node option \<Rightarrow> bool \<Rightarrow> bool \<Rightarrow> LeaveJournal \<Rightarrow> (node option \<Rightarrow> bool)
   \<Rightarrow> disk \<Rightarrow> bool" where
  "leaving S names C P member unsure i K d \<longleftrightarrow>
     (member \<or> unsure) \<and> holds names (\<lambda>n. n = C) (\<lambda>n. n = P) (\<lambda>n. n = None \<or> recorded S i n) d
   \<or> holds names (\<lambda>n. n = C) (\<lambda>n. n = P) (recorded S i) d
   \<or> \<not> member \<and>
      (holds names (\<lambda>n. n = C) (\<lambda>n. n = P) (\<lambda>n. recorded S i n \<or> K n) d
       \<or> holds names (\<lambda>n. n = C \<or> n = None) (\<lambda>n. n = P) K d
       \<or> holds names (\<lambda>n. n = None) (\<lambda>n. n = P \<or> n = None) K d
       \<or> holds names (\<lambda>n. n = None) (\<lambda>n. n = None) (\<lambda>n. K n \<or> n = None) d)"

lemma leavingI:
  "member \<or> unsure \<Longrightarrow> holds names (\<lambda>n. n = C) (\<lambda>n. n = P) (\<lambda>n. n = None \<or> recorded S i n) d \<Longrightarrow> leaving S names C P member unsure i K d"
  "holds names (\<lambda>n. n = C) (\<lambda>n. n = P) (recorded S i) d \<Longrightarrow> leaving S names C P member unsure i K d"
  "\<not> member \<Longrightarrow> holds names (\<lambda>n. n = C) (\<lambda>n. n = P) (\<lambda>n. recorded S i n \<or> K n) d \<Longrightarrow> leaving S names C P member unsure i K d"
  "\<not> member \<Longrightarrow> holds names (\<lambda>n. n = C \<or> n = None) (\<lambda>n. n = P) K d \<Longrightarrow> leaving S names C P member unsure i K d"
  "\<not> member \<Longrightarrow> holds names (\<lambda>n. n = None) (\<lambda>n. n = P \<or> n = None) K d \<Longrightarrow> leaving S names C P member unsure i K d"
  "\<not> member \<Longrightarrow> holds names (\<lambda>n. n = None) (\<lambda>n. n = None) (\<lambda>n. K n \<or> n = None) d \<Longrightarrow> leaving S names C P member unsure i K d"
  unfolding leaving_def by simp_all

lemma store_recorded:
  assumes site: "site_ok S (c, p, j)" and d: "holds (c, p, j) C P A d" and mode: "os_mode os mod 512 = 384"
    and run: "on_profiles (store_journal_with_fault (st_url S) (st_journal_codec S) j os v (NoJournalFault, random)) d = (r, d')"
  shows "holds (c, p, j) C P (\<lambda>n. A n \<or> recorded S v n) d'" and "r = Inr () \<Longrightarrow> holds (c, p, j) C P (recorded S v) d'"
proof -
  obtain e where e: "store_journal_with_fault (st_url S) (st_journal_codec S) j os v (NoJournalFault, random) (dk_profiles d) = (r, e)"
    and d': "d' = d\<lparr>dk_profiles := e\<rparr>"
    using run by (auto simp: on_profiles_def split: prod.splits)
  have entries: "entry_in j A (dk_profiles d)" "entry_in p P (dk_profiles d)" "entry_in c C (dk_credentials d)"
    using d by (simp_all add: holds_def)
  have other: "take 1 p \<noteq> ''.''" "p \<noteq> j" using site by auto
  have "holds (c, p, j) C P (\<lambda>n. A n \<or> recorded S v n) d' \<and> (r = Inr () \<longrightarrow> holds (c, p, j) C P (recorded S v) d')"
  proof (cases rule: store_journal_entry [OF entries(1) e other, case_names stored failed])
    case (stored bytes)
    have new: "recorded S v (Some (Regular bytes True (os_mode os)))"
      using stored(1-3) mode by (auto simp: recorded_def)
    have "entry_in j (\<lambda>n. A n \<or> recorded S v n) e" by (rule entry_in_mono [OF stored(4)]) (use new in auto)
    moreover have "r = Inr () \<longrightarrow> entry_in j (recorded S v) e" using stored(5) new by (auto elim: entry_in_mono)
    ultimately show ?thesis using stored(6) [OF entries(2)] entries(3) by (simp add: holds_def d')
  next
    case failed
    then have "e = dk_profiles d" "r \<noteq> Inr ()" by auto
    then show ?thesis using entries entry_in_mono [OF entries(1), of "\<lambda>n. A n \<or> recorded S v n"] by (simp add: holds_def d')
  qed
  then show "holds (c, p, j) C P (\<lambda>n. A n \<or> recorded S v n) d'" and "r = Inr () \<Longrightarrow> holds (c, p, j) C P (recorded S v) d'"
    by auto
qed

lemma cleanup_leaving:
  assumes site: "site_ok S (c, p, j)" and C: "C = Some (Regular cb True cm)" and P: "P = Some (Regular pb True pm)"
    and d: "holds (c, p, j) (\<lambda>n. n = C) (\<lambda>n. n = P) K d" and sys: "\<And>n. honest (sys n)"
    and run: "cleanup_confirmed_leave S seam sys \<lparr>cs_name = Some c\<rparr> j d = (r, d')"
  shows "leaving S (c, p, j) C P False unsure i K d'"
proof -
  have entries: "entry_in c (\<lambda>n. n = Some (Regular cb True cm)) (dk_credentials d)"
      "entry_in p (\<lambda>n. n = Some (Regular pb True pm)) (dk_profiles d)" "entry_in j K (dk_profiles d)"
    using d C P by (simp_all add: holds_def)
  have names: "st_metadata_name S = Some p" "j \<noteq> p" using site by auto
  obtain r1 d1 where one: "clear \<lparr>cs_name = Some c\<rparr> (sys 0) (dk_credentials d) = (r1, d1)" by fastforce
  obtain r2 d2 where two: "clear_profile (st_profile_parent S) (Some p) (sys 1) (dk_profiles d) = (r2, d2)" by fastforce
  obtain r3 d3 where three: "remove_with_fault j (sys 2) NoJournalFault d2 = (r3, d3)" by fastforce
  note cleared = clear_entry [OF entries(1) sys one]
  note profile = clear_profile_entry [OF entries(2) sys two]
  have kept: "entry_in j K d2" using profile(3) [OF names(2) entries(3)] .
  then have loose: "entry_in j (\<lambda>n. K n \<or> n = None) d2" by (simp add: entry_in_def)
  note journal = remove_journal_entry [OF loose _ three]
  have "d' = d \<or> d' = d\<lparr>dk_credentials := d1\<rparr>
      \<or> r1 = Inr () \<and> d' = d\<lparr>dk_credentials := d1, dk_profiles := d2\<rparr>
      \<or> r1 = Inr () \<and> r2 = Inr () \<and> d' = d\<lparr>dk_credentials := d1, dk_profiles := d3\<rparr>"
    using run
    by (cases "seam Credential"; cases r1; cases "seam Profile"; cases r2; cases "seam Journal")
      (auto simp: cleanup_confirmed_leave_def then_do_def on_credentials_def on_profiles_def one two [unfolded One_nat_def] three names(1))
  then consider "d' = d" | "d' = d\<lparr>dk_credentials := d1\<rparr>"
    | "r1 = Inr ()" "d' = d\<lparr>dk_credentials := d1, dk_profiles := d2\<rparr>"
    | "r1 = Inr ()" "r2 = Inr ()" "d' = d\<lparr>dk_credentials := d1, dk_profiles := d3\<rparr>" by blast
  then show ?thesis
  proof cases
    case 1
    then have "holds (c, p, j) (\<lambda>n. n = C \<or> n = None) (\<lambda>n. n = P) K d'"
      using holds_mono [OF d, of "\<lambda>n. n = C \<or> n = None"] by simp
    then show ?thesis by (simp add: leavingI(4))
  next
    case 2
    then have "holds (c, p, j) (\<lambda>n. n = C \<or> n = None) (\<lambda>n. n = P) K d'"
      using entries cleared(1) C P by (simp add: holds_def)
    then show ?thesis by (simp add: leavingI(4))
  next
    case 3
    then have "holds (c, p, j) (\<lambda>n. n = None) (\<lambda>n. n = P \<or> n = None) K d'"
      using cleared(2) profile(1) kept P by (simp add: holds_def)
    then show ?thesis by (simp add: leavingI(5))
  next
    case 4
    then have "holds (c, p, j) (\<lambda>n. n = None) (\<lambda>n. n = None) (\<lambda>n. K n \<or> n = None) d'"
      using cleared(2) profile(2) journal names(2) by (simp add: holds_def)
    then show ?thesis by (simp add: leavingI(6))
  qed
qed

text \<open>The entries that hold a confirmation of the intent \<open>i\<close>.\<close>

definition confirmation_of :: "session_site \<Rightarrow> JournalIssuer \<Rightarrow> LeaveJournal \<Rightarrow> node option \<Rightarrow> bool" where
  "confirmation_of S issuer i n \<longleftrightarrow> (\<exists>k. ji_confirm issuer i = Inr k \<and> recorded S k n)"

lemma leave_confirmed_leaving:
  assumes site: "site_ok S (c, p, j)" and C: "C = Some (Regular cb True cm)" and P: "P = Some (Regular pb True pm)"
    and d: "holds (c, p, j) (\<lambda>n. n = C) (\<lambda>n. n = P) (recorded S i) d"
    and sys: "\<And>n. honest (sys n) \<and> os_mode (sys n) mod 512 = 384"
    and run: "leave_confirmed S \<lparr>cs_name = Some c\<rparr> j issuer seam random sys i response d = (outcome, d')"
  shows "leaving S (c, p, j) C P False unsure i (confirmation_of S issuer i) d'" and "\<And>e. outcome \<noteq> RolledBack e"
proof -
  have "leaving S (c, p, j) C P False unsure i (confirmation_of S issuer i) d' \<and> (\<forall>e. outcome \<noteq> RolledBack e)"
  proof (cases "ji_confirm issuer i")
    case (Inl e)
    then show ?thesis using run leavingI(2) [OF d] by (auto simp: leave_confirmed_def)
  next
    case (Inr k)
    obtain r d1 where st: "on_profiles (store_journal_with_fault (st_url S) (st_journal_codec S) j (sys 2) k (NoJournalFault, random)) d = (r, d1)"
      by fastforce
    have mode: "os_mode (sys 2) mod 512 = 384" using sys by simp
    note stored = store_recorded [OF site d mode st]
    have is_k: "recorded S k n \<Longrightarrow> confirmation_of S issuer i n" for n using Inr by (auto simp: confirmation_of_def)
    show ?thesis
    proof (cases r)
      case (Inl e)
      have "holds (c, p, j) (\<lambda>n. n = C) (\<lambda>n. n = P) (\<lambda>n. recorded S i n \<or> confirmation_of S issuer i n) d1"
        by (rule holds_mono [OF stored(1)]) (use is_k in auto)
      then show ?thesis using run Inr Inl st by (auto simp: leave_confirmed_def intro: leavingI(3))
    next
      case r: (Inr u)
      have "holds (c, p, j) (\<lambda>n. n = C) (\<lambda>n. n = P) (confirmation_of S issuer i) d1"
        by (rule holds_mono [OF stored(2)]) (use r is_k in auto)
      note cleaned = cleanup_leaving [OF site C P this, of "\<lambda>n. sys (3 + n)"]
      obtain q d2 where "cleanup_confirmed_leave S seam (\<lambda>n. sys (3 + n)) \<lparr>cs_name = Some c\<rparr> j d1 = (q, d2)" by fastforce
      moreover from this have "outcome = LeftRelay q response" "d' = d2" using run Inr r st by (simp_all add: leave_confirmed_def)
      ultimately show ?thesis using cleaned sys by blast
    qed
  qed
  then show "leaving S (c, p, j) C P False unsure i (confirmation_of S issuer i) d'" and "\<And>e. outcome \<noteq> RolledBack e" by auto
qed

text \<open>
  What the relay answered and whether it still has the membership afterwards: still, when it was not asked; not,
  when it confirmed the leave or knew no such member; still, when it refused. A leave whose command timed out in the relay, or
  whose answer failed there, is answered \<open>DatabaseBusy\<close> or \<open>InternalError\<close> and may be committed or not; the same
  is open when no answer of the relay arrived.
\<close>

definition unclear :: "Error + LeaveSquadResponse \<Rightarrow> bool" where
  "unclear answer \<longleftrightarrow> (\<exists>e. answer = Inl e \<and> api_code e \<in> {Some ApiErrorCode.DatabaseBusy, Some ApiErrorCode.InternalError})"

definition not_asked :: "leave_outcome \<Rightarrow> bool" where
  "not_asked outcome \<longleftrightarrow> (\<exists>e. outcome = RolledBack (Local e))"

definition consistent_answer :: "ProfileBinding \<Rightarrow> Error + LeaveSquadResponse \<Rightarrow> leave_outcome \<Rightarrow> bool \<Rightarrow> bool" where
  "consistent_answer profile answer outcome member \<longleftrightarrow>
     (if not_asked outcome then member
      else case answer of
          Inr a \<Rightarrow> lsr_membership_id a = pb_member_id profile \<longrightarrow> \<not> member
        | Inl e \<Rightarrow> (case api_code e of None \<Rightarrow> True
            | Some code \<Rightarrow> if code \<in> {ApiErrorCode.NotMember, ApiErrorCode.SquadArchived} then \<not> member
                else unclear answer \<or> member))"

lemma settled_was_asked:
  assumes "leave_settle S st journal profile issuer seam pending answer random sys d = (outcome, d')"
  shows "\<not> not_asked outcome"
  using assms
  by (auto simp: leave_settle_def leave_confirmed_def not_asked_def split: sum.splits if_split_asm prod.splits)

lemma leave_transaction_leaving:
  assumes site: "site_ok S (c, p, j)" and C: "C = Some (Regular cb True cm)" and P: "P = Some (Regular pb True pm)"
    and d: "holds (c, p, j) (\<lambda>n. n = C) (\<lambda>n. n = P) (\<lambda>n. n = None) d"
    and sys: "\<And>n. honest (sys n) \<and> os_mode (sys n) mod 512 = 384"
    and run: "leave_transaction S \<lparr>cs_name = Some c\<rparr> j profile issuer seam answer random sys d = (outcome, d')"
    and answered: "consistent_answer profile answer outcome member"
  obtains "member" "holds (c, p, j) (\<lambda>n. n = C) (\<lambda>n. n = P) (\<lambda>n. n = None) d'"
    | i where "ji_intent issuer profile = Inr i" "leaving S (c, p, j) C P member (unclear answer) i (confirmation_of S issuer i) d'"
proof (cases "ji_intent issuer profile")
  case (Inl e)
  then show thesis using run that(1) answered d by (auto simp: leave_transaction_def consistent_answer_def not_asked_def)
next
  case (Inr i)
  let ?K = "confirmation_of S issuer i"
  obtain r d1 where st: "on_profiles (store_journal_with_fault (st_url S) (st_journal_codec S) j (sys 0) i (NoJournalFault, random 0)) d = (r, d1)"
    by fastforce
  have mode: "os_mode (sys 0) mod 512 = 384" using sys by simp
  note stored = store_recorded [OF site d mode st]
  have loose: "holds (c, p, j) (\<lambda>n. n = C) (\<lambda>n. n = P) (\<lambda>n. n = None \<or> recorded S i n) d1"
    by (rule holds_mono [OF stored(1)]) auto
  have "leaving S (c, p, j) C P member (unclear answer) i ?K d'"
  proof (cases r)
    case (Inl e)
    then have "outcome = RolledBack (Local e)" "d' = d1" using run Inr st by (auto simp: leave_transaction_def)
    then show ?thesis using answered leavingI(1) [OF _ loose] by (auto simp: consistent_answer_def not_asked_def)
  next
    case r: (Inr u)
    then have i: "holds (c, p, j) (\<lambda>n. n = C) (\<lambda>n. n = P) (recorded S i) d1" using stored(2) by simp
    note settle = run [unfolded leave_transaction_def Inr sum.case st r prod.case]
    note asked = settle [unfolded leave_settle_def]
    have told: "\<And>r. answer = Inr r \<Longrightarrow> lsr_membership_id r = pb_member_id profile \<Longrightarrow> \<not> member"
      "\<And>e. answer = Inl e \<Longrightarrow> api_code e \<in> {Some ApiErrorCode.NotMember, Some ApiErrorCode.SquadArchived} \<Longrightarrow> \<not> member"
      "\<And>e. answer = Inl e \<Longrightarrow> api_code e \<notin> {None, Some ApiErrorCode.NotMember, Some ApiErrorCode.SquadArchived} \<Longrightarrow> member \<or> unclear answer"
      using answered settled_was_asked [OF settle] by (auto simp: consistent_answer_def split: option.splits)
    have left: "leaving S (c, p, j) C P member (unclear answer) i ?K d'"
      if "leave_confirmed S \<lparr>cs_name = Some c\<rparr> j issuer seam (random 1) sys i x d1 = (outcome, d')" "\<not> member" for x
      using leave_confirmed_leaving(1) [OF site C P i sys that(1)] that(2) by simp
    show ?thesis
    proof (cases answer)
      case a: (Inr response)
      show ?thesis
        using asked told(1) [OF a] left leavingI(2) [OF i] unfolding a by (auto split: if_splits)
    next
      case a: (Inl error)
      consider "api_code error \<in> {Some ApiErrorCode.NotMember, Some ApiErrorCode.SquadArchived}" | "api_code error = None"
        | "api_code error \<notin> {None, Some ApiErrorCode.NotMember, Some ApiErrorCode.SquadArchived}" by auto
      then show ?thesis
      proof cases
        case 1
        then show ?thesis using asked told(2) [OF a 1] left unfolding a by auto
      next
        case 2
        then show ?thesis using asked leavingI(2) [OF i] unfolding a by auto
      next
        case 3
        obtain q d2 where rm: "remove_with_fault j (sys 1) NoJournalFault (dk_profiles d1) = (q, d2)" by fastforce
        have d': "d' = d1\<lparr>dk_profiles := d2\<rparr>"
          using asked 3 rm unfolding a by (auto simp: on_profiles_def split: sum.splits)
        have "entry_in j (\<lambda>n. n = None \<or> recorded S i n) (dk_profiles d1)" "p \<noteq> j" "entry_in p (\<lambda>n. n = P) (dk_profiles d1)"
          using loose site by (auto simp: holds_def)
        from remove_journal_entry [OF this(1) _ rm] this(2,3)
        have "holds (c, p, j) (\<lambda>n. n = C) (\<lambda>n. n = P) (\<lambda>n. n = None \<or> recorded S i n) d'"
          using i by (simp add: holds_def d')
        then show ?thesis using leavingI(1) told(3) [OF a 3] by blast
      qed
    qed
  qed
  then show thesis using that(2) Inr by blast
qed

section \<open>Recovery\<close>

definition sound :: "os \<Rightarrow> bool" where
  "sound os \<longleftrightarrow> os_fail os = (\<lambda>_. None) \<and> os_mode os mod 512 = 384"

lemma open_store_works:
  assumes "parent_ok q" and "sound os" and "\<And>a b. dir_live d (''.'' @ c @ ''.credential-tmp-'') \<noteq> Some (Directory a b)"
  obtains e where "open_store q os (Some c) d = (Inr \<lparr>cs_name = Some c\<rparr>, e)" "dir_live e c = dir_live d c"
    "\<And>A. entry_in c A d \<Longrightarrow> entry_in c A e"
proof -
  let ?temp = "''.'' @ c @ ''.credential-tmp-''"
  obtain r e where u: "unlinkat os ?temp d = (r, e)" by fastforce
  have "r = Inr () \<or> r = Inl (IoOs NOENT)"
    using u assms(2,3) by (auto simp: unlinkat_def call_def sound_def split: option.splits node.splits)
  then have "recover_temps \<lparr>cs_name = Some c\<rparr> os d = (Inr (), e)"
    using u by (auto simp: recover_temps_def temp_prefix_named)
  then have "open_store q os (Some c) d = (Inr \<lparr>cs_name = Some c\<rparr>, e)"
    using assms(1) by (simp add: open_store_def parent_ok_def io_bind_def Let_def)
  moreover note spared = sparesD [OF spares_unlinkat [OF temp_is_other] u]
  ultimately show thesis using that spared by blast
qed

lemma open_journal_works:
  assumes "site_ok S (c, p, j)" and "sound os" and "dir_live d j = None \<or> recorded S v (dir_live d j)"
  shows "open_journal (st_profile_parent S) os (pa_metadata (st_paths S)) d = (Inr j, d)"
proof -
  have "open_target j os d = (Inr (dir_live d j), d)"
    using assms(2,3)
    by (auto simp: open_target_def open_read_def verify_journal_handle_def io_bind_def call_def recorded_def sound_def)
  then show ?thesis
    using assms(1) by (simp add: open_journal_def io_bind_def reject_target_substitution_def parent_ok_def)
qed

lemma load_record_works:
  assumes codec: "codec_round_trip (st_journal_codec S)" "\<And>v bytes. jc_to_vec (st_journal_codec S) v = Inr bytes \<Longrightarrow> bytes \<noteq> []"
    and "sound os"
  shows "dir_live d j = None \<Longrightarrow> load_record (st_url S) (st_journal_codec S) j os d = (Inr None, d)"
    and "recorded S v (dir_live d j) \<Longrightarrow> load_record (st_url S) (st_journal_codec S) j os d = (Inr (Some v), d)"
proof -
  show "dir_live d j = None \<Longrightarrow> load_record (st_url S) (st_journal_codec S) j os d = (Inr None, d)"
    using assms(3) by (simp add: load_record_def open_target_def open_read_def io_bind_def call_def sound_def)
  assume "recorded S v (dir_live d j)"
  then obtain bytes m where n: "dir_live d j = Some (Regular bytes True m)" "jc_to_vec (st_journal_codec S) v = Inr bytes"
      "length bytes \<le> MAX_JOURNAL_BYTES" "validate_record (st_url S) v = Inr ()" "m mod 512 = 384"
    by (auto simp: recorded_def)
  then have "jc_from_slice (st_journal_codec S) bytes = Inr v" "bytes \<noteq> []" using codec by (auto simp: codec_round_trip_def)
  with n assms(3) show "load_record (st_url S) (st_journal_codec S) j os d = (Inr (Some v), d)"
    by (simp add: load_record_def open_target_def open_read_def read_bytes_def verify_journal_handle_def io_bind_def call_def sound_def)
qed

text \<open>Cleaning up on a system that works removes what is left.\<close>

definition cleared :: "string \<times> string \<times> string \<Rightarrow> disk \<Rightarrow> bool" where
  "cleared names d = (case names of (c, p, j) \<Rightarrow>
     dir_live (dk_credentials d) c = None \<and> dir_live (dk_profiles d) p = None \<and> dir_live (dk_profiles d) j = None)"

lemma removal_works:
  assumes "sound os" and "\<And>a b. dir_live d name \<noteq> Some (Directory a b)"
  obtains e where "clear \<lparr>cs_name = Some name\<rparr> os d = (Inr (), e)" "remove_with_fault name os NoJournalFault d = (Inr (), e)"
    "dir_live e name = None" "\<And>other. other \<noteq> name \<Longrightarrow> dir_live e other = dir_live d other"
    "dir_live d name \<noteq> None \<Longrightarrow> dir_past e = []"
    "entry_in name (\<lambda>n. n = dir_live d name) d \<Longrightarrow> entry_in name (\<lambda>n. n = None) e"
proof (cases "dir_live d name")
  case None
  then show thesis using assms(1) by (intro that [of d]) (simp_all add: clear_def remove_with_fault_def unlinkat_def call_def io_bind_def sound_def)
next
  case (Some n)
  let ?e = "(relink ((dir_live d)(name := None)) d)\<lparr>dir_past := []\<rparr>"
  have "unlinkat os name d = (Inr (), relink ((dir_live d)(name := None)) d)"
    using Some assms by (cases n) (simp_all add: unlinkat_def call_def sound_def)
  then show thesis
    using assms(1) by (intro that [of ?e]) (simp_all add: clear_def remove_with_fault_def io_bind_def sync_dir_def call_def sound_def relink_def entry_in_def)
qed

lemma clear_profile_works:
  assumes "parent_ok q" and "sound os" and n: "dir_live d p = None \<or> (\<exists>b s m. dir_live d p = Some (Regular b s m))"
  obtains e where "clear_profile q (Some p) os d = (Inr (), e)" "dir_live e p = None"
    "\<And>other. other \<noteq> p \<Longrightarrow> dir_live e other = dir_live d other"
    "dir_past d = [] \<or> dir_live d p \<noteq> None \<Longrightarrow> dir_past e = []"
proof (cases "dir_live d p")
  case None
  then show thesis by (intro that [of d]) (simp_all add: clear_profile_def path_exists_def)
next
  case (Some n)
  let ?e = "(relink ((dir_live d)(p := None)) d)\<lparr>dir_past := []\<rparr>"
  have "clear_profile q (Some p) os d = (Inr (), ?e)"
    using Some n assms(1,2)
    by (auto simp: clear_profile_def path_exists_def reject_symlink_def lstat_not_link_def unlinkat_def sync_dir_def
        call_def io_bind_def sound_def parent_ok_def relink_def)
  then show thesis by (intro that [of ?e]) (simp_all add: relink_def)
qed

lemma cleanup_works:
  assumes site: "site_ok S (c, p, j)" and sys: "\<And>n. sound (sys n)"
    and c: "dir_live (dk_credentials d) c = None \<or> (\<exists>b s m. dir_live (dk_credentials d) c = Some (Regular b s m))"
    and p: "dir_live (dk_profiles d) p = None \<or> (\<exists>b s m. dir_live (dk_profiles d) p = Some (Regular b s m))"
    and j: "recorded S v (dir_live (dk_profiles d) j)"
  obtains d' where "cleanup_confirmed_leave S (\<lambda>_. Inr ()) sys \<lparr>cs_name = Some c\<rparr> j d = (Inr (), d')" "cleared (c, p, j) d'"
    "entry_in c (\<lambda>n. n = dir_live (dk_credentials d) c) (dk_credentials d) \<Longrightarrow>
       holds (c, p, j) (\<lambda>n. n = None) (\<lambda>n. n = None) (\<lambda>n. n = None) d'"
proof -
  have names: "st_metadata_name S = Some p" "j \<noteq> p" "parent_ok (st_profile_parent S)" using site by auto
  obtain e where one: "clear \<lparr>cs_name = Some c\<rparr> (sys 0) (dk_credentials d) = (Inr (), e)" "dir_live e c = None"
      "entry_in c (\<lambda>n. n = dir_live (dk_credentials d) c) (dk_credentials d) \<Longrightarrow> entry_in c (\<lambda>n. n = None) e"
    by (rule removal_works [OF sys, of "dk_credentials d" c 0]) (use c in auto)
  obtain f where two: "clear_profile (st_profile_parent S) (Some p) (sys 1) (dk_profiles d) = (Inr (), f)" "dir_live f p = None"
      "\<And>other. other \<noteq> p \<Longrightarrow> dir_live f other = dir_live (dk_profiles d) other"
    by (rule clear_profile_works [OF names(3) sys p]) blast
  have rec: "\<exists>b s m. dir_live f j = Some (Regular b s m)" using two(3) [OF names(2)] j by (auto simp: recorded_def)
  then have dir: "dir_live f j \<noteq> Some (Directory a b)" for a b by auto
  obtain g where three: "remove_with_fault j (sys 2) NoJournalFault f = (Inr (), g)" "dir_live g j = None"
      "\<And>other. other \<noteq> j \<Longrightarrow> dir_live g other = dir_live f other" "dir_past g = []"
    by (rule removal_works [OF sys dir, of 2]) (use rec in auto)
  let ?d = "d\<lparr>dk_credentials := e, dk_profiles := g\<rparr>"
  have "cleanup_confirmed_leave S (\<lambda>_. Inr ()) sys \<lparr>cs_name = Some c\<rparr> j d = (Inr (), ?d)"
    by (simp add: cleanup_confirmed_leave_def then_do_def on_credentials_def on_profiles_def names(1) one(1) two(1) [unfolded One_nat_def] three(1))
  then show thesis
    using one(2,3) two(2) three names(2) by (intro that [of ?d]) (simp_all add: cleared_def holds_def entry_in_def)
qed

lemma store_journal_works:
  assumes "sound os" and j: "dir_live d j = None \<or> recorded S v (dir_live d j)"
    and fresh: "dir_live d (''.'' @ j @ ''.tmp-'' @ concat (map hex_byte suffix)) = None"
    and k: "jc_to_vec (st_journal_codec S) k = Inr bytes" "length bytes \<le> MAX_JOURNAL_BYTES" "validate_record (st_url S) k = Inr ()"
    and other: "take 1 p \<noteq> ''.''" "p \<noteq> j"
  obtains e where "store_journal_with_fault (st_url S) (st_journal_codec S) j os k (NoJournalFault, Inr suffix) d = (Inr (), e)"
    "recorded S k (dir_live e j)" "dir_live e p = dir_live d p"
proof -
  let ?temp = "''.'' @ j @ ''.tmp-'' @ concat (map hex_byte suffix)"
  have temp: "?temp \<noteq> j" "?temp \<noteq> p" using journal_temp_is_other other(1) by auto
  obtain q where "reject_target_substitution j os d = (Inr (), d)"
    using assms(1) j
    by (auto simp: reject_target_substitution_def open_target_def open_read_def verify_journal_handle_def io_bind_def
        call_def recorded_def sound_def)
  moreover have reg: "dir_live d j = None \<or> (\<exists>b s m. dir_live d j = Some (Regular b s m))"
    using j by (auto simp: recorded_def)
  have "\<exists>e. store_unix j (NoJournalFault, Inr suffix) os bytes d = (Inr (), e)
      \<and> dir_live e j = Some (Regular bytes True (os_mode os)) \<and> dir_live e p = dir_live d p"
    using assms(1) reg fresh temp other(2)
    by (auto simp: store_unix_def Let_def temp_name_def io_bind_def create_excl_def write_all_def sync_file_def renameat_def
        sync_dir_def call_def relink_def sound_def)
  then obtain e where "store_unix j (NoJournalFault, Inr suffix) os bytes d = (Inr (), e)"
      "dir_live e j = Some (Regular bytes True (os_mode os))" "dir_live e p = dir_live d p" by blast
  ultimately show thesis
    using k assms(1) by (intro that [of e]) (auto simp: store_journal_with_fault_def io_bind_def recorded_def sound_def not_less)
qed

lemma to_millis_eq: "to_millis now = now div 1000000 * 1000000"
proof -
  have "nanosecond now div 1000000 * 1000000 = nanosecond now - nanosecond now mod 1000000"
    by (simp add: minus_mod_eq_div_mult)
  moreover have "nanosecond now mod 1000000 = now mod 1000000"
    by (simp add: nanosecond_def mod_mod_cancel)
  ultimately show ?thesis by (simp add: to_millis_def minus_mod_eq_div_mult)
qed

lemma to_millis_mono: "now \<le> later \<Longrightarrow> to_millis now \<le> to_millis later"
  by (simp add: to_millis_eq zdiv_mono1)

text \<open>An intent of the system issuer, and its confirmation by a later clock.\<close>

lemma system_intent:
  assumes "ji_intent (SystemJournalIssuer U r now later) profile = Inr i"
  shows "lj_phase i = Intent" and "lj_created_at i = ApiTimestamp (to_millis now)" and "validate_journal U i profile = Inr ()"
  using assms by (auto simp: SystemJournalIssuer_def issuer_now_def to_millis_ok intent_def Let_def result_simps)

lemma system_confirm:
  assumes i: "ji_intent (SystemJournalIssuer U r now later) profile = Inr i"
    and k: "ji_confirm (SystemJournalIssuer U r' now' later') i = Inr k"
  shows "lj_phase k = Confirmed" and "validate_record U k = Inr () \<Longrightarrow> validate_journal U k profile = Inr ()"
    and "now \<le> later' \<Longrightarrow> validate_record U k = Inr ()"
proof -
  have k': "k = i\<lparr>lj_phase := Confirmed, lj_confirmed_at := Some (ApiTimestamp (to_millis later'))\<rparr>"
    using k by (auto simp: SystemJournalIssuer_def issuer_now_def to_millis_ok confirmed_def result_simps)
  note facts = system_intent [OF i]
  show "lj_phase k = Confirmed" by (simp add: k')
  show "validate_record U k = Inr () \<Longrightarrow> validate_journal U k profile = Inr ()"
    using facts(3) by (auto simp: validate_journal_def result_simps k')
  show "validate_record U k = Inr ()" if "now \<le> later'"
    using facts to_millis_mono [OF that]
    by (auto simp: validate_journal_def validate_record_def result_simps Let_def k' less_ApiTimestamp_def split: option.splits)
qed

lemma system_confirm_ok:
  assumes "ji_intent (SystemJournalIssuer U r now later) profile = Inr i"
  shows "\<exists>k. ji_confirm (SystemJournalIssuer U r' now' later') i = Inr k"
  using system_intent(1) [OF assms]
  by (simp add: SystemJournalIssuer_def issuer_now_def to_millis_ok confirmed_def)

text \<open>A disk and a system on which a profile can be started.\<close>

definition startable ::
  "session_site \<Rightarrow> string \<times> string \<times> string \<Rightarrow> ProfileBinding \<Rightarrow> (nat \<Rightarrow> os) \<Rightarrow> disk \<Rightarrow> bool" where
  "startable S names profile sys d \<longleftrightarrow> site_ok S names \<and> codec_round_trip (st_journal_codec S)
     \<and> (\<forall>v bytes. jc_to_vec (st_journal_codec S) v = Inr bytes \<longrightarrow> bytes \<noteq> [])
     \<and> validate_binding (st_url S) profile = Inr () \<and> (\<forall>n. sound (sys n))
     \<and> (\<forall>a b. dir_live (dk_credentials d) (''.'' @ fst names @ ''.credential-tmp-'') \<noteq> Some (Directory a b))"

definition binding_of :: "ProfileBinding \<Rightarrow> CredentialBinding" where
  "binding_of b = \<lparr>cb_relay_origin = pb_relay_origin b, cb_profile = pb_profile b, cb_squad_id = pb_squad_id b,
     cb_member_id = pb_member_id b\<rparr>"

lemma start_opens:
  assumes start: "startable S (c, p, j) profile sys d"
    and j: "dir_live (dk_profiles d) j = None \<and> pending = None
      \<or> (\<exists>v. recorded S v (dir_live (dk_profiles d) j) \<and> validate_journal (st_url S) v profile = Inr () \<and> pending = Some v)"
  obtains e where "dir_live e c = dir_live (dk_credentials d) c" "\<And>A. entry_in c A (dk_credentials d) \<Longrightarrow> entry_in c A e"
    "on_credentials (open_store (st_credential_parent S) (sys 0) (st_credential_name S)) d
       = (Inr \<lparr>cs_name = Some c\<rparr>, d\<lparr>dk_credentials := e\<rparr>)"
    "on_profiles (open_journal (st_profile_parent S) (sys 1) (pa_metadata (st_paths S))) (d\<lparr>dk_credentials := e\<rparr>)
       = (Inr j, d\<lparr>dk_credentials := e\<rparr>)"
    "on_profiles (load_journal (st_url S) (st_journal_codec S) j (sys 2) profile) (d\<lparr>dk_credentials := e\<rparr>)
       = (Inr pending, d\<lparr>dk_credentials := e\<rparr>)"
proof -
  have site: "site_ok S (c, p, j)" and codec: "codec_round_trip (st_journal_codec S)"
      "\<And>v bytes. jc_to_vec (st_journal_codec S) v = Inr bytes \<Longrightarrow> bytes \<noteq> []"
    and sys: "\<And>n. sound (sys n)"
    and temp: "\<And>a b. dir_live (dk_credentials d) (''.'' @ c @ ''.credential-tmp-'') \<noteq> Some (Directory a b)"
    using start unfolding startable_def fst_conv by blast+
  have parent: "parent_ok (st_credential_parent S)" and name: "st_credential_name S = Some c" using site by auto
  obtain e where e: "open_store (st_credential_parent S) (sys 0) (Some c) (dk_credentials d) = (Inr \<lparr>cs_name = Some c\<rparr>, e)"
      "dir_live e c = dir_live (dk_credentials d) c" "\<And>A. entry_in c A (dk_credentials d) \<Longrightarrow> entry_in c A e"
    by (rule open_store_works [OF parent sys [of 0] temp]) blast
  have journal: "open_journal (st_profile_parent S) (sys 1) (pa_metadata (st_paths S)) (dk_profiles d) = (Inr j, dk_profiles d)"
    using j open_journal_works [OF site sys] by blast
  have loaded: "load_journal (st_url S) (st_journal_codec S) j (sys 2) profile (dk_profiles d) = (Inr pending, dk_profiles d)"
    using j load_record_works [OF codec sys [of 2], where d = "dk_profiles d" and j = j]
    by (elim disjE exE conjE) (simp_all add: load_journal_def io_bind_def)
  show thesis
    by (rule that [OF e(2,3)]) (simp_all add: on_credentials_def on_profiles_def e(1) name journal [unfolded One_nat_def] loaded)
qed

lemma start_confirmed_cleans:
  assumes start: "startable S (c, p, j) profile sys d" and profile: "rp_profile spec = profile"
    and j: "recorded S v (dir_live (dk_profiles d) j)" "validate_journal (st_url S) v profile = Inr ()" "lj_phase v = Confirmed"
    and c: "dir_live (dk_credentials d) c = None \<or> (\<exists>b s m. dir_live (dk_credentials d) c = Some (Regular b s m))"
    and p: "dir_live (dk_profiles d) p = None \<or> (\<exists>b s m. dir_live (dk_profiles d) p = Some (Regular b s m))"
  obtains d' where "start_locked S spec now relay random sys d = (Inl Unbound, d')" "cleared (c, p, j) d'"
    "entry_in c (\<lambda>n. n = dir_live (dk_credentials d) c) (dk_credentials d) \<Longrightarrow>
       holds (c, p, j) (\<lambda>n. n = None) (\<lambda>n. n = None) (\<lambda>n. n = None) d'"
proof -
  obtain e where e: "dir_live e c = dir_live (dk_credentials d) c" "\<And>A. entry_in c A (dk_credentials d) \<Longrightarrow> entry_in c A e"
    and open1: "on_credentials (open_store (st_credential_parent S) (sys 0) (st_credential_name S)) d
       = (Inr \<lparr>cs_name = Some c\<rparr>, d\<lparr>dk_credentials := e\<rparr>)"
    and open2: "on_profiles (open_journal (st_profile_parent S) (sys 1) (pa_metadata (st_paths S))) (d\<lparr>dk_credentials := e\<rparr>)
       = (Inr j, d\<lparr>dk_credentials := e\<rparr>)"
    and pending: "on_profiles (load_journal (st_url S) (st_journal_codec S) j (sys 2) profile) (d\<lparr>dk_credentials := e\<rparr>)
       = (Inr (Some v), d\<lparr>dk_credentials := e\<rparr>)"
    by (rule start_opens [OF start, where pending = "Some v"]) (use j in auto)
  have site: "site_ok S (c, p, j)" and sys: "\<And>n. sound (sys n)" and valid: "validate_binding (st_url S) profile = Inr ()"
    using start unfolding startable_def by blast+
  obtain d' where "cleanup_confirmed_leave S (\<lambda>_. Inr ()) (\<lambda>n. sys (8 + n)) \<lparr>cs_name = Some c\<rparr> j (d\<lparr>dk_credentials := e\<rparr>) = (Inr (), d')"
      "cleared (c, p, j) d'" "entry_in c (\<lambda>n. n = dir_live e c) e \<Longrightarrow>
        holds (c, p, j) (\<lambda>n. n = None) (\<lambda>n. n = None) (\<lambda>n. n = None) d'"
    by (rule cleanup_works [OF site, of "\<lambda>n. sys (8 + n)" "d\<lparr>dk_credentials := e\<rparr>" v]) (use sys c p j e in auto)
  then show thesis
    using open2 j(3) e
    by (intro that [of d'])
      (simp_all add: start_locked_def start_locked_with_def then_do_def failing_def profile open1 pending
        profile_has_credential_binding [OF valid])
qed

text \<open>The heartbeat that a start sends, and the answers that tell it the membership is gone.\<close>

definition first_beat :: HeartbeatRequest where
  "first_beat = \<lparr>hq_availability = AvailabilityDto.Unknown, hq_availability_source = AvailabilitySourceDto.Unknown\<rparr>"

definition gone :: "Error \<Rightarrow> bool" where
  "gone e \<longleftrightarrow> api_code e \<in> {Some ApiErrorCode.NotMember, Some ApiErrorCode.SquadArchived}"

lemma start_member_keeps:
  assumes start: "startable S (c, p, j) profile sys d" and profile: "rp_profile spec = profile"
    and j: "dir_live (dk_profiles d) j = None \<and> pending = None
      \<or> (\<exists>v. recorded S v (dir_live (dk_profiles d) j) \<and> validate_journal (st_url S) v profile = Inr () \<and> pending = Some v \<and> lj_phase v = Intent)"
    and loads: "\<And>e. dir_live e c = dir_live (dk_credentials d) c \<Longrightarrow> fst (load (st_store S) \<lparr>cs_name = Some c\<rparr> (sys 3) (binding_of profile) e) = Inr credential"
    and beats: "ra_heartbeat relay first_beat credential = Inr beat"
  obtains runtime d' where "start_locked S spec now relay random sys d = (Inr runtime, d')" "sh_credential (sd_shared runtime) = credential"
    "dir_live (dk_credentials d') c = dir_live (dk_credentials d) c" "dir_live (dk_profiles d') p = dir_live (dk_profiles d) p"
    "dir_live (dk_profiles d') j = None"
proof -
  obtain e where e: "dir_live e c = dir_live (dk_credentials d) c" "\<And>A. entry_in c A (dk_credentials d) \<Longrightarrow> entry_in c A e"
    and open1: "on_credentials (open_store (st_credential_parent S) (sys 0) (st_credential_name S)) d
       = (Inr \<lparr>cs_name = Some c\<rparr>, d\<lparr>dk_credentials := e\<rparr>)"
    and open2: "on_profiles (open_journal (st_profile_parent S) (sys 1) (pa_metadata (st_paths S))) (d\<lparr>dk_credentials := e\<rparr>)
       = (Inr j, d\<lparr>dk_credentials := e\<rparr>)"
    and loaded: "on_profiles (load_journal (st_url S) (st_journal_codec S) j (sys 2) profile) (d\<lparr>dk_credentials := e\<rparr>)
       = (Inr pending, d\<lparr>dk_credentials := e\<rparr>)"
    by (rule start_opens [OF start, where pending = pending]) (use j in auto)
  have sys: "\<And>n. sound (sys n)" and valid: "validate_binding (st_url S) profile = Inr ()" and names: "p \<noteq> j"
    using start unfolding startable_def by auto
  have "load (st_store S) \<lparr>cs_name = Some c\<rparr> (sys 3) (binding_of profile) e = (Inr credential, e)"
    using loads [OF e(1)] load_reads [of "st_store S" c "sys 3" "binding_of profile" e] by (metis prod.collapse)
  then have cred: "on_credentials (load (st_store S) \<lparr>cs_name = Some c\<rparr> (sys 3) (binding_of profile)) (d\<lparr>dk_credentials := e\<rparr>)
      = (Inr credential, d\<lparr>dk_credentials := e\<rparr>)"
    by (simp add: on_credentials_def)
  have not_confirmed: "\<not> (case pending of None \<Rightarrow> False | Some v \<Rightarrow> lj_phase v = Confirmed)" using j by auto
  have dir: "dir_live (dk_profiles d) j \<noteq> Some (Directory a b)" for a b using j by (auto simp: recorded_def)
  obtain f where f: "remove_with_fault j (sys 4) NoJournalFault (dk_profiles d) = (Inr (), f)" "dir_live f j = None"
      "dir_live f p = dir_live (dk_profiles d) p"
    by (rule removal_works [OF sys [of 4] dir]) (use names in auto)
  let ?f = "if pending = None then dk_profiles d else f"
  have removed: "remove_pending pending j (sys 4) (d\<lparr>dk_credentials := e\<rparr>) = (Inr (), d\<lparr>dk_credentials := e, dk_profiles := ?f\<rparr>)"
    using f(1) by (simp add: remove_pending_def failing_def on_profiles_def)
  have "\<exists>runtime. start_locked S spec now relay random sys d = (Inr runtime, d\<lparr>dk_credentials := e, dk_profiles := ?f\<rparr>)
      \<and> sh_credential (sd_shared runtime) = credential"
    using open2 not_confirmed
    by (simp add: start_locked_def start_locked_with_def then_do_def failing_def profile open1 loaded cred
        profile_has_credential_binding [OF valid] binding_of_def [symmetric] beats [unfolded first_beat_def] Let_def removed ready_def)
  then show thesis using that e f(2,3) j by (elim exE conjE) (fastforce split: if_splits)
qed

lemma start_postpones:
  assumes start: "startable S (c, p, j) profile sys d" and profile: "rp_profile spec = profile"
    and j: "dir_live (dk_profiles d) j = None \<and> pending = None
      \<or> (\<exists>v. recorded S v (dir_live (dk_profiles d) j) \<and> validate_journal (st_url S) v profile = Inr () \<and> pending = Some v \<and> lj_phase v = Intent)"
    and loads: "\<And>e. dir_live e c = dir_live (dk_credentials d) c \<Longrightarrow> fst (load (st_store S) \<lparr>cs_name = Some c\<rparr> (sys 3) (binding_of profile) e) = Inr credential"
    and fails: "ra_heartbeat relay first_beat credential = Inl err" "api_code err \<noteq> Some ApiErrorCode.LeaseExpired" "gone err \<Longrightarrow> pending = None"
  obtains d' where "start_locked S spec now relay random sys d = (Inl (SessionError.Relay err), d')"
    "dir_live (dk_credentials d') c = dir_live (dk_credentials d) c" "dk_profiles d' = dk_profiles d"
proof -
  obtain e where e: "dir_live e c = dir_live (dk_credentials d) c"
    and open1: "on_credentials (open_store (st_credential_parent S) (sys 0) (st_credential_name S)) d
       = (Inr \<lparr>cs_name = Some c\<rparr>, d\<lparr>dk_credentials := e\<rparr>)"
    and open2: "on_profiles (open_journal (st_profile_parent S) (sys 1) (pa_metadata (st_paths S))) (d\<lparr>dk_credentials := e\<rparr>)
       = (Inr j, d\<lparr>dk_credentials := e\<rparr>)"
    and loaded: "on_profiles (load_journal (st_url S) (st_journal_codec S) j (sys 2) profile) (d\<lparr>dk_credentials := e\<rparr>)
       = (Inr pending, d\<lparr>dk_credentials := e\<rparr>)"
    by (rule start_opens [OF start, where pending = pending]) (use j in auto)
  have valid: "validate_binding (st_url S) profile = Inr ()" using start unfolding startable_def by auto
  have "load (st_store S) \<lparr>cs_name = Some c\<rparr> (sys 3) (binding_of profile) e = (Inr credential, e)"
    using loads [OF e] load_reads [of "st_store S" c "sys 3" "binding_of profile" e] by (metis prod.collapse)
  then have cred: "on_credentials (load (st_store S) \<lparr>cs_name = Some c\<rparr> (sys 3) (binding_of profile)) (d\<lparr>dk_credentials := e\<rparr>)
      = (Inr credential, d\<lparr>dk_credentials := e\<rparr>)"
    by (simp add: on_credentials_def)
  have not_confirmed: "\<not> (case pending of None \<Rightarrow> False | Some v \<Rightarrow> lj_phase v = Confirmed)" using j by auto
  have "start_locked S spec now relay random sys d = (Inl (SessionError.Relay err), d\<lparr>dk_credentials := e\<rparr>)"
    using open2 not_confirmed fails(2,3)
    by (simp add: start_locked_def start_locked_with_def then_do_def failing_def profile open1 loaded cred gone_def
        profile_has_credential_binding [OF valid] binding_of_def [symmetric] fails(1) [unfolded first_beat_def] Let_def split: option.splits)
  then show thesis using that e by simp
qed

lemma start_intent_finishes:
  assumes start: "startable S (c, p, j) profile sys d" and profile: "rp_profile spec = profile"
    and i: "ji_intent (SystemJournalIssuer (st_url S) r now0 later0) profile = Inr i" and j: "recorded S i (dir_live (dk_profiles d) j)"
    and loads: "\<And>e. dir_live e c = dir_live (dk_credentials d) c \<Longrightarrow> fst (load (st_store S) \<lparr>cs_name = Some c\<rparr> (sys 3) (binding_of profile) e) = Inr credential"
    and gone: "ra_heartbeat relay first_beat credential = Inl err" "gone err"
    and later: "now0 \<le> now" and suffix: "dir_live (dk_profiles d) (''.'' @ j @ ''.tmp-'' @ concat (map hex_byte suffix)) = None"
    and fits: "\<And>k. ji_confirm (SystemJournalIssuer (st_url S) (Inr suffix) now now) i = Inr k \<Longrightarrow>
      \<exists>bytes. jc_to_vec (st_journal_codec S) k = Inr bytes \<and> length bytes \<le> MAX_JOURNAL_BYTES"
    and c: "\<exists>b s m. dir_live (dk_credentials d) c = Some (Regular b s m)"
    and p: "\<exists>b s m. dir_live (dk_profiles d) p = Some (Regular b s m)"
  obtains d' where "start_locked S spec now relay (Inr suffix) sys d = (Inl Unbound, d')" "cleared (c, p, j) d'"
    "entry_in c (\<lambda>n. n = dir_live (dk_credentials d) c) (dk_credentials d) \<Longrightarrow>
       holds (c, p, j) (\<lambda>n. n = None) (\<lambda>n. n = None) (\<lambda>n. n = None) d'"
proof -
  obtain e where e: "dir_live e c = dir_live (dk_credentials d) c" "\<And>A. entry_in c A (dk_credentials d) \<Longrightarrow> entry_in c A e"
    and open1: "on_credentials (open_store (st_credential_parent S) (sys 0) (st_credential_name S)) d
       = (Inr \<lparr>cs_name = Some c\<rparr>, d\<lparr>dk_credentials := e\<rparr>)"
    and open2: "on_profiles (open_journal (st_profile_parent S) (sys 1) (pa_metadata (st_paths S))) (d\<lparr>dk_credentials := e\<rparr>)
       = (Inr j, d\<lparr>dk_credentials := e\<rparr>)"
    and loaded: "on_profiles (load_journal (st_url S) (st_journal_codec S) j (sys 2) profile) (d\<lparr>dk_credentials := e\<rparr>)
       = (Inr (Some i), d\<lparr>dk_credentials := e\<rparr>)"
    by (rule start_opens [OF start, where pending = "Some i"]) (use j system_intent(3) [OF i] in auto)
  have site: "site_ok S (c, p, j)" and sys: "\<And>n. sound (sys n)" and valid: "validate_binding (st_url S) profile = Inr ()"
    using start unfolding startable_def by auto
  have "load (st_store S) \<lparr>cs_name = Some c\<rparr> (sys 3) (binding_of profile) e = (Inr credential, e)"
    using loads [OF e(1)] load_reads [of "st_store S" c "sys 3" "binding_of profile" e] by (metis prod.collapse)
  then have cred: "on_credentials (load (st_store S) \<lparr>cs_name = Some c\<rparr> (sys 3) (binding_of profile)) (d\<lparr>dk_credentials := e\<rparr>)
      = (Inr credential, d\<lparr>dk_credentials := e\<rparr>)"
    by (simp add: on_credentials_def)
  obtain k where k: "ji_confirm (SystemJournalIssuer (st_url S) (Inr suffix) now now) i = Inr k"
    using system_confirm_ok [OF i] by blast
  obtain bytes where bytes: "jc_to_vec (st_journal_codec S) k = Inr bytes" "length bytes \<le> MAX_JOURNAL_BYTES" using fits [OF k] by blast
  have other: "take 1 p \<noteq> ''.''" "p \<noteq> j" using site by auto
  obtain f where f: "store_journal_with_fault (st_url S) (st_journal_codec S) j (sys 6) k (NoJournalFault, Inr suffix) (dk_profiles d) = (Inr (), f)"
      "recorded S k (dir_live f j)" "dir_live f p = dir_live (dk_profiles d) p"
    by (rule store_journal_works [OF sys [of 6] _ suffix bytes system_confirm(3) [OF i k later] other]) (use j in blast)
  have stored: "on_profiles (store_journal_with_fault (st_url S) (st_journal_codec S) j (sys 6) k (NoJournalFault, Inr suffix))
      (d\<lparr>dk_credentials := e\<rparr>) = (Inr (), d\<lparr>dk_credentials := e, dk_profiles := f\<rparr>)"
    by (simp add: on_profiles_def f(1))
  obtain d' where "cleanup_confirmed_leave S (\<lambda>_. Inr ()) (\<lambda>n. sys (8 + n)) \<lparr>cs_name = Some c\<rparr> j (d\<lparr>dk_credentials := e, dk_profiles := f\<rparr>) = (Inr (), d')"
      "cleared (c, p, j) d'" "entry_in c (\<lambda>n. n = dir_live e c) e \<Longrightarrow>
        holds (c, p, j) (\<lambda>n. n = None) (\<lambda>n. n = None) (\<lambda>n. n = None) d'"
    by (rule cleanup_works [OF site, of "\<lambda>n. sys (8 + n)" "d\<lparr>dk_credentials := e, dk_profiles := f\<rparr>" k]) (use sys c p e f in auto)
  then show thesis
    using open2 system_intent(1) [OF i] e gone [unfolded gone_def first_beat_def]
    by (intro that [of d'])
      (auto simp: start_locked_def start_locked_with_def then_do_def failing_def profile open1 loaded cred
        stored k profile_has_credential_binding [OF valid] binding_of_def [symmetric] Let_def)
qed

lemma profile_binding_stable:
  assumes "validate_binding U b = Inr ()"
  shows "ProfileBinding_new U (pb_profile b) (pb_relay_origin b) (pb_squad_name b) (pb_squad_id b) (pb_member_id b) = Inr b"
  using assms by (auto simp: ProfileBinding_new_def validate_binding_def result_simps Let_def)

lemma orphan_recovers:
  assumes start: "startable S (c, p, j) profile sys d"
    and origin: "canonical_relay_origin (st_url S) relay_origin = Inr (pb_relay_origin profile)"
    and temp: "\<And>n. sound (sys n)" and c: "dir_live (dk_credentials d) c = None" and p: "dir_live (dk_profiles d) p = None"
    and j: "dir_live (dk_profiles d) j = None
      \<or> (\<exists>v. recorded S v (dir_live (dk_profiles d) j) \<and> validate_journal (st_url S) v profile = Inr () \<and> lj_phase v = Confirmed)"
  obtains b d' where "recover_orphaned_leave S (Inr ()) relay_origin (pb_profile profile) sys d = (Inr b, d')" "cleared (c, p, j) d'"
    "entry_in c (\<lambda>n. n = None) (dk_credentials d) \<Longrightarrow> dir_past (dk_profiles d) = [] \<Longrightarrow>
       holds (c, p, j) (\<lambda>n. n = None) (\<lambda>n. n = None) (\<lambda>n. n = None) d'"
proof -
  have site: "site_ok S (c, p, j)" and codec: "codec_round_trip (st_journal_codec S)"
      "\<And>v bytes. jc_to_vec (st_journal_codec S) v = Inr bytes \<Longrightarrow> bytes \<noteq> []"
    and sys: "\<And>n. sound (sys n)" and valid: "validate_binding (st_url S) profile = Inr ()"
    and temp: "\<And>a b. dir_live (dk_credentials d) (''.'' @ c @ ''.credential-tmp-'') \<noteq> Some (Directory a b)"
    using start unfolding startable_def fst_conv by blast+
  have parents: "parent_ok (st_credential_parent S)" "pd_present (st_profile_parent S)"
    and names: "st_credential_name S = Some c" "st_metadata_name S = Some p" using site by (auto simp: parent_ok_def)
  have metadata: "on_profiles (load_profile (st_url S) (st_profile_codec S) (st_profile_parent S) (Some p) (sys 0)) d = (Inr None, d)"
    by (simp add: on_profiles_def load_profile_absent [OF p])
  have opened: "on_profiles (open_journal (st_profile_parent S) (sys 1) (pa_metadata (st_paths S))) d = (Inr j, d)"
  proof -
    have "open_journal (st_profile_parent S) (sys 1) (pa_metadata (st_paths S)) (dk_profiles d) = (Inr j, dk_profiles d)"
      using open_journal_works [OF site sys [of 1]] j by blast
    then show ?thesis by (simp add: on_profiles_def)
  qed
  have loaded: "dir_live (dk_profiles d) j = None \<Longrightarrow> load_record (st_url S) (st_journal_codec S) j (sys 2) (dk_profiles d) = (Inr None, dk_profiles d)"
      "recorded S v (dir_live (dk_profiles d) j) \<Longrightarrow>
         load_record (st_url S) (st_journal_codec S) j (sys 2) (dk_profiles d) = (Inr (Some v), dk_profiles d)" for v
    using load_record_works [OF codec(1) _ sys [of 2]] codec(2) by blast+
  from j show thesis
  proof (elim disjE exE conjE)
    assume none: "dir_live (dk_profiles d) j = None"
    then have "on_profiles (load_for_profile_key (st_url S) (st_journal_codec S) j (sys 2) relay_origin (pb_profile profile)) d = (Inr None, d)"
      using loaded(1) origin by (simp add: on_profiles_def load_for_profile_key_def io_bind_def)
    then show thesis
      using opened none c p
      by (intro that [of False d])
        (simp_all add: recover_orphaned_leave_def parents names metadata then_do_def failing_def cleared_def holds_def entry_in_def)
  next
    fix v assume v: "recorded S v (dir_live (dk_profiles d) j)" "validate_journal (st_url S) v profile = Inr ()" "lj_phase v = Confirmed"
    have same: "lj_relay_origin v = pb_relay_origin profile" "lj_profile v = pb_profile profile" "lj_squad_name v = pb_squad_name profile"
        "lj_squad_id v = pb_squad_id profile" "lj_member_id v = pb_member_id profile"
      using v(2) by (auto simp: validate_journal_def result_simps)
    have found: "on_profiles (load_for_profile_key (st_url S) (st_journal_codec S) j (sys 2) relay_origin (pb_profile profile)) d
        = (Inr (Some (v, profile)), d)"
      using loaded(2) [OF v(1)] origin v(2) profile_binding_stable [OF valid]
      by (simp add: on_profiles_def load_for_profile_key_def io_bind_def same)
    obtain e where e: "open_store (st_credential_parent S) (sys 3) (Some c) (dk_credentials d) = (Inr \<lparr>cs_name = Some c\<rparr>, e)"
        "dir_live e c = dir_live (dk_credentials d) c" "\<And>A. entry_in c A (dk_credentials d) \<Longrightarrow> entry_in c A e"
      by (rule open_store_works [OF parents(1) sys [of 3] temp]) blast
    have reopened: "on_credentials (open_store (st_credential_parent S) (sys 3) (Some c)) d = (Inr \<lparr>cs_name = Some c\<rparr>, d\<lparr>dk_credentials := e\<rparr>)"
      by (simp add: on_credentials_def e(1))
    obtain d' where "cleanup_confirmed_leave S (\<lambda>_. Inr ()) (\<lambda>n. sys (4 + n)) \<lparr>cs_name = Some c\<rparr> j (d\<lparr>dk_credentials := e\<rparr>) = (Inr (), d')"
        "cleared (c, p, j) d'" "entry_in c (\<lambda>n. n = dir_live e c) e \<Longrightarrow>
          holds (c, p, j) (\<lambda>n. n = None) (\<lambda>n. n = None) (\<lambda>n. n = None) d'"
      by (rule cleanup_works [OF site, of "\<lambda>n. sys (4 + n)" "d\<lparr>dk_credentials := e\<rparr>" v]) (use sys c p v e in auto)
    then show thesis
      using opened v(3) c e(2,3)
      by (intro that [of True d'])
        (simp_all add: recover_orphaned_leave_def parents names metadata found reopened then_do_def failing_def)
  qed
qed

lemma recorded_synced: "synced (recorded S v)" "synced (confirmation_of S issuer i)"
  by (auto simp: synced_def recorded_def confirmation_of_def)

lemma synced_intros:
  "synced (\<lambda>n. n = None)" "synced (\<lambda>n. n = Some (Regular b True m))" "synced P \<Longrightarrow> synced Q \<Longrightarrow> synced (\<lambda>n. P n \<or> Q n)"
  by (auto simp: synced_def)

lemma leaving_crash:
  assumes "disk_crash d d'" and "leaving S names (Some (Regular cb True cm)) (Some (Regular pb True pm)) member unsure i (confirmation_of S issuer i) d"
  shows "leaving S names (Some (Regular cb True cm)) (Some (Regular pb True pm)) member unsure i (confirmation_of S issuer i) d'"
  using assms(2) unfolding leaving_def
  by - (elim disjE conjE; drule holds_crash [OF assms(1)]; simp add: recorded_synced synced_intros)

lemma leaving_live:
  assumes "leaving S (c, p, j) C P member unsure i K d"
  obtains "member" "dir_live (dk_credentials d) c = C" "dir_live (dk_profiles d) p = P"
      "dir_live (dk_profiles d) j = None \<or> recorded S i (dir_live (dk_profiles d) j)"
    | "\<not> member" "unsure" "dir_live (dk_credentials d) c = C" "dir_live (dk_profiles d) p = P" "dir_live (dk_profiles d) j = None"
    | "\<not> member" "dir_live (dk_credentials d) c = C" "dir_live (dk_profiles d) p = P" "recorded S i (dir_live (dk_profiles d) j)"
    | "\<not> member" "dir_live (dk_credentials d) c \<in> {C, None}" "dir_live (dk_profiles d) p = P" "K (dir_live (dk_profiles d) j)"
    | "\<not> member" "dir_live (dk_credentials d) c = None" "dir_live (dk_profiles d) p = None"
      "K (dir_live (dk_profiles d) j) \<or> dir_live (dk_profiles d) j = None"
proof -
  have live: "A (dir_live (dk_credentials d) c)" "B (dir_live (dk_profiles d) p)" "D (dir_live (dk_profiles d) j)"
    if "holds (c, p, j) A B D d" for A B D
    using that by (simp_all add: holds_def entry_in_live)
  from assms [unfolded leaving_def] show thesis
  proof (elim disjE conjE)
    assume "holds (c, p, j) (\<lambda>n. n = C) (\<lambda>n. n = P) (\<lambda>n. n = None \<or> recorded S i n) d" "member"
    with live [OF this(1)] show thesis using that(1) by simp
  next
    assume "holds (c, p, j) (\<lambda>n. n = C) (\<lambda>n. n = P) (\<lambda>n. n = None \<or> recorded S i n) d" "unsure"
    with live [OF this(1)] show thesis using that(1,2,3) by (cases member) auto
  next
    assume "holds (c, p, j) (\<lambda>n. n = C) (\<lambda>n. n = P) (recorded S i) d"
    with live [OF this] show thesis using that(1,3) by (cases member) simp_all
  next
    assume "\<not> member" "holds (c, p, j) (\<lambda>n. n = C) (\<lambda>n. n = P) (\<lambda>n. recorded S i n \<or> K n) d"
    with live [OF this(2)] show thesis using that(3,4) by (elim disjE) simp_all
  next
    assume "\<not> member" "holds (c, p, j) (\<lambda>n. n = C \<or> n = None) (\<lambda>n. n = P) K d"
    with live [OF this(2)] show thesis using that(4) by simp
  next
    assume "\<not> member" "holds (c, p, j) (\<lambda>n. n = None) (\<lambda>n. n = P \<or> n = None) K d"
    with live [OF this(2)] show thesis using that(4,5) by (elim disjE) simp_all
  next
    assume "\<not> member" "holds (c, p, j) (\<lambda>n. n = None) (\<lambda>n. n = None) (\<lambda>n. K n \<or> n = None) d"
    with live [OF this(2)] show thesis using that(5) by simp
  qed
qed

text \<open>What recovery finds: a credential that loads, a relay that says whether the member is still one.\<close>

definition credential_loads :: "session_site \<Rightarrow> string \<Rightarrow> node option \<Rightarrow> os \<Rightarrow> ProfileBinding \<Rightarrow> ClientCredential \<Rightarrow> bool" where
  "credential_loads S c C os profile credential \<longleftrightarrow>
     (\<forall>e. dir_live e c = C \<longrightarrow> fst (load (st_store S) \<lparr>cs_name = Some c\<rparr> os (binding_of profile) e) = Inr credential)"

text \<open>
  A heartbeat succeeds only for a member, and says so only when it is none; any other failure is possible, except
  that of an ended lease, after which the start goes on to resume the session.
\<close>

definition heartbeat_tells :: "relay_answers \<Rightarrow> ClientCredential \<Rightarrow> bool \<Rightarrow> bool" where
  "heartbeat_tells relay credential member \<longleftrightarrow>
     (case ra_heartbeat relay first_beat credential of
        Inr _ \<Rightarrow> member
      | Inl e \<Rightarrow> (gone e \<longrightarrow> \<not> member) \<and> api_code e \<noteq> Some ApiErrorCode.LeaseExpired)"

text \<open>Every confirmation that recovery may have to write is encodable.\<close>

definition confirmable :: "session_site \<Rightarrow> 8 word list \<Rightarrow> OffsetDateTime \<Rightarrow> LeaveJournal \<Rightarrow> bool" where
  "confirmable S suffix now i \<longleftrightarrow> (\<forall>k. ji_confirm (SystemJournalIssuer (st_url S) (Inr suffix) now now) i = Inr k \<longrightarrow>
     (\<exists>bytes. jc_to_vec (st_journal_codec S) k = Inr bytes \<and> length bytes \<le> MAX_JOURNAL_BYTES))"

text \<open>What the next start does with each of the states; \<open>settled\<close> says that no crash can change them.\<close>

lemma next_start_recovers:
  fixes U r now later
  defines "issuer \<equiv> SystemJournalIssuer U r now later"
  assumes start: "startable S (c, p, j) profile sys d" and U: "U = st_url S" and profile: "rp_profile spec = profile"
    and origin: "canonical_relay_origin U relay_origin = Inr (pb_relay_origin profile)"
    and C: "C = Some (Regular cb True cm)" and P: "P = Some (Regular pb True pm)"
    and i: "ji_intent issuer profile = Inr i" and state: "leaving S (c, p, j) C P member unsure i (confirmation_of S issuer i) d"
    and cred: "credential_loads S c C (sys 3) profile credential" and beat: "heartbeat_tells relay credential member"
    and clock: "now \<le> now'" and suffix: "dir_live (dk_profiles d) (''.'' @ j @ ''.tmp-'' @ concat (map hex_byte suffix)) = None"
    and confirmable: "confirmable S suffix now' i"
  obtains (kept) b runtime d3 where "ra_heartbeat relay first_beat credential = Inr b" "start_locked S spec now' relay (Inr suffix) sys d = (Inr runtime, d3)"
      "sh_credential (sd_shared runtime) = credential" "dir_live (dk_credentials d3) c = C"
      "dir_live (dk_profiles d3) p = P" "dir_live (dk_profiles d3) j = None"
    | (postponed) e d3 where "ra_heartbeat relay first_beat credential = Inl e" "gone e \<Longrightarrow> unsure \<and> dir_live (dk_profiles d) j = None"
      "start_locked S spec now' relay (Inr suffix) sys d = (Inl (SessionError.Relay e), d3)" "dir_live (dk_credentials d3) c = C"
      "dir_live (dk_profiles d3) p = P" "dir_live (dk_profiles d3) j = dir_live (dk_profiles d) j"
    | (finished) d3 where "\<not> member" "cleared (c, p, j) d3"
      "dir_live (dk_profiles d) p = P \<and> start_locked S spec now' relay (Inr suffix) sys d = (Inl Unbound, d3)
        \<or> dir_live (dk_profiles d) p = None \<and> (\<exists>b. recover_orphaned_leave S (Inr ()) relay_origin (pb_profile profile) sys d = (Inr b, d3))"
      "dir_past (dk_credentials d) = [] \<Longrightarrow> dir_past (dk_profiles d) = [] \<Longrightarrow>
        holds (c, p, j) (\<lambda>n. n = None) (\<lambda>n. n = None) (\<lambda>n. n = None) d3"
proof -
  have loads: "\<And>e. dir_live e c = C \<Longrightarrow> fst (load (st_store S) \<lparr>cs_name = Some c\<rparr> (sys 3) (binding_of profile) e) = Inr credential"
    using cred by (simp add: credential_loads_def)
  have i': "ji_intent (SystemJournalIssuer (st_url S) r now later) profile = Inr i" using i U by (simp add: issuer_def)
  note intent = system_intent [OF i']
  have confirmed: "\<exists>k. recorded S k n \<and> validate_journal (st_url S) k profile = Inr () \<and> lj_phase k = Confirmed"
    if K: "confirmation_of S issuer i n" for n
  proof -
    from K obtain k where k: "ji_confirm (SystemJournalIssuer (st_url S) r now later) i = Inr k" "recorded S k n"
      by (auto simp: confirmation_of_def issuer_def U)
    moreover have "validate_record (st_url S) k = Inr ()" using k(2) by (auto simp: recorded_def)
    ultimately show ?thesis using system_confirm(1,2) [OF i' k(1)] by blast
  qed
  have settled: "dir_past (dk_credentials d) = [] \<Longrightarrow> entry_in c (\<lambda>n. n = dir_live (dk_credentials d) c) (dk_credentials d)"
    by (simp add: entry_in_def)
  show thesis
  proof (cases rule: leaving_live [OF state, case_names member unsure intent confirmed orphan])
    case member
    obtain pending where pending: "dir_live (dk_profiles d) j = None \<and> pending = None
        \<or> (\<exists>v. recorded S v (dir_live (dk_profiles d) j) \<and> validate_journal (st_url S) v profile = Inr () \<and> pending = Some v \<and> lj_phase v = Intent)"
      using member(4) intent by blast
    show thesis
    proof (cases "ra_heartbeat relay first_beat credential")
      case (Inr b)
      show thesis
        by (rule start_member_keeps [OF start profile pending _ Inr, of now' "Inr suffix"]) (use member loads kept [OF Inr] in auto)
    next
      case (Inl e)
      then have e: "api_code e \<noteq> Some ApiErrorCode.LeaseExpired" "\<not> gone e" using beat member(1) by (auto simp: heartbeat_tells_def)
      show thesis
        by (rule start_postpones [OF start profile pending _ Inl e(1), of now' "Inr suffix"]) (use e member loads postponed [OF Inl] in auto)
    qed
  next
    case unsure
    then obtain e where e: "ra_heartbeat relay first_beat credential = Inl e" "api_code e \<noteq> Some ApiErrorCode.LeaseExpired"
      using beat by (auto simp: heartbeat_tells_def split: sum.splits)
    show thesis
      by (rule start_postpones [OF start profile disjI1 [OF conjI [OF unsure(5) refl]] _ e, of now' "Inr suffix"])
        (use unsure loads postponed [OF e(1)] in auto)
  next
    case intent': intent
    then obtain e where e: "ra_heartbeat relay first_beat credential = Inl e" "api_code e \<noteq> Some ApiErrorCode.LeaseExpired"
      using beat by (auto simp: heartbeat_tells_def split: sum.splits)
    show thesis
    proof (cases "gone e")
      case True
      obtain d3 where "start_locked S spec now' relay (Inr suffix) sys d = (Inl Unbound, d3)" "cleared (c, p, j) d3"
          "entry_in c (\<lambda>n. n = dir_live (dk_credentials d) c) (dk_credentials d) \<Longrightarrow>
             holds (c, p, j) (\<lambda>n. n = None) (\<lambda>n. n = None) (\<lambda>n. n = None) d3"
        by (rule start_intent_finishes [OF start profile i' intent'(4) _ e(1) True clock suffix])
          (use intent' C P loads confirmable in \<open>auto simp: confirmable_def\<close>)
      then show thesis using finished intent' settled by blast
    next
      case False
      have pending: "dir_live (dk_profiles d) j = None \<and> Some i = None
          \<or> (\<exists>v. recorded S v (dir_live (dk_profiles d) j) \<and> validate_journal (st_url S) v profile = Inr () \<and> Some i = Some v \<and> lj_phase v = Intent)"
        using intent'(4) intent by blast
      show thesis
        by (rule start_postpones [OF start profile pending _ e, of now' "Inr suffix"]) (use False intent' loads postponed [OF e(1)] in auto)
    qed
  next
    case confirmed': confirmed
    from confirmed [OF confirmed'(4)] obtain k where k: "recorded S k (dir_live (dk_profiles d) j)"
      "validate_journal (st_url S) k profile = Inr ()" "lj_phase k = Confirmed" by blast
    obtain d3 where "start_locked S spec now' relay (Inr suffix) sys d = (Inl Unbound, d3)" "cleared (c, p, j) d3"
        "entry_in c (\<lambda>n. n = dir_live (dk_credentials d) c) (dk_credentials d) \<Longrightarrow>
           holds (c, p, j) (\<lambda>n. n = None) (\<lambda>n. n = None) (\<lambda>n. n = None) d3"
      by (rule start_confirmed_cleans [OF start profile k]) (use confirmed' C P in auto)
    then show thesis using finished confirmed' settled by blast
  next
    case orphan
    have j: "dir_live (dk_profiles d) j = None
        \<or> (\<exists>v. recorded S v (dir_live (dk_profiles d) j) \<and> validate_journal (st_url S) v profile = Inr () \<and> lj_phase v = Confirmed)"
      using orphan(4) confirmed by blast
    have sound: "sound (sys n)" for n using start unfolding startable_def by blast
    obtain b d3 where "recover_orphaned_leave S (Inr ()) relay_origin (pb_profile profile) sys d = (Inr b, d3)" "cleared (c, p, j) d3"
        "entry_in c (\<lambda>n. n = None) (dk_credentials d) \<Longrightarrow> dir_past (dk_profiles d) = [] \<Longrightarrow>
           holds (c, p, j) (\<lambda>n. n = None) (\<lambda>n. n = None) (\<lambda>n. n = None) d3"
      by (rule orphan_recovers [OF start _ sound orphan(2,3) j]) (use origin U in auto)
    then show thesis using finished orphan settled by auto
  qed
qed


section \<open>A leave interrupted by a clock set back\<close>

definition sample_profile :: ProfileBinding where
  "sample_profile = \<lparr>pb_version = PROFILE_VERSION, pb_profile = ''default'', pb_relay_origin = ''http://127.0.0.1:7341'',
     pb_squad_name = ''s'', pb_squad_id = ''sqd_1'', pb_member_id = ''mem_1''\<rparr>"

definition sample_intent :: LeaveJournal where
  "sample_intent = \<lparr>lj_version = JOURNAL_VERSION, lj_phase = Intent, lj_relay_origin = ''http://127.0.0.1:7341'',
     lj_profile = ''default'', lj_squad_name = ''s'', lj_squad_id = ''sqd_1'', lj_member_id = ''mem_1'',
     lj_operation_id = ''00'', lj_created_at = ApiTimestamp 0, lj_confirmed_at = None\<rparr>"

definition sample_site :: session_site where
  "sample_site = \<lparr>st_store = sample_store_lib,
     st_profile_codec = \<lparr>jc_to_vec = (\<lambda>_. Inl invalid), jc_from_slice = (\<lambda>_. Inl invalid)\<rparr>,
     st_journal_codec =
       \<lparr>jc_to_vec = (\<lambda>v. if v = sample_intent then Inr ''i''
           else if v = sample_intent\<lparr>lj_phase := Confirmed, lj_confirmed_at := Some (ApiTimestamp 0)\<rparr> then Inr ''k'' else Inl invalid),
        jc_from_slice = (\<lambda>b. if b = ''i'' then Inr sample_intent
           else if b = ''k'' then Inr (sample_intent\<lparr>lj_phase := Confirmed, lj_confirmed_at := Some (ApiTimestamp 0)\<rparr>) else Inl invalid)\<rparr>,
     st_credential_parent = sample_parent, st_profile_parent = sample_parent,
     st_paths = \<lparr>pa_metadata = ''/d/p.json'', pa_credential = ''/s/c'', pa_lock = ''/r/l''\<rparr>\<rparr>"

definition sample_disk :: disk where
  "sample_disk = \<lparr>dk_credentials = \<lparr>dir_live = [''c'' \<mapsto> Regular ''{}'' True 384], dir_past = []\<rparr>,
     dk_profiles = \<lparr>dir_live = [''p.json'' \<mapsto> Regular ''{}'' True 384], dir_past = []\<rparr>\<rparr>"

definition sample_left :: disk where
  "sample_left = sample_disk\<lparr>dk_profiles :=
     \<lparr>dir_live = [''p.json'' \<mapsto> Regular ''{}'' True 384, ''p.leave-v1.json'' \<mapsto> Regular ''i'' True 384], dir_past = []\<rparr>\<rparr>"

definition sample_relay :: relay_answers where
  "sample_relay = \<lparr>ra_heartbeat = (\<lambda>_ _. Inl (Error.Api 403 ApiErrorCode.NotMember False)), ra_resume = (\<lambda>_ _. None)\<rparr>"

lemma sample_journal_names: "file_name ''/d/p.json'' = Some ''p.json''" "file_name ''/s/c'' = Some ''c''"
    "sibling_path ''/d/p.json'' = Inr ''p.leave-v1.json''"
  by (simp_all add: file_name_def sibling_path_def file_stem_def)

lemma sample_site_ok: "site_ok sample_site (''c'', ''p.json'', ''p.leave-v1.json'')"
  by (simp add: sample_site_def sample_journal_names parent_ok_def sample_parent_def verify_owned_directory_def)

lemma sample_profile_valid: "validate_binding sample_url_lib sample_profile = Inr ()"
  by (simp add: validate_binding_def sample_profile_def canonical_relay_origin_def sample_url_lib_def sample_origin_url_def
      validate_profile_name_def profile_char_def trim_end_matches_def eval_simps)

lemma sample_profile_new:
  "ProfileBinding_new sample_url_lib ''default'' ''http://127.0.0.1:7341'' ''s'' ''sqd_1'' ''mem_1'' = Inr sample_profile"
  using sample_profile_valid
  by (simp add: ProfileBinding_new_def sample_profile_def canonical_relay_origin_def sample_url_lib_def sample_origin_url_def trim_end_matches_def)

lemma sample_record_valid: "validate_record sample_url_lib sample_intent = Inr ()"
  by (simp add: validate_record_def sample_intent_def sample_profile_new) (simp add: sample_profile_def profile_char_def eval_simps)

lemma sample_hex_zero: "concat (map hex_byte [0 :: 8 word]) = ''00''" "hex_byte 0 = ''00''"
  by (simp_all add: hex_byte_def hex_digit_def)

lemma sample_intent_issued:
  "ji_intent (SystemJournalIssuer sample_url_lib (Inr [0]) 0 later) sample_profile = Inr sample_intent"
proof -
  have "validate_journal sample_url_lib sample_intent sample_profile = Inr ()"
    by (simp add: validate_journal_def sample_profile_valid sample_record_valid) (simp add: sample_intent_def sample_profile_def)
  moreover have "issuer_now 0 = Inr (ApiTimestamp 0)"
    by (simp add: issuer_now_def to_millis_def nanosecond_def ApiTimestamp_new_def)
  ultimately show ?thesis
    by (simp add: SystemJournalIssuer_def intent_def sample_intent_def sample_profile_def sample_hex_zero)
qed

lemma sample_journal_codec:
  "jc_to_vec (st_journal_codec sample_site) sample_intent = Inr ''i''"
  "sl_url sample_store_lib = sample_url_lib" "st_store sample_site = sample_store_lib"
  by (simp_all add: sample_site_def sample_store_lib_def)

lemma sample_intent_stored:
  "store_journal_with_fault sample_url_lib (st_journal_codec sample_site) ''p.leave-v1.json'' sample_os sample_intent
     (NoJournalFault, Inr [0]) (dk_profiles sample_disk) = (Inr (), dk_profiles sample_left)"
  by (simp add: store_journal_with_fault_def io_bind_def sample_record_valid MAX_JOURNAL_BYTES_def reject_target_substitution_def
      open_target_def open_read_def call_def store_unix_def temp_name_def file_defs sample_journal_codec sample_os_def sample_disk_def sample_left_def sample_hex_zero)

lemma sample_leave_runs:
  "leave_transaction sample_site \<lparr>cs_name = Some ''c''\<rparr> ''p.leave-v1.json'' sample_profile
     (SystemJournalIssuer sample_url_lib (Inr [0]) 0 (- 1000000000)) (\<lambda>_. Inr ())
     (Inr \<lparr>lsr_membership_id = ''mem_1'', lsr_left_at = ApiTimestamp 0\<rparr>) (\<lambda>_. Inr [0]) (\<lambda>_. sample_os) sample_disk
   = (Unresolved (Local journal_invalid_data), sample_left)"
proof -
  let ?issuer = "SystemJournalIssuer sample_url_lib (Inr [0]) 0 (- 1000000000)"
  have late: "ji_confirm ?issuer sample_intent
      = Inr (sample_intent\<lparr>lj_phase := Confirmed, lj_confirmed_at := Some (ApiTimestamp (- 1000000000))\<rparr>)"
    by (simp add: SystemJournalIssuer_def confirmed_def issuer_now_def to_millis_def nanosecond_def ApiTimestamp_new_def)
      (simp add: sample_intent_def)
  have two: "store_journal_with_fault sample_url_lib (st_journal_codec sample_site) ''p.leave-v1.json'' sample_os
      (sample_intent\<lparr>lj_phase := Confirmed, lj_confirmed_at := Some (ApiTimestamp (- 1000000000))\<rparr>)
      (NoJournalFault, Inr [0]) e = (Inl journal_invalid_data, e)" for e
    by (simp add: store_journal_with_fault_def io_bind_def sample_site_def) (simp add: sample_intent_def)
  show ?thesis
    by (simp add: leave_transaction_def leave_settle_def sample_intent_issued on_profiles_def sample_intent_stored leave_confirmed_def late two sample_journal_codec)
      (simp add: sample_profile_def sample_left_def)
qed

lemma sample_credential_loads:
  "credential_loads sample_site ''c'' (Some (Regular ''{}'' True 384)) sample_os sample_profile sample_credential"
proof -
  have b: "binding_of sample_profile = sample_binding" by (simp add: binding_of_def sample_profile_def sample_binding_def)
  have binding: "CredentialBinding_new (sl_url sample_store_lib) ''http://127.0.0.1:7341'' ''default'' ''sqd_1'' ''mem_1''
      = Inr sample_binding" by (simp add: sample_store_lib_def sample_binding_new)
  have encoded: "sl_to_vec sample_store_lib (credential_record sample_binding sample_credential (''Bearer '' @ sample_raw)) = Some ''{}''"
    by (simp add: sample_store_lib_def sample_store_record_def)
  note loaded = load_stored_record [OF sample_store_laws binding sample_issued encoded, where m = 384]
  show ?thesis
    unfolding credential_loads_def b sample_journal_codec(3)
    by (intro allI impI, subst loaded) (simp_all add: MAX_CREDENTIAL_BYTES_def sample_os_def)
qed


end
