(* ===== verification/Rely_Guarantee.thy ===== *)
theory Rely_Guarantee
  imports Prelude
begin

text \<open>
  Tasks on a shared state. An executor lets one task at a time run to its next suspension; tasks may
  spawn others, new ones arrive with the calls of clients, and some work goes on in the background.
  The locale states what is needed to reason about one task at a time: every step keeps what the task
  asserts of itself and what all rely on, and guarantees to the others what keeps their assertions.
\<close>

type_synonym ('p, 's) world = "(nat \<Rightarrow> 'p option) \<times> 's"

type_synonym ('p, 's) task_step = "nat \<Rightarrow> 'p \<Rightarrow> 's \<Rightarrow> 'p \<times> 's \<times> 'p option \<Rightarrow> bool"

inductive executor :: "('p, 's) task_step \<Rightarrow> ('p \<Rightarrow> bool) \<Rightarrow> ('s \<Rightarrow> 's \<Rightarrow> bool) \<Rightarrow> ('p, 's) world \<Rightarrow> ('p, 's) world \<Rightarrow> bool"
  for run arrives background where
  moves: "T t = Some p \<Longrightarrow> run t p s (p', s', None) \<Longrightarrow> executor run arrives background (T, s) (T(t \<mapsto> p'), s')"
| forks: "T t = Some p \<Longrightarrow> run t p s (p', s', Some q) \<Longrightarrow> T u = None
    \<Longrightarrow> executor run arrives background (T, s) (T(t \<mapsto> p', u \<mapsto> q), s')"
| enters: "T t = None \<Longrightarrow> arrives p \<Longrightarrow> executor run arrives background (T, s) (T(t \<mapsto> p), s)"
| works: "background s s' \<Longrightarrow> executor run arrives background (T, s) (T, s')"

inductive_cases executorE: "executor run arrives background (T, s) w"

locale cooperation =
  fixes run :: "('p, 's) task_step" and arrives :: "'p \<Rightarrow> bool" and background :: "'s \<Rightarrow> 's \<Rightarrow> bool"
    and guarantees :: "nat \<Rightarrow> 's \<Rightarrow> 's \<Rightarrow> bool" and own :: "nat \<Rightarrow> 'p option \<Rightarrow> 's \<Rightarrow> bool" and common :: "'s \<Rightarrow> bool"
  assumes step_keeps: "run t p s (p', s', spawned) \<Longrightarrow> own t (Some p) s \<Longrightarrow> common s
      \<Longrightarrow> own t (Some p') s' \<and> common s' \<and> guarantees t s s'"
    and spawned_own: "run t p s (p', s', Some q) \<Longrightarrow> own t (Some p) s \<Longrightarrow> common s \<Longrightarrow> own u None s' \<Longrightarrow> own u (Some q) s'"
    and arrived_own: "arrives p \<Longrightarrow> own t None s \<Longrightarrow> own t (Some p) s"
    and stable: "guarantees t s s' \<Longrightarrow> common s \<Longrightarrow> u \<noteq> t \<Longrightarrow> own u r s \<Longrightarrow> own u r s'"
    and background_own: "background s s' \<Longrightarrow> common s \<Longrightarrow> own u r s \<Longrightarrow> own u r s'"
    and background_common: "background s s' \<Longrightarrow> common s \<Longrightarrow> common s'"
begin

definition agrees :: "('p, 's) world \<Rightarrow> bool" where
  "agrees w \<longleftrightarrow> common (snd w) \<and> (\<forall>t. own t (fst w t) (snd w))"

lemma executor_agrees:
  assumes "executor run arrives background w w'" and "agrees w"
  shows "agrees w'"
  using assms
proof (induction rule: executor.induct)
  case (moves T t p s p' s')
  note kept = step_keeps [OF moves(2)]
  from moves have "own t (Some p') s' \<and> common s' \<and> guarantees t s s'"
    using kept by (auto simp: agrees_def dest: spec [of _ t])
  then show ?case using moves(3) stable by (auto simp: agrees_def)
next
  case (forks T t p s p' s' q u)
  note kept = step_keeps [OF forks(2)]
  from forks have keep: "own t (Some p') s' \<and> common s' \<and> guarantees t s s'"
    using kept by (auto simp: agrees_def dest: spec [of _ t])
  have "own v (T v) s'" if "v \<noteq> t" for v using keep forks(4) stable that by (auto simp: agrees_def)
  moreover have "own u (Some q) s'"
    using spawned_own [OF forks(2)] forks(1,3,4) calculation [of u] by (cases "u = t") (auto simp: agrees_def dest: spec [of _ t])
  ultimately show ?case using keep forks(1,3) by (auto simp: agrees_def)
next
  case (enters T t p s)
  then show ?case using arrived_own by (auto simp: agrees_def dest: spec [of _ t])
next
  case (works s s' T)
  then show ?case using background_own background_common by (auto simp: agrees_def)
qed

lemma run_agrees: "(executor run arrives background)\<^sup>*\<^sup>* w w' \<Longrightarrow> agrees w \<Longrightarrow> agrees w'"
  by (induction rule: rtranclp_induct) (auto intro: executor_agrees)

text \<open>Whatever a step guarantees holds of every step of a run.\<close>

lemma executor_guarantees:
  assumes "executor run arrives background w w'" and "agrees w"
  obtains t where "guarantees t (snd w) (snd w')" | "snd w' = snd w" | "background (snd w) (snd w')"
  using assms(1)
proof (cases rule: executor.cases)
  case (moves T t p s p' s')
  then show thesis using that(1) [of t] step_keeps [OF moves(4)] assms(2) by (auto simp: agrees_def dest: spec [of _ t])
next
  case (forks T t p s p' s' q u)
  then show thesis using that(1) [of t] step_keeps [OF forks(4)] assms(2) by (auto simp: agrees_def dest: spec [of _ t])
qed (use that in auto)

end

end
