(* ===== verification/Session_Runtime.thy ===== *)
theory Session_Runtime
  imports Session_Leave Rely_Guarantee
begin

text \<open>
  The tasks of a running session (\<open>psst-application/src/session.rs\<close>): the heartbeat scheduler, availability
  reports, sends, reads and operations in the name of the session, leaving, and shutdown. Every task is a
  program counter with the values its code holds there; a step runs from one suspension to the next, or
  from one access to something shared to the next. What the relay answers, which branch of a \<open>select!\<close> or
  a time limit comes first, and how the disk behaves during a step is its \<open>turn\<close>.
\<close>

section \<open>The supervisor\<close>

text \<open>
  A resume transaction runs in a task of its own, which goes on when the one that waits for it is gone.
\<close>

datatype resume_status =
    Calling ClientCredential
  | Persisting SessionResponse ClientCredential
  | Resumed "ResumeTransactionError + SessionResponse \<times> ClientCredential"

text \<open>
  \<open>SupervisorState\<close>. A gate holds the task that has locked it, a read token is a number. Of the scheduler's
  join handle there remains whether it is still to be taken, whether abortion was asked for, and whether
  the task has ended.
\<close>

record SupervisorState =
  sv_shared :: Shared
  sv_lifecycle :: LifecycleState
  sv_cancel :: bool
  sv_operation_cancel :: bool
  sv_read_cancel :: nat
  sv_read_cancelled :: "nat list"
  sv_shutdown_requested :: bool
  sv_heartbeat_gate :: "nat option"
  sv_operation_gate :: "nat option"
  sv_profile_lock :: bool
  sv_task :: bool
  sv_abort :: bool
  sv_ended :: bool
  sv_sends :: SendLedger
  sv_reports :: ReportTracker
  sv_resumes :: "resume_status list"
  sv_disk :: disk

record session_env =
  se_site :: session_site
  se_spec :: RuntimeSpec
  se_started :: started

abbreviation se_profile :: "session_env \<Rightarrow> ProfileBinding" where
  "se_profile E \<equiv> rp_profile (se_spec E)"

definition SupervisorState_new :: "session_env \<Rightarrow> disk \<Rightarrow> SupervisorState" where
  "SupervisorState_new E d = \<lparr>sv_shared = sd_shared (se_started E), sv_lifecycle = LifecycleState.Ready, sv_cancel = False,
     sv_operation_cancel = False, sv_read_cancel = 0, sv_read_cancelled = [], sv_shutdown_requested = False,
     sv_heartbeat_gate = None, sv_operation_gate = None, sv_profile_lock = True, sv_task = True, sv_abort = False,
     sv_ended = False, sv_sends = SendLedger_new, sv_reports = ReportTracker_new, sv_resumes = [], sv_disk = d\<rparr>"

datatype session_reply =
    Archived ArchiveSquadResponse
  | Acknowledged AckMessagesResponse
  | Roster RosterResponse
  | Inbox InboxResponse
  | Transcript TranscriptResponse

text \<open>
  What a step meets: \<open>tn_interrupted\<close> takes the branch of a cancellation or of a time limit; a biased \<open>select!\<close>
  only polls that branch first, and what it waits for may come right after.
\<close>

record turn =
  tn_interrupted :: bool
  tn_heartbeat :: "Error + HeartbeatResponse"
  tn_resume :: "(Error + SessionResponse \<times> ClientCredential) option"
  tn_send :: "Error + SendMessageResponse"
  tn_leave :: "Error + LeaveSquadResponse"
  tn_reply :: "Error + session_reply"
  tn_issuer :: JournalIssuer
  tn_seam :: "CleanupStep \<Rightarrow> io_error + unit"
  tn_random :: "nat \<Rightarrow> io_error + 8 word list"
  tn_sys :: "nat \<Rightarrow> os"

section \<open>Small steps on the supervisor\<close>

definition set_health :: "SessionHealth \<Rightarrow> SupervisorState \<Rightarrow> SupervisorState" where
  "set_health h s = s\<lparr>sv_shared := (sv_shared s)\<lparr>sh_health := h\<rparr>\<rparr>"

definition renewed :: "HeartbeatResponse \<Rightarrow> SupervisorState \<Rightarrow> SupervisorState" where
  "renewed response s = s\<lparr>sv_shared := (sv_shared s)\<lparr>
     sh_heartbeat_interval_seconds := hp_heartbeat_interval_seconds response,
     sh_lease_expires_at := hp_lease_expires_at response,
     sh_health := SessionHealth.Ready\<rparr>\<rparr>"

definition rotated :: "SessionResponse \<Rightarrow> ClientCredential \<Rightarrow> SupervisorState \<Rightarrow> SupervisorState" where
  "rotated response credential s = s\<lparr>sv_shared := (sv_shared s)\<lparr>
     sh_credential := credential,
     sh_instance_id := sp_instance_id response,
     sh_heartbeat_interval_seconds := sp_heartbeat_interval_seconds response,
     sh_lease_expires_at := sp_lease_expires_at response,
     sh_generation := saturating_add (sh_generation (sv_shared s)) 1,
     sh_health := SessionHealth.Ready\<rparr>\<rparr>"

definition reported :: "AvailabilityDto \<Rightarrow> AvailabilitySourceDto \<Rightarrow> SupervisorState \<Rightarrow> SupervisorState" where
  "reported availability source s = s\<lparr>sv_shared := (sv_shared s)\<lparr>sh_availability := availability, sh_availability_source := source\<rparr>\<rparr>"

definition cancel_reads :: "nat \<Rightarrow> SupervisorState \<Rightarrow> SupervisorState" where
  "cancel_reads token s = s\<lparr>sv_read_cancelled := token # sv_read_cancelled s\<rparr>"

definition free_heartbeat :: "SupervisorState \<Rightarrow> SupervisorState" where
  "free_heartbeat s = s\<lparr>sv_heartbeat_gate := None\<rparr>"

definition free_operation :: "SupervisorState \<Rightarrow> SupervisorState" where
  "free_operation s = s\<lparr>sv_operation_gate := None\<rparr>"

text \<open>Health and life cycle after a failed resume.\<close>

definition resume_failure :: "ResumeTransactionError \<Rightarrow> LifecycleState \<times> SessionHealth" where
  "resume_failure error =
     (case error of
        ResumeTransactionError.Relay e \<Rightarrow>
          if e = Error.OutcomeUnknown then (LifecycleState.OutcomeUnknown, SessionHealth.OutcomeUnknown)
          else (LifecycleState.Ready, SessionHealth.Degraded)
      | Persist _ \<Rightarrow> (LifecycleState.RotationFailed, SessionHealth.RotationFailed)
      | Task \<Rightarrow> (LifecycleState.Ready, SessionHealth.Degraded))"

definition publish_resume_failure :: "ResumeTransactionError \<Rightarrow> SupervisorState \<Rightarrow> SessionError \<times> SupervisorState" where
  "publish_resume_failure error s =
     (resume_session_error error,
      if sv_lifecycle s \<noteq> Recovering then s
      else case resume_failure error of (lifecycle, health) \<Rightarrow> (set_health health s)\<lparr>sv_lifecycle := lifecycle\<rparr>)"

section \<open>The resume transaction\<close>

text \<open>The task of one resume transaction: the relay is asked, the answer checked, the credential stored.\<close>

fun resume_next :: "session_env \<Rightarrow> turn \<Rightarrow> resume_status \<Rightarrow> disk \<Rightarrow> (resume_status \<times> disk) option" where
  "resume_next E t (Calling credential) d =
     (case tn_resume t of
        None \<Rightarrow> Some (Resumed (Inl Task), d)
      | Some (Inl error) \<Rightarrow> Some (Resumed (Inl (ResumeTransactionError.Relay error)), d)
      | Some (Inr (response, credential')) \<Rightarrow>
          if ss_id (sp_squad response) \<noteq> cb_squad_id (sd_binding (se_started E))
            \<or> ss_name (sp_squad response) \<noteq> pb_squad_name (se_profile E)
            \<or> sp_membership_id response \<noteq> cb_member_id (sd_binding (se_started E))
          then Some (Resumed (Inl (ResumeTransactionError.Relay (Error.MalformedResponse 200))), d)
          else Some (Persisting response credential', d))"
| "resume_next E t (Persisting response credential) d =
     (case on_credentials (store (st_store (se_site E)) (sd_store (se_started E)) (tn_sys t 0) (sd_binding (se_started E)) credential) d of
        (Inl error, d') \<Rightarrow> Some (Resumed (Inl (Persist error)), d')
      | (Inr _, d') \<Rightarrow> Some (Resumed (Inr (response, credential)), d'))"
| "resume_next E t (Resumed r) d = None"

text \<open>It is the transaction of \<open>Session_Start\<close> in two steps.\<close>

lemma resume_next_transaction:
  "resume_transaction (se_site E) (sd_store (se_started E)) (sd_binding (se_started E)) (pb_squad_name (se_profile E))
     (tn_resume t) (tn_sys u 0) d
   = (case resume_next E t (Calling credential) d of
        Some (Resumed r, d1) \<Rightarrow> (r, d1)
      | Some (status, d1) \<Rightarrow> (case resume_next E u status d1 of Some (Resumed r, d2) \<Rightarrow> (r, d2)))"
  by (auto simp: resume_transaction_def then_do_def give_def ensure_def failing_def split: option.splits sum.splits prod.splits if_splits)

section \<open>The scheduler\<close>

text \<open>
  \<open>run_heartbeat\<close>. The first argument of a counter is the backoff. The gate is held from \<open>HbFlag\<close> until the
  loop begins again or ends, also while it backs off.
\<close>

datatype heartbeat_pc =
    HbTop nat
  | HbSleep int nat
  | HbGate nat
  | HbFlag nat
  | HbLifecycle nat
  | HbRequest nat
  | HbCredential nat HeartbeatRequest
  | HbCall nat HeartbeatRequest ClientCredential
  | HbFlagAgain nat ClientCredential "Error + HeartbeatResponse"
  | HbLifecycleAgain nat ClientCredential "Error + HeartbeatResponse"
  | HbSettle nat ClientCredential "Error + HeartbeatResponse"
  | HbResume nat ClientCredential
  | HbWait nat nat
  | HbResumed nat "ResumeTransactionError + SessionResponse \<times> ClientCredential"
  | HbReady nat
  | HbAfter nat
  | HbBackoff nat
  | HbEnd

definition hb_break :: "SupervisorState \<Rightarrow> heartbeat_pc \<times> SupervisorState" where
  "hb_break s = (HbEnd, s\<lparr>sv_ended := True\<rparr>)"

definition hb_continue :: "nat \<Rightarrow> SupervisorState \<Rightarrow> heartbeat_pc \<times> SupervisorState" where
  "hb_continue backoff s = (HbTop backoff, free_heartbeat s)"

fun run_heartbeat :: "session_env \<Rightarrow> turn \<Rightarrow> nat \<Rightarrow> heartbeat_pc \<Rightarrow> SupervisorState \<Rightarrow> (heartbeat_pc \<times> SupervisorState) option" where
  "run_heartbeat E t me (HbTop b) s = Some (HbSleep (sh_heartbeat_interval_seconds (sv_shared s)) b, s)"
| "run_heartbeat E t me (HbSleep cadence b) s =
     (if tn_interrupted t then (if sv_cancel s then Some (hb_break s) else None) else Some (HbGate b, s))"
| "run_heartbeat E t me (HbGate b) s =
     (if tn_interrupted t then (if sv_cancel s then Some (hb_break s) else None)
      else if sv_heartbeat_gate s = None then Some (HbFlag b, s\<lparr>sv_heartbeat_gate := Some me\<rparr>) else None)"
| "run_heartbeat E t me (HbFlag b) s =
     (if sv_cancel s then Some (hb_break (free_heartbeat s)) else Some (HbLifecycle b, s))"
| "run_heartbeat E t me (HbLifecycle b) s =
     (case sv_lifecycle s of
        Leaving \<Rightarrow> Some (hb_continue b s)
      | LifecycleState.Ready \<Rightarrow> Some (HbRequest b, s)
      | _ \<Rightarrow> Some (hb_break (free_heartbeat s)))"
| "run_heartbeat E t me (HbRequest b) s =
     Some (HbCredential b \<lparr>hq_availability = sh_availability (sv_shared s),
       hq_availability_source = sh_availability_source (sv_shared s)\<rparr>, s)"
| "run_heartbeat E t me (HbCredential b req) s = Some (HbCall b req (sh_credential (sv_shared s)), s)"
| "run_heartbeat E t me (HbCall b req credential) s =
     (if tn_interrupted t then (if sv_cancel s then Some (hb_break (free_heartbeat s)) else None)
      else Some (HbFlagAgain b credential (tn_heartbeat t), s))"
| "run_heartbeat E t me (HbFlagAgain b credential heartbeat) s =
     (if sv_cancel s then Some (hb_break (free_heartbeat s)) else Some (HbLifecycleAgain b credential heartbeat, s))"
| "run_heartbeat E t me (HbLifecycleAgain b credential heartbeat) s =
     (case sv_lifecycle s of
        Leaving \<Rightarrow> Some (hb_continue b s)
      | LifecycleState.Ready \<Rightarrow> Some (HbSettle b credential heartbeat, s)
      | _ \<Rightarrow> Some (hb_break (free_heartbeat s)))"
| "run_heartbeat E t me (HbSettle b credential heartbeat) s =
     (case heartbeat of
        Inr response \<Rightarrow> Some (hb_continue (from_secs 1) (renewed response s))
      | Inl error \<Rightarrow>
          if api_code error = Some ApiErrorCode.LeaseExpired then
            if sv_lifecycle s \<noteq> LifecycleState.Ready then Some (hb_continue b s)
            else Some (HbResume b credential, s\<lparr>sv_lifecycle := Recovering\<rparr>)
          else if error = Error.OutcomeUnknown then Some (hb_continue b (set_health SessionHealth.OutcomeUnknown s))
          else Some (HbBackoff b, set_health SessionHealth.Degraded s))"
| "run_heartbeat E t me (HbResume b credential) s =
     Some (HbWait b (length (sv_resumes s)), s\<lparr>sv_resumes := sv_resumes s @ [Calling credential]\<rparr>)"
| "run_heartbeat E t me (HbWait b k) s =
     (case sv_resumes s ! k of Resumed r \<Rightarrow> Some (HbResumed b r, s) | _ \<Rightarrow> None)"
| "run_heartbeat E t me (HbResumed b r) s =
     (case r of
        Inr (response, credential) \<Rightarrow> Some (HbReady b, rotated response credential s)
      | Inl error \<Rightarrow>
          if sv_lifecycle s \<noteq> Recovering then Some (hb_break (free_heartbeat s))
          else case resume_failure error of (lifecycle, health) \<Rightarrow>
            Some (HbAfter b, (set_health health s)\<lparr>sv_lifecycle := lifecycle\<rparr>))"
| "run_heartbeat E t me (HbReady b) s =
     (if sv_lifecycle s \<noteq> Recovering then Some (hb_break (free_heartbeat s))
      else Some (HbAfter b, s\<lparr>sv_lifecycle := LifecycleState.Ready\<rparr>))"
| "run_heartbeat E t me (HbAfter b) s =
     (if sv_cancel s then Some (hb_break (free_heartbeat s)) else Some (hb_continue b s))"
| "run_heartbeat E t me (HbBackoff b) s =
     (if tn_interrupted t then (if sv_cancel s then Some (hb_break (free_heartbeat s)) else None)
      else Some (hb_continue (min (b * 2) (from_secs 30)) s))"
| "run_heartbeat E t me HbEnd s = None"

fun hb_holds :: "heartbeat_pc \<Rightarrow> bool" where
  "hb_holds (HbTop _) = False"
| "hb_holds (HbSleep _ _) = False"
| "hb_holds (HbGate _) = False"
| "hb_holds HbEnd = False"
| "hb_holds _ = True"

text \<open>Abortion takes effect at a suspension and drops the gate.\<close>

definition hb_abort :: "heartbeat_pc \<Rightarrow> SupervisorState \<Rightarrow> (heartbeat_pc \<times> SupervisorState) option" where
  "hb_abort pc s = (if sv_abort s \<and> pc \<noteq> HbEnd then Some (hb_break (if hb_holds pc then free_heartbeat s else s)) else None)"

section \<open>Availability reports\<close>

datatype report_pc =
    RpRegister
  | RpGate nat
  | RpFlag nat
  | RpLifecycle nat
  | RpCredential nat
  | RpCall nat ClientCredential
  | RpLifecycleAgain ClientCredential "Error + HeartbeatResponse"
  | RpSettle ClientCredential "Error + HeartbeatResponse"
  | RpFail Error
  | RpHealth Error
  | RpResume ClientCredential
  | RpWait nat
  | RpResumed "ResumeTransactionError + SessionResponse \<times> ClientCredential"
  | RpReady
  | RpFailed ResumeTransactionError
  | RpFinish "SessionError + unit"
  | RpDone "SessionError + unit"

definition rp_return :: "SessionError + unit \<Rightarrow> SupervisorState \<Rightarrow> (report_pc \<times> SupervisorState) option" where
  "rp_return r s = Some (RpFinish r, free_heartbeat s)"

definition reported_source :: "AvailabilityDto \<Rightarrow> AvailabilitySourceDto" where
  "reported_source availability =
     (if availability = AvailabilityDto.Unknown then AvailabilitySourceDto.Unknown else AgentReported)"

text \<open>\<open>report_availability\<close> registers and finishes around \<open>report_availability_owned\<close>.\<close>

fun report_availability ::
  "session_env \<Rightarrow> turn \<Rightarrow> nat \<Rightarrow> AvailabilityDto \<Rightarrow> report_pc \<Rightarrow> SupervisorState \<Rightarrow> (report_pc \<times> SupervisorState) option" where
  "report_availability E t me availability RpRegister s =
     (case register (sv_reports s) of
        (Inl error, reports) \<Rightarrow> Some (RpDone (Inl error), s\<lparr>sv_reports := reports\<rparr>)
      | (Inr token, reports) \<Rightarrow> Some (RpGate token, s\<lparr>sv_reports := reports\<rparr>))"
| "report_availability E t me availability (RpGate token) s =
     (if tn_interrupted t
      then (if token \<in> set (rt_cancelled (sv_reports s)) then Some (RpFinish (Inl SessionError.NotReady), s) else None)
      else if sv_heartbeat_gate s = None then Some (RpFlag token, s\<lparr>sv_heartbeat_gate := Some me\<rparr>) else None)"
| "report_availability E t me availability (RpFlag token) s =
     (if sv_operation_cancel s then rp_return (Inl SessionError.NotReady) s else Some (RpLifecycle token, s))"
| "report_availability E t me availability (RpLifecycle token) s =
     (if sv_lifecycle s \<noteq> LifecycleState.Ready then rp_return (Inl SessionError.NotReady) s else Some (RpCredential token, s))"
| "report_availability E t me availability (RpCredential token) s = Some (RpCall token (sh_credential (sv_shared s)), s)"
| "report_availability E t me availability (RpCall token credential) s =
     (if tn_interrupted t
      then (if token \<in> set (rt_cancelled (sv_reports s)) then rp_return (Inl SessionError.NotReady) s else None)
      else Some (RpLifecycleAgain credential (tn_heartbeat t), s))"
| "report_availability E t me availability (RpLifecycleAgain credential response) s =
     (if sv_lifecycle s \<noteq> LifecycleState.Ready then rp_return (Inl SessionError.NotReady) s else Some (RpSettle credential response, s))"
| "report_availability E t me availability (RpSettle credential response) s =
     (case response of
        Inr value \<Rightarrow> rp_return (Inr ()) (renewed value (reported availability (reported_source availability) s))
      | Inl error \<Rightarrow>
          if api_code error = Some ApiErrorCode.LeaseExpired then
            if sv_lifecycle s \<noteq> LifecycleState.Ready then rp_return (Inl SessionError.NotReady) s
            else Some (RpResume credential, s\<lparr>sv_lifecycle := Recovering\<rparr>)
          else Some (RpFail error, s))"
| "report_availability E t me availability (RpFail error) s =
     (if sv_lifecycle s = LifecycleState.Ready then Some (RpHealth error, s) else rp_return (Inl (SessionError.Relay error)) s)"
| "report_availability E t me availability (RpHealth error) s =
     rp_return (Inl (SessionError.Relay error))
       (set_health (if error = Error.OutcomeUnknown then SessionHealth.OutcomeUnknown else SessionHealth.Degraded) s)"
| "report_availability E t me availability (RpResume credential) s =
     Some (RpWait (length (sv_resumes s)), s\<lparr>sv_resumes := sv_resumes s @ [Calling credential]\<rparr>)"
| "report_availability E t me availability (RpWait k) s =
     (case sv_resumes s ! k of Resumed r \<Rightarrow> Some (RpResumed r, s) | _ \<Rightarrow> None)"
| "report_availability E t me availability (RpResumed r) s =
     (case r of
        Inr (response, credential) \<Rightarrow>
          Some (RpReady, reported availability (reported_source availability) (rotated response credential s))
      | Inl error \<Rightarrow>
          if sv_lifecycle s = Leaving then rp_return (Inl (resume_session_error error)) s else Some (RpFailed error, s))"
| "report_availability E t me availability RpReady s =
     (if sv_lifecycle s \<noteq> Recovering then rp_return (Inl SessionError.NotReady) s
      else rp_return (Inr ()) (s\<lparr>sv_lifecycle := LifecycleState.Ready\<rparr>))"
| "report_availability E t me availability (RpFailed error) s =
     (case publish_resume_failure error s of (e, s') \<Rightarrow> rp_return (Inl e) s')"
| "report_availability E t me availability (RpFinish r) s = Some (RpDone r, s\<lparr>sv_reports := report_finish (sv_reports s)\<rparr>)"
| "report_availability E t me availability (RpDone r) s = None"

fun rp_holds :: "report_pc \<Rightarrow> bool" where
  "rp_holds RpRegister = False"
| "rp_holds (RpGate _) = False"
| "rp_holds (RpFinish _) = False"
| "rp_holds (RpDone _) = False"
| "rp_holds _ = True"

section \<open>Authority\<close>

record AuthoritySnapshot =
  au_credential :: ClientCredential
  au_generation :: nat
  au_relay_origin :: string
  au_profile :: string
  au_squad_id :: string
  au_squad_name :: string
  au_member_id :: string

datatype authority_pc =
    AuFlag
  | AuLifecycle
  | AuShared
  | AuLifecycleAgain ClientCredential nat SessionHealth
  | AuFlagAgain ClientCredential nat

text \<open>The next counter, or what \<open>authority\<close> returns.\<close>

fun authority :: "session_env \<Rightarrow> authority_pc \<Rightarrow> SupervisorState \<Rightarrow> authority_pc + (SessionError + AuthoritySnapshot)" where
  "authority E AuFlag s = (if sv_shutdown_requested s then Inr (Inl SessionError.NotReady) else Inl AuLifecycle)"
| "authority E AuLifecycle s =
     (if sv_lifecycle s \<noteq> LifecycleState.Ready then Inr (Inl SessionError.NotReady) else Inl AuShared)"
| "authority E AuShared s =
     Inl (AuLifecycleAgain (sh_credential (sv_shared s)) (sh_generation (sv_shared s)) (sh_health (sv_shared s)))"
| "authority E (AuLifecycleAgain credential generation health) s =
     (if health \<noteq> SessionHealth.Ready \<or> sv_lifecycle s \<noteq> LifecycleState.Ready then Inr (Inl SessionError.NotReady)
      else Inl (AuFlagAgain credential generation))"
| "authority E (AuFlagAgain credential generation) s =
     (if sv_shutdown_requested s then Inr (Inl SessionError.NotReady)
      else let binding = sd_binding (se_started E) in
        Inr (Inr \<lparr>au_credential = credential, au_generation = generation, au_relay_origin = cb_relay_origin binding,
          au_profile = cb_profile binding, au_squad_id = cb_squad_id binding,
          au_squad_name = pb_squad_name (se_profile E), au_member_id = cb_member_id binding\<rparr>))"

section \<open>Sends\<close>

text \<open>The caller of \<open>send_prepared\<close>, and the task it spawns to own a new send.\<close>

datatype sender_pc =
    SrAuthority authority_pc
  | SrReserve AuthoritySnapshot
  | SrAwait nat
  | SrDone "SessionError + SendMessageResponse"

datatype owner_pc =
    SdGate
  | SdLifecycle
  | SdShared LifecycleState
  | SdCall
  | SdFinish SendTerminal
  | SdDone

text \<open>A reservation gives the entry to wait for and, when it is new, the authority its owner gets.\<close>

fun session_send ::
  "session_env \<Rightarrow> PreparedSend \<Rightarrow> sender_pc \<Rightarrow> SupervisorState
   \<Rightarrow> (sender_pc \<times> SupervisorState \<times> (AuthoritySnapshot \<times> nat) option) option" where
  "session_send E prepared (SrAuthority pc) s =
     (case authority E pc s of
        Inl pc' \<Rightarrow> Some (SrAuthority pc', s, None)
      | Inr (Inl error) \<Rightarrow> Some (SrDone (Inl error), s, None)
      | Inr (Inr au) \<Rightarrow> Some (SrReserve au, s, None))"
| "session_send E prepared (SrReserve au) s =
     (case reserve prepared (sv_sends s) of
        (Inl error, sends) \<Rightarrow> Some (SrDone (Inl error), s\<lparr>sv_sends := sends\<rparr>, None)
      | (Inr (Existing entry), sends) \<Rightarrow> Some (SrAwait entry, s\<lparr>sv_sends := sends\<rparr>, None)
      | (Inr (New entry), sends) \<Rightarrow> Some (SrAwait entry, s\<lparr>sv_sends := sends\<rparr>, Some (au, entry)))"
| "session_send E prepared (SrAwait entry) s =
     (case await_send entry (sv_sends s) of None \<Rightarrow> None | Some r \<Rightarrow> Some (SrDone r, s, None))"
| "session_send E prepared (SrDone r) s = None"

fun owned_send ::
  "turn \<Rightarrow> nat \<Rightarrow> PreparedSend \<Rightarrow> AuthoritySnapshot \<Rightarrow> nat \<Rightarrow> owner_pc \<Rightarrow> SupervisorState \<Rightarrow> (owner_pc \<times> SupervisorState) option" where
  "owned_send t me prepared au entry SdGate s =
     (if sv_heartbeat_gate s = None then Some (SdLifecycle, s\<lparr>sv_heartbeat_gate := Some me\<rparr>) else None)"
| "owned_send t me prepared au entry SdLifecycle s = Some (SdShared (sv_lifecycle s), s)"
| "owned_send t me prepared au entry (SdShared lifecycle) s =
     (let authority_is_current = sh_generation (sv_shared s) = au_generation au
        \<and> sh_health (sv_shared s) = SessionHealth.Ready
        \<and> lifecycle \<in> {LifecycleState.Ready, Leaving} in
      if authority_is_current then Some (SdCall, s) else Some (SdFinish (Inl StoredSendFailure.NotReady), s))"
| "owned_send t me prepared au entry SdCall s =
     Some (SdFinish (rbind (map_err (\<lambda>error. StoredSendFailure.Relay (capture error)) (tn_send t)) (\<lambda>response.
       rbind (validate_owned_send_response prepared (au_squad_name au) response) (\<lambda>_. Inr response))), s)"
| "owned_send t me prepared au entry (SdFinish result) s =
     Some (SdDone, free_heartbeat (s\<lparr>sv_sends := ledger_finish (ps_identity prepared) entry result (sv_sends s)\<rparr>))"
| "owned_send t me prepared au entry SdDone s = None"

section \<open>Reads and operations\<close>

text \<open>
  \<open>roster\<close>, \<open>inbox\<close> and \<open>transcript\<close> read under the token of their epoch (\<open>read_with_epoch\<close>); \<open>archive\<close> and
  \<open>acknowledge\<close> hold the operation gate.
\<close>

datatype reader_pc =
    RdToken
  | RdAuthority nat authority_pc
  | RdCall nat ClientCredential
  | RdDone "SessionError + session_reply"

fun read_with_epoch :: "session_env \<Rightarrow> turn \<Rightarrow> reader_pc \<Rightarrow> SupervisorState \<Rightarrow> reader_pc option" where
  "read_with_epoch E t RdToken s = Some (RdAuthority (sv_read_cancel s) AuFlag)"
| "read_with_epoch E t (RdAuthority token pc) s =
     (case authority E pc s of
        Inl pc' \<Rightarrow> Some (RdAuthority token pc')
      | Inr (Inl error) \<Rightarrow> Some (RdDone (Inl error))
      | Inr (Inr au) \<Rightarrow> Some (RdCall token (au_credential au)))"
| "read_with_epoch E t (RdCall token credential) s =
     (if tn_interrupted t
      then (if token \<in> set (sv_read_cancelled s) then Some (RdDone (Inl SessionError.NotReady)) else None)
      else Some (RdDone (map_err SessionError.Relay (tn_reply t))))"
| "read_with_epoch E t (RdDone r) s = None"

datatype operation_pc =
    OpGate
  | OpAuthority authority_pc
  | OpCall ClientCredential
  | OpDone "SessionError + session_reply"

fun gated_operation :: "session_env \<Rightarrow> turn \<Rightarrow> nat \<Rightarrow> operation_pc \<Rightarrow> SupervisorState \<Rightarrow> (operation_pc \<times> SupervisorState) option" where
  "gated_operation E t me OpGate s =
     (if tn_interrupted t then (if sv_operation_cancel s then Some (OpDone (Inl SessionError.NotReady), s) else None)
      else if sv_operation_gate s = None then Some (OpAuthority AuFlag, s\<lparr>sv_operation_gate := Some me\<rparr>) else None)"
| "gated_operation E t me (OpAuthority pc) s =
     (case authority E pc s of
        Inl pc' \<Rightarrow> Some (OpAuthority pc', s)
      | Inr (Inl error) \<Rightarrow> Some (OpDone (Inl error), free_operation s)
      | Inr (Inr au) \<Rightarrow> Some (OpCall (au_credential au), s))"
| "gated_operation E t me (OpCall credential) s =
     (if tn_interrupted t
      then (if sv_operation_cancel s then Some (OpDone (Inl SessionError.NotReady), free_operation s) else None)
      else Some (OpDone (map_err SessionError.Relay (tn_reply t)), free_operation s))"
| "gated_operation E t me (OpDone r) s = None"

fun op_holds :: "operation_pc \<Rightarrow> bool" where
  "op_holds (OpAuthority _) = True"
| "op_holds (OpCall _) = True"
| "op_holds _ = False"

fun sd_holds :: "owner_pc \<Rightarrow> bool" where
  "sd_holds SdGate = False"
| "sd_holds SdDone = False"
| "sd_holds _ = True"

section \<open>Leaving\<close>

text \<open>
  \<open>leave\<close> with \<open>begin_leave\<close>, the durable transaction under both gates and \<open>rollback_leave\<close>. In the counters of a
  rollback, \<open>True\<close> says that the heartbeat gate is held.
\<close>

datatype leave_pc =
    LvOperation
  | LvCancelReports
  | LvDrainReports
  | LvTimedOut SessionError
  | LvTimedOutLifecycle SessionError
  | LvTimedOutReopen SessionError
  | LvToken
  | LvBegin nat
  | LvCleanupAgain
  | LvStopSends
  | LvDrainSends
  | LvGate
  | LvCredential
  | LvIntent ClientCredential
  | LvCall ClientCredential LeaveJournal
  | LvAnswer LeaveJournal "Error + LeaveSquadResponse"
  | LvUnknown SessionError
  | LvUnknownLifecycle SessionError
  | LvStopped "io_error + unit" "Error + LeaveSquadResponse"
  | LvLeft "io_error + unit" "Error + LeaveSquadResponse"
  | LvTake "io_error + unit" "Error + LeaveSquadResponse"
  | LvJoin "io_error + unit" "Error + LeaveSquadResponse"
  | LvAborted
  | LvRollback bool SessionError
  | LvReopenSends bool SessionError
  | LvRecheckSends bool SessionError
  | LvReopenReports bool SessionError
  | LvRollbackFlag bool SessionError
  | LvRollbackLifecycle bool SessionError
  | LvDone "SessionError + LeaveSquadResponse"

definition lv_return :: "bool \<Rightarrow> SessionError + LeaveSquadResponse \<Rightarrow> SupervisorState \<Rightarrow> (leave_pc \<times> SupervisorState) option" where
  "lv_return gated r s = Some (LvDone r, free_operation (if gated then free_heartbeat s else s))"

definition left_result :: "io_error + unit \<Rightarrow> Error + LeaveSquadResponse \<Rightarrow> SessionError + LeaveSquadResponse" where
  "left_result cleanup response = rbind (map_err Local cleanup) (\<lambda>_. map_err SessionError.Relay response)"

fun session_leave :: "session_env \<Rightarrow> turn \<Rightarrow> nat \<Rightarrow> leave_pc \<Rightarrow> SupervisorState \<Rightarrow> (leave_pc \<times> SupervisorState) option" where
  "session_leave E t me LvOperation s =
     (if sv_operation_gate s = None then Some (LvCancelReports, s\<lparr>sv_operation_gate := Some me\<rparr>) else None)"
| "session_leave E t me LvCancelReports s = Some (LvDrainReports, s\<lparr>sv_reports := cancel_reports (sv_reports s)\<rparr>)"
| "session_leave E t me LvDrainReports s =
     (if tn_interrupted t then Some (LvTimedOut ShutdownTimedOut, s)
      else if rt_active (sv_reports s) = 0 then Some (LvToken, s) else None)"
| "session_leave E t me (LvTimedOut error) s =
     (if sv_shutdown_requested s then lv_return False (Inl error) s else Some (LvTimedOutLifecycle error, s))"
| "session_leave E t me (LvTimedOutLifecycle error) s =
     (if sv_lifecycle s = LifecycleState.Ready then Some (LvTimedOutReopen error, s) else lv_return False (Inl error) s)"
| "session_leave E t me (LvTimedOutReopen error) s = lv_return False (Inl error) (s\<lparr>sv_reports := reports_reopen (sv_reports s)\<rparr>)"
| "session_leave E t me LvToken s = Some (LvBegin (sv_read_cancel s), s)"
| "session_leave E t me (LvBegin token) s =
     (case sv_lifecycle s of
        LifecycleState.Ready \<Rightarrow> Some (LvStopSends, (cancel_reads token s)\<lparr>sv_lifecycle := Leaving\<rparr>)
      | Left \<Rightarrow> Some (LvCleanupAgain, s)
      | _ \<Rightarrow> lv_return False (Inl SessionError.NotReady) s)"
| "session_leave E t me LvCleanupAgain s =
     (case cleanup_confirmed_leave (se_site E) (tn_seam t) (tn_sys t) (sd_store (se_started E)) (sd_journal (se_started E)) (sv_disk s) of
        (r, d) \<Rightarrow> lv_return False (rbind (map_err Local r) (\<lambda>_. Inl Unbound)) (s\<lparr>sv_disk := d\<rparr>))"
| "session_leave E t me LvStopSends s = Some (LvDrainSends, s\<lparr>sv_sends := snd (stop_and_drain [] (sv_sends s))\<rparr>)"
| "session_leave E t me LvDrainSends s =
     (if tn_interrupted t then Some (LvRollback False ShutdownTimedOut, s)
      else if ld_inflight (sv_sends s) = 0 then Some (LvGate, s) else None)"
| "session_leave E t me LvGate s =
     (if sv_heartbeat_gate s = None then Some (LvCredential, s\<lparr>sv_heartbeat_gate := Some me\<rparr>) else None)"
| "session_leave E t me LvCredential s = Some (LvIntent (sh_credential (sv_shared s)), s)"
| "session_leave E t me (LvIntent credential) s =
     (case ji_intent (tn_issuer t) (se_profile E) of
        Inl error \<Rightarrow> Some (LvRollback True (Local error), s)
      | Inr pending \<Rightarrow>
          (case on_profiles (store_journal_with_fault (st_url (se_site E)) (st_journal_codec (se_site E)) (sd_journal (se_started E))
              (tn_sys t 0) pending (NoJournalFault, tn_random t 0)) (sv_disk s) of
             (Inl error, d) \<Rightarrow> Some (LvRollback True (Local error), s\<lparr>sv_disk := d\<rparr>)
           | (Inr _, d) \<Rightarrow> Some (LvCall credential pending, s\<lparr>sv_disk := d\<rparr>)))"
| "session_leave E t me (LvCall credential pending) s = Some (LvAnswer pending (tn_leave t), s)"
| "session_leave E t me (LvAnswer pending answer) s =
     (case leave_settle (se_site E) (sd_store (se_started E)) (sd_journal (se_started E)) (se_profile E) (tn_issuer t) (tn_seam t)
         pending answer (tn_random t 1) (tn_sys t) (sv_disk s) of
        (RolledBack error, d) \<Rightarrow> Some (LvRollback True error, s\<lparr>sv_disk := d\<rparr>)
      | (Unresolved error, d) \<Rightarrow> Some (LvUnknown error, s\<lparr>sv_disk := d\<rparr>)
      | (LeftRelay cleanup response, d) \<Rightarrow>
          Some (LvStopped cleanup response, s\<lparr>sv_cancel := True, sv_operation_cancel := True, sv_disk := d\<rparr>))"
| "session_leave E t me (LvUnknown error) s = Some (LvUnknownLifecycle error, set_health SessionHealth.OutcomeUnknown s)"
| "session_leave E t me (LvUnknownLifecycle error) s = lv_return True (Inl error) (s\<lparr>sv_lifecycle := LifecycleState.OutcomeUnknown\<rparr>)"
| "session_leave E t me (LvStopped cleanup response) s = Some (LvLeft cleanup response, set_health SessionHealth.Stopped s)"
| "session_leave E t me (LvLeft cleanup response) s = Some (LvTake cleanup response, s\<lparr>sv_lifecycle := Left\<rparr>)"
| "session_leave E t me (LvTake cleanup response) s =
     (if sv_task s then Some (LvJoin cleanup response, s\<lparr>sv_task := False\<rparr>) else lv_return True (left_result cleanup response) s)"
| "session_leave E t me (LvJoin cleanup response) s =
     (if tn_interrupted t then Some (LvAborted, s\<lparr>sv_abort := True\<rparr>)
      else if sv_ended s then lv_return True (left_result cleanup response) s else None)"
| "session_leave E t me LvAborted s = (if sv_ended s then lv_return True (Inl ShutdownTimedOut) s else None)"
| "session_leave E t me (LvRollback gated error) s =
     (if sv_shutdown_requested s then lv_return gated (Inl error) s
      else Some (LvReopenSends gated error, s\<lparr>sv_read_cancel := Suc (sv_read_cancel s)\<rparr>))"
| "session_leave E t me (LvReopenSends gated error) s =
     Some (LvRecheckSends gated error, s\<lparr>sv_sends := reopen_locked (sv_sends s)\<rparr>)"
| "session_leave E t me (LvRecheckSends gated error) s =
     Some (LvReopenReports gated error, s\<lparr>sv_sends := reopen_recheck (sv_sends s)\<rparr>)"
| "session_leave E t me (LvReopenReports gated error) s =
     Some (LvRollbackFlag gated error, s\<lparr>sv_reports := reports_reopen (sv_reports s)\<rparr>)"
| "session_leave E t me (LvRollbackFlag gated error) s =
     (if sv_shutdown_requested s then lv_return gated (Inl error) s else Some (LvRollbackLifecycle gated error, s))"
| "session_leave E t me (LvRollbackLifecycle gated error) s =
     lv_return gated (Inl error) (s\<lparr>sv_lifecycle := LifecycleState.Ready\<rparr>)"
| "session_leave E t me (LvDone r) s = None"

fun lv_gated :: "leave_pc \<Rightarrow> bool" where
  "lv_gated (LvRollback gated _) = gated"
| "lv_gated (LvReopenSends gated _) = gated"
| "lv_gated (LvRecheckSends gated _) = gated"
| "lv_gated (LvReopenReports gated _) = gated"
| "lv_gated (LvRollbackFlag gated _) = gated"
| "lv_gated (LvRollbackLifecycle gated _) = gated"
| "lv_gated LvCredential = True"
| "lv_gated (LvIntent _) = True"
| "lv_gated (LvCall _ _) = True"
| "lv_gated (LvAnswer _ _) = True"
| "lv_gated (LvUnknown _) = True"
| "lv_gated (LvUnknownLifecycle _) = True"
| "lv_gated (LvStopped _ _) = True"
| "lv_gated (LvLeft _ _) = True"
| "lv_gated (LvTake _ _) = True"
| "lv_gated (LvJoin _ _) = True"
| "lv_gated LvAborted = True"
| "lv_gated _ = False"

fun lv_holds :: "leave_pc \<Rightarrow> bool" where
  "lv_holds LvOperation = False"
| "lv_holds (LvDone _) = False"
| "lv_holds _ = True"

section \<open>Shutdown\<close>

datatype shutdown_pc =
    ShFlag
  | ShSends
  | ShAdmission
  | ShReports
  | ShCancelReports
  | ShDrainReports
  | ShStopSends
  | ShDrainSends
  | ShOperations
  | ShReads
  | ShCancel
  | ShTake
  | ShJoin
  | ShAborted
  | ShOperation
  | ShHealth
  | ShRelease
  | ShDone "SessionError + unit"

fun shutdown :: "turn \<Rightarrow> nat \<Rightarrow> shutdown_pc \<Rightarrow> SupervisorState \<Rightarrow> (shutdown_pc \<times> SupervisorState) option" where
  "shutdown t me ShFlag s = Some (ShSends, s\<lparr>sv_shutdown_requested := True\<rparr>)"
| "shutdown t me ShSends s = Some (ShAdmission, s\<lparr>sv_sends := (sv_sends s)\<lparr>ld_permanently_closed := True\<rparr>\<rparr>)"
| "shutdown t me ShAdmission s = Some (ShReports, s\<lparr>sv_sends := stop_admission (sv_sends s)\<rparr>)"
| "shutdown t me ShReports s = Some (ShCancelReports, s\<lparr>sv_reports := (sv_reports s)\<lparr>rt_permanently_closed := True\<rparr>\<rparr>)"
| "shutdown t me ShCancelReports s = Some (ShDrainReports, s\<lparr>sv_reports := cancel_reports (sv_reports s)\<rparr>)"
| "shutdown t me ShDrainReports s =
     (if tn_interrupted t then Some (ShDone (Inl ShutdownTimedOut), s)
      else if rt_active (sv_reports s) = 0 then Some (ShStopSends, s) else None)"
| "shutdown t me ShStopSends s = Some (ShDrainSends, s\<lparr>sv_sends := snd (stop_and_drain [] (sv_sends s))\<rparr>)"
| "shutdown t me ShDrainSends s =
     (if tn_interrupted t then Some (ShDone (Inl ShutdownTimedOut), s)
      else if ld_inflight (sv_sends s) = 0 then Some (ShOperations, s) else None)"
| "shutdown t me ShOperations s = Some (ShReads, s\<lparr>sv_operation_cancel := True\<rparr>)"
| "shutdown t me ShReads s = Some (ShCancel, cancel_reads (sv_read_cancel s) s)"
| "shutdown t me ShCancel s = Some (ShTake, s\<lparr>sv_cancel := True\<rparr>)"
| "shutdown t me ShTake s = (if sv_task s then Some (ShJoin, s\<lparr>sv_task := False\<rparr>) else Some (ShOperation, s))"
| "shutdown t me ShJoin s =
     (if tn_interrupted t then Some (ShAborted, s\<lparr>sv_abort := True\<rparr>)
      else if sv_ended s then Some (ShOperation, s) else None)"
| "shutdown t me ShAborted s = (if sv_ended s then Some (ShDone (Inl ShutdownTimedOut), s) else None)"
| "shutdown t me ShOperation s =
     (if tn_interrupted t then Some (ShDone (Inl ShutdownTimedOut), s)
      else if sv_operation_gate s = None then Some (ShHealth, s\<lparr>sv_operation_gate := Some me\<rparr>) else None)"
| "shutdown t me ShHealth s = Some (ShRelease, set_health SessionHealth.Stopped s)"
| "shutdown t me ShRelease s = Some (ShDone (Inr ()), free_operation (s\<lparr>sv_profile_lock := False\<rparr>))"
| "shutdown t me (ShDone r) s = None"

fun sh_holds :: "shutdown_pc \<Rightarrow> bool" where
  "sh_holds ShHealth = True"
| "sh_holds ShRelease = True"
| "sh_holds _ = False"

text \<open>\<open>request_shutdown\<close>, and dropping the runtime, which also aborts the scheduler.\<close>

datatype request_pc = RqFlag | RqSends | RqAdmission | RqReports | RqCancelReports | RqReads | RqOperations | RqCancel | RqTake | RqDone

fun request_shutdown :: "bool \<Rightarrow> request_pc \<Rightarrow> SupervisorState \<Rightarrow> (request_pc \<times> SupervisorState) option" where
  "request_shutdown dropped RqFlag s = Some (RqSends, s\<lparr>sv_shutdown_requested := True\<rparr>)"
| "request_shutdown dropped RqSends s = Some (RqAdmission, s\<lparr>sv_sends := (sv_sends s)\<lparr>ld_permanently_closed := True\<rparr>\<rparr>)"
| "request_shutdown dropped RqAdmission s = Some (RqReports, s\<lparr>sv_sends := stop_admission (sv_sends s)\<rparr>)"
| "request_shutdown dropped RqReports s = Some (RqCancelReports, s\<lparr>sv_reports := (sv_reports s)\<lparr>rt_permanently_closed := True\<rparr>\<rparr>)"
| "request_shutdown dropped RqCancelReports s = Some (RqReads, s\<lparr>sv_reports := cancel_reports (sv_reports s)\<rparr>)"
| "request_shutdown dropped RqReads s = Some (RqOperations, cancel_reads (sv_read_cancel s) s)"
| "request_shutdown dropped RqOperations s = Some (RqCancel, s\<lparr>sv_operation_cancel := True\<rparr>)"
| "request_shutdown dropped RqCancel s = Some (if dropped then RqTake else RqDone, s\<lparr>sv_cancel := True\<rparr>)"
| "request_shutdown dropped RqTake s =
     Some (RqDone, if sv_task s then s\<lparr>sv_task := False, sv_abort := True\<rparr> else s)"
| "request_shutdown dropped RqDone s = None"

section \<open>All tasks\<close>

datatype session_task =
    Scheduler heartbeat_pc
  | Report AvailabilityDto report_pc
  | Sender PreparedSend sender_pc
  | SendOwner PreparedSend AuthoritySnapshot nat owner_pc
  | Reader reader_pc
  | Operator operation_pc
  | Leaver leave_pc
  | Stopper shutdown_pc
  | Requester bool request_pc

fun task_next ::
  "session_env \<Rightarrow> turn \<Rightarrow> nat \<Rightarrow> session_task \<Rightarrow> SupervisorState
   \<Rightarrow> (session_task \<times> SupervisorState \<times> session_task option) option" where
  "task_next E t me (Scheduler pc) s =
     map_option (\<lambda>(pc', s'). (Scheduler pc', s', None)) (if sv_abort s \<and> tn_interrupted t then hb_abort pc s else run_heartbeat E t me pc s)"
| "task_next E t me (Report a pc) s = map_option (\<lambda>(pc', s'). (Report a pc', s', None)) (report_availability E t me a pc s)"
| "task_next E t me (Sender p pc) s =
     map_option (\<lambda>(pc', s', n). (Sender p pc', s', map_option (\<lambda>(au, entry). SendOwner p au entry SdGate) n)) (session_send E p pc s)"
| "task_next E t me (SendOwner p au entry pc) s =
     map_option (\<lambda>(pc', s'). (SendOwner p au entry pc', s', None)) (owned_send t me p au entry pc s)"
| "task_next E t me (Reader pc) s = map_option (\<lambda>pc'. (Reader pc', s, None)) (read_with_epoch E t pc s)"
| "task_next E t me (Operator pc) s = map_option (\<lambda>(pc', s'). (Operator pc', s', None)) (gated_operation E t me pc s)"
| "task_next E t me (Leaver pc) s = map_option (\<lambda>(pc', s'). (Leaver pc', s', None)) (session_leave E t me pc s)"
| "task_next E t me (Stopper pc) s = map_option (\<lambda>(pc', s'). (Stopper pc', s', None)) (shutdown t me pc s)"
| "task_next E t me (Requester dropped pc) s =
     map_option (\<lambda>(pc', s'). (Requester dropped pc', s', None)) (request_shutdown dropped pc s)"

text \<open>The calls of clients.\<close>

inductive arriving :: "session_task \<Rightarrow> bool" where
  "arriving (Report a RpRegister)"
| "arriving (Sender p (SrAuthority AuFlag))"
| "arriving (Reader RdToken)"
| "arriving (Operator OpGate)"
| "arriving (Leaver LvOperation)"
| "arriving (Stopper ShFlag)"
| "arriving (Requester dropped RqFlag)"

inductive_simps arriving_simps: "arriving p"

fun holds_heartbeat :: "session_task \<Rightarrow> bool" where
  "holds_heartbeat (Scheduler pc) = hb_holds pc"
| "holds_heartbeat (Report a pc) = rp_holds pc"
| "holds_heartbeat (SendOwner p au entry pc) = sd_holds pc"
| "holds_heartbeat (Leaver pc) = lv_gated pc"
| "holds_heartbeat _ = False"

fun holds_operation :: "session_task \<Rightarrow> bool" where
  "holds_operation (Operator pc) = op_holds pc"
| "holds_operation (Leaver pc) = lv_holds pc"
| "holds_operation (Stopper pc) = sh_holds pc"
| "holds_operation _ = False"

end
