(* ===== verification/Session_Authority.thy ===== *)
theory Session_Authority
  imports Session_Runtime
begin

text \<open>
  What the tasks of a session promise each other, and what follows for every moment of a run: whoever
  talks to the relay under the heartbeat gate uses the credential in force, which is durable on disk, and
  the life cycle only moves along its edges.
\<close>

section \<open>Durable credentials\<close>

text \<open>A file that loads as \<open>c\<close> on every system that works.\<close>

definition loads_as :: "session_env \<Rightarrow> ClientCredential \<Rightarrow> node option \<Rightarrow> bool" where
  "loads_as E c n \<longleftrightarrow> (\<exists>bytes m. n = Some (Regular bytes True m))
     \<and> (\<forall>os e name. cs_name (sd_store (se_started E)) = Some name \<longrightarrow> os_fail os = (\<lambda>_. None) \<longrightarrow> dir_live e name = n
        \<longrightarrow> fst (load (st_store (se_site E)) (sd_store (se_started E)) os (sd_binding (se_started E)) e) = Inr c)"

definition saved :: "session_env \<Rightarrow> ClientCredential \<Rightarrow> disk \<Rightarrow> bool" where
  "saved E c d \<longleftrightarrow> (\<exists>name. cs_name (sd_store (se_started E)) = Some name \<and> entry_in name (loads_as E c) (dk_credentials d))"

text \<open>The credentials that the client builds from the relay's answers; the record must not be too long.\<close>

definition issued :: "session_env \<Rightarrow> ClientCredential \<Rightarrow> bool" where
  "issued E c \<longleftrightarrow> (\<exists>raw. Credential_from_response (sl_headers (st_store (se_site E))) (Some raw) = Inr c
     \<and> fits (st_store (se_site E)) (credential_record (sd_binding (se_started E)) c (''Bearer '' @ raw)))"

definition turn_ok :: "session_env \<Rightarrow> turn \<Rightarrow> bool" where
  "turn_ok E t \<longleftrightarrow> (\<forall>response c. tn_resume t = Some (Inr (response, c)) \<longrightarrow> issued E c)"

definition env_ok :: "session_env \<Rightarrow> bool" where
  "env_ok E \<longleftrightarrow> store_laws (st_store (se_site E)) \<and> cs_name (sd_store (se_started E)) \<noteq> None
     \<and> (\<exists>origin profile squad member. CredentialBinding_new (st_url (se_site E)) origin profile squad member
          = Inr (sd_binding (se_started E)))"

lemma persisted_saved:
  assumes env: "env_ok E" and issued: "issued E c"
    and run: "on_credentials (store (st_store (se_site E)) (sd_store (se_started E)) os (sd_binding (se_started E)) c) d = (Inr u, d')"
  shows "saved E c d'"
proof -
  let ?L = "st_store (se_site E)" and ?b = "sd_binding (se_started E)"
  obtain name where name: "sd_store (se_started E) = \<lparr>cs_name = Some name\<rparr>"
    using env by (cases "sd_store (se_started E)") (auto simp: env_ok_def)
  have laws: "store_laws ?L" using env by (simp add: env_ok_def)
  from env obtain origin profile squad member where binding: "CredentialBinding_new (st_url (se_site E)) origin profile squad member = Inr ?b"
    unfolding env_ok_def by blast
  from issued obtain raw where raw: "Credential_from_response (sl_headers ?L) (Some raw) = Inr c"
    "fits ?L (credential_record ?b c (''Bearer '' @ raw))" unfolding issued_def by blast
  obtain e where e: "store_with_fault ?L \<lparr>cs_name = Some name\<rparr> os ?b c NoFault (dk_credentials d) = (Inr u, e)" "d' = d\<lparr>dk_credentials := e\<rparr>"
    using run by (auto simp: on_credentials_def store_def name split: prod.splits)
  from store_with_fault_cases [OF laws raw(1) e(1)]
  obtain bytes where bytes: "sl_to_vec ?L (credential_record ?b c (''Bearer '' @ raw)) = Some bytes"
    and stored: "store_bytes_unix \<lparr>cs_name = Some name\<rparr> NoFault os bytes (dk_credentials d) = (Inr u, e)" by blast
  have mode: "os_mode os mod 512 = 384"
    using tripleD [OF wrong_mode_spares_target [of os name "\<lambda>_. True"] _ stored] by (auto simp: entry_in_def)
  have size: "0 < length bytes" "length bytes \<le> MAX_CREDENTIAL_BYTES" using raw(2) bytes by (simp_all add: fits_def)
  note loaded = load_stored_record [OF laws binding raw(1) bytes size _ mode]
  have "loads_as E c (Some (Regular bytes True (os_mode os)))"
    unfolding loads_as_def name using loaded by auto
  then show ?thesis
    using credential_file.success [OF stored] by (auto simp: saved_def name entry_in_def e(2))
qed

lemma synced_loads_as: "synced (loads_as E c)"
  by (auto simp: synced_def loads_as_def)

lemma saved_crash:
  assumes "saved E c d" and "disk_crash d d'"
  shows "saved E c d'"
  using assms crash_entry_in [OF _ _ synced_loads_as] by (auto simp: saved_def disk_crash_def)

lemma saved_loads:
  assumes "saved E c d" and "os_fail os = (\<lambda>_. None)"
  shows "fst (load (st_store (se_site E)) (sd_store (se_started E)) os (sd_binding (se_started E)) (dk_credentials d)) = Inr c"
  using assms by (auto simp: saved_def loads_as_def dest!: entry_in_live)

lemma saved_cong: "dk_credentials d' = dk_credentials d \<Longrightarrow> saved E c d' = saved E c d"
  by (simp add: saved_def)

lemma on_profiles_credentials: "on_profiles m d = (r, d') \<Longrightarrow> dk_credentials d' = dk_credentials d"
  by (auto simp: on_profiles_def split: prod.splits)

lemma leave_settle_credentials:
  assumes "leave_settle S st journal profile issuer seam pending answer random sys d = (outcome, d')"
    and "\<forall>cleanup response. outcome \<noteq> LeftRelay cleanup response"
  shows "dk_credentials d' = dk_credentials d"
  using assms
  by (auto simp: leave_settle_def leave_confirmed_def split: sum.splits prod.splits if_splits dest!: on_profiles_credentials)

section \<open>What tasks assert\<close>

definition resume_over :: "resume_status \<Rightarrow> bool" where
  "resume_over r \<longleftrightarrow> (\<exists>x. r = Resumed x)"

abbreviation quiet :: "resume_status list \<Rightarrow> bool" where
  "quiet rs \<equiv> list_all resume_over rs"

abbreviation in_force :: "SupervisorState \<Rightarrow> ClientCredential" where
  "in_force s \<equiv> sh_credential (sv_shared s)"

definition in_order :: "session_env \<Rightarrow> SupervisorState \<Rightarrow> bool" where
  "in_order E s \<longleftrightarrow> saved E (in_force s) (sv_disk s) \<and> quiet (sv_resumes s) \<and> sv_lifecycle s \<in> {LifecycleState.Ready, Leaving}"

text \<open>A resume in progress, and what its end says about the disk.\<close>

definition result_ok :: "session_env \<Rightarrow> SupervisorState \<Rightarrow> ResumeTransactionError + SessionResponse \<times> ClientCredential \<Rightarrow> bool" where
  "result_ok E s r = (case r of
       Inr (response, c) \<Rightarrow> saved E c (sv_disk s)
     | Inl error \<Rightarrow> fst (resume_failure error) = LifecycleState.Ready \<longrightarrow> saved E (in_force s) (sv_disk s))"

definition waiting :: "session_env \<Rightarrow> nat \<Rightarrow> SupervisorState \<Rightarrow> bool" where
  "waiting E k s \<longleftrightarrow> sv_lifecycle s = Recovering \<and> k < length (sv_resumes s)
     \<and> (\<forall>j < length (sv_resumes s). j \<noteq> k \<longrightarrow> resume_over (sv_resumes s ! j))
     \<and> (case sv_resumes s ! k of Resumed r \<Rightarrow> result_ok E s r | _ \<Rightarrow> saved E (in_force s) (sv_disk s))"

text \<open>A credential that was in force in its generation; the generation stops counting at its maximum.\<close>

definition coherent :: "ClientCredential \<Rightarrow> nat \<Rightarrow> SupervisorState \<Rightarrow> bool" where
  "coherent c g s \<longleftrightarrow> g \<le> sh_generation (sv_shared s)
     \<and> (g = sh_generation (sv_shared s) \<and> g < usize_max \<longrightarrow> c = in_force s)"

fun hb_asserts :: "session_env \<Rightarrow> heartbeat_pc \<Rightarrow> SupervisorState \<Rightarrow> bool" where
  "hb_asserts E (HbRequest b) s = in_order E s"
| "hb_asserts E (HbCredential b req) s = in_order E s"
| "hb_asserts E (HbCall b req c) s = (in_order E s \<and> c = in_force s)"
| "hb_asserts E (HbFlagAgain b c r) s = (in_order E s \<and> c = in_force s)"
| "hb_asserts E (HbLifecycleAgain b c r) s = (in_order E s \<and> c = in_force s)"
| "hb_asserts E (HbSettle b c r) s = (in_order E s \<and> c = in_force s)"
| "hb_asserts E (HbResume b c) s = (saved E (in_force s) (sv_disk s) \<and> quiet (sv_resumes s) \<and> sv_lifecycle s = Recovering)"
| "hb_asserts E (HbWait b k) s = waiting E k s"
| "hb_asserts E (HbResumed b r) s = (result_ok E s r \<and> quiet (sv_resumes s) \<and> sv_lifecycle s = Recovering)"
| "hb_asserts E (HbReady b) s = (saved E (in_force s) (sv_disk s) \<and> quiet (sv_resumes s) \<and> sv_lifecycle s = Recovering)"
| "hb_asserts E _ s = True"

fun rp_asserts :: "session_env \<Rightarrow> report_pc \<Rightarrow> SupervisorState \<Rightarrow> bool" where
  "rp_asserts E (RpCredential token) s = in_order E s"
| "rp_asserts E (RpCall token c) s = (in_order E s \<and> c = in_force s)"
| "rp_asserts E (RpLifecycleAgain c r) s = (in_order E s \<and> c = in_force s)"
| "rp_asserts E (RpSettle c r) s = (in_order E s \<and> c = in_force s)"
| "rp_asserts E (RpResume c) s = (saved E (in_force s) (sv_disk s) \<and> quiet (sv_resumes s) \<and> sv_lifecycle s = Recovering)"
| "rp_asserts E (RpWait k) s = waiting E k s"
| "rp_asserts E (RpResumed r) s = (result_ok E s r \<and> quiet (sv_resumes s) \<and> sv_lifecycle s = Recovering)"
| "rp_asserts E RpReady s = (saved E (in_force s) (sv_disk s) \<and> quiet (sv_resumes s) \<and> sv_lifecycle s = Recovering)"
| "rp_asserts E (RpFailed e) s = (result_ok E s (Inl e) \<and> quiet (sv_resumes s) \<and> sv_lifecycle s = Recovering)"
| "rp_asserts E _ s = True"

fun au_asserts :: "authority_pc \<Rightarrow> SupervisorState \<Rightarrow> bool" where
  "au_asserts (AuLifecycleAgain c g h) s = coherent c g s"
| "au_asserts (AuFlagAgain c g) s = coherent c g s"
| "au_asserts _ s = True"

fun sr_asserts :: "sender_pc \<Rightarrow> SupervisorState \<Rightarrow> bool" where
  "sr_asserts (SrAuthority pc) s = au_asserts pc s"
| "sr_asserts (SrReserve au) s = coherent (au_credential au) (au_generation au) s"
| "sr_asserts _ s = True"

fun sd_asserts :: "session_env \<Rightarrow> AuthoritySnapshot \<Rightarrow> owner_pc \<Rightarrow> SupervisorState \<Rightarrow> bool" where
  "sd_asserts E au (SdShared lifecycle) s = (lifecycle \<in> {LifecycleState.Ready, Leaving} \<longrightarrow> in_order E s)"
| "sd_asserts E au SdCall s = (in_order E s \<and> au_generation au = sh_generation (sv_shared s))"
| "sd_asserts E au _ s = True"

fun lv_asserts :: "session_env \<Rightarrow> leave_pc \<Rightarrow> SupervisorState \<Rightarrow> bool" where
  "lv_asserts E LvCleanupAgain s = (sv_lifecycle s = Left)"
| "lv_asserts E LvStopSends s = (sv_lifecycle s = Leaving)"
| "lv_asserts E LvDrainSends s = (sv_lifecycle s = Leaving)"
| "lv_asserts E LvGate s = (sv_lifecycle s = Leaving)"
| "lv_asserts E LvCredential s = (sv_lifecycle s = Leaving \<and> in_order E s)"
| "lv_asserts E (LvIntent c) s = (sv_lifecycle s = Leaving \<and> in_order E s \<and> c = in_force s)"
| "lv_asserts E (LvCall c pending) s = (sv_lifecycle s = Leaving \<and> in_order E s \<and> c = in_force s)"
| "lv_asserts E (LvAnswer pending answer) s = (sv_lifecycle s = Leaving \<and> in_order E s)"
| "lv_asserts E (LvUnknown e) s = (sv_lifecycle s = Leaving)"
| "lv_asserts E (LvUnknownLifecycle e) s = (sv_lifecycle s = Leaving)"
| "lv_asserts E (LvStopped c r) s = (sv_lifecycle s = Leaving)"
| "lv_asserts E (LvLeft c r) s = (sv_lifecycle s = Leaving)"
| "lv_asserts E (LvTake c r) s = (sv_lifecycle s = Left)"
| "lv_asserts E (LvJoin c r) s = (sv_lifecycle s = Left)"
| "lv_asserts E LvAborted s = (sv_lifecycle s = Left)"
| "lv_asserts E (LvRollback gated e) s = (sv_lifecycle s = Leaving \<and> (gated \<longrightarrow> in_order E s))"
| "lv_asserts E (LvReopenSends gated e) s = (sv_lifecycle s = Leaving \<and> (gated \<longrightarrow> in_order E s))"
| "lv_asserts E (LvRecheckSends gated e) s = (sv_lifecycle s = Leaving \<and> (gated \<longrightarrow> in_order E s))"
| "lv_asserts E (LvReopenReports gated e) s = (sv_lifecycle s = Leaving \<and> (gated \<longrightarrow> in_order E s))"
| "lv_asserts E (LvRollbackFlag gated e) s = (sv_lifecycle s = Leaving \<and> (gated \<longrightarrow> in_order E s))"
| "lv_asserts E (LvRollbackLifecycle gated e) s = (sv_lifecycle s = Leaving \<and> (gated \<longrightarrow> in_order E s))"
| "lv_asserts E _ s = True"

fun asserts :: "session_env \<Rightarrow> session_task \<Rightarrow> SupervisorState \<Rightarrow> bool" where
  "asserts E (Scheduler pc) s = hb_asserts E pc s"
| "asserts E (Report a pc) s = rp_asserts E pc s"
| "asserts E (Sender p pc) s = sr_asserts pc s"
| "asserts E (SendOwner p au entry pc) s = (coherent (au_credential au) (au_generation au) s \<and> sd_asserts E au pc s)"
| "asserts E (Leaver pc) s = lv_asserts E pc s"
| "asserts E _ s = True"

text \<open>Gates and assertions of a task, also of one that does not exist yet.\<close>

definition session_own :: "session_env \<Rightarrow> nat \<Rightarrow> session_task option \<Rightarrow> SupervisorState \<Rightarrow> bool" where
  "session_own E me p s = (case p of
       None \<Rightarrow> sv_heartbeat_gate s \<noteq> Some me \<and> sv_operation_gate s \<noteq> Some me
     | Some task \<Rightarrow> (sv_heartbeat_gate s = Some me \<longleftrightarrow> holds_heartbeat task)
         \<and> (sv_operation_gate s = Some me \<longleftrightarrow> holds_operation task) \<and> asserts E task s)"

text \<open>Only a leave holds both gates, and only then may the files go while the session is not over.\<close>

definition both_gates :: "SupervisorState \<Rightarrow> bool" where
  "both_gates s \<longleftrightarrow> (\<exists>u. sv_heartbeat_gate s = Some u \<and> sv_operation_gate s = Some u)"

definition session_common :: "session_env \<Rightarrow> SupervisorState \<Rightarrow> bool" where
  "session_common E s \<longleftrightarrow>
     (sv_lifecycle s \<in> {LifecycleState.Ready, Leaving} \<and> \<not> both_gates s \<longrightarrow> saved E (in_force s) (sv_disk s) \<and> quiet (sv_resumes s))
   \<and> (\<forall>response c. Persisting response c \<in> set (sv_resumes s) \<longrightarrow> issued E c) \<and> sh_generation (sv_shared s) \<le> usize_max \<and> env_ok E"

section \<open>What tasks guarantee\<close>

definition gate_kept :: "nat \<Rightarrow> nat option \<Rightarrow> nat option \<Rightarrow> bool" where
  "gate_kept me g g' \<longleftrightarrow> g' = g \<or> g \<in> {None, Some me} \<and> g' \<in> {None, Some me}"

fun lifecycle_edge :: "LifecycleState \<Rightarrow> LifecycleState \<Rightarrow> bool" where
  "lifecycle_edge LifecycleState.Ready b \<longleftrightarrow> b \<in> {LifecycleState.Ready, Leaving, Recovering}"
| "lifecycle_edge Leaving b \<longleftrightarrow> b \<in> {Leaving, LifecycleState.Ready, Left, LifecycleState.OutcomeUnknown}"
| "lifecycle_edge Recovering b \<longleftrightarrow> b \<in> {Recovering, LifecycleState.Ready, LifecycleState.OutcomeUnknown, LifecycleState.RotationFailed}"
| "lifecycle_edge a b \<longleftrightarrow> a = b"

definition session_guarantees :: "nat \<Rightarrow> SupervisorState \<Rightarrow> SupervisorState \<Rightarrow> bool" where
  "session_guarantees me s s' \<longleftrightarrow>
     gate_kept me (sv_heartbeat_gate s) (sv_heartbeat_gate s') \<and> gate_kept me (sv_operation_gate s) (sv_operation_gate s')
   \<and> lifecycle_edge (sv_lifecycle s) (sv_lifecycle s')
   \<and> (sv_operation_gate s \<noteq> Some me \<and> sv_lifecycle s = Leaving \<longrightarrow> sv_lifecycle s' = Leaving)
   \<and> (sv_heartbeat_gate s \<noteq> Some me \<longrightarrow>
        in_force s' = in_force s \<and> sh_generation (sv_shared s') = sh_generation (sv_shared s) \<and> sv_resumes s' = sv_resumes s
      \<and> (sv_lifecycle s \<noteq> Left \<longrightarrow> dk_credentials (sv_disk s') = dk_credentials (sv_disk s))
      \<and> (sv_lifecycle s = Recovering \<longrightarrow> sv_lifecycle s' = Recovering)
      \<and> (sv_lifecycle s \<in> {LifecycleState.Ready, Leaving} \<longrightarrow> sv_lifecycle s' \<in> {LifecycleState.Ready, Leaving}))
   \<and> sh_generation (sv_shared s) \<le> sh_generation (sv_shared s')
   \<and> (sh_generation (sv_shared s') = sh_generation (sv_shared s) \<and> sh_generation (sv_shared s) < usize_max \<longrightarrow> in_force s' = in_force s)"

lemma gate_kept_other: "gate_kept me g g' \<Longrightarrow> u \<noteq> me \<Longrightarrow> g' = Some u \<longleftrightarrow> g = Some u"
  by (auto simp: gate_kept_def)

lemma guaranteesD:
  assumes "session_guarantees me s s'"
  shows "u \<noteq> me \<Longrightarrow> sv_heartbeat_gate s' = Some u \<longleftrightarrow> sv_heartbeat_gate s = Some u"
    and "u \<noteq> me \<Longrightarrow> sv_operation_gate s' = Some u \<longleftrightarrow> sv_operation_gate s = Some u"
    and "lifecycle_edge (sv_lifecycle s) (sv_lifecycle s')"
    and "sv_operation_gate s \<noteq> Some me \<Longrightarrow> sv_lifecycle s = Leaving \<Longrightarrow> sv_lifecycle s' = Leaving"
    and "coherent c g s \<Longrightarrow> coherent c g s'"
proof -
  note G = assms [unfolded session_guarantees_def]
  show "u \<noteq> me \<Longrightarrow> sv_heartbeat_gate s' = Some u \<longleftrightarrow> sv_heartbeat_gate s = Some u"
    and "u \<noteq> me \<Longrightarrow> sv_operation_gate s' = Some u \<longleftrightarrow> sv_operation_gate s = Some u"
    using G gate_kept_other by blast+
  show "lifecycle_edge (sv_lifecycle s) (sv_lifecycle s')"
    and "sv_operation_gate s \<noteq> Some me \<Longrightarrow> sv_lifecycle s = Leaving \<Longrightarrow> sv_lifecycle s' = Leaving" using G by blast+
  have "sh_generation (sv_shared s) \<le> sh_generation (sv_shared s')"
    "sh_generation (sv_shared s') = sh_generation (sv_shared s) \<Longrightarrow> sh_generation (sv_shared s) < usize_max \<Longrightarrow> in_force s' = in_force s"
    using G by blast+
  then show "coherent c g s \<Longrightarrow> coherent c g s'" by (auto simp: coherent_def)
qed

text \<open>Who does not hold the heartbeat gate leaves credential, generation and resumes alone.\<close>

lemma guarantees_frame:
  assumes "session_guarantees me s s'" and "sv_heartbeat_gate s \<noteq> Some me"
  shows "in_force s' = in_force s" and "sh_generation (sv_shared s') = sh_generation (sv_shared s)" and "sv_resumes s' = sv_resumes s"
    and "sv_lifecycle s \<noteq> Left \<Longrightarrow> saved E c (sv_disk s') = saved E c (sv_disk s)"
    and "sv_lifecycle s = Recovering \<Longrightarrow> sv_lifecycle s' = Recovering"
    and "sv_lifecycle s \<in> {LifecycleState.Ready, Leaving} \<Longrightarrow> sv_lifecycle s' \<in> {LifecycleState.Ready, Leaving}"
proof -
  note G = assms(1) [unfolded session_guarantees_def]
  show "in_force s' = in_force s" and "sh_generation (sv_shared s') = sh_generation (sv_shared s)" and "sv_resumes s' = sv_resumes s"
    and "sv_lifecycle s = Recovering \<Longrightarrow> sv_lifecycle s' = Recovering"
    and "sv_lifecycle s \<in> {LifecycleState.Ready, Leaving} \<Longrightarrow> sv_lifecycle s' \<in> {LifecycleState.Ready, Leaving}"
    using G assms(2) by blast+
  have "sv_lifecycle s \<noteq> Left \<Longrightarrow> dk_credentials (sv_disk s') = dk_credentials (sv_disk s)" using G assms(2) by blast
  then show "sv_lifecycle s \<noteq> Left \<Longrightarrow> saved E c (sv_disk s') = saved E c (sv_disk s)" by (rule saved_cong)
qed

lemma in_order_stable:
  assumes "session_guarantees me s s'" and "sv_heartbeat_gate s \<noteq> Some me" and "in_order E s"
  shows "in_order E s'"
proof -
  have "sv_lifecycle s \<noteq> Left" using assms(3) by (auto simp: in_order_def)
  with guarantees_frame [OF assms(1,2)] assms(3) show ?thesis unfolding in_order_def by simp
qed

lemma recovering_stable:
  assumes "session_guarantees me s s'" and "sv_heartbeat_gate s \<noteq> Some me" and "sv_lifecycle s = Recovering"
  shows "result_ok E s' r = result_ok E s r" and "waiting E k s' = waiting E k s"
proof -
  note F = guarantees_frame [OF assms(1,2)]
  show result: "result_ok E s' r = result_ok E s r" for r
    using F assms(3) by (simp add: result_ok_def split: sum.splits prod.splits)
  show "waiting E k s' = waiting E k s"
    using F assms(3) by (cases "sv_resumes s ! k") (simp_all add: waiting_def result)
qed

lemma waiting_recovering: "waiting E k s \<Longrightarrow> sv_lifecycle s = Recovering"
  by (simp add: waiting_def)

lemma session_stable:
  assumes "session_guarantees t s s'" and "u \<noteq> t" and "session_own E u r s"
  shows "session_own E u r s'"
proof (cases r)
  case None
  then show ?thesis using assms guaranteesD(1,2) [OF assms(1,2)] by (simp add: session_own_def)
next
  case (Some task)
  note gates = guaranteesD(1,2) [OF assms(1,2)]
  have own: "sv_heartbeat_gate s = Some u \<longleftrightarrow> holds_heartbeat task" "sv_operation_gate s = Some u \<longleftrightarrow> holds_operation task"
    "asserts E task s" using assms(3) Some by (simp_all add: session_own_def)
  have free: "sv_heartbeat_gate s \<noteq> Some t" if "holds_heartbeat task" using own(1) that assms(2) by simp
  note S = in_order_stable [OF assms(1) free] and R = recovering_stable [OF assms(1) free] and F = guarantees_frame [OF assms(1) free]
    and C = guaranteesD(5) [OF assms(1)]
  have "asserts E task s'"
  proof (cases task)
    case (Scheduler pc)
    then show ?thesis using own(3) S R F by (cases pc) (simp_all add: waiting_recovering)
  next
    case (Report a pc)
    then show ?thesis using own(3) S R F by (cases pc) (simp_all add: waiting_recovering)
  next
    case (Sender p pc)
    then show ?thesis
    proof (cases pc)
      case (SrAuthority a)
      then show ?thesis using own(3) C Sender by (cases a) simp_all
    qed (use own(3) C Sender in simp_all)
  next
    case (SendOwner p au entry pc)
    then show ?thesis using own(3) S F(2) C [of "au_credential au" "au_generation au"] by (cases pc) auto
  next
    case (Leaver pc)
    have op: "sv_operation_gate s \<noteq> Some t" if "lv_holds pc" using own(2) that assms(2) Leaver by simp
    note L = guaranteesD(4) [OF assms(1) op] and edge = guaranteesD(3) [OF assms(1)]
    show ?thesis using own(3) S F L edge Leaver by (cases pc) auto
  qed simp_all
  then show ?thesis using Some own gates by (simp add: session_own_def)
qed


section \<open>Every step keeps its promises\<close>

abbreviation keeps :: "session_env \<Rightarrow> nat \<Rightarrow> SupervisorState \<Rightarrow> session_task \<Rightarrow> SupervisorState \<Rightarrow> bool" where
  "keeps E me s task s' \<equiv> session_own E me (Some task) s' \<and> session_common E s' \<and> session_guarantees me s s'"

lemmas step_defs = session_own_def session_common_def session_guarantees_def gate_kept_def both_gates_def

lemmas supervisor_defs = set_health_def renewed_def rotated_def reported_def cancel_reads_def free_heartbeat_def free_operation_def

lemma lifecycle_edge_refl [simp]: "lifecycle_edge a a"
  by (cases a) simp_all

text \<open>Most steps only take or free the heartbeat gate and touch nothing that the promises speak of.\<close>

definition same :: "SupervisorState \<Rightarrow> SupervisorState \<Rightarrow> bool" where
  "same s s' \<longleftrightarrow> sv_lifecycle s' = sv_lifecycle s \<and> in_force s' = in_force s
     \<and> sh_generation (sv_shared s') = sh_generation (sv_shared s) \<and> sv_resumes s' = sv_resumes s
     \<and> dk_credentials (sv_disk s') = dk_credentials (sv_disk s)"

lemma same_saved: "same s s' \<Longrightarrow> saved E c (sv_disk s') = saved E c (sv_disk s)"
  by (rule saved_cong) (simp add: same_def)

lemma same_asserts:
  assumes "same s s'"
  shows "in_order E s' = in_order E s" and "result_ok E s' r = result_ok E s r" and "waiting E k s' = waiting E k s"
    and "coherent c g s' = coherent c g s"
proof -
  note D = assms [unfolded same_def] same_saved [OF assms]
  show "in_order E s' = in_order E s" using D by (simp add: in_order_def)
  show result: "result_ok E s' r = result_ok E s r" for r using D by (simp add: result_ok_def split: sum.splits prod.splits)
  show "waiting E k s' = waiting E k s" using D by (cases "sv_resumes s ! k") (simp_all add: waiting_def result)
  show "coherent c g s' = coherent c g s" using D by (simp add: coherent_def)
qed

definition quietly :: "session_env \<Rightarrow> nat \<Rightarrow> SupervisorState \<Rightarrow> session_task \<Rightarrow> SupervisorState \<Rightarrow> bool" where
  "quietly E me s p' s' \<longleftrightarrow> same s s' \<and> gate_kept me (sv_heartbeat_gate s) (sv_heartbeat_gate s')
     \<and> sv_operation_gate s' = sv_operation_gate s \<and> \<not> holds_operation p'
     \<and> (sv_heartbeat_gate s' = Some me \<longleftrightarrow> holds_heartbeat p') \<and> asserts E p' s'"

lemma gate_kept_simps [simp]: "gate_kept me g g" "gate_kept me (Some me) None" "gate_kept me None (Some me)"
  by (simp_all add: gate_kept_def)

lemma keeps_quietly:
  assumes step: "quietly E me s p' s'" and own: "session_own E me (Some p) s" and common: "session_common E s"
    and p: "\<not> holds_operation p"
  shows "keeps E me s p' s'"
proof -
  note S = step [unfolded quietly_def]
  have same: "same s s'" using S by blast
  have op: "sv_operation_gate s \<noteq> Some me" using own p by (simp add: session_own_def)
  have "both_gates s' = both_gates s" if "both_gates s" using that op S by (force simp: both_gates_def gate_kept_def)
  then have "session_common E s'"
    using common same same_saved [OF same] by (auto simp: session_common_def same_def)
  moreover have "session_guarantees me s s'"
    using same S by (simp add: session_guarantees_def same_def)
  ultimately show ?thesis using op S by (simp add: session_own_def)
qed

lemma own_in_order:
  assumes "session_own E me (Some p) s" and "session_common E s" and "holds_heartbeat p" and "\<not> holds_operation p"
    and "sv_lifecycle s \<in> {LifecycleState.Ready, Leaving}"
  shows "in_order E s"
proof -
  have "\<not> both_gates s" using assms(1,3,4) by (auto simp: session_own_def both_gates_def)
  then show ?thesis using assms(2,5) unfolding session_common_def in_order_def by blast
qed

lemmas quiet_simps = quietly_def same_def supervisor_defs hb_break_def hb_continue_def in_order_def

lemma heartbeat_keeps:
  assumes run: "run_heartbeat E t me pc s = Some (pc', s')" and own: "session_own E me (Some (Scheduler pc)) s" and common: "session_common E s"
  shows "keeps E me s (Scheduler pc') s'"
proof -
  have gate: "sv_heartbeat_gate s = Some me \<longleftrightarrow> hb_holds pc" and A: "hb_asserts E pc s" using own by (simp_all add: session_own_def)
  note inert = keeps_quietly [OF _ own common]
  note order = own_in_order [OF own common]
  show ?thesis
  proof (cases pc)
    case (HbLifecycle b)
    then show ?thesis using run gate order
      by (intro inert) (auto simp: quiet_simps split: LifecycleState.splits)
  next
    case (HbSettle b c r)
    show ?thesis
    proof (cases "pc' = HbResume b c")
      case True
      then have s': "s' = s\<lparr>sv_lifecycle := Recovering\<rparr>" "sv_lifecycle s = LifecycleState.Ready"
        using run HbSettle by (auto simp: quiet_simps split: sum.splits if_splits)
      then show ?thesis using A gate HbSettle own common True by (simp add: step_defs in_order_def)
    next
      case False
      then show ?thesis using run gate A HbSettle
        by (intro inert) (auto simp: quiet_simps split: sum.splits if_splits)
    qed
  next
    case (HbResume b c)
    then have s': "pc' = HbWait b (length (sv_resumes s))" "s' = s\<lparr>sv_resumes := sv_resumes s @ [Calling c]\<rparr>" using run by simp_all
    then show ?thesis using A gate HbResume own common
      by (simp add: step_defs waiting_def nth_append list_all_length)
  next
    case (HbWait b k)
    then obtain r where r: "sv_resumes s ! k = Resumed r" "pc' = HbResumed b r" "s' = s" using run by (auto split: resume_status.splits)
    have "resume_over (sv_resumes s ! j)" if "j < length (sv_resumes s)" for j
      using that A HbWait r(1) by (cases "j = k") (auto simp: waiting_def resume_over_def)
    then show ?thesis using A gate HbWait r
      by (intro inert) (simp_all add: quiet_simps waiting_def list_all_length)
  next
    case (HbResumed b r)
    then show ?thesis using run gate A own common
      by (cases r) (auto simp: step_defs supervisor_defs result_ok_def saturating_add_def resume_failure_def coherent_def
          split: prod.splits ResumeTransactionError.splits if_splits)
  next
    case (HbReady b)
    then show ?thesis using run gate A own common by (auto simp: step_defs)
  qed (use run gate A in \<open>intro inert; auto simp: quiet_simps split: if_splits LifecycleState.splits\<close>)+
qed

lemma abort_keeps:
  assumes run: "hb_abort pc s = Some (pc', s')" and own: "session_own E me (Some (Scheduler pc)) s" and common: "session_common E s"
  shows "keeps E me s (Scheduler pc') s'"
  using run own by (intro keeps_quietly [OF _ own common]) (auto simp: hb_abort_def quiet_simps session_own_def split: if_splits)

lemma report_keeps:
  assumes run: "report_availability E t me a pc s = Some (pc', s')" and own: "session_own E me (Some (Report a pc)) s" and common: "session_common E s"
  shows "keeps E me s (Report a pc') s'"
proof -
  have gate: "sv_heartbeat_gate s = Some me \<longleftrightarrow> rp_holds pc" and A: "rp_asserts E pc s" using own by (simp_all add: session_own_def)
  note inert = keeps_quietly [OF _ own common]
  note order = own_in_order [OF own common]
  show ?thesis
  proof (cases pc)
    case RpRegister
    then show ?thesis using run gate by (intro inert) (auto simp: quiet_simps split: sum.splits prod.splits)
  next
    case (RpLifecycle token)
    then show ?thesis using run gate order by (intro inert) (auto simp: quiet_simps rp_return_def split: if_splits)
  next
    case (RpSettle c r)
    show ?thesis
    proof (cases "pc' = RpResume c")
      case True
      then have s': "s' = s\<lparr>sv_lifecycle := Recovering\<rparr>" "sv_lifecycle s = LifecycleState.Ready"
        using run RpSettle by (auto simp: rp_return_def split: sum.splits if_splits)
      then show ?thesis using A gate RpSettle own common True by (simp add: step_defs in_order_def)
    next
      case False
      then show ?thesis using run gate A RpSettle
        by (intro inert) (auto simp: quiet_simps rp_return_def split: sum.splits if_splits)
    qed
  next
    case (RpResume c)
    then have s': "pc' = RpWait (length (sv_resumes s))" "s' = s\<lparr>sv_resumes := sv_resumes s @ [Calling c]\<rparr>" using run by simp_all
    then show ?thesis using A gate RpResume own common
      by (simp add: step_defs waiting_def nth_append list_all_length)
  next
    case (RpWait k)
    then obtain r where r: "sv_resumes s ! k = Resumed r" "pc' = RpResumed r" "s' = s" using run by (auto split: resume_status.splits)
    have "resume_over (sv_resumes s ! j)" if "j < length (sv_resumes s)" for j
      using that A RpWait r(1) by (cases "j = k") (auto simp: waiting_def resume_over_def)
    then show ?thesis using A gate RpWait r
      by (intro inert) (simp_all add: quiet_simps waiting_def list_all_length)
  next
    case (RpResumed r)
    then show ?thesis using run gate A own common
      by (cases r) (auto simp: step_defs supervisor_defs result_ok_def saturating_add_def coherent_def split: prod.splits)
  next
    case RpReady
    then show ?thesis using run gate A own common by (auto simp: step_defs rp_return_def supervisor_defs)
  next
    case (RpFailed e)
    then show ?thesis using run gate A own common
      by (auto simp: step_defs supervisor_defs rp_return_def publish_resume_failure_def result_ok_def resume_failure_def
          split: prod.splits ResumeTransactionError.splits if_splits)
  qed (use run gate A in \<open>intro inert; auto simp: quiet_simps rp_return_def split: if_splits\<close>)+
qed

lemma authority_coherent:
  "au_asserts pc s \<Longrightarrow> authority E pc s = Inl pc' \<Longrightarrow> au_asserts pc' s"
  "au_asserts pc s \<Longrightarrow> authority E pc s = Inr (Inr au) \<Longrightarrow> coherent (au_credential au) (au_generation au) s"
  by (cases pc; auto simp: coherent_def Let_def split: if_splits)+

lemma sender_keeps:
  assumes run: "session_send E p pc s = Some (pc', s', n)" and own: "session_own E me (Some (Sender p pc)) s" and common: "session_common E s"
  shows "keeps E me s (Sender p pc') s'" and "n = Some (au, entry) \<Longrightarrow> coherent (au_credential au) (au_generation au) s'"
proof -
  have A: "sr_asserts pc s" and gate: "sv_heartbeat_gate s \<noteq> Some me" using own by (simp_all add: session_own_def)
  have "sr_asserts pc' s' \<and> same s s' \<and> sv_heartbeat_gate s' = sv_heartbeat_gate s \<and> sv_operation_gate s' = sv_operation_gate s
      \<and> (n = Some (au, entry) \<longrightarrow> coherent (au_credential au) (au_generation au) s')"
    using run A authority_coherent
    by (cases pc) (auto simp: same_def coherent_def split: sum.splits prod.splits SendReservation.splits option.splits)
  then show "keeps E me s (Sender p pc') s'" and "n = Some (au, entry) \<Longrightarrow> coherent (au_credential au) (au_generation au) s'"
    using gate by (auto intro!: keeps_quietly [OF _ own common] simp: quietly_def)
qed

lemma owner_keeps:
  assumes run: "owned_send t me p au entry pc s = Some (pc', s')" and own: "session_own E me (Some (SendOwner p au entry pc)) s"
    and common: "session_common E s"
  shows "keeps E me s (SendOwner p au entry pc') s'"
proof -
  have gate: "sv_heartbeat_gate s = Some me \<longleftrightarrow> sd_holds pc" and A: "sd_asserts E au pc s" "coherent (au_credential au) (au_generation au) s"
    using own by (simp_all add: session_own_def)
  note order = own_in_order [OF own common]
  show ?thesis
    using run gate A order
    by (intro keeps_quietly [OF _ own common], cases pc) (auto simp: quiet_simps coherent_def Let_def split: if_splits)
qed

text \<open>Tasks that deal with the operation gate.\<close>

definition gently :: "session_env \<Rightarrow> nat \<Rightarrow> SupervisorState \<Rightarrow> session_task \<Rightarrow> SupervisorState \<Rightarrow> bool" where
  "gently E me s p' s' \<longleftrightarrow> same s s' \<and> gate_kept me (sv_heartbeat_gate s) (sv_heartbeat_gate s')
     \<and> gate_kept me (sv_operation_gate s) (sv_operation_gate s') \<and> (both_gates s \<longrightarrow> both_gates s' \<or> sv_lifecycle s = Left)
     \<and> (sv_heartbeat_gate s' = Some me \<longleftrightarrow> holds_heartbeat p') \<and> (sv_operation_gate s' = Some me \<longleftrightarrow> holds_operation p')
     \<and> asserts E p' s'"

lemma keeps_gently:
  assumes "gently E me s p' s'" and "session_common E s"
  shows "keeps E me s p' s'"
proof -
  note S = assms(1) [unfolded gently_def]
  have same: "same s s'" using S by blast
  then have "session_common E s'"
    using assms(2) S same_saved [OF same] by (auto simp: session_common_def same_def)
  moreover have "session_guarantees me s s'" using same S by (simp add: session_guarantees_def same_def)
  ultimately show ?thesis using S by (simp add: session_own_def)
qed

lemmas gentle_simps = gently_def same_def supervisor_defs both_gates_def

lemma reader_keeps:
  assumes "session_own E me (Some (Reader pc)) s" and "session_common E s"
  shows "keeps E me s (Reader pc') s"
  using assms by (intro keeps_gently) (auto simp: gentle_simps session_own_def)

lemma operator_keeps:
  assumes run: "gated_operation E t me pc s = Some (pc', s')" and own: "session_own E me (Some (Operator pc)) s" and common: "session_common E s"
  shows "keeps E me s (Operator pc') s'"
proof -
  have gates: "sv_heartbeat_gate s \<noteq> Some me" "sv_operation_gate s = Some me \<longleftrightarrow> op_holds pc" using own by (simp_all add: session_own_def)
  show ?thesis
    using run gates
    by (intro keeps_gently [OF _ common], cases pc) (auto simp: gentle_simps split: if_splits sum.splits)
qed

lemma stopper_keeps:
  assumes run: "shutdown t me pc s = Some (pc', s')" and own: "session_own E me (Some (Stopper pc)) s" and common: "session_common E s"
  shows "keeps E me s (Stopper pc') s'"
proof -
  have gates: "sv_heartbeat_gate s \<noteq> Some me" "sv_operation_gate s = Some me \<longleftrightarrow> sh_holds pc" using own by (simp_all add: session_own_def)
  show ?thesis
    using run gates
    by (intro keeps_gently [OF _ common], cases pc) (auto simp: gentle_simps split: if_splits)
qed

lemma requester_keeps:
  assumes run: "request_shutdown dropped pc s = Some (pc', s')" and own: "session_own E me (Some (Requester dropped pc)) s" and common: "session_common E s"
  shows "keeps E me s (Requester dropped pc') s'"
proof -
  have gates: "sv_heartbeat_gate s \<noteq> Some me" "sv_operation_gate s \<noteq> Some me" using own by (simp_all add: session_own_def)
  show ?thesis
    using run gates
    by (intro keeps_gently [OF _ common], cases pc) (auto simp: gentle_simps split: if_splits)
qed

text \<open>Ending a rollback with or without the heartbeat gate.\<close>

lemma rollback_ends:
  assumes own: "session_own E me (Some (Leaver pc)) s" and common: "session_common E s"
    and pc: "lv_holds pc" "lv_gated pc = gated" "sv_lifecycle s = Leaving" "gated \<Longrightarrow> in_order E s"
    and s': "s' = free_operation (if gated then free_heartbeat s else s) \<or> s' = free_operation (if gated then free_heartbeat s else s)\<lparr>sv_lifecycle := LifecycleState.Ready\<rparr>"
  shows "keeps E me s (Leaver (LvDone r)) s'"
proof -
  have gates: "sv_heartbeat_gate s = Some me \<longleftrightarrow> gated" "sv_operation_gate s = Some me" using own pc(1,2) by (simp_all add: session_own_def)
  have "saved E (in_force s) (sv_disk s) \<and> quiet (sv_resumes s)"
  proof (cases gated)
    case True
    then show ?thesis using pc(4) by (simp add: in_order_def)
  next
    case False
    then have "\<not> both_gates s" using gates by (auto simp: both_gates_def)
    then show ?thesis using common pc(3) by (simp add: session_common_def)
  qed
  then show ?thesis using s' gates common pc(3) by (cases gated) (auto simp: step_defs supervisor_defs)
qed

lemma leaver_keeps:
  assumes run: "session_leave E t me pc s = Some (pc', s')" and own: "session_own E me (Some (Leaver pc)) s" and common: "session_common E s"
  shows "keeps E me s (Leaver pc') s'"
proof -
  have gates: "sv_heartbeat_gate s = Some me \<longleftrightarrow> lv_gated pc" "sv_operation_gate s = Some me \<longleftrightarrow> lv_holds pc" and A: "lv_asserts E pc s"
    using own by (simp_all add: session_own_def)
  note inert = keeps_gently [OF _ common]
  have free: "\<not> both_gates s" if "\<not> lv_gated pc" "lv_holds pc" using that gates by (auto simp: both_gates_def)
  show ?thesis
  proof (cases pc)
    case (LvBegin token)
    then show ?thesis using run gates free common
      by (auto simp: step_defs supervisor_defs lv_return_def split: LifecycleState.splits)
  next
    case LvCleanupAgain
    then show ?thesis using run gates A common
      by (auto simp: step_defs supervisor_defs lv_return_def split: prod.splits)
  next
    case LvGate
    then show ?thesis using run gates A common free by (auto simp: step_defs in_order_def split: if_splits)
  next
    case (LvIntent c)
    have same: "same s s'" and hb: "sv_heartbeat_gate s' = sv_heartbeat_gate s" and op: "sv_operation_gate s' = sv_operation_gate s"
      using run LvIntent by (auto simp: same_def split: sum.splits prod.splits dest!: on_profiles_credentials)
    have "sv_lifecycle s' = Leaving" "in_order E s'" "in_force s' = c"
      using A LvIntent same same_asserts(1) [OF same] by (auto simp: same_def)
    moreover have "(\<exists>e. pc' = LvRollback True e) \<or> (\<exists>pending. pc' = LvCall c pending)"
      using run LvIntent by (auto split: sum.splits prod.splits)
    ultimately show ?thesis using LvIntent gates hb op same by (intro inert) (auto simp: gently_def both_gates_def)
  next
    case (LvAnswer pending answer)
    obtain outcome d where o: "leave_settle (se_site E) (sd_store (se_started E)) (sd_journal (se_started E)) (se_profile E) (tn_issuer t)
        (tn_seam t) pending answer (tn_random t 1) (tn_sys t) (sv_disk s) = (outcome, d)" by fastforce
    show ?thesis
    proof (cases "\<exists>cleanup response. outcome = LeftRelay cleanup response")
      case True
      then show ?thesis using run LvAnswer o gates A common by (auto simp: step_defs)
    next
      case False
      then have d: "dk_credentials d = dk_credentials (sv_disk s)" using leave_settle_credentials [OF o] by blast
      have s': "s' = s\<lparr>sv_disk := d\<rparr>" "(\<exists>e. pc' = LvRollback True e) \<or> (\<exists>e. pc' = LvUnknown e)"
        using run LvAnswer o False by (auto split: leave_outcome.splits)
      have same: "same s s'" using s' d by (simp add: same_def)
      then show ?thesis using LvAnswer A gates s'(2) same_asserts(1) [OF same]
        by (intro inert) (auto simp: gently_def both_gates_def s'(1))
    qed
  next
    case (LvRollback gated e)
    show ?thesis
    proof (cases "sv_shutdown_requested s")
      case True
      then have "pc' = LvDone (Inl e)" "s' = free_operation (if gated then free_heartbeat s else s)"
        using run LvRollback by (simp_all add: lv_return_def)
      then show ?thesis using rollback_ends [OF own common, of gated s' "Inl e"] A LvRollback by simp
    next
      case False
      then show ?thesis using run LvRollback gates A by (intro inert) (auto simp: gentle_simps in_order_def)
    qed
  next
    case (LvRollbackFlag gated e)
    show ?thesis
    proof (cases "sv_shutdown_requested s")
      case True
      then have "pc' = LvDone (Inl e)" "s' = free_operation (if gated then free_heartbeat s else s)"
        using run LvRollbackFlag by (simp_all add: lv_return_def)
      then show ?thesis using rollback_ends [OF own common, of gated s' "Inl e"] A LvRollbackFlag by simp
    next
      case False
      then show ?thesis using run LvRollbackFlag gates A by (intro inert) (auto simp: gentle_simps in_order_def)
    qed
  next
    case (LvRollbackLifecycle gated e)
    then have "pc' = LvDone (Inl e)" "s' = free_operation (if gated then free_heartbeat s else s)\<lparr>sv_lifecycle := LifecycleState.Ready\<rparr>"
      using run by (auto simp: lv_return_def supervisor_defs)
    then show ?thesis using rollback_ends [OF own common, of gated s' "Inl e"] A LvRollbackLifecycle by simp
  next
    case (LvUnknownLifecycle e)
    then show ?thesis using run gates A common by (auto simp: step_defs supervisor_defs lv_return_def)
  next
    case (LvLeft c r)
    then show ?thesis using run gates A common by (auto simp: step_defs supervisor_defs lv_return_def)
  qed (use run gates A in \<open>intro inert; auto simp: gentle_simps in_order_def lv_return_def split: if_splits\<close>)+
qed

section \<open>Runs of a session\<close>

definition session_run :: "session_env \<Rightarrow> (session_task, SupervisorState) task_step" where
  "session_run E me p s r \<longleftrightarrow> (\<exists>t. turn_ok E t \<and> task_next E t me p s = Some r)"

definition session_background :: "session_env \<Rightarrow> SupervisorState \<Rightarrow> SupervisorState \<Rightarrow> bool" where
  "session_background E s s' \<longleftrightarrow> (\<exists>t k status d. turn_ok E t \<and> k < length (sv_resumes s)
     \<and> resume_next E t (sv_resumes s ! k) (sv_disk s) = Some (status, d)
     \<and> s' = s\<lparr>sv_resumes := (sv_resumes s)[k := status], sv_disk := d\<rparr>)"

lemma session_run_keeps:
  assumes run: "session_run E me p s (p', s', n)" and own: "session_own E me (Some p) s" and common: "session_common E s"
  shows "keeps E me s p' s'"
proof -
  from run obtain t where t: "task_next E t me p s = Some (p', s', n)" unfolding session_run_def by blast
  show ?thesis
  proof (cases p)
    case (Scheduler pc)
    then show ?thesis using t own common heartbeat_keeps abort_keeps by (auto split: if_splits)
  next
    case (Reader pc)
    then show ?thesis using t own common reader_keeps by auto
  qed (use t own common report_keeps sender_keeps(1) owner_keeps operator_keeps leaver_keeps stopper_keeps requester_keeps in auto)
qed

lemma session_run_spawns:
  assumes run: "session_run E me p s (p', s', Some q)" and own: "session_own E me (Some p) s" and common: "session_common E s"
    and fresh: "session_own E u None s'"
  shows "session_own E u (Some q) s'"
proof -
  from run obtain t where t: "task_next E t me p s = Some (p', s', Some q)" unfolding session_run_def by blast
  then obtain r pc pc' au entry where p: "p = Sender r pc" and q: "q = SendOwner r au entry SdGate"
      and step: "session_send E r pc s = Some (pc', s', Some (au, entry))"
    by (cases p) (auto split: if_splits)
  have "coherent (au_credential au) (au_generation au) s'" using sender_keeps(2) [OF step own [unfolded p] common refl] .
  then show ?thesis using fresh q by (simp add: session_own_def)
qed

lemma arriving_own: "arriving p \<Longrightarrow> session_own E u None s \<Longrightarrow> session_own E u (Some p) s"
  by (erule arriving.cases) (simp_all add: session_own_def)

text \<open>The task of a resume transaction serves the task that waits for it, or none when that was aborted.\<close>

lemma background_waiting:
  assumes env: "env_ok E" and turn: "turn_ok E t" and k: "k < length (sv_resumes s)"
    and run: "resume_next E t (sv_resumes s ! k) (sv_disk s) = Some (status, d)"
    and issued: "\<forall>response c. Persisting response c \<in> set (sv_resumes s) \<longrightarrow> issued E c"
    and waiting: "waiting E j s"
  shows "waiting E j (s\<lparr>sv_resumes := (sv_resumes s)[k := status], sv_disk := d\<rparr>)"
proof -
  have open_k: "\<not> resume_over (sv_resumes s ! k)" using run by (auto simp: resume_over_def)
  then have j: "j = k" using waiting k by (auto simp: waiting_def)
  have "case status of Resumed r \<Rightarrow> result_ok E (s\<lparr>sv_resumes := rs, sv_disk := d\<rparr>) r | _ \<Rightarrow> saved E (in_force s) d" for rs
  proof (cases "sv_resumes s ! k")
    case (Calling c)
    then show ?thesis using run waiting j
      by (auto simp: waiting_def result_ok_def split: option.splits sum.splits prod.splits if_splits)
  next
    case (Persisting response c)
    then have "issued E c" using issued k by (metis nth_mem)
    then show ?thesis using run Persisting persisted_saved [OF env]
      by (auto simp: result_ok_def resume_failure_def split: prod.splits sum.splits)
  qed (use run in simp)
  then show ?thesis using waiting j by (cases status) (auto simp: waiting_def)
qed

lemma not_quiet:
  assumes "k < length rs" and "resume_next E t (rs ! k) d = Some x"
  shows "\<not> quiet rs"
  using assms by (cases "rs ! k") (auto simp: list_all_length resume_over_def)

lemma background_own:
  assumes bg: "session_background E s s'" and common: "session_common E s" and own: "session_own E u r s"
  shows "session_own E u r s'"
proof -
  from bg obtain t k status d where b: "turn_ok E t" "k < length (sv_resumes s)"
      "resume_next E t (sv_resumes s ! k) (sv_disk s) = Some (status, d)"
      and s': "s' = s\<lparr>sv_resumes := (sv_resumes s)[k := status], sv_disk := d\<rparr>"
    unfolding session_background_def by blast
  have loud: "\<not> quiet (sv_resumes s)" by (rule not_quiet [OF b(2,3)])
  then have order: "\<not> in_order E s" by (simp add: in_order_def)
  have wait: "waiting E j s \<Longrightarrow> waiting E j s'" for j
    using background_waiting [OF _ b] common unfolding s' session_common_def by blast
  have coherent: "coherent c g s' = coherent c g s" for c g by (simp add: coherent_def s')
  show ?thesis
  proof (cases r)
    case None
    then show ?thesis using own by (simp add: session_own_def s')
  next
    case (Some task)
    have "asserts E task s" using own Some by (simp add: session_own_def)
    then have "asserts E task s'"
    proof (cases task)
      case (Scheduler pc)
      then show ?thesis using \<open>asserts E task s\<close> loud order wait by (cases pc) simp_all
    next
      case (Report a pc)
      then show ?thesis using \<open>asserts E task s\<close> loud order wait by (cases pc) simp_all
    next
      case (Sender p pc)
      then show ?thesis using \<open>asserts E task s\<close> coherent
        by (cases pc) (auto elim!: au_asserts.elims)
    next
      case (SendOwner p au entry pc)
      then show ?thesis using \<open>asserts E task s\<close> order coherent by (cases pc) simp_all
    next
      case (Leaver pc)
      then show ?thesis using \<open>asserts E task s\<close> order by (cases pc) (simp_all add: s')
    qed simp_all
    then show ?thesis using own Some by (simp add: session_own_def s')
  qed
qed

lemma background_common:
  assumes bg: "session_background E s s'" and common: "session_common E s"
  shows "session_common E s'"
proof -
  from bg obtain t k status d where b: "turn_ok E t" "k < length (sv_resumes s)"
      "resume_next E t (sv_resumes s ! k) (sv_disk s) = Some (status, d)"
      and s': "s' = s\<lparr>sv_resumes := (sv_resumes s)[k := status], sv_disk := d\<rparr>"
    unfolding session_background_def by blast
  have loud: "\<not> quiet (sv_resumes s)" by (rule not_quiet [OF b(2,3)])
  have "issued E c" if "status = Persisting response c" for response c
    using that b(1,3) by (cases "sv_resumes s ! k") (auto simp: turn_ok_def split: option.splits sum.splits if_splits prod.splits)
  then have "issued E c" if "Persisting response c \<in> set (sv_resumes s')" for response c
    using that common set_update_subset_insert [of "sv_resumes s" k status] by (auto simp: session_common_def s')
  then show ?thesis using common loud by (auto simp: session_common_def s' both_gates_def)
qed

interpretation session_tasks: cooperation "session_run E" arriving "session_background E" session_guarantees "session_own E" "session_common E" for E
proof
  show "session_own E t (Some p') s' \<and> session_common E s' \<and> session_guarantees t s s'"
    if "session_run E t p s (p', s', n)" "session_own E t (Some p) s" "session_common E s" for t p s p' s' n
    by (rule session_run_keeps [OF that])
  show "session_own E u (Some q) s'"
    if "session_run E t p s (p', s', Some q)" "session_own E t (Some p) s" "session_common E s" "session_own E u None s'" for t p s p' s' q u
    by (rule session_run_spawns [OF that])
  show "session_own E u r s'" if "session_guarantees t s s'" "session_common E s" "u \<noteq> t" "session_own E u r s" for t s s' u r
    by (rule session_stable [OF that(1,3,4)])
qed (fact arriving_own background_own background_common)+

definition session_step :: "session_env \<Rightarrow> (session_task, SupervisorState) world \<Rightarrow> (session_task, SupervisorState) world \<Rightarrow> bool" where
  "session_step E = executor (session_run E) arriving (session_background E)"

definition session_start :: "session_env \<Rightarrow> disk \<Rightarrow> (session_task, SupervisorState) world" where
  "session_start E d = ([0 \<mapsto> Scheduler (HbTop (from_secs 1))], SupervisorState_new E d)"

definition startable_session :: "session_env \<Rightarrow> disk \<Rightarrow> bool" where
  "startable_session E d \<longleftrightarrow> env_ok E \<and> saved E (sh_credential (sd_shared (se_started E))) d
     \<and> sh_generation (sd_shared (se_started E)) \<le> 1"

lemma session_agrees:
  assumes "startable_session E d" and "(session_step E)\<^sup>*\<^sup>* (session_start E d) w"
  shows "session_tasks.agrees E w"
proof -
  have "session_tasks.agrees E (session_start E d)"
    using assms(1)
    by (auto simp: session_tasks.agrees_def session_start_def startable_session_def session_common_def session_own_def
        SupervisorState_new_def usize_max_def)
  then show ?thesis using assms(2) unfolding session_step_def by (rule session_tasks.run_agrees [rotated])
qed

text \<open>The tasks that talk to the relay under the heartbeat gate, with the credential they use.\<close>

fun speaks :: "session_task \<Rightarrow> ClientCredential option" where
  "speaks (Scheduler (HbCall b req c)) = Some c"
| "speaks (Report a (RpCall token c)) = Some c"
| "speaks (SendOwner p au entry SdCall) = Some (au_credential au)"
| "speaks (Leaver (LvCall c pending)) = Some c"
| "speaks _ = None"

lemma speaks_own:
  assumes "session_own E u (Some p) s" and "speaks p = Some c"
  shows "sv_heartbeat_gate s = Some u" and "in_order E s" and "sh_generation (sv_shared s) < usize_max \<Longrightarrow> c = in_force s"
  using assms by (cases p rule: speaks.cases; auto simp: session_own_def coherent_def)+

lemma executor_edge:
  assumes "session_tasks.agrees E w" and "session_step E w w'"
  shows "lifecycle_edge (sv_lifecycle (snd w)) (sv_lifecycle (snd w'))"
  by (rule session_tasks.executor_guarantees [OF assms(2) [unfolded session_step_def] assms(1)])
    (auto simp: session_guarantees_def session_background_def)

text \<open>
  A caller who has not passed the second look at the life cycle, or was refused. (\<open>AuFlagAgain\<close> looks at the
  shutdown request only: a caller there gets its authority whatever the life cycle has become.)
\<close>

fun asking :: "authority_pc \<Rightarrow> bool" where
  "asking (AuFlagAgain credential generation) = False"
| "asking _ = True"

fun turned_away :: "session_task \<Rightarrow> bool" where
  "turned_away (Sender p (SrAuthority pc)) = asking pc"
| "turned_away (Sender p (SrDone r)) = (r = Inl SessionError.NotReady)"
| "turned_away (Sender p _) = False"
| "turned_away (Reader RdToken) = True"
| "turned_away (Reader (RdAuthority token pc)) = asking pc"
| "turned_away (Reader (RdDone r)) = (r = Inl SessionError.NotReady)"
| "turned_away (Reader _) = False"
| "turned_away (Operator OpGate) = True"
| "turned_away (Operator (OpAuthority pc)) = asking pc"
| "turned_away (Operator (OpDone r)) = (r = Inl SessionError.NotReady)"
| "turned_away (Operator _) = False"
| "turned_away _ = True"

lemma asking_refused:
  assumes "sv_lifecycle s \<noteq> LifecycleState.Ready" and "asking pc"
  shows "case authority E pc s of Inl pc' \<Rightarrow> asking pc' | Inr r \<Rightarrow> r = Inl SessionError.NotReady"
  using assms by (cases pc) auto

lemma task_stays_turned_away:
  assumes "task_next E t me p s = Some (p', s', spawned)" and "sv_lifecycle s \<noteq> LifecycleState.Ready" and "turned_away p"
  shows "turned_away p'"
proof (cases p)
  case (Sender prepared pc)
  then show ?thesis using assms asking_refused [OF assms(2), of _ E]
    by (cases pc) (fastforce split: sum.splits)+
next
  case (Reader pc)
  then show ?thesis using assms asking_refused [OF assms(2), of _ E]
    by (cases pc) (fastforce split: sum.splits)+
next
  case (Operator pc)
  then show ?thesis using assms asking_refused [OF assms(2), of _ E]
    by (cases pc) (fastforce split: sum.splits if_split_asm)+
qed (use assms(1) in auto)

lemma step_stays_turned_away:
  assumes "session_step E (T, s) (T', s')" and "sv_lifecycle s \<noteq> LifecycleState.Ready" and "pred_option turned_away (T u)"
  shows "pred_option turned_away (T' u)"
  using assms(1) unfolding session_step_def
proof (cases rule: executor.cases)
  case (moves t p p')
  then show ?thesis using assms(2,3) by (auto simp: session_run_def dest: task_stays_turned_away)
next
  case (forks t p p' q v)
  then have "turned_away q" by (cases p) (auto simp: session_run_def split: option.splits)
  then show ?thesis using forks assms(2,3) by (auto simp: session_run_def dest: task_stays_turned_away)
qed (use assms(3) in \<open>auto simp: arriving_simps\<close>)

section \<open>Properties\<close>

text \<open>
  (C10) Whoever talks to the relay in the name of the session under the heartbeat gate - the scheduler, a
  report, a send or a leave - is alone in doing so and uses the credential in force, no rotation is under
  way, and that credential is durable: a start after a crash at this moment loads it. This holds at every
  moment of every run, however tasks interleave, calls arrive, the relay answers and the disk fails,
  whether leaves are rolled back, the session is shut down or the scheduler is aborted. The generation
  must not have reached the maximum at which it stops counting.
\<close>

theorem relay_calls_use_the_durable_credential:
  assumes "startable_session E d" and "(session_step E)\<^sup>*\<^sup>* (session_start E d) (T, s)"
    and "T u = Some p" and "speaks p = Some c" and "sh_generation (sv_shared s) < usize_max"
  shows "sv_heartbeat_gate s = Some u \<and> c = in_force s \<and> quiet (sv_resumes s)
    \<and> (\<forall>v q. T v = Some q \<and> speaks q \<noteq> None \<longrightarrow> v = u)
    \<and> (\<forall>d' os. (d' = sv_disk s \<or> disk_crash (sv_disk s) d') \<and> os_fail os = (\<lambda>_. None) \<longrightarrow>
        fst (load (st_store (se_site E)) (sd_store (se_started E)) os (sd_binding (se_started E)) (dk_credentials d')) = Inr c)"
proof -
  have own: "session_own E v (T v) s" for v
    using session_agrees [OF assms(1,2)] by (simp add: session_tasks.agrees_def)
  note me = speaks_own [OF own [of u, unfolded assms(3)] assms(4)]
  have c: "c = in_force s" by (rule me(3) [OF assms(5)])
  have order: "saved E c (sv_disk s)" "quiet (sv_resumes s)" using me(2) c by (simp_all add: in_order_def)
  have alone: "v = u" if "T v = Some q" "speaks q \<noteq> None" for v q
    using speaks_own(1) [OF own [of v, unfolded that(1)]] that(2) me(1) by auto
  have "fst (load (st_store (se_site E)) (sd_store (se_started E)) os (sd_binding (se_started E)) (dk_credentials d')) = Inr c"
    if "d' = sv_disk s \<or> disk_crash (sv_disk s) d'" "os_fail os = (\<lambda>_. None)" for d' os
    using saved_loads [OF _ that(2)] saved_crash order(1) that(1) by blast
  with me(1) c order(2) alone show ?thesis by blast
qed

text \<open>
  (C11) The life cycle of a session only moves along its edges, and its ends are final: a step keeps the
  state or goes from ready to leaving or recovering and back, from leaving to left or unknown, from
  recovering to unknown or failed rotation. Once the session has left, its outcome is unknown or its
  rotation failed, this never changes again whatever tasks do, and no task is about to send a heartbeat, a report, a message or a
  leave to the relay. A send, read or operation that arrives after the end, or had not passed its second look at the life cycle
  by then, never gets authority: it is still asking, or was refused as not ready. (One that had passed it
  may still be granted and make its read or operation; a send so granted is refused by its owner.)
\<close>

theorem session_end_is_final:
  assumes "startable_session E d" and "(session_step E)\<^sup>*\<^sup>* (session_start E d) (T, s)" and "(session_step E)\<^sup>*\<^sup>* (T, s) (T', s')"
  shows "(\<forall>T2 s2. session_step E (T', s') (T2, s2) \<longrightarrow> lifecycle_edge (sv_lifecycle s') (sv_lifecycle s2))
    \<and> (sv_lifecycle s \<in> {Left, LifecycleState.OutcomeUnknown, LifecycleState.RotationFailed} \<longrightarrow>
        sv_lifecycle s' = sv_lifecycle s \<and> (\<forall>u p. T' u = Some p \<longrightarrow> speaks p = None)
        \<and> (\<forall>u. pred_option turned_away (T u) \<longrightarrow> pred_option turned_away (T' u)))"
proof -
  have edge: "lifecycle_edge (sv_lifecycle (snd w)) (sv_lifecycle (snd w'))"
    if "(session_step E)\<^sup>*\<^sup>* (session_start E d) w" "session_step E w w'" for w w'
    by (rule executor_edge [OF session_agrees [OF assms(1) that(1)] that(2)])
  have late: "(session_step E)\<^sup>*\<^sup>* (session_start E d) (T', s')" using assms(2,3) by (rule rtranclp_trans)
  have final: "sv_lifecycle (snd w) = sv_lifecycle s \<and> (\<forall>u. pred_option turned_away (T u) \<longrightarrow> pred_option turned_away (fst w u))"
    if "(session_step E)\<^sup>*\<^sup>* (T, s) w" and over: "sv_lifecycle s \<in> {Left, LifecycleState.OutcomeUnknown, LifecycleState.RotationFailed}" for w
    using that(1)
  proof (induction rule: rtranclp_induct)
    case (step v w)
    have "(session_step E)\<^sup>*\<^sup>* (session_start E d) v" using assms(2) step(1) by (rule rtranclp_trans)
    from edge [OF this step(2)] have "sv_lifecycle (snd w) = sv_lifecycle s" using step(3) over by auto
    moreover have "pred_option turned_away (fst w u)" if "pred_option turned_away (T u)" for u
      using step_stays_turned_away [of E "fst v" "snd v" "fst w" "snd w" u] step(2,3) over that by auto
    ultimately show ?case by blast
  qed simp
  have silent: "speaks p = None" if "T' u = Some p" "sv_lifecycle s' \<notin> {LifecycleState.Ready, Leaving}" for u p
  proof (rule ccontr)
    assume "speaks p \<noteq> None"
    then obtain c where c: "speaks p = Some c" by blast
    have "session_own E u (Some p) s'"
      using session_agrees [OF assms(1) late] that(1) by (auto simp: session_tasks.agrees_def dest: spec [of _ u])
    from speaks_own(2) [OF this c] show False using that(2) by (simp add: in_order_def)
  qed
  show ?thesis
  proof (intro conjI impI allI)
    show "lifecycle_edge (sv_lifecycle s') (sv_lifecycle s2)" if "session_step E (T', s') (T2, s2)" for T2 s2
      using edge [OF late that] by simp
  next
    assume over: "sv_lifecycle s \<in> {Left, LifecycleState.OutcomeUnknown, LifecycleState.RotationFailed}"
    show *: "sv_lifecycle s' = sv_lifecycle s" using final [OF assms(3) over] by simp
    show "speaks p = None" if "T' u = Some p" for u p using silent [OF that] over * by auto
    show "pred_option turned_away (T' u)" if "pred_option turned_away (T u)" for u using final [OF assms(3) over] that by simp
  qed
qed

section \<open>A session on the sample profile\<close>

definition sample_env :: session_env where
  "sample_env = \<lparr>se_site = sample_site,
     se_spec = \<lparr>rp_profile = sample_profile, rp_mode = AgentModeDto.Scheduled,
       rp_client_metadata = \<lparr>cm_kind = ''test'', cm_hostname = None, cm_version = None\<rparr>\<rparr>,
     se_started = \<lparr>sd_shared = ready sample_credential 0 30 (ApiTimestamp 0), sd_store = \<lparr>cs_name = Some ''c''\<rparr>,
       sd_journal = ''p.leave-v1.json'', sd_binding = sample_binding\<rparr>\<rparr>"

definition sample_turn :: turn where
  "sample_turn = \<lparr>tn_interrupted = False, tn_heartbeat = Inl Error.Timeout, tn_resume = None, tn_send = Inl Error.Timeout,
     tn_leave = Inl Error.Timeout, tn_reply = Inl Error.Timeout,
     tn_issuer = SystemJournalIssuer sample_url_lib (Inr [0]) 0 0, tn_seam = (\<lambda>_. Inr ()), tn_random = (\<lambda>_. Inr [0]), tn_sys = (\<lambda>_. sample_os)\<rparr>"

lemma sample_session: "startable_session sample_env sample_disk"
proof -
  have b: "binding_of sample_profile = sample_binding" by (simp add: binding_of_def sample_profile_def sample_binding_def)
  have binding: "CredentialBinding_new sample_url_lib ''http://127.0.0.1:7341'' ''default'' ''sqd_1'' ''mem_1'' = Inr sample_binding"
    by (rule sample_binding_new)
  have encoded: "sl_to_vec sample_store_lib (credential_record sample_binding sample_credential (''Bearer '' @ sample_raw)) = Some ''{}''"
    by (simp add: sample_store_lib_def sample_store_record_def)
  note loaded = load_stored_record [OF sample_store_laws binding [folded sample_journal_codec(2)] sample_issued encoded, where m = 384]
  have "loads_as sample_env sample_credential (Some (Regular ''{}'' True 384))"
    using loaded by (auto simp: loads_as_def sample_env_def sample_journal_codec MAX_CREDENTIAL_BYTES_def)
  then have "saved sample_env sample_credential sample_disk"
    by (simp add: saved_def entry_in_def sample_disk_def) (simp add: sample_env_def)
  moreover have "env_ok sample_env"
    using binding sample_store_laws by (auto simp: env_ok_def sample_env_def sample_journal_codec)
  ultimately show ?thesis by (simp add: startable_session_def) (simp add: sample_env_def ready_def)
qed

lemma sample_moves:
  assumes "run_heartbeat sample_env sample_turn 0 pc s = Some (pc', s')" and "\<not> sv_abort s"
  shows "session_step sample_env ([0 \<mapsto> Scheduler pc], s) ([0 \<mapsto> Scheduler pc'], s')"
proof -
  have "turn_ok sample_env sample_turn" by (simp add: turn_ok_def sample_turn_def)
  then have "session_run sample_env 0 (Scheduler pc) s (Scheduler pc', s', None)"
    using assms by (auto simp: session_run_def)
  from executor.moves [of "[0 \<mapsto> Scheduler pc]" 0 _ "session_run sample_env", OF _ this] show ?thesis
    by (simp add: session_step_def)
qed

lemma sample_first_heartbeat:
  "\<exists>s b req. (session_step sample_env)\<^sup>*\<^sup>* (session_start sample_env sample_disk) ([0 \<mapsto> Scheduler (HbCall b req sample_credential)], s)
     \<and> sh_generation (sv_shared s) < usize_max"
proof -
  let ?s = "SupervisorState_new sample_env sample_disk"
  let ?g = "?s\<lparr>sv_heartbeat_gate := Some 0\<rparr>"
  let ?req = "\<lparr>hq_availability = AvailabilityDto.Unknown, hq_availability_source = AvailabilitySourceDto.Unknown\<rparr>"
  note start = SupervisorState_new_def sample_env_def ready_def sample_turn_def
  let ?w = "\<lambda>pc s. ([0 \<mapsto> Scheduler pc], s)"
  have "(session_step sample_env)\<^sup>*\<^sup>* (session_start sample_env sample_disk) (?w (HbTop (from_secs 1)) ?s)" by (simp add: session_start_def)
  also have "session_step sample_env (?w (HbTop (from_secs 1)) ?s) (?w (HbSleep 30 (from_secs 1)) ?s)"
    by (rule sample_moves) (simp_all add: start)
  also have "session_step sample_env \<dots> (?w (HbGate (from_secs 1)) ?s)" by (rule sample_moves) (simp_all add: start)
  also have "session_step sample_env \<dots> (?w (HbFlag (from_secs 1)) ?g)" by (rule sample_moves) (simp_all add: start)
  also have "session_step sample_env \<dots> (?w (HbLifecycle (from_secs 1)) ?g)" by (rule sample_moves) (simp_all add: start)
  also have "session_step sample_env \<dots> (?w (HbRequest (from_secs 1)) ?g)" by (rule sample_moves) (simp_all add: start)
  also have "session_step sample_env \<dots> (?w (HbCredential (from_secs 1) ?req) ?g)" by (rule sample_moves) (simp_all add: start)
  also have "session_step sample_env \<dots> (?w (HbCall (from_secs 1) ?req sample_credential) ?g)" by (rule sample_moves) (simp_all add: start)
  finally show ?thesis by (intro exI conjI) (assumption, simp add: start usize_max_def)
qed

theorem relay_calls_use_the_durable_credential_witness:
  "\<exists>T s p. (session_step sample_env)\<^sup>*\<^sup>* (session_start sample_env sample_disk) (T, s) \<and> T 0 = Some p
     \<and> speaks p = Some sample_credential \<and> sv_heartbeat_gate s = Some 0
     \<and> fst (load sample_store_lib \<lparr>cs_name = Some ''c''\<rparr> sample_os sample_binding (dk_credentials (sv_disk s))) = Inr sample_credential"
proof -
  obtain s b req where run: "(session_step sample_env)\<^sup>*\<^sup>* (session_start sample_env sample_disk)
      ([0 \<mapsto> Scheduler (HbCall b req sample_credential)], s)" and gen: "sh_generation (sv_shared s) < usize_max"
    using sample_first_heartbeat by blast
  from relay_calls_use_the_durable_credential [OF sample_session run, of 0 "Scheduler (HbCall b req sample_credential)" sample_credential]
  have "sv_heartbeat_gate s = Some 0"
    "\<forall>os. os_fail os = (\<lambda>_. None) \<longrightarrow> fst (load (st_store (se_site sample_env)) (sd_store (se_started sample_env)) os
       (sd_binding (se_started sample_env)) (dk_credentials (sv_disk s))) = Inr sample_credential"
    using gen by auto
  with run show ?thesis
    by (intro exI [of _ "[0 \<mapsto> Scheduler (HbCall b req sample_credential)]"] exI [of _ s] exI [of _ "Scheduler (HbCall b req sample_credential)"])
      (simp add: sample_env_def sample_journal_codec sample_os_def)
qed

text \<open>A leave whose answer is lost ends the session with an unknown outcome.\<close>

fun leave_steps :: "nat \<Rightarrow> leave_pc \<times> SupervisorState \<Rightarrow> (leave_pc \<times> SupervisorState) option" where
  "leave_steps 0 x = Some x"
| "leave_steps (Suc n) (pc, s) = Option.bind (session_leave sample_env sample_turn 1 pc s) (leave_steps n)"

lemma leave_steps_run:
  assumes "leave_steps n (pc, s) = Some (pc', s')" and "T 1 = Some (Leaver pc)"
  shows "\<exists>T'. (session_step sample_env)\<^sup>*\<^sup>* (T, s) (T', s') \<and> T' 1 = Some (Leaver pc') \<and> T' 2 = T 2"
  using assms
proof (induction n arbitrary: pc s T)
  case 0
  then show ?case by auto
next
  case (Suc n)
  then obtain pc1 s1 where one: "session_leave sample_env sample_turn 1 pc s = Some (pc1, s1)" and rest: "leave_steps n (pc1, s1) = Some (pc', s')"
    by (auto simp: Option.bind_eq_Some_conv)
  have "session_run sample_env 1 (Leaver pc) s (Leaver pc1, s1, None)"
    using one by (auto simp: session_run_def turn_ok_def sample_turn_def intro!: exI [of _ sample_turn])
  then have "session_step sample_env (T, s) (T(1 \<mapsto> Leaver pc1), s1)"
    unfolding session_step_def by (rule executor.moves [of T 1, OF Suc.prems(2)])
  moreover have upd: "(T(1 \<mapsto> Leaver pc1)) 1 = Some (Leaver pc1)" "(T(1 \<mapsto> Leaver pc1)) 2 = T 2" by simp_all
  moreover obtain T' where "(session_step sample_env)\<^sup>*\<^sup>* (T(1 \<mapsto> Leaver pc1), s1) (T', s')" "T' 1 = Some (Leaver pc')" "T' 2 = T 2"
    using Suc.IH [OF rest, of "T(1 \<mapsto> Leaver pc1)", OF upd(1)] upd(2) by metis
  ultimately show ?case by (blast intro: converse_rtranclp_into_rtranclp)
qed

lemma sample_leave_unknown:
  "\<exists>s. leave_steps 14 (LvOperation, SupervisorState_new sample_env sample_disk) = Some (LvDone (Inl (SessionError.Relay Error.Timeout)), s)
     \<and> sv_lifecycle s = LifecycleState.OutcomeUnknown"
  by (simp add: numeral_eq_Suc SupervisorState_new_def sample_env_def sample_turn_def ReportTracker_new_def SendLedger_new_def
      cancel_reports_def stop_and_drain_def stop_admission_def sample_intent_issued on_profiles_def sample_journal_codec
      sample_intent_stored leave_settle_def api_code_def lv_return_def supervisor_defs ready_def Let_def)

text \<open>A reader that arrives then reads nothing.\<close>

theorem session_end_is_final_witness:
  "\<exists>T s T'. (session_step sample_env)\<^sup>*\<^sup>* (session_start sample_env sample_disk) (T, s)
     \<and> sv_lifecycle s = LifecycleState.OutcomeUnknown \<and> T 1 \<noteq> None \<and> Option.bind (T 1) speaks = None
     \<and> T 2 = None \<and> (session_step sample_env)\<^sup>*\<^sup>* (T, s) (T', s) \<and> (\<exists>p. T' 2 = Some p \<and> turned_away p)"
proof -
  obtain s where s: "leave_steps 14 (LvOperation, SupervisorState_new sample_env sample_disk) = Some (LvDone (Inl (SessionError.Relay Error.Timeout)), s)"
    "sv_lifecycle s = LifecycleState.OutcomeUnknown" using sample_leave_unknown by blast
  let ?T = "[0 \<mapsto> Scheduler (HbTop (from_secs 1)), 1 \<mapsto> Leaver LvOperation]"
  have "session_step sample_env (session_start sample_env sample_disk) (?T, SupervisorState_new sample_env sample_disk)"
    unfolding session_step_def session_start_def by (rule executor.enters) (simp_all add: arriving.intros)
  moreover obtain T where T: "(session_step sample_env)\<^sup>*\<^sup>* (?T, SupervisorState_new sample_env sample_disk) (T, s)"
    "T 1 = Some (Leaver (LvDone (Inl (SessionError.Relay Error.Timeout))))" "T 2 = None"
    using leave_steps_run [OF s(1), of ?T] by auto
  ultimately have run: "(session_step sample_env)\<^sup>*\<^sup>* (session_start sample_env sample_disk) (T, s)"
    by (blast intro: converse_rtranclp_into_rtranclp)
  have reads: "(session_step sample_env)\<^sup>*\<^sup>* (T, s) (T(2 \<mapsto> Reader RdToken), s)"
    unfolding session_step_def by (rule r_into_rtranclp, rule executor.enters) (simp_all add: T(3) arriving.intros)
  from session_end_is_final [OF sample_session run reads] s(2) T(2)
  have "Option.bind (T 1) speaks = None" and "pred_option turned_away ((T(2 \<mapsto> Reader RdToken)) 2)" using T(3) by auto
  then show ?thesis using run reads s(2) T(2,3) by (intro exI [of _ T] exI [of _ s] exI [of _ "T(2 \<mapsto> Reader RdToken)"]) simp
qed

end
