(* ===== verification/Spec2Isabelle.thy ===== *)
theory Spec2Isabelle
  imports Codex_Bootstrap Mcp_Framing Mcp_Server Cli_Output Store_Machine Store_Migration Client_Relay App_Error Session_Authority
begin

text \<open>
  \<^bold>\<open>Psst\<close> is a durable message relay for squads of cooperating agents. Agents join a squad over HTTP,
  get a session (an instance with a lease and a resume token), send each other direct messages, poll
  their inbox (with long polls), acknowledge, read the transcript, resume after a crash and leave.

  \<^bold>\<open>Parts of the program and how they interact.\<close> A request reaches a handler of \<open>psst-relay\<close>, which
  checks it with \<open>psst-protocol\<close>, builds the typed values of \<open>psst-core\<close> and puts a command on a
  bounded channel. \<open>psst-client\<close> is the other end of the wire: it validates, sends, retries what is safe to
  retry, and checks what comes back. In the relay, one worker thread owns the SQLite store (\<open>psst-store\<close>), executes commands one at a
  time, each as one transaction, answers on a one-shot channel, and wakes the long polls of the
  recipient after a send. Handlers turn the answer into a response. An agent works through one of three
  programs over the sessions of \<open>psst-application\<close>: \<open>psst-mcp\<close> offers the operations as tools of a model and can
  wake it through a channel, \<open>psst-codex\<close> watches an inbox and runs a turn of a child process when mail is
  pending, and \<open>psst-cli\<close> is the command line.

  \<^bold>\<open>Theories\<close>, in the order of the code (paths below \<open>src/crates\<close>):

  \<^item> \<open>Prelude\<close>: results, options, lists, the collections of rewrite rules.
  \<^item> \<open>Core_Value\<close>, \<open>Core_State\<close>: \<open>psst-core/src\<close>. Validated text values and identifiers (a locale for
    their constructors, interpreted for each type), timestamps, resume tokens, life cycles, leases.
  \<^item> \<open>Sql_Db\<close>, \<open>Db_Invariant\<close>: the five tables of \<open>psst-store/migrations\<close> as records of row lists, every
    CHECK, UNIQUE, partial index and foreign key as a guard of the statements, transactions with
    faults of the engine at begin and commit; the invariant \<open>db_ok\<close> that each statement keeps.
  \<^item> \<open>Store_Repository\<close>, \<open>Store_Instance\<close>, \<open>Store_Message\<close>, \<open>Store_Inbox\<close>, \<open>Store_Auth\<close>, \<open>Store_Sessions\<close>:
    the files of \<open>psst-store/src\<close>, one definition per operation, injected faults included.
    \<open>Store_Auth\<close> holds the definitions of \<open>authenticated.rs\<close> and \<open>Store_Sessions\<close> what they guarantee.
  \<^item> \<open>Store_Machine\<close>: every operation as a step of one relation, with invariants of all reachable stores.
  \<^item> \<open>Store_Migration\<close>: \<open>psst-store/src/lib.rs\<close>, opening and migrating a database file.
  \<^item> \<open>Protocol_Dto\<close>, \<open>Protocol_Validation\<close>, \<open>Protocol_Auth\<close>: \<open>psst-protocol/src\<close>. Wire types, validation of
    requests and responses, session credentials in headers.
  \<^item> \<open>Relay_Registry\<close>, \<open>Relay_Worker\<close>, \<open>Relay_Http\<close>: \<open>psst-relay/src/lib.rs\<close>. The registry of waiting requests,
    the worker thread with its channel and its shutdown (a step relation for the interleavings), the
    configuration, the translation of values and errors, and the handlers.
  \<^item> \<open>Relay_Service\<close>, \<open>Relay_Delivery\<close>: what handlers, worker, store and registry guarantee together.
  \<^item> \<open>Client_Http\<close>: \<open>psst-client/src/lib.rs\<close>. Configuration, operations, decoding of responses and the retry
    loop; a locale states what holds through all attempts of an operation.
  \<^item> \<open>Client_Relay\<close>: the client talking to the relay over a network that loses requests and responses.
  \<^item> \<open>File_System\<close>: a directory as the operating system keeps it, with the states a crash may bring back, system
    calls that may fail each, and the triples in which the file stores are proved; a locale states what
    replacing a file by rename promises, interpreted for both stores.
  \<^item> \<open>Credential_Store\<close>: \<open>psst-client/src/credential_store.rs\<close>. Bindings, storing with the injected faults,
    loading, clearing, removal of remnants.
  \<^item> \<open>App_Error\<close>, \<open>App_Config\<close>, \<open>App_Profile\<close>, \<open>Leave_Journal\<close>, \<open>Activation\<close>, \<open>Harness_Status\<close>: the files of
    \<open>psst-application/src\<close> of these names. Error codes and advice, configuration with its precedence, profile
    files and their exclusive lock, the journal of a leave, the machine that wakes a host and its loop, the
    published status of a host.
  \<^item> \<open>Session_Types\<close>, \<open>Send_Ledger\<close>, \<open>Session_Start\<close>, \<open>Session_Leave\<close>, \<open>Session_Runtime\<close>: \<open>psst-application/src/session.rs\<close>. The
    bounded books of a supervisor, starting, joining and resuming a session, leaving on a disk that fails and
    crashes, and the tasks of a running session, each a program counter with one equation per suspension.
  \<^item> \<open>Rely_Guarantee\<close>, \<open>Session_Authority\<close>: an executor of interleaved tasks with a locale for what tasks assert of
    themselves and guarantee to others, and its interpretation on the tasks of a session.
  \<^item> \<open>Json_Value\<close>: JSON values and their accessors, and operations over a state that may fail, with triples.
  \<^item> \<open>Codex_Wire\<close>, \<open>Codex_Turn\<close>, \<open>Codex_Ledger\<close>, \<open>Codex_Config\<close>, \<open>Codex_Host\<close>: \<open>psst-codex/src/app_server.rs\<close>. The lines
    to and from the child process, a turn with its tool calls, the specification of which messages a turn may
    acknowledge, configuration and schema checks, and the host that starts and ends the process.
  \<^item> \<open>Codex_Bootstrap\<close>: \<open>psst-codex/src/bootstrap.rs\<close>. The observer that gives up its session before a turn runs.
  \<^item> \<open>Mcp_Framing\<close>: \<open>psst-mcp/src/lib.rs\<close>, bounded lines and the supervision of the pumps.
  \<^item> \<open>Mcp_Tools\<close>, \<open>Mcp_Views\<close>: \<open>psst-application/src/mcp.rs\<close> with the validation of \<open>psst-mcp/src/server.rs\<close> and the
    views of \<open>psst-mcp/src/dispatch.rs\<close>. Inputs, outputs, contracts and schemas of the tools.
  \<^item> \<open>Mcp_Dispatch\<close>: \<open>psst-mcp/src/dispatch.rs\<close>. The slot of the session under all interleavings, and every tool.
  \<^item> \<open>Claude_Channel\<close>, \<open>Mcp_Server\<close>: \<open>psst-mcp/src/claude_channel.rs\<close> and \<open>server.rs\<close>. The controller that notifies
    the model, and the handling of a tool call around it.
  \<^item> \<open>Cli_Parse\<close>, \<open>Cli_Relay\<close>, \<open>Cli_Execute\<close>, \<open>Cli_Output\<close>: \<open>psst-cli/src/lib.rs\<close> with the envelopes of
    \<open>psst-application/src/cli.rs\<close>. The grammar of the command line, the configuration and the relay made of it,
    every command over its session, and what is written and how the process exits. A panic is a value.

  \<^bold>\<open>State.\<close> The store is the record \<open>db\<close> (rows in insertion order, the AUTOINCREMENT counter). A session is
  a row of \<open>instances\<close>; its token is stored as a hash. The worker is a record with its phase, queue,
  the replies it gave and the registry. Errors are values of the source's error types, results are
  sums with the error on the left; every \<open>?\<close> of the source is an \<open>rbind\<close>.

  \<^bold>\<open>Parameters.\<close> Code outside the repository is an argument, with what the program relies on as a named
  hypothesis where a theorem needs it: SHA-256 (\<open>H\<close>), base64 (\<open>enc\<close>, \<open>dec\<close>), randomness (entropy and
  draws), the faults of SQLite (\<open>engine\<close>), the order in which a hash map enumerates its keys
  (\<open>enumerates\<close>), the network and HTTP library under the client (\<open>transport\<close>), the semaphore and watch channel of tokio (\<open>tokio_ok\<close>), the instants and the text format of
  the time crate (\<open>instants_ok\<close>), header values (\<open>headers_ok\<close>), JSON serialization, the clock, and for
  migrations the execution of a script.

  \<^bold>\<open>What the theorems show.\<close> All reachable stores are consistent, history is never lost, the credential of a closed
  session is good for nothing but the roster and a resume into another instance, and a send stays idempotent per key through any
  later operations (\<open>Store_Machine\<close>). Each operation: acknowledgements
  are atomic and confined to the caller, pages are bounded prefixes, a resume never takes a session
  from a live owner, authorisation is exact and does not tell a wrong token from an unknown one.
  Pages the relay serves pass the client's validation. A refused request changes nothing but in the two ambiguous cases that are
  shown. What the worker does is a run of the store and of the registry; it answers each
  accepted command once, and after shutdown it returns, having cancelled what it had not begun. No waiting request misses a
  message. Credentials and timestamps survive the wire. Migrations are atomic, exact and idempotent.
  The client's retries are bounded, it reads the relay's errors as they were meant, a send over an
  unreliable network stores its message exactly once, and a join yields a session that works.
  Replacing a credential is atomic under faults and crashes and what was stored loads again. A profile has one
  owner. A leave that is interrupted anywhere is finished or undone by the next start, except after a leave
  that the relay committed and answered as busy or failed, which is shown as well.
  Tasks of a session talk to the relay one at a time with the durable credential in force, and the end of a session is
  final. Turns of a host never
  overlap, wake attempts are bounded, what is published of them is valid, and the sends a supervisor owns are
  bounded in number and bytes.
  A turn of Codex acknowledges only messages it retrieved in the same turn, and no session observes while it runs. The
  MCP server has one session at a time, those whose shutdown failed apart, through every interleaving of joining, leaving, starting and shutdown, its
  channel controller follows that session, a notified turn ends, frames are whole bounded lines, and what its
  validation accepts is, tool by tool, what the protocol accepts. A command line that is accepted never panics, releases its session,
  and in JSON mode writes exactly one value.
  The theorem below puts handlers, worker, registry and store together under a valid configuration.

  \<^bold>\<open>Bounds.\<close> Loops run over lists and end by structural recursion. The thread's loop is a step
  relation; that it returns after shutdown is proved with an explicit number of turns. The long poll and the
  retry for WAL take the list of what they observe and return \<open>None\<close> while they wait; both are shown
  to return once something ends the wait.
  Integers are \<open>int\<close> with the bounds of \<open>i64\<close> written out where the code checks them.

  \<^bold>\<open>Not modelled.\<close> \<open>psst-protocol/src/openapi.rs\<close> is a declarative listing. Of \<open>psst-relay\<close>, the axum router, the
  TCP listener, tracing, \<open>serve\<close> and \<open>main.rs\<close> are calls into third-party frameworks. Commands that
  exist for tests only (\<open>Block\<close>, \<open>ControlledBlock\<close>, \<open>DelayNextSendReply\<close>) are left out. The file stores are modelled in
  their Unix branches; ACLs and reparse points of Windows and the macOS paths are left out, as is
  \<open>psst-platform-security\<close>, which only calls the operating system. The programs' \<open>main.rs\<close>, signals, log output and
  text for debugging are left out; the MCP protocol library, the child process of Codex, schema generation and
  serialization are parameters.
\<close>

section \<open>The relay as a whole\<close>

text \<open>
  The steps of a running relay: a handler submits the command it made of a request, a handler works
  with its subscription, shutdown proceeds, the worker thread takes a turn.
\<close>

inductive relay_step ::
  "library \<Rightarrow> ('sem, 'tx, 'rx) tokio \<Rightarrow> (string \<Rightarrow> string)
   \<Rightarrow> ('sem, 'tx, 'rx) worker \<Rightarrow> ('sem, 'tx, 'rx) worker \<Rightarrow> bool" for L T H where
  request: "handler_command L command \<Longrightarrow> try_send accepting i command w = Inr w' \<Longrightarrow>
    i \<notin> set (wk_accepted w) \<Longrightarrow> relay_step L T H w w'"
| waiter: "registry_step T (wk_waiting w) v \<Longrightarrow> relay_step L T H w (w\<lparr>wk_waiting := v\<rparr>)"
| shutdown: "w' \<in> {stop_accepting w, raise_shutdown w, take_sender w} \<Longrightarrow> relay_step L T H w w'"
| work: "iteration_ok it \<Longrightarrow> worker_turn T H (li_enc L) it w = Some w' \<Longrightarrow> relay_step L T H w w'"

lemma relay_step_worker: "relay_step L T H w w' \<Longrightarrow> worker_step T H (li_enc L) w w'"
  by (induction rule: relay_step.induct)
    (auto intro: worker_step.intros dest: handler_command_wf)

lemma relay_run_worker: "(relay_step L T H)\<^sup>*\<^sup>* w w' \<Longrightarrow> worker_run T H (li_enc L) w w'"
  by (induction rule: rtranclp_induct) (auto intro: relay_step_worker rtranclp.rtrancl_into_rtrancl)

lemma worker_step_capacity: "worker_step T H enc w w' \<Longrightarrow> wk_capacity w' = wk_capacity w"
  by (induction rule: worker_step.induct)
    (auto simp: try_send_Inr stop_accepting_def raise_shutdown_def take_sender_def elim!: worker_turn_cases)

lemma worker_run_capacity: "worker_run T H enc w w' \<Longrightarrow> wk_capacity w' = wk_capacity w"
  by (induction rule: rtranclp_induct) (simp_all add: worker_step_capacity)

text \<open>
  (C2) A relay started with a valid configuration on a new database keeps all its promises at every
  moment, whatever requests arrive, however threads interleave and whenever shutdown begins: what the
  store holds was produced by store operations and is consistent, the queue and the waiting requests
  are bounded, every accepted command is answered at most once and in order, and it is reachable
  from the local network only when that was asked for.
\<close>

theorem relay_is_consistent_and_bounded:
  assumes "tokio_ok T" and "validate_config env_filter config = Inr ()"
    and "(relay_step L T H)\<^sup>*\<^sup>* (start_worker T (rc_queue_capacity config) empty_db) w"
  shows "store_run H (li_enc L) empty_db (wk_store w) \<and> store_ok H (wk_store w)
    \<and> length (wk_queue w) \<le> rc_queue_capacity config \<and> rc_queue_capacity config \<le> 4096
    \<and> length (wt_live (wk_waiting w)) \<le> MAX_INBOX_WAITERS
    \<and> distinct (wk_accepted w) \<and> (\<exists>later. wk_accepted w = map fst (wk_replies w) @ later)
    \<and> (is_loopback (sa_ip (rc_bind config)) \<or> rc_allow_lan config)"
proof -
  note run = relay_run_worker [OF assms(3)]
  have ok: "worker_ok w" "registry_ok T (wk_waiting w)" "store_ok H (wk_store w)"
    using relay_run_ok [OF run assms(1)] by (simp_all add: relay_ok_def)
  have "store_run H (li_enc L) empty_db (wk_store w)" using worker_run_refines [OF run] by simp
  moreover have "wk_capacity w = rc_queue_capacity config"
    using worker_run_capacity [OF run] by (simp add: start_worker_def)
  moreover have "length (wt_live (wk_waiting w)) \<le> MAX_INBOX_WAITERS"
    using ok(2) by (simp add: registry_ok_def)
  moreover have "rc_queue_capacity config \<le> 4096" "is_loopback (sa_ip (rc_bind config)) \<or> rc_allow_lan config"
    using assms(2) by (auto simp: validate_config_def result_simps)
  ultimately show ?thesis using ok(1,3) unfolding worker_ok_def by metis
qed

theorem relay_is_consistent_and_bounded_witness:
  "\<exists>w. try_send True 0 StoreCommand.ListSquads
        (start_worker counting_tokio (rc_queue_capacity (RelayConfig_local ''psst.db'')) empty_db) = Inr w
    \<and> store_ok sample_hash (wk_store w) \<and> length (wk_queue w) \<le> 4096"
proof -
  let ?config = "RelayConfig_local ''psst.db''"
  let ?start = "start_worker counting_tokio (rc_queue_capacity ?config) empty_db"
  have config: "validate_config (\<lambda>_. True) ?config = Inr ()"
    by (simp add: validate_config_def RelayConfig_local_def DEFAULT_QUEUE_CAPACITY_def from_secs_def)
  obtain w where send: "try_send True 0 StoreCommand.ListSquads ?start = Inr w"
    by (simp add: try_send_def start_worker_def RelayConfig_local_def DEFAULT_QUEUE_CAPACITY_def)
  have "(relay_step sample_library counting_tokio sample_hash)\<^sup>*\<^sup>* ?start w"
    by (rule r_into_rtranclp, rule relay_step.request [OF handler_command.list send]) (simp add: start_worker_def)
  from relay_is_consistent_and_bounded [OF counting_tokio_ok config this] send show ?thesis by auto
qed

end
